(* ===== verification/Prelude.thy ===== *)
theory Prelude
  imports Main "HOL-Library.Word"
begin

text \<open>
  Shared ground of the development: names for the C integer types, byte buffers with the
  C library's memory operations on them, big-endian and little-endian field access, the
  interface of a field codec (one locale, interpreted on the 8, 16, 32 and 64 bit accessors and
  on raw byte arrays) and generic lemmas on words that the components share.

  The modelled machine is LP64: \<open>int\<close> and \<open>unsigned\<close> have 32 bits, \<open>long\<close>, \<open>size_t\<close> and
  pointers 64.
\<close>

unbundle bit_operations_syntax

type_synonym u8 = "8 word"
type_synonym u16 = "16 word"
type_synonym u32 = "32 word"
type_synonym u64 = "64 word"
type_synonym bytes = "u8 list"

named_theorems codec_simps \<open>reading back fields of a byte buffer\<close>
named_theorems size_simps \<open>sizes and offsets of on-disk structures\<close>

section \<open>Words\<close>

lemma unat_add_no_wrap:
  fixes a b :: "'a::len word"
  shows "unat a + unat b < 2 ^ LENGTH('a) \<Longrightarrow> unat (a + b) = unat a + unat b"
  by (simp add: unat_word_ariths)

lemma unat_mult_no_wrap:
  fixes a b :: "'a::len word"
  shows "unat a * unat b < 2 ^ LENGTH('a) \<Longrightarrow> unat (a * b) = unat a * unat b"
  by (simp add: unat_word_ariths)

lemma unat_of_nat_small:
  "n < 2 ^ LENGTH('a) \<Longrightarrow> unat (of_nat n :: 'a::len word) = n"
  by (simp add: unat_of_nat)

lemma u8_lt: "unat (w :: u8) < 256" using unsigned_less [of w, where 'a = nat] by simp
lemma u16_lt: "unat (w :: u16) < 65536" using unsigned_less [of w, where 'a = nat] by simp
lemma u32_lt: "unat (w :: u32) < 4294967296" using unsigned_less [of w, where 'a = nat] by simp
lemma u64_lt: "unat (w :: u64) < 18446744073709551616"
  using unsigned_less [of w, where 'a = nat] by simp

lemma of_nat_unat_ucast: "of_nat (unat (w :: 'a::len word)) = (ucast w :: 'b::len word)"
  by simp

lemma unat_ucast_mod:
  "unat (ucast (w :: 'a::len word) :: 'b::len word) = unat w mod 2 ^ LENGTH('b)"
  by (simp add: unsigned_ucast_eq take_bit_eq_mod)

lemma unat_ucast_up:
  fixes w :: "'a::len word"
  shows "LENGTH('a) \<le> LENGTH('b) \<Longrightarrow> unat (ucast w :: 'b::len word) = unat w"
proof -
  assume le: "LENGTH('a) \<le> LENGTH('b)"
  have "unat w < 2 ^ LENGTH('a)" by (rule unsigned_less)
  also have "(2::nat) ^ LENGTH('a) \<le> 2 ^ LENGTH('b)"
    using le by (simp add: power_increasing)
  finally show ?thesis by (simp add: unat_ucast_mod)
qed

lemma unat_drop_bit: "unat (drop_bit n (w :: 'a::len word)) = unat w div 2 ^ n"
proof -
  have "unat w < 2 ^ LENGTH('a)" by (rule unsigned_less)
  then have "take_bit LENGTH('a) (unat w) = unat w" by (simp only: take_bit_eq_mod mod_less)
  then show ?thesis
    by (simp only: unsigned_drop_bit_eq) (simp only: drop_bit_eq_div)
qed

text \<open>Clearing the low \<open>n\<close> bits (\<open>x & ~(2^n - 1)\<close> in the code) rounds down.\<close>

lemma unat_and_not_mask:
  fixes w :: "'a::len word"
  shows "unat (w AND NOT (mask n)) = unat w - unat w mod 2 ^ n"
proof -
  have "w AND NOT (mask n) = push_bit n (drop_bit n w)"
    by (rule bit_word_eqI) (auto simp: bit_simps)
  moreover have "unat (push_bit n (drop_bit n w)) = unat w div 2 ^ n * 2 ^ n"
  proof -
    have "unat w div 2 ^ n * 2 ^ n \<le> unat w" by simp
    also have "\<dots> < 2 ^ LENGTH('a)" by (rule unsigned_less)
    finally have "unat w div 2 ^ n * 2 ^ n < 2 ^ LENGTH('a)" .
    then show ?thesis
      by (simp only: unsigned_push_bit_eq unat_drop_bit) (simp only: push_bit_eq_mult take_bit_eq_mod mod_less)
  qed
  ultimately show ?thesis
    by (simp add: minus_mod_eq_div_mult)
qed

lemma and_not_3: "(w :: 'a::len word) AND NOT 3 = w AND NOT (mask 2)"
  by (simp add: mask_eq_exp_minus_1)

lemma and_not_7: "(w :: 'a::len word) AND NOT 7 = w AND NOT (mask 3)"
  by (simp add: mask_eq_exp_minus_1)

lemma unat_and_not_3: "unat ((w :: 'a::len word) AND NOT 3) = unat w - unat w mod 4"
  by (simp only: and_not_3 unat_and_not_mask) simp

lemma unat_and_not_7: "unat ((w :: 'a::len word) AND NOT 7) = unat w - unat w mod 8"
  by (simp only: and_not_7 unat_and_not_mask) simp

lemma unat_and_mask: "unat ((w :: 'a::len word) AND mask n) = unat w mod 2 ^ n"
  by (simp only: take_bit_eq_mask [symmetric] unsigned_take_bit_eq) (simp only: take_bit_eq_mod)

lemma unat_push_bit:
  fixes w :: "'a::len word"
  shows "unat (push_bit n w) = unat w * 2 ^ n mod 2 ^ LENGTH('a)"
  by (simp only: unsigned_push_bit_eq) (simp only: push_bit_eq_mult take_bit_eq_mod)

section \<open>Byte buffers\<close>

text \<open>
  A memory block is its list of bytes. \<open>slice off n buf\<close> is what a read of \<open>n\<close> bytes at
  \<open>buf + off\<close> sees, \<open>memcpy_at off bs buf\<close> is \<open>memcpy(buf + off, bs, length bs)\<close>: the
  bytes of the block after the copy. A write past the end is undefined in C; here the bytes that
  fall outside the block are not part of it, so a block keeps its size.
\<close>

definition slice :: "nat \<Rightarrow> nat \<Rightarrow> 'a list \<Rightarrow> 'a list" where
  "slice off n buf = take n (drop off buf)"

definition memcpy_at :: "nat \<Rightarrow> 'a list \<Rightarrow> 'a list \<Rightarrow> 'a list" where
  "memcpy_at off bs buf =
     take (length buf) (take off buf @ bs @ drop (off + length bs) buf)"

definition memset_at :: "nat \<Rightarrow> 'a \<Rightarrow> nat \<Rightarrow> 'a list \<Rightarrow> 'a list" where
  "memset_at off c n buf = memcpy_at off (replicate n c) buf"

lemma length_slice [simp]: "off + n \<le> length buf \<Longrightarrow> length (slice off n buf) = n"
  by (simp add: slice_def)

lemma length_memcpy_at [simp]: "length (memcpy_at off bs buf) = length buf"
  by (simp add: memcpy_at_def)

lemma length_memset_at [simp]: "length (memset_at off c n buf) = length buf"
  by (simp add: memset_at_def)

lemma nth_memcpy_at:
  assumes "i < length buf"
  shows "memcpy_at off bs buf ! i
    = (if off \<le> i \<and> i < off + length bs then bs ! (i - off) else buf ! i)"
  using assms by (auto simp: memcpy_at_def nth_append)

lemma nth_memcpy_other:
  "i < off \<or> off + length bs \<le> i \<Longrightarrow> i < length buf \<Longrightarrow> memcpy_at off bs buf ! i = buf ! i"
  by (auto simp: nth_memcpy_at)

lemma memcpy_update:
  assumes "i < off \<or> off + length bs \<le> i"
  shows "memcpy_at off bs (buf[i := x]) = (memcpy_at off bs buf)[i := x]"
proof (cases "i < length buf")
  case True
  then show ?thesis
    using assms by (intro nth_equalityI) (auto simp: nth_memcpy_at nth_list_update)
qed (simp add: list_update_beyond)

lemma slice_memcpy_same:
  "off + length bs \<le> length buf \<Longrightarrow> n = length bs \<Longrightarrow> slice off n (memcpy_at off bs buf) = bs"
  by (simp add: slice_def memcpy_at_def take_drop)

lemma memcpy_memcpy_same:
  "length bs = length cs \<Longrightarrow> memcpy_at off bs (memcpy_at off cs buf) = memcpy_at off bs buf"
  by (rule nth_equalityI) (auto simp: nth_memcpy_at)

lemma slice_nth_eqI:
  assumes "length xs = length ys" and "\<And>i. off \<le> i \<Longrightarrow> i < off + n \<Longrightarrow> i < length ys \<Longrightarrow> xs ! i = ys ! i"
  shows "slice off n xs = slice off n ys"
  using assms by (auto simp: slice_def intro!: nth_equalityI)

lemma slice_memcpy_other:
  assumes "off + n \<le> off' \<or> off' + length bs \<le> off"
  shows "slice off n (memcpy_at off' bs buf) = slice off n buf"
  using assms by (intro slice_nth_eqI) (auto simp: nth_memcpy_at)

lemma nth_slice: "off + n \<le> length buf \<Longrightarrow> i < n \<Longrightarrow> slice off n buf ! i = buf ! (off + i)"
  by (simp add: slice_def)

lemma memcpy_at_slice: "off + n \<le> length buf \<Longrightarrow> memcpy_at off (slice off n buf) buf = buf"
  by (rule nth_equalityI) (auto simp: nth_memcpy_at nth_slice)

lemma slice_full [simp]: "slice 0 (length buf) buf = buf"
  by (simp add: slice_def)

section \<open>Endian conversion\<close>

text \<open>
  \<open>be_val\<close> reads a big-endian byte string, \<open>le_val\<close> a little-endian one; \<open>be_bytes n v\<close> and
  \<open>le_bytes n v\<close> are the \<open>n\<close>-byte strings of \<open>v\<close>. On the on-disk fields they are
  \<open>beNN_to_cpu\<close>, \<open>cpu_to_beNN\<close> and their \<open>le\<close> counterparts of libgfs2.h, on either byte
  order of the host.
\<close>

fun le_val :: "bytes \<Rightarrow> nat" where
  "le_val [] = 0"
| "le_val (b # bs) = unat b + 256 * le_val bs"

fun le_bytes :: "nat \<Rightarrow> nat \<Rightarrow> bytes" where
  "le_bytes 0 v = []"
| "le_bytes (Suc n) v = of_nat (v mod 256) # le_bytes n (v div 256)"

definition be_val :: "bytes \<Rightarrow> nat" where
  "be_val bs = le_val (rev bs)"

definition be_bytes :: "nat \<Rightarrow> nat \<Rightarrow> bytes" where
  "be_bytes n v = rev (le_bytes n v)"

lemma length_le_bytes [simp]: "length (le_bytes n v) = n"
  by (induction n arbitrary: v) auto

lemma length_be_bytes [simp]: "length (be_bytes n v) = n"
  by (simp add: be_bytes_def)

lemma le_val_le_bytes: "le_val (le_bytes n v) = v mod 256 ^ n"
proof (induction n arbitrary: v)
  case 0
  then show ?case by simp
next
  case (Suc n)
  have "unat (of_nat (v mod 256) :: u8) = v mod 256"
    by (simp add: unat_of_nat)
  then show ?case
    using Suc.IH [of "v div 256"] by (simp add: mod_mult2_eq)
qed

lemma be_val_be_bytes: "be_val (be_bytes n v) = v mod 256 ^ n"
  by (simp add: be_val_def be_bytes_def le_val_le_bytes)

lemma le_val_less: "le_val bs < 256 ^ length bs"
proof (induction bs)
  case Nil
  then show ?case by simp
next
  case (Cons b bs)
  have "unat b < 256" using unsigned_less [of b] by simp
  with Cons.IH show ?case by simp
qed

lemma le_bytes_le_val: "length bs = n \<Longrightarrow> le_bytes n (le_val bs) = bs"
proof (induction bs arbitrary: n)
  case Nil
  then show ?case by simp
next
  case (Cons b bs)
  have b: "unat b < 256" using unsigned_less [of b] by simp
  with Cons show ?case
    by (auto simp: mod_add_eq)
qed

lemma be_bytes_be_val: "length bs = n \<Longrightarrow> be_bytes n (be_val bs) = bs"
  by (simp add: be_bytes_def be_val_def le_bytes_le_val)

definition get_be16 :: "bytes \<Rightarrow> nat \<Rightarrow> u16" where
  "get_be16 buf off = of_nat (be_val (slice off 2 buf))"

definition get_be32 :: "bytes \<Rightarrow> nat \<Rightarrow> u32" where
  "get_be32 buf off = of_nat (be_val (slice off 4 buf))"

definition get_be64 :: "bytes \<Rightarrow> nat \<Rightarrow> u64" where
  "get_be64 buf off = of_nat (be_val (slice off 8 buf))"

definition put_be16 :: "nat \<Rightarrow> u16 \<Rightarrow> bytes \<Rightarrow> bytes" where
  "put_be16 off v buf = memcpy_at off (be_bytes 2 (unat v)) buf"

definition put_be32 :: "nat \<Rightarrow> u32 \<Rightarrow> bytes \<Rightarrow> bytes" where
  "put_be32 off v buf = memcpy_at off (be_bytes 4 (unat v)) buf"

definition put_be64 :: "nat \<Rightarrow> u64 \<Rightarrow> bytes \<Rightarrow> bytes" where
  "put_be64 off v buf = memcpy_at off (be_bytes 8 (unat v)) buf"

definition get_u8 :: "bytes \<Rightarrow> nat \<Rightarrow> u8" where
  "get_u8 buf off = of_nat (be_val (slice off 1 buf))"

definition put_u8 :: "nat \<Rightarrow> u8 \<Rightarrow> bytes \<Rightarrow> bytes" where
  "put_u8 off v buf = memcpy_at off (be_bytes 1 (unat v)) buf"

text \<open>Byte arrays inside a structure (\<open>sb_lockproto\<close>, \<open>sb_uuid\<close>): \<open>n\<close> bytes copied as they are.\<close>

definition get_raw :: "nat \<Rightarrow> bytes \<Rightarrow> nat \<Rightarrow> bytes" where
  "get_raw n buf off = slice off n buf"

definition put_raw :: "nat \<Rightarrow> nat \<Rightarrow> bytes \<Rightarrow> bytes \<Rightarrow> bytes" where
  "put_raw n off v buf = memcpy_at off (take n v) buf"

section \<open>The interface of a field codec\<close>

text \<open>
  What a structure translation relies on: a field is a window of \<open>width\<close> bytes, a write
  replaces that window only, a read sees that window only and gives back what was written.
\<close>

locale field_codec =
  fixes width :: nat
    and encode :: "'v \<Rightarrow> bytes"
    and decode :: "bytes \<Rightarrow> 'v"
    and valid :: "'v \<Rightarrow> bool"
    and get :: "bytes \<Rightarrow> nat \<Rightarrow> 'v"
    and put :: "nat \<Rightarrow> 'v \<Rightarrow> bytes \<Rightarrow> bytes"
  assumes length_encode: "valid v \<Longrightarrow> length (encode v) = width"
    and decode_encode: "valid v \<Longrightarrow> decode (encode v) = v"
    and valid_decode: "length bs = width \<Longrightarrow> valid (decode bs)"
    and encode_decode: "length bs = width \<Longrightarrow> encode (decode bs) = bs"
    and get_window: "get buf off = decode (slice off width buf)"
    and put_window: "put off v buf = memcpy_at off (encode v) buf"
begin

lemma length_put: "length (put off v buf) = length buf"
  by (simp add: put_window)

lemma get_put: "valid v \<Longrightarrow> off + width \<le> length buf \<Longrightarrow> get (put off v buf) off = v"
  by (simp add: get_window put_window slice_memcpy_same length_encode decode_encode)

lemma get_memcpy_same:
  "valid v \<Longrightarrow> off + width \<le> length buf \<Longrightarrow> get (memcpy_at off (encode v) buf) off = v"
  by (simp add: get_window slice_memcpy_same length_encode decode_encode)

lemma get_memcpy_other:
  "off + width \<le> off' \<or> off' + length bs \<le> off
    \<Longrightarrow> get (memcpy_at off' bs buf) off = get buf off"
  by (simp add: get_window slice_memcpy_other)

lemma put_put: "valid v \<Longrightarrow> valid u \<Longrightarrow> put off v (put off u buf) = put off v buf"
  by (simp add: put_window memcpy_memcpy_same length_encode)

lemma put_get: "off + width \<le> length buf \<Longrightarrow> put off (get buf off) buf = buf"
  by (simp add: put_window get_window encode_decode memcpy_at_slice)

lemma valid_get: "off + width \<le> length buf \<Longrightarrow> valid (get buf off)"
  by (simp add: get_window valid_decode)

end

lemma of_nat_be_val_be_bytes:
  "LENGTH('a) = 8 * n \<Longrightarrow> (of_nat (be_val (be_bytes n (unat v))) :: 'a::len word) = v"
proof -
  assume len: "LENGTH('a) = 8 * n"
  have "unat v < 2 ^ LENGTH('a)" by (rule unsigned_less)
  moreover have "(2::nat) ^ LENGTH('a) = 256 ^ n"
    unfolding len by (simp add: power_mult)
  ultimately show ?thesis
    by (simp add: be_val_be_bytes)
qed

lemma be_bytes_unat_be_val:
  "LENGTH('a) = 8 * n \<Longrightarrow> length bs = n
    \<Longrightarrow> be_bytes n (unat (of_nat (be_val bs) :: 'a::len word)) = bs"
proof -
  assume len: "LENGTH('a) = 8 * n" and bs: "length bs = n"
  have "be_val bs < 256 ^ n"
    using le_val_less [of "rev bs"] bs by (simp add: be_val_def)
  also have "(256::nat) ^ n = 2 ^ LENGTH('a)"
    unfolding len by (simp add: power_mult)
  finally have "unat (of_nat (be_val bs) :: 'a word) = be_val bs"
    by (rule unat_of_nat_small)
  then show ?thesis using bs by (simp add: be_bytes_be_val)
qed

interpretation u8c: field_codec 1 "\<lambda>v :: u8. be_bytes 1 (unat v)" "\<lambda>bs. of_nat (be_val bs)"
  "\<lambda>_. True" get_u8 put_u8
  by unfold_locales
    (simp_all add: of_nat_be_val_be_bytes be_bytes_unat_be_val get_u8_def put_u8_def)

interpretation be16: field_codec 2 "\<lambda>v :: u16. be_bytes 2 (unat v)" "\<lambda>bs. of_nat (be_val bs)"
  "\<lambda>_. True" get_be16 put_be16
  by unfold_locales
    (simp_all add: of_nat_be_val_be_bytes be_bytes_unat_be_val get_be16_def put_be16_def)

interpretation be32: field_codec 4 "\<lambda>v :: u32. be_bytes 4 (unat v)" "\<lambda>bs. of_nat (be_val bs)"
  "\<lambda>_. True" get_be32 put_be32
  by unfold_locales
    (simp_all add: of_nat_be_val_be_bytes be_bytes_unat_be_val get_be32_def put_be32_def)

interpretation be64: field_codec 8 "\<lambda>v :: u64. be_bytes 8 (unat v)" "\<lambda>bs. of_nat (be_val bs)"
  "\<lambda>_. True" get_be64 put_be64
  by unfold_locales
    (simp_all add: of_nat_be_val_be_bytes be_bytes_unat_be_val get_be64_def put_be64_def)

interpretation raw16: field_codec 16 "take 16" "\<lambda>bs. bs"
  "\<lambda>v. length v = 16" "get_raw 16" "put_raw 16"
  by unfold_locales (simp_all add: get_raw_def put_raw_def)

interpretation raw64: field_codec 64 "take 64" "\<lambda>bs. bs"
  "\<lambda>v. length v = 64" "get_raw 64" "put_raw 64"
  by unfold_locales (simp_all add: get_raw_def put_raw_def)

text \<open>
  Two ways to reason about a structure translation: unfold the writes to copies of windows and
  read through them (\<open>codec_simps\<close>), or cancel a write of what was read at the same place
  (\<open>codec_put_get\<close>).
\<close>

lemmas codec_same = u8c.get_memcpy_same be16.get_memcpy_same be32.get_memcpy_same
  be64.get_memcpy_same raw16.get_memcpy_same raw64.get_memcpy_same

lemmas codec_other = u8c.get_memcpy_other be16.get_memcpy_other be32.get_memcpy_other
  be64.get_memcpy_other raw16.get_memcpy_other raw64.get_memcpy_other

lemmas codec_put_defs = put_u8_def put_be16_def put_be32_def put_be64_def put_raw_def

lemmas codec_put_get = u8c.put_get be16.put_get be32.put_get be64.put_get raw16.put_get
  raw64.put_get

lemmas codec_length = u8c.length_put be16.length_put be32.length_put be64.length_put

lemma length_put_raw: "length (put_raw n off v buf) = length buf"
  by (simp add: put_raw_def)

lemma get_raw_memcpy_same:
  "length v = n \<Longrightarrow> off + n \<le> length buf \<Longrightarrow> get_raw n (memcpy_at off v buf) off = v"
  by (simp add: get_raw_def slice_memcpy_same)

declare codec_same [codec_simps] codec_other [codec_simps] codec_put_defs [codec_simps]
  get_raw_memcpy_same [codec_simps]
  codec_length [simp] length_put_raw [simp]

text \<open>A sequence of assignments to one memory block, in program order.\<close>

definition assigns :: "('m \<Rightarrow> 'm) list \<Rightarrow> 'm \<Rightarrow> 'm" where
  "assigns ws m = foldl (\<lambda>m w. w m) m ws"

lemma assigns_simps [simp]: "assigns [] m = m" "assigns (w # ws) m = assigns ws (w m)"
  by (simp_all add: assigns_def)

lemma assigns_append: "assigns (xs @ ys) m = assigns ys (assigns xs m)"
  by (simp add: assigns_def)

section \<open>The 32-bit halves of a 64-bit word\<close>

text \<open>
  Two 32-bit members that share eight bytes with a 64-bit member of a C union. On the
  little-endian host the first member is the low half.
\<close>

definition lo32 :: "u64 \<Rightarrow> u32" where
  "lo32 w = ucast w"

definition hi32 :: "u64 \<Rightarrow> u32" where
  "hi32 w = ucast (drop_bit 32 w)"

definition set_lo32 :: "u32 \<Rightarrow> u64 \<Rightarrow> u64" where
  "set_lo32 v w = (w AND NOT (mask 32)) OR ucast v"

definition set_hi32 :: "u32 \<Rightarrow> u64 \<Rightarrow> u64" where
  "set_hi32 v w = (w AND mask 32) OR push_bit 32 (ucast v)"

lemma halves [simp]:
  "lo32 (set_lo32 v w) = v" "hi32 (set_lo32 v w) = hi32 w"
  "hi32 (set_hi32 v w) = v" "lo32 (set_hi32 v w) = lo32 w"
  by (rule bit_word_eqI; auto simp: lo32_def hi32_def set_lo32_def set_hi32_def bit_simps
      dest: bit_imp_le_length)+

lemma set_halves_same [simp]:
  "set_lo32 (lo32 w) w = w" "set_hi32 (hi32 w) w = w"
  by (rule bit_word_eqI; auto simp: lo32_def hi32_def set_lo32_def set_hi32_def bit_simps
      dest: bit_imp_le_length)+

lemma set_halves_twice [simp]:
  "set_lo32 v (set_lo32 u w) = set_lo32 v w" "set_hi32 v (set_hi32 u w) = set_hi32 v w"
  by (rule bit_word_eqI; auto simp: set_lo32_def set_hi32_def bit_simps dest: bit_imp_le_length)+

lemma halves_eqI:
  assumes "lo32 a = lo32 b" and "hi32 a = hi32 b"
  shows "a = b"
proof (rule bit_word_eqI)
  fix n assume n: "n < LENGTH(64)"
  show "bit a n = bit b n"
  proof (cases "n < 32")
    case True
    have "bit (lo32 a) n = bit (lo32 b) n" using assms(1) by simp
    with True show ?thesis by (simp add: lo32_def bit_simps)
  next
    case False
    have "bit (hi32 a) (n - 32) = bit (hi32 b) (n - 32)" using assms(2) by simp
    moreover have "n - 32 < 32" using False n by simp
    ultimately show ?thesis using False by (simp add: hi32_def bit_simps)
  qed
qed

lemma set_halves_join [simp]:
  "set_hi32 (hi32 w) (set_lo32 (lo32 w) v) = w" "set_lo32 (lo32 w) (set_hi32 (hi32 w) v) = w"
  by (rule halves_eqI; simp)+

lemma set_lo32_as_hi32: "set_lo32 (lo32 w) v = set_hi32 (hi32 v) w"
  by (rule halves_eqI) simp_all

end
