(* ===== verification/Hash.thy ===== *)
theory Hash
  imports Prelude
begin

text \<open>
  The two checksums of libgfs2: \<open>gfs2_disk_hash\<close> (gfs2_disk_hash.c, the CRC-32 that directories,
  resource groups and log headers are hashed with) and the table-driven CRC-32C of crc32c.c. Both
  are shown equal to the bit-at-a-time division by their polynomial, and to separate any two
  inputs of one length that differ in one byte.
\<close>

section \<open>The tables\<close>

definition crc_32_tab :: "u32 list" where
  "crc_32_tab = [
     0x00000000, 0x77073096, 0xee0e612c, 0x990951ba, 0x076dc419, 0x706af48f, 0xe963a535, 0x9e6495a3,
     0x0edb8832, 0x79dcb8a4, 0xe0d5e91e, 0x97d2d988, 0x09b64c2b, 0x7eb17cbd, 0xe7b82d07, 0x90bf1d91,
     0x1db71064, 0x6ab020f2, 0xf3b97148, 0x84be41de, 0x1adad47d, 0x6ddde4eb, 0xf4d4b551, 0x83d385c7,
     0x136c9856, 0x646ba8c0, 0xfd62f97a, 0x8a65c9ec, 0x14015c4f, 0x63066cd9, 0xfa0f3d63, 0x8d080df5,
     0x3b6e20c8, 0x4c69105e, 0xd56041e4, 0xa2677172, 0x3c03e4d1, 0x4b04d447, 0xd20d85fd, 0xa50ab56b,
     0x35b5a8fa, 0x42b2986c, 0xdbbbc9d6, 0xacbcf940, 0x32d86ce3, 0x45df5c75, 0xdcd60dcf, 0xabd13d59,
     0x26d930ac, 0x51de003a, 0xc8d75180, 0xbfd06116, 0x21b4f4b5, 0x56b3c423, 0xcfba9599, 0xb8bda50f,
     0x2802b89e, 0x5f058808, 0xc60cd9b2, 0xb10be924, 0x2f6f7c87, 0x58684c11, 0xc1611dab, 0xb6662d3d,
     0x76dc4190, 0x01db7106, 0x98d220bc, 0xefd5102a, 0x71b18589, 0x06b6b51f, 0x9fbfe4a5, 0xe8b8d433,
     0x7807c9a2, 0x0f00f934, 0x9609a88e, 0xe10e9818, 0x7f6a0dbb, 0x086d3d2d, 0x91646c97, 0xe6635c01,
     0x6b6b51f4, 0x1c6c6162, 0x856530d8, 0xf262004e, 0x6c0695ed, 0x1b01a57b, 0x8208f4c1, 0xf50fc457,
     0x65b0d9c6, 0x12b7e950, 0x8bbeb8ea, 0xfcb9887c, 0x62dd1ddf, 0x15da2d49, 0x8cd37cf3, 0xfbd44c65,
     0x4db26158, 0x3ab551ce, 0xa3bc0074, 0xd4bb30e2, 0x4adfa541, 0x3dd895d7, 0xa4d1c46d, 0xd3d6f4fb,
     0x4369e96a, 0x346ed9fc, 0xad678846, 0xda60b8d0, 0x44042d73, 0x33031de5, 0xaa0a4c5f, 0xdd0d7cc9,
     0x5005713c, 0x270241aa, 0xbe0b1010, 0xc90c2086, 0x5768b525, 0x206f85b3, 0xb966d409, 0xce61e49f,
     0x5edef90e, 0x29d9c998, 0xb0d09822, 0xc7d7a8b4, 0x59b33d17, 0x2eb40d81, 0xb7bd5c3b, 0xc0ba6cad,
     0xedb88320, 0x9abfb3b6, 0x03b6e20c, 0x74b1d29a, 0xead54739, 0x9dd277af, 0x04db2615, 0x73dc1683,
     0xe3630b12, 0x94643b84, 0x0d6d6a3e, 0x7a6a5aa8, 0xe40ecf0b, 0x9309ff9d, 0x0a00ae27, 0x7d079eb1,
     0xf00f9344, 0x8708a3d2, 0x1e01f268, 0x6906c2fe, 0xf762575d, 0x806567cb, 0x196c3671, 0x6e6b06e7,
     0xfed41b76, 0x89d32be0, 0x10da7a5a, 0x67dd4acc, 0xf9b9df6f, 0x8ebeeff9, 0x17b7be43, 0x60b08ed5,
     0xd6d6a3e8, 0xa1d1937e, 0x38d8c2c4, 0x4fdff252, 0xd1bb67f1, 0xa6bc5767, 0x3fb506dd, 0x48b2364b,
     0xd80d2bda, 0xaf0a1b4c, 0x36034af6, 0x41047a60, 0xdf60efc3, 0xa867df55, 0x316e8eef, 0x4669be79,
     0xcb61b38c, 0xbc66831a, 0x256fd2a0, 0x5268e236, 0xcc0c7795, 0xbb0b4703, 0x220216b9, 0x5505262f,
     0xc5ba3bbe, 0xb2bd0b28, 0x2bb45a92, 0x5cb36a04, 0xc2d7ffa7, 0xb5d0cf31, 0x2cd99e8b, 0x5bdeae1d,
     0x9b64c2b0, 0xec63f226, 0x756aa39c, 0x026d930a, 0x9c0906a9, 0xeb0e363f, 0x72076785, 0x05005713,
     0x95bf4a82, 0xe2b87a14, 0x7bb12bae, 0x0cb61b38, 0x92d28e9b, 0xe5d5be0d, 0x7cdcefb7, 0x0bdbdf21,
     0x86d3d2d4, 0xf1d4e242, 0x68ddb3f8, 0x1fda836e, 0x81be16cd, 0xf6b9265b, 0x6fb077e1, 0x18b74777,
     0x88085ae6, 0xff0f6a70, 0x66063bca, 0x11010b5c, 0x8f659eff, 0xf862ae69, 0x616bffd3, 0x166ccf45,
     0xa00ae278, 0xd70dd2ee, 0x4e048354, 0x3903b3c2, 0xa7672661, 0xd06016f7, 0x4969474d, 0x3e6e77db,
     0xaed16a4a, 0xd9d65adc, 0x40df0b66, 0x37d83bf0, 0xa9bcae53, 0xdebb9ec5, 0x47b2cf7f, 0x30b5ffe9,
     0xbdbdf21c, 0xcabac28a, 0x53b39330, 0x24b4a3a6, 0xbad03605, 0xcdd70693, 0x54de5729, 0x23d967bf,
     0xb3667a2e, 0xc4614ab8, 0x5d681b02, 0x2a6f2b94, 0xb40bbe37, 0xc30c8ea1, 0x5a05df1b, 0x2d02ef8d]"

definition crc32c_table :: "u32 list" where
  "crc32c_table = [
     0x00000000, 0xf26b8303, 0xe13b70f7, 0x1350f3f4, 0xc79a971f, 0x35f1141c, 0x26a1e7e8, 0xd4ca64eb,
     0x8ad958cf, 0x78b2dbcc, 0x6be22838, 0x9989ab3b, 0x4d43cfd0, 0xbf284cd3, 0xac78bf27, 0x5e133c24,
     0x105ec76f, 0xe235446c, 0xf165b798, 0x030e349b, 0xd7c45070, 0x25afd373, 0x36ff2087, 0xc494a384,
     0x9a879fa0, 0x68ec1ca3, 0x7bbcef57, 0x89d76c54, 0x5d1d08bf, 0xaf768bbc, 0xbc267848, 0x4e4dfb4b,
     0x20bd8ede, 0xd2d60ddd, 0xc186fe29, 0x33ed7d2a, 0xe72719c1, 0x154c9ac2, 0x061c6936, 0xf477ea35,
     0xaa64d611, 0x580f5512, 0x4b5fa6e6, 0xb93425e5, 0x6dfe410e, 0x9f95c20d, 0x8cc531f9, 0x7eaeb2fa,
     0x30e349b1, 0xc288cab2, 0xd1d83946, 0x23b3ba45, 0xf779deae, 0x05125dad, 0x1642ae59, 0xe4292d5a,
     0xba3a117e, 0x4851927d, 0x5b016189, 0xa96ae28a, 0x7da08661, 0x8fcb0562, 0x9c9bf696, 0x6ef07595,
     0x417b1dbc, 0xb3109ebf, 0xa0406d4b, 0x522bee48, 0x86e18aa3, 0x748a09a0, 0x67dafa54, 0x95b17957,
     0xcba24573, 0x39c9c670, 0x2a993584, 0xd8f2b687, 0x0c38d26c, 0xfe53516f, 0xed03a29b, 0x1f682198,
     0x5125dad3, 0xa34e59d0, 0xb01eaa24, 0x42752927, 0x96bf4dcc, 0x64d4cecf, 0x77843d3b, 0x85efbe38,
     0xdbfc821c, 0x2997011f, 0x3ac7f2eb, 0xc8ac71e8, 0x1c661503, 0xee0d9600, 0xfd5d65f4, 0x0f36e6f7,
     0x61c69362, 0x93ad1061, 0x80fde395, 0x72966096, 0xa65c047d, 0x5437877e, 0x4767748a, 0xb50cf789,
     0xeb1fcbad, 0x197448ae, 0x0a24bb5a, 0xf84f3859, 0x2c855cb2, 0xdeeedfb1, 0xcdbe2c45, 0x3fd5af46,
     0x7198540d, 0x83f3d70e, 0x90a324fa, 0x62c8a7f9, 0xb602c312, 0x44694011, 0x5739b3e5, 0xa55230e6,
     0xfb410cc2, 0x092a8fc1, 0x1a7a7c35, 0xe811ff36, 0x3cdb9bdd, 0xceb018de, 0xdde0eb2a, 0x2f8b6829,
     0x82f63b78, 0x709db87b, 0x63cd4b8f, 0x91a6c88c, 0x456cac67, 0xb7072f64, 0xa457dc90, 0x563c5f93,
     0x082f63b7, 0xfa44e0b4, 0xe9141340, 0x1b7f9043, 0xcfb5f4a8, 0x3dde77ab, 0x2e8e845f, 0xdce5075c,
     0x92a8fc17, 0x60c37f14, 0x73938ce0, 0x81f80fe3, 0x55326b08, 0xa759e80b, 0xb4091bff, 0x466298fc,
     0x1871a4d8, 0xea1a27db, 0xf94ad42f, 0x0b21572c, 0xdfeb33c7, 0x2d80b0c4, 0x3ed04330, 0xccbbc033,
     0xa24bb5a6, 0x502036a5, 0x4370c551, 0xb11b4652, 0x65d122b9, 0x97baa1ba, 0x84ea524e, 0x7681d14d,
     0x2892ed69, 0xdaf96e6a, 0xc9a99d9e, 0x3bc21e9d, 0xef087a76, 0x1d63f975, 0x0e330a81, 0xfc588982,
     0xb21572c9, 0x407ef1ca, 0x532e023e, 0xa145813d, 0x758fe5d6, 0x87e466d5, 0x94b49521, 0x66df1622,
     0x38cc2a06, 0xcaa7a905, 0xd9f75af1, 0x2b9cd9f2, 0xff56bd19, 0x0d3d3e1a, 0x1e6dcdee, 0xec064eed,
     0xc38d26c4, 0x31e6a5c7, 0x22b65633, 0xd0ddd530, 0x0417b1db, 0xf67c32d8, 0xe52cc12c, 0x1747422f,
     0x49547e0b, 0xbb3ffd08, 0xa86f0efc, 0x5a048dff, 0x8ecee914, 0x7ca56a17, 0x6ff599e3, 0x9d9e1ae0,
     0xd3d3e1ab, 0x21b862a8, 0x32e8915c, 0xc083125f, 0x144976b4, 0xe622f5b7, 0xf5720643, 0x07198540,
     0x590ab964, 0xab613a67, 0xb831c993, 0x4a5a4a90, 0x9e902e7b, 0x6cfbad78, 0x7fab5e8c, 0x8dc0dd8f,
     0xe330a81a, 0x115b2b19, 0x020bd8ed, 0xf0605bee, 0x24aa3f05, 0xd6c1bc06, 0xc5914ff2, 0x37faccf1,
     0x69e9f0d5, 0x9b8273d6, 0x88d28022, 0x7ab90321, 0xae7367ca, 0x5c18e4c9, 0x4f48173d, 0xbd23943e,
     0xf36e6f75, 0x0105ec76, 0x12551f82, 0xe03e9c81, 0x34f4f86a, 0xc69f7b69, 0xd5cf889d, 0x27a40b9e,
     0x79b737ba, 0x8bdcb4b9, 0x988c474d, 0x6ae7c44e, 0xbe2da0a5, 0x4c4623a6, 0x5f16d052, 0xad7d5351]"

section \<open>gfs2_disk_hash\<close>

text \<open>
  \<open>hash ^ *data\<close> promotes a signed \<open>char\<close>: the byte is sign extended before the exclusive or.
\<close>

fun disk_hash_loop :: "u32 \<Rightarrow> bytes \<Rightarrow> u32" where
  "disk_hash_loop hash [] = hash"
| "disk_hash_loop hash (d # data) =
     disk_hash_loop (crc_32_tab ! unat ((hash XOR scast d) AND 0xFF) XOR drop_bit 8 hash) data"

definition gfs2_disk_hash :: "bytes \<Rightarrow> u32" where
  "gfs2_disk_hash data = NOT (disk_hash_loop 0xFFFFFFFF data)"

section \<open>crc32c\<close>

fun crc32c_le :: "u32 \<Rightarrow> bytes \<Rightarrow> u32" where
  "crc32c_le crc [] = crc"
| "crc32c_le crc (d # data) =
     crc32c_le (crc32c_table ! unat ((crc XOR ucast d) AND 0xFF) XOR drop_bit 8 crc) data"

text \<open>
  The SSE4.2 routine consumes eight bytes per \<open>crc32q\<close> instruction and the rest byte by byte
  with \<open>crc32b\<close>. The two instructions are arguments: \<open>crc32q\<close> takes the quadword the pointer
  loads, little-endian. The number of quadwords, an \<open>unsigned int\<close> in the code, does not wrap
  here: the buffer has less than 32 GiB.
\<close>

fun crc32c_intel_le_hw_byte :: "(u32 \<Rightarrow> u8 \<Rightarrow> u32) \<Rightarrow> u32 \<Rightarrow> bytes \<Rightarrow> u32" where
  "crc32c_intel_le_hw_byte crc32b crc [] = crc"
| "crc32c_intel_le_hw_byte crc32b crc (d # data) =
     crc32c_intel_le_hw_byte crc32b (crc32b crc d) data"

fun crc32c_intel_quads :: "(u32 \<Rightarrow> u64 \<Rightarrow> u32) \<Rightarrow> nat \<Rightarrow> u32 \<Rightarrow> bytes \<Rightarrow> u32 \<times> bytes" where
  "crc32c_intel_quads crc32q 0 crc ptmp = (crc, ptmp)"
| "crc32c_intel_quads crc32q (Suc iquotient) crc ptmp =
     crc32c_intel_quads crc32q iquotient
       (crc32q crc (of_nat (le_val (take 8 ptmp)))) (drop 8 ptmp)"

definition crc32c_intel ::
  "(u32 \<Rightarrow> u64 \<Rightarrow> u32) \<Rightarrow> (u32 \<Rightarrow> u8 \<Rightarrow> u32) \<Rightarrow> u32 \<Rightarrow> bytes \<Rightarrow> u32" where
  "crc32c_intel crc32q crc32b crc data =
     (let iquotient = length data div 8;
          iremainder = length data mod 8;
          (crc, ptmp) = crc32c_intel_quads crc32q iquotient crc data
      in if iremainder \<noteq> 0 then crc32c_intel_le_hw_byte crc32b crc (take iremainder ptmp)
         else crc)"

text \<open>
  \<open>crc32c_optimization_init\<close> installs the SSE4.2 routine when bit 20 of \<open>ecx\<close> says so; the entry
  point takes the byte-wise routine when the buffer is not aligned and otherwise calls what is
  installed. \<open>addr\<close> is the buffer's address.
\<close>

datatype crc_function = Crc32c_le | Crc32c_intel

definition crc32c_optimization_init :: "u32 \<Rightarrow> crc_function \<Rightarrow> crc_function" where
  "crc32c_optimization_init ecx f = (if bit ecx 20 then Crc32c_intel else f)"

definition crc32c ::
  "(u32 \<Rightarrow> u64 \<Rightarrow> u32) \<Rightarrow> (u32 \<Rightarrow> u8 \<Rightarrow> u32) \<Rightarrow> crc_function \<Rightarrow> nat \<Rightarrow> u32 \<Rightarrow> bytes \<Rightarrow> u32" where
  "crc32c crc32q crc32b f addr crc data =
     (if addr mod 8 \<noteq> 0 then crc32c_le crc data
      else case f of Crc32c_le \<Rightarrow> crc32c_le crc data
                   | Crc32c_intel \<Rightarrow> crc32c_intel crc32q crc32b crc data)"

section \<open>The reference: one bit at a time\<close>

definition crc_bit :: "u32 \<Rightarrow> u32 \<Rightarrow> u32" where
  "crc_bit poly c = (if bit c 0 then poly XOR drop_bit 1 c else drop_bit 1 c)"

definition crc_byte :: "u32 \<Rightarrow> u32 \<Rightarrow> u8 \<Rightarrow> u32" where
  "crc_byte poly c b = (crc_bit poly ^^ 8) (c XOR ucast b)"

definition crc_ref :: "u32 \<Rightarrow> u32 \<Rightarrow> bytes \<Rightarrow> u32" where
  "crc_ref poly c bs = foldl (crc_byte poly) c bs"

abbreviation crc32_poly :: u32 where "crc32_poly \<equiv> 0xEDB88320"
abbreviation crc32c_poly :: u32 where "crc32c_poly \<equiv> 0x82F63B78"


section \<open>The tables hold the reference's bytes\<close>

lemma crc_bit_xor: "crc_bit poly (a XOR b) = crc_bit poly a XOR crc_bit poly b"
  by (rule bit_word_eqI) (auto simp: crc_bit_def bit_simps)

lemma crc_bits_xor: "(crc_bit poly ^^ n) (a XOR b) = (crc_bit poly ^^ n) a XOR (crc_bit poly ^^ n) b"
  by (induction n) (simp_all add: crc_bit_xor)

lemma crc_bits_shift:
  "(\<And>i. i < n \<Longrightarrow> \<not> bit c i) \<Longrightarrow> (crc_bit poly ^^ n) c = drop_bit n c"
proof (induction n arbitrary: c)
  case 0
  then show ?case by simp
next
  case (Suc n)
  have "(crc_bit poly ^^ Suc n) c = (crc_bit poly ^^ n) (crc_bit poly c)"
    by (simp add: funpow_swap1)
  also have "crc_bit poly c = drop_bit 1 c"
    using Suc.prems [of 0] by (simp add: crc_bit_def)
  also have "(crc_bit poly ^^ n) (drop_bit 1 c) = drop_bit n (drop_bit 1 c)"
    using Suc.prems by (intro Suc.IH) (simp add: bit_simps)
  finally show ?case by simp
qed

text \<open>One table step is eight bit steps, for any table that lists the 256 bytes' remainders.\<close>

definition crc_table_ok :: "u32 \<Rightarrow> u32 list \<Rightarrow> bool" where
  "crc_table_ok poly tab \<longleftrightarrow>
     length tab = 256 \<and> (\<forall>i < 256. tab ! i = (crc_bit poly ^^ 8) (of_nat i))"

lemma crc_bit_numeral:
  "crc_bit poly 0 = 0"
  "crc_bit poly 1 = poly"
  "crc_bit poly (numeral w) = (if odd (numeral w :: u32) then poly XOR drop_bit 1 (numeral w)
     else drop_bit 1 (numeral w))"
  by (simp_all add: crc_bit_def bit_0)

lemma funpow_8: "(f ^^ 8) c = f (f (f (f (f (f (f (f c)))))))"
  by (simp add: eval_nat_numeral)

lemma of_nat_mod_256: "(of_nat (unat c mod 256) :: u32) = c AND mask 8"
  by (simp add: word_unat_eq_iff unat_and_mask unat_of_nat)

lemma crc_table_step:
  assumes "crc_table_ok poly tab"
  shows "tab ! unat (c AND 0xFF) XOR drop_bit 8 c = (crc_bit poly ^^ 8) c"
proof -
  have ff: "(0xFF :: u32) = mask 8" by (simp add: mask_eq_exp_minus_1)
  have "(crc_bit poly ^^ 8) c = (crc_bit poly ^^ 8) ((c AND mask 8) XOR (c AND NOT (mask 8)))"
    by (rule arg_cong [where f = "crc_bit poly ^^ 8"], rule bit_word_eqI) (auto simp: bit_simps)
  also have "\<dots> = (crc_bit poly ^^ 8) (c AND mask 8) XOR (crc_bit poly ^^ 8) (c AND NOT (mask 8))"
    by (rule crc_bits_xor)
  also have "(crc_bit poly ^^ 8) (c AND NOT (mask 8)) = drop_bit 8 (c AND NOT (mask 8))"
    by (rule crc_bits_shift) (auto simp: bit_simps)
  also have "drop_bit 8 (c AND NOT (mask 8)) = drop_bit 8 c"
    by (rule bit_word_eqI) (auto simp: bit_simps dest: bit_imp_le_length)
  also have "(crc_bit poly ^^ 8) (c AND mask 8) = tab ! unat (c AND mask 8)"
    using assms by (simp add: crc_table_ok_def unat_and_mask of_nat_mod_256)
  finally show ?thesis by (simp only: ff)
qed

text \<open>
  A table is checked by two recurrences, one bit step per entry: entry \<open>i\<close> is one step after entry
  \<open>2 i\<close>, and the upper half is the lower half combined with the polynomial.
\<close>

fun evens :: "'a list \<Rightarrow> 'a list" where
  "evens (x # y # xs) = x # evens xs"
| "evens xs = xs"

lemma length_evens: "length (evens xs) = (length xs + 1) div 2"
  by (induction xs rule: evens.induct) auto

lemma nth_evens: "2 * i < length xs \<Longrightarrow> evens xs ! i = xs ! (2 * i)"
  by (induction xs arbitrary: i rule: evens.induct) (auto simp: nth_Cons split: nat.splits)

lemma crc_bits_double: "i < 128 \<Longrightarrow> (crc_bit poly ^^ 8) (of_nat i) = crc_bit poly ((crc_bit poly ^^ 8) (of_nat (2 * i)))"
proof -
  assume i: "i < 128"
  have "crc_bit poly (of_nat (2 * i)) = of_nat i"
  proof -
    have "drop_bit 1 (of_nat (2 * i) :: u32) = of_nat i"
      using i by (simp add: word_unat_eq_iff unat_drop_bit unat_of_nat_small del: of_nat_mult)
    then show ?thesis by (simp add: crc_bit_def bit_0)
  qed
  then have "(crc_bit poly ^^ 7) (of_nat i) = (crc_bit poly ^^ 8) (of_nat (2 * i))"
    by (simp add: eval_nat_numeral funpow_swap1)
  moreover have "(crc_bit poly ^^ 8) x = crc_bit poly ((crc_bit poly ^^ 7) x)" for x
    by (simp add: eval_nat_numeral)
  ultimately show ?thesis by simp
qed

lemma crc_bits_high:
  assumes "i < 128"
  shows "(crc_bit poly ^^ 8) (of_nat (i + 128)) = poly XOR (crc_bit poly ^^ 8) (of_nat i)"
proof -
  have "\<not> bit (of_nat i :: u32) n \<or> \<not> bit (128 :: u32) n" for n
  proof (cases "n < 7")
    case True
    have "(128 :: u32) = push_bit 7 1" by simp
    then have "\<not> bit (128 :: u32) n" using True by (simp only: bit_simps) auto
    then show ?thesis ..
  next
    case False
    have "i < 2 ^ n" using assms False power_increasing [of 7 n "2::nat"] by simp
    then show ?thesis by (simp add: bit_simps bit_nat_def)
  qed
  then have "(of_nat (i + 128) :: u32) = of_nat i XOR 128"
    by (simp add: disjunctive_add_eq_xor bit_eq_iff bit_simps)
  moreover have "(crc_bit poly ^^ 8) 128 = poly"
    by (simp add: crc_bit_numeral funpow_8)
  ultimately show ?thesis by (simp add: crc_bits_xor xor.commute)
qed

lemma crc_table_check:
  assumes len: "length tab = 256" and zero: "tab ! 0 = 0"
    and low: "take 128 tab = map (crc_bit poly) (evens tab)"
    and high: "drop 128 tab = map (\<lambda>t. poly XOR t) (take 128 tab)"
  shows "crc_table_ok poly tab"
proof -
  let ?e = "\<lambda>i. (crc_bit poly ^^ 8) (of_nat i)"
  have lo: "tab ! i = crc_bit poly (tab ! (2 * i))" if "i < 128" for i
    using arg_cong [OF low, of "\<lambda>l. l ! i"] that len by (simp add: nth_evens length_evens)
  have hi: "tab ! (i + 128) = poly XOR tab ! i" if "i < 128" for i
    using arg_cong [OF high, of "\<lambda>l. l ! i"] that len by (simp add: add.commute)
  have "\<forall>i < 256. 2 ^ (8 - k) dvd i \<longrightarrow> tab ! i = ?e i" if "k \<le> 8" for k
    using that
  proof (induction k)
    case 0
    then show ?case using zero by (auto simp: crc_bit_numeral funpow_8 dest: nat_dvd_not_less)
  next
    case (Suc k)
    have pow: "(2::nat) ^ (8 - k) = 2 * 2 ^ (8 - Suc k)"
      using Suc.prems by (simp add: Suc_diff_le flip: power_Suc)
    have small: "tab ! i = ?e i" if "i < 128" "2 ^ (8 - Suc k) dvd i" for i
    proof -
      have "2 ^ (8 - k) dvd 2 * i" using that(2) by (simp add: pow)
      then have "tab ! (2 * i) = ?e (2 * i)" using Suc that(1) by simp
      with that(1) show ?thesis by (simp only: lo crc_bits_double)
    qed
    show ?case
    proof (intro allI impI)
      fix i assume i: "i < (256 :: nat)" "2 ^ (8 - Suc k) dvd i"
      show "tab ! i = ?e i"
      proof (cases "i < 128")
        case True
        then show ?thesis using i(2) by (rule small)
      next
        case False
        define j where "j = i - 128"
        with False i have j: "i = j + 128" "j < 128" by simp_all
        have "(2::nat) ^ (8 - Suc k) dvd 2 ^ 7" by (rule le_imp_power_dvd) simp
        then have "2 ^ (8 - Suc k) dvd j" using i(2) j(1) by (simp add: dvd_add_left_iff)
        then show ?thesis
          unfolding j(1) hi [OF j(2)] crc_bits_high [OF j(2)] using small [OF j(2)] by simp
      qed
    qed
  qed
  from this [of 8] show ?thesis using len by (simp add: crc_table_ok_def)
qed

lemma crc_32_tab_ok: "crc_table_ok crc32_poly crc_32_tab"
  by (rule crc_table_check) (simp_all add: crc_bit_numeral crc_32_tab_def)

lemma crc32c_table_ok: "crc_table_ok crc32c_poly crc32c_table"
  by (rule crc_table_check) (simp_all add: crc_bit_numeral crc32c_table_def)

section \<open>The table-driven routines compute the reference\<close>

lemma scast_low_byte: "(h XOR scast (d :: u8)) AND 0xFF = (h XOR ucast d) AND (0xFF :: u32)"
proof -
  have ff: "(0xFF :: u32) = mask 8" by (simp add: mask_eq_exp_minus_1)
  show ?thesis unfolding ff by (rule bit_word_eqI) (auto simp: bit_simps)
qed

lemma drop_8_byte: "drop_bit 8 (h XOR ucast (d :: u8)) = (drop_bit 8 h :: u32)"
  by (rule bit_word_eqI) (auto simp: bit_simps dest: bit_imp_le_length)

lemma table_byte:
  assumes "crc_table_ok poly tab"
  shows "tab ! unat ((c XOR ucast d) AND 0xFF) XOR drop_bit 8 c = crc_byte poly c d"
  using crc_table_step [OF assms, of "c XOR ucast d"] by (simp only: crc_byte_def drop_8_byte)

lemma disk_hash_loop_ref: "disk_hash_loop h bs = crc_ref crc32_poly h bs"
  by (induction bs arbitrary: h)
    (simp_all add: crc_ref_def scast_low_byte table_byte [OF crc_32_tab_ok])

lemma crc32c_le_ref: "crc32c_le h bs = crc_ref crc32c_poly h bs"
  by (induction bs arbitrary: h)
    (simp_all add: crc_ref_def table_byte [OF crc32c_table_ok])

lemma crc_ref_append: "crc_ref poly c (xs @ ys) = crc_ref poly (crc_ref poly c xs) ys"
  by (simp add: crc_ref_def)

lemma hw_byte_ref:
  assumes "\<And>c d. crc32b c d = crc_byte poly c d"
  shows "crc32c_intel_le_hw_byte crc32b c bs = crc_ref poly c bs"
  by (induction bs arbitrary: c) (simp_all add: crc_ref_def assms)

lemma intel_quads_ref:
  assumes q: "\<And>c w. crc32q c w = crc_ref poly c (le_bytes 8 (unat w))"
    and "8 * n \<le> length bs"
  shows "crc32c_intel_quads crc32q n c bs = (crc_ref poly c (take (8 * n) bs), drop (8 * n) bs)"
  using assms(2)
proof (induction n arbitrary: c bs)
  case 0
  then show ?case by (simp add: crc_ref_def)
next
  case (Suc n)
  have "length (take 8 bs) = 8" using Suc.prems by simp
  then have "le_val (take 8 bs) < 2 ^ 64"
    using le_val_less [of "take 8 bs"] by (simp only:) simp
  then have "unat (of_nat (le_val (take 8 bs)) :: u64) = le_val (take 8 bs)"
    by (simp add: unat_of_nat_small)
  then have "crc32q c (of_nat (le_val (take 8 bs))) = crc_ref poly c (take 8 bs)"
    using Suc.prems by (simp add: q le_bytes_le_val)
  moreover have "take (8 * Suc n) bs = take 8 bs @ take (8 * n) (drop 8 bs)"
    by (simp add: take_add)
  ultimately show ?case using Suc by (simp add: crc_ref_append add.commute)
qed

lemma crc32c_intel_ref:
  assumes q: "\<And>c w. crc32q c w = crc_ref poly c (le_bytes 8 (unat w))"
    and b: "\<And>c d. crc32b c d = crc_byte poly c d"
  shows "crc32c_intel crc32q crc32b c bs = crc_ref poly c bs"
proof -
  let ?n = "8 * (length bs div 8)"
  have rest: "take (length bs mod 8) (drop ?n bs) = drop ?n bs"
    by (rule take_all) (simp add: minus_mult_div_eq_mod)
  have quads: "crc32c_intel_quads crc32q (length bs div 8) c bs
      = (crc_ref poly c (take ?n bs), drop ?n bs)"
    by (rule intel_quads_ref [OF q]) simp
  have whole: "crc_ref poly (crc_ref poly c (take ?n bs)) (drop ?n bs) = crc_ref poly c bs"
    by (simp flip: crc_ref_append)
  show ?thesis
  proof (cases "length bs mod 8 = 0")
    case True
    then have "take ?n bs = bs" by (simp add: mod_0_imp_dvd dvd_mult_div_cancel)
    with True quads show ?thesis by (simp add: crc32c_intel_def)
  next
    case False
    with quads rest whole show ?thesis
      by (simp add: crc32c_intel_def Let_def hw_byte_ref [of crc32b poly, OF b])
  qed
qed

section \<open>A one-byte difference changes the checksum\<close>

lemma xor_cancel: "(a XOR b = a XOR c) = (b = (c :: 'a::len word))"
  by (metis xor.assoc xor_self_eq xor.left_neutral)

lemma crc_bit_inj:
  assumes top: "bit poly 31" and eq: "crc_bit poly a = crc_bit poly b"
  shows "a = b"
proof -
  have top_bit: "bit (crc_bit poly c) 31 = bit c 0" for c
    using top by (auto simp: crc_bit_def bit_simps dest: bit_imp_le_length)
  have low: "bit a 0 = bit b 0" using eq top_bit by metis
  have "drop_bit 1 a = drop_bit 1 b"
    using eq low by (auto simp: crc_bit_def xor_cancel split: if_splits)
  then have "bit (drop_bit 1 a) n = bit (drop_bit 1 b) n" for n by simp
  then have high: "bit a (Suc n) = bit b (Suc n)" for n
    by (simp add: bit_drop_bit_eq)
  show ?thesis
  proof (rule bit_word_eqI)
    fix n show "bit a n = bit b n" using low high by (cases n) auto
  qed
qed

lemma crc_bits_inj:
  assumes top: "bit poly 31" and "(crc_bit poly ^^ n) a = (crc_bit poly ^^ n) b"
  shows "a = b"
  using assms(2) by (induction n) (auto dest: crc_bit_inj [OF top])

lemma crc_ref_inj:
  assumes top: "bit poly 31" and "crc_ref poly a bs = crc_ref poly b bs"
  shows "a = b"
  using assms(2)
proof (induction bs arbitrary: a b)
  case Nil
  then show ?case by (simp add: crc_ref_def)
next
  case (Cons d bs)
  have "crc_byte poly a d = crc_byte poly b d"
    by (rule Cons.IH) (use Cons.prems in \<open>simp add: crc_ref_def\<close>)
  then have "a XOR ucast d = b XOR ucast d"
    unfolding crc_byte_def by (rule crc_bits_inj [OF top])
  then show ?case by (simp add: xor.commute [of _ "ucast d"] xor_cancel)
qed

lemma crc_ref_one_byte:
  assumes top: "bit poly 31" and "x \<noteq> y"
  shows "crc_ref poly c (pre @ x # post) \<noteq> crc_ref poly c (pre @ y # post)"
proof
  let ?c = "crc_ref poly c pre"
  assume "crc_ref poly c (pre @ x # post) = crc_ref poly c (pre @ y # post)"
  then have "crc_ref poly (crc_byte poly ?c x) post = crc_ref poly (crc_byte poly ?c y) post"
    by (simp add: crc_ref_def)
  then have "crc_byte poly ?c x = crc_byte poly ?c y" by (rule crc_ref_inj [OF top])
  then have "?c XOR ucast x = ?c XOR ucast y"
    unfolding crc_byte_def by (rule crc_bits_inj [OF top])
  then have eq: "(ucast x :: u32) = ucast y" by (simp add: xor_cancel)
  have "bit x n = bit y n" if "n < 8" for n
    using arg_cong [OF eq, of "\<lambda>w. bit w n"] that by (simp add: bit_simps)
  then have "x = y" by (intro bit_word_eqI) simp
  with \<open>x \<noteq> y\<close> show False ..
qed

lemma poly_tops: "bit crc32_poly 31" "bit crc32c_poly 31"
  by simp_all

lemma gfs2_disk_hash_ref: "gfs2_disk_hash data = NOT (crc_ref crc32_poly 0xFFFFFFFF data)"
  by (simp add: gfs2_disk_hash_def disk_hash_loop_ref)

section \<open>Properties\<close>

text \<open>C20. The directory and metadata hash \<open>gfs2_disk_hash\<close>, computed byte by byte from a table of 256
  words, is the CRC-32 of the data: bit-at-a-time division by the polynomial 0xEDB88320, started
  from all ones and inverted at the end, whatever the data and in spite of the sign extension of
  its \<open>char\<close>s.\<close>

theorem gfs2_disk_hash_correct:
  "gfs2_disk_hash data = NOT (foldl (\<lambda>c b. (crc_bit crc32_poly ^^ 8) (c XOR ucast b)) 0xFFFFFFFF data)"
proof -
  have "crc_byte crc32_poly = (\<lambda>c b. (crc_bit crc32_poly ^^ 8) (c XOR ucast b))"
    by (simp add: fun_eq_iff crc_byte_def)
  then show ?thesis by (simp add: gfs2_disk_hash_ref crc_ref_def)
qed

text \<open>Corrupting one byte of hashed data always changes \<open>gfs2_disk_hash\<close>: two inputs that differ in
  exactly one position have different hashes, so the checks of resource groups and log headers
  detect every such corruption.\<close>

theorem gfs2_disk_hash_detects:
  assumes "x \<noteq> y"
  shows "gfs2_disk_hash (pre @ x # post) \<noteq> gfs2_disk_hash (pre @ y # post)"
  using crc_ref_one_byte [OF poly_tops(1) assms] by (simp add: gfs2_disk_hash_ref)

theorem gfs2_disk_hash_detects_witness:
  "gfs2_disk_hash ([1, 2] @ 3 # [4]) \<noteq> gfs2_disk_hash ([1, 2] @ 7 # [4])"
  by (rule gfs2_disk_hash_detects) simp

text \<open>C21. \<open>crc32c\<close> computes the CRC-32C reference whichever routine is taken: the table-driven one on
  an unaligned buffer or without SSE4.2, and the accelerated one, eight bytes at a time with a
  byte-wise remainder, when the two instructions divide by the CRC-32C polynomial as documented.\<close>

theorem crc32c_correct:
  assumes "\<And>c w. crc32q c w = crc_ref crc32c_poly c (le_bytes 8 (unat w))"
    and "\<And>c d. crc32b c d = crc_byte crc32c_poly c d"
  shows "crc32c crc32q crc32b f addr crc data = crc_ref crc32c_poly crc data"
  using crc32c_intel_ref [OF assms] by (simp add: crc32c_def crc32c_le_ref split: crc_function.split)

theorem crc32c_correct_witness:
  "crc32c (\<lambda>c w. crc_ref crc32c_poly c (le_bytes 8 (unat w))) (crc_byte crc32c_poly) Crc32c_intel 64
     0xFFFFFFFF [0x31, 0x32, 0x33, 0x34, 0x35, 0x36, 0x37, 0x38, 0x39] = NOT 0xE3069283"
  by (subst crc32c_correct) (simp_all add: crc_ref_def crc_byte_def funpow_8 crc_bit_numeral)

end
