(* ===== verification/Layout.thy ===== *)
theory Layout
  imports Prelude
begin

text \<open>
  The on-disk structures of include/linux/gfs2_ondisk.h and the gfs1 ones of libgfs2.h, as lists
  of members with their alignment and size, and C's \<open>offsetof\<close> and \<open>sizeof\<close> computed
  from them. The translation functions (theory \<open>Ondisk\<close>) and the metadata tables (theory
  \<open>Meta\<close>) take every offset from here; the lemmas evaluate the offsets once.
\<close>

section \<open>Structure layout\<close>

text \<open>A member: name, alignment, size in bytes.\<close>

type_synonym layout = "(string \<times> nat \<times> nat) list"

definition align_up :: "nat \<Rightarrow> nat \<Rightarrow> nat" where
  "align_up a n = (n + (a - 1)) div a * a"

fun member_offsets :: "nat \<Rightarrow> layout \<Rightarrow> (string \<times> nat \<times> nat) list" where
  "member_offsets pos [] = []"
| "member_offsets pos ((f, a, s) # ms) =
     (f, align_up a pos, s) # member_offsets (align_up a pos + s) ms"

fun layout_end :: "nat \<Rightarrow> layout \<Rightarrow> nat" where
  "layout_end pos [] = pos"
| "layout_end pos ((f, a, s) # ms) = layout_end (align_up a pos + s) ms"

definition layout_align :: "layout \<Rightarrow> nat" where
  "layout_align l = foldr (\<lambda>(f, a, s). max a) l 1"

definition offsetof :: "layout \<Rightarrow> string \<Rightarrow> nat" where
  "offsetof l f = (case map_of (member_offsets 0 l) f of Some (off, s) \<Rightarrow> off | None \<Rightarrow> 0)"

definition sizeof :: "layout \<Rightarrow> nat" where
  "sizeof l = align_up (layout_align l) (layout_end 0 l)"

abbreviation be16_m :: "string \<Rightarrow> string \<times> nat \<times> nat" where "be16_m f \<equiv> (f, 2, 2)"
abbreviation be32_m :: "string \<Rightarrow> string \<times> nat \<times> nat" where "be32_m f \<equiv> (f, 4, 4)"
abbreviation be64_m :: "string \<Rightarrow> string \<times> nat \<times> nat" where "be64_m f \<equiv> (f, 8, 8)"
abbreviation u8_m :: "string \<Rightarrow> string \<times> nat \<times> nat" where "u8_m f \<equiv> (f, 1, 1)"
abbreviation arr_m :: "string \<Rightarrow> nat \<Rightarrow> string \<times> nat \<times> nat" where "arr_m f n \<equiv> (f, 1, n)"
abbreviation inum_m :: "string \<Rightarrow> string \<times> nat \<times> nat" where "inum_m f \<equiv> (f, 8, 16)"
abbreviation mh_m :: "string \<Rightarrow> string \<times> nat \<times> nat" where "mh_m f \<equiv> (f, 8, 24)"

section \<open>gfs2_ondisk.h\<close>

definition struct_gfs2_inum :: layout where
  "struct_gfs2_inum = [be64_m ''no_formal_ino'', be64_m ''no_addr'']"

definition struct_gfs2_meta_header :: layout where
  "struct_gfs2_meta_header =
    [be32_m ''mh_magic'', be32_m ''mh_type'', be64_m ''__pad0'', be32_m ''mh_format'',
     be32_m ''mh_jid'']"

definition struct_gfs2_sb :: layout where
  "struct_gfs2_sb =
    [mh_m ''sb_header'', be32_m ''sb_fs_format'', be32_m ''sb_multihost_format'',
     be32_m ''__pad0'', be32_m ''sb_bsize'', be32_m ''sb_bsize_shift'', be32_m ''__pad1'',
     inum_m ''sb_master_dir'', inum_m ''__pad2'', inum_m ''sb_root_dir'',
     arr_m ''sb_lockproto'' 64, arr_m ''sb_locktable'' 64, inum_m ''__pad3'', inum_m ''__pad4'',
     arr_m ''sb_uuid'' 16]"

definition struct_gfs2_rindex :: layout where
  "struct_gfs2_rindex =
    [be64_m ''ri_addr'', be32_m ''ri_length'', be32_m ''__pad'', be64_m ''ri_data0'',
     be32_m ''ri_data'', be32_m ''ri_bitbytes'', arr_m ''ri_reserved'' 64]"

definition struct_gfs2_rgrp :: layout where
  "struct_gfs2_rgrp =
    [mh_m ''rg_header'', be32_m ''rg_flags'', be32_m ''rg_free'', be32_m ''rg_dinodes'',
     be32_m ''rg_skip'', be64_m ''rg_igeneration'', be64_m ''rg_data0'', be32_m ''rg_data'',
     be32_m ''rg_bitbytes'', be32_m ''rg_crc'', arr_m ''rg_reserved'' 60]"

definition struct_gfs2_quota :: layout where
  "struct_gfs2_quota =
    [be64_m ''qu_limit'', be64_m ''qu_warn'', be64_m ''qu_value'', arr_m ''qu_reserved'' 64]"

definition struct_gfs2_dinode :: layout where
  "struct_gfs2_dinode =
    [mh_m ''di_header'', inum_m ''di_num'', be32_m ''di_mode'', be32_m ''di_uid'',
     be32_m ''di_gid'', be32_m ''di_nlink'', be64_m ''di_size'', be64_m ''di_blocks'',
     be64_m ''di_atime'', be64_m ''di_mtime'', be64_m ''di_ctime'', be32_m ''di_major'',
     be32_m ''di_minor'', be64_m ''di_goal_meta'', be64_m ''di_goal_data'',
     be64_m ''di_generation'', be32_m ''di_flags'', be32_m ''di_payload_format'',
     be16_m ''__pad1'', be16_m ''di_height'', be32_m ''__pad2'', be16_m ''__pad3'',
     be16_m ''di_depth'', be32_m ''di_entries'', inum_m ''__pad4'', be64_m ''di_eattr'',
     be32_m ''di_atime_nsec'', be32_m ''di_mtime_nsec'', be32_m ''di_ctime_nsec'',
     arr_m ''di_reserved'' 44]"

definition struct_gfs2_dirent :: layout where
  "struct_gfs2_dirent =
    [inum_m ''de_inum'', be32_m ''de_hash'', be16_m ''de_rec_len'', be16_m ''de_name_len'',
     be16_m ''de_type'', be16_m ''de_rahead'', be32_m ''de_cookie'', arr_m ''pad3'' 8]"

definition struct_gfs2_leaf :: layout where
  "struct_gfs2_leaf =
    [mh_m ''lf_header'', be16_m ''lf_depth'', be16_m ''lf_entries'',
     be32_m ''lf_dirent_format'', be64_m ''lf_next'', be64_m ''lf_inode'', be32_m ''lf_dist'',
     be32_m ''lf_nsec'', be64_m ''lf_sec'', arr_m ''lf_reserved2'' 40]"

definition struct_gfs2_ea_header :: layout where
  "struct_gfs2_ea_header =
    [be32_m ''ea_rec_len'', be32_m ''ea_data_len'', u8_m ''ea_name_len'', u8_m ''ea_type'',
     u8_m ''ea_flags'', u8_m ''ea_num_ptrs'', be32_m ''__pad'']"

definition struct_gfs2_log_header :: layout where
  "struct_gfs2_log_header =
    [mh_m ''lh_header'', be64_m ''lh_sequence'', be32_m ''lh_flags'', be32_m ''lh_tail'',
     be32_m ''lh_blkno'', be32_m ''lh_hash'', be32_m ''lh_crc'', be32_m ''lh_nsec'',
     be64_m ''lh_sec'', be64_m ''lh_addr'', be64_m ''lh_jinode'', be64_m ''lh_statfs_addr'',
     be64_m ''lh_quota_addr'', be64_m ''lh_local_total'', be64_m ''lh_local_free'',
     be64_m ''lh_local_dinodes'']"

definition struct_gfs2_log_descriptor :: layout where
  "struct_gfs2_log_descriptor =
    [mh_m ''ld_header'', be32_m ''ld_type'', be32_m ''ld_length'', be32_m ''ld_data1'',
     be32_m ''ld_data2'', arr_m ''ld_reserved'' 32]"

definition struct_gfs2_inum_range :: layout where
  "struct_gfs2_inum_range = [be64_m ''ir_start'', be64_m ''ir_length'']"

definition struct_gfs2_statfs_change :: layout where
  "struct_gfs2_statfs_change = [be64_m ''sc_total'', be64_m ''sc_free'', be64_m ''sc_dinodes'']"

definition struct_gfs2_quota_change :: layout where
  "struct_gfs2_quota_change = [be64_m ''qc_change'', be32_m ''qc_flags'', be32_m ''qc_id'']"

section \<open>gfs1 structures (libgfs2.h)\<close>

definition struct_gfs_indirect :: layout where
  "struct_gfs_indirect = [mh_m ''in_header'', arr_m ''in_reserved'' 64]"

definition struct_gfs_dinode :: layout where
  "struct_gfs_dinode =
    [mh_m ''di_header'', inum_m ''di_num'', be32_m ''di_mode'', be32_m ''di_uid'',
     be32_m ''di_gid'', be32_m ''di_nlink'', be64_m ''di_size'', be64_m ''di_blocks'',
     be64_m ''di_atime'', be64_m ''di_mtime'', be64_m ''di_ctime'', be32_m ''di_major'',
     be32_m ''di_minor'', be64_m ''di_rgrp'', be64_m ''di_goal_rgrp'', be32_m ''di_goal_dblk'',
     be32_m ''di_goal_mblk'', be32_m ''di_flags'', be32_m ''di_payload_format'',
     be16_m ''di_type'', be16_m ''di_height'', be32_m ''di_incarn'', be16_m ''di_pad'',
     be16_m ''di_depth'', be32_m ''di_entries'', inum_m ''di_next_unused'', be64_m ''di_eattr'',
     arr_m ''di_reserved'' 56]"

definition struct_gfs_sb :: layout where
  "struct_gfs_sb =
    [mh_m ''sb_header'', be32_m ''sb_fs_format'', be32_m ''sb_multihost_format'',
     be32_m ''sb_flags'', be32_m ''sb_bsize'', be32_m ''sb_bsize_shift'', be32_m ''sb_seg_size'',
     inum_m ''sb_jindex_di'', inum_m ''sb_rindex_di'', inum_m ''sb_root_di'',
     arr_m ''sb_lockproto'' 64, arr_m ''sb_locktable'' 64, inum_m ''sb_quota_di'',
     inum_m ''sb_license_di'', arr_m ''sb_reserved'' 96]"

definition struct_gfs_rgrp :: layout where
  "struct_gfs_rgrp =
    [mh_m ''rg_header'', be32_m ''rg_flags'', be32_m ''rg_free'', be32_m ''rg_useddi'',
     be32_m ''rg_freedi'', inum_m ''rg_freedi_list'', be32_m ''rg_usedmeta'',
     be32_m ''rg_freemeta'', arr_m ''rg_reserved'' 64]"

definition struct_gfs_log_header :: layout where
  "struct_gfs_log_header =
    [mh_m ''lh_header'', be32_m ''lh_flags'', be32_m ''lh_pad'', be64_m ''lh_first'',
     be64_m ''lh_sequence'', be64_m ''lh_tail'', be64_m ''lh_last_dump'',
     arr_m ''lh_reserved'' 64]"

definition struct_gfs_jindex :: layout where
  "struct_gfs_jindex =
    [be64_m ''ji_addr'', be32_m ''ji_nsegment'', be32_m ''ji_pad'', arr_m ''ji_reserved'' 64]"

definition struct_gfs_log_descriptor :: layout where
  "struct_gfs_log_descriptor =
    [mh_m ''ld_header'', be32_m ''ld_type'', be32_m ''ld_length'', be32_m ''ld_data1'',
     be32_m ''ld_data2'', arr_m ''ld_reserved'' 64]"

section \<open>The offsets evaluated\<close>

lemmas layout_eval = offsetof_def sizeof_def layout_align_def align_up_def

lemmas struct_defs =
  struct_gfs2_inum_def struct_gfs2_meta_header_def struct_gfs2_sb_def
  struct_gfs2_rindex_def struct_gfs2_rgrp_def struct_gfs2_quota_def
  struct_gfs2_dinode_def struct_gfs2_dirent_def struct_gfs2_leaf_def
  struct_gfs2_ea_header_def struct_gfs2_log_header_def struct_gfs2_log_descriptor_def
  struct_gfs2_inum_range_def struct_gfs2_statfs_change_def struct_gfs2_quota_change_def
  struct_gfs_indirect_def struct_gfs_dinode_def struct_gfs_sb_def
  struct_gfs_rgrp_def struct_gfs_log_header_def struct_gfs_jindex_def
  struct_gfs_log_descriptor_def

lemma sizes [size_simps]:
  "sizeof struct_gfs2_inum = 16"
  "sizeof struct_gfs2_meta_header = 24"
  "sizeof struct_gfs2_sb = 272"
  "sizeof struct_gfs2_rindex = 96"
  "sizeof struct_gfs2_rgrp = 128"
  "sizeof struct_gfs2_quota = 88"
  "sizeof struct_gfs2_dinode = 232"
  "sizeof struct_gfs2_dirent = 40"
  "sizeof struct_gfs2_leaf = 104"
  "sizeof struct_gfs2_ea_header = 16"
  "sizeof struct_gfs2_log_header = 120"
  "sizeof struct_gfs2_log_descriptor = 72"
  "sizeof struct_gfs2_inum_range = 16"
  "sizeof struct_gfs2_statfs_change = 24"
  "sizeof struct_gfs2_quota_change = 16"
  "sizeof struct_gfs_indirect = 88"
  "sizeof struct_gfs_dinode = 232"
  "sizeof struct_gfs_sb = 352"
  "sizeof struct_gfs_rgrp = 128"
  "sizeof struct_gfs_log_header = 128"
  "sizeof struct_gfs_jindex = 80"
  "sizeof struct_gfs_log_descriptor = 104"
  by (simp_all add: layout_eval struct_defs)

lemma offsets_gfs2_inum [size_simps]:
  "offsetof struct_gfs2_inum ''no_formal_ino'' = 0"
  "offsetof struct_gfs2_inum ''no_addr'' = 8"
  by (simp_all add: layout_eval struct_gfs2_inum_def)

lemma offsets_gfs2_meta_header [size_simps]:
  "offsetof struct_gfs2_meta_header ''mh_magic'' = 0"
  "offsetof struct_gfs2_meta_header ''mh_type'' = 4"
  "offsetof struct_gfs2_meta_header ''mh_format'' = 16"
  "offsetof struct_gfs2_meta_header ''mh_jid'' = 20"
  by (simp_all add: layout_eval struct_gfs2_meta_header_def)

lemma offsets_gfs2_sb [size_simps]:
  "offsetof struct_gfs2_sb ''sb_header'' = 0"
  "offsetof struct_gfs2_sb ''sb_fs_format'' = 24"
  "offsetof struct_gfs2_sb ''sb_multihost_format'' = 28"
  "offsetof struct_gfs2_sb ''sb_bsize'' = 36"
  "offsetof struct_gfs2_sb ''sb_bsize_shift'' = 40"
  "offsetof struct_gfs2_sb ''sb_master_dir'' = 48"
  "offsetof struct_gfs2_sb ''sb_root_dir'' = 80"
  "offsetof struct_gfs2_sb ''sb_lockproto'' = 96"
  "offsetof struct_gfs2_sb ''sb_locktable'' = 160"
  "offsetof struct_gfs2_sb ''sb_uuid'' = 256"
  by (simp_all add: layout_eval struct_gfs2_sb_def)

lemma offsets_gfs2_rindex [size_simps]:
  "offsetof struct_gfs2_rindex ''ri_addr'' = 0"
  "offsetof struct_gfs2_rindex ''ri_length'' = 8"
  "offsetof struct_gfs2_rindex ''ri_data0'' = 16"
  "offsetof struct_gfs2_rindex ''ri_data'' = 24"
  "offsetof struct_gfs2_rindex ''ri_bitbytes'' = 28"
  by (simp_all add: layout_eval struct_gfs2_rindex_def)

lemma offsets_gfs2_rgrp [size_simps]:
  "offsetof struct_gfs2_rgrp ''rg_header'' = 0"
  "offsetof struct_gfs2_rgrp ''rg_flags'' = 24"
  "offsetof struct_gfs2_rgrp ''rg_free'' = 28"
  "offsetof struct_gfs2_rgrp ''rg_dinodes'' = 32"
  "offsetof struct_gfs2_rgrp ''rg_skip'' = 36"
  "offsetof struct_gfs2_rgrp ''rg_igeneration'' = 40"
  "offsetof struct_gfs2_rgrp ''rg_data0'' = 48"
  "offsetof struct_gfs2_rgrp ''rg_data'' = 56"
  "offsetof struct_gfs2_rgrp ''rg_bitbytes'' = 60"
  "offsetof struct_gfs2_rgrp ''rg_crc'' = 64"
  by (simp_all add: layout_eval struct_gfs2_rgrp_def)

lemma offsets_gfs2_quota [size_simps]:
  "offsetof struct_gfs2_quota ''qu_limit'' = 0"
  "offsetof struct_gfs2_quota ''qu_warn'' = 8"
  "offsetof struct_gfs2_quota ''qu_value'' = 16"
  by (simp_all add: layout_eval struct_gfs2_quota_def)

lemma offsets_gfs2_dinode [size_simps]:
  "offsetof struct_gfs2_dinode ''di_header'' = 0"
  "offsetof struct_gfs2_dinode ''di_num'' = 24"
  "offsetof struct_gfs2_dinode ''di_mode'' = 40"
  "offsetof struct_gfs2_dinode ''di_uid'' = 44"
  "offsetof struct_gfs2_dinode ''di_gid'' = 48"
  "offsetof struct_gfs2_dinode ''di_nlink'' = 52"
  "offsetof struct_gfs2_dinode ''di_size'' = 56"
  "offsetof struct_gfs2_dinode ''di_blocks'' = 64"
  "offsetof struct_gfs2_dinode ''di_atime'' = 72"
  "offsetof struct_gfs2_dinode ''di_mtime'' = 80"
  "offsetof struct_gfs2_dinode ''di_ctime'' = 88"
  "offsetof struct_gfs2_dinode ''di_major'' = 96"
  "offsetof struct_gfs2_dinode ''di_minor'' = 100"
  "offsetof struct_gfs2_dinode ''di_goal_meta'' = 104"
  "offsetof struct_gfs2_dinode ''di_goal_data'' = 112"
  "offsetof struct_gfs2_dinode ''di_generation'' = 120"
  "offsetof struct_gfs2_dinode ''di_flags'' = 128"
  "offsetof struct_gfs2_dinode ''di_payload_format'' = 132"
  "offsetof struct_gfs2_dinode ''di_height'' = 138"
  "offsetof struct_gfs2_dinode ''di_depth'' = 146"
  "offsetof struct_gfs2_dinode ''di_entries'' = 148"
  "offsetof struct_gfs2_dinode ''di_eattr'' = 168"
  "offsetof struct_gfs2_dinode ''di_atime_nsec'' = 176"
  "offsetof struct_gfs2_dinode ''di_mtime_nsec'' = 180"
  "offsetof struct_gfs2_dinode ''di_ctime_nsec'' = 184"
  by (simp_all add: layout_eval struct_gfs2_dinode_def)

lemma offsets_gfs2_dirent [size_simps]:
  "offsetof struct_gfs2_dirent ''de_inum'' = 0"
  "offsetof struct_gfs2_dirent ''de_hash'' = 16"
  "offsetof struct_gfs2_dirent ''de_rec_len'' = 20"
  "offsetof struct_gfs2_dirent ''de_name_len'' = 22"
  "offsetof struct_gfs2_dirent ''de_type'' = 24"
  "offsetof struct_gfs2_dirent ''de_rahead'' = 26"
  "offsetof struct_gfs2_dirent ''de_cookie'' = 28"
  by (simp_all add: layout_eval struct_gfs2_dirent_def)

lemma offsets_gfs2_leaf [size_simps]:
  "offsetof struct_gfs2_leaf ''lf_header'' = 0"
  "offsetof struct_gfs2_leaf ''lf_depth'' = 24"
  "offsetof struct_gfs2_leaf ''lf_entries'' = 26"
  "offsetof struct_gfs2_leaf ''lf_dirent_format'' = 28"
  "offsetof struct_gfs2_leaf ''lf_next'' = 32"
  "offsetof struct_gfs2_leaf ''lf_inode'' = 40"
  "offsetof struct_gfs2_leaf ''lf_dist'' = 48"
  "offsetof struct_gfs2_leaf ''lf_nsec'' = 52"
  "offsetof struct_gfs2_leaf ''lf_sec'' = 56"
  by (simp_all add: layout_eval struct_gfs2_leaf_def)

lemma offsets_gfs2_ea_header [size_simps]:
  "offsetof struct_gfs2_ea_header ''ea_rec_len'' = 0"
  "offsetof struct_gfs2_ea_header ''ea_data_len'' = 4"
  "offsetof struct_gfs2_ea_header ''ea_name_len'' = 8"
  "offsetof struct_gfs2_ea_header ''ea_type'' = 9"
  "offsetof struct_gfs2_ea_header ''ea_flags'' = 10"
  "offsetof struct_gfs2_ea_header ''ea_num_ptrs'' = 11"
  by (simp_all add: layout_eval struct_gfs2_ea_header_def)

lemma offsets_gfs2_log_header [size_simps]:
  "offsetof struct_gfs2_log_header ''lh_header'' = 0"
  "offsetof struct_gfs2_log_header ''lh_sequence'' = 24"
  "offsetof struct_gfs2_log_header ''lh_flags'' = 32"
  "offsetof struct_gfs2_log_header ''lh_tail'' = 36"
  "offsetof struct_gfs2_log_header ''lh_blkno'' = 40"
  "offsetof struct_gfs2_log_header ''lh_hash'' = 44"
  "offsetof struct_gfs2_log_header ''lh_crc'' = 48"
  "offsetof struct_gfs2_log_header ''lh_nsec'' = 52"
  "offsetof struct_gfs2_log_header ''lh_sec'' = 56"
  "offsetof struct_gfs2_log_header ''lh_addr'' = 64"
  "offsetof struct_gfs2_log_header ''lh_jinode'' = 72"
  "offsetof struct_gfs2_log_header ''lh_statfs_addr'' = 80"
  "offsetof struct_gfs2_log_header ''lh_quota_addr'' = 88"
  "offsetof struct_gfs2_log_header ''lh_local_total'' = 96"
  "offsetof struct_gfs2_log_header ''lh_local_free'' = 104"
  "offsetof struct_gfs2_log_header ''lh_local_dinodes'' = 112"
  by (simp_all add: layout_eval struct_gfs2_log_header_def)

lemma offsets_gfs2_log_descriptor [size_simps]:
  "offsetof struct_gfs2_log_descriptor ''ld_header'' = 0"
  "offsetof struct_gfs2_log_descriptor ''ld_type'' = 24"
  "offsetof struct_gfs2_log_descriptor ''ld_length'' = 28"
  "offsetof struct_gfs2_log_descriptor ''ld_data1'' = 32"
  "offsetof struct_gfs2_log_descriptor ''ld_data2'' = 36"
  by (simp_all add: layout_eval struct_gfs2_log_descriptor_def)

lemma offsets_gfs2_inum_range [size_simps]:
  "offsetof struct_gfs2_inum_range ''ir_start'' = 0"
  "offsetof struct_gfs2_inum_range ''ir_length'' = 8"
  by (simp_all add: layout_eval struct_gfs2_inum_range_def)

lemma offsets_gfs2_statfs_change [size_simps]:
  "offsetof struct_gfs2_statfs_change ''sc_total'' = 0"
  "offsetof struct_gfs2_statfs_change ''sc_free'' = 8"
  "offsetof struct_gfs2_statfs_change ''sc_dinodes'' = 16"
  by (simp_all add: layout_eval struct_gfs2_statfs_change_def)

lemma offsets_gfs2_quota_change [size_simps]:
  "offsetof struct_gfs2_quota_change ''qc_change'' = 0"
  "offsetof struct_gfs2_quota_change ''qc_flags'' = 8"
  "offsetof struct_gfs2_quota_change ''qc_id'' = 12"
  by (simp_all add: layout_eval struct_gfs2_quota_change_def)

lemma offsets_gfs_indirect [size_simps]:
  "offsetof struct_gfs_indirect ''in_header'' = 0"
  by (simp_all add: layout_eval struct_gfs_indirect_def)

lemma offsets_gfs_dinode [size_simps]:
  "offsetof struct_gfs_dinode ''di_header'' = 0"
  "offsetof struct_gfs_dinode ''di_num'' = 24"
  "offsetof struct_gfs_dinode ''di_mode'' = 40"
  "offsetof struct_gfs_dinode ''di_uid'' = 44"
  "offsetof struct_gfs_dinode ''di_gid'' = 48"
  "offsetof struct_gfs_dinode ''di_nlink'' = 52"
  "offsetof struct_gfs_dinode ''di_size'' = 56"
  "offsetof struct_gfs_dinode ''di_blocks'' = 64"
  "offsetof struct_gfs_dinode ''di_atime'' = 72"
  "offsetof struct_gfs_dinode ''di_mtime'' = 80"
  "offsetof struct_gfs_dinode ''di_ctime'' = 88"
  "offsetof struct_gfs_dinode ''di_major'' = 96"
  "offsetof struct_gfs_dinode ''di_minor'' = 100"
  "offsetof struct_gfs_dinode ''di_rgrp'' = 104"
  "offsetof struct_gfs_dinode ''di_goal_rgrp'' = 112"
  "offsetof struct_gfs_dinode ''di_goal_dblk'' = 120"
  "offsetof struct_gfs_dinode ''di_goal_mblk'' = 124"
  "offsetof struct_gfs_dinode ''di_flags'' = 128"
  "offsetof struct_gfs_dinode ''di_payload_format'' = 132"
  "offsetof struct_gfs_dinode ''di_type'' = 136"
  "offsetof struct_gfs_dinode ''di_height'' = 138"
  "offsetof struct_gfs_dinode ''di_incarn'' = 140"
  "offsetof struct_gfs_dinode ''di_pad'' = 144"
  "offsetof struct_gfs_dinode ''di_depth'' = 146"
  "offsetof struct_gfs_dinode ''di_entries'' = 148"
  "offsetof struct_gfs_dinode ''di_next_unused'' = 152"
  "offsetof struct_gfs_dinode ''di_eattr'' = 168"
  by (simp_all add: layout_eval struct_gfs_dinode_def)

lemma offsets_gfs_sb [size_simps]:
  "offsetof struct_gfs_sb ''sb_header'' = 0"
  "offsetof struct_gfs_sb ''sb_fs_format'' = 24"
  "offsetof struct_gfs_sb ''sb_multihost_format'' = 28"
  "offsetof struct_gfs_sb ''sb_flags'' = 32"
  "offsetof struct_gfs_sb ''sb_bsize'' = 36"
  "offsetof struct_gfs_sb ''sb_bsize_shift'' = 40"
  "offsetof struct_gfs_sb ''sb_seg_size'' = 44"
  "offsetof struct_gfs_sb ''sb_jindex_di'' = 48"
  "offsetof struct_gfs_sb ''sb_rindex_di'' = 64"
  "offsetof struct_gfs_sb ''sb_root_di'' = 80"
  "offsetof struct_gfs_sb ''sb_lockproto'' = 96"
  "offsetof struct_gfs_sb ''sb_locktable'' = 160"
  "offsetof struct_gfs_sb ''sb_quota_di'' = 224"
  "offsetof struct_gfs_sb ''sb_license_di'' = 240"
  by (simp_all add: layout_eval struct_gfs_sb_def)

lemma offsets_gfs_rgrp [size_simps]:
  "offsetof struct_gfs_rgrp ''rg_header'' = 0"
  "offsetof struct_gfs_rgrp ''rg_flags'' = 24"
  "offsetof struct_gfs_rgrp ''rg_free'' = 28"
  "offsetof struct_gfs_rgrp ''rg_useddi'' = 32"
  "offsetof struct_gfs_rgrp ''rg_freedi'' = 36"
  "offsetof struct_gfs_rgrp ''rg_freedi_list'' = 40"
  "offsetof struct_gfs_rgrp ''rg_usedmeta'' = 56"
  "offsetof struct_gfs_rgrp ''rg_freemeta'' = 60"
  by (simp_all add: layout_eval struct_gfs_rgrp_def)

lemma offsets_gfs_log_header [size_simps]:
  "offsetof struct_gfs_log_header ''lh_header'' = 0"
  "offsetof struct_gfs_log_header ''lh_flags'' = 24"
  "offsetof struct_gfs_log_header ''lh_pad'' = 28"
  "offsetof struct_gfs_log_header ''lh_first'' = 32"
  "offsetof struct_gfs_log_header ''lh_sequence'' = 40"
  "offsetof struct_gfs_log_header ''lh_tail'' = 48"
  "offsetof struct_gfs_log_header ''lh_last_dump'' = 56"
  by (simp_all add: layout_eval struct_gfs_log_header_def)

lemma offsets_gfs_jindex [size_simps]:
  "offsetof struct_gfs_jindex ''ji_addr'' = 0"
  "offsetof struct_gfs_jindex ''ji_nsegment'' = 8"
  "offsetof struct_gfs_jindex ''ji_pad'' = 12"
  by (simp_all add: layout_eval struct_gfs_jindex_def)

lemma offsets_gfs_log_descriptor [size_simps]:
  "offsetof struct_gfs_log_descriptor ''ld_header'' = 0"
  "offsetof struct_gfs_log_descriptor ''ld_type'' = 24"
  "offsetof struct_gfs_log_descriptor ''ld_length'' = 28"
  "offsetof struct_gfs_log_descriptor ''ld_data1'' = 32"
  "offsetof struct_gfs_log_descriptor ''ld_data2'' = 36"
  by (simp_all add: layout_eval struct_gfs_log_descriptor_def)

end
