(* ===== verification/Types.thy ===== *)
theory Types
  imports Layout
begin

text \<open>
  The data of libgfs2.h and rgrp.h: the constants of the on-disk format the code uses and the
  structures the library passes around, one \<open>record\<close> per \<open>struct\<close> with the members' C types.

  Pointers that may be NULL are options. Unions are kept as the 64-bit words the members
  share: the members are read and set through functions of the shared word, so that a write
  through one view is seen through the other, as in C (little-endian host, LP64).
\<close>

section \<open>Constants of the on-disk format\<close>

abbreviation (input) GFS2_MAGIC :: u32 where "GFS2_MAGIC \<equiv> 0x01161970"

abbreviation (input) GFS2_FORMAT_SB :: u32 where "GFS2_FORMAT_SB \<equiv> 100"
abbreviation (input) GFS2_FORMAT_RG :: u32 where "GFS2_FORMAT_RG \<equiv> 200"
abbreviation (input) GFS2_FORMAT_RB :: u32 where "GFS2_FORMAT_RB \<equiv> 300"
abbreviation (input) GFS2_FORMAT_DI :: u32 where "GFS2_FORMAT_DI \<equiv> 400"
abbreviation (input) GFS2_FORMAT_IN :: u32 where "GFS2_FORMAT_IN \<equiv> 500"
abbreviation (input) GFS2_FORMAT_LF :: u32 where "GFS2_FORMAT_LF \<equiv> 600"
abbreviation (input) GFS2_FORMAT_JD :: u32 where "GFS2_FORMAT_JD \<equiv> 700"
abbreviation (input) GFS2_FORMAT_LH :: u32 where "GFS2_FORMAT_LH \<equiv> 800"
abbreviation (input) GFS2_FORMAT_LD :: u32 where "GFS2_FORMAT_LD \<equiv> 900"
abbreviation (input) GFS2_FORMAT_LB :: u32 where "GFS2_FORMAT_LB \<equiv> 1000"
abbreviation (input) GFS2_FORMAT_EA :: u32 where "GFS2_FORMAT_EA \<equiv> 1600"
abbreviation (input) GFS2_FORMAT_ED :: u32 where "GFS2_FORMAT_ED \<equiv> 1700"
abbreviation (input) GFS2_FORMAT_QC :: u32 where "GFS2_FORMAT_QC \<equiv> 1400"
abbreviation (input) GFS2_FORMAT_DE :: u32 where "GFS2_FORMAT_DE \<equiv> 1200"

abbreviation (input) GFS2_METATYPE_NONE :: u32 where "GFS2_METATYPE_NONE \<equiv> 0"
abbreviation (input) GFS2_METATYPE_SB :: u32 where "GFS2_METATYPE_SB \<equiv> 1"
abbreviation (input) GFS2_METATYPE_RG :: u32 where "GFS2_METATYPE_RG \<equiv> 2"
abbreviation (input) GFS2_METATYPE_RB :: u32 where "GFS2_METATYPE_RB \<equiv> 3"
abbreviation (input) GFS2_METATYPE_DI :: u32 where "GFS2_METATYPE_DI \<equiv> 4"
abbreviation (input) GFS2_METATYPE_IN :: u32 where "GFS2_METATYPE_IN \<equiv> 5"
abbreviation (input) GFS2_METATYPE_LF :: u32 where "GFS2_METATYPE_LF \<equiv> 6"
abbreviation (input) GFS2_METATYPE_JD :: u32 where "GFS2_METATYPE_JD \<equiv> 7"
abbreviation (input) GFS2_METATYPE_LH :: u32 where "GFS2_METATYPE_LH \<equiv> 8"
abbreviation (input) GFS2_METATYPE_LD :: u32 where "GFS2_METATYPE_LD \<equiv> 9"
abbreviation (input) GFS2_METATYPE_LB :: u32 where "GFS2_METATYPE_LB \<equiv> 12"
abbreviation (input) GFS2_METATYPE_EA :: u32 where "GFS2_METATYPE_EA \<equiv> 10"
abbreviation (input) GFS2_METATYPE_ED :: u32 where "GFS2_METATYPE_ED \<equiv> 11"
abbreviation (input) GFS2_METATYPE_QC :: u32 where "GFS2_METATYPE_QC \<equiv> 14"

abbreviation (input) GFS2_NBBY :: u32 where "GFS2_NBBY \<equiv> 4"

abbreviation (input) GFS2_BLKST_FREE :: nat where "GFS2_BLKST_FREE \<equiv> 0"
abbreviation (input) GFS2_BLKST_USED :: nat where "GFS2_BLKST_USED \<equiv> 1"
abbreviation (input) GFS2_BLKST_UNLINKED :: nat where "GFS2_BLKST_UNLINKED \<equiv> 2"
abbreviation (input) GFS2_BLKST_DINODE :: nat where "GFS2_BLKST_DINODE \<equiv> 3"

abbreviation (input) GFS2_DIF_JDATA :: u32 where "GFS2_DIF_JDATA \<equiv> 0x00000001"
abbreviation (input) GFS2_DIF_EXHASH :: u32 where "GFS2_DIF_EXHASH \<equiv> 0x00000002"

abbreviation (input) GFS2_LOG_HEAD_UNMOUNT :: u32 where "GFS2_LOG_HEAD_UNMOUNT \<equiv> 0x00000001"
abbreviation (input) GFS2_LOG_HEAD_USERSPACE :: u32 where "GFS2_LOG_HEAD_USERSPACE \<equiv> 0x80000000"

abbreviation (input) GFS2_MAX_META_HEIGHT :: nat where "GFS2_MAX_META_HEIGHT \<equiv> 10"
abbreviation (input) GFS2_BASIC_BLOCK :: u32 where "GFS2_BASIC_BLOCK \<equiv> 512"
abbreviation (input) GFS2_BASIC_BLOCK_SHIFT :: nat where "GFS2_BASIC_BLOCK_SHIFT \<equiv> 9"
abbreviation (input) GFS2_SB_ADDR :: u64 where "GFS2_SB_ADDR \<equiv> 128"

abbreviation (input) LGFS2_FS_FORMAT_MIN :: u32 where "LGFS2_FS_FORMAT_MIN \<equiv> 1801"
abbreviation (input) LGFS2_FS_FORMAT_MAX :: u32 where "LGFS2_FS_FORMAT_MAX \<equiv> 1802"

definition LGFS2_FS_FORMAT_VALID :: "u32 \<Rightarrow> bool" where
  "LGFS2_FS_FORMAT_VALID n \<longleftrightarrow> LGFS2_FS_FORMAT_MIN \<le> n \<and> n \<le> LGFS2_FS_FORMAT_MAX"

abbreviation (input) GFS_FORMAT_FS :: u32 where "GFS_FORMAT_FS \<equiv> 1309"
abbreviation (input) GFS_FORMAT_MULTI :: u32 where "GFS_FORMAT_MULTI \<equiv> 1401"
abbreviation (input) GFS_FILE_DIR :: u16 where "GFS_FILE_DIR \<equiv> 2"

section \<open>libgfs2.h\<close>

record lgfs2_inum =
  in_formal_ino :: u64
  in_addr :: u64

record lgfs2_dirent =
  dr_inum :: lgfs2_inum
  dr_hash :: u32
  dr_rec_len :: u16
  dr_name_len :: u16
  dr_type :: u16
  dr_rahead :: u16

record lgfs2_leaf =
  lf_depth :: u16
  lf_entries :: u16
  lf_dirent_format :: u32
  lf_next :: u64
  lf_inode :: u64
  lf_dist :: u32
  lf_nsec :: u32
  lf_sec :: u64

record lgfs2_log_header =
  lh_sequence :: u64
  lh_flags :: u32
  lh_tail :: u32
  lh_blkno :: u32
  lh_hash :: u32
  lh_crc :: u32
  lh_local_total :: u64
  lh_local_free :: u64
  lh_local_dinodes :: u64

text \<open>
  The data pointer of a bitmap: NULL, a pointer into a live buffer (whose bytes from there on
  are the value), or a pointer left behind after its buffer was freed.
\<close>

datatype bufptr = Null | Live bytes | Dangling

record gfs2_bitmap =
  bi_data :: bufptr
  bi_offset :: u32
  bi_start :: u32
  bi_len :: u32
  bi_modified :: bool

text \<open>
  A resource group without its tree node. \<open>rt_u0\<close> to \<open>rt_u3\<close> are the words of the union of the gfs2
  and gfs1 headers.
\<close>

record rgrp_tree =
  bits :: "gfs2_bitmap list"
  rt_addr :: u64
  rt_data0 :: u64
  rt_data :: u32
  rt_length :: u32
  rt_bitbytes :: u32
  rt_rg_data0 :: u64
  rt_rg_data :: u32
  rt_rg_bitbytes :: u32
  rt_flags :: u32
  rt_free :: u32
  rt_u0 :: u64
  rt_u1 :: u64
  rt_u2 :: u64
  rt_u3 :: u64

abbreviation (input) rt_igeneration :: "rgrp_tree \<Rightarrow> u64" where "rt_igeneration \<equiv> rt_u0"
definition rt_dinodes :: "rgrp_tree \<Rightarrow> u32" where "rt_dinodes rg = lo32 (rt_u1 rg)"
definition rt_skip :: "rgrp_tree \<Rightarrow> u32" where "rt_skip rg = hi32 (rt_u1 rg)"
definition rt_useddi :: "rgrp_tree \<Rightarrow> u32" where "rt_useddi rg = lo32 (rt_u0 rg)"
definition rt_freedi :: "rgrp_tree \<Rightarrow> u32" where "rt_freedi rg = hi32 (rt_u0 rg)"
definition rt_freedi_list :: "rgrp_tree \<Rightarrow> lgfs2_inum" where
  "rt_freedi_list rg = \<lparr>in_formal_ino = rt_u1 rg, in_addr = rt_u2 rg\<rparr>"
definition rt_usedmeta :: "rgrp_tree \<Rightarrow> u32" where "rt_usedmeta rg = lo32 (rt_u3 rg)"
definition rt_freemeta :: "rgrp_tree \<Rightarrow> u32" where "rt_freemeta rg = hi32 (rt_u3 rg)"

definition set_rt_dinodes :: "u32 \<Rightarrow> rgrp_tree \<Rightarrow> rgrp_tree" where
  "set_rt_dinodes v = rt_u1_update (set_lo32 v)"
definition set_rt_skip :: "u32 \<Rightarrow> rgrp_tree \<Rightarrow> rgrp_tree" where
  "set_rt_skip v = rt_u1_update (set_hi32 v)"
definition set_rt_useddi :: "u32 \<Rightarrow> rgrp_tree \<Rightarrow> rgrp_tree" where
  "set_rt_useddi v = rt_u0_update (set_lo32 v)"
definition set_rt_freedi :: "u32 \<Rightarrow> rgrp_tree \<Rightarrow> rgrp_tree" where
  "set_rt_freedi v = rt_u0_update (set_hi32 v)"
definition set_rt_freedi_list :: "u64 \<Rightarrow> u64 \<Rightarrow> rgrp_tree \<Rightarrow> rgrp_tree" where
  "set_rt_freedi_list formal addr rg = rg\<lparr>rt_u1 := formal, rt_u2 := addr\<rparr>"
definition set_rt_usedmeta :: "u32 \<Rightarrow> rgrp_tree \<Rightarrow> rgrp_tree" where
  "set_rt_usedmeta v = rt_u3_update (set_lo32 v)"
definition set_rt_freemeta :: "u32 \<Rightarrow> rgrp_tree \<Rightarrow> rgrp_tree" where
  "set_rt_freemeta v = rt_u3_update (set_hi32 v)"

lemmas rt_union_defs = rt_dinodes_def rt_skip_def rt_useddi_def rt_freedi_def rt_freedi_list_def
  rt_usedmeta_def rt_freemeta_def set_rt_dinodes_def set_rt_skip_def set_rt_useddi_def
  set_rt_freedi_def set_rt_freedi_list_def set_rt_usedmeta_def set_rt_freemeta_def

definition rgrp_size :: "rgrp_tree \<Rightarrow> u32" where
  "rgrp_size rgrp = rt_data rgrp + rt_length rgrp"

text \<open>
  A buffer head owns a copy of one block of the device. \<open>b_modified\<close> says whether \<open>brelse\<close> writes it.
\<close>

record gfs2_buffer_head =
  b_blocknr :: u64
  b_data :: bytes
  b_modified :: bool

text \<open>
  The in-core inode: the native-endian dinode fields and the words \<open>i_u0\<close> to \<open>i_u5\<close> of the union of
  its gfs2 and gfs1 parts.
\<close>

record gfs2_inode =
  i_magic :: u32
  i_mh_type :: u32
  i_format :: u32
  i_num :: lgfs2_inum
  i_mode :: u32
  i_uid :: u32
  i_gid :: u32
  i_nlink :: u32
  i_size :: u64
  i_blocks :: u64
  i_atime :: u64
  i_mtime :: u64
  i_ctime :: u64
  i_major :: u32
  i_minor :: u32
  i_flags :: u32
  i_payload_format :: u32
  i_height :: u16
  i_depth :: u16
  i_entries :: u32
  i_eattr :: u64
  i_u0 :: u64
  i_u1 :: u64
  i_u2 :: u64
  i_u3 :: u64
  i_u4 :: u64
  i_u5 :: u64

abbreviation (input) i_goal_meta :: "gfs2_inode \<Rightarrow> u64" where "i_goal_meta \<equiv> i_u0"
abbreviation (input) i_goal_data :: "gfs2_inode \<Rightarrow> u64" where "i_goal_data \<equiv> i_u1"
abbreviation (input) i_generation :: "gfs2_inode \<Rightarrow> u64" where "i_generation \<equiv> i_u2"
definition i_atime_nsec :: "gfs2_inode \<Rightarrow> u32" where "i_atime_nsec ip = lo32 (i_u3 ip)"
definition i_mtime_nsec :: "gfs2_inode \<Rightarrow> u32" where "i_mtime_nsec ip = hi32 (i_u3 ip)"
definition i_ctime_nsec :: "gfs2_inode \<Rightarrow> u32" where "i_ctime_nsec ip = lo32 (i_u4 ip)"

definition set_i_atime_nsec :: "u32 \<Rightarrow> gfs2_inode \<Rightarrow> gfs2_inode" where
  "set_i_atime_nsec v = i_u3_update (set_lo32 v)"
definition set_i_mtime_nsec :: "u32 \<Rightarrow> gfs2_inode \<Rightarrow> gfs2_inode" where
  "set_i_mtime_nsec v = i_u3_update (set_hi32 v)"
definition set_i_ctime_nsec :: "u32 \<Rightarrow> gfs2_inode \<Rightarrow> gfs2_inode" where
  "set_i_ctime_nsec v = i_u4_update (set_lo32 v)"

abbreviation (input) i_rgrp :: "gfs2_inode \<Rightarrow> u64" where "i_rgrp \<equiv> i_u0"
definition i_goal_rgrp :: "gfs2_inode \<Rightarrow> u32" where "i_goal_rgrp ip = lo32 (i_u1 ip)"
definition i_goal_dblk :: "gfs2_inode \<Rightarrow> u32" where "i_goal_dblk ip = hi32 (i_u1 ip)"
definition i_goal_mblk :: "gfs2_inode \<Rightarrow> u32" where "i_goal_mblk ip = lo32 (i_u2 ip)"
definition i_di_type :: "gfs2_inode \<Rightarrow> u16" where "i_di_type ip = ucast (hi32 (i_u2 ip))"
definition i_incarn :: "gfs2_inode \<Rightarrow> u32" where "i_incarn ip = lo32 (i_u3 ip)"
definition i_next_unused :: "gfs2_inode \<Rightarrow> lgfs2_inum" where
  "i_next_unused ip = \<lparr>in_formal_ino = i_u4 ip, in_addr = i_u5 ip\<rparr>"

definition set_i_goal_rgrp :: "u32 \<Rightarrow> gfs2_inode \<Rightarrow> gfs2_inode" where
  "set_i_goal_rgrp v = i_u1_update (set_lo32 v)"
definition set_i_goal_dblk :: "u32 \<Rightarrow> gfs2_inode \<Rightarrow> gfs2_inode" where
  "set_i_goal_dblk v = i_u1_update (set_hi32 v)"
definition set_i_goal_mblk :: "u32 \<Rightarrow> gfs2_inode \<Rightarrow> gfs2_inode" where
  "set_i_goal_mblk v = i_u2_update (set_lo32 v)"
definition set_i_di_type :: "u16 \<Rightarrow> gfs2_inode \<Rightarrow> gfs2_inode" where
  "set_i_di_type v = i_u2_update (\<lambda>w. set_hi32 ((hi32 w AND NOT (mask 16)) OR ucast v) w)"
definition set_i_incarn :: "u32 \<Rightarrow> gfs2_inode \<Rightarrow> gfs2_inode" where
  "set_i_incarn v = i_u3_update (set_lo32 v)"
definition set_i_next_unused :: "lgfs2_inum \<Rightarrow> gfs2_inode \<Rightarrow> gfs2_inode" where
  "set_i_next_unused v ip = ip\<lparr>i_u4 := in_formal_ino v, i_u5 := in_addr v\<rparr>"

lemmas i_union_defs = i_atime_nsec_def i_mtime_nsec_def i_ctime_nsec_def set_i_atime_nsec_def
  set_i_mtime_nsec_def set_i_ctime_nsec_def i_goal_rgrp_def i_goal_dblk_def i_goal_mblk_def
  i_di_type_def i_incarn_def i_next_unused_def set_i_goal_rgrp_def set_i_goal_dblk_def
  set_i_goal_mblk_def set_i_di_type_def set_i_incarn_def set_i_next_unused_def

text \<open>
  The superblock and the constants computed from it. \<open>sd_meta_dir\<close> is also gfs1's \<open>sd_jindex_di\<close>, a
  member of the same type at the same place. The resource group tree, the device and the pointers
  to system inodes are not members here: they are arguments of the operations that use them.
\<close>

record gfs2_sbd =
  sd_bsize :: u32
  sd_fs_format :: u32
  sd_multihost_format :: u32
  sd_flags :: u32
  sd_meta_dir :: lgfs2_inum
  sd_root_dir :: lgfs2_inum
  sd_rindex_di :: lgfs2_inum
  sd_quota_di :: lgfs2_inum
  sd_license_di :: lgfs2_inum
  sd_bsize_shift :: u32
  sd_seg_size :: u32
  sd_lockproto :: bytes
  sd_locktable :: bytes
  sd_uuid :: bytes
  sd_fsb2bb :: u32
  sd_fsb2bb_shift :: u32
  sd_diptrs :: u32
  sd_inptrs :: u32
  sd_jbsize :: u32
  sd_hash_bsize :: u32
  sd_hash_bsize_shift :: u32
  sd_hash_ptrs :: u32
  sd_blocks_per_bitmap :: u32
  sd_max_height :: u32
  sd_max_jheight :: u32
  sd_heightsize :: "u64 list"
  sd_jheightsize :: "u64 list"
  blks_alloced :: u64
  dinodes_alloced :: u64
  fssize :: u64
  sd_gfs1 :: bool

definition LGFS2_SB_ADDR :: "gfs2_sbd \<Rightarrow> u64" where
  "LGFS2_SB_ADDR sdp = drop_bit (unat (sd_fsb2bb_shift sdp)) GFS2_SB_ADDR"

section \<open>rgrp.h\<close>

record rg_spec =
  spec_len :: u32
  spec_num :: u32

text \<open>
  A position in a resource group's bitmaps. The group it points to is an argument of the
  operations on positions.
\<close>

record lgfs2_rbm =
  rbm_offset :: u32
  rbm_bii :: nat

end
