(* ===== verification/Ondisk.thy ===== *)
theory Ondisk
  imports Types Hash
begin

text \<open>
  The translation functions of ondisk.c and gfs1.c between the big-endian on-disk structures and
  the native-endian records, and the checksum of resource group headers (rgrp.c). Each function
  is the sequence of its assignments, one field access per member at the member's offset.

  A structure that starts inside a block takes the offset it starts at, in place of the
  pointer; the others take the block.

  The lemmas show, per structure, that reading what was written gives the record back, that
  writing what was read leaves the block as it was, and that a write touches the members only.
\<close>

section \<open>Inode numbers\<close>

definition lgfs2_inum_in :: "bytes \<Rightarrow> nat \<Rightarrow> lgfs2_inum" where
  "lgfs2_inum_in buf off =
     \<lparr>in_formal_ino = get_be64 buf (off + offsetof struct_gfs2_inum ''no_formal_ino''),
      in_addr = get_be64 buf (off + offsetof struct_gfs2_inum ''no_addr'')\<rparr>"

definition lgfs2_inum_out :: "lgfs2_inum \<Rightarrow> bytes \<Rightarrow> nat \<Rightarrow> bytes" where
  "lgfs2_inum_out i buf off = assigns [
     put_be64 (off + offsetof struct_gfs2_inum ''no_formal_ino'') (in_formal_ino i),
     put_be64 (off + offsetof struct_gfs2_inum ''no_addr'') (in_addr i)] buf"

section \<open>The superblock\<close>

definition lgfs2_sb_in :: "gfs2_sbd \<Rightarrow> bytes \<Rightarrow> gfs2_sbd" where
  "lgfs2_sb_in sdp buf = assigns [
     sd_fs_format_update (\<lambda>_. get_be32 buf (offsetof struct_gfs2_sb ''sb_fs_format'')),
     sd_multihost_format_update (\<lambda>_. get_be32 buf (offsetof struct_gfs2_sb ''sb_multihost_format'')),
     sd_flags_update (\<lambda>_. get_be32 buf (offsetof struct_gfs_sb ''sb_flags'')),
     sd_bsize_update (\<lambda>_. get_be32 buf (offsetof struct_gfs2_sb ''sb_bsize'')),
     sd_bsize_shift_update (\<lambda>_. get_be32 buf (offsetof struct_gfs2_sb ''sb_bsize_shift'')),
     sd_seg_size_update (\<lambda>_. get_be32 buf (offsetof struct_gfs_sb ''sb_seg_size'')),
     sd_meta_dir_update (\<lambda>_. lgfs2_inum_in buf (offsetof struct_gfs2_sb ''sb_master_dir'')),
     sd_root_dir_update (\<lambda>_. lgfs2_inum_in buf (offsetof struct_gfs2_sb ''sb_root_dir'')),
     sd_lockproto_update (\<lambda>_. get_raw 64 buf (offsetof struct_gfs2_sb ''sb_lockproto'')),
     sd_locktable_update (\<lambda>_. get_raw 64 buf (offsetof struct_gfs2_sb ''sb_locktable'')),
     sd_rindex_di_update (\<lambda>_. lgfs2_inum_in buf (offsetof struct_gfs_sb ''sb_rindex_di'')),
     sd_quota_di_update (\<lambda>_. lgfs2_inum_in buf (offsetof struct_gfs_sb ''sb_quota_di'')),
     sd_license_di_update (\<lambda>_. lgfs2_inum_in buf (offsetof struct_gfs_sb ''sb_license_di'')),
     sd_uuid_update (\<lambda>_. get_raw 16 buf (offsetof struct_gfs2_sb ''sb_uuid''))] sdp"

definition lgfs2_sb_out :: "gfs2_sbd \<Rightarrow> bytes \<Rightarrow> bytes" where
  "lgfs2_sb_out sdp buf = assigns [
     put_be32 (offsetof struct_gfs2_sb ''sb_header'' + offsetof struct_gfs2_meta_header ''mh_magic'') GFS2_MAGIC,
     put_be32 (offsetof struct_gfs2_sb ''sb_header'' + offsetof struct_gfs2_meta_header ''mh_type'') GFS2_METATYPE_SB,
     put_be32 (offsetof struct_gfs2_sb ''sb_header'' + offsetof struct_gfs2_meta_header ''mh_format'') GFS2_FORMAT_SB,
     put_be32 (offsetof struct_gfs2_sb ''sb_fs_format'') (sd_fs_format sdp),
     put_be32 (offsetof struct_gfs2_sb ''sb_multihost_format'') (sd_multihost_format sdp),
     put_be32 (offsetof struct_gfs_sb ''sb_flags'') (sd_flags sdp),
     put_be32 (offsetof struct_gfs2_sb ''sb_bsize'') (sd_bsize sdp),
     put_be32 (offsetof struct_gfs2_sb ''sb_bsize_shift'') (sd_bsize_shift sdp),
     put_be32 (offsetof struct_gfs_sb ''sb_seg_size'') (sd_seg_size sdp),
     (\<lambda>m. lgfs2_inum_out (sd_meta_dir sdp) m (offsetof struct_gfs2_sb ''sb_master_dir'')),
     (\<lambda>m. lgfs2_inum_out (sd_root_dir sdp) m (offsetof struct_gfs2_sb ''sb_root_dir'')),
     put_raw 64 (offsetof struct_gfs2_sb ''sb_lockproto'') (sd_lockproto sdp),
     put_raw 64 (offsetof struct_gfs2_sb ''sb_locktable'') (sd_locktable sdp),
     (\<lambda>m. lgfs2_inum_out (sd_rindex_di sdp) m (offsetof struct_gfs_sb ''sb_rindex_di'')),
     (\<lambda>m. lgfs2_inum_out (sd_quota_di sdp) m (offsetof struct_gfs_sb ''sb_quota_di'')),
     (\<lambda>m. lgfs2_inum_out (sd_license_di sdp) m (offsetof struct_gfs_sb ''sb_license_di'')),
     put_raw 16 (offsetof struct_gfs2_sb ''sb_uuid'') (sd_uuid sdp)] buf"

section \<open>Resource index entries\<close>

definition lgfs2_rindex_in :: "rgrp_tree \<Rightarrow> bytes \<Rightarrow> nat \<Rightarrow> rgrp_tree" where
  "lgfs2_rindex_in rg buf off = assigns [
     rt_addr_update (\<lambda>_. get_be64 buf (off + offsetof struct_gfs2_rindex ''ri_addr'')),
     rt_length_update (\<lambda>_. get_be32 buf (off + offsetof struct_gfs2_rindex ''ri_length'')),
     rt_data0_update (\<lambda>_. get_be64 buf (off + offsetof struct_gfs2_rindex ''ri_data0'')),
     rt_data_update (\<lambda>_. get_be32 buf (off + offsetof struct_gfs2_rindex ''ri_data'')),
     rt_bitbytes_update (\<lambda>_. get_be32 buf (off + offsetof struct_gfs2_rindex ''ri_bitbytes''))] rg"

definition lgfs2_rindex_out :: "rgrp_tree \<Rightarrow> bytes \<Rightarrow> nat \<Rightarrow> bytes" where
  "lgfs2_rindex_out rg buf off = assigns [
     put_be64 (off + offsetof struct_gfs2_rindex ''ri_addr'') (rt_addr rg),
     put_be32 (off + offsetof struct_gfs2_rindex ''ri_length'') (rt_length rg),
     put_be64 (off + offsetof struct_gfs2_rindex ''ri_data0'') (rt_data0 rg),
     put_be32 (off + offsetof struct_gfs2_rindex ''ri_data'') (rt_data rg),
     put_be32 (off + offsetof struct_gfs2_rindex ''ri_bitbytes'') (rt_bitbytes rg)] buf"

section \<open>Resource group headers\<close>

definition lgfs2_rgrp_crc_check :: "bytes \<Rightarrow> int" where
  "lgfs2_rgrp_crc_check buf =
     (let crc = get_be32 buf (offsetof struct_gfs2_rgrp ''rg_crc'') in
      if crc = 0 then 0
      else let buf = put_be32 (offsetof struct_gfs2_rgrp ''rg_crc'') 0 buf
           in if crc \<noteq> gfs2_disk_hash (slice 0 (sizeof struct_gfs2_rgrp) buf) then 1 else 0)"

definition lgfs2_rgrp_crc_set :: "bytes \<Rightarrow> bytes" where
  "lgfs2_rgrp_crc_set buf =
     (let buf = put_be32 (offsetof struct_gfs2_rgrp ''rg_crc'') 0 buf;
          crc = gfs2_disk_hash (slice 0 (sizeof struct_gfs2_rgrp) buf)
      in put_be32 (offsetof struct_gfs2_rgrp ''rg_crc'') crc buf)"

definition lgfs2_rgrp_in :: "rgrp_tree \<Rightarrow> bytes \<Rightarrow> rgrp_tree" where
  "lgfs2_rgrp_in rg buf = assigns [
     rt_flags_update (\<lambda>_. get_be32 buf (offsetof struct_gfs2_rgrp ''rg_flags'')),
     rt_free_update (\<lambda>_. get_be32 buf (offsetof struct_gfs2_rgrp ''rg_free'')),
     set_rt_dinodes (get_be32 buf (offsetof struct_gfs2_rgrp ''rg_dinodes'')),
     set_rt_skip (get_be32 buf (offsetof struct_gfs2_rgrp ''rg_skip'')),
     rt_u0_update (\<lambda>_. get_be64 buf (offsetof struct_gfs2_rgrp ''rg_igeneration'')),
     rt_rg_data0_update (\<lambda>_. get_be64 buf (offsetof struct_gfs2_rgrp ''rg_data0'')),
     rt_rg_data_update (\<lambda>_. get_be32 buf (offsetof struct_gfs2_rgrp ''rg_data'')),
     rt_rg_bitbytes_update (\<lambda>_. get_be32 buf (offsetof struct_gfs2_rgrp ''rg_bitbytes''))] rg"

definition lgfs2_rgrp_out :: "rgrp_tree \<Rightarrow> bytes \<Rightarrow> bytes" where
  "lgfs2_rgrp_out rg buf = lgfs2_rgrp_crc_set (assigns [
     put_be32 (offsetof struct_gfs2_rgrp ''rg_header'' + offsetof struct_gfs2_meta_header ''mh_magic'') GFS2_MAGIC,
     put_be32 (offsetof struct_gfs2_rgrp ''rg_header'' + offsetof struct_gfs2_meta_header ''mh_type'') GFS2_METATYPE_RG,
     put_be32 (offsetof struct_gfs2_rgrp ''rg_header'' + offsetof struct_gfs2_meta_header ''mh_format'') GFS2_FORMAT_RG,
     put_be32 (offsetof struct_gfs2_rgrp ''rg_flags'') (rt_flags rg),
     put_be32 (offsetof struct_gfs2_rgrp ''rg_free'') (rt_free rg),
     put_be32 (offsetof struct_gfs2_rgrp ''rg_dinodes'') (rt_dinodes rg),
     put_be32 (offsetof struct_gfs2_rgrp ''rg_skip'') (rt_skip rg),
     put_be64 (offsetof struct_gfs2_rgrp ''rg_igeneration'') (rt_igeneration rg),
     put_be64 (offsetof struct_gfs2_rgrp ''rg_data0'') (rt_rg_data0 rg),
     put_be32 (offsetof struct_gfs2_rgrp ''rg_data'') (rt_rg_data rg),
     put_be32 (offsetof struct_gfs2_rgrp ''rg_bitbytes'') (rt_rg_bitbytes rg)] buf)"

definition lgfs2_gfs_rgrp_in :: "rgrp_tree \<Rightarrow> bytes \<Rightarrow> rgrp_tree" where
  "lgfs2_gfs_rgrp_in rg buf = assigns [
     rt_flags_update (\<lambda>_. get_be32 buf (offsetof struct_gfs_rgrp ''rg_flags'')),
     rt_free_update (\<lambda>_. get_be32 buf (offsetof struct_gfs_rgrp ''rg_free'')),
     set_rt_useddi (get_be32 buf (offsetof struct_gfs_rgrp ''rg_useddi'')),
     set_rt_freedi (get_be32 buf (offsetof struct_gfs_rgrp ''rg_freedi'')),
     rt_u1_update (\<lambda>_. get_be64 buf (offsetof struct_gfs_rgrp ''rg_freedi_list'' + offsetof struct_gfs2_inum ''no_formal_ino'')),
     rt_u2_update (\<lambda>_. get_be64 buf (offsetof struct_gfs_rgrp ''rg_freedi_list'' + offsetof struct_gfs2_inum ''no_addr'')),
     set_rt_usedmeta (get_be32 buf (offsetof struct_gfs_rgrp ''rg_usedmeta'')),
     set_rt_freemeta (get_be32 buf (offsetof struct_gfs_rgrp ''rg_freemeta''))] rg"

definition lgfs2_gfs_rgrp_out :: "rgrp_tree \<Rightarrow> bytes \<Rightarrow> bytes" where
  "lgfs2_gfs_rgrp_out rg buf = assigns [
     put_be32 (offsetof struct_gfs_rgrp ''rg_header'' + offsetof struct_gfs2_meta_header ''mh_magic'') GFS2_MAGIC,
     put_be32 (offsetof struct_gfs_rgrp ''rg_header'' + offsetof struct_gfs2_meta_header ''mh_type'') GFS2_METATYPE_RG,
     put_be32 (offsetof struct_gfs_rgrp ''rg_header'' + offsetof struct_gfs2_meta_header ''mh_format'') GFS2_FORMAT_RG,
     put_be32 (offsetof struct_gfs_rgrp ''rg_flags'') (rt_flags rg),
     put_be32 (offsetof struct_gfs_rgrp ''rg_free'') (rt_free rg),
     put_be32 (offsetof struct_gfs_rgrp ''rg_useddi'') (rt_useddi rg),
     put_be32 (offsetof struct_gfs_rgrp ''rg_freedi'') (rt_freedi rg),
     put_be64 (offsetof struct_gfs_rgrp ''rg_freedi_list'' + offsetof struct_gfs2_inum ''no_formal_ino'') (in_formal_ino (rt_freedi_list rg)),
     put_be64 (offsetof struct_gfs_rgrp ''rg_freedi_list'' + offsetof struct_gfs2_inum ''no_addr'') (in_addr (rt_freedi_list rg)),
     put_be32 (offsetof struct_gfs_rgrp ''rg_usedmeta'') (rt_usedmeta rg),
     put_be32 (offsetof struct_gfs_rgrp ''rg_freemeta'') (rt_freemeta rg)] buf"

section \<open>Dinodes\<close>

definition lgfs2_dinode_in :: "gfs2_inode \<Rightarrow> bytes \<Rightarrow> gfs2_inode" where
  "lgfs2_dinode_in ip buf = assigns [
     i_magic_update (\<lambda>_. get_be32 buf (offsetof struct_gfs2_dinode ''di_header'' + offsetof struct_gfs2_meta_header ''mh_magic'')),
     i_mh_type_update (\<lambda>_. get_be32 buf (offsetof struct_gfs2_dinode ''di_header'' + offsetof struct_gfs2_meta_header ''mh_type'')),
     i_format_update (\<lambda>_. get_be32 buf (offsetof struct_gfs2_dinode ''di_header'' + offsetof struct_gfs2_meta_header ''mh_format'')),
     i_num_update (\<lambda>_. lgfs2_inum_in buf (offsetof struct_gfs2_dinode ''di_num'')),
     i_mode_update (\<lambda>_. get_be32 buf (offsetof struct_gfs2_dinode ''di_mode'')),
     i_uid_update (\<lambda>_. get_be32 buf (offsetof struct_gfs2_dinode ''di_uid'')),
     i_gid_update (\<lambda>_. get_be32 buf (offsetof struct_gfs2_dinode ''di_gid'')),
     i_nlink_update (\<lambda>_. get_be32 buf (offsetof struct_gfs2_dinode ''di_nlink'')),
     i_size_update (\<lambda>_. get_be64 buf (offsetof struct_gfs2_dinode ''di_size'')),
     i_blocks_update (\<lambda>_. get_be64 buf (offsetof struct_gfs2_dinode ''di_blocks'')),
     i_atime_update (\<lambda>_. get_be64 buf (offsetof struct_gfs2_dinode ''di_atime'')),
     i_mtime_update (\<lambda>_. get_be64 buf (offsetof struct_gfs2_dinode ''di_mtime'')),
     i_ctime_update (\<lambda>_. get_be64 buf (offsetof struct_gfs2_dinode ''di_ctime'')),
     i_major_update (\<lambda>_. get_be32 buf (offsetof struct_gfs2_dinode ''di_major'')),
     i_minor_update (\<lambda>_. get_be32 buf (offsetof struct_gfs2_dinode ''di_minor'')),
     i_u0_update (\<lambda>_. get_be64 buf (offsetof struct_gfs2_dinode ''di_goal_meta'')),
     i_u1_update (\<lambda>_. get_be64 buf (offsetof struct_gfs2_dinode ''di_goal_data'')),
     i_u2_update (\<lambda>_. get_be64 buf (offsetof struct_gfs2_dinode ''di_generation'')),
     i_flags_update (\<lambda>_. get_be32 buf (offsetof struct_gfs2_dinode ''di_flags'')),
     i_payload_format_update (\<lambda>_. get_be32 buf (offsetof struct_gfs2_dinode ''di_payload_format'')),
     i_height_update (\<lambda>_. get_be16 buf (offsetof struct_gfs2_dinode ''di_height'')),
     i_depth_update (\<lambda>_. get_be16 buf (offsetof struct_gfs2_dinode ''di_depth'')),
     i_entries_update (\<lambda>_. get_be32 buf (offsetof struct_gfs2_dinode ''di_entries'')),
     i_eattr_update (\<lambda>_. get_be64 buf (offsetof struct_gfs2_dinode ''di_eattr'')),
     set_i_atime_nsec (get_be32 buf (offsetof struct_gfs2_dinode ''di_atime_nsec'')),
     set_i_mtime_nsec (get_be32 buf (offsetof struct_gfs2_dinode ''di_mtime_nsec'')),
     set_i_ctime_nsec (get_be32 buf (offsetof struct_gfs2_dinode ''di_ctime_nsec''))] ip"

definition lgfs2_dinode_out :: "gfs2_inode \<Rightarrow> bytes \<Rightarrow> bytes" where
  "lgfs2_dinode_out ip buf = assigns [
     put_be32 (offsetof struct_gfs2_dinode ''di_header'' + offsetof struct_gfs2_meta_header ''mh_magic'') (i_magic ip),
     put_be32 (offsetof struct_gfs2_dinode ''di_header'' + offsetof struct_gfs2_meta_header ''mh_type'') (i_mh_type ip),
     put_be32 (offsetof struct_gfs2_dinode ''di_header'' + offsetof struct_gfs2_meta_header ''mh_format'') (i_format ip),
     (\<lambda>m. lgfs2_inum_out (i_num ip) m (offsetof struct_gfs2_dinode ''di_num'')),
     put_be32 (offsetof struct_gfs2_dinode ''di_mode'') (i_mode ip),
     put_be32 (offsetof struct_gfs2_dinode ''di_uid'') (i_uid ip),
     put_be32 (offsetof struct_gfs2_dinode ''di_gid'') (i_gid ip),
     put_be32 (offsetof struct_gfs2_dinode ''di_nlink'') (i_nlink ip),
     put_be64 (offsetof struct_gfs2_dinode ''di_size'') (i_size ip),
     put_be64 (offsetof struct_gfs2_dinode ''di_blocks'') (i_blocks ip),
     put_be64 (offsetof struct_gfs2_dinode ''di_atime'') (i_atime ip),
     put_be64 (offsetof struct_gfs2_dinode ''di_mtime'') (i_mtime ip),
     put_be64 (offsetof struct_gfs2_dinode ''di_ctime'') (i_ctime ip),
     put_be32 (offsetof struct_gfs2_dinode ''di_major'') (i_major ip),
     put_be32 (offsetof struct_gfs2_dinode ''di_minor'') (i_minor ip),
     put_be64 (offsetof struct_gfs2_dinode ''di_goal_meta'') (i_goal_meta ip),
     put_be64 (offsetof struct_gfs2_dinode ''di_goal_data'') (i_goal_data ip),
     put_be64 (offsetof struct_gfs2_dinode ''di_generation'') (i_generation ip),
     put_be32 (offsetof struct_gfs2_dinode ''di_flags'') (i_flags ip),
     put_be32 (offsetof struct_gfs2_dinode ''di_payload_format'') (i_payload_format ip),
     put_be16 (offsetof struct_gfs2_dinode ''di_height'') (i_height ip),
     put_be16 (offsetof struct_gfs2_dinode ''di_depth'') (i_depth ip),
     put_be32 (offsetof struct_gfs2_dinode ''di_entries'') (i_entries ip),
     put_be64 (offsetof struct_gfs2_dinode ''di_eattr'') (i_eattr ip),
     put_be32 (offsetof struct_gfs2_dinode ''di_atime_nsec'') (i_atime_nsec ip),
     put_be32 (offsetof struct_gfs2_dinode ''di_mtime_nsec'') (i_mtime_nsec ip),
     put_be32 (offsetof struct_gfs2_dinode ''di_ctime_nsec'') (i_ctime_nsec ip)] buf"

text \<open>\<open>calloc\<close> gives the inode that the gfs1 reader fills in.\<close>

definition inode_zero :: gfs2_inode where
  "inode_zero = \<lparr>i_magic = 0, i_mh_type = 0, i_format = 0,
     i_num = \<lparr>in_formal_ino = 0, in_addr = 0\<rparr>, i_mode = 0, i_uid = 0, i_gid = 0, i_nlink = 0,
     i_size = 0, i_blocks = 0, i_atime = 0, i_mtime = 0, i_ctime = 0, i_major = 0, i_minor = 0,
     i_flags = 0, i_payload_format = 0, i_height = 0, i_depth = 0, i_entries = 0, i_eattr = 0,
     i_u0 = 0, i_u1 = 0, i_u2 = 0, i_u3 = 0, i_u4 = 0, i_u5 = 0\<rparr>"

definition gfs_inode_get :: "bytes \<Rightarrow> gfs2_inode" where
  "gfs_inode_get buf = assigns [
     i_magic_update (\<lambda>_. get_be32 buf (offsetof struct_gfs_dinode ''di_header'' + offsetof struct_gfs2_meta_header ''mh_magic'')),
     i_mh_type_update (\<lambda>_. get_be32 buf (offsetof struct_gfs_dinode ''di_header'' + offsetof struct_gfs2_meta_header ''mh_type'')),
     i_format_update (\<lambda>_. get_be32 buf (offsetof struct_gfs_dinode ''di_header'' + offsetof struct_gfs2_meta_header ''mh_format'')),
     i_num_update (in_formal_ino_update (\<lambda>_. get_be64 buf (offsetof struct_gfs_dinode ''di_num'' + offsetof struct_gfs2_inum ''no_formal_ino''))),
     i_num_update (in_addr_update (\<lambda>_. get_be64 buf (offsetof struct_gfs_dinode ''di_num'' + offsetof struct_gfs2_inum ''no_addr''))),
     i_mode_update (\<lambda>_. get_be32 buf (offsetof struct_gfs_dinode ''di_mode'')),
     i_uid_update (\<lambda>_. get_be32 buf (offsetof struct_gfs_dinode ''di_uid'')),
     i_gid_update (\<lambda>_. get_be32 buf (offsetof struct_gfs_dinode ''di_gid'')),
     i_nlink_update (\<lambda>_. get_be32 buf (offsetof struct_gfs_dinode ''di_nlink'')),
     i_size_update (\<lambda>_. get_be64 buf (offsetof struct_gfs_dinode ''di_size'')),
     i_blocks_update (\<lambda>_. get_be64 buf (offsetof struct_gfs_dinode ''di_blocks'')),
     i_atime_update (\<lambda>_. get_be64 buf (offsetof struct_gfs_dinode ''di_atime'')),
     i_mtime_update (\<lambda>_. get_be64 buf (offsetof struct_gfs_dinode ''di_mtime'')),
     i_ctime_update (\<lambda>_. get_be64 buf (offsetof struct_gfs_dinode ''di_ctime'')),
     i_major_update (\<lambda>_. get_be32 buf (offsetof struct_gfs_dinode ''di_major'')),
     i_minor_update (\<lambda>_. get_be32 buf (offsetof struct_gfs_dinode ''di_minor'')),
     i_u1_update (\<lambda>_. ucast (get_be32 buf (offsetof struct_gfs_dinode ''di_goal_dblk''))),
     i_u0_update (\<lambda>_. ucast (get_be32 buf (offsetof struct_gfs_dinode ''di_goal_mblk''))),
     i_flags_update (\<lambda>_. get_be32 buf (offsetof struct_gfs_dinode ''di_flags'')),
     i_payload_format_update (\<lambda>_. get_be32 buf (offsetof struct_gfs_dinode ''di_payload_format'')),
     set_i_di_type (get_be16 buf (offsetof struct_gfs_dinode ''di_type'')),
     i_height_update (\<lambda>_. get_be16 buf (offsetof struct_gfs_dinode ''di_height'')),
     i_depth_update (\<lambda>_. get_be16 buf (offsetof struct_gfs_dinode ''di_depth'')),
     i_entries_update (\<lambda>_. get_be32 buf (offsetof struct_gfs_dinode ''di_entries'')),
     i_eattr_update (\<lambda>_. get_be64 buf (offsetof struct_gfs_dinode ''di_eattr''))] inode_zero"

section \<open>Directory entries and leaves\<close>

definition lgfs2_dirent_in :: "lgfs2_dirent \<Rightarrow> bytes \<Rightarrow> nat \<Rightarrow> lgfs2_dirent" where
  "lgfs2_dirent_in d buf off = assigns [
     dr_inum_update (\<lambda>_. lgfs2_inum_in buf (off + offsetof struct_gfs2_dirent ''de_inum'')),
     dr_hash_update (\<lambda>_. get_be32 buf (off + offsetof struct_gfs2_dirent ''de_hash'')),
     dr_rec_len_update (\<lambda>_. get_be16 buf (off + offsetof struct_gfs2_dirent ''de_rec_len'')),
     dr_name_len_update (\<lambda>_. get_be16 buf (off + offsetof struct_gfs2_dirent ''de_name_len'')),
     dr_type_update (\<lambda>_. get_be16 buf (off + offsetof struct_gfs2_dirent ''de_type'')),
     dr_rahead_update (\<lambda>_. get_be16 buf (off + offsetof struct_gfs2_dirent ''de_rahead''))] d"

definition lgfs2_dirent_out :: "lgfs2_dirent \<Rightarrow> bytes \<Rightarrow> nat \<Rightarrow> bytes" where
  "lgfs2_dirent_out d buf off = assigns [
     (\<lambda>m. lgfs2_inum_out (dr_inum d) m (off + offsetof struct_gfs2_dirent ''de_inum'')),
     put_be32 (off + offsetof struct_gfs2_dirent ''de_hash'') (dr_hash d),
     put_be16 (off + offsetof struct_gfs2_dirent ''de_rec_len'') (dr_rec_len d),
     put_be16 (off + offsetof struct_gfs2_dirent ''de_name_len'') (dr_name_len d),
     put_be16 (off + offsetof struct_gfs2_dirent ''de_type'') (dr_type d),
     put_be16 (off + offsetof struct_gfs2_dirent ''de_rahead'') (dr_rahead d)] buf"

definition lgfs2_leaf_in :: "lgfs2_leaf \<Rightarrow> bytes \<Rightarrow> lgfs2_leaf" where
  "lgfs2_leaf_in lf buf = assigns [
     lf_depth_update (\<lambda>_. get_be16 buf (offsetof struct_gfs2_leaf ''lf_depth'')),
     lf_entries_update (\<lambda>_. get_be16 buf (offsetof struct_gfs2_leaf ''lf_entries'')),
     lf_dirent_format_update (\<lambda>_. get_be32 buf (offsetof struct_gfs2_leaf ''lf_dirent_format'')),
     lf_next_update (\<lambda>_. get_be64 buf (offsetof struct_gfs2_leaf ''lf_next'')),
     lf_inode_update (\<lambda>_. get_be64 buf (offsetof struct_gfs2_leaf ''lf_inode'')),
     lf_dist_update (\<lambda>_. get_be32 buf (offsetof struct_gfs2_leaf ''lf_dist'')),
     lf_nsec_update (\<lambda>_. get_be32 buf (offsetof struct_gfs2_leaf ''lf_nsec'')),
     lf_sec_update (\<lambda>_. get_be64 buf (offsetof struct_gfs2_leaf ''lf_sec''))] lf"

definition lgfs2_leaf_out :: "lgfs2_leaf \<Rightarrow> bytes \<Rightarrow> bytes" where
  "lgfs2_leaf_out lf buf = assigns [
     put_be16 (offsetof struct_gfs2_leaf ''lf_depth'') (lf_depth lf),
     put_be16 (offsetof struct_gfs2_leaf ''lf_entries'') (lf_entries lf),
     put_be32 (offsetof struct_gfs2_leaf ''lf_dirent_format'') (lf_dirent_format lf),
     put_be64 (offsetof struct_gfs2_leaf ''lf_next'') (lf_next lf),
     put_be64 (offsetof struct_gfs2_leaf ''lf_inode'') (lf_inode lf),
     put_be32 (offsetof struct_gfs2_leaf ''lf_dist'') (lf_dist lf),
     put_be32 (offsetof struct_gfs2_leaf ''lf_nsec'') (lf_nsec lf),
     put_be64 (offsetof struct_gfs2_leaf ''lf_sec'') (lf_sec lf)] buf"


section \<open>Reading back what was written\<close>

lemmas ondisk_in_defs = lgfs2_inum_in_def lgfs2_sb_in_def lgfs2_rindex_in_def lgfs2_rgrp_in_def
  lgfs2_gfs_rgrp_in_def lgfs2_dinode_in_def gfs_inode_get_def lgfs2_dirent_in_def lgfs2_leaf_in_def

lemmas ondisk_out_defs = lgfs2_inum_out_def lgfs2_sb_out_def lgfs2_rindex_out_def
  lgfs2_rgrp_out_def lgfs2_gfs_rgrp_out_def lgfs2_dinode_out_def lgfs2_dirent_out_def
  lgfs2_leaf_out_def lgfs2_rgrp_crc_set_def

lemma length_outs [simp]:
  "length (lgfs2_inum_out i buf off) = length buf"
  "length (lgfs2_sb_out sdp buf) = length buf"
  "length (lgfs2_rindex_out rg buf off) = length buf"
  "length (lgfs2_rgrp_crc_set buf) = length buf"
  "length (lgfs2_rgrp_out rg buf) = length buf"
  "length (lgfs2_gfs_rgrp_out rg buf) = length buf"
  "length (lgfs2_dinode_out ip buf) = length buf"
  "length (lgfs2_dirent_out d buf off) = length buf"
  "length (lgfs2_leaf_out lf buf) = length buf"
  by (simp_all add: ondisk_out_defs Let_def)

lemma inum_in_out:
  "off + sizeof struct_gfs2_inum \<le> length buf \<Longrightarrow> lgfs2_inum_in (lgfs2_inum_out i buf off) off = i"
  by (simp add: ondisk_in_defs ondisk_out_defs size_simps codec_simps)

lemma inum_out_in:
  "off + sizeof struct_gfs2_inum \<le> length buf \<Longrightarrow> lgfs2_inum_out (lgfs2_inum_in buf off) buf off = buf"
  by (simp add: ondisk_in_defs ondisk_out_defs size_simps codec_put_get)

lemma rindex_in_out:
  "off + sizeof struct_gfs2_rindex \<le> length buf \<Longrightarrow>
   lgfs2_rindex_in rg0 (lgfs2_rindex_out rg buf off) off =
     rg0\<lparr>rt_addr := rt_addr rg, rt_length := rt_length rg, rt_data0 := rt_data0 rg,
         rt_data := rt_data rg, rt_bitbytes := rt_bitbytes rg\<rparr>"
  by (simp add: ondisk_in_defs ondisk_out_defs size_simps codec_simps)

lemma rindex_out_in:
  "off + sizeof struct_gfs2_rindex \<le> length buf \<Longrightarrow>
   lgfs2_rindex_out (lgfs2_rindex_in rg buf off) buf off = buf"
  by (simp add: ondisk_in_defs ondisk_out_defs size_simps codec_put_get)

lemma dirent_in_out:
  "off + sizeof struct_gfs2_dirent \<le> length buf \<Longrightarrow>
   lgfs2_dirent_in d0 (lgfs2_dirent_out d buf off) off = d"
  by (simp add: ondisk_in_defs ondisk_out_defs size_simps codec_simps)

lemma dirent_out_in:
  "off + sizeof struct_gfs2_dirent \<le> length buf \<Longrightarrow>
   lgfs2_dirent_out (lgfs2_dirent_in d buf off) buf off = buf"
  by (simp add: ondisk_in_defs ondisk_out_defs size_simps codec_put_get)

lemma leaf_in_out:
  "sizeof struct_gfs2_leaf \<le> length buf \<Longrightarrow> lgfs2_leaf_in lf0 (lgfs2_leaf_out lf buf) = lf"
  by (simp add: ondisk_in_defs ondisk_out_defs size_simps codec_simps)

lemma leaf_out_in:
  "sizeof struct_gfs2_leaf \<le> length buf \<Longrightarrow> lgfs2_leaf_out (lgfs2_leaf_in lf buf) buf = buf"
  by (simp add: ondisk_in_defs ondisk_out_defs size_simps codec_put_get)

lemma dinode_in_out:
  "sizeof struct_gfs2_dinode \<le> length buf \<Longrightarrow>
   lgfs2_dinode_in ip0 (lgfs2_dinode_out ip buf) =
     ip\<lparr>i_u4 := set_hi32 (hi32 (i_u4 ip0)) (i_u4 ip), i_u5 := i_u5 ip0\<rparr>"
  by (rule gfs2_inode.equality)
    (simp_all add: ondisk_in_defs ondisk_out_defs size_simps codec_simps i_union_defs
      set_lo32_as_hi32)

lemma dinode_out_in:
  "sizeof struct_gfs2_dinode \<le> length buf \<Longrightarrow> lgfs2_dinode_out (lgfs2_dinode_in ip buf) buf = buf"
  by (simp add: ondisk_in_defs ondisk_out_defs size_simps codec_put_get i_union_defs)

lemma gfs_rgrp_in_out:
  "sizeof struct_gfs_rgrp \<le> length buf \<Longrightarrow>
   lgfs2_gfs_rgrp_in rg0 (lgfs2_gfs_rgrp_out rg buf) =
     rg0\<lparr>rt_flags := rt_flags rg, rt_free := rt_free rg, rt_u0 := rt_u0 rg, rt_u1 := rt_u1 rg,
         rt_u2 := rt_u2 rg, rt_u3 := rt_u3 rg\<rparr>"
  by (simp add: ondisk_in_defs ondisk_out_defs size_simps codec_simps rt_union_defs)

lemma sb_in_out:
  "sizeof struct_gfs2_sb \<le> length buf \<Longrightarrow> length (sd_lockproto sdp) = 64 \<Longrightarrow>
   length (sd_locktable sdp) = 64 \<Longrightarrow> length (sd_uuid sdp) = 16 \<Longrightarrow>
   lgfs2_sb_in sdp (lgfs2_sb_out sdp buf) = sdp"
  by (simp add: ondisk_in_defs ondisk_out_defs size_simps codec_simps)

lemma rgrp_in_out:
  "sizeof struct_gfs2_rgrp \<le> length buf \<Longrightarrow>
   lgfs2_rgrp_in rg0 (lgfs2_rgrp_out rg buf) =
     rg0\<lparr>rt_flags := rt_flags rg, rt_free := rt_free rg, rt_u0 := rt_u0 rg, rt_u1 := rt_u1 rg,
         rt_rg_data0 := rt_rg_data0 rg, rt_rg_data := rt_rg_data rg,
         rt_rg_bitbytes := rt_rg_bitbytes rg\<rparr>"
  by (simp add: ondisk_in_defs ondisk_out_defs size_simps codec_simps rt_union_defs Let_def)

lemma crc_check_set:
  assumes "sizeof struct_gfs2_rgrp \<le> length buf"
  shows "lgfs2_rgrp_crc_check (lgfs2_rgrp_crc_set buf) = 0"
  using assms
  by (simp add: lgfs2_rgrp_crc_check_def lgfs2_rgrp_crc_set_def Let_def size_simps
      be32.get_put be32.put_put)

section \<open>What a write touches\<close>

text \<open>The bytes of a dinode block that no assignment of \<open>lgfs2_dinode_out\<close> writes: padding, the
  reserved area and everything after the structure.\<close>

definition dinode_reserved :: "nat \<Rightarrow> bool" where
  "dinode_reserved i \<longleftrightarrow> 8 \<le> i \<and> i < 16 \<or> 20 \<le> i \<and> i < 24 \<or> 136 \<le> i \<and> i < 138 \<or>
     140 \<le> i \<and> i < 146 \<or> 152 \<le> i \<and> i < 168 \<or> 188 \<le> i"

lemma dinode_out_frame:
  "i < length buf \<Longrightarrow> dinode_reserved i \<Longrightarrow> lgfs2_dinode_out ip buf ! i = buf ! i"
  unfolding dinode_reserved_def ondisk_out_defs
  by (elim disjE conjE) (simp_all add: size_simps codec_put_defs nth_memcpy_other)

section \<open>Checksums of resource group headers\<close>

lemma slice_update: "i < n \<Longrightarrow> slice 0 n (buf[i := x]) = (slice 0 n buf)[i := x]"
  by (simp add: slice_def take_update_swap)

lemma hash_update_neq:
  assumes "i < length d" and "x \<noteq> d ! i"
  shows "gfs2_disk_hash (d[i := x]) \<noteq> gfs2_disk_hash d"
proof -
  have "gfs2_disk_hash (take i d @ x # drop (Suc i) d) \<noteq> gfs2_disk_hash (take i d @ d ! i # drop (Suc i) d)"
    using crc_ref_one_byte [OF poly_tops(1) assms(2)] by (simp add: gfs2_disk_hash_ref)
  with assms(1) show ?thesis by (simp add: upd_conv_take_nth_drop id_take_nth_drop [symmetric])
qed

lemma get_be32_update:
  "i < off \<or> off + 4 \<le> i \<Longrightarrow> get_be32 (buf[i := x]) off = get_be32 buf off"
  unfolding get_be32_def
  by (rule arg_cong [where f = "\<lambda>bs. of_nat (be_val bs)"], rule slice_nth_eqI)
    (auto simp: nth_list_update)

lemma crc_set_get:
  assumes "sizeof struct_gfs2_rgrp \<le> length buf"
  shows "get_be32 (lgfs2_rgrp_crc_set buf) 64
      = gfs2_disk_hash (slice 0 128 (put_be32 64 0 (lgfs2_rgrp_crc_set buf)))"
  using assms
  by (simp add: lgfs2_rgrp_crc_set_def Let_def size_simps be32.get_put be32.put_put)

lemma crc_check_update:
  assumes "sizeof struct_gfs2_rgrp \<le> length buf"
    and "get_be32 (lgfs2_rgrp_crc_set buf) 64 \<noteq> 0"
    and i: "i < 64 \<or> 68 \<le> i" "i < 128"
    and x: "x \<noteq> lgfs2_rgrp_crc_set buf ! i"
  shows "lgfs2_rgrp_crc_check ((lgfs2_rgrp_crc_set buf)[i := x]) = 1"
proof -
  let ?b = "lgfs2_rgrp_crc_set buf"
  have i': "i < 64 \<or> 64 + 4 \<le> i" using i(1) by simp
  have "slice 0 128 (put_be32 64 0 (?b[i := x])) = (slice 0 128 (put_be32 64 0 ?b))[i := x]"
    using i i' by (simp add: put_be32_def memcpy_update slice_update)
  moreover have "gfs2_disk_hash ((slice 0 128 (put_be32 64 0 ?b))[i := x])
      \<noteq> gfs2_disk_hash (slice 0 128 (put_be32 64 0 ?b))"
  proof (rule hash_update_neq)
    show "i < length (slice 0 128 (put_be32 64 0 ?b))"
      using i assms(1) by (simp add: size_simps)
    show "x \<noteq> slice 0 128 (put_be32 64 0 ?b) ! i"
      using i x assms(1) by (auto simp: nth_slice size_simps put_be32_def nth_memcpy_at)
  qed
  ultimately show ?thesis
    using assms(2) crc_set_get [OF assms(1)] i'
    by (simp add: lgfs2_rgrp_crc_check_def Let_def size_simps get_be32_update)
qed

section \<open>Properties\<close>

text \<open>C19. Inode translation is lossless: \<open>lgfs2_dinode_out\<close> of what \<open>lgfs2_dinode_in\<close> read leaves the
  block byte for byte as it was, and reading back a written inode gives the inode, whatever was in
  the block or in the record read into (only the words of the union that gfs2 does not store keep
  their old value). A write changes no byte of the padding, of the reserved area or after the
  structure, where indirect pointers, stuffed data or directory entries are.\<close>

theorem dinode_roundtrip:
  assumes "sizeof struct_gfs2_dinode \<le> length buf"
  shows "lgfs2_dinode_out (lgfs2_dinode_in ip buf) buf = buf
    \<and> lgfs2_dinode_in ip0 (lgfs2_dinode_out ip buf) =
        ip\<lparr>i_u4 := set_hi32 (hi32 (i_u4 ip0)) (i_u4 ip), i_u5 := i_u5 ip0\<rparr>
    \<and> (\<forall>i < length buf. dinode_reserved i \<longrightarrow> lgfs2_dinode_out ip buf ! i = buf ! i)"
  using assms by (simp add: dinode_out_in dinode_in_out dinode_out_frame)

theorem dinode_roundtrip_witness:
  "lgfs2_dinode_in inode_zero (lgfs2_dinode_out (inode_zero\<lparr>i_size := 77\<rparr>) (replicate 512 9))
     = inode_zero\<lparr>i_size := 77\<rparr>"
  using dinode_roundtrip [of "replicate 512 9" "inode_zero\<lparr>i_size := 77\<rparr>" inode_zero]
  by (simp add: size_simps inode_zero_def)

text \<open>The translations of directory entries, leaf headers and resource index entries are inverse
  to each other in both directions, at any offset of a block where the structure fits.\<close>

theorem dirent_leaf_rindex_roundtrip:
  assumes "off + sizeof struct_gfs2_dirent \<le> length blk"
    and "sizeof struct_gfs2_leaf \<le> length blk"
    and "pos + sizeof struct_gfs2_rindex \<le> length blk"
  shows "lgfs2_dirent_in d0 (lgfs2_dirent_out d blk off) off = d
    \<and> lgfs2_dirent_out (lgfs2_dirent_in d0 blk off) blk off = blk
    \<and> lgfs2_leaf_in l0 (lgfs2_leaf_out l blk) = l
    \<and> lgfs2_leaf_out (lgfs2_leaf_in l0 blk) blk = blk
    \<and> lgfs2_rindex_in rg (lgfs2_rindex_out rg blk pos) pos = rg
    \<and> lgfs2_rindex_out (lgfs2_rindex_in rg blk pos) blk pos = blk"
  using assms
  by (simp add: dirent_in_out dirent_out_in leaf_in_out leaf_out_in rindex_in_out rindex_out_in)

definition dirent_example :: lgfs2_dirent where
  "dirent_example = \<lparr>dr_inum = \<lparr>in_formal_ino = 5, in_addr = 600\<rparr>, dr_hash = 0xDEADBEEF,
     dr_rec_len = 48, dr_name_len = 3, dr_type = 4, dr_rahead = 0\<rparr>"

theorem dirent_leaf_rindex_roundtrip_witness:
  "lgfs2_dirent_in dirent_example (lgfs2_dirent_out dirent_example (replicate 512 0) 104) 104
     = dirent_example"
  using dirent_leaf_rindex_roundtrip [of 104 "replicate 512 0" 96] by (simp add: size_simps)

text \<open>A resource group header written by \<open>lgfs2_rgrp_out\<close> reads back as the group it was written
  from and passes \<open>lgfs2_rgrp_crc_check\<close>; and when the stored checksum is not zero (zero means
  unchecked), overwriting any single byte of the header outside the checksum is reported.\<close>

theorem rgrp_out_checksum:
  assumes "sizeof struct_gfs2_rgrp \<le> length buf"
  shows "lgfs2_rgrp_in rg (lgfs2_rgrp_out rg buf) = rg
    \<and> lgfs2_rgrp_crc_check (lgfs2_rgrp_out rg buf) = 0
    \<and> (\<forall>i x. get_be32 (lgfs2_rgrp_out rg buf) (offsetof struct_gfs2_rgrp ''rg_crc'') \<noteq> 0
         \<longrightarrow> i < 128 \<longrightarrow> i < 64 \<or> 68 \<le> i \<longrightarrow> x \<noteq> lgfs2_rgrp_out rg buf ! i
         \<longrightarrow> lgfs2_rgrp_crc_check ((lgfs2_rgrp_out rg buf)[i := x]) = 1)"
proof (intro conjI allI impI)
  show "lgfs2_rgrp_in rg (lgfs2_rgrp_out rg buf) = rg"
    using assms by (simp add: rgrp_in_out)
  show "lgfs2_rgrp_crc_check (lgfs2_rgrp_out rg buf) = 0"
    using assms unfolding lgfs2_rgrp_out_def by (intro crc_check_set) simp
next
  fix i x
  assume "get_be32 (lgfs2_rgrp_out rg buf) (offsetof struct_gfs2_rgrp ''rg_crc'') \<noteq> 0" "i < 128"
    "i < 64 \<or> 68 \<le> i" "x \<noteq> lgfs2_rgrp_out rg buf ! i"
  then show "lgfs2_rgrp_crc_check ((lgfs2_rgrp_out rg buf)[i := x]) = 1"
    using assms unfolding lgfs2_rgrp_out_def
    by (intro crc_check_update) (simp_all add: size_simps)
qed

definition rgrp_zero :: rgrp_tree where
  "rgrp_zero = \<lparr>bits = [], rt_addr = 0, rt_data0 = 0, rt_data = 0, rt_length = 0, rt_bitbytes = 0,
     rt_rg_data0 = 0, rt_rg_data = 0, rt_rg_bitbytes = 0, rt_flags = 0, rt_free = 0, rt_u0 = 0,
     rt_u1 = 0, rt_u2 = 0, rt_u3 = 0\<rparr>"

theorem rgrp_out_checksum_witness:
  "lgfs2_rgrp_crc_check (lgfs2_rgrp_out (rgrp_zero\<lparr>rt_free := 40\<rparr>) (replicate 512 0)) = 0"
  using rgrp_out_checksum [of "replicate 512 0" "rgrp_zero\<lparr>rt_free := 40\<rparr>"]
  by (simp add: size_simps)

text \<open>A gfs1 inode that is read and written back by the library (\<open>gfs1_writei\<close> ends so) does not
  keep its block: the allocation goals are read into the gfs2 members of the union, so the
  on-disk \<open>di_rgrp\<close> becomes the metadata goal and \<open>di_goal_rgrp\<close> the data goal.\<close>

theorem gfs1_inode_rewrite_moves_goals:
  assumes "sizeof struct_gfs_dinode \<le> length buf"
  shows "get_be64 (lgfs2_dinode_out (gfs_inode_get buf) buf) (offsetof struct_gfs_dinode ''di_rgrp'')
      = ucast (get_be32 buf (offsetof struct_gfs_dinode ''di_goal_mblk''))
    \<and> get_be64 (lgfs2_dinode_out (gfs_inode_get buf) buf) (offsetof struct_gfs_dinode ''di_goal_rgrp'')
      = ucast (get_be32 buf (offsetof struct_gfs_dinode ''di_goal_dblk''))"
  using assms
  by (simp add: ondisk_in_defs ondisk_out_defs size_simps codec_simps i_union_defs inode_zero_def)

theorem gfs1_inode_rewrite_moves_goals_witness:
  "get_be64 (lgfs2_dinode_out (gfs_inode_get (put_be64 104 500 (put_be32 124 7 (replicate 512 0))))
       (put_be64 104 500 (put_be32 124 7 (replicate 512 0)))) 104 = 7"
  using gfs1_inode_rewrite_moves_goals [of "put_be64 104 500 (put_be32 124 7 (replicate 512 0))"]
  by (simp add: size_simps put_be64_def be32.get_memcpy_other be32.get_put)

end
