(* ===== verification/Bits.thy ===== *)
theory Bits
  imports Types
begin

text \<open>
  The block bitmaps of fs_bits.c: two bits per block, four blocks per byte. The search
  \<open>gfs2_bitfit\<close> looks at 32 blocks at a time; it is shown to return the first block at or after the
  goal that is in the wanted state. \<open>gfs2_set_bitmap\<close> and \<open>lgfs2_get_bitmap\<close> find a block's two
  bits in the bitmaps of its resource group; their laws are in theory \<open>Rgrp\<close>, which has the
  geometry they rely on.
\<close>

section \<open>Block states in a bitmap\<close>

definition blk_state :: "bytes \<Rightarrow> nat \<Rightarrow> nat" where
  "blk_state buf i = unat (drop_bit (2 * (i mod 4)) (buf ! (i div 4)) AND 3)"

section \<open>gfs2_bitfit\<close>

abbreviation (input) BFITNOENT :: nat where "BFITNOENT \<equiv> 0xFFFFFFFF"

definition load_le64 :: "bytes \<Rightarrow> nat \<Rightarrow> u64" where
  "load_le64 buf ptr = of_nat (le_val (slice (8 * ptr) 8 buf))"

definition search :: "u64 list" where
  "search = [0xffffffffffffffff, 0xaaaaaaaaaaaaaaaa, 0x5555555555555555, 0x0000000000000000]"

definition gfs2_bit_search :: "u64 \<Rightarrow> u64 \<Rightarrow> nat \<Rightarrow> u64" where
  "gfs2_bit_search w m state =
     (let tmp = w XOR search ! state;
          tmp = tmp AND drop_bit 1 tmp
      in tmp AND m)"

definition ffsll :: "u64 \<Rightarrow> nat" where
  "ffsll w = (case find (bit w) [0..<64] of None \<Rightarrow> 0 | Some k \<Rightarrow> k + 1)"

function bitfit_loop :: "bytes \<Rightarrow> nat \<Rightarrow> nat \<Rightarrow> nat \<Rightarrow> u64 \<Rightarrow> u64 \<times> nat" where
  "bitfit_loop buf state stop ptr tmp =
     (if tmp = 0 \<and> ptr < stop
      then bitfit_loop buf state stop (ptr + 1)
             (gfs2_bit_search (load_le64 buf ptr) 0x5555555555555555 state)
      else (tmp, ptr))"
  by pat_completeness auto
termination by (relation "measure (\<lambda>(buf, state, stop, ptr, tmp). stop - ptr)") auto

declare bitfit_loop.simps [simp del]

lemma bitfit_loop_stop:
  "tmp \<noteq> 0 \<or> stop \<le> ptr \<Longrightarrow> bitfit_loop buf state stop ptr tmp = (tmp, ptr)"
  by (subst bitfit_loop.simps) auto

lemma bitfit_loop_step:
  "ptr < stop \<Longrightarrow> bitfit_loop buf state stop ptr 0 = bitfit_loop buf state stop (Suc ptr)
     (gfs2_bit_search (load_le64 buf ptr) 0x5555555555555555 state)"
  by (subst bitfit_loop.simps) simp

definition gfs2_bitfit :: "bytes \<Rightarrow> nat \<Rightarrow> nat \<Rightarrow> nat \<Rightarrow> nat" where
  "gfs2_bitfit buf len goal state =
     (if 3 < state then 0
      else
        let spoint = (2 * goal) mod 64;
            ptr = goal div 32;
            stop = (len + 7) div 8;
            m = push_bit spoint 0x5555555555555555;
            tmp = gfs2_bit_search (load_le64 buf ptr) m state;
            (tmp, ptr) = bitfit_loop buf state stop (ptr + 1) tmp;
            tmp = (if ptr = stop \<and> len mod 8 \<noteq> 0
                   then tmp AND drop_bit (64 - 8 * (len mod 8)) (NOT 0) else tmp)
        in if tmp = 0 then BFITNOENT
           else (ptr - 1) * 8 * 4 + ffsll tmp div 2)"

section \<open>gfs2_check_range, gfs2_set_bitmap, lgfs2_get_bitmap\<close>

definition gfs2_check_range :: "gfs2_sbd \<Rightarrow> u64 \<Rightarrow> int" where
  "gfs2_check_range sdp blkno =
     (if fssize sdp < blkno \<or> blkno \<le> LGFS2_SB_ADDR sdp then -1 else 0)"

text \<open>The bytes a data pointer reads.\<close>

definition buf_of :: "bufptr \<Rightarrow> bytes" where
  "buf_of p = (case p of Live d \<Rightarrow> d | _ \<Rightarrow> [])"

text \<open>
  The loop of \<open>gfs2_set_bitmap\<close> leaves \<open>bits\<close> at the first bitmap that ends after the block, or at
  the last one; it stays NULL when there is no bitmap.
\<close>

definition set_bitmap_index :: "rgrp_tree \<Rightarrow> u32 \<Rightarrow> nat option" where
  "set_bitmap_index rgd rgrp_block =
     (case find (\<lambda>buf. rgrp_block < (bi_start (bits rgd ! buf) + bi_len (bits rgd ! buf)) * GFS2_NBBY)
             [0..<unat (rt_length rgd)] of
        Some buf \<Rightarrow> Some buf
      | None \<Rightarrow> if rt_length rgd = 0 then None else Some (unat (rt_length rgd) - 1))"

definition gfs2_set_bitmap :: "rgrp_tree option \<Rightarrow> u64 \<Rightarrow> int \<Rightarrow> int \<times> rgrp_tree option" where
  "gfs2_set_bitmap rg blkno state =
     (if state < int GFS2_BLKST_FREE \<or> int GFS2_BLKST_DINODE < state then (-1, rg)
      else case rg of None \<Rightarrow> (-1, rg)
      | Some rgd \<Rightarrow>
          if blkno < rt_data0 rgd then (-1, rg)
          else
            let rgrp_block = ucast (blkno - rt_data0 rgd) :: u32
            in case set_bitmap_index rgd rgrp_block of
                 None \<Rightarrow> (-1, rg)
               | Some b \<Rightarrow>
                   let bi = bits rgd ! b;
                       pos = unat (bi_offset bi) + unat (rgrp_block div GFS2_NBBY - bi_start bi);
                       sh = unat (rgrp_block mod GFS2_NBBY) * 2;
                       d = buf_of (bi_data bi);
                       byte = d ! pos;
                       cur_state = drop_bit sh byte AND 3;
                       byte = byte XOR push_bit sh cur_state;
                       byte = byte OR push_bit sh (of_int state)
                   in (0, Some (rgd\<lparr>bits := (bits rgd)[b := bi\<lparr>bi_data := Live (d[pos := byte]),
                                                         bi_modified := True\<rparr>]\<rparr>)))"

definition get_bitmap :: "gfs2_sbd \<Rightarrow> u64 \<Rightarrow> rgrp_tree \<Rightarrow> int" where
  "get_bitmap sdp blkno rgd =
     (let off = blkno - rt_data0 rgd in
      if 0xFFFFFFFF < off then -1
      else if rt_data0 rgd + ucast (rt_data rgd) \<le> off then -1
      else
        let b0 = bits rgd ! 0;
            (i, off) =
              (if ucast ((bi_start b0 + bi_len b0) * GFS2_NBBY) \<le> off
               then let off = off + of_nat ((sizeof struct_gfs2_rgrp - sizeof struct_gfs2_meta_header) * 4);
                        i = ucast (off div ucast (sd_blocks_per_bitmap sdp)) :: u32
                    in (i, off - ucast (i * sd_blocks_per_bitmap sdp))
               else (0, off));
            bi = bits rgd ! unat i
        in if bi_data bi = Null then int GFS2_BLKST_FREE
           else let byte = buf_of (bi_data bi) ! (unat (bi_offset bi) + unat (off div 4));
                    sh = unat (off mod 4) * 2
                in int (unat (drop_bit sh byte AND 3)))"

section \<open>bitfit finds the first block\<close>

lemma bit_le_val:
  "bit (le_val bs) k \<longleftrightarrow> k < 8 * length bs \<and> bit (bs ! (k div 8)) (k mod 8)"
proof (induction bs arbitrary: k)
  case Nil
  then show ?case by simp
next
  case (Cons b bs)
  have "le_val (b # bs) = unat b + push_bit 8 (le_val bs)"
    by (simp add: push_bit_eq_mult)
  also have "\<dots> = unat b OR push_bit 8 (le_val bs)"
    by (rule disjunctive_add_eq_or, rule bit_eqI)
      (auto simp: bit_simps dest: bit_imp_le_length)
  finally have "bit (le_val (b # bs)) k \<longleftrightarrow> bit b k \<or> 8 \<le> k \<and> bit (le_val bs) (k - 8)"
    by (simp only:) (auto simp: bit_simps)
  moreover have "\<not> bit b k" if "8 \<le> k" using that bit_imp_le_length [of b k] by auto
  ultimately show ?case
    by (cases "k < 8") (auto simp: Cons.IH le_div_geq le_mod_geq nth_Cons')
qed

lemma bit_load_le64:
  assumes "k < 64" and "8 * ptr + k div 8 < length buf"
  shows "bit (load_le64 buf ptr) k = bit (buf ! (8 * ptr + k div 8)) (k mod 8)"
  using assms
  by (auto simp: load_le64_def bit_simps bit_of_nat_iff bit_le_val slice_def)

lemma bit_55w: "k < 64 \<Longrightarrow> bit (0x5555555555555555 :: u64) k = even k"
proof -
  assume "k < 64"
  moreover have "list_all (\<lambda>k. bit (0x5555555555555555 :: u64) k = even k) [0..<64]"
    by code_simp
  ultimately show ?thesis by (simp add: list_all_iff)
qed

lemma bit_aaw: "k < 64 \<Longrightarrow> bit (0xaaaaaaaaaaaaaaaa :: u64) k = odd k"
proof -
  assume "k < 64"
  moreover have "list_all (\<lambda>k. bit (0xaaaaaaaaaaaaaaaa :: u64) k = odd k) [0..<64]"
    by code_simp
  ultimately show ?thesis by (simp add: list_all_iff)
qed

text \<open>The simplifier reads a bit of a numeral word off the integer numeral.\<close>

lemma bit_55: "k < 64 \<Longrightarrow> bit (0x5555555555555555 :: int) k = even k"
  using bit_55w [of k] by simp

lemma bit_aa: "k < 64 \<Longrightarrow> bit (0xaaaaaaaaaaaaaaaa :: int) k = odd k"
  using bit_aaw [of k] by simp

lemma all_ones: "(0xffffffffffffffff :: u64) = NOT 0" by simp

lemma bit_search_word:
  assumes k: "k < 64"
  shows "bit (search ! 0) k" "bit (search ! 1) k = odd k" "bit (search ! 2) k = even k"
    "\<not> bit (search ! 3) k"
  using k by (simp_all add: search_def bit_55 bit_aa all_ones bit_simps)

lemma nat_3_bits:
  "n AND 3 = s \<longleftrightarrow> s < 4 \<and> bit n 0 = odd s \<and> bit n 1 = (2 \<le> s)" for n s :: nat
proof -
  have m: "n AND 3 = n mod 4"
    using take_bit_eq_mask [of 2 n] by (simp add: take_bit_eq_mod mask_eq_exp_minus_1)
  show ?thesis unfolding m bit_nat_def by simp presburger
qed

lemma state_bits:
  fixes b :: u8
  assumes "j < 4"
  shows "unat (drop_bit (2 * j) b AND 3) = s
    \<longleftrightarrow> s < 4 \<and> bit b (2 * j) = odd s \<and> bit b (2 * j + 1) = (2 \<le> s)"
proof -
  have "unat (drop_bit (2 * j) b AND 3) = unat (drop_bit (2 * j) b) AND 3"
    by (simp add: unsigned_and_eq)
  moreover have "bit (unat (drop_bit (2 * j) b)) i = bit b (2 * j + i)" for i
    by (simp add: bit_simps)
  ultimately show ?thesis by (simp add: nat_3_bits)
qed

lemma bit_search_hit:
  assumes j: "j < 32" and p: "32 * p + j < 4 * length buf" and s: "state < 4"
  shows "bit (gfs2_bit_search (load_le64 buf p) m state) (2 * j)
    \<longleftrightarrow> bit m (2 * j) \<and> blk_state buf (32 * p + j) = state"
proof -
  let ?b = "buf ! (8 * p + j div 4)"
  have pos: "8 * p + j div 4 < length buf" using p by simp
  have dm: "2 * j div 8 = j div 4" "2 * j mod 8 = 2 * (j mod 4)" "(2 * j + 1) div 8 = j div 4"
    "(2 * j + 1) mod 8 = 2 * (j mod 4) + 1"
    using mult_mod_right [of 2 j 4] div_mult2_eq [of "2 * j + 1" 2 4]
      mod_mult2_eq [of "2 * j + 1" 2 4] by simp_all
  have lo: "bit (load_le64 buf p) (2 * j) = bit ?b (2 * (j mod 4))"
    and hi: "bit (load_le64 buf p) (2 * j + 1) = bit ?b (2 * (j mod 4) + 1)"
    using j pos bit_load_le64 [of "2 * j" p buf] bit_load_le64 [of "2 * j + 1" p buf]
    by (simp_all only: dm)
  have pj: "(32 * p + j) mod 4 = j mod 4" "(32 * p + j) div 4 = 8 * p + j div 4"
    using mod_mult_self3 [of "8 * p" 4 j] div_mult_self3 [of 4 "8 * p" j] by simp_all
  have st: "blk_state buf (32 * p + j) = state
      \<longleftrightarrow> bit ?b (2 * (j mod 4)) = odd state \<and> bit ?b (2 * (j mod 4) + 1) = (2 \<le> state)"
    using s state_bits [of "j mod 4" ?b state]
    by (simp only: blk_state_def pj) simp
  have "state = 0 \<or> state = 1 \<or> state = 2 \<or> state = 3" using s by auto
  then show ?thesis
    using j lo hi st bit_search_word [of "2 * j"] bit_search_word [of "2 * j + 1"]
    by (elim disjE) (simp_all add: gfs2_bit_search_def Let_def bit_simps, auto)
qed


lemma bit_search_odd: "odd k \<Longrightarrow> k < 64 \<Longrightarrow> \<not> bit (gfs2_bit_search w (push_bit (2 * n) 0x5555555555555555) s) k"
  by (auto simp: gfs2_bit_search_def Let_def bit_simps bit_55)

lemma bit_mask_start:
  "k < 64 \<Longrightarrow> bit (push_bit (2 * n) (0x5555555555555555 :: u64)) k \<longleftrightarrow> 2 * n \<le> k \<and> even k"
  by (auto simp: bit_simps bit_55)

text \<open>The word the search reads at \<open>p\<close>: the first one is masked below the goal.\<close>

definition hits :: "bytes \<Rightarrow> nat \<Rightarrow> nat \<Rightarrow> nat \<Rightarrow> u64" where
  "hits buf state goal p = gfs2_bit_search (load_le64 buf p)
     (if p = goal div 32 then push_bit (2 * (goal mod 32)) 0x5555555555555555
      else 0x5555555555555555) state"

lemma hits_push: "\<exists>n. hits buf state goal p
    = gfs2_bit_search (load_le64 buf p) (push_bit (2 * n) 0x5555555555555555) state"
  by (cases "p = goal div 32") (auto simp: hits_def intro: exI [of _ 0])

lemma hits_odd: "odd k \<Longrightarrow> k < 64 \<Longrightarrow> \<not> bit (hits buf state goal p) k"
  using hits_push [of buf state goal p] bit_search_odd by fastforce

lemma hits_even:
  assumes "j < 32" "32 * p + j < 4 * length buf" "state < 4" "goal div 32 \<le> p"
  shows "bit (hits buf state goal p) (2 * j)
    \<longleftrightarrow> goal \<le> 32 * p + j \<and> blk_state buf (32 * p + j) = state"
proof (cases "p = goal div 32")
  case True
  then have "goal \<le> 32 * p + j \<longleftrightarrow> goal mod 32 \<le> j"
    using div_mult_mod_eq [of goal 32] by linarith
  with True show ?thesis
    using assms bit_search_hit [of j p buf state "push_bit (2 * (goal mod 32)) 0x5555555555555555"]
    by (simp add: hits_def bit_mask_start)
next
  case False
  with assms(4) have "goal div 32 + 1 \<le> p" by simp
  then have "goal \<le> 32 * p + j"
    using div_mult_mod_eq [of goal 32] mod_less_divisor [of 32 goal] by linarith
  with False show ?thesis
    using assms bit_search_hit [of j p buf state "0x5555555555555555"] by (simp add: hits_def bit_55)
qed

lemma bitfit_loop_spec:
  assumes "goal div 32 \<le> p" and "p < stop"
  shows "\<exists>r. bitfit_loop buf state stop (Suc p) (hits buf state goal p) = (hits buf state goal r, Suc r)
    \<and> p \<le> r \<and> r < stop \<and> (hits buf state goal r = 0 \<longrightarrow> Suc r = stop)
    \<and> (\<forall>k. p \<le> k \<longrightarrow> k < r \<longrightarrow> hits buf state goal k = 0)"
  using assms
proof (induction "stop - p" arbitrary: p)
  case 0
  then show ?case by simp
next
  case (Suc n)
  show ?case
  proof (cases "hits buf state goal p = 0 \<and> Suc p < stop")
    case True
    have "gfs2_bit_search (load_le64 buf (Suc p)) 0x5555555555555555 state = hits buf state goal (Suc p)"
      using Suc.prems(1) by (simp add: hits_def)
    then have step: "bitfit_loop buf state stop (Suc p) (hits buf state goal p)
        = bitfit_loop buf state stop (Suc (Suc p)) (hits buf state goal (Suc p))"
      using True by (simp only: bitfit_loop_step)
    have "n = stop - Suc p" "goal div 32 \<le> Suc p" "Suc p < stop"
      using Suc.hyps(2) Suc.prems True by simp_all
    from Suc.hyps(1) [OF this] obtain r where
      r: "bitfit_loop buf state stop (Suc (Suc p)) (hits buf state goal (Suc p)) = (hits buf state goal r, Suc r)"
        "Suc p \<le> r" "r < stop" "hits buf state goal r = 0 \<longrightarrow> Suc r = stop"
      and zero: "\<forall>k. Suc p \<le> k \<longrightarrow> k < r \<longrightarrow> hits buf state goal k = 0"
      by blast
    have "hits buf state goal k = 0" if "p \<le> k" "k < r" for k
    proof (cases "k = p")
      case False
      with that(1) have "Suc p \<le> k" by simp
      with that(2) zero show ?thesis by blast
    qed (use True in blast)
    moreover have "bitfit_loop buf state stop (Suc p) (hits buf state goal p) = (hits buf state goal r, Suc r)"
      using step r(1) by (rule trans)
    moreover have "p \<le> r" using r(2) by (rule Suc_leD)
    ultimately show ?thesis using r(3,4) by blast
  next
    case False
    then have "bitfit_loop buf state stop (Suc p) (hits buf state goal p) = (hits buf state goal p, Suc p)"
      by (intro bitfit_loop_stop) auto
    moreover have "hits buf state goal p = 0 \<longrightarrow> Suc p = stop"
      using False Suc.prems(2) by (cases "hits buf state goal p = 0") simp_all
    ultimately show ?thesis
      using Suc.prems(2) by (intro exI [of _ p] conjI) simp_all
  qed
qed

lemma find_upt_Some:
  "find P [a..<b] = Some i \<longleftrightarrow> a \<le> i \<and> i < b \<and> P i \<and> (\<forall>k. a \<le> k \<and> k < i \<longrightarrow> \<not> P k)"
proof
  assume "find P [a..<b] = Some i"
  then obtain n where "n < length [a..<b]" "P ([a..<b] ! n)" "i = [a..<b] ! n"
    and less: "\<forall>j < n. \<not> P ([a..<b] ! j)"
    by (auto simp: find_Some_iff)
  then have n: "i = a + n" "a + n < b" "P (a + n)" by auto
  have "\<not> P k" if "a \<le> k" "k < i" for k
    using less [rule_format, of "k - a"] that n by simp
  with n show "a \<le> i \<and> i < b \<and> P i \<and> (\<forall>k. a \<le> k \<and> k < i \<longrightarrow> \<not> P k)" by simp
next
  assume "a \<le> i \<and> i < b \<and> P i \<and> (\<forall>k. a \<le> k \<and> k < i \<longrightarrow> \<not> P k)"
  then show "find P [a..<b] = Some i"
    by (auto simp: find_Some_iff intro!: exI [of _ "i - a"])
qed

lemma find_upt_None: "find P [a..<b] = None \<longleftrightarrow> (\<forall>k. a \<le> k \<and> k < b \<longrightarrow> \<not> P k)"
  by (auto simp: find_None_iff)

lemma ffsll_even:
  assumes "w \<noteq> 0" and odds: "\<And>k. odd k \<Longrightarrow> k < 64 \<Longrightarrow> \<not> bit w k"
  obtains j where "j < 32" "ffsll w div 2 = j" "bit w (2 * j)" "\<And>i. i < j \<Longrightarrow> \<not> bit w (2 * i)"
proof -
  obtain n where "bit w n" using assms(1) bit_eqI [of w 0] by fastforce
  then have "n < 64" using bit_imp_le_length by fastforce
  then obtain k where k: "find (bit w) [0..<64] = Some k"
    using \<open>bit w n\<close> find_upt_None [of "bit w" 0 64] by fastforce
  then have bk: "k < 64" "bit w k" "\<And>i. i < k \<Longrightarrow> \<not> bit w i"
    unfolding find_upt_Some by auto
  then have "even k" using odds by blast
  then obtain j where j: "k = 2 * j" by (elim evenE)
  show thesis
    using j k bk by (intro that [of j]) (auto simp: ffsll_def)
qed

lemma stop_eq: "(n + 7) div 8 = (if n mod 8 = 0 then n div 8 else n div 8 + 1)" for n :: nat
proof -
  have "(n + 7) div 8 = (8 * (n div 8) + (n mod 8 + 7)) div 8" by simp
  also have "\<dots> = n div 8 + (n mod 8 + 7) div 8" by (simp only: div_mult_self4)
  also have "(n mod 8 + 7) div 8 = (if n mod 8 = 0 then 0 else 1)"
  proof -
    have "n mod 8 < 8" by simp
    then show ?thesis by (cases "n mod 8 = 0") (simp_all add: div_nat_eqI)
  qed
  finally show ?thesis by simp
qed

lemma word_tail:
  fixes a m n stop r j :: nat
  assumes "n = 8 * a + m" "m < 8" "stop = (if m = 0 then a else a + 1)" "Suc r \<le> stop" "j < 32"
  shows "32 * r + j < 4 * n \<longleftrightarrow> (Suc r = stop \<and> m \<noteq> 0 \<longrightarrow> 2 * j < 8 * m)"
proof (cases "r < a")
  case True
  then have "32 * r + j < 4 * n" using assms(1,5) by linarith
  with True assms show ?thesis by (cases "m = 0") simp_all
next
  case False
  with assms(3,4) have "r = a" "m \<noteq> 0" by (cases "m = 0"; simp)+
  with assms show ?thesis by simp
qed

lemma gfs2_bitfit_find:
  assumes s: "state < 4" and goal: "goal < 4 * n" and n: "n \<le> length buf"
  shows "gfs2_bitfit buf n goal state
    = (case find (\<lambda>i. blk_state buf i = state) [goal..<4 * n] of None \<Rightarrow> BFITNOENT | Some i \<Rightarrow> i)"
proof -
  define stop where "stop = (n + 7) div 8"
  have start: "goal div 32 < stop" 
    using goal div_mult_mod_eq [of goal 32] div_mult_mod_eq [of "n + 7" 8]
      mod_less_divisor [of 8 "n + 7"]
    unfolding stop_def by linarith
  obtain r where run: "bitfit_loop buf state stop (Suc (goal div 32)) (hits buf state goal (goal div 32))
      = (hits buf state goal r, Suc r)"
    and loop: "goal div 32 \<le> r" "r < stop" "hits buf state goal r = 0 \<longrightarrow> Suc r = stop"
      "\<forall>k. goal div 32 \<le> k \<longrightarrow> k < r \<longrightarrow> hits buf state goal k = 0"
    using bitfit_loop_spec [OF order.refl start] by blast
  define t where "t = hits buf state goal r"
  define w where "w = (if Suc r = stop \<and> n mod 8 \<noteq> 0
      then t AND drop_bit (64 - 8 * (n mod 8)) (NOT 0) else t)"
  have spoint: "2 * goal mod 64 = 2 * (goal mod 32)" using mult_mod_right [of 2 goal 32] by simp
  have first: "gfs2_bit_search (load_le64 buf (goal div 32))
      (push_bit (2 * (goal mod 32)) 0x5555555555555555) state = hits buf state goal (goal div 32)"
    by (simp add: hits_def)
  have fit: "gfs2_bitfit buf n goal state
      = (if w = 0 then BFITNOENT else r * 8 * 4 + ffsll w div 2)"
    unfolding w_def
    using s by (simp only: gfs2_bitfit_def Let_def spoint first flip: stop_def Suc_eq_plus1)
      (simp add: run flip: t_def)
  have inside: "32 * r + j < 4 * n \<longleftrightarrow> (Suc r = stop \<and> n mod 8 \<noteq> 0 \<longrightarrow> 2 * j < 8 * (n mod 8))"
    if "j < 32" for j
  proof -
    have "n = 8 * (n div 8) + n mod 8" "n mod 8 < 8" by simp_all
    from word_tail [OF this, of stop r j] show ?thesis
      using loop(2) that by (simp only: stop_def stop_eq Suc_le_eq)
  qed
  have tail: "bit (drop_bit (64 - 8 * (n mod 8)) (NOT 0 :: u64)) k \<longleftrightarrow> k < 8 * (n mod 8)" for k
    using mod_less_divisor [of 8 n] by (auto simp: bit_simps)
  have w_bit: "bit w (2 * j) \<longleftrightarrow> 32 * r + j < 4 * n \<and> goal \<le> 32 * r + j
      \<and> blk_state buf (32 * r + j) = state" if "j < 32" for j
  proof (cases "32 * r + j < 4 * n")
    case True
    then have "bit t (2 * j) \<longleftrightarrow> goal \<le> 32 * r + j \<and> blk_state buf (32 * r + j) = state"
      using that s n loop(1) unfolding t_def by (intro hits_even) simp_all
    with True inside [OF that] tail [of "2 * j"] show ?thesis by (simp add: w_def bit_and_iff)
  next
    case False
    with inside [OF that] tail [of "2 * j"] show ?thesis by (simp add: w_def bit_and_iff)
  qed
  have w_odd: "\<not> bit w k" if "odd k" "k < 64" for k
    using hits_odd [OF that] t_def by (simp add: w_def bit_simps)
  have before: "blk_state buf i \<noteq> state" if "goal \<le> i" "i < 32 * r" "i < 4 * n" for i
  proof -
    have p: "goal div 32 \<le> i div 32" "i div 32 < r" "i mod 32 < 32" "32 * (i div 32) + i mod 32 = i"
      using that by (simp_all add: div_le_mono less_mult_imp_div_less mult.commute)
    then have "\<not> bit (hits buf state goal (i div 32)) (2 * (i mod 32))"
      using loop(4) by simp
    with hits_even [of "i mod 32" "i div 32" buf state goal] p that s n show ?thesis by simp
  qed
  show ?thesis
  proof (cases "w = 0")
    case True
    have "blk_state buf i \<noteq> state" if i: "goal \<le> i" "i < 4 * n" for i
    proof (cases "i < 32 * r")
      case True
      with before i show ?thesis by blast
    next
      case False
      show ?thesis
      proof (cases "i < 32 * Suc r")
        case True
        with False have "i - 32 * r < 32" "32 * r + (i - 32 * r) = i" by simp_all
        with w_bit [of "i - 32 * r"] \<open>w = 0\<close> i show ?thesis by simp
      next
        case False
        have "Suc r = stop"
        proof (cases "t = 0")
          case tnz: False
          obtain j where j: "j < 32" "bit t (2 * j)"
          proof (rule ffsll_even [OF tnz])
            show "\<not> bit t k" if "odd k" "k < 64" for k
              using hits_odd [OF that] t_def by simp
          qed
          show ?thesis
          proof (rule ccontr)
            assume "Suc r \<noteq> stop"
            then have "w = t" by (simp add: w_def)
            with \<open>w = 0\<close> tnz show False by simp
          qed
        qed (use loop(3) t_def in simp)
        with False i(2) show ?thesis unfolding stop_def by presburger
      qed
    qed
    then have "find (\<lambda>i. blk_state buf i = state) [goal..<4 * n] = None"
      by (simp add: find_upt_None)
    with True fit show ?thesis by simp
  next
    case False
    then obtain j where j: "j < 32" "ffsll w div 2 = j" "bit w (2 * j)"
      and least: "\<And>i. i < j \<Longrightarrow> \<not> bit w (2 * i)"
      by (rule ffsll_even [OF _ w_odd]) blast+
    let ?i = "32 * r + j"
    have first: "blk_state buf k \<noteq> state" if k: "goal \<le> k" "k < ?i" for k
    proof (cases "k < 32 * r")
      case True
      with k before j w_bit [OF j(1)] show ?thesis by simp
    next
      case False
      with k have "k - 32 * r < j" "32 * r + (k - 32 * r) = k" by simp_all
      with least [of "k - 32 * r"] w_bit [of "k - 32 * r"] j w_bit [OF j(1)] k
      show ?thesis by simp
    qed
    have "find (\<lambda>i. blk_state buf i = state) [goal..<4 * n] = Some ?i"
      using w_bit [OF j(1)] j(3) first by (simp add: find_upt_Some)
    with False fit j(2) show ?thesis by simp
  qed
qed

section \<open>Properties\<close>

text \<open>C1. \<open>gfs2_bitfit\<close>, which examines 32 blocks at a time with word arithmetic, agrees with the plain
  search: it returns the first block at or after the goal that is in the wanted state, for a bitmap
  of any length, a multiple of eight bytes or not, and \<open>BFITNOENT\<close> exactly when there is none.\<close>

theorem bitfit_first:
  assumes "state < 4" "goal < 4 * len" "len \<le> length buf"
  shows "gfs2_bitfit buf len goal state
    = (case find (\<lambda>i. blk_state buf i = state) [goal..<4 * len] of None \<Rightarrow> BFITNOENT | Some i \<Rightarrow> i)"
  using assms by (rule gfs2_bitfit_find)

theorem bitfit_first_witness: "gfs2_bitfit [0x55, 0x55, 0x75] 3 1 3 = 10"
proof -
  have "blk_state [0x55, 0x55, 0x75] k \<noteq> 3" if "1 \<le> k" "k < 10" for k
  proof -
    have "k \<in> {1, 2, 3, 4, 5, 6, 7, 8, 9}" using that by auto
    then show ?thesis by (auto simp: blk_state_def)
  qed
  then have "find (\<lambda>i. blk_state [0x55, 0x55, 0x75] i = 3) [1..<4 * 3] = Some 10"
    by (simp only: find_upt_Some) (auto simp: blk_state_def)
  then show ?thesis using bitfit_first [of 3 1 3 "[0x55, 0x55, 0x75]"] by simp
qed

end
