(* ===== verification/Rgrp.thy ===== *)
theory Rgrp
  imports Bits Ondisk
begin

text \<open>
  Resource groups (rgrp.c): the geometry of a group's bitmap blocks, the sizes of groups, and the
  laws of reading and setting a block's state.
\<close>

section \<open>The bitmap blocks of a group\<close>

definition gfs2_bitmap_zero :: gfs2_bitmap where
  "gfs2_bitmap_zero = \<lparr>bi_data = Null, bi_offset = 0, bi_start = 0, bi_len = 0, bi_modified = False\<rparr>"

text \<open>
  \<open>compute_bitmaps\<close>: the header block holds \<open>bsize - 128\<close> bytes of bitmap, each further block
  \<open>bsize - 24\<close>; the last one is cut to the bytes that are left. Allocations succeed in the model.
\<close>

definition compute_bitmap_step :: "u32 \<Rightarrow> nat \<Rightarrow> gfs2_bitmap list \<Rightarrow> gfs2_bitmap list" where
  "compute_bitmap_step bsize x bs = bs[x := (bs ! x)\<lparr>
     bi_offset := of_nat (sizeof struct_gfs2_meta_header),
     bi_start := bi_start (bs ! (x - 1)) + bi_len (bs ! (x - 1)),
     bi_len := bsize - of_nat (sizeof struct_gfs2_meta_header)\<rparr>]"

definition compute_bitmaps :: "rgrp_tree \<Rightarrow> u32 \<Rightarrow> rgrp_tree" where
  "compute_bitmaps rg bsize =
     (let bs = (bits rg)[0 := (bits rg ! 0)\<lparr>bi_offset := of_nat (sizeof struct_gfs2_rgrp), bi_start := 0,
                                 bi_len := bsize - of_nat (sizeof struct_gfs2_rgrp)\<rparr>];
          bs = foldl (\<lambda>bs x. compute_bitmap_step bsize x bs) bs [1..<unat (rt_length rg)];
          x = max 1 (unat (rt_length rg)) - 1;
          bs = bs[x := (bs ! x)\<lparr>bi_len := rt_bitbytes rg - bi_start (bs ! x)\<rparr>]
      in rg\<lparr>bits := bs\<rparr>)"

definition gfs2_compute_bitstructs :: "u32 \<Rightarrow> rgrp_tree \<Rightarrow> int \<times> rgrp_tree" where
  "gfs2_compute_bitstructs bsize rgd =
     (let len = rt_length rgd in
      if 2149 < len \<or> len = 0 then (-1, rgd)
      else
        let ownbits = (bits rgd = []);
            rgd = (if ownbits then rgd\<lparr>bits := replicate (unat len) gfs2_bitmap_zero\<rparr> else rgd);
            rgd = compute_bitmaps rgd bsize;
            lastb = bits rgd ! (unat (rt_length rgd) - 1);
            bytes_left = rt_bitbytes rgd - (bi_start lastb + bi_len lastb);
            errbits = (-1, if ownbits then rgd\<lparr>bits := []\<rparr> else rgd)
        in if bytes_left \<noteq> 0 then errbits
           else if (bi_start lastb + bi_len lastb) * GFS2_NBBY \<noteq> rt_data rgd then errbits
           else (0, rgd))"

section \<open>Geometry\<close>

text \<open>
  The state of the bitmaps that \<open>compute_bitmaps\<close> sets up when the sizes fit: bitmap \<open>x\<close> starts where
  the one before it ends, no bitmap exceeds its block and the last one is not empty.
\<close>

definition bm_start :: "nat \<Rightarrow> nat \<Rightarrow> nat" where
  "bm_start bsize x = (if x = 0 then 0 else (bsize - 24) * x - 104)"

definition bm_hdr :: "nat \<Rightarrow> nat" where
  "bm_hdr x = (if x = 0 then 128 else 24)"

definition geom :: "u32 \<Rightarrow> rgrp_tree \<Rightarrow> bool" where
  "geom bsize rg \<longleftrightarrow>
     (let n = unat (rt_length rg); b = unat bsize in
      512 \<le> b \<and> 0 < n \<and> length (bits rg) = n \<and>
      bm_start b (n - 1) < unat (rt_bitbytes rg) \<and> unat (rt_bitbytes rg) \<le> bm_start b n \<and>
      unat (rt_data rg) = 4 * unat (rt_bitbytes rg) \<and> unat (rt_data rg) + 416 < 2 ^ 32 \<and>
      unat (rt_data0 rg) + unat (rt_data rg) < 2 ^ 64 \<and>
      (\<forall>x < n. unat (bi_offset (bits rg ! x)) = bm_hdr x \<and>
               unat (bi_start (bits rg ! x)) = bm_start b x \<and>
               unat (bi_len (bits rg ! x)) =
                 (if Suc x = n then unat (rt_bitbytes rg) else bm_start b (Suc x)) - bm_start b x))"

text \<open>Every bitmap's data pointer is live and covers its block.\<close>

definition loaded :: "u32 \<Rightarrow> rgrp_tree \<Rightarrow> bool" where
  "loaded bsize rg \<longleftrightarrow>
     (\<forall>x < unat (rt_length rg). \<exists>d. bi_data (bits rg ! x) = Live d \<and> unat bsize \<le> length d)"

lemma bm_start_Suc:
  assumes "512 \<le> b"
  shows "bm_start b (Suc x) = bm_start b x + (b - bm_hdr x)"
proof -
  define k where "k = b - 24"
  then have k: "b = k + 24" "488 \<le> k" using assms by simp_all
  show ?thesis
  proof (cases x)
    case 0
    then show ?thesis using k by (simp add: bm_start_def bm_hdr_def)
  next
    case (Suc y)
    have "104 \<le> k * Suc y" using k(2) by simp
    with Suc k show ?thesis by (simp add: bm_start_def bm_hdr_def)
  qed
qed

lemma bm_start_0 [simp]: "bm_start b 0 = 0" by (simp add: bm_start_def)

lemma bm_start_mono: "512 \<le> b \<Longrightarrow> x \<le> y \<Longrightarrow> bm_start b x \<le> bm_start b y"
  by (rule lift_Suc_mono_le [of "bm_start b"]) (simp_all add: bm_start_Suc)

text \<open>The bitmap a block's bits are in, as the code computes it.\<close>

definition bm_index :: "nat \<Rightarrow> nat \<Rightarrow> nat" where
  "bm_index b i = (if i < 4 * (b - 128) then 0 else (i + 416) div (4 * (b - 24)))"

lemma bm_index_bounds:
  assumes b: "512 \<le> b"
  shows "4 * bm_start b (bm_index b i) \<le> i \<and> i < 4 * bm_start b (Suc (bm_index b i))"
proof (cases "i < 4 * (b - 128)")
  case True
  then show ?thesis using b by (simp add: bm_index_def bm_start_Suc bm_hdr_def)
next
  case False
  define m where "m = 4 * (b - 24)"
  define x where "x = (i + 416) div m"
  have m: "0 < m" "m \<le> i + 416" using b False by (simp_all add: m_def)
  then have "1 \<le> x" unfolding x_def by (simp add: div_greater_zero_iff Suc_le_eq)
  moreover have "m * x \<le> i + 416" "i + 416 < m * Suc x"
    unfolding x_def using m(1) by (simp_all add: dividend_less_times_div)
  ultimately have "m * x - 416 \<le> i" "i < m * Suc x - 416" by simp_all
  with \<open>1 \<le> x\<close> False show ?thesis
    by (simp add: bm_index_def bm_start_def m_def x_def diff_mult_distrib2 algebra_simps)
qed

lemma bm_index_unique:
  assumes b: "512 \<le> b" and "4 * bm_start b x \<le> i" "i < 4 * bm_start b (Suc x)"
  shows "bm_index b i = x"
proof -
  have "\<not> bm_index b i < x"
    using bm_start_mono [OF b, of "Suc (bm_index b i)" x] bm_index_bounds [OF b, of i] assms(2) by auto
  moreover have "\<not> x < bm_index b i"
    using bm_start_mono [OF b, of "Suc x" "bm_index b i"] bm_index_bounds [OF b, of i] assms(3) by auto
  ultimately show ?thesis by simp
qed

section \<open>States of the blocks of a group\<close>

definition rg_state :: "u32 \<Rightarrow> rgrp_tree \<Rightarrow> nat \<Rightarrow> nat" where
  "rg_state bsize rg i =
     (let x = bm_index (unat bsize) i
      in blk_state (drop (bm_hdr x) (buf_of (bi_data (bits rg ! x)))) (i - 4 * bm_start (unat bsize) x))"

lemma geomD:
  assumes "geom bsize rg"
  shows "512 \<le> unat bsize" "0 < unat (rt_length rg)" "length (bits rg) = unat (rt_length rg)"
    "bm_start (unat bsize) (unat (rt_length rg) - 1) < unat (rt_bitbytes rg)"
    "unat (rt_bitbytes rg) \<le> bm_start (unat bsize) (unat (rt_length rg))"
    "unat (rt_data rg) = 4 * unat (rt_bitbytes rg)"
    "unat (rt_data0 rg) + unat (rt_data rg) < 2 ^ 64"
    "unat (rt_data rg) + 416 < 2 ^ 32"
    "x < unat (rt_length rg) \<Longrightarrow> unat (bi_offset (bits rg ! x)) = bm_hdr x"
    "x < unat (rt_length rg) \<Longrightarrow> unat (bi_start (bits rg ! x)) = bm_start (unat bsize) x"
    "x < unat (rt_length rg) \<Longrightarrow> unat (bi_len (bits rg ! x)) =
       (if Suc x = unat (rt_length rg) then unat (rt_bitbytes rg) else bm_start (unat bsize) (Suc x))
         - bm_start (unat bsize) x"
  using assms by (simp_all add: geom_def Let_def)

text \<open>A bitmap's end, in bytes of the group's bitmap.\<close>

definition bm_end :: "nat \<Rightarrow> rgrp_tree \<Rightarrow> nat \<Rightarrow> nat" where
  "bm_end b rg x = (if Suc x = unat (rt_length rg) then unat (rt_bitbytes rg) else bm_start b (Suc x))"

lemma bm_end_bounds:
  assumes g: "geom bsize rg" and x: "x < unat (rt_length rg)"
  shows "bm_start (unat bsize) x < bm_end (unat bsize) rg x"
    "bm_end (unat bsize) rg x \<le> unat (rt_bitbytes rg)"
    "bm_end (unat bsize) rg x \<le> bm_start (unat bsize) (Suc x)"
proof -
  note G = geomD [OF g]
  have h: "bm_hdr x < unat bsize" using G(1) by (simp add: bm_hdr_def)
  show "bm_start (unat bsize) x < bm_end (unat bsize) rg x"
  proof (cases "Suc x = unat (rt_length rg)")
    case True
    then have "unat (rt_length rg) - 1 = x" by simp
    with True G(4) show ?thesis by (simp add: bm_end_def)
  qed (use h bm_start_Suc [OF G(1), of x] in \<open>simp add: bm_end_def\<close>)
  have "Suc x \<noteq> unat (rt_length rg) \<Longrightarrow> bm_start (unat bsize) (Suc x) \<le> bm_start (unat bsize) (unat (rt_length rg) - 1)"
    using x by (intro bm_start_mono [OF G(1)]) simp
  with G(4) show "bm_end (unat bsize) rg x \<le> unat (rt_bitbytes rg)"
    by (auto simp: bm_end_def)
  show "bm_end (unat bsize) rg x \<le> bm_start (unat bsize) (Suc x)"
    using G(5) by (auto simp: bm_end_def)
qed

lemma bm_extent:
  assumes g: "geom bsize rg" and x: "x < unat (rt_length rg)"
  shows "unat ((bi_start (bits rg ! x) + bi_len (bits rg ! x)) * GFS2_NBBY) = 4 * bm_end (unat bsize) rg x"
proof -
  note G = geomD [OF g]
  have sum: "unat (bi_start (bits rg ! x)) + unat (bi_len (bits rg ! x)) = bm_end (unat bsize) rg x"
    using G(10,11) [OF x] bm_end_bounds(1) [OF g x] by (simp add: bm_end_def)
  have lim: "4 * bm_end (unat bsize) rg x < 2 ^ 32"
    using bm_end_bounds(2) [OF g x] G(6) u32_lt [of "rt_data rg"] by simp
  have "unat (bi_start (bits rg ! x) + bi_len (bits rg ! x)) = bm_end (unat bsize) rg x"
    using sum lim by (subst unat_add_no_wrap) simp_all
  with lim show ?thesis by (subst unat_mult_no_wrap) simp_all
qed

lemma bm_index_in_group:
  assumes g: "geom bsize rg" and i: "i < unat (rt_data rg)"
  shows "bm_index (unat bsize) i < unat (rt_length rg)"
    "4 * bm_start (unat bsize) (bm_index (unat bsize) i) \<le> i"
    "i < 4 * bm_end (unat bsize) rg (bm_index (unat bsize) i)"
proof -
  note G = geomD [OF g]
  let ?x = "bm_index (unat bsize) i"
  have lo: "4 * bm_start (unat bsize) ?x \<le> i" and hi: "i < 4 * bm_start (unat bsize) (Suc ?x)"
    using bm_index_bounds [OF G(1)] by auto
  then show "4 * bm_start (unat bsize) ?x \<le> i" by simp
  have "4 * bm_start (unat bsize) ?x < 4 * bm_start (unat bsize) (unat (rt_length rg))"
    using lo i G(5,6) by linarith
  then show x: "?x < unat (rt_length rg)"
    using bm_start_mono [OF G(1), of "unat (rt_length rg)" ?x] by (meson le_less_trans not_less mult_le_mono2 order.asym less_le_trans)
  show "i < 4 * bm_end (unat bsize) rg ?x"
    using hi i G(6) by (simp add: bm_end_def)
qed


lemma set_bitmap_index_eq:
  assumes g: "geom bsize rg" and i: "i < unat (rt_data rg)"
  shows "set_bitmap_index rg (of_nat i) = Some (bm_index (unat bsize) i)"
proof -
  let ?x = "bm_index (unat bsize) i"
  have ui: "unat (of_nat i :: u32) = i"
    using i u32_lt [of "rt_data rg"] by (simp add: unat_of_nat_small)
  have lt: "(of_nat i :: u32) < (bi_start (bits rg ! y) + bi_len (bits rg ! y)) * GFS2_NBBY
      \<longleftrightarrow> i < 4 * bm_end (unat bsize) rg y" if "y < unat (rt_length rg)" for y
    using bm_extent [OF g that] by (simp add: word_less_nat_alt ui)
  have "\<not> i < 4 * bm_end (unat bsize) rg y" if "y < ?x" for y
  proof -
    have "bm_end (unat bsize) rg y \<le> bm_start (unat bsize) (Suc y)"
      using bm_end_bounds(3) [OF g] that bm_index_in_group(1) [OF g i] by simp
    also have "\<dots> \<le> bm_start (unat bsize) ?x"
      using that by (intro bm_start_mono [OF geomD(1) [OF g]]) simp
    finally show ?thesis using bm_index_in_group(2) [OF g i] by simp
  qed
  then have "find (\<lambda>y. (of_nat i :: u32) < (bi_start (bits rg ! y) + bi_len (bits rg ! y)) * GFS2_NBBY)
      [0..<unat (rt_length rg)] = Some ?x"
    unfolding find_upt_Some
    using lt bm_index_in_group [OF g i] by auto
  then show ?thesis by (simp add: set_bitmap_index_def)
qed

text \<open>Where block \<open>i\<close> of a group has its two bits.\<close>

definition bm_byte :: "nat \<Rightarrow> nat \<Rightarrow> nat" where
  "bm_byte b i = bm_hdr (bm_index b i) + (i div 4 - bm_start b (bm_index b i))"

lemma sub_blocks:
  "4 * a \<le> i \<Longrightarrow> (i - 4 * a) mod 4 = i mod 4" "4 * a \<le> i \<Longrightarrow> (i - 4 * a) div 4 = i div 4 - a" for i a :: nat
  by (auto dest!: le_Suc_ex)

lemma rg_state_byte:
  assumes b: "512 \<le> unat bsize" and d: "bi_data (bits rg ! bm_index (unat bsize) i) = Live d"
    and len: "unat bsize \<le> length d"
  shows "rg_state bsize rg i = unat (drop_bit (2 * (i mod 4)) (d ! bm_byte (unat bsize) i) AND 3)"
proof -
  let ?x = "bm_index (unat bsize) i"
  have s: "4 * bm_start (unat bsize) ?x \<le> i" using bm_index_bounds [OF b] by simp
  note sub_blocks [OF s]
  moreover have "bm_hdr ?x \<le> length d" using b len by (simp add: bm_hdr_def)
  ultimately show ?thesis
    using d by (simp add: rg_state_def Let_def blk_state_def buf_of_def bm_byte_def)
qed


text \<open>The update of a byte replaces one of its four states.\<close>

definition byte_set :: "nat \<Rightarrow> u8 \<Rightarrow> int \<Rightarrow> u8" where
  "byte_set sh byte state =
     (byte XOR push_bit sh (drop_bit sh byte AND 3)) OR push_bit sh (of_int state)"

lemma bit_byte_set:
  assumes "sh + 2 \<le> 8" "0 \<le> state" "state < 4" "k < 8"
  shows "bit (byte_set sh byte state) k
    \<longleftrightarrow> (if sh \<le> k \<and> k < sh + 2 then bit state (k - sh) else bit byte k)"
proof -
  have three: "bit (3 :: int) n \<longleftrightarrow> n < 2" for n
  proof -
    have "(3 :: int) = mask 2" by (simp add: mask_eq_exp_minus_1)
    then show ?thesis by (simp only: bit_mask_iff possible_bit_int simp_thms)
  qed
  have high: "\<not> bit state n" if "2 \<le> n" for n
  proof -
    have "(4 :: int) \<le> 2 ^ n" using power_increasing [of 2 n "2 :: int"] that by simp
    with assms(2,3) have "state div 2 ^ n = 0" by simp
    then show ?thesis by (simp add: bit_iff_odd)
  qed
  have beyond: "\<not> k < Suc (Suc sh) \<Longrightarrow> \<not> bit state (k - sh)" by (rule high) simp
  show ?thesis
    using assms beyond
    by (auto simp: byte_set_def bit_simps three bit_word_of_int_iff)
qed

lemma byte_set_state:
  assumes "j < 4" "l < 4" "0 \<le> state" "state < 4"
  shows "unat (drop_bit (2 * l) (byte_set (2 * j) byte state) AND 3)
    = (if l = j then nat state else unat (drop_bit (2 * l) byte AND 3))"
proof (cases "l = j")
  case True
  have "bit (byte_set (2 * j) byte state) (2 * j) = bit state 0"
    "bit (byte_set (2 * j) byte state) (2 * j + 1) = bit state 1"
    using assms by (simp_all add: bit_byte_set)
  moreover have "state = 0 \<or> state = 1 \<or> state = 2 \<or> state = 3" using assms(3,4) by auto
  ultimately have "nat state < 4 \<and> bit (byte_set (2 * j) byte state) (2 * j) = odd (nat state)
      \<and> bit (byte_set (2 * j) byte state) (2 * j + 1) = (2 \<le> nat state)"
    by (elim disjE) (simp_all add: bit_iff_odd)
  with state_bits [OF assms(1), of "byte_set (2 * j) byte state" "nat state"] True
  show ?thesis by simp
next
  case False
  let ?s = "unat (drop_bit (2 * l) byte AND 3)"
  have "?s < 4 \<and> bit byte (2 * l) = odd ?s \<and> bit byte (2 * l + 1) = (2 \<le> ?s)"
    using state_bits [OF assms(2), of byte ?s] by simp
  moreover have "bit (byte_set (2 * j) byte state) (2 * l) = bit byte (2 * l)"
    "bit (byte_set (2 * j) byte state) (2 * l + 1) = bit byte (2 * l + 1)"
    using assms False by (subst bit_byte_set; auto)+
  ultimately show ?thesis
    using False state_bits [OF assms(2), of "byte_set (2 * j) byte state" ?s] by simp
qed


lemma bm_byte_inj:
  assumes "bm_index b i = bm_index b j" "bm_byte b i = bm_byte b j" "i mod 4 = j mod 4"
    and b: "512 \<le> b"
  shows "i = j"
proof -
  have "bm_start b (bm_index b i) \<le> i div 4" "bm_start b (bm_index b j) \<le> j div 4"
    using bm_index_bounds [OF b, of i] bm_index_bounds [OF b, of j] by auto
  with assms(1,2) have "i div 4 = j div 4" by (simp add: bm_byte_def)
  with assms(3) show ?thesis by (metis div_mult_mod_eq)
qed

lemma bm_byte_less:
  assumes g: "geom bsize rg" and i: "i < unat (rt_data rg)"
  shows "bm_byte (unat bsize) i < unat bsize"
proof -
  let ?x = "bm_index (unat bsize) i"
  have "i div 4 < bm_start (unat bsize) ?x + (unat bsize - bm_hdr ?x)"
    by (rule less_mult_imp_div_less)
      (use bm_index_bounds [OF geomD(1) [OF g], of i] bm_start_Suc [OF geomD(1) [OF g], of ?x] in \<open>simp add: mult.commute\<close>)
  moreover have "bm_hdr ?x < unat bsize" using geomD(1) [OF g] by (simp add: bm_hdr_def)
  ultimately show ?thesis by (simp add: bm_byte_def)
qed

definition rg_set :: "u32 \<Rightarrow> rgrp_tree \<Rightarrow> nat \<Rightarrow> int \<Rightarrow> rgrp_tree" where
  "rg_set bsize rg i state =
     (let x = bm_index (unat bsize) i; p = bm_byte (unat bsize) i;
          d = buf_of (bi_data (bits rg ! x))
      in rg\<lparr>bits := (bits rg)[x := (bits rg ! x)\<lparr>
            bi_data := Live (d[p := byte_set (2 * (i mod 4)) (d ! p) state]), bi_modified := True\<rparr>]\<rparr>)"

lemma set_bitmap_eq:
  assumes g: "geom bsize rg" and i: "i < unat (rt_data rg)" and s: "0 \<le> state" "state \<le> 3"
  shows "gfs2_set_bitmap (Some rg) (rt_data0 rg + of_nat i) state = (0, Some (rg_set bsize rg i state))"
proof -
  note G = geomD [OF g]
  let ?x = "bm_index (unat bsize) i"
  have i64: "unat (of_nat i :: u64) = i" and i32: "unat (of_nat i :: u32) = i"
    using i u32_lt [of "rt_data rg"] by (simp_all add: unat_of_nat_small)
  have "unat (rt_data0 rg + of_nat i) = unat (rt_data0 rg) + i"
    using G(7) i by (subst unat_add_no_wrap) (simp_all add: i64)
  then have "\<not> rt_data0 rg + of_nat i < rt_data0 rg" by (simp add: word_less_nat_alt)
  moreover have "(ucast (rt_data0 rg + of_nat i - rt_data0 rg) :: u32) = of_nat i"
    by (simp add: word_unat_eq_iff unat_ucast_mod i64 i32) (use i u32_lt [of "rt_data rg"] in simp)
  moreover have "unat (of_nat i div GFS2_NBBY - bi_start (bits rg ! ?x)) = i div 4 - bm_start (unat bsize) ?x"
  proof -
    have "bi_start (bits rg ! ?x) \<le> (of_nat i div GFS2_NBBY :: u32)"
      using G(10) [OF bm_index_in_group(1) [OF g i]] bm_index_in_group(2) [OF g i]
      by (simp add: word_le_nat_alt unat_div i32)
    then show ?thesis
      using G(10) [OF bm_index_in_group(1) [OF g i]] by (simp add: unat_sub unat_div i32)
  qed
  moreover have "unat (of_nat i mod GFS2_NBBY :: u32) = i mod 4" by (simp add: unat_mod i32)
  ultimately show ?thesis
    using s set_bitmap_index_eq [OF g i] G(9) [OF bm_index_in_group(1) [OF g i]]
    by (simp add: gfs2_set_bitmap_def rg_set_def Let_def bm_byte_def byte_set_def mult.commute)
qed

lemma rg_set_geom: "geom bsize rg \<Longrightarrow> i < unat (rt_data rg) \<Longrightarrow> geom bsize (rg_set bsize rg i state)"
  using bm_index_in_group(1) [of bsize rg i]
  by (auto simp: geom_def rg_set_def Let_def nth_list_update)

lemma rg_set_loaded:
  "geom bsize rg \<Longrightarrow> loaded bsize rg \<Longrightarrow> i < unat (rt_data rg) \<Longrightarrow> loaded bsize (rg_set bsize rg i state)"
  using bm_index_in_group(1) [of bsize rg i] geomD(3) [of bsize rg]
  by (fastforce simp: loaded_def rg_set_def Let_def nth_list_update buf_of_def)

lemma rg_set_frame [simp]:
  "rt_data (rg_set bsize rg i state) = rt_data rg" "rt_data0 (rg_set bsize rg i state) = rt_data0 rg"
  "rt_length (rg_set bsize rg i state) = rt_length rg" "rt_addr (rg_set bsize rg i state) = rt_addr rg"
  "rt_free (rg_set bsize rg i state) = rt_free rg"
  by (simp_all add: rg_set_def Let_def)

lemma rg_set_state:
  assumes g: "geom bsize rg" and l: "loaded bsize rg" and i: "i < unat (rt_data rg)"
    and j: "j < unat (rt_data rg)" and s: "0 \<le> state" "state \<le> 3"
  shows "rg_state bsize (rg_set bsize rg i state) j = (if j = i then nat state else rg_state bsize rg j)"
proof -
  note G = geomD [OF g]
  let ?x = "bm_index (unat bsize) i" and ?y = "bm_index (unat bsize) j"
  note xi = bm_index_in_group [OF g i] and yj = bm_index_in_group [OF g j]
  obtain d where d: "bi_data (bits rg ! ?x) = Live d" "unat bsize \<le> length d"
    using l xi(1) unfolding loaded_def by blast
  obtain e where e: "bi_data (bits rg ! ?y) = Live e" "unat bsize \<le> length e"
    using l yj(1) unfolding loaded_def by blast
  have old: "rg_state bsize rg j = unat (drop_bit (2 * (j mod 4)) (e ! bm_byte (unat bsize) j) AND 3)"
    using G(1) e by (rule rg_state_byte)
  let ?d' = "d[bm_byte (unat bsize) i := byte_set (2 * (i mod 4)) (d ! bm_byte (unat bsize) i) state]"
  show ?thesis
  proof (cases "?y = ?x")
    case False
    then have "bi_data (bits (rg_set bsize rg i state) ! ?y) = Live e"
      using e by (simp add: rg_set_def Let_def)
    with False old e(2) show ?thesis
      using rg_state_byte [OF G(1), of "rg_set bsize rg i state" j e] by auto
  next
    case True
    then have "e = d" using d e by simp
    have "bi_data (bits (rg_set bsize rg i state) ! ?y) = Live ?d'"
      using True xi(1) G(3) d by (simp add: rg_set_def Let_def buf_of_def)
    then have new: "rg_state bsize (rg_set bsize rg i state) j
        = unat (drop_bit (2 * (j mod 4)) (?d' ! bm_byte (unat bsize) j) AND 3)"
      using d(2) by (intro rg_state_byte [OF G(1)]) simp_all
    have lt: "bm_byte (unat bsize) i < length d" using bm_byte_less [OF g i] d(2) by simp
    show ?thesis
    proof (cases "bm_byte (unat bsize) j = bm_byte (unat bsize) i")
      case False
      then have "j \<noteq> i" by auto
      with False new old \<open>e = d\<close> show ?thesis by simp
    next
      case same: True
      have "j = i \<longleftrightarrow> j mod 4 = i mod 4" using bm_byte_inj [OF True same _ G(1)] by auto
      with same new old lt s \<open>e = d\<close> show ?thesis by (simp add: byte_set_state)
    qed
  qed
qed


lemma bm_index_0:
  assumes g: "geom bsize rg" and i: "i < unat (rt_data rg)"
  shows "bm_index (unat bsize) i = 0 \<longleftrightarrow> i < 4 * bm_end (unat bsize) rg 0"
proof
  assume "bm_index (unat bsize) i = 0"
  with bm_index_in_group(3) [OF g i] show "i < 4 * bm_end (unat bsize) rg 0" by simp
next
  assume "i < 4 * bm_end (unat bsize) rg 0"
  with bm_end_bounds(3) [OF g, of 0] geomD(2) [OF g]
  have "i < 4 * bm_start (unat bsize) (Suc 0)" by simp
  then show "bm_index (unat bsize) i = 0" by (intro bm_index_unique [OF geomD(1) [OF g]]) simp_all
qed

lemma get_bitmap_eq:
  assumes g: "geom (sd_bsize sdp) rg" and l: "loaded (sd_bsize sdp) rg" and i: "i < unat (rt_data rg)"
    and bpb: "unat (sd_blocks_per_bitmap sdp) = 4 * (unat (sd_bsize sdp) - 24)"
  shows "get_bitmap sdp (rt_data0 rg + of_nat i) rg = int (rg_state (sd_bsize sdp) rg i)"
proof -
  note G = geomD [OF g]
  let ?b = "unat (sd_bsize sdp)"
  let ?x = "bm_index ?b i"
  note xi = bm_index_in_group [OF g i]
  obtain d where d: "bi_data (bits rg ! ?x) = Live d" "?b \<le> length d"
    using l xi(1) unfolding loaded_def by blast
  have i64: "unat (of_nat i :: u64) = i" using i G(8) by (simp add: unat_of_nat_small)
  have d64: "unat (ucast (rt_data rg) :: u64) = unat (rt_data rg)" by (simp add: unat_ucast_up)
  have small: "\<not> 0xFFFFFFFF < (of_nat i :: u64)"
    using i G(8) by (simp add: word_less_nat_alt i64)
  have bound: "\<not> rt_data0 rg + ucast (rt_data rg) \<le> of_nat i"
  proof -
    have "unat (rt_data0 rg + ucast (rt_data rg)) = unat (rt_data0 rg) + unat (rt_data rg)"
      using G(7) by (subst unat_add_no_wrap) (simp_all add: d64)
    then show ?thesis using i by (simp add: word_le_nat_alt i64)
  qed
  have first: "ucast ((bi_start (bits rg ! 0) + bi_len (bits rg ! 0)) * GFS2_NBBY) \<le> (of_nat i :: u64)
      \<longleftrightarrow> ?x \<noteq> 0"
    using bm_extent [OF g G(2)] bm_index_0 [OF g i]
    by (simp add: word_le_nat_alt unat_ucast_up i64 not_less)
  have pos: "i div 4 - bm_start ?b ?x = (i - 4 * bm_start ?b ?x) div 4"
    "(i - 4 * bm_start ?b ?x) mod 4 = i mod 4"
    using sub_blocks [OF xi(2)] by simp_all
  have state: "int (rg_state (sd_bsize sdp) rg i)
      = int (unat (drop_bit (unat (o' mod 4) * 2) (d ! (unat (bi_offset (bits rg ! ?x)) + unat (o' div 4))) AND 3))"
    if "unat o' = i - 4 * bm_start ?b ?x" for o' :: u64
    using rg_state_byte [OF G(1) d] G(9) [OF xi(1)] pos that
    by (simp add: bm_byte_def unat_mod unat_div mult.commute)
  show ?thesis
  proof (cases "?x = 0")
    case True
    then show ?thesis
      using small bound first d state [of "of_nat i"]
      by (simp add: get_bitmap_def Let_def i64 buf_of_def)
  next
    case False
    let ?o = "of_nat i + 416 :: u64"
    have o: "unat ?o = i + 416"
      using i G(8) by (subst unat_add_no_wrap) (simp_all add: i64)
    have bpb64: "unat (ucast (sd_blocks_per_bitmap sdp) :: u64) = 4 * (?b - 24)"
      by (simp add: unat_ucast_up bpb)
    have big: "\<not> i < 4 * (?b - 128)" using False by (auto simp: bm_index_def)
    have idx: "unat (ucast (?o div ucast (sd_blocks_per_bitmap sdp)) :: u32) = ?x"
    proof -
      have "unat (?o div ucast (sd_blocks_per_bitmap sdp)) = ?x"
        using big by (simp add: unat_div o bpb64 bm_index_def)
      moreover have "?x < 2 ^ 32" using xi(1) u32_lt [of "rt_length rg"] by simp
      ultimately show ?thesis by (simp add: unat_ucast_mod)
    qed
    have le: "?x * (4 * (?b - 24)) \<le> i + 416"
      using big by (simp add: bm_index_def)
    have prod: "unat ((ucast (?o div ucast (sd_blocks_per_bitmap sdp)) :: u32) * sd_blocks_per_bitmap sdp)
        = ?x * (4 * (?b - 24))"
      using le i G(8) by (subst unat_mult_no_wrap) (simp_all add: idx bpb)
    have rest: "unat (?o - ucast ((ucast (?o div ucast (sd_blocks_per_bitmap sdp)) :: u32) * sd_blocks_per_bitmap sdp))
        = i - 4 * bm_start ?b ?x"
    proof -
      have "unat (ucast ((ucast (?o div ucast (sd_blocks_per_bitmap sdp)) :: u32) * sd_blocks_per_bitmap sdp) :: u64)
          = ?x * (4 * (?b - 24))"
        using prod by (simp add: unat_ucast_up)
      moreover have "i + 416 - ?x * (4 * (?b - 24)) = i - 4 * bm_start ?b ?x"
      proof -
        have "104 \<le> (?b - 24) * ?x" using False G(1) by (cases ?x) simp_all
        then show ?thesis using False by (simp add: bm_start_def algebra_simps)
      qed
      ultimately show ?thesis using le by (simp add: unat_sub word_le_nat_alt o)
    qed
    show ?thesis
      using small bound first False d state [OF rest]
      by (simp add: get_bitmap_def Let_def i64 buf_of_def idx size_simps)
  qed
qed


section \<open>compute_bitmaps sets up the geometry\<close>

lemma of_nat_sizeof:
  "(of_nat (sizeof struct_gfs2_rgrp) :: u32) = 128" "(of_nat (sizeof struct_gfs2_meta_header) :: u32) = 24"
  by (simp_all add: size_simps)

lemma unat_bsize_minus: "512 \<le> unat (b :: u32) \<Longrightarrow> unat (b - 128) = unat b - 128 \<and> unat (b - 24) = unat b - 24"
  by (simp add: unat_sub word_le_nat_alt)

lemma bm_start_le: "512 \<le> b \<Longrightarrow> bm_start b x \<le> b * x"
  by (simp add: bm_start_def) (meson diff_le_self le_trans mult_le_mono1)

text \<open>The bitmaps after \<open>k\<close> of them have been set up.\<close>

definition bms_upto :: "nat \<Rightarrow> gfs2_bitmap list \<Rightarrow> nat \<Rightarrow> bool" where
  "bms_upto b bs k \<longleftrightarrow> (\<forall>x < k. unat (bi_offset (bs ! x)) = bm_hdr x \<and>
     unat (bi_start (bs ! x)) = bm_start b x \<and> unat (bi_len (bs ! x)) = b - bm_hdr x)"

lemma compute_bitmaps_loop:
  assumes b: "512 \<le> unat bsize" "unat bsize \<le> 65536" and k: "1 \<le> k" "k \<le> length bs" "k \<le> 2149"
    and first: "bms_upto (unat bsize) bs 1"
  shows "bms_upto (unat bsize) (foldl (\<lambda>bs x. compute_bitmap_step bsize x bs) bs [1..<k]) k
    \<and> length (foldl (\<lambda>bs x. compute_bitmap_step bsize x bs) bs [1..<k]) = length bs"
  using k
proof (induction k rule: dec_induct)
  case base
  then show ?case using first by simp
next
  case (step k)
  let ?l = "foldl (\<lambda>bs x. compute_bitmap_step bsize x bs) bs [1..<k]"
  have ih: "bms_upto (unat bsize) ?l k" "length ?l = length bs" using step by simp_all
  have prev: "unat (bi_start (?l ! (k - 1))) = bm_start (unat bsize) (k - 1)"
    "unat (bi_len (?l ! (k - 1))) = unat bsize - bm_hdr (k - 1)"
    using ih(1) step(1) by (simp_all add: bms_upto_def)
  have "bm_start (unat bsize) k \<le> 65536 * 2149"
    using bm_start_le [OF b(1), of k] mult_le_mono [OF b(2), of k 2149] step by simp
  moreover have "bm_start (unat bsize) k = bm_start (unat bsize) (k - 1) + (unat bsize - bm_hdr (k - 1))"
    using bm_start_Suc [OF b(1), of "k - 1"] step(1) by simp
  ultimately have "unat (bi_start (?l ! (k - 1)) + bi_len (?l ! (k - 1))) = bm_start (unat bsize) k"
    using prev by (subst unat_add_no_wrap) simp_all
  then show ?case
    using ih step unat_bsize_minus [OF b(1)]
    by (auto simp: bms_upto_def compute_bitmap_step_def of_nat_sizeof nth_list_update less_Suc_eq bm_hdr_def)
qed

lemma compute_bitmaps_geom:
  fixes rg :: rgrp_tree
  defines "n \<equiv> unat (rt_length rg)"
  assumes b: "512 \<le> unat bsize" "unat bsize \<le> 65536" and n: "1 \<le> n" "n \<le> 2149" "length (bits rg) = n"
  defines "rg' \<equiv> compute_bitmaps rg bsize"
  shows "length (bits rg') = n"
    "x < n \<Longrightarrow> unat (bi_offset (bits rg' ! x)) = bm_hdr x"
    "x < n \<Longrightarrow> unat (bi_start (bits rg' ! x)) = bm_start (unat bsize) x"
    "Suc x < n \<Longrightarrow> unat (bi_len (bits rg' ! x)) = unat bsize - bm_hdr x"
    "bi_len (bits rg' ! (n - 1)) = rt_bitbytes rg - bi_start (bits rg' ! (n - 1))"
    "rg'\<lparr>bits := bs\<rparr> = rg\<lparr>bits := bs\<rparr>"
proof -
  let ?bs = "(bits rg)[0 := (bits rg ! 0)\<lparr>bi_offset := 128, bi_start := 0, bi_len := bsize - 128\<rparr>]"
  have first: "bms_upto (unat bsize) ?bs 1"
    using n unat_bsize_minus [OF b(1)] by (simp add: bms_upto_def bm_hdr_def nth_list_update)
  let ?l = "foldl (\<lambda>bs x. compute_bitmap_step bsize x bs) ?bs [1..<n]"
  have l: "bms_upto (unat bsize) ?l n" "length ?l = n"
    using compute_bitmaps_loop [OF b n(1) _ n(2) first] n(3) by simp_all
  have max: "max 1 n - 1 = n - 1" using n(1) by simp
  have rg': "rg' = rg\<lparr>bits := ?l[n - 1 := (?l ! (n - 1))\<lparr>bi_len := rt_bitbytes rg - bi_start (?l ! (n - 1))\<rparr>]\<rparr>"
    unfolding rg'_def compute_bitmaps_def of_nat_sizeof Let_def n_def [symmetric] max ..
  show "length (bits rg') = n" using l by (simp add: rg')
  show "x < n \<Longrightarrow> unat (bi_offset (bits rg' ! x)) = bm_hdr x"
    and "x < n \<Longrightarrow> unat (bi_start (bits rg' ! x)) = bm_start (unat bsize) x"
    and "Suc x < n \<Longrightarrow> unat (bi_len (bits rg' ! x)) = unat bsize - bm_hdr x"
    using l by (auto simp: rg' nth_list_update bms_upto_def)
  show "bi_len (bits rg' ! (n - 1)) = rt_bitbytes rg - bi_start (bits rg' ! (n - 1))"
    using l n(1) by (simp add: rg')
  show "rg'\<lparr>bits := bs\<rparr> = rg\<lparr>bits := bs\<rparr>" by (simp add: rg')
qed


lemma bitstructs_result:
  assumes b: "512 \<le> unat bsize" "unat bsize \<le> 65536"
    and bits: "bits rg = [] \<or> length (bits rg) = unat (rt_length rg)"
  shows "fst (gfs2_compute_bitstructs bsize rg) = 0 \<longleftrightarrow>
      1 \<le> unat (rt_length rg) \<and> unat (rt_length rg) \<le> 2149 \<and> rt_bitbytes rg * GFS2_NBBY = rt_data rg"
    and "fst (gfs2_compute_bitstructs bsize rg) = 0 \<Longrightarrow> snd (gfs2_compute_bitstructs bsize rg)
      = compute_bitmaps (if bits rg = [] then rg\<lparr>bits := replicate (unat (rt_length rg)) gfs2_bitmap_zero\<rparr> else rg) bsize"
proof -
  let ?n = "unat (rt_length rg)"
  let ?rg = "if bits rg = [] then rg\<lparr>bits := replicate ?n gfs2_bitmap_zero\<rparr> else rg"
  have len: "(2149 < rt_length rg \<or> rt_length rg = 0) \<longleftrightarrow> \<not> (1 \<le> ?n \<and> ?n \<le> 2149)"
    by (simp add: word_less_nat_alt Suc_le_eq unat_eq_0 flip: unat_gt_0) (auto simp: unat_gt_0)
  have whole: "bi_start (bits (compute_bitmaps ?rg bsize) ! (?n - 1)) + bi_len (bits (compute_bitmaps ?rg bsize) ! (?n - 1))
      = rt_bitbytes rg" if "1 \<le> ?n" "?n \<le> 2149"
    using compute_bitmaps_geom(5) [of bsize ?rg] b bits that by (auto split: if_splits)
  have same: "rt_length (compute_bitmaps ?rg bsize) = rt_length rg"
    "rt_bitbytes (compute_bitmaps ?rg bsize) = rt_bitbytes rg" "rt_data (compute_bitmaps ?rg bsize) = rt_data rg"
    by (simp_all add: compute_bitmaps_def Let_def)
  have zero: "rt_bitbytes rg - rt_bitbytes rg = 0" by simp
  show "fst (gfs2_compute_bitstructs bsize rg) = 0 \<longleftrightarrow>
      1 \<le> ?n \<and> ?n \<le> 2149 \<and> rt_bitbytes rg * GFS2_NBBY = rt_data rg"
    unfolding gfs2_compute_bitstructs_def Let_def len using whole same zero
    by (cases "1 \<le> ?n \<and> ?n \<le> 2149") (auto simp: Let_def)
  show "snd (gfs2_compute_bitstructs bsize rg) = compute_bitmaps ?rg bsize"
    if "fst (gfs2_compute_bitstructs bsize rg) = 0"
    using that unfolding gfs2_compute_bitstructs_def Let_def len by (auto split: if_splits)
qed


lemma compute_bitmaps_wf:
  assumes b: "512 \<le> unat bsize" "unat bsize \<le> 65536"
    and n: "1 \<le> unat (rt_length rg)" "unat (rt_length rg) \<le> 2149" "length (bits rg) = unat (rt_length rg)"
    and d: "unat (rt_data rg) = 4 * unat (rt_bitbytes rg)" "unat (rt_data rg) + 416 < 2 ^ 32"
    and fit: "bm_start (unat bsize) (unat (rt_length rg) - 1) < unat (rt_bitbytes rg)"
      "unat (rt_bitbytes rg) \<le> bm_start (unat bsize) (unat (rt_length rg))"
    and top: "unat (rt_data0 rg) + unat (rt_data rg) < 2 ^ 64"
  shows "geom bsize (compute_bitmaps rg bsize)"
proof -
  let ?n = "unat (rt_length rg)"
  note cb = compute_bitmaps_geom [of bsize rg, OF b n]
  have len: "unat (bi_len (bits (compute_bitmaps rg bsize) ! x)) =
      (if Suc x = ?n then unat (rt_bitbytes rg) else bm_start (unat bsize) (Suc x)) - bm_start (unat bsize) x"
    if x: "x < ?n" for x
  proof (cases "Suc x = ?n")
    case True
    then have n1: "?n - 1 = x" by simp
    have "bi_start (bits (compute_bitmaps rg bsize) ! x) \<le> rt_bitbytes rg"
      using cb(3) [OF x] fit(1) n1 by (simp add: word_le_nat_alt)
    with True n1 cb(3) [OF x] cb(5) show ?thesis by (simp add: unat_sub)
  next
    case False
    with x cb(4) [of x] show ?thesis by (simp add: bm_start_Suc [OF b(1)])
  qed
  show ?thesis
    unfolding geom_def Let_def
    using assms cb(1-3) len by (simp add: compute_bitmaps_def Let_def)
qed

section \<open>The interface of a store of block states\<close>

text \<open>
  What the allocator and the checkers rely on: a finite array of states of which an update
  changes one. Counting the blocks in a state then follows every update exactly.
\<close>

locale block_store =
  fixes inv :: "'s \<Rightarrow> bool" and blocks :: "'s \<Rightarrow> nat" and state :: "'s \<Rightarrow> nat \<Rightarrow> nat"
    and set_state :: "'s \<Rightarrow> nat \<Rightarrow> nat \<Rightarrow> 's"
  assumes inv_set: "inv s \<Longrightarrow> i < blocks s \<Longrightarrow> inv (set_state s i v)"
    and blocks_set: "blocks (set_state s i v) = blocks s"
    and state_set: "inv s \<Longrightarrow> i < blocks s \<Longrightarrow> j < blocks s \<Longrightarrow> v < 4
      \<Longrightarrow> state (set_state s i v) j = (if j = i then v else state s j)"
begin

definition count :: "'s \<Rightarrow> nat \<Rightarrow> nat" where
  "count s v = card {i. i < blocks s \<and> state s i = v}"

lemma count_set_new:
  assumes "inv s" "i < blocks s" "v < 4" "state s i \<noteq> v"
  shows "count (set_state s i v) v = Suc (count s v)"
proof -
  have "{j. j < blocks s \<and> state (set_state s i v) j = v} = insert i {j. j < blocks s \<and> state s j = v}"
    using assms by (auto simp: state_set split: if_splits)
  with assms(4) show ?thesis by (simp add: count_def blocks_set)
qed

lemma count_set_old:
  assumes "inv s" "i < blocks s" "v < 4" "state s i = u" "u \<noteq> v"
  shows "Suc (count (set_state s i v) u) = count s u"
proof -
  have "{j. j < blocks s \<and> state s j = u} = insert i {j. j < blocks s \<and> state (set_state s i v) j = u}"
    using assms by (auto simp: state_set split: if_splits)
  moreover have "i \<notin> {j. j < blocks s \<and> state (set_state s i v) j = u}"
    using assms by (simp add: state_set)
  ultimately show ?thesis by (simp add: count_def blocks_set)
qed

lemma count_set_other:
  assumes "inv s" "i < blocks s" "v < 4" "w \<noteq> v" "state s i \<noteq> w"
  shows "count (set_state s i v) w = count s w"
proof -
  have "{j. j < blocks s \<and> state (set_state s i v) j = w} = {j. j < blocks s \<and> state s j = w}"
    using assms by (auto simp: state_set split: if_splits)
  then show ?thesis by (simp add: count_def blocks_set)
qed

end

interpretation rgb: block_store "\<lambda>rg. geom b rg \<and> loaded b rg" "\<lambda>rg. unat (rt_data rg)" "rg_state b"
  "\<lambda>rg i v. rg_set b rg i (int v)" for b
  by unfold_locales (auto simp: rg_set_geom rg_set_loaded rg_set_state)

section \<open>Properties\<close>

text \<open>C2. Setting a block's state with \<open>gfs2_set_bitmap\<close> succeeds for every block of a group with
  well-formed, loaded bitmaps, keeps the bitmaps well-formed, and is exact: \<open>lgfs2_get_bitmap\<close> then
  reads the new state at that block and the old one at every other block of the group, across the
  boundaries of bytes and of bitmap blocks.\<close>

theorem set_get_bitmap:
  assumes "geom (sd_bsize sdp) rg" "loaded (sd_bsize sdp) rg"
    and "unat (sd_blocks_per_bitmap sdp) = 4 * (unat (sd_bsize sdp) - 24)"
    and "i < unat (rt_data rg)" "j < unat (rt_data rg)" "0 \<le> state" "state \<le> 3"
  shows "\<exists>rg'. gfs2_set_bitmap (Some rg) (rt_data0 rg + of_nat i) state = (0, Some rg')
    \<and> geom (sd_bsize sdp) rg' \<and> loaded (sd_bsize sdp) rg'
    \<and> get_bitmap sdp (rt_data0 rg + of_nat j) rg'
        = (if j = i then state else get_bitmap sdp (rt_data0 rg + of_nat j) rg)"
proof (intro exI conjI)
  let ?rg' = "rg_set (sd_bsize sdp) rg i state"
  show "gfs2_set_bitmap (Some rg) (rt_data0 rg + of_nat i) state = (0, Some ?rg')"
    using assms by (intro set_bitmap_eq)
  show g: "geom (sd_bsize sdp) ?rg'" and l: "loaded (sd_bsize sdp) ?rg'"
    using assms by (simp_all add: rg_set_geom rg_set_loaded)
  show "get_bitmap sdp (rt_data0 rg + of_nat j) ?rg'
      = (if j = i then state else get_bitmap sdp (rt_data0 rg + of_nat j) rg)"
    using get_bitmap_eq [OF g l, of j] get_bitmap_eq [OF assms(1,2) assms(5,3)] assms
    by (simp add: rg_set_state)
qed

text \<open>A group of 16 blocks in a file system with 512 byte blocks, all blocks free.\<close>

definition sbd_example :: gfs2_sbd where
  "sbd_example = \<lparr>sd_bsize = 512, sd_fs_format = 1801, sd_multihost_format = 1900, sd_flags = 0,
     sd_meta_dir = \<lparr>in_formal_ino = 0, in_addr = 0\<rparr>, sd_root_dir = \<lparr>in_formal_ino = 0, in_addr = 0\<rparr>,
     sd_rindex_di = \<lparr>in_formal_ino = 0, in_addr = 0\<rparr>, sd_quota_di = \<lparr>in_formal_ino = 0, in_addr = 0\<rparr>,
     sd_license_di = \<lparr>in_formal_ino = 0, in_addr = 0\<rparr>, sd_bsize_shift = 9, sd_seg_size = 0,
     sd_lockproto = replicate 64 0, sd_locktable = replicate 64 0, sd_uuid = replicate 16 0,
     sd_fsb2bb = 1, sd_fsb2bb_shift = 0, sd_diptrs = 35, sd_inptrs = 61, sd_jbsize = 488,
     sd_hash_bsize = 256, sd_hash_bsize_shift = 8, sd_hash_ptrs = 32, sd_blocks_per_bitmap = 1952,
     sd_max_height = 0, sd_max_jheight = 0, sd_heightsize = [], sd_jheightsize = [],
     blks_alloced = 0, dinodes_alloced = 0, fssize = 100000, sd_gfs1 = False\<rparr>"

definition rgrp_example :: rgrp_tree where
  "rgrp_example = rgrp_zero\<lparr>rt_addr := 200, rt_data0 := 201, rt_data := 16, rt_length := 1,
     rt_bitbytes := 4, rt_free := 16,
     bits := [\<lparr>bi_data = Live (replicate 512 0), bi_offset = 128, bi_start = 0, bi_len = 4,
              bi_modified = False\<rparr>]\<rparr>"

lemma rgrp_example_geom: "geom 512 rgrp_example" "loaded 512 rgrp_example"
  by (simp_all add: geom_def loaded_def rgrp_example_def rgrp_zero_def bm_start_def bm_hdr_def)

theorem set_get_bitmap_witness:
  "\<exists>rg'. gfs2_set_bitmap (Some rgrp_example) (rt_data0 rgrp_example + of_nat 5) 3 = (0, Some rg')
    \<and> get_bitmap sbd_example (rt_data0 rgrp_example + of_nat 5) rg' = 3"
  using set_get_bitmap [of sbd_example rgrp_example 5 5 3] rgrp_example_geom
  by (auto simp: sbd_example_def rgrp_example_def)

text \<open>Every \<open>gfs2_set_bitmap\<close> that changes a block from state \<open>u\<close> to state \<open>v\<close> takes exactly one
  block out of the count of \<open>u\<close> and adds one to the count of \<open>v\<close>, so the free and used totals that
  are kept beside the bitmaps can be followed by adding and subtracting one.\<close>

theorem set_bitmap_counts:
  assumes "geom b rg" "loaded b rg" "i < unat (rt_data rg)" "v < 4" "rg_state b rg i = u" "u \<noteq> v"
  shows "\<exists>rg'. gfs2_set_bitmap (Some rg) (rt_data0 rg + of_nat i) (int v) = (0, Some rg')
    \<and> card {j. j < unat (rt_data rg') \<and> rg_state b rg' j = v} = Suc (card {j. j < unat (rt_data rg) \<and> rg_state b rg j = v})
    \<and> Suc (card {j. j < unat (rt_data rg') \<and> rg_state b rg' j = u}) = card {j. j < unat (rt_data rg) \<and> rg_state b rg j = u}"
  using set_bitmap_eq [OF assms(1,3), of "int v"] rgb.count_set_new [of b rg i v] rgb.count_set_old [of b rg i v u] assms
  by (auto simp: rgb.count_def)

theorem set_bitmap_counts_witness:
  "\<exists>rg'. gfs2_set_bitmap (Some rgrp_example) (rt_data0 rgrp_example + of_nat 5) (int 1) = (0, Some rg')
    \<and> card {j. j < unat (rt_data rg') \<and> rg_state 512 rg' j = 1}
      = Suc (card {j. j < unat (rt_data rgrp_example) \<and> rg_state 512 rgrp_example j = 1})"
proof -
  have "5 < unat (rt_data rgrp_example)" "1 < (4 :: nat)" "rg_state 512 rgrp_example 5 = 0" "0 \<noteq> (1 :: nat)"
    by (simp_all add: rgrp_example_def rg_state_def blk_state_def buf_of_def bm_index_def bm_hdr_def)
  from set_bitmap_counts [OF rgrp_example_geom this] show ?thesis by blast
qed

text \<open>\<open>gfs2_compute_bitstructs\<close> accepts a group and sets up well-formed bitmaps when the header's
  numbers agree: each bitmap starts where the previous one ends, none exceeds its block, and the
  last one ends with the last data block.\<close>

theorem compute_bitstructs_geometry:
  assumes "512 \<le> unat bsize" "unat bsize \<le> 65536"
    and "bits rg = [] \<or> length (bits rg) = unat (rt_length rg)"
    and "1 \<le> unat (rt_length rg)" "unat (rt_length rg) \<le> 2149"
    and "unat (rt_data rg) = 4 * unat (rt_bitbytes rg)" "unat (rt_data rg) + 416 < 2 ^ 32"
    and "bm_start (unat bsize) (unat (rt_length rg) - 1) < unat (rt_bitbytes rg)"
    and "unat (rt_bitbytes rg) \<le> bm_start (unat bsize) (unat (rt_length rg))"
    and "unat (rt_data0 rg) + unat (rt_data rg) < 2 ^ 64"
  shows "fst (gfs2_compute_bitstructs bsize rg) = 0 \<and> geom bsize (snd (gfs2_compute_bitstructs bsize rg))"
proof
  let ?n = "unat (rt_length rg)"
  have "rt_bitbytes rg * GFS2_NBBY = rt_data rg"
    using assms(6) u32_lt [of "rt_data rg"]
    by (simp add: word_unat_eq_iff unat_mult_no_wrap)
  then show ok: "fst (gfs2_compute_bitstructs bsize rg) = 0"
    using assms by (simp add: bitstructs_result)
  define rg0 where "rg0 = (if bits rg = [] then rg\<lparr>bits := replicate ?n gfs2_bitmap_zero\<rparr> else rg)"
  have rg0: "rt_length rg0 = rt_length rg" "rt_bitbytes rg0 = rt_bitbytes rg" "rt_data rg0 = rt_data rg"
    "rt_data0 rg0 = rt_data0 rg" "length (bits rg0) = ?n"
    using assms(3) by (auto simp: rg0_def)
  have res: "snd (gfs2_compute_bitstructs bsize rg) = compute_bitmaps rg0 bsize"
    using bitstructs_result(2) [OF assms(1-3) ok] by (simp add: rg0_def)
  show "geom bsize (snd (gfs2_compute_bitstructs bsize rg))"
    unfolding res using assms rg0 by (intro compute_bitmaps_wf) simp_all
qed

theorem compute_bitstructs_geometry_witness:
  "geom 512 (snd (gfs2_compute_bitstructs 512 (rgrp_example\<lparr>bits := []\<rparr>)))"
  using compute_bitstructs_geometry [of 512 "rgrp_example\<lparr>bits := []\<rparr>"]
  by (simp add: rgrp_example_def rgrp_zero_def bm_start_def)

text \<open>What \<open>gfs2_compute_bitstructs\<close> checks is only the length and that four blocks per byte give
  the data blocks: its test of the bytes left over can never fail, so a corrupt resource index
  entry whose bitmap does not fit its blocks is accepted, and then the last bitmap runs past the
  end of its block.\<close>

theorem compute_bitstructs_accepts_oversize:
  assumes "512 \<le> unat bsize" "unat bsize \<le> 65536"
    and "bits rg = [] \<or> length (bits rg) = unat (rt_length rg)"
  shows "(fst (gfs2_compute_bitstructs bsize rg) = 0 \<longleftrightarrow>
      1 \<le> unat (rt_length rg) \<and> unat (rt_length rg) \<le> 2149 \<and> rt_bitbytes rg * GFS2_NBBY = rt_data rg)
    \<and> (fst (gfs2_compute_bitstructs bsize rg) = 0 \<longrightarrow> rt_length rg = 1 \<longrightarrow>
         bi_len (bits (snd (gfs2_compute_bitstructs bsize rg)) ! 0) = rt_bitbytes rg)"
proof (intro conjI impI)
  show "fst (gfs2_compute_bitstructs bsize rg) = 0 \<longleftrightarrow>
      1 \<le> unat (rt_length rg) \<and> unat (rt_length rg) \<le> 2149 \<and> rt_bitbytes rg * GFS2_NBBY = rt_data rg"
    using assms by (rule bitstructs_result)
next
  assume ok: "fst (gfs2_compute_bitstructs bsize rg) = 0" and one: "rt_length rg = 1"
  then show "bi_len (bits (snd (gfs2_compute_bitstructs bsize rg)) ! 0) = rt_bitbytes rg"
    using bitstructs_result(2) [OF assms ok] assms(3)
    by (auto simp: compute_bitmaps_def Let_def)
qed

theorem compute_bitstructs_accepts_oversize_witness:
  "bi_len (bits (snd (gfs2_compute_bitstructs 512
      (rgrp_zero\<lparr>rt_length := 1, rt_bitbytes := 1000000, rt_data := 4000000\<rparr>))) ! 0) = 1000000"
  using compute_bitstructs_accepts_oversize [of 512
      "rgrp_zero\<lparr>rt_length := 1, rt_bitbytes := 1000000, rt_data := 4000000\<rparr>"]
  by (simp add: rgrp_zero_def)

end
