(* ===== verification/RgPlan.thy ===== *)
theory RgPlan
  imports Rgrp
begin

text \<open>
  Laying out resource groups on a device (rgrp.c): alignment, the plan of group lengths for a
  given space, the split of a group into bitmap and data blocks, and the resource index entries
  made from them.

  The loops of \<open>lgfs2_rgrps_plan\<close> subtract from unsigned integers and need not end for every
  input; they are partial functions, and that they end is part of what is proved.
\<close>

section \<open>State\<close>

text \<open>\<open>struct _lgfs2_rgrps\<close> without its tree: the two specifications of the plan and the alignment.\<close>

record lgfs2_rgrps =
  plan0 :: rg_spec
  plan1 :: rg_spec
  rgs_align :: u64
  rgs_align_off :: u64

definition lgfs2_rgrps_init :: "u64 \<Rightarrow> u64 \<Rightarrow> lgfs2_rgrps option" where
  "lgfs2_rgrps_init align offset =
     (if offset \<noteq> 0 \<and> align mod offset \<noteq> 0 then None
      else Some \<lparr>plan0 = \<lparr>spec_len = 0, spec_num = 0\<rparr>, plan1 = \<lparr>spec_len = 0, spec_num = 0\<rparr>,
                 rgs_align = align, rgs_align_off = offset\<rparr>)"

section \<open>Alignment\<close>

definition align_block :: "u64 \<Rightarrow> u64 \<Rightarrow> u64" where
  "align_block base align =
     (if 0 < align \<and> 0 < base mod align then base - base mod align + align else base)"

definition lgfs2_rgrp_align_addr :: "lgfs2_rgrps \<Rightarrow> u64 \<Rightarrow> u64" where
  "lgfs2_rgrp_align_addr rgs addr = align_block addr (rgs_align_off rgs)"

definition lgfs2_rgrp_align_len :: "lgfs2_rgrps \<Rightarrow> u32 \<Rightarrow> u32" where
  "lgfs2_rgrp_align_len rgs len = ucast (align_block (ucast len) (rgs_align rgs) + rgs_align_off rgs)"

section \<open>lgfs2_rgrps_plan\<close>

partial_function (option) plan_clamp :: "lgfs2_rgrps \<Rightarrow> u32 \<Rightarrow> u32 \<Rightarrow> u32 option" where
  "plan_clamp rgs maxlen tgtsize =
     (let len = lgfs2_rgrp_align_len rgs tgtsize;
          tgtsize = ucast (ucast tgtsize - (rgs_align rgs + 1))
      in if maxlen < len then plan_clamp rgs maxlen tgtsize else Some len)"

declare plan_clamp.simps [code]

partial_function (option) plan_reduce :: "u64 \<Rightarrow> u32 \<Rightarrow> u32 \<Rightarrow> u32 \<Rightarrow> u32 option" where
  "plan_reduce space adj num len =
     (if space \<le> ucast (len - adj) * ucast num then plan_reduce space adj num (len - adj) else Some len)"

declare plan_reduce.simps [code]

partial_function (option) plan_shift ::
  "u64 \<Rightarrow> u32 \<Rightarrow> u32 \<Rightarrow> u32 \<Rightarrow> u32 \<Rightarrow> (u32 \<times> u32) option" where
  "plan_shift space len0 len1 num0 num1 =
     (if space \<le> ucast (len0 * num0 + len1 * num1)
      then plan_shift space len0 len1 (num0 - 1) (num1 + 1) else Some (num0, num1))"

declare plan_shift.simps [code]

definition lgfs2_rgrps_plan ::
  "u32 \<Rightarrow> lgfs2_rgrps \<Rightarrow> u64 \<Rightarrow> u32 \<Rightarrow> (lgfs2_rgrps \<times> u32) option" where
  "lgfs2_rgrps_plan bsize rgs space tgtsize =
     (let maxlen = 0x80000000 div bsize;
          minlen = 0x2000000 div bsize
      in case plan_clamp rgs maxlen tgtsize of None \<Rightarrow> None
      | Some len0 \<Rightarrow>
          let num0 = ucast (space div ucast len0) :: u32;
              planned =
                (if rgs_align rgs < space - ucast (num0 * len0)
                 then
                   let adj = (if 0 < rgs_align rgs then ucast (rgs_align rgs) else 1) :: u32;
                       num0 = num0 + 1
                   in case plan_reduce space adj num0 len0 of None \<Rightarrow> None
                   | Some len0 \<Rightarrow>
                       let len1 = len0 - adj
                       in case plan_shift space len0 len1 num0 0 of None \<Rightarrow> None
                       | Some (num0, num1) \<Rightarrow>
                           Some (rgs\<lparr>plan0 := \<lparr>spec_len = len0, spec_num = num0\<rparr>,
                                     plan1 := \<lparr>spec_len = len1, spec_num = num1\<rparr>\<rparr>)
                 else Some (rgs\<lparr>plan0 := \<lparr>spec_len = len0, spec_num = num0\<rparr>\<rparr>))
          in case planned of None \<Rightarrow> None
          | Some rgs \<Rightarrow>
              if spec_len (plan0 rgs) < minlen then Some (rgs, 0)
              else Some (rgs, spec_num (plan0 rgs) + spec_num (plan1 rgs)))"

section \<open>rgblocks2bitblocks, lgfs2_rgsize_for_data\<close>

definition blks_rgrp :: "u32 \<Rightarrow> u32" where
  "blks_rgrp bsize = 4 * (bsize - of_nat (sizeof struct_gfs2_rgrp))"

definition blks_meta :: "u32 \<Rightarrow> u32" where
  "blks_meta bsize = 4 * (bsize - of_nat (sizeof struct_gfs2_meta_header))"

partial_function (option) bitblocks_loop :: "u32 \<Rightarrow> u32 \<Rightarrow> u32 \<Rightarrow> u32 option" where
  "bitblocks_loop bsize rgblocks bitblocks =
     (if blks_rgrp bsize + blks_meta bsize * bitblocks < (rgblocks - bitblocks) AND NOT 3
      then bitblocks_loop bsize rgblocks (bitblocks + 1) else Some bitblocks)"

declare bitblocks_loop.simps [code]

text \<open>The result is the number of bitmap blocks and the number of data blocks (\<open>*ri_data\<close>).\<close>

definition rgblocks2bitblocks :: "u32 \<Rightarrow> u32 \<Rightarrow> (u32 \<times> u32) option" where
  "rgblocks2bitblocks bsize rgblocks =
     (case bitblocks_loop bsize rgblocks 0 of None \<Rightarrow> None
      | Some bitblocks \<Rightarrow>
          let mappable = (if 0 < bitblocks then blks_rgrp bsize + blks_meta bsize * (bitblocks - 1) else 0);
              ri_data = (rgblocks - (bitblocks + 1)) AND NOT 3
          in Some (if mappable < ri_data then bitblocks + 1 else bitblocks, ri_data))"

definition lgfs2_rgsize_for_data :: "u64 \<Rightarrow> u32 \<Rightarrow> u32" where
  "lgfs2_rgsize_for_data blksreq bsize =
     (let blksreq = (blksreq + 3) AND NOT 3;
          bitblocks =
            (if ucast (blks_rgrp bsize) < blksreq
             then 1 + ucast ((blksreq - ucast (blks_rgrp bsize) + ucast (blks_meta bsize) - 1)
                               div ucast (blks_meta bsize))
             else 1) :: u32
      in ucast (ucast bitblocks + blksreq))"

section \<open>lgfs2_rindex_entry_new, lgfs2_rgrps_append\<close>

text \<open>
  The result is the address after the group, or 0, with the plan and the entry as they are left.
\<close>

definition lgfs2_rindex_entry_new ::
  "u32 \<Rightarrow> u64 \<Rightarrow> lgfs2_rgrps \<Rightarrow> bytes \<Rightarrow> u64 \<Rightarrow> u32 \<Rightarrow> (u64 \<times> lgfs2_rgrps \<times> bytes) option" where
  "lgfs2_rindex_entry_new bsize devlen rgs ri addr len =
     (let plan = (if 0 < spec_num (plan0 rgs) then Some (0 :: nat)
                  else if 0 < spec_num (plan1 rgs) then Some 1 else None)
      in if plan = None \<and> len = 0 then Some (0, rgs, ri)
      else
        let plen = (if plan = Some 0 then spec_len (plan0 rgs) else spec_len (plan1 rgs));
            (len, rgs) =
              (if plan \<noteq> None \<and> (len = 0 \<or> len = plen)
               then (plen, if plan = Some 0 then rgs\<lparr>plan0 := (plan0 rgs)\<lparr>spec_num := spec_num (plan0 rgs) - 1\<rparr>\<rparr>
                           else rgs\<lparr>plan1 := (plan1 rgs)\<lparr>spec_num := spec_num (plan1 rgs) - 1\<rparr>\<rparr>)
               else (len, rgs))
        in if devlen < addr + ucast len then Some (0, rgs, ri)
           else case rgblocks2bitblocks bsize len of None \<Rightarrow> None
           | Some (ri_length, ri_data) \<Rightarrow>
               Some (addr + ucast len, rgs, assigns [
                 put_be64 (offsetof struct_gfs2_rindex ''ri_addr'') addr,
                 put_be32 (offsetof struct_gfs2_rindex ''ri_length'') ri_length,
                 put_be32 (offsetof struct_gfs2_rindex ''ri_data'') ri_data,
                 put_be32 (offsetof struct_gfs2_rindex ''__pad'') 0,
                 put_be64 (offsetof struct_gfs2_rindex ''ri_data0'') (addr + ucast ri_length),
                 put_be32 (offsetof struct_gfs2_rindex ''ri_bitbytes'') (ri_data div GFS2_NBBY),
                 memset_at (offsetof struct_gfs2_rindex ''ri_reserved'') 0 64] ri))"

text \<open>
  The set of groups is taken in the order of its tree, whose last node is the last of the list;
  the new node becomes the right child of that one. The result is the new list, or NULL.
\<close>

definition lgfs2_rgrps_append ::
  "u32 \<Rightarrow> rgrp_tree list \<Rightarrow> bytes \<Rightarrow> u32 \<Rightarrow> rgrp_tree list option" where
  "lgfs2_rgrps_append bsize rgs entry rg_skip =
     (let f64 = \<lambda>m. get_be64 entry (offsetof struct_gfs2_rindex m);
          f32 = \<lambda>m. get_be32 entry (offsetof struct_gfs2_rindex m)
      in if rgs \<noteq> [] \<and> f64 ''ri_addr'' \<le> rt_addr (last rgs) then None
         else
           let rg = rgrp_zero\<lparr>bits := replicate (unat (f32 ''ri_length'')) gfs2_bitmap_zero,
                  rt_addr := f64 ''ri_addr'', rt_length := f32 ''ri_length'',
                  rt_data0 := f64 ''ri_data0'', rt_rg_data0 := f64 ''ri_data0'',
                  rt_data := f32 ''ri_data'', rt_rg_data := f32 ''ri_data'',
                  rt_bitbytes := f32 ''ri_bitbytes'', rt_rg_bitbytes := f32 ''ri_bitbytes'',
                  rt_flags := 0, rt_free := f32 ''ri_data''\<rparr>;
               rg = set_rt_skip rg_skip (set_rt_dinodes 0 rg)\<lparr>rt_u0 := 0\<rparr>
           in Some (rgs @ [compute_bitmaps rg bsize]))"

definition lgfs2_rgrp_first :: "rgrp_tree list \<Rightarrow> rgrp_tree option" where
  "lgfs2_rgrp_first rgs = (case rgs of [] \<Rightarrow> None | rg # _ \<Rightarrow> Some rg)"

definition lgfs2_rgrp_last :: "rgrp_tree list \<Rightarrow> rgrp_tree option" where
  "lgfs2_rgrp_last rgs = (case rgs of [] \<Rightarrow> None | _ \<Rightarrow> Some (last rgs))"


section \<open>Splitting a group\<close>

lemma unat_blks:
  assumes "512 \<le> unat bsize" "unat bsize \<le> 65536"
  shows "unat (blks_rgrp bsize) = 4 * (unat bsize - 128)" "unat (blks_meta bsize) = 4 * (unat bsize - 24)"
proof -
  have "unat (bsize - 128) = unat bsize - 128" "unat (bsize - 24) = unat bsize - 24"
    using unat_bsize_minus [OF assms(1)] by simp_all
  with assms show "unat (blks_rgrp bsize) = 4 * (unat bsize - 128)" "unat (blks_meta bsize) = 4 * (unat bsize - 24)"
    unfolding blks_rgrp_def blks_meta_def of_nat_sizeof
    by (subst unat_mult_no_wrap; simp)+
qed

text \<open>The loop condition over the natural numbers.\<close>

definition more_bitblocks :: "nat \<Rightarrow> nat \<Rightarrow> nat \<Rightarrow> bool" where
  "more_bitblocks b n k \<longleftrightarrow> 4 * (b - 128) + 4 * (b - 24) * k < (n - k) - (n - k) mod 4"

lemma bitblocks_loop_spec:
  assumes b: "512 \<le> unat bsize" "unat bsize \<le> 65536" and n: "unat n < 2 ^ 31"
    and k: "k \<le> unat n" "4 * (unat bsize - 128) + 4 * (unat bsize - 24) * k < 2 ^ 32"
  shows "\<exists>m. bitblocks_loop bsize n (of_nat k) = Some (of_nat m) \<and> k \<le> m \<and> m \<le> unat n
    \<and> \<not> more_bitblocks (unat bsize) (unat n) m
    \<and> (\<forall>j. k \<le> j \<longrightarrow> j < m \<longrightarrow> more_bitblocks (unat bsize) (unat n) j)"
  using k
proof (induction "unat n - k" arbitrary: k rule: less_induct)
  case less
  have k32: "unat (of_nat k :: u32) = k" using less.prems(1) n by (simp add: unat_of_nat_small)
  have lhs: "unat (blks_rgrp bsize + blks_meta bsize * of_nat k)
      = 4 * (unat bsize - 128) + 4 * (unat bsize - 24) * k"
  proof -
    have "unat (blks_meta bsize * of_nat k) = 4 * (unat bsize - 24) * k"
    proof -
      have "4 * (unat bsize - 24) * k < 2 ^ 32"
        by (rule le_less_trans [OF _ less.prems(2)]) (rule le_add2)
      moreover have "LENGTH(32) = 32" by simp
      ultimately show ?thesis
        using unat_mult_no_wrap [of "blks_meta bsize" "of_nat k"] by (simp only: unat_blks [OF b] k32)
    qed
    with less.prems(2) show ?thesis
      by (subst unat_add_no_wrap) (simp_all add: unat_blks [OF b])
  qed
  have rhs: "unat ((n - of_nat k) AND NOT 3) = (unat n - k) - (unat n - k) mod 4"
  proof -
    have "unat (n - of_nat k) = unat n - k"
      using less.prems(1) by (simp add: unat_sub word_le_nat_alt k32)
    then show ?thesis by (simp only: unat_and_not_3)
  qed
  have cond: "blks_rgrp bsize + blks_meta bsize * of_nat k < (n - of_nat k) AND NOT 3
      \<longleftrightarrow> more_bitblocks (unat bsize) (unat n) k"
    unfolding more_bitblocks_def word_less_nat_alt lhs rhs ..
  show ?case
  proof (cases "more_bitblocks (unat bsize) (unat n) k")
    case False
    then have "bitblocks_loop bsize n (of_nat k) = Some (of_nat k)"
      using cond by (subst bitblocks_loop.simps) simp
    with False less.prems(1) show ?thesis by (intro exI [of _ k]) simp
  next
    case True
    then have step: "bitblocks_loop bsize n (of_nat k) = bitblocks_loop bsize n (of_nat (Suc k))"
      using cond by (subst bitblocks_loop.simps) (simp add: add.commute)
    have lt: "4 * (unat bsize - 128) + 4 * (unat bsize - 24) * k < unat n - k"
      using True unfolding more_bitblocks_def by simp
    then have k': "Suc k \<le> unat n" "unat n - Suc k < unat n - k" by simp_all
    have fits: "4 * (unat bsize - 128) + 4 * (unat bsize - 24) * Suc k < 2 ^ 32"
      using lt n b by simp
    from less.hyps [OF k'(2) k'(1) fits]
    obtain m where m: "bitblocks_loop bsize n (of_nat (Suc k)) = Some (of_nat m)" "Suc k \<le> m"
      "m \<le> unat n" "\<not> more_bitblocks (unat bsize) (unat n) m"
      "\<forall>j. Suc k \<le> j \<longrightarrow> j < m \<longrightarrow> more_bitblocks (unat bsize) (unat n) j"
      by blast
    have "more_bitblocks (unat bsize) (unat n) j" if "k \<le> j" "j < m" for j
      using m(5) True that by (cases "j = k") simp_all
    with m step show ?thesis by (intro exI [of _ m]) simp
  qed
qed

text \<open>Bytes of bitmap in \<open>k\<close> bitmap blocks, in blocks mapped.\<close>

lemma mapped_start: "512 \<le> b \<Longrightarrow> 4 * bm_start b (Suc k) = 4 * (b - 128) + 4 * (b - 24) * k"
proof -
  assume b: "512 \<le> b"
  define c where "c = b - 24"
  have c: "b = c + 24" "488 \<le> c" using b by (simp_all add: c_def)
  show ?thesis using c(2) by (simp add: bm_start_def c(1))
qed

lemma split_arith:
  fixes b n m :: nat
  assumes b: "512 \<le> b" and n: "5 \<le> n" "m < n"
    and stop: "\<not> more_bitblocks b n m" and min: "\<forall>j < m. more_bitblocks b n j"
  defines "d \<equiv> (n - (m + 1)) - (n - (m + 1)) mod 4"
  defines "l \<equiv> (if 4 * bm_start b m < d then Suc m else m)"
  shows "1 \<le> l" "4 * bm_start b (l - 1) < d" "d \<le> 4 * bm_start b l" "l + d \<le> n" "n \<le> l + d + 4" "d mod 4 = 0"
    "\<forall>j p. 1 \<le> j \<longrightarrow> p mod 4 = 0 \<longrightarrow> p \<le> 4 * bm_start b j \<longrightarrow> j + p \<le> n \<longrightarrow> p \<le> d"
proof -
  have up: "(n - m) - (n - m) mod 4 \<le> 4 * bm_start b (Suc m)"
    using stop unfolding more_bitblocks_def mapped_start [OF b] by simp
  have low: "4 * bm_start b m < (n - (m - 1)) - (n - (m - 1)) mod 4" if "1 \<le> m"
    using min [rule_format, of "m - 1"] that mapped_start [OF b, of "m - 1"] unfolding more_bitblocks_def by simp
  have dn: "d \<le> n - (m + 1)" "n - (m + 1) < d + 4" "d \<le> (n - m) - (n - m) mod 4"
    unfolding d_def using mod_less_divisor [of 4 "n - (m + 1)"]
    by (simp_all add: minus_mod_eq_mult_div div_le_mono mult_le_mono)
  show "d mod 4 = 0" by (simp add: d_def minus_mod_eq_mult_div)
  show "1 \<le> l"
  proof (cases "m = 0")
    case True
    then have "0 < d" unfolding d_def using n by (simp add: minus_mod_eq_mult_div div_greater_zero_iff)
    with True show ?thesis by (simp add: l_def)
  qed (simp add: l_def)
  show "4 * bm_start b (l - 1) < d"
  proof (cases "4 * bm_start b m < d")
    case True
    then show ?thesis by (simp add: l_def)
  next
    case False
    then have l: "l = m" by (simp add: l_def)
    with \<open>1 \<le> l\<close> have m: "1 \<le> m" by simp
    have "bm_start b m = bm_start b (m - 1) + (b - bm_hdr (m - 1))"
      using bm_start_Suc [OF b, of "m - 1"] m by simp
    moreover have "128 \<le> b - bm_hdr (m - 1)" using b by (auto simp: bm_hdr_def)
    moreover have "4 * bm_start b m < n - (m - 1)" using low [OF m] by (rule less_le_trans) simp
    moreover have "n - (m - 1) \<le> n - (m + 1) + 2" by simp
    ultimately show ?thesis using dn(2) unfolding l by linarith
  qed
  show "d \<le> 4 * bm_start b l" using dn(3) up by (auto simp: l_def)
  show "l + d \<le> n" using dn(1) n(2) by (auto simp: l_def)
  show "n \<le> l + d + 4" using dn(2) by (auto simp: l_def)
  show "\<forall>j p. 1 \<le> j \<longrightarrow> p mod 4 = 0 \<longrightarrow> p \<le> 4 * bm_start b j \<longrightarrow> j + p \<le> n \<longrightarrow> p \<le> d"
  proof (intro allI impI)
    fix j p assume p: "1 \<le> j" "p mod 4 = 0" "p \<le> 4 * bm_start b j" "j + p \<le> n"
    show "p \<le> d"
    proof (cases "m < j")
      case True
      then have "p \<le> n - (m + 1)" using p(4) by simp
      with p(2) \<open>d mod 4 = 0\<close> dn(2) show ?thesis by presburger
    next
      case False
      then have m: "1 \<le> m" and "p \<le> 4 * bm_start b m"
        using p(1,3) bm_start_mono [OF b, of j m] by simp_all
      moreover have "bm_start b m \<le> d div 4"
      proof -
        have "4 * bm_start b m < 4 * ((n - (m - 1)) div 4)"
          using low [OF m] by (simp add: minus_mod_eq_mult_div)
        then have "4 * bm_start b m + 4 \<le> 4 * ((n - (m - 1)) div 4)" by simp
        also have "\<dots> \<le> n - (m - 1)" by simp
        finally have "4 * bm_start b m + 2 \<le> n - (m + 1)" by simp
        then have "bm_start b m < Suc (d div 4)" using dn(2) \<open>d mod 4 = 0\<close> by presburger
        then show ?thesis by simp
      qed
      moreover have "4 * (d div 4) = d" using \<open>d mod 4 = 0\<close> by presburger
      ultimately show ?thesis by linarith
    qed
  qed
qed


lemma rgblocks2bitblocks_spec:
  assumes b: "512 \<le> unat bsize" "unat bsize \<le> 65536" and n: "5 \<le> unat n" "unat n < 2 ^ 31"
  shows "\<exists>l d. rgblocks2bitblocks bsize n = Some (l, d)
    \<and> 1 \<le> unat l \<and> 4 * bm_start (unat bsize) (unat l - 1) < unat d \<and> unat d \<le> 4 * bm_start (unat bsize) (unat l)
    \<and> unat l + unat d \<le> unat n \<and> unat n \<le> unat l + unat d + 4 \<and> unat d mod 4 = 0
    \<and> (\<forall>j p. 1 \<le> j \<longrightarrow> p mod 4 = 0 \<longrightarrow> p \<le> 4 * bm_start (unat bsize) j \<longrightarrow> j + p \<le> unat n \<longrightarrow> p \<le> unat d)"
proof -
  obtain m where m: "bitblocks_loop bsize n 0 = Some (of_nat m)" "m \<le> unat n"
    "\<not> more_bitblocks (unat bsize) (unat n) m" "\<forall>j < m. more_bitblocks (unat bsize) (unat n) j"
  proof -
    have "4 * (unat bsize - 128) + 4 * (unat bsize - 24) * 0 < (2 :: nat) ^ 32" using b by simp
    from bitblocks_loop_spec [OF b n(2) le0 this] show thesis using that by auto
  qed
  have mn: "m < unat n"
  proof (rule ccontr)
    assume "\<not> m < unat n"
    with m(2) n(1) m(4) [rule_format, of "unat n - 1"] show False by (simp add: more_bitblocks_def)
  qed
  have m32: "unat (of_nat m :: u32) = m" using m(2) n(2) by (simp add: unat_of_nat_small)
  let ?d = "(unat n - (m + 1)) - (unat n - (m + 1)) mod 4"
  have d: "unat ((n - (of_nat m + 1)) AND NOT 3) = ?d"
  proof -
    have m1: "unat (of_nat m + 1 :: u32) = m + 1"
      using mn n(2) by (subst unat_add_no_wrap) (simp_all add: m32)
    then have "unat (n - (of_nat m + 1)) = unat n - (m + 1)"
      using mn by (simp add: unat_sub word_le_nat_alt)
    then show ?thesis by (simp only: unat_and_not_3)
  qed
  have map: "unat (if 0 < (of_nat m :: u32) then blks_rgrp bsize + blks_meta bsize * (of_nat m - 1) else 0)
      = 4 * bm_start (unat bsize) m"
  proof (cases m)
    case 0
    then show ?thesis by simp
  next
    case (Suc k)
    have "4 * (unat bsize - 128) + 4 * (unat bsize - 24) * k < unat n"
      using m(4) [rule_format, of k] Suc unfolding more_bitblocks_def by simp
    then have small: "4 * (unat bsize - 128) + 4 * (unat bsize - 24) * k < 2 ^ 32" using n(2) by simp
    have k32: "unat (of_nat k :: u32) = k" using Suc m32 mn n(2) by (simp add: unat_of_nat_small)
    have "4 * (unat bsize - 24) * k < 2 ^ 32" by (rule le_less_trans [OF _ small]) (rule le_add2)
    moreover have len: "LENGTH(32) = 32" by simp
    ultimately have "unat (blks_meta bsize * of_nat k) = 4 * (unat bsize - 24) * k"
      using unat_mult_no_wrap [of "blks_meta bsize" "of_nat k"] by (simp only: unat_blks [OF b] k32)
    with small len have "unat (blks_rgrp bsize + blks_meta bsize * of_nat k) = 4 * bm_start (unat bsize) m"
      using unat_add_no_wrap [of "blks_rgrp bsize" "blks_meta bsize * of_nat k"]
      by (simp only: unat_blks [OF b] Suc mapped_start [OF b(1)])
    moreover have "(of_nat m - 1 :: u32) = of_nat k" "0 < (of_nat m :: u32)"
      using Suc m32 by (simp_all add: word_less_nat_alt)
    ultimately show ?thesis by simp
  qed
  define l where "l = (if 4 * bm_start (unat bsize) m < ?d then Suc m else m)"
  define mp where "mp = (if 0 < (of_nat m :: u32) then blks_rgrp bsize + blks_meta bsize * (of_nat m - 1) else 0)"
  define dd where "dd = (n - (of_nat m + 1)) AND NOT 3"
  have cmp: "mp < dd \<longleftrightarrow> 4 * bm_start (unat bsize) m < ?d"
    unfolding word_less_nat_alt using d map by (simp only: mp_def dd_def)
  have m1: "unat (of_nat m + 1 :: u32) = Suc m"
    using mn n(2) by (subst unat_add_no_wrap) (simp_all add: m32)
  have l32: "unat (if mp < dd then of_nat m + 1 else of_nat m :: u32) = l"
    using cmp m1 m32 by (simp add: l_def)
  define ll where "ll = (if mp < dd then of_nat m + 1 else of_nat m :: u32)"
  have res: "rgblocks2bitblocks bsize n = Some (ll, dd)"
    by (simp add: rgblocks2bitblocks_def m(1) Let_def mp_def dd_def ll_def)
  note sa = split_arith [OF b(1) n(1) mn m(3,4), folded l_def, folded d, folded dd_def, folded l32, folded ll_def]
  show ?thesis by (intro exI conjI) (rule res sa)+
qed


section \<open>Sizing a group for data\<close>

lemma unat_round_up_4:
  "unat (q :: u64) + 3 < 2 ^ 64 \<Longrightarrow> unat ((q + 3) AND NOT 3) = (unat q + 3) - (unat q + 3) mod 4"
proof -
  assume "unat q + 3 < 2 ^ 64"
  then have "unat (q + 3) = unat q + 3" by (subst unat_add_no_wrap) simp_all
  then show ?thesis by (simp only: unat_and_not_3)
qed

lemma rgsize_for_data_spec:
  assumes b: "512 \<le> unat bsize" "unat bsize \<le> 65536" and q: "1 \<le> unat q" "unat q < 2 ^ 29"
  shows "\<exists>l d. rgblocks2bitblocks bsize (lgfs2_rgsize_for_data q bsize) = Some (l, d) \<and> unat q \<le> unat d
    \<and> 5 \<le> unat (lgfs2_rgsize_for_data q bsize) \<and> unat (lgfs2_rgsize_for_data q bsize) < 2 ^ 31"
proof -
  define p where "p = (unat q + 3) - (unat q + 3) mod 4"
  define g h where "g = 4 * (unat bsize - 128)" and "h = 4 * (unat bsize - 24)"
  define k where "k = (if g < p then 1 + (p - g + h - 1) div h else 1)"
  have gh: "1536 \<le> g" "g \<le> 2 ^ 20" "1952 \<le> h" "h \<le> 2 ^ 20" using b by (simp_all add: g_def h_def)
  have p: "unat q \<le> p" "p \<le> unat q + 3" "p mod 4 = 0" "4 \<le> p"
    using q(1) unfolding p_def by presburger+
  have k: "p \<le> g + h * (k - 1) \<and> 1 \<le> k \<and> k \<le> p"
  proof (cases "g < p")
    case True
    have "p - g + h - 1 < h * ((p - g + h - 1) div h) + h"
      using gh(3) dividend_less_times_div [of h "p - g + h - 1"] by (simp add: add.commute)
    then have "p - g \<le> h * (k - 1)" using True gh(3) by (simp add: k_def)
    moreover have "(p - g + h - 1) div h \<le> p - g"
    proof -
      have "p - g \<le> h * (p - g)" using gh(3) by simp
      then have "p - g + h - 1 < h * Suc (p - g)" using True gh(3) by (simp only: mult_Suc_right)
      then show ?thesis by (metis less_Suc_eq_le less_mult_imp_div_less mult.commute)
    qed
    moreover have "k = Suc ((p - g + h - 1) div h)" using True by (simp add: k_def)
    ultimately show ?thesis using True gh(1) by auto
  qed (use p in \<open>simp add: k_def\<close>)
  define rr where "rr = (q + 3) AND NOT 3"
  have q4: "unat rr = p" unfolding rr_def p_def using q(2) by (intro unat_round_up_4) simp
  have g64: "unat (ucast (blks_rgrp bsize) :: u64) = g" "unat (ucast (blks_meta bsize) :: u64) = h"
    using unat_blks [OF b] by (simp_all add: unat_ucast_up g_def h_def)
  have size: "unat (lgfs2_rgsize_for_data q bsize) = k + p"
  proof -
    let ?x = "rr - ucast (blks_rgrp bsize) + ucast (blks_meta bsize) - 1"
    have x: "unat (?x div ucast (blks_meta bsize)) = (p - g + h - 1) div h" if "g < p"
    proof -
      have "unat (rr - ucast (blks_rgrp bsize)) = p - g"
        using that by (simp add: unat_sub word_le_nat_alt q4 g64)
      moreover from this have "unat (rr - ucast (blks_rgrp bsize) + ucast (blks_meta bsize)) = p - g + h"
        using p q gh by (subst unat_add_no_wrap) (simp_all add: g64)
      ultimately have "unat ?x = p - g + h - 1"
        using gh by (subst unat_sub) (simp_all add: word_le_nat_alt)
      then show ?thesis by (simp only: unat_div g64)
    qed
    define bb where "bb = (if ucast (blks_rgrp bsize) < rr
        then 1 + ucast (?x div ucast (blks_meta bsize)) else 1 :: u32)"
    have cmp: "ucast (blks_rgrp bsize) < rr \<longleftrightarrow> g < p" by (simp only: word_less_nat_alt q4 g64)
    have bb: "unat bb = k"
    proof (cases "g < p")
      case True
      then have "(p - g + h - 1) div h < k" by (simp add: k_def)
      then have "unat (ucast (?x div ucast (blks_meta bsize)) :: u32) = (p - g + h - 1) div h"
        using k p q x [OF True] by (simp add: unat_ucast_mod)
      with True cmp k p q show ?thesis
        by (simp add: bb_def) (subst unat_add_no_wrap; simp add: k_def)
    qed (simp add: bb_def cmp k_def)
    have "unat (ucast bb + rr) = k + p"
      using k p q by (subst unat_add_no_wrap) (simp_all add: unat_ucast_up bb q4)
    then have "unat (ucast (ucast bb + rr) :: u32) = k + p"
      using k p q by (simp add: unat_ucast_mod)
    then show ?thesis by (simp only: lgfs2_rgsize_for_data_def Let_def bb_def rr_def)
  qed
  have big: "5 \<le> k + p" "k + p < 2 ^ 31" using k p q by auto
  have "p \<le> 4 * bm_start (unat bsize) k"
    using mapped_start [OF b(1), of "k - 1"] k by (simp add: g_def h_def)
  with rgblocks2bitblocks_spec [OF b, of "lgfs2_rgsize_for_data q bsize"] size big k p(3)
  obtain l d where "rgblocks2bitblocks bsize (lgfs2_rgsize_for_data q bsize) = Some (l, d)" "p \<le> unat d"
    by auto
  then show ?thesis using size big p(1) by auto
qed


section \<open>The plan fills the space\<close>

lemma unat_ucast_prod: "unat (ucast (a :: u32) * ucast (b :: u32) :: u64) = unat a * unat b"
proof -
  have "unat a * unat b < 2 ^ 32 * 2 ^ 32"
    using u32_lt [of a] u32_lt [of b] by (intro mult_strict_mono) simp_all
  then show ?thesis by (subst unat_mult_no_wrap) (simp_all add: unat_ucast_up)
qed

lemma plan_reduce_spec:
  assumes "0 < unat adj" "unat adj \<le> unat l" "unat space \<le> unat l * unat num"
    and under: "\<And>x. x + unat adj \<le> unat l \<Longrightarrow> x < unat adj \<Longrightarrow> x * unat num < unat space"
  shows "\<exists>r. plan_reduce space adj num l = Some r \<and> unat adj \<le> unat r \<and> unat r \<le> unat l
    \<and> unat space \<le> unat r * unat num \<and> (unat r - unat adj) * unat num < unat space"
  using assms(2-4)
proof (induction "unat l" arbitrary: l rule: less_induct)
  case less
  have sub: "unat (l - adj) = unat l - unat adj"
    using less.prems(1) by (simp add: unat_sub word_le_nat_alt)
  have cond: "space \<le> ucast (l - adj) * ucast num \<longleftrightarrow> unat space \<le> (unat l - unat adj) * unat num"
    by (simp only: word_le_nat_alt unat_ucast_prod sub)
  show ?case
  proof (cases "unat space \<le> (unat l - unat adj) * unat num")
    case False
    then have "plan_reduce space adj num l = Some l" using cond by (subst plan_reduce.simps) simp
    with False less.prems show ?thesis by (intro exI [of _ l]) simp
  next
    case True
    then have step: "plan_reduce space adj num l = plan_reduce space adj num (l - adj)"
      using cond by (subst plan_reduce.simps) simp
    have "\<not> unat l - unat adj < unat adj"
      using less.prems(3) [of "unat l - unat adj"] less.prems(1) True by auto
    then have "\<exists>r. plan_reduce space adj num (l - adj) = Some r \<and> unat adj \<le> unat r \<and> unat r \<le> unat (l - adj)
        \<and> unat space \<le> unat r * unat num \<and> (unat r - unat adj) * unat num < unat space"
      using less.prems assms(1) True by (intro less.hyps) (simp_all add: sub)
    then show ?thesis using step sub by auto
  qed
qed

lemma plan_shift_spec:
  assumes "unat l1 + a = unat l0" "unat l0 * unat n0 + unat l1 * unat n1 < 2 ^ 32"
    and "unat n0 + unat n1 < 2 ^ 32" "unat l1 * (unat n0 + unat n1) < unat space"
  shows "\<exists>m0 m1. plan_shift space l0 l1 n0 n1 = Some (m0, m1) \<and> unat m0 + unat m1 = unat n0 + unat n1
    \<and> unat l0 * unat m0 + unat l1 * unat m1 < unat space
    \<and> (unat space \<le> unat l0 * unat n0 + unat l1 * unat n1 + a
        \<longrightarrow> unat space \<le> unat l0 * unat m0 + unat l1 * unat m1 + a)"
  using assms(2-4)
proof (induction "unat n0" arbitrary: n0 n1)
  case 0
  have sum: "unat (l0 * n0 + l1 * n1) = unat l0 * unat n0 + unat l1 * unat n1"
    using 0 by (subst unat_add_no_wrap; (subst unat_mult_no_wrap)?)+ (simp_all add: unat_mult_no_wrap)
  then have "\<not> space \<le> ucast (l0 * n0 + l1 * n1)"
    using 0 by (simp add: word_le_nat_alt unat_ucast_up)
  then have "plan_shift space l0 l1 n0 n1 = Some (n0, n1)" by (subst plan_shift.simps) simp
  with 0 show ?case by auto
next
  case (Suc k)
  let ?t = "unat l0 * unat n0 + unat l1 * unat n1"
  have p: "unat (l0 * n0) = unat l0 * unat n0" "unat (l1 * n1) = unat l1 * unat n1"
    using Suc.prems(1) by (simp_all add: unat_mult_no_wrap)
  then have sum: "unat (l0 * n0 + l1 * n1) = ?t"
    using Suc.prems(1) by (subst unat_add_no_wrap) simp_all
  have cond: "space \<le> ucast (l0 * n0 + l1 * n1) \<longleftrightarrow> unat space \<le> ?t"
    by (simp add: word_le_nat_alt unat_ucast_up sum)
  show ?case
  proof (cases "unat space \<le> ?t")
    case False
    then have "plan_shift space l0 l1 n0 n1 = Some (n0, n1)" using cond by (subst plan_shift.simps) simp
    with False show ?thesis by auto
  next
    case True
    have m: "unat (n0 - 1) = k" "unat (n1 + 1) = Suc (unat n1)"
      using Suc.hyps(2) Suc.prems(2) by (simp add: unat_sub word_le_nat_alt, subst unat_add_no_wrap) simp_all
    have t: "unat l0 * unat (n0 - 1) + unat l1 * unat (n1 + 1) + a = ?t"
      using assms(1) unfolding m Suc.hyps(2) [symmetric] by simp
    have step: "plan_shift space l0 l1 n0 n1 = plan_shift space l0 l1 (n0 - 1) (n1 + 1)"
      using True cond by (subst plan_shift.simps) simp
    have "\<exists>m0 m1. plan_shift space l0 l1 (n0 - 1) (n1 + 1) = Some (m0, m1)
        \<and> unat m0 + unat m1 = unat (n0 - 1) + unat (n1 + 1)
        \<and> unat l0 * unat m0 + unat l1 * unat m1 < unat space
        \<and> (unat space \<le> unat l0 * unat (n0 - 1) + unat l1 * unat (n1 + 1) + a
            \<longrightarrow> unat space \<le> unat l0 * unat m0 + unat l1 * unat m1 + a)"
    proof (rule Suc.hyps(1))
      show "k = unat (n0 - 1)" using m by simp
      show "unat l0 * unat (n0 - 1) + unat l1 * unat (n1 + 1) < 2 ^ 32" using t Suc.prems(1) by linarith
      have s: "unat (n0 - 1) + unat (n1 + 1) = unat n0 + unat n1" using m Suc.hyps(2) by simp
      show "unat (n0 - 1) + unat (n1 + 1) < 2 ^ 32" using s Suc.prems(2) by (simp only:)
      show "unat l1 * (unat (n0 - 1) + unat (n1 + 1)) < unat space" using s Suc.prems(3) by (simp only:)
    qed
    then show ?thesis using step t True m Suc.hyps(2) by auto
  qed
qed


lemma no_underflow:
  fixes l a s x :: nat
  assumes "l \<le> s" "0 < l" "x + a \<le> l" "x < a"
  shows "x * Suc (s div l) < s"
proof -
  have "2 * x < l" using assms(3,4) by simp
  have "2 * (x * (s div l)) \<le> l * (s div l)"
    using \<open>2 * x < l\<close> by (simp flip: mult.assoc)
  also have "\<dots> \<le> s" by simp
  finally have "2 * (x * (s div l)) \<le> s" .
  moreover have "2 * x < s" using \<open>2 * x < l\<close> assms(1) by simp
  ultimately show ?thesis by simp
qed

lemma align_block_spec:
  assumes "unat b + unat a < 2 ^ 32"
  shows "unat (align_block b a) mod unat a = 0 \<or> unat a = 0" "unat b \<le> unat (align_block b a)"
    "unat (align_block b a) \<le> unat b + unat a"
    "unat a dvd m \<Longrightarrow> unat b \<le> m \<Longrightarrow> unat (align_block b a) \<le> m"
proof -
  let ?b = "unat b" and ?a = "unat a"
  have eq: "unat (align_block b a) = (if 0 < ?a \<and> 0 < ?b mod ?a then ?b - ?b mod ?a + ?a else ?b)"
  proof (cases "0 < ?a \<and> 0 < ?b mod ?a")
    case True
    have m: "unat (b - b mod a) = ?b - ?b mod ?a"
      by (simp add: unat_sub word_le_nat_alt unat_mod)
    have "unat (b - b mod a + a) = ?b - ?b mod ?a + ?a"
      using assms m by (subst unat_add_no_wrap) (auto intro: le_less_trans [OF add_right_mono [OF diff_le_self]])
    with True show ?thesis by (simp add: align_block_def word_less_nat_alt unat_mod)
  next
    case False
    then show ?thesis by (auto simp: align_block_def word_less_nat_alt unat_mod)
  qed
  have up: "?b - ?b mod ?a + ?a = ?a * Suc (?b div ?a)" by (simp add: minus_mod_eq_mult_div)
  show "unat (align_block b a) mod ?a = 0 \<or> ?a = 0" by (auto simp: eq up)
  have lt: "?b mod ?a < ?a \<and> ?b mod ?a \<le> ?b" if "0 < ?a" using that by simp
  show "?b \<le> unat (align_block b a)"
  proof (cases "0 < ?a")
    case True
    with lt show ?thesis unfolding eq by (simp only: split: if_split) linarith
  qed (simp add: eq)
  show "unat (align_block b a) \<le> ?b + ?a" by (simp add: eq)
  show "unat (align_block b a) \<le> m" if "?a dvd m" "?b \<le> m"
  proof (cases "0 < ?a \<and> 0 < ?b mod ?a")
    case True
    from \<open>?a dvd m\<close> obtain k where k: "m = ?a * k" by (elim dvdE)
    have "?b \<noteq> m" using True k by auto
    then have "?b div ?a < k" using that(2) True k by (simp add: div_less_iff_less_mult mult.commute)
    then have "?a * Suc (?b div ?a) \<le> ?a * k" by (intro mult_le_mono2) simp
    then show ?thesis using True k by (simp add: eq up)
  qed (use that eq in auto)
qed

lemma align_len_spec:
  fixes t :: u32 and rgs :: lgfs2_rgrps
  defines "A \<equiv> unat (rgs_align rgs)" and "off \<equiv> unat (rgs_align_off rgs)"
  assumes "unat t + unat (rgs_align rgs) + unat (rgs_align_off rgs) < 2 ^ 32"
  shows "\<exists>n. unat (lgfs2_rgrp_align_len rgs t) = n + off \<and> unat t \<le> n \<and> n \<le> unat t + A \<and> (A dvd n \<or> A = 0)
    \<and> (\<forall>m. A dvd m \<longrightarrow> unat t \<le> m \<longrightarrow> n \<le> m)"
proof -
  let ?n = "unat (align_block (ucast t) (rgs_align rgs))"
  have u: "unat (ucast t :: u64) = unat t" by (simp add: unat_ucast_up)
  note ab = align_block_spec [of "ucast t" "rgs_align rgs", unfolded u]
  have lim: "unat t + unat (rgs_align rgs) < 2 ^ 32" using assms(3) by linarith
  have "unat (lgfs2_rgrp_align_len rgs t) = ?n + off"
  proof -
    have "?n + off < 2 ^ 32" using ab(3) [OF lim] assms(3) by (simp add: off_def)
    moreover from this have "unat (align_block (ucast t) (rgs_align rgs) + rgs_align_off rgs) = ?n + off"
      unfolding off_def by (subst unat_add_no_wrap) simp_all
    ultimately show ?thesis by (simp add: lgfs2_rgrp_align_len_def unat_ucast_mod)
  qed
  then show ?thesis using ab [OF lim] by (intro exI [of _ ?n]) (auto simp: A_def dvd_eq_mod_eq_0)
qed

text \<open>The clamp ends: while the aligned length is above the maximum the target is more than two
  alignment units, so it neither wraps around nor reaches zero when it is lowered by one unit and a
  block.\<close>

lemma plan_clamp_spec:
  fixes t :: u32
  assumes "0 < unat t" "unat t + unat (rgs_align rgs) + unat (rgs_align_off rgs) < 2 ^ 32"
    and M: "2 * unat (rgs_align rgs) + unat (rgs_align_off rgs) < unat maxlen"
  shows "\<exists>l. plan_clamp rgs maxlen t = Some l \<and> l \<le> maxlen \<and> unat (rgs_align rgs) \<le> unat l \<and> 0 < unat l
    \<and> unat l \<le> unat (lgfs2_rgrp_align_len rgs t)"
  using assms(1,2)
proof (induction "unat t" arbitrary: t rule: less_induct)
  case less
  let ?A = "unat (rgs_align rgs)" and ?O = "unat (rgs_align_off rgs)"
  obtain n where n: "unat (lgfs2_rgrp_align_len rgs t) = n + ?O" "unat t \<le> n" "n \<le> unat t + ?A"
      "?A dvd n \<or> ?A = 0" "\<And>m. ?A dvd m \<Longrightarrow> unat t \<le> m \<Longrightarrow> n \<le> m"
    using align_len_spec [OF less.prems(2)] by blast
  show ?case
  proof (cases "maxlen < lgfs2_rgrp_align_len rgs t")
    case False
    have "?A \<le> n" using n(2,4) less.prems(1) by (auto dest: dvd_imp_le)
    moreover have "plan_clamp rgs maxlen t = Some (lgfs2_rgrp_align_len rgs t)"
      using False by (subst plan_clamp.simps) (simp add: Let_def)
    ultimately show ?thesis using False n(1,2) less.prems(1) by auto
  next
    case True
    define t' where "t' = (ucast (ucast t - (rgs_align rgs + 1) :: u64) :: u32)"
    have big: "2 * ?A < n" using True M n(1) by (simp add: word_less_nat_alt)
    have "2 * ?A < unat t"
    proof (rule ccontr)
      assume "\<not> 2 * ?A < unat t"
      then have "n \<le> 2 * ?A" by (intro n(5)) simp_all
      with big show False by simp
    qed
    moreover have "Suc 0 < unat t" if "?A = 0"
      using True M n(1) n(3) that by (simp add: word_less_nat_alt)
    ultimately have room: "?A + 1 < unat t" by (cases "?A = 0") auto
    have t': "unat t' = unat t - (?A + 1)"
    proof -
      have a1: "unat (rgs_align rgs + 1) = ?A + 1"
        using less.prems(2) by (subst unat_add_no_wrap) simp_all
      have "unat (ucast t - (rgs_align rgs + 1) :: u64) = unat t - (?A + 1)"
        using a1 room by (subst unat_sub) (simp_all add: word_le_nat_alt unat_ucast_up)
      then show ?thesis using u32_lt [of t] by (simp add: t'_def unat_ucast_mod)
    qed
    have lim: "unat t' + ?A + ?O < 2 ^ 32" using t' less.prems(2) by linarith
    obtain l where l: "plan_clamp rgs maxlen t' = Some l" "l \<le> maxlen" "?A \<le> unat l" "0 < unat l"
        "unat l \<le> unat (lgfs2_rgrp_align_len rgs t')"
      using less.hyps [of t'] t' room lim by auto
    obtain n' where n': "unat (lgfs2_rgrp_align_len rgs t') = n' + ?O" "n' \<le> unat t' + ?A"
      using align_len_spec [OF lim] by blast
    have "unat (lgfs2_rgrp_align_len rgs t') \<le> unat (lgfs2_rgrp_align_len rgs t)"
      using n n' t' room by linarith
    moreover have "plan_clamp rgs maxlen t = plan_clamp rgs maxlen t'"
      using True by (subst plan_clamp.simps) (simp add: Let_def t'_def)
    ultimately show ?thesis using l by auto
  qed
qed

lemma plan_spec:
  assumes clamp: "plan_clamp rgs (0x80000000 div bsize) tgtsize = Some l0"
    and l0: "l0 \<le> 0x80000000 div bsize" "512 \<le> unat bsize"
    and sp: "unat l0 \<le> unat space" "unat space < 2 ^ 30" and al: "unat (rgs_align rgs) \<le> unat l0" "0 < unat l0"
    and fresh: "spec_num (plan1 rgs) = 0"
  shows "\<exists>rgs' n. lgfs2_rgrps_plan bsize rgs space tgtsize = Some (rgs', n)
    \<and> (let total = unat (spec_len (plan0 rgs')) * unat (spec_num (plan0 rgs'))
                  + unat (spec_len (plan1 rgs')) * unat (spec_num (plan1 rgs'))
       in total \<le> unat space \<and> unat space \<le> total + max 1 (unat (rgs_align rgs)))
    \<and> spec_len (plan0 rgs') \<le> l0
    \<and> (spec_num (plan1 rgs') = 0
        \<or> unat (spec_len (plan1 rgs')) + max 1 (unat (rgs_align rgs)) = unat (spec_len (plan0 rgs')))
    \<and> n = (if spec_len (plan0 rgs') < 0x2000000 div bsize then 0
            else spec_num (plan0 rgs') + spec_num (plan1 rgs'))"
proof -
  let ?S = "unat space" and ?L = "unat l0" and ?A = "unat (rgs_align rgs)"
  define n0 where "n0 = (ucast (space div ucast l0) :: u32)"
  have n0: "unat n0 = ?S div ?L"
  proof -
    have "unat (ucast l0 :: u64) = ?L" by (simp add: unat_ucast_up)
    then have "unat (space div ucast l0) = ?S div ?L" by (simp only: unat_div)
    moreover have "?S div ?L < 2 ^ 32"
      by (rule le_less_trans [OF div_le_dividend]) (use sp(2) in simp)
    ultimately show ?thesis by (simp add: n0_def unat_ucast_mod)
  qed
  have prod_le: "?S div ?L * ?L \<le> ?S" by simp
  have prod: "unat (n0 * l0) = ?S div ?L * ?L"
  proof -
    have "?S div ?L * ?L < 2 ^ 32" by (rule le_less_trans [OF prod_le]) (use sp(2) in simp)
    then show ?thesis using n0 by (subst unat_mult_no_wrap) simp_all
  qed
  have left: "unat (space - ucast (n0 * l0)) = ?S - ?S div ?L * ?L"
    using prod_le prod by (simp add: unat_sub word_le_nat_alt unat_ucast_up)
  have cond: "rgs_align rgs < space - ucast (n0 * l0) \<longleftrightarrow> ?A < ?S - ?S div ?L * ?L"
    by (simp only: word_less_nat_alt left)
  show ?thesis
  proof (cases "?A < ?S - ?S div ?L * ?L")
    case False
    then have "lgfs2_rgrps_plan bsize rgs space tgtsize
        = Some (let r = rgs\<lparr>plan0 := \<lparr>spec_len = l0, spec_num = n0\<rparr>\<rparr>
                in (r, if l0 < 0x2000000 div bsize then 0 else n0 + spec_num (plan1 rgs)))"
      using cond by (simp add: lgfs2_rgrps_plan_def clamp Let_def flip: n0_def)
    moreover have "?S \<le> ?S div ?L * ?L + max 1 ?A" using False by simp
    ultimately show ?thesis using fresh n0 prod_le by (simp add: Let_def mult.commute)
  next
    case True
    define adj where "adj = (if 0 < rgs_align rgs then ucast (rgs_align rgs) else 1 :: u32)"
    have adj: "unat adj = max 1 ?A" "unat adj \<le> ?L"
      using al u32_lt [of l0] by (auto simp: adj_def unat_ucast_mod word_less_nat_alt max_def)
    have "?S div ?L < 2 ^ 30" by (rule le_less_trans [OF div_le_dividend sp(2)])
    then have n1: "unat (n0 + 1) = Suc (?S div ?L)"
      using n0 by (subst unat_add_no_wrap) simp_all
    have enough: "?S \<le> ?L * Suc (?S div ?L)"
      using dividend_less_times_div [of ?L ?S] al(2) by simp
    obtain r where r: "plan_reduce space adj (n0 + 1) l0 = Some r" "unat adj \<le> unat r" "unat r \<le> ?L"
      "?S \<le> unat r * Suc (?S div ?L)" "(unat r - unat adj) * Suc (?S div ?L) < ?S"
    proof -
      have pos: "0 < unat adj" using adj(1) by simp
      have fits: "?S \<le> ?L * unat (n0 + 1)" using enough by (simp only: n1)
      have under: "x * unat (n0 + 1) < ?S" if "x + unat adj \<le> ?L" "x < unat adj" for x
        using no_underflow [OF sp(1) al(2) that] by (simp only: n1)
      show thesis
        using plan_reduce_spec [OF pos adj(2) fits under] that unfolding n1 by blast
    qed
    have l1: "unat (r - adj) = unat r - unat adj" using r(2) by (simp add: unat_sub word_le_nat_alt)
    have Lmax: "?L \<le> 2 ^ 22"
    proof -
      have "?L \<le> 0x80000000 div unat bsize" using l0(1) by (simp add: word_le_nat_alt unat_div)
      also have "\<dots> \<le> 0x80000000 div 512" using l0(2) by (intro div_le_mono2) simp_all
      finally show ?thesis by simp
    qed
    have top: "unat r * Suc (?S div ?L) \<le> ?S + 2 ^ 22"
    proof -
      have "unat r * Suc (?S div ?L) \<le> ?L * Suc (?S div ?L)" using r(3) by (rule mult_le_mono1)
      also have "\<dots> = ?S div ?L * ?L + ?L" by (simp add: mult.commute)
      finally show ?thesis using prod_le Lmax by linarith
    qed
    have "\<exists>m0 m1. plan_shift space r (r - adj) (n0 + 1) 0 = Some (m0, m1)
        \<and> unat m0 + unat m1 = unat (n0 + 1) + unat (0 :: u32)
        \<and> unat r * unat m0 + unat (r - adj) * unat m1 < unat space
        \<and> (unat space \<le> unat r * unat (n0 + 1) + unat (r - adj) * unat (0 :: u32) + unat adj
            \<longrightarrow> unat space \<le> unat r * unat m0 + unat (r - adj) * unat m1 + unat adj)"
    proof (rule plan_shift_spec)
      show "unat (r - adj) + unat adj = unat r" using r(2) l1 by simp
      show "unat r * unat (n0 + 1) + unat (r - adj) * unat (0 :: u32) < 2 ^ 32"
        using top sp(2) by (simp add: n1)
      show "unat (n0 + 1) + unat (0 :: u32) < 2 ^ 32" using u32_lt [of "n0 + 1"] by simp
      show "unat (r - adj) * (unat (n0 + 1) + unat (0 :: u32)) < unat space"
        using r(5) by (simp add: n1 l1)
    qed
    then obtain m0 m1 where m: "plan_shift space r (r - adj) (n0 + 1) 0 = Some (m0, m1)"
      "unat r * unat m0 + unat (r - adj) * unat m1 < unat space"
      "unat space \<le> unat r * unat m0 + unat (r - adj) * unat m1 + unat adj"
      using r(4) by (auto simp: n1)
    have "lgfs2_rgrps_plan bsize rgs space tgtsize
        = Some (let rg = rgs\<lparr>plan0 := \<lparr>spec_len = r, spec_num = m0\<rparr>, plan1 := \<lparr>spec_len = r - adj, spec_num = m1\<rparr>\<rparr>
                in (rg, if r < 0x2000000 div bsize then 0 else m0 + m1))"
      using True cond r(1) m(1) by (simp add: lgfs2_rgrps_plan_def clamp Let_def flip: n0_def adj_def)
    moreover have "unat (r - adj) + max 1 ?A = unat r" using r(2) l1 adj(1) by simp
    ultimately show ?thesis using m(2,3) adj(1) r(3) by (simp add: Let_def word_le_nat_alt)
  qed
qed


section \<open>New groups\<close>

lemma rindex_new_fields:
  assumes new: "lgfs2_rindex_entry_new bsize devlen rgs ri addr len = Some (next, rgs', ri')"
    and ok: "addr < next" and ri: "length ri = 96"
  shows "\<exists>n l d. next = addr + ucast n \<and> unat next \<le> unat devlen \<and> unat next = unat addr + unat n
    \<and> rgblocks2bitblocks bsize n = Some (l, d)
    \<and> get_be64 ri' (offsetof struct_gfs2_rindex ''ri_addr'') = addr
    \<and> get_be32 ri' (offsetof struct_gfs2_rindex ''ri_length'') = l
    \<and> get_be64 ri' (offsetof struct_gfs2_rindex ''ri_data0'') = addr + ucast l
    \<and> get_be32 ri' (offsetof struct_gfs2_rindex ''ri_data'') = d
    \<and> get_be32 ri' (offsetof struct_gfs2_rindex ''ri_bitbytes'') = d div GFS2_NBBY"
proof -
  have not0: "next \<noteq> 0" using ok by (metis word_not_simps(1))
  have off: "offsetof struct_gfs2_rindex ''__pad'' = 12" "offsetof struct_gfs2_rindex ''ri_reserved'' = 32"
    by (simp_all add: layout_eval struct_gfs2_rindex_def)
  from new not0 obtain n l d where n: "next = addr + ucast n" "\<not> devlen < addr + ucast n"
    "rgblocks2bitblocks bsize n = Some (l, d)"
    "ri' = assigns [
       put_be64 (offsetof struct_gfs2_rindex ''ri_addr'') addr,
       put_be32 (offsetof struct_gfs2_rindex ''ri_length'') l,
       put_be32 (offsetof struct_gfs2_rindex ''ri_data'') d,
       put_be32 (offsetof struct_gfs2_rindex ''__pad'') 0,
       put_be64 (offsetof struct_gfs2_rindex ''ri_data0'') (addr + ucast l),
       put_be32 (offsetof struct_gfs2_rindex ''ri_bitbytes'') (d div GFS2_NBBY),
       memset_at (offsetof struct_gfs2_rindex ''ri_reserved'') 0 64] ri"
    unfolding lgfs2_rindex_entry_new_def Let_def
    by (simp only: split: if_splits option.splits prod.splits) (auto split: if_splits option.splits prod.splits)
  have sum: "unat next = unat addr + unat n"
  proof (cases "unat addr + unat (ucast n :: u64) < 2 ^ 64")
    case True
    then show ?thesis using unat_add_no_wrap [of addr "ucast n"] by (simp add: n(1) unat_ucast_up)
  next
    case False
    then have "unat (addr + ucast n) = unat addr + unat (ucast n :: u64) - 2 ^ 64"
      using u64_lt [of addr] u64_lt [of "ucast n"]
      by (simp add: unat_word_ariths mod_if)
    moreover have "unat addr < unat (addr + ucast n)" using ok n(1) by (simp add: word_less_nat_alt)
    ultimately show ?thesis using u64_lt [of "ucast n"] by simp
  qed
  show ?thesis
    using n sum ri off
    by (intro exI [of _ n] exI [of _ l] exI [of _ d])
      (simp add: codec_simps memset_at_def size_simps word_le_nat_alt not_less)
qed


lemma small_length:
  assumes "512 \<le> b" "4 * bm_start b (l - 1) < d" "d \<le> 2 ^ 22"
  shows "l \<le> 2149"
proof (rule ccontr)
  assume "\<not> l \<le> 2149"
  then have "bm_start b 2149 \<le> bm_start b (l - 1)" by (intro bm_start_mono [OF assms(1)]) simp
  moreover have "488 * 2149 \<le> (b - 24) * 2149" using assms(1) by (intro mult_le_mono1) simp
  ultimately show False using assms(2,3) by (simp add: bm_start_def)
qed

section \<open>Properties\<close>

text \<open>C18. The resource index entry that \<open>lgfs2_rindex_entry_new\<close> makes for a group of up to
  2^22 blocks (2 GiB of 512 byte blocks) describes, once \<open>lgfs2_rgrps_append\<close> has put it in the set,
  a group with well-formed bitmaps: the bitmap blocks start at the address asked for, the data
  blocks follow them immediately, their bits fill the bitmap blocks without overlap, the group
  stays inside the range and at most four blocks of the range are left unused. All its blocks
  are counted free.\<close>

theorem new_group_wellformed:
  assumes "512 \<le> unat bsize" "unat bsize \<le> 65536" "length ri = 96"
    and "lgfs2_rindex_entry_new bsize devlen plan ri addr len = Some (next, plan', ri')"
    and "addr < next" "5 \<le> unat (next - addr)" "unat (next - addr) \<le> 2 ^ 22"
    and "rgs = [] \<or> rt_addr (last rgs) < addr"
  shows "\<exists>rg. lgfs2_rgrps_append bsize rgs ri' skip = Some (rgs @ [rg]) \<and> geom bsize rg
    \<and> rt_addr rg = addr \<and> unat (rt_data0 rg) = unat addr + unat (rt_length rg)
    \<and> unat (rt_data0 rg) + unat (rt_data rg) \<le> unat next
    \<and> unat next \<le> unat (rt_data0 rg) + unat (rt_data rg) + 4
    \<and> unat next \<le> unat devlen \<and> rt_free rg = rt_data rg \<and> rt_dinodes rg = 0 \<and> rt_skip rg = skip"
proof -
  obtain n l d where n: "next = addr + ucast n" "unat next \<le> unat devlen" "unat next = unat addr + unat n"
    "rgblocks2bitblocks bsize n = Some (l, d)"
    and f: "get_be64 ri' (offsetof struct_gfs2_rindex ''ri_addr'') = addr"
      "get_be32 ri' (offsetof struct_gfs2_rindex ''ri_length'') = l"
      "get_be64 ri' (offsetof struct_gfs2_rindex ''ri_data0'') = addr + ucast l"
      "get_be32 ri' (offsetof struct_gfs2_rindex ''ri_data'') = d"
      "get_be32 ri' (offsetof struct_gfs2_rindex ''ri_bitbytes'') = d div GFS2_NBBY"
    using rindex_new_fields [OF assms(4,5,3)] by blast
  have N: "unat n = unat (next - addr)" using n(1) by (simp add: unat_ucast_up)
  obtain l1: "1 \<le> unat l" and fit: "4 * bm_start (unat bsize) (unat l - 1) < unat d"
      "unat d \<le> 4 * bm_start (unat bsize) (unat l)" and sum: "unat l + unat d \<le> unat n"
      "unat n \<le> unat l + unat d + 4" and d4: "unat d mod 4 = 0"
    using rgblocks2bitblocks_spec [OF assms(1,2), of n] assms(6,7) N n(4) by auto
  have small: "unat d \<le> 2 ^ 22" using sum(1) assms(7) N by simp
  have len: "unat l \<le> 2149" using assms(1) fit(1) small by (rule small_length)
  have data0: "unat (addr + ucast l) = unat addr + unat l"
    using n(3) sum(1) u64_lt [of "next"] by (subst unat_add_no_wrap) (simp_all add: unat_ucast_up)
  have bytes: "unat (d div GFS2_NBBY) = unat d div 4" by (simp add: unat_div)
  have d_bytes: "unat d = 4 * (unat d div 4)" using d4 by presburger
  define rg0 where "rg0 = set_rt_skip skip (set_rt_dinodes 0 (rgrp_zero\<lparr>bits := replicate (unat l) gfs2_bitmap_zero,
      rt_addr := addr, rt_length := l, rt_data0 := addr + ucast l, rt_rg_data0 := addr + ucast l, rt_data := d,
      rt_rg_data := d, rt_bitbytes := d div GFS2_NBBY, rt_rg_bitbytes := d div GFS2_NBBY,
      rt_flags := 0, rt_free := d\<rparr>))\<lparr>rt_u0 := 0\<rparr>"
  have app: "lgfs2_rgrps_append bsize rgs ri' skip = Some (rgs @ [compute_bitmaps rg0 bsize])"
    using assms(8) by (auto simp: lgfs2_rgrps_append_def Let_def f rg0_def not_le)
  have rg0: "rt_addr rg0 = addr" "rt_length rg0 = l" "rt_data0 rg0 = addr + ucast l" "rt_data rg0 = d"
    "rt_bitbytes rg0 = d div GFS2_NBBY" "rt_free rg0 = d" "length (bits rg0) = unat l"
    "rt_dinodes rg0 = 0" "rt_skip rg0 = skip"
    by (simp_all add: rg0_def rt_union_defs)
  have same: "rt_addr (compute_bitmaps rg0 bsize) = addr" "rt_length (compute_bitmaps rg0 bsize) = l"
    "rt_data0 (compute_bitmaps rg0 bsize) = addr + ucast l" "rt_data (compute_bitmaps rg0 bsize) = d"
    "rt_free (compute_bitmaps rg0 bsize) = d" "rt_dinodes (compute_bitmaps rg0 bsize) = 0"
    "rt_skip (compute_bitmaps rg0 bsize) = skip"
    using rg0 by (simp_all add: compute_bitmaps_def Let_def rt_union_defs)
  have "geom bsize (compute_bitmaps rg0 bsize)"
  proof (rule compute_bitmaps_wf [OF assms(1,2)])
    show "unat (rt_data0 rg0) + unat (rt_data rg0) < 2 ^ 64"
      using rg0 data0 n(3) sum(1) u64_lt [of "next"] by simp
    show "bm_start (unat bsize) (unat (rt_length rg0) - 1) < unat (rt_bitbytes rg0)"
      "unat (rt_bitbytes rg0) \<le> bm_start (unat bsize) (unat (rt_length rg0))"
      using fit d_bytes by (simp_all only: rg0 bytes)
  qed (use rg0 l1 len small d_bytes bytes in simp_all)
  with app same data0 n sum show ?thesis by (intro exI [of _ "compute_bitmaps rg0 bsize"]) simp
qed

definition rgs_example :: lgfs2_rgrps where
  "rgs_example = \<lparr>plan0 = \<lparr>spec_len = 0, spec_num = 0\<rparr>, plan1 = \<lparr>spec_len = 0, spec_num = 0\<rparr>,
     rgs_align = 0, rgs_align_off = 0\<rparr>"

lemma rindex_new_example:
  "lgfs2_rindex_entry_new 512 1000000 rgs_example (replicate 96 0) 200 5000 \<noteq> None
   \<and> fst (the (lgfs2_rindex_entry_new 512 1000000 rgs_example (replicate 96 0) 200 5000)) = 5200"
  using rgblocks2bitblocks_spec [of 512 5000]
  by (auto simp: lgfs2_rindex_entry_new_def rgs_example_def Let_def)

theorem new_group_wellformed_witness:
  "\<exists>plan' ri' rg. lgfs2_rindex_entry_new 512 1000000 rgs_example (replicate 96 0) 200 5000 = Some (5200, plan', ri')
    \<and> lgfs2_rgrps_append 512 [] ri' 0 = Some ([] @ [rg]) \<and> geom 512 rg \<and> rt_addr rg = 200"
proof -
  obtain plan' ri' where "lgfs2_rindex_entry_new 512 1000000 rgs_example (replicate 96 0) 200 5000
      = Some (5200, plan', ri')"
    using rindex_new_example by (cases "lgfs2_rindex_entry_new 512 1000000 rgs_example (replicate 96 0) 200 5000") auto
  with new_group_wellformed [of 512 "replicate 96 0" 1000000 rgs_example 200 5000 5200 plan' ri' "[]" 0]
  show ?thesis by auto
qed

text \<open>\<open>rgblocks2bitblocks\<close> terminates for every group of 5 to 2^31 blocks and splits it as well as
  possible: the bitmap blocks hold a state for every data block and no bitmap block is superfluous,
  bitmaps and data fit in the group, and no other split into whole bitmap blocks and a multiple of
  four data blocks has more data blocks.\<close>

theorem rgblocks2bitblocks_optimal:
  assumes "512 \<le> unat bsize" "unat bsize \<le> 65536" "5 \<le> unat n" "unat n < 2 ^ 31"
  shows "\<exists>l d. rgblocks2bitblocks bsize n = Some (l, d)
    \<and> 4 * bm_start (unat bsize) (unat l - 1) < unat d \<and> unat d \<le> 4 * bm_start (unat bsize) (unat l)
    \<and> unat l + unat d \<le> unat n \<and> unat d mod 4 = 0
    \<and> (\<forall>j p. 1 \<le> j \<longrightarrow> p mod 4 = 0 \<longrightarrow> p \<le> 4 * bm_start (unat bsize) j \<longrightarrow> j + p \<le> unat n \<longrightarrow> p \<le> unat d)"
  using rgblocks2bitblocks_spec [OF assms] by (elim exE conjE) (intro exI conjI; assumption)

theorem rgblocks2bitblocks_optimal_witness:
  "\<exists>l d. rgblocks2bitblocks 4096 65536 = Some (l, d) \<and> unat l + unat d \<le> 65536"
  using rgblocks2bitblocks_optimal [of 4096 65536] by auto

text \<open>C22. A group of the size \<open>lgfs2_rgsize_for_data\<close> returns is large enough: for 1 to 2^29 - 1 data blocks
  and blocks of 512 to 65536 bytes, split by \<open>rgblocks2bitblocks\<close> it has at least the data blocks
  asked for.\<close>

theorem rgsize_for_data_enough:
  assumes "512 \<le> unat bsize" "unat bsize \<le> 65536" "1 \<le> unat blksreq" "unat blksreq < 2 ^ 29"
  shows "\<exists>l d. rgblocks2bitblocks bsize (lgfs2_rgsize_for_data blksreq bsize) = Some (l, d)
    \<and> unat blksreq \<le> unat d"
  using rgsize_for_data_spec [OF assms] by blast

theorem rgsize_for_data_enough_witness:
  "\<exists>l d. rgblocks2bitblocks 4096 (lgfs2_rgsize_for_data 32768 4096) = Some (l, d) \<and> 32768 \<le> unat d"
  using rgsize_for_data_enough [of 4096 32768] by simp

text \<open>C7. \<open>lgfs2_rgrps_plan\<close> terminates and fills the space. Hypotheses: blocks of at least 512
  bytes; a target size that is not zero and does not overflow when alignment and offset are added;
  twice the alignment plus the offset below the largest group length (2 GiB of blocks); a space of
  less than 2^30 blocks that holds one group of the target size, aligned, or of the largest
  length; and a plan whose second specification is unused (it is new). Then all three loops end
  (the first lowers a target whose aligned length is above the maximum), the planned groups fit in
  the space and leave at most one alignment unit (or one block without alignment) unused, no group
  is longer than the maximum or than the aligned target, the groups of the second specification,
  if there are any, are one unit shorter than those of the first, and the result is the number of
  groups, or 0 when they would be smaller than the minimum.\<close>

theorem plan_fills_space:
  assumes "512 \<le> unat bsize" "0 < unat tgtsize"
    and "unat tgtsize + unat (rgs_align rgs) + unat (rgs_align_off rgs) < 2 ^ 32"
    and "2 * unat (rgs_align rgs) + unat (rgs_align_off rgs) < 0x80000000 div unat bsize"
    and "min (0x80000000 div unat bsize) (unat (lgfs2_rgrp_align_len rgs tgtsize)) \<le> unat space"
    and "unat space < 2 ^ 30" "spec_num (plan1 rgs) = 0"
  shows "\<exists>rgs' n. lgfs2_rgrps_plan bsize rgs space tgtsize = Some (rgs', n)
    \<and> (let total = unat (spec_len (plan0 rgs')) * unat (spec_num (plan0 rgs'))
                  + unat (spec_len (plan1 rgs')) * unat (spec_num (plan1 rgs'))
       in total \<le> unat space \<and> unat space \<le> total + max 1 (unat (rgs_align rgs)))
    \<and> unat (spec_len (plan0 rgs')) \<le> 0x80000000 div unat bsize
    \<and> unat (spec_len (plan0 rgs')) \<le> unat (lgfs2_rgrp_align_len rgs tgtsize)
    \<and> (spec_num (plan1 rgs') = 0
        \<or> unat (spec_len (plan1 rgs')) + max 1 (unat (rgs_align rgs)) = unat (spec_len (plan0 rgs')))
    \<and> n = (if spec_len (plan0 rgs') < 0x2000000 div bsize then 0
            else spec_num (plan0 rgs') + spec_num (plan1 rgs'))"
proof -
  have M: "unat (0x80000000 div bsize) = 0x80000000 div unat bsize" by (simp add: unat_div)
  obtain l where l: "plan_clamp rgs (0x80000000 div bsize) tgtsize = Some l" "l \<le> 0x80000000 div bsize"
      "unat (rgs_align rgs) \<le> unat l" "0 < unat l" "unat l \<le> unat (lgfs2_rgrp_align_len rgs tgtsize)"
    using plan_clamp_spec [OF assms(2,3), of "0x80000000 div bsize"] assms(4) unfolding M by blast
  have L: "unat l \<le> 0x80000000 div unat bsize" using l(2) by (simp only: word_le_nat_alt M)
  have "unat l \<le> unat space" using assms(5) L l(5) by linarith
  with plan_spec [OF l(1,2) assms(1) _ assms(6) l(3,4) assms(7)] obtain rgs' n where
    p: "lgfs2_rgrps_plan bsize rgs space tgtsize = Some (rgs', n)"
      "let total = unat (spec_len (plan0 rgs')) * unat (spec_num (plan0 rgs'))
                  + unat (spec_len (plan1 rgs')) * unat (spec_num (plan1 rgs'))
       in total \<le> unat space \<and> unat space \<le> total + max 1 (unat (rgs_align rgs))"
      "spec_len (plan0 rgs') \<le> l"
      "spec_num (plan1 rgs') = 0
        \<or> unat (spec_len (plan1 rgs')) + max 1 (unat (rgs_align rgs)) = unat (spec_len (plan0 rgs'))"
      "n = (if spec_len (plan0 rgs') < 0x2000000 div bsize then 0
            else spec_num (plan0 rgs') + spec_num (plan1 rgs'))"
    by blast
  have "unat (spec_len (plan0 rgs')) \<le> unat l" using p(3) by (simp add: word_le_nat_alt)
  with p L l(5) show ?thesis by (intro exI [of _ rgs'] exI [of _ n]) (simp add: order_trans [OF _ L])
qed

text \<open>The witness has a target of 600000 blocks of 4096 bytes, above the maximum of 524288, so
  the clamp has to lower it.\<close>

theorem plan_fills_space_witness:
  "\<exists>rgs' n. lgfs2_rgrps_plan 4096 rgs_example 1000000 600000 = Some (rgs', n)
    \<and> unat (spec_len (plan0 rgs')) \<le> 524288"
proof -
  have ex: "rgs_align rgs_example = 0" "rgs_align_off rgs_example = 0" "spec_num (plan1 rgs_example) = 0"
    by (simp_all add: rgs_example_def)
  show ?thesis using plan_fills_space [of 4096 600000 rgs_example 1000000] by (auto simp: ex min_le_iff_disj)
qed

text \<open>For devices of 2^32 blocks or more the plan does not fit: the products of lengths and
  numbers are computed in 32 bits, so the loop that takes the excess back never runs and (without
  alignment) the planned groups need at least the whole space, more unless it is an exact multiple
  of the number of groups.\<close>

theorem plan_overcommits:
  assumes "lgfs2_rgrp_align_len rgs tgtsize = l0" "l0 \<le> 0x80000000 div bsize" "512 \<le> unat bsize"
    and "2 ^ 32 \<le> unat space" "rgs_align rgs = 0" "0 < unat l0" "unat space div unat l0 + 1 < 2 ^ 32"
  shows "\<exists>rgs' n. lgfs2_rgrps_plan bsize rgs space tgtsize = Some (rgs', n)
    \<and> spec_num (plan1 rgs') = 0
    \<and> unat space \<le> unat (spec_len (plan0 rgs')) * unat (spec_num (plan0 rgs'))"
proof -
  let ?S = "unat space" and ?L = "unat l0"
  have clamp: "plan_clamp rgs (0x80000000 div bsize) tgtsize = Some l0"
  proof -
    have "\<not> 0x80000000 div bsize < l0" using assms(2) by (rule leD)
    then show ?thesis using assms(1) by (subst plan_clamp.simps) (simp add: Let_def)
  qed
  define n0 where "n0 = (ucast (space div ucast l0) :: u32)"
  have n0: "unat n0 = ?S div ?L"
  proof -
    have "unat (ucast l0 :: u64) = ?L" by (simp add: unat_ucast_up)
    then have "unat (space div ucast l0) = ?S div ?L" by (simp only: unat_div)
    then show ?thesis using assms(7) by (simp add: n0_def unat_ucast_mod)
  qed
  have n1: "unat (n0 + 1) = Suc (?S div ?L)"
    using n0 assms(7) by (subst unat_add_no_wrap) simp_all
  have left: "rgs_align rgs < space - ucast (n0 * l0)"
  proof -
    have "unat (ucast (n0 * l0) :: u64) < ?S"
      using u32_lt [of "n0 * l0"] assms(4) by (simp add: unat_ucast_up)
    then show ?thesis using assms(5) by (simp add: word_less_nat_alt unat_sub word_le_nat_alt)
  qed
  have L: "?L \<le> ?S" using u32_lt [of l0] assms(4) by simp
  have enough: "?S \<le> ?L * unat (n0 + 1)"
    using dividend_less_times_div [of ?L ?S] assms(6) by (simp add: n1)
  have under: "x * unat (n0 + 1) < ?S" if "x + unat (1 :: u32) \<le> ?L" "x < unat (1 :: u32)" for x
    using that assms(4) by simp
  obtain r where r: "plan_reduce space 1 (n0 + 1) l0 = Some r" "?S \<le> unat r * unat (n0 + 1)"
    using plan_reduce_spec [of 1 l0 space "n0 + 1"] assms(6) enough under by auto
  have shift: "plan_shift space r (r - 1) (n0 + 1) 0 = Some (n0 + 1, 0)"
  proof -
    have "\<not> space \<le> ucast (r * (n0 + 1) + (r - 1) * 0)"
      using u32_lt [of "r * (n0 + 1) + (r - 1) * 0"] assms(4) by (simp add: word_le_nat_alt unat_ucast_up)
    then show ?thesis by (subst plan_shift.simps) simp
  qed
  have "lgfs2_rgrps_plan bsize rgs space tgtsize
      = Some (let rg = rgs\<lparr>plan0 := \<lparr>spec_len = r, spec_num = n0 + 1\<rparr>, plan1 := \<lparr>spec_len = r - 1, spec_num = 0\<rparr>\<rparr>
              in (rg, if r < 0x2000000 div bsize then 0 else n0 + 1))"
    using left r(1) shift assms(5) by (simp add: lgfs2_rgrps_plan_def clamp Let_def flip: n0_def)
  with r(2) show ?thesis by (simp add: Let_def)
qed

theorem plan_overcommits_witness:
  "\<exists>rgs' n. lgfs2_rgrps_plan 4096 rgs_example 0x200000000 524288 = Some (rgs', n)
    \<and> 0x200000000 \<le> unat (spec_len (plan0 rgs')) * unat (spec_num (plan0 rgs'))"
  using plan_overcommits [of rgs_example 524288 524288 4096 8589934592]
  by (auto simp: rgs_example_def lgfs2_rgrp_align_len_def align_block_def word_le_nat_alt)

end
