(* ===== verification/Rbm.thy ===== *)
theory Rbm
  imports Rgrp
begin

text \<open>
  Positions in the bitmaps of a resource group (rgrp.h, rgrp.c): conversion from and to block
  numbers, stepping, the length of a free extent, the search for a block or an extent, and the
  allocation of an extent.

  The group a position belongs to is an argument of each operation. \<open>errno\<close> is part of the result.
\<close>

section \<open>Positions\<close>

datatype errno = EINVAL | E2BIG | ENOSPC

definition rbm_bi :: "rgrp_tree \<Rightarrow> lgfs2_rbm \<Rightarrow> gfs2_bitmap" where
  "rbm_bi rg rbm = bits rg ! rbm_bii rbm"

definition lgfs2_rbm_to_block :: "rgrp_tree \<Rightarrow> lgfs2_rbm \<Rightarrow> u64" where
  "lgfs2_rbm_to_block rg rbm =
     rt_data0 rg + ucast (bi_start (rbm_bi rg rbm) * GFS2_NBBY) + ucast (rbm_offset rbm)"

definition lgfs2_rbm_eq :: "lgfs2_rbm \<Rightarrow> lgfs2_rbm \<Rightarrow> bool" where
  "lgfs2_rbm_eq rbm1 rbm2 \<longleftrightarrow> rbm_bii rbm1 = rbm_bii rbm2 \<and> rbm_offset rbm1 = rbm_offset rbm2"

definition lgfs2_rbm_from_block :: "gfs2_sbd \<Rightarrow> rgrp_tree \<Rightarrow> u64 \<Rightarrow> errno + lgfs2_rbm" where
  "lgfs2_rbm_from_block sdp rg block =
     (let rblock = block - rt_data0 rg in
      if 0xFFFFFFFF < rblock then Inl EINVAL
      else if rt_data0 rg + ucast (rt_data rg) \<le> block then Inl E2BIG
      else
        let rbm = \<lparr>rbm_offset = ucast rblock, rbm_bii = 0\<rparr>
        in if rbm_offset rbm < bi_len (rbm_bi rg rbm) * GFS2_NBBY then Inr rbm
           else let off = rbm_offset rbm
                      + of_nat ((sizeof struct_gfs2_rgrp - sizeof struct_gfs2_meta_header) * 4);
                    bii = off div sd_blocks_per_bitmap sdp
                in Inr \<lparr>rbm_offset = off - bii * sd_blocks_per_bitmap sdp, rbm_bii = unat bii\<rparr>)"

text \<open>\<open>lgfs2_rbm_incr\<close> returns whether it is at the end of the group.\<close>

definition lgfs2_rbm_incr :: "rgrp_tree \<Rightarrow> lgfs2_rbm \<Rightarrow> bool \<times> lgfs2_rbm" where
  "lgfs2_rbm_incr rg rbm =
     (if rbm_offset rbm + 1 < bi_len (rbm_bi rg rbm) * GFS2_NBBY
      then (False, rbm\<lparr>rbm_offset := rbm_offset rbm + 1\<rparr>)
      else if of_nat (rbm_bii rbm) = rt_length rg - 1 then (True, rbm)
      else (False, \<lparr>rbm_offset = 0, rbm_bii = rbm_bii rbm + 1\<rparr>))"

definition lgfs2_testbit :: "rgrp_tree \<Rightarrow> lgfs2_rbm \<Rightarrow> nat" where
  "lgfs2_testbit rg rbm =
     (let bi = rbm_bi rg rbm;
          buffer = drop (unat (bi_offset bi)) (buf_of (bi_data bi));
          byte = buffer ! unat (rbm_offset rbm div GFS2_NBBY);
          sh = unat (rbm_offset rbm mod GFS2_NBBY) * 2
      in unat (drop_bit sh byte AND 3))"

section \<open>Extents\<close>

text \<open>
  The loop over \<open>n_unaligned\<close> blocks; the result says whether it stopped early, with the position
  and the length left.
\<close>

fun lgfs2_unaligned_extlen :: "rgrp_tree \<Rightarrow> lgfs2_rbm \<Rightarrow> nat \<Rightarrow> u32 \<Rightarrow> bool \<times> lgfs2_rbm \<times> u32" where
  "lgfs2_unaligned_extlen rg rbm 0 len = (False, rbm, len)"
| "lgfs2_unaligned_extlen rg rbm (Suc n) len =
     (if lgfs2_testbit rg rbm \<noteq> GFS2_BLKST_FREE then (True, rbm, len)
      else let len = len - 1 in
        if len = 0 then (True, rbm, len)
        else let (at_end, rbm) = lgfs2_rbm_incr rg rbm in
          if at_end then (True, rbm, len) else lgfs2_unaligned_extlen rg rbm n len)"

text \<open>\<open>check_bytes8\<close>: the index of the first byte that differs from \<open>value\<close>, or NULL.\<close>

fun check_bytes8 :: "bytes \<Rightarrow> u8 \<Rightarrow> nat \<Rightarrow> nat option" where
  "check_bytes8 start value 0 = None"
| "check_bytes8 start value (Suc n) =
     (if start ! 0 \<noteq> value then Some 0
      else map_option Suc (check_bytes8 (drop 1 start) value n))"

partial_function (option) free_extlen_loop ::
  "gfs2_sbd \<Rightarrow> rgrp_tree \<Rightarrow> lgfs2_rbm \<Rightarrow> u32 \<Rightarrow> u32 \<Rightarrow> (lgfs2_rbm \<times> u32 \<times> u32) option" where
  "free_extlen_loop sdp rg rbm len n_unaligned =
     (if 3 < len then
        let bi = rbm_bi rg rbm;
            start = unat (bi_offset bi) + unat (rbm_offset rbm div GFS2_NBBY);
            avail = int (unat (sd_bsize sdp)) - int start;
            nbytes = (if int (unat (len div GFS2_NBBY)) < avail then len div GFS2_NBBY else of_int avail);
            ptr = check_bytes8 (drop start (buf_of (bi_data bi))) 0 (unat nbytes);
            chunk_size = (case ptr of None \<Rightarrow> nbytes | Some k \<Rightarrow> of_nat k) * GFS2_NBBY;
            len = len - chunk_size;
            block = lgfs2_rbm_to_block rg rbm
        in case lgfs2_rbm_from_block sdp rg (block + ucast chunk_size) of
             Inl _ \<Rightarrow> Some (rbm, len, 0)
           | Inr rbm \<Rightarrow>
               if ptr \<noteq> None then Some (rbm, len, 3)
               else free_extlen_loop sdp rg rbm len (len AND 3)
      else Some (rbm, len, n_unaligned))"

declare free_extlen_loop.simps [code]

definition lgfs2_free_extlen :: "gfs2_sbd \<Rightarrow> rgrp_tree \<Rightarrow> lgfs2_rbm \<Rightarrow> u32 \<Rightarrow> u32 option" where
  "lgfs2_free_extlen sdp rg rrbm len =
     (let n_unaligned = rbm_offset rrbm AND 3;
          size = len;
          (stopped, rbm, len) =
            (if n_unaligned \<noteq> 0 then lgfs2_unaligned_extlen rg rrbm (unat (4 - n_unaligned)) len
             else (False, rrbm, len))
      in if stopped then Some (size - len)
         else case free_extlen_loop sdp rg rbm len (len AND 3) of None \<Rightarrow> None
         | Some (rbm, len, n_unaligned) \<Rightarrow>
             let (_, _, len) = (if n_unaligned \<noteq> 0
                                then lgfs2_unaligned_extlen rg rbm (unat n_unaligned) len
                                else (False, rbm, len))
             in Some (size - len))"

section \<open>lgfs2_rbm_find\<close>

text \<open>\<open>next_bitmap\<close>: the start of the next bitmap of the group, or of the first one.\<close>

definition rbm_next_bitmap :: "rgrp_tree \<Rightarrow> lgfs2_rbm \<Rightarrow> lgfs2_rbm" where
  "rbm_next_bitmap rg rbm =
     (let bii = rbm_bii rbm + 1
      in \<lparr>rbm_offset = 0, rbm_bii = (if bii = unat (rt_length rg) then 0 else bii)\<rparr>)"

definition rbm_bitfit :: "rgrp_tree \<Rightarrow> nat \<Rightarrow> u32 \<Rightarrow> lgfs2_rbm \<Rightarrow> u32 option" where
  "rbm_bitfit rg state minext rbm =
     (let bi = rbm_bi rg rbm;
          buf = drop (unat (bi_offset bi)) (buf_of (bi_data bi))
      in if rt_free rg < minext \<and> state = GFS2_BLKST_FREE then None
         else let offset = of_nat (gfs2_bitfit buf (unat (bi_len bi)) (unat (rbm_offset rbm)) state)
              in if offset = 0xFFFFFFFF then None else Some offset)"

text \<open>
  \<open>n\<close> counts the bitmaps searched against \<open>iters\<close>. The result is the position found, or the
  error with the position left.
\<close>

partial_function (option) rbm_find_loop ::
  "gfs2_sbd \<Rightarrow> rgrp_tree \<Rightarrow> nat \<Rightarrow> u32 \<Rightarrow> nat \<Rightarrow> nat \<Rightarrow> lgfs2_rbm \<Rightarrow> (errno option \<times> lgfs2_rbm) option" where
  "rbm_find_loop sdp rg state minext iters n rbm =
     (if iters \<le> n then Some (Some ENOSPC, rbm)
      else case rbm_bitfit rg state minext rbm of
        None \<Rightarrow>
          if rbm_bii (rbm_next_bitmap rg rbm) = 0 then Some (Some ENOSPC, rbm_next_bitmap rg rbm)
          else rbm_find_loop sdp rg state minext iters (n + 1) (rbm_next_bitmap rg rbm)
      | Some offset \<Rightarrow>
          let rbm = rbm\<lparr>rbm_offset := offset\<rparr>; initial_bii = rbm_bii rbm; block = lgfs2_rbm_to_block rg rbm
          in case (if minext \<noteq> 0 then lgfs2_free_extlen sdp rg rbm minext else Some 1) of
               None \<Rightarrow> None
             | Some extlen \<Rightarrow>
                 if minext \<le> extlen then Some (None, rbm)
                 else case lgfs2_rbm_from_block sdp rg (block + ucast extlen) of
                     Inr rbm \<Rightarrow>
                       rbm_find_loop sdp rg state minext iters (n + (rbm_bii rbm - initial_bii) + 1) rbm
                   | Inl e \<Rightarrow>
                       if e = E2BIG then Some (Some ENOSPC, \<lparr>rbm_offset = 0, rbm_bii = 0\<rparr>)
                       else Some (Some e, rbm))"

declare rbm_find_loop.simps [code]

definition lgfs2_rbm_find ::
  "gfs2_sbd \<Rightarrow> rgrp_tree \<Rightarrow> lgfs2_rbm \<Rightarrow> nat \<Rightarrow> u32 \<Rightarrow> (errno option \<times> lgfs2_rbm) option" where
  "lgfs2_rbm_find sdp rg rbm state minext =
     rbm_find_loop sdp rg state minext
       (unat (rt_length rg) + (if rbm_offset rbm \<noteq> 0 then 1 else 0)) 0 rbm"

section \<open>lgfs2_alloc_extent\<close>

fun alloc_extent_loop :: "gfs2_sbd \<Rightarrow> rgrp_tree \<Rightarrow> u64 \<Rightarrow> nat \<Rightarrow> nat \<Rightarrow> nat \<times> rgrp_tree" where
  "alloc_extent_loop sdp rg block len 0 = (len, rg)"
| "alloc_extent_loop sdp rg block len (Suc n) =
     (case lgfs2_rbm_from_block sdp rg (block + of_nat len) of
        Inl _ \<Rightarrow> (len, rg)
      | Inr pos \<Rightarrow>
          if lgfs2_testbit rg pos \<noteq> GFS2_BLKST_FREE then (len, rg)
          else alloc_extent_loop sdp
                 (the (snd (gfs2_set_bitmap (Some rg) (block + of_nat len) (int GFS2_BLKST_USED))))
                 block (len + 1) n)"

text \<open>\<open>len\<close> runs from 1 while it is less than \<open>elen\<close>.\<close>

definition lgfs2_alloc_extent ::
  "gfs2_sbd \<Rightarrow> rgrp_tree \<Rightarrow> lgfs2_rbm \<Rightarrow> int \<Rightarrow> u32 \<Rightarrow> nat \<times> rgrp_tree" where
  "lgfs2_alloc_extent sdp rg rbm state elen =
     (let block = lgfs2_rbm_to_block rg rbm;
          rg = the (snd (gfs2_set_bitmap (Some rg) block state))
      in alloc_extent_loop sdp rg block 1 (unat elen - 1))"

section \<open>Positions and blocks\<close>

text \<open>The position of block \<open>i\<close> of a group.\<close>

definition rbm_at :: "u32 \<Rightarrow> nat \<Rightarrow> lgfs2_rbm" where
  "rbm_at bsize i =
     (let x = bm_index (unat bsize) i
      in \<lparr>rbm_offset = of_nat (i - 4 * bm_start (unat bsize) x), rbm_bii = x\<rparr>)"

lemma rbm_at_offset:
  assumes g: "geom bsize rg" and i: "i < unat (rt_data rg)"
  shows "unat (rbm_offset (rbm_at bsize i)) = i - 4 * bm_start (unat bsize) (bm_index (unat bsize) i)"
    "rbm_bii (rbm_at bsize i) = bm_index (unat bsize) i"
  using i u32_lt [of "rt_data rg"] by (simp_all add: rbm_at_def Let_def unat_of_nat_small)

lemma rbm_to_block_at:
  assumes g: "geom bsize rg" and i: "i < unat (rt_data rg)"
  shows "lgfs2_rbm_to_block rg (rbm_at bsize i) = rt_data0 rg + of_nat i"
proof -
  note G = geomD [OF g]
  let ?x = "bm_index (unat bsize) i"
  note xi = bm_index_in_group [OF g i]
  have "unat (bi_start (bits rg ! ?x) * GFS2_NBBY) = 4 * bm_start (unat bsize) ?x"
    using xi(2) i u32_lt [of "rt_data rg"] G(10) [OF xi(1)]
    by (subst unat_mult_no_wrap) simp_all
  then have "(ucast (bi_start (bits rg ! ?x) * GFS2_NBBY) :: u64) = of_nat (4 * bm_start (unat bsize) ?x)"
    by (simp flip: of_nat_unat_ucast)
  moreover have "(ucast (rbm_offset (rbm_at bsize i)) :: u64) = of_nat (i - 4 * bm_start (unat bsize) ?x)"
    using rbm_at_offset(1) [OF g i] by (simp flip: of_nat_unat_ucast)
  moreover have "of_nat (4 * bm_start (unat bsize) ?x) + of_nat (i - 4 * bm_start (unat bsize) ?x) = (of_nat i :: u64)"
    using xi(2) by (simp only: of_nat_add [symmetric] le_add_diff_inverse)
  ultimately show ?thesis
    by (simp only: lgfs2_rbm_to_block_def rbm_bi_def rbm_at_offset(2) [OF g i] add.assoc)
qed

lemma rbm_from_block_at:
  assumes g: "geom (sd_bsize sdp) rg" and i: "i < unat (rt_data rg)"
    and bpb: "unat (sd_blocks_per_bitmap sdp) = 4 * (unat (sd_bsize sdp) - 24)"
  shows "lgfs2_rbm_from_block sdp rg (rt_data0 rg + of_nat i) = Inr (rbm_at (sd_bsize sdp) i)"
proof -
  note G = geomD [OF g]
  let ?b = "unat (sd_bsize sdp)"
  let ?x = "bm_index ?b i"
  note xi = bm_index_in_group [OF g i]
  have i64: "unat (of_nat i :: u64) = i" and i32: "unat (of_nat i :: u32) = i"
    using i G(8) by (simp_all add: unat_of_nat_small)
  have data: "unat (rt_data0 rg + ucast (rt_data rg)) = unat (rt_data0 rg) + unat (rt_data rg)"
    using G(7) by (subst unat_add_no_wrap) (simp_all add: unat_ucast_up)
  have blk: "unat (rt_data0 rg + of_nat i) = unat (rt_data0 rg) + i"
    using G(7) i by (subst unat_add_no_wrap) (simp_all add: i64)
  have small: "\<not> 0xFFFFFFFF < (of_nat i :: u64)" using i G(8) by (simp add: word_less_nat_alt i64)
  have inside: "\<not> rt_data0 rg + ucast (rt_data rg) \<le> rt_data0 rg + of_nat i"
    using i by (simp add: word_le_nat_alt data blk)
  have u: "(ucast (of_nat i :: u64) :: u32) = of_nat i"
    using i G(8) by (simp add: word_unat_eq_iff unat_ucast_mod i64 i32)
  have "bi_start (bits rg ! 0) = 0" using G(10) [OF G(2)] by (simp add: unat_eq_0)
  then have first: "(of_nat i :: u32) < bi_len (bits rg ! 0) * GFS2_NBBY \<longleftrightarrow> ?x = 0"
    using bm_extent [OF g G(2)] bm_index_0 [OF g i] by (simp add: word_less_nat_alt i32)
  show ?thesis
  proof (cases "?x = 0")
    case True
    then show ?thesis
      using small inside first
      by (simp add: lgfs2_rbm_from_block_def Let_def u rbm_bi_def rbm_at_def)
  next
    case False
    let ?o = "of_nat i + 416 :: u32"
    have o: "unat ?o = i + 416" using i G(8) by (subst unat_add_no_wrap) (simp_all add: i32)
    have x: "?x = (i + 416) div (4 * (?b - 24))"
      using False by (simp add: bm_index_def split: if_splits)
    then have d: "unat (?o div sd_blocks_per_bitmap sdp) = ?x" by (simp only: unat_div o bpb)
    have le: "?x * (4 * (?b - 24)) \<le> i + 416" unfolding x by (rule div_times_less_eq_dividend)
    then have m: "unat (?o div sd_blocks_per_bitmap sdp * sd_blocks_per_bitmap sdp) = ?x * (4 * (?b - 24))"
      using i G(8) d by (subst unat_mult_no_wrap) (simp_all add: bpb)
    define k where "k = (?b - 24) * ?x"
    have "488 * 1 \<le> k" unfolding k_def using G(1) False by (intro mult_le_mono) simp_all
    moreover have "?x * (4 * (?b - 24)) = 4 * k" by (simp only: k_def ac_simps)
    moreover have "bm_start ?b ?x = k - 104" using False by (simp add: bm_start_def k_def)
    ultimately have "i + 416 - ?x * (4 * (?b - 24)) = i - 4 * bm_start ?b ?x" by simp
    then have "unat (?o - ?o div sd_blocks_per_bitmap sdp * sd_blocks_per_bitmap sdp) = i - 4 * bm_start ?b ?x"
      using le by (subst unat_sub) (simp_all only: word_le_nat_alt m o)
    then have "?o - ?o div sd_blocks_per_bitmap sdp * sd_blocks_per_bitmap sdp = of_nat (i - 4 * bm_start ?b ?x)"
      by (metis of_nat_unat ucast_id)
    then show ?thesis
      using small inside first False d
      by (simp add: lgfs2_rbm_from_block_def Let_def u rbm_bi_def rbm_at_def size_simps)
  qed
qed

lemma rbm_from_block_end:
  assumes g: "geom (sd_bsize sdp) rg"
  shows "lgfs2_rbm_from_block sdp rg (rt_data0 rg + of_nat (unat (rt_data rg))) = Inl E2BIG"
proof -
  have "\<not> 0xFFFFFFFF < (ucast (rt_data rg) :: u64)"
    using u32_lt [of "rt_data rg"] by (simp add: word_less_nat_alt unat_ucast_up)
  then show ?thesis by (simp add: lgfs2_rbm_from_block_def Let_def)
qed

lemma testbit_at:
  assumes g: "geom bsize rg" and l: "loaded bsize rg" and i: "i < unat (rt_data rg)"
  shows "lgfs2_testbit rg (rbm_at bsize i) = rg_state bsize rg i"
proof -
  note xi = bm_index_in_group [OF g i]
  have "unat (bi_offset (rbm_bi rg (rbm_at bsize i))) = bm_hdr (bm_index (unat bsize) i)"
    using geomD(9) [OF g xi(1)] rbm_at_offset(2) [OF g i] by (simp add: rbm_bi_def)
  then show ?thesis
    using rbm_at_offset [OF g i]
    by (simp add: lgfs2_testbit_def rg_state_def Let_def blk_state_def rbm_bi_def unat_div unat_mod mult.commute)
qed

section \<open>The extent allocated\<close>

lemma alloc_extent_loop_spec:
  assumes bpb: "unat (sd_blocks_per_bitmap sdp) = 4 * (unat (sd_bsize sdp) - 24)"
    and "alloc_extent_loop sdp rg (rt_data0 rg + of_nat i) len n = (len', rg')"
    and "geom (sd_bsize sdp) rg" "loaded (sd_bsize sdp) rg" "i + len \<le> unat (rt_data rg)"
  shows "geom (sd_bsize sdp) rg' \<and> loaded (sd_bsize sdp) rg' \<and> rt_data0 rg' = rt_data0 rg \<and> rt_data rg' = rt_data rg
    \<and> len \<le> len' \<and> len' \<le> len + n \<and> i + len' \<le> unat (rt_data rg)
    \<and> (\<forall>j < unat (rt_data rg). rg_state (sd_bsize sdp) rg' j =
         (if i + len \<le> j \<and> j < i + len' then GFS2_BLKST_USED else rg_state (sd_bsize sdp) rg j))
    \<and> (\<forall>j. i + len \<le> j \<and> j < i + len' \<longrightarrow> rg_state (sd_bsize sdp) rg j = GFS2_BLKST_FREE)
    \<and> (len' < len + n \<longrightarrow> i + len' < unat (rt_data rg) \<longrightarrow> rg_state (sd_bsize sdp) rg (i + len') \<noteq> GFS2_BLKST_FREE)"
  using assms(2-)
proof (induction n arbitrary: len rg)
  case 0
  then show ?case by auto
next
  case (Suc n)
  note g = Suc.prems(2) and l = Suc.prems(3)
  let ?b = "sd_bsize sdp" and ?j = "i + len"
  have blk: "rt_data0 rg + of_nat i + of_nat len = rt_data0 rg + of_nat ?j" by simp
  show ?case
  proof (cases "?j < unat (rt_data rg)")
    case False
    then have "?j = unat (rt_data rg)" using Suc.prems(4) by simp
    then have "(len', rg') = (len, rg)"
      using Suc.prems(1) rbm_from_block_end [OF g] by (simp only: alloc_extent_loop.simps blk sum.case)
    with g l \<open>?j = unat (rt_data rg)\<close> show ?thesis by auto
  next
    case True
    have step: "alloc_extent_loop sdp rg (rt_data0 rg + of_nat i) len (Suc n) =
        (if rg_state ?b rg ?j \<noteq> GFS2_BLKST_FREE then (len, rg)
         else alloc_extent_loop sdp (rg_set ?b rg ?j 1) (rt_data0 rg + of_nat i) (len + 1) n)"
      using rbm_from_block_at [OF g True bpb] testbit_at [OF g l True] set_bitmap_eq [OF g True, of 1]
      by (simp only: alloc_extent_loop.simps blk sum.case) simp
    show ?thesis
    proof (cases "rg_state ?b rg ?j = GFS2_BLKST_FREE")
      case False
      with step Suc.prems(1) have "(len', rg') = (len, rg)" by simp
      with g l False True show ?thesis by auto
    next
      case free: True
      let ?rg = "rg_set ?b rg ?j 1"
      have "alloc_extent_loop sdp ?rg (rt_data0 ?rg + of_nat i) (len + 1) n = (len', rg')"
        using step free Suc.prems(1) by simp
      note IH = Suc.IH [OF this rg_set_geom [OF g True] rg_set_loaded [OF g l True]]
      have st: "rg_state ?b ?rg k = (if k = ?j then 1 else rg_state ?b rg k)" if "k < unat (rt_data rg)" for k
        using rg_set_state [OF g l True that, of 1] by simp
      have IH': "geom ?b rg' \<and> loaded ?b rg' \<and> rt_data0 rg' = rt_data0 rg \<and> rt_data rg' = rt_data rg"
        and le: "len + 1 \<le> len'" "len' \<le> len + 1 + n" "i + len' \<le> unat (rt_data rg)"
        and states: "\<And>j. j < unat (rt_data rg) \<Longrightarrow> rg_state ?b rg' j =
          (if i + (len + 1) \<le> j \<and> j < i + len' then 1 else rg_state ?b ?rg j)"
        and old: "\<And>j. i + (len + 1) \<le> j \<Longrightarrow> j < i + len' \<Longrightarrow> rg_state ?b ?rg j = 0"
        and stop: "len' < len + 1 + n \<Longrightarrow> i + len' < unat (rt_data rg) \<Longrightarrow> rg_state ?b ?rg (i + len') \<noteq> 0"
        using IH True by simp_all
      show ?thesis
      proof (intro conjI allI impI)
        fix j assume "j < unat (rt_data rg)"
        then show "rg_state ?b rg' j = (if ?j \<le> j \<and> j < i + len' then 1 else rg_state ?b rg j)"
          using states [of j] st [of j] le(1) by auto
      next
        fix j assume j: "?j \<le> j \<and> j < i + len'"
        then show "rg_state ?b rg j = 0"
          using old [of j] st [of j] le(3) free by (cases "j = ?j") auto
      next
        assume "len' < len + Suc n" "i + len' < unat (rt_data rg)"
        then show "rg_state ?b rg (i + len') \<noteq> 0"
          using stop st [of "i + len'"] le(1) by auto
      qed (use IH' le in simp_all)
    qed
  qed
qed

text \<open>C12. \<open>lgfs2_alloc_extent\<close> at a block of a group with loaded bitmaps puts that block in the
  requested state and turns the run of free blocks after it into used ones, as many as were asked
  for: only free blocks are taken, no other block's state changes, and it stops short only at a
  block that is not free or at the end of the group.\<close>

theorem alloc_extent_exact:
  assumes "geom (sd_bsize sdp) rg" "loaded (sd_bsize sdp) rg"
    and "unat (sd_blocks_per_bitmap sdp) = 4 * (unat (sd_bsize sdp) - 24)"
    and "i < unat (rt_data rg)" "state \<le> 3"
    and "lgfs2_alloc_extent sdp rg (rbm_at (sd_bsize sdp) i) (int state) elen = (len, rg')"
  shows "geom (sd_bsize sdp) rg' \<and> loaded (sd_bsize sdp) rg' \<and> 1 \<le> len \<and> len \<le> max 1 (unat elen)
    \<and> i + len \<le> unat (rt_data rg)
    \<and> (\<forall>j < unat (rt_data rg). rg_state (sd_bsize sdp) rg' j =
         (if j = i then state else if i < j \<and> j < i + len then GFS2_BLKST_USED else rg_state (sd_bsize sdp) rg j))
    \<and> (\<forall>j. i < j \<and> j < i + len \<longrightarrow> rg_state (sd_bsize sdp) rg j = GFS2_BLKST_FREE)
    \<and> (len < unat elen \<longrightarrow> i + len < unat (rt_data rg) \<longrightarrow> rg_state (sd_bsize sdp) rg (i + len) \<noteq> GFS2_BLKST_FREE)"
proof -
  let ?b = "sd_bsize sdp" and ?rg = "rg_set (sd_bsize sdp) rg i (int state)"
  have "alloc_extent_loop sdp ?rg (rt_data0 ?rg + of_nat i) 1 (unat elen - 1) = (len, rg')"
    using assms(6) set_bitmap_eq [OF assms(1,4), of "int state"] assms(5)
    by (simp add: lgfs2_alloc_extent_def Let_def rbm_to_block_at [OF assms(1,4)])
  note spec = alloc_extent_loop_spec [OF assms(3) this rg_set_geom [OF assms(1,4)] rg_set_loaded [OF assms(1,2,4)]]
  have st: "rg_state ?b ?rg k = (if k = i then state else rg_state ?b rg k)" if "k < unat (rt_data rg)" for k
    using rg_set_state [OF assms(1,2,4) that, of "int state"] assms(5) by simp
  have IH: "geom ?b rg' \<and> loaded ?b rg'" "1 \<le> len" "len \<le> 1 + (unat elen - 1)" "i + len \<le> unat (rt_data rg)"
    and states: "\<And>j. j < unat (rt_data rg) \<Longrightarrow> rg_state ?b rg' j = (if i + 1 \<le> j \<and> j < i + len then 1 else rg_state ?b ?rg j)"
    and old: "\<And>j. i + 1 \<le> j \<Longrightarrow> j < i + len \<Longrightarrow> rg_state ?b ?rg j = 0"
    and stop: "len < 1 + (unat elen - 1) \<Longrightarrow> i + len < unat (rt_data rg) \<Longrightarrow> rg_state ?b ?rg (i + len) \<noteq> 0"
    using spec assms(4) by simp_all
  show ?thesis
  proof (intro conjI allI impI)
    fix j assume "j < unat (rt_data rg)"
    then show "rg_state ?b rg' j = (if j = i then state else if i < j \<and> j < i + len then 1 else rg_state ?b rg j)"
      using states [of j] st [of j] by auto
  next
    fix j assume "i < j \<and> j < i + len"
    then show "rg_state ?b rg j = 0" using old [of j] st [of j] IH(4) by auto
  next
    assume "len < unat elen" "i + len < unat (rt_data rg)"
    then show "rg_state ?b rg (i + len) \<noteq> 0" using stop st [of "i + len"] IH(2) by auto
  qed (use IH in auto)
qed

lemma rgrp_example_free: "j < 16 \<Longrightarrow> rg_state 512 rgrp_example j = 0"
  by (simp add: rgrp_example_def rg_state_def blk_state_def buf_of_def bm_index_def bm_hdr_def
      div_less_mono less_mult_imp_div_less)

theorem alloc_extent_exact_witness:
  "\<exists>rg'. lgfs2_alloc_extent sbd_example rgrp_example (rbm_at 512 5) (int 3) 4 = (4, rg') \<and>
     (\<forall>j < 16. rg_state 512 rg' j = (if j = 5 then 3 else if 5 < j \<and> j < 9 then 1 else 0))"
proof -
  obtain len rg' where run: "lgfs2_alloc_extent sbd_example rgrp_example (rbm_at 512 5) (int 3) 4 = (len, rg')"
    by fastforce
  have ex: "sd_bsize sbd_example = 512" "unat (sd_blocks_per_bitmap sbd_example) = 4 * (512 - 24)"
    "unat (rt_data rgrp_example) = 16"
    by (simp_all add: sbd_example_def rgrp_example_def)
  note spec = alloc_extent_exact [of sbd_example rgrp_example 5 3 4 len rg']
  have "len < 4 \<longrightarrow> 5 + len < 16 \<longrightarrow> rg_state 512 rgrp_example (5 + len) \<noteq> 0" "len \<le> 4"
    using spec rgrp_example_geom run by (simp_all add: ex)
  then have "len = 4" using rgrp_example_free [of "5 + len"] by (cases "len < 4") auto
  then show ?thesis
    using spec rgrp_example_geom run rgrp_example_free by (simp add: ex)
qed

section \<open>The block found\<close>

text \<open>The blocks of bitmap \<open>x\<close> run from \<open>4 * bm_start b x\<close> to \<open>4 * bm_end b rg x\<close>.\<close>

lemma rg_state_in_bitmap:
  assumes g: "geom bsize rg" and x: "x < unat (rt_length rg)"
    and k: "k < 4 * (bm_end (unat bsize) rg x - bm_start (unat bsize) x)"
  shows "bm_index (unat bsize) (4 * bm_start (unat bsize) x + k) = x"
    "rg_state bsize rg (4 * bm_start (unat bsize) x + k)
      = blk_state (drop (bm_hdr x) (buf_of (bi_data (bits rg ! x)))) k"
proof -
  show "bm_index (unat bsize) (4 * bm_start (unat bsize) x + k) = x"
    using k bm_end_bounds [OF g x] by (intro bm_index_unique [OF geomD(1) [OF g]]) auto
  then show "rg_state bsize rg (4 * bm_start (unat bsize) x + k)
      = blk_state (drop (bm_hdr x) (buf_of (bi_data (bits rg ! x)))) k"
    by (simp add: rg_state_def)
qed

lemma bm_end_next:
  "geom bsize rg \<Longrightarrow> Suc x \<noteq> unat (rt_length rg) \<Longrightarrow> bm_end (unat bsize) rg x = bm_start (unat bsize) (Suc x)"
  "geom bsize rg \<Longrightarrow> Suc x = unat (rt_length rg) \<Longrightarrow> 4 * bm_end (unat bsize) rg x = unat (rt_data rg)"
  by (auto simp: bm_end_def geomD(6))

text \<open>The search of one bitmap.\<close>

lemma bitfit_at:
  assumes g: "geom bsize rg" and l: "loaded bsize rg" and x: "x < unat (rt_length rg)"
    and o: "m < 4 * (bm_end (unat bsize) rg x - bm_start (unat bsize) x)" and s: "state < 4"
  shows "gfs2_bitfit (drop (unat (bi_offset (bits rg ! x))) (buf_of (bi_data (bits rg ! x)))) (unat (bi_len (bits rg ! x))) m state
    = (case find (\<lambda>k. rg_state bsize rg (4 * bm_start (unat bsize) x + k) = state)
            [m..<4 * (bm_end (unat bsize) rg x - bm_start (unat bsize) x)] of None \<Rightarrow> BFITNOENT | Some k \<Rightarrow> k)"
    "4 * (bm_end (unat bsize) rg x - bm_start (unat bsize) x) < 0xFFFFFFFF"
proof -
  note G = geomD [OF g]
  let ?n = "bm_end (unat bsize) rg x - bm_start (unat bsize) x"
  let ?buf = "drop (bm_hdr x) (buf_of (bi_data (bits rg ! x)))"
  have len: "unat (bi_len (bits rg ! x)) = ?n"
    using G(11) [OF x] by (simp add: bm_end_def)
  obtain d where d: "bi_data (bits rg ! x) = Live d" "unat bsize \<le> length d"
    using l x unfolding loaded_def by blast
  have fits: "?n \<le> length ?buf"
    using bm_end_bounds(3) [OF g x] bm_start_Suc [OF G(1), of x] d by (simp add: buf_of_def)
  have "find (\<lambda>k. blk_state ?buf k = state) [m..<4 * ?n]
      = find (\<lambda>k. rg_state bsize rg (4 * bm_start (unat bsize) x + k) = state) [m..<4 * ?n]"
    by (rule find_cong) (simp_all add: rg_state_in_bitmap(2) [OF g x])
  then show "gfs2_bitfit (drop (unat (bi_offset (bits rg ! x))) (buf_of (bi_data (bits rg ! x)))) (unat (bi_len (bits rg ! x))) m state
    = (case find (\<lambda>k. rg_state bsize rg (4 * bm_start (unat bsize) x + k) = state) [m..<4 * ?n] of None \<Rightarrow> BFITNOENT | Some k \<Rightarrow> k)"
    using gfs2_bitfit_find [OF s o fits] G(9) [OF x] len by simp
  show "4 * ?n < 0xFFFFFFFF"
    using bm_end_bounds(2) [OF g x] G(6,8) by simp
qed

lemma rbm_bitfit_at:
  assumes g: "geom bsize rg" and l: "loaded bsize rg" and x: "x < unat (rt_length rg)"
    and o: "unat off < 4 * (bm_end (unat bsize) rg x - bm_start (unat bsize) x)" and s: "state < 4"
  shows "map_option unat (rbm_bitfit rg state 0 \<lparr>rbm_offset = off, rbm_bii = x\<rparr>)
    = find (\<lambda>k. rg_state bsize rg (4 * bm_start (unat bsize) x + k) = state)
        [unat off..<4 * (bm_end (unat bsize) rg x - bm_start (unat bsize) x)]"
proof -
  let ?n = "bm_end (unat bsize) rg x - bm_start (unat bsize) x"
  note fit = bitfit_at [OF assms]
  show ?thesis
  proof (cases "find (\<lambda>k. rg_state bsize rg (4 * bm_start (unat bsize) x + k) = state) [unat off..<4 * ?n]")
    case None
    then show ?thesis using fit by (simp add: rbm_bitfit_def Let_def rbm_bi_def)
  next
    case (Some k)
    then have "k < 4 * ?n" by (simp add: find_upt_Some)
    then have k: "unat (of_nat k :: u32) = k" "(of_nat k :: u32) \<noteq> 0xFFFFFFFF"
      using fit(2) by (auto simp: unat_of_nat_small word_unat_eq_iff)
    then show ?thesis using fit Some by (simp add: rbm_bitfit_def Let_def rbm_bi_def)
  qed
qed

lemma find_shift: "find P [a + m..<a + n] = map_option ((+) a) (find (\<lambda>k. P (a + k)) [m..<n])"
proof (cases "find (\<lambda>k. P (a + k)) [m..<n]")
  case None
  then have "\<not> P k" if "a + m \<le> k" "k < a + n" for k
    using that by (metis find_upt_None add_le_cancel_left le_add_diff_inverse le_trans le_add1 nat_add_left_cancel_less)
  then have "find P [a + m..<a + n] = None" by (simp add: find_upt_None)
  with None show ?thesis by simp
next
  case (Some i)
  then have i: "m \<le> i" "i < n" "P (a + i)" and min: "\<And>k. m \<le> k \<Longrightarrow> k < i \<Longrightarrow> \<not> P (a + k)"
    by (auto simp: find_upt_Some)
  have "\<not> P k" if "a + m \<le> k" "k < a + i" for k
    using min [of "k - a"] that by simp
  with i have "find P [a + m..<a + n] = Some (a + i)" by (simp add: find_upt_Some)
  with Some show ?thesis by simp
qed

lemma find_upt_split:
  assumes "m \<le> n" "n \<le> l"
  shows "find P [m..<l] = (case find P [m..<n] of None \<Rightarrow> find P [n..<l] | Some i \<Rightarrow> Some i)"
proof (cases "find P [m..<n]")
  case (Some i)
  with assms have "find P [m..<l] = Some i" by (auto simp: find_upt_Some)
  with Some show ?thesis by simp
next
  case None
  then have no: "\<And>k. m \<le> k \<Longrightarrow> k < n \<Longrightarrow> \<not> P k" by (simp add: find_upt_None)
  have "find P [m..<l] = find P [n..<l]"
  proof (cases "find P [n..<l]")
    case None
    with no have "find P [m..<l] = None" by (simp add: find_upt_None) (meson not_le)
    with None show ?thesis by simp
  next
    case (Some i)
    with no assms have "find P [m..<l] = Some i" by (simp add: find_upt_Some) (meson not_le order.trans)
    with Some show ?thesis by simp
  qed
  with None show ?thesis by simp
qed

lemma rbm_find_loop_single:
  assumes g: "geom (sd_bsize sdp) rg" and l: "loaded (sd_bsize sdp) rg" and s: "state < 4"
  shows "x < unat (rt_length rg) \<Longrightarrow> n + (unat (rt_length rg) - x) \<le> iters
    \<Longrightarrow> unat off < 4 * (bm_end (unat (sd_bsize sdp)) rg x - bm_start (unat (sd_bsize sdp)) x)
    \<Longrightarrow> rbm_find_loop sdp rg state 0 iters n \<lparr>rbm_offset = off, rbm_bii = x\<rparr> = Some
      (case find (\<lambda>i. rg_state (sd_bsize sdp) rg i = state)
              [4 * bm_start (unat (sd_bsize sdp)) x + unat off..<unat (rt_data rg)] of
         None \<Rightarrow> (Some ENOSPC, \<lparr>rbm_offset = 0, rbm_bii = 0\<rparr>)
       | Some i \<Rightarrow> (None, rbm_at (sd_bsize sdp) i))"
proof (induction "unat (rt_length rg) - x" arbitrary: x n off)
  case 0
  then show ?case by simp
next
  case (Suc m)
  let ?b = "unat (sd_bsize sdp)" and ?rbm = "\<lparr>rbm_offset = off, rbm_bii = x\<rparr>"
  let ?P = "\<lambda>i. rg_state (sd_bsize sdp) rg i = state"
  let ?s = "bm_start ?b x" and ?e = "bm_end ?b rg x"
  have se: "?s < ?e" "?e \<le> unat (rt_bitbytes rg)" using bm_end_bounds [OF g Suc.prems(1)] by auto
  then have e: "4 * ?s + 4 * (?e - ?s) = 4 * ?e" "4 * ?e \<le> unat (rt_data rg)" using geomD(6) [OF g] by simp_all
  have split: "find ?P [4 * ?s + unat off..<unat (rt_data rg)] =
      (case map_option unat (rbm_bitfit rg state 0 ?rbm) of None \<Rightarrow> find ?P [4 * ?e..<unat (rt_data rg)]
       | Some k \<Rightarrow> Some (4 * ?s + k))"
    unfolding rbm_bitfit_at [OF g l Suc.prems(1,3) s]
    using find_upt_split [of "4 * ?s + unat off" "4 * ?e" "unat (rt_data rg)" ?P]
      find_shift [of ?P "4 * ?s" "unat off" "4 * (?e - ?s)"] Suc.prems(3) e
    by (auto split: option.splits)
  have n: "\<not> iters \<le> n" using Suc.prems(1,2) by simp
  show ?case
  proof (cases "rbm_bitfit rg state 0 ?rbm")
    case (Some k)
    then have "map_option unat (rbm_bitfit rg state 0 ?rbm) = Some (unat k)" by simp
    then have k: "unat k < 4 * (?e - ?s)"
      unfolding rbm_bitfit_at [OF g l Suc.prems(1,3) s] by (simp add: find_upt_Some)
    have "rbm_at (sd_bsize sdp) (4 * ?s + unat k) = \<lparr>rbm_offset = k, rbm_bii = x\<rparr>"
      using rg_state_in_bitmap(1) [OF g Suc.prems(1) k] by (simp add: rbm_at_def)
    with Some n split show ?thesis by (subst rbm_find_loop.simps) (simp add: Let_def)
  next
    case None
    show ?thesis
    proof (cases "Suc x = unat (rt_length rg)")
      case True
      then have "4 * ?e = unat (rt_data rg)" using g by (simp add: bm_end_next)
      with None n split True show ?thesis
        by (subst rbm_find_loop.simps) (simp add: rbm_next_bitmap_def)
    next
      case False
      with Suc.prems(1) have x: "Suc x < unat (rt_length rg)" by simp
      have "rbm_find_loop sdp rg state 0 iters n ?rbm
          = rbm_find_loop sdp rg state 0 iters (n + 1) \<lparr>rbm_offset = 0, rbm_bii = Suc x\<rparr>"
        using None n False by (subst rbm_find_loop.simps) (simp add: rbm_next_bitmap_def Let_def)
      also have "\<dots> = Some (case find ?P [4 * bm_start ?b (Suc x) + unat (0 :: u32)..<unat (rt_data rg)] of
         None \<Rightarrow> (Some ENOSPC, \<lparr>rbm_offset = 0, rbm_bii = 0\<rparr>) | Some i \<Rightarrow> (None, rbm_at (sd_bsize sdp) i))"
        using Suc.hyps(2) Suc.prems(2) x bm_end_bounds(1) [OF g x]
        by (intro Suc.hyps(1)) simp_all
      finally show ?thesis
        using split None bm_end_next(1) [OF g False] by simp
    qed
  qed
qed

text \<open>C17. Searching a group for one block (\<open>*minext == 0\<close>) from block \<open>i\<close> on returns, always, the first
  block at or after \<open>i\<close> that is in the wanted state, and ENOSPC when there is none: the search does
  not come back to the blocks before \<open>i\<close>, whatever their state.\<close>

theorem rbm_find_first:
  assumes "geom (sd_bsize sdp) rg" "loaded (sd_bsize sdp) rg" "state < 4" "i < unat (rt_data rg)"
  shows "lgfs2_rbm_find sdp rg (rbm_at (sd_bsize sdp) i) state 0 = Some
      (case find (\<lambda>j. rg_state (sd_bsize sdp) rg j = state) [i..<unat (rt_data rg)] of
         None \<Rightarrow> (Some ENOSPC, \<lparr>rbm_offset = 0, rbm_bii = 0\<rparr>)
       | Some j \<Rightarrow> (None, rbm_at (sd_bsize sdp) j))"
proof -
  let ?b = "unat (sd_bsize sdp)"
  note xi = bm_index_in_group [OF assms(1,4)] and o = rbm_at_offset [OF assms(1,4)]
  have "rbm_at (sd_bsize sdp) i = \<lparr>rbm_offset = rbm_offset (rbm_at (sd_bsize sdp) i), rbm_bii = bm_index ?b i\<rparr>"
    using o(2) by simp
  with rbm_find_loop_single [OF assms(1-3) xi(1), of 0 _ "rbm_offset (rbm_at (sd_bsize sdp) i)"] xi o
  show ?thesis by (simp add: lgfs2_rbm_find_def)
qed

theorem rbm_find_first_witness:
  "lgfs2_rbm_find sbd_example rgrp_example (rbm_at 512 5) GFS2_BLKST_FREE 0 = Some (None, rbm_at 512 5)
   \<and> lgfs2_rbm_find sbd_example rgrp_example (rbm_at 512 5) GFS2_BLKST_DINODE 0
     = Some (Some ENOSPC, \<lparr>rbm_offset = 0, rbm_bii = 0\<rparr>)"
proof -
  have ex: "sd_bsize sbd_example = 512" "unat (rt_data rgrp_example) = 16"
    by (simp_all add: sbd_example_def rgrp_example_def)
  have "find (\<lambda>j. rg_state 512 rgrp_example j = 0) [5..<16] = Some 5"
    "find (\<lambda>j. rg_state 512 rgrp_example j = 3) [5..<16] = None"
    by (auto simp: find_upt_Some find_upt_None rgrp_example_free)
  then show ?thesis
    using rbm_find_first [of sbd_example rgrp_example 0 5] rbm_find_first [of sbd_example rgrp_example 3 5]
      rgrp_example_geom by (simp add: ex)
qed

text \<open>\<open>lgfs2_free_extlen\<close> does not stop at the end of the group when the start is byte aligned: it
  counts the zero bytes of the bitmap block past the last block of the group as free blocks too. In
  a group of 16 blocks, all free, any length asked for that is a multiple of four and for which
  the block has bytes left is reported as free.\<close>

theorem free_extlen_past_group:
  assumes "unat len = 4 * n" "4 \<le> n" "n < 384"
  shows "unat (rt_data rgrp_example) = 16
   \<and> lgfs2_free_extlen sbd_example rgrp_example \<lparr>rbm_offset = 0, rbm_bii = 0\<rparr> len = Some len"
proof
  show "unat (rt_data rgrp_example) = 16" by (simp add: rgrp_example_def)
  have bytes: "check_bytes8 (replicate m (0 :: u8)) 0 k = None" if "k \<le> m" for m k
    using that by (induction k arbitrary: m) (auto simp: less_Suc_eq_le)
  have div: "unat (len div 4) = n" using assms(1) by (simp add: unat_div)
  have chunk: "len div 4 * 4 = len"
    using assms div by (simp add: word_unat_eq_iff unat_mult_no_wrap)
  have more: "3 < len" using assms(1,2) by (simp add: word_less_nat_alt)
  have u: "unat (ucast len :: u64) = 4 * n" using assms(1) by (simp add: unat_ucast_up)
  have "unat (201 + ucast len :: u64) = 201 + 4 * n"
    using assms u by (subst unat_add_no_wrap) simp_all
  then have past: "(217 :: u64) \<le> 201 + ucast len" "\<not> 0xFFFFFFFF < (ucast len :: u64)"
    using assms u by (simp_all add: word_le_nat_alt word_less_nat_alt)
  have "free_extlen_loop sbd_example rgrp_example \<lparr>rbm_offset = 0, rbm_bii = 0\<rparr> len (len AND 3)
      = Some (\<lparr>rbm_offset = 0, rbm_bii = 0\<rparr>, 0, 0)"
    using more past assms(3) by (subst free_extlen_loop.simps)
      (simp add: Let_def rbm_bi_def rgrp_example_def sbd_example_def buf_of_def bytes div chunk
        lgfs2_rbm_to_block_def lgfs2_rbm_from_block_def)
  then show "lgfs2_free_extlen sbd_example rgrp_example \<lparr>rbm_offset = 0, rbm_bii = 0\<rparr> len = Some len"
    by (simp add: lgfs2_free_extlen_def)
qed

theorem free_extlen_past_group_witness:
  "lgfs2_free_extlen sbd_example rgrp_example \<lparr>rbm_offset = 0, rbm_bii = 0\<rparr> 1000 = Some 1000"
  using free_extlen_past_group [of 1000 250] by simp

end
