(* ===== verification/Meta.thy ===== *)
theory Meta
  imports Ondisk
begin

text \<open>
  The metadata descriptions of meta.c: for every block type the fields of its structure with their
  offsets, lengths and units, the look-ups by type and name, and the conversion of a field to and
  from text. The tables are transcribed entry by entry; offsets and lengths come from the layouts
  of theory \<open>Layout\<close>, as \<open>offsetof\<close> and \<open>sizeof\<close> do in the macros.

  \<open>GFS2_HAS_LEAF_HINTS\<close> is set nowhere in the sources, so the leaf has the member \<open>lf_reserved\<close>.
\<close>

section \<open>Constants and structures\<close>

abbreviation (input) GFS2_FORMAT_NONE :: u32 where "GFS2_FORMAT_NONE \<equiv> 0"
abbreviation (input) GFS2_FORMAT_RI :: u32 where "GFS2_FORMAT_RI \<equiv> 1100"
abbreviation (input) GFS2_FORMAT_QU :: u32 where "GFS2_FORMAT_QU \<equiv> 1500"
abbreviation (input) GFS2_DIF_UNUSED :: u32 where "GFS2_DIF_UNUSED \<equiv> 0x00000004"
abbreviation (input) GFS2_DIF_EA_INDIRECT :: u32 where "GFS2_DIF_EA_INDIRECT \<equiv> 0x00000008"
abbreviation (input) GFS2_DIF_DIRECTIO :: u32 where "GFS2_DIF_DIRECTIO \<equiv> 0x00000010"
abbreviation (input) GFS2_DIF_IMMUTABLE :: u32 where "GFS2_DIF_IMMUTABLE \<equiv> 0x00000020"
abbreviation (input) GFS2_DIF_APPENDONLY :: u32 where "GFS2_DIF_APPENDONLY \<equiv> 0x00000040"
abbreviation (input) GFS2_DIF_NOATIME :: u32 where "GFS2_DIF_NOATIME \<equiv> 0x00000080"
abbreviation (input) GFS2_DIF_SYNC :: u32 where "GFS2_DIF_SYNC \<equiv> 0x00000100"
abbreviation (input) GFS2_DIF_SYSTEM :: u32 where "GFS2_DIF_SYSTEM \<equiv> 0x00000200"
abbreviation (input) GFS2_DIF_TRUNC_IN_PROG :: u32 where "GFS2_DIF_TRUNC_IN_PROG \<equiv> 0x20000000"
abbreviation (input) GFS2_DIF_INHERIT_DIRECTIO :: u32 where "GFS2_DIF_INHERIT_DIRECTIO \<equiv> 0x40000000"
abbreviation (input) GFS2_DIF_INHERIT_JDATA :: u32 where "GFS2_DIF_INHERIT_JDATA \<equiv> 0x80000000"
abbreviation (input) GFS2_LOG_HEAD_FLUSH_NORMAL :: u32 where "GFS2_LOG_HEAD_FLUSH_NORMAL \<equiv> 0x00000002"
abbreviation (input) GFS2_LOG_HEAD_FLUSH_SYNC :: u32 where "GFS2_LOG_HEAD_FLUSH_SYNC \<equiv> 0x00000004"
abbreviation (input) GFS2_LOG_HEAD_FLUSH_SHUTDOWN :: u32 where "GFS2_LOG_HEAD_FLUSH_SHUTDOWN \<equiv> 0x00000008"
abbreviation (input) GFS2_LOG_HEAD_FLUSH_FREEZE :: u32 where "GFS2_LOG_HEAD_FLUSH_FREEZE \<equiv> 0x00000010"
abbreviation (input) GFS2_LOG_HEAD_RECOVERY :: u32 where "GFS2_LOG_HEAD_RECOVERY \<equiv> 0x00000020"
abbreviation (input) GFS2_LFC_SHUTDOWN :: u32 where "GFS2_LFC_SHUTDOWN \<equiv> 0x00000100"
abbreviation (input) GFS2_LFC_JDATA_WPAGES :: u32 where "GFS2_LFC_JDATA_WPAGES \<equiv> 0x00000200"
abbreviation (input) GFS2_LFC_SET_FLAGS :: u32 where "GFS2_LFC_SET_FLAGS \<equiv> 0x00000400"
abbreviation (input) GFS2_LFC_AIL_EMPTY_GL :: u32 where "GFS2_LFC_AIL_EMPTY_GL \<equiv> 0x00000800"
abbreviation (input) GFS2_LFC_AIL_FLUSH :: u32 where "GFS2_LFC_AIL_FLUSH \<equiv> 0x00001000"
abbreviation (input) GFS2_LFC_RGRP_GO_SYNC :: u32 where "GFS2_LFC_RGRP_GO_SYNC \<equiv> 0x00002000"
abbreviation (input) GFS2_LFC_INODE_GO_SYNC :: u32 where "GFS2_LFC_INODE_GO_SYNC \<equiv> 0x00004000"
abbreviation (input) GFS2_LFC_INODE_GO_INVAL :: u32 where "GFS2_LFC_INODE_GO_INVAL \<equiv> 0x00008000"
abbreviation (input) GFS2_LFC_FREEZE_GO_SYNC :: u32 where "GFS2_LFC_FREEZE_GO_SYNC \<equiv> 0x00010000"
abbreviation (input) GFS2_LFC_KILL_SB :: u32 where "GFS2_LFC_KILL_SB \<equiv> 0x00020000"
abbreviation (input) GFS2_LFC_DO_SYNC :: u32 where "GFS2_LFC_DO_SYNC \<equiv> 0x00040000"
abbreviation (input) GFS2_LFC_INPLACE_RESERVE :: u32 where "GFS2_LFC_INPLACE_RESERVE \<equiv> 0x00080000"
abbreviation (input) GFS2_LFC_WRITE_INODE :: u32 where "GFS2_LFC_WRITE_INODE \<equiv> 0x00100000"
abbreviation (input) GFS2_LFC_MAKE_FS_RO :: u32 where "GFS2_LFC_MAKE_FS_RO \<equiv> 0x00200000"
abbreviation (input) GFS2_LFC_SYNC_FS :: u32 where "GFS2_LFC_SYNC_FS \<equiv> 0x00400000"
abbreviation (input) GFS2_LFC_EVICT_INODE :: u32 where "GFS2_LFC_EVICT_INODE \<equiv> 0x00800000"
abbreviation (input) GFS2_LFC_TRANS_END :: u32 where "GFS2_LFC_TRANS_END \<equiv> 0x01000000"
abbreviation (input) GFS2_LFC_LOGD_JFLUSH_REQD :: u32 where "GFS2_LFC_LOGD_JFLUSH_REQD \<equiv> 0x02000000"
abbreviation (input) GFS2_LFC_LOGD_AIL_FLUSH_REQD :: u32 where "GFS2_LFC_LOGD_AIL_FLUSH_REQD \<equiv> 0x04000000"
abbreviation (input) GFS2_LOG_DESC_METADATA :: u32 where "GFS2_LOG_DESC_METADATA \<equiv> 300"
abbreviation (input) GFS2_LOG_DESC_REVOKE :: u32 where "GFS2_LOG_DESC_REVOKE \<equiv> 301"
abbreviation (input) GFS2_LOG_DESC_JDATA :: u32 where "GFS2_LOG_DESC_JDATA \<equiv> 302"
abbreviation (input) GFS_LOG_DESC_METADATA :: u32 where "GFS_LOG_DESC_METADATA \<equiv> 300"
abbreviation (input) GFS_LOG_DESC_IUL :: u32 where "GFS_LOG_DESC_IUL \<equiv> 400"
abbreviation (input) GFS_LOG_DESC_IDA :: u32 where "GFS_LOG_DESC_IDA \<equiv> 401"
abbreviation (input) GFS_LOG_DESC_Q :: u32 where "GFS_LOG_DESC_Q \<equiv> 402"
abbreviation (input) GFS_LOG_DESC_LAST :: u32 where "GFS_LOG_DESC_LAST \<equiv> 500"
abbreviation (input) GFS_FORMAT_SB :: u32 where "GFS_FORMAT_SB \<equiv> 100"

abbreviation (input) LGFS2_MT_GFS2_SB :: nat where "LGFS2_MT_GFS2_SB \<equiv> 0"
abbreviation (input) LGFS2_MT_GFS_SB :: nat where "LGFS2_MT_GFS_SB \<equiv> 1"
abbreviation (input) LGFS2_MT_RINDEX :: nat where "LGFS2_MT_RINDEX \<equiv> 2"
abbreviation (input) LGFS2_MT_GFS2_RGRP :: nat where "LGFS2_MT_GFS2_RGRP \<equiv> 3"
abbreviation (input) LGFS2_MT_GFS_RGRP :: nat where "LGFS2_MT_GFS_RGRP \<equiv> 4"
abbreviation (input) LGFS2_MT_RGRP_BITMAP :: nat where "LGFS2_MT_RGRP_BITMAP \<equiv> 5"
abbreviation (input) LGFS2_MT_GFS2_DINODE :: nat where "LGFS2_MT_GFS2_DINODE \<equiv> 6"
abbreviation (input) LGFS2_MT_GFS_DINODE :: nat where "LGFS2_MT_GFS_DINODE \<equiv> 7"
abbreviation (input) LGFS2_MT_GFS2_INDIRECT :: nat where "LGFS2_MT_GFS2_INDIRECT \<equiv> 8"
abbreviation (input) LGFS2_MT_GFS_INDIRECT :: nat where "LGFS2_MT_GFS_INDIRECT \<equiv> 9"
abbreviation (input) LGFS2_MT_DIR_LEAF :: nat where "LGFS2_MT_DIR_LEAF \<equiv> 10"
abbreviation (input) LGFS2_MT_JRNL_DATA :: nat where "LGFS2_MT_JRNL_DATA \<equiv> 11"
abbreviation (input) LGFS2_MT_GFS2_LOG_HEADER :: nat where "LGFS2_MT_GFS2_LOG_HEADER \<equiv> 12"
abbreviation (input) LGFS2_MT_GFS_LOG_HEADER :: nat where "LGFS2_MT_GFS_LOG_HEADER \<equiv> 13"
abbreviation (input) LGFS2_MT_GFS2_LOG_DESC :: nat where "LGFS2_MT_GFS2_LOG_DESC \<equiv> 14"
abbreviation (input) LGFS2_MT_GFS_LOG_DESC :: nat where "LGFS2_MT_GFS_LOG_DESC \<equiv> 15"
abbreviation (input) LGFS2_MT_GFS2_LOG_BLOCK :: nat where "LGFS2_MT_GFS2_LOG_BLOCK \<equiv> 16"
abbreviation (input) LGFS2_MT_EA_ATTR :: nat where "LGFS2_MT_EA_ATTR \<equiv> 17"
abbreviation (input) LGFS2_MT_EA_DATA :: nat where "LGFS2_MT_EA_DATA \<equiv> 18"
abbreviation (input) LGFS2_MT_GFS2_QUOTA_CHANGE :: nat where "LGFS2_MT_GFS2_QUOTA_CHANGE \<equiv> 19"
abbreviation (input) LGFS2_MT_DIRENT :: nat where "LGFS2_MT_DIRENT \<equiv> 20"
abbreviation (input) LGFS2_MT_EA_HEADER :: nat where "LGFS2_MT_EA_HEADER \<equiv> 21"
abbreviation (input) LGFS2_MT_GFS2_INUM_RANGE :: nat where "LGFS2_MT_GFS2_INUM_RANGE \<equiv> 22"
abbreviation (input) LGFS2_MT_STATFS_CHANGE :: nat where "LGFS2_MT_STATFS_CHANGE \<equiv> 23"
abbreviation (input) LGFS2_MT_GFS_JINDEX :: nat where "LGFS2_MT_GFS_JINDEX \<equiv> 24"
abbreviation (input) LGFS2_MT_GFS_BLOCK_TAG :: nat where "LGFS2_MT_GFS_BLOCK_TAG \<equiv> 25"
abbreviation (input) LGFS2_MT_DATA :: nat where "LGFS2_MT_DATA \<equiv> 26"
abbreviation (input) LGFS2_MT_FREE :: nat where "LGFS2_MT_FREE \<equiv> 27"

abbreviation (input) LGFS2_MFF_RESERVED :: u32 where "LGFS2_MFF_RESERVED \<equiv> 0x00001"
abbreviation (input) LGFS2_MFF_POINTER :: u32 where "LGFS2_MFF_POINTER \<equiv> 0x00002"
abbreviation (input) LGFS2_MFF_ENUM :: u32 where "LGFS2_MFF_ENUM \<equiv> 0x00004"
abbreviation (input) LGFS2_MFF_MASK :: u32 where "LGFS2_MFF_MASK \<equiv> 0x00008"
abbreviation (input) LGFS2_MFF_UUID :: u32 where "LGFS2_MFF_UUID \<equiv> 0x00010"
abbreviation (input) LGFS2_MFF_STRING :: u32 where "LGFS2_MFF_STRING \<equiv> 0x00020"
abbreviation (input) LGFS2_MFF_UID :: u32 where "LGFS2_MFF_UID \<equiv> 0x00040"
abbreviation (input) LGFS2_MFF_GID :: u32 where "LGFS2_MFF_GID \<equiv> 0x00080"
abbreviation (input) LGFS2_MFF_MODE :: u32 where "LGFS2_MFF_MODE \<equiv> 0x00100"
abbreviation (input) LGFS2_MFF_FSBLOCKS :: u32 where "LGFS2_MFF_FSBLOCKS \<equiv> 0x00200"
abbreviation (input) LGFS2_MFF_BYTES :: u32 where "LGFS2_MFF_BYTES \<equiv> 0x00400"
abbreviation (input) LGFS2_MFF_SHIFT :: u32 where "LGFS2_MFF_SHIFT \<equiv> 0x00800"
abbreviation (input) LGFS2_MFF_CHECK :: u32 where "LGFS2_MFF_CHECK \<equiv> 0x01000"
abbreviation (input) LGFS2_MFF_SECS :: u32 where "LGFS2_MFF_SECS \<equiv> 0x02000"
abbreviation (input) LGFS2_MFF_NSECS :: u32 where "LGFS2_MFF_NSECS \<equiv> 0x04000"
abbreviation (input) LGFS2_MFF_MAJOR :: u32 where "LGFS2_MFF_MAJOR \<equiv> 0x08000"
abbreviation (input) LGFS2_MFF_MINOR :: u32 where "LGFS2_MFF_MINOR \<equiv> 0x10000"
abbreviation (input) LGFS2_MD_GFS1 :: u32 where "LGFS2_MD_GFS1 \<equiv> 0x01"
abbreviation (input) LGFS2_MD_GFS2 :: u32 where "LGFS2_MD_GFS2 \<equiv> 0x02"

record lgfs2_symbolic =
  sym_key :: u32
  sym_value :: string
  sym_prefix :: nat

record lgfs2_metafield =
  mf_name :: string
  mf_offset :: nat
  mf_length :: nat
  mf_flags :: u32
  points_to :: u32
  symtab :: "lgfs2_symbolic list"

record lgfs2_metadata =
  md_versions :: u32
  md_header :: bool
  md_mh_type :: u32
  md_mh_format :: u32
  md_name :: string
  md_display :: string
  md_fields :: "lgfs2_metafield list"
  md_size :: nat

definition SYM :: "u32 \<Rightarrow> string \<Rightarrow> lgfs2_symbolic" where
  "SYM x s = \<lparr>sym_key = x, sym_value = s, sym_prefix = 0\<rparr>"

definition PREFIX_SYM :: "u32 \<Rightarrow> string \<Rightarrow> string \<Rightarrow> lgfs2_symbolic" where
  "PREFIX_SYM k p x = \<lparr>sym_key = k, sym_value = p @ x, sym_prefix = length p\<rparr>"

section \<open>Symbols\<close>

definition lgfs2_metatypes :: "lgfs2_symbolic list" where
  "lgfs2_metatypes =
    [SYM GFS2_METATYPE_NONE ''GFS2_METATYPE_NONE'',
     SYM GFS2_METATYPE_SB ''GFS2_METATYPE_SB'',
     SYM GFS2_METATYPE_RG ''GFS2_METATYPE_RG'',
     SYM GFS2_METATYPE_RB ''GFS2_METATYPE_RB'',
     SYM GFS2_METATYPE_DI ''GFS2_METATYPE_DI'',
     SYM GFS2_METATYPE_IN ''GFS2_METATYPE_IN'',
     SYM GFS2_METATYPE_LF ''GFS2_METATYPE_LF'',
     SYM GFS2_METATYPE_JD ''GFS2_METATYPE_JD'',
     SYM GFS2_METATYPE_LH ''GFS2_METATYPE_LH'',
     SYM GFS2_METATYPE_LD ''GFS2_METATYPE_LD'',
     SYM GFS2_METATYPE_LB ''GFS2_METATYPE_LB'',
     SYM GFS2_METATYPE_EA ''GFS2_METATYPE_EA'',
     SYM GFS2_METATYPE_ED ''GFS2_METATYPE_ED'',
     SYM GFS2_METATYPE_QC ''GFS2_METATYPE_QC'']"

definition lgfs2_metaformats :: "lgfs2_symbolic list" where
  "lgfs2_metaformats =
    [SYM GFS2_FORMAT_NONE ''GFS2_FORMAT_NONE'',
     SYM GFS2_FORMAT_SB ''GFS2_FORMAT_SB'',
     SYM GFS2_FORMAT_RG ''GFS2_FORMAT_RG'',
     SYM GFS2_FORMAT_RB ''GFS2_FORMAT_RB'',
     SYM GFS2_FORMAT_DI ''GFS2_FORMAT_DI'',
     SYM GFS2_FORMAT_IN ''GFS2_FORMAT_IN'',
     SYM GFS2_FORMAT_LF ''GFS2_FORMAT_LF'',
     SYM GFS2_FORMAT_JD ''GFS2_FORMAT_JD'',
     SYM GFS2_FORMAT_LH ''GFS2_FORMAT_LH'',
     SYM GFS2_FORMAT_LD ''GFS2_FORMAT_LD'',
     SYM GFS2_FORMAT_LB ''GFS2_FORMAT_LB'',
     SYM GFS2_FORMAT_EA ''GFS2_FORMAT_EA'',
     SYM GFS2_FORMAT_ED ''GFS2_FORMAT_ED'',
     SYM GFS2_FORMAT_QC ''GFS2_FORMAT_QC'',
     SYM GFS2_FORMAT_RI ''GFS2_FORMAT_RI'',
     SYM GFS2_FORMAT_DE ''GFS2_FORMAT_DE'',
     SYM GFS2_FORMAT_QU ''GFS2_FORMAT_QU'']"

definition lgfs2_di_flags :: "lgfs2_symbolic list" where
  "lgfs2_di_flags =
    [SYM GFS2_DIF_JDATA ''GFS2_DIF_JDATA'',
     SYM GFS2_DIF_EXHASH ''GFS2_DIF_EXHASH'',
     SYM GFS2_DIF_UNUSED ''GFS2_DIF_UNUSED'',
     SYM GFS2_DIF_EA_INDIRECT ''GFS2_DIF_EA_INDIRECT'',
     SYM GFS2_DIF_DIRECTIO ''GFS2_DIF_DIRECTIO'',
     SYM GFS2_DIF_IMMUTABLE ''GFS2_DIF_IMMUTABLE'',
     SYM GFS2_DIF_APPENDONLY ''GFS2_DIF_APPENDONLY'',
     SYM GFS2_DIF_NOATIME ''GFS2_DIF_NOATIME'',
     SYM GFS2_DIF_SYNC ''GFS2_DIF_SYNC'',
     SYM GFS2_DIF_SYSTEM ''GFS2_DIF_SYSTEM'',
     SYM GFS2_DIF_TRUNC_IN_PROG ''GFS2_DIF_TRUNC_IN_PROG'',
     SYM GFS2_DIF_INHERIT_DIRECTIO ''GFS2_DIF_INHERIT_DIRECTIO'',
     SYM GFS2_DIF_INHERIT_JDATA ''GFS2_DIF_INHERIT_JDATA'']"

definition lgfs2_lh_flags :: "lgfs2_symbolic list" where
  "lgfs2_lh_flags =
    [PREFIX_SYM GFS2_LOG_HEAD_UNMOUNT ''GFS2_LOG_HEAD_'' ''UNMOUNT'',
     PREFIX_SYM GFS2_LOG_HEAD_FLUSH_NORMAL ''GFS2_LOG_HEAD_FLUSH_'' ''NORMAL'',
     PREFIX_SYM GFS2_LOG_HEAD_FLUSH_SYNC ''GFS2_LOG_HEAD_FLUSH_'' ''SYNC'',
     PREFIX_SYM GFS2_LOG_HEAD_FLUSH_SHUTDOWN ''GFS2_LOG_HEAD_FLUSH_'' ''SHUTDOWN'',
     PREFIX_SYM GFS2_LOG_HEAD_FLUSH_FREEZE ''GFS2_LOG_HEAD_FLUSH_'' ''FREEZE'',
     PREFIX_SYM GFS2_LOG_HEAD_RECOVERY ''GFS2_LOG_HEAD_'' ''RECOVERY'',
     PREFIX_SYM GFS2_LOG_HEAD_USERSPACE ''GFS2_LOG_HEAD_'' ''USERSPACE'',
     PREFIX_SYM GFS2_LFC_SHUTDOWN ''GFS2_LFC_'' ''SHUTDOWN'',
     PREFIX_SYM GFS2_LFC_JDATA_WPAGES ''GFS2_LFC_'' ''JDATA_WPAGES'',
     PREFIX_SYM GFS2_LFC_SET_FLAGS ''GFS2_LFC_'' ''SET_FLAGS'',
     PREFIX_SYM GFS2_LFC_AIL_EMPTY_GL ''GFS2_LFC_'' ''AIL_EMPTY_GL'',
     PREFIX_SYM GFS2_LFC_AIL_FLUSH ''GFS2_LFC_'' ''AIL_FLUSH'',
     PREFIX_SYM GFS2_LFC_RGRP_GO_SYNC ''GFS2_LFC_'' ''RGRP_GO_SYNC'',
     PREFIX_SYM GFS2_LFC_INODE_GO_SYNC ''GFS2_LFC_'' ''INODE_GO_SYNC'',
     PREFIX_SYM GFS2_LFC_INODE_GO_INVAL ''GFS2_LFC_'' ''INODE_GO_INVAL'',
     PREFIX_SYM GFS2_LFC_FREEZE_GO_SYNC ''GFS2_LFC_'' ''FREEZE_GO_SYNC'',
     PREFIX_SYM GFS2_LFC_KILL_SB ''GFS2_LFC_'' ''KILL_SB'',
     PREFIX_SYM GFS2_LFC_DO_SYNC ''GFS2_LFC_'' ''DO_SYNC'',
     PREFIX_SYM GFS2_LFC_INPLACE_RESERVE ''GFS2_LFC_'' ''INPLACE_RESERVE'',
     PREFIX_SYM GFS2_LFC_WRITE_INODE ''GFS2_LFC_'' ''WRITE_INODE'',
     PREFIX_SYM GFS2_LFC_MAKE_FS_RO ''GFS2_LFC_'' ''MAKE_FS_RO'',
     PREFIX_SYM GFS2_LFC_SYNC_FS ''GFS2_LFC_'' ''SYNC_FS'',
     PREFIX_SYM GFS2_LFC_EVICT_INODE ''GFS2_LFC_'' ''EVICT_INODE'',
     PREFIX_SYM GFS2_LFC_TRANS_END ''GFS2_LFC_'' ''TRANS_END'',
     PREFIX_SYM GFS2_LFC_LOGD_JFLUSH_REQD ''GFS2_LFC_'' ''LOGD_JFLUSH_REQD'',
     PREFIX_SYM GFS2_LFC_LOGD_AIL_FLUSH_REQD ''GFS2_LFC_'' ''LOGD_AIL_FLUSH_REQD'']"

definition lgfs2_ld_types :: "lgfs2_symbolic list" where
  "lgfs2_ld_types =
    [SYM GFS2_LOG_DESC_METADATA ''GFS2_LOG_DESC_METADATA'',
     SYM GFS2_LOG_DESC_REVOKE ''GFS2_LOG_DESC_REVOKE'',
     SYM GFS2_LOG_DESC_JDATA ''GFS2_LOG_DESC_JDATA'']"

definition lgfs2_ld1_types :: "lgfs2_symbolic list" where
  "lgfs2_ld1_types =
    [SYM GFS_LOG_DESC_METADATA ''GFS_LOG_DESC_METADATA'',
     SYM GFS_LOG_DESC_IUL ''GFS_LOG_DESC_IUL'',
     SYM GFS_LOG_DESC_IDA ''GFS_LOG_DESC_IDA'',
     SYM GFS_LOG_DESC_Q ''GFS_LOG_DESC_Q'',
     SYM GFS_LOG_DESC_LAST ''GFS_LOG_DESC_LAST'']"

section \<open>Fields\<close>

text \<open>The macros \<open>F\<close>, \<open>FP\<close>, \<open>RF\<close>, \<open>RFP\<close>, \<open>MH\<close>, \<open>IN\<close> and \<open>INR\<close>; the first argument is \<open>STRUCT\<close>.\<close>

definition sizeof_member :: "layout \<Rightarrow> string \<Rightarrow> nat" where
  "sizeof_member l f = (case map_of (member_offsets 0 l) f of Some (off, s) \<Rightarrow> s | None \<Rightarrow> 0)"

definition F :: "layout \<Rightarrow> string \<Rightarrow> u32 \<Rightarrow> u32 \<Rightarrow> lgfs2_symbolic list \<Rightarrow> lgfs2_metafield list" where
  "F l f flags pts syms = [\<lparr>mf_name = f, mf_offset = offsetof l f, mf_length = sizeof_member l f,
     mf_flags = flags, points_to = pts, symtab = syms\<rparr>]"

definition FP :: "layout \<Rightarrow> string \<Rightarrow> u32 \<Rightarrow> lgfs2_metafield list" where
  "FP l f pts = F l f LGFS2_MFF_POINTER pts []"

definition RF :: "layout \<Rightarrow> string \<Rightarrow> lgfs2_metafield list" where
  "RF l f = F l f LGFS2_MFF_RESERVED 0 []"

text \<open>Members \<open>f.m\<close> of an embedded structure.\<close>

definition sub_field :: "layout \<Rightarrow> string \<Rightarrow> layout \<Rightarrow> string \<Rightarrow> u32 \<Rightarrow> u32 \<Rightarrow> lgfs2_symbolic list
    \<Rightarrow> lgfs2_metafield list" where
  "sub_field l f l' m flags pts syms = [\<lparr>mf_name = f @ ''.'' @ m, mf_offset = offsetof l f + offsetof l' m,
     mf_length = sizeof_member l' m, mf_flags = flags, points_to = pts, symtab = syms\<rparr>]"

definition MH :: "layout \<Rightarrow> string \<Rightarrow> lgfs2_metafield list" where
  "MH l f =
     sub_field l f struct_gfs2_meta_header ''mh_magic'' 0 0 [] @
     sub_field l f struct_gfs2_meta_header ''mh_type'' LGFS2_MFF_ENUM 0 lgfs2_metatypes @
     sub_field l f struct_gfs2_meta_header ''__pad0'' LGFS2_MFF_RESERVED 0 [] @
     sub_field l f struct_gfs2_meta_header ''mh_format'' LGFS2_MFF_ENUM 0 lgfs2_metaformats @
     sub_field l f struct_gfs2_meta_header ''mh_jid'' 0 0 []"

definition IN :: "layout \<Rightarrow> string \<Rightarrow> u32 \<Rightarrow> lgfs2_metafield list" where
  "IN l f pts =
     sub_field l f struct_gfs2_inum ''no_formal_ino'' 0 0 [] @
     sub_field l f struct_gfs2_inum ''no_addr'' LGFS2_MFF_POINTER pts []"

definition INR :: "layout \<Rightarrow> string \<Rightarrow> u32 \<Rightarrow> lgfs2_metafield list" where
  "INR l f pts =
     sub_field l f struct_gfs2_inum ''no_formal_ino'' LGFS2_MFF_RESERVED 0 [] @
     sub_field l f struct_gfs2_inum ''no_addr'' (LGFS2_MFF_POINTER OR LGFS2_MFF_RESERVED) pts []"

definition MT :: "nat \<Rightarrow> u32" where "MT n = push_bit n 1"

definition ANY_COMMON_BLOCK :: u32 where
  "ANY_COMMON_BLOCK = MT LGFS2_MT_DIR_LEAF OR MT LGFS2_MT_JRNL_DATA OR MT LGFS2_MT_EA_ATTR OR
     MT LGFS2_MT_EA_DATA OR MT LGFS2_MT_DATA"

definition ANY_GFS2_BLOCK :: u32 where
  "ANY_GFS2_BLOCK = MT LGFS2_MT_GFS2_DINODE OR MT LGFS2_MT_GFS2_INDIRECT OR
     MT LGFS2_MT_GFS2_LOG_HEADER OR MT LGFS2_MT_GFS2_LOG_DESC OR MT LGFS2_MT_GFS2_LOG_BLOCK OR
     ANY_COMMON_BLOCK"

definition ANY_GFS_BLOCK :: u32 where
  "ANY_GFS_BLOCK = MT LGFS2_MT_GFS_DINODE OR MT LGFS2_MT_GFS_INDIRECT OR ANY_COMMON_BLOCK"

text \<open>
  Structures that only meta.c declares: a header and nothing else, gfs1's block tag, and the leaf
  with its union seen as \<open>lf_reserved\<close>.
\<close>

definition struct_header_only :: "string \<Rightarrow> layout" where
  "struct_header_only h = [mh_m h]"

definition struct_gfs_block_tag :: layout where
  "struct_gfs_block_tag = [be64_m ''bt_blkno'', be32_m ''bt_flags'', be32_m ''bt_pad'']"

definition struct_gfs2_leaf_reserved :: layout where
  "struct_gfs2_leaf_reserved =
    [mh_m ''lf_header'', be16_m ''lf_depth'', be16_m ''lf_entries'', be32_m ''lf_dirent_format'',
     be64_m ''lf_next'', arr_m ''lf_reserved'' 64]"

definition gfs2_sb_fields :: "lgfs2_metafield list" where
  "gfs2_sb_fields = concat
    [MH struct_gfs2_sb ''sb_header'',
     F struct_gfs2_sb ''sb_fs_format'' 0 0 [],
     F struct_gfs2_sb ''sb_multihost_format'' 0 0 [],
     RF struct_gfs2_sb ''__pad0'',
     F struct_gfs2_sb ''sb_bsize'' LGFS2_MFF_BYTES 0 [],
     F struct_gfs2_sb ''sb_bsize_shift'' (LGFS2_MFF_BYTES OR LGFS2_MFF_SHIFT) 0 [],
     RF struct_gfs2_sb ''__pad1'',
     IN struct_gfs2_sb ''sb_master_dir'' (MT LGFS2_MT_GFS2_DINODE),
     INR struct_gfs2_sb ''__pad2'' (MT LGFS2_MT_GFS2_DINODE),
     IN struct_gfs2_sb ''sb_root_dir'' (MT LGFS2_MT_GFS2_DINODE),
     F struct_gfs2_sb ''sb_lockproto'' LGFS2_MFF_STRING 0 [],
     F struct_gfs2_sb ''sb_locktable'' LGFS2_MFF_STRING 0 [],
     INR struct_gfs2_sb ''__pad3'' (MT LGFS2_MT_GFS2_DINODE),
     INR struct_gfs2_sb ''__pad4'' (MT LGFS2_MT_GFS2_DINODE),
     F struct_gfs2_sb ''sb_uuid'' LGFS2_MFF_UUID 0 []]"

definition gfs_sb_fields :: "lgfs2_metafield list" where
  "gfs_sb_fields = concat
    [MH struct_gfs_sb ''sb_header'',
     F struct_gfs_sb ''sb_fs_format'' 0 0 [],
     F struct_gfs_sb ''sb_multihost_format'' 0 0 [],
     F struct_gfs_sb ''sb_flags'' 0 0 [],
     F struct_gfs_sb ''sb_bsize'' LGFS2_MFF_BYTES 0 [],
     F struct_gfs_sb ''sb_bsize_shift'' (LGFS2_MFF_BYTES OR LGFS2_MFF_SHIFT) 0 [],
     F struct_gfs_sb ''sb_seg_size'' LGFS2_MFF_FSBLOCKS 0 [],
     IN struct_gfs_sb ''sb_jindex_di'' (MT LGFS2_MT_GFS_DINODE),
     IN struct_gfs_sb ''sb_rindex_di'' (MT LGFS2_MT_GFS_DINODE),
     IN struct_gfs_sb ''sb_root_di'' (MT LGFS2_MT_GFS_DINODE),
     F struct_gfs_sb ''sb_lockproto'' LGFS2_MFF_STRING 0 [],
     F struct_gfs_sb ''sb_locktable'' LGFS2_MFF_STRING 0 [],
     IN struct_gfs_sb ''sb_quota_di'' (MT LGFS2_MT_GFS_DINODE),
     IN struct_gfs_sb ''sb_license_di'' (MT LGFS2_MT_GFS_DINODE),
     RF struct_gfs_sb ''sb_reserved'']"

definition gfs2_rindex_fields :: "lgfs2_metafield list" where
  "gfs2_rindex_fields = concat
    [FP struct_gfs2_rindex ''ri_addr'' (MT LGFS2_MT_GFS2_RGRP),
     F struct_gfs2_rindex ''ri_length'' LGFS2_MFF_FSBLOCKS 0 [],
     RF struct_gfs2_rindex ''__pad'',
     FP struct_gfs2_rindex ''ri_data0'' (ANY_GFS2_BLOCK OR MT LGFS2_MT_FREE),
     F struct_gfs2_rindex ''ri_data'' LGFS2_MFF_FSBLOCKS 0 [],
     F struct_gfs2_rindex ''ri_bitbytes'' LGFS2_MFF_BYTES 0 [],
     F struct_gfs2_rindex ''ri_reserved'' 0 0 []]"

definition gfs2_rgrp_fields :: "lgfs2_metafield list" where
  "gfs2_rgrp_fields = concat
    [MH struct_gfs2_rgrp ''rg_header'',
     F struct_gfs2_rgrp ''rg_flags'' 0 0 [],
     F struct_gfs2_rgrp ''rg_free'' LGFS2_MFF_FSBLOCKS 0 [],
     F struct_gfs2_rgrp ''rg_dinodes'' LGFS2_MFF_FSBLOCKS 0 [],
     FP struct_gfs2_rgrp ''rg_skip'' (MT LGFS2_MT_GFS2_RGRP),
     F struct_gfs2_rgrp ''rg_igeneration'' 0 0 [],
     FP struct_gfs2_rgrp ''rg_data0'' (ANY_GFS2_BLOCK OR MT LGFS2_MT_FREE),
     F struct_gfs2_rgrp ''rg_data'' LGFS2_MFF_FSBLOCKS 0 [],
     F struct_gfs2_rgrp ''rg_bitbytes'' LGFS2_MFF_BYTES 0 [],
     F struct_gfs2_rgrp ''rg_crc'' LGFS2_MFF_CHECK 0 [],
     RF struct_gfs2_rgrp ''rg_reserved'']"

definition gfs_rgrp_fields :: "lgfs2_metafield list" where
  "gfs_rgrp_fields = concat
    [MH struct_gfs_rgrp ''rg_header'',
     F struct_gfs_rgrp ''rg_flags'' 0 0 [],
     F struct_gfs_rgrp ''rg_free'' LGFS2_MFF_FSBLOCKS 0 [],
     F struct_gfs_rgrp ''rg_useddi'' LGFS2_MFF_FSBLOCKS 0 [],
     F struct_gfs_rgrp ''rg_freedi'' LGFS2_MFF_FSBLOCKS 0 [],
     IN struct_gfs_rgrp ''rg_freedi_list'' (MT LGFS2_MT_GFS_DINODE),
     F struct_gfs_rgrp ''rg_usedmeta'' LGFS2_MFF_FSBLOCKS 0 [],
     F struct_gfs_rgrp ''rg_freemeta'' LGFS2_MFF_FSBLOCKS 0 [],
     RF struct_gfs_rgrp ''rg_reserved'']"

definition gfs2_rgrp_bitmap_fields :: "lgfs2_metafield list" where
  "gfs2_rgrp_bitmap_fields = concat
    [MH (struct_header_only ''rb_header'') ''rb_header'']"

definition gfs2_dinode_fields :: "lgfs2_metafield list" where
  "gfs2_dinode_fields = concat
    [MH struct_gfs2_dinode ''di_header'',
     IN struct_gfs2_dinode ''di_num'' (MT LGFS2_MT_GFS2_DINODE),
     F struct_gfs2_dinode ''di_mode'' LGFS2_MFF_MODE 0 [],
     F struct_gfs2_dinode ''di_uid'' LGFS2_MFF_UID 0 [],
     F struct_gfs2_dinode ''di_gid'' LGFS2_MFF_GID 0 [],
     F struct_gfs2_dinode ''di_nlink'' 0 0 [],
     F struct_gfs2_dinode ''di_size'' LGFS2_MFF_BYTES 0 [],
     F struct_gfs2_dinode ''di_blocks'' LGFS2_MFF_FSBLOCKS 0 [],
     F struct_gfs2_dinode ''di_atime'' LGFS2_MFF_SECS 0 [],
     F struct_gfs2_dinode ''di_mtime'' LGFS2_MFF_SECS 0 [],
     F struct_gfs2_dinode ''di_ctime'' LGFS2_MFF_SECS 0 [],
     F struct_gfs2_dinode ''di_major'' LGFS2_MFF_MAJOR 0 [],
     F struct_gfs2_dinode ''di_minor'' LGFS2_MFF_MINOR 0 [],
     FP struct_gfs2_dinode ''di_goal_meta'' (ANY_GFS2_BLOCK OR MT LGFS2_MT_FREE),
     FP struct_gfs2_dinode ''di_goal_data'' (ANY_GFS2_BLOCK OR MT LGFS2_MT_FREE),
     F struct_gfs2_dinode ''di_generation'' 0 0 [],
     F struct_gfs2_dinode ''di_flags'' LGFS2_MFF_MASK 0 lgfs2_di_flags,
     F struct_gfs2_dinode ''di_payload_format'' 0 0 [],
     RF struct_gfs2_dinode ''__pad1'',
     F struct_gfs2_dinode ''di_height'' 0 0 [],
     RF struct_gfs2_dinode ''__pad2'',
     RF struct_gfs2_dinode ''__pad3'',
     F struct_gfs2_dinode ''di_depth'' 0 0 [],
     F struct_gfs2_dinode ''di_entries'' 0 0 [],
     INR struct_gfs2_dinode ''__pad4'' (MT LGFS2_MT_GFS2_DINODE),
     FP struct_gfs2_dinode ''di_eattr'' (MT LGFS2_MT_EA_ATTR OR MT LGFS2_MT_GFS2_INDIRECT),
     F struct_gfs2_dinode ''di_atime_nsec'' LGFS2_MFF_NSECS 0 [],
     F struct_gfs2_dinode ''di_mtime_nsec'' LGFS2_MFF_NSECS 0 [],
     F struct_gfs2_dinode ''di_ctime_nsec'' LGFS2_MFF_NSECS 0 [],
     RF struct_gfs2_dinode ''di_reserved'']"

definition gfs_dinode_fields :: "lgfs2_metafield list" where
  "gfs_dinode_fields = concat
    [MH struct_gfs_dinode ''di_header'',
     IN struct_gfs_dinode ''di_num'' (MT LGFS2_MT_GFS_DINODE),
     F struct_gfs_dinode ''di_mode'' LGFS2_MFF_MODE 0 [],
     F struct_gfs_dinode ''di_uid'' LGFS2_MFF_UID 0 [],
     F struct_gfs_dinode ''di_gid'' LGFS2_MFF_GID 0 [],
     F struct_gfs_dinode ''di_nlink'' 0 0 [],
     F struct_gfs_dinode ''di_size'' LGFS2_MFF_BYTES 0 [],
     F struct_gfs_dinode ''di_blocks'' LGFS2_MFF_FSBLOCKS 0 [],
     F struct_gfs_dinode ''di_atime'' LGFS2_MFF_SECS 0 [],
     F struct_gfs_dinode ''di_mtime'' LGFS2_MFF_SECS 0 [],
     F struct_gfs_dinode ''di_ctime'' LGFS2_MFF_SECS 0 [],
     F struct_gfs_dinode ''di_major'' LGFS2_MFF_MAJOR 0 [],
     F struct_gfs_dinode ''di_minor'' LGFS2_MFF_MINOR 0 [],
     FP struct_gfs_dinode ''di_rgrp'' (of_nat LGFS2_MT_GFS_RGRP),
     FP struct_gfs_dinode ''di_goal_rgrp'' (of_nat LGFS2_MT_GFS_RGRP),
     F struct_gfs_dinode ''di_goal_dblk'' 0 0 [],
     F struct_gfs_dinode ''di_goal_mblk'' 0 0 [],
     F struct_gfs_dinode ''di_flags'' LGFS2_MFF_MASK 0 lgfs2_di_flags,
     F struct_gfs_dinode ''di_payload_format'' 0 0 [],
     F struct_gfs_dinode ''di_type'' 0 0 [],
     F struct_gfs_dinode ''di_height'' 0 0 [],
     F struct_gfs_dinode ''di_incarn'' 0 0 [],
     F struct_gfs_dinode ''di_pad'' 0 0 [],
     F struct_gfs_dinode ''di_depth'' 0 0 [],
     F struct_gfs_dinode ''di_entries'' 0 0 [],
     INR struct_gfs_dinode ''di_next_unused'' (MT LGFS2_MT_GFS_DINODE),
     FP struct_gfs_dinode ''di_eattr'' (MT LGFS2_MT_EA_ATTR OR MT LGFS2_MT_GFS_INDIRECT),
     F struct_gfs_dinode ''di_reserved'' 0 0 []]"

definition gfs2_indirect_fields :: "lgfs2_metafield list" where
  "gfs2_indirect_fields = concat
    [MH (struct_header_only ''in_header'') ''in_header'']"

definition gfs_indirect_fields :: "lgfs2_metafield list" where
  "gfs_indirect_fields = concat
    [MH struct_gfs_indirect ''in_header'',
     RF struct_gfs_indirect ''in_reserved'']"

definition gfs2_leaf_fields :: "lgfs2_metafield list" where
  "gfs2_leaf_fields = concat
    [MH struct_gfs2_leaf_reserved ''lf_header'',
     F struct_gfs2_leaf_reserved ''lf_depth'' 0 0 [],
     F struct_gfs2_leaf_reserved ''lf_entries'' 0 0 [],
     F struct_gfs2_leaf_reserved ''lf_dirent_format'' 0 0 [],
     F struct_gfs2_leaf_reserved ''lf_next'' 0 0 [],
     RF struct_gfs2_leaf_reserved ''lf_reserved'']"

definition gfs2_jdata_fields :: "lgfs2_metafield list" where
  "gfs2_jdata_fields = concat
    [MH (struct_header_only ''jd_header'') ''jd_header'']"

definition gfs2_log_header_fields :: "lgfs2_metafield list" where
  "gfs2_log_header_fields = concat
    [MH struct_gfs2_log_header ''lh_header'',
     F struct_gfs2_log_header ''lh_sequence'' 0 0 [],
     F struct_gfs2_log_header ''lh_flags'' LGFS2_MFF_MASK 0 lgfs2_lh_flags,
     F struct_gfs2_log_header ''lh_tail'' 0 0 [],
     F struct_gfs2_log_header ''lh_blkno'' 0 0 [],
     F struct_gfs2_log_header ''lh_hash'' LGFS2_MFF_CHECK 0 [],
     F struct_gfs2_log_header ''lh_crc'' LGFS2_MFF_CHECK 0 [],
     F struct_gfs2_log_header ''lh_nsec'' LGFS2_MFF_NSECS 0 [],
     F struct_gfs2_log_header ''lh_sec'' LGFS2_MFF_SECS 0 [],
     FP struct_gfs2_log_header ''lh_addr'' (MT LGFS2_MT_GFS2_LOG_BLOCK),
     FP struct_gfs2_log_header ''lh_jinode'' (MT LGFS2_MT_GFS2_DINODE),
     FP struct_gfs2_log_header ''lh_statfs_addr'' (MT LGFS2_MT_GFS2_DINODE),
     FP struct_gfs2_log_header ''lh_quota_addr'' (MT LGFS2_MT_GFS2_DINODE),
     F struct_gfs2_log_header ''lh_local_total'' LGFS2_MFF_FSBLOCKS 0 [],
     F struct_gfs2_log_header ''lh_local_free'' LGFS2_MFF_FSBLOCKS 0 [],
     F struct_gfs2_log_header ''lh_local_dinodes'' LGFS2_MFF_FSBLOCKS 0 []]"

definition gfs_log_header_fields :: "lgfs2_metafield list" where
  "gfs_log_header_fields = concat
    [MH struct_gfs_log_header ''lh_header'',
     F struct_gfs_log_header ''lh_flags'' 0 0 [],
     RF struct_gfs_log_header ''lh_pad'',
     F struct_gfs_log_header ''lh_first'' 0 0 [],
     F struct_gfs_log_header ''lh_sequence'' 0 0 [],
     F struct_gfs_log_header ''lh_tail'' 0 0 [],
     F struct_gfs_log_header ''lh_last_dump'' 0 0 [],
     RF struct_gfs_log_header ''lh_reserved'']"

definition gfs2_log_desc_fields :: "lgfs2_metafield list" where
  "gfs2_log_desc_fields = concat
    [MH struct_gfs2_log_descriptor ''ld_header'',
     F struct_gfs2_log_descriptor ''ld_type'' LGFS2_MFF_ENUM 0 lgfs2_ld_types,
     F struct_gfs2_log_descriptor ''ld_length'' LGFS2_MFF_FSBLOCKS 0 [],
     F struct_gfs2_log_descriptor ''ld_data1'' 0 0 [],
     F struct_gfs2_log_descriptor ''ld_data2'' 0 0 [],
     RF struct_gfs2_log_descriptor ''ld_reserved'']"

definition gfs_log_desc_fields :: "lgfs2_metafield list" where
  "gfs_log_desc_fields = concat
    [MH struct_gfs_log_descriptor ''ld_header'',
     F struct_gfs_log_descriptor ''ld_type'' LGFS2_MFF_ENUM 0 lgfs2_ld1_types,
     F struct_gfs_log_descriptor ''ld_length'' LGFS2_MFF_FSBLOCKS 0 [],
     F struct_gfs_log_descriptor ''ld_data1'' 0 0 [],
     F struct_gfs_log_descriptor ''ld_data2'' 0 0 [],
     RF struct_gfs_log_descriptor ''ld_reserved'']"

definition gfs2_log_block_fields :: "lgfs2_metafield list" where
  "gfs2_log_block_fields = concat
    [MH (struct_header_only ''lb_header'') ''lb_header'']"

definition gfs2_ea_attr_fields :: "lgfs2_metafield list" where
  "gfs2_ea_attr_fields = concat
    [MH (struct_header_only ''ea_header'') ''ea_header'']"

definition gfs2_ea_data_fields :: "lgfs2_metafield list" where
  "gfs2_ea_data_fields = concat
    [MH (struct_header_only ''ed_header'') ''ed_header'']"

definition gfs2_quota_change_fields :: "lgfs2_metafield list" where
  "gfs2_quota_change_fields = concat
    [F struct_gfs2_quota_change ''qc_change'' LGFS2_MFF_FSBLOCKS 0 [],
     F struct_gfs2_quota_change ''qc_flags'' 0 0 [],
     F struct_gfs2_quota_change ''qc_id'' 0 0 []]"

definition gfs2_dirent_fields :: "lgfs2_metafield list" where
  "gfs2_dirent_fields = concat
    [IN struct_gfs2_dirent ''de_inum'' (MT LGFS2_MT_GFS_DINODE OR MT LGFS2_MT_GFS2_DINODE),
     F struct_gfs2_dirent ''de_hash'' LGFS2_MFF_CHECK 0 [],
     F struct_gfs2_dirent ''de_rec_len'' LGFS2_MFF_BYTES 0 [],
     F struct_gfs2_dirent ''de_name_len'' LGFS2_MFF_BYTES 0 [],
     F struct_gfs2_dirent ''de_type'' 0 0 [],
     F struct_gfs2_dirent ''de_rahead'' 0 0 [],
     F struct_gfs2_dirent ''de_cookie'' 0 0 [],
     RF struct_gfs2_dirent ''pad3'']"

definition gfs2_ea_header_fields :: "lgfs2_metafield list" where
  "gfs2_ea_header_fields = concat
    [F struct_gfs2_ea_header ''ea_rec_len'' LGFS2_MFF_BYTES 0 [],
     F struct_gfs2_ea_header ''ea_data_len'' LGFS2_MFF_BYTES 0 [],
     F struct_gfs2_ea_header ''ea_name_len'' LGFS2_MFF_BYTES 0 [],
     F struct_gfs2_ea_header ''ea_type'' 0 0 [],
     F struct_gfs2_ea_header ''ea_flags'' 0 0 [],
     F struct_gfs2_ea_header ''ea_num_ptrs'' 0 0 [],
     RF struct_gfs2_ea_header ''__pad'']"

definition gfs2_inum_range_fields :: "lgfs2_metafield list" where
  "gfs2_inum_range_fields = concat
    [F struct_gfs2_inum_range ''ir_start'' 0 0 [],
     F struct_gfs2_inum_range ''ir_length'' 0 0 []]"

definition gfs2_statfs_change_fields :: "lgfs2_metafield list" where
  "gfs2_statfs_change_fields = concat
    [F struct_gfs2_statfs_change ''sc_total'' LGFS2_MFF_FSBLOCKS 0 [],
     F struct_gfs2_statfs_change ''sc_free'' LGFS2_MFF_FSBLOCKS 0 [],
     F struct_gfs2_statfs_change ''sc_dinodes'' LGFS2_MFF_FSBLOCKS 0 []]"

definition gfs_jindex_fields :: "lgfs2_metafield list" where
  "gfs_jindex_fields = concat
    [FP struct_gfs_jindex ''ji_addr'' (MT LGFS2_MT_DATA),
     F struct_gfs_jindex ''ji_nsegment'' 0 0 [],
     RF struct_gfs_jindex ''ji_pad'',
     RF struct_gfs_jindex ''ji_reserved'']"

definition gfs_block_tag_fields :: "lgfs2_metafield list" where
  "gfs_block_tag_fields = concat
    [FP struct_gfs_block_tag ''bt_blkno'' ANY_GFS_BLOCK,
     RF struct_gfs_block_tag ''bt_flags'',
     RF struct_gfs_block_tag ''bt_pad'']"

section \<open>Block types\<close>

text \<open>\<open>lgfs2_metadata\<close>, indexed by block type, in three parts.\<close>

definition lgfs2_metadata_files :: "lgfs2_metadata list" where
  "lgfs2_metadata_files =
    [\<lparr>md_versions = LGFS2_MD_GFS2, md_header = True, md_mh_type = GFS2_METATYPE_SB, md_mh_format = GFS2_FORMAT_SB,
      md_name = ''gfs2_sb'', md_display = ''superblock'', md_fields = gfs2_sb_fields,
      md_size = sizeof struct_gfs2_sb\<rparr>,
     \<lparr>md_versions = LGFS2_MD_GFS1, md_header = True, md_mh_type = GFS2_METATYPE_SB, md_mh_format = GFS_FORMAT_SB,
      md_name = ''gfs_sb'', md_display = ''superblock'', md_fields = gfs_sb_fields,
      md_size = sizeof struct_gfs_sb\<rparr>,
     \<lparr>md_versions = LGFS2_MD_GFS1 OR LGFS2_MD_GFS2, md_header = False, md_mh_type = 0, md_mh_format = 0,
      md_name = ''gfs2_rindex'', md_display = ''resource group index'', md_fields = gfs2_rindex_fields,
      md_size = sizeof struct_gfs2_rindex\<rparr>,
     \<lparr>md_versions = LGFS2_MD_GFS2, md_header = True, md_mh_type = GFS2_METATYPE_RG, md_mh_format = GFS2_FORMAT_RG,
      md_name = ''gfs2_rgrp'', md_display = ''resource group'', md_fields = gfs2_rgrp_fields,
      md_size = sizeof struct_gfs2_rgrp\<rparr>,
     \<lparr>md_versions = LGFS2_MD_GFS1, md_header = True, md_mh_type = GFS2_METATYPE_RG, md_mh_format = GFS2_FORMAT_RG,
      md_name = ''gfs_rgrp'', md_display = ''resource group'', md_fields = gfs_rgrp_fields,
      md_size = sizeof struct_gfs_rgrp\<rparr>,
     \<lparr>md_versions = LGFS2_MD_GFS1 OR LGFS2_MD_GFS2, md_header = True, md_mh_type = GFS2_METATYPE_RB, md_mh_format = GFS2_FORMAT_RB,
      md_name = ''gfs2_rgrp_bitmap'', md_display = ''allocation bitmap'', md_fields = gfs2_rgrp_bitmap_fields,
      md_size = sizeof struct_gfs2_meta_header\<rparr>,
     \<lparr>md_versions = LGFS2_MD_GFS2, md_header = True, md_mh_type = GFS2_METATYPE_DI, md_mh_format = GFS2_FORMAT_DI,
      md_name = ''gfs2_dinode'', md_display = ''inode'', md_fields = gfs2_dinode_fields,
      md_size = sizeof struct_gfs2_dinode\<rparr>,
     \<lparr>md_versions = LGFS2_MD_GFS1, md_header = True, md_mh_type = GFS2_METATYPE_DI, md_mh_format = GFS2_FORMAT_DI,
      md_name = ''gfs_dinode'', md_display = ''inode'', md_fields = gfs_dinode_fields,
      md_size = sizeof struct_gfs_dinode\<rparr>]"

definition lgfs2_metadata_blocks :: "lgfs2_metadata list" where
  "lgfs2_metadata_blocks =
    [\<lparr>md_versions = LGFS2_MD_GFS2, md_header = True, md_mh_type = GFS2_METATYPE_IN, md_mh_format = GFS2_FORMAT_IN,
      md_name = ''gfs2_indirect'', md_display = ''indirect'', md_fields = gfs2_indirect_fields,
      md_size = sizeof struct_gfs2_meta_header\<rparr>,
     \<lparr>md_versions = LGFS2_MD_GFS1, md_header = True, md_mh_type = GFS2_METATYPE_IN, md_mh_format = GFS2_FORMAT_IN,
      md_name = ''gfs_indirect'', md_display = ''indirect'', md_fields = gfs_indirect_fields,
      md_size = sizeof struct_gfs_indirect\<rparr>,
     \<lparr>md_versions = LGFS2_MD_GFS1 OR LGFS2_MD_GFS2, md_header = True, md_mh_type = GFS2_METATYPE_LF, md_mh_format = GFS2_FORMAT_LF,
      md_name = ''gfs2_leaf'', md_display = ''leaf'', md_fields = gfs2_leaf_fields,
      md_size = sizeof struct_gfs2_leaf\<rparr>,
     \<lparr>md_versions = LGFS2_MD_GFS1 OR LGFS2_MD_GFS2, md_header = True, md_mh_type = GFS2_METATYPE_JD, md_mh_format = GFS2_FORMAT_JD,
      md_name = ''gfs2_jdata'', md_display = ''journal data'', md_fields = gfs2_jdata_fields,
      md_size = sizeof struct_gfs2_meta_header\<rparr>,
     \<lparr>md_versions = LGFS2_MD_GFS2, md_header = True, md_mh_type = GFS2_METATYPE_LH, md_mh_format = GFS2_FORMAT_LH,
      md_name = ''gfs2_log_header'', md_display = ''log header'', md_fields = gfs2_log_header_fields,
      md_size = sizeof struct_gfs2_log_header\<rparr>,
     \<lparr>md_versions = LGFS2_MD_GFS1, md_header = True, md_mh_type = GFS2_METATYPE_LH, md_mh_format = GFS2_FORMAT_LH,
      md_name = ''gfs_log_header'', md_display = ''log header'', md_fields = gfs_log_header_fields,
      md_size = sizeof struct_gfs_log_header\<rparr>,
     \<lparr>md_versions = LGFS2_MD_GFS2, md_header = True, md_mh_type = GFS2_METATYPE_LD, md_mh_format = GFS2_FORMAT_LD,
      md_name = ''gfs2_log_desc'', md_display = ''log descriptor'', md_fields = gfs2_log_desc_fields,
      md_size = sizeof struct_gfs2_log_descriptor\<rparr>,
     \<lparr>md_versions = LGFS2_MD_GFS1, md_header = True, md_mh_type = GFS2_METATYPE_LD, md_mh_format = GFS2_FORMAT_LD,
      md_name = ''gfs_log_desc'', md_display = ''log descriptor'', md_fields = gfs_log_desc_fields,
      md_size = sizeof struct_gfs_log_descriptor\<rparr>,
     \<lparr>md_versions = LGFS2_MD_GFS2, md_header = True, md_mh_type = GFS2_METATYPE_LB, md_mh_format = GFS2_FORMAT_LB,
      md_name = ''gfs2_log_block'', md_display = ''log'', md_fields = gfs2_log_block_fields,
      md_size = sizeof struct_gfs2_meta_header\<rparr>]"

definition lgfs2_metadata_parts :: "lgfs2_metadata list" where
  "lgfs2_metadata_parts =
    [\<lparr>md_versions = LGFS2_MD_GFS1 OR LGFS2_MD_GFS2, md_header = True, md_mh_type = GFS2_METATYPE_EA, md_mh_format = GFS2_FORMAT_EA,
      md_name = ''gfs2_ea_attr'', md_display = ''extended attribute'', md_fields = gfs2_ea_attr_fields,
      md_size = sizeof struct_gfs2_meta_header\<rparr>,
     \<lparr>md_versions = LGFS2_MD_GFS1 OR LGFS2_MD_GFS2, md_header = True, md_mh_type = GFS2_METATYPE_ED, md_mh_format = GFS2_FORMAT_ED,
      md_name = ''gfs2_ea_data'', md_display = ''extended attribute data'', md_fields = gfs2_ea_data_fields,
      md_size = sizeof struct_gfs2_meta_header\<rparr>,
     \<lparr>md_versions = LGFS2_MD_GFS2, md_header = False, md_mh_type = 0, md_mh_format = 0,
      md_name = ''gfs2_quota_change'', md_display = ''quota change'', md_fields = gfs2_quota_change_fields,
      md_size = sizeof struct_gfs2_quota_change\<rparr>,
     \<lparr>md_versions = LGFS2_MD_GFS1 OR LGFS2_MD_GFS2, md_header = False, md_mh_type = 0, md_mh_format = 0,
      md_name = ''gfs2_dirent'', md_display = ''directory entry'', md_fields = gfs2_dirent_fields,
      md_size = sizeof struct_gfs2_dirent\<rparr>,
     \<lparr>md_versions = LGFS2_MD_GFS1 OR LGFS2_MD_GFS2, md_header = False, md_mh_type = 0, md_mh_format = 0,
      md_name = ''gfs2_ea_header'', md_display = ''extended attribute header'', md_fields = gfs2_ea_header_fields,
      md_size = sizeof struct_gfs2_ea_header\<rparr>,
     \<lparr>md_versions = LGFS2_MD_GFS2, md_header = False, md_mh_type = 0, md_mh_format = 0,
      md_name = ''gfs2_inum_range'', md_display = ''inum range'', md_fields = gfs2_inum_range_fields,
      md_size = sizeof struct_gfs2_inum_range\<rparr>,
     \<lparr>md_versions = LGFS2_MD_GFS1 OR LGFS2_MD_GFS2, md_header = False, md_mh_type = 0, md_mh_format = 0,
      md_name = ''gfs2_statfs_change'', md_display = ''statfs change'', md_fields = gfs2_statfs_change_fields,
      md_size = sizeof struct_gfs2_statfs_change\<rparr>,
     \<lparr>md_versions = LGFS2_MD_GFS1, md_header = False, md_mh_type = 0, md_mh_format = 0,
      md_name = ''gfs_jindex'', md_display = ''journal index'', md_fields = gfs_jindex_fields,
      md_size = sizeof struct_gfs_jindex\<rparr>,
     \<lparr>md_versions = LGFS2_MD_GFS1, md_header = False, md_mh_type = 0, md_mh_format = 0,
      md_name = ''gfs_block_tag'', md_display = ''block tag'', md_fields = gfs_block_tag_fields,
      md_size = sizeof struct_gfs_block_tag\<rparr>,
     \<lparr>md_versions = LGFS2_MD_GFS1 OR LGFS2_MD_GFS2, md_header = False, md_mh_type = 0, md_mh_format = 0,
      md_name = ''data'', md_display = ''data'', md_fields = [],
      md_size = 0\<rparr>,
     \<lparr>md_versions = LGFS2_MD_GFS1 OR LGFS2_MD_GFS2, md_header = False, md_mh_type = 0, md_mh_format = 0,
      md_name = ''free'', md_display = ''free'', md_fields = [],
      md_size = 0\<rparr>]"

definition lgfs2_metadata :: "lgfs2_metadata list" where
  "lgfs2_metadata = lgfs2_metadata_files @ lgfs2_metadata_blocks @ lgfs2_metadata_parts"

section \<open>Look-ups\<close>

definition lgfs2_find_mfield_name :: "string \<Rightarrow> lgfs2_metadata \<Rightarrow> lgfs2_metafield option" where
  "lgfs2_find_mfield_name name mtype = find (\<lambda>f. mf_name f = name) (md_fields mtype)"

definition lgfs2_find_mtype :: "u32 \<Rightarrow> u32 \<Rightarrow> lgfs2_metadata option" where
  "lgfs2_find_mtype mh_type versions =
     find (\<lambda>m. md_versions m AND versions \<noteq> 0 \<and> md_mh_type m = mh_type) lgfs2_metadata"

definition lgfs2_find_mtype_name :: "string \<Rightarrow> u32 \<Rightarrow> lgfs2_metadata option" where
  "lgfs2_find_mtype_name name versions =
     find (\<lambda>m. md_versions m AND versions \<noteq> 0 \<and> md_name m = name) lgfs2_metadata"

section \<open>Field values\<close>

text \<open>The C string at a position, and the \<open>%u\<close> and \<open>%x\<close> conversions of \<open>snprintf\<close>.\<close>

definition c_string :: "bytes \<Rightarrow> string" where
  "c_string bs = map (\<lambda>b. char_of (unat b)) (takeWhile (\<lambda>b. b \<noteq> 0) bs)"

fun number_str :: "nat \<Rightarrow> nat \<Rightarrow> string" where
  "number_str base n =
     (if base < 2 \<or> n < base then [''0123456789abcdef'' ! n]
      else number_str base (n div base) @ [''0123456789abcdef'' ! (n mod base)])"

definition field_value :: "bytes \<Rightarrow> lgfs2_metafield \<Rightarrow> u64 option" where
  "field_value blk field =
     (let off = mf_offset field in
      if mf_length field = 1 then Some (ucast (get_u8 blk off))
      else if mf_length field = 2 then Some (ucast (get_be16 blk off))
      else if mf_length field = 4 then Some (ucast (get_be32 blk off))
      else if mf_length field = 8 then Some (get_be64 blk off)
      else None)"

definition mask_step :: "nat \<Rightarrow> u64 \<Rightarrow> string \<Rightarrow> lgfs2_symbolic \<Rightarrow> string" where
  "mask_step sz value s sy =
     (if value AND ucast (sym_key sy) = 0 then s
      else
        let s = (if s \<noteq> [] \<and> length s < sz then s @ ''/'' else s);
            v = drop (sym_prefix sy) (sym_value sy)
        in s @ take (sz - length s) v)"

text \<open>
  \<open>lgfs2_field_str\<close>: None when \<open>str\<close> is NULL, otherwise the string left in \<open>str\<close>, whose last byte is
  always the terminator. \<open>uuid_unparse\<close> is libuuid's.
\<close>

definition lgfs2_field_str ::
  "(bytes \<Rightarrow> string) \<Rightarrow> bool \<Rightarrow> nat \<Rightarrow> bytes \<Rightarrow> lgfs2_metafield \<Rightarrow> bool \<Rightarrow> string option" where
  "lgfs2_field_str uuid_unparse str_null sz blk field hex =
     (if str_null then None
      else Some (take (sz - 1)
        (if mf_flags field AND LGFS2_MFF_UUID \<noteq> 0 then uuid_unparse (slice (mf_offset field) 16 blk)
         else if mf_flags field AND LGFS2_MFF_STRING \<noteq> 0 then c_string (drop (mf_offset field) blk)
         else case field_value blk field of
             None \<Rightarrow> []
           | Some value \<Rightarrow>
               if hex then number_str 16 (unat value)
               else if mf_flags field AND LGFS2_MFF_MASK \<noteq> 0
               then foldl (mask_step sz value) [] (symtab field)
               else number_str 10 (unat value))))"

text \<open>
  \<open>lgfs2_field_assign\<close>: \<open>val\<close> is the memory at the pointer given; as a number it is the host's
  (little-endian) 64-bit integer.
\<close>

definition strnlen :: "bytes \<Rightarrow> nat \<Rightarrow> nat" where
  "strnlen s n = length (takeWhile (\<lambda>b. b \<noteq> 0) (take n s))"

definition lgfs2_field_assign :: "bytes \<Rightarrow> lgfs2_metafield \<Rightarrow> bytes \<Rightarrow> int \<times> bytes" where
  "lgfs2_field_assign blk field val =
     (let off = mf_offset field; num = of_nat (le_val (take 8 val)) :: u64 in
      if mf_flags field AND LGFS2_MFF_UUID \<noteq> 0 then (0, memcpy_at off (take 16 val) blk)
      else if mf_flags field AND LGFS2_MFF_STRING \<noteq> 0 then
        let len = strnlen val (mf_length field) in
        if mf_length field \<le> len then (1, blk)
        else let blk = memcpy_at off (take len val @ replicate (mf_length field - 1 - len) 0) blk
             in (0, blk[off + mf_length field - 1 := 0])
      else if mf_length field = 1 then (0, put_u8 off (ucast num) blk)
      else if mf_length field = 2 then (0, put_be16 off (ucast num) blk)
      else if mf_length field = 4 then (0, put_be32 off (ucast num) blk)
      else if mf_length field = 8 then (0, put_be64 off num blk)
      else (1, blk))"

section \<open>Properties\<close>

text \<open>Fields that follow each other without a gap from \<open>pos\<close> to \<open>n\<close>.\<close>

fun tiles :: "nat \<Rightarrow> lgfs2_metafield list \<Rightarrow> nat \<Rightarrow> bool" where
  "tiles pos [] n \<longleftrightarrow> pos = n"
| "tiles pos (f # fs) n \<longleftrightarrow> mf_offset f = pos \<and> tiles (pos + mf_length f) fs n"

lemma tiles_F: "tiles pos (F l f fl pts sy @ fs) n \<longleftrightarrow> offsetof l f = pos \<and> tiles (pos + sizeof_member l f) fs n"
  by (simp add: F_def)

lemma tiles_FP: "tiles pos (FP l f pts @ fs) n \<longleftrightarrow> offsetof l f = pos \<and> tiles (pos + sizeof_member l f) fs n"
  by (simp add: FP_def tiles_F)

lemma tiles_RF: "tiles pos (RF l f @ fs) n \<longleftrightarrow> offsetof l f = pos \<and> tiles (pos + sizeof_member l f) fs n"
  by (simp add: RF_def tiles_F)

lemma sub_sizes:
  "sizeof_member struct_gfs2_meta_header ''mh_magic'' = 4" "sizeof_member struct_gfs2_meta_header ''mh_type'' = 4"
  "sizeof_member struct_gfs2_meta_header ''__pad0'' = 8" "offsetof struct_gfs2_meta_header ''__pad0'' = 8"
  "sizeof_member struct_gfs2_meta_header ''mh_format'' = 4" "sizeof_member struct_gfs2_meta_header ''mh_jid'' = 4"
  "sizeof_member struct_gfs2_inum ''no_formal_ino'' = 8" "sizeof_member struct_gfs2_inum ''no_addr'' = 8"
  by (simp_all add: layout_eval sizeof_member_def struct_gfs2_meta_header_def struct_gfs2_inum_def)

lemma tiles_MH: "tiles pos (MH l f @ fs) n \<longleftrightarrow> offsetof l f = pos \<and> tiles (pos + 24) fs n"
  by (auto simp: MH_def sub_field_def sub_sizes size_simps add.commute)

lemma tiles_IN: "tiles pos (IN l f pts @ fs) n \<longleftrightarrow> offsetof l f = pos \<and> tiles (pos + 16) fs n"
  by (auto simp: IN_def sub_field_def sub_sizes size_simps add.commute)

lemma tiles_INR: "tiles pos (INR l f pts @ fs) n \<longleftrightarrow> offsetof l f = pos \<and> tiles (pos + 16) fs n"
  by (auto simp: INR_def sub_field_def sub_sizes size_simps add.commute)

lemmas tiles_eval = tiles_F tiles_FP tiles_RF tiles_MH tiles_IN tiles_INR
  tiles_F [where fs = "[]", simplified] tiles_FP [where fs = "[]", simplified]
  tiles_RF [where fs = "[]", simplified] tiles_MH [where fs = "[]", simplified]
  tiles_IN [where fs = "[]", simplified] tiles_INR [where fs = "[]", simplified]

named_theorems field_tables

lemma gfs2_sb_fields_tile [field_tables]: "tiles 0 gfs2_sb_fields (sizeof struct_gfs2_sb)"
  by (simp add: gfs2_sb_fields_def tiles_eval layout_eval struct_defs sizeof_member_def struct_header_only_def
      struct_gfs_block_tag_def struct_gfs2_leaf_reserved_def)

lemma gfs_sb_fields_tile [field_tables]: "tiles 0 gfs_sb_fields (sizeof struct_gfs_sb)"
  by (simp add: gfs_sb_fields_def tiles_eval layout_eval struct_defs sizeof_member_def struct_header_only_def
      struct_gfs_block_tag_def struct_gfs2_leaf_reserved_def)

lemma gfs2_rindex_fields_tile [field_tables]: "tiles 0 gfs2_rindex_fields (sizeof struct_gfs2_rindex)"
  by (simp add: gfs2_rindex_fields_def tiles_eval layout_eval struct_defs sizeof_member_def struct_header_only_def
      struct_gfs_block_tag_def struct_gfs2_leaf_reserved_def)

lemma gfs2_rgrp_fields_tile [field_tables]: "tiles 0 gfs2_rgrp_fields (sizeof struct_gfs2_rgrp)"
  by (simp add: gfs2_rgrp_fields_def tiles_eval layout_eval struct_defs sizeof_member_def struct_header_only_def
      struct_gfs_block_tag_def struct_gfs2_leaf_reserved_def)

lemma gfs_rgrp_fields_tile [field_tables]: "tiles 0 gfs_rgrp_fields (sizeof struct_gfs_rgrp)"
  by (simp add: gfs_rgrp_fields_def tiles_eval layout_eval struct_defs sizeof_member_def struct_header_only_def
      struct_gfs_block_tag_def struct_gfs2_leaf_reserved_def)

lemma gfs2_rgrp_bitmap_fields_tile [field_tables]: "tiles 0 gfs2_rgrp_bitmap_fields (sizeof struct_gfs2_meta_header)"
  by (simp add: gfs2_rgrp_bitmap_fields_def tiles_eval layout_eval struct_defs sizeof_member_def struct_header_only_def
      struct_gfs_block_tag_def struct_gfs2_leaf_reserved_def)

lemma gfs2_dinode_fields_tile [field_tables]: "tiles 0 gfs2_dinode_fields (sizeof struct_gfs2_dinode)"
  by (simp add: gfs2_dinode_fields_def tiles_eval layout_eval struct_defs sizeof_member_def struct_header_only_def
      struct_gfs_block_tag_def struct_gfs2_leaf_reserved_def)

lemma gfs_dinode_fields_tile [field_tables]: "tiles 0 gfs_dinode_fields (sizeof struct_gfs_dinode)"
  by (simp add: gfs_dinode_fields_def tiles_eval layout_eval struct_defs sizeof_member_def struct_header_only_def
      struct_gfs_block_tag_def struct_gfs2_leaf_reserved_def)

lemma gfs2_indirect_fields_tile [field_tables]: "tiles 0 gfs2_indirect_fields (sizeof struct_gfs2_meta_header)"
  by (simp add: gfs2_indirect_fields_def tiles_eval layout_eval struct_defs sizeof_member_def struct_header_only_def
      struct_gfs_block_tag_def struct_gfs2_leaf_reserved_def)

lemma gfs_indirect_fields_tile [field_tables]: "tiles 0 gfs_indirect_fields (sizeof struct_gfs_indirect)"
  by (simp add: gfs_indirect_fields_def tiles_eval layout_eval struct_defs sizeof_member_def struct_header_only_def
      struct_gfs_block_tag_def struct_gfs2_leaf_reserved_def)

lemma gfs2_leaf_fields_tile [field_tables]: "tiles 0 gfs2_leaf_fields (sizeof struct_gfs2_leaf)"
  by (simp add: gfs2_leaf_fields_def tiles_eval layout_eval struct_defs sizeof_member_def struct_header_only_def
      struct_gfs_block_tag_def struct_gfs2_leaf_reserved_def)

lemma gfs2_jdata_fields_tile [field_tables]: "tiles 0 gfs2_jdata_fields (sizeof struct_gfs2_meta_header)"
  by (simp add: gfs2_jdata_fields_def tiles_eval layout_eval struct_defs sizeof_member_def struct_header_only_def
      struct_gfs_block_tag_def struct_gfs2_leaf_reserved_def)

lemma gfs2_log_header_fields_tile [field_tables]: "tiles 0 gfs2_log_header_fields (sizeof struct_gfs2_log_header)"
  by (simp add: gfs2_log_header_fields_def tiles_eval layout_eval struct_defs sizeof_member_def struct_header_only_def
      struct_gfs_block_tag_def struct_gfs2_leaf_reserved_def)

lemma gfs_log_header_fields_tile [field_tables]: "tiles 0 gfs_log_header_fields (sizeof struct_gfs_log_header)"
  by (simp add: gfs_log_header_fields_def tiles_eval layout_eval struct_defs sizeof_member_def struct_header_only_def
      struct_gfs_block_tag_def struct_gfs2_leaf_reserved_def)

lemma gfs2_log_desc_fields_tile [field_tables]: "tiles 0 gfs2_log_desc_fields (sizeof struct_gfs2_log_descriptor)"
  by (simp add: gfs2_log_desc_fields_def tiles_eval layout_eval struct_defs sizeof_member_def struct_header_only_def
      struct_gfs_block_tag_def struct_gfs2_leaf_reserved_def)

lemma gfs_log_desc_fields_tile [field_tables]: "tiles 0 gfs_log_desc_fields (sizeof struct_gfs_log_descriptor)"
  by (simp add: gfs_log_desc_fields_def tiles_eval layout_eval struct_defs sizeof_member_def struct_header_only_def
      struct_gfs_block_tag_def struct_gfs2_leaf_reserved_def)

lemma gfs2_log_block_fields_tile [field_tables]: "tiles 0 gfs2_log_block_fields (sizeof struct_gfs2_meta_header)"
  by (simp add: gfs2_log_block_fields_def tiles_eval layout_eval struct_defs sizeof_member_def struct_header_only_def
      struct_gfs_block_tag_def struct_gfs2_leaf_reserved_def)

lemma gfs2_ea_attr_fields_tile [field_tables]: "tiles 0 gfs2_ea_attr_fields (sizeof struct_gfs2_meta_header)"
  by (simp add: gfs2_ea_attr_fields_def tiles_eval layout_eval struct_defs sizeof_member_def struct_header_only_def
      struct_gfs_block_tag_def struct_gfs2_leaf_reserved_def)

lemma gfs2_ea_data_fields_tile [field_tables]: "tiles 0 gfs2_ea_data_fields (sizeof struct_gfs2_meta_header)"
  by (simp add: gfs2_ea_data_fields_def tiles_eval layout_eval struct_defs sizeof_member_def struct_header_only_def
      struct_gfs_block_tag_def struct_gfs2_leaf_reserved_def)

lemma gfs2_quota_change_fields_tile [field_tables]: "tiles 0 gfs2_quota_change_fields (sizeof struct_gfs2_quota_change)"
  by (simp add: gfs2_quota_change_fields_def tiles_eval layout_eval struct_defs sizeof_member_def struct_header_only_def
      struct_gfs_block_tag_def struct_gfs2_leaf_reserved_def)

lemma gfs2_dirent_fields_tile [field_tables]: "tiles 0 gfs2_dirent_fields (sizeof struct_gfs2_dirent)"
  by (simp add: gfs2_dirent_fields_def tiles_eval layout_eval struct_defs sizeof_member_def struct_header_only_def
      struct_gfs_block_tag_def struct_gfs2_leaf_reserved_def)

lemma gfs2_ea_header_fields_tile [field_tables]: "tiles 0 gfs2_ea_header_fields (sizeof struct_gfs2_ea_header)"
  by (simp add: gfs2_ea_header_fields_def tiles_eval layout_eval struct_defs sizeof_member_def struct_header_only_def
      struct_gfs_block_tag_def struct_gfs2_leaf_reserved_def)

lemma gfs2_inum_range_fields_tile [field_tables]: "tiles 0 gfs2_inum_range_fields (sizeof struct_gfs2_inum_range)"
  by (simp add: gfs2_inum_range_fields_def tiles_eval layout_eval struct_defs sizeof_member_def struct_header_only_def
      struct_gfs_block_tag_def struct_gfs2_leaf_reserved_def)

lemma gfs2_statfs_change_fields_tile [field_tables]: "tiles 0 gfs2_statfs_change_fields (sizeof struct_gfs2_statfs_change)"
  by (simp add: gfs2_statfs_change_fields_def tiles_eval layout_eval struct_defs sizeof_member_def struct_header_only_def
      struct_gfs_block_tag_def struct_gfs2_leaf_reserved_def)

lemma gfs_jindex_fields_tile [field_tables]: "tiles 0 gfs_jindex_fields (sizeof struct_gfs_jindex)"
  by (simp add: gfs_jindex_fields_def tiles_eval layout_eval struct_defs sizeof_member_def struct_header_only_def
      struct_gfs_block_tag_def struct_gfs2_leaf_reserved_def)

lemma gfs_block_tag_fields_tile [field_tables]: "tiles 0 gfs_block_tag_fields (sizeof struct_gfs_block_tag)"
  by (simp add: gfs_block_tag_fields_def tiles_eval layout_eval struct_defs sizeof_member_def struct_header_only_def
      struct_gfs_block_tag_def struct_gfs2_leaf_reserved_def)

text \<open>The metadata tables are exact: the fields listed for every block type follow each other
  without a gap or an overlap from offset 0 to the end of the structure.\<close>

theorem metadata_fields_tile: "list_all (\<lambda>m. tiles 0 (md_fields m) (md_size m)) lgfs2_metadata"
  by (simp add: lgfs2_metadata_def lgfs2_metadata_files_def lgfs2_metadata_blocks_def
      lgfs2_metadata_parts_def field_tables)

lemma find_by_key:
  "find (\<lambda>m. P (key m)) ms = map_option ((!) ms) (find (\<lambda>i. P (map key ms ! i)) [0..<length ms])"
proof (cases "find (\<lambda>i. P (map key ms ! i)) [0..<length ms]")
  case None
  then have "\<forall>i < length ms. \<not> P (key (ms ! i))" by (auto simp: find_None_iff)
  then have "find (\<lambda>m. P (key m)) ms = None" by (auto simp: find_None_iff in_set_conv_nth)
  with None show ?thesis by simp
next
  case (Some i)
  then obtain j where "j < length ms" "P (map key ms ! j)" "i = j" "\<forall>k < j. \<not> P (map key ms ! k)"
    by (auto simp: find_Some_iff)
  then have "find (\<lambda>m. P (key m)) ms = Some (ms ! i)" by (auto simp: find_Some_iff)
  with Some show ?thesis by simp
qed

lemma find_each_by_key:
  assumes "map key ms = ks"
    and "list_all (\<lambda>i. find (\<lambda>j. P (ks ! i) (ks ! j)) [0..<length ks] = Some i)
           (filter (\<lambda>i. R (ks ! i)) [0..<length ks])"
  shows "list_all (\<lambda>m. find (\<lambda>m'. P (key m) (key m')) ms = Some m) (filter (\<lambda>m. R (key m)) ms)"
proof -
  have len: "length ks = length ms" using assms(1) by (metis length_map)
  have "find (\<lambda>m'. P (key m) (key m')) ms = Some m" if m: "m \<in> set ms" and R: "R (key m)" for m
  proof -
    obtain i where i: "i < length ms" "m = ms ! i" using m by (auto simp: in_set_conv_nth)
    then have "ks ! i = key m" using assms(1) by auto
    with R i len have "find (\<lambda>j. P (key m) (ks ! j)) [0..<length ms] = Some i"
      using assms(2) by (auto simp: list_all_iff)
    moreover have "find (\<lambda>m'. P (key m) (key m')) ms
        = map_option ((!) ms) (find (\<lambda>j. P (key m) (map key ms ! j)) [0..<length ms])"
      by (rule find_by_key)
    ultimately show ?thesis using i(2) by (simp only: assms(1)) simp
  qed
  then show ?thesis by (auto simp: list_all_iff)
qed

definition md_key :: "lgfs2_metadata \<Rightarrow> bool \<times> u32 \<times> u32" where
  "md_key m = (md_header m, md_versions m, md_mh_type m)"

lemmas metadata_tables = lgfs2_metadata_def lgfs2_metadata_files_def lgfs2_metadata_blocks_def
  lgfs2_metadata_parts_def

lemma metadata_keys: "map md_key lgfs2_metadata =
  [(True, 2, 1), (True, 1, 1), (False, 3, 0), (True, 2, 2), (True, 1, 2), (True, 3, 3), (True, 2, 4),
   (True, 1, 4), (True, 2, 5), (True, 1, 5), (True, 3, 6), (True, 3, 7), (True, 2, 8), (True, 1, 8),
   (True, 2, 9), (True, 1, 9), (True, 2, 12), (True, 3, 10), (True, 3, 11), (False, 2, 0), (False, 3, 0),
   (False, 3, 0), (False, 2, 0), (False, 3, 0), (False, 1, 0), (False, 1, 0), (False, 3, 0), (False, 3, 0)]"
  by (simp add: metadata_tables md_key_def)

definition md_name_key :: "lgfs2_metadata \<Rightarrow> string \<times> u32" where
  "md_name_key m = (md_name m, md_versions m)"

lemma metadata_names: "map md_name_key lgfs2_metadata =
  [(''gfs2_sb'', 2), (''gfs_sb'', 1), (''gfs2_rindex'', 3), (''gfs2_rgrp'', 2), (''gfs_rgrp'', 1),
   (''gfs2_rgrp_bitmap'', 3), (''gfs2_dinode'', 2), (''gfs_dinode'', 1), (''gfs2_indirect'', 2),
   (''gfs_indirect'', 1), (''gfs2_leaf'', 3), (''gfs2_jdata'', 3), (''gfs2_log_header'', 2),
   (''gfs_log_header'', 1), (''gfs2_log_desc'', 2), (''gfs_log_desc'', 1), (''gfs2_log_block'', 2),
   (''gfs2_ea_attr'', 3), (''gfs2_ea_data'', 3), (''gfs2_quota_change'', 2), (''gfs2_dirent'', 3),
   (''gfs2_ea_header'', 3), (''gfs2_inum_range'', 2), (''gfs2_statfs_change'', 3), (''gfs_jindex'', 1),
   (''gfs_block_tag'', 1), (''data'', 3), (''free'', 3)]"
  by (simp add: metadata_tables md_name_key_def)

text \<open>Looking a metadata header's type up finds the description of that very block type: for each of
  the two file system versions, the types of the descriptions with a header are distinct, so
  \<open>lgfs2_find_mtype\<close> returns the one description that has the type and the version. The look-up by
  name has the same law for all descriptions.\<close>

theorem find_mtype_exact:
  "list_all (\<lambda>m. lgfs2_find_mtype (md_mh_type m) LGFS2_MD_GFS1 = Some m)
       (filter (\<lambda>m. md_header m \<and> md_versions m AND LGFS2_MD_GFS1 \<noteq> 0) lgfs2_metadata)
   \<and> list_all (\<lambda>m. lgfs2_find_mtype (md_mh_type m) LGFS2_MD_GFS2 = Some m)
       (filter (\<lambda>m. md_header m \<and> md_versions m AND LGFS2_MD_GFS2 \<noteq> 0) lgfs2_metadata)
   \<and> list_all (\<lambda>m. lgfs2_find_mtype_name (md_name m) (md_versions m) = Some m) (filter (\<lambda>m. True) lgfs2_metadata)"
proof -
  have keyed: "list_all (\<lambda>m. find (\<lambda>m'. fst (snd (md_key m')) AND v \<noteq> 0 \<and> snd (snd (md_key m')) = snd (snd (md_key m)))
        lgfs2_metadata = Some m) (filter (\<lambda>m. fst (md_key m) \<and> fst (snd (md_key m)) AND v \<noteq> 0) lgfs2_metadata)"
    if "v = 1 \<or> v = 2" for v
    by (rule find_each_by_key [OF metadata_keys], rule disjE [OF that]; hypsubst; code_simp)
  have named: "list_all (\<lambda>m. find (\<lambda>m'. snd (md_name_key m') AND snd (md_name_key m) \<noteq> 0
        \<and> fst (md_name_key m') = fst (md_name_key m)) lgfs2_metadata = Some m) (filter (\<lambda>m. True) lgfs2_metadata)"
    by (rule find_each_by_key [OF metadata_names, of _ "\<lambda>_. True"]) code_simp
  show ?thesis
    using keyed [of 1] keyed [of 2] named
    by (simp add: md_key_def md_name_key_def lgfs2_find_mtype_def lgfs2_find_mtype_name_def)
qed

declare number_str.simps [simp del]

lemma number_str_length: "2 \<le> base \<Longrightarrow> n < base ^ k \<Longrightarrow> length (number_str base n) \<le> max 1 k"
proof (induction k arbitrary: n)
  case 0
  then show ?case by (subst number_str.simps) simp
next
  case (Suc k)
  show ?case
  proof (cases "n < base")
    case True
    then show ?thesis by (subst number_str.simps) simp
  next
    case False
    have "n div base < base ^ k" using Suc.prems by (simp add: less_mult_imp_div_less mult.commute)
    note IH = Suc.IH [OF Suc.prems(1) this]
    have "k \<noteq> 0" using False Suc.prems(2) by (cases k) simp_all
    with IH False show ?thesis by (subst number_str.simps) (simp add: Suc.prems(1))
  qed
qed

text \<open>Assigning a number to an integer field of any width stores exactly that field: the call
  succeeds, \<open>lgfs2_field_str\<close> then prints, in decimal and in hexadecimal, the number reduced to the
  width of the field, and every field that does not overlap keeps its value.\<close>

theorem field_assign_str:
  assumes "mf_length f \<in> {1, 2, 4, 8}" "mf_offset f + mf_length f \<le> length blk" "length val = 8"
    and "mf_flags f AND LGFS2_MFF_UUID = 0" "mf_flags f AND LGFS2_MFF_STRING = 0" "mf_flags f AND LGFS2_MFF_MASK = 0"
    and "20 < sz"
  shows "\<exists>blk'. lgfs2_field_assign blk f val = (0, blk')
    \<and> lgfs2_field_str unparse False sz blk' f False = Some (number_str 10 (le_val val mod 256 ^ mf_length f))
    \<and> lgfs2_field_str unparse False sz blk' f True = Some (number_str 16 (le_val val mod 256 ^ mf_length f))
    \<and> (\<forall>g. mf_offset g + mf_length g \<le> mf_offset f \<or> mf_offset f + mf_length f \<le> mf_offset g
         \<longrightarrow> field_value blk' g = field_value blk g)"
proof -
  define blk' where "blk' = snd (lgfs2_field_assign blk f val)"
  let ?n = "le_val val mod 256 ^ mf_length f"
  have num: "unat (of_nat (le_val (take 8 val)) :: u64) = le_val val"
    using le_val_less [of val] assms(3) by (simp add: unat_of_nat_small)
  have other: "field_value blk' g = field_value blk g"
    if "mf_offset g + mf_length g \<le> mf_offset f \<or> mf_offset f + mf_length f \<le> mf_offset g" for g
    using that assms(1,4,5)
    by (auto simp: blk'_def lgfs2_field_assign_def Let_def field_value_def put_u8_def put_be16_def put_be32_def
        put_be64_def get_u8_def get_be16_def get_be32_def get_be64_def slice_memcpy_other)
  have ok: "fst (lgfs2_field_assign blk f val) = 0"
    using assms(1,4,5) by (auto simp: lgfs2_field_assign_def Let_def)
  have stored: "\<exists>v. field_value blk' f = Some v \<and> unat v = ?n"
    using assms(1,2,4,5) num le_val_less [of val] assms(3)
    by (auto simp: blk'_def lgfs2_field_assign_def Let_def field_value_def unat_ucast_mod
        u8c.get_put [unfolded One_nat_def] be16.get_put be32.get_put be64.get_put)
  have "?n \<le> le_val val" by (rule mod_less_eq_dividend)
  then have "?n < 10 ^ 20" "?n < 16 ^ 16"
    by (rule le_less_trans; use le_val_less [of val] assms(3) in simp)+
  then have "length (number_str 10 ?n) \<le> 20" "length (number_str 16 ?n) \<le> 20"
    using number_str_length [of 10 ?n 20] number_str_length [of 16 ?n 16] by auto
  moreover have "lgfs2_field_assign blk f val = (0, blk')"
    using ok by (simp add: blk'_def prod_eq_iff)
  ultimately show ?thesis
    using stored other assms(4-7) by (intro exI [of _ blk']) (auto simp: lgfs2_field_str_def)
qed


theorem field_assign_str_witness:
  "\<exists>blk'. lgfs2_field_assign (replicate 64 0) \<lparr>mf_name = ''rg_free'', mf_offset = 28, mf_length = 4, mf_flags = LGFS2_MFF_FSBLOCKS,
      points_to = 0, symtab = []\<rparr> [1, 0, 0, 0, 9, 0, 0, 0] = (0, blk')"
  using field_assign_str [of "\<lparr>mf_name = ''rg_free'', mf_offset = 28, mf_length = 4, mf_flags = LGFS2_MFF_FSBLOCKS,
      points_to = 0, symtab = []\<rparr>" "replicate 64 0" "[1, 0, 0, 0, 9, 0, 0, 0]" 21 "\<lambda>_. []"] by auto

end
