(* ===== verification/Buf.thy ===== *)
theory Buf
  imports Ondisk
begin

text \<open>
  Buffers of buf.c over a block device, and the checks of a block's metadata header
  (structures.c, buf.c).

  The device maps a block number to the bytes of the block; a block outside the map cannot be read
  or written (past the end of the device, or an I/O error). Blocks have \<open>sd_bsize\<close> bytes and byte
  offsets on the device are taken not to overflow. Allocation succeeds. A buffer head owns a copy of
  its block, so two buffers of one block are independent until they are released, as in the code,
  which has no cache.
\<close>

type_synonym device = "u64 \<rightharpoonup> bytes"

definition device_wf :: "gfs2_sbd \<Rightarrow> device \<Rightarrow> bool" where
  "device_wf sdp d \<longleftrightarrow> (\<forall>b c. d b = Some c \<longrightarrow> length c = unat (sd_bsize sdp))"

section \<open>Buffer heads\<close>

definition bget :: "gfs2_sbd \<Rightarrow> u64 \<Rightarrow> gfs2_buffer_head" where
  "bget sdp num = \<lparr>b_blocknr = num, b_data = replicate (unat (sd_bsize sdp)) 0, b_modified = False\<rparr>"

definition bread :: "device \<Rightarrow> u64 \<Rightarrow> gfs2_buffer_head option" where
  "bread d num =
     (case d num of None \<Rightarrow> None
      | Some c \<Rightarrow> Some \<lparr>b_blocknr = num, b_data = c, b_modified = False\<rparr>)"

text \<open>\<open>breadm\<close> ends the program when a read fails (None).\<close>

fun breadm :: "device \<Rightarrow> nat \<Rightarrow> u64 \<Rightarrow> gfs2_buffer_head list option" where
  "breadm d 0 block = Some []"
| "breadm d (Suc n) block =
     (case bread d block of None \<Rightarrow> None
      | Some bh \<Rightarrow> map_option ((#) bh) (breadm d n (block + 1)))"

definition bmodified :: "gfs2_buffer_head \<Rightarrow> gfs2_buffer_head" where
  "bmodified bh = bh\<lparr>b_modified := True\<rparr>"

definition bwrite :: "device \<Rightarrow> gfs2_buffer_head \<Rightarrow> int \<times> device \<times> gfs2_buffer_head" where
  "bwrite d bh =
     (if d (b_blocknr bh) = None then (-1, d, bh)
      else (0, d(b_blocknr bh \<mapsto> b_data bh), bh\<lparr>b_modified := False\<rparr>))"

definition brelse :: "device \<Rightarrow> gfs2_buffer_head \<Rightarrow> int \<times> device" where
  "brelse d bh =
     (if b_modified bh then let (e, d, _) = bwrite d bh in (e, d) else (0, d))"

lemma bget_simps [simp]:
  "b_blocknr (bget sdp num) = num" "b_data (bget sdp num) = replicate (unat (sd_bsize sdp)) 0"
  "b_modified (bget sdp num) = False"
  by (simp_all add: bget_def)

lemma bmodified_simps [simp]:
  "b_blocknr (bmodified bh) = b_blocknr bh" "b_data (bmodified bh) = b_data bh" "b_modified (bmodified bh)"
  by (simp_all add: bmodified_def)

lemma bread_None_iff: "bread d num = None \<longleftrightarrow> d num = None"
  by (simp add: bread_def split: option.splits)

lemma bread_Some:
  "bread d num = Some bh \<longleftrightarrow> d num = Some (b_data bh) \<and> b_blocknr bh = num \<and> \<not> b_modified bh"
  by (cases bh) (auto simp: bread_def split: option.splits)

lemma snd_brelse: "snd (brelse d bh) =
    (if b_modified bh \<and> d (b_blocknr bh) \<noteq> None then d(b_blocknr bh \<mapsto> b_data bh) else d)"
  by (simp add: brelse_def bwrite_def)

section \<open>Metadata headers\<close>

definition lgfs2_get_block_type :: "bytes \<Rightarrow> u32" where
  "lgfs2_get_block_type buf =
     (if get_be32 buf (offsetof struct_gfs2_meta_header ''mh_magic'') = GFS2_MAGIC
      then get_be32 buf (offsetof struct_gfs2_meta_header ''mh_type'') else 0)"

definition gfs2_check_meta :: "bytes \<Rightarrow> u32 \<Rightarrow> int" where
  "gfs2_check_meta buf type =
     (let check_magic = get_be32 buf (offsetof struct_gfs2_meta_header ''mh_magic'');
          check_type = get_be32 buf (offsetof struct_gfs2_meta_header ''mh_type'')
      in if check_magic \<noteq> GFS2_MAGIC \<or> (type \<noteq> 0 \<and> check_type \<noteq> type) then -1 else 0)"

text \<open>The members that the code sets in a header in place, one by one.\<close>

definition set_meta_header :: "u32 \<Rightarrow> u32 \<Rightarrow> bytes \<Rightarrow> bytes" where
  "set_meta_header type fmt = assigns [
     put_be32 (offsetof struct_gfs2_meta_header ''mh_magic'') GFS2_MAGIC,
     put_be32 (offsetof struct_gfs2_meta_header ''mh_type'') type,
     put_be32 (offsetof struct_gfs2_meta_header ''mh_format'') fmt]"

text \<open>
  An initialised \<open>struct gfs2_meta_header mh\<close>, whose other members are zero, copied to the start of
  a block by \<open>memcpy(b_data, &mh, sizeof(mh))\<close>.
\<close>

definition copy_meta_header :: "u32 \<Rightarrow> u32 \<Rightarrow> bytes \<Rightarrow> bytes" where
  "copy_meta_header type fmt buf =
     memcpy_at 0 (set_meta_header type fmt (replicate (sizeof struct_gfs2_meta_header) 0)) buf"

lemma length_set_meta_header [simp]: "length (set_meta_header t f buf) = length buf"
  by (simp add: set_meta_header_def)

lemma length_copy_meta_header [simp]: "length (copy_meta_header t f buf) = length buf"
  by (simp add: copy_meta_header_def)

text \<open>Reading a field after a write of a field, without unfolding the write.\<close>

named_theorems field_simps \<open>a field read after the write of a field\<close>

lemma put_others:
  "off + 2 \<le> o' \<or> o' + 2 \<le> off \<Longrightarrow> get_be16 (put_be16 o' v2 buf) off = get_be16 buf off"
  "off + 2 \<le> o' \<or> o' + 4 \<le> off \<Longrightarrow> get_be16 (put_be32 o' v4 buf) off = get_be16 buf off"
  "off + 2 \<le> o' \<or> o' + 8 \<le> off \<Longrightarrow> get_be16 (put_be64 o' v8 buf) off = get_be16 buf off"
  "off + 4 \<le> o' \<or> o' + 2 \<le> off \<Longrightarrow> get_be32 (put_be16 o' v2 buf) off = get_be32 buf off"
  "off + 4 \<le> o' \<or> o' + 4 \<le> off \<Longrightarrow> get_be32 (put_be32 o' v4 buf) off = get_be32 buf off"
  "off + 4 \<le> o' \<or> o' + 8 \<le> off \<Longrightarrow> get_be32 (put_be64 o' v8 buf) off = get_be32 buf off"
  "off + 8 \<le> o' \<or> o' + 2 \<le> off \<Longrightarrow> get_be64 (put_be16 o' v2 buf) off = get_be64 buf off"
  "off + 8 \<le> o' \<or> o' + 4 \<le> off \<Longrightarrow> get_be64 (put_be32 o' v4 buf) off = get_be64 buf off"
  "off + 8 \<le> o' \<or> o' + 8 \<le> off \<Longrightarrow> get_be64 (put_be64 o' v8 buf) off = get_be64 buf off"
  by (simp_all add: put_be16_def put_be32_def put_be64_def be16.get_memcpy_other be32.get_memcpy_other
      be64.get_memcpy_other)

lemmas put_sames = be16.get_put [OF TrueI] be32.get_put [OF TrueI] be64.get_put [OF TrueI]

declare put_others [field_simps] put_sames [field_simps]

lemma check_meta_set: "24 \<le> length buf \<Longrightarrow> gfs2_check_meta (set_meta_header t f buf) t = 0"
  by (simp add: gfs2_check_meta_def set_meta_header_def size_simps field_simps)

text \<open>Buffers that agree on a window read the same there.\<close>

lemma get_be_slice:
  "slice off 2 b = slice off' 2 c \<Longrightarrow> get_be16 b off = get_be16 c off'"
  "slice off 4 b = slice off' 4 c \<Longrightarrow> get_be32 b off = get_be32 c off'"
  "slice off 8 b = slice off' 8 c \<Longrightarrow> get_be64 b off = get_be64 c off'"
  by (simp_all add: get_be16_def get_be32_def get_be64_def)

lemma slice_append: "off + n \<le> length b \<Longrightarrow> slice off n (b @ c) = slice off n b"
  by (simp add: slice_def)

lemma get_be_append [simp]:
  "off + 2 \<le> length b \<Longrightarrow> get_be16 (b @ c) off = get_be16 b off"
  "off + 4 \<le> length b \<Longrightarrow> get_be32 (b @ c) off = get_be32 b off"
  "off + 8 \<le> length b \<Longrightarrow> get_be64 (b @ c) off = get_be64 b off"
  by (simp_all add: get_be16_def get_be32_def get_be64_def slice_append)

lemma slice_memcpy_inside:
  "off \<le> o' \<Longrightarrow> o' + n \<le> off + length bs \<Longrightarrow> off + length bs \<le> length buf
    \<Longrightarrow> slice o' n (memcpy_at off bs buf) = slice (o' - off) n bs"
  by (rule nth_equalityI) (simp_all add: nth_slice nth_memcpy_at)

lemma check_meta_copy: "24 \<le> length buf \<Longrightarrow> gfs2_check_meta (copy_meta_header t f buf) t = 0"
  using check_meta_set [of "replicate 24 0" t f]
  by (simp add: gfs2_check_meta_def copy_meta_header_def size_simps Let_def
      get_be_slice(2) [OF slice_memcpy_inside [of 0 _ 4]])

end
