(* ===== verification/RgIO.thy ===== *)
theory RgIO
  imports Rgrp Buf
begin

text \<open>
  Resource groups on the device (rgrp.c): the buffer of a group's bitmaps, reading a group with its
  checks, releasing it with the write of what was modified, and writing it.

  The bitmaps of a group share one buffer. \<open>bi_data\<close> of bitmap \<open>i\<close> is the \<open>i\<close>th block of it; when the buffer is freed,
  pointers that are not cleared are left \<open>Dangling\<close>, and an operation that follows or frees one has
  no result (None).
\<close>

section \<open>Bitmap buffers\<close>

definition set_bi :: "nat \<Rightarrow> (gfs2_bitmap \<Rightarrow> gfs2_bitmap) \<Rightarrow> rgrp_tree \<Rightarrow> rgrp_tree" where
  "set_bi i f rg = rg\<lparr>bits := (bits rg)[i := f (bits rg ! i)]\<rparr>"

definition round_up :: "u64 \<Rightarrow> u64 \<Rightarrow> u64" where
  "round_up N S = (N + S - 1) div S * S"

text \<open>\<open>posix_memalign\<close> takes a power of two that is a multiple of the size of a pointer.\<close>

definition memalign_ok :: "u64 \<Rightarrow> bool" where
  "memalign_ok a \<longleftrightarrow> a \<noteq> 0 \<and> a AND (a - 1) = 0 \<and> a mod 8 = 0"

definition lgfs2_rgrp_bitbuf_alloc :: "gfs2_sbd \<Rightarrow> u64 \<Rightarrow> u64 \<Rightarrow> rgrp_tree \<Rightarrow> int \<times> rgrp_tree" where
  "lgfs2_rgrp_bitbuf_alloc sdp align align_off rg =
     (let bsize = ucast (sd_bsize sdp) :: u64;
          io_align = (if 0 < align then align_off * bsize else bsize)
      in if \<not> memalign_ok io_align then (1, rg)
         else (0, foldl (\<lambda>rg i. set_bi i (\<lambda>bi. bi\<lparr>bi_data := Live (replicate (unat (sd_bsize sdp)) 0),
                                                 bi_modified := False\<rparr>) rg)
                    rg [0..<unat (rt_length rg)]))"

definition lgfs2_rgrp_bitbuf_free :: "rgrp_tree \<Rightarrow> rgrp_tree option" where
  "lgfs2_rgrp_bitbuf_free rg =
     (if bi_data (bits rg ! 0) = Dangling then None
      else Some (foldl (\<lambda>rg i. set_bi i (\<lambda>bi. bi\<lparr>bi_data := Null, bi_modified := False\<rparr>) rg)
                   rg [0..<unat (rt_length rg)]))"

section \<open>gfs2_rgrp_read\<close>

definition pread_blocks :: "device \<Rightarrow> u64 \<Rightarrow> nat \<Rightarrow> bytes option" where
  "pread_blocks d block n = map_option concat (those (map (\<lambda>i. d (block + of_nat i)) [0..<n]))"

text \<open>The loop over the bitmaps: the first bitmap with a bad header, if there is one.\<close>

fun rgrp_attach :: "nat \<Rightarrow> bytes \<Rightarrow> nat list \<Rightarrow> rgrp_tree \<Rightarrow> nat option \<times> rgrp_tree" where
  "rgrp_attach bsize buf [] rgd = (None, rgd)"
| "rgrp_attach bsize buf (i # is) rgd =
     (let mtype = (if i \<noteq> 0 then GFS2_METATYPE_RB else GFS2_METATYPE_RG);
          data = slice (i * bsize) bsize buf;
          rgd = set_bi i (\<lambda>bi. bi\<lparr>bi_data := Live data\<rparr>) rgd
      in if gfs2_check_meta data mtype \<noteq> 0 then (Some i, rgd)
         else rgrp_attach bsize buf is rgd)"

text \<open>\<open>free(buf)\<close>: the bitmaps up to \<open>n\<close> point into it.\<close>

definition dangle :: "nat \<Rightarrow> rgrp_tree \<Rightarrow> rgrp_tree" where
  "dangle n rgd = foldl (\<lambda>rg i. set_bi i (bi_data_update (\<lambda>_. Dangling)) rg) rgd [0..<n]"

definition gfs2_rgrp_read :: "gfs2_sbd \<Rightarrow> device \<Rightarrow> rgrp_tree \<Rightarrow> u64 \<times> rgrp_tree" where
  "gfs2_rgrp_read sdp d rgd =
     (let len = rt_length rgd * sd_bsize sdp; bsize = unat (sd_bsize sdp) in
      if len = 0 \<or> gfs2_check_range sdp (rt_addr rgd) \<noteq> 0 then (-1, rgd)
      else case pread_blocks d (rt_addr rgd) (unat len div bsize) of
        None \<Rightarrow> (-1, rgd)
      | Some buf \<Rightarrow>
          (case rgrp_attach bsize buf [0..<unat (rt_length rgd)] rgd of
             (Some i, rgd) \<Rightarrow>
               (rt_addr rgd + of_nat i, set_bi 0 (bi_data_update (\<lambda>_. Null)) (dangle (Suc i) rgd))
           | (None, rgd) \<Rightarrow>
               if sd_gfs1 sdp then (0, lgfs2_gfs_rgrp_in rgd buf)
               else if lgfs2_rgrp_crc_check buf \<noteq> 0
               then (rt_addr rgd, dangle (unat (rt_length rgd)) rgd)
               else (0, lgfs2_rgrp_in rgd buf)))"

section \<open>gfs2_rgrp_relse\<close>

text \<open>A write that fails is reported on the terminal only.\<close>

fun relse_loop :: "nat list \<Rightarrow> device \<Rightarrow> rgrp_tree \<Rightarrow> (device \<times> rgrp_tree) option" where
  "relse_loop [] d rgd = Some (d, rgd)"
| "relse_loop (i # is) d rgd =
     (let bi = bits rgd ! i; blk = rt_addr rgd + of_nat i in
      if bi_data bi = Null \<or> \<not> bi_modified bi then relse_loop is d rgd
      else if bi_data bi = Dangling then None
      else
        let d = (if d blk = None then d else d(blk \<mapsto> buf_of (bi_data bi)))
        in relse_loop is d (set_bi i (bi_modified_update (\<lambda>_. False)) rgd))"

definition gfs2_rgrp_relse :: "device \<Rightarrow> rgrp_tree \<Rightarrow> (device \<times> rgrp_tree) option" where
  "gfs2_rgrp_relse d rgd =
     (if bits rgd = [] then Some (d, rgd)
      else case relse_loop [0..<unat (rt_length rgd)] d rgd of None \<Rightarrow> None
      | Some (d, rgd) \<Rightarrow>
          if bi_data (bits rgd ! 0) = Dangling then None
          else Some (d, foldl (\<lambda>rg i. set_bi i (bi_data_update (\<lambda>_. Null)) rg) rgd
                         [0..<unat (rt_length rgd)]))"

section \<open>lgfs2_rgrp_write\<close>

text \<open>
  One write of \<open>len\<close> bytes from the start of the buffer, which is one from \<open>bitbuf_alloc\<close>: what
  follows the bitmaps up to the alignment is zero. The contents of the device after a write that
  fails are not determined (None). The sizes in bytes are taken to fit their 32 bits.
\<close>

definition rgrp_headers :: "rgrp_tree \<Rightarrow> rgrp_tree" where
  "rgrp_headers rg =
     foldl (\<lambda>rg i. set_bi i (\<lambda>bi. bi\<lparr>bi_data :=
                Live (set_meta_header GFS2_METATYPE_RB GFS2_FORMAT_RB (buf_of (bi_data bi)))\<rparr>) rg)
       (set_bi 0 (\<lambda>bi. bi\<lparr>bi_data := Live (lgfs2_rgrp_out rg (buf_of (bi_data bi)))\<rparr>) rg)
       [1..<unat (rt_length rg)]"

fun pwrite_blocks :: "device \<Rightarrow> u64 \<Rightarrow> bytes list \<Rightarrow> device option" where
  "pwrite_blocks d block [] = Some d"
| "pwrite_blocks d block (c # cs) =
     (if d block = None then None else pwrite_blocks (d(block \<mapsto> c)) (block + 1) cs)"

definition lgfs2_rgrp_write ::
  "gfs2_sbd \<Rightarrow> u64 \<Rightarrow> u64 \<Rightarrow> device \<Rightarrow> rgrp_tree \<Rightarrow> int \<times> device option \<times> rgrp_tree" where
  "lgfs2_rgrp_write sdp align align_off d rg =
     (let freebufs = (bi_data (bits rg ! 0) = Null);
          (ret, rg) = (if freebufs then lgfs2_rgrp_bitbuf_alloc sdp align align_off rg else (0, rg))
      in if ret \<noteq> 0 then (-1, Some d, rg)
      else
        let rg = rgrp_headers rg;
            len = (if 0 < align then unat (round_up (ucast (rt_length rg)) align) else unat (rt_length rg));
            zero = replicate (unat (sd_bsize sdp)) 0;
            cs = take len (map (\<lambda>bi. buf_of (bi_data bi)) (bits rg) @ replicate (len - unat (rt_length rg)) zero);
            d' = pwrite_blocks d (rt_addr rg) cs;
            rg = (if freebufs then the (lgfs2_rgrp_bitbuf_free rg) else rg)
        in (if d' = None then -1 else 0, d', rg))"

definition lgfs2_rgrps_write_final :: "gfs2_sbd \<Rightarrow> u64 \<Rightarrow> u64 \<Rightarrow> device \<Rightarrow> rgrp_tree list \<Rightarrow> int \<times> device option \<times> rgrp_tree list" where
  "lgfs2_rgrps_write_final sdp align align_off d rgs =
     (let rg = set_rt_skip 0 (last rgs);
          (ret, d, rg) = lgfs2_rgrp_write sdp align align_off d rg
      in (if ret \<noteq> 0 then -1 else 0, d, butlast rgs @ [rg]))"

section \<open>Laws of the bitmap updates\<close>

definition upd_bits :: "(nat \<Rightarrow> gfs2_bitmap \<Rightarrow> gfs2_bitmap) \<Rightarrow> nat list \<Rightarrow> gfs2_bitmap list \<Rightarrow> gfs2_bitmap list" where
  "upd_bits f is bs = foldl (\<lambda>bs i. bs[i := f i (bs ! i)]) bs is"

lemma fold_set_bi: "foldl (\<lambda>rg i. set_bi i (f i) rg) rg is = rg\<lparr>bits := upd_bits f is (bits rg)\<rparr>"
  by (induction "is" arbitrary: rg) (simp_all add: set_bi_def upd_bits_def)

lemma length_upd_bits [simp]: "length (upd_bits f is bs) = length bs"
  by (induction "is" arbitrary: bs) (simp_all add: upd_bits_def)

lemma nth_upd_bits:
  "i < length bs \<Longrightarrow> upd_bits f [a..<b] bs ! i = (if a \<le> i \<and> i < b then f i (bs ! i) else bs ! i)"
proof (induction b)
  case (Suc b)
  show ?case
  proof (cases "a \<le> b")
    case True
    then have "upd_bits f [a..<Suc b] bs = (upd_bits f [a..<b] bs)[b := f b (upd_bits f [a..<b] bs ! b)]"
      by (simp add: upd_bits_def)
    with Suc True show ?thesis by (cases "i = b") auto
  qed (auto simp: upd_bits_def)
qed (simp add: upd_bits_def)

lemma upd_bits_cong: "(\<And>i. i \<in> set is \<Longrightarrow> f i = g i) \<Longrightarrow> upd_bits f is bs = upd_bits g is bs"
  by (induction "is" arbitrary: bs) (simp_all add: upd_bits_def)


lemma attach_ok:
  assumes "\<And>i. i \<in> set is \<Longrightarrow> gfs2_check_meta (slice (i * bsize) bsize buf)
      (if i \<noteq> 0 then GFS2_METATYPE_RB else GFS2_METATYPE_RG) = 0"
  shows "rgrp_attach bsize buf is rgd
    = (None, foldl (\<lambda>rg i. set_bi i (\<lambda>bi. bi\<lparr>bi_data := Live (slice (i * bsize) bsize buf)\<rparr>) rg) rgd is)"
  using assms by (induction "is" arbitrary: rgd) simp_all

lemma length_concat_blocks: "\<forall>c \<in> set cs. length c = n \<Longrightarrow> length (concat cs) = length cs * n"
  by (induction cs) simp_all

lemma slice_concat:
  assumes "\<forall>c \<in> set cs. length c = n" "i < length cs"
  shows "slice (i * n) n (concat cs) = cs ! i"
  using assms
proof (induction cs arbitrary: i)
  case Nil
  then show ?case by simp
next
  case (Cons c cs)
  then show ?case by (cases i) (simp_all add: slice_def)
qed

lemma those_map: "(\<And>x. x \<in> set xs \<Longrightarrow> f x = Some (g x)) \<Longrightarrow> those (map f xs) = Some (map g xs)"
  by (induction xs) auto

lemma pwrite_other:
  "pwrite_blocks d b cs = Some d' \<Longrightarrow> (\<And>i. i < length cs \<Longrightarrow> x \<noteq> b + of_nat i) \<Longrightarrow> d' x = d x"
proof (induction cs arbitrary: d b)
  case Nil
  then show ?case by simp
next
  case (Cons c cs)
  have "x \<noteq> b" using Cons.prems(2) [of 0] by simp
  moreover have "d' x = (d(b \<mapsto> c)) x"
  proof (rule Cons.IH)
    show "pwrite_blocks (d(b \<mapsto> c)) (b + 1) cs = Some d'" using Cons.prems(1) by (simp split: if_splits)
    show "x \<noteq> b + 1 + of_nat i" if "i < length cs" for i
      using Cons.prems(2) [of "Suc i"] that by (simp add: algebra_simps)
  qed
  ultimately show ?case by simp
qed

lemma pwrite_at:
  "pwrite_blocks d b cs = Some d' \<Longrightarrow> i < length cs \<Longrightarrow> length cs < 2 ^ 64 \<Longrightarrow> d' (b + of_nat i) = Some (cs ! i)"
proof (induction cs arbitrary: d b i)
  case Nil
  then show ?case by simp
next
  case (Cons c cs)
  have rest: "pwrite_blocks (d(b \<mapsto> c)) (b + 1) cs = Some d'" using Cons.prems(1) by (simp split: if_splits)
  show ?case
  proof (cases i)
    case 0
    have "b \<noteq> b + 1 + of_nat j" if "j < length cs" for j
    proof -
      have "unat (of_nat (Suc j) :: u64) = Suc j"
        using that Cons.prems(3) by (intro unat_of_nat_small) simp
      then have "(of_nat (Suc j) :: u64) \<noteq> 0" by (metis unat_0 nat.distinct(2))
      then show ?thesis by (simp add: add.assoc)
    qed
    then have "d' b = (d(b \<mapsto> c)) b" by (rule pwrite_other [OF rest])
    with 0 show ?thesis by simp
  next
    case (Suc j)
    then have "d' (b + 1 + of_nat j) = Some (cs ! j)"
      using Cons.prems by (intro Cons.IH [OF rest]) simp_all
    with Suc show ?thesis by (simp add: algebra_simps)
  qed
qed

lemma drop_memcpy_at: "off + length bs \<le> k \<Longrightarrow> drop k (memcpy_at off bs buf) = drop k buf"
  by (rule nth_equalityI) (simp_all add: nth_memcpy_at)

lemma drop_headers:
  "drop 128 (lgfs2_rgrp_out rg buf) = drop 128 buf" "drop 24 (set_meta_header t f buf) = drop 24 buf"
  by (simp_all add: lgfs2_rgrp_out_def lgfs2_rgrp_crc_set_def set_meta_header_def put_be32_def put_be64_def
      drop_memcpy_at size_simps Let_def)

lemma memcpy_append: "off + length bs \<le> length b \<Longrightarrow> memcpy_at off bs (b @ c) = memcpy_at off bs b @ c"
  by (simp add: memcpy_at_def)

lemma crc_check_append: "128 \<le> length b \<Longrightarrow> lgfs2_rgrp_crc_check (b @ c) = lgfs2_rgrp_crc_check b"
  by (simp add: lgfs2_rgrp_crc_check_def put_be32_def memcpy_append slice_append size_simps Let_def)

lemma rgrp_in_append: "128 \<le> length b \<Longrightarrow> lgfs2_rgrp_in rg (b @ c) = lgfs2_rgrp_in rg b"
  by (simp add: lgfs2_rgrp_in_def size_simps)

lemma check_meta_rgrp_out: "128 \<le> length buf \<Longrightarrow> gfs2_check_meta (lgfs2_rgrp_out rg buf) GFS2_METATYPE_RG = 0"
  by (simp add: gfs2_check_meta_def lgfs2_rgrp_out_def lgfs2_rgrp_crc_set_def size_simps field_simps Let_def)

section \<open>Written and read back\<close>

definition loaded_exactly :: "u32 \<Rightarrow> rgrp_tree \<Rightarrow> bool" where
  "loaded_exactly bsize rg \<longleftrightarrow>
     (\<forall>x < unat (rt_length rg). \<exists>c. bi_data (bits rg ! x) = Live c \<and> length c = unat bsize)"

lemma loaded_exactlyD: "loaded_exactly bsize rg \<Longrightarrow> loaded bsize rg"
  by (fastforce simp: loaded_exactly_def loaded_def)

text \<open>The blocks of a written group.\<close>

definition rgrp_block :: "rgrp_tree \<Rightarrow> nat \<Rightarrow> bytes" where
  "rgrp_block rg x =
     (if x = 0 then lgfs2_rgrp_out rg (buf_of (bi_data (bits rg ! 0)))
      else set_meta_header GFS2_METATYPE_RB GFS2_FORMAT_RB (buf_of (bi_data (bits rg ! x))))"

lemma rgrp_headers_block:
  assumes "x < unat (rt_length rg)" "length (bits rg) = unat (rt_length rg)"
  shows "buf_of (bi_data (bits (rgrp_headers rg) ! x)) = rgrp_block rg x"
  using assms unfolding rgrp_headers_def fold_set_bi
  by (cases "x = 0") (simp_all add: set_bi_def nth_upd_bits rgrp_block_def, simp_all add: buf_of_def)

lemma rgrp_headers_frame [simp]:
  "rt_addr (rgrp_headers rg) = rt_addr rg" "rt_length (rgrp_headers rg) = rt_length rg"
  "length (bits (rgrp_headers rg)) = length (bits rg)"
  unfolding rgrp_headers_def fold_set_bi by (simp_all add: set_bi_def)

lemma length_rgrp_block:
  "loaded_exactly bsize rg \<Longrightarrow> x < unat (rt_length rg) \<Longrightarrow> length (rgrp_block rg x) = unat bsize"
  by (fastforce simp: loaded_exactly_def rgrp_block_def buf_of_def)

lemma round_up_le:
  assumes "0 < align" "align < 2 ^ 32"
  shows "unat n \<le> unat (round_up (ucast (n :: u32)) align)"
proof -
  let ?n = "unat n" and ?a = "unat align"
  have a: "0 < ?a" "?a < 2 ^ 32" using assms by (simp_all add: word_less_nat_alt)
  have n64: "unat (ucast n :: u64) = ?n" by (simp add: unat_ucast_up)
  have s: "unat (ucast n + align - 1) = ?n + ?a - 1"
  proof -
    have "unat (ucast n + align) = ?n + ?a"
      using a u32_lt [of n] by (subst unat_add_no_wrap) (simp_all add: n64)
    then show ?thesis using a by (subst unat_sub) (simp_all add: word_le_nat_alt)
  qed
  have "(?n + ?a - 1) div ?a * ?a \<le> ?n + ?a - 1" by (rule div_times_less_eq_dividend)
  also have "\<dots> < 2 ^ 64" using a u32_lt [of n] by simp
  finally have "unat ((ucast n + align - 1) div align) * ?a < 2 ^ LENGTH(64)" by (simp add: unat_div s)
  then have "unat (round_up (ucast n) align) = unat ((ucast n + align - 1) div align) * ?a"
    unfolding round_up_def by (rule unat_mult_no_wrap)
  then have "unat (round_up (ucast n) align) = (?n + ?a - 1) div ?a * ?a"
    by (simp only: unat_div s)
  moreover have "?n \<le> (?n + ?a - 1) div ?a * ?a"
    using a(1) div_mult_mod_eq [of "?n + ?a - 1" ?a] mod_less_divisor [OF a(1), of "?n + ?a - 1"] by linarith
  ultimately show ?thesis by simp
qed

lemma rgrp_write_blocks:
  assumes g: "geom (sd_bsize sdp) rg" and l: "loaded_exactly (sd_bsize sdp) rg"
    and align: "align < 2 ^ 32"
    and w: "lgfs2_rgrp_write sdp align align_off d rg = (0, Some d', rg')"
    and x: "x < unat (rt_length rg)"
  shows "d' (rt_addr rg + of_nat x) = Some (rgrp_block rg x)"
proof -
  let ?N = "unat (rt_length rg)"
  define len where "len = (if 0 < align then unat (round_up (ucast (rt_length rg)) align) else ?N)"
  define cs where "cs = take len (map (\<lambda>bi. buf_of (bi_data bi)) (bits (rgrp_headers rg))
      @ replicate (len - ?N) (replicate (unat (sd_bsize sdp)) 0))"
  have N: "0 < ?N" "length (bits rg) = ?N" using geomD(2,3) [OF g] by auto
  have "?N \<le> len" using round_up_le [of align "rt_length rg"] align by (simp add: len_def)
  then have cs: "length cs = len" "cs ! x = rgrp_block rg x"
    using x N rgrp_headers_block [OF x N(2)] by (simp_all add: cs_def nth_append)
  obtain c where "bi_data (bits rg ! 0) = Live c" using l N(1) unfolding loaded_exactly_def by blast
  then have "pwrite_blocks d (rt_addr rg) cs = Some d'"
    using w by (auto simp: lgfs2_rgrp_write_def Let_def cs_def len_def split: if_splits)
  moreover have "len < 2 ^ 64" using u64_lt [of "round_up (ucast (rt_length rg)) align"] u32_lt [of "rt_length rg"]
    by (simp add: len_def)
  ultimately show ?thesis using pwrite_at [of d "rt_addr rg" cs d' x] cs x \<open>?N \<le> len\<close> by simp
qed

lemma rgrp_read_blocks:
  assumes g: "geom (sd_bsize sdp) rgd"
    and blocks: "\<And>x. x < unat (rt_length rgd) \<Longrightarrow> d (rt_addr rgd + of_nat x) = Some (blk x) \<and> length (blk x) = unat (sd_bsize sdp)
      \<and> gfs2_check_meta (blk x) (if x \<noteq> 0 then GFS2_METATYPE_RB else GFS2_METATYPE_RG) = 0"
    and len: "unat (rt_length rgd) * unat (sd_bsize sdp) < 2 ^ 32"
    and range: "gfs2_check_range sdp (rt_addr rgd) = 0" and "\<not> sd_gfs1 sdp"
  shows "gfs2_rgrp_read sdp d rgd =
    (let rgd' = foldl (\<lambda>rg i. set_bi i (\<lambda>bi. bi\<lparr>bi_data := Live (blk i)\<rparr>) rg) rgd [0..<unat (rt_length rgd)]
     in if lgfs2_rgrp_crc_check (blk 0) \<noteq> 0 then (rt_addr rgd, dangle (unat (rt_length rgd)) rgd')
        else (0, lgfs2_rgrp_in rgd' (blk 0)))"
proof -
  let ?N = "unat (rt_length rgd)" and ?b = "unat (sd_bsize sdp)"
  have b: "512 \<le> ?b" and N: "0 < ?N" using geomD(1,2) [OF g] by auto
  have ul: "unat (rt_length rgd * sd_bsize sdp) = ?N * ?b" using len by (simp add: unat_mult_no_wrap)
  have nz: "rt_length rgd * sd_bsize sdp \<noteq> 0"
  proof
    assume "rt_length rgd * sd_bsize sdp = 0"
    then have "?N * ?b = 0" using ul by simp
    with N b show False by simp
  qed
  define cs where "cs = map blk [0..<?N]"
  have cs: "\<forall>c \<in> set cs. length c = ?b" "length cs = ?N" using blocks by (auto simp: cs_def)
  have "those (map (\<lambda>i. d (rt_addr rgd + of_nat i)) [0..<?N]) = Some cs"
    unfolding cs_def using blocks by (intro those_map) simp
  then have rd: "pread_blocks d (rt_addr rgd) (unat (rt_length rgd * sd_bsize sdp) div ?b) = Some (concat cs)"
    using b by (simp add: pread_blocks_def ul)
  have sl: "slice (i * ?b) ?b (concat cs) = blk i" if "i < ?N" for i
    using slice_concat [OF cs(1), of i] that cs(2) by (simp add: cs_def)
  have att: "rgrp_attach ?b (concat cs) [0..<?N] rgd
      = (None, foldl (\<lambda>rg i. set_bi i (\<lambda>bi. bi\<lparr>bi_data := Live (slice (i * ?b) ?b (concat cs))\<rparr>) rg) rgd [0..<?N])"
    by (rule attach_ok) (use blocks sl in simp)
  moreover have "\<dots> = (None, foldl (\<lambda>rg i. set_bi i (\<lambda>bi. bi\<lparr>bi_data := Live (blk i)\<rparr>) rg) rgd [0..<?N])"
    unfolding fold_set_bi by (simp, rule arg_cong [of _ _ "\<lambda>bs. rgd\<lparr>bits := bs\<rparr>"], rule upd_bits_cong) (simp add: sl)
  moreover have "concat cs = blk 0 @ concat (map blk [1..<?N])"
    using N by (simp add: cs_def upt_conv_Cons)
  moreover have "128 \<le> length (blk 0)" using blocks [OF N] b by simp
  ultimately show ?thesis
    using nz range rd assms(5)
    by (simp add: gfs2_rgrp_read_def Let_def crc_check_append rgrp_in_append fold_set_bi)
qed

lemma check_meta_block:
  assumes "loaded_exactly bsize rg" "512 \<le> unat bsize" "x < unat (rt_length rg)"
  shows "gfs2_check_meta (rgrp_block rg x) (if x \<noteq> 0 then GFS2_METATYPE_RB else GFS2_METATYPE_RG) = 0"
  using assms
  by (fastforce simp: loaded_exactly_def rgrp_block_def buf_of_def check_meta_set check_meta_rgrp_out)

lemma rgrp_in_frame [simp]:
  "bits (lgfs2_rgrp_in rg buf) = bits rg" "rt_length (lgfs2_rgrp_in rg buf) = rt_length rg"
  "rt_data (lgfs2_rgrp_in rg buf) = rt_data rg"
  by (simp_all add: lgfs2_rgrp_in_def set_rt_dinodes_def set_rt_skip_def)

text \<open>The fields the header holds do not depend on the group that is read into.\<close>

lemma rgrp_in_fields:
  "rt_free (lgfs2_rgrp_in rg buf) = rt_free (lgfs2_rgrp_in rg' buf)"
  "rt_flags (lgfs2_rgrp_in rg buf) = rt_flags (lgfs2_rgrp_in rg' buf)"
  "rt_dinodes (lgfs2_rgrp_in rg buf) = rt_dinodes (lgfs2_rgrp_in rg' buf)"
  "rt_skip (lgfs2_rgrp_in rg buf) = rt_skip (lgfs2_rgrp_in rg' buf)"
  "rt_u0 (lgfs2_rgrp_in rg buf) = rt_u0 (lgfs2_rgrp_in rg' buf)"
  by (simp_all add: lgfs2_rgrp_in_def rt_union_defs)

text \<open>C16. A resource group written by \<open>lgfs2_rgrp_write\<close>, with any alignment of the groups, is accepted by
  \<open>gfs2_rgrp_read\<close> and read back the same: the state of every block, the free count, the flags, the
  count of inodes, the distance to the next group and the generation.\<close>

theorem rgrp_write_read:
  assumes "geom (sd_bsize sdp) rg" "loaded_exactly (sd_bsize sdp) rg" "align < 2 ^ 32"
    and "lgfs2_rgrp_write sdp align align_off d rg = (0, Some d', rg')"
    and "geom (sd_bsize sdp) rgd" "rt_addr rgd = rt_addr rg" "rt_length rgd = rt_length rg" "rt_data rgd = rt_data rg"
    and "unat (rt_length rg) * unat (sd_bsize sdp) < 2 ^ 32"
    and "gfs2_check_range sdp (rt_addr rg) = 0" "\<not> sd_gfs1 sdp"
  shows "\<exists>r. gfs2_rgrp_read sdp d' rgd = (0, r)
    \<and> (\<forall>i < unat (rt_data rg). rg_state (sd_bsize sdp) r i = rg_state (sd_bsize sdp) rg i)
    \<and> rt_free r = rt_free rg \<and> rt_flags r = rt_flags rg \<and> rt_dinodes r = rt_dinodes rg
    \<and> rt_skip r = rt_skip rg \<and> rt_igeneration r = rt_igeneration rg"
proof -
  let ?b = "sd_bsize sdp" and ?N = "unat (rt_length rg)" and ?blk = "rgrp_block rg"
  have b: "512 \<le> unat ?b" and N: "0 < ?N" and len: "length (bits rgd) = ?N"
    using geomD(1,2) [OF assms(1)] geomD(3) [OF assms(5)] assms(7) by auto
  define r where "r = lgfs2_rgrp_in (foldl (\<lambda>rg i. set_bi i (\<lambda>bi. bi\<lparr>bi_data := Live (?blk i)\<rparr>) rg) rgd [0..<?N]) (?blk 0)"
  obtain c where c: "bi_data (bits rg ! 0) = Live c" "length c = unat ?b"
    using assms(2) N unfolding loaded_exactly_def by blast
  then have b0: "?blk 0 = lgfs2_rgrp_out rg c" by (simp add: rgrp_block_def buf_of_def)
  have size: "sizeof struct_gfs2_rgrp \<le> length c" using c b by (simp add: size_simps)
  then have crc: "lgfs2_rgrp_crc_check (?blk 0) = 0"
    unfolding b0 lgfs2_rgrp_out_def by (intro crc_check_set) simp
  have "gfs2_rgrp_read sdp d' rgd = (0, r)"
    using rgrp_read_blocks [OF assms(5), of d' ?blk] rgrp_write_blocks [OF assms(1-4)] crc
      length_rgrp_block [OF assms(2)] check_meta_block [OF assms(2) b] assms(6-11)
    by (simp add: r_def)
  moreover have written: "lgfs2_rgrp_in rg (?blk 0) = rg" using size by (simp add: b0 rgrp_in_out)
  have "rg_state ?b r i = rg_state ?b rg i" if i: "i < unat (rt_data rg)" for i
  proof -
    let ?x = "bm_index (unat ?b) i"
    have x: "?x < ?N" using bm_index_in_group(1) [OF assms(1) i] .
    have "bits r ! ?x = (bits rgd ! ?x)\<lparr>bi_data := Live (?blk ?x)\<rparr>"
      using x len unfolding r_def fold_set_bi by (simp add: nth_upd_bits)
    then have "drop (bm_hdr ?x) (buf_of (bi_data (bits r ! ?x))) = drop (bm_hdr ?x) (buf_of (bi_data (bits rg ! ?x)))"
      by (simp add: buf_of_def rgrp_block_def bm_hdr_def drop_headers)
    then show ?thesis by (simp add: rg_state_def Let_def)
  qed
  moreover have "rt_free r = rt_free rg" "rt_flags r = rt_flags rg" "rt_dinodes r = rt_dinodes rg"
    "rt_skip r = rt_skip rg" "rt_u0 r = rt_u0 rg"
    unfolding r_def using written rgrp_in_fields [of _ "?blk 0" rg] by metis+
  ultimately show ?thesis by blast
qed

definition device_example :: device where
  "device_example b = (if b < 100000 then Some (replicate 512 0) else None)"

theorem rgrp_write_read_witness:
  "\<exists>d' rg' r. lgfs2_rgrp_write sbd_example 0 0 device_example rgrp_example = (0, Some d', rg')
     \<and> gfs2_rgrp_read sbd_example d' rgrp_example = (0, r) \<and> rt_free r = 16"
proof -
  have ex: "loaded_exactly 512 rgrp_example" "sd_bsize sbd_example = 512"
    by (simp_all add: loaded_exactly_def rgrp_example_def sbd_example_def)
  obtain d' rg' where w: "lgfs2_rgrp_write sbd_example 0 0 device_example rgrp_example = (0, Some d', rg')"
    by (simp add: lgfs2_rgrp_write_def rgrp_headers_def set_bi_def rgrp_example_def Let_def device_example_def)
  with rgrp_write_read [of sbd_example rgrp_example 0 0 device_example d' rg' rgrp_example]
  show ?thesis
    using rgrp_example_geom ex
    by (auto simp: rgrp_example_def gfs2_check_range_def LGFS2_SB_ADDR_def sbd_example_def)
qed

text \<open>When a group's blocks are metadata of the right types but the checksum in its header is wrong,
  \<open>gfs2_rgrp_read\<close> fails after freeing the buffer and leaves every bitmap's pointer to it: releasing
  the group afterwards frees the buffer a second time.\<close>

theorem rgrp_read_bad_crc_dangles:
  assumes "geom (sd_bsize sdp) rgd"
    and "\<And>x. x < unat (rt_length rgd) \<Longrightarrow> d (rt_addr rgd + of_nat x) = Some (blk x) \<and> length (blk x) = unat (sd_bsize sdp)
      \<and> gfs2_check_meta (blk x) (if x \<noteq> 0 then GFS2_METATYPE_RB else GFS2_METATYPE_RG) = 0"
    and "unat (rt_length rgd) * unat (sd_bsize sdp) < 2 ^ 32"
    and "gfs2_check_range sdp (rt_addr rgd) = 0" "\<not> sd_gfs1 sdp"
    and "lgfs2_rgrp_crc_check (blk 0) \<noteq> 0" "\<And>x. x < unat (rt_length rgd) \<Longrightarrow> \<not> bi_modified (bits rgd ! x)"
  shows "fst (gfs2_rgrp_read sdp d rgd) = rt_addr rgd
    \<and> gfs2_rgrp_relse d (snd (gfs2_rgrp_read sdp d rgd)) = None"
proof -
  let ?N = "unat (rt_length rgd)"
  have N: "0 < ?N" "length (bits rgd) = ?N" using geomD(2,3) [OF assms(1)] by auto
  define r where "r = snd (gfs2_rgrp_read sdp d rgd)"
  have read: "gfs2_rgrp_read sdp d rgd = (rt_addr rgd, dangle ?N
      (foldl (\<lambda>rg i. set_bi i (\<lambda>bi. bi\<lparr>bi_data := Live (blk i)\<rparr>) rg) rgd [0..<?N]))"
    using rgrp_read_blocks [OF assms(1-5)] assms(6) by simp
  have r: "length (bits r) = ?N" "rt_length r = rt_length rgd"
    "\<And>x. x < ?N \<Longrightarrow> bi_data (bits r ! x) = Dangling \<and> \<not> bi_modified (bits r ! x)"
    unfolding r_def read dangle_def fold_set_bi using N assms(7) by (simp_all add: nth_upd_bits)
  have "relse_loop is d r = Some (d, r)" if "\<forall>i \<in> set is. i < ?N" for "is"
    using that r(3) by (induction "is") simp_all
  then have "relse_loop [0..<?N] d r = Some (d, r)" by simp
  moreover have "bits r \<noteq> []" using N r(1) by auto
  ultimately have "gfs2_rgrp_relse d r = None"
    using N r by (simp add: gfs2_rgrp_relse_def)
  then show ?thesis using read by (simp add: r_def)
qed

text \<open>One of two blocks that differ in the checksum only has a wrong one.\<close>

definition crc_block :: "u32 \<Rightarrow> bytes" where
  "crc_block v = put_be32 64 v (set_meta_header GFS2_METATYPE_RG GFS2_FORMAT_RG (replicate 512 0))"

lemma crc_block_bad: "lgfs2_rgrp_crc_check (crc_block 1) \<noteq> 0 \<or> lgfs2_rgrp_crc_check (crc_block 2) \<noteq> 0"
proof -
  let ?h = "gfs2_disk_hash (slice 0 128 (put_be32 64 0 (set_meta_header 2 200 (replicate 512 0))))"
  have "lgfs2_rgrp_crc_check (crc_block v) = (if v \<noteq> 0 \<and> v \<noteq> ?h then 1 else 0)" for v
    by (simp add: lgfs2_rgrp_crc_check_def crc_block_def size_simps be32.get_put be32.put_put Let_def)
  then show ?thesis by (cases "?h = 1") simp_all
qed

theorem rgrp_read_bad_crc_dangles_witness:
  "\<exists>d. fst (gfs2_rgrp_read sbd_example d rgrp_example) = 200
     \<and> gfs2_rgrp_relse d (snd (gfs2_rgrp_read sbd_example d rgrp_example)) = None"
proof -
  obtain v where v: "lgfs2_rgrp_crc_check (crc_block v) \<noteq> 0" using crc_block_bad by blast
  have "gfs2_check_meta (crc_block v) 2 = 0" "length (crc_block v) = 512"
    by (simp_all add: crc_block_def gfs2_check_meta_def set_meta_header_def size_simps field_simps)
  then show ?thesis
    using rgrp_read_bad_crc_dangles [of sbd_example rgrp_example "\<lambda>_. Some (crc_block v)" "\<lambda>_. crc_block v"]
      rgrp_example_geom v
    by (intro exI [of _ "\<lambda>_. Some (crc_block v)"])
      (simp add: rgrp_example_def gfs2_check_range_def LGFS2_SB_ADDR_def sbd_example_def)
qed

end
