(* ===== verification/FsAlloc.thy ===== *)
theory FsAlloc
  imports RgIO Rbm "HOL-Library.Tree"
begin

text \<open>
  Allocation and release of blocks (fs_ops.c, rgrp.c): the search of the tree of resource groups,
  the search of a group for a free block, and the bookkeeping of the counts in the group and in the
  superblock.

  The state is the superblock, the tree of groups and the device. The tree is a binary search tree on
  \<open>rt_addr\<close>; its rebalancing (osi_tree.h) is not part of the operations here, which only walk it.
  None is the result of an operation that ends the program or follows an invalid pointer.
\<close>

record fs =
  fs_sdp :: gfs2_sbd
  fs_rgtree :: "rgrp_tree tree"
  fs_disk :: device

section \<open>The tree of groups\<close>

fun gfs2_blk2rgrpd :: "rgrp_tree tree \<Rightarrow> u64 \<Rightarrow> rgrp_tree option" where
  "gfs2_blk2rgrpd Leaf blk = None"
| "gfs2_blk2rgrpd (Node l rgd r) blk =
     (if blk < rt_addr rgd then gfs2_blk2rgrpd l blk
      else if rt_data0 rgd + ucast (rt_data rgd) \<le> blk then gfs2_blk2rgrpd r blk
      else Some rgd)"

text \<open>A group is changed in place; its address is its key.\<close>

definition put_rg :: "rgrp_tree \<Rightarrow> fs \<Rightarrow> fs" where
  "put_rg rg fs = fs\<lparr>fs_rgtree := map_tree (\<lambda>r. if rt_addr r = rt_addr rg then rg else r) (fs_rgtree fs)\<rparr>"

section \<open>Allocation in a group\<close>

fun free_block_loop :: "rgrp_tree \<Rightarrow> nat list \<Rightarrow> u64" where
  "free_block_loop rgd [] = 0"
| "free_block_loop rgd (bm # bms) =
     (let bits = bits rgd ! bm;
          blk = gfs2_bitfit (drop (unat (bi_offset bits)) (buf_of (bi_data bits))) (unat (bi_len bits)) 0 GFS2_BLKST_FREE
      in if blk \<noteq> BFITNOENT then of_nat blk + ucast (bi_start bits * GFS2_NBBY) + rt_data0 rgd
         else free_block_loop rgd bms)"

definition find_free_block :: "rgrp_tree \<Rightarrow> u64" where
  "find_free_block rgd =
     (if rt_free rgd = 0 then 0 else free_block_loop rgd [0..<unat (rt_length rgd)])"

text \<open>The header goes back into the first bitmap's block, which is marked as modified.\<close>

definition rgrp_header_out :: "gfs2_sbd \<Rightarrow> rgrp_tree \<Rightarrow> rgrp_tree" where
  "rgrp_header_out sdp rgd = set_bi 0
     (\<lambda>bi. bi\<lparr>bi_data := Live ((if sd_gfs1 sdp then lgfs2_gfs_rgrp_out rgd else lgfs2_rgrp_out rgd) (buf_of (bi_data bi))),
              bi_modified := True\<rparr>) rgd"

definition blk_alloc_in_rg ::
  "gfs2_sbd \<Rightarrow> nat \<Rightarrow> rgrp_tree \<Rightarrow> u64 \<Rightarrow> bool \<Rightarrow> int \<times> gfs2_sbd \<times> rgrp_tree" where
  "blk_alloc_in_rg sdp state rgd blkno dinode =
     (if blkno = 0 then (-1, sdp, rgd)
      else case gfs2_set_bitmap (Some rgd) blkno (int state) of (ret, rgd') \<Rightarrow>
        let rgd = the rgd' in
        if ret \<noteq> 0 then (-1, sdp, rgd)
        else
          let rgd = (if state = GFS2_BLKST_DINODE then
                       if dinode then set_rt_dinodes (rt_dinodes rgd + 1) rgd
                       else if sd_gfs1 sdp then set_rt_usedmeta (rt_usedmeta rgd + 1) rgd
                       else rgd
                     else rgd);
              rgd = rgd\<lparr>rt_free := rt_free rgd - 1\<rparr>
          in (0, sdp\<lparr>blks_alloced := blks_alloced sdp + 1\<rparr>, rgrp_header_out sdp rgd))"

text \<open>
  \<open>block_alloc\<close>: the first group with enough free blocks, or the last group of the tree when none
  has. \<open>blkno\<close> is the value of \<open>*blkno\<close> before the call; the result has the one after it.
\<close>

definition block_alloc :: "fs \<Rightarrow> u64 \<Rightarrow> nat \<Rightarrow> u64 \<Rightarrow> bool \<Rightarrow> (int \<times> u64 \<times> fs) option" where
  "block_alloc fs blksreq state blkno dinode =
     (let rgs = inorder (fs_rgtree fs); sdp = fs_sdp fs in
      if rgs = [] then Some (-1, blkno, fs)
      else
        let rgt = (case find (\<lambda>rgt. blksreq \<le> ucast (rt_free rgt)) rgs of Some rgt \<Rightarrow> rgt | None \<Rightarrow> last rgs);
            release = (bi_data (bits rgt ! 0) = Null);
            (e, rgt) = (if release then gfs2_rgrp_read sdp (fs_disk fs) rgt else (0, rgt))
        in if e \<noteq> 0 then Some (-1, blkno, put_rg rgt fs)
           else
             let bn = find_free_block rgt;
                 (ret, sdp, rgt) = blk_alloc_in_rg sdp state rgt bn dinode
             in if release
                then case gfs2_rgrp_relse (fs_disk fs) rgt of None \<Rightarrow> None
                  | Some (d, rgt) \<Rightarrow> Some (ret, bn, put_rg rgt (fs\<lparr>fs_sdp := sdp, fs_disk := d\<rparr>))
                else Some (ret, bn, put_rg rgt (fs\<lparr>fs_sdp := sdp\<rparr>)))"

definition lgfs2_dinode_alloc :: "fs \<Rightarrow> u64 \<Rightarrow> u64 \<Rightarrow> (int \<times> u64 \<times> fs) option" where
  "lgfs2_dinode_alloc fs blksreq blkno =
     (case block_alloc fs blksreq GFS2_BLKST_DINODE blkno True of None \<Rightarrow> None
      | Some (ret, blkno, fs) \<Rightarrow>
          Some (ret, blkno, if ret = 0 then fs\<lparr>fs_sdp := (fs_sdp fs)\<lparr>dinodes_alloced := dinodes_alloced (fs_sdp fs) + 1\<rparr>\<rparr>
                            else fs))"

section \<open>gfs2_free_block\<close>

definition gfs2_free_block :: "fs \<Rightarrow> u64 \<Rightarrow> fs" where
  "gfs2_free_block fs block =
     (case gfs2_blk2rgrpd (fs_rgtree fs) block of None \<Rightarrow> fs
      | Some rgd \<Rightarrow>
          let rgd = the (snd (gfs2_set_bitmap (Some rgd) block (int GFS2_BLKST_FREE)));
              rgd = rgd\<lparr>rt_free := rt_free rgd + 1\<rparr>;
              sdp = fs_sdp fs
          in put_rg (rgrp_header_out sdp rgd) (fs\<lparr>fs_sdp := sdp\<lparr>blks_alloced := blks_alloced sdp - 1\<rparr>\<rparr>))"

section \<open>The group of a block\<close>

text \<open>Groups in order on the device, none reaching into the next.\<close>

definition rgs_ordered :: "rgrp_tree list \<Rightarrow> bool" where
  "rgs_ordered rgs \<longleftrightarrow>
     (\<forall>rg \<in> set rgs. rt_addr rg \<le> rt_data0 rg + ucast (rt_data rg)) \<and>
     sorted_wrt (\<lambda>r s. rt_data0 r + ucast (rt_data r) \<le> rt_addr s) rgs"

definition rg_owns :: "rgrp_tree \<Rightarrow> u64 \<Rightarrow> bool" where
  "rg_owns rg blk \<longleftrightarrow> rt_addr rg \<le> blk \<and> blk < rt_data0 rg + ucast (rt_data rg)"

lemma blk2rgrpd_find:
  "rgs_ordered (inorder t) \<Longrightarrow> gfs2_blk2rgrpd t blk = find (\<lambda>rg. rg_owns rg blk) (inorder t)"
proof (induction t)
  case Leaf
  then show ?case by simp
next
  case (Node l rg r)
  have ord: "rgs_ordered (inorder l)" "rgs_ordered (inorder r)"
    and before: "\<And>s. s \<in> set (inorder l) \<Longrightarrow> rt_data0 s + ucast (rt_data s) \<le> rt_addr rg"
    and after: "\<And>s. s \<in> set (inorder r) \<Longrightarrow> rt_data0 rg + ucast (rt_data rg) \<le> rt_addr s"
    and self: "rt_addr rg \<le> rt_data0 rg + ucast (rt_data rg)"
    using Node.prems by (auto simp: rgs_ordered_def sorted_wrt_append)
  have notl: "find (\<lambda>s. rg_owns s blk) (inorder l) = None" if "rt_addr rg \<le> blk"
    using before that by (fastforce simp: find_None_iff rg_owns_def)
  have notr: "find (\<lambda>s. rg_owns s blk) (inorder r) = None" if "blk < rt_data0 rg + ucast (rt_data rg)"
    using after that by (fastforce simp: find_None_iff rg_owns_def)
  have app: "find P (xs @ ys) = (case find P xs of None \<Rightarrow> find P ys | Some x \<Rightarrow> Some x)" for P and xs ys :: "rgrp_tree list"
    by (induction xs) auto
  consider "blk < rt_addr rg" | "rt_data0 rg + ucast (rt_data rg) \<le> blk" | "rg_owns rg blk"
    unfolding rg_owns_def using not_less by blast
  then show ?case
  proof cases
    case 1
    then have "blk < rt_data0 rg + ucast (rt_data rg)" using self by simp
    with 1 Node.IH(1) [OF ord(1)] notr show ?thesis
      by (auto simp: app rg_owns_def split: option.splits)
  next
    case 2
    then have "rt_addr rg \<le> blk" using self by simp
    with 2 Node.IH(2) [OF ord(2)] notl show ?thesis
      by (auto simp: app rg_owns_def)
  next
    case 3
    then have "rt_addr rg \<le> blk" by (simp add: rg_owns_def)
    with 3 notl show ?thesis by (simp add: app) (simp add: rg_owns_def not_less [symmetric])
  qed
qed


section \<open>The first free block of a group\<close>

lemma free_block_loop_find:
  assumes g: "geom b rg" and l: "loaded b rg"
  shows "x \<le> unat (rt_length rg) \<Longrightarrow> free_block_loop rg [x..<unat (rt_length rg)]
    = (case find (\<lambda>i. rg_state b rg i = GFS2_BLKST_FREE)
              [if x = unat (rt_length rg) then unat (rt_data rg) else 4 * bm_start (unat b) x..<unat (rt_data rg)] of
         None \<Rightarrow> 0 | Some i \<Rightarrow> rt_data0 rg + of_nat i)"
proof (induction "unat (rt_length rg) - x" arbitrary: x)
  case 0
  then show ?case by simp
next
  case (Suc m)
  let ?P = "\<lambda>i. rg_state b rg i = GFS2_BLKST_FREE" and ?N = "unat (rt_length rg)"
  let ?s = "bm_start (unat b) x" and ?e = "bm_end (unat b) rg x"
  have x: "x < ?N" using Suc by simp
  have se: "?s < ?e" "?e \<le> unat (rt_bitbytes rg)" using bm_end_bounds [OF g x] by auto
  then have e: "4 * ?s + 4 * (?e - ?s) = 4 * ?e" "4 * ?e \<le> unat (rt_data rg)" using geomD(6) [OF g] by simp_all
  have fit: "gfs2_bitfit (drop (unat (bi_offset (bits rg ! x))) (buf_of (bi_data (bits rg ! x)))) (unat (bi_len (bits rg ! x))) 0 0
     = (case find (\<lambda>k. ?P (4 * ?s + k)) [0..<4 * (?e - ?s)] of None \<Rightarrow> BFITNOENT | Some k \<Rightarrow> k)"
    and small: "4 * (?e - ?s) < 0xFFFFFFFF"
    using bitfit_at [OF g l x, of 0 0] se by simp_all
  have rest: "free_block_loop rg [Suc x..<?N] = (case find ?P [4 * ?e..<unat (rt_data rg)] of None \<Rightarrow> 0 | Some i \<Rightarrow> rt_data0 rg + of_nat i)"
    using Suc.hyps(1) [of "Suc x"] Suc.hyps(2) x bm_end_next [OF g, of x] by auto
  have split: "find ?P [4 * ?s..<unat (rt_data rg)] = (case find (\<lambda>k. ?P (4 * ?s + k)) [0..<4 * (?e - ?s)] of
      None \<Rightarrow> find ?P [4 * ?e..<unat (rt_data rg)] | Some k \<Rightarrow> Some (4 * ?s + k))"
    using find_upt_split [of "4 * ?s" "4 * ?e" "unat (rt_data rg)" ?P] find_shift [of ?P "4 * ?s" 0 "4 * (?e - ?s)"] e se
    by (simp split: option.splits)
  have st: "ucast (bi_start (bits rg ! x) * GFS2_NBBY) = (of_nat (4 * ?s) :: u64)"
  proof -
    have "4 * ?s < 2 ^ 32" using se e geomD(8) [OF g] by simp
    then have "unat (bi_start (bits rg ! x) * GFS2_NBBY) = 4 * ?s"
      using geomD(10) [OF g x] by (subst unat_mult_no_wrap) simp_all
    moreover have "unat (of_nat (4 * ?s) :: u64) = 4 * ?s" using \<open>4 * ?s < 2 ^ 32\<close> by (intro unat_of_nat_small) simp
    moreover have "unat (ucast (bi_start (bits rg ! x) * GFS2_NBBY) :: u64) = unat (bi_start (bits rg ! x) * GFS2_NBBY)"
      by (rule unat_ucast_up) simp
    ultimately show ?thesis unfolding word_unat_eq_iff by (simp only:)
  qed
  show ?case
  proof (cases "find (\<lambda>k. ?P (4 * ?s + k)) [0..<4 * (?e - ?s)]")
    case None
    with fit rest split x show ?thesis by (simp add: upt_conv_Cons)
  next
    case (Some k)
    then have "k < 4 * (?e - ?s)" by (simp add: find_upt_Some)
    with small have "k \<noteq> BFITNOENT" by simp
    with Some fit split x st show ?thesis by (simp add: upt_conv_Cons)
  qed
qed

lemma find_free_block_first:
  assumes "geom b rg" "loaded b rg" "rt_free rg \<noteq> 0"
  shows "find_free_block rg = (case find (\<lambda>i. rg_state b rg i = GFS2_BLKST_FREE) [0..<unat (rt_data rg)] of
     None \<Rightarrow> 0 | Some i \<Rightarrow> rt_data0 rg + of_nat i)"
  using free_block_loop_find [OF assms(1,2), of 0] geomD(2) [OF assms(1)] assms(3)
  by (simp add: find_free_block_def)


section \<open>Groups whose counts agree with their bitmaps\<close>

definition free_blocks :: "u32 \<Rightarrow> rgrp_tree \<Rightarrow> nat" where
  "free_blocks b rg = card {i. i < unat (rt_data rg) \<and> rg_state b rg i = GFS2_BLKST_FREE}"

definition rg_ok :: "u32 \<Rightarrow> rgrp_tree \<Rightarrow> bool" where
  "rg_ok b rg \<longleftrightarrow> geom b rg \<and> loaded b rg \<and> unat (rt_free rg) = free_blocks b rg \<and> rt_addr rg < rt_data0 rg"

lemma rgb_count: "block_store.count (\<lambda>rg. unat (rt_data rg)) (rg_state b) rg 0 = free_blocks b rg"
  by (simp add: rgb.count_def free_blocks_def)

lemma drop_gfs_rgrp_out: "drop 128 (lgfs2_gfs_rgrp_out rg buf) = drop 128 buf"
  by (simp add: lgfs2_gfs_rgrp_out_def put_be32_def put_be64_def drop_memcpy_at size_simps)

lemma header_out_frame [simp]:
  "rt_data (rgrp_header_out sdp rg) = rt_data rg" "rt_data0 (rgrp_header_out sdp rg) = rt_data0 rg"
  "rt_length (rgrp_header_out sdp rg) = rt_length rg" "rt_addr (rgrp_header_out sdp rg) = rt_addr rg"
  "rt_free (rgrp_header_out sdp rg) = rt_free rg" "rt_bitbytes (rgrp_header_out sdp rg) = rt_bitbytes rg"
  by (simp_all add: rgrp_header_out_def set_bi_def)

lemma header_out_geom: "geom b rg \<Longrightarrow> geom b (rgrp_header_out sdp rg)"
  by (auto simp: geom_def rgrp_header_out_def set_bi_def Let_def nth_list_update)

lemma header_out_loaded: "geom b rg \<Longrightarrow> loaded b rg \<Longrightarrow> loaded b (rgrp_header_out sdp rg)"
  using geomD(3) [of b rg]
  by (fastforce simp: loaded_def rgrp_header_out_def set_bi_def nth_list_update buf_of_def)

lemma header_out_state: "geom b rg \<Longrightarrow> rg_state b (rgrp_header_out sdp rg) i = rg_state b rg i"
  using geomD(2,3) [of b rg]
  by (cases "bm_index (unat b) i = 0")
    (simp_all add: rg_state_def rgrp_header_out_def set_bi_def buf_of_def bm_hdr_def drop_headers drop_gfs_rgrp_out Let_def)

text \<open>Counts in the group do not touch the bitmaps.\<close>

lemma rg_count_fields [simp]:
  "rg_state b (rg\<lparr>rt_free := n\<rparr>) i = rg_state b rg i" "geom b (rg\<lparr>rt_free := n\<rparr>) = geom b rg"
  "loaded b (rg\<lparr>rt_free := n\<rparr>) = loaded b rg"
  "rg_state b (set_rt_dinodes d rg) i = rg_state b rg i" "geom b (set_rt_dinodes d rg) = geom b rg"
  "loaded b (set_rt_dinodes d rg) = loaded b rg"
  "rg_state b (set_rt_usedmeta d rg) i = rg_state b rg i" "geom b (set_rt_usedmeta d rg) = geom b rg"
  "loaded b (set_rt_usedmeta d rg) = loaded b rg"
  by (simp_all add: rg_state_def geom_def loaded_def set_rt_dinodes_def set_rt_usedmeta_def)

lemma rg_count_frame [simp]:
  "rt_data (set_rt_dinodes d rg) = rt_data rg" "rt_data0 (set_rt_dinodes d rg) = rt_data0 rg"
  "rt_addr (set_rt_dinodes d rg) = rt_addr rg" "rt_free (set_rt_dinodes d rg) = rt_free rg"
  "rt_data (set_rt_usedmeta d rg) = rt_data rg" "rt_data0 (set_rt_usedmeta d rg) = rt_data0 rg"
  "rt_addr (set_rt_usedmeta d rg) = rt_addr rg" "rt_free (set_rt_usedmeta d rg) = rt_free rg"
  by (simp_all add: set_rt_dinodes_def set_rt_usedmeta_def)

text \<open>What an operation does to one group: block \<open>i\<close> is in state \<open>v\<close>, every other as before.\<close>

definition rg_moved :: "u32 \<Rightarrow> rgrp_tree \<Rightarrow> nat \<Rightarrow> nat \<Rightarrow> rgrp_tree \<Rightarrow> bool" where
  "rg_moved b rg i v rg' \<longleftrightarrow> rg_ok b rg' \<and> rt_addr rg' = rt_addr rg \<and> rt_data0 rg' = rt_data0 rg \<and> rt_data rg' = rt_data rg \<and>
     (\<forall>j < unat (rt_data rg). rg_state b rg' j = (if j = i then v else rg_state b rg j))"

text \<open>What allocating a block in state \<open>v\<close> does to the counts of its group: one free block less, one
  dinode more when a dinode was asked for, and on GFS1 one used metadata block more when a block in
  that state was asked for that is not one. The header in the first bitmap's buffer has the new
  counts and is to be written.\<close>

definition rg_counted :: "gfs2_sbd \<Rightarrow> nat \<Rightarrow> bool \<Rightarrow> rgrp_tree \<Rightarrow> rgrp_tree \<Rightarrow> bool" where
  "rg_counted sdp v dinode rg rg' \<longleftrightarrow> rt_free rg' = rt_free rg - 1
     \<and> rt_dinodes rg' = rt_dinodes rg + (if v = GFS2_BLKST_DINODE \<and> dinode then 1 else 0)
     \<and> rt_usedmeta rg' = rt_usedmeta rg + (if v = GFS2_BLKST_DINODE \<and> \<not> dinode \<and> sd_gfs1 sdp then 1 else 0)
     \<and> bi_modified (bits rg' ! 0)
     \<and> (\<exists>buf. bi_data (bits rg' ! 0)
          = Live ((if sd_gfs1 sdp then lgfs2_gfs_rgrp_out rg' else lgfs2_rgrp_out rg') buf))"

lemma header_out_counts:
  "rt_dinodes (rgrp_header_out sdp rg) = rt_dinodes rg" "rt_usedmeta (rgrp_header_out sdp rg) = rt_usedmeta rg"
  by (simp_all add: rt_union_defs rgrp_header_out_def set_bi_def)

lemma header_out_first:
  assumes "geom b rg"
  shows "bi_modified (bits (rgrp_header_out sdp rg) ! 0)
    \<and> (\<exists>buf. bi_data (bits (rgrp_header_out sdp rg) ! 0)
         = Live ((if sd_gfs1 sdp then lgfs2_gfs_rgrp_out (rgrp_header_out sdp rg)
                 else lgfs2_rgrp_out (rgrp_header_out sdp rg)) buf))"
proof -
  have "0 < length (bits rg)" using geomD(2,3) [OF assms] by simp
  then show ?thesis
    by (auto simp: rgrp_header_out_def set_bi_def lgfs2_rgrp_out_def lgfs2_gfs_rgrp_out_def rt_union_defs Let_def)
qed

lemma blk_alloc_in_rg_ok:
  assumes ok: "rg_ok b rg" and i: "i < unat (rt_data rg)" "rg_state b rg i = GFS2_BLKST_FREE" and v: "0 < v" "v < 4"
    and b: "b = sd_bsize sdp"
  shows "\<exists>rg'. blk_alloc_in_rg sdp v rg (rt_data0 rg + of_nat i) dinode = (0, sdp\<lparr>blks_alloced := blks_alloced sdp + 1\<rparr>, rg')
    \<and> rg_moved b rg i v rg' \<and> rg_counted sdp v dinode rg rg'"
proof -
  have g: "geom b rg" and l: "loaded b rg" and cnt: "unat (rt_free rg) = free_blocks b rg" and a: "rt_addr rg < rt_data0 rg"
    using ok by (auto simp: rg_ok_def)
  let ?r = "rg_set b rg i (int v)"
  have set: "gfs2_set_bitmap (Some rg) (rt_data0 rg + of_nat i) (int v) = (0, Some ?r)"
    using set_bitmap_eq [OF g i(1)] v by simp
  have nz: "rt_data0 rg + of_nat i \<noteq> 0"
  proof -
    have "unat (rt_data0 rg + of_nat i) = unat (rt_data0 rg) + i"
      using geomD(7,8) [OF g] i(1) by (subst unat_add_no_wrap) (simp_all add: unat_of_nat_small)
    moreover have "0 < unat (rt_data0 rg)" using a by (simp add: word_less_nat_alt)
    ultimately show ?thesis by auto
  qed
  have old: "Suc (free_blocks b ?r) = free_blocks b rg"
    using rgb.count_set_old [of b rg i v 0] g l i v by (simp add: rgb_count)
  have fr: "unat (rt_free rg - 1) = free_blocks b ?r"
    using old cnt by (subst unat_sub) (simp_all add: word_le_nat_alt)
  define r2 where "r2 = (if v = GFS2_BLKST_DINODE then
      if dinode then set_rt_dinodes (rt_dinodes ?r + 1) ?r
      else if sd_gfs1 sdp then set_rt_usedmeta (rt_usedmeta ?r + 1) ?r else ?r else ?r)"
  have r2: "geom b r2 = geom b ?r" "loaded b r2 = loaded b ?r" "\<And>j. rg_state b r2 j = rg_state b ?r j"
    "rt_data r2 = rt_data rg" "rt_data0 r2 = rt_data0 rg" "rt_addr r2 = rt_addr rg" "rt_free r2 = rt_free rg"
    by (simp_all add: r2_def)
  define r3 where "r3 = r2\<lparr>rt_free := rt_free r2 - 1\<rparr>"
  have g3: "geom b r3" "loaded b r3" using r2 g l i(1) by (simp_all add: r3_def rg_set_geom rg_set_loaded)
  have st: "rg_state b r3 j = (if j = i then v else rg_state b rg j)" if "j < unat (rt_data rg)" for j
    using rg_set_state [OF g l i(1) that, of "int v"] v by (simp add: r3_def r2)
  have "free_blocks b (rgrp_header_out sdp r3) = free_blocks b ?r"
    by (simp add: free_blocks_def header_out_state [OF g3(1)]) (simp add: r3_def r2)
  then have "rg_moved b rg i v (rgrp_header_out sdp r3)"
    using g3 a fr st by (simp add: rg_moved_def rg_ok_def header_out_geom header_out_loaded header_out_state)
      (simp add: r3_def r2)
  moreover have "blk_alloc_in_rg sdp v rg (rt_data0 rg + of_nat i) dinode
      = (0, sdp\<lparr>blks_alloced := blks_alloced sdp + 1\<rparr>, rgrp_header_out sdp r3)"
    unfolding blk_alloc_in_rg_def using nz set by (simp add: r3_def r2_def Let_def)
  moreover have "rg_counted sdp v dinode rg (rgrp_header_out sdp r3)"
  proof -
    have "rt_dinodes ?r = rt_dinodes rg" "rt_usedmeta ?r = rt_usedmeta rg"
      by (simp_all add: rt_union_defs rg_set_def Let_def)
    then have "rt_dinodes r3 = rt_dinodes rg + (if v = GFS2_BLKST_DINODE \<and> dinode then 1 else 0)"
      "rt_usedmeta r3 = rt_usedmeta rg + (if v = GFS2_BLKST_DINODE \<and> \<not> dinode \<and> sd_gfs1 sdp then 1 else 0)"
      by (auto simp: r3_def r2_def rt_union_defs)
    then show ?thesis
      using header_out_first [OF g3(1)] by (simp add: rg_counted_def header_out_counts) (simp add: r3_def r2)
  qed
  ultimately show ?thesis by auto
qed

lemma free_in_rg_ok:
  assumes ok: "rg_ok b rg" and i: "i < unat (rt_data rg)" "rg_state b rg i \<noteq> GFS2_BLKST_FREE"
  shows "\<exists>r. gfs2_set_bitmap (Some rg) (rt_data0 rg + of_nat i) 0 = (0, Some r)
    \<and> rg_moved b rg i 0 (rgrp_header_out sdp (r\<lparr>rt_free := rt_free r + 1\<rparr>)) \<and> unat (rt_free r + 1) = unat (rt_free rg) + 1"
proof -
  have g: "geom b rg" and l: "loaded b rg" and cnt: "unat (rt_free rg) = free_blocks b rg" and a: "rt_addr rg < rt_data0 rg"
    using ok by (auto simp: rg_ok_def)
  let ?r = "rg_set b rg i 0" and ?r3 = "(rg_set b rg i 0)\<lparr>rt_free := rt_free rg + 1\<rparr>"
  have set: "gfs2_set_bitmap (Some rg) (rt_data0 rg + of_nat i) 0 = (0, Some ?r)"
    using set_bitmap_eq [OF g i(1)] by simp
  have new: "free_blocks b ?r = Suc (free_blocks b rg)"
    using rgb.count_set_new [of b rg i 0] g l i by (simp add: rgb_count)
  have "free_blocks b ?r \<le> card {i. i < unat (rt_data rg)}"
    unfolding free_blocks_def by (rule card_mono) auto
  then have "unat (rt_free rg + 1) = Suc (free_blocks b rg)"
    using cnt new geomD(8) [OF g] by (subst unat_add_no_wrap) simp_all
  moreover have g3: "geom b ?r3" "loaded b ?r3" using g l i(1) by (simp_all add: rg_set_geom rg_set_loaded)
  moreover have "free_blocks b (rgrp_header_out sdp ?r3) = free_blocks b ?r"
    by (simp add: free_blocks_def header_out_state [OF g3(1)])
  moreover have "rg_state b ?r3 j = (if j = i then 0 else rg_state b rg j)" if "j < unat (rt_data rg)" for j
    using rg_set_state [OF g l i(1) that, of 0] by simp
  ultimately show ?thesis
    using set new cnt a by (simp add: rg_moved_def rg_ok_def header_out_geom header_out_loaded header_out_state)
qed


section \<open>The file system as a map of block states\<close>

definition fs_rgs :: "fs \<Rightarrow> rgrp_tree list" where
  "fs_rgs fs = inorder (fs_rgtree fs)"

definition fs_bsize :: "fs \<Rightarrow> u32" where
  "fs_bsize fs = sd_bsize (fs_sdp fs)"

definition fs_ok :: "fs \<Rightarrow> bool" where
  "fs_ok fs \<longleftrightarrow> rgs_ordered (fs_rgs fs) \<and> (\<forall>rg \<in> set (fs_rgs fs). rg_ok (fs_bsize fs) rg)"

text \<open>The same without the counts, which fsck checks.\<close>

definition rg_geo :: "u32 \<Rightarrow> rgrp_tree \<Rightarrow> bool" where
  "rg_geo b rg \<longleftrightarrow> geom b rg \<and> loaded b rg \<and> rt_addr rg < rt_data0 rg"

definition fs_geo :: "fs \<Rightarrow> bool" where
  "fs_geo fs \<longleftrightarrow> rgs_ordered (fs_rgs fs) \<and> (\<forall>rg \<in> set (fs_rgs fs). rg_geo (fs_bsize fs) rg)"

lemma rg_ok_geo: "rg_ok b rg \<longleftrightarrow> rg_geo b rg \<and> unat (rt_free rg) = free_blocks b rg"
  by (auto simp: rg_ok_def rg_geo_def)

lemma fs_ok_geo: "fs_ok fs \<Longrightarrow> fs_geo fs"
  by (auto simp: fs_ok_def fs_geo_def rg_ok_geo)

definition block_state :: "fs \<Rightarrow> u64 \<Rightarrow> nat option" where
  "block_state fs blk = (case gfs2_blk2rgrpd (fs_rgtree fs) blk of None \<Rightarrow> None
     | Some rg \<Rightarrow> if rt_data0 rg \<le> blk then Some (rg_state (fs_bsize fs) rg (unat (blk - rt_data0 rg))) else None)"

lemma put_rg_frame [simp]:
  "fs_sdp (put_rg rg fs) = fs_sdp fs" "fs_disk (put_rg rg fs) = fs_disk fs"
  "fs_bsize (put_rg rg fs) = fs_bsize fs"
  "fs_rgs (put_rg rg fs) = map (\<lambda>r. if rt_addr r = rt_addr rg then rg else r) (fs_rgs fs)"
  by (simp_all add: put_rg_def fs_bsize_def fs_rgs_def inorder_map)

lemma data_end:
  assumes "geom b rg"
  shows "unat (rt_data0 rg + ucast (rt_data rg)) = unat (rt_data0 rg) + unat (rt_data rg)"
  using geomD(7) [OF assms] by (subst unat_add_no_wrap) (simp_all add: unat_ucast_up)

lemma owner_unique:
  "rgs_ordered rgs \<Longrightarrow> rg \<in> set rgs \<Longrightarrow> rg_owns rg blk \<Longrightarrow> find (\<lambda>r. rg_owns r blk) rgs = Some rg"
proof (induction rgs)
  case Nil
  then show ?case by simp
next
  case (Cons r rgs)
  show ?case
  proof (cases "rg = r")
    case False
    with Cons.prems have "rg \<in> set rgs" "rt_data0 r + ucast (rt_data r) \<le> rt_addr rg"
      by (auto simp: rgs_ordered_def)
    with Cons.prems have "\<not> rg_owns r blk" by (auto simp: rg_owns_def)
    with Cons \<open>rg \<in> set rgs\<close> show ?thesis by (auto simp: rgs_ordered_def)
  qed (use Cons.prems in simp)
qed

lemma blk2rgrpd_Some_iff:
  assumes "rgs_ordered (inorder t)"
  shows "gfs2_blk2rgrpd t blk = Some rg \<longleftrightarrow> rg \<in> set (inorder t) \<and> rg_owns rg blk"
proof
  assume "gfs2_blk2rgrpd t blk = Some rg"
  then have "find (\<lambda>r. rg_owns r blk) (inorder t) = Some rg" using blk2rgrpd_find [OF assms, of blk] by simp
  then obtain i where "i < length (inorder t)" "rg = inorder t ! i" "rg_owns rg blk" unfolding find_Some_iff by blast
  then show "rg \<in> set (inorder t) \<and> rg_owns rg blk" using nth_mem by metis
qed (simp add: owner_unique [OF assms] blk2rgrpd_find [OF assms, of blk])

lemma blk2rgrpd_map:
  assumes "\<And>r. r \<in> set_tree t \<Longrightarrow> rt_addr (f r) = rt_addr r \<and> rt_data0 (f r) = rt_data0 r \<and> rt_data (f r) = rt_data r"
  shows "gfs2_blk2rgrpd (map_tree f t) blk = map_option f (gfs2_blk2rgrpd t blk)"
  using assms by (induction t) auto

lemma rgs_ordered_map:
  assumes "\<And>r. r \<in> set rgs \<Longrightarrow> rt_addr (f r) = rt_addr r \<and> rt_data0 (f r) = rt_data0 r \<and> rt_data (f r) = rt_data r"
  shows "rgs_ordered (map f rgs) = rgs_ordered rgs"
  using assms by (induction rgs) (auto simp: rgs_ordered_def)

text \<open>The groups are told apart by their addresses.\<close>

lemma geo_addr_inj:
  assumes "fs_geo fs" "rg \<in> set (fs_rgs fs)" "r \<in> set (fs_rgs fs)" "rt_addr r = rt_addr rg"
  shows "r = rg"
proof -
  have own: "rg_owns x (rt_addr x)" if "x \<in> set (fs_rgs fs)" for x
  proof -
    have x: "geom (fs_bsize fs) x" "rt_addr x < rt_data0 x" using assms(1) that by (auto simp: fs_geo_def rg_geo_def)
    then have "unat (rt_addr x) < unat (rt_data0 x + ucast (rt_data x))"
      by (simp add: data_end word_less_nat_alt)
    then show ?thesis by (simp add: rg_owns_def word_less_nat_alt)
  qed
  have ord: "rgs_ordered (fs_rgs fs)" using assms(1) by (simp add: fs_geo_def)
  have "rg_owns r (rt_addr rg)" using own [OF assms(3)] assms(4) by simp
  from owner_unique [OF ord assms(2) own [OF assms(2)]] owner_unique [OF ord assms(3) this]
  show ?thesis by simp
qed

lemmas addr_inj = geo_addr_inj [OF fs_ok_geo]

lemma put_rg_same: "fs_ok fs \<Longrightarrow> rg \<in> set (fs_rgs fs) \<Longrightarrow> put_rg rg fs = fs"
proof -
  assume ok: "fs_ok fs" "rg \<in> set (fs_rgs fs)"
  have "map_tree (\<lambda>r. if rt_addr r = rt_addr rg then rg else r) (fs_rgtree fs) = map_tree id (fs_rgtree fs)"
    using addr_inj [OF ok] by (intro tree.map_cong) (auto simp: fs_rgs_def)
  then show ?thesis by (simp add: put_rg_def tree.map_id)
qed

lemma geo_owns_data:
  assumes "rg_geo b rg" "i < unat (rt_data rg)"
  shows "rg_owns rg (rt_data0 rg + of_nat i)" "rt_data0 rg \<le> rt_data0 rg + of_nat i"
    "unat (rt_data0 rg + of_nat i - rt_data0 rg) = i"
proof -
  have g: "geom b rg" "rt_addr rg < rt_data0 rg" using assms(1) by (auto simp: rg_geo_def)
  have i: "unat (of_nat i :: u64) = i" using assms(2) u32_lt [of "rt_data rg"] by (simp add: unat_of_nat_small)
  then have "unat (rt_data0 rg + of_nat i) = unat (rt_data0 rg) + i"
    using geomD(7) [OF g(1)] assms(2) by (subst unat_add_no_wrap) simp_all
  with g assms(2) show "rg_owns rg (rt_data0 rg + of_nat i)" "rt_data0 rg \<le> rt_data0 rg + of_nat i"
    by (auto simp: rg_owns_def word_less_nat_alt word_le_nat_alt data_end)
  show "unat (rt_data0 rg + of_nat i - rt_data0 rg) = i" using i by simp
qed

lemma geo_owns_index:
  assumes "rg_geo b rg" "rg_owns rg blk" "rt_data0 rg \<le> blk"
  shows "unat (blk - rt_data0 rg) < unat (rt_data rg)" "blk = rt_data0 rg + of_nat (unat (blk - rt_data0 rg))"
  using assms data_end [of b rg] by (auto simp: rg_geo_def rg_owns_def word_less_nat_alt word_le_nat_alt unat_sub)

lemma rg_ok_geoD: "rg_ok b rg \<Longrightarrow> rg_geo b rg"
  by (simp add: rg_ok_geo)

lemmas rg_owns_data = geo_owns_data [OF rg_ok_geoD]
lemmas rg_owns_index = geo_owns_index [OF rg_ok_geoD]

text \<open>A group put back with other bitmaps: its data blocks have the new states, all others the old ones.\<close>

lemma put_group:
  assumes ok: "fs_geo fs" and rg: "rg \<in> set (fs_rgs fs)" and new: "rg_geo (fs_bsize fs) rg'"
    and same: "rt_addr rg' = rt_addr rg" "rt_data0 rg' = rt_data0 rg" "rt_data rg' = rt_data rg"
  shows "fs_geo (put_rg rg' fs)"
    "block_state (put_rg rg' fs) = (\<lambda>blk. if rg_owns rg blk \<and> rt_data0 rg \<le> blk
       then Some (rg_state (fs_bsize fs) rg' (unat (blk - rt_data0 rg))) else block_state fs blk)"
proof -
  let ?f = "\<lambda>r. if rt_addr r = rt_addr rg' then rg' else r"
  have only: "r = rg" if "r \<in> set (fs_rgs fs)" "rt_addr r = rt_addr rg'" for r
    using geo_addr_inj [OF ok rg] that same by simp
  have f: "rt_addr (?f r) = rt_addr r \<and> rt_data0 (?f r) = rt_data0 r \<and> rt_data (?f r) = rt_data r" if "r \<in> set (fs_rgs fs)" for r
    using only [OF that] same by auto
  have "rgs_ordered (map ?f (fs_rgs fs))"
    using rgs_ordered_map [OF f] ok by (simp add: fs_geo_def)
  then show "fs_geo (put_rg rg' fs)" using new ok by (auto simp: fs_geo_def)
  have ord: "rgs_ordered (inorder (fs_rgtree fs))" using ok by (simp add: fs_geo_def fs_rgs_def)
  show "block_state (put_rg rg' fs) = (\<lambda>blk. if rg_owns rg blk \<and> rt_data0 rg \<le> blk
       then Some (rg_state (fs_bsize fs) rg' (unat (blk - rt_data0 rg))) else block_state fs blk)"
  proof
    fix blk
    have map: "gfs2_blk2rgrpd (fs_rgtree (put_rg rg' fs)) blk = map_option ?f (gfs2_blk2rgrpd (fs_rgtree fs) blk)"
      unfolding put_rg_def using f by (simp add: blk2rgrpd_map fs_rgs_def)
    show "block_state (put_rg rg' fs) blk = (if rg_owns rg blk \<and> rt_data0 rg \<le> blk
       then Some (rg_state (fs_bsize fs) rg' (unat (blk - rt_data0 rg))) else block_state fs blk)"
    proof (cases "rg_owns rg blk")
      case True
      then have "gfs2_blk2rgrpd (fs_rgtree fs) blk = Some rg" using rg blk2rgrpd_Some_iff [OF ord] by (simp add: fs_rgs_def)
      then show ?thesis using map True same by (simp add: block_state_def)
    next
      case False
      have "rt_addr r \<noteq> rt_addr rg'" if "gfs2_blk2rgrpd (fs_rgtree fs) blk = Some r" for r
        using that only [of r] False blk2rgrpd_Some_iff [OF ord, of blk r] by (auto simp: fs_rgs_def)
      then show ?thesis using map False by (cases "gfs2_blk2rgrpd (fs_rgtree fs) blk") (simp_all add: block_state_def)
    qed
  qed
qed

lemma put_moved:
  assumes ok: "fs_ok fs" and rg: "rg \<in> set (fs_rgs fs)" and i: "i < unat (rt_data rg)"
    and m: "rg_moved (fs_bsize fs) rg i v rg'"
  shows "fs_ok (put_rg rg' fs)"
    "block_state (put_rg rg' fs) = (block_state fs)(rt_data0 rg + of_nat i \<mapsto> v)"
proof -
  note M = m [unfolded rg_moved_def]
  have geo: "fs_geo fs" "rg_geo (fs_bsize fs) rg'" "rg_geo (fs_bsize fs) rg"
    using fs_ok_geo [OF ok] M rg by (auto simp: rg_ok_geo fs_geo_def)
  note p = put_group [OF geo(1) rg geo(2)]
  have "rg_ok (fs_bsize fs) rg'" using M by simp
  moreover have "fs_geo (put_rg rg' fs)" using p(1) M by simp
  ultimately show "fs_ok (put_rg rg' fs)" using ok by (auto simp: fs_ok_def fs_geo_def)
  have ord: "rgs_ordered (inorder (fs_rgtree fs))" using ok by (simp add: fs_ok_def fs_rgs_def)
  note own = geo_owns_data [OF geo(3) i]
  show "block_state (put_rg rg' fs) = (block_state fs)(rt_data0 rg + of_nat i \<mapsto> v)"
  proof
    fix blk
    show "block_state (put_rg rg' fs) blk = ((block_state fs)(rt_data0 rg + of_nat i \<mapsto> v)) blk"
    proof (cases "rg_owns rg blk \<and> rt_data0 rg \<le> blk")
      case True
      then have idx: "unat (blk - rt_data0 rg) < unat (rt_data rg)" "blk = rt_data0 rg + of_nat (unat (blk - rt_data0 rg))"
        using geo_owns_index [OF geo(3)] by blast+
      have "gfs2_blk2rgrpd (fs_rgtree fs) blk = Some rg"
        using True rg blk2rgrpd_Some_iff [OF ord] by (simp add: fs_rgs_def)
      moreover have "unat (blk - rt_data0 rg) = i \<longleftrightarrow> blk = rt_data0 rg + of_nat i" using idx own by metis
      ultimately show ?thesis using True p(2) M idx by (auto simp: block_state_def)
    next
      case False
      then have "blk \<noteq> rt_data0 rg + of_nat i" using own by auto
      then show ?thesis using False p(2) M by auto
    qed
  qed
qed

text \<open>The superblock's counts and the device do not matter to the states.\<close>

lemma fs_fields [simp]:
  "fs_rgs (fs\<lparr>fs_sdp := s\<rparr>) = fs_rgs fs"
  "sd_bsize s = sd_bsize (fs_sdp fs) \<Longrightarrow> fs_bsize (fs\<lparr>fs_sdp := s\<rparr>) = fs_bsize fs"
  "sd_bsize s = sd_bsize (fs_sdp fs) \<Longrightarrow> fs_ok (fs\<lparr>fs_sdp := s\<rparr>) = fs_ok fs"
  "sd_bsize s = sd_bsize (fs_sdp fs) \<Longrightarrow> block_state (fs\<lparr>fs_sdp := s\<rparr>) = block_state fs"
  by (auto simp: fs_rgs_def fs_bsize_def fs_ok_def block_state_def fun_eq_iff split: option.split)

lemma put_rg_sdp: "put_rg rg (fs\<lparr>fs_sdp := s\<rparr>) = (put_rg rg fs)\<lparr>fs_sdp := s\<rparr>"
  by (simp add: put_rg_def)


section \<open>Allocation\<close>

definition alloc_group :: "u64 \<Rightarrow> rgrp_tree list \<Rightarrow> rgrp_tree" where
  "alloc_group blksreq rgs = (case find (\<lambda>rgt. blksreq \<le> ucast (rt_free rgt)) rgs of Some rgt \<Rightarrow> rgt | None \<Rightarrow> last rgs)"

lemma alloc_group_in: "rgs \<noteq> [] \<Longrightarrow> alloc_group n rgs \<in> set rgs"
  by (auto simp: alloc_group_def find_Some_iff split: option.split)

lemma rg_ok_loaded:
  assumes "rg_ok b rg"
  shows "bi_data (bits rg ! 0) \<noteq> Null" "0 < unat (rt_length rg)"
proof -
  show n: "0 < unat (rt_length rg)" using assms geomD(2) by (auto simp: rg_ok_def)
  then obtain d where "bi_data (bits rg ! 0) = Live d" using assms unfolding rg_ok_def loaded_def by blast
  then show "bi_data (bits rg ! 0) \<noteq> Null" by simp
qed

lemma first_free:
  assumes "rg_ok b rg" "rt_free rg \<noteq> 0"
  obtains i where "find (\<lambda>i. rg_state b rg i = GFS2_BLKST_FREE) [0..<unat (rt_data rg)] = Some i"
    "i < unat (rt_data rg)" "rg_state b rg i = GFS2_BLKST_FREE" "find_free_block rg = rt_data0 rg + of_nat i"
proof -
  have "0 < unat (rt_free rg)" using assms(2) by (simp add: unat_gt_0)
  then have "{i. i < unat (rt_data rg) \<and> rg_state b rg i = GFS2_BLKST_FREE} \<noteq> {}"
    using assms(1) unfolding rg_ok_def free_blocks_def by (metis card.empty less_irrefl)
  then have "find (\<lambda>i. rg_state b rg i = GFS2_BLKST_FREE) [0..<unat (rt_data rg)] \<noteq> None"
    by (auto simp: find_upt_None)
  then obtain i where i: "find (\<lambda>i. rg_state b rg i = GFS2_BLKST_FREE) [0..<unat (rt_data rg)] = Some i" by blast
  then have "i < unat (rt_data rg)" "rg_state b rg i = GFS2_BLKST_FREE" by (auto simp: find_upt_Some)
  with i that show thesis using find_free_block_first [of b rg] assms by (simp add: rg_ok_def)
qed

lemma block_alloc_puts:
  assumes ok: "fs_ok fs" and ne: "fs_rgs fs \<noteq> []" and v: "0 < v" "v < 4"
    and rg: "rg = alloc_group n (fs_rgs fs)" "rt_free rg \<noteq> 0"
  shows "\<exists>i rg' fs'. block_alloc fs n v old dinode = Some (0, rt_data0 rg + of_nat i, fs')
    \<and> fs' = put_rg rg' (fs\<lparr>fs_sdp := (fs_sdp fs)\<lparr>blks_alloced := blks_alloced (fs_sdp fs) + 1\<rparr>\<rparr>)
    \<and> rt_addr rg' = rt_addr rg \<and> rt_data0 rg' = rt_data0 rg \<and> rt_data rg' = rt_data rg
    \<and> rg_counted (fs_sdp fs) v dinode rg rg'
    \<and> i < unat (rt_data rg) \<and> block_state fs (rt_data0 rg + of_nat i) = Some GFS2_BLKST_FREE
    \<and> (\<forall>j < i. rg_state (fs_bsize fs) rg j \<noteq> GFS2_BLKST_FREE)
    \<and> fs_ok fs' \<and> block_state fs' = (block_state fs)(rt_data0 rg + of_nat i \<mapsto> v)"
proof -
  have inn: "rg \<in> set (fs_rgs fs)" using alloc_group_in [OF ne] rg(1) by simp
  then have rgok: "rg_ok (fs_bsize fs) rg" using ok by (simp add: fs_ok_def)
  obtain i where i: "find (\<lambda>i. rg_state (fs_bsize fs) rg i = GFS2_BLKST_FREE) [0..<unat (rt_data rg)] = Some i"
    "i < unat (rt_data rg)" "rg_state (fs_bsize fs) rg i = GFS2_BLKST_FREE" "find_free_block rg = rt_data0 rg + of_nat i"
    using first_free [OF rgok rg(2)] .
  let ?sdp = "(fs_sdp fs)\<lparr>blks_alloced := blks_alloced (fs_sdp fs) + 1\<rparr>"
  obtain rg' where rg': "blk_alloc_in_rg (fs_sdp fs) v rg (rt_data0 rg + of_nat i) dinode = (0, ?sdp, rg')"
    "rg_moved (fs_bsize fs) rg i v rg'" "rg_counted (fs_sdp fs) v dinode rg rg'"
    using blk_alloc_in_rg_ok [OF rgok i(2,3) v fs_bsize_def] by metis
  have "block_alloc fs n v old dinode = Some (0, rt_data0 rg + of_nat i, (put_rg rg' fs)\<lparr>fs_sdp := ?sdp\<rparr>)"
    using ne rg_ok_loaded(1) [OF rgok] rg'(1) i(4) rg(1)
    by (simp add: block_alloc_def alloc_group_def fs_rgs_def put_rg_sdp Let_def)
  moreover have "block_state fs (rt_data0 rg + of_nat i) = Some GFS2_BLKST_FREE"
  proof -
    have "gfs2_blk2rgrpd (fs_rgtree fs) (rt_data0 rg + of_nat i) = Some rg"
      using rg_owns_data(1) [OF rgok i(2)] inn ok by (simp add: blk2rgrpd_Some_iff fs_ok_def fs_rgs_def)
    then show ?thesis using rg_owns_data(2,3) [OF rgok i(2)] i(3) by (simp add: block_state_def)
  qed
  moreover have "\<forall>j < i. rg_state (fs_bsize fs) rg j \<noteq> GFS2_BLKST_FREE" using i(1) by (auto simp: find_upt_Some)
  moreover have "rt_addr rg' = rt_addr rg" "rt_data0 rg' = rt_data0 rg" "rt_data rg' = rt_data rg"
    using rg'(2) by (simp_all add: rg_moved_def)
  ultimately show ?thesis
    using put_moved [OF ok inn i(2) rg'(2)] i(2) rg'(3)
    by (intro exI [of _ i] exI [of _ rg'] exI [of _ "(put_rg rg' fs)\<lparr>fs_sdp := ?sdp\<rparr>"]) (simp add: put_rg_sdp)
qed

lemma block_alloc_in_group:
  assumes ok: "fs_ok fs" and ne: "fs_rgs fs \<noteq> []" and v: "0 < v" "v < 4"
    and rg: "rg = alloc_group n (fs_rgs fs)" "rt_free rg \<noteq> 0"
  shows "\<exists>i fs'. block_alloc fs n v old dinode = Some (0, rt_data0 rg + of_nat i, fs')
    \<and> i < unat (rt_data rg) \<and> block_state fs (rt_data0 rg + of_nat i) = Some GFS2_BLKST_FREE
    \<and> (\<forall>j < i. rg_state (fs_bsize fs) rg j \<noteq> GFS2_BLKST_FREE)
    \<and> fs_ok fs' \<and> block_state fs' = (block_state fs)(rt_data0 rg + of_nat i \<mapsto> v)
    \<and> blks_alloced (fs_sdp fs') = blks_alloced (fs_sdp fs) + 1 \<and> fs_disk fs' = fs_disk fs"
proof -
  obtain i rg' fs' where p: "block_alloc fs n v old dinode = Some (0, rt_data0 rg + of_nat i, fs')"
    "fs' = put_rg rg' (fs\<lparr>fs_sdp := (fs_sdp fs)\<lparr>blks_alloced := blks_alloced (fs_sdp fs) + 1\<rparr>\<rparr>)"
    "i < unat (rt_data rg)" "block_state fs (rt_data0 rg + of_nat i) = Some GFS2_BLKST_FREE"
    "\<forall>j < i. rg_state (fs_bsize fs) rg j \<noteq> GFS2_BLKST_FREE" "fs_ok fs'"
    "block_state fs' = (block_state fs)(rt_data0 rg + of_nat i \<mapsto> v)"
    using block_alloc_puts [OF assms, of old dinode] by blast
  have "blks_alloced (fs_sdp fs') = blks_alloced (fs_sdp fs) + 1" "fs_disk fs' = fs_disk fs"
    by (simp_all add: p(2))
  with p(1,3-7) show ?thesis by (intro exI [of _ i] exI [of _ fs'] conjI)
qed

lemma block_alloc_full:
  assumes ok: "fs_ok fs" and ne: "fs_rgs fs \<noteq> []" and rg: "rt_free (alloc_group n (fs_rgs fs)) = 0"
  shows "block_alloc fs n v old dinode = Some (-1, 0, fs)"
proof -
  let ?rg = "alloc_group n (fs_rgs fs)"
  have inn: "?rg \<in> set (fs_rgs fs)" using alloc_group_in [OF ne] .
  then have "rg_ok (fs_bsize fs) ?rg" using ok by (simp add: fs_ok_def)
  then show ?thesis
    using ne rg rg_ok_loaded(1) [of _ ?rg] put_rg_same [OF ok inn]
    by (simp add: block_alloc_def find_free_block_def blk_alloc_in_rg_def Let_def)
      (simp add: alloc_group_def fs_rgs_def)
qed

section \<open>Properties\<close>

text \<open>\<open>gfs2_blk2rgrpd\<close> finds a block's resource group exactly: on a tree whose groups are in order and do
  not overlap it returns the one group that spans the block, its header blocks included, and
  NULL for a block that no group spans.\<close>

theorem blk2rgrpd_exact:
  assumes "rgs_ordered (inorder t)"
  shows "gfs2_blk2rgrpd t blk = Some rg \<longleftrightarrow> rg \<in> set (inorder t) \<and> rg_owns rg blk"
  by (rule blk2rgrpd_Some_iff [OF assms])

text \<open>A file system of two groups.\<close>

definition rgrp_example2 :: rgrp_tree where
  "rgrp_example2 = rgrp_example\<lparr>rt_addr := 300, rt_data0 := 301\<rparr>"

definition fs_example :: fs where
  "fs_example = \<lparr>fs_sdp = sbd_example, fs_rgtree = Node Leaf rgrp_example (Node Leaf rgrp_example2 Leaf),
                 fs_disk = device_example\<rparr>"

lemma rgrp_example_fields [simp]:
  "rt_addr rgrp_example = 200" "rt_data0 rgrp_example = 201" "rt_data rgrp_example = 16" "rt_free rgrp_example = 16"
  "rt_addr rgrp_example2 = 300" "rt_data0 rgrp_example2 = 301" "rt_data rgrp_example2 = 16" "rt_free rgrp_example2 = 16"
  by (simp_all add: rgrp_example_def rgrp_example2_def)

lemma rgrp_example_ok: "rg_ok 512 rgrp_example" "rg_ok 512 rgrp_example2"
proof -
  have "{i. i < 16 \<and> rg_state 512 rgrp_example i = 0} = {..<16}" using rgrp_example_free by auto
  then have c: "free_blocks 512 rgrp_example = 16" by (simp add: free_blocks_def)
  then show "rg_ok 512 rgrp_example" using rgrp_example_geom by (simp add: rg_ok_def)
  moreover have "rg_state 512 rgrp_example2 = rg_state 512 rgrp_example"
    by (simp add: fun_eq_iff rg_state_def rgrp_example2_def)
  moreover have "geom 512 rgrp_example2 = geom 512 rgrp_example" "loaded 512 rgrp_example2 = loaded 512 rgrp_example"
    by (simp_all add: geom_def loaded_def rgrp_example2_def rgrp_example_def rgrp_zero_def)
  ultimately show "rg_ok 512 rgrp_example2" by (simp add: rg_ok_def free_blocks_def)
qed

lemma fs_example_ok: "fs_ok fs_example" "fs_rgs fs_example = [rgrp_example, rgrp_example2]" "fs_bsize fs_example = 512"
  using rgrp_example_ok
  by (simp_all add: fs_ok_def fs_example_def fs_rgs_def fs_bsize_def rgs_ordered_def sbd_example_def)

theorem blk2rgrpd_exact_witness: "gfs2_blk2rgrpd (fs_rgtree fs_example) 310 = Some rgrp_example2"
  using blk2rgrpd_exact [of "fs_rgtree fs_example" 310 rgrp_example2] fs_example_ok
  by (simp add: fs_ok_def fs_rgs_def rg_owns_def del: set_inorder)

text \<open>C3. Block allocation is exact when the bitmaps of all groups are in memory, the free count of
  each agrees with its bitmaps and the groups do not overlap (\<open>fs_ok\<close>; the branch that reads the
  chosen group's bitmaps for the call and releases them is not covered): when a group has the
  \<open>n > 0\<close> free blocks asked for, \<open>block_alloc\<close> succeeds and turns one block, the first free one
  of the first such group, from FREE into the wanted state. The state of every other block of the file
  system stays. That group alone is replaced: its free count goes down by one, so it agrees with
  the bitmaps again, its dinode count goes up by one exactly when a dinode is asked for, its count
  of used metadata blocks exactly when on GFS1 a block in state DINODE is asked for that is not one, and its header
  with these counts is in the first bitmap's buffer, which is marked as modified. The superblock's
  count of allocated blocks goes up by one, and the device is unchanged.\<close>

theorem block_alloc_exact:
  assumes "fs_ok fs" "0 < v" "v < 4" "0 < n" "find (\<lambda>rg. n \<le> ucast (rt_free rg)) (fs_rgs fs) = Some rg"
  shows "\<exists>i rg' fs'. block_alloc fs n v old dinode = Some (0, rt_data0 rg + of_nat i, fs')
    \<and> i < unat (rt_data rg) \<and> block_state fs (rt_data0 rg + of_nat i) = Some GFS2_BLKST_FREE
    \<and> (\<forall>j < i. rg_state (fs_bsize fs) rg j \<noteq> GFS2_BLKST_FREE)
    \<and> fs_ok fs' \<and> block_state fs' = (block_state fs)(rt_data0 rg + of_nat i \<mapsto> v)
    \<and> fs' = put_rg rg' (fs\<lparr>fs_sdp := (fs_sdp fs)\<lparr>blks_alloced := blks_alloced (fs_sdp fs) + 1\<rparr>\<rparr>)
    \<and> rt_addr rg' = rt_addr rg \<and> rt_data0 rg' = rt_data0 rg \<and> rt_data rg' = rt_data rg
    \<and> rt_free rg' = rt_free rg - 1
    \<and> rt_dinodes rg' = rt_dinodes rg + (if v = GFS2_BLKST_DINODE \<and> dinode then 1 else 0)
    \<and> rt_usedmeta rg' = rt_usedmeta rg + (if v = GFS2_BLKST_DINODE \<and> \<not> dinode \<and> sd_gfs1 (fs_sdp fs) then 1 else 0)
    \<and> bi_modified (bits rg' ! 0)
    \<and> (\<exists>buf. bi_data (bits rg' ! 0)
         = Live ((if sd_gfs1 (fs_sdp fs) then lgfs2_gfs_rgrp_out rg' else lgfs2_rgrp_out rg') buf))
    \<and> blks_alloced (fs_sdp fs') = blks_alloced (fs_sdp fs) + 1 \<and> fs_disk fs' = fs_disk fs"
proof -
  have g: "fs_rgs fs \<noteq> []" "rg = alloc_group n (fs_rgs fs)" using assms(5) by (auto simp: alloc_group_def)
  have "n \<le> ucast (rt_free rg)" using assms(5) by (auto simp: find_Some_iff)
  with assms(4) have "rt_free rg \<noteq> 0" by auto
  from block_alloc_puts [OF assms(1) g(1) assms(2,3) g(2) this, of old dinode]
  obtain i rg' fs' where p: "block_alloc fs n v old dinode = Some (0, rt_data0 rg + of_nat i, fs')"
    "fs' = put_rg rg' (fs\<lparr>fs_sdp := (fs_sdp fs)\<lparr>blks_alloced := blks_alloced (fs_sdp fs) + 1\<rparr>\<rparr>)"
    "rt_addr rg' = rt_addr rg" "rt_data0 rg' = rt_data0 rg" "rt_data rg' = rt_data rg"
    and c: "rg_counted (fs_sdp fs) v dinode rg rg'"
    and q: "i < unat (rt_data rg)" "block_state fs (rt_data0 rg + of_nat i) = Some GFS2_BLKST_FREE"
    "\<forall>j < i. rg_state (fs_bsize fs) rg j \<noteq> GFS2_BLKST_FREE" "fs_ok fs'"
    "block_state fs' = (block_state fs)(rt_data0 rg + of_nat i \<mapsto> v)"
    by blast
  have "blks_alloced (fs_sdp fs') = blks_alloced (fs_sdp fs) + 1" "fs_disk fs' = fs_disk fs"
    by (simp_all add: p(2))
  with p q c [unfolded rg_counted_def] show ?thesis by blast
qed

theorem block_alloc_exact_witness:
  "\<exists>fs'. block_alloc fs_example 3 3 0 True = Some (0, 201, fs') \<and> block_state fs' 201 = Some 3 \<and> fs_ok fs'
     \<and> (\<exists>rg' \<in> set (fs_rgs fs'). rt_addr rg' = 200 \<and> rt_dinodes rg' = rt_dinodes rgrp_example + 1)"
proof -
  obtain i rg' fs' where "block_alloc fs_example 3 3 0 True = Some (0, rt_data0 rgrp_example + of_nat i, fs')"
    "\<forall>j < i. rg_state 512 rgrp_example j \<noteq> 0" "fs_ok fs'"
    "block_state fs' = (block_state fs_example)(rt_data0 rgrp_example + of_nat i \<mapsto> 3)"
    "fs' = put_rg rg' (fs_example\<lparr>fs_sdp := (fs_sdp fs_example)\<lparr>blks_alloced := blks_alloced (fs_sdp fs_example) + 1\<rparr>\<rparr>)"
    "rt_addr rg' = 200" "rt_dinodes rg' = rt_dinodes rgrp_example + 1"
    using block_alloc_exact [OF fs_example_ok(1), of 3 3 rgrp_example 0 True] fs_example_ok(2,3) by auto
  moreover have "i = 0" using calculation(2) rgrp_example_free [of 0] by auto
  ultimately show ?thesis by (auto simp: fs_example_ok(2))
qed

text \<open>When no group has the number of free blocks asked for, \<open>block_alloc\<close> does not fail as its comment
  says but goes on with the last group of the tree: it succeeds when that group has one free block,
  and fails, changing nothing, when that group is full, whatever is free in the others.\<close>

theorem block_alloc_last_group:
  assumes "fs_ok fs" "fs_rgs fs \<noteq> []" "0 < v" "v < 4" "\<forall>rg \<in> set (fs_rgs fs). ucast (rt_free rg) < n"
  shows "if rt_free (last (fs_rgs fs)) = 0 then block_alloc fs n v old dinode = Some (-1, 0, fs)
    else \<exists>i fs'. block_alloc fs n v old dinode = Some (0, rt_data0 (last (fs_rgs fs)) + of_nat i, fs')
      \<and> fs_ok fs' \<and> block_state fs' = (block_state fs)(rt_data0 (last (fs_rgs fs)) + of_nat i \<mapsto> v)"
proof -
  have "find (\<lambda>rg. n \<le> ucast (rt_free rg)) (fs_rgs fs) = None"
    using assms(5) by (auto simp: find_None_iff not_le)
  then have "alloc_group n (fs_rgs fs) = last (fs_rgs fs)" by (simp add: alloc_group_def)
  then show ?thesis
    using block_alloc_full [OF assms(1,2), of n v old dinode] block_alloc_in_group [OF assms(1-4) refl, of n old dinode]
    by auto
qed

theorem block_alloc_last_group_witness:
  "\<exists>i fs'. block_alloc fs_example 100 1 0 False = Some (0, 301 + of_nat i, fs') \<and> fs_ok fs'"
  using block_alloc_last_group [OF fs_example_ok(1), of 1 100 0 False] fs_example_ok(2) by auto

text \<open>\<open>gfs2_free_block\<close> makes one allocated block FREE and leaves the state of every other block of the
  file system; the groups' counts still agree with their bitmaps and the superblock's count goes
  down by one.\<close>

theorem free_block_exact:
  assumes "fs_ok fs" "block_state fs blk = Some s" "s \<noteq> GFS2_BLKST_FREE"
  shows "fs_ok (gfs2_free_block fs blk) \<and> block_state (gfs2_free_block fs blk) = (block_state fs)(blk \<mapsto> GFS2_BLKST_FREE)
    \<and> blks_alloced (fs_sdp (gfs2_free_block fs blk)) = blks_alloced (fs_sdp fs) - 1"
proof -
  obtain rg where rg: "gfs2_blk2rgrpd (fs_rgtree fs) blk = Some rg" "rt_data0 rg \<le> blk"
    "rg_state (fs_bsize fs) rg (unat (blk - rt_data0 rg)) = s"
    using assms(2) by (auto simp: block_state_def split: option.splits if_splits)
  have inn: "rg \<in> set (fs_rgs fs)" and own: "rg_owns rg blk" and ok: "rg_ok (fs_bsize fs) rg"
    using rg(1) assms(1) by (auto simp: fs_ok_def fs_rgs_def blk2rgrpd_Some_iff)
  define i where "i = unat (blk - rt_data0 rg)"
  have i: "i < unat (rt_data rg)" "blk = rt_data0 rg + of_nat i" using rg_owns_index [OF ok own rg(2)] by (simp_all add: i_def)
  obtain r where r: "gfs2_set_bitmap (Some rg) blk 0 = (0, Some r)"
    "rg_moved (fs_bsize fs) rg i 0 (rgrp_header_out (fs_sdp fs) (r\<lparr>rt_free := rt_free r + 1\<rparr>))"
  proof -
    have "rg_state (fs_bsize fs) rg i \<noteq> GFS2_BLKST_FREE" using rg(3) assms(3) by (simp add: i_def)
    from free_in_rg_ok [OF ok i(1) this, of "fs_sdp fs"] that show thesis unfolding i(2) [symmetric] by blast
  qed
  have "gfs2_free_block fs blk = (put_rg (rgrp_header_out (fs_sdp fs) (r\<lparr>rt_free := rt_free r + 1\<rparr>)) fs)
      \<lparr>fs_sdp := (fs_sdp fs)\<lparr>blks_alloced := blks_alloced (fs_sdp fs) - 1\<rparr>\<rparr>"
    using rg(1) r(1) by (simp add: gfs2_free_block_def put_rg_sdp Let_def)
  then show ?thesis using put_moved [OF assms(1) inn i(1) r(2)] i(2) by simp
qed

theorem free_block_exact_witness:
  "\<exists>fs'. block_alloc fs_example 1 1 0 False = Some (0, 201, fs') \<and> fs_ok (gfs2_free_block fs' 201)
     \<and> block_state (gfs2_free_block fs' 201) 201 = Some GFS2_BLKST_FREE"
proof -
  obtain i fs' where a: "block_alloc fs_example 1 1 0 False = Some (0, rt_data0 rgrp_example + of_nat i, fs')"
    "\<forall>j < i. rg_state 512 rgrp_example j \<noteq> 0" "fs_ok fs'"
    "block_state fs' = (block_state fs_example)(rt_data0 rgrp_example + of_nat i \<mapsto> 1)"
    using block_alloc_in_group [OF fs_example_ok(1), of 1 rgrp_example 1 0 False] fs_example_ok(2,3)
    by (auto simp: alloc_group_def)
  moreover have "i = 0" using a(2) rgrp_example_free [of 0] by auto
  ultimately show ?thesis using free_block_exact [of fs' 201 1] by auto
qed

text \<open>\<open>gfs2_free_block\<close> does not look at the result of \<open>gfs2_set_bitmap\<close>: for a block number within the
  group's own header and bitmap blocks no state changes, yet the group's free count goes up by one and
  no longer agrees with the bitmaps.\<close>

theorem free_block_header_miscounts:
  assumes "fs_ok fs" "rg \<in> set (fs_rgs fs)" "rt_addr rg \<le> blk" "blk < rt_data0 rg"
  shows "gfs2_set_bitmap (Some rg) blk (int GFS2_BLKST_FREE) = (-1, Some rg)
    \<and> (\<exists>rg' \<in> set (fs_rgs (gfs2_free_block fs blk)). rt_addr rg' = rt_addr rg \<and> rt_free rg' = rt_free rg + 1
        \<and> (\<forall>i. rg_state (fs_bsize fs) rg' i = rg_state (fs_bsize fs) rg i))
    \<and> \<not> fs_ok (gfs2_free_block fs blk)"
proof -
  have ok: "rg_ok (fs_bsize fs) rg" using assms(1,2) by (simp add: fs_ok_def)
  then have g: "geom (fs_bsize fs) rg" by (simp add: rg_ok_def)
  have set: "gfs2_set_bitmap (Some rg) blk (int GFS2_BLKST_FREE) = (-1, Some rg)"
    using assms(4) by (simp add: gfs2_set_bitmap_def)
  have "rg_owns rg blk"
    using assms(3,4) data_end [OF g] by (simp add: rg_owns_def word_less_nat_alt)
  then have find: "gfs2_blk2rgrpd (fs_rgtree fs) blk = Some rg"
    using assms(1,2) by (simp add: blk2rgrpd_Some_iff fs_ok_def fs_rgs_def)
  define rg' where "rg' = rgrp_header_out (fs_sdp fs) (rg\<lparr>rt_free := rt_free rg + 1\<rparr>)"
  have fr: "gfs2_free_block fs blk = (put_rg rg' fs)\<lparr>fs_sdp := (fs_sdp fs)\<lparr>blks_alloced := blks_alloced (fs_sdp fs) - 1\<rparr>\<rparr>"
    using find set by (simp add: gfs2_free_block_def put_rg_sdp rg'_def Let_def)
  have rg': "rt_addr rg' = rt_addr rg" "rt_free rg' = rt_free rg + 1" "rt_data rg' = rt_data rg"
    "\<And>i. rg_state (fs_bsize fs) rg' i = rg_state (fs_bsize fs) rg i"
    using g by (simp_all add: rg'_def header_out_state)
  have mem: "rg' \<in> set (fs_rgs (gfs2_free_block fs blk))" using assms(2) rg'(1) by (force simp: fr)
  have "free_blocks (fs_bsize fs) rg' = free_blocks (fs_bsize fs) rg" by (simp add: free_blocks_def rg')
  moreover have "unat (rt_free rg + 1) \<noteq> unat (rt_free rg)"
  proof
    assume "unat (rt_free rg + 1) = unat (rt_free rg)"
    then have "rt_free rg + 1 = rt_free rg" by (simp only: word_unat_eq_iff)
    then show False by simp
  qed
  ultimately have "\<not> rg_ok (fs_bsize fs) rg'" using ok rg'(2) by (simp add: rg_ok_def)
  then have "\<not> fs_ok (gfs2_free_block fs blk)" using mem unfolding fs_ok_def by (auto simp: fr)
  with set mem rg' show ?thesis by auto
qed

theorem free_block_header_miscounts_witness: "\<not> fs_ok (gfs2_free_block fs_example 200)"
  using free_block_header_miscounts [OF fs_example_ok(1), of rgrp_example 200] fs_example_ok(2) by simp

end
