(* ===== verification/FsMap.thy ===== *)
theory FsMap
  imports FsAlloc "HOL-Library.Monad_Syntax"
begin

text \<open>
  Files (fs_ops.c, gfs1.c): inodes in memory, the tree of indirect blocks, the map from a file's
  blocks to the device's, reading and writing, and the files that mkfs writes as one extent.

  The operations pass the file system and the inode explicitly. None is the result where the code ends
  the program or reads or writes outside a buffer.
\<close>

section \<open>Inodes in memory\<close>

text \<open>An inode with the buffer it was read from; \<open>vown\<close> is \<open>bh_owned\<close>.\<close>

record vinode =
  vi :: gfs2_inode
  vbh :: gfs2_buffer_head
  vown :: bool

definition lgfs2_inode_get :: "gfs2_buffer_head \<Rightarrow> vinode" where
  "lgfs2_inode_get bh = \<lparr>vi = lgfs2_dinode_in inode_zero (b_data bh), vbh = bh, vown = False\<rparr>"

definition lgfs2_inode_read :: "fs \<Rightarrow> u64 \<Rightarrow> vinode option" where
  "lgfs2_inode_read fs di_addr =
     map_option (\<lambda>bh. (lgfs2_inode_get bh)\<lparr>vown := True\<rparr>) (bread (fs_disk fs) di_addr)"

text \<open>gfs1 inodes; the read is into a buffer from \<open>bget\<close>.\<close>

definition lgfs2_gfs_inode_read :: "fs \<Rightarrow> u64 \<Rightarrow> vinode option" where
  "lgfs2_gfs_inode_read fs di_addr =
     map_option (\<lambda>c. \<lparr>vi = gfs_inode_get c, vbh = (bget (fs_sdp fs) di_addr)\<lparr>b_data := c\<rparr>, vown = True\<rparr>)
       (fs_disk fs di_addr)"

text \<open>The pointers to system inodes in the superblock's \<open>md\<close> and \<open>master_dir\<close>, in the order they are compared.\<close>

record system_inodes =
  md_inum :: "vinode option"
  md_statfs :: "vinode option"
  md_jiinode :: "vinode option"
  md_riinode :: "vinode option"
  md_qinode :: "vinode option"
  md_pinode :: "vinode option"
  md_rooti :: "vinode option"
  master_dir :: "vinode option"
  md_journal :: "vinode option list"

definition is_system_inode :: "system_inodes \<Rightarrow> u64 \<Rightarrow> vinode option" where
  "is_system_inode md block =
     (case find (\<lambda>ip. case ip of None \<Rightarrow> False | Some ip \<Rightarrow> block = in_addr (i_num (vi ip)))
        ([md_inum md, md_statfs md, md_jiinode md, md_riinode md, md_qinode md, md_pinode md, md_rooti md, master_dir md]
         @ md_journal md) of
        None \<Rightarrow> None | Some ip \<Rightarrow> ip)"

definition fs_brelse :: "gfs2_buffer_head \<Rightarrow> fs \<Rightarrow> fs" where
  "fs_brelse bh fs = fs\<lparr>fs_disk := snd (brelse (fs_disk fs) bh)\<rparr>"

text \<open>The block of a system inode, whose buffer is not the inode's own, is not released here.\<close>

definition inode_put :: "fs \<Rightarrow> vinode \<Rightarrow> fs" where
  "inode_put fs ip =
     (let bh = vbh ip;
          bh = (if b_modified bh then bh\<lparr>b_data := lgfs2_dinode_out (vi ip) (b_data bh)\<rparr> else bh)
      in if vown ip then fs_brelse bh fs else fs)"

definition S_ISDIR :: "u32 \<Rightarrow> bool" where
  "S_ISDIR mode \<longleftrightarrow> mode AND 0xF000 = 0x4000"

definition is_gfs_dir :: "gfs2_inode \<Rightarrow> bool" where
  "is_gfs_dir ip \<longleftrightarrow> i_di_type ip = GFS_FILE_DIR"

definition fs_is_jdata :: "gfs2_inode \<Rightarrow> bool" where
  "fs_is_jdata ip \<longleftrightarrow> i_flags ip AND GFS2_DIF_JDATA \<noteq> 0"

definition lgfs2_meta_alloc :: "fs \<Rightarrow> vinode \<Rightarrow> u64 \<Rightarrow> (int \<times> u64 \<times> fs \<times> vinode) option" where
  "lgfs2_meta_alloc fs ip blkno = do {
     (ret, blkno, fs) \<leftarrow> block_alloc fs 1 (if sd_gfs1 (fs_sdp fs) then GFS2_BLKST_DINODE else GFS2_BLKST_USED) blkno False;
     Some (ret, blkno, fs,
       if ret = 0 then ip\<lparr>vi := (vi ip)\<lparr>i_u0 := blkno\<rparr>, vbh := bmodified (vbh ip)\<rparr> else ip)
   }"

section \<open>Buffers\<close>

definition buffer_clear_tail :: "gfs2_sbd \<Rightarrow> nat \<Rightarrow> gfs2_buffer_head \<Rightarrow> gfs2_buffer_head" where
  "buffer_clear_tail sdp head bh =
     bmodified (bh\<lparr>b_data := memcpy_at head (replicate (unat (sd_bsize sdp) - head) 0) (b_data bh)\<rparr>)"

definition buffer_copy_tail ::
  "gfs2_sbd \<Rightarrow> nat \<Rightarrow> gfs2_buffer_head \<Rightarrow> nat \<Rightarrow> gfs2_buffer_head \<Rightarrow> gfs2_buffer_head" where
  "buffer_copy_tail sdp to_head from_bh from_head to_bh =
     (let bsize = unat (sd_bsize sdp);
          d = memcpy_at to_head (slice from_head (bsize - from_head) (b_data from_bh)) (b_data to_bh);
          d = memcpy_at (bsize + to_head - from_head) (replicate (from_head - to_head) 0) d
      in bmodified (to_bh\<lparr>b_data := d\<rparr>))"

text \<open>The inode's own block gets its pointers cleared, but for a first one to \<open>block\<close> if there is one.\<close>

definition repoint :: "gfs2_sbd \<Rightarrow> bool \<Rightarrow> u64 \<Rightarrow> vinode \<Rightarrow> vinode" where
  "repoint sdp ptr block ip =
     (let bh = buffer_clear_tail sdp (sizeof struct_gfs2_dinode) (vbh ip) in
      if ptr then ip\<lparr>vbh := bh\<lparr>b_data := put_be64 (sizeof struct_gfs2_dinode) block (b_data bh)\<rparr>,
                     vi := (vi ip)\<lparr>i_blocks := i_blocks (vi ip) + 1\<rparr>\<rparr>
      else ip\<lparr>vbh := bh\<rparr>)"

text \<open>The inode's pointers or data move to a new block; it ends the program when there is none.\<close>

definition unstuff_dinode :: "fs \<Rightarrow> vinode \<Rightarrow> (fs \<times> vinode) option" where
  "unstuff_dinode fs ip = do {
     let sdp = fs_sdp fs;
     let isdir = (S_ISDIR (i_mode (vi ip)) \<or> is_gfs_dir (vi ip));
     (fs, ip, block) \<leftarrow>
       (if i_size (vi ip) \<noteq> 0 then do {
          (ret, block, fs, ip) \<leftarrow> lgfs2_meta_alloc fs ip 0;
          if ret \<noteq> 0 then None
          else let bh = bget sdp block;
                   bh = (if isdir
                         then bmodified (buffer_copy_tail sdp (sizeof struct_gfs2_meta_header) (vbh ip) (sizeof struct_gfs2_dinode)
                                (bh\<lparr>b_data := copy_meta_header GFS2_METATYPE_JD GFS2_FORMAT_JD (b_data bh)\<rparr>))
                         else buffer_copy_tail sdp 0 (vbh ip) (sizeof struct_gfs2_dinode) bh)
               in Some (fs_brelse bh fs, ip, block)
        } else Some (fs, ip, 0));
     let ip = repoint sdp (i_size (vi ip) \<noteq> 0) block ip;
     Some (fs, ip\<lparr>vi := (vi ip)\<lparr>i_height := 1\<rparr>\<rparr>)
   }"

section \<open>Heights\<close>

definition calc_tree_height :: "gfs2_sbd \<Rightarrow> gfs2_inode \<Rightarrow> u64 \<Rightarrow> nat" where
  "calc_tree_height sdp ip sz =
     (let sz = (if sz < i_size ip then i_size ip else sz);
          (arr, maxh) = (if S_ISDIR (i_mode ip) then (sd_jheightsize sdp, unat (sd_max_jheight sdp))
                        else (sd_heightsize sdp, unat (sd_max_height sdp)))
      in case find (\<lambda>hgt. sz \<le> arr ! hgt) [0..<maxh] of Some hgt \<Rightarrow> hgt | None \<Rightarrow> maxh)"

definition build_height_step :: "fs \<times> vinode \<Rightarrow> (fs \<times> vinode) option" where
  "build_height_step = (\<lambda>(fs, ip). do {
     let sdp = fs_sdp fs;
     let new_block = list_ex (\<lambda>x. get_be64 (b_data (vbh ip)) (sizeof struct_gfs2_dinode + 8 * x) \<noteq> 0) [0..<unat (sd_diptrs sdp)];
     (fs, ip, block) \<leftarrow>
       (if new_block then do {
          (ret, block, fs, ip) \<leftarrow> lgfs2_meta_alloc fs ip 0;
          if ret \<noteq> 0 then None
          else let bh = bget sdp block;
                   bh = bmodified (buffer_copy_tail sdp (sizeof struct_gfs2_meta_header) (vbh ip) (sizeof struct_gfs2_dinode)
                          (bh\<lparr>b_data := copy_meta_header GFS2_METATYPE_IN GFS2_FORMAT_IN (b_data bh)\<rparr>))
               in Some (fs_brelse bh fs, ip, block)
        } else Some (fs, ip, 0));
     let ip = repoint sdp new_block block ip;
     Some (fs, ip\<lparr>vi := (vi ip)\<lparr>i_height := i_height (vi ip) + 1\<rparr>\<rparr>)
   })"

definition build_height :: "fs \<Rightarrow> vinode \<Rightarrow> nat \<Rightarrow> (fs \<times> vinode) option" where
  "build_height fs ip hgt =
     fold (\<lambda>_ st. Option.bind st build_height_step) [unat (i_height (vi ip))..<hgt] (Some (fs, ip))"

section \<open>Paths\<close>

text \<open>The place in each level's pointers; the array has \<open>GFS2_MAX_META_HEIGHT\<close> places.\<close>

fun metapath_loop :: "u32 \<Rightarrow> nat \<Rightarrow> u64 \<Rightarrow> u32 list \<Rightarrow> u32 list" where
  "metapath_loop inptrs 0 block mp = mp"
| "metapath_loop inptrs (Suc i) block mp =
     metapath_loop inptrs i (block div ucast inptrs) (mp[i := ucast (block mod ucast inptrs)])"

definition find_metapath :: "gfs2_sbd \<Rightarrow> gfs2_inode \<Rightarrow> u64 \<Rightarrow> u32 list option" where
  "find_metapath sdp ip block =
     (if GFS2_MAX_META_HEIGHT < unat (i_height ip) then None
      else Some (metapath_loop (sd_inptrs sdp) (unat (i_height ip)) block (replicate GFS2_MAX_META_HEIGHT 0)))"

definition metapointer :: "bool \<Rightarrow> nat \<Rightarrow> u32 list \<Rightarrow> nat" where
  "metapointer gfs1 hgt mp =
     (let head_size = (if 0 < hgt then (if gfs1 then sizeof struct_gfs_indirect else sizeof struct_gfs2_meta_header)
                       else (if gfs1 then sizeof struct_gfs_dinode else sizeof struct_gfs2_dinode))
      in head_size + 8 * unat (mp ! hgt))"

text \<open>The buffer that is looked at: the inode's own, or one that was read for it.\<close>

datatype holder = Own | Other gfs2_buffer_head

fun held :: "vinode \<Rightarrow> holder \<Rightarrow> gfs2_buffer_head" where
  "held ip Own = vbh ip"
| "held ip (Other bh) = bh"

fun on_held :: "(gfs2_buffer_head \<Rightarrow> gfs2_buffer_head) \<Rightarrow> vinode \<Rightarrow> holder \<Rightarrow> vinode \<times> holder" where
  "on_held f ip Own = (ip\<lparr>vbh := f (vbh ip)\<rparr>, Own)"
| "on_held f ip (Other bh) = (ip, Other (f bh))"

fun release :: "holder \<Rightarrow> fs \<Rightarrow> fs" where
  "release Own fs = fs"
| "release (Other bh) fs = fs_brelse bh fs"

text \<open>
  \<open>lookup_block\<close> and, with the sizes of gfs1's headers, \<open>gfs1_lookup_block\<close>: the block that a pointer
  holds; when it is zero and \<open>create\<close> is set, a new one.
\<close>

definition lookup_block_at ::
  "bool \<Rightarrow> fs \<Rightarrow> vinode \<Rightarrow> holder \<Rightarrow> nat \<Rightarrow> u32 list \<Rightarrow> bool \<Rightarrow> bool \<Rightarrow> (fs \<times> vinode \<times> holder \<times> bool \<times> u64) option" where
  "lookup_block_at gfs1 fs ip bh hgt mp create new =
     (let ptr = metapointer gfs1 hgt mp; data = b_data (held ip bh) in
      if GFS2_MAX_META_HEIGHT \<le> hgt \<or> length data < ptr + 8 then None
      else if get_be64 data ptr \<noteq> 0 then Some (fs, ip, bh, new, get_be64 data ptr)
      else if \<not> create then Some (fs, ip, bh, new, 0)
      else do {
        (ret, block, fs, ip) \<leftarrow> lgfs2_meta_alloc fs ip 0;
        if ret \<noteq> 0 then Some (fs, ip, bh, new, if gfs1 then 0 else block)
        else let (ip, bh) = on_held (\<lambda>bh. bmodified (bh\<lparr>b_data := put_be64 ptr block (b_data bh)\<rparr>)) ip bh;
                 ip = ip\<lparr>vi := (vi ip)\<lparr>i_blocks := i_blocks (vi ip) + 1\<rparr>, vbh := bmodified (vbh ip)\<rparr>
             in Some (fs, ip, bh, True, block)
      })"

definition lookup_block where "lookup_block = lookup_block_at False"
definition gfs1_lookup_block where "gfs1_lookup_block = lookup_block_at True"

section \<open>Block maps\<close>

text \<open>The way down to the last level of metadata. No buffer is left when a level has no block.\<close>

primrec block_map_descend ::
  "bool \<Rightarrow> u32 list \<Rightarrow> bool \<Rightarrow> nat list \<Rightarrow> fs \<Rightarrow> vinode \<Rightarrow> holder \<Rightarrow> bool \<Rightarrow> u64
     \<Rightarrow> (fs \<times> vinode \<times> holder option \<times> bool \<times> u64) option" where
  "block_map_descend gfs1 mp create [] fs ip bh new dblock = Some (fs, ip, Some bh, new, dblock)"
| "block_map_descend gfs1 mp create (x # xs) fs ip bh new dblock =
     do {
       (fs, ip, bh, new, dblock) \<leftarrow> lookup_block_at gfs1 fs ip bh x mp create new;
       let fs = release bh fs;
       if dblock = 0 then Some (fs, ip, None, new, 0)
       else if new then
         let bh = bget (fs_sdp fs) dblock;
             bh = bmodified (bh\<lparr>b_data := copy_meta_header GFS2_METATYPE_IN GFS2_FORMAT_IN (b_data bh)\<rparr>)
         in block_map_descend gfs1 mp create xs fs ip (Other bh) new dblock
       else if dblock = in_addr (i_num (vi ip)) then block_map_descend gfs1 mp create xs fs ip Own new dblock
       else do {
         bh \<leftarrow> bread (fs_disk fs) dblock;
         block_map_descend gfs1 mp create xs fs ip (Other bh) new dblock
       }
     }"

text \<open>The count of blocks that follow each other, from the places \<open>js\<close> after the first pointer's.\<close>

primrec extent_scan :: "bool \<Rightarrow> fs \<Rightarrow> vinode \<Rightarrow> holder \<Rightarrow> nat \<Rightarrow> u32 list \<Rightarrow> u64 \<Rightarrow> nat list \<Rightarrow> u32 \<Rightarrow> u32 option" where
  "extent_scan gfs1 fs ip bh eom mp dblock [] extlen = Some extlen"
| "extent_scan gfs1 fs ip bh eom mp dblock (j # js) extlen =
     do {
       (_, _, _, _, tmp_dblock) \<leftarrow> lookup_block_at gfs1 fs ip bh eom (mp[eom := of_nat j]) False False;
       if dblock + ucast extlen \<noteq> tmp_dblock then Some extlen
       else extent_scan gfs1 fs ip bh eom mp dblock js (extlen + 1)
     }"

text \<open>
  \<open>block_map\<close> and \<open>gfs1_block_map\<close>. \<open>create\<close> is \<open>*new\<close> before the call; \<open>want\<close> says that \<open>extlen\<close> is not
  NULL. The result has \<open>*new\<close>, \<open>*dblock\<close> and \<open>*extlen\<close>.
\<close>

definition block_map_at ::
  "bool \<Rightarrow> fs \<Rightarrow> vinode \<Rightarrow> u64 \<Rightarrow> bool \<Rightarrow> bool \<Rightarrow> bool \<Rightarrow> (fs \<times> vinode \<times> bool \<times> u64 \<times> u32) option" where
  "block_map_at gfs1 fs ip lblock create want prealloc =
     (if i_height (vi ip) = 0 then
        if lblock = 0 then Some (fs, ip, False, in_addr (i_num (vi ip)), if want then 1 else 0)
        else Some (fs, ip, False, 0, 0)
      else
        let sdp = fs_sdp fs;
            bsize = (if (if gfs1 then fs_is_jdata (vi ip) else S_ISDIR (i_mode (vi ip))) then sd_jbsize sdp else sd_bsize sdp);
            hgt = calc_tree_height sdp (vi ip) ((lblock + 1) * ucast bsize)
        in if unat (i_height (vi ip)) < hgt \<and> \<not> create then Some (fs, ip, False, 0, 0)
        else do {
          (fs, ip) \<leftarrow> (if unat (i_height (vi ip)) < hgt then build_height fs ip hgt else Some (fs, ip));
          mp \<leftarrow> find_metapath sdp (vi ip) lblock;
          let eom = unat (i_height (vi ip)) - 1;
          (fs, ip, bh, new, dblock) \<leftarrow> block_map_descend gfs1 mp create [0..<eom] fs ip Own False 0;
          case bh of None \<Rightarrow> Some (fs, ip, new, 0, 0)
          | Some bh \<Rightarrow> do {
              (fs, ip, bh, new, dblock) \<leftarrow>
                (if prealloc then Some (fs, ip, bh, new, dblock) else lookup_block_at gfs1 fs ip bh eom mp create new);
              extlen \<leftarrow>
                (if \<not> want \<or> dblock = 0 then Some 0
                 else if new then Some 1
                 else extent_scan gfs1 fs ip bh eom mp dblock
                        [Suc (unat (mp ! eom))..<unat (if eom \<noteq> 0 then sd_inptrs sdp else sd_diptrs sdp)] 1);
              Some (release bh fs, ip, new, dblock, extlen)
            }
        })"

definition block_map where "block_map = block_map_at False"
definition gfs1_block_map where "gfs1_block_map = block_map_at True"


section \<open>Reading and writing\<close>

text \<open>
  Where a read or a write begins: the block of the file and the place in it. Each pass moves at least
  one byte but for a first one that begins at the end of its block, so \<open>fuel\<close> of two more than the
  bytes is enough.
\<close>

primrec readi_loop ::
  "nat \<Rightarrow> bool \<Rightarrow> nat \<Rightarrow> fs \<Rightarrow> vinode \<Rightarrow> nat \<Rightarrow> bytes \<Rightarrow> u64 \<Rightarrow> nat \<Rightarrow> u64 \<Rightarrow> u32 \<Rightarrow> (bytes \<times> fs \<times> vinode) option" where
  "readi_loop 0 hdr n fs ip copied buf lblock off dblock extlen = (if copied < n then None else Some (buf, fs, ip))"
| "readi_loop (Suc fuel) hdr n fs ip copied buf lblock off dblock extlen =
     (if \<not> copied < n then Some (buf, fs, ip)
      else let sdp = fs_sdp fs; bsize = unat (sd_bsize sdp) in
      if bsize < off then None
      else do {
        let amount = min (n - copied) (bsize - off);
        (fs, ip, dblock, extlen) \<leftarrow>
          (if extlen = 0 then do {
             (fs, ip, _, dblock, extlen) \<leftarrow> block_map_at (sd_gfs1 sdp) fs ip lblock False True False;
             Some (fs, ip, dblock, extlen) }
           else Some (fs, ip, dblock, extlen));
        (piece, dblock, extlen) \<leftarrow>
          (if dblock = 0 then Some (replicate amount 0, dblock, extlen)
           else if dblock = in_addr (i_num (vi ip)) then Some (slice off amount (b_data (vbh ip)), dblock + 1, extlen - 1)
           else do { bh \<leftarrow> bread (fs_disk fs) dblock; Some (slice off amount (b_data bh), dblock + 1, extlen - 1) });
        readi_loop fuel hdr n fs ip (copied + amount) (buf @ piece) (lblock + 1)
          (if hdr then sizeof struct_gfs2_meta_header else 0) dblock extlen
      })"

definition has_data_headers :: "gfs2_sbd \<Rightarrow> gfs2_inode \<Rightarrow> bool" where
  "has_data_headers sdp ip \<longleftrightarrow> (if sd_gfs1 sdp then fs_is_jdata ip else S_ISDIR (i_mode ip))"

definition gfs2_readi :: "fs \<Rightarrow> vinode \<Rightarrow> u64 \<Rightarrow> u32 \<Rightarrow> (bytes \<times> fs \<times> vinode) option" where
  "gfs2_readi fs ip offset n =
     (let sdp = fs_sdp fs; hdr = has_data_headers sdp (vi ip) in
      if i_size (vi ip) \<le> offset then Some ([], fs, ip)
      else
        let n = (if i_size (vi ip) < offset + ucast n then ucast (i_size (vi ip) - offset) else n) in
        if n = 0 then Some ([], fs, ip)
        else
          let (lblock, off) = (if hdr then (offset div ucast (sd_jbsize sdp), offset mod ucast (sd_jbsize sdp))
                               else (drop_bit (unat (sd_bsize_shift sdp)) offset, offset AND ucast (sd_bsize sdp - 1)));
              off = unat off + (if i_height (vi ip) = 0 then sizeof struct_gfs2_dinode
                                else if hdr then sizeof struct_gfs2_meta_header else 0)
          in readi_loop (unat n + 2) hdr (unat n) fs ip 0 [] lblock off 0 0)"

text \<open>\<open>new\<close> and the place on the device stay as they are within an extent.\<close>

primrec writei_loop ::
  "nat \<Rightarrow> bool \<Rightarrow> bytes \<Rightarrow> fs \<Rightarrow> vinode \<Rightarrow> u64 \<Rightarrow> nat \<Rightarrow> bool \<Rightarrow> u64 \<Rightarrow> u32 \<Rightarrow> (fs \<times> vinode) option" where
  "writei_loop 0 isdir buf fs ip lblock off new dblock extlen = (if buf \<noteq> [] then None else Some (fs, ip))"
| "writei_loop (Suc fuel) isdir buf fs ip lblock off new dblock extlen =
     (if buf = [] then Some (fs, ip)
      else let sdp = fs_sdp fs; bsize = unat (sd_bsize sdp) in
      if bsize < off then None
      else do {
        let amount = min (length buf) (bsize - off);
        (fs, ip, new, dblock, extlen) \<leftarrow>
          (if extlen = 0 then block_map_at False fs ip lblock True True False else Some (fs, ip, new, dblock, extlen));
        bh \<leftarrow> (if new then
                 let bh = bget sdp dblock in
                 Some (Other (if isdir then bmodified (bh\<lparr>b_data := copy_meta_header GFS2_METATYPE_JD GFS2_FORMAT_JD (b_data bh)\<rparr>) else bh))
               else if dblock = in_addr (i_num (vi ip)) then Some Own
               else map_option Other (bread (fs_disk fs) dblock));
        let (ip, bh) = on_held (\<lambda>bh. bmodified (bh\<lparr>b_data := memcpy_at off (take amount buf) (b_data bh)\<rparr>)) ip bh;
        writei_loop fuel isdir (drop amount buf) (release bh fs) ip (lblock + 1)
          (if isdir then sizeof struct_gfs2_meta_header else 0) new (dblock + 1) (extlen - 1)
      })"

definition gfs2_writei_resize :: "fs \<Rightarrow> vinode \<Rightarrow> bytes \<Rightarrow> u64 \<Rightarrow> bool \<Rightarrow> (nat \<times> fs \<times> vinode) option" where
  "gfs2_writei_resize fs ip buf offset resize =
     (if buf = [] then Some (0, fs, ip)
      else do {
        let sdp = fs_sdp fs;
        let n = of_nat (length buf);
        (fs, ip) \<leftarrow> (if i_height (vi ip) = 0 \<and> ucast (sd_bsize sdp) - of_nat (sizeof struct_gfs2_dinode) < offset + n
                     then unstuff_dinode fs ip else Some (fs, ip));
        let isdir = S_ISDIR (i_mode (vi ip));
        let (lblock, off) = (if isdir then (offset div ucast (sd_jbsize sdp), offset mod ucast (sd_jbsize sdp))
                             else (drop_bit (unat (sd_bsize_shift sdp)) offset, offset AND ucast (sd_bsize sdp - 1)));
        let off = unat off + (if i_height (vi ip) = 0 then sizeof struct_gfs2_dinode
                              else if isdir then sizeof struct_gfs2_meta_header else 0);
        (fs, ip) \<leftarrow> writei_loop (length buf + 2) isdir buf fs ip lblock off False 0 0;
        Some (length buf, fs,
          if resize \<and> i_size (vi ip) < offset + n
          then ip\<lparr>vbh := bmodified (vbh ip), vi := (vi ip)\<lparr>i_size := offset + n\<rparr>\<rparr> else ip)
      })"

text \<open>\<open>gfs1_writei\<close> stops with -1 when there is no block; \<open>now\<close> is the time of the call.\<close>

primrec gfs1_writei_loop ::
  "nat \<Rightarrow> bool \<Rightarrow> bytes \<Rightarrow> fs \<Rightarrow> vinode \<Rightarrow> u64 \<Rightarrow> nat \<Rightarrow> u64 \<Rightarrow> u32 \<Rightarrow> (bool \<times> fs \<times> vinode) option" where
  "gfs1_writei_loop 0 journaled buf fs ip lblock off dblock extlen = (if buf \<noteq> [] then None else Some (True, fs, ip))"
| "gfs1_writei_loop (Suc fuel) journaled buf fs ip lblock off dblock extlen =
     (if buf = [] then Some (True, fs, ip)
      else let sdp = fs_sdp fs; bsize = unat (sd_bsize sdp) in
      if bsize < off then None
      else do {
        let amount = min (length buf) (bsize - off);
        (fs, ip, dblock, extlen) \<leftarrow>
          (if extlen = 0 then do {
             (fs, ip, _, dblock, extlen) \<leftarrow> block_map_at True fs ip lblock True True False;
             Some (fs, ip, dblock, extlen) }
           else Some (fs, ip, dblock, extlen));
        if dblock = 0 then Some (False, fs, ip)
        else do {
          bh \<leftarrow> (if dblock = in_addr (i_num (vi ip)) then Some Own else map_option Other (bread (fs_disk fs) dblock));
          let jd = (\<lambda>d. if journaled \<and> dblock \<noteq> in_addr (i_num (vi ip)) then copy_meta_header GFS2_METATYPE_JD GFS2_FORMAT_JD d else d);
          let (ip, bh) = on_held (\<lambda>bh. bmodified (bh\<lparr>b_data := memcpy_at off (take amount buf) (jd (b_data bh))\<rparr>)) ip bh;
          gfs1_writei_loop fuel journaled (drop amount buf) (release bh fs) ip (lblock + 1)
            (if journaled then sizeof struct_gfs2_meta_header else 0) (dblock + 1) (extlen - 1)
        }
      })"

definition gfs1_writei :: "u64 \<Rightarrow> fs \<Rightarrow> vinode \<Rightarrow> bytes \<Rightarrow> u64 \<Rightarrow> (int \<times> fs \<times> vinode) option" where
  "gfs1_writei now fs ip buf offset =
     (if buf = [] then Some (0, fs, ip)
      else do {
        let sdp = fs_sdp fs;
        let n = of_nat (length buf);
        let journaled = fs_is_jdata (vi ip);
        (fs, ip) \<leftarrow> (if i_height (vi ip) = 0 \<and> ucast (sd_bsize sdp) - of_nat (sizeof struct_gfs_dinode) < offset + n
                     then unstuff_dinode fs ip else Some (fs, ip));
        let (lblock, off) = (if journaled then (offset div ucast (sd_jbsize sdp), offset mod ucast (sd_jbsize sdp))
                             else (drop_bit (unat (sd_bsize_shift sdp)) offset, offset AND ucast (sd_bsize sdp - 1)));
        let off = unat off + (if i_height (vi ip) = 0 then sizeof struct_gfs_dinode
                              else if journaled then sizeof struct_gfs2_meta_header else 0);
        (done_all, fs, ip) \<leftarrow> gfs1_writei_loop (length buf + 2) journaled buf fs ip lblock off 0 0;
        if \<not> done_all then Some (-1, fs, ip)
        else
          let ip = (if i_size (vi ip) < offset + n then ip\<lparr>vi := (vi ip)\<lparr>i_size := offset + n\<rparr>\<rparr> else ip);
              ip = ip\<lparr>vi := (vi ip)\<lparr>i_mtime := now, i_ctime := now\<rparr>\<rparr>;
              ip = ip\<lparr>vbh := bmodified ((vbh ip)\<lparr>b_data := lgfs2_dinode_out (vi ip) (b_data (vbh ip))\<rparr>)\<rparr>
          in Some (int (length buf), fs, ip)
      })"

text \<open>\<open>gfs2_readi\<close> of one pointer of a directory's hash table.\<close>

definition lgfs2_get_leaf_ptr :: "fs \<Rightarrow> vinode \<Rightarrow> u32 \<Rightarrow> (u64 option \<times> fs \<times> vinode) option" where
  "lgfs2_get_leaf_ptr fs dip lindex = do {
     (leaf_no, fs, dip) \<leftarrow> gfs2_readi fs dip (ucast lindex * 8) 8;
     Some (if length leaf_no = 8 then Some (get_be64 leaf_no 0) else None, fs, dip)
   }"

section \<open>Files of one extent\<close>

partial_function (option) space_loop :: "u64 \<Rightarrow> u64 \<Rightarrow> u64 \<Rightarrow> u64 \<Rightarrow> u64 option" where
  "space_loop diptrs inptrs ptrs blks =
     (if diptrs < ptrs then
        let ptrs = (ptrs + inptrs - 1) div inptrs in space_loop diptrs inptrs ptrs (blks + ptrs)
      else Some blks)"

declare space_loop.simps [code]

definition lgfs2_space_for_data :: "gfs2_sbd \<Rightarrow> u32 \<Rightarrow> u64 \<Rightarrow> u64 option" where
  "lgfs2_space_for_data sdp bsize bytes =
     (let blks = (bytes + ucast bsize - 1) div ucast bsize in
      if bytes \<le> ucast bsize - of_nat (sizeof struct_gfs2_dinode) then Some 1
      else map_option (\<lambda>blks. blks + 1) (space_loop (ucast (sd_diptrs sdp)) (ucast (sd_inptrs sdp)) blks blks))"

text \<open>
  \<open>next_inum\<close> is \<open>md.next_inum\<close>, the result has the one after the call, and \<open>now\<close> is \<open>sd_time\<close>.
\<close>

definition lgfs2_file_alloc ::
  "gfs2_sbd \<Rightarrow> u64 \<Rightarrow> u64 \<Rightarrow> rgrp_tree \<Rightarrow> u64 \<Rightarrow> gfs2_inode \<Rightarrow> u32 \<Rightarrow> u32
     \<Rightarrow> (int \<times> gfs2_sbd \<times> u64 \<times> rgrp_tree \<times> gfs2_inode) option" where
  "lgfs2_file_alloc sdp next_inum now rg di_size ip flags mode = do {
     blocks64 \<leftarrow> lgfs2_space_for_data sdp (sd_bsize sdp) di_size;
     let blocks = (ucast blocks64 :: u32);
     found \<leftarrow> (if in_addr (i_num ip) \<noteq> 0
               then Some (case lgfs2_rbm_from_block sdp rg (in_addr (i_num ip)) of Inl _ \<Rightarrow> None | Inr rbm \<Rightarrow> Some rbm)
               else map_option (\<lambda>(err, rbm). if err = None then Some rbm else None)
                      (lgfs2_rbm_find sdp rg \<lparr>rbm_offset = 0, rbm_bii = 0\<rparr> GFS2_BLKST_FREE blocks));
     case found of None \<Rightarrow> Some (1, sdp, next_inum, rg, ip)
     | Some rbm \<Rightarrow>
         let (extlen, rg) = lgfs2_alloc_extent sdp rg rbm (int GFS2_BLKST_DINODE) blocks in
         if extlen < unat blocks then Some (1, sdp, next_inum, rg, ip)
         else
           let addr = lgfs2_rbm_to_block rg rbm;
               goal_data = addr + ucast blocks - 1;
               ip = ip\<lparr>i_magic := GFS2_MAGIC, i_mh_type := GFS2_METATYPE_DI, i_format := GFS2_FORMAT_DI, i_size := di_size,
                       i_num := \<lparr>in_formal_ino = next_inum, in_addr = addr\<rparr>, i_mode := mode, i_nlink := 1,
                       i_blocks := ucast blocks, i_atime := now, i_mtime := now, i_ctime := now, i_u1 := goal_data,
                       i_u0 := goal_data - ((di_size + ucast (sd_bsize sdp) - 1) div ucast (sd_bsize sdp))\<rparr>;
               ip = ip\<lparr>i_height := of_nat (calc_tree_height sdp ip di_size), i_flags := flags\<rparr>;
               rg = set_rt_dinodes (rt_dinodes rg + 1) (rg\<lparr>rt_free := rt_free rg - blocks\<rparr>);
               sdp = sdp\<lparr>dinodes_alloced := dinodes_alloced sdp + 1, blks_alloced := blks_alloced sdp + ucast blocks\<rparr>
           in Some (0, sdp, next_inum + 1, rg, ip)
   }"

primrec fill_indir_loop :: "u64 \<Rightarrow> nat \<Rightarrow> nat list \<Rightarrow> bytes \<Rightarrow> nat \<Rightarrow> bytes \<times> nat" where
  "fill_indir_loop ptr0 n [] buf p = (buf, p)"
| "fill_indir_loop ptr0 n (bp # bps) buf p =
     (if p < n then fill_indir_loop ptr0 n bps (put_be64 bp (ptr0 + of_nat p) buf) (p + 1) else (buf, p))"

definition lgfs2_fill_indir :: "nat \<Rightarrow> nat \<Rightarrow> u64 \<Rightarrow> nat \<Rightarrow> bytes \<Rightarrow> nat \<Rightarrow> bytes \<times> nat" where
  "lgfs2_fill_indir start stop ptr0 n buf p =
     fill_indir_loop ptr0 n (map (\<lambda>i. start + 8 * i) [0..<(stop - start + 7) div 8])
       (memcpy_at start (replicate (stop - start) 0) buf) p"

text \<open>The blocks of one height; each holds at least one pointer, so \<open>ptrs\<close> passes are enough.\<close>

primrec filemeta_blocks ::
  "gfs2_sbd \<Rightarrow> gfs2_inode \<Rightarrow> nat \<Rightarrow> u64 \<Rightarrow> nat \<Rightarrow> nat \<Rightarrow> device \<Rightarrow> gfs2_buffer_head \<Rightarrow> nat \<Rightarrow> (int \<times> device \<times> gfs2_buffer_head) option" where
  "filemeta_blocks sdp ip hgt ptr0 ptrs 0 d bh p = (if p < ptrs then None else Some (0, d, bh))"
| "filemeta_blocks sdp ip hgt ptr0 ptrs (Suc fuel) d bh p =
     (if \<not> p < ptrs then Some (0, d, bh)
      else
        let (start, buf) = (if hgt = 0 then (sizeof struct_gfs2_dinode, lgfs2_dinode_out ip (b_data bh))
                            else (sizeof struct_gfs2_meta_header, copy_meta_header GFS2_METATYPE_IN GFS2_FORMAT_IN (b_data bh)));
            (buf, p) = lgfs2_fill_indir start (unat (sd_bsize sdp)) ptr0 ptrs buf p;
            (e, d, bh) = bwrite d (bh\<lparr>b_data := buf\<rparr>)
        in if e \<noteq> 0 then Some (1, d, bh)
           else filemeta_blocks sdp ip hgt ptr0 ptrs fuel d (bh\<lparr>b_blocknr := b_blocknr bh + 1\<rparr>) p)"

primrec filemeta_heights ::
  "gfs2_sbd \<Rightarrow> gfs2_inode \<Rightarrow> u32 list \<Rightarrow> nat list \<Rightarrow> u64 \<Rightarrow> u32 \<Rightarrow> device \<Rightarrow> gfs2_buffer_head \<Rightarrow> (int \<times> device) option" where
  "filemeta_heights sdp ip mp [] ptr0 ptrs d bh = Some (0, d)"
| "filemeta_heights sdp ip mp (hgt # hs) ptr0 ptrs d bh =
     (let ptrs = (ptrs - 1) * sd_inptrs sdp + mp ! hgt + 1 in
      do {
        (e, d, bh) \<leftarrow> filemeta_blocks sdp ip hgt ptr0 (unat ptrs) (unat ptrs) d bh 0;
        if e \<noteq> 0 then Some (1, d)
        else filemeta_heights sdp ip mp hs (ptr0 + ucast ptrs) ptrs d bh
      })"

definition lgfs2_write_filemeta :: "gfs2_sbd \<Rightarrow> device \<Rightarrow> gfs2_inode \<Rightarrow> (int \<times> device) option" where
  "lgfs2_write_filemeta sdp d ip = do {
     let dblocks = (i_size ip + ucast (sd_bsize sdp) - 1) div ucast (sd_bsize sdp);
     mp \<leftarrow> find_metapath sdp ip (dblocks - 1);
     filemeta_heights sdp ip mp [0..<unat (i_height ip)] (in_addr (i_num ip) + 1) 1 d (bget sdp (in_addr (i_num ip)))
   }"

end
