(* ===== verification/FsFile.thy ===== *)
theory FsFile
  imports FsMap
begin

text \<open>
  Laws of the block map: the path of a block through the indirect blocks, and the map of a file that
  \<open>lgfs2_write_filemeta\<close> wrote as one extent.
\<close>

section \<open>Paths\<close>

lemma unat_u32_u64: "unat (ucast (w :: u32) :: u64) = unat w"
  by (rule unat_ucast_up) simp

lemma metapath_loop_nth:
  assumes "0 < unat inptrs"
  shows "h \<le> length mp \<Longrightarrow> k < length mp \<Longrightarrow>
    metapath_loop inptrs h block mp ! k
      = (if k < h then of_nat (unat block div unat inptrs ^ (h - Suc k) mod unat inptrs) else mp ! k)
    \<and> length (metapath_loop inptrs h block mp) = length mp"
proof (induction h arbitrary: block mp)
  case 0
  then show ?case by simp
next
  case (Suc h)
  have "(ucast (block mod ucast inptrs) :: u32) = of_nat (unat (block mod ucast inptrs))"
    by (simp only: of_nat_unat_ucast)
  also have "\<dots> = of_nat (unat block mod unat inptrs)" by (simp only: unat_mod unat_u32_u64)
  finally have d: "(ucast (block mod ucast inptrs) :: u32) = of_nat (unat block mod unat inptrs)" .
  let ?mp = "mp[h := ucast (block mod ucast inptrs)]" and ?blk = "block div ucast inptrs"
  have q: "unat ?blk div unat inptrs ^ (h - Suc k) = unat block div unat inptrs ^ Suc (h - Suc k)" for k
    by (simp only: unat_div unat_u32_u64 div_mult2_eq [symmetric] power_Suc)
  have IH: "metapath_loop inptrs h ?blk ?mp ! k
      = (if k < h then of_nat (unat ?blk div unat inptrs ^ (h - Suc k) mod unat inptrs) else ?mp ! k)
    \<and> length (metapath_loop inptrs h ?blk ?mp) = length ?mp"
    using Suc.prems by (intro Suc.IH) simp_all
  consider "k < h" | "k = h" | "h < k" by linarith
  then show ?case
  proof cases
    case 1
    then have "Suc (h - Suc k) = Suc h - Suc k" by simp
    with 1 IH q [of k] show ?thesis by simp
  next
    case 2
    with IH d Suc.prems show ?thesis by simp
  next
    case 3
    with IH show ?thesis by simp
  qed
qed

text \<open>The place at each level, and the pointer it stands for among all pointers of the level.\<close>

definition level_pos :: "nat \<Rightarrow> nat \<Rightarrow> nat \<Rightarrow> nat \<Rightarrow> nat" where
  "level_pos I H n k = n div I ^ (H - Suc k)"

lemma level_pos_Suc: "Suc k < H \<Longrightarrow> level_pos I H n (Suc k) div I = level_pos I H n k"
  using div_mult2_eq [of n "I ^ (H - Suc (Suc k))" I]
  by (simp add: level_pos_def Suc_diff_Suc power_Suc2 [symmetric])

lemma level_pos_last: "0 < H \<Longrightarrow> level_pos I H n (H - 1) = n"
  by (simp add: level_pos_def)

lemma find_metapath_nth:
  assumes "unat (i_height ip) \<le> 10" "0 < unat (sd_inptrs sdp)"
  shows "\<exists>mp. find_metapath sdp ip block = Some mp \<and> length mp = 10 \<and>
    (\<forall>k < unat (i_height ip). unat (mp ! k) = level_pos (unat (sd_inptrs sdp)) (unat (i_height ip)) (unat block) k mod unat (sd_inptrs sdp))"
proof -
  define mp where "mp = metapath_loop (sd_inptrs sdp) (unat (i_height ip)) block (replicate 10 0)"
  have "unat (mp ! k) = level_pos (unat (sd_inptrs sdp)) (unat (i_height ip)) (unat block) k mod unat (sd_inptrs sdp)"
    if k: "k < unat (i_height ip)" for k
  proof -
    have "mp ! k = of_nat (level_pos (unat (sd_inptrs sdp)) (unat (i_height ip)) (unat block) k mod unat (sd_inptrs sdp))"
      using metapath_loop_nth [OF assms(2), of _ "replicate 10 0" k] assms(1) k by (simp add: mp_def level_pos_def)
    moreover have "level_pos (unat (sd_inptrs sdp)) (unat (i_height ip)) (unat block) k mod unat (sd_inptrs sdp) < 2 ^ 32"
      by (rule less_trans [OF mod_less_divisor [OF assms(2)]]) (use u32_lt [of "sd_inptrs sdp"] in simp)
    ultimately show ?thesis using unat_of_nat_small [where 'a = 32] by simp
  qed
  moreover have "length mp = 10"
    using metapath_loop_nth [OF assms(2), of _ "replicate 10 0" 0] assms(1) by (simp add: mp_def)
  ultimately show ?thesis using assms(1) by (simp add: find_metapath_def mp_def)
qed

section \<open>The blocks of pointers\<close>

lemma fill_indir_loop_below:
  "\<forall>bp \<in> set bps. off + k \<le> bp \<Longrightarrow> slice off k (fst (fill_indir_loop ptr0 n bps buf p)) = slice off k buf"
  by (induction bps arbitrary: buf p) (simp_all add: put_be64_def slice_memcpy_other)

lemma fill_indir_loop_fields:
  "(\<forall>i < k. bps ! i = start + 8 * i) \<Longrightarrow> length bps = k \<Longrightarrow> start + 8 * k \<le> length buf \<Longrightarrow>
   snd (fill_indir_loop ptr0 n bps buf p) = p + min k (n - p) \<and>
   length (fst (fill_indir_loop ptr0 n bps buf p)) = length buf \<and>
   (\<forall>j < k. get_be64 (fst (fill_indir_loop ptr0 n bps buf p)) (start + 8 * j)
      = (if j < n - p then ptr0 + of_nat (p + j) else get_be64 buf (start + 8 * j)))"
proof (induction bps arbitrary: buf p k start)
  case Nil
  then show ?case by simp
next
  case (Cons bp bps)
  then obtain k' where k: "k = Suc k'" by (cases k) auto
  have bp: "bp = start" using Cons.prems(1) k by force
  have rest: "\<forall>i < k'. bps ! i = (start + 8) + 8 * i" using Cons.prems(1) k by (auto dest: spec [of _ "Suc _"])
  show ?case
  proof (cases "p < n")
    case True
    let ?buf = "put_be64 start (ptr0 + of_nat p) buf"
    have IH: "snd (fill_indir_loop ptr0 n bps ?buf (p + 1)) = p + 1 + min k' (n - (p + 1)) \<and>
       length (fst (fill_indir_loop ptr0 n bps ?buf (p + 1))) = length ?buf \<and>
       (\<forall>j < k'. get_be64 (fst (fill_indir_loop ptr0 n bps ?buf (p + 1))) (start + 8 + 8 * j)
          = (if j < n - (p + 1) then ptr0 + of_nat (p + 1 + j) else get_be64 ?buf (start + 8 + 8 * j)))"
      using Cons.prems k rest by (intro Cons.IH) simp_all
    have first: "get_be64 (fst (fill_indir_loop ptr0 n bps ?buf (p + 1))) start = ptr0 + of_nat p"
    proof -
      have "\<forall>bp \<in> set bps. start + 8 \<le> bp" using rest Cons.prems(2) k by (auto simp: in_set_conv_nth)
      from get_be_slice(3) [OF fill_indir_loop_below [OF this]] show ?thesis
        using Cons.prems(3) k by (simp add: be64.get_put)
    qed
    have "get_be64 (fst (fill_indir_loop ptr0 n bps ?buf (p + 1))) (start + 8 * j)
        = (if j < n - p then ptr0 + of_nat (p + j) else get_be64 buf (start + 8 * j))" if j: "j < k" for j
    proof (cases j)
      case 0
      with first True show ?thesis by simp
    next
      case (Suc i)
      then have "get_be64 (fst (fill_indir_loop ptr0 n bps ?buf (p + 1))) (start + 8 + 8 * i)
          = (if i < n - (p + 1) then ptr0 + of_nat (p + 1 + i) else get_be64 ?buf (start + 8 + 8 * i))"
        using IH j k by blast
      with Suc show ?thesis by (auto simp: field_simps add.assoc)
    qed
    with IH True bp k show ?thesis by auto
  next
    case False
    then show ?thesis by simp
  qed
qed


lemma fill_indir:
  assumes "start + 8 * k = bsize" "length buf = bsize"
  shows "snd (lgfs2_fill_indir start bsize ptr0 n buf p) = p + min k (n - p)"
    "length (fst (lgfs2_fill_indir start bsize ptr0 n buf p)) = bsize"
    "j < k \<Longrightarrow> get_be64 (fst (lgfs2_fill_indir start bsize ptr0 n buf p)) (start + 8 * j)
       = (if j < n - p then ptr0 + of_nat (p + j) else 0)"
    "off + m \<le> start \<Longrightarrow> slice off m (fst (lgfs2_fill_indir start bsize ptr0 n buf p)) = slice off m buf"
proof -
  let ?bps = "map (\<lambda>i. start + 8 * i) [0..<k]" and ?buf = "memcpy_at start (replicate (8 * k) 0) buf"
  have k: "(bsize - start + 7) div 8 = k" "bsize - start = 8 * k" using assms(1) by auto
  then have def: "lgfs2_fill_indir start bsize ptr0 n buf p = fill_indir_loop ptr0 n ?bps ?buf p"
    by (simp add: lgfs2_fill_indir_def)
  have zero: "get_be64 ?buf (start + 8 * j) = 0" if "j < k"
  proof -
    have "slice (start + 8 * j) 8 ?buf = slice (8 * j) 8 (replicate (8 * k) 0)"
      using slice_memcpy_inside [of start "start + 8 * j" 8 "replicate (8 * k) 0" buf] assms that by simp
    also have "\<dots> = replicate 8 0" using that by (simp add: slice_def)
    finally show ?thesis by (simp add: get_be64_def be_val_def numeral_eq_Suc)
  qed
  note F = fill_indir_loop_fields [of k ?bps start ?buf ptr0 n p]
  show "snd (lgfs2_fill_indir start bsize ptr0 n buf p) = p + min k (n - p)"
    "length (fst (lgfs2_fill_indir start bsize ptr0 n buf p)) = bsize"
    using F assms unfolding def by auto
  show "get_be64 (fst (lgfs2_fill_indir start bsize ptr0 n buf p)) (start + 8 * j) = (if j < n - p then ptr0 + of_nat (p + j) else 0)"
    if "j < k"
    using F assms zero [OF that] that unfolding def by auto
  show "slice off m (fst (lgfs2_fill_indir start bsize ptr0 n buf p)) = slice off m buf" if "off + m \<le> start"
    unfolding def using that by (subst fill_indir_loop_below) (auto simp: slice_memcpy_other)
qed


lemma dinode_in_put:
  "232 \<le> off \<Longrightarrow> lgfs2_dinode_in ip0 (put_be64 off v buf) = lgfs2_dinode_in ip0 buf"
  by (simp add: lgfs2_dinode_in_def lgfs2_inum_in_def size_simps field_simps)

lemma dinode_in_slice:
  assumes "slice 0 232 b = slice 0 232 c"
  shows "lgfs2_dinode_in ip0 b = lgfs2_dinode_in ip0 c"
proof -
  have sub: "slice off n b = slice off n c" if "off + n \<le> 232" for off n
  proof -
    have "slice off n x = slice off n (slice 0 232 x)" for x :: bytes
      using that by (simp add: slice_def take_drop min_def)
    with assms show ?thesis by metis
  qed
  show ?thesis
    by (simp add: lgfs2_dinode_in_def lgfs2_inum_in_def size_simps get_be16_def get_be32_def get_be64_def sub)
qed

text \<open>The inode as the disk keeps it, without the words that only gfs1 stores.\<close>

definition stored :: "gfs2_inode \<Rightarrow> gfs2_inode" where
  "stored ip = ip\<lparr>i_u4 := set_hi32 0 (i_u4 ip), i_u5 := 0\<rparr>"

lemma dinode_in_stored:
  assumes "slice 0 232 c = slice 0 232 (lgfs2_dinode_out ip buf)" "232 \<le> length buf"
  shows "lgfs2_dinode_in inode_zero c = stored ip"
  using dinode_in_out [of buf inode_zero ip] assms(2) dinode_in_slice [OF assms(1), of inode_zero]
  by (simp add: stored_def size_simps inode_zero_def hi32_def)

section \<open>The blocks of a height\<close>

definition blocks_for :: "nat \<Rightarrow> nat \<Rightarrow> nat" where
  "blocks_for cap x = (x + cap - 1) div cap"

lemma blocks_for_Suc: "0 < cap \<Longrightarrow> 0 < x \<Longrightarrow> blocks_for cap x = Suc (blocks_for cap (x - min cap x))"
proof -
  assume *: "0 < cap" "0 < x"
  show ?thesis
  proof (cases "x \<le> cap")
    case True
    then obtain r where r: "cap = x + r" using le_Suc_ex by blast
    have "(x + cap - 1) div cap = 1"
      using * True by (simp add: div_nat_eqI)
    moreover have "(cap - 1) div cap = 0" using * by simp
    ultimately show ?thesis using True by (simp add: blocks_for_def)
  next
    case False
    then obtain r where r: "x = cap + r" "0 < r" using less_imp_add_positive [of cap x] by auto
    have "(cap + r + cap - 1) div cap = Suc ((r + cap - 1) div cap)"
      using * r(2) div_add_self2 [of cap "r + cap - 1"] by (simp add: ac_simps)
    then show ?thesis using r by (simp add: blocks_for_def)
  qed
qed

lemma blocks_for_0 [simp]: "0 < cap \<Longrightarrow> blocks_for cap 0 = 0"
  by (simp add: blocks_for_def)

lemma of_nat_u64_inj: "i < 2 ^ 64 \<Longrightarrow> j < 2 ^ 64 \<Longrightarrow> (of_nat i :: u64) = of_nat j \<longleftrightarrow> i = j"
  by (simp add: word_unat_eq_iff unat_of_nat_small)

definition head_at :: "nat \<Rightarrow> nat" where
  "head_at hgt = (if hgt = 0 then 232 else 24)"

text \<open>Block \<open>i\<close> of a height whose \<open>ptrs\<close> pointers, counted from \<open>p\<close>, begin at \<open>ptr0\<close>.\<close>

definition pointer_block :: "nat \<Rightarrow> nat \<Rightarrow> gfs2_inode \<Rightarrow> u64 \<Rightarrow> nat \<Rightarrow> nat \<Rightarrow> bytes \<Rightarrow> bool" where
  "pointer_block hgt cap ip ptr0 ptrs p c \<longleftrightarrow> length c = head_at hgt + 8 * cap \<and>
     (\<forall>j < cap. get_be64 c (head_at hgt + 8 * j) = (if p + j < ptrs then ptr0 + of_nat (p + j) else 0)) \<and>
     (hgt = 0 \<longrightarrow> lgfs2_dinode_in inode_zero c = stored ip)"

lemma filemeta_blocks_spec:
  assumes cap: "head_at hgt + 8 * cap = unat (sd_bsize sdp)" "0 < cap"
  shows "length (b_data bh) = unat (sd_bsize sdp) \<Longrightarrow> ptrs \<le> p + fuel \<Longrightarrow> blocks_for cap (ptrs - p) < 2 ^ 64 \<Longrightarrow>
    (\<forall>i < blocks_for cap (ptrs - p). d (b_blocknr bh + of_nat i) \<noteq> None) \<Longrightarrow>
    \<exists>d' bh'. filemeta_blocks sdp ip hgt ptr0 ptrs fuel d bh p = Some (0, d', bh')
      \<and> b_blocknr bh' = b_blocknr bh + of_nat (blocks_for cap (ptrs - p)) \<and> length (b_data bh') = unat (sd_bsize sdp)
      \<and> dom d' = dom d \<and> (\<forall>x. (\<forall>i < blocks_for cap (ptrs - p). x \<noteq> b_blocknr bh + of_nat i) \<longrightarrow> d' x = d x)
      \<and> (\<forall>i < blocks_for cap (ptrs - p). \<exists>c. d' (b_blocknr bh + of_nat i) = Some c \<and> pointer_block hgt cap ip ptr0 ptrs (p + i * cap) c)"
proof (induction fuel arbitrary: d bh p)
  case 0
  then show ?case using cap by simp
next
  case (Suc fuel)
  show ?case
  proof (cases "p < ptrs")
    case False
    then show ?thesis using Suc.prems(1) cap(2) by simp
  next
    case True
    let ?b = "unat (sd_bsize sdp)" and ?buf = "if hgt = 0 then lgfs2_dinode_out ip (b_data bh)
      else copy_meta_header GFS2_METATYPE_IN GFS2_FORMAT_IN (b_data bh)"
    let ?N = "blocks_for cap (ptrs - p)" and ?q = "p + min cap (ptrs - p)"
    obtain c q where c: "lgfs2_fill_indir (head_at hgt) ?b ptr0 ptrs ?buf p = (c, q)" by fastforce
    have buf: "length ?buf = ?b" using Suc.prems(1) by simp
    note F = fill_indir [OF cap(1) buf, where ?ptr0.0 = ptr0 and n = ptrs and p = p, unfolded c fst_conv snd_conv]
    have blk: "pointer_block hgt cap ip ptr0 ptrs p c"
    proof -
      have "lgfs2_dinode_in inode_zero c = stored ip" if "hgt = 0"
      proof (rule dinode_in_stored)
        show "slice 0 232 c = slice 0 232 (lgfs2_dinode_out ip (b_data bh))"
          using F(4) [of 0 232] that by (simp add: head_at_def)
        show "232 \<le> length (b_data bh)" using Suc.prems(1) cap(1) that by (simp add: head_at_def)
      qed
      then show ?thesis using F(2,3) cap(1) by (auto simp: pointer_block_def)
    qed
    have N: "?N = Suc (blocks_for cap (ptrs - ?q))"
      using blocks_for_Suc [OF cap(2), of "ptrs - p"] True by simp
    let ?bh = "bh\<lparr>b_data := c, b_modified := False, b_blocknr := b_blocknr bh + 1\<rparr>" and ?d = "d(b_blocknr bh \<mapsto> c)"
    have here: "d (b_blocknr bh) \<noteq> None" using Suc.prems(4) N by (auto dest: spec [of _ 0])
    have nxt: "b_blocknr ?bh + of_nat i = b_blocknr bh + of_nat (Suc i)" for i by simp
    have step: "filemeta_blocks sdp ip hgt ptr0 ptrs (Suc fuel) d bh p = filemeta_blocks sdp ip hgt ptr0 ptrs fuel ?d ?bh ?q"
      using True c F(1) here by (simp add: head_at_def size_simps bwrite_def Let_def split: if_splits)
    have "\<exists>d' bh'. filemeta_blocks sdp ip hgt ptr0 ptrs fuel ?d ?bh ?q = Some (0, d', bh')
      \<and> b_blocknr bh' = b_blocknr ?bh + of_nat (blocks_for cap (ptrs - ?q)) \<and> length (b_data bh') = ?b
      \<and> dom d' = dom ?d \<and> (\<forall>x. (\<forall>i < blocks_for cap (ptrs - ?q). x \<noteq> b_blocknr ?bh + of_nat i) \<longrightarrow> d' x = ?d x)
      \<and> (\<forall>i < blocks_for cap (ptrs - ?q). \<exists>c. d' (b_blocknr ?bh + of_nat i) = Some c \<and> pointer_block hgt cap ip ptr0 ptrs (?q + i * cap) c)"
      using Suc.prems N F(2) cap(2) True by (intro Suc.IH) (auto simp: add.assoc)
    then obtain d' bh' where IH: "filemeta_blocks sdp ip hgt ptr0 ptrs fuel ?d ?bh ?q = Some (0, d', bh')"
      "b_blocknr bh' = b_blocknr ?bh + of_nat (blocks_for cap (ptrs - ?q))" "length (b_data bh') = ?b" "dom d' = dom ?d"
      "\<And>x. (\<forall>i < blocks_for cap (ptrs - ?q). x \<noteq> b_blocknr ?bh + of_nat i) \<Longrightarrow> d' x = ?d x"
      "\<And>i. i < blocks_for cap (ptrs - ?q) \<Longrightarrow> \<exists>c. d' (b_blocknr ?bh + of_nat i) = Some c \<and> pointer_block hgt cap ip ptr0 ptrs (?q + i * cap) c"
      by blast
    have "\<exists>c. d' (b_blocknr bh + of_nat i) = Some c \<and> pointer_block hgt cap ip ptr0 ptrs (p + i * cap) c" if i: "i < ?N" for i
    proof (cases i)
      case 0
      have "b_blocknr bh \<noteq> b_blocknr bh + of_nat (Suc j)" if "j < blocks_for cap (ptrs - ?q)" for j
        using of_nat_u64_inj [of 0 "Suc j"] that N Suc.prems(3) by simp
      then have "d' (b_blocknr bh) = Some c" using IH(5) [of "b_blocknr bh"] unfolding nxt by auto
      with 0 blk show ?thesis by simp
    next
      case (Suc j)
      then have j: "j < blocks_for cap (ptrs - ?q)" using i N by simp
      have "ptrs - p > cap"
      proof (rule ccontr)
        assume "\<not> cap < ptrs - p"
        then have "ptrs - ?q = 0" by simp
        with j cap(2) show False by simp
      qed
      then have "?q + j * cap = p + i * cap" using Suc by simp
      with IH(6) [OF j] Suc show ?thesis unfolding nxt by metis
    qed
    moreover have "d' x = d x" if "\<forall>i < ?N. x \<noteq> b_blocknr bh + of_nat i" for x
    proof -
      have "x \<noteq> b_blocknr bh" using that N by (auto dest: spec [of _ 0])
      moreover have "\<forall>i < blocks_for cap (ptrs - ?q). x \<noteq> b_blocknr ?bh + of_nat i"
        using that N unfolding nxt by (metis Suc_less_eq)
      ultimately show ?thesis using IH(5) [of x] by simp
    qed
    moreover have "dom d' = dom d" using IH(4) here by auto
    moreover have "b_blocknr bh' = b_blocknr bh + of_nat ?N" using IH(2) N by simp
    ultimately show ?thesis using step IH(1,3) by auto
  qed
qed


section \<open>A file of one extent\<close>

definition lev_ptrs :: "nat \<Rightarrow> nat \<Rightarrow> nat \<Rightarrow> nat \<Rightarrow> nat" where
  "lev_ptrs I H n k = level_pos I H (n - 1) k + 1"

text \<open>Where, from the inode on, the blocks of height \<open>k\<close> are; those of height \<open>H\<close> are the data.\<close>

fun lev_offs :: "nat \<Rightarrow> nat \<Rightarrow> nat \<Rightarrow> nat \<Rightarrow> nat" where
  "lev_offs I H n 0 = 0"
| "lev_offs I H n (Suc 0) = 1"
| "lev_offs I H n (Suc (Suc k)) = lev_offs I H n (Suc k) + lev_ptrs I H n k"

text \<open>
  The geometry of a file of \<open>n\<close> blocks: pointers fill the blocks, and the last block is in reach of
  the inode's pointers at the file's height.
\<close>

definition extent_geom :: "gfs2_sbd \<Rightarrow> gfs2_inode \<Rightarrow> nat \<Rightarrow> bool" where
  "extent_geom sdp ip n \<longleftrightarrow>
     (let b = unat (sd_bsize sdp); D = unat (sd_diptrs sdp); I = unat (sd_inptrs sdp); H = unat (i_height ip) in
      0 < D \<and> 232 + 8 * D = b \<and> 24 + 8 * I = b \<and> 0 < H \<and> H \<le> 10 \<and> 0 < n \<and> n < 2 ^ 32 \<and>
      level_pos I H (n - 1) 0 < D \<and> unat (in_addr (i_num ip)) + lev_offs I H n (Suc H) < 2 ^ 64)"

definition lev_cap :: "gfs2_sbd \<Rightarrow> nat \<Rightarrow> nat" where
  "lev_cap sdp k = unat (if k = 0 then sd_diptrs sdp else sd_inptrs sdp)"

lemma lev_offs_mono: "j \<le> k \<Longrightarrow> lev_offs I H n j \<le> lev_offs I H n k"
proof (induction k)
  case (Suc k)
  have "lev_offs I H n k \<le> lev_offs I H n (Suc k)" by (cases k) simp_all
  with Suc show ?case by (cases "j = Suc k") auto
qed simp

lemma level_pos_le: "level_pos I H n k \<le> n"
  by (simp add: level_pos_def)

lemma lev_blocks:
  assumes "extent_geom sdp ip n" "k < unat (i_height ip)"
  shows "lev_offs (unat (sd_inptrs sdp)) (unat (i_height ip)) n k
      + blocks_for (lev_cap sdp k) (lev_ptrs (unat (sd_inptrs sdp)) (unat (i_height ip)) n k)
    = lev_offs (unat (sd_inptrs sdp)) (unat (i_height ip)) n (Suc k)"
proof (cases k)
  case 0
  let ?D = "unat (sd_diptrs sdp)"
  obtain r where r: "?D = lev_ptrs (unat (sd_inptrs sdp)) (unat (i_height ip)) n 0 + r"
    using assms(1) le_Suc_ex [of "lev_ptrs (unat (sd_inptrs sdp)) (unat (i_height ip)) n 0" ?D]
    by (auto simp: extent_geom_def lev_ptrs_def Let_def)
  then have "blocks_for ?D (lev_ptrs (unat (sd_inptrs sdp)) (unat (i_height ip)) n 0) = 1"
    by (simp add: blocks_for_def lev_ptrs_def div_nat_eqI)
  with 0 show ?thesis by (simp add: lev_cap_def)
next
  case (Suc j)
  let ?I = "unat (sd_inptrs sdp)" and ?H = "unat (i_height ip)"
  have I: "0 < ?I" using assms(1) by (auto simp: extent_geom_def Let_def)
  have "(level_pos ?I ?H (n - 1) k + 1 + ?I - 1) div ?I = level_pos ?I ?H (n - 1) k div ?I + 1"
    using div_add_self2 [of ?I "level_pos ?I ?H (n - 1) k"] I by simp
  also have "\<dots> = lev_ptrs ?I ?H n j" using level_pos_Suc [of j ?H ?I "n - 1"] assms(2) Suc by (simp add: lev_ptrs_def)
  finally show ?thesis using Suc by (simp add: lev_cap_def blocks_for_def lev_ptrs_def)
qed

lemma filemeta_heights_spec:
  fixes sdp ip n
  defines "I \<equiv> unat (sd_inptrs sdp)" and "H \<equiv> unat (i_height ip)" and "addr \<equiv> in_addr (i_num ip)"
  assumes g: "extent_geom sdp ip n"
    and mp: "\<And>k. k < H \<Longrightarrow> unat (mp ! k) = level_pos I H (n - 1) k mod I"
  shows "k + m = H \<Longrightarrow> (if k = 0 then ptrs = 1 else unat ptrs = lev_ptrs I H n (k - 1)) \<Longrightarrow>
    b_blocknr bh = addr + of_nat (lev_offs I H n k) \<Longrightarrow> length (b_data bh) = unat (sd_bsize sdp) \<Longrightarrow>
    (\<forall>i. lev_offs I H n k \<le> i \<and> i < lev_offs I H n H \<longrightarrow> d (addr + of_nat i) \<noteq> None) \<Longrightarrow>
    \<exists>d'. filemeta_heights sdp ip mp [k..<H] (addr + of_nat (lev_offs I H n (Suc k))) ptrs d bh = Some (0, d') \<and> dom d' = dom d
      \<and> (\<forall>i < lev_offs I H n k. d' (addr + of_nat i) = d (addr + of_nat i))
      \<and> (\<forall>k'. k \<le> k' \<and> k' < H \<longrightarrow> (\<forall>i < blocks_for (lev_cap sdp k') (lev_ptrs I H n k'). \<exists>c.
            d' (addr + of_nat (lev_offs I H n k' + i)) = Some c
            \<and> pointer_block k' (lev_cap sdp k') ip (addr + of_nat (lev_offs I H n (Suc k'))) (lev_ptrs I H n k') (i * lev_cap sdp k') c))"
proof (induction m arbitrary: k ptrs bh d)
  case 0
  then show ?case by auto
next
  case (Suc m)
  have k: "k < H" using Suc.prems(1) by simp
  let ?P = "lev_ptrs I H n k" and ?o = "lev_offs I H n" and ?cap = "lev_cap sdp k"
  let ?N = "blocks_for ?cap ?P"
  have G: "0 < I" "level_pos I H (n - 1) 0 < I" "n < 2 ^ 32" "0 < n" "?o (Suc H) < 2 ^ 64"
    using g by (auto simp: extent_geom_def I_def H_def Let_def)
  have cap: "head_at k + 8 * ?cap = unat (sd_bsize sdp)" "0 < ?cap"
    using g by (auto simp: extent_geom_def lev_cap_def head_at_def Let_def)
  have N: "?o k + ?N = ?o (Suc k)" using lev_blocks [OF g, of k] k by (simp add: I_def H_def)
  have P: "?P \<le> n" using level_pos_le [of I H "n - 1" k] G(4) by (simp add: lev_ptrs_def)
  have oH: "?o j < 2 ^ 64" if "j \<le> Suc H" for j
    using lev_offs_mono [OF that, of I H n] G(5) by simp
  define ptrs' where "ptrs' = (ptrs - 1) * sd_inptrs sdp + mp ! k + 1"
  have ptrs': "unat ptrs' = ?P"
  proof (cases "k = 0")
    case True
    then have "ptrs' = mp ! 0 + 1" using Suc.prems(2) by (simp add: ptrs'_def)
    moreover have "unat (mp ! 0) = level_pos I H (n - 1) 0" using mp [of 0] k G(2) by simp
    ultimately have "unat ptrs' = level_pos I H (n - 1) 0 + 1"
      using P G(3) True by (simp only:) (subst unat_add_no_wrap, simp_all add: lev_ptrs_def)
    then show ?thesis using True by (simp add: lev_ptrs_def)
  next
    case False
    then have pos: "level_pos I H (n - 1) k div I = level_pos I H (n - 1) (k - 1)"
      using level_pos_Suc [of "k - 1" H I "n - 1"] k by simp
    have p1: "unat (ptrs - 1) = level_pos I H (n - 1) (k - 1)"
      using Suc.prems(2) False by (subst unat_sub) (simp_all add: lev_ptrs_def word_le_nat_alt)
    have whole: "level_pos I H (n - 1) (k - 1) * I + level_pos I H (n - 1) k mod I = level_pos I H (n - 1) k"
      by (simp only: pos [symmetric] div_mult_mod_eq)
    have lt: "level_pos I H (n - 1) k + 1 < 2 ^ 32" using P G(3) by (simp add: lev_ptrs_def)
    have "unat ((ptrs - 1) * sd_inptrs sdp) = level_pos I H (n - 1) (k - 1) * I"
      using whole lt by (subst unat_mult_no_wrap) (simp_all add: p1 I_def)
    then have "unat ((ptrs - 1) * sd_inptrs sdp + mp ! k) = level_pos I H (n - 1) k"
      using whole lt mp [OF k] by (subst unat_add_no_wrap) simp_all
    then show ?thesis unfolding ptrs'_def using lt by (subst unat_add_no_wrap) (simp_all add: lev_ptrs_def)
  qed
  have at: "addr + of_nat (?o k) + of_nat i = addr + of_nat (?o k + i)" for i by simp
  have Suc_le: "?o (Suc k) \<le> ?o H" using k by (intro lev_offs_mono) simp
  have "\<exists>d1 bh1. filemeta_blocks sdp ip k (addr + of_nat (?o (Suc k))) ?P ?P d bh 0 = Some (0, d1, bh1)
      \<and> b_blocknr bh1 = b_blocknr bh + of_nat (blocks_for ?cap (?P - 0)) \<and> length (b_data bh1) = unat (sd_bsize sdp)
      \<and> dom d1 = dom d \<and> (\<forall>x. (\<forall>i < blocks_for ?cap (?P - 0). x \<noteq> b_blocknr bh + of_nat i) \<longrightarrow> d1 x = d x)
      \<and> (\<forall>i < blocks_for ?cap (?P - 0). \<exists>c. d1 (b_blocknr bh + of_nat i) = Some c
          \<and> pointer_block k ?cap ip (addr + of_nat (?o (Suc k))) ?P (0 + i * ?cap) c)"
  proof (rule filemeta_blocks_spec [OF cap Suc.prems(4)])
    show "blocks_for ?cap (?P - 0) < 2 ^ 64" using N oH [of "Suc k"] k by simp
    show "\<forall>i < blocks_for ?cap (?P - 0). d (b_blocknr bh + of_nat i) \<noteq> None"
    proof (intro allI impI)
      fix i assume "i < blocks_for ?cap (?P - 0)"
      then have "?o k \<le> ?o k + i \<and> ?o k + i < ?o H" using N Suc_le by simp
      then show "d (b_blocknr bh + of_nat i) \<noteq> None" unfolding Suc.prems(3) at using Suc.prems(5) by blast
    qed
  qed simp
  then obtain d1 bh1 where B: "filemeta_blocks sdp ip k (addr + of_nat (?o (Suc k))) ?P ?P d bh 0 = Some (0, d1, bh1)"
    "b_blocknr bh1 = addr + of_nat (?o k) + of_nat ?N" "length (b_data bh1) = unat (sd_bsize sdp)" "dom d1 = dom d"
    "\<And>x. (\<forall>i < ?N. x \<noteq> addr + of_nat (?o k) + of_nat i) \<Longrightarrow> d1 x = d x"
    "\<And>i. i < ?N \<Longrightarrow> \<exists>c. d1 (addr + of_nat (?o k) + of_nat i) = Some c
          \<and> pointer_block k ?cap ip (addr + of_nat (?o (Suc k))) ?P (i * ?cap) c"
    unfolding Suc.prems(3) by auto
  have out: "d1 (addr + of_nat j) = d (addr + of_nat j)" if "j < ?o k \<or> ?o (Suc k) \<le> j" "j < 2 ^ 64" for j
  proof (rule B(5), intro allI impI)
    fix i assume i: "i < ?N"
    then have "j \<noteq> ?o k + i" "?o k + i < 2 ^ 64" using that N oH [of "Suc k"] k by auto
    then have "(of_nat j :: u64) \<noteq> of_nat (?o k + i)" using that(2) by (simp only: of_nat_u64_inj) simp
    then show "addr + of_nat j \<noteq> addr + of_nat (?o k) + of_nat i" by (simp add: add.assoc)
  qed
  have ptr0: "addr + of_nat (?o (Suc k)) + ucast ptrs' = addr + of_nat (?o (Suc (Suc k)))"
  proof -
    have "(ucast ptrs' :: u64) = of_nat ?P" by (simp only: ptrs' [symmetric] of_nat_unat_ucast)
    then show ?thesis by (cases k) simp_all
  qed
  have "\<exists>d'. filemeta_heights sdp ip mp [Suc k..<H] (addr + of_nat (?o (Suc (Suc k)))) ptrs' d1 bh1 = Some (0, d') \<and> dom d' = dom d1
      \<and> (\<forall>i < ?o (Suc k). d' (addr + of_nat i) = d1 (addr + of_nat i))
      \<and> (\<forall>k'. Suc k \<le> k' \<and> k' < H \<longrightarrow> (\<forall>i < blocks_for (lev_cap sdp k') (lev_ptrs I H n k'). \<exists>c.
            d' (addr + of_nat (?o k' + i)) = Some c
            \<and> pointer_block k' (lev_cap sdp k') ip (addr + of_nat (?o (Suc k'))) (lev_ptrs I H n k') (i * lev_cap sdp k') c))"
  proof (rule Suc.IH)
    show "Suc k + m = H" using Suc.prems(1) by simp
    show "if Suc k = 0 then ptrs' = 1 else unat ptrs' = lev_ptrs I H n (Suc k - 1)" using ptrs' by simp
    show "b_blocknr bh1 = addr + of_nat (?o (Suc k))" unfolding B(2) at N by (rule refl)
    show "length (b_data bh1) = unat (sd_bsize sdp)" by (rule B(3))
    show "\<forall>i. ?o (Suc k) \<le> i \<and> i < ?o H \<longrightarrow> d1 (addr + of_nat i) \<noteq> None"
      using Suc.prems(5) N B(4) by (metis (no_types, lifting) domIff le_add1 le_trans)
  qed
  then obtain d' where D: "filemeta_heights sdp ip mp [Suc k..<H] (addr + of_nat (?o (Suc (Suc k)))) ptrs' d1 bh1 = Some (0, d')"
    and dom: "dom d' = dom d1" and D2: "\<And>i. i < ?o (Suc k) \<Longrightarrow> d' (addr + of_nat i) = d1 (addr + of_nat i)"
    and D3: "\<And>k' i. Suc k \<le> k' \<Longrightarrow> k' < H \<Longrightarrow> i < blocks_for (lev_cap sdp k') (lev_ptrs I H n k') \<Longrightarrow> \<exists>c.
            d' (addr + of_nat (?o k' + i)) = Some c
            \<and> pointer_block k' (lev_cap sdp k') ip (addr + of_nat (?o (Suc k'))) (lev_ptrs I H n k') (i * lev_cap sdp k') c"
    by blast
  have run: "filemeta_heights sdp ip mp [k..<H] (addr + of_nat (?o (Suc k))) ptrs d bh = Some (0, d')"
    using D B(1) ptrs' k by (simp add: upt_conv_Cons ptrs'_def [symmetric] ptr0 Let_def)
  moreover have "dom d' = dom d" using dom B(4) by simp
  moreover have "\<forall>i < ?o k. d' (addr + of_nat i) = d (addr + of_nat i)"
    using D2 out N oH [of k] k by simp
  moreover have "\<exists>c. d' (addr + of_nat (?o k' + i)) = Some c
      \<and> pointer_block k' (lev_cap sdp k') ip (addr + of_nat (?o (Suc k'))) (lev_ptrs I H n k') (i * lev_cap sdp k') c"
    if "k \<le> k'" "k' < H" "i < blocks_for (lev_cap sdp k') (lev_ptrs I H n k')" for k' i
  proof (cases "k' = k")
    case True
    then have "d' (addr + of_nat (?o k + i)) = d1 (addr + of_nat (?o k + i))" using D2 [of "?o k + i"] that(3) N by simp
    with B(6) [of i] that(3) True show ?thesis unfolding at by simp
  next
    case False
    with that D3 show ?thesis by simp
  qed
  ultimately show ?case by blast
qed


section \<open>The map of the file\<close>

text \<open>What the blocks of the file's metadata hold on the device, after the write.\<close>

definition extent_on :: "gfs2_sbd \<Rightarrow> gfs2_inode \<Rightarrow> nat \<Rightarrow> device \<Rightarrow> bool" where
  "extent_on sdp ip n d \<longleftrightarrow>
     (let I = unat (sd_inptrs sdp); H = unat (i_height ip); addr = in_addr (i_num ip) in
      \<forall>k < H. \<forall>i < blocks_for (lev_cap sdp k) (lev_ptrs I H n k). \<exists>c.
        d (addr + of_nat (lev_offs I H n k + i)) = Some c
        \<and> pointer_block k (lev_cap sdp k) ip (addr + of_nat (lev_offs I H n (Suc k))) (lev_ptrs I H n k) (i * lev_cap sdp k) c)"

lemma write_filemeta_extent:
  assumes g: "extent_geom sdp ip n"
    and n: "unat ((i_size ip + ucast (sd_bsize sdp) - 1) div ucast (sd_bsize sdp)) = n"
    and d: "\<forall>i < lev_offs (unat (sd_inptrs sdp)) (unat (i_height ip)) n (unat (i_height ip)). d (in_addr (i_num ip) + of_nat i) \<noteq> None"
  shows "\<exists>d'. lgfs2_write_filemeta sdp d ip = Some (0, d') \<and> dom d' = dom d \<and> extent_on sdp ip n d'"
proof -
  let ?I = "unat (sd_inptrs sdp)" and ?H = "unat (i_height ip)" and ?addr = "in_addr (i_num ip)"
  let ?db = "(i_size ip + ucast (sd_bsize sdp) - 1) div ucast (sd_bsize sdp)"
  have G: "?H \<le> 10" "0 < ?I" "0 < n" using g by (auto simp: extent_geom_def Let_def)
  have n1: "unat (?db - 1) = n - 1" using n G(3) by (subst unat_sub) (simp_all add: word_le_nat_alt)
  obtain mp where mp: "find_metapath sdp ip (?db - 1) = Some mp"
    "\<And>k. k < ?H \<Longrightarrow> unat (mp ! k) = level_pos ?I ?H (n - 1) k mod ?I"
    using find_metapath_nth [OF G(1,2), of "?db - 1"] unfolding n1 by blast
  have "\<exists>d'. filemeta_heights sdp ip mp [0..<?H] (?addr + of_nat (lev_offs ?I ?H n (Suc 0))) 1 d (bget sdp ?addr) = Some (0, d') \<and> dom d' = dom d
      \<and> (\<forall>i < lev_offs ?I ?H n 0. d' (?addr + of_nat i) = d (?addr + of_nat i))
      \<and> (\<forall>k'. 0 \<le> k' \<and> k' < ?H \<longrightarrow> (\<forall>i < blocks_for (lev_cap sdp k') (lev_ptrs ?I ?H n k'). \<exists>c.
            d' (?addr + of_nat (lev_offs ?I ?H n k' + i)) = Some c
            \<and> pointer_block k' (lev_cap sdp k') ip (?addr + of_nat (lev_offs ?I ?H n (Suc k'))) (lev_ptrs ?I ?H n k') (i * lev_cap sdp k') c))"
    by (rule filemeta_heights_spec [OF g mp(2), where k = 0 and m = ?H]) (use d in simp_all)
  then show ?thesis
    using mp(1) by (auto simp: lgfs2_write_filemeta_def extent_on_def Let_def)
qed

lemma level_pos_mono: "m \<le> n \<Longrightarrow> level_pos I H m k \<le> level_pos I H n k"
  by (simp add: level_pos_def div_le_mono)

text \<open>The block of height \<open>k\<close> that leads to block \<open>lb\<close>, and its place there.\<close>

definition lev_idx :: "nat \<Rightarrow> nat \<Rightarrow> nat \<Rightarrow> nat \<Rightarrow> nat" where
  "lev_idx I H lb k = (if k = 0 then 0 else level_pos I H lb (k - 1))"

lemma lev_place:
  assumes g: "extent_geom sdp ip n" and k: "k < unat (i_height ip)" and lb: "lb < n"
  defines "I \<equiv> unat (sd_inptrs sdp)" and "H \<equiv> unat (i_height ip)"
  shows "level_pos I H lb k mod I < lev_cap sdp k"
    "lev_idx I H lb k * lev_cap sdp k + level_pos I H lb k mod I = level_pos I H lb k"
    "level_pos I H lb k < lev_ptrs I H n k"
proof -
  have D: "level_pos I H (n - 1) 0 < unat (sd_diptrs sdp)" "unat (sd_diptrs sdp) < I" "0 < I"
    using g by (auto simp: extent_geom_def I_def H_def Let_def)
  have mono: "level_pos I H lb j \<le> level_pos I H (n - 1) j" for j using lb by (intro level_pos_mono) simp
  then have z: "level_pos I H lb 0 < unat (sd_diptrs sdp)" using D(1) le_less_trans by blast
  show "level_pos I H lb k mod I < lev_cap sdp k"
    using z D by (auto simp: lev_cap_def I_def [symmetric])
  show "lev_idx I H lb k * lev_cap sdp k + level_pos I H lb k mod I = level_pos I H lb k"
  proof (cases k)
    case 0
    with z D show ?thesis by (simp add: lev_idx_def)
  next
    case (Suc j)
    then have q: "level_pos I H lb k div I = level_pos I H lb j" using level_pos_Suc [of j H I lb] k by (simp add: H_def)
    have "level_pos I H lb j * I + level_pos I H lb k mod I = level_pos I H lb k"
      by (simp only: q [symmetric] div_mult_mod_eq)
    with Suc show ?thesis by (simp add: lev_idx_def lev_cap_def I_def [symmetric])
  qed
  show "level_pos I H lb k < lev_ptrs I H n k" using mono [of k] by (simp add: lev_ptrs_def)
qed

text \<open>A pointer of the way down.\<close>

lemma lookup_pointer_block:
  assumes c: "pointer_block k cap ip ptr0 ptrs p (b_data (held v h))" and k: "k < 10"
    and j: "unat (mp ! k) = j" "j < cap" "p + j < ptrs" and nz: "ptr0 + of_nat (p + j) \<noteq> 0"
  shows "lookup_block_at False fs v h k mp False new = Some (fs, v, h, new, ptr0 + of_nat (p + j))"
proof -
  have "metapointer False k mp = head_at k + 8 * j" using j(1) by (simp add: metapointer_def head_at_def size_simps)
  moreover have "get_be64 (b_data (held v h)) (head_at k + 8 * j) = ptr0 + of_nat (p + j)"
    "length (b_data (held v h)) = head_at k + 8 * cap"
    using c j(2,3) by (auto simp: pointer_block_def)
  ultimately show ?thesis using k j(2) nz by (simp add: lookup_block_at_def)
qed

lemma lookup_pointer_none:
  assumes c: "pointer_block k cap ip ptr0 ptrs p (b_data (held v h))" and k: "k < 10"
    and j: "unat (mp ! k) = j" "j < cap" "ptrs \<le> p + j"
  shows "lookup_block_at False fs v h k mp False new = Some (fs, v, h, new, 0)"
proof -
  have "metapointer False k mp = head_at k + 8 * j" using j(1) by (simp add: metapointer_def head_at_def size_simps)
  moreover have "get_be64 (b_data (held v h)) (head_at k + 8 * j) = 0"
    "length (b_data (held v h)) = head_at k + 8 * cap"
    using c j(2,3) by (auto simp: pointer_block_def)
  ultimately show ?thesis using k j(2) by (simp add: lookup_block_at_def)
qed

text \<open>A buffer that was only read is released without a write.\<close>

fun clean :: "holder \<Rightarrow> bool" where
  "clean Own = True"
| "clean (Other bh) = (\<not> b_modified bh)"

lemma release_clean: "clean h \<Longrightarrow> release h fs = fs"
  by (cases h) (simp_all add: fs_brelse_def snd_brelse)

lemma addr_plus:
  assumes "unat addr + m < 2 ^ 64" "0 < m"
  shows "unat (addr + of_nat m :: u64) = unat addr + m" "addr + of_nat m \<noteq> 0" "addr + of_nat m \<noteq> addr"
proof -
  have m: "unat (of_nat m :: u64) = m" using assms by (intro unat_of_nat_small) simp
  then show s: "unat (addr + of_nat m :: u64) = unat addr + m"
    using assms by (subst unat_add_no_wrap) simp_all
  have "unat (addr + of_nat m) \<noteq> 0" using s assms by simp
  then show "addr + of_nat m \<noteq> 0" by (metis unat_0)
  have "unat (addr + of_nat m) \<noteq> unat addr" using s assms by simp
  then show "addr + of_nat m \<noteq> addr" by auto
qed

lemma descend_extent:
  fixes sdp ip n
  defines "I \<equiv> unat (sd_inptrs sdp)" and "H \<equiv> unat (i_height ip)" and "addr \<equiv> in_addr (i_num ip)"
  assumes g: "extent_geom sdp ip n" and on: "extent_on sdp ip n (fs_disk fs)" and lb: "lb < n"
    and mp: "\<And>k. k < H \<Longrightarrow> unat (mp ! k) = level_pos I H lb k mod I"
    and v: "i_num (vi v) = i_num ip"
  shows "k + m + 1 = H \<Longrightarrow> clean h \<Longrightarrow>
    pointer_block k (lev_cap sdp k) ip (addr + of_nat (lev_offs I H n (Suc k))) (lev_ptrs I H n k) (lev_idx I H lb k * lev_cap sdp k) (b_data (held v h)) \<Longrightarrow>
    \<exists>h' db'. block_map_descend False mp False [k..<H - 1] fs v h False db = Some (fs, v, Some h', False, db') \<and> clean h' \<and>
      pointer_block (H - 1) (lev_cap sdp (H - 1)) ip (addr + of_nat (lev_offs I H n H)) n (lev_idx I H lb (H - 1) * lev_cap sdp (H - 1)) (b_data (held v h'))"
proof (induction m arbitrary: k h db)
  case 0
  then have "lev_ptrs I H n k = n" "Suc k = H" using g level_pos_last [of H I "n - 1"]
    by (auto simp: lev_ptrs_def extent_geom_def Let_def)
  with 0 show ?case by auto
next
  case (Suc m)
  have k: "k < H" "Suc k < H" "H \<le> 10" using Suc.prems(1) g by (auto simp: extent_geom_def H_def Let_def)
  note P = lev_place [OF g k(1) [unfolded H_def] lb, folded I_def H_def]
  let ?x = "lev_offs I H n (Suc k) + level_pos I H lb k"
  have x: "0 < ?x" "unat addr + ?x < 2 ^ 64"
  proof -
    have "1 \<le> lev_offs I H n (Suc k)" using lev_offs_mono [of "Suc 0" "Suc k" I H n] by simp
    then show "0 < ?x" by simp
    have "?x \<le> lev_offs I H n (Suc (Suc k))" using P(3) by simp
    also have "\<dots> \<le> lev_offs I H n (Suc H)" using k by (intro lev_offs_mono) simp
    finally show "unat addr + ?x < 2 ^ 64" using g by (simp add: extent_geom_def addr_def I_def H_def Let_def)
  qed
  note X = addr_plus [OF x(2,1)]
  have val: "addr + of_nat (lev_offs I H n (Suc k)) + of_nat (lev_idx I H lb k * lev_cap sdp k + level_pos I H lb k mod I) = addr + of_nat ?x"
    unfolding P(2) by simp
  have look: "lookup_block_at False fs v h k mp False False = Some (fs, v, h, False, addr + of_nat ?x)"
    using lookup_pointer_block [OF Suc.prems(3), of mp "level_pos I H lb k mod I"] mp [OF k(1)] P k X(2)
    unfolding val by simp
  have "level_pos I H lb k < blocks_for (lev_cap sdp (Suc k)) (lev_ptrs I H n (Suc k))"
    using lev_blocks [OF g, of "Suc k"] P(3) k by (simp add: I_def H_def)
  then obtain c where c: "fs_disk fs (addr + of_nat ?x) = Some c"
    "pointer_block (Suc k) (lev_cap sdp (Suc k)) ip (addr + of_nat (lev_offs I H n (Suc (Suc k)))) (lev_ptrs I H n (Suc k)) (level_pos I H lb k * lev_cap sdp (Suc k)) c"
    using on k(2) unfolding extent_on_def I_def H_def addr_def Let_def by blast
  define bh where "bh = \<lparr>b_blocknr = addr + of_nat ?x, b_data = c, b_modified = False\<rparr>"
  have rd: "bread (fs_disk fs) (addr + of_nat ?x) = Some bh" using c(1) by (simp add: bread_def bh_def)
  have "block_map_descend False mp False [k..<H - 1] fs v h False db
      = block_map_descend False mp False [Suc k..<H - 1] fs v (Other bh) False (addr + of_nat ?x)"
    using k look release_clean [OF Suc.prems(2)] X(2,3) rd v by (simp add: upt_conv_Cons addr_def del: of_nat_add)
  moreover have "\<exists>h' db'. block_map_descend False mp False [Suc k..<H - 1] fs v (Other bh) False (addr + of_nat ?x) = Some (fs, v, Some h', False, db') \<and> clean h' \<and>
      pointer_block (H - 1) (lev_cap sdp (H - 1)) ip (addr + of_nat (lev_offs I H n H)) n (lev_idx I H lb (H - 1) * lev_cap sdp (H - 1)) (b_data (held v h'))"
    using c(2) Suc.prems(1) by (intro Suc.IH) (simp_all add: bh_def lev_idx_def)
  ultimately show ?case by simp
qed


lemma ucast_of_nat_u32: "n < 2 ^ 32 \<Longrightarrow> (ucast (of_nat n :: u32) :: u64) = of_nat n"
  by (simp add: word_unat_eq_iff unat_u32_u64 unat_of_nat_small)

lemma extent_scan_run:
  assumes c: "pointer_block e cap ip ptr0 n p (b_data (held v h))" and e: "e < 10" "length mp = 10"
    and b: "n < 2 ^ 32" "cap < 2 ^ 32" "unat ptr0 + n < 2 ^ 64" "0 < unat ptr0"
  shows "i0 < i \<Longrightarrow> i \<le> cap \<Longrightarrow> i \<le> n - p \<Longrightarrow> extent_scan False fs v h e mp (ptr0 + of_nat (p + i0)) [i..<cap] (of_nat (i - i0))
    = Some (of_nat (min cap (n - p) - i0))"
proof (induction "cap - i" arbitrary: i)
  case 0
  then show ?case by (simp add: min_def)
next
  case (Suc m)
  then have i: "i < cap" by simp
  have mpi: "unat (mp[e := of_nat i] ! e) = i" using e i b(2) by (simp add: unat_of_nat_small)
  have nz: "ptr0 + of_nat x \<noteq> 0" if "x \<le> n" for x
  proof -
    have "unat (ptr0 + of_nat x) = unat ptr0 + x"
      using that b by (subst unat_add_no_wrap) (simp_all add: unat_of_nat_small)
    then show ?thesis using b(4) by auto
  qed
  have "(ucast (of_nat (i - i0) :: u32) :: u64) = of_nat (i - i0)" using i b(2) by (intro ucast_of_nat_u32) simp
  moreover have "p + i = p + i0 + (i - i0)" using Suc.prems(1) by simp
  ultimately have sum: "ptr0 + of_nat (p + i0) + ucast (of_nat (i - i0) :: u32) = ptr0 + of_nat (p + i)"
    by (metis of_nat_add add.assoc)
  show ?case
  proof (cases "i < n - p")
    case True
    then have "lookup_block_at False fs v h e (mp[e := of_nat i]) False False = Some (fs, v, h, False, ptr0 + of_nat (p + i))"
      using nz [of "p + i"] by (intro lookup_pointer_block [OF c e(1) mpi i]) simp_all
    moreover have "extent_scan False fs v h e mp (ptr0 + of_nat (p + i0)) [Suc i..<cap] (of_nat (Suc i - i0)) = Some (of_nat (min cap (n - p) - i0))"
      using Suc.hyps(2) Suc.prems True by (intro Suc.hyps(1)) simp_all
    moreover have "(of_nat (i - i0) :: u32) + 1 = of_nat (Suc i - i0)" using Suc.prems(1) by (simp add: Suc_diff_le)
    ultimately show ?thesis using i sum by (simp add: upt_conv_Cons del: of_nat_add)
  next
    case False
    then have "lookup_block_at False fs v h e (mp[e := of_nat i]) False False = Some (fs, v, h, False, 0)"
      by (intro lookup_pointer_none [OF c e(1) mpi i]) simp
    moreover have "ptr0 + of_nat (p + i0) + ucast (of_nat (i - i0) :: u32) \<noteq> 0"
      unfolding sum using False Suc.prems by (intro nz) simp
    moreover have "min cap (n - p) = i" using False Suc.prems i by simp
    ultimately show ?thesis using i by (simp add: upt_conv_Cons del: of_nat_add)
  qed
qed

lemma find_upt_le: "P m \<Longrightarrow> m < l \<Longrightarrow> (case find P [0..<l] of Some k \<Rightarrow> k | None \<Rightarrow> l) \<le> m" for m :: nat
  by (auto simp: find_upt_Some find_upt_None split: option.split) (meson not_le)

lemma height_enough:
  assumes "\<not> S_ISDIR (i_mode ip)" "m < unat (sd_max_height sdp)" "sz \<le> sd_heightsize sdp ! m" "i_size ip \<le> sd_heightsize sdp ! m"
  shows "calc_tree_height sdp ip sz \<le> m"
  using assms find_upt_le [of "\<lambda>k. (if sz < i_size ip then i_size ip else sz) \<le> sd_heightsize sdp ! k" m "unat (sd_max_height sdp)"]
  by (simp add: calc_tree_height_def)

lemma stored_fields [simp]:
  "i_num (stored ip) = i_num ip" "i_height (stored ip) = i_height ip" "i_mode (stored ip) = i_mode ip" "i_size (stored ip) = i_size ip"
  by (simp_all add: stored_def)

text \<open>A height that holds the whole of the file's blocks.\<close>

definition height_fits :: "gfs2_sbd \<Rightarrow> gfs2_inode \<Rightarrow> nat \<Rightarrow> bool" where
  "height_fits sdp ip n \<longleftrightarrow> \<not> S_ISDIR (i_mode ip) \<and> unat (i_height ip) < unat (sd_max_height sdp) \<and>
     i_size ip \<le> sd_heightsize sdp ! unat (i_height ip) \<and>
     n * unat (sd_bsize sdp) \<le> unat (sd_heightsize sdp ! unat (i_height ip))"

lemma block_map_extent:
  fixes fs ip n
  defines "sdp \<equiv> fs_sdp fs" and "I \<equiv> unat (sd_inptrs (fs_sdp fs))" and "H \<equiv> unat (i_height ip)" and "addr \<equiv> in_addr (i_num ip)"
  assumes g: "extent_geom sdp ip n" and on: "extent_on sdp ip n (fs_disk fs)" and lb: "lb < n"
    and fits: "height_fits sdp ip n" and v: "vi v = stored ip" "fs_disk fs addr = Some (b_data (vbh v))"
  shows "block_map fs v (of_nat lb) False want False = Some (fs, v, False, addr + of_nat (lev_offs I H n H + lb),
      if want then of_nat (min (lev_cap sdp (H - 1) - (level_pos I H lb (H - 1) mod I)) (n - lb)) else 0)"
proof -
  have G: "0 < H" "H \<le> 10" "0 < I" "n < 2 ^ 32" "unat addr + lev_offs I H n (Suc H) < 2 ^ 64"
    using g by (auto simp: extent_geom_def I_def H_def sdp_def addr_def Let_def)
  have lb64: "unat (of_nat lb :: u64) = lb" using lb G(4) by (intro unat_of_nat_small) simp
  have "calc_tree_height sdp (vi v) ((of_nat lb + 1) * ucast (sd_bsize sdp)) \<le> H"
  proof -
    have "(lb + 1) * unat (sd_bsize sdp) \<le> n * unat (sd_bsize sdp)" using lb by (intro mult_le_mono1) simp
    moreover have le: "n * unat (sd_bsize sdp) \<le> unat (sd_heightsize sdp ! H)" using fits by (simp add: height_fits_def H_def)
    ultimately have "(lb + 1) * unat (sd_bsize sdp) < 2 ^ 64" using u64_lt [of "sd_heightsize sdp ! H"] by simp
    moreover have "unat (of_nat lb + 1 :: u64) = lb + 1" using lb G(4) by (subst unat_add_no_wrap) (simp_all add: lb64)
    ultimately have "unat ((of_nat lb + 1) * ucast (sd_bsize sdp) :: u64) = (lb + 1) * unat (sd_bsize sdp)"
      by (subst unat_mult_no_wrap) (simp_all add: unat_u32_u64)
    then have "(of_nat lb + 1) * ucast (sd_bsize sdp) \<le> sd_heightsize sdp ! H"
      using le \<open>(lb + 1) * unat (sd_bsize sdp) \<le> n * unat (sd_bsize sdp)\<close> by (simp add: word_le_nat_alt)
    then show ?thesis using fits v(1) by (intro height_enough) (simp_all add: height_fits_def H_def)
  qed
  then have hgt: "\<not> unat (i_height (vi v)) < calc_tree_height sdp (vi v) ((of_nat lb + 1) * ucast (sd_bsize sdp))"
    using v(1) by (simp add: H_def)
  obtain mp where mp: "find_metapath sdp (vi v) (of_nat lb) = Some mp" "length mp = 10"
    "\<And>k. k < H \<Longrightarrow> unat (mp ! k) = level_pos I H lb k mod I"
    using find_metapath_nth [of "vi v" sdp "of_nat lb"] G v(1) unfolding lb64 by (auto simp: H_def I_def sdp_def)
  note D = descend_extent [OF g on lb, folded I_def [folded sdp_def] H_def addr_def, where mp = mp and v = v and k = 0 and m = "H - 1" and h = Own and db = 0]
  have first: "pointer_block 0 (lev_cap sdp 0) ip (addr + of_nat (lev_offs I H n (Suc 0))) (lev_ptrs I H n 0) (lev_idx I H lb 0 * lev_cap sdp 0) (b_data (held v Own))"
  proof -
    have "0 < blocks_for (lev_cap sdp 0) (lev_ptrs I H n 0)"
      using lev_blocks [OF g, of 0] G(1) by (simp add: I_def sdp_def H_def)
    then obtain c where "fs_disk fs (addr + of_nat (lev_offs I H n 0 + 0)) = Some c"
      "pointer_block 0 (lev_cap sdp 0) ip (addr + of_nat (lev_offs I H n (Suc 0))) (lev_ptrs I H n 0) (0 * lev_cap sdp 0) c"
      using on G(1) unfolding extent_on_def I_def H_def addr_def sdp_def Let_def by blast
    then show ?thesis using v(2) by (simp add: lev_idx_def)
  qed
  obtain h db where desc: "block_map_descend False mp False [0..<H - 1] fs v Own False 0 = Some (fs, v, Some h, False, db)" "clean h"
    "pointer_block (H - 1) (lev_cap sdp (H - 1)) ip (addr + of_nat (lev_offs I H n H)) n (lev_idx I H lb (H - 1) * lev_cap sdp (H - 1)) (b_data (held v h))"
    using D mp(3) first G(1) v(1) by (auto simp: I_def sdp_def)
  have "H - 1 < H" using G(1) by simp
  note P = lev_place [OF g this [unfolded H_def] lb, folded I_def [folded sdp_def] H_def, folded sdp_def]
  let ?j = "level_pos I H lb (H - 1) mod I" and ?p = "lev_idx I H lb (H - 1) * lev_cap sdp (H - 1)"
  let ?ptr0 = "addr + of_nat (lev_offs I H n H)"
  have pj: "?p + ?j = lb" "?j < lev_cap sdp (H - 1)" using P level_pos_last [OF G(1), of I lb] by (simp_all add: I_def sdp_def)
  have n_last: "lev_offs I H n (Suc H) = lev_offs I H n H + n"
    using G(1) g level_pos_last [OF G(1), of I "n - 1"] by (cases H) (auto simp: lev_ptrs_def extent_geom_def Let_def)
  have "1 \<le> lev_offs I H n H" using lev_offs_mono [of "Suc 0" H I H n] G(1) by simp
  then have ptr0: "unat ?ptr0 = unat addr + lev_offs I H n H" "unat ?ptr0 + n < 2 ^ 64" "0 < unat ?ptr0"
    using addr_plus(1) [of addr "lev_offs I H n H"] G(5) n_last by simp_all
  have nz: "?ptr0 + of_nat lb \<noteq> 0"
  proof -
    have "unat (?ptr0 + of_nat lb) = unat ?ptr0 + lb" using ptr0(2) lb by (subst unat_add_no_wrap) (simp_all add: lb64)
    then show ?thesis using ptr0(3) by auto
  qed
  have mpj: "unat (mp ! (H - 1)) = ?j" using mp(3) G(1) by simp
  have look: "lookup_block_at False fs v h (H - 1) mp False False = Some (fs, v, h, False, ?ptr0 + of_nat lb)"
    using lookup_pointer_block [OF desc(3) _ mpj pj(2), of fs False, unfolded pj(1)] lb nz G(2) by simp
  have cap32: "lev_cap sdp (H - 1) < 2 ^ 32" using u32_lt by (simp add: lev_cap_def)
  have scan: "extent_scan False fs v h (H - 1) mp (?ptr0 + of_nat lb) [Suc ?j..<lev_cap sdp (H - 1)] (of_nat (Suc ?j - ?j))
      = Some (of_nat (min (lev_cap sdp (H - 1)) (n - ?p) - ?j))"
    using extent_scan_run [OF desc(3) _ mp(2) G(4) cap32 ptr0(2,3), of ?j "Suc ?j" fs, unfolded pj(1)] pj lb G(2) by simp
  have "min (lev_cap sdp (H - 1)) (n - ?p) - ?j = min (lev_cap sdp (H - 1) - ?j) (n - lb)"
    using pj(1) by linarith
  then have scan': "extent_scan False fs v h (H - 1) mp (?ptr0 + of_nat lb) [Suc ?j..<lev_cap sdp (H - 1)] 1
      = Some (of_nat (min (lev_cap sdp (H - 1) - ?j) (n - lb)))" using scan by simp
  have sum: "?ptr0 + of_nat lb = addr + of_nat (lev_offs I H n H + lb)" by simp
  have i: "i_height (vi v) \<noteq> 0" "unat (i_height (vi v)) = H" using G(1) v(1) by (auto simp: H_def)
  have dir: "\<not> S_ISDIR (i_mode (vi v))" using fits v(1) by (simp add: height_fits_def)
  have cap: "\<not> H \<le> Suc 0 \<Longrightarrow> unat (sd_inptrs sdp) = lev_cap sdp (H - 1)" "unat (sd_diptrs sdp) = lev_cap sdp 0"
    by (simp_all add: lev_cap_def)
  show ?thesis
    unfolding block_map_def block_map_at_def sum [symmetric]
    using i dir hgt mp(1) desc(1,2) look scan' nz mpj cap release_clean [OF desc(2), of fs]
    by (cases "H \<le> Suc 0"; cases want) (simp_all add: sdp_def Let_def del: of_nat_add)
qed

section \<open>The blocks a file needs\<close>

lemma lev_offs_sum: "lev_offs I H n (Suc k) = 1 + (\<Sum>j < k. lev_ptrs I H n j)"
  by (induction k) simp_all

lemma level_pos_mono_level: "0 < I \<Longrightarrow> j \<le> k \<Longrightarrow> level_pos I H n j \<le> level_pos I H n k"
  by (simp add: level_pos_def div_le_mono2 power_increasing Suc_le_eq)

text \<open>\<open>lgfs2_space_for_data\<close> counts the blocks of the heights from the data up.\<close>

lemma space_loop_levels:
  assumes I: "0 < I" "I < 2 ^ 32" and n: "0 < n" "n < 2 ^ 32"
    and D: "lev_ptrs I H n 0 \<le> D" "D < 2 ^ 32" "\<And>k. 0 < k \<Longrightarrow> k < H \<Longrightarrow> D < lev_ptrs I H n k"
  shows "k < H \<Longrightarrow> space_loop (of_nat D) (of_nat I) (of_nat (lev_ptrs I H n k)) b
    = Some (b + of_nat (\<Sum>j < k. lev_ptrs I H n j))"
proof (induction k arbitrary: b)
  have le: "lev_ptrs I H n j \<le> n" for j using level_pos_le [of I H "n - 1" j] n(1) by (simp add: lev_ptrs_def)
  have u: "unat (of_nat m :: u64) = m" if "m < 2 ^ 33" for m using that by (intro unat_of_nat_small) simp
  {
    case 0
    have "\<not> (of_nat D :: u64) < of_nat (lev_ptrs I H n 0)"
      using D(1,2) le [of 0] n(2) by (simp add: word_less_nat_alt u)
    then show ?case by (subst space_loop.simps) simp
  next
    case (Suc k)
    have lt: "(of_nat D :: u64) < of_nat (lev_ptrs I H n (Suc k))"
      using D(2) D(3) [of "Suc k"] le [of "Suc k"] n(2) Suc.prems by (simp add: word_less_nat_alt u)
    have "unat (of_nat (lev_ptrs I H n (Suc k)) + of_nat I - 1 :: u64) = lev_ptrs I H n (Suc k) + I - 1"
    proof -
      have "of_nat (lev_ptrs I H n (Suc k)) + of_nat I - 1 = (of_nat (lev_ptrs I H n (Suc k) + I - 1) :: u64)"
        using I(1) by (simp add: of_nat_diff)
      then show ?thesis using u [of "lev_ptrs I H n (Suc k) + I - 1"] le [of "Suc k"] n(2) I(2) by simp
    qed
    then have "unat ((of_nat (lev_ptrs I H n (Suc k)) + of_nat I - 1) div of_nat I :: u64) = (lev_ptrs I H n (Suc k) + I - 1) div I"
      using I(2) by (simp add: unat_div u)
    also have "\<dots> = lev_ptrs I H n k"
      using level_pos_Suc [OF Suc.prems, of I "n - 1"] div_add_self2 [of I "level_pos I H (n - 1) (Suc k)"] I(1)
      by (simp add: lev_ptrs_def)
    also have "\<dots> = unat (of_nat (lev_ptrs I H n k) :: u64)" using u [of "lev_ptrs I H n k"] le [of k] n(2) by simp
    finally have "(of_nat (lev_ptrs I H n (Suc k)) + of_nat I - 1) div of_nat I = (of_nat (lev_ptrs I H n k) :: u64)"
      by (simp only: word_unat_eq_iff)
    then show ?case
      using Suc.IH [of "b + of_nat (lev_ptrs I H n k)"] Suc.prems lt
      by (subst space_loop.simps) (simp add: ac_simps)
  }
qed

section \<open>Properties\<close>

text \<open>C6. A file that \<open>lgfs2_write_filemeta\<close> lays out as one extent is mapped right. For every height and
  every block of the file, after the metadata is written and the inode read back, \<open>block_map\<close> walks from
  the inode down the indirect blocks, changes nothing and returns the data blocks in order: block
  \<open>lb\<close> of the file is \<open>lb\<close> blocks after the last metadata block, and \<open>extlen\<close> is the rest of the
  pointers in its indirect block or the rest of the file, whichever is less.\<close>

theorem extent_file_mapped:
  assumes "extent_geom sdp ip n" "height_fits sdp ip n"
    and "unat ((i_size ip + ucast (sd_bsize sdp) - 1) div ucast (sd_bsize sdp)) = n"
    and "\<forall>i < lev_offs (unat (sd_inptrs sdp)) (unat (i_height ip)) n (unat (i_height ip)). d (in_addr (i_num ip) + of_nat i) \<noteq> None"
    and "lb < n"
  shows "\<exists>d' v. lgfs2_write_filemeta sdp d ip = Some (0, d')
    \<and> lgfs2_inode_read \<lparr>fs_sdp = sdp, fs_rgtree = t, fs_disk = d'\<rparr> (in_addr (i_num ip)) = Some v \<and> vi v = stored ip
    \<and> block_map \<lparr>fs_sdp = sdp, fs_rgtree = t, fs_disk = d'\<rparr> v (of_nat lb) False True False
      = Some (\<lparr>fs_sdp = sdp, fs_rgtree = t, fs_disk = d'\<rparr>, v, False,
          in_addr (i_num ip) + of_nat (lev_offs (unat (sd_inptrs sdp)) (unat (i_height ip)) n (unat (i_height ip)) + lb),
          of_nat (min (lev_cap sdp (unat (i_height ip) - 1)
              - level_pos (unat (sd_inptrs sdp)) (unat (i_height ip)) lb (unat (i_height ip) - 1) mod unat (sd_inptrs sdp)) (n - lb)))"
proof -
  let ?addr = "in_addr (i_num ip)"
  obtain d' where d': "lgfs2_write_filemeta sdp d ip = Some (0, d')" "extent_on sdp ip n d'"
    using write_filemeta_extent [OF assms(1,3,4)] by metis
  let ?fs = "\<lparr>fs_sdp = sdp, fs_rgtree = t, fs_disk = d'\<rparr>"
  have H: "0 < unat (i_height ip)" using assms(1) by (auto simp: extent_geom_def Let_def)
  have "0 < blocks_for (lev_cap sdp 0) (lev_ptrs (unat (sd_inptrs sdp)) (unat (i_height ip)) n 0)"
    using lev_blocks [OF assms(1) H] by simp
  then obtain c where c: "d' (?addr + of_nat (lev_offs (unat (sd_inptrs sdp)) (unat (i_height ip)) n 0 + 0)) = Some c"
    "lgfs2_dinode_in inode_zero c = stored ip"
    using d'(2) H unfolding extent_on_def Let_def pointer_block_def by blast
  define v where "v = \<lparr>vi = stored ip, vbh = \<lparr>b_blocknr = ?addr, b_data = c, b_modified = False\<rparr>, vown = True\<rparr>"
  have v: "lgfs2_inode_read ?fs ?addr = Some v" "vi v = stored ip" "d' ?addr = Some (b_data (vbh v))"
    using c by (simp_all add: lgfs2_inode_read_def bread_def lgfs2_inode_get_def v_def)
  show ?thesis
    using block_map_extent [of ?fs ip n lb v True] assms(1,2,5) d' v by auto
qed

text \<open>A file of 100 blocks of 512 bytes: the inode, two indirect blocks, the data.\<close>

definition sbd_heights :: gfs2_sbd where
  "sbd_heights = sbd_example\<lparr>sd_heightsize := [280, 17920, 1093120], sd_max_height := 3\<rparr>"

definition inode_example :: gfs2_inode where
  "inode_example = inode_zero\<lparr>i_num := \<lparr>in_formal_ino = 5, in_addr = 1000\<rparr>, i_size := 51200, i_height := 2, i_mode := 0x8000\<rparr>"

lemma inode_example_fields [simp]:
  "sd_inptrs sbd_heights = 61" "sd_diptrs sbd_heights = 35" "sd_bsize sbd_heights = 512" "sd_max_height sbd_heights = 3"
  "i_height inode_example = 2" "in_addr (i_num inode_example) = 1000" "i_size inode_example = 51200"
  "sd_heightsize sbd_heights = [280, 17920, 1093120]" "i_mode inode_example = 0x8000"
  by (simp_all add: sbd_heights_def sbd_example_def inode_example_def)

lemma inode_example_offs:
  "lev_offs 61 2 100 3 = 103" "lev_offs 61 2 100 2 = 3" "level_pos 61 2 70 (Suc 0) = 70" "lev_cap sbd_heights (Suc 0) = 61"
  "level_pos 61 2 99 0 = 1" "lev_ptrs 61 2 100 (Suc 0) = 100"
proof -
  have "lev_offs 61 2 100 (Suc (Suc 0)) = 3" "lev_offs 61 2 100 (Suc (Suc (Suc 0))) = 103"
    by (simp_all add: level_pos_def lev_ptrs_def)
  then show "lev_offs 61 2 100 2 = 3" "lev_offs 61 2 100 3 = 103" by (simp_all only: numeral_2_eq_2 numeral_3_eq_3)
qed (simp_all add: level_pos_def lev_ptrs_def lev_cap_def)

lemma inode_example_geom:
  "extent_geom sbd_heights inode_example 100" "height_fits sbd_heights inode_example 100"
  by (simp_all add: extent_geom_def height_fits_def S_ISDIR_def inode_example_offs del: lev_offs.simps)

theorem extent_file_mapped_witness:
  "\<exists>d' v. lgfs2_write_filemeta sbd_heights device_example inode_example = Some (0, d')
    \<and> block_map \<lparr>fs_sdp = sbd_heights, fs_rgtree = Leaf, fs_disk = d'\<rparr> v 70 False True False
      = Some (\<lparr>fs_sdp = sbd_heights, fs_rgtree = Leaf, fs_disk = d'\<rparr>, v, False, 1073, 30)"
proof -
  have dev: "device_example (1000 + of_nat i) \<noteq> None" if "i < 3" for i
  proof -
    have "i = 0 \<or> i = 1 \<or> i = 2" using that by linarith
    then show ?thesis by (auto simp: device_example_def)
  qed
  show ?thesis
    using extent_file_mapped [OF inode_example_geom, of device_example 70 Leaf] dev
    by (auto simp: inode_example_offs simp del: lev_offs.simps)
qed

text \<open>C23. For a file that does not fit beside its inode and whose height is the least one that holds it,
  \<open>lgfs2_space_for_data\<close> returns, and its count is exact: the inode, the indirect blocks of every
  height that \<open>lgfs2_write_filemeta\<close> writes, and the data.\<close>

theorem space_for_data_exact:
  assumes "extent_geom sdp ip n"
    and "unat ((bytes + ucast (sd_bsize sdp) - 1) div ucast (sd_bsize sdp)) = n"
    and "ucast (sd_bsize sdp) - 232 < bytes"
    and "\<And>k. 0 < k \<Longrightarrow> k < unat (i_height ip) \<Longrightarrow> unat (sd_diptrs sdp) < lev_ptrs (unat (sd_inptrs sdp)) (unat (i_height ip)) n k"
  shows "lgfs2_space_for_data sdp (sd_bsize sdp) bytes
    = Some (of_nat (lev_offs (unat (sd_inptrs sdp)) (unat (i_height ip)) n (Suc (unat (i_height ip)))))"
proof -
  let ?I = "unat (sd_inptrs sdp)" and ?H = "unat (i_height ip)" and ?D = "unat (sd_diptrs sdp)"
  have G: "0 < ?I" "0 < ?H" "0 < n" "n < 2 ^ 32" "lev_ptrs ?I ?H n 0 \<le> ?D"
    using assms(1) by (auto simp: extent_geom_def lev_ptrs_def Let_def)
  have last: "lev_ptrs ?I ?H n (?H - 1) = n" using level_pos_last [OF G(2), of ?I "n - 1"] G(3) by (simp add: lev_ptrs_def)
  have blks: "(bytes + ucast (sd_bsize sdp) - 1) div ucast (sd_bsize sdp) = of_nat n"
    by (metis assms(2) of_nat_unat ucast_id)
  have loop: "space_loop (of_nat ?D) (of_nat ?I) (of_nat n) (of_nat n) = Some (of_nat n + of_nat (\<Sum>j < ?H - 1. lev_ptrs ?I ?H n j))"
    using space_loop_levels [OF G(1) _ G(3,4,5) _ assms(4), of "?H - 1" "of_nat n"] u32_lt [of "sd_inptrs sdp"] u32_lt [of "sd_diptrs sdp"] G(2) last
    by simp
  have "lev_offs ?I ?H n (Suc ?H) = Suc (n + (\<Sum>j < ?H - 1. lev_ptrs ?I ?H n j))"
    using G(2) last by (cases ?H) (simp_all add: lev_offs_sum del: lev_offs.simps)
  then show ?thesis
    using loop assms(3) unfolding lgfs2_space_for_data_def blks Let_def
    by (simp add: size_simps not_le [symmetric] of_nat_unat_ucast del: lev_offs.simps)
qed

theorem space_for_data_exact_witness:
  "lgfs2_space_for_data sbd_heights 512 51200 = Some 103"
proof -
  have "unat (sd_diptrs sbd_heights) < lev_ptrs (unat (sd_inptrs sbd_heights)) (unat (i_height inode_example)) 100 k"
    if "0 < k" "k < unat (i_height inode_example)" for k
  proof -
    have "k = Suc 0" using that by simp
    then show ?thesis by (simp add: inode_example_offs)
  qed
  from space_for_data_exact [OF inode_example_geom(1), of 51200, OF _ _ this] show ?thesis
    by (simp add: inode_example_offs del: lev_offs.simps)
qed


section \<open>A write that finds no space\<close>

lemma meta_alloc_full:
  assumes "fs_ok fs" "fs_rgs fs \<noteq> []" "\<forall>rg \<in> set (fs_rgs fs). rt_free rg = 0"
  shows "lgfs2_meta_alloc fs ip 0 = Some (-1, 0, fs, ip)"
  using block_alloc_full [OF assms(1,2), of 1] alloc_group_in [OF assms(2), of 1] assms(3)
  by (simp add: lgfs2_meta_alloc_def)

text \<open>C24. A write into a hole of a file on a full file system is not refused: \<open>block_map\<close> returns block 0 and
  no error, \<open>__gfs2_writei\<close> does not look at it, reports every byte as written and puts the data
  over block 0 of the device, outside the file system's own blocks.\<close>

theorem writei_no_space_overwrites_block_0:
  assumes "fs_ok fs" "fs_rgs fs \<noteq> []" "\<forall>rg \<in> set (fs_rgs fs). rt_free rg = 0" "\<not> sd_gfs1 (fs_sdp fs)"
    and "i_height (vi ip) = 1" "\<not> S_ISDIR (i_mode (vi ip))" "in_addr (i_num (vi ip)) \<noteq> 0"
    and "sd_bsize (fs_sdp fs) = 2 ^ unat (sd_bsize_shift (fs_sdp fs))" "unat (sd_bsize_shift (fs_sdp fs)) < 32"
    and "\<not> 1 < calc_tree_height (fs_sdp fs) (vi ip) (ucast (sd_bsize (fs_sdp fs)))"
    and "240 \<le> length (b_data (vbh ip))" "get_be64 (b_data (vbh ip)) 232 = 0" "0 < sd_inptrs (fs_sdp fs)"
    and "fs_disk fs 0 = Some c" "buf \<noteq> []" "length buf \<le> unat (sd_bsize (fs_sdp fs))"
  shows "\<exists>ip'. gfs2_writei_resize fs ip buf 0 resize
    = Some (length buf, fs\<lparr>fs_disk := (fs_disk fs)(0 \<mapsto> memcpy_at 0 buf c)\<rparr>, ip')"
proof -
  let ?sdp = "fs_sdp fs"
  have mp: "find_metapath ?sdp (vi ip) 0 = Some (replicate 10 0)"
    using assms(5) by (simp add: find_metapath_def list_eq_iff_nth_eq nth_Cons' numeral_eq_Suc)
  have look: "lookup_block_at False fs ip Own 0 (replicate 10 0) True False = Some (fs, ip, Own, False, 0)"
    using assms(11,12) meta_alloc_full [OF assms(1-3)]
    by (simp add: lookup_block_at_def metapointer_def size_simps Let_def)
  have map: "block_map_at False fs ip 0 True True False = Some (fs, ip, False, 0, 0)"
    unfolding block_map_at_def using assms(5,6,10) mp look by (simp add: Let_def)
  obtain m where m: "length buf + 2 = Suc (Suc m)" by simp
  have "writei_loop (length buf + 2) False buf fs ip 0 0 False 0 0
      = Some (fs\<lparr>fs_disk := (fs_disk fs)(0 \<mapsto> memcpy_at 0 buf c)\<rparr>, ip)"
    unfolding m using assms(7,14,15,16) map
    by (simp add: bread_def fs_brelse_def snd_brelse min_def)
  then show ?thesis
    using assms(5,6,15) by (simp add: gfs2_writei_resize_def Let_def del: writei_loop.simps)
qed

definition rgrp_full :: rgrp_tree where
  "rgrp_full = rgrp_example\<lparr>rt_free := 0, bits := [(bits rgrp_example ! 0)\<lparr>bi_data := Live (replicate 512 0xff)\<rparr>]\<rparr>"

definition fs_full :: fs where
  "fs_full = \<lparr>fs_sdp = sbd_heights, fs_rgtree = Node Leaf rgrp_full Leaf, fs_disk = device_example\<rparr>"

lemma fs_full_fields:
  "fs_sdp fs_full = sbd_heights" "fs_disk fs_full = device_example" "fs_rgs fs_full = [rgrp_full]" "rt_free rgrp_full = 0"
  "sd_gfs1 sbd_heights = False" "sd_bsize_shift sbd_heights = 9"
  by (simp_all add: fs_full_def fs_rgs_def rgrp_full_def sbd_heights_def sbd_example_def)

lemma fs_full_ok: "fs_ok fs_full"
proof -
  let ?rg = rgrp_full
  have "rg_state 512 ?rg i = 3" if "i < 16" for i
  proof -
    have "i div 4 < 4" using that by simp
    have "i mod 4 = 0 \<or> i mod 4 = 1 \<or> i mod 4 = 2 \<or> i mod 4 = 3" by linarith
    then have "drop_bit (2 * (i mod 4)) (0xff :: u8) AND 3 = 3" by (elim disjE) simp_all
    with \<open>i div 4 < 4\<close> that show ?thesis
      by (simp add: rg_state_def bm_index_def bm_hdr_def buf_of_def blk_state_def rgrp_full_def nth_drop)
  qed
  then have "{i. i < 16 \<and> rg_state 512 ?rg i = 0} = {}" by auto
  then have "free_blocks 512 ?rg = 0" by (simp add: free_blocks_def rgrp_full_def)
  moreover have "geom 512 ?rg" "loaded 512 ?rg"
    by (simp_all add: geom_def loaded_def rgrp_full_def rgrp_example_def rgrp_zero_def bm_start_def bm_hdr_def)
  moreover have "rt_addr ?rg = 200" "rt_data0 ?rg = 201" "rt_free ?rg = 0" "rt_data ?rg = 16" by (simp_all add: rgrp_full_def)
  ultimately have "rg_ok 512 ?rg" by (simp add: rg_ok_def)
  then show ?thesis by (simp add: fs_ok_def fs_full_def fs_rgs_def fs_bsize_def rgs_ordered_def rgrp_full_def)
qed

theorem writei_no_space_overwrites_block_0_witness:
  "\<exists>ip fs' ip'. gfs2_writei_resize fs_full ip [1, 2, 3] 0 True = Some (3, fs', ip')
     \<and> fs_disk fs' 0 = Some (memcpy_at 0 [1, 2, 3] (replicate 512 0))"
proof -
  define ip where "ip = \<lparr>vi = inode_example\<lparr>i_height := 1, i_size := 512\<rparr>,
    vbh = \<lparr>b_blocknr = 1000, b_data = replicate 512 0, b_modified = False\<rparr>, vown = True\<rparr>"
  have "get_be64 (replicate 512 0) 232 = 0" by (simp add: get_be64_def slice_def be_val_def numeral_eq_Suc)
  moreover have "calc_tree_height sbd_heights (vi ip) 512 = 1"
    by (simp add: calc_tree_height_def ip_def S_ISDIR_def upt_rec)
  ultimately have "\<exists>ip'. gfs2_writei_resize fs_full ip [1, 2, 3] 0 True
      = Some (length [1 :: u8, 2, 3], fs_full\<lparr>fs_disk := (fs_disk fs_full)(0 \<mapsto> memcpy_at 0 [1, 2, 3] (replicate 512 0))\<rparr>, ip')"
    by (intro writei_no_space_overwrites_block_0 fs_full_ok)
      (simp_all add: fs_full_fields ip_def S_ISDIR_def device_example_def word_less_nat_alt)
  then obtain ip' where "gfs2_writei_resize fs_full ip [1, 2, 3] 0 True
      = Some (3, fs_full\<lparr>fs_disk := (fs_disk fs_full)(0 \<mapsto> memcpy_at 0 [1, 2, 3] (replicate 512 0))\<rparr>, ip')"
    by auto
  then show ?thesis by (intro exI conjI) (assumption, simp)
qed

end
