(* ===== verification/FsStuffed.thy ===== *)
theory FsStuffed
  imports FsMap
begin

text \<open>
  Files that are stuffed: a file of height 0 keeps its bytes in its inode's block, after the dinode. What
  \<open>gfs2_writei\<close> and \<open>gfs2_readi\<close> of fs_ops.c do to such a file is one copy in that block.
\<close>

text \<open>A regular gfs2 file that is stuffed, whose block has the size of a block.\<close>

definition stuffed :: "fs \<Rightarrow> vinode \<Rightarrow> bool" where
  "stuffed fs ip \<longleftrightarrow> \<not> sd_gfs1 (fs_sdp fs) \<and> \<not> S_ISDIR (i_mode (vi ip)) \<and> i_height (vi ip) = 0 \<and>
     in_addr (i_num (vi ip)) \<noteq> 0 \<and> length (b_data (vbh ip)) = unat (sd_bsize (fs_sdp fs)) \<and>
     unat (sd_bsize_shift (fs_sdp fs)) < 32 \<and> sd_bsize (fs_sdp fs) = push_bit (unat (sd_bsize_shift (fs_sdp fs))) 1 \<and>
     512 \<le> unat (sd_bsize (fs_sdp fs)) \<and> unat (i_size (vi ip)) + 232 \<le> unat (sd_bsize (fs_sdp fs))"

definition stuffed_data :: "vinode \<Rightarrow> bytes" where
  "stuffed_data ip = slice 232 (unat (i_size (vi ip))) (b_data (vbh ip))"

lemma stuffed_cong:
  "fs_sdp fs' = fs_sdp fs \<Longrightarrow> i_mode (vi ip') = i_mode (vi ip) \<Longrightarrow> i_height (vi ip') = i_height (vi ip) \<Longrightarrow>
   i_num (vi ip') = i_num (vi ip) \<Longrightarrow> i_size (vi ip') = i_size (vi ip) \<Longrightarrow>
   length (b_data (vbh ip')) = length (b_data (vbh ip)) \<Longrightarrow> stuffed fs' ip' = stuffed fs ip"
  by (simp only: stuffed_def)

lemma stuffed_place:
  fixes offset :: u64
  assumes "stuffed fs ip" "unat offset < unat (sd_bsize (fs_sdp fs))"
  shows "drop_bit (unat (sd_bsize_shift (fs_sdp fs))) offset = 0" "offset AND ucast (sd_bsize (fs_sdp fs) - 1) = offset"
proof -
  let ?k = "unat (sd_bsize_shift (fs_sdp fs))"
  have k: "?k < 32" and b: "sd_bsize (fs_sdp fs) = 2 ^ ?k" using assms(1) by (auto simp: stuffed_def)
  have "unat (2 ^ ?k :: u32) = 2 ^ ?k"
    using k unat_of_nat_small [of "2 ^ ?k", where 'a = 32] power_strict_increasing [of ?k 32 "2 :: nat"] by simp
  then have lt: "unat offset < 2 ^ ?k" using assms(2) b by simp
  then show "drop_bit ?k offset = 0" by (simp add: word_unat_eq_iff unat_drop_bit)
  have m: "ucast (sd_bsize (fs_sdp fs) - 1) = (mask ?k :: u64)"
    unfolding b mask_eq_exp_minus_1 [symmetric] using k by (simp add: ucast_mask_eq min_def)
  show "offset AND ucast (sd_bsize (fs_sdp fs) - 1) = offset"
    unfolding m using lt by (simp only: word_unat_eq_iff unat_and_mask mod_less)
qed

lemma stuffed_block_map: "stuffed fs ip \<Longrightarrow> block_map_at False fs ip 0 create True False = Some (fs, ip, False, in_addr (i_num (vi ip)), 1)"
  by (simp add: block_map_at_def stuffed_def)

lemma readi_stuffed:
  assumes s: "stuffed fs ip" and n: "0 < unat n" "unat offset + unat n \<le> unat (i_size (vi ip))"
  shows "gfs2_readi fs ip offset n = Some (slice (unat offset) (unat n) (stuffed_data ip), fs, ip)"
proof -
  let ?b = "unat (sd_bsize (fs_sdp fs))"
  have sz: "unat (i_size (vi ip)) + 232 \<le> ?b" and a: "in_addr (i_num (vi ip)) \<noteq> 0" and g: "\<not> sd_gfs1 (fs_sdp fs)"
    and len: "length (b_data (vbh ip)) = ?b" and h: "i_height (vi ip) = 0" "\<not> S_ISDIR (i_mode (vi ip))"
    using s by (auto simp: stuffed_def)
  have lt: "unat offset < ?b" using n sz by simp
  note place = stuffed_place [OF s lt]
  have nw: "unat (offset + ucast n) = unat offset + unat n"
    using n u64_lt [of "i_size (vi ip)"] by (simp add: unat_add_no_wrap unat_ucast_up)
  have c1: "\<not> i_size (vi ip) \<le> offset" "\<not> i_size (vi ip) < offset + ucast n" "n \<noteq> 0"
    using n nw by (auto simp: word_le_nat_alt word_less_nat_alt)
  have "readi_loop (unat n + 2) False (unat n) fs ip 0 [] 0 (unat offset + 232) 0 0 =
     Some (slice (unat offset + 232) (unat n) (b_data (vbh ip)), fs, ip)"
    using n sz a by (simp add: numeral_2_eq_2 Let_def g stuffed_block_map [OF s] min_absorb1)
  moreover have "slice (unat offset) (unat n) (stuffed_data ip) = slice (unat offset + 232) (unat n) (b_data (vbh ip))"
    using n by (simp add: stuffed_data_def slice_def drop_take min_def add.commute)
  ultimately show ?thesis
    using c1 place h g by (simp add: gfs2_readi_def has_data_headers_def Let_def size_simps del: readi_loop.simps)
qed

definition stuffed_put :: "bool \<Rightarrow> bytes \<Rightarrow> nat \<Rightarrow> vinode \<Rightarrow> vinode" where
  "stuffed_put resize buf offset ip =
     (let ip = ip\<lparr>vbh := bmodified ((vbh ip)\<lparr>b_data := memcpy_at (offset + 232) buf (b_data (vbh ip))\<rparr>)\<rparr>
      in if resize \<and> unat (i_size (vi ip)) < offset + length buf then ip\<lparr>vi := (vi ip)\<lparr>i_size := of_nat (offset + length buf)\<rparr>\<rparr> else ip)"

lemma writei_stuffed:
  assumes s: "stuffed fs ip" and n: "buf \<noteq> []" "unat offset + length buf + 232 \<le> unat (sd_bsize (fs_sdp fs))"
  shows "gfs2_writei_resize fs ip buf offset resize = Some (length buf, fs, stuffed_put resize buf (unat offset) ip)"
proof -
  let ?b = "unat (sd_bsize (fs_sdp fs))"
  have a: "in_addr (i_num (vi ip)) \<noteq> 0" and h: "i_height (vi ip) = 0" "\<not> S_ISDIR (i_mode (vi ip))" "512 \<le> ?b"
    using s by (auto simp: stuffed_def)
  have lt: "unat offset < ?b" using n by simp
  note place = stuffed_place [OF s lt]
  have bl: "?b < 2 ^ 32" using u32_lt by simp
  have nw: "unat (offset + of_nat (length buf)) = unat offset + length buf"
    using n bl by (simp add: unat_add_no_wrap unat_of_nat_small)
  have "unat (ucast (sd_bsize (fs_sdp fs)) - 232 :: u64) = ?b - 232"
    using h(3) by (simp add: unat_sub word_le_nat_alt unat_ucast_up)
  then have c1: "\<not> ucast (sd_bsize (fs_sdp fs)) - 232 < offset + of_nat (length buf)"
    using n nw by (simp add: word_less_nat_alt)
  have "writei_loop (length buf + 2) False buf fs ip 0 (unat offset + 232) False 0 0 =
     Some (fs, ip\<lparr>vbh := bmodified ((vbh ip)\<lparr>b_data := memcpy_at (unat offset + 232) buf (b_data (vbh ip))\<rparr>)\<rparr>)"
    using n a by (simp add: numeral_2_eq_2 Let_def stuffed_block_map [OF s] min_absorb1)
  moreover have "i_size (vi ip) < offset + of_nat (length buf) \<longleftrightarrow> unat (i_size (vi ip)) < unat offset + length buf"
    using nw by (simp add: word_less_nat_alt)
  ultimately show ?thesis
    using n(1) c1 place h by (simp add: gfs2_writei_resize_def stuffed_put_def Let_def size_simps bmodified_def del: writei_loop.simps)
qed

lemma stuffed_put_stuffed:
  assumes "stuffed fs ip" "offset + length buf + 232 \<le> unat (sd_bsize (fs_sdp fs))"
  shows "stuffed fs (stuffed_put resize buf offset ip)"
    "unat (i_size (vi (stuffed_put resize buf offset ip))) = (if resize then max (unat (i_size (vi ip))) (offset + length buf) else unat (i_size (vi ip)))"
proof -
  have bl: "unat (sd_bsize (fs_sdp fs)) < 2 ^ 32" using u32_lt by simp
  have u: "unat (of_nat (offset + length buf) :: u64) = offset + length buf"
    using assms(2) bl by (intro unat_of_nat_small) simp
  show "stuffed fs (stuffed_put resize buf offset ip)"
    using assms u by (auto simp: stuffed_def stuffed_put_def Let_def simp del: of_nat_add)
  show "unat (i_size (vi (stuffed_put resize buf offset ip))) = (if resize then max (unat (i_size (vi ip))) (offset + length buf) else unat (i_size (vi ip)))"
    using u by (auto simp: stuffed_put_def Let_def simp del: of_nat_add)
qed

lemma stuffed_put_frame [simp]:
  "i_num (vi (stuffed_put resize buf offset ip)) = i_num (vi ip)" "vown (stuffed_put resize buf offset ip) = vown ip"
  "b_blocknr (vbh (stuffed_put resize buf offset ip)) = b_blocknr (vbh ip)" "b_modified (vbh (stuffed_put resize buf offset ip))"
  "b_data (vbh (stuffed_put resize buf offset ip)) = memcpy_at (offset + 232) buf (b_data (vbh ip))"
  by (simp_all add: stuffed_put_def Let_def)

text \<open>A write at the end of the file.\<close>

lemma stuffed_append:
  assumes "stuffed fs ip" "unat (i_size (vi ip)) + length buf + 232 \<le> unat (sd_bsize (fs_sdp fs))"
  shows "stuffed_data (stuffed_put resize buf (unat (i_size (vi ip))) ip) = stuffed_data ip @ (if resize then buf else [])"
proof -
  let ?n = "unat (i_size (vi ip))" and ?d = "b_data (vbh ip)"
  have l: "length ?d = unat (sd_bsize (fs_sdp fs))" using assms(1) by (simp add: stuffed_def)
  have s: "slice 232 (?n + k) (memcpy_at (?n + 232) buf ?d) = slice 232 ?n ?d @ take k buf" if "k \<le> length buf" for k
    using that assms(2) l by (intro nth_equalityI) (auto simp: slice_def nth_memcpy_at nth_append add.commute)
  show ?thesis
    using stuffed_put_stuffed(2) [OF assms, of resize] s [of "length buf"] s [of 0] by (simp add: stuffed_data_def)
qed

text \<open>
  A write to a stuffed file that still fits beside the inode keeps the file stuffed, touches no
  block of the device, and makes it as long as it needs to be; a read of any part of the file then gives
  the bytes that were written where the write was and the old bytes elsewhere.
\<close>

theorem stuffed_write_read:
  assumes "stuffed fs ip" "buf \<noteq> []" "unat offset + length buf + 232 \<le> unat (sd_bsize (fs_sdp fs))"
  shows "\<exists>ip'. gfs2_writei_resize fs ip buf offset True = Some (length buf, fs, ip')
    \<and> unat (i_size (vi ip')) = max (unat (i_size (vi ip))) (unat offset + length buf)
    \<and> gfs2_readi fs ip' offset (of_nat (length buf)) = Some (buf, fs, ip')
    \<and> (\<forall>off n. 0 < unat n \<and> unat off + unat n \<le> unat (i_size (vi ip)) \<and>
          (unat off + unat n \<le> unat offset \<or> unat offset + length buf \<le> unat off) \<longrightarrow>
          map_option fst (gfs2_readi fs ip' off n) = map_option fst (gfs2_readi fs ip off n))"
proof -
  define ip' where "ip' = stuffed_put True buf (unat offset) ip"
  note st = stuffed_put_stuffed [OF assms(1,3), of True, folded ip'_def, simplified]
  have bl: "unat (sd_bsize (fs_sdp fs)) < 2 ^ 32" using u32_lt by simp
  then have len: "unat (of_nat (length buf) :: u32) = length buf" using assms(3) by (intro unat_of_nat_small) simp
  have bd: "length (b_data (vbh ip)) = unat (sd_bsize (fs_sdp fs))" using assms(1) by (simp add: stuffed_def)
  have data: "b_data (vbh ip') = memcpy_at (unat offset + 232) buf (b_data (vbh ip))"
    by (simp add: ip'_def)
  have sl: "slice off n (stuffed_data ip'') = slice (off + 232) n (b_data (vbh ip''))" if "off + n \<le> unat (i_size (vi ip''))" for off n ip''
    using that by (simp add: stuffed_data_def slice_def drop_take min_def add.commute)
  have "gfs2_readi fs ip' offset (of_nat (length buf)) = Some (buf, fs, ip')"
    using readi_stuffed [OF st(1), of "of_nat (length buf)" offset] st(2) len assms(2,3) sl [of "unat offset" "length buf" ip'] bd
    by (simp add: data slice_memcpy_same)
  moreover have "map_option fst (gfs2_readi fs ip' off n) = map_option fst (gfs2_readi fs ip off n)"
    if "0 < unat n" "unat off + unat n \<le> unat (i_size (vi ip))"
      "unat off + unat n \<le> unat offset \<or> unat offset + length buf \<le> unat off" for off n
    using that st(2) readi_stuffed [OF st(1), of n off] readi_stuffed [OF assms(1), of n off]
      sl [of "unat off" "unat n" ip'] sl [of "unat off" "unat n" ip]
      slice_memcpy_other [of "unat off + 232" "unat n" "unat offset + 232" buf "b_data (vbh ip)"]
    by (auto simp: data)
  ultimately show ?thesis
    using writei_stuffed [OF assms, of True] st(2) unfolding ip'_def by blast
qed

definition fs_stuffed :: fs where
  "fs_stuffed = \<lparr>fs_sdp = sbd_example, fs_rgtree = Leaf, fs_disk = (\<lambda>_. None)\<rparr>"

definition file_of :: "bytes \<Rightarrow> vinode" where
  "file_of d = \<lparr>vi = inode_zero\<lparr>i_num := \<lparr>in_formal_ino = 3, in_addr = 300\<rparr>, i_mode := 0x8000, i_size := of_nat (length d)\<rparr>,
     vbh = \<lparr>b_blocknr = 300, b_data = replicate 232 0 @ d @ replicate (280 - length d) 0, b_modified = False\<rparr>, vown = True\<rparr>"

lemma file_of_stuffed: "length d \<le> 280 \<Longrightarrow> stuffed fs_stuffed (file_of d)" "length d \<le> 280 \<Longrightarrow> stuffed_data (file_of d) = d"
  by (simp_all add: stuffed_def stuffed_data_def slice_def fs_stuffed_def file_of_def sbd_example_def inode_zero_def S_ISDIR_def unat_of_nat_small)

theorem stuffed_write_read_witness:
  "\<exists>ip'. gfs2_writei_resize fs_stuffed (file_of [1, 2, 3, 4]) [7, 8, 9] 3 True = (Some (3, fs_stuffed, ip'))
    \<and> unat (i_size (vi ip')) = 6 \<and> gfs2_readi fs_stuffed ip' 3 3 = Some ([7, 8, 9], fs_stuffed, ip')
    \<and> map_option fst (gfs2_readi fs_stuffed ip' 1 2) = Some [2, 3]"
proof -
  have s: "stuffed fs_stuffed (file_of [1, 2, 3, 4])" by (simp add: file_of_stuffed)
  have b: "unat (3 :: u64) + length [7, 8, 9 :: u8] + 232 \<le> unat (sd_bsize (fs_sdp fs_stuffed))"
    by (simp add: fs_stuffed_def sbd_example_def)
  have z: "i_size (vi (file_of [1, 2, 3, 4])) = 4" by (simp add: file_of_def)
  have old: "map_option fst (gfs2_readi fs_stuffed (file_of [1, 2, 3, 4]) 1 2) = Some [2, 3]"
    using readi_stuffed [OF s, of 2 1] z by (simp add: file_of_stuffed slice_def)
  obtain ip' where w: "gfs2_writei_resize fs_stuffed (file_of [1, 2, 3, 4]) [7, 8, 9] 3 True = Some (length [7, 8, 9 :: u8], fs_stuffed, ip')"
    "unat (i_size (vi ip')) = max (unat (i_size (vi (file_of [1, 2, 3, 4])))) (unat (3 :: u64) + length [7, 8, 9 :: u8])"
    "gfs2_readi fs_stuffed ip' 3 (of_nat (length [7, 8, 9 :: u8])) = Some ([7, 8, 9], fs_stuffed, ip')"
    "\<And>off n. 0 < unat n \<and> unat off + unat n \<le> unat (i_size (vi (file_of [1, 2, 3, 4]))) \<and>
          (unat off + unat n \<le> unat (3 :: u64) \<or> unat (3 :: u64) + length [7, 8, 9 :: u8] \<le> unat off) \<Longrightarrow>
          map_option fst (gfs2_readi fs_stuffed ip' off n) = map_option fst (gfs2_readi fs_stuffed (file_of [1, 2, 3, 4]) off n)"
    using stuffed_write_read [OF s _ b] by blast
  show ?thesis
    using w(1-3) w(4) [of 2 1] old by (intro exI [of _ ip']) (simp add: z)
qed

end
