(* ===== verification/FsLog.thy ===== *)
theory FsLog
  imports FsFile
begin

text \<open>
  Journals (recovery.c and the journal functions of structures.c): log headers with their hash and
  checksum, the writing of new journals, the search for the head of a journal and its cleaning.

  Errors are the codes of the C functions. \<open>seq0\<close> is the start that \<open>random()\<close> gives a new journal's
  sequence numbers. Both routines of crc32c.c compute the same function, so the portable one stands
  for either.
\<close>

section \<open>Log headers\<close>

abbreviation (input) EIO :: int where "EIO \<equiv> 5"

definition v1_end :: nat where
  "v1_end = offsetof struct_gfs2_log_header ''lh_hash'' + 4"

definition lgfs2_log_header_hash :: "bytes \<Rightarrow> u32" where
  "lgfs2_log_header_hash buf = gfs2_disk_hash (slice 0 v1_end buf)"

definition lgfs2_log_header_crc :: "bytes \<Rightarrow> nat \<Rightarrow> u32" where
  "lgfs2_log_header_crc buf bsize = crc32c_le (NOT 0) (slice (v1_end + 4) (bsize - v1_end - 4) buf)"

definition log_header_in :: "bytes \<Rightarrow> lgfs2_log_header" where
  "log_header_in buf = \<lparr>
     lh_sequence = get_be64 buf (offsetof struct_gfs2_log_header ''lh_sequence''),
     lh_flags = get_be32 buf (offsetof struct_gfs2_log_header ''lh_flags''),
     lh_tail = get_be32 buf (offsetof struct_gfs2_log_header ''lh_tail''),
     lh_blkno = get_be32 buf (offsetof struct_gfs2_log_header ''lh_blkno''),
     lh_hash = get_be32 buf (offsetof struct_gfs2_log_header ''lh_hash''),
     lh_crc = get_be32 buf (offsetof struct_gfs2_log_header ''lh_crc''),
     lh_local_total = get_be64 buf (offsetof struct_gfs2_log_header ''lh_local_total''),
     lh_local_free = get_be64 buf (offsetof struct_gfs2_log_header ''lh_local_free''),
     lh_local_dinodes = get_be64 buf (offsetof struct_gfs2_log_header ''lh_local_dinodes'')\<rparr>"

section \<open>recovery.c\<close>

definition jd_blocks :: "fs \<Rightarrow> vinode \<Rightarrow> u32" where
  "jd_blocks fs ip = ucast (i_size (vi ip) div ucast (sd_bsize (fs_sdp fs)))"

text \<open>The block after \<open>blk\<close>; the journal is a ring.\<close>

definition gfs2_replay_incr_blk :: "fs \<Rightarrow> vinode \<Rightarrow> u32 \<Rightarrow> u32" where
  "gfs2_replay_incr_blk fs ip blk = (if blk + 1 = jd_blocks fs ip then 0 else blk + 1)"

definition gfs2_replay_read_block :: "fs \<Rightarrow> vinode \<Rightarrow> u32 \<Rightarrow> (int + gfs2_buffer_head) option" where
  "gfs2_replay_read_block fs ip blk = do {
     (_, _, _, dblock, _) \<leftarrow> block_map fs ip (ucast blk) False False False;
     if dblock = 0 then Some (Inl (- EIO)) else map_option Inr (bread (fs_disk fs) dblock)
   }"

definition lgfs2_get_log_header :: "fs \<Rightarrow> vinode \<Rightarrow> u32 \<Rightarrow> (int + lgfs2_log_header) option" where
  "lgfs2_get_log_header fs ip blk = do {
     r \<leftarrow> gfs2_replay_read_block fs ip blk;
     case r of Inl e \<Rightarrow> Some (Inl e)
     | Inr bh \<Rightarrow>
         let buf = b_data bh;
             hash = lgfs2_log_header_hash (put_be32 (offsetof struct_gfs2_log_header ''lh_hash'') 0 buf);
             crc = lgfs2_log_header_crc buf (unat (sd_bsize (fs_sdp fs)));
             lh = log_header_in buf
         in if lh_blkno lh \<noteq> blk \<or> lh_hash lh \<noteq> hash then Some (Inl 1)
            else if lh_crc lh \<noteq> 0 \<and> lh_crc lh \<noteq> crc then Some (Inl 1)
            else Some (Inr lh)
   }"

text \<open>The result has \<open>*blk\<close>, which is moved in any case.\<close>

partial_function (option) find_good_loop ::
  "fs \<Rightarrow> vinode \<Rightarrow> u32 \<Rightarrow> u32 \<Rightarrow> (u32 \<times> (int + lgfs2_log_header)) option" where
  "find_good_loop fs ip orig_blk blk =
     (case lgfs2_get_log_header fs ip blk of None \<Rightarrow> None
      | Some (Inr lh) \<Rightarrow> Some (blk, Inr lh)
      | Some (Inl e) \<Rightarrow>
          if e \<le> 0 then Some (blk, Inl e)
          else let blk = (if blk + 1 = jd_blocks fs ip then 0 else blk + 1) in
               if blk = orig_blk then Some (blk, Inl (- EIO)) else find_good_loop fs ip orig_blk blk)"

declare find_good_loop.simps [code]

definition find_good_lh :: "fs \<Rightarrow> vinode \<Rightarrow> u32 \<Rightarrow> (u32 \<times> (int + lgfs2_log_header)) option" where
  "find_good_lh fs ip blk = find_good_loop fs ip blk blk"

partial_function (option) jhead_scan_loop ::
  "fs \<Rightarrow> vinode \<Rightarrow> u32 \<Rightarrow> lgfs2_log_header \<Rightarrow> (int + lgfs2_log_header) option" where
  "jhead_scan_loop fs ip blk head =
     (let blk = (if blk + 1 = jd_blocks fs ip then 0 else blk + 1) in
      case lgfs2_get_log_header fs ip blk of None \<Rightarrow> None
      | Some (Inl e) \<Rightarrow> if e < 0 then Some (Inl e) else jhead_scan_loop fs ip blk head
      | Some (Inr lh) \<Rightarrow>
          if lh_sequence lh = lh_sequence head then Some (Inl (- EIO))
          else if lh_sequence lh < lh_sequence head then Some (Inr head)
          else jhead_scan_loop fs ip blk lh)"

declare jhead_scan_loop.simps [code]

definition jhead_scan :: "fs \<Rightarrow> vinode \<Rightarrow> lgfs2_log_header \<Rightarrow> (int + lgfs2_log_header) option" where
  "jhead_scan fs ip head = jhead_scan_loop fs ip (lh_blkno head) head"

partial_function (option) find_jhead_loop :: "fs \<Rightarrow> vinode \<Rightarrow> u32 \<Rightarrow> u32 \<Rightarrow> (int + lgfs2_log_header) option" where
  "find_jhead_loop fs ip blk_1 blk_2 =
     (case find_good_lh fs ip blk_1 of None \<Rightarrow> None
      | Some (_, Inl e) \<Rightarrow> Some (Inl e)
      | Some (b1, Inr lh_1) \<Rightarrow>
          (case find_good_lh fs ip ((blk_1 + blk_2) div 2) of None \<Rightarrow> None
           | Some (_, Inl e) \<Rightarrow> Some (Inl e)
           | Some (blk_m, Inr lh_m) \<Rightarrow>
               if b1 = blk_m \<or> blk_m = blk_2 then jhead_scan fs ip lh_1
               else if lh_sequence lh_1 \<le> lh_sequence lh_m then find_jhead_loop fs ip blk_m blk_2
               else find_jhead_loop fs ip b1 blk_m))"

declare find_jhead_loop.simps [code]

definition lgfs2_find_jhead :: "fs \<Rightarrow> vinode \<Rightarrow> (int + lgfs2_log_header) option" where
  "lgfs2_find_jhead fs ip = find_jhead_loop fs ip 0 (jd_blocks fs ip - 1)"

definition lgfs2_clean_journal :: "fs \<Rightarrow> vinode \<Rightarrow> lgfs2_log_header \<Rightarrow> (int \<times> fs) option" where
  "lgfs2_clean_journal fs ip head = do {
     let lblock = gfs2_replay_incr_blk fs ip (lh_blkno head);
     (_, _, _, dblock, _) \<leftarrow> block_map fs ip (ucast lblock) False False False;
     if dblock = 0 then Some (- EIO, fs)
     else do {
       bh \<leftarrow> bread (fs_disk fs) dblock;
       let buf = memcpy_at 0 (replicate (unat (sd_bsize (fs_sdp fs))) 0) (b_data bh);
       let buf = set_meta_header GFS2_METATYPE_LH GFS2_FORMAT_LH buf;
       let buf = put_be64 (offsetof struct_gfs2_log_header ''lh_sequence'') (lh_sequence head + 1) buf;
       let buf = put_be32 (offsetof struct_gfs2_log_header ''lh_flags'') GFS2_LOG_HEAD_UNMOUNT buf;
       let buf = put_be32 (offsetof struct_gfs2_log_header ''lh_blkno'') lblock buf;
       let buf = put_be32 (offsetof struct_gfs2_log_header ''lh_hash'') (lgfs2_log_header_hash buf) buf;
       Some (0, fs_brelse (bmodified (bh\<lparr>b_data := buf\<rparr>)) fs)
     }
   }"

section \<open>New journals\<close>

text \<open>What all the headers of a new journal have.\<close>

definition journal_header_init :: "gfs2_inode \<Rightarrow> bytes \<Rightarrow> bytes" where
  "journal_header_init ip = assigns [
     set_meta_header GFS2_METATYPE_LH GFS2_FORMAT_LH,
     put_be32 (offsetof struct_gfs2_log_header ''lh_flags'') (GFS2_LOG_HEAD_UNMOUNT OR GFS2_LOG_HEAD_USERSPACE),
     put_be64 (offsetof struct_gfs2_log_header ''lh_jinode'') (in_addr (i_num ip))]"

text \<open>The members that differ, with the hash and then the checksum over what is in the block by then.\<close>

definition journal_header :: "nat \<Rightarrow> u64 \<Rightarrow> u32 \<Rightarrow> u64 \<Rightarrow> bytes \<Rightarrow> bytes" where
  "journal_header bsize seq blkno addr buf =
     (let buf = put_be64 (offsetof struct_gfs2_log_header ''lh_sequence'') seq buf;
          buf = put_be32 (offsetof struct_gfs2_log_header ''lh_blkno'') blkno buf;
          buf = put_be32 (offsetof struct_gfs2_log_header ''lh_hash'') (lgfs2_log_header_hash buf) buf;
          buf = put_be64 (offsetof struct_gfs2_log_header ''lh_addr'') addr buf
      in put_be32 (offsetof struct_gfs2_log_header ''lh_crc'') (lgfs2_log_header_crc buf bsize) buf)"

text \<open>
  The loop of \<open>lgfs2_write_journal_data\<close> over the blocks from \<open>jext0\<close>; it writes one block when
  there are none to write. The last block's number is taken not to overflow.
\<close>

primrec journal_data_loop ::
  "nat \<Rightarrow> u64 \<Rightarrow> u64 \<Rightarrow> nat list \<Rightarrow> bytes \<Rightarrow> u64 \<Rightarrow> device \<Rightarrow> int \<times> device" where
  "journal_data_loop bsize jext0 blocks [] buf seq d = (0, d)"
| "journal_data_loop bsize jext0 blocks (i # is) buf seq d =
     (let jblk = jext0 + of_nat i;
          buf = journal_header bsize seq (ucast (jblk - jext0)) jblk buf
      in if d jblk = None then (-1, d)
         else
           let d = d(jblk \<mapsto> buf);
               buf = put_be32 (offsetof struct_gfs2_log_header ''lh_crc'') 0 buf;
               buf = put_be32 (offsetof struct_gfs2_log_header ''lh_hash'') 0 buf
           in journal_data_loop bsize jext0 blocks is buf (if seq + 1 = blocks then 0 else seq + 1) d)"

definition lgfs2_write_journal_data :: "gfs2_sbd \<Rightarrow> u64 \<Rightarrow> device \<Rightarrow> gfs2_inode \<Rightarrow> int \<times> device" where
  "lgfs2_write_journal_data sdp seq0 d ip =
     (let blocks = ucast ((i_size ip + ucast (sd_bsize sdp) - 1) div ucast (sd_bsize sdp)) :: u32;
          jext0 = in_addr (i_num ip) + i_blocks ip - ucast blocks;
          buf = journal_header_init ip (replicate (unat (sd_bsize sdp)) 0)
      in journal_data_loop (unat (sd_bsize sdp)) jext0 (ucast blocks) [0..<max 1 (unat blocks)] buf seq0 d)"

text \<open>No holder stands for NULL.\<close>

definition get_file_buf :: "fs \<Rightarrow> vinode \<Rightarrow> u64 \<Rightarrow> bool \<Rightarrow> (fs \<times> vinode \<times> holder option) option" where
  "get_file_buf fs ip lbn prealloc = do {
     (fs, ip) \<leftarrow> (if i_height (vi ip) = 0 then unstuff_dinode fs ip else Some (fs, ip));
     (fs, ip, new, dbn, _) \<leftarrow> block_map fs ip lbn True False prealloc;
     if dbn = 0 then Some (fs, ip, None)
     else
       let sz = push_bit (unat (sd_bsize_shift (fs_sdp fs))) (lbn + 1);
           ip = (if \<not> prealloc \<and> new \<and> i_size (vi ip) < sz
                 then ip\<lparr>vbh := bmodified (vbh ip), vi := (vi ip)\<lparr>i_size := sz\<rparr>\<rparr> else ip)
       in if dbn = in_addr (i_num (vi ip)) then Some (fs, ip, Some Own)
          else Some (fs, ip, map_option Other (bread (fs_disk fs) dbn))
   }"

text \<open>
  The two passes of \<open>write_journal\<close>. A buffer is released after each block; when it is the inode's own
  the code goes on with a buffer that is freed (None).
\<close>

primrec prealloc_loop :: "nat list \<Rightarrow> fs \<Rightarrow> vinode \<Rightarrow> (int \<times> fs \<times> vinode) option" where
  "prealloc_loop [] fs jnl = Some (0, fs, jnl)"
| "prealloc_loop (x # xs) fs jnl = do {
     (fs, jnl, bh) \<leftarrow> get_file_buf fs jnl (of_nat x) True;
     case bh of None \<Rightarrow> Some (-1, fs, jnl)
     | Some Own \<Rightarrow> None
     | Some (Other bh) \<Rightarrow> prealloc_loop xs (fs_brelse (bmodified bh) fs) jnl
   }"

primrec write_journal_loop :: "nat \<Rightarrow> u64 \<Rightarrow> nat list \<Rightarrow> u64 \<Rightarrow> fs \<Rightarrow> vinode \<Rightarrow> (int \<times> fs \<times> vinode) option" where
  "write_journal_loop bsize blocks [] seq fs jnl = Some (0, fs, jnl)"
| "write_journal_loop bsize blocks (x # xs) seq fs jnl = do {
     (fs, jnl, bh) \<leftarrow> get_file_buf fs jnl (of_nat x) False;
     case bh of None \<Rightarrow> Some (-1, fs, jnl)
     | Some Own \<Rightarrow> None
     | Some (Other bh) \<Rightarrow>
         let buf = journal_header_init (vi jnl) (memcpy_at 0 (replicate bsize 0) (b_data bh));
             buf = journal_header bsize seq (of_nat x) (b_blocknr bh) buf
         in write_journal_loop bsize blocks xs (if seq + 1 = blocks then 0 else seq + 1)
              (fs_brelse (bmodified (bh\<lparr>b_data := buf\<rparr>)) fs) jnl
   }"

definition write_journal :: "u64 \<Rightarrow> fs \<Rightarrow> vinode \<Rightarrow> u32 \<Rightarrow> u32 \<Rightarrow> (int \<times> fs \<times> vinode) option" where
  "write_journal seq0 fs jnl bsize blocks = do {
     let hgt = calc_tree_height (fs_sdp fs) (vi jnl) (ucast ((blocks + 1) * bsize));
     (fs, jnl) \<leftarrow> build_height fs jnl hgt;
     (ret, fs, jnl) \<leftarrow> prealloc_loop [0..<unat blocks] fs jnl;
     if ret \<noteq> 0 then Some (ret, fs, jnl)
     else write_journal_loop (unat bsize) (ucast blocks) [0..<unat blocks] seq0 fs jnl
   }"


section \<open>The ring of log headers\<close>

text \<open>
  A journal of \<open>N\<close> blocks whose blocks all can be read; \<open>g\<close> is the header of each block that has a
  good one.
\<close>

definition journal_reads :: "fs \<Rightarrow> vinode \<Rightarrow> nat \<Rightarrow> (nat \<Rightarrow> lgfs2_log_header option) \<Rightarrow> bool" where
  "journal_reads fs ip N g \<longleftrightarrow> jd_blocks fs ip = of_nat N \<and> 0 < N \<and> N \<le> 2 ^ 31 \<and>
     (\<forall>b < N. lgfs2_get_log_header fs ip (of_nat b) = Some (case g b of None \<Rightarrow> Inl 1 | Some lh \<Rightarrow> Inr lh))"

text \<open>
  Block \<open>h\<close> is the head: the sequence numbers of the good headers grow from the block after it, once
  around the ring, to it; and it is not the only good one.
\<close>

definition log_head_at :: "nat \<Rightarrow> (nat \<Rightarrow> lgfs2_log_header option) \<Rightarrow> nat \<Rightarrow> bool" where
  "log_head_at N g h \<longleftrightarrow> h < N \<and> g h \<noteq> None \<and> (\<exists>b < N. b \<noteq> h \<and> g b \<noteq> None) \<and>
     (\<forall>i j. i < j \<and> j < N \<longrightarrow> (\<forall>x y. g ((h + 1 + i) mod N) = Some x \<and> g ((h + 1 + j) mod N) = Some y
        \<longrightarrow> lh_sequence x < lh_sequence y))"

lemma of_nat_u32_inj: "a < 2 ^ 32 \<Longrightarrow> b < 2 ^ 32 \<Longrightarrow> (of_nat a :: u32) = of_nat b \<longleftrightarrow> a = b"
  by (simp add: word_unat_eq_iff unat_of_nat_small)

lemma ring_next:
  assumes "journal_reads fs ip N g"
  shows "(if (of_nat (i mod N) :: u32) + 1 = jd_blocks fs ip then 0 else of_nat (i mod N) + 1) = (of_nat (Suc i mod N) :: u32)"
proof -
  have N: "0 < N" "N \<le> 2 ^ 31" "jd_blocks fs ip = of_nat N" using assms by (auto simp: journal_reads_def)
  then have "i mod N < N" by simp
  moreover have "of_nat (i mod N) + 1 = (of_nat (Suc (i mod N)) :: u32)" by simp
  ultimately have "(of_nat (i mod N) :: u32) + 1 = of_nat N \<longleftrightarrow> Suc (i mod N) = N"
    using of_nat_u32_inj [of "Suc (i mod N)" N] N(2) by (simp only:) simp
  then show ?thesis by (simp add: N(3) mod_Suc)
qed

lemma ring_read:
  assumes "journal_reads fs ip N g"
  shows "lgfs2_get_log_header fs ip (of_nat (i mod N)) = Some (case g (i mod N) of None \<Rightarrow> Inl 1 | Some lh \<Rightarrow> Inr lh)"
  using assms mod_less_divisor [of N i] unfolding journal_reads_def by blast

lemma get_log_header_blkno: "lgfs2_get_log_header fs ip blk = Some (Inr lh) \<Longrightarrow> lh_blkno lh = blk"
  by (auto simp: lgfs2_get_log_header_def Let_def split: bind_splits sum.splits if_splits)

lemma find_good_run:
  assumes r: "journal_reads fs ip N g" and ij: "g (j mod N) = Some lh" "\<And>k. i \<le> k \<Longrightarrow> k < j \<Longrightarrow> g (k mod N) = None" "j < i + N"
  shows "k \<le> j \<Longrightarrow> i \<le> k \<Longrightarrow> find_good_loop fs ip (of_nat (i mod N)) (of_nat (k mod N)) = Some (of_nat (j mod N), Inr lh)"
proof (induction "j - k" arbitrary: k)
  case 0
  then have "k = j" by simp
  then show ?case using ring_read [OF r, of j] ij(1) by (subst find_good_loop.simps) simp
next
  case (Suc m)
  then have k: "k < j" by simp
  have N: "0 < N" "N \<le> 2 ^ 31" using r by (auto simp: journal_reads_def)
  have "Suc k mod N \<noteq> i mod N"
  proof
    assume "Suc k mod N = i mod N"
    then have "N dvd Suc k - i" using mod_eq_dvd_iff_nat [of i "Suc k" N] Suc.prems by auto
    moreover have "0 < Suc k - i" "Suc k - i < N" using Suc.prems k ij(3) by auto
    ultimately show False using nat_dvd_not_less by blast
  qed
  then have "(of_nat (Suc k mod N) :: u32) \<noteq> of_nat (i mod N)"
  proof -
    have "x mod N < 2 ^ 32" for x by (rule less_le_trans [OF mod_less_divisor [OF N(1)]]) (use N(2) in simp)
    then show ?thesis using \<open>Suc k mod N \<noteq> i mod N\<close> of_nat_u32_inj by blast
  qed
  moreover have "find_good_loop fs ip (of_nat (i mod N)) (of_nat (Suc k mod N)) = Some (of_nat (j mod N), Inr lh)"
    using Suc k by (intro Suc.hyps(1)) simp_all
  moreover have "g (k mod N) = None" using ij(2) k Suc.prems by simp
  ultimately show ?case
    using ring_read [OF r, of k] ring_next [OF r, of k] by (subst find_good_loop.simps) (simp add: Let_def)
qed

lemma find_good_next:
  assumes r: "journal_reads fs ip N g" and b: "b < N" and c: "c < N" "g c \<noteq> None"
  obtains j lh where "b \<le> j" "j < b + N" "g (j mod N) = Some lh" "\<And>k. b \<le> k \<Longrightarrow> k < j \<Longrightarrow> g (k mod N) = None"
    "find_good_lh fs ip (of_nat b) = Some (of_nat (j mod N), Inr lh)"
proof -
  define P where "P k \<longleftrightarrow> b \<le> k \<and> g (k mod N) \<noteq> None" for k
  define k0 where "k0 = (if b \<le> c then c else c + N)"
  have k0: "P k0" "k0 < b + N" using b c by (auto simp: P_def k0_def)
  define j where "j = (LEAST k. P k)"
  have j: "P j" "j \<le> k0" using k0 LeastI [of P k0] Least_le [of P k0] by (auto simp: j_def)
  then obtain lh where lh: "g (j mod N) = Some lh" by (auto simp: P_def)
  have none: "g (k mod N) = None" if "b \<le> k" "k < j" for k
    using not_less_Least [of k P] that by (auto simp: j_def P_def)
  have "find_good_loop fs ip (of_nat (b mod N)) (of_nat (b mod N)) = Some (of_nat (j mod N), Inr lh)"
    using find_good_run [OF r lh none, of b] j k0 by (auto simp: P_def)
  then show thesis
    using that [of j lh] j k0 lh none b by (simp add: P_def find_good_lh_def)
qed

text \<open>The scan goes on from one good header to the next.\<close>

lemma scan_jump:
  assumes r: "journal_reads fs ip N g" and j: "g (j mod N) = Some lh" "\<And>k. i < k \<Longrightarrow> k < j \<Longrightarrow> g (k mod N) = None"
  shows "i < j \<Longrightarrow> jhead_scan_loop fs ip (of_nat (i mod N)) head =
    (if lh_sequence lh = lh_sequence head then Some (Inl (- EIO))
     else if lh_sequence lh < lh_sequence head then Some (Inr head)
     else jhead_scan_loop fs ip (of_nat (j mod N)) lh)"
  using j(2)
proof (induction "j - i" arbitrary: i)
  case 0
  then show ?case by simp
next
  case (Suc m)
  show ?case
  proof (cases "Suc i = j")
    case True
    then show ?thesis
      using ring_read [OF r, of "Suc i"] ring_next [OF r, of i] j(1)
      by (subst jhead_scan_loop.simps) (simp add: Let_def)
  next
    case False
    then have "g (Suc i mod N) = None" using Suc.prems by simp
    moreover have "jhead_scan_loop fs ip (of_nat (Suc i mod N)) head =
      (if lh_sequence lh = lh_sequence head then Some (Inl (- EIO))
       else if lh_sequence lh < lh_sequence head then Some (Inr head)
       else jhead_scan_loop fs ip (of_nat (j mod N)) lh)"
      using Suc False by (intro Suc.hyps(1)) simp_all
    ultimately show ?thesis
      using ring_read [OF r, of "Suc i"] ring_next [OF r, of i]
      by (subst jhead_scan_loop.simps) (simp add: Let_def)
  qed
qed

lemma scan_finds_head:
  assumes r: "journal_reads fs ip N g" and h: "log_head_at N g h"
  shows "i < N \<Longrightarrow> g ((h + 1 + i) mod N) = Some lh \<Longrightarrow>
    jhead_scan_loop fs ip (of_nat ((h + 1 + i) mod N)) lh = Some (Inr (the (g h)))"
proof (induction "N - i" arbitrary: i lh rule: less_induct)
  case less
  have H: "h < N" "(h + 1 + (N - 1)) mod N = h" using h less.prems by (auto simp: log_head_at_def)
  have inc: "lh_sequence x < lh_sequence y" if "i < j" "j < N" "g ((h + 1 + i) mod N) = Some x" "g ((h + 1 + j) mod N) = Some y" for i j x y
    using h that unfolding log_head_at_def by blast
  define P where "P k \<longleftrightarrow> i < k \<and> g ((h + 1 + k) mod N) \<noteq> None" for k
  show ?case
  proof (cases "i = N - 1")
    case False
    have last: "P (N - 1)" using False less.prems(1) h H by (auto simp: P_def log_head_at_def)
    define j where "j = (LEAST k. P k)"
    have j: "P j" "j \<le> N - 1" using last LeastI [of P] Least_le [of P] by (auto simp: j_def)
    then obtain lh' where lh': "g ((h + 1 + j) mod N) = Some lh'" by (auto simp: P_def)
    have none: "g (k mod N) = None" if "h + 1 + i < k" "k < h + 1 + j" for k
      using not_less_Least [of "k - (h + 1)" P] that by (auto simp: j_def P_def)
    have "i < j" "j < N" using j less.prems(1) by (auto simp: P_def)
    then have "lh_sequence lh < lh_sequence lh'" using inc less.prems(2) lh' by blast
    then have "jhead_scan_loop fs ip (of_nat ((h + 1 + i) mod N)) lh = jhead_scan_loop fs ip (of_nat ((h + 1 + j) mod N)) lh'"
      using scan_jump [OF r lh' none] \<open>i < j\<close> by auto
    also have "\<dots> = Some (Inr (the (g h)))"
      using \<open>i < j\<close> \<open>j < N\<close> lh' by (intro less.hyps) simp_all
    finally show ?thesis .
  next
    case True
    then have head: "g h = Some lh" using less.prems H by simp
    obtain b where b: "b < N" "b \<noteq> h" "g b \<noteq> None" using h by (auto simp: log_head_at_def)
    define i0 where "i0 = (if h < b then b - (h + 1) else b + N - (h + 1))"
    have i0: "(h + 1 + i0) mod N = b" "i0 < N - 1" using b H by (auto simp: i0_def)
    have PN: "P (N + i0)"
    proof -
      have "(h + 1 + (N + i0)) mod N = (h + 1 + i0) mod N"
        using mod_add_self2 [of "h + 1 + i0" N] by (simp add: ac_simps)
      then show ?thesis using True i0 b(3) less.prems(1) by (simp add: P_def)
    qed
    define j where "j = (LEAST k. P k)"
    have j: "P j" "j \<le> N + i0" using PN LeastI [of P] Least_le [of P] by (auto simp: j_def)
    then obtain lh' where lh': "g ((h + 1 + j) mod N) = Some lh'" by (auto simp: P_def)
    have none: "g (k mod N) = None" if "h + 1 + i < k" "k < h + 1 + j" for k
      using not_less_Least [of "k - (h + 1)" P] that by (auto simp: j_def P_def)
    have jN: "N \<le> j" "j - N < N - 1" "i < j" using j i0(2) True less.prems(1) by (auto simp: P_def)
    have "(h + 1 + j) mod N = (h + 1 + (j - N)) mod N"
      using mod_add_self2 [of "h + 1 + (j - N)" N] jN(1) by (simp add: ac_simps)
    then have "lh_sequence lh' < lh_sequence lh"
      using inc [of "j - N" "N - 1" lh' lh] jN lh' head H by simp
    then show ?thesis using scan_jump [OF r lh' none] jN(3) head by auto
  qed
qed


lemma jhead_scan_head:
  assumes r: "journal_reads fs ip N g" and h: "log_head_at N g h" and b: "b < N" "g b = Some lh"
  shows "jhead_scan fs ip lh = Some (Inr (the (g h)))"
proof -
  have H: "h < N" using h by (simp add: log_head_at_def)
  define i where "i = (if h < b then b - (h + 1) else b + N - (h + 1))"
  have i: "(h + 1 + i) mod N = b" "i < N" using b(1) H by (auto simp: i_def)
  have "lgfs2_get_log_header fs ip (of_nat b) = Some (Inr lh)"
    using ring_read [OF r, of b] b by simp
  then have "lh_blkno lh = of_nat b" by (rule get_log_header_blkno)
  then show ?thesis using scan_finds_head [OF r h i(2), of lh] i(1) b(2) by (simp add: jhead_scan_def)
qed

lemma log_head_distinct:
  assumes h: "log_head_at N g h" and b: "b < N" "g b = Some x" and c: "c < N" "g c = Some y" "b \<noteq> c"
  shows "lh_sequence x \<noteq> lh_sequence y"
proof -
  define k where "k b = (if h < b then b - (h + 1) else b + N - (h + 1))" for b
  have H: "h < N" using h by (simp add: log_head_at_def)
  have k: "(h + 1 + k b) mod N = b" "k b < N" if "b < N" for b using that H by (auto simp: k_def)
  have "k b \<noteq> k c" using k(1) [OF b(1)] k(1) [OF c(1)] c(3) by metis
  then consider "k b < k c" | "k c < k b" by linarith
  then show ?thesis
  proof cases
    case 1
    then have "lh_sequence x < lh_sequence y"
      using h k b c unfolding log_head_at_def by metis
    then show ?thesis by simp
  next
    case 2
    then have "lh_sequence y < lh_sequence x"
      using h k b c unfolding log_head_at_def by metis
    then show ?thesis by simp
  qed
qed

text \<open>What is left to search: the headers after \<open>b1\<close>'s, and then the distance of the bounds.\<close>

definition later :: "nat \<Rightarrow> (nat \<Rightarrow> lgfs2_log_header option) \<Rightarrow> nat \<Rightarrow> nat" where
  "later N g b = card {c. c < N \<and> g c \<noteq> None \<and> lh_sequence (the (g b)) < lh_sequence (the (g c))}"

definition gap :: "nat \<Rightarrow> (nat \<Rightarrow> lgfs2_log_header option) \<Rightarrow> nat \<Rightarrow> nat \<Rightarrow> nat" where
  "gap N g b1 b2 = (if g b2 = None then N else if b1 \<le> b2 then b2 - b1 else b1 - b2)"

lemma later_less:
  assumes "c < N" "g c \<noteq> None" "lh_sequence (the (g b)) < lh_sequence (the (g c))"
  shows "later N g c < later N g b"
proof -
  let ?L = "\<lambda>b. {x. x < N \<and> g x \<noteq> None \<and> lh_sequence (the (g b)) < lh_sequence (the (g x))}"
  have "?L c \<subseteq> ?L b" using less_trans [OF assms(3)] by blast
  moreover have "c \<in> ?L b" using assms by (intro CollectI conjI)
  moreover have "c \<notin> ?L c" by simp
  ultimately have "?L c \<subset> ?L b" by blast
  then show ?thesis unfolding later_def by (rule psubset_card_mono [rotated]) simp
qed

lemma gap_le: "b1 < N \<Longrightarrow> b2 < N \<Longrightarrow> gap N g b1 b2 \<le> N"
  by (auto simp: gap_def)

lemma half_sum:
  assumes "a < N" "b < N" "N \<le> 2 ^ 31"
  shows "((of_nat a :: u32) + of_nat b) div 2 = of_nat ((a + b) div 2)"
proof -
  have s: "a + b < 2 ^ 32" using assms by simp
  have "((of_nat a :: u32) + of_nat b) div 2 = of_nat (a + b) div of_nat 2" by simp
  also have "unat \<dots> = (a + b) div 2" using s by (simp only: unat_div) (simp add: unat_of_nat_small del: of_nat_add)
  also have "\<dots> = unat (of_nat ((a + b) div 2) :: u32)" using s by (simp add: unat_of_nat_small)
  finally show ?thesis by (simp only: word_unat_eq_iff)
qed

lemma find_jhead_search:
  assumes r: "journal_reads fs ip N g" and h: "log_head_at N g h"
  shows "b1 < N \<Longrightarrow> g b1 \<noteq> None \<Longrightarrow> b2 < N \<Longrightarrow> find_jhead_loop fs ip (of_nat b1) (of_nat b2) = Some (Inr (the (g h)))"
proof (induction "later N g b1 * (N + 1) + gap N g b1 b2" arbitrary: b1 b2 rule: less_induct)
  case less
  have N: "0 < N" "N \<le> 2 ^ 31" using r by (auto simp: journal_reads_def)
  let ?m = "(b1 + b2) div 2"
  have m: "?m < N" using less.prems by linarith
  obtain lh where lh: "g b1 = Some lh" using less.prems(2) by blast
  have good1: "find_good_lh fs ip (of_nat b1) = Some (of_nat b1, Inr lh)"
    using ring_read [OF r, of b1] less.prems(1) lh by (simp add: find_good_lh_def find_good_loop.simps)
  obtain j lh_m where j: "?m \<le> j" "j < ?m + N" "g (j mod N) = Some lh_m" "\<And>k. ?m \<le> k \<Longrightarrow> k < j \<Longrightarrow> g (k mod N) = None"
    "find_good_lh fs ip (of_nat ?m) = Some (of_nat (j mod N), Inr lh_m)"
    using find_good_next [OF r m less.prems(1,2)] by blast
  let ?c = "j mod N"
  have c: "?c < N" using N by simp
  have eq: "(of_nat x :: u32) = of_nat y \<longleftrightarrow> x = y" if "x < N" "y < N" for x y
    using that N(2) by (intro of_nat_u32_inj) simp_all
  have step: "find_jhead_loop fs ip (of_nat b1) (of_nat b2) =
      (if b1 = ?c \<or> ?c = b2 then jhead_scan fs ip lh
       else if lh_sequence lh \<le> lh_sequence lh_m then find_jhead_loop fs ip (of_nat ?c) (of_nat b2)
       else find_jhead_loop fs ip (of_nat b1) (of_nat ?c))"
    using good1 j(5) half_sum [OF less.prems(1,3) N(2)] eq less.prems(1,3) c
    by (subst find_jhead_loop.simps) simp
  show ?case
  proof (cases "b1 = ?c \<or> ?c = b2")
    case True
    then show ?thesis using step jhead_scan_head [OF r h less.prems(1) lh] by simp
  next
    case False
    show ?thesis
    proof (cases "lh_sequence lh \<le> lh_sequence lh_m")
      case True
      then have "lh_sequence lh < lh_sequence lh_m"
        using log_head_distinct [OF h less.prems(1) lh c j(3)] False by simp
      then have "later N g ?c < later N g b1" using later_less [OF c, of g b1] j(3) lh by simp
      then have "later N g ?c * (N + 1) + gap N g ?c b2 < later N g b1 * (N + 1) + gap N g b1 b2"
        using gap_le [OF c less.prems(3), of g] mult_le_mono1 [of "Suc (later N g ?c)" "later N g b1" "N + 1"] by simp
      then show ?thesis using less.hyps c j(3) less.prems(3) step True False by simp
    next
      case low: False
      have "gap N g b1 ?c < gap N g b1 b2"
      proof (cases "g b2 = None")
        case True
        then show ?thesis using j(3) c less.prems(1) by (auto simp: gap_def less_imp_diff_less)
      next
        case good2: False
        have le: "j \<le> x" if "?m \<le> x" "x < N" "g x \<noteq> None" for x
          using j(4) [of x] that by (cases "j \<le> x") auto
        consider "b2 < b1" | "b1 < b2" | "b1 = b2" by linarith
        then show ?thesis
        proof cases
          case 1
          then have "?m \<le> b1" "b2 \<le> ?m" by simp_all
          then have "j \<le> b1" "b2 \<le> j" using le less.prems j(1) by auto
          then show ?thesis using False less.prems(1) j(3) good2 by (auto simp: gap_def)
        next
          case 2
          then have "?m \<le> b2" "b1 \<le> ?m" by simp_all
          then have "j \<le> b2" "b1 \<le> j" using le good2 less.prems(3) j(1) by auto
          then show ?thesis using False less.prems(3) j(3) good2 by (auto simp: gap_def)
        next
          case 3
          then have "j \<le> b1" "b1 \<le> j" using le less.prems j(1) by auto
          then show ?thesis using False less.prems(1) by simp
        qed
      qed
      then show ?thesis using less.hyps [of b1 ?c] less.prems c j(3) step False low by simp
    qed
  qed
qed

lemma find_jhead_head:
  assumes r: "journal_reads fs ip N g" and h: "log_head_at N g h"
  shows "lgfs2_find_jhead fs ip = Some (Inr (the (g h)))"
proof -
  have N: "0 < N" "N \<le> 2 ^ 31" "jd_blocks fs ip = of_nat N" using r by (auto simp: journal_reads_def)
  have H: "h < N" "g h \<noteq> None" using h by (auto simp: log_head_at_def)
  let ?m = "(N - 1) div 2"
  have m: "?m < N" using N(1) by simp
  obtain j1 lh_1 where j1: "g (j1 mod N) = Some lh_1" "find_good_lh fs ip (of_nat 0) = Some (of_nat (j1 mod N), Inr lh_1)"
    using find_good_next [OF r N(1) H] by blast
  obtain j lh_m where j: "g (j mod N) = Some lh_m" "find_good_lh fs ip (of_nat ?m) = Some (of_nat (j mod N), Inr lh_m)"
    using find_good_next [OF r m H] by blast
  have b: "j1 mod N < N" "j mod N < N" using N by simp_all
  have eq: "(of_nat x :: u32) = of_nat y \<longleftrightarrow> x = y" if "x < N" "y < N" for x y
    using that N(2) by (intro of_nat_u32_inj) simp_all
  define b2 where "b2 = N - 1"
  have b2: "jd_blocks fs ip - 1 = of_nat b2" "b2 < N" "?m = (0 + b2) div 2" using N by (simp_all add: of_nat_diff b2_def)
  have "find_jhead_loop fs ip (of_nat 0) (of_nat b2) =
      (if j1 mod N = j mod N \<or> j mod N = b2 then jhead_scan fs ip lh_1
       else if lh_sequence lh_1 \<le> lh_sequence lh_m then find_jhead_loop fs ip (of_nat (j mod N)) (of_nat b2)
       else find_jhead_loop fs ip (of_nat (j1 mod N)) (of_nat (j mod N)))"
    using j1(2) j(2) half_sum [of 0 N b2] N eq b b2(2) unfolding b2(3)
    by (subst find_jhead_loop.simps) simp
  then show ?thesis
    using jhead_scan_head [OF r h b(1) j1(1)] find_jhead_search [OF r h] b j1(1) j(1) b2(2)
    by (simp add: lgfs2_find_jhead_def b2(1))
qed


section \<open>Headers that are written are good\<close>

definition good_header :: "nat \<Rightarrow> u32 \<Rightarrow> bytes \<Rightarrow> lgfs2_log_header option" where
  "good_header bsize blk c =
     (let lh = log_header_in c in
      if lh_blkno lh \<noteq> blk \<or> lh_hash lh \<noteq> lgfs2_log_header_hash (put_be32 44 0 c)
         \<or> (lh_crc lh \<noteq> 0 \<and> lh_crc lh \<noteq> lgfs2_log_header_crc c bsize) then None
      else Some lh)"

lemma take_memcpy_within: "off + length bs \<le> n \<Longrightarrow> n \<le> length b \<Longrightarrow> take n (memcpy_at off bs b) = memcpy_at off bs (take n b)"
  by (rule nth_equalityI) (simp_all add: nth_memcpy_at)

lemma v1_end_eq: "v1_end = 48"
  by (simp add: v1_end_def size_simps)

text \<open>Setting the hash does not change what it is the hash of.\<close>

lemma hash_ignores_hash:
  assumes "52 \<le> length b" "get_be32 b 44 = 0"
  shows "lgfs2_log_header_hash (put_be32 44 0 (put_be32 44 v b)) = lgfs2_log_header_hash b"
proof -
  have "put_be32 44 0 (put_be32 44 v b) = put_be32 44 0 b" using assms by (simp add: be32.put_put)
  also have "\<dots> = b" using be32.put_get [of 44 b] assms by simp
  finally show ?thesis by simp
qed

lemma hash_prefix:
  assumes "48 \<le> off" "52 \<le> length b"
  shows "lgfs2_log_header_hash (put_be32 44 0 (memcpy_at off bs b)) = lgfs2_log_header_hash (put_be32 44 0 b)"
proof -
  have "take 48 (memcpy_at off bs b) = take 48 b"
    using slice_memcpy_other [of 0 48 off bs b] assms by (simp add: slice_def)
  then have "take 48 (put_be32 44 0 (memcpy_at off bs b)) = take 48 (put_be32 44 0 b)"
    using assms by (simp add: put_be32_def take_memcpy_within)
  then show ?thesis by (simp add: lgfs2_log_header_hash_def v1_end_eq slice_def)
qed

lemma crc_suffix:
  "off + length bs \<le> 52 \<Longrightarrow> 52 \<le> n \<Longrightarrow> n \<le> length b \<Longrightarrow> lgfs2_log_header_crc (memcpy_at off bs b) n = lgfs2_log_header_crc b n"
  by (simp add: lgfs2_log_header_crc_def v1_end_eq slice_memcpy_other)

text \<open>A buffer between two headers of \<open>lgfs2_write_journal_data\<close>.\<close>

definition header_buf :: "nat \<Rightarrow> bytes \<Rightarrow> bool" where
  "header_buf n b \<longleftrightarrow> length b = n \<and> get_be32 b 44 = 0 \<and> get_be32 b 32 = (GFS2_LOG_HEAD_UNMOUNT OR GFS2_LOG_HEAD_USERSPACE)"

lemma journal_header_good:
  assumes n: "120 \<le> n" and b: "header_buf n b"
  shows "\<exists>lh. good_header n blk (journal_header n seq blk addr b) = Some lh \<and> lh_sequence lh = seq
    \<and> lh_flags lh = (GFS2_LOG_HEAD_UNMOUNT OR GFS2_LOG_HEAD_USERSPACE)"
    "length (journal_header n seq blk addr b) = n"
    "header_buf n (put_be32 44 0 (put_be32 48 0 (journal_header n seq blk addr b)))"
proof -
  define x where "x = put_be32 40 blk (put_be64 24 seq b)"
  define y where "y = put_be64 64 addr (put_be32 44 (lgfs2_log_header_hash x) x)"
  have B: "length b = n" "get_be32 b 44 = 0" "get_be32 b 32 = (GFS2_LOG_HEAD_UNMOUNT OR GFS2_LOG_HEAD_USERSPACE)"
    using b by (auto simp: header_buf_def)
  have x: "length x = n" "get_be32 x 44 = 0" "get_be32 x 32 = get_be32 b 32" "get_be32 x 40 = blk" "get_be64 x 24 = seq"
    using B n by (simp_all add: x_def field_simps)
  have jh: "journal_header n seq blk addr b = put_be32 48 (lgfs2_log_header_crc y n) y"
    by (simp add: journal_header_def size_simps x_def y_def Let_def)
  let ?c = "put_be32 48 (lgfs2_log_header_crc y n) y"
  have len: "length y = n" using x by (simp add: y_def)
  have "lgfs2_log_header_hash (put_be32 44 0 ?c) = lgfs2_log_header_hash (put_be32 44 0 y)"
    unfolding put_be32_def [of 48] using len n by (intro hash_prefix) simp_all
  also have "\<dots> = lgfs2_log_header_hash (put_be32 44 0 (put_be32 44 (lgfs2_log_header_hash x) x))"
    unfolding y_def put_be64_def using x n by (intro hash_prefix) simp_all
  also have "\<dots> = lgfs2_log_header_hash x" using x n by (intro hash_ignores_hash) simp_all
  finally have hash: "lgfs2_log_header_hash (put_be32 44 0 ?c) = lgfs2_log_header_hash x" .
  have crc: "lgfs2_log_header_crc ?c n = lgfs2_log_header_crc y n"
    unfolding put_be32_def using len n by (intro crc_suffix) simp_all
  have f: "get_be32 ?c 40 = blk" "get_be32 ?c 44 = lgfs2_log_header_hash x" "get_be32 ?c 48 = lgfs2_log_header_crc y n"
    "get_be64 ?c 24 = seq" "get_be32 ?c 32 = get_be32 b 32"
    using x n len by (simp_all add: y_def field_simps)
  show "\<exists>lh. good_header n blk (journal_header n seq blk addr b) = Some lh \<and> lh_sequence lh = seq
    \<and> lh_flags lh = (GFS2_LOG_HEAD_UNMOUNT OR GFS2_LOG_HEAD_USERSPACE)"
    unfolding jh using f hash crc B(3) by (simp add: good_header_def log_header_in_def size_simps)
  show "length (journal_header n seq blk addr b) = n" unfolding jh using len by simp
  show "header_buf n (put_be32 44 0 (put_be32 48 0 (journal_header n seq blk addr b)))"
    unfolding jh using f(5) B(3) len n by (simp add: header_buf_def field_simps)
qed

lemma journal_init_buf:
  "120 \<le> n \<Longrightarrow> header_buf n (journal_header_init ip (replicate n 0))"
proof -
  assume n: "120 \<le> n"
  have "get_be32 (replicate n 0) 44 = 0"
    using n by (simp add: get_be32_def slice_def be_val_def numeral_eq_Suc)
  then show ?thesis
    using n by (simp add: header_buf_def journal_header_init_def set_meta_header_def size_simps field_simps)
qed

lemma journal_data_spec:
  assumes n: "120 \<le> bsize" and blocks: "unat blocks = n" "0 < n" "m \<le> n" "n < 2 ^ 32"
  shows "header_buf bsize buf \<Longrightarrow> k \<le> m \<Longrightarrow> unat seq < n \<Longrightarrow> (\<forall>i. k \<le> i \<and> i < m \<longrightarrow> d (jext0 + of_nat i) \<noteq> None) \<Longrightarrow>
    \<exists>d'. journal_data_loop bsize jext0 blocks [k..<m] buf seq d = (0, d')
      \<and> (\<forall>x. (\<forall>i. k \<le> i \<and> i < m \<longrightarrow> x \<noteq> jext0 + of_nat i) \<longrightarrow> d' x = d x)
      \<and> (\<forall>i. k \<le> i \<and> i < m \<longrightarrow> (\<exists>c lh. d' (jext0 + of_nat i) = Some c \<and> length c = bsize \<and> good_header bsize (of_nat i) c = Some lh
          \<and> unat (lh_sequence lh) = (unat seq + (i - k)) mod n \<and> lh_flags lh = (GFS2_LOG_HEAD_UNMOUNT OR GFS2_LOG_HEAD_USERSPACE)))"
proof (induction "m - k" arbitrary: k buf seq d)
  case 0
  then show ?case by auto
next
  case (Suc l)
  then have k: "k < m" by simp
  let ?a = "jext0 + of_nat k" and ?seq = "if seq + 1 = blocks then 0 else seq + 1"
  define c where "c = journal_header bsize seq (ucast (?a - jext0)) ?a buf"
  define buf' where "buf' = put_be32 44 0 (put_be32 48 0 c)"
  have blk: "(ucast (?a - jext0) :: u32) = of_nat k"
    using k blocks by (simp add: word_unat_eq_iff unat_ucast_mod unat_of_nat_small)
  obtain lh where lh: "good_header bsize (of_nat k) c = Some lh" "lh_sequence lh = seq"
    "lh_flags lh = (GFS2_LOG_HEAD_UNMOUNT OR GFS2_LOG_HEAD_USERSPACE)"
    using journal_header_good(1) [OF n Suc.prems(1), of "of_nat k" seq ?a] unfolding c_def blk by blast
  obtain c0 where here: "d ?a = Some c0" using Suc.prems(4) k by blast
  have buf': "header_buf bsize buf'" unfolding buf'_def c_def by (rule journal_header_good(3) [OF n Suc.prems(1)])
  have seq1: "unat (seq + 1) = unat seq + 1" using Suc.prems(3) blocks(4) by (subst unat_add_no_wrap) simp_all
  have seq: "unat ?seq = (unat seq + 1) mod n"
  proof (cases "seq + 1 = blocks")
    case True
    then show ?thesis using seq1 blocks(1) by simp
  next
    case False
    then have "unat seq + 1 \<noteq> n" using seq1 blocks(1) by (metis word_unat_eq_iff)
    then show ?thesis using False seq1 Suc.prems(3) by simp
  qed
  have step: "journal_data_loop bsize jext0 blocks [k..<m] buf seq d
      = journal_data_loop bsize jext0 blocks [Suc k..<m] buf' ?seq (d(?a \<mapsto> c))"
    using k here by (simp add: upt_conv_Cons c_def buf'_def size_simps Let_def)
  have "\<exists>d'. journal_data_loop bsize jext0 blocks [Suc k..<m] buf' ?seq (d(?a \<mapsto> c)) = (0, d')
      \<and> (\<forall>x. (\<forall>i. Suc k \<le> i \<and> i < m \<longrightarrow> x \<noteq> jext0 + of_nat i) \<longrightarrow> d' x = (d(?a \<mapsto> c)) x)
      \<and> (\<forall>i. Suc k \<le> i \<and> i < m \<longrightarrow> (\<exists>c lh. d' (jext0 + of_nat i) = Some c \<and> length c = bsize \<and> good_header bsize (of_nat i) c = Some lh
          \<and> unat (lh_sequence lh) = (unat ?seq + (i - Suc k)) mod n \<and> lh_flags lh = (GFS2_LOG_HEAD_UNMOUNT OR GFS2_LOG_HEAD_USERSPACE)))"
  proof (rule Suc.hyps(1))
    show "unat ?seq < n" unfolding seq using blocks(2) by simp
  qed (use Suc.hyps(2) Suc.prems buf' k in auto)
  then obtain d' where D: "journal_data_loop bsize jext0 blocks [Suc k..<m] buf' ?seq (d(?a \<mapsto> c)) = (0, d')"
    "\<And>x. (\<forall>i. Suc k \<le> i \<and> i < m \<longrightarrow> x \<noteq> jext0 + of_nat i) \<Longrightarrow> d' x = (d(?a \<mapsto> c)) x"
    "\<And>i. Suc k \<le> i \<Longrightarrow> i < m \<Longrightarrow> \<exists>c lh. d' (jext0 + of_nat i) = Some c \<and> length c = bsize \<and> good_header bsize (of_nat i) c = Some lh
          \<and> unat (lh_sequence lh) = (unat ?seq + (i - Suc k)) mod n \<and> lh_flags lh = (GFS2_LOG_HEAD_UNMOUNT OR GFS2_LOG_HEAD_USERSPACE)"
    by blast
  have "?a \<noteq> jext0 + of_nat i" if "Suc k \<le> i" "i < m" for i
    using of_nat_u64_inj [of k i] that k blocks by simp
  then have "d' ?a = Some c" using D(2) [of ?a] by simp
  moreover have "length c = bsize"
    unfolding c_def by (intro journal_header_good(2) n Suc.prems(1))
  ultimately have a: "d' ?a = Some c" "length c = bsize" .
  have out: "d' x = d x" if "\<forall>i. k \<le> i \<and> i < m \<longrightarrow> x \<noteq> jext0 + of_nat i" for x
    using D(2) [of x] that k by auto
  have good: "\<exists>c lh. d' (jext0 + of_nat i) = Some c \<and> length c = bsize \<and> good_header bsize (of_nat i) c = Some lh
      \<and> unat (lh_sequence lh) = (unat seq + (i - k)) mod n \<and> lh_flags lh = (GFS2_LOG_HEAD_UNMOUNT OR GFS2_LOG_HEAD_USERSPACE)"
    if i: "k \<le> i" "i < m" for i
  proof (cases "i = k")
    case True
    with a lh Suc.prems(3) show ?thesis by auto
  next
    case False
    then have "(unat ?seq + (i - Suc k)) mod n = (unat seq + (i - k)) mod n"
    proof -
      have "unat seq + 1 + (i - Suc k) = unat seq + (i - k)" using i False by simp
      then show ?thesis unfolding seq by (metis mod_add_left_eq)
    qed
    with D(3) [of i] False i show ?thesis by auto
  qed
  from step D(1) out good show ?case by auto
qed


section \<open>Journals of one extent\<close>

text \<open>Where the journal's blocks are, from its inode on.\<close>

abbreviation (input) jdata :: "gfs2_sbd \<Rightarrow> gfs2_inode \<Rightarrow> nat \<Rightarrow> nat" where
  "jdata sdp ip n \<equiv> lev_offs (unat (sd_inptrs sdp)) (unat (i_height ip)) n (unat (i_height ip))"

text \<open>A journal file in memory and on the device: one extent of \<open>n\<close> blocks, all readable.\<close>

definition journal_on :: "fs \<Rightarrow> gfs2_inode \<Rightarrow> nat \<Rightarrow> vinode \<Rightarrow> bool" where
  "journal_on fs ip n v \<longleftrightarrow> extent_geom (fs_sdp fs) ip n \<and> extent_on (fs_sdp fs) ip n (fs_disk fs) \<and>
     height_fits (fs_sdp fs) ip n \<and> vi v = stored ip \<and> fs_disk fs (in_addr (i_num ip)) = Some (b_data (vbh v)) \<and>
     unat (i_size ip) = n * unat (sd_bsize (fs_sdp fs)) \<and> n \<le> 2 ^ 31 \<and>
     (\<forall>b < n. fs_disk fs (in_addr (i_num ip) + of_nat (jdata (fs_sdp fs) ip n + b)) \<noteq> None)"

lemma extent_addrs:
  assumes g: "extent_geom sdp ip n"
  shows "lev_offs (unat (sd_inptrs sdp)) (unat (i_height ip)) n (Suc (unat (i_height ip))) = jdata sdp ip n + n"
    "1 \<le> jdata sdp ip n" "unat (in_addr (i_num ip)) + (jdata sdp ip n + n) < 2 ^ 64"
proof -
  let ?I = "unat (sd_inptrs sdp)" and ?H = "unat (i_height ip)"
  have G: "0 < ?H" "0 < n" "unat (in_addr (i_num ip)) + lev_offs ?I ?H n (Suc ?H) < 2 ^ 64"
    using g by (auto simp: extent_geom_def Let_def)
  show s: "lev_offs ?I ?H n (Suc ?H) = jdata sdp ip n + n"
    using G(1,2) level_pos_last [OF G(1), of ?I "n - 1"] by (cases ?H) (auto simp: lev_ptrs_def)
  show "1 \<le> jdata sdp ip n" using lev_offs_mono [of "Suc 0" ?H ?I ?H n] G(1) by simp
  show "unat (in_addr (i_num ip)) + (jdata sdp ip n + n) < 2 ^ 64" using G(3) s by simp
qed

lemma journal_block_map:
  assumes j: "journal_on fs ip n v" and b: "b < n"
  shows "block_map fs v (ucast (of_nat b :: u32)) False False False
    = Some (fs, v, False, in_addr (i_num ip) + of_nat (jdata (fs_sdp fs) ip n + b), 0)"
    "in_addr (i_num ip) + of_nat (jdata (fs_sdp fs) ip n + b) \<noteq> 0"
proof -
  have J: "extent_geom (fs_sdp fs) ip n" "extent_on (fs_sdp fs) ip n (fs_disk fs)" "height_fits (fs_sdp fs) ip n" "vi v = stored ip"
    "fs_disk fs (in_addr (i_num ip)) = Some (b_data (vbh v))" "n \<le> 2 ^ 31"
    using j by (auto simp: journal_on_def)
  have "(ucast (of_nat b :: u32) :: u64) = of_nat b" using b J(6) by (intro ucast_of_nat_u32) simp
  then show "block_map fs v (ucast (of_nat b :: u32)) False False False
    = Some (fs, v, False, in_addr (i_num ip) + of_nat (jdata (fs_sdp fs) ip n + b), 0)"
    using block_map_extent [OF J(1,2) b J(3,4,5), of False] by simp
  show "in_addr (i_num ip) + of_nat (jdata (fs_sdp fs) ip n + b) \<noteq> 0"
    using extent_addrs [OF J(1)] b by (intro addr_plus(2)) simp_all
qed

lemma journal_on_reads:
  assumes j: "journal_on fs ip n v"
  shows "journal_reads fs v n (\<lambda>b. good_header (unat (sd_bsize (fs_sdp fs))) (of_nat b)
    (the (fs_disk fs (in_addr (i_num ip) + of_nat (jdata (fs_sdp fs) ip n + b)))))"
proof -
  have J: "extent_geom (fs_sdp fs) ip n" "vi v = stored ip" "unat (i_size ip) = n * unat (sd_bsize (fs_sdp fs))" "n \<le> 2 ^ 31"
    "\<And>b. b < n \<Longrightarrow> fs_disk fs (in_addr (i_num ip) + of_nat (jdata (fs_sdp fs) ip n + b)) \<noteq> None"
    using j by (auto simp: journal_on_def)
  have G: "0 < n" "0 < unat (sd_bsize (fs_sdp fs))" using J(1) by (auto simp: extent_geom_def Let_def)
  have "unat (i_size ip div ucast (sd_bsize (fs_sdp fs))) = n"
    using G(2) by (simp only: unat_div unat_u32_u64 J(3)) simp
  then have "i_size ip div ucast (sd_bsize (fs_sdp fs)) = of_nat n" by (metis of_nat_unat ucast_id)
  then have "jd_blocks fs v = ucast (of_nat n :: u64)" using J(2) by (simp add: jd_blocks_def)
  then have jd: "jd_blocks fs v = of_nat n"
    using J(4) by (simp add: word_unat_eq_iff unat_ucast_mod unat_of_nat_small)
  have "lgfs2_get_log_header fs v (of_nat b) = Some (case good_header (unat (sd_bsize (fs_sdp fs))) (of_nat b)
      (the (fs_disk fs (in_addr (i_num ip) + of_nat (jdata (fs_sdp fs) ip n + b)))) of None \<Rightarrow> Inl 1 | Some lh \<Rightarrow> Inr lh)"
    if b: "b < n" for b
  proof -
    obtain c where c: "fs_disk fs (in_addr (i_num ip) + of_nat (jdata (fs_sdp fs) ip n + b)) = Some c" using J(5) [OF b] by blast
    then show ?thesis
      using journal_block_map [OF j b]
      by (simp add: lgfs2_get_log_header_def gfs2_replay_read_block_def bread_def good_header_def size_simps Let_def
          del: of_nat_add)
  qed
  with jd G(1) J(4) show ?thesis by (simp add: journal_reads_def)
qed

lemma extent_on_cong:
  assumes "extent_on sdp ip n d" "extent_geom sdp ip n"
    and "\<And>i. i < jdata sdp ip n \<Longrightarrow> d' (in_addr (i_num ip) + of_nat i) = d (in_addr (i_num ip) + of_nat i)"
  shows "extent_on sdp ip n d'"
proof -
  let ?I = "unat (sd_inptrs sdp)" and ?H = "unat (i_height ip)"
  have "lev_offs ?I ?H n k + i < jdata sdp ip n"
    if "k < ?H" "i < blocks_for (lev_cap sdp k) (lev_ptrs ?I ?H n k)" for k i
    using lev_blocks [OF assms(2) that(1)] lev_offs_mono [of "Suc k" ?H ?I ?H n] that by simp
  then show ?thesis using assms(1,3) unfolding extent_on_def Let_def by metis
qed

text \<open>The headers of a new journal: the sequence numbers go round from where they start.\<close>

lemma rotated_head:
  assumes s: "s < N" "2 \<le> N" and g: "\<And>b. b < N \<Longrightarrow> \<exists>lh. g b = Some lh \<and> unat (lh_sequence lh) = (s + b) mod N"
  shows "log_head_at N g (N - 1 - s)"
proof -
  let ?h = "N - 1 - s"
  have pos: "(s + (?h + 1 + i) mod N) mod N = i" if "i < N" for i
  proof -
    have "(s + (?h + 1 + i) mod N) mod N = (s + (?h + 1 + i)) mod N" by (simp add: mod_add_right_eq)
    also have "s + (?h + 1 + i) = N + i" using s by simp
    finally show ?thesis using that by simp
  qed
  have "lh_sequence x < lh_sequence y"
    if "i < j" "j < N" "g ((?h + 1 + i) mod N) = Some x" "g ((?h + 1 + j) mod N) = Some y" for i j x y
  proof -
    have "unat (lh_sequence x) = i" "unat (lh_sequence y) = j"
      using g [of "(?h + 1 + i) mod N"] g [of "(?h + 1 + j) mod N"] pos [of i] pos [of j] that s by auto
    with that(1) show ?thesis by (simp add: word_less_nat_alt)
  qed
  moreover have "?h < N" "g ?h \<noteq> None" using s g [of ?h] by auto
  moreover have "\<exists>b < N. b \<noteq> ?h \<and> g b \<noteq> None"
  proof -
    define b where "b = (if ?h = 0 then 1 else 0 :: nat)"
    have "b < N" "b \<noteq> ?h" using s by (auto simp: b_def)
    then show ?thesis using g [of b] by (intro exI [of _ b]) auto
  qed
  ultimately show ?thesis unfolding log_head_at_def by blast
qed

text \<open>The ring after a header is added behind its head.\<close>

lemma added_head:
  assumes h: "log_head_at N g h" and new: "lh_sequence lh = lh_sequence (the (g h)) + 1" "lh_sequence (the (g h)) \<noteq> -1"
    and g': "g' (Suc h mod N) = Some lh" "\<And>b. b < N \<Longrightarrow> b \<noteq> Suc h mod N \<Longrightarrow> g' b = g b"
  shows "log_head_at N g' (Suc h mod N)"
proof -
  let ?h = "Suc h mod N"
  obtain b where H: "h < N" "g h \<noteq> None" "b < N" "b \<noteq> h" using h by (auto simp: log_head_at_def)
  then have N: "2 \<le> N" by linarith
  have hh: "?h \<noteq> h" using H(1) N by (auto simp: mod_Suc)
  then have gh: "g' h = g h" using g'(2) H(1) by simp
  have less: "lh_sequence (the (g h)) < lh_sequence lh"
  proof -
    have "unat (lh_sequence (the (g h))) \<noteq> unat (0xFFFFFFFFFFFFFFFF :: u64)" using new(2) by (simp only: word_unat_eq_iff [symmetric] all_ones) simp
    then have "unat (lh_sequence (the (g h))) + 1 < 2 ^ 64" using u64_lt [of "lh_sequence (the (g h))"] by simp
    then have "unat (lh_sequence (the (g h)) + 1) = Suc (unat (lh_sequence (the (g h))))"
      by (subst unat_add_no_wrap) simp_all
    then show ?thesis unfolding new(1) word_less_nat_alt by simp
  qed
  have shift: "(?h + 1 + i) mod N = (h + 1 + Suc i) mod N" for i
    using mod_add_left_eq [of "Suc h" N "1 + i"] by (simp add: ac_simps)
  have inc: "lh_sequence x < lh_sequence y"
    if "i < j" "j < N" "g ((h + 1 + i) mod N) = Some x" "g ((h + 1 + j) mod N) = Some y" for i j x y
    using h that unfolding log_head_at_def by blast
  have top: "lh_sequence x \<le> lh_sequence (the (g h))" if "i < N" "g ((h + 1 + i) mod N) = Some x" for i x
  proof (cases "i = N - 1")
    case True
    then have "(h + 1 + i) mod N = h" using H(1) by simp
    with that(2) show ?thesis by simp
  next
    case False
    then have "lh_sequence x < lh_sequence (the (g h))"
      using inc [of i "N - 1" x "the (g h)"] that H(1,2) by auto
    then show ?thesis by simp
  qed
  have ne: "(h + 1 + Suc i) mod N \<noteq> ?h" if "Suc i < N" for i
  proof
    assume "(h + 1 + Suc i) mod N = Suc h mod N"
    then have "N dvd (h + 1 + Suc i) - Suc h" using mod_eq_dvd_iff_nat [of "Suc h" "h + 1 + Suc i" N] by auto
    then show False using that nat_dvd_not_less [of "Suc i" N] by simp
  qed
  have "lh_sequence x < lh_sequence y"
    if ij: "i < j" "j < N" "g' ((?h + 1 + i) mod N) = Some x" "g' ((?h + 1 + j) mod N) = Some y" for i j x y
  proof -
    have x: "g ((h + 1 + Suc i) mod N) = Some x"
      using ij g'(2) ne [of i] H(1) unfolding shift by (metis Suc_lessI less_trans_Suc mod_less_divisor not_less_zero neq0_conv order_less_trans)
    show ?thesis
    proof (cases "Suc j < N")
      case True
      then have "g ((h + 1 + Suc j) mod N) = Some y"
        using ij g'(2) ne [of j] H(1) unfolding shift by (metis mod_less_divisor not_less_zero neq0_conv)
      with x show ?thesis using inc [of "Suc i" "Suc j"] ij True by simp
    next
      case False
      then have "h + 1 + Suc j = Suc h + N" using ij(2) by simp
      then have "(h + 1 + Suc j) mod N = ?h" by (metis mod_add_self2)
      then have "y = lh" using ij(4) g'(1) unfolding shift by simp
      moreover have "lh_sequence x \<le> lh_sequence (the (g h))" using top [of "Suc i"] x ij by simp
      ultimately show ?thesis using less by simp
    qed
  qed
  moreover have "?h < N" using N by simp
  moreover have "\<exists>b < N. b \<noteq> ?h \<and> g' b \<noteq> None" using H gh hh by (intro exI [of _ h]) auto
  ultimately show ?thesis using g'(1) unfolding log_head_at_def by blast
qed


lemma get_be_zero:
  "off + 4 \<le> n \<Longrightarrow> get_be32 (replicate n 0) off = 0"
  by (simp add: get_be32_def slice_def be_val_def numeral_eq_Suc)

lemma clean_header_good:
  fixes blk f :: u32 and seq :: u64 and t fmt :: u32
  assumes n: "120 \<le> n" "length b = n"
  defines "x \<equiv> put_be32 40 blk (put_be32 32 f (put_be64 24 seq (set_meta_header t fmt (memcpy_at 0 (replicate n 0) b))))"
  shows "good_header n blk (put_be32 44 (lgfs2_log_header_hash x) x) = Some (log_header_in (put_be32 44 (lgfs2_log_header_hash x) x))"
    "lh_sequence (log_header_in (put_be32 44 (lgfs2_log_header_hash x) x)) = seq"
    "lh_flags (log_header_in (put_be32 44 (lgfs2_log_header_hash x) x)) = f"
proof -
  have z: "memcpy_at 0 (replicate n 0) b = replicate n 0" using n by (simp add: memcpy_at_def)
  have x: "length x = n" "get_be32 x 44 = 0" "get_be32 x 48 = 0" "get_be32 x 40 = blk" "get_be64 x 24 = seq" "get_be32 x 32 = f"
    using n unfolding x_def z by (simp_all add: set_meta_header_def size_simps field_simps get_be_zero)
  show "good_header n blk (put_be32 44 (lgfs2_log_header_hash x) x) = Some (log_header_in (put_be32 44 (lgfs2_log_header_hash x) x))"
    using x n by (simp add: good_header_def log_header_in_def size_simps field_simps hash_ignores_hash)
  show "lh_sequence (log_header_in (put_be32 44 (lgfs2_log_header_hash x) x)) = seq"
    "lh_flags (log_header_in (put_be32 44 (lgfs2_log_header_hash x) x)) = f"
    using x n by (simp_all add: log_header_in_def size_simps field_simps)
qed

text \<open>A new journal, with the place of its head.\<close>

lemma new_journal_on:
  assumes "extent_geom sdp ip n" "height_fits sdp ip n" "unat (i_size ip) = n * unat (sd_bsize sdp)"
    and "i_blocks ip = of_nat (jdata sdp ip n + n)" "2 \<le> n" "n \<le> 2 ^ 31" "unat seq0 < n"
    and "\<forall>i < jdata sdp ip n + n. d (in_addr (i_num ip) + of_nat i) \<noteq> None"
    and "(n + 1) * unat (sd_bsize sdp) < 2 ^ 64"
  shows "\<exists>d1 d2 v. lgfs2_write_filemeta sdp d ip = Some (0, d1) \<and> lgfs2_write_journal_data sdp seq0 d1 ip = (0, d2)
    \<and> lgfs2_inode_read \<lparr>fs_sdp = sdp, fs_rgtree = t, fs_disk = d2\<rparr> (in_addr (i_num ip)) = Some v
    \<and> journal_on \<lparr>fs_sdp = sdp, fs_rgtree = t, fs_disk = d2\<rparr> ip n v
    \<and> (\<forall>b < n. length (the (d2 (in_addr (i_num ip) + of_nat (jdata sdp ip n + b)))) = unat (sd_bsize sdp))
    \<and> log_head_at n (\<lambda>b. good_header (unat (sd_bsize sdp)) (of_nat b) (the (d2 (in_addr (i_num ip) + of_nat (jdata sdp ip n + b)))))
        (n - 1 - unat seq0)
    \<and> (\<exists>lh. good_header (unat (sd_bsize sdp)) (of_nat (n - 1 - unat seq0))
          (the (d2 (in_addr (i_num ip) + of_nat (jdata sdp ip n + (n - 1 - unat seq0))))) = Some lh
        \<and> unat (lh_sequence lh) = n - 1 \<and> lh_flags lh = (GFS2_LOG_HEAD_UNMOUNT OR GFS2_LOG_HEAD_USERSPACE))"
proof -
  let ?addr = "in_addr (i_num ip)" and ?b = "unat (sd_bsize sdp)" and ?j = "jdata sdp ip n"
  have G: "0 < unat (i_height ip)" "240 \<le> ?b" using assms(1) by (auto simp: extent_geom_def Let_def)
  note A = extent_addrs [OF assms(1)]
  have sz: "unat (i_size ip + ucast (sd_bsize sdp) - 1) = n * ?b + ?b - 1"
  proof -
    have "unat (i_size ip + ucast (sd_bsize sdp)) = n * ?b + ?b"
      using assms(3,9) by (subst unat_add_no_wrap) (simp_all add: unat_u32_u64)
    then show ?thesis using G(2) by (subst unat_sub) (simp_all add: word_le_nat_alt)
  qed
  have "(n * ?b + ?b - 1) div ?b = n"
  proof (rule div_nat_eqI)
    show "?b * n \<le> n * ?b + ?b - 1" "n * ?b + ?b - 1 < ?b * Suc n" using G(2) by (simp_all add: algebra_simps)
  qed
  then have nb: "unat ((i_size ip + ucast (sd_bsize sdp) - 1) div ucast (sd_bsize sdp)) = n"
    by (simp only: unat_div unat_u32_u64 sz)
  have "\<forall>i < ?j. d (?addr + of_nat i) \<noteq> None" using assms(8) by simp
  from write_filemeta_extent [OF assms(1) nb this]
  obtain d1 where d1: "lgfs2_write_filemeta sdp d ip = Some (0, d1)" "dom d1 = dom d" "extent_on sdp ip n d1" by blast
  define blocks where "blocks = (ucast ((i_size ip + ucast (sd_bsize sdp) - 1) div ucast (sd_bsize sdp)) :: u32)"
  have blocks: "unat blocks = n" "unat (ucast blocks :: u64) = n"
    using nb assms(6) by (simp_all add: blocks_def unat_ucast_mod unat_u32_u64)
  have "(ucast blocks :: u64) = of_nat n" by (simp only: blocks(1) [symmetric] of_nat_unat_ucast)
  then have jext0: "?addr + i_blocks ip - ucast blocks = ?addr + of_nat ?j" using assms(4) by simp
  have at: "?addr + of_nat ?j + of_nat i = ?addr + of_nat (?j + i)" for i by simp
  have there: "\<forall>i. 0 \<le> i \<and> i < n \<longrightarrow> d1 (?addr + of_nat ?j + of_nat i) \<noteq> None"
    unfolding at using assms(8) d1(2) by (metis domIff nat_add_left_cancel_less)
  have "\<exists>d2. journal_data_loop ?b (?addr + of_nat ?j) (ucast blocks) [0..<n] (journal_header_init ip (replicate ?b 0)) seq0 d1 = (0, d2)
      \<and> (\<forall>x. (\<forall>i. 0 \<le> i \<and> i < n \<longrightarrow> x \<noteq> ?addr + of_nat ?j + of_nat i) \<longrightarrow> d2 x = d1 x)
      \<and> (\<forall>i. 0 \<le> i \<and> i < n \<longrightarrow> (\<exists>c lh. d2 (?addr + of_nat ?j + of_nat i) = Some c \<and> length c = ?b \<and> good_header ?b (of_nat i) c = Some lh
          \<and> unat (lh_sequence lh) = (unat seq0 + (i - 0)) mod n \<and> lh_flags lh = (GFS2_LOG_HEAD_UNMOUNT OR GFS2_LOG_HEAD_USERSPACE)))"
    using G(2) blocks assms(5,6,7) there by (intro journal_data_spec journal_init_buf) simp_all
  then obtain d2 where d2: "journal_data_loop ?b (?addr + of_nat ?j) (ucast blocks) [0..<n] (journal_header_init ip (replicate ?b 0)) seq0 d1 = (0, d2)"
    "\<And>x. (\<forall>i < n. x \<noteq> ?addr + of_nat (?j + i)) \<Longrightarrow> d2 x = d1 x"
    "\<And>i. i < n \<Longrightarrow> \<exists>c lh. d2 (?addr + of_nat (?j + i)) = Some c \<and> length c = ?b \<and> good_header ?b (of_nat i) c = Some lh
          \<and> unat (lh_sequence lh) = (unat seq0 + i) mod n \<and> lh_flags lh = (GFS2_LOG_HEAD_UNMOUNT OR GFS2_LOG_HEAD_USERSPACE)"
    unfolding at by auto
  have wr: "lgfs2_write_journal_data sdp seq0 d1 ip = (0, d2)"
    using d2(1) blocks(1) assms(5) unfolding lgfs2_write_journal_data_def blocks_def [symmetric] Let_def jext0 by (simp add: max_def)
  have meta: "d2 (?addr + of_nat i) = d1 (?addr + of_nat i)" if "i < ?j" for i
  proof (rule d2(2), intro allI impI)
    fix k assume "k < n"
    then have "(of_nat i :: u64) \<noteq> of_nat (?j + k)" using that A(3) by (subst of_nat_u64_inj) simp_all
    then show "?addr + of_nat i \<noteq> ?addr + of_nat (?j + k)" by simp
  qed
  have on: "extent_on sdp ip n d2" by (rule extent_on_cong [OF d1(3) assms(1) meta])
  have "0 < blocks_for (lev_cap sdp 0) (lev_ptrs (unat (sd_inptrs sdp)) (unat (i_height ip)) n 0)"
    using lev_blocks [OF assms(1) G(1)] by simp
  then obtain c where c: "d2 (?addr + of_nat (lev_offs (unat (sd_inptrs sdp)) (unat (i_height ip)) n 0 + 0)) = Some c"
    "lgfs2_dinode_in inode_zero c = stored ip"
    using on G(1) unfolding extent_on_def Let_def pointer_block_def by blast
  define v where "v = \<lparr>vi = stored ip, vbh = \<lparr>b_blocknr = ?addr, b_data = c, b_modified = False\<rparr>, vown = True\<rparr>"
  let ?fs = "\<lparr>fs_sdp = sdp, fs_rgtree = t, fs_disk = d2\<rparr>"
  have v: "lgfs2_inode_read ?fs ?addr = Some v"
    using c by (simp add: lgfs2_inode_read_def bread_def lgfs2_inode_get_def v_def)
  have j: "journal_on ?fs ip n v"
    using assms(1,2,3,6) on c d2(3) by (fastforce simp: journal_on_def v_def)
  let ?g = "\<lambda>b. good_header ?b (of_nat b) (the (d2 (?addr + of_nat (?j + b))))"
  have g: "\<exists>lh. ?g b = Some lh \<and> unat (lh_sequence lh) = (unat seq0 + b) mod n" if "b < n" for b
    using d2(3) [OF that] by auto
  have "log_head_at n ?g (n - 1 - unat seq0)" by (rule rotated_head [OF assms(7,5) g])
  moreover have "\<forall>b < n. length (the (d2 (?addr + of_nat (?j + b)))) = ?b"
    using d2(3) by fastforce
  moreover have "\<exists>lh. ?g (n - 1 - unat seq0) = Some lh \<and> unat (lh_sequence lh) = n - 1
      \<and> lh_flags lh = (GFS2_LOG_HEAD_UNMOUNT OR GFS2_LOG_HEAD_USERSPACE)"
    using d2(3) [of "n - 1 - unat seq0"] assms(5,7) by auto
  ultimately show ?thesis using d1(1) wr v j by blast
qed

section \<open>Properties\<close>

text \<open>C5. The search for the head of a journal always ends and is right: with readable blocks, at least two
  good log headers and sequence numbers that grow once around the ring, \<open>lgfs2_find_jhead\<close> returns the
  header with the highest sequence number, wherever the ring starts and however many blocks between
  the headers are not headers.\<close>

theorem find_jhead_highest:
  assumes "journal_reads fs ip N g" "log_head_at N g h"
  shows "lgfs2_find_jhead fs ip = Some (Inr (the (g h)))
    \<and> (\<forall>b < N. \<forall>lh. g b = Some lh \<longrightarrow> lh_sequence lh \<le> lh_sequence (the (g h)))"
proof (intro conjI allI impI)
  show "lgfs2_find_jhead fs ip = Some (Inr (the (g h)))" by (rule find_jhead_head [OF assms])
  fix b lh assume b: "b < N" "g b = Some lh"
  have h: "h < N" "g h \<noteq> None" using assms(2) by (auto simp: log_head_at_def)
  define i where "i = (if h < b then b - (h + 1) else b + N - (h + 1))"
  have i: "(h + 1 + i) mod N = b" "i < N" "(h + 1 + (N - 1)) mod N = h" using b(1) h(1) by (auto simp: i_def)
  show "lh_sequence lh \<le> lh_sequence (the (g h))"
  proof (cases "b = h")
    case False
    then have "i < N - 1" using i by (cases "i = N - 1") auto
    moreover obtain x where "g h = Some x" using h(2) by blast
    ultimately have "lh_sequence lh < lh_sequence x"
      using assms(2) i b(2) h(1) unfolding log_head_at_def by (metis diff_less less_numeral_extra(1) less_nat_zero_code neq0_conv)
    then show ?thesis using \<open>g h = Some x\<close> by simp
  qed (use b(2) in simp)
qed


text \<open>C15. A journal that \<open>lgfs2_write_filemeta\<close> and \<open>lgfs2_write_journal_data\<close> make is a clean one: for any
  start \<open>random()\<close> gives its sequence numbers, \<open>lgfs2_find_jhead\<close> reads it back through the block map
  and finds the header with the highest number, with the flag of a clean unmount.\<close>

theorem new_journal_head:
  assumes "extent_geom sdp ip n" "height_fits sdp ip n" "unat (i_size ip) = n * unat (sd_bsize sdp)"
    and "i_blocks ip = of_nat (jdata sdp ip n + n)" "2 \<le> n" "n \<le> 2 ^ 31" "unat seq0 < n"
    and "\<forall>i < jdata sdp ip n + n. d (in_addr (i_num ip) + of_nat i) \<noteq> None"
    and "(n + 1) * unat (sd_bsize sdp) < 2 ^ 64"
  shows "\<exists>d1 d2 v lh. lgfs2_write_filemeta sdp d ip = Some (0, d1) \<and> lgfs2_write_journal_data sdp seq0 d1 ip = (0, d2)
    \<and> lgfs2_inode_read \<lparr>fs_sdp = sdp, fs_rgtree = t, fs_disk = d2\<rparr> (in_addr (i_num ip)) = Some v
    \<and> lgfs2_find_jhead \<lparr>fs_sdp = sdp, fs_rgtree = t, fs_disk = d2\<rparr> v = Some (Inr lh)
    \<and> unat (lh_sequence lh) = n - 1 \<and> lh_flags lh = (GFS2_LOG_HEAD_UNMOUNT OR GFS2_LOG_HEAD_USERSPACE)"
proof -
  obtain d1 d2 v lh where d: "lgfs2_write_filemeta sdp d ip = Some (0, d1)" "lgfs2_write_journal_data sdp seq0 d1 ip = (0, d2)"
    "lgfs2_inode_read \<lparr>fs_sdp = sdp, fs_rgtree = t, fs_disk = d2\<rparr> (in_addr (i_num ip)) = Some v"
    and j: "journal_on \<lparr>fs_sdp = sdp, fs_rgtree = t, fs_disk = d2\<rparr> ip n v"
    and h: "log_head_at n (\<lambda>b. good_header (unat (sd_bsize sdp)) (of_nat b) (the (d2 (in_addr (i_num ip) + of_nat (jdata sdp ip n + b)))))
        (n - 1 - unat seq0)"
    and lh: "good_header (unat (sd_bsize sdp)) (of_nat (n - 1 - unat seq0))
          (the (d2 (in_addr (i_num ip) + of_nat (jdata sdp ip n + (n - 1 - unat seq0))))) = Some lh"
      "unat (lh_sequence lh) = n - 1" "lh_flags lh = (GFS2_LOG_HEAD_UNMOUNT OR GFS2_LOG_HEAD_USERSPACE)"
    using new_journal_on [OF assms, of t] by blast
  have "lgfs2_find_jhead \<lparr>fs_sdp = sdp, fs_rgtree = t, fs_disk = d2\<rparr> v = Some (Inr lh)"
    using find_jhead_head [OF journal_on_reads [OF j]] h lh(1) by (simp del: of_nat_add)
  with d lh(2,3) show ?thesis by blast
qed

text \<open>The file of 100 blocks as a journal.\<close>

definition jnl_example :: gfs2_inode where
  "jnl_example = inode_example\<lparr>i_blocks := 103\<rparr>"

lemma jnl_example_geom:
  "extent_geom sbd_heights jnl_example 100" "height_fits sbd_heights jnl_example 100"
  "in_addr (i_num jnl_example) = 1000" "i_size jnl_example = 51200" "jdata sbd_heights jnl_example 100 = 3" "i_blocks jnl_example = 103"
  using inode_example_geom by (simp_all add: extent_geom_def height_fits_def jnl_example_def inode_example_offs del: lev_offs.simps)

lemma jnl_example_device: "\<forall>i < 103. device_example (1000 + of_nat i) \<noteq> None"
proof (intro allI impI)
  fix i :: nat assume "i < 103"
  then have "unat (1000 + of_nat i :: u64) = 1000 + i" by (subst unat_add_no_wrap) (simp_all add: unat_of_nat_small)
  then show "device_example (1000 + of_nat i) \<noteq> None" using \<open>i < 103\<close> by (simp add: device_example_def word_less_nat_alt)
qed

text \<open>The header that block \<open>b\<close> of it holds.\<close>

abbreviation (input) jnl_header :: "fs \<Rightarrow> nat \<Rightarrow> lgfs2_log_header option" where
  "jnl_header fs b \<equiv> good_header (unat (sd_bsize sbd_heights)) (of_nat b)
     (the (fs_disk fs (in_addr (i_num jnl_example) + of_nat (jdata sbd_heights jnl_example 100 + b))))"

lemma jnl_example_hyps:
  "unat (i_size jnl_example) = 100 * unat (sd_bsize sbd_heights)"
  "i_blocks jnl_example = of_nat (jdata sbd_heights jnl_example 100 + 100)"
  "\<forall>i < jdata sbd_heights jnl_example 100 + 100. device_example (in_addr (i_num jnl_example) + of_nat i) \<noteq> None"
  "(100 + 1) * unat (sd_bsize sbd_heights) < 2 ^ 64"
  using jnl_example_device unfolding jnl_example_geom by simp_all

lemma jnl_example_made:
  "\<exists>d1 fs v. lgfs2_write_filemeta sbd_heights device_example jnl_example = Some (0, d1)
    \<and> lgfs2_write_journal_data sbd_heights 0 d1 jnl_example = (0, fs_disk fs) \<and> fs_sdp fs = sbd_heights
    \<and> journal_on fs jnl_example 100 v
    \<and> (\<forall>b < 100. length (the (fs_disk fs (in_addr (i_num jnl_example) + of_nat (jdata sbd_heights jnl_example 100 + b))))
         = unat (sd_bsize sbd_heights))
    \<and> log_head_at 100 (jnl_header fs) 99 \<and> (\<exists>lh. jnl_header fs 99 = Some lh \<and> unat (lh_sequence lh) = 99)"
proof -
  obtain d1 d2 v where d: "lgfs2_write_filemeta sbd_heights device_example jnl_example = Some (0, d1)"
    "lgfs2_write_journal_data sbd_heights 0 d1 jnl_example = (0, d2)"
    "journal_on \<lparr>fs_sdp = sbd_heights, fs_rgtree = Leaf, fs_disk = d2\<rparr> jnl_example 100 v"
    "\<forall>b < 100. length (the (d2 (in_addr (i_num jnl_example) + of_nat (jdata sbd_heights jnl_example 100 + b))))
       = unat (sd_bsize sbd_heights)"
    and h: "log_head_at 100 (\<lambda>b. good_header (unat (sd_bsize sbd_heights)) (of_nat b)
         (the (d2 (in_addr (i_num jnl_example) + of_nat (jdata sbd_heights jnl_example 100 + b))))) (100 - 1 - unat (0 :: u64))"
    and lh: "\<exists>lh. good_header (unat (sd_bsize sbd_heights)) (of_nat (100 - 1 - unat (0 :: u64)))
         (the (d2 (in_addr (i_num jnl_example) + of_nat (jdata sbd_heights jnl_example 100 + (100 - 1 - unat (0 :: u64)))))) = Some lh
       \<and> unat (lh_sequence lh) = 100 - 1"
    using new_journal_on [OF jnl_example_geom(1,2) jnl_example_hyps(1,2), of 0 device_example Leaf] jnl_example_hyps(3,4)
    by (auto simp del: lev_offs.simps of_nat_add)
  have n: "99 - unat (0 :: u64) = 99" "100 - 1 = (99 :: nat)" by simp_all
  show ?thesis
    using d h [unfolded n] lh [unfolded n]
    by (intro exI [of _ d1] exI [of _ "\<lparr>fs_sdp = sbd_heights, fs_rgtree = Leaf, fs_disk = d2\<rparr>"] exI [of _ v] conjI)
      (simp_all only: fs.simps)
qed

theorem new_journal_head_witness:
  "\<exists>d1 d2 v lh. lgfs2_write_filemeta sbd_heights device_example jnl_example = Some (0, d1)
    \<and> lgfs2_write_journal_data sbd_heights 42 d1 jnl_example = (0, d2)
    \<and> lgfs2_find_jhead \<lparr>fs_sdp = sbd_heights, fs_rgtree = Leaf, fs_disk = d2\<rparr> v = Some (Inr lh) \<and> unat (lh_sequence lh) = 99"
proof -
  have "unat (42 :: u64) < 100" "2 \<le> (100 :: nat)" "(100 :: nat) \<le> 2 ^ 31" "100 - 1 = (99 :: nat)" by simp_all
  then show ?thesis
    using new_journal_head [OF jnl_example_geom(1,2) jnl_example_hyps(1,2), of 42 device_example Leaf] jnl_example_hyps(3,4)
    by metis
qed

text \<open>The cleaning of a journal: one block of the ring is written, which is the head from then on.\<close>

lemma clean_journal_step:
  assumes "journal_on fs ip n v" "\<forall>b < n. length (the (fs_disk fs (in_addr (i_num ip) + of_nat (jdata (fs_sdp fs) ip n + b)))) = unat (sd_bsize (fs_sdp fs))"
    and "log_head_at n (\<lambda>b. good_header (unat (sd_bsize (fs_sdp fs))) (of_nat b)
      (the (fs_disk fs (in_addr (i_num ip) + of_nat (jdata (fs_sdp fs) ip n + b))))) h"
    and "lgfs2_find_jhead fs v = Some (Inr head)" "lh_sequence head \<noteq> -1"
  shows "\<exists>d lh. lgfs2_clean_journal fs v head = Some (0, fs\<lparr>fs_disk := d\<rparr>) \<and> journal_on (fs\<lparr>fs_disk := d\<rparr>) ip n v
    \<and> log_head_at n (\<lambda>b. good_header (unat (sd_bsize (fs_sdp fs))) (of_nat b)
        (the (d (in_addr (i_num ip) + of_nat (jdata (fs_sdp fs) ip n + b))))) (Suc h mod n)
    \<and> lgfs2_find_jhead (fs\<lparr>fs_disk := d\<rparr>) v = Some (Inr lh)
    \<and> lh_sequence lh = lh_sequence head + 1 \<and> lh_flags lh = GFS2_LOG_HEAD_UNMOUNT
    \<and> (\<forall>a. a \<noteq> in_addr (i_num ip) + of_nat (jdata (fs_sdp fs) ip n + Suc h mod n) \<longrightarrow> d a = fs_disk fs a)"
proof -
  let ?addr = "in_addr (i_num ip)" and ?sdp = "fs_sdp fs" and ?b = "unat (sd_bsize (fs_sdp fs))" and ?j = "jdata (fs_sdp fs) ip n"
  let ?g = "\<lambda>d b. good_header ?b (of_nat b) (the (d (?addr + of_nat (?j + b))))"
  have J: "extent_geom ?sdp ip n" "extent_on ?sdp ip n (fs_disk fs)" "n \<le> 2 ^ 31"
    "\<And>b. b < n \<Longrightarrow> fs_disk fs (?addr + of_nat (?j + b)) \<noteq> None"
    using assms(1) by (auto simp: journal_on_def)
  have G: "240 \<le> ?b" "0 < n" using J(1) by (auto simp: extent_geom_def Let_def)
  note A = extent_addrs [OF J(1)] and reads = journal_on_reads [OF assms(1)]
  have h: "h < n" using assms(3) by (simp add: log_head_at_def)
  have head: "head = the (?g (fs_disk fs) h)" "?g (fs_disk fs) h \<noteq> None"
    using find_jhead_head [OF reads assms(3)] assms(3,4) by (auto simp: log_head_at_def)
  then have blkno: "lh_blkno head = of_nat h" by (auto simp: good_header_def Let_def split: if_splits)
  define l where "l = Suc h mod n"
  have l: "l < n" using G(2) by (simp add: l_def)
  have nxt: "gfs2_replay_incr_blk fs v (of_nat h) = of_nat l"
  proof -
    have "h mod n = h" using h by simp
    with ring_next [OF reads, of h] show ?thesis unfolding gfs2_replay_incr_blk_def l_def by (simp only:)
  qed
  obtain c where c: "fs_disk fs (?addr + of_nat (?j + l)) = Some c" using J(4) [OF l] by blast
  then have clen: "length c = ?b" using assms(2) l by (metis option.sel)
  define x where "x = put_be32 40 (of_nat l) (put_be32 32 GFS2_LOG_HEAD_UNMOUNT (put_be64 24 (lh_sequence head + 1)
    (set_meta_header GFS2_METATYPE_LH GFS2_FORMAT_LH (memcpy_at 0 (replicate ?b 0) c))))"
  define y where "y = put_be32 44 (lgfs2_log_header_hash x) x"
  have y: "good_header ?b (of_nat l) y = Some (log_header_in y)" "lh_sequence (log_header_in y) = lh_sequence head + 1"
    "lh_flags (log_header_in y) = GFS2_LOG_HEAD_UNMOUNT"
    using clean_header_good [of ?b c "of_nat l"] G(1) clen unfolding y_def x_def by simp_all
  define d' where "d' = (fs_disk fs)(?addr + of_nat (?j + l) \<mapsto> y)"
  have run: "lgfs2_clean_journal fs v head = Some (0, fs\<lparr>fs_disk := d'\<rparr>)"
    using nxt journal_block_map [OF assms(1) l] c
    by (simp add: lgfs2_clean_journal_def blkno size_simps bread_def fs_brelse_def snd_brelse d'_def y_def x_def Let_def
        del: of_nat_add)
  have other: "d' (?addr + of_nat i) = fs_disk fs (?addr + of_nat i)" if "i < ?j + n" "i \<noteq> ?j + l" for i
  proof -
    have "(of_nat i :: u64) \<noteq> of_nat (?j + l)" using that l A(3) by (subst of_nat_u64_inj) simp_all
    then show ?thesis by (simp add: d'_def)
  qed
  have on: "extent_on ?sdp ip n d'" by (rule extent_on_cong [OF J(2,1)]) (simp add: other)
  have inode: "d' ?addr = fs_disk fs ?addr" using other [of 0] A(2) by simp
  have there: "d' (?addr + of_nat (?j + b)) \<noteq> None" if "b < n" for b
    using other [of "?j + b"] J(4) [OF that] that by (cases "b = l") (simp_all add: d'_def del: of_nat_add)
  have j': "journal_on (fs\<lparr>fs_disk := d'\<rparr>) ip n v"
    using assms(1) on inode there by (simp add: journal_on_def del: of_nat_add)
  have head': "log_head_at n (?g d') (Suc h mod n)"
  proof (rule added_head [OF assms(3)])
    show "?g d' (Suc h mod n) = Some (log_header_in y)" using y(1) by (simp add: l_def [symmetric] d'_def)
    show "?g d' b = ?g (fs_disk fs) b" if "b < n" "b \<noteq> Suc h mod n" for b
      using other [of "?j + b"] that by (simp add: l_def del: of_nat_add)
  qed (use y(2) head(1) assms(5) in simp_all)
  from find_jhead_head [OF journal_on_reads [OF j']] head'
  have "lgfs2_find_jhead (fs\<lparr>fs_disk := d'\<rparr>) v = Some (Inr (the (?g d' (Suc h mod n))))" by simp
  also have "the (?g d' (Suc h mod n)) = log_header_in y" using y(1) by (simp add: l_def [symmetric] d'_def)
  finally have "lgfs2_find_jhead (fs\<lparr>fs_disk := d'\<rparr>) v = Some (Inr (log_header_in y))" .
  then show ?thesis using run y(2,3) j' head' by (intro exI [of _ d'] exI [of _ "log_header_in y"]) (simp add: d'_def l_def)
qed

text \<open>\<open>lgfs2_clean_journal\<close> does what recovery relies on: given the head of a journal it writes a good header
  into the next block of the ring, and from then on \<open>lgfs2_find_jhead\<close> finds that header as the head,
  with the next sequence number and the flag of a clean unmount.\<close>

theorem clean_journal_head:
  assumes "journal_on fs ip n v" "\<forall>b < n. length (the (fs_disk fs (in_addr (i_num ip) + of_nat (jdata (fs_sdp fs) ip n + b)))) = unat (sd_bsize (fs_sdp fs))"
    and "log_head_at n (\<lambda>b. good_header (unat (sd_bsize (fs_sdp fs))) (of_nat b)
      (the (fs_disk fs (in_addr (i_num ip) + of_nat (jdata (fs_sdp fs) ip n + b))))) h"
    and "lgfs2_find_jhead fs v = Some (Inr head)" "lh_sequence head \<noteq> -1"
  shows "\<exists>fs' lh. lgfs2_clean_journal fs v head = Some (0, fs') \<and> lgfs2_find_jhead fs' v = Some (Inr lh)
    \<and> lh_sequence lh = lh_sequence head + 1 \<and> lh_flags lh = GFS2_LOG_HEAD_UNMOUNT"
  using clean_journal_step [OF assms] by blast

text \<open>The new journal is a ring that the search and the cleaning apply to.\<close>

theorem find_jhead_highest_witness:
  "\<exists>fs v g lh. journal_reads fs v 100 g \<and> lgfs2_find_jhead fs v = Some (Inr lh)
     \<and> (\<forall>b < 100. \<forall>x. g b = Some x \<longrightarrow> lh_sequence x \<le> lh_sequence lh)"
proof -
  obtain fs v where fs: "fs_sdp fs = sbd_heights" and j: "journal_on fs jnl_example 100 v"
    and h: "log_head_at 100 (jnl_header fs) 99"
    using jnl_example_made by blast
  have "journal_reads fs v 100 (jnl_header fs)" using journal_on_reads [OF j] unfolding fs .
  then show ?thesis using find_jhead_highest h by blast
qed

theorem clean_journal_head_witness:
  "\<exists>fs v head fs' lh. lgfs2_clean_journal fs v head = Some (0, fs') \<and> lgfs2_find_jhead fs' v = Some (Inr lh)
    \<and> unat (lh_sequence head) = 99 \<and> lh_sequence lh = lh_sequence head + 1"
proof -
  obtain fs v head where fs: "fs_sdp fs = sbd_heights" and j: "journal_on fs jnl_example 100 v"
    and len: "\<forall>b < 100. length (the (fs_disk fs (in_addr (i_num jnl_example) + of_nat (jdata sbd_heights jnl_example 100 + b))))
       = unat (sd_bsize sbd_heights)"
    and h: "log_head_at 100 (jnl_header fs) 99" and head: "jnl_header fs 99 = Some head" "unat (lh_sequence head) = 99"
    using jnl_example_made by blast
  have "lgfs2_find_jhead fs v = Some (Inr head)"
    using find_jhead_head [OF journal_on_reads [OF j, unfolded fs] h] head(1) by simp
  moreover have "lh_sequence head \<noteq> -1"
  proof
    assume "lh_sequence head = -1"
    then have "(of_nat 99 :: u64) = -1" using head(2) by (metis of_nat_unat ucast_id)
    then show False by simp
  qed
  ultimately show ?thesis
    using clean_journal_head [OF j, unfolded fs, OF len h] head(2) by blast
qed

end
