(* ===== verification/DirBlk.thy ===== *)
theory DirBlk
  imports FsFile
begin

text \<open>
  Directory blocks (fs_ops.c): the chain of entries of a block, room for a new entry, the removal of one
  and the search for a name. A block is a leaf or the inode's own block.

  A pointer to an entry is its place in the block. When the block is the inode's own, the caller puts
  the buffer of the result back into the inode.
\<close>

section \<open>Entries\<close>

abbreviation (input) ENOENT :: int where "ENOENT \<equiv> 2"

definition GFS2_DIRENT_SIZE :: "nat \<Rightarrow> nat" where
  "GFS2_DIRENT_SIZE name_len = (sizeof struct_gfs2_dirent + name_len + 7) div 8 * 8"

text \<open>The members of the entry at \<open>o\<close>; the name follows the structure.\<close>

definition de_ino :: "bytes \<Rightarrow> nat \<Rightarrow> u64" where
  "de_ino buf off = get_be64 buf (off + offsetof struct_gfs2_dirent ''de_inum'' + offsetof struct_gfs2_inum ''no_formal_ino'')"
definition de_addr :: "bytes \<Rightarrow> nat \<Rightarrow> u64" where
  "de_addr buf off = get_be64 buf (off + offsetof struct_gfs2_dirent ''de_inum'' + offsetof struct_gfs2_inum ''no_addr'')"
definition de_hash :: "bytes \<Rightarrow> nat \<Rightarrow> u32" where
  "de_hash buf off = get_be32 buf (off + offsetof struct_gfs2_dirent ''de_hash'')"
definition de_rec_len :: "bytes \<Rightarrow> nat \<Rightarrow> u16" where
  "de_rec_len buf off = get_be16 buf (off + offsetof struct_gfs2_dirent ''de_rec_len'')"
definition de_name_len :: "bytes \<Rightarrow> nat \<Rightarrow> u16" where
  "de_name_len buf off = get_be16 buf (off + offsetof struct_gfs2_dirent ''de_name_len'')"
definition de_type :: "bytes \<Rightarrow> nat \<Rightarrow> u16" where
  "de_type buf off = get_be16 buf (off + offsetof struct_gfs2_dirent ''de_type'')"
definition de_name :: "bytes \<Rightarrow> nat \<Rightarrow> bytes" where
  "de_name buf off = slice (off + sizeof struct_gfs2_dirent) (unat (de_name_len buf off)) buf"

definition put_de_rec_len :: "nat \<Rightarrow> u16 \<Rightarrow> bytes \<Rightarrow> bytes" where
  "put_de_rec_len off = put_be16 (off + offsetof struct_gfs2_dirent ''de_rec_len'')"
definition put_de_name_len :: "nat \<Rightarrow> u16 \<Rightarrow> bytes \<Rightarrow> bytes" where
  "put_de_name_len off = put_be16 (off + offsetof struct_gfs2_dirent ''de_name_len'')"

text \<open>The number of entries in the header of a leaf.\<close>

definition leaf_entries :: "bytes \<Rightarrow> u16" where
  "leaf_entries buf = get_be16 buf (offsetof struct_gfs2_leaf ''lf_entries'')"
definition put_leaf_entries :: "u16 \<Rightarrow> bytes \<Rightarrow> bytes" where
  "put_leaf_entries = put_be16 (offsetof struct_gfs2_leaf ''lf_entries'')"

section \<open>Walking a block\<close>

datatype dir_block = IS_LEAF | IS_DINODE

definition gfs2_dirent_first :: "bytes \<Rightarrow> dir_block \<times> nat" where
  "gfs2_dirent_first buf =
     (if get_be32 buf (offsetof struct_gfs2_meta_header ''mh_type'') = GFS2_METATYPE_LF
      then (IS_LEAF, sizeof struct_gfs2_leaf) else (IS_DINODE, sizeof struct_gfs2_dinode))"

text \<open>None is \<open>-ENOENT\<close>.\<close>

definition gfs2_dirent_next :: "nat \<Rightarrow> bytes \<Rightarrow> nat \<Rightarrow> nat option" where
  "gfs2_dirent_next bsize buf dent =
     (let cur_rec_len = unat (de_rec_len buf dent) in
      if cur_rec_len = 0 \<or> bsize \<le> dent + cur_rec_len then None else Some (dent + cur_rec_len))"

lemma dirent_next_bounds: "gfs2_dirent_next bsize buf dent = Some d \<Longrightarrow> dent < d \<and> d < bsize"
  by (auto simp: gfs2_dirent_next_def Let_def split: if_splits)

section \<open>Room for an entry\<close>

text \<open>None is no room.\<close>

function dirent_alloc_loop :: "nat \<Rightarrow> nat \<Rightarrow> bytes \<Rightarrow> nat \<Rightarrow> (nat \<times> bytes) option" where
  "dirent_alloc_loop bsize name_len buf dent =
     (let rec_len = GFS2_DIRENT_SIZE name_len;
          cur_rec_len = unat (de_rec_len buf dent);
          cur_size = GFS2_DIRENT_SIZE (unat (de_name_len buf dent))
      in if de_ino buf dent = 0 \<and> rec_len \<le> cur_rec_len \<or> cur_size + rec_len \<le> cur_rec_len then
           if de_ino buf dent \<noteq> 0 then
             let new = dent + cur_size;
                 buf = memset_at new 0 (sizeof struct_gfs2_dirent) buf;
                 buf = put_de_rec_len new (of_nat (cur_rec_len - cur_size)) buf;
                 buf = put_de_name_len new (of_nat name_len) buf;
                 new_rec_len = de_rec_len buf new;
                 buf = put_de_rec_len dent (of_nat cur_rec_len - new_rec_len) buf
             in Some (new, buf)
           else Some (dent, put_de_name_len dent (of_nat name_len) buf)
         else
           case gfs2_dirent_next bsize buf dent of None \<Rightarrow> None
           | Some next_dent \<Rightarrow> dirent_alloc_loop bsize name_len buf next_dent)"
  by pat_completeness auto
termination
  by (relation "measure (\<lambda>(bsize, _, _, dent). bsize - dent)") (auto dest: dirent_next_bounds)

declare dirent_alloc_loop.simps [simp del]

text \<open>The entry's place, the block and the directory, whose count goes up; None is \<open>ENOSPC\<close>.\<close>

definition dirent_alloc ::
  "gfs2_sbd \<Rightarrow> vinode \<Rightarrow> gfs2_buffer_head \<Rightarrow> nat \<Rightarrow> (nat \<times> gfs2_buffer_head \<times> vinode) option" where
  "dirent_alloc sdp dip bh name_len =
     (let bsize = unat (sd_bsize sdp);
          (type, dent) = gfs2_dirent_first (b_data bh);
          (entries, offset) =
            (case type of
               IS_LEAF \<Rightarrow> (unat (leaf_entries (b_data bh)), sizeof struct_gfs2_leaf)
             | IS_DINODE \<Rightarrow> (unat (get_be32 (b_data bh) (offsetof struct_gfs2_dinode ''di_entries'')), sizeof struct_gfs2_dinode));
          found =
            (if entries = 0
             then Some (dent, put_de_name_len dent (of_nat name_len) (put_de_rec_len dent (of_nat (bsize - offset)) (b_data bh)))
             else dirent_alloc_loop bsize name_len (b_data bh) dent)
      in case found of None \<Rightarrow> None
         | Some (new, buf) \<Rightarrow>
             Some (new, bmodified (bh\<lparr>b_data := buf\<rparr>),
                   dip\<lparr>vi := (vi dip)\<lparr>i_entries := i_entries (vi dip) + 1\<rparr>, vbh := bmodified (vbh dip)\<rparr>))"

text \<open>What goes into it: the inode, the hash, the type and the name.\<close>

definition dirent_fill :: "nat \<Rightarrow> lgfs2_inum \<Rightarrow> u32 \<Rightarrow> u16 \<Rightarrow> bytes \<Rightarrow> bytes \<Rightarrow> bytes" where
  "dirent_fill dent inum hash type filename = assigns [
     (\<lambda>m. lgfs2_inum_out inum m (dent + offsetof struct_gfs2_dirent ''de_inum'')),
     put_be32 (dent + offsetof struct_gfs2_dirent ''de_hash'') hash,
     put_be16 (dent + offsetof struct_gfs2_dirent ''de_type'') type,
     memcpy_at (dent + sizeof struct_gfs2_dirent) filename]"

section \<open>Removal of an entry\<close>

definition dirent2_del ::
  "vinode \<Rightarrow> gfs2_buffer_head \<Rightarrow> nat option \<Rightarrow> nat \<Rightarrow> gfs2_buffer_head \<times> vinode" where
  "dirent2_del dip bh prev cur =
     (let buf = b_data bh;
          buf = (if gfs2_check_meta buf GFS2_METATYPE_LF = 0 then put_leaf_entries (leaf_entries buf - 1) buf else buf);
          dip = (if i_entries (vi dip) \<noteq> 0
                 then dip\<lparr>vbh := bmodified (vbh dip), vi := (vi dip)\<lparr>i_entries := i_entries (vi dip) - 1\<rparr>\<rparr> else dip);
          buf = (case prev of
                   None \<Rightarrow> lgfs2_inum_out \<lparr>in_formal_ino = 0, in_addr = 0\<rparr> buf (cur + offsetof struct_gfs2_dirent ''de_inum'')
                 | Some prev \<Rightarrow> put_de_rec_len prev (de_rec_len buf prev + de_rec_len buf cur) buf)
      in (bmodified (bh\<lparr>b_data := buf\<rparr>), dip))"

section \<open>The search for a name\<close>

text \<open>\<open>file1\<close> is the string before its NUL.\<close>

definition gfs2_filecmp :: "bytes \<Rightarrow> bytes \<Rightarrow> nat \<Rightarrow> bool" where
  "gfs2_filecmp file1 file2 len_of_file2 \<longleftrightarrow> length file1 = len_of_file2 \<and> file1 = take len_of_file2 file2"

text \<open>The place of the entry and of the one before it.\<close>

function leaf_search_loop ::
  "nat \<Rightarrow> bytes \<Rightarrow> nat \<Rightarrow> u32 \<Rightarrow> bytes \<Rightarrow> nat \<Rightarrow> nat \<Rightarrow> nat option \<Rightarrow> int + (nat \<times> nat option)" where
  "leaf_search_loop bsize buf entries hash filename x dent prev =
     (let go = (\<lambda>x. case gfs2_dirent_next bsize buf dent of None \<Rightarrow> Inl (- ENOENT)
                    | Some next_dent \<Rightarrow> leaf_search_loop bsize buf entries hash filename x next_dent (Some dent))
      in if de_ino buf dent = 0 then go x
         else if de_hash buf dent = hash
              \<and> gfs2_filecmp filename (drop (dent + sizeof struct_gfs2_dirent) buf) (unat (de_name_len buf dent))
         then Inr (dent, prev)
         else if entries \<le> x then Inl (-1)
         else go (x + 1))"
  by pat_completeness auto
termination
  by (relation "measure (\<lambda>(bsize, _, _, _, _, _, dent, _). bsize - dent)") (auto dest: dirent_next_bounds)

declare leaf_search_loop.simps [simp del]

text \<open>\<open>len\<close> is the length of the name in every call.\<close>

definition leaf_search :: "gfs2_sbd \<Rightarrow> vinode \<Rightarrow> bytes \<Rightarrow> bytes \<Rightarrow> int + (nat \<times> nat option)" where
  "leaf_search sdp dip buf filename =
     (let (type, dent) = gfs2_dirent_first buf;
          entries = (case type of IS_LEAF \<Rightarrow> unat (leaf_entries buf) | IS_DINODE \<Rightarrow> unat (i_entries (vi dip)));
          hash = gfs2_disk_hash filename
      in leaf_search_loop (unat (sd_bsize sdp)) buf entries hash filename 0 dent None)"


section \<open>Chains of entries\<close>

lemma de_simps:
  "de_ino buf off = get_be64 buf off" "de_addr buf off = get_be64 buf (off + 8)" "de_hash buf off = get_be32 buf (off + 16)"
  "de_rec_len buf off = get_be16 buf (off + 20)" "de_name_len buf off = get_be16 buf (off + 22)"
  "de_type buf off = get_be16 buf (off + 24)" "de_name buf off = slice (off + 40) (unat (get_be16 buf (off + 22))) buf"
  "put_de_rec_len off = put_be16 (off + 20)" "put_de_name_len off = put_be16 (off + 22)"
  "leaf_entries buf = get_be16 buf 26" "put_leaf_entries = put_be16 26"
  by (simp_all add: de_ino_def de_addr_def de_hash_def de_rec_len_def de_name_len_def de_type_def de_name_def
      put_de_rec_len_def put_de_name_len_def leaf_entries_def put_leaf_entries_def size_simps)

lemma length_de_puts [simp]:
  "length (put_de_rec_len off v buf) = length buf" "length (put_de_name_len off w buf) = length buf"
  "length (put_leaf_entries e buf) = length buf"
  by (simp_all add: de_simps)

lemma dirent_size: "GFS2_DIRENT_SIZE n = (n + 47) div 8 * 8" "n + 40 \<le> GFS2_DIRENT_SIZE n" "8 dvd GFS2_DIRENT_SIZE n"
  by (simp_all add: GFS2_DIRENT_SIZE_def size_simps ac_simps)

text \<open>An entry has at least its structure, a live one also its name; lengths are multiples of eight.\<close>

definition dent_ok :: "bytes \<Rightarrow> nat \<Rightarrow> bool" where
  "dent_ok buf off \<longleftrightarrow> 40 \<le> unat (de_rec_len buf off) \<and> 8 dvd unat (de_rec_len buf off) \<and>
     (de_ino buf off \<noteq> 0 \<longrightarrow> GFS2_DIRENT_SIZE (unat (de_name_len buf off)) \<le> unat (de_rec_len buf off))"

text \<open>The entries at \<open>os\<close> follow each other without a gap from \<open>off\<close> to \<open>e\<close>.\<close>

primrec tiles :: "bytes \<Rightarrow> nat \<Rightarrow> nat list \<Rightarrow> nat \<Rightarrow> bool" where
  "tiles buf off [] e \<longleftrightarrow> off = e"
| "tiles buf off (d # ds) e \<longleftrightarrow> d = off \<and> dent_ok buf d \<and> tiles buf (d + unat (de_rec_len buf d)) ds e"

lemma tiles_append: "tiles buf off (xs @ ys) e \<longleftrightarrow> (\<exists>m. tiles buf off xs m \<and> tiles buf m ys e)"
  by (induction xs arbitrary: off) auto

lemma tiles_le: "tiles buf off ds e \<Longrightarrow> off \<le> e \<and> (ds \<noteq> [] \<longrightarrow> off + 40 \<le> e)"
  by (induction ds arbitrary: off) (fastforce simp: dent_ok_def)+

lemma tiles_range:
  "tiles buf off ds e \<Longrightarrow> d \<in> set ds \<Longrightarrow> off \<le> d \<and> d + unat (de_rec_len buf d) \<le> e \<and> dent_ok buf d"
  by (induction ds arbitrary: off) (fastforce dest: tiles_le)+

lemma tiles_head: "tiles buf off ds e \<Longrightarrow> ds \<noteq> [] \<Longrightarrow> hd ds = off"
  by (cases ds) auto

lemma tiles_next:
  assumes "tiles buf off (d # ds) e"
  shows "gfs2_dirent_next e buf d = (if ds = [] then None else Some (hd ds))"
proof (cases ds)
  case Nil
  with assms show ?thesis by (auto simp: gfs2_dirent_next_def Let_def)
next
  case (Cons d2 ds2)
  then have "d2 = d + unat (de_rec_len buf d)" "dent_ok buf d" "d2 + 40 \<le> e"
    using assms tiles_le [of buf d2 ds e] by auto
  with Cons show ?thesis by (simp add: gfs2_dirent_next_def dent_ok_def Let_def)
qed

text \<open>The chain of a block, as \<open>gfs2_dirent_next\<close> walks it.\<close>

function dirents :: "nat \<Rightarrow> bytes \<Rightarrow> nat \<Rightarrow> nat list" where
  "dirents n buf d = d # (case gfs2_dirent_next n buf d of None \<Rightarrow> [] | Some d2 \<Rightarrow> dirents n buf d2)"
  by pat_completeness auto
termination
  by (relation "measure (\<lambda>(n, _, d). n - d)") (auto dest: dirent_next_bounds)

declare dirents.simps [simp del]

lemma dirents_tiles: "tiles buf d ds n \<Longrightarrow> ds \<noteq> [] \<Longrightarrow> dirents n buf d = ds"
proof (induction ds arbitrary: d)
  case (Cons d' ds)
  then have t: "tiles buf d (d # ds) n" and d: "d' = d" by auto
  show ?case
  proof (cases ds)
    case Nil
    then show ?thesis using tiles_next [OF t] d by (subst dirents.simps) simp
  next
    case (Cons d2 ds2)
    then have "dirents n buf d2 = ds" using Cons.IH t by auto
    then show ?thesis using tiles_next [OF t] Cons d by (subst dirents.simps) simp
  qed
qed simp

text \<open>An entry is its name, hash, inode and type.\<close>

type_synonym dir_entry = "bytes \<times> u32 \<times> lgfs2_inum \<times> u16"

definition entry_at :: "bytes \<Rightarrow> nat \<Rightarrow> dir_entry" where
  "entry_at buf d = (de_name buf d, de_hash buf d, \<lparr>in_formal_ino = de_ino buf d, in_addr = de_addr buf d\<rparr>, de_type buf d)"

definition live :: "bytes \<Rightarrow> nat \<Rightarrow> bool" where
  "live buf d \<longleftrightarrow> de_ino buf d \<noteq> 0"

definition entries_at :: "bytes \<Rightarrow> nat list \<Rightarrow> dir_entry list" where
  "entries_at buf ds = map (entry_at buf) (filter (live buf) ds)"

lemma entries_at_simps [simp]:
  "entries_at buf [] = []" "entries_at buf (d # ds) = (if live buf d then entry_at buf d # entries_at buf ds else entries_at buf ds)"
  "entries_at buf (xs @ ys) = entries_at buf xs @ entries_at buf ys"
  by (simp_all add: entries_at_def)

text \<open>What is in an entry does not depend on bytes outside it.\<close>

definition agree :: "nat \<Rightarrow> nat \<Rightarrow> bytes \<Rightarrow> bytes \<Rightarrow> bool" where
  "agree a b buf buf' \<longleftrightarrow> length buf' = length buf \<and> b \<le> length buf \<and> (\<forall>i. a \<le> i \<and> i < b \<longrightarrow> buf' ! i = buf ! i)"

lemma agree_slice: "agree a b buf buf' \<Longrightarrow> a \<le> off \<Longrightarrow> off + n \<le> b \<Longrightarrow> slice off n buf' = slice off n buf"
  by (rule slice_nth_eqI) (auto simp: agree_def)

lemma agree_fields:
  assumes "agree d e buf buf'" "d + 40 \<le> e"
  shows "de_ino buf' d = de_ino buf d" "de_addr buf' d = de_addr buf d" "de_hash buf' d = de_hash buf d"
    "de_rec_len buf' d = de_rec_len buf d" "de_name_len buf' d = de_name_len buf d" "de_type buf' d = de_type buf d"
    "live buf' d = live buf d"
  using assms by (simp_all add: live_def de_simps get_be64_def get_be32_def get_be16_def agree_slice)

lemma agree_entry:
  assumes a: "agree d e buf buf'" and ok: "dent_ok buf d" "d + unat (de_rec_len buf d) \<le> e"
  shows "dent_ok buf' d = dent_ok buf d" "live buf d \<Longrightarrow> entry_at buf' d = entry_at buf d"
    "de_rec_len buf' d = de_rec_len buf d" "live buf' d = live buf d"
proof -
  have e: "d + 40 \<le> e" using ok by (simp add: dent_ok_def)
  note f = agree_fields [OF a e]
  show "dent_ok buf' d = dent_ok buf d" "de_rec_len buf' d = de_rec_len buf d" "live buf' d = live buf d"
    using f by (simp_all add: dent_ok_def)
  assume "live buf d"
  then have "d + 40 + unat (de_name_len buf d) \<le> e"
    using ok dirent_size(2) [of "unat (de_name_len buf d)"] by (simp add: dent_ok_def live_def)
  then have "de_name buf' d = de_name buf d"
    using f(5) agree_slice [OF a, of "d + 40" "unat (de_name_len buf d)"] by (simp add: de_simps)
  then show "entry_at buf' d = entry_at buf d" using f by (simp add: entry_at_def)
qed

lemma agree_mono: "agree a b buf buf' \<Longrightarrow> a \<le> c \<Longrightarrow> d \<le> b \<Longrightarrow> agree c d buf buf'"
  by (simp add: agree_def)

lemma agree_tiles:
  "agree off e buf buf' \<Longrightarrow> tiles buf off ds e \<Longrightarrow> tiles buf' off ds e \<and> entries_at buf' ds = entries_at buf ds"
proof (induction ds arbitrary: off)
  case (Cons d ds)
  then have t: "d = off" "dent_ok buf d" "tiles buf (d + unat (de_rec_len buf d)) ds e" by auto
  then have le: "d + unat (de_rec_len buf d) \<le> e" using tiles_le by blast
  have a: "agree d e buf buf'" using Cons.prems(1) t(1) by simp
  have "agree (d + unat (de_rec_len buf d)) e buf buf'" using a by (rule agree_mono) simp_all
  then have "tiles buf' (d + unat (de_rec_len buf d)) ds e \<and> entries_at buf' ds = entries_at buf ds"
    using Cons.IH t(3) by blast
  then show ?case using agree_entry [OF a t(2) le] t(2,3) unfolding t(1) [symmetric] by simp
qed simp

lemma agree_outside:
  assumes "agree 0 a buf buf'" "agree b (length buf) buf buf'" "tiles buf off xs a" "tiles buf b ys (length buf)"
  shows "tiles buf' off xs a" "tiles buf' b ys (length buf)" "entries_at buf' xs = entries_at buf xs"
    "entries_at buf' ys = entries_at buf ys"
  using agree_tiles [OF agree_mono [OF assms(1), of off a] assms(3)] agree_tiles [OF assms(2,4)] by simp_all

lemma agree_memcpy:
  "off + length bs \<le> length buf \<Longrightarrow> b \<le> off \<or> off + length bs \<le> a \<Longrightarrow> b \<le> length buf \<Longrightarrow> agree a b buf (memcpy_at off bs buf)"
  by (auto simp: agree_def nth_memcpy_other)

lemma agree_trans: "agree a b x y \<Longrightarrow> agree a b y z \<Longrightarrow> agree a b x z"
  by (simp add: agree_def)


section \<open>Room for an entry\<close>

text \<open>An entry that has room, and the room that \<open>dirent_alloc\<close> takes from it.\<close>

definition fits :: "bytes \<Rightarrow> nat \<Rightarrow> nat \<Rightarrow> bool" where
  "fits buf len d \<longleftrightarrow> \<not> live buf d \<and> GFS2_DIRENT_SIZE len \<le> unat (de_rec_len buf d) \<or>
     GFS2_DIRENT_SIZE (unat (de_name_len buf d)) + GFS2_DIRENT_SIZE len \<le> unat (de_rec_len buf d)"

definition split_entry :: "bytes \<Rightarrow> nat \<Rightarrow> nat \<Rightarrow> nat \<times> bytes" where
  "split_entry buf len d =
     (let s = GFS2_DIRENT_SIZE (unat (de_name_len buf d)); r = unat (de_rec_len buf d);
          buf = put_de_name_len (d + s) (of_nat len) (put_de_rec_len (d + s) (of_nat (r - s)) (memset_at (d + s) 0 40 buf))
      in (d + s, put_de_rec_len d (of_nat r - de_rec_len buf (d + s)) buf))"

lemma alloc_loop_spec:
  "tiles buf d ds n \<Longrightarrow> ds \<noteq> [] \<Longrightarrow>
    (case dirent_alloc_loop n len buf d of
       None \<Rightarrow> \<forall>x \<in> set ds. \<not> fits buf len x
     | Some r \<Rightarrow> \<exists>xs x ys. ds = xs @ x # ys \<and> fits buf len x \<and> (\<forall>y \<in> set xs. \<not> fits buf len y) \<and>
         r = (if live buf x then split_entry buf len x else (x, put_de_name_len x (of_nat len) buf)))"
proof (induction ds arbitrary: d)
  case (Cons d' ds)
  then have d: "d' = d" and t: "tiles buf d (d # ds) n" by auto
  show ?case
  proof (cases "fits buf len d")
    case True
    then have "dirent_alloc_loop n len buf d
        = Some (if live buf d then split_entry buf len d else (d, put_de_name_len d (of_nat len) buf))"
      by (subst dirent_alloc_loop.simps) (auto simp: fits_def live_def split_entry_def size_simps Let_def)
    then show ?thesis using True
      by (simp only: option.case d) (rule exI [of _ "[]"], rule exI [of _ d], rule exI [of _ ds], simp)
  next
    case False
    then have step: "dirent_alloc_loop n len buf d = (case gfs2_dirent_next n buf d of None \<Rightarrow> None
        | Some d2 \<Rightarrow> dirent_alloc_loop n len buf d2)"
      by (subst dirent_alloc_loop.simps) (auto simp: fits_def live_def Let_def)
    show ?thesis
    proof (cases ds)
      case Nil
      then show ?thesis using step tiles_next [OF t] False d by simp
    next
      case (Cons d2 ds2)
      have "tiles buf d2 ds n" using t Cons by auto
      from Cons.IH [OF this] Cons.IH Cons have ih: "case dirent_alloc_loop n len buf d2 of
          None \<Rightarrow> \<forall>x \<in> set ds. \<not> fits buf len x
        | Some r \<Rightarrow> \<exists>xs x ys. ds = xs @ x # ys \<and> fits buf len x \<and> (\<forall>y \<in> set xs. \<not> fits buf len y) \<and>
            r = (if live buf x then split_entry buf len x else (x, put_de_name_len x (of_nat len) buf))" by simp
      have go: "dirent_alloc_loop n len buf d = dirent_alloc_loop n len buf d2" using step tiles_next [OF t] Cons by simp
      show ?thesis
      proof (cases "dirent_alloc_loop n len buf d2")
        case None
        then show ?thesis using ih step tiles_next [OF t] Cons False d by simp
      next
        case (Some r)
        then obtain xs x ys where "ds = xs @ x # ys" "fits buf len x" "\<forall>y \<in> set xs. \<not> fits buf len y"
          "r = (if live buf x then split_entry buf len x else (x, put_de_name_len x (of_nat len) buf))" using ih by auto
        then show ?thesis using Some go False d
          by (auto intro!: exI [of _ "d # xs"])
      qed
    qed
  qed
qed simp

text \<open>A free entry, at a place in a chain, with room for a name of \<open>len\<close> bytes.\<close>

definition free_at :: "bytes \<Rightarrow> nat \<Rightarrow> nat \<Rightarrow> bool" where
  "free_at buf len d \<longleftrightarrow> \<not> live buf d \<and> GFS2_DIRENT_SIZE len \<le> unat (de_rec_len buf d) \<and> unat (de_name_len buf d) = len"

lemma get_put_other:
  "agree off (off + 40) buf (put_be16 p v buf)" if "p + 2 \<le> off \<or> off + 40 \<le> p" "p + 2 \<le> length buf" "off + 40 \<le> length buf"
  unfolding put_be16_def using that by (intro agree_memcpy) auto

lemma split_entry_spec:
  assumes t: "tiles buf off (xs @ x # ys) n" and n: "length buf = n" "n \<le> 65536" and x: "live buf x" "fits buf len x" and len: "len < 65536"
    and r: "split_entry buf len x = (new, buf')"
  shows "length buf' = n \<and> tiles buf' off (xs @ x # new # ys) n \<and> entries_at buf' (xs @ x # new # ys) = entries_at buf (xs @ x # ys)
    \<and> free_at buf' len new \<and> agree 0 off buf buf'
    \<and> unat (de_rec_len buf' x) = GFS2_DIRENT_SIZE (unat (de_name_len buf x)) \<and> de_name_len buf' x = de_name_len buf x
    \<and> new = x + GFS2_DIRENT_SIZE (unat (de_name_len buf x)) \<and> agree 0 x buf buf' \<and> live buf' x"
proof -
  define s where "s = GFS2_DIRENT_SIZE (unat (de_name_len buf x))"
  define R where "R = unat (de_rec_len buf x)"
  obtain m where m: "tiles buf off xs m" "tiles buf m (x # ys) n" using t by (auto simp: tiles_append)
  then have xm: "x = m" "dent_ok buf x" and ys: "tiles buf (x + R) ys n" by (auto simp: R_def)
  have le: "x + R \<le> n" using tiles_le [OF ys] by simp
  have sz: "40 \<le> s" "40 + unat (de_name_len buf x) \<le> s" "8 dvd s" "40 + len \<le> GFS2_DIRENT_SIZE len" "8 dvd R"
    "s + GFS2_DIRENT_SIZE len \<le> R" "R < 65536"
    using dirent_size(2,3) [of "unat (de_name_len buf x)"] dirent_size(2) [of len] xm(2) x u16_lt [of "de_rec_len buf x"]
    by (auto simp: s_def R_def dent_ok_def fits_def)
  define b1 where "b1 = memset_at (x + s) 0 40 buf"
  define b2 where "b2 = put_be16 (x + s + 20) (of_nat (R - s)) b1"
  define b3 where "b3 = put_be16 (x + s + 22) (of_nat len) b2"
  have len3: "length b1 = n" "length b2 = n" "length b3 = n" using n by (simp_all add: b1_def b2_def b3_def)
  have new_rl: "get_be16 b3 (x + s + 20) = of_nat (R - s)"
    using len3 le sz by (simp add: b3_def b2_def field_simps)
  have split_eq: "split_entry buf len x = (x + s, put_be16 (x + 20) (of_nat R - get_be16 b3 (x + s + 20)) b3)"
    by (simp add: split_entry_def s_def R_def de_simps(4,8,9) b1_def b2_def b3_def Let_def
        del: of_nat_diff)
  have split: "new = x + s" "buf' = put_be16 (x + 20) (of_nat R - of_nat (R - s)) b3"
    using r unfolding split_eq new_rl by simp_all
  have rl: "(of_nat R - of_nat (R - s) :: u16) = of_nat s" using sz by (simp add: of_nat_diff)
  have len': "length buf' = n" using split(2) len3 by simp
  have a1: "agree a b buf b1" if "b \<le> x + s \<or> x + s + 40 \<le> a" "b \<le> n" for a b
    unfolding b1_def memset_at_def using that n le sz by (intro agree_memcpy) auto
  have a2: "agree a b b1 b2" if "b \<le> x + s + 20 \<or> x + s + 22 \<le> a" "b \<le> n" for a b
    unfolding b2_def put_be16_def using that len3 le sz by (intro agree_memcpy) auto
  have a3: "agree a b b2 b3" if "b \<le> x + s + 22 \<or> x + s + 24 \<le> a" "b \<le> n" for a b
    unfolding b3_def put_be16_def using that len3 le sz by (intro agree_memcpy) auto
  have a4: "agree a b b3 buf'" if "b \<le> x + 20 \<or> x + 22 \<le> a" "b \<le> n" for a b
    unfolding split(2) put_be16_def using that len3 le sz by (intro agree_memcpy) auto
  have out: "agree a b buf buf'" if "b \<le> x \<or> x + s + 40 \<le> a" "b \<le> n" for a b
    using that sz by (intro agree_trans [OF a1 agree_trans [OF a2 agree_trans [OF a3 a4]]]) auto
  have X: "tiles buf' off xs m" "entries_at buf' xs = entries_at buf xs"
    using agree_tiles [OF out m(1)] xm(1) le by simp_all
  have Y: "tiles buf' (x + R) ys n" "entries_at buf' ys = entries_at buf ys"
    using agree_tiles [OF out ys] sz by simp_all
  have old: "de_rec_len buf' x = of_nat s"
    unfolding de_simps split(2) rl using len3 le sz by (simp add: field_simps)
  have A: "agree x (x + 20) buf buf'" "agree (x + 22) (x + s) buf buf'"
    using le sz n by (intro agree_trans [OF a1 agree_trans [OF a2 agree_trans [OF a3 a4]]]; simp)+
  have f: "de_ino buf' x = de_ino buf x" "de_addr buf' x = de_addr buf x" "de_hash buf' x = de_hash buf x"
    "de_name_len buf' x = de_name_len buf x" "de_type buf' x = de_type buf x" "de_name buf' x = de_name buf x"
    using sz agree_slice [OF A(1)] agree_slice [OF A(2)] by (simp_all add: de_simps get_be64_def get_be32_def get_be16_def)
  have ox: "dent_ok buf' x" "unat (de_rec_len buf' x) = s" "live buf' x" "entry_at buf' x = entry_at buf x"
    using old f sz x(1) by (simp_all add: dent_ok_def unat_of_nat_small live_def entry_at_def s_def)
  have N: "get_be64 buf' new = 0"
  proof -
    have "x + s + 8 \<le> n" "22 \<le> s" using le sz by linarith+
    then have "agree (x + s) (x + s + 8) b1 buf'"
      using agree_trans [OF a2 agree_trans [OF a3 a4], of "x + s + 8" "x + s"] by simp
    then have "slice (x + s) 8 buf' = slice (x + s) 8 b1" by (rule agree_slice) simp_all
    also have "\<dots> = replicate 8 0" using n le sz
      by (intro nth_equalityI) (auto simp: b1_def memset_at_def nth_slice nth_memcpy_at)
    finally show ?thesis by (simp add: get_be64_def split(1) be_val_def numeral_eq_Suc)
  qed
  have nr: "get_be16 buf' (x + s + 20) = of_nat (R - s)" "get_be16 buf' (x + s + 22) = of_nat len"
    unfolding split(2) using len3 le sz new_rl by (simp_all add: b3_def field_simps)
  have on: "dent_ok buf' new" "unat (de_rec_len buf' new) = R - s" "\<not> live buf' new" "unat (de_name_len buf' new) = len"
    using N nr split(1) sz len by (simp_all add: dent_ok_def de_simps live_def unat_of_nat_small dvd_diff_nat del: of_nat_diff)
  have "agree 0 off buf buf'" "agree 0 x buf buf'" using out [of off 0] out [of x 0] tiles_le [OF m(1)] xm(1) le by simp_all
  then show ?thesis
    using len' X Y ox on f(4) split(1) xm(1) x(1) sz unfolding s_def [symmetric] by (simp add: tiles_append free_at_def)
qed

lemma reuse_entry_spec:
  assumes t: "tiles buf off (xs @ x # ys) n" and n: "length buf = n" and x: "\<not> live buf x" "GFS2_DIRENT_SIZE len \<le> unat (de_rec_len buf x)"
    and len: "len < 65536"
  defines "buf' \<equiv> put_de_name_len x (of_nat len) buf"
  shows "length buf' = n \<and> tiles buf' off (xs @ x # ys) n \<and> entries_at buf' (xs @ x # ys) = entries_at buf (xs @ x # ys)
    \<and> free_at buf' len x \<and> agree 0 off buf buf'"
proof -
  define R where "R = unat (de_rec_len buf x)"
  obtain m where m: "tiles buf off xs m" "tiles buf m (x # ys) n" using t by (auto simp: tiles_append)
  then have xm: "x = m" "dent_ok buf x" and ys: "tiles buf (x + R) ys n" by (auto simp: R_def)
  have le: "x + R \<le> n" "40 \<le> R" using tiles_le [OF ys] xm(2) by (simp_all add: dent_ok_def R_def)
  have b: "buf' = put_be16 (x + 22) (of_nat len) buf" by (simp add: buf'_def de_simps)
  have a: "agree a b buf buf'" if "b \<le> x + 22 \<or> x + 24 \<le> a" "b \<le> n" for a b
    unfolding b put_be16_def using that n le by (intro agree_memcpy) auto
  have X: "tiles buf' off xs m" "entries_at buf' xs = entries_at buf xs"
    using agree_tiles [OF a m(1)] xm(1) le by simp_all
  have Y: "tiles buf' (x + R) ys n" "entries_at buf' ys = entries_at buf ys"
    using agree_tiles [OF a ys] le by simp_all
  have "agree x (x + 22) buf buf'" using a [of "x + 22" x] le by simp
  then have f: "de_ino buf' x = de_ino buf x" "de_rec_len buf' x = de_rec_len buf x"
    by (simp_all add: de_simps get_be64_def get_be16_def agree_slice)
  have "de_name_len buf' x = of_nat len" unfolding de_simps b using n le by (simp add: field_simps)
  then have "dent_ok buf' x" "\<not> live buf' x" "free_at buf' len x"
    using f xm(2) x len by (simp_all add: dent_ok_def live_def free_at_def unat_of_nat_small)
  moreover have "agree 0 off buf buf'" using a [of off 0] tiles_le [OF m(1)] xm(1) le by simp
  moreover have "length buf' = n" using b n by simp
  ultimately show ?thesis using X Y f xm(1) x(1) by (simp add: tiles_append R_def)
qed

section \<open>A new entry, filled\<close>

lemma fill_spec:
  fixes hash :: u32 and type :: u16
  assumes t: "tiles buf off (xs @ x # ys) n" and n: "length buf = n" and x: "free_at buf (length name) x"
    and i: "in_formal_ino inum \<noteq> 0"
  defines "buf' \<equiv> dirent_fill x inum hash type name buf"
  shows "length buf' = n \<and> tiles buf' off (xs @ x # ys) n \<and> agree 0 off buf buf'
    \<and> entries_at buf' (xs @ x # ys) = entries_at buf xs @ (name, hash, inum, type) # entries_at buf ys
    \<and> de_rec_len buf' x = de_rec_len buf x \<and> de_name_len buf' x = de_name_len buf x \<and> live buf' x \<and> agree 0 x buf buf'"
proof -
  define R where "R = unat (de_rec_len buf x)"
  obtain m where m: "tiles buf off xs m" "tiles buf m (x # ys) n" using t by (auto simp: tiles_append)
  then have xm: "x = m" "dent_ok buf x" and ys: "tiles buf (x + R) ys n" by (auto simp: R_def)
  have le: "x + R \<le> n" "40 + length name \<le> R" "unat (get_be16 buf (x + 22)) = length name"
    using tiles_le [OF ys] x dirent_size(2) [of "length name"] by (simp_all add: free_at_def R_def de_simps)
  have b: "buf' = memcpy_at (x + 40) name (put_be16 (x + 24) type (put_be32 (x + 16) hash
      (put_be64 (x + 8) (in_addr inum) (put_be64 x (in_formal_ino inum) buf))))"
    by (simp add: buf'_def dirent_fill_def lgfs2_inum_out_def size_simps)
  have len': "length buf' = n" unfolding b using n by simp
  have a: "agree a b buf buf'" if "b \<le> x \<or> x + R \<le> a" "b \<le> n" for a b
    unfolding b put_be16_def put_be32_def put_be64_def using that n le
    by (intro agree_trans [OF agree_memcpy agree_trans [OF agree_memcpy agree_trans [OF agree_memcpy agree_trans [OF agree_memcpy agree_memcpy]]]]) auto
  have X: "tiles buf' off xs m" "entries_at buf' xs = entries_at buf xs"
    using agree_tiles [OF a m(1)] xm(1) le by simp_all
  have Y: "tiles buf' (x + R) ys n" "entries_at buf' ys = entries_at buf ys"
    using agree_tiles [OF a ys] by simp_all
  have f: "get_be64 buf' x = in_formal_ino inum" "get_be64 buf' (x + 8) = in_addr inum" "get_be32 buf' (x + 16) = hash"
    "get_be16 buf' (x + 24) = type" "get_be16 buf' (x + 20) = get_be16 buf (x + 20)" "get_be16 buf' (x + 22) = get_be16 buf (x + 22)"
    unfolding b using n le by (simp_all add: field_simps codec_other)
  have "slice (x + 40) (length name) buf' = name" unfolding b using n le by (simp add: slice_memcpy_same)
  then have "entry_at buf' x = (name, hash, inum, type)" "live buf' x"
    using f le i by (simp_all add: entry_at_def de_simps live_def)
  moreover have "dent_ok buf' x" "unat (de_rec_len buf' x) = R"
    using f xm(2) x le by (simp_all add: dent_ok_def free_at_def de_simps R_def)
  moreover have "agree 0 off buf buf'" "agree 0 x buf buf'" using a [of off 0] a [of x 0] tiles_le [OF m(1)] xm(1) le by simp_all
  ultimately show ?thesis using len' X Y xm(1) f by (simp add: tiles_append de_simps)
qed

section \<open>The search\<close>

text \<open>The hashes of the entries are those of their names, and no two names are equal.\<close>

definition good_entries :: "dir_entry list \<Rightarrow> bool" where
  "good_entries es \<longleftrightarrow> (\<forall>e \<in> set es. fst (snd e) = gfs2_disk_hash (fst e)) \<and> distinct (map fst es)"

definition dir_map :: "dir_entry list \<Rightarrow> bytes \<rightharpoonup> lgfs2_inum \<times> u16" where
  "dir_map es = map_of (map (\<lambda>(name, _, i, t). (name, i, t)) es)"

lemma filecmp_name:
  assumes "dent_ok buf d" "live buf d" "d + unat (de_rec_len buf d) \<le> length buf"
  shows "gfs2_filecmp f (drop (d + sizeof struct_gfs2_dirent) buf) (unat (de_name_len buf d)) \<longleftrightarrow> f = de_name buf d"
proof -
  have "d + 40 + unat (de_name_len buf d) \<le> length buf"
    using assms dirent_size(2) [of "unat (de_name_len buf d)"] by (simp add: dent_ok_def live_def)
  then show ?thesis by (auto simp: gfs2_filecmp_def de_name_def slice_def size_simps)
qed

abbreviation (input) named :: "bytes \<Rightarrow> bytes \<Rightarrow> nat \<Rightarrow> bool" where
  "named buf f d \<equiv> live buf d \<and> de_name buf d = f"

lemma search_step:
  assumes t: "tiles buf d (d # ds) (length buf)" and h: "live buf d \<Longrightarrow> de_hash buf d = gfs2_disk_hash (de_name buf d)"
    and x: "live buf d \<Longrightarrow> x < entries"
  shows "leaf_search_loop (length buf) buf entries (gfs2_disk_hash f) f x d prev =
    (if named buf f d then Inr (d, prev)
     else case ds of [] \<Rightarrow> Inl (- ENOENT)
       | d2 # _ \<Rightarrow> leaf_search_loop (length buf) buf entries (gfs2_disk_hash f) f (if live buf d then x + 1 else x) d2 (Some d))"
proof -
  have ok: "dent_ok buf d" "d + unat (de_rec_len buf d) \<le> length buf" using t tiles_range [OF t, of d] by simp_all
  have n: "gfs2_dirent_next (length buf) buf d = (if ds = [] then None else Some (hd ds))" by (rule tiles_next [OF t])
  have l: "de_ino buf d = 0 \<longleftrightarrow> \<not> live buf d" by (simp add: live_def)
  show ?thesis
    by (subst leaf_search_loop.simps)
      (use n h x filecmp_name [OF ok(1) _ ok(2), of f] l in \<open>auto split: list.splits\<close>)
qed

lemma search_found:
  assumes "tiles buf d (xs @ y # ys) (length buf)" "named buf f y" "\<forall>z \<in> set xs. \<not> named buf f z"
    and "\<forall>z \<in> set (xs @ y # ys). live buf z \<longrightarrow> de_hash buf z = gfs2_disk_hash (de_name buf z)"
    and "x + length (entries_at buf (xs @ y # ys)) \<le> entries"
  shows "leaf_search_loop (length buf) buf entries (gfs2_disk_hash f) f x d prev = Inr (y, if xs = [] then prev else Some (last xs))"
  using assms
proof (induction xs arbitrary: d x prev)
  case Nil
  then have "d = y" by simp
  then show ?case using search_step [of buf y ys x entries f prev] Nil by (simp del: entries_at_simps(3) split: if_splits)
next
  case (Cons z zs)
  then have z: "z = d" by simp
  have t: "tiles buf d (d # zs @ y # ys) (length buf)" using Cons.prems(1) z by simp
  have ne: "\<not> named buf f d" using Cons.prems(3) z by simp
  have "leaf_search_loop (length buf) buf entries (gfs2_disk_hash f) f x d prev
      = leaf_search_loop (length buf) buf entries (gfs2_disk_hash f) f (if live buf d then x + 1 else x) (hd (zs @ y # ys)) (Some d)"
    using search_step [OF t, of x entries f prev] ne Cons.prems(4,5) z by (cases zs) auto
  also have "\<dots> = Inr (y, if zs = [] then Some d else Some (last zs))"
  proof (rule Cons.IH)
    show "tiles buf (hd (zs @ y # ys)) (zs @ y # ys) (length buf)"
      using t tiles_head [of buf "d + unat (de_rec_len buf d)" "zs @ y # ys" "length buf"] by simp
  qed (use Cons.prems z in \<open>auto split: if_splits\<close>)
  finally show ?case using z by simp
qed

lemma search_none:
  assumes "tiles buf d ds (length buf)" "ds \<noteq> []" "\<forall>z \<in> set ds. \<not> named buf f z"
    and "\<forall>z \<in> set ds. live buf z \<longrightarrow> de_hash buf z = gfs2_disk_hash (de_name buf z)"
    and "x + length (entries_at buf ds) \<le> entries"
  shows "leaf_search_loop (length buf) buf entries (gfs2_disk_hash f) f x d prev = Inl (- ENOENT)"
  using assms
proof (induction ds arbitrary: d x prev)
  case (Cons z zs)
  then have z: "z = d" by simp
  have t: "tiles buf d (d # zs) (length buf)" using Cons.prems(1) z by simp
  show ?case
  proof (cases zs)
    case Nil
    then show ?thesis using search_step [OF t, of x entries f prev] Cons.prems z by (simp split: if_splits)
  next
    case (Cons w ws)
    have "leaf_search_loop (length buf) buf entries (gfs2_disk_hash f) f x d prev
        = leaf_search_loop (length buf) buf entries (gfs2_disk_hash f) f (if live buf d then x + 1 else x) w (Some d)"
      using search_step [OF t, of x entries f prev] Cons.prems z Cons by (auto split: if_splits)
    also have "\<dots> = Inl (- ENOENT)"
      using Cons.prems z t Cons by (intro Cons.IH) (auto split: if_splits)
    finally show ?thesis .
  qed
qed simp

section \<open>Removal\<close>

lemma del_first_spec:
  assumes t: "tiles buf off (x # ys) n" and n: "length buf = n" and x: "live buf x"
  defines "buf' \<equiv> lgfs2_inum_out \<lparr>in_formal_ino = 0, in_addr = 0\<rparr> buf x"
  shows "length buf' = n \<and> tiles buf' off (x # ys) n \<and> agree 0 off buf buf' \<and> entries_at buf' (x # ys) = entries_at buf ys
    \<and> agree (x + unat (de_rec_len buf x)) n buf buf'"
proof -
  define R where "R = unat (de_rec_len buf x)"
  have xo: "x = off" "dent_ok buf x" and ys: "tiles buf (x + R) ys n" using t by (auto simp: R_def)
  have le: "x + R \<le> n" "40 \<le> R" using tiles_le [OF ys] xo(2) by (simp_all add: dent_ok_def R_def)
  have b: "buf' = put_be64 (x + 8) 0 (put_be64 x 0 buf)" by (simp add: buf'_def lgfs2_inum_out_def size_simps)
  have a: "agree a b buf buf'" if "b \<le> x \<or> x + 16 \<le> a" "b \<le> n" for a b
    unfolding b put_be64_def using that n le by (intro agree_trans [OF agree_memcpy agree_memcpy]) auto
  have "tiles buf' (x + R) ys n" "entries_at buf' ys = entries_at buf ys" using agree_tiles [OF a ys] le by simp_all
  moreover have "get_be64 buf' x = 0" "get_be16 buf' (x + 20) = get_be16 buf (x + 20)"
    unfolding b using n le by (simp_all add: field_simps)
  moreover have "agree 0 off buf buf'" "agree (x + R) n buf buf'" using a [of off 0] a [of n "x + R"] xo(1) le by simp_all
  moreover have "length buf' = n" using b n by simp
  ultimately show ?thesis using xo by (simp add: dent_ok_def de_simps live_def R_def)
qed

lemma del_next_spec:
  assumes t: "tiles buf off (xs @ p # x # ys) n" and n: "length buf = n" "n < off + 65536"
  defines "buf' \<equiv> put_de_rec_len p (de_rec_len buf p + de_rec_len buf x) buf"
  shows "length buf' = n \<and> tiles buf' off (xs @ p # ys) n \<and> agree 0 off buf buf' \<and> entries_at buf' (xs @ p # ys) = entries_at buf (xs @ p # ys)
    \<and> agree (x + unat (de_rec_len buf x)) n buf buf'"
proof -
  define P where "P = unat (de_rec_len buf p)"
  define X where "X = unat (de_rec_len buf x)"
  obtain m where m: "tiles buf off xs m" "tiles buf m (p # x # ys) n" using t by (auto simp: tiles_append)
  then have pm: "p = m" "dent_ok buf p" "x = p + P" "dent_ok buf x" and ys: "tiles buf (x + X) ys n" by (auto simp: P_def X_def)
  have le: "p + P + X \<le> n" "40 \<le> P" "40 \<le> X" "off \<le> p" using tiles_le [OF ys] tiles_le [OF m(1)] pm by (simp_all add: dent_ok_def P_def X_def)
  have sum: "unat (de_rec_len buf p + de_rec_len buf x) = P + X"
    using le n unfolding P_def X_def by (subst unat_add_no_wrap) simp_all
  have b: "buf' = put_be16 (p + 20) (de_rec_len buf p + de_rec_len buf x) buf" by (simp add: buf'_def de_simps(8))
  have a: "agree a b buf buf'" if "b \<le> p + 20 \<or> p + 22 \<le> a" "b \<le> n" for a b
    unfolding b put_be16_def using that n le by (intro agree_memcpy) auto
  have A: "tiles buf' off xs m" "entries_at buf' xs = entries_at buf xs" using agree_tiles [OF a m(1)] pm(1) le by simp_all
  have Y: "tiles buf' (x + X) ys n" "entries_at buf' ys = entries_at buf ys" using agree_tiles [OF a ys] pm(3) le by simp_all
  have s: "agree p (p + 20) buf buf'" "agree (p + 22) n buf buf'" using a le by simp_all
  have f: "de_ino buf' p = de_ino buf p" "de_addr buf' p = de_addr buf p" "de_hash buf' p = de_hash buf p"
    "de_name_len buf' p = de_name_len buf p" "de_type buf' p = de_type buf p"
    using le agree_slice [OF s(1)] agree_slice [OF s(2)] by (simp_all add: de_simps get_be64_def get_be32_def get_be16_def)
  have rl: "unat (de_rec_len buf' p) = P + X" using n le sum unfolding de_simps(4) b by (simp add: field_simps)
  have "entry_at buf' p = entry_at buf p" if "live buf p"
  proof -
    have "p + 40 + unat (de_name_len buf p) \<le> n"
      using that pm(2) le dirent_size(2) [of "unat (de_name_len buf p)"] by (simp add: dent_ok_def live_def P_def)
    then have "de_name buf' p = de_name buf p" using f(4) agree_slice [OF s(2)] by (simp add: de_simps)
    then show ?thesis using f by (simp add: entry_at_def)
  qed
  moreover have "dent_ok buf' p" "live buf' p = live buf p"
    using pm(2,4) f rl by (auto simp: dent_ok_def live_def P_def X_def)
  moreover have "agree 0 off buf buf'" "agree (x + X) n buf buf'" using a [of off 0] a [of n "x + X"] le pm(3) by simp_all
  moreover have "length buf' = n" using b n by simp
  ultimately show ?thesis using A Y pm(1,3) rl unfolding X_def [symmetric] by (simp add: tiles_append ac_simps)
qed

section \<open>Blocks\<close>

definition dir_block :: "nat \<Rightarrow> bytes \<Rightarrow> nat list \<Rightarrow> bool" where
  "dir_block n buf ds \<longleftrightarrow> length buf = n \<and> n \<le> 65536 \<and> 8 dvd n \<and> 512 \<le> n \<and> ds \<noteq> [] \<and>
     tiles buf (snd (gfs2_dirent_first buf)) ds n"

text \<open>The count that \<open>dirent_alloc\<close> reads from the block's header.\<close>

definition header_count :: "bytes \<Rightarrow> nat" where
  "header_count buf = (case fst (gfs2_dirent_first buf) of IS_LEAF \<Rightarrow> unat (leaf_entries buf) | IS_DINODE \<Rightarrow> unat (get_be32 buf 148))"

lemma dirent_first:
  "gfs2_dirent_first buf = (if get_be32 buf 4 = 6 then (IS_LEAF, 104) else (IS_DINODE, 232))"
  by (simp add: gfs2_dirent_first_def size_simps)

lemma dirent_first_cases: "snd (gfs2_dirent_first buf) = 104 \<or> snd (gfs2_dirent_first buf) = 232"
  by (simp add: dirent_first)

lemma dirent_first_range: "104 \<le> snd (gfs2_dirent_first buf)" "snd (gfs2_dirent_first buf) \<le> 232" "8 dvd snd (gfs2_dirent_first buf)"
  by (simp_all add: dirent_first)

lemma agree_header:
  assumes "agree 0 off buf buf'" "104 \<le> off"
  shows "gfs2_dirent_first buf' = gfs2_dirent_first buf" "leaf_entries buf' = leaf_entries buf"
    "232 \<le> off \<Longrightarrow> get_be32 buf' 148 = get_be32 buf 148" "gfs2_check_meta buf' t = gfs2_check_meta buf t"
  using assms by (simp_all add: dirent_first de_simps get_be32_def get_be16_def agree_slice gfs2_check_meta_def size_simps)

lemma alloc_found_spec:
  assumes b: "dir_block n buf ds" and len: "len < 65536" and r: "dirent_alloc_loop n len buf (snd (gfs2_dirent_first buf)) = Some (new, buf')"
  shows "\<exists>xs ys. dir_block n buf' (xs @ new # ys) \<and> free_at buf' len new \<and> entries_at buf' (xs @ ys) = entries_at buf ds
    \<and> agree 0 (snd (gfs2_dirent_first buf)) buf buf'"
proof -
  let ?off = "snd (gfs2_dirent_first buf)"
  have B: "length buf = n" "n \<le> 65536" "8 dvd n" "512 \<le> n" "ds \<noteq> []" "tiles buf ?off ds n" using b by (simp_all add: dir_block_def)
  obtain xs x ys where x: "ds = xs @ x # ys" "fits buf len x"
    "(new, buf') = (if live buf x then split_entry buf len x else (x, put_de_name_len x (of_nat len) buf))"
    using alloc_loop_spec [OF B(6,5), of len] unfolding r by auto
  have t: "tiles buf ?off (xs @ x # ys) n" using B(6) x(1) by simp
  have done_it: ?thesis if *: "length buf' = n \<and> tiles buf' ?off (us @ new # vs) n \<and> entries_at buf' (us @ new # vs) = entries_at buf (xs @ x # ys)
    \<and> free_at buf' len new \<and> agree 0 ?off buf buf'" for us vs
  proof -
    have f: "gfs2_dirent_first buf' = gfs2_dirent_first buf" using * agree_header(1) dirent_first_range(1) by blast
    have "\<not> live buf' new" using * by (simp add: free_at_def)
    then show ?thesis using * B x(1) f by (intro exI [of _ us] exI [of _ vs]) (simp add: dir_block_def)
  qed
  show ?thesis
  proof (cases "live buf x")
    case True
    with x(3) have "split_entry buf len x = (new, buf')" by simp
    from split_entry_spec [OF t B(1,2) True x(2) len this]
    have "length buf' = n \<and> tiles buf' ?off (xs @ x # new # ys) n \<and> entries_at buf' (xs @ x # new # ys) = entries_at buf (xs @ x # ys)
      \<and> free_at buf' len new \<and> agree 0 ?off buf buf'" by blast
    then show ?thesis by (intro done_it [of "xs @ [x]" ys]) (simp only: append_assoc append_Cons append_Nil)
  next
    case False
    then have "GFS2_DIRENT_SIZE len \<le> unat (de_rec_len buf x)" using x(2) by (auto simp: fits_def)
    then have "length (put_de_name_len x (of_nat len) buf) = n
        \<and> tiles (put_de_name_len x (of_nat len) buf) ?off (xs @ x # ys) n
        \<and> entries_at (put_de_name_len x (of_nat len) buf) (xs @ x # ys) = entries_at buf (xs @ x # ys)
        \<and> free_at (put_de_name_len x (of_nat len) buf) len x \<and> agree 0 ?off buf (put_de_name_len x (of_nat len) buf)"
      by (rule reuse_entry_spec [OF t B(1) False _ len])
    moreover have "new = x" "buf' = put_de_name_len x (of_nat len) buf" using x(3) False by simp_all
    ultimately show ?thesis by (intro done_it [of xs ys]) (simp only:)
  qed
qed

text \<open>The first entry of a block that has none takes all of it.\<close>

lemma first_entry_spec:
  assumes n: "length buf = n" "n \<le> 65536" "8 dvd n" "512 \<le> n" and o: "104 \<le> off" "off \<le> 232" "8 dvd off"
    and nl: "\<not> live buf off" and len: "len < 65536" "GFS2_DIRENT_SIZE len \<le> n - off"
  defines "buf' \<equiv> put_de_name_len off (of_nat len) (put_de_rec_len off (of_nat (n - off)) buf)"
  shows "length buf' = n \<and> tiles buf' off [off] n \<and> free_at buf' len off \<and> agree 0 off buf buf'"
proof -
  have buf': "buf' = put_be16 (off + 22) (of_nat len) (put_be16 (off + 20) (of_nat (n - off)) buf)" by (simp add: buf'_def de_simps(8,9))
  have "agree off (off + 20) buf buf'" unfolding buf' put_be16_def using n o
    by (intro agree_trans [OF agree_memcpy agree_memcpy]) auto
  then have "get_be64 buf' off = get_be64 buf off" by (simp add: get_be64_def agree_slice)
  then have nl': "\<not> live buf' off" using nl by (simp add: live_def de_simps)
  have f: "unat (get_be16 buf' (off + 20)) = n - off" "unat (get_be16 buf' (off + 22)) = len"
    unfolding buf' using n o len by (simp_all add: field_simps unat_of_nat_small del: of_nat_diff)
  have a: "agree 0 off buf buf'" unfolding buf' put_be16_def using n o
    by (intro agree_trans [OF agree_memcpy agree_memcpy]) auto
  have "free_at buf' len off" using nl' f len by (simp add: free_at_def de_simps)
  moreover have "tiles buf' off [off] n"
    using nl' f n o by (simp add: dent_ok_def de_simps live_def dvd_diff_nat)
  moreover have "length buf' = n" using n buf' by simp
  ultimately show ?thesis using a by simp
qed

lemma alloc_empty_spec:
  assumes b: "dir_block n buf ds" and len: "len < 65536" and e: "entries_at buf ds = []"
    and fit: "GFS2_DIRENT_SIZE len \<le> n - snd (gfs2_dirent_first buf)"
  defines "off \<equiv> snd (gfs2_dirent_first buf)"
  defines "buf' \<equiv> put_de_name_len off (of_nat len) (put_de_rec_len off (of_nat (n - off)) buf)"
  shows "dir_block n buf' [off] \<and> free_at buf' len off \<and> entries_at buf' [] = entries_at buf ds \<and> agree 0 off buf buf'"
proof -
  have B: "length buf = n" "n \<le> 65536" "8 dvd n" "512 \<le> n" "ds \<noteq> []" "tiles buf off ds n" using b by (simp_all add: dir_block_def off_def)
  have o: "104 \<le> off" "off \<le> 232" "8 dvd off" using dirent_first_range unfolding off_def by blast+
  have "off \<in> set ds" using tiles_head [OF B(6,5)] B(5) by (metis list.set_sel(1))
  then have "\<not> live buf off" using e by (auto simp: entries_at_def filter_empty_conv)
  from first_entry_spec [OF B(1-4) o this len] fit
  have F: "length buf' = n" "tiles buf' off [off] n" "free_at buf' len off" "agree 0 off buf buf'"
    unfolding buf'_def off_def by blast+
  moreover have "snd (gfs2_dirent_first buf') = off" using agree_header(1) [OF F(4) o(1)] by (simp add: off_def)
  ultimately show ?thesis using B e by (simp add: dir_block_def)
qed

text \<open>
  \<open>dirent_alloc\<close> keeps the entries of a block and finds a free place for a name; when it finds none, no
  entry of the chain has room.
\<close>

lemma dirent_alloc_spec:
  assumes b: "dir_block (unat (sd_bsize sdp)) (b_data bh) ds" and len: "len < 65536"
    and e: "header_count (b_data bh) = 0 \<Longrightarrow>
      entries_at (b_data bh) ds = [] \<and> GFS2_DIRENT_SIZE len \<le> unat (sd_bsize sdp) - snd (gfs2_dirent_first (b_data bh))"
    and r: "dirent_alloc sdp dip bh len = Some (new, bh', dip')"
  shows "\<exists>xs ys. dir_block (unat (sd_bsize sdp)) (b_data bh') (xs @ new # ys) \<and> free_at (b_data bh') len new
    \<and> entries_at (b_data bh') (xs @ ys) = entries_at (b_data bh) ds
    \<and> agree 0 (snd (gfs2_dirent_first (b_data bh))) (b_data bh) (b_data bh')
    \<and> b_blocknr bh' = b_blocknr bh \<and> b_modified bh'
    \<and> dip' = dip\<lparr>vi := (vi dip)\<lparr>i_entries := i_entries (vi dip) + 1\<rparr>, vbh := bmodified (vbh dip)\<rparr>"
proof -
  let ?n = "unat (sd_bsize sdp)" and ?buf = "b_data bh" and ?off = "snd (gfs2_dirent_first (b_data bh))"
  obtain type off where first: "gfs2_dirent_first ?buf = (type, off)" by fastforce
  have off: "off = (case type of IS_LEAF \<Rightarrow> 104 | IS_DINODE \<Rightarrow> 232)" using first by (auto simp: dirent_first split: if_splits)
  define found where "found = (if header_count ?buf = 0
      then Some (off, put_de_name_len off (of_nat len) (put_de_rec_len off (of_nat (?n - off)) ?buf))
      else dirent_alloc_loop ?n len ?buf off)"
  have dd: "dirent_alloc sdp dip bh len = (case found of None \<Rightarrow> None | Some (new, buf) \<Rightarrow> Some (new, bmodified (bh\<lparr>b_data := buf\<rparr>),
      dip\<lparr>vi := (vi dip)\<lparr>i_entries := i_entries (vi dip) + 1\<rparr>, vbh := bmodified (vbh dip)\<rparr>))"
    using first off by (cases type) (simp_all add: dirent_alloc_def found_def header_count_def size_simps Let_def)
  from r obtain buf' where f: "found = Some (new, buf')" "bh' = bmodified (bh\<lparr>b_data := buf'\<rparr>)"
    "dip' = dip\<lparr>vi := (vi dip)\<lparr>i_entries := i_entries (vi dip) + 1\<rparr>, vbh := bmodified (vbh dip)\<rparr>"
    unfolding dd by (auto split: option.splits)
  have "\<exists>xs ys. dir_block ?n buf' (xs @ new # ys) \<and> free_at buf' len new \<and> entries_at buf' (xs @ ys) = entries_at ?buf ds
      \<and> agree 0 ?off ?buf buf'"
  proof (cases "header_count ?buf = 0")
    case True
    then have "new = ?off" "buf' = put_de_name_len ?off (of_nat len) (put_de_rec_len ?off (of_nat (?n - ?off)) ?buf)"
      using f(1) first by (auto simp: found_def)
    with alloc_empty_spec [OF b len] e [OF True] show ?thesis by (intro exI [of _ "[]"]) simp
  next
    case False
    then have "dirent_alloc_loop ?n len ?buf ?off = Some (new, buf')" using f(1) first by (simp add: found_def)
    from alloc_found_spec [OF b len this] show ?thesis .
  qed
  then show ?thesis using f(2,3) by simp
qed

lemma dirent_alloc_none:
  assumes b: "dir_block (unat (sd_bsize sdp)) (b_data bh) ds" and r: "dirent_alloc sdp dip bh len = None"
  shows "header_count (b_data bh) \<noteq> 0 \<and> (\<forall>d \<in> set ds. \<not> fits (b_data bh) len d)"
proof -
  let ?n = "unat (sd_bsize sdp)" and ?buf = "b_data bh"
  obtain type off where first: "gfs2_dirent_first ?buf = (type, off)" by fastforce
  have "header_count ?buf \<noteq> 0 \<and> dirent_alloc_loop ?n len ?buf off = None"
    using r first by (cases type) (auto simp: dirent_alloc_def header_count_def size_simps Let_def split: option.splits if_splits)
  moreover have "ds \<noteq> []" "tiles ?buf off ds ?n" using b first by (simp_all add: dir_block_def)
  ultimately show ?thesis using alloc_loop_spec [of ?buf off ds ?n len] by simp
qed

lemma entry_named:
  assumes "good_entries (entries_at buf ds)" "d \<in> set ds" "live buf d"
  shows "de_hash buf d = gfs2_disk_hash (de_name buf d)"
  using assms by (force simp: good_entries_def entries_at_def entry_at_def)

lemma dir_map_none: "dir_map (entries_at buf ds) f = None \<longleftrightarrow> (\<forall>d \<in> set ds. \<not> named buf f d)"
  by (induction ds) (auto simp: dir_map_def entry_at_def)

lemma dir_map_found:
  "named buf f y \<Longrightarrow> \<forall>z \<in> set xs. \<not> named buf f z \<Longrightarrow>
    dir_map (entries_at buf (xs @ y # ys)) f = Some (\<lparr>in_formal_ino = de_ino buf y, in_addr = de_addr buf y\<rparr>, de_type buf y)"
  by (induction xs) (auto simp: dir_map_def entry_at_def)

text \<open>The search in a block is the look-up in the map of its entries.\<close>

lemma leaf_search_spec:
  assumes b: "dir_block (unat (sd_bsize sdp)) buf ds" and g: "good_entries (entries_at buf ds)"
    and c: "case fst (gfs2_dirent_first buf) of IS_LEAF \<Rightarrow> length (entries_at buf ds) \<le> unat (leaf_entries buf)
        | IS_DINODE \<Rightarrow> length (entries_at buf ds) \<le> unat (i_entries (vi dip))"
  shows "(dir_map (entries_at buf ds) f = None \<longrightarrow> leaf_search sdp dip buf f = Inl (- ENOENT)) \<and>
    (\<forall>i t. dir_map (entries_at buf ds) f = Some (i, t) \<longrightarrow>
      (\<exists>xs y ys. ds = xs @ y # ys \<and> named buf f y \<and> i = \<lparr>in_formal_ino = de_ino buf y, in_addr = de_addr buf y\<rparr> \<and> t = de_type buf y
        \<and> leaf_search sdp dip buf f = Inr (y, if xs = [] then None else Some (last xs))))"
proof -
  obtain type off where first: "gfs2_dirent_first buf = (type, off)" by fastforce
  define entries where "entries = (case type of IS_LEAF \<Rightarrow> unat (leaf_entries buf) | IS_DINODE \<Rightarrow> unat (i_entries (vi dip)))"
  have B: "length buf = unat (sd_bsize sdp)" "ds \<noteq> []" "tiles buf off ds (length buf)" using b first by (simp_all add: dir_block_def)
  have le: "0 + length (entries_at buf ds) \<le> entries" using c first by (simp add: entries_def split: dir_block.splits)
  have h: "\<forall>z \<in> set ds. live buf z \<longrightarrow> de_hash buf z = gfs2_disk_hash (de_name buf z)" using entry_named [OF g] by blast
  have ls: "leaf_search sdp dip buf f = leaf_search_loop (length buf) buf entries (gfs2_disk_hash f) f 0 off None"
    using first by (simp add: leaf_search_def entries_def B(1))
  show ?thesis
  proof (cases "\<exists>d \<in> set ds. named buf f d")
    case False
    then have "leaf_search sdp dip buf f = Inl (- ENOENT)" unfolding ls using B h le by (intro search_none) auto
    moreover have "dir_map (entries_at buf ds) f = None" using False by (subst dir_map_none) blast
    ultimately show ?thesis by simp
  next
    case True
    then obtain xs y ys where y: "ds = xs @ y # ys" "named buf f y" "\<forall>z \<in> set xs. \<not> named buf f z"
      using split_list_first_prop [of ds "named buf f"] by blast
    then have "leaf_search sdp dip buf f = Inr (y, if xs = [] then None else Some (last xs))"
      unfolding ls using B(3) h le by (intro search_found) auto
    moreover have "dir_map (entries_at buf ds) f = Some (\<lparr>in_formal_ino = de_ino buf y, in_addr = de_addr buf y\<rparr>, de_type buf y)"
      unfolding y(1) by (rule dir_map_found [OF y(2,3)])
    ultimately show ?thesis using y(1,2) by auto
  qed
qed

end
