(* ===== verification/FsDir.thy ===== *)
theory FsDir
  imports DirBlk
begin

text \<open>
  Directories (fs_ops.c): names in the inode's own block or in leaves behind a hash table, their
  addition, removal and look-up, new inodes and the release of an inode.

  None is the result where the code ends the program, uses a NULL pointer or memory that is freed, or
  shifts by the width of a word. \<open>now\<close> is the time that \<open>gfs1_writei\<close> takes from the system.
\<close>

abbreviation (input) GFS2_DIR_MAX_DEPTH :: nat where "GFS2_DIR_MAX_DEPTH \<equiv> 17"
abbreviation (input) GFS2_FNAMESIZE :: nat where "GFS2_FNAMESIZE \<equiv> 255"
abbreviation (input) ENAMETOOLONG :: int where "ENAMETOOLONG \<equiv> 36"

section \<open>Leaves\<close>

definition leaf_depth :: "bytes \<Rightarrow> u16" where
  "leaf_depth buf = get_be16 buf (offsetof struct_gfs2_leaf ''lf_depth'')"
definition leaf_next :: "bytes \<Rightarrow> u64" where
  "leaf_next buf = get_be64 buf (offsetof struct_gfs2_leaf ''lf_next'')"

definition set_buf :: "(bytes \<Rightarrow> bytes) \<Rightarrow> gfs2_buffer_head \<Rightarrow> gfs2_buffer_head" where
  "set_buf f bh = bh\<lparr>b_data := f (b_data bh)\<rparr>"

definition set_vi :: "(gfs2_inode \<Rightarrow> gfs2_inode) \<Rightarrow> vinode \<Rightarrow> vinode" where
  "set_vi f ip = ip\<lparr>vi := f (vi ip)\<rparr>"

definition dirty :: "vinode \<Rightarrow> vinode" where
  "dirty ip = ip\<lparr>vbh := bmodified (vbh ip)\<rparr>"

text \<open>The bytes at an offset of the directory, as \<open>gfs1_writei\<close> or \<open>gfs2_writei\<close> writes them; all or the end.\<close>

definition dir_writei :: "u64 \<Rightarrow> fs \<Rightarrow> vinode \<Rightarrow> bytes \<Rightarrow> u64 \<Rightarrow> (fs \<times> vinode) option" where
  "dir_writei now fs dip buf offset =
     (if sd_gfs1 (fs_sdp fs) then do {
        (count, fs, dip) \<leftarrow> gfs1_writei now fs dip buf offset;
        if count \<noteq> int (length buf) then None else Some (fs, dip)
      } else do {
        (count, fs, dip) \<leftarrow> gfs2_writei_resize fs dip buf offset True;
        if count \<noteq> length buf then None else Some (fs, dip)
      })"

section \<open>Splitting a leaf\<close>

text \<open>
  The entries below \<open>divider\<close> move to the new leaf. The result has the directory, both leaves and
  whether an entry moved.
\<close>

function split_leaf_loop ::
  "gfs2_sbd \<Rightarrow> u32 \<Rightarrow> vinode \<Rightarrow> gfs2_buffer_head \<Rightarrow> gfs2_buffer_head \<Rightarrow> nat option \<Rightarrow> bool \<Rightarrow> nat
     \<Rightarrow> (vinode \<times> gfs2_buffer_head \<times> gfs2_buffer_head \<times> bool) option" where
  "split_leaf_loop sdp divider dip obh nbh prev moved dent =
     (let next_dent = gfs2_dirent_next (unat (sd_bsize sdp)) (b_data obh) dent;
          go = (\<lambda>dip obh nbh prev moved. case next_dent of None \<Rightarrow> Some (dip, obh, nbh, moved)
                | Some next_dent \<Rightarrow> split_leaf_loop sdp divider dip obh nbh prev moved next_dent)
      in if de_ino (b_data obh) dent \<noteq> 0 \<and> de_hash (b_data obh) dent < divider then
           let old = b_data obh; name_len = unat (de_name_len old dent) in
           case dirent_alloc sdp dip nbh name_len of None \<Rightarrow> None
           | Some (new, nbh, dip) \<Rightarrow>
               let nbh = set_buf (dirent_fill new \<lparr>in_formal_ino = de_ino old dent, in_addr = de_addr old dent\<rparr>
                                    (de_hash old dent) (de_type old dent) (de_name old dent)) nbh;
                   nbh = set_buf (\<lambda>b. put_leaf_entries (leaf_entries b + 1) b) nbh;
                   (obh, dip) = dirent2_del dip obh prev dent
               in go dip obh nbh (if prev = None then Some dent else prev) True
         else go dip obh nbh (Some dent) moved)"
  by pat_completeness auto
termination
  by (relation "measure (\<lambda>(sdp, _, _, _, _, _, _, dent). unat (sd_bsize sdp) - dent)") (auto dest!: sym [where t = "gfs2_dirent_next _ _ _"] dirent_next_bounds)

declare split_leaf_loop.simps [simp del]

definition new_leaf :: "gfs2_sbd \<Rightarrow> u64 \<Rightarrow> gfs2_buffer_head" where
  "new_leaf sdp bn = bmodified (set_buf (\<lambda>b.
     put_be32 (offsetof struct_gfs2_leaf ''lf_dirent_format'') GFS2_FORMAT_DE
       (copy_meta_header GFS2_METATYPE_LF GFS2_FORMAT_LF b)) (bget sdp bn))"

text \<open>
  The second half of \<open>dir_split_leaf\<close>: the entries move, a new leaf that got none has an empty first
  entry, and both leaves get the new depth.
\<close>

definition split_leaf_fill ::
  "gfs2_sbd \<Rightarrow> u32 \<Rightarrow> vinode \<Rightarrow> gfs2_buffer_head \<Rightarrow> gfs2_buffer_head
     \<Rightarrow> (vinode \<times> gfs2_buffer_head \<times> gfs2_buffer_head) option" where
  "split_leaf_fill sdp divider dip obh nbh = do {
     (dip, obh, nbh, moved) \<leftarrow> split_leaf_loop sdp divider dip obh nbh None False (snd (gfs2_dirent_first (b_data obh)));
     (dip, nbh) \<leftarrow>
       (if moved then Some (dip, nbh)
        else case dirent_alloc sdp dip nbh 0 of None \<Rightarrow> None
          | Some (new, nbh, dip) \<Rightarrow>
              Some (set_vi (i_entries_update (\<lambda>e. e - 1)) dip,
                    set_buf (put_be64 (new + offsetof struct_gfs2_dirent ''de_inum'' + offsetof struct_gfs2_inum ''no_formal_ino'') 0) nbh));
     let ndepth = leaf_depth (b_data obh) + 1;
     let obh = bmodified (set_buf (put_be16 (offsetof struct_gfs2_leaf ''lf_depth'') ndepth) obh);
     let nbh = bmodified (set_buf (\<lambda>b. put_be64 (offsetof struct_gfs2_leaf ''lf_inode'') (in_addr (i_num (vi dip)))
                 (put_be16 (offsetof struct_gfs2_leaf ''lf_depth'') ndepth b)) nbh);
     let dip = dirty (set_vi (i_blocks_update (\<lambda>b. b + 1)) dip);
     Some (dip, obh, nbh)
   }"

definition dir_split_leaf ::
  "u64 \<Rightarrow> fs \<Rightarrow> vinode \<Rightarrow> u32 \<Rightarrow> gfs2_buffer_head \<Rightarrow> (fs \<times> vinode \<times> gfs2_buffer_head) option" where
  "dir_split_leaf now fs dip start obh = do {
     (ret, bn, fs, dip) \<leftarrow> lgfs2_meta_alloc fs dip 0;
     if ret \<noteq> 0 then None
     else do {
       let sdp = fs_sdp fs;
       let depth = unat (i_depth (vi dip));
       let nbh = new_leaf sdp bn;
       let len = (push_bit (depth - unat (leaf_depth (b_data obh))) 1 :: u32);
       let half_len = drop_bit 1 len;
       let lp = concat (replicate (unat half_len) (be_bytes 8 (unat bn)));
       (fs, dip) \<leftarrow> dir_writei now fs dip lp (ucast start * 8);
       let divider = push_bit (32 - depth) (start + half_len);
       (dip, obh, nbh) \<leftarrow> split_leaf_fill sdp divider dip obh nbh;
       Some (fs_brelse nbh fs, dip, obh)
     }
   }"

section \<open>The hash table\<close>

text \<open>Each pointer twice.\<close>

definition double_ptrs :: "nat \<Rightarrow> bytes \<Rightarrow> bytes" where
  "double_ptrs ptrs buf = concat (map (\<lambda>x. slice (8 * x) 8 buf @ slice (8 * x) 8 buf) [0..<ptrs])"

text \<open>
  The blocks of the table from the last to the first. A table block has \<open>sd_hash_ptrs\<close> pointers in
  \<open>sd_hash_bsize\<close> bytes, half a block's.
\<close>

primrec double_exhash_loop :: "u64 \<Rightarrow> nat list \<Rightarrow> fs \<Rightarrow> vinode \<Rightarrow> (fs \<times> vinode) option" where
  "double_exhash_loop now [] fs dip = Some (fs, dip)"
| "double_exhash_loop now (block # blocks) fs dip = do {
     let sdp = fs_sdp fs;
     (buf, fs, dip) \<leftarrow> gfs2_readi fs dip (of_nat block * ucast (sd_hash_bsize sdp)) (sd_hash_bsize sdp);
     if length buf \<noteq> unat (sd_hash_bsize sdp) then None
     else do {
       (fs, dip) \<leftarrow> dir_writei now fs dip (take (unat (sd_bsize sdp)) (double_ptrs (unat (sd_hash_ptrs sdp)) buf))
                    (of_nat block * ucast (sd_bsize sdp));
       double_exhash_loop now blocks fs dip
     }
   }"

definition dir_double_exhash :: "u64 \<Rightarrow> fs \<Rightarrow> vinode \<Rightarrow> (fs \<times> vinode) option" where
  "dir_double_exhash now fs dip = do {
     let blocks = unat (drop_bit (unat (sd_hash_bsize_shift (fs_sdp fs))) (i_size (vi dip)));
     (fs, dip) \<leftarrow> double_exhash_loop now (rev [0..<blocks]) fs dip;
     Some (fs, dirty (set_vi (i_depth_update (\<lambda>d. d + 1)) dip))
   }"

definition gfs2_get_leaf :: "fs \<Rightarrow> u64 \<Rightarrow> (int \<times> gfs2_buffer_head) option" where
  "gfs2_get_leaf fs leaf_no = map_option (\<lambda>bh. (gfs2_check_meta (b_data bh) GFS2_METATYPE_LF, bh)) (bread (fs_disk fs) leaf_no)"

definition get_first_leaf :: "fs \<Rightarrow> vinode \<Rightarrow> u32 \<Rightarrow> ((int + gfs2_buffer_head) \<times> fs \<times> vinode) option" where
  "get_first_leaf fs dip lindex = do {
     (leaf_no, fs, dip) \<leftarrow> lgfs2_get_leaf_ptr fs dip lindex;
     Some (case leaf_no of None \<Rightarrow> Inl (-1)
           | Some leaf_no \<Rightarrow> (case bread (fs_disk fs) leaf_no of None \<Rightarrow> Inl (-1) | Some bh \<Rightarrow> Inr bh), fs, dip)
   }"

definition get_next_leaf :: "fs \<Rightarrow> gfs2_buffer_head \<Rightarrow> int + gfs2_buffer_head" where
  "get_next_leaf fs bh_in =
     (let lnext = leaf_next (b_data bh_in) in
      if lnext = 0 then Inl (-1)
      else if lnext = b_blocknr bh_in then Inl (-1)
      else case bread (fs_disk fs) lnext of None \<Rightarrow> Inl (- ENOENT)
        | Some bh \<Rightarrow> if gfs2_check_meta (b_data bh) GFS2_METATYPE_LF \<noteq> 0 then Inl (- ENOENT) else Inr bh)"

section \<open>Addition of a name\<close>

text \<open>The place of a hash in a table of \<open>2 ^ depth\<close> pointers.\<close>

definition dir_lindex :: "u16 \<Rightarrow> u32 \<Rightarrow> u32" where
  "dir_lindex depth hash = (if depth \<noteq> 0 then drop_bit (32 - unat depth) hash else 0)"

text \<open>
  \<open>at\<close> is the leaf that is tried next; with none the search begins again at the hash table
  (\<open>restart\<close>).
\<close>

definition dir_e_fill :: "nat \<Rightarrow> lgfs2_inum \<Rightarrow> u32 \<Rightarrow> u16 \<Rightarrow> bytes \<Rightarrow> gfs2_buffer_head \<Rightarrow> gfs2_buffer_head" where
  "dir_e_fill dent inum hash type filename bh =
     bmodified (set_buf (\<lambda>b. put_leaf_entries (leaf_entries b + 1) b) (set_buf (dirent_fill dent inum hash type filename) bh))"

partial_function (option) dir_e_add_loop ::
  "u64 \<Rightarrow> bytes \<Rightarrow> lgfs2_inum \<Rightarrow> u16 \<Rightarrow> u32 \<Rightarrow> u64 option \<Rightarrow> fs \<Rightarrow> vinode \<Rightarrow> (int \<times> fs \<times> vinode) option" where
  "dir_e_add_loop now filename inum type hash at fs dip =
     (let lindex = dir_lindex (i_depth (vi dip)) hash in
      case at of
        None \<Rightarrow> do {
          (leaf_no, fs, dip) \<leftarrow> lgfs2_get_leaf_ptr fs dip lindex;
          case leaf_no of None \<Rightarrow> Some (-1, fs, dip)
          | Some leaf_no \<Rightarrow> dir_e_add_loop now filename inum type hash (Some leaf_no) fs dip
        }
      | Some leaf_no \<Rightarrow> do {
          bh \<leftarrow> bread (fs_disk fs) leaf_no;
          let sdp = fs_sdp fs;
          case dirent_alloc sdp dip bh (length filename) of
            Some (dent, bh, dip) \<Rightarrow> Some (0, fs_brelse (dir_e_fill dent inum hash type filename bh) fs, dip)
          | None \<Rightarrow>
              if leaf_depth (b_data bh) < i_depth (vi dip) then do {
                let llen = (push_bit (unat (i_depth (vi dip)) - unat (leaf_depth (b_data bh))) 1 :: u32);
                (fs, dip, bh) \<leftarrow> dir_split_leaf now fs dip (lindex AND NOT (llen - 1)) bh;
                dir_e_add_loop now filename inum type hash None (fs_brelse bh fs) dip
              } else if unat (i_depth (vi dip)) < GFS2_DIR_MAX_DEPTH then do {
                (fs, dip) \<leftarrow> dir_double_exhash now (fs_brelse bh fs) dip;
                dir_e_add_loop now filename inum type hash None fs dip
              } else if leaf_next (b_data bh) \<noteq> 0 then
                dir_e_add_loop now filename inum type hash (Some (leaf_next (b_data bh))) (fs_brelse bh fs) dip
              else do {
                (ret, bn, fs, dip) \<leftarrow> lgfs2_meta_alloc fs dip 0;
                if ret \<noteq> 0 then None
                else
                  let nbh = new_leaf sdp bn;
                      bh = set_buf (put_be64 (offsetof struct_gfs2_leaf ''lf_next'') bn) bh;
                      nbh = set_buf (\<lambda>b. put_be64 (offsetof struct_gfs2_leaf ''lf_inode'') (in_addr (i_num (vi dip)))
                              (put_be16 (offsetof struct_gfs2_leaf ''lf_depth'') (leaf_depth (b_data bh)) b)) nbh
                  in case dirent_alloc sdp dip nbh (length filename) of
                       None \<Rightarrow> Some (-1, fs, dip)
                     | Some (dent, nbh, dip) \<Rightarrow>
                         let dip = dirty (set_vi (i_blocks_update (\<lambda>b. b + 1)) dip);
                             fs = fs_brelse (bmodified bh) fs
                         in Some (0, fs_brelse (dir_e_fill dent inum hash type filename nbh) fs, dip)
              }
        })"

declare dir_e_add_loop.simps [code]

definition dir_e_add :: "u64 \<Rightarrow> fs \<Rightarrow> vinode \<Rightarrow> bytes \<Rightarrow> lgfs2_inum \<Rightarrow> u16 \<Rightarrow> (int \<times> fs \<times> vinode) option" where
  "dir_e_add now fs dip filename inum type =
     dir_e_add_loop now filename inum type (gfs2_disk_hash filename) None fs dip"

text \<open>The last live entry, of \<open>entries\<close>; or the last of the block.\<close>

function last_entry_loop :: "nat \<Rightarrow> bytes \<Rightarrow> u32 \<Rightarrow> u32 \<Rightarrow> nat \<Rightarrow> nat" where
  "last_entry_loop bsize buf entries x dent =
     (let is_live = (de_ino buf dent \<noteq> 0); x = (if is_live then x + 1 else x) in
      if is_live \<and> x = entries then dent
      else case gfs2_dirent_next bsize buf dent of None \<Rightarrow> dent
        | Some next_dent \<Rightarrow> last_entry_loop bsize buf entries x next_dent)"
  by pat_completeness auto
termination
  by (relation "measure (\<lambda>(bsize, _, _, _, dent). bsize - dent)") (auto dest: dirent_next_bounds)

declare last_entry_loop.simps [simp del]

text \<open>The shifts that are left until \<open>x\<close> is zero: \<open>x >>= 1\<close> counts the bits of \<open>x\<close>.\<close>

function bit_count :: "u32 \<Rightarrow> nat" where
  "bit_count x = (if x = 0 then 0 else Suc (bit_count (drop_bit 1 x)))"
  by pat_completeness auto
termination
proof (relation "measure unat")
  fix x :: u32 assume "x \<noteq> 0"
  then have "unat x \<noteq> 0" by (simp add: unat_eq_zero)
  then show "(drop_bit 1 x, x) \<in> measure unat" by (simp only: in_measure unat_drop_bit) simp
qed simp

declare bit_count.simps [simp del]

definition dir_make_exhash :: "fs \<Rightarrow> vinode \<Rightarrow> (fs \<times> vinode) option" where
  "dir_make_exhash fs dip = do {
     (ret, bn, fs, dip) \<leftarrow> lgfs2_meta_alloc fs dip 0;
     if ret \<noteq> 0 then None
     else do {
       let sdp = fs_sdp fs;
       let bsize = unat (sd_bsize sdp);
       let bh = set_buf (\<lambda>b. put_be64 (offsetof struct_gfs2_leaf ''lf_inode'') (in_addr (i_num (vi dip)))
                  (put_leaf_entries (ucast (i_entries (vi dip))) b)) (new_leaf sdp bn);
       let bh = buffer_copy_tail sdp (sizeof struct_gfs2_leaf) (vbh dip) (sizeof struct_gfs2_dinode) bh;
       let dent = last_entry_loop bsize (b_data bh) (i_entries (vi dip)) 0 (snd (gfs2_dirent_first (b_data bh)));
       let rec_len = de_rec_len (b_data bh) dent + of_nat (sizeof struct_gfs2_dinode - sizeof struct_gfs2_leaf);
       let fs = fs_brelse (set_buf (put_de_rec_len dent rec_len) bh) fs;
       let dip = dip\<lparr>vbh := buffer_clear_tail sdp (sizeof struct_gfs2_dinode) (vbh dip)\<rparr>;
       let dip = dip\<lparr>vbh := set_buf (memcpy_at (sizeof struct_gfs2_dinode)
                   (concat (replicate (unat (sd_hash_ptrs sdp)) (be_bytes 8 (unat bn))))) (vbh dip)\<rparr>;
       let dip = set_vi (assigns [i_size_update (\<lambda>_. ucast (sd_bsize sdp div 2)), i_blocks_update (\<lambda>b. b + 1),
                   i_flags_update (\<lambda>f. f OR GFS2_DIF_EXHASH), i_payload_format_update (\<lambda>_. 0),
                   i_depth_update (\<lambda>_. of_nat (bit_count (sd_hash_ptrs sdp)) - 1)]) dip;
       let dip = dip\<lparr>vbh := set_buf (lgfs2_dinode_out (vi dip)) (vbh dip)\<rparr>;
       let (_, d, bh) = bwrite (fs_disk fs) (vbh dip);
       Some (fs\<lparr>fs_disk := d\<rparr>, dip\<lparr>vbh := bh\<rparr>)
     }
   }"

definition dir_l_add :: "u64 \<Rightarrow> fs \<Rightarrow> vinode \<Rightarrow> bytes \<Rightarrow> lgfs2_inum \<Rightarrow> u16 \<Rightarrow> (int \<times> fs \<times> vinode) option" where
  "dir_l_add now fs dip filename inum type =
     (case dirent_alloc (fs_sdp fs) dip (vbh dip) (length filename) of
        None \<Rightarrow> do {
          (fs, dip) \<leftarrow> dir_make_exhash fs dip;
          dir_e_add now fs dip filename inum type
        }
      | Some (dent, bh, dip) \<Rightarrow>
          let bh = bmodified (set_buf (dirent_fill dent inum (gfs2_disk_hash filename) type filename) bh)
          in Some (0, fs, dip\<lparr>vbh := bh\<rparr>))"

definition dir_add :: "u64 \<Rightarrow> fs \<Rightarrow> vinode \<Rightarrow> bytes \<Rightarrow> lgfs2_inum \<Rightarrow> u16 \<Rightarrow> (int \<times> fs \<times> vinode) option" where
  "dir_add now fs dip filename inum type =
     (if i_flags (vi dip) AND GFS2_DIF_EXHASH \<noteq> 0 then dir_e_add now fs dip filename inum type
      else dir_l_add now fs dip filename inum type)"

section \<open>New inodes\<close>

definition IF2DT :: "u32 \<Rightarrow> u32" where
  "IF2DT sif = drop_bit 12 (sif AND 0xF000)"

abbreviation (input) dot :: bytes where "dot \<equiv> [46]"
abbreviation (input) dotdot :: bytes where "dotdot \<equiv> [46, 46]"

text \<open>A \<open>struct gfs2_dirent de\<close> whose other members are zero.\<close>

definition dirent_struct :: "lgfs2_inum \<Rightarrow> u32 \<Rightarrow> nat \<Rightarrow> nat \<Rightarrow> u16 \<Rightarrow> bytes" where
  "dirent_struct inum hash rec_len name_len type = assigns [
     (\<lambda>m. lgfs2_inum_out inum m (offsetof struct_gfs2_dirent ''de_inum'')),
     put_be32 (offsetof struct_gfs2_dirent ''de_hash'') hash,
     put_be16 (offsetof struct_gfs2_dirent ''de_rec_len'') (of_nat rec_len),
     put_be16 (offsetof struct_gfs2_dirent ''de_name_len'') (of_nat name_len),
     put_be16 (offsetof struct_gfs2_dirent ''de_type'') type] (replicate (sizeof struct_gfs2_dirent) 0)"

text \<open>\<open>bhp\<close> is the buffer, or None for NULL; \<open>now\<close> is \<open>sd_time\<close>.\<close>

definition init_dinode_fields ::
  "u64 \<Rightarrow> u64 \<Rightarrow> lgfs2_inum \<Rightarrow> u32 \<Rightarrow> u32 \<Rightarrow> bytes \<Rightarrow> bytes" where
  "init_dinode_fields now blocknr inum mode flags = assigns [
     set_meta_header GFS2_METATYPE_DI GFS2_FORMAT_DI,
     (\<lambda>m. lgfs2_inum_out inum m (offsetof struct_gfs2_dinode ''di_num'')),
     put_be32 (offsetof struct_gfs2_dinode ''di_mode'') mode,
     put_be32 (offsetof struct_gfs2_dinode ''di_nlink'') 1,
     put_be64 (offsetof struct_gfs2_dinode ''di_blocks'') 1,
     put_be64 (offsetof struct_gfs2_dinode ''di_ctime'') now,
     put_be64 (offsetof struct_gfs2_dinode ''di_mtime'') now,
     put_be64 (offsetof struct_gfs2_dinode ''di_atime'') now,
     put_be64 (offsetof struct_gfs2_dinode ''di_goal_data'') blocknr,
     put_be64 (offsetof struct_gfs2_dinode ''di_goal_meta'') blocknr,
     put_be32 (offsetof struct_gfs2_dinode ''di_flags'') flags]"

definition init_dinode_dir :: "nat \<Rightarrow> lgfs2_inum \<Rightarrow> lgfs2_inum \<Rightarrow> u16 \<Rightarrow> u32 \<Rightarrow> bytes \<Rightarrow> bytes" where
  "init_dinode_dir bsize inum parent type flags buf =
     (let p = sizeof struct_gfs2_dinode; de = sizeof struct_gfs2_dirent;
          len = GFS2_DIRENT_SIZE 1;
          buf = memcpy_at p (dirent_struct inum (gfs2_disk_hash dot) len 1 type) buf;
          buf = memcpy_at (p + de) dot buf;
          p = p + len;
          buf = memcpy_at p (dirent_struct parent (gfs2_disk_hash dotdot) (bsize - p) 2 type) buf;
          buf = memcpy_at (p + de) dotdot buf
      in assigns [
           put_be32 (offsetof struct_gfs2_dinode ''di_nlink'') 2,
           put_be64 (offsetof struct_gfs2_dinode ''di_size'') (of_nat (bsize - sizeof struct_gfs2_dinode)),
           put_be32 (offsetof struct_gfs2_dinode ''di_flags'') (flags OR GFS2_DIF_JDATA),
           put_be32 (offsetof struct_gfs2_dinode ''di_payload_format'') GFS2_FORMAT_DE,
           put_be32 (offsetof struct_gfs2_dinode ''di_entries'') 2] buf)"

definition init_dinode_at ::
  "bool \<Rightarrow> u64 \<Rightarrow> gfs2_sbd \<Rightarrow> gfs2_buffer_head option \<Rightarrow> lgfs2_inum \<Rightarrow> u32 \<Rightarrow> u32 \<Rightarrow> lgfs2_inum \<Rightarrow> gfs2_buffer_head" where
  "init_dinode_at gfs1 now sdp bhp inum mode flags parent =
     (let is_dir = (if gfs1 then IF2DT mode = ucast GFS_FILE_DIR else S_ISDIR mode);
          bh = (case bhp of None \<Rightarrow> bget sdp (in_addr inum) | Some bh \<Rightarrow> bh);
          bh = set_buf (init_dinode_fields now (b_blocknr bh) inum mode flags) bh;
          bh = (if is_dir
                then set_buf (init_dinode_dir (unat (sd_bsize sdp)) inum parent (if gfs1 then GFS_FILE_DIR else 4) flags) bh
                else bh)
      in bmodified bh)"

definition init_dinode where "init_dinode = init_dinode_at False"

section \<open>Search\<close>

text \<open>The leaves from \<open>bh\<close> on, by \<open>lf_next\<close>.\<close>

partial_function (option) linked_leaf_loop ::
  "fs \<Rightarrow> vinode \<Rightarrow> bytes \<Rightarrow> gfs2_buffer_head \<Rightarrow> (int + (nat \<times> gfs2_buffer_head)) option" where
  "linked_leaf_loop fs dip filename bh =
     (case leaf_search (fs_sdp fs) dip (b_data bh) filename of
        Inr r \<Rightarrow> Some (Inr (fst r, bh))
      | Inl e \<Rightarrow>
          if e \<noteq> - ENOENT then Some (Inl e)
          else case get_next_leaf fs bh of Inl e \<Rightarrow> Some (Inl e)
            | Inr bh_next \<Rightarrow> linked_leaf_loop fs dip filename bh_next)"

declare linked_leaf_loop.simps [code]

text \<open>\<open>1 << i_depth\<close> is an \<open>int\<close>.\<close>

definition linked_leaf_search ::
  "fs \<Rightarrow> vinode \<Rightarrow> bytes \<Rightarrow> ((int + (nat \<times> gfs2_buffer_head)) \<times> fs \<times> vinode) option" where
  "linked_leaf_search fs dip filename =
     (let depth = unat (i_depth (vi dip)) in
      if 31 \<le> depth then None
      else if push_bit depth 1 * 8 \<noteq> i_size (vi dip) then Some (Inl (-1), fs, dip)
      else if depth = 0 then None
      else do {
        let lindex = drop_bit (32 - depth) (gfs2_disk_hash filename);
        (first, fs, dip) \<leftarrow> get_first_leaf fs dip lindex;
        case first of Inl e \<Rightarrow> Some (Inl e, fs, dip)
        | Inr bh \<Rightarrow> map_option (\<lambda>r. (r, fs, dip)) (linked_leaf_loop fs dip filename bh)
      })"

definition found_inum :: "bytes \<Rightarrow> nat \<Rightarrow> lgfs2_inum \<times> u16" where
  "found_inum buf dent = (lgfs2_inum_in buf (dent + offsetof struct_gfs2_dirent ''de_inum''), de_type buf dent)"

definition dir_e_search :: "fs \<Rightarrow> vinode \<Rightarrow> bytes \<Rightarrow> ((int + (lgfs2_inum \<times> u16)) \<times> fs \<times> vinode) option" where
  "dir_e_search fs dip filename = do {
     (r, fs, dip) \<leftarrow> linked_leaf_search fs dip filename;
     Some (case r of Inl e \<Rightarrow> Inl e | Inr (dent, bh) \<Rightarrow> Inr (found_inum (b_data bh) dent), fs, dip)
   }"

definition dir_l_search :: "fs \<Rightarrow> vinode \<Rightarrow> bytes \<Rightarrow> int + (lgfs2_inum \<times> u16)" where
  "dir_l_search fs dip filename =
     (if i_height (vi dip) \<noteq> 0 then Inl (-1)
      else case leaf_search (fs_sdp fs) dip (b_data (vbh dip)) filename of
        Inl e \<Rightarrow> Inl e | Inr (dent, _) \<Rightarrow> Inr (found_inum (b_data (vbh dip)) dent))"

definition dir_search :: "fs \<Rightarrow> vinode \<Rightarrow> bytes \<Rightarrow> ((int + (lgfs2_inum \<times> u16)) \<times> fs \<times> vinode) option" where
  "dir_search fs dip filename =
     (if \<not> S_ISDIR (i_mode (vi dip)) \<and> \<not> is_gfs_dir (vi dip) then Some (Inl (-1), fs, dip)
      else if i_flags (vi dip) AND GFS2_DIF_EXHASH \<noteq> 0 then dir_e_search fs dip filename
      else Some (dir_l_search fs dip filename, fs, dip))"

text \<open>\<open>.\<close> is the directory itself.\<close>

datatype looked_up = Itself | Found vinode | Nothing

definition gfs2_lookupi :: "fs \<Rightarrow> vinode \<Rightarrow> bytes \<Rightarrow> (int \<times> looked_up \<times> fs \<times> vinode) option" where
  "gfs2_lookupi fs dip filename =
     (if filename = [] \<or> GFS2_FNAMESIZE < length filename then Some (- ENAMETOOLONG, Nothing, fs, dip)
      else if gfs2_filecmp filename dot 1 then Some (0, Itself, fs, dip)
      else do {
        (r, fs, dip) \<leftarrow> dir_search fs dip filename;
        Some (case r of Inl e \<Rightarrow> (e, Nothing, fs, dip)
              | Inr (inum, _) \<Rightarrow> (0, case lgfs2_inode_read fs (in_addr inum) of None \<Rightarrow> Nothing | Some ip \<Rightarrow> Found ip, fs, dip))
      })"

section \<open>Creation\<close>

text \<open>
  The inode that is created or was there (None for NULL), and \<open>next_inum\<close> of the superblock's
  \<open>md\<close>, which the result has as it is after the call.
\<close>

definition createi_at ::
  "bool \<Rightarrow> u64 \<Rightarrow> fs \<Rightarrow> u64 \<Rightarrow> vinode \<Rightarrow> bytes \<Rightarrow> u32 \<Rightarrow> u32 \<Rightarrow> (vinode option \<times> fs \<times> u64 \<times> vinode) option" where
  "createi_at gfs1 now fs next_inum dip filename mode flags = do {
     (_, found, fs, dip) \<leftarrow> gfs2_lookupi fs dip filename;
     case found of
       Itself \<Rightarrow> let dip = dip\<lparr>vown := True\<rparr> in Some (Some dip, fs, next_inum, dip)
     | Found ip \<Rightarrow> Some (Some (ip\<lparr>vown := True\<rparr>), fs, next_inum, dip)
     | Nothing \<Rightarrow> do {
         let parent = i_num (vi dip);
         (err, bn, fs) \<leftarrow> lgfs2_dinode_alloc fs 1 0;
         if err \<noteq> 0 then Some (None, fs, next_inum, dip)
         else do {
           let (formal_ino, next_inum) = (if gfs1 then (bn, next_inum) else (next_inum, next_inum + 1));
           let inum = \<lparr>in_formal_ino = formal_ino, in_addr = bn\<rparr>;
           (err, fs, dip) \<leftarrow> dir_add now fs dip filename inum (ucast (IF2DT mode));
           if err \<noteq> 0 then Some (None, fs, next_inum, dip)
           else
             let is_dir = (if gfs1 then IF2DT mode = ucast GFS_FILE_DIR else S_ISDIR mode);
                 dip = (if is_dir then dirty (set_vi (i_nlink_update (\<lambda>n. n + 1)) dip) else dip);
                 bh = init_dinode_at gfs1 now (fs_sdp fs) None inum mode flags parent;
                 ip = lgfs2_inode_get bh
             in Some (Some (ip\<lparr>vbh := bmodified (vbh ip), vown := True\<rparr>), fs, next_inum, dip)
         }
       }
   }"

definition createi where "createi = createi_at False"
definition gfs_createi where "gfs_createi = createi_at True"

section \<open>Removal of a name\<close>

partial_function (option) del_chain_loop ::
  "fs \<Rightarrow> vinode \<Rightarrow> bytes \<Rightarrow> u64 \<Rightarrow> (int + (gfs2_buffer_head \<times> nat \<times> nat option) option) option" where
  "del_chain_loop fs dip filename leaf_no =
     (if leaf_no = 0 then Some (Inr None)
      else case bread (fs_disk fs) leaf_no of None \<Rightarrow> None
        | Some bh \<Rightarrow>
            (case leaf_search (fs_sdp fs) dip (b_data bh) filename of
               Inr r \<Rightarrow> Some (Inr (Some (bh, r)))
             | Inl e \<Rightarrow> if e \<noteq> - ENOENT then Some (Inl (-1)) else del_chain_loop fs dip filename (leaf_next (b_data bh))))"

declare del_chain_loop.simps [code]

primrec del_index_loop ::
  "u32 list \<Rightarrow> fs \<Rightarrow> vinode \<Rightarrow> bytes \<Rightarrow> ((int + (gfs2_buffer_head \<times> nat \<times> nat option) option) \<times> fs \<times> vinode) option" where
  "del_index_loop [] fs dip filename = Some (Inr None, fs, dip)"
| "del_index_loop (lindex # ls) fs dip filename = do {
     (leaf_no, fs, dip) \<leftarrow> lgfs2_get_leaf_ptr fs dip lindex;
     case leaf_no of None \<Rightarrow> Some (Inl (-1), fs, dip)
     | Some leaf_no \<Rightarrow> do {
         r \<leftarrow> del_chain_loop fs dip filename leaf_no;
         case r of Inr None \<Rightarrow> del_index_loop ls fs dip filename | _ \<Rightarrow> Some (r, fs, dip)
       }
   }"

definition dir_e_del :: "fs \<Rightarrow> vinode \<Rightarrow> bytes \<Rightarrow> (int \<times> fs \<times> vinode) option" where
  "dir_e_del fs dip filename =
     (if 31 \<le> unat (i_depth (vi dip)) then None
      else do {
        (r, fs, dip) \<leftarrow> del_index_loop (rev (map of_nat [0..<2 ^ unat (i_depth (vi dip))])) fs dip filename;
        Some (case r of Inl e \<Rightarrow> (e, fs, dip)
              | Inr None \<Rightarrow> (1, fs, dip)
              | Inr (Some (bh, cur, prev)) \<Rightarrow> let (bh, dip) = dirent2_del dip bh prev cur in (0, fs_brelse bh fs, dip))
      })"

definition dir_l_del :: "fs \<Rightarrow> vinode \<Rightarrow> bytes \<Rightarrow> int \<times> vinode" where
  "dir_l_del fs dip filename =
     (if i_height (vi dip) \<noteq> 0 then (-1, dip)
      else case leaf_search (fs_sdp fs) dip (b_data (vbh dip)) filename of
        Inl e \<Rightarrow> (if e = - ENOENT then 1 else -1, dip)
      | Inr (cur, prev) \<Rightarrow> let (bh, dip) = dirent2_del dip (vbh dip) prev cur in (0, dip\<lparr>vbh := bh\<rparr>))"

definition gfs2_dirent_del :: "fs \<Rightarrow> vinode \<Rightarrow> bytes \<Rightarrow> (int \<times> fs \<times> vinode) option" where
  "gfs2_dirent_del fs dip filename =
     (if \<not> S_ISDIR (i_mode (vi dip)) \<and> \<not> is_gfs_dir (vi dip) then Some (-1, fs, dip)
      else do {
        (error, fs, dip) \<leftarrow>
          (if i_flags (vi dip) AND GFS2_DIF_EXHASH \<noteq> 0 then dir_e_del fs dip filename
           else let (error, dip) = dir_l_del fs dip filename in Some (error, fs, dip));
        Some (error, fs, dirty dip)
      })"

section \<open>Release of an inode\<close>

text \<open>
  The pointers of one block. The blocks of the next level are put on a list and released at once, so the
  list has freed buffers: \<open>queued\<close> says that it is not empty.
\<close>

primrec freedi_ptrs :: "bool \<Rightarrow> u64 list \<Rightarrow> fs \<Rightarrow> bool \<Rightarrow> (fs \<times> bool) option" where
  "freedi_ptrs last_level [] fs queued = Some (fs, queued)"
| "freedi_ptrs last_level (block # ptrs) fs queued =
     (if block = 0 then freedi_ptrs last_level ptrs fs queued
      else
        let fs = gfs2_free_block fs block in
        if last_level then freedi_ptrs last_level ptrs fs queued
        else if bread (fs_disk fs) block = None then None
        else freedi_ptrs last_level ptrs fs True)"

text \<open>
  A level of the tree below the inode's own block is only walked when its list is empty; with a freed
  buffer on it the code reads memory that it does not own (None). A height above \<open>GFS2_MAX_META_HEIGHT\<close>
  is past the array of lists.
\<close>

definition gfs2_freedi :: "fs \<Rightarrow> u64 \<Rightarrow> (int \<times> fs) option" where
  "gfs2_freedi fs diblock =
     (case bread (fs_disk fs) diblock of None \<Rightarrow> Some (-1, fs)
      | Some bh \<Rightarrow>
          let ip = lgfs2_inode_get bh; sdp = fs_sdp fs; hgt = unat (i_height (vi ip));
              head_size = sizeof struct_gfs2_dinode;
              ptrs = map (\<lambda>i. get_be64 (b_data bh) (head_size + 8 * i)) [0..<(unat (sd_bsize sdp) - head_size + 7) div 8]
          in if GFS2_MAX_META_HEIGHT < hgt then None
             else do {
               (fs, queued) \<leftarrow> (if hgt = 0 then Some (fs, False) else freedi_ptrs (hgt = 1) ptrs fs False);
               if queued then None
               else do {
                 rgd \<leftarrow> gfs2_blk2rgrpd (fs_rgtree fs) diblock;
                 let rgd = the (snd (gfs2_set_bitmap (Some rgd) diblock (int GFS2_BLKST_FREE)));
                 let fs = inode_put (put_rg rgd fs) ip;
                 let rgd = set_rt_dinodes (rt_dinodes rgd - 1) (rgd\<lparr>rt_free := rt_free rgd + 1\<rparr>);
                 let fs = put_rg (rgrp_header_out sdp rgd) fs;
                 Some (0, fs\<lparr>fs_sdp := (fs_sdp fs)\<lparr>blks_alloced := blks_alloced (fs_sdp fs) - 1,
                                                    dinodes_alloced := dinodes_alloced (fs_sdp fs) - 1\<rparr>\<rparr>)
               }
             })"

end
