(* ===== verification/DirLinear.thy ===== *)
theory DirLinear
  imports FsDir
begin

text \<open>
  Directories in the inode's own block: \<open>dir_search\<close>, \<open>dir_add\<close> and \<open>gfs2_dirent_del\<close> are the
  operations of a map from names to inodes, and \<open>init_dinode\<close> makes a directory with two names.
\<close>

section \<open>A directory of names\<close>

text \<open>
  What a client of a directory relies on: an abstract map, a search that reads it, an addition that may
  find no room and a removal. \<open>fresh\<close> says that a name and its inode may be added.
\<close>

locale name_dir =
  fixes ok :: "'s \<Rightarrow> bool"
    and abs :: "'s \<Rightarrow> 'n \<rightharpoonup> 'v"
    and fresh :: "'s \<Rightarrow> 'n \<Rightarrow> 'v \<Rightarrow> bool"
    and search :: "'s \<Rightarrow> 'n \<Rightarrow> 'v option"
    and add :: "'s \<Rightarrow> 'n \<Rightarrow> 'v \<Rightarrow> 's option"
    and del :: "'s \<Rightarrow> 'n \<Rightarrow> 's option"
  assumes search_abs: "ok s \<Longrightarrow> search s f = abs s f"
    and fresh_none: "fresh s f v \<Longrightarrow> abs s f = None"
    and add_abs: "ok s \<Longrightarrow> fresh s f v \<Longrightarrow> add s f v = Some s' \<Longrightarrow> ok s' \<and> abs s' = (abs s)(f \<mapsto> v)"
    and del_abs: "ok s \<Longrightarrow> abs s f = Some v \<Longrightarrow> \<exists>s'. del s f = Some s' \<and> ok s' \<and> abs s' = (abs s)(f := None)"
    and del_none: "ok s \<Longrightarrow> abs s f = None \<Longrightarrow> del s f = None"
begin

lemma add_search:
  assumes "ok s" "fresh s f v" "add s f v = Some s'"
  shows "search s' f = Some v \<and> (g \<noteq> f \<longrightarrow> search s' g = search s g)"
  using add_abs [OF assms] search_abs assms(1) by simp

lemma del_search:
  assumes "ok s" "search s f = Some v"
  shows "\<exists>s'. del s f = Some s' \<and> ok s' \<and> search s' f = None \<and> (\<forall>g. g \<noteq> f \<longrightarrow> search s' g = search s g)"
proof -
  obtain s' where "del s f = Some s'" "ok s'" "abs s' = (abs s)(f := None)"
    using del_abs [OF assms(1), of f v] assms(2) search_abs [OF assms(1)] by auto
  then show ?thesis using search_abs assms(1) by auto
qed

text \<open>Removing what was just added gives the same names.\<close>

lemma add_del:
  assumes "ok s" "fresh s f v" "add s f v = Some s'"
  shows "\<exists>s''. del s' f = Some s'' \<and> ok s'' \<and> (\<forall>g. search s'' g = search s g)"
proof -
  have a: "ok s'" "abs s' = (abs s)(f \<mapsto> v)" using add_abs [OF assms] by simp_all
  then obtain s'' where "del s' f = Some s''" "ok s''" "abs s'' = (abs s')(f := None)" using del_abs [OF a(1), of f v] by auto
  then show ?thesis using a(2) fresh_none [OF assms(2)] search_abs assms(1) by (intro exI [of _ s'']) auto
qed

end

section \<open>Directories in one block\<close>

definition linear_dir :: "gfs2_sbd \<Rightarrow> vinode \<Rightarrow> nat list \<Rightarrow> bool" where
  "linear_dir sdp v ds \<longleftrightarrow> dir_block (unat (sd_bsize sdp)) (b_data (vbh v)) ds \<and> get_be32 (b_data (vbh v)) 4 \<noteq> 6 \<and>
     i_height (vi v) = 0 \<and> i_flags (vi v) AND GFS2_DIF_EXHASH = 0 \<and> S_ISDIR (i_mode (vi v)) \<and>
     length (entries_at (b_data (vbh v)) ds) = unat (i_entries (vi v)) \<and> header_count (b_data (vbh v)) \<noteq> 0 \<and>
     good_entries (entries_at (b_data (vbh v)) ds)"

definition names :: "vinode \<Rightarrow> nat list \<Rightarrow> bytes \<rightharpoonup> lgfs2_inum \<times> u16" where
  "names v ds = dir_map (entries_at (b_data (vbh v)) ds)"

lemma linear_first: "get_be32 buf 4 \<noteq> 6 \<Longrightarrow> gfs2_dirent_first buf = (IS_DINODE, 232)"
  by (simp add: dirent_first)

lemma linear_search:
  assumes "linear_dir (fs_sdp fs) v ds"
  shows "dir_search fs v f = Some (case names v ds f of None \<Rightarrow> Inl (- ENOENT) | Some r \<Rightarrow> Inr r, fs, v)"
proof -
  have L: "dir_block (unat (sd_bsize (fs_sdp fs))) (b_data (vbh v)) ds" "get_be32 (b_data (vbh v)) 4 \<noteq> 6" "i_height (vi v) = 0"
    "i_flags (vi v) AND GFS2_DIF_EXHASH = 0" "S_ISDIR (i_mode (vi v))" "good_entries (entries_at (b_data (vbh v)) ds)"
    "length (entries_at (b_data (vbh v)) ds) = unat (i_entries (vi v))"
    using assms by (simp_all add: linear_dir_def)
  note s = leaf_search_spec [OF L(1,6), of v f]
  have "dir_l_search fs v f = (case names v ds f of None \<Rightarrow> Inl (- ENOENT) | Some r \<Rightarrow> Inr r)"
  proof (cases "names v ds f")
    case None
    then show ?thesis using s L by (simp add: names_def linear_first dir_l_search_def)
  next
    case (Some r)
    then show ?thesis using s L
      by (cases r) (auto simp: names_def linear_first dir_l_search_def found_inum_def lgfs2_inum_in_def de_simps size_simps)
  qed
  then show ?thesis using L by (simp add: dir_search_def)
qed

lemma dir_map_simps [simp]:
  "dir_map [] = Map.empty" "dir_map (e # es) = (dir_map es)(fst e \<mapsto> snd (snd e))"
  by (simp_all add: dir_map_def split: prod.split)

lemma dir_map_insert:
  "f \<notin> fst ` set as \<Longrightarrow> dir_map (as @ (f, h, v) # bs) = (dir_map (as @ bs))(f \<mapsto> v)"
  by (induction as) (auto simp: fun_upd_twist)

lemma dir_map_notin: "dir_map es f = None \<longleftrightarrow> f \<notin> fst ` set es"
  by (induction es) auto

lemma good_insert:
  assumes "good_entries (as @ bs)" "f \<notin> fst ` set (as @ bs)"
  shows "good_entries (as @ (f, gfs2_disk_hash f, v) # bs)"
    "dir_map (as @ (f, gfs2_disk_hash f, v) # bs) = (dir_map (as @ bs))(f \<mapsto> v)"
proof -
  show "good_entries (as @ (f, gfs2_disk_hash f, v) # bs)" using assms by (auto simp: good_entries_def)
  show "dir_map (as @ (f, gfs2_disk_hash f, v) # bs) = (dir_map (as @ bs))(f \<mapsto> v)"
    using assms(2) by (intro dir_map_insert) auto
qed

lemma good_remove:
  assumes "good_entries (as @ (f, h, v) # bs)"
  shows "good_entries (as @ bs)" "dir_map (as @ bs) = (dir_map (as @ (f, h, v) # bs))(f := None)"
proof -
  show "good_entries (as @ bs)" using assms by (auto simp: good_entries_def)
  have f: "f \<notin> fst ` set as" "f \<notin> fst ` set (as @ bs)" using assms by (auto simp: good_entries_def)
  then have "dir_map (as @ bs) f = None" by (subst dir_map_notin)
  then show "dir_map (as @ bs) = (dir_map (as @ (f, h, v) # bs))(f := None)"
    unfolding dir_map_insert [OF f(1)] by auto
qed

lemma linear_add:
  assumes l: "linear_dir (fs_sdp fs) v ds" and f: "names v ds f = None" "length f < 65536" and i: "in_formal_ino i \<noteq> 0"
    and e: "unat (i_entries (vi v)) < 2 ^ 32 - 1" and room: "dirent_alloc (fs_sdp fs) v (vbh v) (length f) \<noteq> None"
  shows "\<exists>v' ds'. dir_add now fs v f i t = Some (0, fs, v') \<and> linear_dir (fs_sdp fs) v' ds' \<and> names v' ds' = (names v ds)(f \<mapsto> (i, t))"
proof -
  let ?n = "unat (sd_bsize (fs_sdp fs))" and ?buf = "b_data (vbh v)"
  have L: "dir_block ?n ?buf ds" "get_be32 ?buf 4 \<noteq> 6" "i_height (vi v) = 0" "header_count ?buf \<noteq> 0"
    "i_flags (vi v) AND GFS2_DIF_EXHASH = 0" "S_ISDIR (i_mode (vi v))" "good_entries (entries_at ?buf ds)"
    "length (entries_at ?buf ds) = unat (i_entries (vi v))"
    using l by (simp_all add: linear_dir_def)
  obtain new bh' v' where a: "dirent_alloc (fs_sdp fs) v (vbh v) (length f) = Some (new, bh', v')" using room by auto
  obtain xs ys where x: "dir_block ?n (b_data bh') (xs @ new # ys)" "free_at (b_data bh') (length f) new"
    "entries_at (b_data bh') (xs @ ys) = entries_at ?buf ds" "agree 0 232 ?buf (b_data bh')"
    "v' = v\<lparr>vi := (vi v)\<lparr>i_entries := i_entries (vi v) + 1\<rparr>, vbh := bmodified (vbh v)\<rparr>"
    using dirent_alloc_spec [OF L(1) f(2) _ a] L(4) linear_first [OF L(2)] by auto
  have fst': "gfs2_dirent_first (b_data bh') = (IS_DINODE, 232)" using agree_header(1) [OF x(4)] linear_first [OF L(2)] by simp
  define buf' where "buf' = dirent_fill new i (gfs2_disk_hash f) t f (b_data bh')"
  have X: "tiles (b_data bh') 232 (xs @ new # ys) ?n" "length (b_data bh') = ?n" using x(1) fst' by (simp_all add: dir_block_def)
  have F: "length buf' = ?n" "tiles buf' 232 (xs @ new # ys) ?n" "agree 0 232 (b_data bh') buf'"
    "entries_at buf' (xs @ new # ys) = entries_at (b_data bh') xs @ (f, gfs2_disk_hash f, i, t) # entries_at (b_data bh') ys"
    using fill_spec [OF X x(2) i, of "gfs2_disk_hash f" t] unfolding buf'_def by blast+
  have ag: "agree 0 232 ?buf buf'" by (rule agree_trans [OF x(4) F(3)])
  have hd: "gfs2_dirent_first buf' = gfs2_dirent_first ?buf" "get_be32 buf' 148 = get_be32 ?buf 148"
    using agree_header [OF ag] by simp_all
  define v'' where "v'' = v'\<lparr>vbh := bmodified (set_buf (dirent_fill new i (gfs2_disk_hash f) t f) bh')\<rparr>"
  have v'': "b_data (vbh v'') = buf'" "vi v'' = (vi v)\<lparr>i_entries := i_entries (vi v) + 1\<rparr>"
    by (simp_all add: v''_def x(5) set_buf_def buf'_def)
  have add: "dir_add now fs v f i t = Some (0, fs, v'')" using L(5) a by (simp add: dir_add_def dir_l_add_def v''_def)
  define as bs where "as = entries_at (b_data bh') xs" and "bs = entries_at (b_data bh') ys"
  have es: "as @ bs = entries_at ?buf ds" "entries_at buf' (xs @ new # ys) = as @ (f, gfs2_disk_hash f, i, t) # bs"
    using x(3) F(4) by (simp_all add: as_def bs_def)
  have nf: "f \<notin> fst ` set (as @ bs)" using f(1) unfolding es(1) names_def by (simp only: dir_map_notin) simp
  have g: "good_entries (as @ bs)" using L(7) es(1) by simp
  have "unat (i_entries (vi v) + 1) = Suc (unat (i_entries (vi v)))"
    using e by (subst unat_add_no_wrap) simp_all
  moreover have "length as + length bs = unat (i_entries (vi v))" using arg_cong [OF es(1), of length] L(8) by simp
  ultimately have "linear_dir (fs_sdp fs) v'' (xs @ new # ys)"
    using L x(1) F(1,2) hd g nf good_insert(1) [OF g nf] es linear_first [OF L(2)]
    unfolding linear_dir_def v'' by (auto simp: dir_block_def header_count_def dirent_first simp del: entries_at_simps split: if_splits)
  moreover have "names v'' (xs @ new # ys) = (names v ds)(f \<mapsto> (i, t))"
    unfolding names_def v'' es(2) good_insert(2) [OF g nf] es(1) ..
  ultimately show ?thesis using add by blast
qed

lemma del_at:
  assumes d: "dir_block n buf (xs @ y # ys)" and y: "live buf y" and i: "get_be32 buf 4 \<noteq> 6"
  defines "buf' \<equiv> (case if xs = [] then None else Some (last xs) of
      None \<Rightarrow> lgfs2_inum_out \<lparr>in_formal_ino = 0, in_addr = 0\<rparr> buf (y + offsetof struct_gfs2_dirent ''de_inum'')
    | Some p \<Rightarrow> put_de_rec_len p (de_rec_len buf p + de_rec_len buf y) buf)"
  shows "\<exists>ds'. dir_block n buf' ds' \<and> agree 0 232 buf buf' \<and> entries_at buf' ds' = entries_at buf (xs @ ys)"
proof -
  have B: "length buf = n" "n \<le> 65536" "8 dvd n" "512 \<le> n" "tiles buf 232 (xs @ y # ys) n"
    using d linear_first [OF i] by (simp_all add: dir_block_def)
  have done_it: ?thesis if *: "length buf' = n \<and> tiles buf' 232 ds' n \<and> agree 0 232 buf buf' \<and> entries_at buf' ds' = entries_at buf (xs @ ys)"
    "ds' \<noteq> []" for ds'
  proof -
    have "gfs2_dirent_first buf' = (IS_DINODE, 232)" using * agree_header(1) [of 232 buf buf'] linear_first [OF i] by simp
    then show ?thesis using * B by (intro exI [of _ ds']) (simp add: dir_block_def)
  qed
  show ?thesis
  proof (cases xs rule: rev_cases)
    case Nil
    then have b: "buf' = lgfs2_inum_out \<lparr>in_formal_ino = 0, in_addr = 0\<rparr> buf y" by (simp add: buf'_def size_simps)
    have t: "tiles buf 232 (y # ys) n" using B(5) Nil by (simp only: append_Nil)
    show ?thesis
      using del_first_spec [OF t B(1) y] unfolding b [symmetric] by (intro done_it [of "y # ys"]) (simp_all only: Nil append_Nil, simp)
  next
    case (snoc zs p)
    then have b: "buf' = put_de_rec_len p (de_rec_len buf p + de_rec_len buf y) buf" by (simp add: buf'_def)
    have t: "tiles buf 232 (zs @ p # y # ys) n" using B(5) snoc by (simp only: append_assoc append_Cons append_Nil)
    have n: "n < 232 + 65536" using B(2) by simp
    show ?thesis
      using del_next_spec [OF t B(1) n] unfolding b [symmetric]
      by (intro done_it [of "zs @ p # ys"]) (simp_all only: snoc append_assoc append_Cons append_Nil, simp)
  qed
qed

lemma linear_del:
  assumes l: "linear_dir (fs_sdp fs) v ds" and f: "names v ds f = Some r"
  shows "\<exists>v' ds'. gfs2_dirent_del fs v f = Some (0, fs, v') \<and> linear_dir (fs_sdp fs) v' ds' \<and> names v' ds' = (names v ds)(f := None)"
proof -
  let ?n = "unat (sd_bsize (fs_sdp fs))" and ?buf = "b_data (vbh v)"
  have L: "dir_block ?n ?buf ds" "get_be32 ?buf 4 \<noteq> 6" "i_height (vi v) = 0" "header_count ?buf \<noteq> 0"
    "i_flags (vi v) AND GFS2_DIF_EXHASH = 0" "S_ISDIR (i_mode (vi v))" "good_entries (entries_at ?buf ds)"
    "length (entries_at ?buf ds) = unat (i_entries (vi v))"
    using l by (simp_all add: linear_dir_def)
  obtain i t where r: "r = (i, t)" by fastforce
  obtain xs y ys where y: "ds = xs @ y # ys" "named ?buf f y"
    "leaf_search (fs_sdp fs) v ?buf f = Inr (y, if xs = [] then None else Some (last xs))"
    using leaf_search_spec [OF L(1,7), of v f] f L(2,8) unfolding r names_def by (auto simp: linear_first)
  define buf' where "buf' = (case if xs = [] then None else Some (last xs) of
      None \<Rightarrow> lgfs2_inum_out \<lparr>in_formal_ino = 0, in_addr = 0\<rparr> ?buf (y + offsetof struct_gfs2_dirent ''de_inum'')
    | Some p \<Rightarrow> put_de_rec_len p (de_rec_len ?buf p + de_rec_len ?buf y) ?buf)"
  obtain ds' where d: "dir_block ?n buf' ds'" "agree 0 232 ?buf buf'" "entries_at buf' ds' = entries_at ?buf (xs @ ys)"
    using del_at [of ?n ?buf xs y ys] L(1,2) y(1,2) unfolding buf'_def by blast
  have ds: "entries_at ?buf ds = entries_at ?buf xs @ (f, snd (entry_at ?buf y)) # entries_at ?buf ys"
    using y(1,2) by (simp add: entry_at_def)
  have ne: "i_entries (vi v) \<noteq> 0" using L(8) ds by (auto simp: unat_eq_zero)
  have cm: "gfs2_check_meta ?buf GFS2_METATYPE_LF \<noteq> 0" using L(2) by (simp add: gfs2_check_meta_def size_simps)
  define v' where "v' = v\<lparr>vi := (vi v)\<lparr>i_entries := i_entries (vi v) - 1\<rparr>, vbh := bmodified ((vbh v)\<lparr>b_data := buf'\<rparr>)\<rparr>"
  have "dirent2_del v (vbh v) (if xs = [] then None else Some (last xs)) y = (vbh v', v\<lparr>vi := vi v', vbh := bmodified (vbh v)\<rparr>)"
    using ne cm by (simp add: dirent2_del_def buf'_def v'_def Let_def)
  then have "dir_l_del fs v f = (0, v')" using L(3) y(3) by (simp add: dir_l_del_def v'_def)
  then have run: "gfs2_dirent_del fs v f = Some (0, fs, v')"
    using L(5,6) by (simp add: gfs2_dirent_del_def dirty_def v'_def bmodified_def)
  have es: "entries_at buf' ds' = entries_at ?buf xs @ entries_at ?buf ys" using d(3) by simp
  obtain h w where hw: "snd (entry_at ?buf y) = (h, w)" by (cases "snd (entry_at ?buf y)") auto
  note g = good_remove [of "entries_at ?buf xs" f h w "entries_at ?buf ys", folded hw, folded ds es]
  have "unat (i_entries (vi v) - 1) = unat (i_entries (vi v)) - 1" using ne by (simp add: unat_minus_one)
  moreover have "Suc (length (entries_at buf' ds')) = unat (i_entries (vi v))"
    unfolding L(8) [symmetric] es ds by simp
  moreover have "get_be32 buf' 4 \<noteq> 6" "header_count buf' \<noteq> 0"
    using agree_header [OF d(2)] L(2,4) by (auto simp: header_count_def dirent_first split: if_splits)
  ultimately have "linear_dir (fs_sdp fs) v' ds'"
    using L d(1) g(1) [OF L(7)] by (simp add: linear_dir_def v'_def)
  moreover have "names v' ds' = (names v ds)(f := None)"
    using g(2) [OF L(7)] by (simp add: names_def v'_def)
  ultimately show ?thesis using run by blast
qed

lemma linear_del_none:
  assumes l: "linear_dir (fs_sdp fs) v ds" and f: "names v ds f = None"
  shows "gfs2_dirent_del fs v f = Some (1, fs, dirty v)"
proof -
  have L: "dir_block (unat (sd_bsize (fs_sdp fs))) (b_data (vbh v)) ds" "get_be32 (b_data (vbh v)) 4 \<noteq> 6" "i_height (vi v) = 0"
    "i_flags (vi v) AND GFS2_DIF_EXHASH = 0" "S_ISDIR (i_mode (vi v))" "good_entries (entries_at (b_data (vbh v)) ds)"
    "length (entries_at (b_data (vbh v)) ds) = unat (i_entries (vi v))"
    using l by (simp_all add: linear_dir_def)
  then have "leaf_search (fs_sdp fs) v (b_data (vbh v)) f = Inl (- ENOENT)"
    using leaf_search_spec [OF L(1,6), of v f] f by (simp add: names_def linear_first)
  then show ?thesis using L by (simp add: gfs2_dirent_del_def dir_l_del_def)
qed

text \<open>The places of the entries follow from the block, so the names are those of the inode.\<close>

definition places :: "gfs2_sbd \<Rightarrow> vinode \<Rightarrow> nat list" where
  "places sdp v = dirents (unat (sd_bsize sdp)) (b_data (vbh v)) (sizeof struct_gfs2_dinode)"

definition linear_ok :: "fs \<Rightarrow> vinode \<Rightarrow> bool" where
  "linear_ok fs v \<longleftrightarrow> linear_dir (fs_sdp fs) v (places (fs_sdp fs) v)"

definition dir_names :: "fs \<Rightarrow> vinode \<Rightarrow> bytes \<rightharpoonup> lgfs2_inum \<times> u16" where
  "dir_names fs v = names v (places (fs_sdp fs) v)"

lemma linear_places: "linear_dir sdp v ds \<Longrightarrow> places sdp v = ds"
  by (auto simp: linear_dir_def dir_block_def linear_first places_def size_simps intro: dirents_tiles)

text \<open>A name that may be added, for which the block has room.\<close>

definition may_add :: "fs \<Rightarrow> vinode \<Rightarrow> bytes \<Rightarrow> lgfs2_inum \<Rightarrow> bool" where
  "may_add fs v f i \<longleftrightarrow> dir_names fs v f = None \<and> length f \<le> GFS2_FNAMESIZE \<and> in_formal_ino i \<noteq> 0 \<and>
     unat (i_entries (vi v)) < 2 ^ 32 - 1 \<and> dirent_alloc (fs_sdp fs) v (vbh v) (length f) \<noteq> None"

lemma linear_okI: "linear_dir (fs_sdp fs) v ds \<Longrightarrow> linear_ok fs v \<and> dir_names fs v = names v ds"
  using linear_places by (simp add: linear_ok_def dir_names_def)

lemma linear_ok_search:
  "linear_ok fs v \<Longrightarrow> dir_search fs v f = Some (case dir_names fs v f of None \<Rightarrow> Inl (- ENOENT) | Some r \<Rightarrow> Inr r, fs, v)"
  unfolding linear_ok_def dir_names_def by (rule linear_search)

lemma linear_ok_add:
  assumes "linear_ok fs v" "may_add fs v f i"
  shows "\<exists>v'. dir_add now fs v f i t = Some (0, fs, v') \<and> linear_ok fs v' \<and> dir_names fs v' = (dir_names fs v)(f \<mapsto> (i, t))"
proof -
  have "\<exists>v' ds'. dir_add now fs v f i t = Some (0, fs, v') \<and> linear_dir (fs_sdp fs) v' ds'
      \<and> names v' ds' = (names v (places (fs_sdp fs) v))(f \<mapsto> (i, t))"
    by (rule linear_add) (use assms in \<open>simp_all add: linear_ok_def may_add_def dir_names_def\<close>)
  then show ?thesis using linear_okI dir_names_def by metis
qed

lemma linear_ok_del:
  assumes "linear_ok fs v"
  shows "dir_names fs v f = Some r \<Longrightarrow>
      \<exists>v'. gfs2_dirent_del fs v f = Some (0, fs, v') \<and> linear_ok fs v' \<and> dir_names fs v' = (dir_names fs v)(f := None)"
    "dir_names fs v f = None \<Longrightarrow> gfs2_dirent_del fs v f = Some (1, fs, dirty v)"
proof -
  have l: "linear_dir (fs_sdp fs) v (places (fs_sdp fs) v)" using assms by (simp add: linear_ok_def)
  show "\<exists>v'. gfs2_dirent_del fs v f = Some (0, fs, v') \<and> linear_ok fs v' \<and> dir_names fs v' = (dir_names fs v)(f := None)"
    if "dir_names fs v f = Some r"
    using linear_del [OF l that [unfolded dir_names_def]] linear_okI dir_names_def by metis
  show "gfs2_dirent_del fs v f = Some (1, fs, dirty v)" if "dir_names fs v f = None"
    by (rule linear_del_none [OF l that [unfolded dir_names_def]])
qed

interpretation lin: name_dir "\<lambda>(fs, v). linear_ok fs v" "\<lambda>(fs, v). dir_names fs v" "\<lambda>(fs, v) f (i, t). may_add fs v f i"
  "\<lambda>(fs, v) f. case dir_search fs v f of Some (Inr r, _) \<Rightarrow> Some r | _ \<Rightarrow> None"
  "\<lambda>(fs, v) f (i, t). map_option snd (dir_add now fs v f i t)"
  "\<lambda>(fs, v) f. case gfs2_dirent_del fs v f of Some (e, s) \<Rightarrow> if e = 0 then Some s else None | None \<Rightarrow> None"
  for now
proof unfold_locales
  fix s :: "fs \<times> vinode" and f :: bytes and r :: "lgfs2_inum \<times> u16" and s' :: "fs \<times> vinode"
  obtain fs v i t where s: "s = (fs, v)" "r = (i, t)" by fastforce
  show "(case s of (fs, v) \<Rightarrow> \<lambda>f. case dir_search fs v f of Some (Inr r, _) \<Rightarrow> Some r | _ \<Rightarrow> None) f = (case s of (fs, v) \<Rightarrow> dir_names fs v) f"
    if "case s of (fs, v) \<Rightarrow> linear_ok fs v"
    using that linear_ok_search [of fs v f] s by (simp split: option.split)
  show "(case s of (fs, v) \<Rightarrow> dir_names fs v) f = None" if "(case s of (fs, v) \<Rightarrow> \<lambda>f (i, t). may_add fs v f i) f r"
    using that s by (simp add: may_add_def)
  show "(case s' of (fs, v) \<Rightarrow> linear_ok fs v) \<and> (case s' of (fs, v) \<Rightarrow> dir_names fs v) = (case s of (fs, v) \<Rightarrow> dir_names fs v)(f \<mapsto> r)"
    if "case s of (fs, v) \<Rightarrow> linear_ok fs v" "(case s of (fs, v) \<Rightarrow> \<lambda>f (i, t). may_add fs v f i) f r"
      "(case s of (fs, v) \<Rightarrow> \<lambda>f (i, t). map_option snd (dir_add now fs v f i t)) f r = Some s'" for now
    using that linear_ok_add [of fs v f i now t] s by auto
  show "\<exists>s'. (case s of (fs, v) \<Rightarrow> \<lambda>f. case gfs2_dirent_del fs v f of Some (e, s) \<Rightarrow> if e = 0 then Some s else None | None \<Rightarrow> None) f = Some s'
      \<and> (case s' of (fs, v) \<Rightarrow> linear_ok fs v) \<and> (case s' of (fs, v) \<Rightarrow> dir_names fs v) = (case s of (fs, v) \<Rightarrow> dir_names fs v)(f := None)"
    if "case s of (fs, v) \<Rightarrow> linear_ok fs v" "(case s of (fs, v) \<Rightarrow> dir_names fs v) f = Some r"
    using that linear_ok_del(1) [of fs v f r] s by auto
  show "(case s of (fs, v) \<Rightarrow> \<lambda>f. case gfs2_dirent_del fs v f of Some (e, s) \<Rightarrow> if e = 0 then Some s else None | None \<Rightarrow> None) f = None"
    if "case s of (fs, v) \<Rightarrow> linear_ok fs v" "(case s of (fs, v) \<Rightarrow> dir_names fs v) f = None"
    using that linear_ok_del(2) [of fs v f] s by simp
qed

section \<open>A new directory\<close>

lemma slice_slice: "a + w \<le> m \<Longrightarrow> slice (d + a) w buf = slice a w (slice d m buf)"
  by (simp add: slice_def take_drop ac_simps min_def)

lemma struct_fields:
  assumes s: "slice d 40 buf = dirent_struct inum hash rec_len name_len type"
  shows "de_ino buf d = in_formal_ino inum" "de_addr buf d = in_addr inum" "de_hash buf d = hash"
    "de_rec_len buf d = of_nat rec_len" "de_name_len buf d = of_nat name_len" "de_type buf d = type"
proof -
  have sub: "slice (d + a) w buf = slice (0 + a) w (dirent_struct inum hash rec_len name_len type)" if "a + w \<le> 40" for a w
    using slice_slice [OF that, of d buf] s by simp
  have "de_ino buf d = de_ino (dirent_struct inum hash rec_len name_len type) 0"
    "de_addr buf d = de_addr (dirent_struct inum hash rec_len name_len type) 0"
    "de_hash buf d = de_hash (dirent_struct inum hash rec_len name_len type) 0"
    "de_rec_len buf d = de_rec_len (dirent_struct inum hash rec_len name_len type) 0"
    "de_name_len buf d = de_name_len (dirent_struct inum hash rec_len name_len type) 0"
    "de_type buf d = de_type (dirent_struct inum hash rec_len name_len type) 0"
    using sub [of 0 8] sub [of 8 8] sub [of 16 4] sub [of 20 2] sub [of 22 2] sub [of 24 2]
    by (simp_all add: de_simps get_be64_def get_be32_def get_be16_def)
  then show "de_ino buf d = in_formal_ino inum" "de_addr buf d = in_addr inum" "de_hash buf d = hash"
    "de_rec_len buf d = of_nat rec_len" "de_name_len buf d = of_nat name_len" "de_type buf d = type"
    by (simp_all add: dirent_struct_def de_simps lgfs2_inum_out_def size_simps field_simps)
qed

lemma length_dirent_struct [simp]: "length (dirent_struct inum hash rec_len name_len type) = 40"
  by (simp add: dirent_struct_def lgfs2_inum_out_def size_simps)

text \<open>The two entries of a new directory.\<close>

lemma new_entries:
  fixes type :: u16 and flags :: u32
  assumes n: "length buf = n" "512 \<le> n" "n \<le> 65536" "8 dvd n"
    and i: "in_formal_ino inum \<noteq> 0" "in_formal_ino parent \<noteq> 0"
  defines "b \<equiv> init_dinode_dir n inum parent type flags buf"
  shows "tiles b 232 [232, 280] n \<and> entries_at b [232, 280] = [(dot, gfs2_disk_hash dot, inum, type), (dotdot, gfs2_disk_hash dotdot, parent, type)]
    \<and> unat (de_rec_len b 280) = n - 280 \<and> unat (de_name_len b 280) = 2"
proof -
  define b4 where "b4 = memcpy_at 320 dotdot (memcpy_at 280 (dirent_struct parent (gfs2_disk_hash dotdot) (n - 280) 2 type)
    (memcpy_at 272 dot (memcpy_at 232 (dirent_struct inum (gfs2_disk_hash dot) 48 1 type) buf)))"
  have b: "b = put_be32 148 2 (put_be32 132 1200 (put_be32 128 (flags OR GFS2_DIF_JDATA)
      (put_be64 56 (of_nat (n - 232)) (put_be32 52 2 b4))))"
    by (simp add: b_def b4_def init_dinode_dir_def size_simps dirent_size(1) Let_def)
  have agr: "agree 232 n b4 b" unfolding b put_be32_def put_be64_def using n
    by (intro agree_trans [OF agree_memcpy agree_trans [OF agree_memcpy agree_trans [OF agree_memcpy agree_trans [OF agree_memcpy agree_memcpy]]]])
      (simp_all add: b4_def)
  have s4: "slice 232 40 b4 = dirent_struct inum (gfs2_disk_hash dot) 48 1 type" "slice 272 1 b4 = dot"
    "slice 280 40 b4 = dirent_struct parent (gfs2_disk_hash dotdot) (n - 280) 2 type" "slice 320 2 b4 = dotdot"
    using n by (simp_all add: b4_def slice_memcpy_other slice_memcpy_same)
  have s: "slice 232 40 b = dirent_struct inum (gfs2_disk_hash dot) 48 1 type" "slice 272 1 b = dot"
    "slice 280 40 b = dirent_struct parent (gfs2_disk_hash dotdot) (n - 280) 2 type" "slice 320 2 b = dotdot"
    using agree_slice [OF agr] s4 n by simp_all
  note f1 = struct_fields [OF s(1)] and f2 = struct_fields [OF s(3)]
  have rl: "unat (de_rec_len b 232) = 48" "unat (de_rec_len b 280) = n - 280"
    using f1(4) f2(4) n by (simp_all add: unat_of_nat_small del: of_nat_diff)
  have nl: "unat (de_name_len b 232) = 1" "unat (de_name_len b 280) = 2" using f1(5) f2(5) by simp_all
  have "48 \<le> n - 280" "40 \<le> n - 280" using n(2) by linarith+
  then have ok: "dent_ok b 232" "dent_ok b 280"
    using rl nl n by (simp_all add: dent_ok_def dirent_size(1) dvd_diff_nat)
  have names: "de_name b 232 = dot" "de_name b 280 = dotdot" using nl s(2,4) by (simp_all add: de_simps(5,7))
  have "entries_at b [232, 280] = [(dot, gfs2_disk_hash dot, inum, type), (dotdot, gfs2_disk_hash dotdot, parent, type)]"
    using f1 f2 names i by (simp add: live_def entry_at_def)
  moreover have "tiles b 232 [232, 280] n" using ok rl n by simp
  ultimately show ?thesis using rl nl by blast
qed

text \<open>The header that comes with them, over a block of zeros.\<close>

lemma new_header:
  fixes type :: u16 and flags flags' mode :: u32 and now blk :: u64 and inum parent :: lgfs2_inum
  assumes n: "512 \<le> n"
  defines "b \<equiv> init_dinode_dir n inum parent type flags (init_dinode_fields now blk inum mode flags' (replicate n 0))"
  shows "length b = n" "get_be32 b 4 = 4" "get_be16 b 138 = 0" "get_be32 b 128 = flags OR GFS2_DIF_JDATA" "get_be32 b 40 = mode" "get_be32 b 148 = 2"
proof -
  define h where "h = init_dinode_fields now blk inum mode flags' (replicate n 0)"
  have z: "get_be16 (replicate n 0) 138 = 0" using n by (simp add: get_be16_def slice_def be_val_def numeral_eq_Suc)
  have h: "length h = n" "get_be32 h 4 = 4" "get_be16 h 138 = 0" "get_be32 h 40 = mode"
    using n z by (simp_all add: h_def init_dinode_fields_def set_meta_header_def lgfs2_inum_out_def size_simps field_simps)
  show "length b = n" "get_be32 b 4 = 4" "get_be16 b 138 = 0" "get_be32 b 128 = flags OR GFS2_DIF_JDATA" "get_be32 b 40 = mode" "get_be32 b 148 = 2"
    using h n unfolding b_def h_def [symmetric]
    by (simp_all add: init_dinode_dir_def size_simps dirent_size(1) Let_def field_simps codec_other)
qed

lemma new_linear_dir:
  assumes n: "512 \<le> unat (sd_bsize sdp)" "unat (sd_bsize sdp) \<le> 65536" "8 dvd unat (sd_bsize sdp)"
    and i: "in_formal_ino inum \<noteq> 0" "in_formal_ino parent \<noteq> 0" and m: "S_ISDIR mode" "flags AND GFS2_DIF_EXHASH = 0"
  shows "linear_dir sdp (lgfs2_inode_get (init_dinode now sdp None inum mode flags parent)) [232, 280] \<and>
    names (lgfs2_inode_get (init_dinode now sdp None inum mode flags parent)) [232, 280] = [dot \<mapsto> (inum, 4), dotdot \<mapsto> (parent, 4)] \<and>
    (48 + GFS2_DIRENT_SIZE len \<le> unat (sd_bsize sdp) - 280 \<longrightarrow>
      fits (b_data (vbh (lgfs2_inode_get (init_dinode now sdp None inum mode flags parent)))) len 280)"
proof -
  let ?n = "unat (sd_bsize sdp)" and ?ip = "lgfs2_inode_get (init_dinode now sdp None inum mode flags parent)"
  define b where "b = init_dinode_dir ?n inum parent 4 flags (init_dinode_fields now (in_addr inum) inum mode flags (replicate ?n 0))"
  note H = new_header [OF n(1), of inum parent 4 flags now "in_addr inum" mode flags, folded b_def]
  have bh: "b_data (vbh ?ip) = b" using m(1)
    by (simp add: lgfs2_inode_get_def init_dinode_def init_dinode_at_def set_buf_def b_def Let_def)
  have vi: "i_height (vi ?ip) = 0" "i_flags (vi ?ip) = flags OR GFS2_DIF_JDATA" "i_mode (vi ?ip) = mode" "i_entries (vi ?ip) = 2"
    using H bh by (simp_all add: lgfs2_inode_get_def lgfs2_dinode_in_def size_simps set_i_atime_nsec_def set_i_mtime_nsec_def set_i_ctime_nsec_def)
  have len: "length (init_dinode_fields now (in_addr inum) inum mode flags (replicate ?n 0)) = ?n"
    by (simp add: init_dinode_fields_def lgfs2_inum_out_def)
  note E = new_entries [OF len n i, of 4 flags, folded b_def]
  have fl: "(flags OR GFS2_DIF_JDATA) AND GFS2_DIF_EXHASH = 0"
    using m(2) by (simp add: bit.conj_disj_distrib2)
  have fst: "gfs2_dirent_first b = (IS_DINODE, 232)" using H(2) by (simp add: dirent_first)
  have "linear_dir sdp ?ip [232, 280]"
    using H E vi bh fl m n fst by (simp add: linear_dir_def dir_block_def header_count_def good_entries_def del: tiles.simps entries_at_simps)
  moreover have "names ?ip [232, 280] = [dot \<mapsto> (inum, 4), dotdot \<mapsto> (parent, 4)]"
    using E bh by (simp add: names_def del: tiles.simps entries_at_simps) (auto simp: fun_upd_twist)
  moreover have "fits (b_data (vbh ?ip)) len 280" if "48 + GFS2_DIRENT_SIZE len \<le> ?n - 280"
    using E that by (simp add: bh fits_def dirent_size(1))
  ultimately show ?thesis by blast
qed

section \<open>Properties\<close>

text \<open>\<open>init_dinode\<close> makes a directory that is well formed: its two entries fill the block without a gap,
  their hashes and counts are right, and \<open>dir_search\<close> finds in it the directory itself under
  \<open>.\<close>, its parent under \<open>..\<close> and no other name.\<close>

theorem new_directory:
  assumes "512 \<le> unat (sd_bsize (fs_sdp fs))" "unat (sd_bsize (fs_sdp fs)) \<le> 65536" "8 dvd unat (sd_bsize (fs_sdp fs))"
    and "in_formal_ino inum \<noteq> 0" "in_formal_ino parent \<noteq> 0" "S_ISDIR mode" "flags AND GFS2_DIF_EXHASH = 0"
  shows "linear_ok fs (lgfs2_inode_get (init_dinode now (fs_sdp fs) None inum mode flags parent)) \<and>
    dir_search fs (lgfs2_inode_get (init_dinode now (fs_sdp fs) None inum mode flags parent)) f =
      Some (if f = dot then Inr (inum, 4) else if f = dotdot then Inr (parent, 4) else Inl (- ENOENT),
            fs, lgfs2_inode_get (init_dinode now (fs_sdp fs) None inum mode flags parent))"
proof -
  let ?ip = "lgfs2_inode_get (init_dinode now (fs_sdp fs) None inum mode flags parent)"
  have "linear_ok fs ?ip" "dir_names fs ?ip = [dot \<mapsto> (inum, 4), dotdot \<mapsto> (parent, 4)]"
    using linear_okI [of fs ?ip "[232, 280]"] new_linear_dir [OF assms, of now] by simp_all
  then show ?thesis using linear_ok_search [of fs ?ip f] by simp
qed

definition new_dir_example :: vinode where
  "new_dir_example = lgfs2_inode_get (init_dinode 7 (fs_sdp fs_example) None \<lparr>in_formal_ino = 5, in_addr = 1000\<rparr> 0x41ED 0
     \<lparr>in_formal_ino = 1, in_addr = 22\<rparr>)"

theorem new_directory_witness:
  "linear_ok fs_example new_dir_example \<and>
    dir_search fs_example new_dir_example dotdot = Some (Inr (\<lparr>in_formal_ino = 1, in_addr = 22\<rparr>, 4), fs_example, new_dir_example)"
  using new_directory [of fs_example "\<lparr>in_formal_ino = 5, in_addr = 1000\<rparr>" "\<lparr>in_formal_ino = 1, in_addr = 22\<rparr>" "0x41ED" 0 7 dotdot]
  by (simp add: new_dir_example_def S_ISDIR_def fs_example_def sbd_example_def)

lemma new_dir_example_ok:
  "linear_ok fs_example new_dir_example" "may_add fs_example new_dir_example [97] \<lparr>in_formal_ino = 6, in_addr = 1001\<rparr>"
  "dir_names fs_example new_dir_example = [dot \<mapsto> (\<lparr>in_formal_ino = 5, in_addr = 1000\<rparr>, 4), dotdot \<mapsto> (\<lparr>in_formal_ino = 1, in_addr = 22\<rparr>, 4)]"
proof -
  have n: "unat (sd_bsize (fs_sdp fs_example)) = 512" by (simp add: fs_example_def sbd_example_def)
  have N: "linear_dir (fs_sdp fs_example) new_dir_example [232, 280]"
    "names new_dir_example [232, 280] = [dot \<mapsto> (\<lparr>in_formal_ino = 5, in_addr = 1000\<rparr>, 4), dotdot \<mapsto> (\<lparr>in_formal_ino = 1, in_addr = 22\<rparr>, 4)]"
    "fits (b_data (vbh new_dir_example)) 1 280"
    using new_linear_dir [of "fs_sdp fs_example" "\<lparr>in_formal_ino = 5, in_addr = 1000\<rparr>" "\<lparr>in_formal_ino = 1, in_addr = 22\<rparr>" "0x41ED" 0 7 1] n
    by (simp_all add: new_dir_example_def S_ISDIR_def dirent_size(1))
  show ok: "linear_ok fs_example new_dir_example"
    and nm: "dir_names fs_example new_dir_example = [dot \<mapsto> (\<lparr>in_formal_ino = 5, in_addr = 1000\<rparr>, 4), dotdot \<mapsto> (\<lparr>in_formal_ino = 1, in_addr = 22\<rparr>, 4)]"
    using linear_okI [OF N(1)] N(2) by simp_all
  have L: "dir_block (unat (sd_bsize (fs_sdp fs_example))) (b_data (vbh new_dir_example)) [232, 280]"
    "length (entries_at (b_data (vbh new_dir_example)) [232, 280]) = unat (i_entries (vi new_dir_example))"
    using N(1) by (simp_all only: linear_dir_def)
  have "length (entries_at (b_data (vbh new_dir_example)) [232, 280]) \<le> 2" by simp
  then have "unat (i_entries (vi new_dir_example)) < 2 ^ 32 - 1" using L(2) by simp
  moreover have "dirent_alloc (fs_sdp fs_example) new_dir_example (vbh new_dir_example) 1 \<noteq> None"
    using dirent_alloc_none [OF L(1)] N(3) by fastforce
  ultimately show "may_add fs_example new_dir_example [97] \<lparr>in_formal_ino = 6, in_addr = 1001\<rparr>"
    using nm by (simp add: may_add_def)
qed

text \<open>C13. Adding a name to a directory in one block keeps the block well formed and adds exactly that name: it
  is found with the inode and the type it was added with, and every other search has the result it
  had before.\<close>

theorem dir_add_search:
  assumes "linear_ok fs v" "may_add fs v f i"
  shows "\<exists>v'. dir_add now fs v f i t = Some (0, fs, v') \<and> linear_ok fs v' \<and> dir_search fs v' f = Some (Inr (i, t), fs, v') \<and>
    (\<forall>g. g \<noteq> f \<longrightarrow> map_option fst (dir_search fs v' g) = map_option fst (dir_search fs v g))"
proof -
  obtain v' where "dir_add now fs v f i t = Some (0, fs, v')" "linear_ok fs v'" "dir_names fs v' = (dir_names fs v)(f \<mapsto> (i, t))"
    using linear_ok_add [OF assms] by blast
  then show ?thesis using linear_ok_search assms(1) by (intro exI [of _ v']) simp
qed

theorem dir_add_search_witness:
  "\<exists>v'. dir_add 0 fs_example new_dir_example [97] \<lparr>in_formal_ino = 6, in_addr = 1001\<rparr> 8 = Some (0, fs_example, v') \<and>
    dir_search fs_example v' [97] = Some (Inr (\<lparr>in_formal_ino = 6, in_addr = 1001\<rparr>, 8), fs_example, v')"
  using dir_add_search [OF new_dir_example_ok(1,2), of 0 8] by blast

text \<open>C14. Removing a name that a directory in one block has succeeds, keeps the block well formed and removes
  exactly that name; removing one that it does not have returns 1 and leaves the block.\<close>

theorem dir_del_search:
  assumes "linear_ok fs v"
  shows "\<exists>v'. (if map_option fst (dir_search fs v f) = Some (Inl (- ENOENT))
      then gfs2_dirent_del fs v f = Some (1, fs, v') \<and> b_data (vbh v') = b_data (vbh v)
      else gfs2_dirent_del fs v f = Some (0, fs, v')) \<and>
    linear_ok fs v' \<and> dir_search fs v' f = Some (Inl (- ENOENT), fs, v') \<and>
    (\<forall>g. g \<noteq> f \<longrightarrow> map_option fst (dir_search fs v' g) = map_option fst (dir_search fs v g))"
proof (cases "dir_names fs v f")
  case None
  have "linear_ok fs (dirty v)" "dir_names fs (dirty v) = dir_names fs v"
    using assms by (simp_all add: linear_ok_def linear_dir_def places_def dirty_def dir_names_def names_def)
  then show ?thesis using linear_ok_del(2) [OF assms None] linear_ok_search assms None
    by (intro exI [of _ "dirty v"]) (simp, simp add: dirty_def)
next
  case (Some r)
  then obtain v' where "gfs2_dirent_del fs v f = Some (0, fs, v')" "linear_ok fs v'" "dir_names fs v' = (dir_names fs v)(f := None)"
    using linear_ok_del(1) [OF assms] by blast
  then show ?thesis using linear_ok_search assms Some by (intro exI [of _ v']) simp
qed

theorem dir_del_search_witness:
  "\<exists>v'. gfs2_dirent_del fs_example new_dir_example dotdot = Some (0, fs_example, v') \<and> linear_ok fs_example v' \<and>
    dir_search fs_example v' dotdot = Some (Inl (- ENOENT), fs_example, v')"
  using dir_del_search [OF new_dir_example_ok(1), of dotdot] linear_ok_search [OF new_dir_example_ok(1), of dotdot] new_dir_example_ok(3)
  by auto

end
