(* ===== verification/DirSplit.thy ===== *)
theory DirSplit
  imports DirLinear
begin

text \<open>
  The split of a leaf: no entry is lost or duplicated, each one is in the leaf that its hash leads to, and
  the new leaf always has room, and both leaves are well formed.
\<close>

section \<open>Leaves that are filled in order\<close>

text \<open>The bytes that an entry needs.\<close>

definition need :: "bytes \<Rightarrow> nat \<Rightarrow> nat" where
  "need buf d = GFS2_DIRENT_SIZE (unat (de_name_len buf d))"

text \<open>All entries are live and only the last one has more bytes than it needs.\<close>

definition packed :: "nat \<Rightarrow> bytes \<Rightarrow> nat list \<Rightarrow> bool" where
  "packed n buf ds \<longleftrightarrow> length buf = n \<and> n \<le> 65536 \<and> tiles buf 104 ds n \<and> ds \<noteq> [] \<and> (\<forall>d \<in> set ds. live buf d) \<and>
     (\<forall>d \<in> set (butlast ds). unat (de_rec_len buf d) = need buf d)"

lemma tiles_sum: "tiles buf off ds e \<Longrightarrow> off + (\<Sum>d\<leftarrow>ds. unat (de_rec_len buf d)) = e"
  by (induction ds arbitrary: off) (fastforce simp: add.assoc [symmetric])+

lemma tiles_need:
  "tiles buf off ds e \<Longrightarrow> off + (\<Sum>d\<leftarrow>filter (\<lambda>d. live buf d \<and> P d) ds. need buf d) \<le> e"
proof (induction ds arbitrary: off)
  case (Cons d ds)
  then have "d = off" "dent_ok buf d" "d + unat (de_rec_len buf d) + (\<Sum>d\<leftarrow>filter (\<lambda>d. live buf d \<and> P d) ds. need buf d) \<le> e"
    by auto
  then show ?case by (auto simp: dent_ok_def need_def live_def)
qed simp

lemma packed_last:
  assumes "packed n buf ds"
  shows "unat (de_rec_len buf (last ds)) + 104 + (\<Sum>d\<leftarrow>butlast ds. need buf d) = n" "live buf (last ds)"
proof -
  have p: "tiles buf 104 (butlast ds @ [last ds]) n" "ds \<noteq> []" using assms by (simp_all add: packed_def)
  have "(\<Sum>d\<leftarrow>butlast ds. unat (de_rec_len buf d)) = (\<Sum>d\<leftarrow>butlast ds. need buf d)"
    using assms by (intro arg_cong [of _ _ sum_list] map_cong) (simp_all add: packed_def)
  then show "unat (de_rec_len buf (last ds)) + 104 + (\<Sum>d\<leftarrow>butlast ds. need buf d) = n" using tiles_sum [OF p(1)] by simp
  show "live buf (last ds)" using assms by (simp add: packed_def)
qed

lemma packed_fits:
  assumes p: "packed n buf ds" and d: "d \<in> set ds" "fits buf len d"
  shows "d = last ds \<and> need buf d + GFS2_DIRENT_SIZE len \<le> unat (de_rec_len buf d)"
proof -
  have l: "live buf d" using p d by (simp add: packed_def)
  then have f: "need buf d + GFS2_DIRENT_SIZE len \<le> unat (de_rec_len buf d)" using d(2) by (simp add: fits_def need_def)
  have "d \<notin> set (butlast ds)"
  proof
    assume "d \<in> set (butlast ds)"
    then have "unat (de_rec_len buf d) = need buf d" using p by (simp add: packed_def)
    then show False using f dirent_size(2) [of len] by simp
  qed
  moreover have "set ds = insert (last ds) (set (butlast ds))"
    using p by (metis append_butlast_last_id list.simps(15) packed_def rotate1.simps(2) set_rotate1)
  ultimately show ?thesis using d(1) f by auto
qed

text \<open>One more entry at the end of such a leaf.\<close>

lemma agree_map:
  "agree off e buf buf' \<Longrightarrow> tiles buf off ds e \<Longrightarrow>
    (\<forall>d \<in> set ds. de_rec_len buf' d = de_rec_len buf d \<and> need buf' d = need buf d \<and> live buf' d = live buf d)"
proof
  fix d assume a: "agree off e buf buf'" "tiles buf off ds e" "d \<in> set ds"
  have r: "off \<le> d" "d + unat (de_rec_len buf d) \<le> e" "dent_ok buf d" using tiles_range [OF a(2,3)] by simp_all
  have "agree d e buf buf'" "d + 40 \<le> e" using agree_mono [OF a(1) r(1)] r by (simp_all add: dent_ok_def)
  note f = agree_fields [OF this]
  show "de_rec_len buf' d = de_rec_len buf d \<and> need buf' d = need buf d \<and> live buf' d = live buf d" using f by (simp add: need_def)
qed

lemma packed_add:
  assumes p: "packed n buf ds" and room: "104 + (\<Sum>d\<leftarrow>ds. need buf d) + GFS2_DIRENT_SIZE (length name) \<le> n"
    and i: "in_formal_ino inum \<noteq> 0" and len: "length name < 65536"
  shows "\<exists>new buf'. dirent_alloc_loop n (length name) buf 104 = Some (new, buf') \<and>
    packed n (dirent_fill new inum hash type name buf') (ds @ [new]) \<and>
    entries_at (dirent_fill new inum hash type name buf') (ds @ [new]) = entries_at buf ds @ [(name, hash, inum, type)] \<and>
    (\<Sum>d\<leftarrow>ds @ [new]. need (dirent_fill new inum hash type name buf') d) = (\<Sum>d\<leftarrow>ds. need buf d) + GFS2_DIRENT_SIZE (length name) \<and>
    agree 0 104 buf (dirent_fill new inum hash type name buf')"
proof -
  let ?len = "length name" and ?x = "last ds" and ?zs = "butlast ds"
  have P: "length buf = n" "n \<le> 65536" "tiles buf 104 ds n" "ds \<noteq> []" "\<forall>d \<in> set ds. live buf d" using p by (simp_all add: packed_def)
  have ds: "ds = ?zs @ [?x]" using P(4) by simp
  have split_sum: "(\<Sum>d\<leftarrow>ds. need buf d) = (\<Sum>d\<leftarrow>?zs. need buf d) + need buf ?x" by (subst ds) simp
  have "need buf ?x + GFS2_DIRENT_SIZE ?len \<le> unat (de_rec_len buf ?x)" using packed_last(1) [OF p] room split_sum by linarith
  then have fx: "fits buf ?len ?x" by (simp add: fits_def need_def)
  have lx: "live buf ?x" by (rule packed_last(2) [OF p])
  obtain r xs x ys where a: "dirent_alloc_loop n ?len buf 104 = Some r" "ds = xs @ x # ys" "fits buf ?len x"
    "r = (if live buf x then split_entry buf ?len x else (x, put_de_name_len x (of_nat ?len) buf))"
  proof (cases "dirent_alloc_loop n ?len buf 104")
    case None
    then have False using alloc_loop_spec [OF P(3,4), of ?len] fx P(4) by simp
    then show thesis ..
  next
    case (Some r)
    then have "\<exists>xs x ys. ds = xs @ x # ys \<and> fits buf ?len x \<and> (\<forall>y \<in> set xs. \<not> fits buf ?len y) \<and>
         r = (if live buf x then split_entry buf ?len x else (x, put_de_name_len x (of_nat ?len) buf))"
      using alloc_loop_spec [OF P(3,4), of ?len] by simp
    then show thesis using that Some by blast
  qed
  have x: "x = ?x" using packed_fits [OF p _ a(3)] a(2) by simp
  obtain new buf' where r: "r = (new, buf')" by fastforce
  then have sp: "split_entry buf ?len ?x = (new, buf')" using a(4) lx unfolding x by simp
  have t: "tiles buf 104 (?zs @ ?x # []) n" using P(3) ds by simp
  note S = split_entry_spec [OF t P(1,2) lx fx len sp]
  have S1: "length buf' = n" "tiles buf' 104 ((?zs @ [?x]) @ new # []) n" "free_at buf' ?len new" "agree 0 104 buf buf'"
    "entries_at buf' (?zs @ ?x # new # []) = entries_at buf (?zs @ ?x # [])"
    "unat (de_rec_len buf' ?x) = GFS2_DIRENT_SIZE (unat (de_name_len buf ?x))" "de_name_len buf' ?x = de_name_len buf ?x"
    "new = ?x + GFS2_DIRENT_SIZE (unat (de_name_len buf ?x))" "agree 0 ?x buf buf'" "live buf' ?x"
    using S by auto
  define b where "b = dirent_fill new inum hash type name buf'"
  note F = fill_spec [OF S1(2,1,3) i, of hash type, folded b_def]
  have F1: "length b = n" "tiles b 104 ((?zs @ [?x]) @ new # []) n" "agree 0 104 buf' b" "live b new" "agree 0 new buf' b"
    "de_name_len b new = de_name_len buf' new"
    "entries_at b ((?zs @ [?x]) @ new # []) = entries_at buf' (?zs @ [?x]) @ (name, hash, inum, type) # entries_at buf' []"
    using F by blast+
  have nl: "\<not> live buf' new" "unat (de_name_len buf' new) = ?len" using S1(3) by (simp_all add: free_at_def)
  have zs: "tiles buf 104 ?zs ?x" using t by (auto simp: tiles_append)
  have "agree 104 ?x buf b" using agree_trans [OF agree_mono [OF S1(9), of 104 ?x] agree_mono [OF F1(5), of 104 ?x]] S1(8) by simp
  note Z = agree_map [OF this zs]
  have tx: "tiles buf' 104 (?zs @ [?x]) new" using S1(2) by (auto simp: tiles_append)
  note X = agree_map [OF agree_mono [OF F1(5), of 104 new] tx]
  have xx: "unat (de_rec_len b ?x) = need b ?x" "need b ?x = need buf ?x" "live b ?x"
    using X S1(6,7,10) by (simp_all add: need_def)
  have nn: "need b new = GFS2_DIRENT_SIZE ?len" using F1(6) nl(2) by (simp add: need_def)
  have tl: "tiles b 104 (ds @ [new]) n" using F1(2) ds by simp
  have all_live: "\<forall>d \<in> set (ds @ [new]). live b d"
  proof -
    have "live b d" if "d \<in> set ?zs" for d using that Z P(5) by (simp add: in_set_butlastD)
    then show ?thesis using xx(3) F1(4) by (subst ds) auto
  qed
  have tight: "\<forall>d \<in> set (butlast (ds @ [new])). unat (de_rec_len b d) = need b d"
  proof -
    have "unat (de_rec_len b d) = need b d" if "d \<in> set ?zs" for d using that Z p by (simp add: packed_def)
    moreover have "set ds = insert ?x (set ?zs)" by (subst ds) simp
    ultimately show ?thesis using xx(1) by auto
  qed
  have "packed n b (ds @ [new])" using F1(1) P(2) tl all_live tight by (simp add: packed_def)
  moreover have "entries_at b (ds @ [new]) = entries_at buf ds @ [(name, hash, inum, type)]"
  proof -
    have "entries_at b (ds @ [new]) = entries_at b ((?zs @ [?x]) @ new # [])" using ds by simp
    also have "\<dots> = entries_at buf' (?zs @ ?x # new # []) @ [(name, hash, inum, type)]" unfolding F1(7) using nl(1) by simp
    also have "entries_at buf' (?zs @ ?x # new # []) = entries_at buf ds" unfolding S1(5) using ds by simp
    finally show ?thesis .
  qed
  moreover have "(\<Sum>d\<leftarrow>ds @ [new]. need b d) = (\<Sum>d\<leftarrow>ds. need buf d) + GFS2_DIRENT_SIZE ?len"
  proof -
    have "(\<Sum>d\<leftarrow>?zs. need b d) = (\<Sum>d\<leftarrow>?zs. need buf d)" using Z by (intro arg_cong [of _ _ sum_list] map_cong) simp_all
    moreover have "(\<Sum>d\<leftarrow>ds. need b d) = (\<Sum>d\<leftarrow>?zs. need b d) + need b ?x" by (subst ds) simp
    ultimately show ?thesis using xx(2) nn split_sum by simp
  qed
  moreover have "agree 0 104 buf b" by (rule agree_trans [OF S1(4) F1(3)])
  moreover have "dirent_alloc_loop n ?len buf 104 = Some (new, buf')" using a(1) r by simp
  ultimately show ?thesis unfolding b_def by blast
qed


text \<open>A new leaf, with the entries \<open>es\<close> at \<open>ns\<close>; before the first one there is no chain.\<close>

definition new_leaf_has :: "nat \<Rightarrow> bytes \<Rightarrow> nat list \<Rightarrow> dir_entry list \<Rightarrow> bool" where
  "new_leaf_has n buf ns es \<longleftrightarrow> length buf = n \<and> get_be32 buf 0 = GFS2_MAGIC \<and> get_be32 buf 4 = 6 \<and> unat (leaf_entries buf) = length es \<and>
     (if ns = [] then es = [] \<and> \<not> live buf 104 else packed n buf ns \<and> entries_at buf ns = es)"

lemma packed_length: "packed n buf ds \<Longrightarrow> 40 * length ds \<le> n"
proof -
  assume p: "packed n buf ds"
  then have "\<forall>d \<in> set ds. 40 \<le> unat (de_rec_len buf d)" using tiles_range by (fastforce simp: packed_def dent_ok_def)
  then have "40 * length ds \<le> (\<Sum>d\<leftarrow>ds. unat (de_rec_len buf d))" by (induction ds) auto
  then show ?thesis using tiles_sum [of buf 104 ds n] p by (simp add: packed_def)
qed

lemma entries_live: "\<forall>d \<in> set ds. live buf d \<Longrightarrow> length (entries_at buf ds) = length ds"
  by (simp add: entries_at_def)

text \<open>A leaf's header is apart from its chain.\<close>

lemma put_entries_spec:
  assumes p: "packed n buf ds"
  shows "packed n (put_leaf_entries e buf) ds \<and> entries_at (put_leaf_entries e buf) ds = entries_at buf ds
    \<and> (\<forall>d \<in> set ds. need (put_leaf_entries e buf) d = need buf d)"
proof -
  have P: "length buf = n" "tiles buf 104 ds n" "104 \<le> n" using p tiles_le [of buf 104 ds n] by (simp_all add: packed_def)
  have a: "agree 104 n buf (put_leaf_entries e buf)"
    unfolding de_simps put_be16_def using P by (intro agree_memcpy) auto
  have "\<forall>d \<in> set (butlast ds). d \<in> set ds" by (meson in_set_butlastD)
  then show ?thesis using agree_tiles [OF a P(2)] agree_map [OF a P(2)] p by (auto simp: packed_def)
qed

lemma new_leaf_add:
  assumes n: "n = unat (sd_bsize sdp)" "512 \<le> n" "n \<le> 65536" "8 dvd n"
    and l: "new_leaf_has n (b_data nbh) ns es"
    and room: "104 + (\<Sum>d\<leftarrow>ns. need (b_data nbh) d) + GFS2_DIRENT_SIZE (length name) \<le> n"
    and i: "in_formal_ino inum \<noteq> 0" and len: "length name < 65536"
  shows "\<exists>new nbh'. dirent_alloc sdp dip nbh (length name)
        = Some (new, nbh', dip\<lparr>vi := (vi dip)\<lparr>i_entries := i_entries (vi dip) + 1\<rparr>, vbh := bmodified (vbh dip)\<rparr>) \<and>
      b_blocknr nbh' = b_blocknr nbh \<and>
      (let buf' = b_data (set_buf (\<lambda>b. put_leaf_entries (leaf_entries b + 1) b) (set_buf (dirent_fill new inum hash type name) nbh')) in
       new_leaf_has n buf' (ns @ [new]) (es @ [(name, hash, inum, type)]) \<and>
       (\<Sum>d\<leftarrow>ns @ [new]. need buf' d) = (\<Sum>d\<leftarrow>ns. need (b_data nbh) d) + GFS2_DIRENT_SIZE (length name))"
proof -
  let ?buf = "b_data nbh" and ?len = "length name"
  have L: "length ?buf = n" "get_be32 ?buf 0 = GFS2_MAGIC" "get_be32 ?buf 4 = 6" "unat (leaf_entries ?buf) = length es"
    using l by (simp_all add: new_leaf_has_def)
  have first: "gfs2_dirent_first ?buf = (IS_LEAF, 104)" using L(3) by (simp add: dirent_first)
  have "\<exists>new buf1. (if leaf_entries ?buf = 0
        then Some (104, put_de_name_len 104 (of_nat ?len) (put_de_rec_len 104 (of_nat (n - 104)) ?buf))
        else dirent_alloc_loop n ?len ?buf 104) = Some (new, buf1) \<and>
      packed n (dirent_fill new inum hash type name buf1) (ns @ [new]) \<and>
      entries_at (dirent_fill new inum hash type name buf1) (ns @ [new]) = es @ [(name, hash, inum, type)] \<and>
      (\<Sum>d\<leftarrow>ns @ [new]. need (dirent_fill new inum hash type name buf1) d) = (\<Sum>d\<leftarrow>ns. need ?buf d) + GFS2_DIRENT_SIZE ?len \<and>
      agree 0 104 ?buf (dirent_fill new inum hash type name buf1)"
  proof (cases "ns = []")
    case True
    then have e: "es = []" "\<not> live ?buf 104" using l by (simp_all add: new_leaf_has_def)
    define b1 where "b1 = put_de_name_len 104 (of_nat ?len) (put_de_rec_len 104 (of_nat (n - 104)) ?buf)"
    have "GFS2_DIRENT_SIZE ?len \<le> n - 104" using room True by simp
    from first_entry_spec [OF L(1) n(3,4,2) _ _ _ e(2) len this]
    have F: "length b1 = n" "tiles b1 104 ([] @ 104 # []) n" "free_at b1 ?len 104" "agree 0 104 ?buf b1"
      unfolding b1_def append_Nil by (simp_all del: of_nat_diff tiles.simps)
    define b2 where "b2 = dirent_fill 104 inum hash type name b1"
    note G = fill_spec [OF F(2,1,3) i, of hash type, folded b2_def]
    have "need b2 104 = GFS2_DIRENT_SIZE ?len" using G F(3) by (simp add: need_def free_at_def)
    moreover have "length b2 = n" "tiles b2 104 [104] n" "live b2 104" using G unfolding append_Nil by blast+
    then have "packed n b2 [104]" using n by (simp add: packed_def del: tiles.simps)
    moreover have "entries_at b2 [104] = [(name, hash, inum, type)]" using G by (simp only: append_Nil entries_at_simps(1))
    moreover have "agree 0 104 ?buf b2" using agree_trans [OF F(4)] G by blast
    moreover have "leaf_entries ?buf = 0" using L(4) e by (simp add: unat_eq_zero)
    ultimately show ?thesis using True e unfolding b2_def b1_def by (intro exI [of _ 104] exI [of _ b1]) (simp add: b1_def)
  next
    case False
    then have p: "packed n ?buf ns" "entries_at ?buf ns = es" using l by (simp_all add: new_leaf_has_def)
    then have "es \<noteq> []" using False entries_live [of ns ?buf] by (auto simp: packed_def)
    then have "leaf_entries ?buf \<noteq> 0" using L(4) by (auto simp: unat_eq_zero)
    then show ?thesis using packed_add [OF p(1) room i len, of hash type] p(2) by simp
  qed
  then obtain new buf1 where A: "(if leaf_entries ?buf = 0
        then Some (104, put_de_name_len 104 (of_nat ?len) (put_de_rec_len 104 (of_nat (n - 104)) ?buf))
        else dirent_alloc_loop n ?len ?buf 104) = Some (new, buf1)"
    "packed n (dirent_fill new inum hash type name buf1) (ns @ [new])"
    "entries_at (dirent_fill new inum hash type name buf1) (ns @ [new]) = es @ [(name, hash, inum, type)]"
    "(\<Sum>d\<leftarrow>ns @ [new]. need (dirent_fill new inum hash type name buf1) d) = (\<Sum>d\<leftarrow>ns. need ?buf d) + GFS2_DIRENT_SIZE ?len"
    "agree 0 104 ?buf (dirent_fill new inum hash type name buf1)"
    by blast
  define nbh' where "nbh' = bmodified (nbh\<lparr>b_data := buf1\<rparr>)"
  have al: "dirent_alloc sdp dip nbh ?len
      = Some (new, nbh', dip\<lparr>vi := (vi dip)\<lparr>i_entries := i_entries (vi dip) + 1\<rparr>, vbh := bmodified (vbh dip)\<rparr>)"
    using A(1) first n(1) by (simp add: dirent_alloc_def nbh'_def size_simps unat_eq_zero Let_def split: if_splits)
  define b2 where "b2 = dirent_fill new inum hash type name buf1"
  define b3 where "b3 = put_leaf_entries (leaf_entries b2 + 1) b2"
  note H = agree_header [OF A(5) order.refl, folded b2_def]
  have g: "get_be32 b2 0 = GFS2_MAGIC" "get_be32 b2 4 = 6" "leaf_entries b2 = leaf_entries ?buf"
    using H(2) L(2,3) agree_slice [OF A(5)] unfolding b2_def by (simp_all add: get_be32_def)
  have l2: "length b2 = n" using A(2) by (simp add: b2_def packed_def)
  have "length (es @ [(name, hash, inum, type)]) = length (ns @ [new])"
    using A(2,3) entries_live [of "ns @ [new]" b2] by (simp add: b2_def packed_def)
  then have "40 * (length es + 1) \<le> 65536" using packed_length [OF A(2)] n(3) by simp
  then have cnt: "unat (leaf_entries b2 + 1) = length es + 1" using g(3) L(4) by (subst unat_add_no_wrap) simp_all
  have "get_be32 b3 0 = GFS2_MAGIC" "get_be32 b3 4 = 6" "unat (leaf_entries b3) = length es + 1"
    using g cnt l2 n(2) unfolding b3_def de_simps by (simp_all add: field_simps)
  moreover have p3: "packed n b3 (ns @ [new])" "entries_at b3 (ns @ [new]) = entries_at b2 (ns @ [new])"
    "\<forall>d \<in> set (ns @ [new]). need b3 d = need b2 d" "length b3 = n"
    using put_entries_spec [OF A(2), folded b2_def] l2 unfolding b3_def by (blast, blast, blast, simp)
  ultimately have "new_leaf_has n b3 (ns @ [new]) (es @ [(name, hash, inum, type)])"
    using A(3) by (simp add: new_leaf_has_def b2_def del: entries_at_simps)
  moreover have "(\<Sum>d\<leftarrow>ns @ [new]. need b3 d) = (\<Sum>d\<leftarrow>ns. need ?buf d) + GFS2_DIRENT_SIZE ?len"
    unfolding A(4) [symmetric] using p3(3) by (intro arg_cong [of _ _ sum_list] map_cong) (auto simp: b2_def)
  moreover have "b_data (set_buf (\<lambda>b. put_leaf_entries (leaf_entries b + 1) b) (set_buf (dirent_fill new inum hash type name) nbh')) = b3"
    by (simp add: set_buf_def nbh'_def b2_def b3_def)
  ultimately show ?thesis using al by (intro exI [of _ new] exI [of _ nbh']) (simp add: nbh'_def Let_def)
qed

text \<open>An entry leaves the old leaf.\<close>

lemma leaf_del:
  assumes n: "length (b_data bh) = n" "n \<le> 65536" and t: "tiles (b_data bh) 104 (pre @ y # post) n" and y: "live (b_data bh) y"
    and m: "get_be32 (b_data bh) 0 = GFS2_MAGIC" "get_be32 (b_data bh) 4 = 6" and e: "i_entries (vi dip) \<noteq> 0"
  defines "pre' \<equiv> if pre = [] then [y] else pre"
  shows "\<exists>buf'. dirent2_del dip bh (if pre = [] then None else Some (last pre)) y
        = (bmodified (bh\<lparr>b_data := buf'\<rparr>),
           dip\<lparr>vi := (vi dip)\<lparr>i_entries := i_entries (vi dip) - 1\<rparr>, vbh := bmodified (vbh dip)\<rparr>) \<and>
      length buf' = n \<and> tiles buf' 104 (pre' @ post) n \<and> entries_at buf' pre' = entries_at (b_data bh) pre \<and>
      agree (y + unat (de_rec_len (b_data bh) y)) n (b_data bh) buf' \<and>
      leaf_entries buf' = leaf_entries (b_data bh) - 1 \<and> get_be32 buf' 0 = GFS2_MAGIC \<and> get_be32 buf' 4 = 6 \<and>
      leaf_depth buf' = leaf_depth (b_data bh)"
proof -
  define b1 where "b1 = put_leaf_entries (leaf_entries (b_data bh) - 1) (b_data bh)"
  have le: "104 \<le> n" using tiles_le [OF t] by simp
  have a1: "agree 104 n (b_data bh) b1" unfolding b1_def de_simps put_be16_def using n le by (intro agree_memcpy) auto
  have t1: "tiles b1 104 (pre @ y # post) n" "entries_at b1 (pre @ y # post) = entries_at (b_data bh) (pre @ y # post)"
    using agree_tiles [OF a1 t] by simp_all
  have pre: "tiles (b_data bh) 104 pre y" using t by (auto simp: tiles_append)
  have yn: "104 \<le> y" "y + unat (de_rec_len (b_data bh) y) \<le> n" using tiles_le [OF pre] tiles_range [OF t, of y] by simp_all
  have y1: "live b1 y" "de_rec_len b1 y = de_rec_len (b_data bh) y" "entries_at b1 pre = entries_at (b_data bh) pre"
    using agree_map [OF a1 t] y agree_tiles [OF agree_mono [OF a1 order.refl] pre] yn by simp_all
  have l1: "length b1 = n" using n by (simp add: b1_def)
  define buf' where "buf' = (case if pre = [] then None else Some (last pre) of
      None \<Rightarrow> lgfs2_inum_out \<lparr>in_formal_ino = 0, in_addr = 0\<rparr> b1 (y + offsetof struct_gfs2_dirent ''de_inum'')
    | Some p \<Rightarrow> put_de_rec_len p (de_rec_len b1 p + de_rec_len b1 y) b1)"
  have del: "dirent2_del dip bh (if pre = [] then None else Some (last pre)) y
      = (bmodified (bh\<lparr>b_data := buf'\<rparr>), dip\<lparr>vi := (vi dip)\<lparr>i_entries := i_entries (vi dip) - 1\<rparr>, vbh := bmodified (vbh dip)\<rparr>)"
    using m e by (simp add: dirent2_del_def gfs2_check_meta_def size_simps buf'_def b1_def Let_def)
  have R: "length buf' = n \<and> tiles buf' 104 (pre' @ post) n \<and> agree 0 104 b1 buf' \<and> entries_at buf' (pre' @ post) = entries_at b1 (pre @ post)
      \<and> agree (y + unat (de_rec_len b1 y)) n b1 buf'"
  proof (cases pre rule: rev_cases)
    case Nil
    then have b: "buf' = lgfs2_inum_out \<lparr>in_formal_ino = 0, in_addr = 0\<rparr> b1 y" "pre' = [y]"
      by (simp_all add: buf'_def pre'_def size_simps)
    have t2: "tiles b1 104 (y # post) n" using t1(1) Nil by (simp only: append_Nil)
    show ?thesis using del_first_spec [OF t2 l1 y1(1)] unfolding b(1) [symmetric] by (simp only: b(2) Nil append_Nil append_Cons)
  next
    case (snoc zs p)
    then have b: "buf' = put_de_rec_len p (de_rec_len b1 p + de_rec_len b1 y) b1" "pre' = zs @ [p]" by (simp_all add: buf'_def pre'_def)
    have t2: "tiles b1 104 (zs @ p # y # post) n" using t1(1) snoc by (simp only: append_assoc append_Cons append_Nil)
    have n2: "n < 104 + 65536" using n(2) by simp
    show ?thesis using del_next_spec [OF t2 l1 n2] unfolding b(1) [symmetric]
      by (simp only: b(2) snoc append_assoc append_Nil append_Cons)
  qed
  have a2: "agree (y + unat (de_rec_len b1 y)) n (b_data bh) buf'"
    using agree_trans [OF agree_mono [OF a1, of "y + unat (de_rec_len b1 y)" n]] R yn(1) by simp
  have tp: "tiles b1 (y + unat (de_rec_len b1 y)) post n" using t1(1) by (auto simp: tiles_append)
  have "entries_at buf' post = entries_at b1 post" using agree_tiles [of "y + unat (de_rec_len b1 y)" n b1 buf' post] R tp by blast
  then have ep: "entries_at buf' pre' = entries_at (b_data bh) pre" using R y1(3) by simp
  have h: "leaf_entries buf' = leaf_entries b1" "get_be32 buf' 0 = get_be32 b1 0" "get_be32 buf' 4 = get_be32 b1 4"
    using R agree_header(2) [of 104 b1 buf'] agree_slice [of 0 104 b1 buf'] by (simp_all add: get_be32_def)
  have "leaf_entries b1 = leaf_entries (b_data bh) - 1" "get_be32 b1 0 = GFS2_MAGIC" "get_be32 b1 4 = 6"
    using m n le by (simp_all add: b1_def de_simps field_simps)
  moreover have "leaf_depth buf' = leaf_depth (b_data bh)"
  proof -
    have "leaf_depth buf' = leaf_depth b1"
      using R agree_slice [of 0 104 b1 buf'] by (simp add: leaf_depth_def get_be16_def size_simps)
    also have "\<dots> = leaf_depth (b_data bh)"
      using n le by (simp add: b1_def leaf_depth_def de_simps size_simps field_simps)
    finally show ?thesis .
  qed
  ultimately show ?thesis using del R a2 ep h y1(2) by (intro exI [of _ buf']) simp
qed

section \<open>The loop\<close>

abbreviation (input) lower :: "u32 \<Rightarrow> dir_entry \<Rightarrow> bool" where
  "lower divider e \<equiv> fst (snd e) < divider"

text \<open>One pass: the entry at \<open>d\<close> stays or moves.\<close>

lemma split_leaf_step:
  fixes obh nbh :: gfs2_buffer_head and divider :: u32
  assumes n: "n = unat (sd_bsize sdp)" "512 \<le> n" "n \<le> 65536" "8 dvd n"
    and o: "length (b_data obh) = n" "tiles (b_data obh) 104 (pre @ d # post) n"
      "get_be32 (b_data obh) 0 = GFS2_MAGIC" "get_be32 (b_data obh) 4 = 6"
    and l: "new_leaf_has n (b_data nbh) ns es"
    and room: "live (b_data obh) d \<Longrightarrow> de_hash (b_data obh) d < divider \<Longrightarrow>
      104 + (\<Sum>x\<leftarrow>ns. need (b_data nbh) x) + need (b_data obh) d \<le> n"
    and e: "unat (i_entries (vi dip)) < 2 ^ 32 - 1"
  defines "down \<equiv> filter (lower divider) (entries_at (b_data obh) [d])"
  shows "\<exists>dip1 obh1 nbh1 pre1 ns1. pre1 \<noteq> [] \<and>
    split_leaf_loop sdp divider dip obh nbh (if pre = [] then None else Some (last pre)) moved d =
      (case post of [] \<Rightarrow> Some (dip1, obh1, nbh1, moved \<or> down \<noteq> [])
       | d2 # _ \<Rightarrow> split_leaf_loop sdp divider dip1 obh1 nbh1 (Some (last pre1)) (moved \<or> down \<noteq> []) d2) \<and>
    length (b_data obh1) = n \<and> tiles (b_data obh1) 104 (pre1 @ post) n \<and>
    get_be32 (b_data obh1) 0 = GFS2_MAGIC \<and> get_be32 (b_data obh1) 4 = 6 \<and>
    b_blocknr obh1 = b_blocknr obh \<and> b_blocknr nbh1 = b_blocknr nbh \<and> vi dip1 = vi dip \<and>
    entries_at (b_data obh1) pre1 = entries_at (b_data obh) pre @ filter (\<lambda>e. \<not> lower divider e) (entries_at (b_data obh) [d]) \<and>
    agree (d + unat (de_rec_len (b_data obh) d)) n (b_data obh) (b_data obh1) \<and>
    new_leaf_has n (b_data nbh1) ns1 (es @ down) \<and>
    (\<Sum>x\<leftarrow>ns1. need (b_data nbh1) x) = (\<Sum>x\<leftarrow>ns. need (b_data nbh) x) + (if down = [] then 0 else need (b_data obh) d) \<and>
    leaf_entries (b_data obh1) = leaf_entries (b_data obh) - of_nat (length down) \<and>
    leaf_depth (b_data obh1) = leaf_depth (b_data obh)"
proof -
  let ?buf = "b_data obh" and ?prev = "if pre = [] then None else Some (last pre)"
  define moves where "moves \<longleftrightarrow> live ?buf d \<and> de_hash ?buf d < divider"
  have down: "down = (if moves then [entry_at ?buf d] else [])" by (simp add: down_def moves_def entry_at_def)
  have stay: "filter (\<lambda>e. \<not> lower divider e) (entries_at ?buf [d]) = (if moves then [] else entries_at ?buf [d])"
    by (simp add: moves_def entry_at_def)
  have t: "tiles ?buf d (d # post) n" using o(2) by (auto simp: tiles_append)
  have nxt: "gfs2_dirent_next (unat (sd_bsize sdp)) ?buf d = (if post = [] then None else Some (hd post))"
    unfolding n(1) [symmetric] by (rule tiles_next [OF t])
  have r: "dent_ok ?buf d" "d + unat (de_rec_len ?buf d) \<le> n" using tiles_range [OF t, of d] by simp_all
  show ?thesis
  proof (cases moves)
    case False
    have "split_leaf_loop sdp divider dip obh nbh ?prev moved d = (case post of [] \<Rightarrow> Some (dip, obh, nbh, moved)
        | d2 # _ \<Rightarrow> split_leaf_loop sdp divider dip obh nbh (Some d) moved d2)"
      by (subst split_leaf_loop.simps) (use False nxt in \<open>auto simp: moves_def live_def Let_def split: list.split\<close>)
    moreover have "agree (d + unat (de_rec_len ?buf d)) n ?buf ?buf" using o(1) by (simp add: agree_def)
    ultimately show ?thesis using False o l down stay
      by - (rule exI [of _ dip], rule exI [of _ obh], rule exI [of _ nbh], rule exI [of _ "pre @ [d]"], rule exI [of _ ns], simp split: list.split)
  next
    case True
    let ?name = "de_name ?buf d" and ?inum = "\<lparr>in_formal_ino = de_ino ?buf d, in_addr = de_addr ?buf d\<rparr>"
    have lv: "live ?buf d" using True by (simp add: moves_def)
    have "d + 40 + unat (de_name_len ?buf d) \<le> length ?buf"
      using r lv o(1) dirent_size(2) [of "unat (de_name_len ?buf d)"] by (simp add: dent_ok_def live_def)
    then have nl: "length ?name = unat (de_name_len ?buf d)" by (simp add: de_name_def size_simps)
    have nd: "need ?buf d = GFS2_DIRENT_SIZE (length ?name)" using nl by (simp add: need_def)
    have rm: "104 + (\<Sum>x\<leftarrow>ns. need (b_data nbh) x) + GFS2_DIRENT_SIZE (length ?name) \<le> n"
      using room True nd by (simp add: moves_def)
    have i: "in_formal_ino ?inum \<noteq> 0" using lv by (simp add: live_def)
    have len: "length ?name < 65536" using nl u16_lt [of "de_name_len ?buf d"] by simp
    define dip1 where "dip1 = dip\<lparr>vi := (vi dip)\<lparr>i_entries := i_entries (vi dip) + 1\<rparr>, vbh := bmodified (vbh dip)\<rparr>"
    obtain new nbh' where A: "dirent_alloc sdp dip nbh (unat (de_name_len ?buf d)) = Some (new, nbh', dip1)" "b_blocknr nbh' = b_blocknr nbh"
      and B: "let buf' = b_data (set_buf (\<lambda>b. put_leaf_entries (leaf_entries b + 1) b)
             (set_buf (dirent_fill new ?inum (de_hash ?buf d) (de_type ?buf d) ?name) nbh')) in
           new_leaf_has n buf' (ns @ [new]) (es @ [(?name, de_hash ?buf d, ?inum, de_type ?buf d)]) \<and>
           (\<Sum>d\<leftarrow>ns @ [new]. need buf' d) = (\<Sum>d\<leftarrow>ns. need (b_data nbh) d) + GFS2_DIRENT_SIZE (length ?name)"
      using new_leaf_add [OF n l rm i len, of dip "de_hash ?buf d" "de_type ?buf d"] unfolding nl dip1_def by blast
    define nbh1 where "nbh1 = set_buf (\<lambda>b. put_leaf_entries (leaf_entries b + 1) b)
      (set_buf (dirent_fill new ?inum (de_hash ?buf d) (de_type ?buf d) ?name) nbh')"
    have B1: "new_leaf_has n (b_data nbh1) (ns @ [new]) (es @ down)"
      "(\<Sum>x\<leftarrow>ns @ [new]. need (b_data nbh1) x) = (\<Sum>x\<leftarrow>ns. need (b_data nbh) x) + need ?buf d"
      using B True nd down unfolding Let_def nbh1_def [symmetric] by (simp_all add: entry_at_def)
    define pre1 where "pre1 = (if pre = [] then [d] else pre)"
    have "unat (i_entries (vi dip) + 1) = unat (i_entries (vi dip)) + 1" using e by (subst unat_add_no_wrap) simp_all
    then have e1: "i_entries (vi dip1) \<noteq> 0" by (auto simp: dip1_def)
    obtain buf' where D: "dirent2_del dip1 obh ?prev d = (bmodified (obh\<lparr>b_data := buf'\<rparr>),
           dip1\<lparr>vi := (vi dip1)\<lparr>i_entries := i_entries (vi dip1) - 1\<rparr>, vbh := bmodified (vbh dip1)\<rparr>)"
      "length buf' = n" "tiles buf' 104 (pre1 @ post) n" "entries_at buf' pre1 = entries_at ?buf pre"
      "agree (d + unat (de_rec_len ?buf d)) n ?buf buf'"
      "leaf_entries buf' = leaf_entries ?buf - 1" "get_be32 buf' 0 = GFS2_MAGIC" "get_be32 buf' 4 = 6"
      "leaf_depth buf' = leaf_depth ?buf"
      using leaf_del [OF o(1) n(3) o(2) lv o(3,4) e1, folded pre1_def] by blast
    define dip2 where "dip2 = dip1\<lparr>vi := (vi dip1)\<lparr>i_entries := i_entries (vi dip1) - 1\<rparr>, vbh := bmodified (vbh dip1)\<rparr>"
    define obh1 where "obh1 = bmodified (obh\<lparr>b_data := buf'\<rparr>)"
    have last: "(if ?prev = None then Some d else ?prev) = Some (last pre1)" by (simp add: pre1_def)
    have cond: "de_ino ?buf d \<noteq> 0 \<and> de_hash ?buf d < divider" using True by (simp add: moves_def live_def)
    have "split_leaf_loop sdp divider dip obh nbh ?prev moved d = (case post of [] \<Rightarrow> Some (dip2, obh1, nbh1, True)
        | d2 # _ \<Rightarrow> split_leaf_loop sdp divider dip2 obh1 nbh1 (Some (last pre1)) True d2)"
      by (subst split_leaf_loop.simps)
        (simp add: cond A(1) D(1) [folded dip2_def obh1_def] nxt last [simplified] nbh1_def [symmetric] Let_def split: list.split)
    moreover have "vi dip2 = vi dip" by (simp add: dip2_def dip1_def)
    moreover have "b_blocknr nbh1 = b_blocknr nbh" using A(2) by (simp add: nbh1_def set_buf_def)
    moreover have "pre1 \<noteq> []" by (simp add: pre1_def)
    ultimately show ?thesis using B1 D(2-9) down stay True
      by - (rule exI [of _ dip2], rule exI [of _ obh1], rule exI [of _ nbh1], rule exI [of _ pre1], rule exI [of _ "ns @ [new]"],
        simp add: obh1_def split: list.split)
  qed
qed

lemma agree_hashes:
  assumes "agree off e buf buf'" "tiles buf off ds e" "d \<in> set ds"
  shows "de_hash buf' d = de_hash buf d" "live buf' d = live buf d" "need buf' d = need buf d"
proof -
  have r: "off \<le> d" "d + unat (de_rec_len buf d) \<le> e" "dent_ok buf d" using tiles_range [OF assms(2,3)] by simp_all
  have "agree d e buf buf'" "d + 40 \<le> e" using agree_mono [OF assms(1) r(1)] r by (simp_all add: dent_ok_def)
  note f = agree_fields [OF this]
  show "de_hash buf' d = de_hash buf d" "live buf' d = live buf d" "need buf' d = need buf d" using f by (simp_all add: need_def)
qed

lemma split_leaf_loop_spec:
  assumes n: "n = unat (sd_bsize sdp)" "512 \<le> n" "n \<le> 65536" "8 dvd n"
  shows "length (b_data obh) = n \<Longrightarrow> tiles (b_data obh) 104 (pre @ d # post) n \<Longrightarrow>
    get_be32 (b_data obh) 0 = GFS2_MAGIC \<Longrightarrow> get_be32 (b_data obh) 4 = 6 \<Longrightarrow>
    new_leaf_has n (b_data nbh) ns es \<Longrightarrow>
    104 + (\<Sum>x\<leftarrow>ns. need (b_data nbh) x) +
      (\<Sum>x\<leftarrow>filter (\<lambda>x. live (b_data obh) x \<and> de_hash (b_data obh) x < divider) (d # post). need (b_data obh) x) \<le> n \<Longrightarrow>
    unat (i_entries (vi dip)) < 2 ^ 32 - 1 \<Longrightarrow>
    \<exists>dip' obh' nbh' ds' ns'.
      split_leaf_loop sdp divider dip obh nbh (if pre = [] then None else Some (last pre)) moved d
        = Some (dip', obh', nbh', moved \<or> filter (lower divider) (entries_at (b_data obh) (d # post)) \<noteq> []) \<and>
      length (b_data obh') = n \<and> tiles (b_data obh') 104 ds' n \<and> ds' \<noteq> [] \<and> get_be32 (b_data obh') 0 = GFS2_MAGIC \<and> get_be32 (b_data obh') 4 = 6 \<and>
      b_blocknr obh' = b_blocknr obh \<and> b_blocknr nbh' = b_blocknr nbh \<and> vi dip' = vi dip \<and>
      entries_at (b_data obh') ds' = entries_at (b_data obh) pre @ filter (\<lambda>e. \<not> lower divider e) (entries_at (b_data obh) (d # post)) \<and>
      new_leaf_has n (b_data nbh') ns' (es @ filter (lower divider) (entries_at (b_data obh) (d # post))) \<and>
      leaf_entries (b_data obh') = leaf_entries (b_data obh) - of_nat (length (filter (lower divider) (entries_at (b_data obh) (d # post)))) \<and>
      leaf_depth (b_data obh') = leaf_depth (b_data obh)"
proof (induction post arbitrary: pre d dip obh nbh ns es moved)
  case (Nil pre d dip obh nbh ns es moved)
  have "live (b_data obh) d \<Longrightarrow> de_hash (b_data obh) d < divider \<Longrightarrow> 104 + (\<Sum>x\<leftarrow>ns. need (b_data nbh) x) + need (b_data obh) d \<le> n"
    using Nil.prems(6) by simp
  from split_leaf_step [OF n Nil.prems(1-5) this Nil.prems(7), where moved = moved and divider = divider] show ?case
    unfolding list.case append_Nil2 by blast
next
  case (Cons d2 post pre d dip obh nbh ns es moved)
  let ?buf = "b_data obh"
  define down where "down = filter (lower divider) (entries_at ?buf [d])"
  have rm: "104 + (\<Sum>x\<leftarrow>ns. need (b_data nbh) x) + need ?buf d \<le> n" if "live ?buf d" "de_hash ?buf d < divider"
    using Cons.prems(6) that by simp
  from split_leaf_step [OF n Cons.prems(1-5) rm Cons.prems(7), where moved = moved and divider = divider, folded down_def]
  obtain dip1 obh1 nbh1 pre1 ns1 where S: "pre1 \<noteq> []"
    "split_leaf_loop sdp divider dip obh nbh (if pre = [] then None else Some (last pre)) moved d
      = split_leaf_loop sdp divider dip1 obh1 nbh1 (Some (last pre1)) (moved \<or> down \<noteq> []) d2"
    "length (b_data obh1) = n" "tiles (b_data obh1) 104 (pre1 @ d2 # post) n"
    "get_be32 (b_data obh1) 0 = GFS2_MAGIC" "get_be32 (b_data obh1) 4 = 6"
    "b_blocknr obh1 = b_blocknr obh" "b_blocknr nbh1 = b_blocknr nbh" "vi dip1 = vi dip"
    "entries_at (b_data obh1) pre1 = entries_at ?buf pre @ filter (\<lambda>e. \<not> lower divider e) (entries_at ?buf [d])"
    "agree (d + unat (de_rec_len ?buf d)) n ?buf (b_data obh1)" "new_leaf_has n (b_data nbh1) ns1 (es @ down)"
    "(\<Sum>x\<leftarrow>ns1. need (b_data nbh1) x) = (\<Sum>x\<leftarrow>ns. need (b_data nbh) x) + (if down = [] then 0 else need ?buf d)"
    "leaf_entries (b_data obh1) = leaf_entries ?buf - of_nat (length down)"
    "leaf_depth (b_data obh1) = leaf_depth ?buf"
    by (simp only: list.case) blast
  have tp: "tiles ?buf (d + unat (de_rec_len ?buf d)) (d2 # post) n" using Cons.prems(2) by (auto simp: tiles_append)
  note same = agree_hashes [OF S(11) tp]
  have ep: "entries_at (b_data obh1) (d2 # post) = entries_at ?buf (d2 # post)" using agree_tiles [OF S(11) tp] by blast
  have fs: "filter (\<lambda>x. live (b_data obh1) x \<and> de_hash (b_data obh1) x < divider) (d2 # post)
      = filter (\<lambda>x. live ?buf x \<and> de_hash ?buf x < divider) (d2 # post)"
    using same by (intro filter_cong) simp_all
  have sums: "(\<Sum>x\<leftarrow>filter (\<lambda>x. live (b_data obh1) x \<and> de_hash (b_data obh1) x < divider) (d2 # post). need (b_data obh1) x)
      = (\<Sum>x\<leftarrow>filter (\<lambda>x. live ?buf x \<and> de_hash ?buf x < divider) (d2 # post). need ?buf x)"
    unfolding fs by (intro arg_cong [of _ _ sum_list] map_cong refl same(3)) (simp only: set_filter mem_Collect_eq)
  have dn: "down = [] \<longleftrightarrow> \<not> (live ?buf d \<and> de_hash ?buf d < divider)" by (auto simp: down_def entry_at_def)
  have all: "(\<Sum>x\<leftarrow>filter (\<lambda>x. live ?buf x \<and> de_hash ?buf x < divider) (d # d2 # post). need ?buf x)
      = (if down = [] then 0 else need ?buf d) + (\<Sum>x\<leftarrow>filter (\<lambda>x. live ?buf x \<and> de_hash ?buf x < divider) (d2 # post). need ?buf x)"
    using dn by simp
  have room1: "104 + (\<Sum>x\<leftarrow>ns1. need (b_data nbh1) x) +
      (\<Sum>x\<leftarrow>filter (\<lambda>x. live (b_data obh1) x \<and> de_hash (b_data obh1) x < divider) (d2 # post). need (b_data obh1) x) \<le> n"
    using Cons.prems(6) unfolding sums S(13) all by linarith
  have e1: "unat (i_entries (vi dip1)) < 2 ^ 32 - 1" using Cons.prems(7) S(9) by simp
  have pl: "(if pre1 = [] then None else Some (last pre1)) = Some (last pre1)" using S(1) by simp
  have fl: "filter P (entries_at ?buf (d # d2 # post)) = filter P (entries_at ?buf [d]) @ filter P (entries_at ?buf (d2 # post))" for P
    by (simp only: filter_append [symmetric] entries_at_simps(3) [symmetric] append_Cons append_Nil)
  from Cons.IH [OF S(3,4,5,6,12) room1 e1, where moved = "moved \<or> down \<noteq> []"]
  obtain dip' obh' nbh' ds' ns' where I:
    "split_leaf_loop sdp divider dip1 obh1 nbh1 (Some (last pre1)) (moved \<or> down \<noteq> []) d2
      = Some (dip', obh', nbh', (moved \<or> down \<noteq> []) \<or> filter (lower divider) (entries_at ?buf (d2 # post)) \<noteq> [])"
    "length (b_data obh') = n" "tiles (b_data obh') 104 ds' n" "ds' \<noteq> []" "get_be32 (b_data obh') 0 = GFS2_MAGIC" "get_be32 (b_data obh') 4 = 6"
    "b_blocknr obh' = b_blocknr obh1" "b_blocknr nbh' = b_blocknr nbh1" "vi dip' = vi dip1"
    "entries_at (b_data obh') ds' = entries_at (b_data obh1) pre1 @ filter (\<lambda>e. \<not> lower divider e) (entries_at ?buf (d2 # post))"
    "new_leaf_has n (b_data nbh') ns' ((es @ down) @ filter (lower divider) (entries_at ?buf (d2 # post)))"
    "leaf_entries (b_data obh') = leaf_entries (b_data obh1) - of_nat (length (filter (lower divider) (entries_at ?buf (d2 # post))))"
    "leaf_depth (b_data obh') = leaf_depth (b_data obh1)"
    unfolding ep pl by blast
  have m: "(moved \<or> down \<noteq> []) \<or> filter (lower divider) (entries_at ?buf (d2 # post)) \<noteq> []
      \<longleftrightarrow> moved \<or> filter (lower divider) (entries_at ?buf (d # d2 # post)) \<noteq> []"
    unfolding fl down_def by auto
  show ?case
  proof (intro exI conjI)
    show "split_leaf_loop sdp divider dip obh nbh (if pre = [] then None else Some (last pre)) moved d
      = Some (dip', obh', nbh', moved \<or> filter (lower divider) (entries_at ?buf (d # d2 # post)) \<noteq> [])"
      unfolding S(2) I(1) m ..
    show "entries_at (b_data obh') ds' = entries_at ?buf pre @ filter (\<lambda>e. \<not> lower divider e) (entries_at ?buf (d # d2 # post))"
      unfolding I(10) S(10) fl by simp
    show "new_leaf_has n (b_data nbh') ns' (es @ filter (lower divider) (entries_at ?buf (d # d2 # post)))"
      using I(11) unfolding fl down_def by simp
    show "leaf_entries (b_data obh') = leaf_entries ?buf - of_nat (length (filter (lower divider) (entries_at ?buf (d # d2 # post))))"
      unfolding I(12) S(14) fl down_def by (simp del: entries_at_simps)
  qed (use I S in simp_all)
qed

section \<open>Properties\<close>

lemma lindex_less:
  assumes "0 < unat depth" "unat depth < 32" "unat m < 2 ^ unat depth"
  shows "dir_lindex depth h < m \<longleftrightarrow> h < push_bit (32 - unat depth) m"
proof -
  have "unat m * 2 ^ (32 - unat depth) < 2 ^ unat depth * 2 ^ (32 - unat depth)" using assms(3) by simp
  also have "\<dots> = 2 ^ 32" using assms(2) by (simp add: power_add [symmetric])
  finally have p: "unat (push_bit (32 - unat depth) m) = unat m * 2 ^ (32 - unat depth)"
    by (simp only: unat_push_bit) simp
  have "depth \<noteq> 0" using assms(1) by auto
  then show ?thesis
    by (simp add: dir_lindex_def word_less_nat_alt p unat_drop_bit div_less_iff_less_mult)
qed

lemma new_leaf_empty:
  assumes "n = unat (sd_bsize sdp)" "512 \<le> n"
  shows "new_leaf_has n (b_data (new_leaf sdp bn)) [] []"
proof -
  define b where "b = b_data (new_leaf sdp bn)"
  have b: "b = put_be32 28 1200 (copy_meta_header 6 600 (replicate n 0))"
    using assms by (simp add: b_def new_leaf_def set_buf_def size_simps)
  have a: "agree 32 n (replicate n 0) b" unfolding b put_be32_def copy_meta_header_def using assms
    by (intro agree_trans [OF agree_memcpy agree_memcpy]) (simp_all add: size_simps)
  have "get_be64 b 104 = get_be64 (replicate n 0) 104" using agree_slice [OF a, of 104 8] assms by (simp add: get_be64_def)
  also have "\<dots> = 0" using assms by (simp add: get_be64_def slice_def be_val_def numeral_eq_Suc)
  finally have "\<not> live b 104" by (simp add: live_def de_simps)
  moreover have "get_be16 b 26 = 0"
  proof -
    have "get_be16 b 26 = get_be16 (replicate n 0) 26" unfolding b copy_meta_header_def
      by (simp add: field_simps size_simps codec_other)
    also have "\<dots> = 0" using assms by (simp add: get_be16_def slice_def be_val_def numeral_eq_Suc)
    finally show ?thesis .
  qed
  moreover have "get_be32 b 0 = GFS2_MAGIC" "get_be32 b 4 = 6" "length b = n"
  proof -
    have "slice 0 4 b = slice 0 4 (set_meta_header 6 600 (replicate 24 0))" "slice 4 4 b = slice 4 4 (set_meta_header 6 600 (replicate 24 0))"
      unfolding b put_be32_def copy_meta_header_def using assms
      by (simp_all add: slice_memcpy_other slice_memcpy_inside size_simps)
    then show "get_be32 b 0 = GFS2_MAGIC" "get_be32 b 4 = 6"
      by (simp_all add: get_be32_def) (simp_all add: get_be32_def [symmetric] set_meta_header_def size_simps field_simps)
    show "length b = n" by (simp add: b)
  qed
  ultimately show ?thesis by (simp add: new_leaf_has_def b_def de_simps)
qed

text \<open>The fields of a leaf's header do not touch its entries.\<close>

lemma leaf_header_puts:
  assumes d: "dir_block n buf ds" and m: "get_be32 buf 0 = GFS2_MAGIC" "get_be32 buf 4 = 6"
    and b: "buf' = put_be16 (offsetof struct_gfs2_leaf ''lf_depth'') v buf
      \<or> buf' = put_be64 (offsetof struct_gfs2_leaf ''lf_inode'') w buf"
  shows "dir_block n buf' ds" "entries_at buf' ds = entries_at buf ds" "get_be32 buf' 0 = GFS2_MAGIC" "get_be32 buf' 4 = 6"
    "leaf_entries buf' = leaf_entries buf"
    "leaf_depth (put_be16 (offsetof struct_gfs2_leaf ''lf_depth'') v buf) = v"
    "leaf_depth (put_be64 (offsetof struct_gfs2_leaf ''lf_inode'') w buf) = leaf_depth buf"
    "get_be64 (put_be64 (offsetof struct_gfs2_leaf ''lf_inode'') w buf) (offsetof struct_gfs2_leaf ''lf_inode'') = w"
proof -
  have B: "length buf = n" "n \<le> 65536" "8 dvd n" "512 \<le> n" "ds \<noteq> []" "tiles buf 104 ds n"
    using d m by (simp_all add: dir_block_def dirent_first)
  have "agree 104 n buf buf'"
    using b B(1,4) by (auto simp: put_be16_def put_be64_def size_simps intro!: agree_memcpy)
  note t = agree_tiles [OF this B(6)]
  show g: "get_be32 buf' 0 = GFS2_MAGIC" "get_be32 buf' 4 = 6" "leaf_entries buf' = leaf_entries buf"
    using b m B(1,4) by (auto simp: de_simps size_simps field_simps)
  have "length buf' = n" using b B(1) by auto
  with t B g show "dir_block n buf' ds" "entries_at buf' ds = entries_at buf ds" by (simp_all add: dir_block_def dirent_first)
qed (use d in \<open>simp_all add: dir_block_def leaf_depth_def size_simps field_simps\<close>)

text \<open>The empty first entry of a new leaf.\<close>

lemma sentinel_spec:
  assumes n: "n = unat (sd_bsize sdp)" "512 \<le> n" "n \<le> 65536" "8 dvd n" and l: "new_leaf_has n (b_data nbh) [] []"
  shows "\<exists>b. dirent_alloc sdp dip nbh 0 = Some (104, bmodified (nbh\<lparr>b_data := b\<rparr>),
        dip\<lparr>vi := (vi dip)\<lparr>i_entries := i_entries (vi dip) + 1\<rparr>, vbh := bmodified (vbh dip)\<rparr>)
    \<and> dir_block n (put_be64 104 0 b) [104] \<and> entries_at (put_be64 104 0 b) [104] = []
    \<and> get_be32 (put_be64 104 0 b) 0 = GFS2_MAGIC \<and> get_be32 (put_be64 104 0 b) 4 = 6 \<and> leaf_entries (put_be64 104 0 b) = 0"
proof -
  let ?buf = "b_data nbh"
  have L: "length ?buf = n" "get_be32 ?buf 0 = GFS2_MAGIC" "get_be32 ?buf 4 = 6" "leaf_entries ?buf = 0" "\<not> live ?buf 104"
    using l by (auto simp: new_leaf_has_def unat_eq_zero)
  define b where "b = put_de_name_len 104 (of_nat 0) (put_de_rec_len 104 (of_nat (n - 104)) ?buf)"
  have "GFS2_DIRENT_SIZE 0 \<le> n - 104" using n(2) by (simp add: dirent_size(1))
  from first_entry_spec [OF L(1) n(3,4,2) _ _ _ L(5) _ this]
  have F: "length b = n" "tiles b 104 [104] n" "agree 0 104 ?buf b"
    unfolding b_def by (simp_all del: of_nat_diff tiles.simps)
  have al: "dirent_alloc sdp dip nbh 0 = Some (104, bmodified (nbh\<lparr>b_data := b\<rparr>),
      dip\<lparr>vi := (vi dip)\<lparr>i_entries := i_entries (vi dip) + 1\<rparr>, vbh := bmodified (vbh dip)\<rparr>)"
    using L n(1) by (simp add: dirent_alloc_def b_def dirent_first size_simps Let_def)
  let ?c = "put_be64 104 0 b"
  have a: "agree 0 104 ?buf ?c"
    using agree_trans [OF F(3)] F(1) n(2) by (simp add: put_be64_def agree_memcpy)
  note H = agree_header [OF a order.refl]
  have g: "get_be32 ?c 0 = GFS2_MAGIC" "get_be32 ?c 4 = 6" "leaf_entries ?c = 0"
    using H(2) L(2-4) agree_slice [OF a] by (simp_all add: get_be32_def)
  have f: "de_rec_len ?c 104 = de_rec_len b 104" "\<not> live ?c 104"
    using F(1) n(2) by (simp_all add: de_simps live_def field_simps)
  then have "tiles ?c 104 [104] n" using F(2) by (simp add: dent_ok_def live_def)
  then have "dir_block n ?c [104]" using g F(1) n by (simp add: dir_block_def dirent_first del: tiles.simps)
  then show ?thesis using al g f(2) by (intro exI [of _ b]) simp
qed

lemma split_leaf_loop_partition:
  assumes n: "n = unat (sd_bsize sdp)" "512 \<le> n" "n \<le> 65536" "8 dvd n"
    and o: "dir_block n (b_data obh) ds" "get_be32 (b_data obh) 0 = GFS2_MAGIC" "get_be32 (b_data obh) 4 = GFS2_METATYPE_LF"
    and c: "unat (leaf_entries (b_data obh)) = length (entries_at (b_data obh) ds)" "unat (i_entries (vi dip)) < 2 ^ 32 - 1"
  shows "\<exists>dip' obh' nbh' moved ds' ns'.
    split_leaf_loop sdp divider dip obh (new_leaf sdp bn) None False 104 = Some (dip', obh', nbh', moved) \<and> vi dip' = vi dip \<and>
    dir_block n (b_data obh') ds' \<and> get_be32 (b_data obh') 0 = GFS2_MAGIC \<and> get_be32 (b_data obh') 4 = 6 \<and>
    new_leaf_has n (b_data nbh') ns' (filter (lower divider) (entries_at (b_data obh) ds)) \<and>
    entries_at (b_data obh') ds' = filter (\<lambda>e. \<not> lower divider e) (entries_at (b_data obh) ds) \<and>
    unat (leaf_entries (b_data obh')) = length (entries_at (b_data obh') ds') \<and>
    leaf_depth (b_data obh') = leaf_depth (b_data obh) \<and>
    b_blocknr obh' = b_blocknr obh \<and> b_blocknr nbh' = b_blocknr (new_leaf sdp bn) \<and>
    (moved \<longleftrightarrow> filter (lower divider) (entries_at (b_data obh) ds) \<noteq> [])"
proof -
  let ?buf = "b_data obh"
  have B: "length ?buf = n" "ds \<noteq> []" "tiles ?buf 104 ds n" using o by (simp_all add: dir_block_def dirent_first)
  then obtain post where ds: "ds = 104 # post" by (cases ds) auto
  have t: "tiles ?buf 104 ([] @ 104 # post) n" using B(3) ds by simp
  have room: "104 + (\<Sum>x\<leftarrow>[]. need (b_data (new_leaf sdp bn)) x) +
      (\<Sum>x\<leftarrow>filter (\<lambda>x. live ?buf x \<and> de_hash ?buf x < divider) (104 # post). need ?buf x) \<le> n"
    using tiles_need [OF B(3), of "\<lambda>x. de_hash ?buf x < divider"] unfolding ds by simp
  obtain dip' obh' nbh' ds' ns' where S:
    "split_leaf_loop sdp divider dip obh (new_leaf sdp bn) None False 104 = Some (dip', obh', nbh', filter (lower divider) (entries_at ?buf ds) \<noteq> [])"
    "length (b_data obh') = n" "tiles (b_data obh') 104 ds' n" "ds' \<noteq> []" "get_be32 (b_data obh') 4 = 6" "vi dip' = vi dip"
    "entries_at (b_data obh') ds' = filter (\<lambda>e. \<not> lower divider e) (entries_at ?buf ds)"
    "new_leaf_has n (b_data nbh') ns' (filter (lower divider) (entries_at ?buf ds))"
    "leaf_entries (b_data obh') = leaf_entries ?buf - of_nat (length (filter (lower divider) (entries_at ?buf ds)))"
    "leaf_depth (b_data obh') = leaf_depth ?buf" "get_be32 (b_data obh') 0 = GFS2_MAGIC"
    "b_blocknr obh' = b_blocknr obh" "b_blocknr nbh' = b_blocknr (new_leaf sdp bn)"
    using split_leaf_loop_spec [OF n B(1) t o(2,3) new_leaf_empty [OF n(1,2)] room c(2), where moved = False]
    unfolding ds [symmetric] append_Nil entries_at_simps(1) simp_thms if_True by blast
  have k: "length (filter (lower divider) (entries_at ?buf ds)) \<le> unat (leaf_entries ?buf)" unfolding c(1) by (rule length_filter_le)
  then have "unat (of_nat (length (filter (lower divider) (entries_at ?buf ds))) :: u16) = length (filter (lower divider) (entries_at ?buf ds))"
    using u16_lt [of "leaf_entries ?buf"] by (intro unat_of_nat_small) simp
  then have "unat (leaf_entries (b_data obh')) = unat (leaf_entries ?buf) - length (filter (lower divider) (entries_at ?buf ds))"
    unfolding S(9) using k by (subst unat_sub) (simp_all add: word_le_nat_alt)
  then have cnt: "unat (leaf_entries (b_data obh')) = length (entries_at (b_data obh') ds')"
    unfolding S(7) c(1) using sum_length_filter_compl [of "lower divider" "entries_at ?buf ds"] by simp
  have "dir_block n (b_data obh') ds'" using S(2-5) n by (simp add: dir_block_def dirent_first)
  with S cnt show ?thesis by blast
qed

text \<open>C4. Splitting a leaf never runs out of room and loses no entry. Hypotheses: blocks of 512 to 65536
  bytes, a multiple of 8; the old leaf is well formed (its entries fill it without a gap), and its
  header names it a leaf and counts its entries; the directory has less than 2^32 - 1 entries; the table has a depth of 1
  to 31 and the middle of the leaf's pointers is an index of it. Then the second half of
  \<open>dir_split_leaf\<close> (\<open>split_leaf_fill\<close>, from the computation of the divider on, after the new block
  is allocated and the pointers are written) succeeds, whether an entry moves or not: the entries
  whose index in the table is below the middle are in the new leaf, in their order, and all others
  in the old one, in theirs; both leaves are well formed, are leaves by their headers, count their entries there and
  have the old leaf's depth plus one, the new one names the directory's inode, and both are to be
  written; the inode changes in its number of blocks only, so the directory has as many entries as before.\<close>

theorem split_leaf_partition:
  assumes n: "n = unat (sd_bsize sdp)" "512 \<le> n" "n \<le> 65536" "8 dvd n"
    and o: "dir_block n (b_data obh) ds" "get_be32 (b_data obh) 0 = GFS2_MAGIC" "get_be32 (b_data obh) 4 = GFS2_METATYPE_LF"
    and c: "unat (leaf_entries (b_data obh)) = length (entries_at (b_data obh) ds)" "unat (i_entries (vi dip)) < 2 ^ 32 - 1"
    and m: "0 < unat depth" "unat depth < 32" "unat mid < 2 ^ unat depth"
  shows "\<exists>dip' obh' nbh' ds' ns'.
    split_leaf_fill sdp (push_bit (32 - unat depth) mid) dip obh (new_leaf sdp bn) = Some (dip', obh', nbh') \<and>
    vi dip' = (vi dip)\<lparr>i_blocks := i_blocks (vi dip) + 1\<rparr> \<and>
    dir_block n (b_data obh') ds' \<and> dir_block n (b_data nbh') ns' \<and>
    get_be32 (b_data obh') 0 = GFS2_MAGIC \<and> get_be32 (b_data obh') 4 = GFS2_METATYPE_LF \<and>
    get_be32 (b_data nbh') 0 = GFS2_MAGIC \<and> get_be32 (b_data nbh') 4 = GFS2_METATYPE_LF \<and>
    entries_at (b_data nbh') ns' = filter (\<lambda>(_, hash, _). dir_lindex depth hash < mid) (entries_at (b_data obh) ds) \<and>
    entries_at (b_data obh') ds' = filter (\<lambda>(_, hash, _). mid \<le> dir_lindex depth hash) (entries_at (b_data obh) ds) \<and>
    unat (leaf_entries (b_data nbh')) = length (entries_at (b_data nbh') ns') \<and>
    unat (leaf_entries (b_data obh')) = length (entries_at (b_data obh') ds') \<and>
    leaf_depth (b_data obh') = leaf_depth (b_data obh) + 1 \<and> leaf_depth (b_data nbh') = leaf_depth (b_data obh) + 1 \<and>
    get_be64 (b_data nbh') (offsetof struct_gfs2_leaf ''lf_inode'') = in_addr (i_num (vi dip)) \<and>
    b_modified obh' \<and> b_modified nbh' \<and> b_blocknr obh' = b_blocknr obh \<and> b_blocknr nbh' = bn"
proof -
  let ?buf = "b_data obh" and ?div = "push_bit (32 - unat depth) mid"
  let ?low = "filter (lower ?div) (entries_at ?buf ds)"
  have l: "dir_lindex depth h < mid \<longleftrightarrow> h < ?div" for h by (rule lindex_less [OF m])
  have lo: "filter (lower ?div) es = filter (\<lambda>(_, hash, _). dir_lindex depth hash < mid) es" for es :: "dir_entry list"
    by (intro filter_cong refl) (simp only: case_prod_beta l)
  have hi: "filter (\<lambda>e. \<not> lower ?div e) es = filter (\<lambda>(_, hash, _). mid \<le> dir_lindex depth hash) es" for es :: "dir_entry list"
    by (intro filter_cong refl) (simp only: case_prod_beta l [symmetric] linorder_not_less)
  obtain dip1 obh1 nbh1 moved ds' ns1 where S:
    "split_leaf_loop sdp ?div dip obh (new_leaf sdp bn) None False 104 = Some (dip1, obh1, nbh1, moved)" "vi dip1 = vi dip"
    "dir_block n (b_data obh1) ds'" "get_be32 (b_data obh1) 0 = GFS2_MAGIC" "get_be32 (b_data obh1) 4 = 6"
    "new_leaf_has n (b_data nbh1) ns1 ?low" "entries_at (b_data obh1) ds' = filter (\<lambda>e. \<not> lower ?div e) (entries_at ?buf ds)"
    "unat (leaf_entries (b_data obh1)) = length (entries_at (b_data obh1) ds')" "leaf_depth (b_data obh1) = leaf_depth ?buf"
    "b_blocknr obh1 = b_blocknr obh" "b_blocknr nbh1 = b_blocknr (new_leaf sdp bn)" "moved \<longleftrightarrow> ?low \<noteq> []"
    using split_leaf_loop_partition [OF n o c] by blast
  have "\<exists>dip2 nbh2 ns'. (if moved then Some (dip1, nbh1) else case dirent_alloc sdp dip1 nbh1 0 of None \<Rightarrow> None
      | Some (new, nbh, dip) \<Rightarrow>
          Some (set_vi (i_entries_update (\<lambda>e. e - 1)) dip,
                set_buf (put_be64 (new + offsetof struct_gfs2_dirent ''de_inum'' + offsetof struct_gfs2_inum ''no_formal_ino'') 0) nbh))
        = Some (dip2, nbh2)
      \<and> vi dip2 = vi dip \<and> dir_block n (b_data nbh2) ns' \<and> entries_at (b_data nbh2) ns' = ?low
      \<and> get_be32 (b_data nbh2) 0 = GFS2_MAGIC \<and> get_be32 (b_data nbh2) 4 = 6
      \<and> unat (leaf_entries (b_data nbh2)) = length ?low \<and> b_blocknr nbh2 = b_blocknr nbh1"
  proof (cases moved)
    case True
    then have "ns1 \<noteq> []" using S(6,12) by (auto simp: new_leaf_has_def split: if_splits)
    then have p: "packed n (b_data nbh1) ns1" "entries_at (b_data nbh1) ns1 = ?low" "get_be32 (b_data nbh1) 0 = GFS2_MAGIC"
        "get_be32 (b_data nbh1) 4 = 6" "unat (leaf_entries (b_data nbh1)) = length ?low"
      using S(6) by (simp_all add: new_leaf_has_def)
    then have "dir_block n (b_data nbh1) ns1" using n by (simp add: packed_def dir_block_def dirent_first)
    with p True S(2) show ?thesis by (intro exI [of _ dip1] exI [of _ nbh1] exI [of _ ns1]) simp
  next
    case False
    then have low: "?low = []" using S(12) by simp
    then have "ns1 = []"
      using S(6) entries_live [of ns1 "b_data nbh1"] by (auto simp: new_leaf_has_def packed_def split: if_splits)
    with S(6) low have "new_leaf_has n (b_data nbh1) [] []" by simp
    from sentinel_spec [OF n this, of dip1] obtain b where
      "dirent_alloc sdp dip1 nbh1 0 = Some (104, bmodified (nbh1\<lparr>b_data := b\<rparr>),
        dip1\<lparr>vi := (vi dip1)\<lparr>i_entries := i_entries (vi dip1) + 1\<rparr>, vbh := bmodified (vbh dip1)\<rparr>)"
      "dir_block n (put_be64 104 0 b) [104]" "entries_at (put_be64 104 0 b) [104] = []"
      "get_be32 (put_be64 104 0 b) 0 = GFS2_MAGIC" "get_be32 (put_be64 104 0 b) 4 = 6" "leaf_entries (put_be64 104 0 b) = 0"
      by blast
    then show ?thesis using False S(2) low by (simp add: set_vi_def set_buf_def size_simps) (rule exI [of _ "[104]"], simp)
  qed
  then obtain dip2 nbh2 ns' where F: "(if moved then Some (dip1, nbh1) else case dirent_alloc sdp dip1 nbh1 0 of None \<Rightarrow> None
      | Some (new, nbh, dip) \<Rightarrow>
          Some (set_vi (i_entries_update (\<lambda>e. e - 1)) dip,
                set_buf (put_be64 (new + offsetof struct_gfs2_dirent ''de_inum'' + offsetof struct_gfs2_inum ''no_formal_ino'') 0) nbh))
        = Some (dip2, nbh2)"
    "vi dip2 = vi dip" "dir_block n (b_data nbh2) ns'" "entries_at (b_data nbh2) ns' = ?low"
    "get_be32 (b_data nbh2) 0 = GFS2_MAGIC" "get_be32 (b_data nbh2) 4 = 6"
    "unat (leaf_entries (b_data nbh2)) = length ?low" "b_blocknr nbh2 = b_blocknr nbh1" by blast
  let ?d = "leaf_depth ?buf + 1"
  define ob where "ob = put_be16 (offsetof struct_gfs2_leaf ''lf_depth'') ?d (b_data obh1)"
  define nb1 where "nb1 = put_be16 (offsetof struct_gfs2_leaf ''lf_depth'') ?d (b_data nbh2)"
  define nb where "nb = put_be64 (offsetof struct_gfs2_leaf ''lf_inode'') (in_addr (i_num (vi dip))) nb1"
  note O = leaf_header_puts [OF S(3,4,5), of ob ?d, folded ob_def, OF disjI1, OF refl]
  note N1 = leaf_header_puts [OF F(3,5,6), of nb1 ?d, folded nb1_def, OF disjI1, OF refl]
  note N = leaf_header_puts [OF N1(1,3,4), of nb _ "in_addr (i_num (vi dip))", folded nb_def, OF disjI2, OF refl]
  have f: "snd (gfs2_dirent_first ?buf) = 104" using o by (simp add: dirent_first)
  have "split_leaf_fill sdp ?div dip obh (new_leaf sdp bn)
      = Some (dirty (set_vi (i_blocks_update (\<lambda>b. b + 1)) dip2), bmodified (obh1\<lparr>b_data := ob\<rparr>), bmodified (nbh2\<lparr>b_data := nb\<rparr>))"
    unfolding split_leaf_fill_def f S(1) bind.bind_lunit prod.case F(1) Let_def S(9)
    by (simp add: set_buf_def ob_def nb_def nb1_def F(2))
  moreover have "vi (dirty (set_vi (i_blocks_update (\<lambda>b. b + 1)) dip2)) = (vi dip)\<lparr>i_blocks := i_blocks (vi dip) + 1\<rparr>"
    by (simp add: dirty_def set_vi_def F(2))
  moreover have "b_blocknr (new_leaf sdp bn) = bn" by (simp add: new_leaf_def set_buf_def)
  ultimately show ?thesis
    using O(1-6) N(1-5,7,8) N1 S(7,8,10,11) F(4,7,8) lo hi
    by (intro exI [of _ "dirty (set_vi (i_blocks_update (\<lambda>b. b + 1)) dip2)"] exI [of _ "bmodified (obh1\<lparr>b_data := ob\<rparr>)"]
        exI [of _ "bmodified (nbh2\<lparr>b_data := nb\<rparr>)"] exI [of _ ds'] exI [of _ ns']) simp
qed

text \<open>A leaf of two entries, one in each half of the hashes.\<close>

abbreviation (input) low_entry :: dir_entry where
  "low_entry \<equiv> ([97], 0x10000000, \<lparr>in_formal_ino = 6, in_addr = 1001\<rparr>, 8)"
abbreviation (input) high_entry :: dir_entry where
  "high_entry \<equiv> ([98], 0x90000000, \<lparr>in_formal_ino = 7, in_addr = 1002\<rparr>, 8)"

lemma leaf_example:
  "\<exists>(obh :: gfs2_buffer_head) ds. dir_block 512 (b_data obh) ds \<and> get_be32 (b_data obh) 0 = GFS2_MAGIC \<and> get_be32 (b_data obh) 4 = GFS2_METATYPE_LF
    \<and> unat (leaf_entries (b_data obh)) = 2 \<and> entries_at (b_data obh) ds = [high_entry, low_entry]"
proof -
  have n: "512 = unat (sd_bsize sbd_example)" by (simp add: sbd_example_def)
  have c: "(512 :: nat) \<le> 512" "(512 :: nat) \<le> 65536" "8 dvd (512 :: nat)" by simp_all
  note l0 = new_leaf_empty [OF n c(1), of 5]
  obtain b1 :: gfs2_buffer_head and ns1 where l1: "new_leaf_has 512 (b_data b1) ns1 [high_entry]" "(\<Sum>d\<leftarrow>ns1. need (b_data b1) d) = 48"
    using new_leaf_add [OF n c l0, where name = "[98]" and inum = "\<lparr>in_formal_ino = 7, in_addr = 1002\<rparr>" and hash = "0x90000000" and type = 8]
    unfolding Let_def by (fastforce simp: dirent_size(1))
  obtain b2 :: gfs2_buffer_head and ns2 where l2: "new_leaf_has 512 (b_data b2) ns2 [high_entry, low_entry]"
    using new_leaf_add [OF n c l1(1), where name = "[97]" and inum = "\<lparr>in_formal_ino = 6, in_addr = 1001\<rparr>" and hash = "0x10000000" and type = 8] l1(2)
    unfolding Let_def by (fastforce simp: dirent_size(1))
  then show ?thesis
    by (intro exI [of _ b2] exI [of _ ns2]) (auto simp: new_leaf_has_def packed_def dir_block_def dirent_first split: if_splits)
qed

theorem split_leaf_partition_witness:
  "\<exists>obh ds dip obh' nbh' ds' ns'. entries_at (b_data obh) ds = [high_entry, low_entry] \<and>
    split_leaf_fill sbd_example (push_bit 31 1) new_dir_example obh (new_leaf sbd_example 5) = Some (dip, obh', nbh')
    \<and> entries_at (b_data nbh') ns' = [low_entry] \<and> entries_at (b_data obh') ds' = [high_entry]"
proof -
  obtain obh :: gfs2_buffer_head and ds where o: "dir_block 512 (b_data obh) ds" "get_be32 (b_data obh) 0 = GFS2_MAGIC" "get_be32 (b_data obh) 4 = GFS2_METATYPE_LF"
    "unat (leaf_entries (b_data obh)) = 2" "entries_at (b_data obh) ds = [high_entry, low_entry]"
    using leaf_example by blast
  have n: "512 = unat (sd_bsize sbd_example)" by (simp add: sbd_example_def)
  have c: "(512 :: nat) \<le> 512" "(512 :: nat) \<le> 65536" "8 dvd (512 :: nat)" by simp_all
  have d: "unat (leaf_entries (b_data obh)) = length (entries_at (b_data obh) ds)"
    "unat (i_entries (vi new_dir_example)) < 2 ^ 32 - 1" "0 < unat (1 :: u16)" "unat (1 :: u16) < 32" "unat (1 :: u32) < 2 ^ unat (1 :: u16)"
    using o(4,5) new_dir_example_ok(2) by (simp_all add: may_add_def)
  have lx: "dir_lindex 1 0x10000000 = 0" "dir_lindex 1 0x90000000 = 1"
    by (simp_all add: dir_lindex_def drop_bit_eq_div)
  have f: "filter (\<lambda>(_, hash, _). dir_lindex 1 hash < 1) (entries_at (b_data obh) ds) = [low_entry]"
    "filter (\<lambda>(_, hash, _). 1 \<le> dir_lindex 1 hash) (entries_at (b_data obh) ds) = [high_entry]"
    unfolding o(5) using lx by simp_all
  have u: "32 - unat (1 :: u16) = 31" by simp
  note P = split_leaf_partition [OF n c o(1-3) d, of 5, unfolded f u]
  then obtain dip obh' nbh' ds' ns' where
    "split_leaf_fill sbd_example (push_bit 31 1) new_dir_example obh (new_leaf sbd_example 5) = Some (dip, obh', nbh')"
    "entries_at (b_data nbh') ns' = [low_entry]" "entries_at (b_data obh') ds' = [high_entry]"
    by auto
  then show ?thesis using o(5) by (intro exI conjI)
qed

end
