(* ===== verification/Super.thy ===== *)
theory Super
  imports FsStuffed
begin

text \<open>
  The superblock and the index of resource groups (super.c, misc.c, structures.c): the check of a
  superblock, the constants that are computed from it, its writing, and the reading of the index.

  The device is given in blocks of the size that the superblock in memory has at the time:
  \<open>read_sb\<close> is called with basic blocks, what follows with blocks of the file system's size.
\<close>

section \<open>check_sb\<close>

abbreviation (input) E_IO :: int where "E_IO \<equiv> 5"
abbreviation (input) E_INVAL :: int where "E_INVAL \<equiv> 22"

text \<open>\<open>Inl\<close> is the \<open>errno\<close> of a result of -1.\<close>

definition check_sb :: "bytes \<Rightarrow> int + int" where
  "check_sb sb =
     (let fs_format = get_be32 sb (offsetof struct_gfs2_sb ''sb_fs_format'') in
      if get_be32 sb (offsetof struct_gfs2_sb ''sb_header'' + offsetof struct_gfs2_meta_header ''mh_magic'') \<noteq> GFS2_MAGIC
         \<or> get_be32 sb (offsetof struct_gfs2_sb ''sb_header'' + offsetof struct_gfs2_meta_header ''mh_type'') \<noteq> GFS2_METATYPE_SB
      then Inl E_IO
      else if fs_format = GFS_FORMAT_FS
         \<and> get_be32 sb (offsetof struct_gfs2_sb ''sb_header'' + offsetof struct_gfs2_meta_header ''mh_format'') = GFS2_FORMAT_SB
         \<and> get_be32 sb (offsetof struct_gfs2_sb ''sb_multihost_format'') = GFS_FORMAT_MULTI
      then Inr 1
      else if fs_format < LGFS2_FS_FORMAT_MIN \<or> 1899 < fs_format then Inl E_INVAL
      else Inr 2)"

section \<open>Sizes of trees\<close>

text \<open>
  The bytes that a tree of each height can hold, until the product overflows: each loop's arrays have
  \<open>GFS2_MAX_META_HEIGHT\<close> places. None is an access outside the array or a division by zero; only the
  first loop of \<open>read_sb\<close> is bounded.
\<close>

function heights_loop :: "bool \<Rightarrow> u64 \<Rightarrow> u64 list \<Rightarrow> nat \<Rightarrow> (u64 list \<times> nat) option" where
  "heights_loop bounded inptrs arr x =
     (if bounded \<and> GFS2_MAX_META_HEIGHT \<le> x then Some (arr, x)
      else if inptrs = 0 \<or> length arr < x then None
      else
        let space = arr ! (x - 1) * inptrs in
        if space div inptrs \<noteq> arr ! (x - 1) \<or> space mod inptrs \<noteq> 0 then Some (arr, x)
        else if length arr \<le> x then None
        else heights_loop bounded inptrs (arr[x := space]) (x + 1))"
  by pat_completeness auto
termination by (relation "measure (\<lambda>(_, _, arr, x). length arr - x)") auto

declare heights_loop.simps [simp del]

definition compute_heightsize ::
  "u32 \<Rightarrow> u64 list \<Rightarrow> u32 \<Rightarrow> u32 \<Rightarrow> u32 \<Rightarrow> (int \<times> u64 list \<times> nat) option" where
  "compute_heightsize bsize heightsize bsize1 diptrs inptrs =
     (let arr = heightsize[0 := ucast bsize - of_nat (sizeof struct_gfs2_dinode), 1 := ucast bsize1 * scast diptrs] in
      case heights_loop False (scast inptrs) arr 2 of None \<Rightarrow> None
      | Some (arr, maxheight) \<Rightarrow> Some (if GFS2_MAX_META_HEIGHT < maxheight then -1 else 0, arr, maxheight))"

definition ffs :: "u32 \<Rightarrow> nat" where
  "ffs w = (case find (bit w) [0..<32] of None \<Rightarrow> 0 | Some k \<Rightarrow> k + 1)"

text \<open>The pointers in a block after its header; the subtraction is in 64 bits.\<close>

definition ptrs_after :: "u32 \<Rightarrow> layout \<Rightarrow> u32" where
  "ptrs_after bsize hdr = ucast ((ucast bsize - of_nat (sizeof hdr) :: u64) div 8)"

text \<open>The members that \<open>read_sb\<close> and \<open>compute_constants\<close> both set, from the block size and its shift.\<close>

definition block_constants :: "gfs2_sbd \<Rightarrow> gfs2_sbd" where
  "block_constants = assigns [
     \<lambda>s. s\<lparr>sd_jbsize := ucast (ucast (sd_bsize s) - of_nat (sizeof struct_gfs2_meta_header) :: u64)\<rparr>,
     \<lambda>s. s\<lparr>sd_hash_bsize := sd_bsize s div 2\<rparr>,
     \<lambda>s. s\<lparr>sd_hash_bsize_shift := sd_bsize_shift s - 1\<rparr>,
     \<lambda>s. s\<lparr>sd_hash_ptrs := sd_hash_bsize s div 8\<rparr>]"

definition bitmap_constant :: "gfs2_sbd \<Rightarrow> gfs2_sbd" where
  "bitmap_constant s =
     s\<lparr>sd_blocks_per_bitmap := ucast ((ucast (sd_bsize s) - of_nat (sizeof struct_gfs2_meta_header)) * ucast GFS2_NBBY :: u64)\<rparr>"

text \<open>\<open>md.next_inum\<close>, which it sets to 1, is an argument of the operations that use it.\<close>

definition compute_constants :: "gfs2_sbd \<Rightarrow> (int \<times> gfs2_sbd) option" where
  "compute_constants sdp =
     (let sdp = sdp\<lparr>sd_bsize_shift := of_nat (ffs (sd_bsize sdp)) - 1\<rparr>;
          sdp = sdp\<lparr>sd_fsb2bb_shift := sd_bsize_shift sdp - of_nat GFS2_BASIC_BLOCK_SHIFT\<rparr>;
          sdp = sdp\<lparr>sd_fsb2bb := push_bit (unat (sd_fsb2bb_shift sdp)) 1\<rparr>;
          sdp = sdp\<lparr>sd_diptrs := ptrs_after (sd_bsize sdp) struct_gfs2_dinode,
                    sd_inptrs := ptrs_after (sd_bsize sdp) struct_gfs2_meta_header\<rparr>;
          sdp = bitmap_constant (block_constants sdp)
      in case compute_heightsize (sd_bsize sdp) (sd_heightsize sdp) (sd_bsize sdp) (sd_diptrs sdp) (sd_inptrs sdp) of
           None \<Rightarrow> None
         | Some (e, arr, maxh) \<Rightarrow>
             let sdp = sdp\<lparr>sd_heightsize := arr, sd_max_height := of_nat maxh\<rparr> in
             if e \<noteq> 0 then Some (-1, sdp)
             else case compute_heightsize (sd_bsize sdp) (sd_jheightsize sdp) (sd_jbsize sdp) (sd_diptrs sdp) (sd_inptrs sdp) of
               None \<Rightarrow> None
             | Some (e, arr, maxh) \<Rightarrow>
                 Some (if e \<noteq> 0 then -1 else 0, sdp\<lparr>sd_jheightsize := arr, sd_max_jheight := of_nat maxh\<rparr>))"

section \<open>read_sb\<close>

text \<open>
  The two arrays of \<open>read_sb\<close>. The first places' products are in 32 bits; the height of files is not
  kept.
\<close>

definition read_sb_heights :: "gfs2_sbd \<Rightarrow> (int \<times> gfs2_sbd) option" where
  "read_sb_heights sdp =
     (let dh = ucast (sd_bsize sdp) - of_nat (sizeof struct_gfs2_dinode);
          arr = (sd_heightsize sdp)[0 := dh, 1 := ucast (sd_bsize sdp * sd_diptrs sdp)]
      in case heights_loop True (ucast (sd_inptrs sdp)) arr 2 of None \<Rightarrow> None
         | Some (arr, x) \<Rightarrow>
             let sdp = sdp\<lparr>sd_heightsize := arr\<rparr> in
             if GFS2_MAX_META_HEIGHT < x then Some (-1, sdp)
             else
               let arr = (sd_jheightsize sdp)[0 := dh, 1 := ucast (sd_jbsize sdp * sd_diptrs sdp)] in
               case heights_loop False (ucast (sd_inptrs sdp)) arr 2 of None \<Rightarrow> None
               | Some (arr, x) \<Rightarrow>
                   let sdp = sdp\<lparr>sd_jheightsize := arr, sd_max_jheight := of_nat x\<rparr> in
                   Some (if GFS2_MAX_META_HEIGHT < x then -1 else 0, sdp))"

text \<open>\<open>devlen\<close> is the length of the device in bytes; \<open>qcsize\<close> is set to its default, 1.\<close>

definition read_sb :: "gfs2_sbd \<Rightarrow> device \<Rightarrow> nat \<Rightarrow> (int \<times> gfs2_sbd) option" where
  "read_sb sdp d devlen =
     (case bread d (drop_bit (unat (sd_fsb2bb_shift sdp)) GFS2_SB_ADDR) of None \<Rightarrow> None
      | Some bh \<Rightarrow>
          (case check_sb (b_data bh) of Inl e \<Rightarrow> Some (-1, sdp)
           | Inr ret \<Rightarrow>
               let sdp = (if ret = 1 then sdp\<lparr>sd_gfs1 := True\<rparr> else sdp);
                   sdp = lgfs2_sb_in sdp (b_data bh);
                   sdp = sdp\<lparr>sd_fsb2bb_shift := sd_bsize_shift sdp - of_nat GFS2_BASIC_BLOCK_SHIFT\<rparr>
               in if sd_bsize sdp < 512 \<or> sd_bsize sdp \<noteq> (sd_bsize sdp AND - sd_bsize sdp) then Some (-1, sdp)
               else
                 let sdp = (if sd_gfs1 sdp
                            then sdp\<lparr>sd_diptrs := ptrs_after (sd_bsize sdp) struct_gfs_dinode,
                                     sd_inptrs := ptrs_after (sd_bsize sdp) struct_gfs_indirect\<rparr>
                            else sdp\<lparr>sd_diptrs := ptrs_after (sd_bsize sdp) struct_gfs2_dinode,
                                     sd_inptrs := ptrs_after (sd_bsize sdp) struct_gfs2_meta_header\<rparr>)
                 in case read_sb_heights (block_constants sdp) of None \<Rightarrow> None
                    | Some (e, sdp) \<Rightarrow>
                        if e \<noteq> 0 then Some (e, sdp)
                        else Some (0, bitmap_constant (sdp\<lparr>fssize := of_nat (devlen div unat (sd_bsize sdp))\<rparr>))))"

section \<open>lgfs2_sb_write\<close>

text \<open>
  \<open>pwritev\<close> writes the blocks in order. When the first one cannot be written it returns -1 and the
  device stays as it was; when a later one cannot, the write is short, and the device is in no known
  state (None). The code compares the result, a signed number, with an unsigned one, so that only
  the short write is an error: -1 becomes the greatest number of all, and the function returns 0
  although nothing was written.
\<close>

definition lgfs2_sb_write :: "gfs2_sbd \<Rightarrow> device \<Rightarrow> (int \<times> device option) option" where
  "lgfs2_sb_write sdp d =
     (let bsize = unat (sd_bsize sdp); zero = replicate bsize 0 in
      if bsize = 0 then None
      else
        let sb_addr = unat (ucast GFS2_SB_ADDR * GFS2_BASIC_BLOCK div sd_bsize sdp);
            d' = pwrite_blocks d 0 (replicate sb_addr zero @ [lgfs2_sb_out sdp zero])
        in if d 0 = None then Some (0, Some d)
           else Some (if d' = None then -1 else 0, d'))"

section \<open>rindex_read\<close>

abbreviation (input) GFS2_MAX_RGSIZE :: u32 where "GFS2_MAX_RGSIZE \<equiv> 2048"

definition rgd_seems_ok :: "gfs2_sbd \<Rightarrow> rgrp_tree \<Rightarrow> bool" where
  "rgd_seems_ok sdp rgd \<longleftrightarrow>
     (let most_bitmaps_possible = (GFS2_MAX_RGSIZE * 1024 * 256) div sd_bsize sdp in
      rt_length rgd \<noteq> 0 \<and> \<not> most_bitmaps_possible < rt_length rgd \<and>
      rt_data0 rgd = rt_addr rgd + ucast (rt_length rgd) \<and>
      rt_bitbytes rgd = rt_data rgd div GFS2_NBBY)"

definition good_on_disk :: "device \<Rightarrow> rgrp_tree \<Rightarrow> bool option" where
  "good_on_disk d rgd =
     map_option (\<lambda>bh. gfs2_check_meta (b_data bh) GFS2_METATYPE_RG = 0) (bread d (rt_addr rgd))"

text \<open>
  \<open>rgrp_insert\<close> on the tree as an ordered tree: the group with this address, or a new one that is
  zero but for it. The shape of the tree, which the rebalancing of osi_tree.h changes, shows in no
  result.
\<close>

fun rg_insert :: "u64 \<Rightarrow> rgrp_tree tree \<Rightarrow> rgrp_tree \<times> rgrp_tree tree" where
  "rg_insert addr Leaf = (let rg = rgrp_zero\<lparr>rt_addr := addr\<rparr> in (rg, Node Leaf rg Leaf))"
| "rg_insert addr (Node l cur r) =
     (if addr < rt_addr cur then let (rg, l) = rg_insert addr l in (rg, Node l cur r)
      else if rt_addr cur < addr then let (rg, r) = rg_insert addr r in (rg, Node l cur r)
      else (cur, Node l cur r))"

definition rindex_fields :: "bytes \<Rightarrow> rgrp_tree \<Rightarrow> rgrp_tree" where
  "rindex_fields ri rgd = rgd\<lparr>
     rt_length := get_be32 ri (offsetof struct_gfs2_rindex ''ri_length''),
     rt_data0 := get_be64 ri (offsetof struct_gfs2_rindex ''ri_data0''),
     rt_data := get_be32 ri (offsetof struct_gfs2_rindex ''ri_data''),
     rt_bitbytes := get_be32 ri (offsetof struct_gfs2_rindex ''ri_bitbytes'')\<rparr>"

text \<open>Whether the index is still sane with a group after the group \<open>prev\<close>.\<close>

definition rindex_sane ::
  "fs \<Rightarrow> u32 \<Rightarrow> rgrp_tree \<Rightarrow> rgrp_tree \<Rightarrow> u64 \<Rightarrow> bool \<Rightarrow> bool option" where
  "rindex_sane fs rg prev rgd prev_length ok =
     (if sd_gfs1 (fs_sdp fs) then Some ok
      else if rt_addr rgd \<le> rt_addr prev then Some False
      else if \<not> rgd_seems_ok (fs_sdp fs) rgd then Some False
      else if ok \<and> 2 < rg \<and> prev_length \<noteq> 0 \<and> prev_length \<noteq> rt_addr rgd - rt_addr prev
      then good_on_disk (fs_disk fs) rgd
      else Some ok)"

text \<open>
  The entries from number \<open>rg\<close> on. \<open>prev\<close> is the group of the last entry that counted; the result has
  the code's result, \<open>*rgcount\<close> and \<open>*ok\<close>. A second entry for a group that needs more bitmaps than it
  has makes \<open>gfs2_compute_bitstructs\<close> write past their array (None).
\<close>

partial_function (option) rindex_loop ::
  "fs \<Rightarrow> vinode \<Rightarrow> u32 \<Rightarrow> rgrp_tree option \<Rightarrow> u64 \<Rightarrow> u64 \<Rightarrow> bool \<Rightarrow> (int \<times> u64 \<times> bool \<times> fs \<times> vinode) option" where
  "rindex_loop fs ip rg prev prev_length rgcount ok = do {
     (ri, fs, ip) \<leftarrow> gfs2_readi fs ip (ucast rg * of_nat (sizeof struct_gfs2_rindex)) (of_nat (sizeof struct_gfs2_rindex));
     if ri = [] then Some (if rgcount = 0 then -1 else 0, rgcount, ok, fs, ip)
     else if length ri \<noteq> sizeof struct_gfs2_rindex then Some (-1, rgcount, ok, fs, ip)
     else
       let sdp = fs_sdp fs;
           addr = get_be64 ri (offsetof struct_gfs2_rindex ''ri_addr'');
           bad = (gfs2_check_range sdp addr \<noteq> 0);
           ok = (ok \<and> \<not> bad)
       in if bad \<and> prev = None then rindex_loop fs ip (rg + 1) prev prev_length rgcount ok
       else do {
         let addr = (if bad then rt_data0 (the prev) + ucast (rt_data (the prev)) else addr);
         let (rgd, tree) = rg_insert addr (fs_rgtree fs);
         let rgd = rindex_fields ri rgd;
         let fs = fs\<lparr>fs_rgtree := tree\<rparr>;
         (ok, prev_length) \<leftarrow>
           (case prev of None \<Rightarrow> Some (ok, prev_length)
            | Some p \<Rightarrow> map_option (\<lambda>ok. (ok, rt_addr rgd - rt_addr p)) (rindex_sane fs rg p rgd prev_length ok));
         if bits rgd \<noteq> [] \<and> length (bits rgd) < unat (rt_length rgd) then None
         else
           let (e, rgd) = gfs2_compute_bitstructs (sd_bsize sdp) rgd
           in rindex_loop (put_rg rgd fs) ip (rg + 1) (Some rgd) prev_length (rgcount + 1) (ok \<and> e = 0)
       }
   }"

declare rindex_loop.simps [code]

definition rindex_read :: "fs \<Rightarrow> vinode \<Rightarrow> (int \<times> u64 \<times> bool \<times> fs \<times> vinode) option" where
  "rindex_read fs ip =
     rindex_loop fs ip 0 None 0 0 (i_size (vi ip) mod of_nat (sizeof struct_gfs2_rindex) = 0)"

section \<open>The sizes of trees\<close>

text \<open>The first place at which the product with \<open>a\<close> no longer fits 64 bits.\<close>

lemma heights_step:
  assumes "0 < unat m"
  shows "(a * m) div m \<noteq> a \<or> (a * m) mod m \<noteq> 0 \<longleftrightarrow> 2 ^ 64 \<le> unat (a :: u64) * unat m"
proof (cases "unat a * unat m < 2 ^ 64")
  case True
  then have u: "unat (a * m) = unat a * unat m" by (simp add: unat_mult_no_wrap)
  have "unat ((a * m) div m) = unat a" "unat ((a * m) mod m) = 0"
    using assms by (simp_all only: unat_div unat_mod u) simp_all
  then show ?thesis using True by (simp add: word_unat_eq_iff)
next
  case False
  have "\<not> ((a * m) div m = a \<and> (a * m) mod m = 0)"
  proof
    assume "(a * m) div m = a \<and> (a * m) mod m = 0"
    then have "unat (a * m) div unat m = unat a" "unat (a * m) mod unat m = 0"
      by (metis unat_div, metis unat_mod unsigned_0)
    then have "unat (a * m) = unat a * unat m" by (metis div_mult_mod_eq add.right_neutral)
    then show False using False unsigned_less [of "a * m", where 'a = nat] by simp
  qed
  then show ?thesis using False by auto
qed

lemma heights_loop_spec:
  assumes "2 \<le> unat m" "length arr = 10" "2 \<le> x" "x \<le> 10" "2 ^ 64 \<le> a * unat m ^ 9"
    and "\<And>h. 1 \<le> h \<Longrightarrow> h < x \<Longrightarrow> unat (arr ! h) = a * unat m ^ (h - 1)"
  shows "\<exists>arr' x'. heights_loop b m arr x = Some (arr', x') \<and> x \<le> x' \<and> x' \<le> 10 \<and> length arr' = 10 \<and> arr' ! 0 = arr ! 0
    \<and> (\<forall>h. 1 \<le> h \<longrightarrow> h < x' \<longrightarrow> unat (arr' ! h) = a * unat m ^ (h - 1)) \<and> 2 ^ 64 \<le> a * unat m ^ (x' - 1)"
  using assms(2,3,4,6)
proof (induction "10 - x" arbitrary: arr x)
  case 0
  then have x: "x = 10" by simp
  have "2 ^ 64 \<le> unat (arr ! 9) * unat m" using 0(5) [of 9] x assms(5) by (simp add: mult.assoc flip: power_Suc2)
  then have s: "(arr ! 9 * m) div m \<noteq> arr ! 9 \<or> (arr ! 9 * m) mod m \<noteq> 0"
    using heights_step [of m "arr ! 9"] assms(1) by simp
  have m0: "m \<noteq> 0" using assms(1) by auto
  have "heights_loop b m arr x = Some (arr, x)"
    using s m0 0(2) by (subst heights_loop.simps) (simp add: x Let_def)
  then show ?case using 0 x assms(5) by (intro exI [of _ arr] exI [of _ x]) auto
next
  case (Suc k)
  then have x: "x < 10" by simp
  have m0: "m \<noteq> 0" using assms(1) by auto
  let ?p = "arr ! (x - 1)"
  have p: "unat ?p * unat m = a * unat m ^ (x - 1)"
  proof -
    have "unat ?p = a * unat m ^ (x - 1 - 1)" using Suc.prems(2) by (intro Suc.prems(4)) auto
    moreover have "unat m ^ (x - 1) = unat m ^ (x - 1 - 1) * unat m"
      using Suc.prems(2) by (metis One_nat_def Suc_diff_Suc Suc_le_lessD numeral_2_eq_2 power_Suc2 diff_Suc_eq_diff_pred)
    ultimately show ?thesis by (simp add: mult.assoc)
  qed
  show ?case
  proof (cases "2 ^ 64 \<le> a * unat m ^ (x - 1)")
    case True
    then have s: "(?p * m) div m \<noteq> ?p \<or> (?p * m) mod m \<noteq> 0"
      using heights_step [of m ?p] assms(1) p by simp
    have "heights_loop b m arr x = Some (arr, x)"
      using s m0 Suc.prems(1) x by (subst heights_loop.simps) (simp add: Let_def)
    then show ?thesis using Suc.prems True x by (intro exI [of _ arr] exI [of _ x]) auto
  next
    case False
    then have s: "(?p * m) div m = ?p" "(?p * m) mod m = 0" "unat (?p * m) = a * unat m ^ (x - 1)"
      using heights_step [of m ?p] assms(1) p by (auto simp: unat_mult_no_wrap)
    let ?arr = "arr[x := ?p * m]"
    have l: "heights_loop b m arr x = heights_loop b m ?arr (x + 1)"
      using s m0 Suc.prems(1) x by (subst heights_loop.simps) (simp add: Let_def)
    have "\<exists>arr' x'. heights_loop b m ?arr (x + 1) = Some (arr', x') \<and> x + 1 \<le> x' \<and> x' \<le> 10 \<and> length arr' = 10 \<and> arr' ! 0 = ?arr ! 0
      \<and> (\<forall>h. 1 \<le> h \<longrightarrow> h < x' \<longrightarrow> unat (arr' ! h) = a * unat m ^ (h - 1)) \<and> 2 ^ 64 \<le> a * unat m ^ (x' - 1)"
    proof (rule Suc.hyps(1))
      show "k = 10 - (x + 1)" using Suc.hyps(2) by simp
      fix h assume "1 \<le> h" "h < x + 1"
      then show "unat (?arr ! h) = a * unat m ^ (h - 1)"
        using Suc.prems(4) [of h] Suc.prems(1) s(3) x by (cases "h = x") auto
    qed (use Suc.prems x in auto)
    then show ?thesis using Suc.prems(2) unfolding l by (auto intro: Suc_leD)
  qed
qed

text \<open>The bytes that a tree of a given height holds.\<close>

definition tree_capacity :: "nat \<Rightarrow> nat \<Rightarrow> nat \<Rightarrow> nat \<Rightarrow> nat \<Rightarrow> nat" where
  "tree_capacity bsize unit diptrs inptrs hgt =
     (if hgt = 0 then bsize - 232 else unit * diptrs * inptrs ^ (hgt - 1))"

lemma find_least:
  assumes "\<And>h. h < n \<Longrightarrow> P h \<longleftrightarrow> Q h" "Q n"
  shows "(case find P [0..<n] of Some h \<Rightarrow> h | None \<Rightarrow> n) = (LEAST h. Q h)"
proof (cases "find P [0..<n]")
  case None
  then have "\<not> P h" if "h < n" for h using that by (auto simp: find_None_iff)
  then have "\<not> Q h" if "h < n" for h using that assms(1) by blast
  then have "(LEAST h. Q h) = n" using assms(2) by (intro Least_equality) (auto intro: leI)
  then show ?thesis using None by simp
next
  case (Some h)
  then have h: "h < n" "P h" "\<And>j. j < h \<Longrightarrow> \<not> P j" by (auto simp: find_Some_iff)
  then have "\<not> Q j" if "j < h" for j using that assms(1) [of j] by simp
  then have "(LEAST h. Q h) = h" using h assms(1) by (intro Least_equality) (auto intro: leI)
  then show ?thesis using Some by simp
qed

lemma read_sb_heights_spec:
  assumes "length (sd_heightsize s) = 10" "length (sd_jheightsize s) = 10" "2 \<le> unat (sd_inptrs s)"
    "2 ^ 64 \<le> unat (sd_bsize s * sd_diptrs s) * unat (sd_inptrs s) ^ 9"
    "2 ^ 64 \<le> unat (sd_jbsize s * sd_diptrs s) * unat (sd_inptrs s) ^ 9"
  shows "\<exists>hs js mj. read_sb_heights s = Some (0, s\<lparr>sd_heightsize := hs, sd_jheightsize := js, sd_max_jheight := of_nat mj\<rparr>)
    \<and> 2 \<le> mj \<and> mj \<le> 10 \<and> js ! 0 = ucast (sd_bsize s) - of_nat (sizeof struct_gfs2_dinode)
    \<and> (\<forall>h. 1 \<le> h \<longrightarrow> h < mj \<longrightarrow> unat (js ! h) = unat (sd_jbsize s * sd_diptrs s) * unat (sd_inptrs s) ^ (h - 1))
    \<and> 2 ^ 64 \<le> unat (sd_jbsize s * sd_diptrs s) * unat (sd_inptrs s) ^ (mj - 1)"
proof -
  let ?dh = "ucast (sd_bsize s) - of_nat (sizeof struct_gfs2_dinode) :: u64"
  let ?arr = "\<lambda>arr a. arr[0 := ?dh, Suc 0 := ucast a :: u64]"
  have m: "unat (ucast (sd_inptrs s) :: u64) = unat (sd_inptrs s)" by (simp add: unat_ucast_up)
  have pre: "unat (?arr arr a ! h) = unat a * unat (sd_inptrs s) ^ (h - 1)"
    if "length arr = 10" "1 \<le> h" "h < 2" for arr h and a :: u32
    using that by (cases "h = 1") (auto simp: unat_ucast_up)
  obtain hs x where 1: "heights_loop True (ucast (sd_inptrs s)) (?arr (sd_heightsize s) (sd_bsize s * sd_diptrs s)) 2 = Some (hs, x)" "x \<le> 10"
    using heights_loop_spec [of "ucast (sd_inptrs s)" "?arr (sd_heightsize s) (sd_bsize s * sd_diptrs s)" 2 "unat (sd_bsize s * sd_diptrs s)" True]
      assms pre m by auto
  obtain js mj where 2: "heights_loop False (ucast (sd_inptrs s)) (?arr (sd_jheightsize s) (sd_jbsize s * sd_diptrs s)) 2 = Some (js, mj)"
    "2 \<le> mj" "mj \<le> 10" "js ! 0 = ?dh"
    "\<forall>h. 1 \<le> h \<longrightarrow> h < mj \<longrightarrow> unat (js ! h) = unat (sd_jbsize s * sd_diptrs s) * unat (sd_inptrs s) ^ (h - 1)"
    "2 ^ 64 \<le> unat (sd_jbsize s * sd_diptrs s) * unat (sd_inptrs s) ^ (mj - 1)"
    using heights_loop_spec [of "ucast (sd_inptrs s)" "?arr (sd_jheightsize s) (sd_jbsize s * sd_diptrs s)" 2 "unat (sd_jbsize s * sd_diptrs s)" False]
      assms pre m by auto
  have "read_sb_heights s = Some (0, s\<lparr>sd_heightsize := hs, sd_jheightsize := js, sd_max_jheight := of_nat mj\<rparr>)"
    using 1 2(1,3) by (simp add: read_sb_heights_def Let_def)
  then show ?thesis using 2 by blast
qed

definition sb_bsize_at :: "bytes \<Rightarrow> u32" where
  "sb_bsize_at c = get_be32 c (offsetof struct_gfs2_sb ''sb_bsize'')"

lemma pow2_cases:
  assumes "9 \<le> k" "k < (32::nat)"
  shows "k \<in> {9,10,11,12,13,14,15,16,17,18,19,20,21,22,23,24,25,26,27,28,29,30,31}"
  using assms by auto presburger

lemma power9_bound:
  assumes "53 \<le> (i::nat)" "905240 \<le> a * i"
  shows "2 ^ 64 \<le> a * i ^ 9"
proof -
  have "(2::nat) ^ 64 \<le> 905240 * 53 ^ 8" by simp
  also have "\<dots> \<le> (a * i) * i ^ 8" using assms by (intro mult_mono power_mono) auto
  finally show ?thesis by (simp add: mult.assoc flip: power_Suc)
qed

definition ptrs_sz :: "u32 \<Rightarrow> u64 \<Rightarrow> u32" where
  "ptrs_sz bsize n = ucast ((ucast bsize - n) div 8)"

lemma ptrs_after_sz: "ptrs_after bs h = ptrs_sz bs (of_nat (sizeof h))"
  by (simp add: ptrs_after_def ptrs_sz_def)

lemma block_size_sz:
  assumes "bs \<in> {2^9, 2^10, 2^11, 2^12, 2^13, 2^14, 2^15, 2^16, 2^17, 2^18, 2^19, 2^20, 2^21, 2^22, 2^23, 2^24,
     2^25, 2^26, 2^27, 2^28, 2^29, 2^30, (2 :: u32) ^ 31}"
  shows "\<not> bs < 512" "bs AND - bs = bs" "53 \<le> unat (ptrs_sz bs 88)" "53 \<le> unat (ptrs_sz bs 24)"
    "905240 \<le> unat (bs * ptrs_sz bs 232) * unat (ptrs_sz bs 88)"
    "905240 \<le> unat (bs * ptrs_sz bs 232) * unat (ptrs_sz bs 24)"
    "905240 \<le> unat (ucast (ucast bs - 24 :: u64) * ptrs_sz bs 232) * unat (ptrs_sz bs 88)"
    "905240 \<le> unat (ucast (ucast bs - 24 :: u64) * ptrs_sz bs 232) * unat (ptrs_sz bs 24)"
  using assms by (auto simp: ptrs_sz_def)

lemma pow2_word:
  assumes "unat (bs :: u32) = 2 ^ k" "9 \<le> k"
  shows "bs \<in> {2^9, 2^10, 2^11, 2^12, 2^13, 2^14, 2^15, 2^16, 2^17, 2^18, 2^19, 2^20, 2^21, 2^22, 2^23, 2^24,
     2^25, 2^26, 2^27, 2^28, 2^29, 2^30, (2 :: u32) ^ 31}"
proof -
  have "(2::nat) ^ k < 2 ^ 32" using u32_lt [of bs] assms(1) by simp
  then have "k < 32" by (simp only: power_strict_increasing_iff)
  have "bs = of_nat (2 ^ k)" unfolding assms(1) [symmetric] by simp
  then have "bs = 2 ^ k" by simp
  then show ?thesis using pow2_cases [OF assms(2) \<open>k < 32\<close>] by auto
qed

lemma block_size_constants:
  assumes "unat bs = 2 ^ k" "9 \<le> k"
    and "hi \<in> {struct_gfs_indirect, struct_gfs2_meta_header}" "hdr \<in> {struct_gfs_dinode, struct_gfs2_dinode}"
  shows "\<not> bs < 512" "bs AND - bs = bs" "2 \<le> unat (ptrs_after bs hi)"
    "2 ^ 64 \<le> unat (bs * ptrs_after bs hdr) * unat (ptrs_after bs hi) ^ 9"
    "2 ^ 64 \<le> unat (ucast (ucast bs - of_nat (sizeof struct_gfs2_meta_header) :: u64) * ptrs_after bs hdr) * unat (ptrs_after bs hi) ^ 9"
proof -
  note b = block_size_sz [OF pow2_word [OF assms(1,2)]]
  show "\<not> bs < 512" "bs AND - bs = bs" using b by auto
  have hdr: "ptrs_after bs hdr = ptrs_sz bs 232" and hi: "ptrs_after bs hi = ptrs_sz bs 88 \<or> ptrs_after bs hi = ptrs_sz bs 24"
    using assms(3,4) by (auto simp: ptrs_after_sz size_simps)
  have i: "53 \<le> unat (ptrs_after bs hi)" using hi b(3,4) by auto
  then show "2 \<le> unat (ptrs_after bs hi)" by simp
  show "2 ^ 64 \<le> unat (bs * ptrs_after bs hdr) * unat (ptrs_after bs hi) ^ 9"
    by (intro power9_bound i) (use hi hdr b(5,6) in auto)
  show "2 ^ 64 \<le> unat (ucast (ucast bs - of_nat (sizeof struct_gfs2_meta_header) :: u64) * ptrs_after bs hdr) * unat (ptrs_after bs hi) ^ 9"
    by (intro power9_bound i) (use hi hdr b(7,8) in \<open>auto simp: size_simps\<close>)
qed

text \<open>What \<open>read_sb\<close> returns for a superblock that it takes, before the arrays.\<close>

definition read_sb_mid :: "gfs2_sbd \<Rightarrow> bytes \<Rightarrow> int \<Rightarrow> gfs2_sbd" where
  "read_sb_mid sdp c ret =
     (let sdp = lgfs2_sb_in (if ret = 1 then sdp\<lparr>sd_gfs1 := True\<rparr> else sdp) c;
          sdp = sdp\<lparr>sd_fsb2bb_shift := sd_bsize_shift sdp - of_nat GFS2_BASIC_BLOCK_SHIFT\<rparr>
      in block_constants (if sd_gfs1 sdp
         then sdp\<lparr>sd_diptrs := ptrs_after (sd_bsize sdp) struct_gfs_dinode, sd_inptrs := ptrs_after (sd_bsize sdp) struct_gfs_indirect\<rparr>
         else sdp\<lparr>sd_diptrs := ptrs_after (sd_bsize sdp) struct_gfs2_dinode, sd_inptrs := ptrs_after (sd_bsize sdp) struct_gfs2_meta_header\<rparr>))"

lemma read_sb_mid_simps:
  "sd_bsize (read_sb_mid sdp c ret) = sb_bsize_at c"
  "sd_heightsize (read_sb_mid sdp c ret) = sd_heightsize sdp" "sd_jheightsize (read_sb_mid sdp c ret) = sd_jheightsize sdp"
  "sd_jbsize (read_sb_mid sdp c ret) = ucast (ucast (sb_bsize_at c) - of_nat (sizeof struct_gfs2_meta_header) :: u64)"
  "sd_max_height (read_sb_mid sdp c ret) = sd_max_height sdp"
  "sd_diptrs (read_sb_mid sdp c ret) = ptrs_after (sb_bsize_at c) struct_gfs2_dinode"
  "sd_gfs1 (read_sb_mid sdp c ret) \<longleftrightarrow> sd_gfs1 sdp \<or> ret = 1"
  "sd_inptrs (read_sb_mid sdp c ret) = ptrs_after (sb_bsize_at c) (if sd_gfs1 sdp \<or> ret = 1 then struct_gfs_indirect else struct_gfs2_meta_header)"
  by (auto simp: read_sb_mid_def Let_def lgfs2_sb_in_def block_constants_def sb_bsize_at_def ptrs_after_def size_simps)

lemma read_sb_eq:
  assumes "d (drop_bit (unat (sd_fsb2bb_shift sdp)) GFS2_SB_ADDR) = Some c" "check_sb c = Inr ret"
    "unat (sb_bsize_at c) = 2 ^ k" "9 \<le> k"
  shows "read_sb sdp d devlen = (case read_sb_heights (read_sb_mid sdp c ret) of None \<Rightarrow> None
     | Some (e, s) \<Rightarrow> if e \<noteq> 0 then Some (e, s)
          else Some (0, bitmap_constant (s\<lparr>fssize := of_nat (devlen div unat (sd_bsize s))\<rparr>)))"
proof -
  have b: "\<not> sb_bsize_at c < 512" "sb_bsize_at c AND - sb_bsize_at c = sb_bsize_at c"
    using block_size_constants [OF assms(3,4)] by auto
  have "sd_bsize (lgfs2_sb_in s c) = sb_bsize_at c" for s by (simp add: lgfs2_sb_in_def sb_bsize_at_def)
  then show ?thesis
    using assms(1,2) b by (simp add: read_sb_def bread_def read_sb_mid_def Let_def split del: if_split)
qed

lemma read_sb_ok:
  assumes "d (drop_bit (unat (sd_fsb2bb_shift sdp)) GFS2_SB_ADDR) = Some c" "check_sb c = Inr ret"
    "unat (sb_bsize_at c) = 2 ^ k" "9 \<le> k" "length (sd_heightsize sdp) = 10" "length (sd_jheightsize sdp) = 10"
  obtains s js mj where "read_sb sdp d devlen = Some (0, s)" "sd_bsize s = sb_bsize_at c" "sd_max_height s = sd_max_height sdp"
    "sd_jbsize s = ucast (ucast (sb_bsize_at c) - of_nat (sizeof struct_gfs2_meta_header) :: u64)"
    "sd_diptrs s = ptrs_after (sb_bsize_at c) struct_gfs2_dinode"
    "sd_inptrs s = ptrs_after (sb_bsize_at c) (if sd_gfs1 sdp \<or> ret = 1 then struct_gfs_indirect else struct_gfs2_meta_header)"
    "sd_jheightsize s = js" "sd_max_jheight s = of_nat mj" "2 \<le> mj" "mj \<le> 10"
    "js ! 0 = ucast (sd_bsize s) - of_nat (sizeof struct_gfs2_dinode)"
    "\<And>h. 1 \<le> h \<Longrightarrow> h < mj \<Longrightarrow> unat (js ! h) = unat (sd_jbsize s * sd_diptrs s) * unat (sd_inptrs s) ^ (h - 1)"
    "2 ^ 64 \<le> unat (sd_jbsize s * sd_diptrs s) * unat (sd_inptrs s) ^ (mj - 1)"
proof -
  define m where "m = read_sb_mid sdp c ret"
  note ms = read_sb_mid_simps [of sdp c ret, folded m_def]
  have i: "(if sd_gfs1 sdp \<or> ret = 1 then struct_gfs_indirect else struct_gfs2_meta_header) \<in> {struct_gfs_indirect, struct_gfs2_meta_header}" by simp
  have hd: "struct_gfs2_dinode \<in> {struct_gfs_dinode, struct_gfs2_dinode}" by simp
  note b = block_size_constants [OF assms(3,4) i hd]
  have "\<exists>hs js mj. read_sb_heights m = Some (0, m\<lparr>sd_heightsize := hs, sd_jheightsize := js, sd_max_jheight := of_nat mj\<rparr>)
    \<and> 2 \<le> mj \<and> mj \<le> 10 \<and> js ! 0 = ucast (sd_bsize m) - of_nat (sizeof struct_gfs2_dinode)
    \<and> (\<forall>h. 1 \<le> h \<longrightarrow> h < mj \<longrightarrow> unat (js ! h) = unat (sd_jbsize m * sd_diptrs m) * unat (sd_inptrs m) ^ (h - 1))
    \<and> 2 ^ 64 \<le> unat (sd_jbsize m * sd_diptrs m) * unat (sd_inptrs m) ^ (mj - 1)"
    by (intro read_sb_heights_spec) (simp_all only: ms assms(5,6) b)
  then obtain hs js mj where r: "read_sb_heights m = Some (0, m\<lparr>sd_heightsize := hs, sd_jheightsize := js, sd_max_jheight := of_nat mj\<rparr>)"
    "2 \<le> mj" "mj \<le> 10" "js ! 0 = ucast (sd_bsize m) - of_nat (sizeof struct_gfs2_dinode)"
    "\<And>h. 1 \<le> h \<Longrightarrow> h < mj \<Longrightarrow> unat (js ! h) = unat (sd_jbsize m * sd_diptrs m) * unat (sd_inptrs m) ^ (h - 1)"
    "2 ^ 64 \<le> unat (sd_jbsize m * sd_diptrs m) * unat (sd_inptrs m) ^ (mj - 1)" by blast
  define s where "s = bitmap_constant (m\<lparr>sd_heightsize := hs, sd_jheightsize := js, sd_max_jheight := of_nat mj,
     fssize := of_nat (devlen div unat (sd_bsize m))\<rparr>)"
  have "read_sb sdp d devlen = Some (0, s)"
    using read_sb_eq [where d = d and sdp = sdp and devlen = devlen, OF assms(1-4), folded m_def] r(1) by (simp add: s_def)
  then show ?thesis
    by (rule that [of s js mj]) (use r(2-) in \<open>simp_all add: s_def bitmap_constant_def ms(1-6,8)\<close>)
qed

text \<open>
  \<open>read_sb\<close> takes every superblock with a block size of at least 512 bytes that is a power of two:
  the loops that compute the sizes of trees stay within their arrays, although the second is not
  bounded. Up to 128 kB, the height that is then computed for a directory is the least number of
  levels whose blocks can hold it.
\<close>

theorem read_sb_dir_heights:
  assumes "d (drop_bit (unat (sd_fsb2bb_shift sdp)) GFS2_SB_ADDR) = Some c" "check_sb c = Inr ret"
    "unat (sb_bsize_at c) = 2 ^ k" "9 \<le> k" "length (sd_heightsize sdp) = 10" "length (sd_jheightsize sdp) = 10"
  shows "\<exists>s. read_sb sdp d devlen = Some (0, s) \<and> (k \<le> 17 \<longrightarrow> (\<forall>ip sz. S_ISDIR (i_mode ip) \<longrightarrow>
    calc_tree_height s ip sz = (LEAST h. max (unat sz) (unat (i_size ip)) \<le>
      tree_capacity (2 ^ k) (2 ^ k - 24) (unat (sd_diptrs s)) (unat (sd_inptrs s)) h)))"
proof -
  obtain s js mj where r: "read_sb sdp d devlen = Some (0, s)" and bs: "sd_bsize s = sb_bsize_at c" "sd_max_height s = sd_max_height sdp"
    "sd_jbsize s = ucast (ucast (sb_bsize_at c) - of_nat (sizeof struct_gfs2_meta_header) :: u64)"
    "sd_diptrs s = ptrs_after (sb_bsize_at c) struct_gfs2_dinode"
    "sd_inptrs s = ptrs_after (sb_bsize_at c) (if sd_gfs1 sdp \<or> ret = 1 then struct_gfs_indirect else struct_gfs2_meta_header)"
    and js: "sd_jheightsize s = js" "sd_max_jheight s = of_nat mj" "2 \<le> mj" "mj \<le> 10"
    "js ! 0 = ucast (sd_bsize s) - of_nat (sizeof struct_gfs2_dinode)"
    "\<And>h. 1 \<le> h \<Longrightarrow> h < mj \<Longrightarrow> unat (js ! h) = unat (sd_jbsize s * sd_diptrs s) * unat (sd_inptrs s) ^ (h - 1)"
    "2 ^ 64 \<le> unat (sd_jbsize s * sd_diptrs s) * unat (sd_inptrs s) ^ (mj - 1)"
    by (rule read_sb_ok [where d = d and sdp = sdp and devlen = devlen, OF assms]) (rule that, assumption+)
  have "calc_tree_height s ip sz = (LEAST h. max (unat sz) (unat (i_size ip)) \<le>
      tree_capacity (2 ^ k) (2 ^ k - 24) (unat (sd_diptrs s)) (unat (sd_inptrs s)) h)"
    if k: "k \<le> 17" and dir: "S_ISDIR (i_mode ip)" for ip sz
  proof -
  let ?cap = "tree_capacity (2 ^ k) (2 ^ k - 24) (unat (sd_diptrs s)) (unat (sd_inptrs s))"
  let ?sz = "if sz < i_size ip then i_size ip else sz"
  have m: "max (unat sz) (unat (i_size ip)) = unat ?sz" by (simp add: max_def word_less_nat_alt)
  have sz: "unat (sd_bsize s) = 2 ^ k" using bs(1) assms(3) by simp
  have k2: "(512::nat) \<le> 2 ^ k" "(2::nat) ^ k \<le> 2 ^ 17"
    using power_increasing [OF assms(4), of "2::nat"] power_increasing [OF k, of "2::nat"] by simp_all
  have up: "unat (ucast (sd_bsize s) :: u64) = 2 ^ k" using sz by (simp add: unat_ucast_up)
  have sub: "unat (ucast (sd_bsize s) - of_nat n :: u64) = 2 ^ k - n" if "n \<le> 512" for n
    using that k2 up by (simp add: unat_sub word_le_nat_alt unat_of_nat_small)
  have jb: "unat (sd_jbsize s) = 2 ^ k - 24"
    using sub [of 24] k2 bs(1,3) by (simp add: size_simps unat_ucast_mod)
  have di: "unat (sd_diptrs s) = (2 ^ k - 232) div 8"
    using sub [of 232] k2 bs(1,4) by (simp add: ptrs_after_def size_simps unat_ucast_mod unat_div)
  have prod: "unat (sd_jbsize s * sd_diptrs s) = (2 ^ k - 24) * unat (sd_diptrs s)"
  proof -
    have "(2 ^ k - 24) * ((2 ^ k - 232) div 8) \<le> 2 ^ 17 * (2 ^ 14 :: nat)" using k2 by (intro mult_mono) auto
    then show ?thesis using jb di by (simp add: unat_mult_no_wrap)
  qed
  have "unat (js ! h) = ?cap h" if "h < mj" for h
  proof (cases "h = 0")
    case True
    have "unat (js ! 0) = 2 ^ k - 232" using sub [of 232] js(5) by (simp add: size_simps)
    then show ?thesis using True by (simp add: tree_capacity_def)
  qed (use js(6) [of h] that prod in \<open>simp add: tree_capacity_def mult.assoc\<close>)
  then have "h < mj \<Longrightarrow> ?sz \<le> js ! h \<longleftrightarrow> unat ?sz \<le> ?cap h" for h by (simp add: word_le_nat_alt)
  moreover have "unat ?sz \<le> ?cap mj"
  proof -
    have "unat ?sz < 2 ^ 64" using u64_lt [of ?sz] by simp
    then show ?thesis using js(3,7) prod by (simp add: tree_capacity_def)
  qed
  ultimately have "(case find (\<lambda>h. ?sz \<le> js ! h) [0..<mj] of Some h \<Rightarrow> h | None \<Rightarrow> mj) = (LEAST h. unat ?sz \<le> ?cap h)"
    by (rule find_least)
  moreover have "unat (of_nat mj :: u32) = mj" using js(4) by (simp add: unat_of_nat_small)
  ultimately show ?thesis
    unfolding m by (simp only: calc_tree_height_def Let_def dir if_True js(1,2) prod.case)
  qed
  then show ?thesis using r by blast
qed

section \<open>Files after read_sb\<close>

lemma calc_tree_height_0: "sd_max_height s = 0 \<Longrightarrow> \<not> S_ISDIR (i_mode ip) \<Longrightarrow> calc_tree_height s ip sz = 0"
  by (simp add: calc_tree_height_def)

lemma u64_mod_add: "unat (x :: u64) + unat n < 2 ^ 64 \<Longrightarrow> (x + n) mod n = x mod n"
  by (simp add: word_unat_eq_iff unat_mod unat_add_no_wrap)

lemma block_map_alias:
  assumes "sd_max_height (fs_sdp fs) = 0" "\<not> S_ISDIR (i_mode (vi ip))" "i_height (vi ip) = 1"
    "unat lblock + unat (sd_inptrs (fs_sdp fs)) < 2 ^ 64"
  shows "block_map fs ip (lblock + ucast (sd_inptrs (fs_sdp fs))) create want prealloc = block_map fs ip lblock create want prealloc"
proof -
  have "find_metapath (fs_sdp fs) (vi ip) (lblock + ucast (sd_inptrs (fs_sdp fs))) = find_metapath (fs_sdp fs) (vi ip) lblock"
    using u64_mod_add [of lblock "ucast (sd_inptrs (fs_sdp fs))"] assms(3,4)
    by (simp add: find_metapath_def unat_ucast_up)
  then show ?thesis
    using assms(1-3) by (simp add: block_map_def block_map_at_def Let_def calc_tree_height_0)
qed

text \<open>
  \<open>read_sb\<close> never sets \<open>sd_max_height\<close>: in a superblock that is zero before the call, as it is in
  fsck and the mkfs tools, every regular file is given the height 0, whatever its size. A file of height 1
  then does not grow: \<open>block_map\<close> takes the block of the file that is \<open>sd_inptrs\<close> blocks further on for
  the same block of the device, so that a write to one overwrites the other.
\<close>

theorem read_sb_files_alias:
  assumes "d (drop_bit (unat (sd_fsb2bb_shift sdp)) GFS2_SB_ADDR) = Some c" "check_sb c = Inr ret"
    "unat (sb_bsize_at c) = 2 ^ k" "9 \<le> k" "length (sd_heightsize sdp) = 10" "length (sd_jheightsize sdp) = 10"
    "sd_max_height sdp = 0"
  shows "\<exists>s. read_sb sdp d devlen = Some (0, s)
    \<and> (\<forall>ip sz. S_ISDIR (i_mode ip) \<or> calc_tree_height s ip sz = 0)
    \<and> (\<forall>fs ip lblock create want prealloc.
         fs_sdp fs = s \<and> \<not> S_ISDIR (i_mode (vi ip)) \<and> i_height (vi ip) = 1 \<and> unat lblock + unat (sd_inptrs s) < 2 ^ 64 \<longrightarrow>
         block_map fs ip (lblock + ucast (sd_inptrs s)) create want prealloc = block_map fs ip lblock create want prealloc)"
proof -
  obtain s where s: "read_sb sdp d devlen = Some (0, s)" "sd_max_height s = sd_max_height sdp"
    by (rule read_sb_ok [where d = d and sdp = sdp and devlen = devlen, OF assms(1-6)]) (rule that)
  then show ?thesis
    using assms(7) calc_tree_height_0 block_map_alias by (intro exI [of _ s]) auto
qed

section \<open>The superblock written and read\<close>

text \<open>A device of blocks of a file system, seen as one of basic blocks.\<close>

definition basic_blocks :: "nat \<Rightarrow> device \<Rightarrow> device" where
  "basic_blocks bsize d b = map_option (slice (unat b * 512 mod bsize) 512) (d (of_nat (unat b * 512 div bsize)))"

lemma take_memcpy: "take n (memcpy_at off bs buf) = memcpy_at off bs (take n buf)"
  by (rule nth_equalityI) (auto simp: nth_memcpy_at)

lemma take_sb_out: "take n (lgfs2_sb_out sdp buf) = lgfs2_sb_out sdp (take n buf)"
  by (simp add: lgfs2_sb_out_def lgfs2_inum_out_def codec_put_defs take_memcpy)

definition sb_wf :: "gfs2_sbd \<Rightarrow> bool" where
  "sb_wf sdp \<longleftrightarrow> length (sd_lockproto sdp) = 64 \<and> length (sd_locktable sdp) = 64 \<and> length (sd_uuid sdp) = 16 \<and>
     1801 \<le> sd_fs_format sdp \<and> sd_fs_format sdp \<le> 1899"

lemma get_be32_number: "off + 4 \<le> length buf \<Longrightarrow> get_be32 (memcpy_at off (be_bytes 4 n) buf) off = of_nat n"
  by (simp add: get_be32_def slice_memcpy_same be_val_be_bytes word_unat_eq_iff unat_of_nat)

lemma sb_out_fields:
  assumes "sb_wf sdp" "272 \<le> length buf"
  shows "check_sb (lgfs2_sb_out sdp buf) = Inr 2" "sb_bsize_at (lgfs2_sb_out sdp buf) = sd_bsize sdp"
    "lgfs2_sb_in s0 (lgfs2_sb_out sdp buf) = s0\<lparr>sd_fs_format := sd_fs_format sdp, sd_multihost_format := sd_multihost_format sdp,
       sd_flags := sd_flags sdp, sd_bsize := sd_bsize sdp, sd_bsize_shift := sd_bsize_shift sdp, sd_seg_size := sd_seg_size sdp,
       sd_meta_dir := sd_meta_dir sdp, sd_root_dir := sd_root_dir sdp, sd_lockproto := sd_lockproto sdp,
       sd_locktable := sd_locktable sdp, sd_rindex_di := sd_rindex_di sdp, sd_quota_di := sd_quota_di sdp,
       sd_license_di := sd_license_di sdp, sd_uuid := sd_uuid sdp\<rparr>"
  using assms
  by (auto simp: sb_wf_def check_sb_def sb_bsize_at_def lgfs2_sb_in_def lgfs2_sb_out_def lgfs2_inum_in_def
      lgfs2_inum_out_def size_simps codec_simps get_be32_number Let_def word_less_nat_alt word_le_nat_alt)

lemma pwrite_blocks_ok:
  "\<forall>i < length cs. d (b + of_nat i) \<noteq> None \<Longrightarrow> \<exists>d'. pwrite_blocks d b cs = Some d'"
proof (induction cs arbitrary: d b)
  case (Cons c cs)
  have "d b \<noteq> None" using Cons.prems [rule_format, of 0] by simp
  moreover have "(d(b \<mapsto> c)) (b + 1 + of_nat i) \<noteq> None" if "i < length cs" for i
    using Cons.prems [rule_format, of "Suc i"] that by (simp add: add.assoc)
  then have "\<exists>d'. pwrite_blocks (d(b \<mapsto> c)) (b + 1) cs = Some d'" by (intro Cons.IH) simp
  ultimately show ?case by simp
qed simp

text \<open>
  C27. When the blocks from the start of the device to the superblock's can be written,
  \<open>lgfs2_sb_write\<close> returns 0, and what it puts on the device is found again by \<open>read_sb\<close>, which reads
  it in basic blocks before it knows the block size: every member of the superblock on the disk
  comes back, and the shift that takes basic blocks to blocks is the one of its block size. (When
  the first block cannot be written the function returns 0 as well, with nothing written:
  \<open>sb_write_misses_failure\<close>.)
\<close>

theorem sb_write_read:
  assumes "\<forall>i \<le> 65536 div 2 ^ k. d (of_nat i) \<noteq> None" "sb_wf sdp" "unat (sd_bsize sdp) = 2 ^ k" "9 \<le> k" "k \<le> 16"
    "sd_fsb2bb_shift s0 = 0" "length (sd_heightsize s0) = 10" "length (sd_jheightsize s0) = 10"
  shows "\<exists>d' s. lgfs2_sb_write sdp d = Some (0, Some d')
    \<and> read_sb s0 (basic_blocks (2 ^ k) d') devlen = Some (0, s) \<and> (\<forall>buf. lgfs2_sb_out s buf = lgfs2_sb_out sdp buf)
    \<and> sd_fsb2bb_shift s = sd_bsize_shift sdp - 9 \<and> sd_gfs1 s = sd_gfs1 s0"
proof -
  let ?n = "2 ^ k :: nat"
  let ?a = "unat (ucast GFS2_SB_ADDR * GFS2_BASIC_BLOCK div sd_bsize sdp)"
  let ?c = "lgfs2_sb_out sdp (replicate 512 0)"
  have n: "512 \<le> ?n" "?n \<le> 65536"
    using power_increasing [OF assms(4), of "2::nat"] power_increasing [OF assms(5), of "2::nat"] by simp_all
  have dv: "?n dvd 65536" using le_imp_power_dvd [OF assms(5), of "2::nat"] by simp
  have a: "?a = 65536 div ?n" using assms(3) by (simp add: unat_div)
  have "\<forall>i < length (replicate ?a (replicate ?n 0) @ [lgfs2_sb_out sdp (replicate ?n 0)]). d (0 + of_nat i) \<noteq> None"
    using assms(1) unfolding a by (simp add: less_Suc_eq_le)
  then obtain d' where w: "pwrite_blocks d 0 (replicate ?a (replicate ?n 0) @ [lgfs2_sb_out sdp (replicate ?n 0)]) = Some d'"
    using pwrite_blocks_ok by blast
  have "d 0 \<noteq> None" using assms(1) [rule_format, of 0] by simp
  then have wr: "lgfs2_sb_write sdp d = Some (0, Some d')"
    using w assms(3) by (auto simp: lgfs2_sb_write_def Let_def)
  have al: "65536 div ?n \<le> 65536" by simp
  have "d' (of_nat (65536 div ?n)) = Some (lgfs2_sb_out sdp (replicate ?n 0))"
    using pwrite_at [OF w, of ?a] al unfolding a by (simp add: nth_append)
  then have blk: "basic_blocks ?n d' 128 = Some ?c"
    using dv n by (simp add: basic_blocks_def slice_def take_sb_out min_def dvd_imp_mod_0)
  note f = sb_out_fields [OF assms(2), of "replicate 512 0", simplified]
  have rd: "basic_blocks ?n d' (drop_bit (unat (sd_fsb2bb_shift s0)) GFS2_SB_ADDR) = Some ?c" using blk assms(6) by simp
  have bs: "unat (sb_bsize_at ?c) = 2 ^ k" using f(2) assms(3) by simp
  obtain s where s: "read_sb s0 (basic_blocks (2 ^ k) d') devlen = Some (0, s)"
    using read_sb_ok [where d = "basic_blocks (2 ^ k) d'" and sdp = s0 and devlen = devlen, OF rd f(1) bs assms(4,7,8)] by blast
  define m where "m = read_sb_mid s0 ?c 2"
  have "read_sb s0 (basic_blocks (2 ^ k) d') devlen = (case read_sb_heights m of None \<Rightarrow> None
     | Some (e, s) \<Rightarrow> if e \<noteq> 0 then Some (e, s)
          else Some (0, bitmap_constant (s\<lparr>fssize := of_nat (devlen div unat (sd_bsize s))\<rparr>)))"
    unfolding m_def by (rule read_sb_eq [where d = "basic_blocks (2 ^ k) d'" and sdp = s0, OF rd f(1) bs assms(4)])
  then obtain hs js mj where "s = bitmap_constant (m\<lparr>sd_heightsize := hs, sd_jheightsize := js, sd_max_jheight := mj,
      fssize := of_nat (devlen div unat (sd_bsize m))\<rparr>)"
    using s by (auto simp: read_sb_heights_def Let_def split: option.splits prod.splits if_splits)
  moreover have "sd_fs_format m = sd_fs_format sdp" "sd_multihost_format m = sd_multihost_format sdp" "sd_flags m = sd_flags sdp"
    "sd_bsize m = sd_bsize sdp" "sd_bsize_shift m = sd_bsize_shift sdp" "sd_seg_size m = sd_seg_size sdp"
    "sd_meta_dir m = sd_meta_dir sdp" "sd_root_dir m = sd_root_dir sdp" "sd_lockproto m = sd_lockproto sdp"
    "sd_locktable m = sd_locktable sdp" "sd_rindex_di m = sd_rindex_di sdp" "sd_quota_di m = sd_quota_di sdp"
    "sd_license_di m = sd_license_di sdp" "sd_uuid m = sd_uuid sdp" "sd_gfs1 m = sd_gfs1 s0"
    "sd_fsb2bb_shift m = sd_bsize_shift sdp - 9"
    by (simp_all add: m_def read_sb_mid_def f(3) block_constants_def Let_def)
  ultimately have "lgfs2_sb_out s buf = lgfs2_sb_out sdp buf" "sd_fsb2bb_shift s = sd_bsize_shift sdp - 9" "sd_gfs1 s = sd_gfs1 s0" for buf
    by (simp_all add: bitmap_constant_def lgfs2_sb_out_def)
  then show ?thesis using s wr by blast
qed

section \<open>The index read\<close>

text \<open>What the index says of a group, with its bitmaps.\<close>

definition index_entry :: "rgrp_tree \<Rightarrow> rgrp_tree" where
  "index_entry rg = rgrp_zero\<lparr>rt_addr := rt_addr rg, rt_length := rt_length rg, rt_data0 := rt_data0 rg,
     rt_data := rt_data rg, rt_bitbytes := rt_bitbytes rg\<rparr>"

definition indexed :: "u32 \<Rightarrow> rgrp_tree \<Rightarrow> rgrp_tree" where
  "indexed bsize rg = snd (gfs2_compute_bitstructs bsize (index_entry rg))"

text \<open>The file holds the entries of the groups \<open>rgs\<close>; \<open>js\<close> is what is in the members of an entry that are reserved.\<close>

definition index_file :: "fs \<Rightarrow> vinode \<Rightarrow> rgrp_tree list \<Rightarrow> bool" where
  "index_file fs ip rgs \<longleftrightarrow> i_size (vi ip) = of_nat (96 * length rgs) \<and> length rgs < 2 ^ 32 \<and>
     (\<exists>js. (\<forall>i. length (js i) = 96) \<and> (\<forall>t. \<forall>i \<le> length rgs. gfs2_readi (fs\<lparr>fs_rgtree := t\<rparr>) ip (of_nat (96 * i)) 96 =
        Some (if i < length rgs then lgfs2_rindex_out (rgs ! i) (js i) 0 else [], fs\<lparr>fs_rgtree := t\<rparr>, ip)))"

text \<open>Groups in order, each fit for its bitmaps; from the fourth on each is as far from the one before as that is from its own, or there is a group header on the device.\<close>

definition index_sane :: "fs \<Rightarrow> rgrp_tree list \<Rightarrow> bool" where
  "index_sane fs rgs \<longleftrightarrow>
     (\<forall>i < length rgs. gfs2_check_range (fs_sdp fs) (rt_addr (rgs ! i)) = 0 \<and> rgd_seems_ok (fs_sdp fs) (rgs ! i) \<and>
        fst (gfs2_compute_bitstructs (sd_bsize (fs_sdp fs)) (index_entry (rgs ! i))) = 0) \<and>
     (\<forall>i j. i < j \<and> j < length rgs \<longrightarrow> rt_addr (rgs ! i) < rt_addr (rgs ! j)) \<and>
     (\<forall>i. 3 \<le> i \<and> i < length rgs \<longrightarrow>
        rt_addr (rgs ! i) - rt_addr (rgs ! (i - 1)) = rt_addr (rgs ! (i - 1)) - rt_addr (rgs ! (i - 2)) \<or>
        good_on_disk (fs_disk fs) (rgs ! i) = Some True)"

lemma rg_insert_last:
  "\<forall>rg \<in> set_tree t. rt_addr rg < a \<Longrightarrow> fst (rg_insert a t) = rgrp_zero\<lparr>rt_addr := a\<rparr> \<and>
     inorder (snd (rg_insert a t)) = inorder t @ [rgrp_zero\<lparr>rt_addr := a\<rparr>]"
proof (induction t)
  case (Node l cur r)
  then have "rt_addr cur < a" "\<not> a < rt_addr cur" by (auto simp: not_less less_imp_le)
  then show ?case using Node by (auto simp: Let_def split: prod.splits)
qed (simp add: Let_def)

lemma inorder_map_tree: "inorder (map_tree f t) = map f (inorder t)"
  by (induction t) auto

lemma inorder_put_rg:
  "inorder (fs_rgtree (put_rg rg fs)) = map (\<lambda>r. if rt_addr r = rt_addr rg then rg else r) (inorder (fs_rgtree fs))"
  by (simp add: put_rg_def inorder_map_tree)

lemma compute_bitstructs_addr: "rt_addr (snd (gfs2_compute_bitstructs bsize rg)) = rt_addr rg"
  by (simp add: gfs2_compute_bitstructs_def compute_bitmaps_def Let_def)

lemma indexed_addr [simp]: "rt_addr (indexed bsize rg) = rt_addr rg"
  by (simp add: indexed_def compute_bitstructs_addr index_entry_def)

lemma index_fields:
  "length j = 96 \<Longrightarrow> rindex_fields (lgfs2_rindex_out rg j 0) (rgrp_zero\<lparr>rt_addr := rt_addr rg\<rparr>) = index_entry rg"
  "length j = 96 \<Longrightarrow> get_be64 (lgfs2_rindex_out rg j 0) (offsetof struct_gfs2_rindex ''ri_addr'') = rt_addr rg"
  by (simp_all add: rindex_fields_def lgfs2_rindex_out_def index_entry_def size_simps codec_simps)

lemma index_entry_simps [simp]:
  "rt_addr (index_entry rg) = rt_addr rg" "rgd_seems_ok sdp (index_entry rg) = rgd_seems_ok sdp rg"
  "good_on_disk d (index_entry rg) = good_on_disk d rg" "bits (index_entry rg) = []"
  by (simp_all add: index_entry_def rgd_seems_ok_def good_on_disk_def rgrp_zero_def)

definition index_prev :: "u32 \<Rightarrow> rgrp_tree list \<Rightarrow> nat \<Rightarrow> rgrp_tree option" where
  "index_prev bsize rgs n = (if n = 0 then None else Some (indexed bsize (rgs ! (n - 1))))"

definition index_dist :: "rgrp_tree list \<Rightarrow> nat \<Rightarrow> u64" where
  "index_dist rgs n = (if n < 2 then 0 else rt_addr (rgs ! (n - 1)) - rt_addr (rgs ! (n - 2)))"

lemma rindex_sane_ok:
  assumes "index_sane fs rgs" "n < length rgs" "0 < n" "length rgs < 2 ^ 32"
  shows "rindex_sane (fs\<lparr>fs_rgtree := t\<rparr>) (of_nat n) (indexed bsize (rgs ! (n - 1))) (index_entry (rgs ! n)) (index_dist rgs n) True = Some True"
proof -
  have "rt_addr (rgs ! (n - 1)) < rt_addr (rgs ! n)" "rgd_seems_ok (fs_sdp fs) (rgs ! n)"
    using assms(1-3) by (auto simp: index_sane_def)
  moreover have "(2 :: u32) < of_nat n \<longleftrightarrow> 2 < n"
    using assms(2,4) by (simp add: word_less_nat_alt unat_of_nat_small)
  moreover have "2 < n \<Longrightarrow> index_dist rgs n \<noteq> rt_addr (rgs ! n) - rt_addr (rgs ! (n - 1)) \<Longrightarrow> good_on_disk (fs_disk fs) (rgs ! n) = Some True"
    using assms(1,2) unfolding index_sane_def index_dist_def by (auto dest!: conjunct2 spec [of _ n])
  ultimately show ?thesis by (auto simp: rindex_sane_def not_le)
qed

lemma rindex_loop_end:
  "gfs2_readi fs ip (ucast rg * 96) 96 = Some ([], fs', ip') \<Longrightarrow>
   rindex_loop fs ip rg prev prev_length rgcount ok = Some (if rgcount = 0 then -1 else 0, rgcount, ok, fs', ip')"
  by (subst rindex_loop.simps) (simp add: size_simps)

lemma rindex_loop_entry:
  assumes "gfs2_readi fs ip (ucast rg * 96) 96 = Some (lgfs2_rindex_out g j 0, fs, ip)" "length j = 96"
    "gfs2_check_range (fs_sdp fs) (rt_addr g) = 0" "\<forall>r \<in> set_tree (fs_rgtree fs). rt_addr r < rt_addr g"
    "fst (gfs2_compute_bitstructs (sd_bsize (fs_sdp fs)) (index_entry g)) = 0"
    "prev = None \<or> rindex_sane (fs\<lparr>fs_rgtree := t\<rparr>) rg (the prev) (index_entry g) prev_length ok = Some ok"
    "t = snd (rg_insert (rt_addr g) (fs_rgtree fs))"
  shows "rindex_loop fs ip rg prev prev_length rgcount ok =
    rindex_loop (put_rg (indexed (sd_bsize (fs_sdp fs)) g) (fs\<lparr>fs_rgtree := t\<rparr>)) ip (rg + 1)
      (Some (indexed (sd_bsize (fs_sdp fs)) g)) (case prev of None \<Rightarrow> prev_length | Some p \<Rightarrow> rt_addr g - rt_addr p) (rgcount + 1) ok"
proof -
  let ?ri = "lgfs2_rindex_out g j 0"
  have i: "rg_insert (rt_addr g) (fs_rgtree fs) = (rgrp_zero\<lparr>rt_addr := rt_addr g\<rparr>, t)"
    using rg_insert_last [OF assms(4)] assms(7) by (cases "rg_insert (rt_addr g) (fs_rgtree fs)") auto
  have c: "gfs2_compute_bitstructs (sd_bsize (fs_sdp fs)) (index_entry g) = (0, indexed (sd_bsize (fs_sdp fs)) g)"
    using assms(5) by (simp add: indexed_def prod_eq_iff)
  have l: "length ?ri = 96" by (simp add: assms(2))
  then have ne: "?ri \<noteq> []" by (metis list.size(3) zero_neq_numeral)
  show ?thesis
    using assms(6)
    by (subst rindex_loop.simps) (cases prev; simp add: assms(1,2,3) size_simps(1-5) l ne i index_fields [OF assms(2)] c Let_def)
qed

lemma rindex_loop_index:
  assumes f: "index_file fs ip rgs" and s: "index_sane fs rgs"
  defines "bs \<equiv> sd_bsize (fs_sdp fs)"
  shows "n \<le> length rgs \<Longrightarrow> inorder t = map (indexed bs) (take n rgs) \<Longrightarrow>
    \<exists>t'. rindex_loop (fs\<lparr>fs_rgtree := t\<rparr>) ip (of_nat n) (index_prev bs rgs n) (index_dist rgs n) (of_nat n) True
       = Some (if rgs = [] then -1 else 0, of_nat (length rgs), True, fs\<lparr>fs_rgtree := t'\<rparr>, ip)
     \<and> inorder t' = map (indexed bs) rgs"
proof (induction "length rgs - n" arbitrary: n t)
  case 0
  then have n: "n = length rgs" by simp
  have N: "length rgs < 2 ^ 32" using f by (simp add: index_file_def)
  have off: "ucast (of_nat n :: u32) * (96 :: u64) = of_nat (96 * n)"
    using N n by (simp add: word_unat_eq_iff unat_word_ariths unat_ucast_up unat_of_nat_small unat_of_nat mult.commute)
  have rd: "gfs2_readi (fs\<lparr>fs_rgtree := t\<rparr>) ip (ucast (of_nat n :: u32) * 96) 96 = Some ([], fs\<lparr>fs_rgtree := t\<rparr>, ip)"
    using f n unfolding off by (auto simp: index_file_def)
  have "(of_nat (length rgs) :: u64) = 0 \<longleftrightarrow> rgs = []"
    using N by (simp add: word_unat_eq_iff unat_of_nat_small)
  then show ?case using 0(3) n rindex_loop_end [OF rd] by auto
next
  case (Suc m)
  then have n: "n < length rgs" by simp
  let ?g = "rgs ! n" and ?fs = "fs\<lparr>fs_rgtree := t\<rparr>"
  define t1 where "t1 = snd (rg_insert (rt_addr ?g) t)"
  define t2 where "t2 = fs_rgtree (put_rg (indexed bs ?g) (fs\<lparr>fs_rgtree := t1\<rparr>))"
  have N: "length rgs < 2 ^ 32" using f by (simp add: index_file_def)
  have off: "ucast (of_nat n :: u32) * (96 :: u64) = of_nat (96 * n)"
    using N n by (simp add: word_unat_eq_iff unat_word_ariths unat_ucast_up unat_of_nat_small unat_of_nat mult.commute)
  obtain j where rd: "gfs2_readi ?fs ip (ucast (of_nat n :: u32) * 96) 96 = Some (lgfs2_rindex_out ?g j 0, ?fs, ip)" "length j = 96"
    using f n unfolding off index_file_def by fastforce
  have lt: "rt_addr (rgs ! i) < rt_addr ?g" if "i < n" for i using s n that by (auto simp: index_sane_def)
  have keys: "\<forall>r \<in> set_tree t. rt_addr r < rt_addr ?g"
    using Suc.prems(2) lt n by (auto simp flip: set_inorder simp: in_set_conv_nth)
  have i1: "inorder t1 = inorder t @ [rgrp_zero\<lparr>rt_addr := rt_addr ?g\<rparr>]" using rg_insert_last [OF keys] by (simp add: t1_def)
  have "inorder t2 = inorder t @ [indexed bs ?g]"
    using keys by (auto simp: t2_def inorder_put_rg i1 rgrp_zero_def simp flip: set_inorder intro!: map_idI)
  then have t2: "inorder t2 = map (indexed bs) (take (Suc n) rgs)"
    using Suc.prems(2) n by (simp add: take_Suc_conv_app_nth)
  have sane: "index_prev bs rgs n = None \<or>
      rindex_sane (?fs\<lparr>fs_rgtree := t1\<rparr>) (of_nat n) (the (index_prev bs rgs n)) (index_entry ?g) (index_dist rgs n) True = Some True"
    using rindex_sane_ok [OF s n _ N] by (simp add: index_prev_def bs_def)
  have "rindex_loop ?fs ip (of_nat n) (index_prev bs rgs n) (index_dist rgs n) (of_nat n) True =
     rindex_loop (put_rg (indexed bs ?g) (fs\<lparr>fs_rgtree := t1\<rparr>)) ip (of_nat n + 1) (Some (indexed bs ?g))
      (case index_prev bs rgs n of None \<Rightarrow> index_dist rgs n | Some p \<Rightarrow> rt_addr ?g - rt_addr p) (of_nat n + 1) True"
    using rindex_loop_entry [OF rd _ _ _ sane] s n keys by (simp add: index_sane_def bs_def t1_def)
  also have "put_rg (indexed bs ?g) (fs\<lparr>fs_rgtree := t1\<rparr>) = fs\<lparr>fs_rgtree := t2\<rparr>" by (simp add: put_rg_def t2_def)
  also have "(case index_prev bs rgs n of None \<Rightarrow> index_dist rgs n | Some p \<Rightarrow> rt_addr ?g - rt_addr p) = index_dist rgs (Suc n)"
    by (auto simp: index_prev_def index_dist_def)
  also have "Some (indexed bs ?g) = index_prev bs rgs (Suc n)" by (simp add: index_prev_def)
  finally show ?case using Suc.hyps(1) [of "Suc n" t2] Suc.hyps(2) n t2 by (simp add: add.commute)
qed

lemma rindex_read_spec:
  assumes "index_file fs ip rgs" "index_sane fs rgs" "rgs \<noteq> []" "fs_rgtree fs = Leaf"
  shows "\<exists>t. rindex_read fs ip = Some (0, of_nat (length rgs), True, fs\<lparr>fs_rgtree := t\<rparr>, ip)
    \<and> inorder t = map (indexed (sd_bsize (fs_sdp fs))) rgs"
proof -
  have "length rgs < 2 ^ 32" using assms(1) by (simp add: index_file_def)
  then have "unat (of_nat (96 * length rgs) :: u64) = 96 * length rgs" by (intro unat_of_nat_small) simp
  then have "unat (i_size (vi ip)) = 96 * length rgs" using assms(1) by (simp add: index_file_def)
  then have "i_size (vi ip) mod of_nat (sizeof struct_gfs2_rindex) = 0"
    by (simp add: size_simps word_unat_eq_iff unat_mod)
  moreover have "fs\<lparr>fs_rgtree := Leaf\<rparr> = fs" using assms(4) by (cases fs) simp
  ultimately show ?thesis
    using rindex_loop_index [OF assms(1,2), of 0 Leaf] assms(3)
    by (simp add: rindex_read_def index_prev_def index_dist_def)
qed

text \<open>
  C28. \<open>rindex_read\<close> of a sane index finds all its groups: it returns 0, says that the index is
  consistent, counts every entry, and the tree then has, in order of their addresses, exactly the groups
  of the file with their bitmaps laid out.
\<close>

theorem rindex_read_index:
  assumes "index_file fs ip rgs" "index_sane fs rgs" "rgs \<noteq> []" "fs_rgtree fs = Leaf"
  shows "\<exists>t. rindex_read fs ip = Some (0, of_nat (length rgs), True, fs\<lparr>fs_rgtree := t\<rparr>, ip)
    \<and> inorder t = map (indexed (sd_bsize (fs_sdp fs))) rgs"
  using assms by (rule rindex_read_spec)

section \<open>Instances\<close>

definition sb_blank :: gfs2_sbd where
  "sb_blank = sbd_example\<lparr>sd_heightsize := replicate 10 0, sd_jheightsize := replicate 10 0\<rparr>"

definition sb_disk :: device where
  "sb_disk b = (if b = 128 then Some (lgfs2_sb_out sbd_example (replicate 512 0)) else None)"

lemma sb_disk_facts:
  "sb_disk (drop_bit (unat (sd_fsb2bb_shift sb_blank)) GFS2_SB_ADDR) = Some (lgfs2_sb_out sbd_example (replicate 512 0))"
  "check_sb (lgfs2_sb_out sbd_example (replicate 512 0)) = Inr 2"
  "unat (sb_bsize_at (lgfs2_sb_out sbd_example (replicate 512 0))) = 2 ^ 9"
  "length (sd_heightsize sb_blank) = 10" "length (sd_jheightsize sb_blank) = 10" "sd_max_height sb_blank = 0"
  using sb_out_fields(1,2) [of sbd_example "replicate 512 0"]
  by (simp_all add: sb_disk_def sb_blank_def sb_wf_def sbd_example_def)

theorem read_sb_dir_heights_witness:
  "\<exists>s. read_sb sb_blank sb_disk 1000000 = Some (0, s) \<and> (\<forall>ip sz. S_ISDIR (i_mode ip) \<longrightarrow>
    calc_tree_height s ip sz = (LEAST h. max (unat sz) (unat (i_size ip)) \<le>
      tree_capacity 512 488 (unat (sd_diptrs s)) (unat (sd_inptrs s)) h))"
  using read_sb_dir_heights [where d = sb_disk and sdp = sb_blank and k = 9, OF sb_disk_facts(1-3) _ sb_disk_facts(4,5), of 1000000] by simp

theorem read_sb_files_alias_witness:
  "\<exists>s. read_sb sb_blank sb_disk 1000000 = Some (0, s) \<and> (\<forall>ip sz. S_ISDIR (i_mode ip) \<or> calc_tree_height s ip sz = 0)"
  using read_sb_files_alias [where d = sb_disk and sdp = sb_blank and k = 9, OF sb_disk_facts(1-3) _ sb_disk_facts(4-6), of 1000000] by auto

theorem sb_write_read_witness:
  "\<exists>d' s. lgfs2_sb_write sbd_example (\<lambda>_. Some []) = Some (0, Some d') \<and> read_sb sb_blank (basic_blocks 512 d') 0 = Some (0, s)
    \<and> sd_fsb2bb_shift s = 0"
proof -
  have "unat (sd_bsize sbd_example) = 2 ^ 9" "sb_wf sbd_example" "sd_fsb2bb_shift sb_blank = 0"
    by (simp_all add: sbd_example_def sb_wf_def sb_blank_def)
  then show ?thesis
    using sb_write_read [of 9 "\<lambda>_. Some []" sbd_example sb_blank 0] sb_disk_facts(4,5) by (auto simp: sbd_example_def)
qed

text \<open>A superblock that is not written: when the first block of the device cannot be written,
  \<open>lgfs2_sb_write\<close> returns 0, its result for success, and the device is as before.\<close>

theorem sb_write_misses_failure:
  assumes "sd_bsize sdp \<noteq> 0" "d 0 = None"
  shows "lgfs2_sb_write sdp d = Some (0, Some d)"
  using assms by (simp add: lgfs2_sb_write_def Let_def unat_eq_zero)

theorem sb_write_misses_failure_witness: "lgfs2_sb_write sbd_example (\<lambda>_. None) = Some (0, Some (\<lambda>_. None))"
  using sb_write_misses_failure [of sbd_example "\<lambda>_. None"] by (simp add: sbd_example_def)

text \<open>A stuffed index.\<close>

fun index_bytes :: "(nat \<Rightarrow> bytes) \<Rightarrow> rgrp_tree list \<Rightarrow> bytes" where
  "index_bytes js [] = []"
| "index_bytes js (rg # rgs) = lgfs2_rindex_out rg (js 0) 0 @ index_bytes (\<lambda>i. js (Suc i)) rgs"

lemma index_bytes_slice:
  "i < length rgs \<Longrightarrow> \<forall>i. length (js i) = 96 \<Longrightarrow> slice (96 * i) 96 (index_bytes js rgs) = lgfs2_rindex_out (rgs ! i) (js i) 0"
proof (induction rgs arbitrary: i js)
  case (Cons rg rgs)
  then show ?case by (cases i) (auto simp: slice_def)
qed simp

lemma length_index_bytes: "\<forall>i. length (js i) = 96 \<Longrightarrow> length (index_bytes js rgs) = 96 * length rgs"
  by (induction rgs arbitrary: js) simp_all

lemma stuffed_index_file:
  assumes "stuffed fs ip" "stuffed_data ip = index_bytes js rgs" "\<forall>i. length (js i) = 96"
  shows "index_file fs ip rgs"
proof -
  have b: "unat (i_size (vi ip)) + 232 \<le> unat (sd_bsize (fs_sdp fs))" and l: "length (b_data (vbh ip)) = unat (sd_bsize (fs_sdp fs))"
    using assms(1) by (auto simp: stuffed_def)
  have "length (stuffed_data ip) = unat (i_size (vi ip))" using b l by (simp add: stuffed_data_def)
  then have z: "unat (i_size (vi ip)) = 96 * length rgs" by (simp add: assms(2) length_index_bytes [OF assms(3)])
  have N: "96 * length rgs < 2 ^ 32" using b z u32_lt [of "sd_bsize (fs_sdp fs)"] by simp
  have iz: "i_size (vi ip) = of_nat (96 * length rgs)" by (metis z word_unat_eq_iff unat_of_nat_small of_nat_unat_ucast ucast_id)
  have "gfs2_readi (fs\<lparr>fs_rgtree := t\<rparr>) ip (of_nat (96 * i)) 96 =
      Some (if i < length rgs then lgfs2_rindex_out (rgs ! i) (js i) 0 else [], fs\<lparr>fs_rgtree := t\<rparr>, ip)"
    if i: "i \<le> length rgs" for t i
  proof (cases "i < length rgs")
    case True
    have s: "stuffed (fs\<lparr>fs_rgtree := t\<rparr>) ip" 
    proof -
      have e: "fs_sdp (fs\<lparr>fs_rgtree := t\<rparr>) = fs_sdp fs" by simp
      show ?thesis unfolding stuffed_def e by (rule assms(1) [unfolded stuffed_def])
    qed
    have u: "unat (of_nat (96 * i) :: u64) = 96 * i" using True N by (intro unat_of_nat_small) simp
    show ?thesis
      using readi_stuffed [OF s, of 96 "of_nat (96 * i)"] True u z index_bytes_slice [OF True assms(3)] by (simp add: assms(2))
  next
    case False
    then have "i_size (vi ip) \<le> of_nat (96 * i)" using i iz by simp
    then show ?thesis using False by (simp add: gfs2_readi_def Let_def)
  qed
  then show ?thesis using iz N assms(3) unfolding index_file_def by auto
qed

definition index_example :: "rgrp_tree list" where
  "index_example = [rgrp_example, rgrp_example\<lparr>rt_addr := 217, rt_data0 := 218\<rparr>]"

theorem rindex_read_index_witness:
  "\<exists>t. rindex_read fs_stuffed (file_of (index_bytes (\<lambda>_. replicate 96 0) index_example)) =
      Some (0, 2, True, fs_stuffed\<lparr>fs_rgtree := t\<rparr>, file_of (index_bytes (\<lambda>_. replicate 96 0) index_example))
    \<and> map rt_addr (inorder t) = [200, 217]"
proof -
  have l: "length (index_bytes (\<lambda>_. replicate 96 0) index_example) \<le> 280" by (simp add: length_index_bytes index_example_def)
  have f: "index_file fs_stuffed (file_of (index_bytes (\<lambda>_. replicate 96 0) index_example)) index_example"
    by (intro stuffed_index_file [where js = "\<lambda>_. replicate 96 0"]) (simp_all add: file_of_stuffed l)
  have g: "gfs2_check_range (fs_sdp fs_stuffed) (rt_addr rg) = 0 \<and> rgd_seems_ok (fs_sdp fs_stuffed) rg \<and>
      fst (gfs2_compute_bitstructs (sd_bsize (fs_sdp fs_stuffed)) (index_entry rg)) = 0" if "rg \<in> set index_example" for rg
    using that by (auto simp: index_example_def rgrp_example_def rgrp_zero_def fs_stuffed_def sbd_example_def
        gfs2_check_range_def LGFS2_SB_ADDR_def rgd_seems_ok_def index_entry_def gfs2_compute_bitstructs_def
        compute_bitmaps_def gfs2_bitmap_zero_def size_simps Let_def)
  have two: "length index_example = 2" "rt_addr (index_example ! 0) < rt_addr (index_example ! 1)"
    by (simp_all add: index_example_def rgrp_example_def)
  have "index_sane fs_stuffed index_example"
    unfolding index_sane_def
  proof (intro conjI allI impI)
    fix i assume "i < length index_example"
    then have "index_example ! i \<in> set index_example" by simp
    then show "gfs2_check_range (fs_sdp fs_stuffed) (rt_addr (index_example ! i)) = 0" "rgd_seems_ok (fs_sdp fs_stuffed) (index_example ! i)"
      "fst (gfs2_compute_bitstructs (sd_bsize (fs_sdp fs_stuffed)) (index_entry (index_example ! i))) = 0" using g by blast+
  next
    fix i j assume "i < j \<and> j < length index_example"
    then have "i = 0" "j = 1" using two(1) by auto
    then show "rt_addr (index_example ! i) < rt_addr (index_example ! j)" using two(2) by simp
  qed (use two(1) in auto)
  from rindex_read_index [OF f this] show ?thesis
    by (auto simp: index_example_def fs_stuffed_def rgrp_example_def)
qed

end
