(* ===== verification/Build.thy ===== *)
theory Build
  imports Super FsDir FsLog
begin

text \<open>
  The system files of a new file system (structures.c): the master directory and the root, the journals
  and their index, the files of each node, the index of resource groups, quotas and counts.

  The operations pass the file system, \<open>next_inum\<close> of the superblock's \<open>md\<close> and the directory they add to.
  \<open>now\<close> is \<open>sd_time\<close>, \<open>en\<close> the value of \<open>errno\<close> that a failed \<open>createi\<close> leaves, and \<open>seqs\<close> gives the random
  sequence number each journal starts with. The printing for debugging is output only. None is the result
  where the code ends the program or uses a buffer that it has freed.
\<close>

abbreviation (input) S_IFDIR :: u32 where "S_IFDIR \<equiv> 0x4000"
abbreviation (input) S_IFREG :: u32 where "S_IFREG \<equiv> 0x8000"
abbreviation (input) DIF_SYSTEM :: u32 where "DIF_SYSTEM \<equiv> 0x00000200"
abbreviation (input) FORMAT_RI :: u32 where "FORMAT_RI \<equiv> 1100"
abbreviation (input) FORMAT_QU :: u32 where "FORMAT_QU \<equiv> 1500"

section \<open>Names\<close>

definition str :: "string \<Rightarrow> bytes" where
  "str s = map (\<lambda>c. of_nat (of_char c)) s"

text \<open>\<open>%u\<close>.\<close>

fun decimal :: "nat \<Rightarrow> bytes" where
  "decimal n = (if n < 10 then [] else decimal (n div 10)) @ [48 + of_nat (n mod 10)]"

definition numbered :: "string \<Rightarrow> u32 \<Rightarrow> bytes" where
  "numbered s j = str s @ decimal (unat j)"

section \<open>Directories\<close>

text \<open>\<open>build_master\<close> and \<open>build_root\<close>: a directory that is its own parent.\<close>

definition build_dir :: "u64 \<Rightarrow> u32 \<Rightarrow> fs \<Rightarrow> u64 \<Rightarrow> (int \<times> vinode option \<times> fs \<times> u64) option" where
  "build_dir now flags fs next_inum = do {
     (err, bn, fs) \<leftarrow> lgfs2_dinode_alloc fs 1 0;
     if err \<noteq> 0 then Some (-1, None, fs, next_inum)
     else
       let inum = \<lparr>in_formal_ino = next_inum, in_addr = bn\<rparr>;
           bh = init_dinode now (fs_sdp fs) None inum (S_IFDIR OR 0x1ED) flags inum
       in Some (0, Some ((lgfs2_inode_get bh)\<lparr>vown := True\<rparr>), fs, next_inum + 1)
   }"

definition build_master where "build_master now = build_dir now DIF_SYSTEM"
definition build_root where "build_root now = build_dir now 0"

section \<open>Journals\<close>

definition build_journal ::
  "u64 \<Rightarrow> int \<Rightarrow> (u32 \<Rightarrow> u64) \<Rightarrow> u32 \<Rightarrow> u32 \<Rightarrow> fs \<Rightarrow> u64 \<Rightarrow> vinode \<Rightarrow> (int \<times> vinode option \<times> fs \<times> u64 \<times> vinode) option" where
  "build_journal now en seqs jsize j fs next_inum jindex = do {
     (jnl, fs, next_inum, jindex) \<leftarrow> createi now fs next_inum jindex (numbered ''journal'' j) (S_IFREG OR 0x180) DIF_SYSTEM;
     case jnl of None \<Rightarrow> Some (en, None, fs, next_inum, jindex)
     | Some jnl \<Rightarrow> do {
         let sdp = fs_sdp fs;
         (ret, fs, jnl) \<leftarrow> write_journal (seqs j) fs jnl (sd_bsize sdp) (drop_bit (unat (sd_bsize_shift sdp)) (push_bit 20 jsize));
         Some (ret, Some jnl, fs, next_inum, jindex)
       }
   }"

primrec jindex_journals ::
  "u64 \<Rightarrow> int \<Rightarrow> (u32 \<Rightarrow> u64) \<Rightarrow> u32 \<Rightarrow> u32 list \<Rightarrow> fs \<Rightarrow> u64 \<Rightarrow> vinode \<Rightarrow> (int \<times> fs \<times> u64 \<times> vinode) option" where
  "jindex_journals now en seqs jsize [] fs next_inum jindex = Some (0, fs, next_inum, jindex)"
| "jindex_journals now en seqs jsize (j # js) fs next_inum jindex = do {
     (ret, jnl, fs, next_inum, jindex) \<leftarrow> build_journal now en seqs jsize j fs next_inum jindex;
     if ret \<noteq> 0 then Some (ret, fs, next_inum, jindex)
     else do {
       jnl \<leftarrow> jnl;
       jindex_journals now en seqs jsize js (inode_put fs jnl) next_inum jindex
     }
   }"

text \<open>The numbers below a count.\<close>

definition upto_u32 :: "u32 \<Rightarrow> u32 list" where
  "upto_u32 n = map of_nat [0..<unat n]"

definition build_jindex ::
  "u64 \<Rightarrow> int \<Rightarrow> (u32 \<Rightarrow> u64) \<Rightarrow> u32 \<Rightarrow> u32 \<Rightarrow> fs \<Rightarrow> u64 \<Rightarrow> vinode \<Rightarrow> (int \<times> fs \<times> u64 \<times> vinode) option" where
  "build_jindex now en seqs jsize journals fs next_inum master = do {
     (jindex, fs, next_inum, master) \<leftarrow> createi now fs next_inum master (str ''jindex'') (S_IFDIR OR 0x1C0) DIF_SYSTEM;
     case jindex of None \<Rightarrow> Some (en, fs, next_inum, master)
     | Some jindex \<Rightarrow> do {
         (ret, fs, next_inum, jindex) \<leftarrow> jindex_journals now en seqs jsize (upto_u32 journals) fs next_inum jindex;
         if ret \<noteq> 0 then Some (ret, fs, next_inum, master)
         else Some (0, inode_put fs jindex, next_inum, master)
       }
   }"

text \<open>An empty list of journals stands for both of the arguments that are refused.\<close>

primrec jindex_entries :: "u64 \<Rightarrow> (u32 \<times> lgfs2_inum) list \<Rightarrow> fs \<Rightarrow> vinode \<Rightarrow> (int \<times> fs) option" where
  "jindex_entries now [] fs jindex = Some (0, inode_put fs jindex)"
| "jindex_entries now (jn # jns) fs jindex = do {
     (ret, fs, jindex) \<leftarrow> dir_add now fs jindex (numbered ''journal'' (fst jn)) (snd jn) (ucast (IF2DT (S_IFREG OR 0x180)));
     if ret \<noteq> 0 then Some (1, inode_put fs jindex) else jindex_entries now jns fs jindex
   }"

definition lgfs2_build_jindex :: "u64 \<Rightarrow> lgfs2_inum list \<Rightarrow> fs \<Rightarrow> u64 \<Rightarrow> vinode \<Rightarrow> (int \<times> fs \<times> u64 \<times> vinode) option" where
  "lgfs2_build_jindex now jnls fs next_inum master =
     (if jnls = [] then Some (1, fs, next_inum, master)
      else do {
        (jindex, fs, next_inum, master) \<leftarrow> createi now fs next_inum master (str ''jindex'') (S_IFDIR OR 0x1C0) DIF_SYSTEM;
        case jindex of None \<Rightarrow> Some (1, fs, next_inum, master)
        | Some jindex \<Rightarrow> do {
            (ret, fs) \<leftarrow> jindex_entries now (zip (upto_u32 (of_nat (length jnls))) jnls) fs jindex;
            Some (ret, fs, next_inum, master)
          }
      })"

section \<open>The files of a node\<close>

text \<open>\<open>build_inum_range\<close> and \<open>build_statfs_change\<close>: a file of zeros in its inode's block.\<close>

definition build_range :: "u64 \<Rightarrow> int \<Rightarrow> bytes \<Rightarrow> nat \<Rightarrow> fs \<Rightarrow> u64 \<Rightarrow> vinode \<Rightarrow> (int \<times> fs \<times> u64 \<times> vinode) option" where
  "build_range now en name sz fs next_inum per_node = do {
     (ip, fs, next_inum, per_node) \<leftarrow> createi now fs next_inum per_node name (S_IFREG OR 0x180) (DIF_SYSTEM OR GFS2_DIF_JDATA);
     case ip of None \<Rightarrow> Some (en, fs, next_inum, per_node)
     | Some ip \<Rightarrow>
         let ip = set_vi (i_size_update (\<lambda>_. of_nat sz)) ip;
             ip = ip\<lparr>vbh := bmodified (set_buf (lgfs2_dinode_out (vi ip)) (vbh ip))\<rparr>
         in Some (0, inode_put fs ip, next_inum, per_node)
   }"

definition build_inum_range where
  "build_inum_range now en j = build_range now en (numbered ''inum_range'' j) (sizeof struct_gfs2_inum_range)"
definition build_statfs_change where
  "build_statfs_change now en j = build_range now en (numbered ''statfs_change'' j) (sizeof struct_gfs2_statfs_change)"

primrec quota_blocks :: "nat list \<Rightarrow> fs \<Rightarrow> vinode \<Rightarrow> (int \<times> fs \<times> vinode) option" where
  "quota_blocks [] fs ip = Some (0, fs, ip)"
| "quota_blocks (x # xs) fs ip = do {
     (fs, ip, bh) \<leftarrow> get_file_buf fs ip (of_nat x) False;
     case bh of None \<Rightarrow> Some (-1, fs, ip)
     | Some Own \<Rightarrow> None
     | Some (Other bh) \<Rightarrow>
         let mh = set_meta_header GFS2_METATYPE_QC GFS2_FORMAT_QC (replicate (sizeof struct_gfs2_meta_header) 0);
             buf = memcpy_at 0 mh (memcpy_at 0 (replicate (unat (sd_bsize (fs_sdp fs))) 0) (b_data bh))
         in quota_blocks xs (fs_brelse (bmodified (bh\<lparr>b_data := buf\<rparr>)) fs) ip
   }"

definition build_quota_change ::
  "u64 \<Rightarrow> int \<Rightarrow> u32 \<Rightarrow> u32 \<Rightarrow> fs \<Rightarrow> u64 \<Rightarrow> vinode \<Rightarrow> (int \<times> fs \<times> u64 \<times> vinode) option" where
  "build_quota_change now en qcsize j fs next_inum per_node = do {
     let sdp = fs_sdp fs;
     let blocks = push_bit (unat (20 - sd_bsize_shift sdp)) qcsize;
     (ip, fs, next_inum, per_node) \<leftarrow> createi now fs next_inum per_node (numbered ''quota_change'' j) (S_IFREG OR 0x180) DIF_SYSTEM;
     case ip of None \<Rightarrow> Some (en, fs, next_inum, per_node)
     | Some ip \<Rightarrow> do {
         let hgt = calc_tree_height sdp (vi ip) (ucast ((blocks + 1) * sd_bsize sdp));
         (fs, ip) \<leftarrow> build_height fs ip hgt;
         (ret, fs, ip) \<leftarrow> quota_blocks [0..<unat blocks] fs ip;
         if ret \<noteq> 0 then Some (ret, fs, next_inum, per_node)
         else Some (0, inode_put fs ip, next_inum, per_node)
       }
   }"

primrec per_node_files ::
  "u64 \<Rightarrow> int \<Rightarrow> u32 \<Rightarrow> u32 list \<Rightarrow> fs \<Rightarrow> u64 \<Rightarrow> vinode \<Rightarrow> (int \<times> fs \<times> u64 \<times> vinode) option" where
  "per_node_files now en qcsize [] fs next_inum per_node = Some (0, fs, next_inum, per_node)"
| "per_node_files now en qcsize (j # js) fs next_inum per_node = do {
     (err, fs, next_inum, per_node) \<leftarrow> build_inum_range now en j fs next_inum per_node;
     if err \<noteq> 0 then Some (err, fs, next_inum, per_node)
     else do {
       (err, fs, next_inum, per_node) \<leftarrow> build_statfs_change now en j fs next_inum per_node;
       if err \<noteq> 0 then Some (err, fs, next_inum, per_node)
       else do {
         (err, fs, next_inum, per_node) \<leftarrow> build_quota_change now en qcsize j fs next_inum per_node;
         if err \<noteq> 0 then Some (err, fs, next_inum, per_node)
         else per_node_files now en qcsize js fs next_inum per_node
       }
     }
   }"

definition build_per_node ::
  "u64 \<Rightarrow> int \<Rightarrow> u32 \<Rightarrow> u32 \<Rightarrow> fs \<Rightarrow> u64 \<Rightarrow> vinode \<Rightarrow> (int \<times> fs \<times> u64 \<times> vinode) option" where
  "build_per_node now en qcsize journals fs next_inum master = do {
     (per_node, fs, next_inum, master) \<leftarrow> createi now fs next_inum master (str ''per_node'') (S_IFDIR OR 0x1C0) DIF_SYSTEM;
     case per_node of None \<Rightarrow> Some (en, fs, next_inum, master)
     | Some per_node \<Rightarrow> do {
         (err, fs, next_inum, per_node) \<leftarrow> per_node_files now en qcsize (upto_u32 journals) fs next_inum per_node;
         if err \<noteq> 0 then Some (err, fs, next_inum, master)
         else Some (0, inode_put fs per_node, next_inum, master)
       }
   }"

section \<open>Files of the master directory\<close>

text \<open>A new file of the master directory, and what is done to it before it is put.\<close>

definition build_file ::
  "u64 \<Rightarrow> int \<Rightarrow> bytes \<Rightarrow> (fs \<Rightarrow> vinode \<Rightarrow> (int \<times> fs \<times> vinode) option) \<Rightarrow> fs \<Rightarrow> u64 \<Rightarrow> vinode \<Rightarrow> (int \<times> fs \<times> u64 \<times> vinode) option" where
  "build_file now en name fill fs next_inum master = do {
     (ip, fs, next_inum, master) \<leftarrow> createi now fs next_inum master name (S_IFREG OR 0x180) (DIF_SYSTEM OR GFS2_DIF_JDATA);
     case ip of None \<Rightarrow> Some (en, fs, next_inum, master)
     | Some ip \<Rightarrow> do {
         (ret, fs, ip) \<leftarrow> fill fs ip;
         if ret \<noteq> 0 then Some (ret, fs, next_inum, master)
         else Some (0, inode_put fs ip, next_inum, master)
       }
   }"

definition build_inum where "build_inum now en = build_file now en (str ''inum'') (\<lambda>fs ip. Some (0, fs, ip))"
definition build_statfs where "build_statfs now en = build_file now en (str ''statfs'') (\<lambda>fs ip. Some (0, fs, ip))"

text \<open>
  \<open>junk\<close> is the content of the buffer on the stack when \<open>build_rindex\<close> starts: the members of an entry
  that are reserved are not set. \<open>gfs2_writei\<close> always writes all its bytes.
\<close>

primrec rindex_entries :: "bytes \<Rightarrow> rgrp_tree list \<Rightarrow> fs \<Rightarrow> vinode \<Rightarrow> (int \<times> fs \<times> vinode) option" where
  "rindex_entries buf [] fs ip = Some (0, fs, ip)"
| "rindex_entries buf (rl # rls) fs ip = do {
     let buf = lgfs2_rindex_out rl buf 0;
     (count, fs, ip) \<leftarrow> gfs2_writei_resize fs ip buf (i_size (vi ip)) True;
     if count \<noteq> sizeof struct_gfs2_rindex then Some (-1, fs, ip) else rindex_entries buf rls fs ip
   }"

definition rindex_fill :: "bytes \<Rightarrow> fs \<Rightarrow> vinode \<Rightarrow> (int \<times> fs \<times> vinode) option" where
  "rindex_fill junk fs ip = do {
     let ip = dirty (set_vi (i_payload_format_update (\<lambda>_. FORMAT_RI)) ip);
     (ret, fs, ip) \<leftarrow> rindex_entries junk (inorder (fs_rgtree fs)) fs ip;
     if ret \<noteq> 0 then Some (ret, fs, ip)
     else do {
       (count, fs, ip) \<leftarrow> gfs2_writei_resize fs ip (replicate (sizeof struct_gfs2_rindex) 0) (i_size (vi ip)) False;
       Some (if count \<noteq> sizeof struct_gfs2_rindex then -1 else 0, fs, ip)
     }
   }"

definition build_rindex where "build_rindex now en junk = build_file now en (str ''rindex'') (rindex_fill junk)"

definition quota_fill :: "fs \<Rightarrow> vinode \<Rightarrow> (int \<times> fs \<times> vinode) option" where
  "quota_fill fs ip = do {
     let ip = dirty (set_vi (i_payload_format_update (\<lambda>_. FORMAT_QU)) ip);
     let qu = put_be64 (offsetof struct_gfs2_quota ''qu_value'') 1 (replicate (sizeof struct_gfs2_quota) 0);
     (count, fs, ip) \<leftarrow> gfs2_writei_resize fs ip qu (i_size (vi ip)) True;
     if count \<noteq> sizeof struct_gfs2_quota then Some (-1, fs, ip)
     else do {
       (count, fs, ip) \<leftarrow> gfs2_writei_resize fs ip qu (i_size (vi ip)) True;
       Some (if count \<noteq> sizeof struct_gfs2_quota then -1 else 0, fs, ip)
     }
   }"

definition build_quota where "build_quota now en = build_file now en (str ''quota'') quota_fill"

definition do_init_inum :: "fs \<Rightarrow> u64 \<Rightarrow> vinode \<Rightarrow> (int \<times> fs \<times> vinode) option" where
  "do_init_inum fs next_inum ip = do {
     (count, fs, ip) \<leftarrow> gfs2_writei_resize fs ip (be_bytes 8 (unat next_inum)) 0 True;
     Some (if count \<noteq> 8 then -1 else 0, fs, ip)
   }"

definition do_init_statfs :: "fs \<Rightarrow> u64 \<Rightarrow> vinode \<Rightarrow> (int \<times> fs \<times> vinode) option" where
  "do_init_statfs fs blks_total ip = do {
     let sdp = fs_sdp fs;
     let sc = be_bytes 8 (unat blks_total) @ be_bytes 8 (unat (blks_total - blks_alloced sdp)) @ be_bytes 8 (unat (dinodes_alloced sdp));
     (count, fs, ip) \<leftarrow> gfs2_writei_resize fs ip sc 0 True;
     Some (if count \<noteq> sizeof struct_gfs2_statfs_change then -1 else 0, fs, ip)
   }"

section \<open>lgfs2_bm_scan\<close>

text \<open>
  The blocks in a state, as numbers in the list \<open>buf\<close>. The sums of 32 bit values are in 32 bits. The search
  never goes back, so its position grows until the loop ends.
\<close>

function bm_scan_loop :: "rgrp_tree \<Rightarrow> gfs2_bitmap \<Rightarrow> nat \<Rightarrow> nat \<Rightarrow> u64 list" where
  "bm_scan_loop rgd bi state blk =
     (if \<not> blk < unat (bi_len bi * GFS2_NBBY) then []
      else
        let b = gfs2_bitfit (drop (unat (bi_offset bi)) (buf_of (bi_data bi))) (unat (bi_len bi)) blk state in
        if b = BFITNOENT \<or> b < blk then []
        else (ucast (of_nat b + bi_start bi * GFS2_NBBY) + rt_data0 rgd) # bm_scan_loop rgd bi state (b + 1))"
  by pat_completeness auto
termination by (relation "measure (\<lambda>(_, bi, _, blk). unat (bi_len bi * GFS2_NBBY) - blk)") auto

declare bm_scan_loop.simps [simp del]

definition lgfs2_bm_scan :: "rgrp_tree \<Rightarrow> nat \<Rightarrow> nat \<Rightarrow> u64 list" where
  "lgfs2_bm_scan rgd idx state = bm_scan_loop rgd (bits rgd ! idx) state 0"

section \<open>What a scan finds\<close>

lemma filter_upt_find:
  "filter P [a..<b] = (case find P [a..<b] of None \<Rightarrow> [] | Some i \<Rightarrow> i # filter P [Suc i..<b])"
proof (induction "b - a" arbitrary: a)
  case (Suc n)
  then have "[a..<b] = a # [Suc a..<b]" by (simp add: upt_conv_Cons)
  then show ?case using Suc by simp
qed simp

lemma bm_scan_loop_filter:
  assumes g: "geom b rg" and l: "loaded b rg" and x: "x < unat (rt_length rg)" and s: "state < 4"
  shows "bm_scan_loop rg (bits rg ! x) state blk =
    map (\<lambda>k. rt_data0 rg + of_nat (4 * bm_start (unat b) x + k))
      (filter (\<lambda>k. rg_state b rg (4 * bm_start (unat b) x + k) = state) [blk..<4 * (bm_end (unat b) rg x - bm_start (unat b) x)])"
proof (induction "4 * (bm_end (unat b) rg x - bm_start (unat b) x) - blk" arbitrary: blk rule: less_induct)
  case less
  let ?s = "bm_start (unat b) x" and ?e = "bm_end (unat b) rg x"
  let ?P = "\<lambda>k. rg_state b rg (4 * ?s + k) = state" and ?n = "4 * (bm_end (unat b) rg x - bm_start (unat b) x)"
  have se: "?s < ?e" "?e \<le> unat (rt_bitbytes rg)" using bm_end_bounds [OF g x] by auto
  have big: "4 * ?e < 2 ^ 32" using se geomD(6,8) [OF g] by simp
  have len: "unat (bi_len (bits rg ! x)) = ?e - ?s" using geomD(11) [OF g x] by (simp add: bm_end_def)
  have n: "unat (bi_len (bits rg ! x) * GFS2_NBBY) = ?n"
    using len big by (subst unat_mult_no_wrap) simp_all
  show ?case
  proof (cases "blk < ?n")
    case False
    then show ?thesis using n by (subst bm_scan_loop.simps) simp
  next
    case True
    have fit: "gfs2_bitfit (drop (unat (bi_offset (bits rg ! x))) (buf_of (bi_data (bits rg ! x)))) (unat (bi_len (bits rg ! x))) blk state
        = (case find ?P [blk..<?n] of None \<Rightarrow> BFITNOENT | Some k \<Rightarrow> k)" and small: "?n < 0xFFFFFFFF"
      using bitfit_at [OF g l x True s] by auto
    show ?thesis
    proof (cases "find ?P [blk..<?n]")
      case None
      then show ?thesis using n True fit by (subst bm_scan_loop.simps) (simp add: filter_upt_find [of ?P blk])
    next
      case (Some k)
      then have k: "blk \<le> k" "k < ?n" by (auto simp: find_upt_Some)
      have "unat (of_nat k + bi_start (bits rg ! x) * GFS2_NBBY) = 4 * ?s + k"
      proof -
        have "unat (bi_start (bits rg ! x) * GFS2_NBBY) = 4 * ?s"
          using geomD(10) [OF g x] big se by (subst unat_mult_no_wrap) simp_all
        moreover have "unat (of_nat k :: u32) = k" using k small by (intro unat_of_nat_small) simp
        ultimately show ?thesis using big k se by (subst unat_add_no_wrap) simp_all
      qed
      then have w: "ucast (of_nat k + bi_start (bits rg ! x) * GFS2_NBBY) = (of_nat (4 * ?s + k) :: u64)"
        by (metis of_nat_unat_ucast)
      have "bm_scan_loop rg (bits rg ! x) state blk = (rt_data0 rg + of_nat (4 * ?s + k)) # bm_scan_loop rg (bits rg ! x) state (k + 1)"
        using n True fit Some k small w by (subst bm_scan_loop.simps) (simp add: add.commute del: of_nat_add of_nat_mult)
      moreover have "?n - (k + 1) < ?n - blk" using k by simp
      ultimately show ?thesis
        using less [of "k + 1"] by (simp add: filter_upt_find [of ?P blk] Some del: of_nat_add of_nat_mult)
    qed
  qed
qed

lemma bm_scan_filter:
  assumes g: "geom b rg" and l: "loaded b rg" and x: "x < unat (rt_length rg)" and s: "state < 4"
  shows "lgfs2_bm_scan rg x state = map (\<lambda>i. rt_data0 rg + of_nat i)
    (filter (\<lambda>i. rg_state b rg i = state) [4 * bm_start (unat b) x..<4 * bm_end (unat b) rg x])"
proof -
  have "[4 * bm_start (unat b) x..<4 * bm_end (unat b) rg x]
      = map ((+) (4 * bm_start (unat b) x)) [0..<4 * (bm_end (unat b) rg x - bm_start (unat b) x)]"
    using bm_end_bounds(1) [OF g x] by (intro nth_equalityI) auto
  then show ?thesis
    unfolding lgfs2_bm_scan_def bm_scan_loop_filter [OF assms] by (simp add: filter_map comp_def del: of_nat_add of_nat_mult)
qed

text \<open>
  Scanning all the bitmaps of a group with \<open>lgfs2_bm_scan\<close> lists the blocks of the group in the
  wanted state: every one of them, once, in order, and no other, across the bounds of the bitmaps.
\<close>

theorem bm_scan_exact:
  assumes "geom b rg" "loaded b rg" "state < 4"
  shows "concat (map (\<lambda>x. lgfs2_bm_scan rg x state) [0..<unat (rt_length rg)])
    = map (\<lambda>i. rt_data0 rg + of_nat i) (filter (\<lambda>i. rg_state b rg i = state) [0..<unat (rt_data rg)])"
proof -
  let ?f = "\<lambda>a c. map (\<lambda>i. rt_data0 rg + of_nat i) (filter (\<lambda>i. rg_state b rg i = state) [a..<c])"
  have "x < unat (rt_length rg) \<Longrightarrow> concat (map (\<lambda>x. lgfs2_bm_scan rg x state) [0..<Suc x]) = ?f 0 (4 * bm_end (unat b) rg x)" for x
  proof (induction x)
    case 0
    then show ?case using bm_scan_filter [OF assms(1,2) 0 assms(3)] by simp
  next
    case (Suc x)
    have e: "bm_end (unat b) rg x = bm_start (unat b) (Suc x)" using Suc.prems by (intro bm_end_next(1) [OF assms(1)]) simp
    have "4 * bm_start (unat b) (Suc x) \<le> 4 * bm_end (unat b) rg (Suc x)" using bm_end_bounds(1) [OF assms(1) Suc.prems] by simp
    then have "[0..<4 * bm_end (unat b) rg (Suc x)] = [0..<4 * bm_end (unat b) rg x] @ [4 * bm_start (unat b) (Suc x)..<4 * bm_end (unat b) rg (Suc x)]"
      unfolding e by (metis le_add_diff_inverse upt_add_eq_append zero_le)
    then show ?case
      using Suc bm_scan_filter [OF assms(1,2) Suc.prems assms(3)] by simp
  qed
  from this [of "unat (rt_length rg) - 1"] show ?thesis
    using geomD(2) [OF assms(1)] bm_end_next(2) [OF assms(1), of "unat (rt_length rg) - 1"] by simp
qed

theorem bm_scan_exact_witness:
  "concat (map (\<lambda>x. lgfs2_bm_scan rgrp_example x 0) [0..<unat (rt_length rgrp_example)]) = map (\<lambda>i. 201 + of_nat i) [0..<16]"
proof -
  have "rg_state 512 rgrp_example i = 0" if "i < 16" for i
    using that by (simp add: rgrp_example_def rg_state_def blk_state_def buf_of_def bm_index_def bm_hdr_def)
  then have "filter (\<lambda>i. rg_state 512 rgrp_example i = 0) [0..<16] = [0..<16]" by (simp add: filter_id_conv)
  then show ?thesis
    using bm_scan_exact [OF rgrp_example_geom, of 0] by (simp add: rgrp_example_def)
qed

section \<open>The index written and read\<close>

lemma length_rindex_out: "length (lgfs2_rindex_out rg buf off) = length buf"
  by simp

lemma rindex_entries_stuffed:
  assumes "stuffed fs ip" "unat (i_size (vi ip)) + 96 * length rls + 232 \<le> unat (sd_bsize (fs_sdp fs))" "length buf = 96"
  shows "\<exists>ip' js. rindex_entries buf rls fs ip = Some (0, fs, ip') \<and> stuffed fs ip' \<and>
    unat (i_size (vi ip')) = unat (i_size (vi ip)) + 96 * length rls \<and>
    stuffed_data ip' = stuffed_data ip @ index_bytes js rls \<and> (\<forall>i. length (js i) = 96) \<and>
    i_num (vi ip') = i_num (vi ip) \<and> vown ip' = vown ip \<and> b_blocknr (vbh ip') = b_blocknr (vbh ip)"
  using assms
proof (induction rls arbitrary: buf ip)
  case Nil
  then show ?case by (intro exI [of _ ip] exI [of _ "\<lambda>_. buf"]) simp
next
  case (Cons rl rls)
  let ?buf = "lgfs2_rindex_out rl buf 0"
  define ip1 where "ip1 = stuffed_put True ?buf (unat (i_size (vi ip))) ip"
  have l: "length ?buf = 96" using Cons.prems(3) by simp
  then have ne: "?buf \<noteq> []" by (metis list.size(3) zero_neq_numeral)
  have fit: "unat (i_size (vi ip)) + length ?buf + 232 \<le> unat (sd_bsize (fs_sdp fs))" using Cons.prems(2) l by simp
  have w: "gfs2_writei_resize fs ip ?buf (i_size (vi ip)) True = Some (96, fs, ip1)"
    using writei_stuffed [OF Cons.prems(1) ne fit, of True] l by (simp add: ip1_def)
  note st = stuffed_put_stuffed [OF Cons.prems(1) fit, of True, folded ip1_def, simplified]
  have d: "stuffed_data ip1 = stuffed_data ip @ ?buf" using stuffed_append [OF Cons.prems(1) fit, of True] by (simp add: ip1_def)
  obtain ip' js where r: "rindex_entries ?buf rls fs ip1 = Some (0, fs, ip')" "stuffed fs ip'"
    "unat (i_size (vi ip')) = unat (i_size (vi ip1)) + 96 * length rls"
    "stuffed_data ip' = stuffed_data ip1 @ index_bytes js rls" "\<forall>i. length (js i) = 96"
    "i_num (vi ip') = i_num (vi ip1)" "vown ip' = vown ip1" "b_blocknr (vbh ip') = b_blocknr (vbh ip1)"
    using Cons.IH [OF st(1) _ l] st(2) l Cons.prems(2) by auto
  show ?case
  proof (intro exI [of _ ip'] exI [of _ "case_nat buf js"] conjI)
    show "rindex_entries buf (rl # rls) fs ip = Some (0, fs, ip')" using w r(1) by (simp add: size_simps Let_def)
    show "stuffed_data ip' = stuffed_data ip @ index_bytes (case_nat buf js) (rl # rls)" using r(4) d by simp
    show "\<forall>i. length (case_nat buf js i) = 96" using r(5) Cons.prems(3) by (auto split: nat.splits)
  qed (use r st(2) l in \<open>auto simp: ip1_def\<close>)
qed

lemma rindex_fill_stuffed:
  assumes "stuffed fs ip" "i_size (vi ip) = 0" "96 * length rls + 328 \<le> unat (sd_bsize (fs_sdp fs))" "length junk = 96"
    "rls = inorder (fs_rgtree fs)"
  shows "\<exists>ip' js. rindex_fill junk fs ip = Some (0, fs, ip') \<and> stuffed fs ip' \<and> stuffed_data ip' = index_bytes js rls \<and>
    (\<forall>i. length (js i) = 96) \<and> i_num (vi ip') = i_num (vi ip) \<and> vown ip' = vown ip \<and> b_blocknr (vbh ip') = b_blocknr (vbh ip) \<and>
    b_modified (vbh ip')"
proof -
  define ip0 where "ip0 = dirty (set_vi (i_payload_format_update (\<lambda>_. FORMAT_RI)) ip)"
  have s0: "stuffed fs ip0" "i_size (vi ip0) = 0" "i_num (vi ip0) = i_num (vi ip)" "vown ip0 = vown ip" "b_blocknr (vbh ip0) = b_blocknr (vbh ip)"
    using assms(1,2) stuffed_cong [of fs fs ip0 ip] by (simp_all add: ip0_def dirty_def set_vi_def)
  have "stuffed_data ip0 = []" using s0(2) by (simp add: stuffed_data_def slice_def)
  then obtain ip1 js where r: "rindex_entries junk rls fs ip0 = Some (0, fs, ip1)" "stuffed fs ip1"
    "unat (i_size (vi ip1)) = 96 * length rls" "stuffed_data ip1 = index_bytes js rls" "\<forall>i. length (js i) = 96"
    "i_num (vi ip1) = i_num (vi ip0)" "vown ip1 = vown ip0" "b_blocknr (vbh ip1) = b_blocknr (vbh ip0)"
    using rindex_entries_stuffed [OF s0(1), of rls junk] s0(2) assms(3,4) by auto
  let ?z = "replicate 96 (0 :: u8)"
  have fit: "unat (i_size (vi ip1)) + length ?z + 232 \<le> unat (sd_bsize (fs_sdp fs))" using assms(3) r(3) by simp
  define ip2 where "ip2 = stuffed_put False ?z (unat (i_size (vi ip1))) ip1"
  have w: "gfs2_writei_resize fs ip1 ?z (i_size (vi ip1)) False = Some (96, fs, ip2)"
    using writei_stuffed [OF r(2) _ fit, of False] by (simp add: ip2_def)
  show ?thesis
  proof (intro exI [of _ ip2] exI [of _ js] conjI)
    show "rindex_fill junk fs ip = Some (0, fs, ip2)"
      using r(1) w by (simp add: rindex_fill_def Let_def ip0_def size_simps assms(5))
    show "stuffed fs ip2" unfolding ip2_def by (rule stuffed_put_stuffed(1) [OF r(2) fit])
    show "stuffed_data ip2 = index_bytes js rls" using stuffed_append [OF r(2) fit, of False] r(4) by (simp add: ip2_def)
  qed (use r s0 in \<open>simp_all add: ip2_def\<close>)
qed

text \<open>An inode that is put and read again.\<close>

lemma stuffed_reread:
  assumes s: "stuffed fs ip" and "vown ip" "b_modified (vbh ip)" "b_blocknr (vbh ip) = in_addr (i_num (vi ip))"
    "fs_disk fs (in_addr (i_num (vi ip))) \<noteq> None"
  shows "\<exists>ip'. lgfs2_inode_read (inode_put fs ip) (in_addr (i_num (vi ip))) = Some ip' \<and> stuffed (inode_put fs ip) ip' \<and>
    stuffed_data ip' = stuffed_data ip \<and> fs_sdp (inode_put fs ip) = fs_sdp fs \<and> fs_rgtree (inode_put fs ip) = fs_rgtree fs"
proof -
  let ?c = "lgfs2_dinode_out (vi ip) (b_data (vbh ip))"
  have len: "length (b_data (vbh ip)) = unat (sd_bsize (fs_sdp fs))" "512 \<le> unat (sd_bsize (fs_sdp fs))"
    using s by (auto simp: stuffed_def)
  define ip' where "ip' = \<lparr>vi = lgfs2_dinode_in inode_zero ?c, vbh = \<lparr>b_blocknr = in_addr (i_num (vi ip)), b_data = ?c, b_modified = False\<rparr>, vown = True\<rparr>"
  have put: "inode_put fs ip = fs\<lparr>fs_disk := (fs_disk fs)(in_addr (i_num (vi ip)) \<mapsto> ?c)\<rparr>"
    using assms by (simp add: inode_put_def fs_brelse_def snd_brelse)
  have rd: "lgfs2_inode_read (inode_put fs ip) (in_addr (i_num (vi ip))) = Some ip'"
    by (simp add: put lgfs2_inode_read_def bread_def lgfs2_inode_get_def ip'_def)
  have vi': "vi ip' = (vi ip)\<lparr>i_u4 := set_hi32 (hi32 (i_u4 inode_zero)) (i_u4 (vi ip)), i_u5 := i_u5 inode_zero\<rparr>"
    using dinode_in_out [of "b_data (vbh ip)" inode_zero "vi ip"] len by (simp add: ip'_def size_simps)
  have e: "fs_sdp (inode_put fs ip) = fs_sdp fs" by (simp add: put)
  have "stuffed (inode_put fs ip) ip'"
    using s stuffed_cong [of "inode_put fs ip" fs ip' ip] e vi' by (simp add: ip'_def)
  moreover have "slice 232 n ?c = slice 232 n (b_data (vbh ip))" for n
    by (simp add: lgfs2_dinode_out_def lgfs2_inum_out_def codec_put_defs slice_memcpy_other size_simps)
  then have "stuffed_data ip' = stuffed_data ip" using vi' by (simp add: stuffed_data_def ip'_def)
  ultimately show ?thesis using rd e by (auto simp: put)
qed

end
