(* ===== verification/Create.thy ===== *)
theory Create
  imports DirLinear Build
begin

text \<open>
  New files: what \<open>createi\<close> of fs_ops.c does to the bitmaps, the directory and the new inode together, for
  a directory in one block, and the system files of structures.c that are made with it.
\<close>

section \<open>Allocation keeps the superblock\<close>

lemma blk_alloc_sdp:
  "blk_alloc_in_rg sdp v rg bn dinode = (r, sdp', rg') \<Longrightarrow> \<exists>k. sdp' = sdp\<lparr>blks_alloced := k\<rparr>"
  by (cases sdp) (auto simp: blk_alloc_in_rg_def Let_def split: if_splits prod.splits)

lemma block_alloc_sdp:
  "block_alloc fs n v old dinode = Some (r, bn, fs') \<Longrightarrow> \<exists>k. fs_sdp fs' = (fs_sdp fs)\<lparr>blks_alloced := k\<rparr>"
proof -
  have same: "\<exists>k. sdp = sdp\<lparr>blks_alloced := k\<rparr>" for sdp :: gfs2_sbd by (rule exI [of _ "blks_alloced sdp"]) simp
  show "block_alloc fs n v old dinode = Some (r, bn, fs') \<Longrightarrow> ?thesis"
    using same by (auto simp: block_alloc_def Let_def split: if_splits prod.splits option.splits dest!: blk_alloc_sdp)
qed


text \<open>The groups keep what the index says of them.\<close>

lemma blk_alloc_entry: "blk_alloc_in_rg sdp v rg bn dinode = (r, sdp', rg') \<Longrightarrow> index_entry rg' = index_entry rg"
  by (cases rg) (auto simp: blk_alloc_in_rg_def gfs2_set_bitmap_def Let_def index_entry_def set_rt_dinodes_def set_rt_usedmeta_def
      split: if_splits prod.splits option.splits)

lemma block_alloc_entries:
  assumes ok: "fs_ok fs" and a: "block_alloc fs n v old dinode = Some (r, bn, fs')"
  shows "map index_entry (fs_rgs fs') = map index_entry (fs_rgs fs)"
proof (cases "fs_rgs fs = []")
  case False
  let ?rg = "alloc_group n (fs_rgs fs)"
  have inn: "?rg \<in> set (fs_rgs fs)" using alloc_group_in [OF False] .
  have l: "bi_data (bits ?rg ! 0) \<noteq> Null" using rg_ok_loaded(1) [of "fs_bsize fs" ?rg] inn ok by (simp add: fs_ok_def)
  obtain r' sdp' rg' where b: "blk_alloc_in_rg (fs_sdp fs) v ?rg (find_free_block ?rg) dinode = (r', sdp', rg')"
    by (cases "blk_alloc_in_rg (fs_sdp fs) v ?rg (find_free_block ?rg) dinode")
  have fs': "fs_rgs fs' = map (\<lambda>r. if rt_addr r = rt_addr rg' then rg' else r) (fs_rgs fs)"
    using a False l b by (auto simp: block_alloc_def alloc_group_def [symmetric] Let_def fs_rgs_def [symmetric] put_rg_frame(4)
        simp flip: put_rg_sdp) 
  have e: "index_entry rg' = index_entry ?rg" by (rule blk_alloc_entry [OF b])
  then have "rt_addr rg' = rt_addr ?rg" by (metis index_entry_simps(1))
  then have "index_entry (if rt_addr g = rt_addr rg' then rg' else g) = index_entry g" if "g \<in> set (fs_rgs fs)" for g
    using addr_inj [OF ok inn that] e by auto
  then show ?thesis by (simp add: fs')
qed (use a in \<open>simp add: block_alloc_def fs_rgs_def\<close>)

definition sdp_counts :: "gfs2_sbd \<Rightarrow> gfs2_sbd \<Rightarrow> bool" where
  "sdp_counts sdp sdp' \<longleftrightarrow> (\<exists>k m. sdp' = sdp\<lparr>blks_alloced := k, dinodes_alloced := m\<rparr>)"

lemma dinode_alloc_exact:
  assumes ok: "fs_ok fs" and rg: "find (\<lambda>rg. 1 \<le> (ucast (rt_free rg) :: u64)) (fs_rgs fs) = Some rg"
  shows "\<exists>bn fs'. lgfs2_dinode_alloc fs 1 old = Some (0, bn, fs') \<and> block_state fs bn = Some GFS2_BLKST_FREE \<and>
    block_state fs' = (block_state fs)(bn \<mapsto> GFS2_BLKST_DINODE) \<and> fs_ok fs' \<and> fs_disk fs' = fs_disk fs \<and>
    sdp_counts (fs_sdp fs) (fs_sdp fs') \<and> blks_alloced (fs_sdp fs') = blks_alloced (fs_sdp fs) + 1 \<and>
    dinodes_alloced (fs_sdp fs') = dinodes_alloced (fs_sdp fs) + 1 \<and> map index_entry (fs_rgs fs') = map index_entry (fs_rgs fs)"
proof -
  have ne: "fs_rgs fs \<noteq> []" and a: "rg = alloc_group 1 (fs_rgs fs)" using rg by (auto simp: alloc_group_def)
  have "1 \<le> (ucast (rt_free rg) :: u64)" using rg by (auto simp: find_Some_iff)
  then have fr: "rt_free rg \<noteq> 0" by auto
  obtain i fs1 where f: "block_alloc fs 1 3 old True = Some (0, rt_data0 rg + of_nat i, fs1)"
    "block_state fs (rt_data0 rg + of_nat i) = Some 0" "fs_ok fs1"
    "block_state fs1 = (block_state fs)(rt_data0 rg + of_nat i \<mapsto> 3)"
    "blks_alloced (fs_sdp fs1) = blks_alloced (fs_sdp fs) + 1" "fs_disk fs1 = fs_disk fs"
    using block_alloc_in_group [OF ok ne _ _ a fr, of 3 old True] by auto
  obtain k where k: "fs_sdp fs1 = (fs_sdp fs)\<lparr>blks_alloced := k\<rparr>" using block_alloc_sdp [OF f(1)] by blast
  let ?fs = "fs1\<lparr>fs_sdp := (fs_sdp fs1)\<lparr>dinodes_alloced := dinodes_alloced (fs_sdp fs1) + 1\<rparr>\<rparr>"
  show ?thesis
  proof (intro exI [of _ "rt_data0 rg + of_nat i"] exI [of _ ?fs] conjI)
    show "lgfs2_dinode_alloc fs 1 old = Some (0, rt_data0 rg + of_nat i, ?fs)" by (simp add: lgfs2_dinode_alloc_def f(1))
    show "block_state ?fs = (block_state fs)(rt_data0 rg + of_nat i \<mapsto> 3)"
      unfolding f(4) [symmetric] by (simp add: fun_eq_iff block_state_def fs_bsize_def)
    show "fs_ok ?fs" using f(3) by (simp add: fs_ok_def fs_bsize_def fs_rgs_def)
    show "sdp_counts (fs_sdp fs) (fs_sdp ?fs)" unfolding sdp_counts_def
      by (rule exI [of _ k], rule exI [of _ "dinodes_alloced (fs_sdp fs1) + 1"]) (simp add: k)
    show "map index_entry (fs_rgs ?fs) = map index_entry (fs_rgs fs)"
      using block_alloc_entries [OF ok f(1)] by (simp add: fs_rgs_def)
  qed (use f(2,5,6) k in simp_all)
qed

section \<open>Directories do not depend on the counts\<close>

lemma sdp_counts_refl: "sdp_counts sdp sdp"
  unfolding sdp_counts_def by (rule exI [of _ "blks_alloced sdp"], rule exI [of _ "dinodes_alloced sdp"]) simp

lemma sdp_counts_bsize: "sdp_counts sdp sdp' \<Longrightarrow> sd_bsize sdp' = sd_bsize sdp" "sdp_counts sdp sdp' \<Longrightarrow> sd_gfs1 sdp' = sd_gfs1 sdp"
  by (auto simp: sdp_counts_def)

lemma linear_counts:
  assumes "sdp_counts (fs_sdp fs) (fs_sdp fs')"
  shows "linear_ok fs' v = linear_ok fs v" "dir_names fs' v = dir_names fs v" "may_add fs' v f i = may_add fs v f i"
  using sdp_counts_bsize(1) [OF assms]
  by (simp_all add: linear_ok_def linear_dir_def places_def dir_names_def names_def may_add_def dirent_alloc_def)

lemma may_add_addr: "may_add fs v f \<lparr>in_formal_ino = n, in_addr = a\<rparr> = may_add fs v f \<lparr>in_formal_ino = n, in_addr = 0\<rparr>"
  by (simp add: may_add_def)

lemma linear_dirty:
  "linear_ok fs (dirty (set_vi (i_nlink_update g) v)) = linear_ok fs v"
  "dir_names fs (dirty (set_vi (i_nlink_update g) v)) = dir_names fs v"
  by (simp_all add: linear_ok_def linear_dir_def places_def dir_names_def names_def dirty_def set_vi_def)

section \<open>The new inode\<close>

lemma init_fields:
  fixes mode flags :: u32 and now :: u64 and inum parent :: lgfs2_inum
  assumes "512 \<le> unat (sd_bsize sdp)"
  defines "ip \<equiv> lgfs2_inode_get (init_dinode_at False now sdp None inum mode flags parent)"
  shows "i_num (vi ip) = inum" "i_mode (vi ip) = mode" "i_height (vi ip) = 0"
    "b_blocknr (vbh ip) = in_addr inum" "length (b_data (vbh ip)) = unat (sd_bsize sdp)"
    "i_nlink (vi ip) = (if S_ISDIR mode then 2 else 1)" "\<not> S_ISDIR mode \<Longrightarrow> i_size (vi ip) = 0"
proof -
  let ?n = "unat (sd_bsize sdp)"
  let ?h = "init_dinode_fields now (in_addr inum) inum mode flags (replicate ?n 0)"
  have z: "get_be64 (replicate ?n 0) 56 = 0" "get_be16 (replicate ?n 0) 138 = 0"
    using assms(1) by (simp_all add: get_be64_def get_be16_def slice_def be_val_def numeral_eq_Suc)
  have b: "b_data (vbh ip) = (if S_ISDIR mode then init_dinode_dir ?n inum parent 4 flags ?h else ?h)" "b_blocknr (vbh ip) = in_addr inum"
    by (simp_all add: ip_def lgfs2_inode_get_def init_dinode_at_def set_buf_def Let_def)
  have vi: "vi ip = lgfs2_dinode_in inode_zero (b_data (vbh ip))" by (simp add: ip_def lgfs2_inode_get_def)
  have h: "lgfs2_inum_in ?h 24 = inum" "get_be32 ?h 40 = mode" "get_be16 ?h 138 = 0" "get_be32 ?h 52 = 1" "get_be64 ?h 56 = 0" "length ?h = ?n"
    using assms(1) z by (simp_all add: init_dinode_fields_def set_meta_header_def lgfs2_inum_out_def lgfs2_inum_in_def size_simps field_simps)
  have d: "lgfs2_inum_in (b_data (vbh ip)) 24 = inum" "get_be32 (b_data (vbh ip)) 40 = mode" "get_be16 (b_data (vbh ip)) 138 = 0"
    "get_be32 (b_data (vbh ip)) 52 = (if S_ISDIR mode then 2 else 1)" "\<not> S_ISDIR mode \<Longrightarrow> get_be64 (b_data (vbh ip)) 56 = 0"
    "length (b_data (vbh ip)) = ?n"
    using h assms(1)
    by (simp_all add: b init_dinode_dir_def lgfs2_inum_in_def size_simps dirent_size(1) Let_def field_simps codec_other)
  show "i_num (vi ip) = inum" "i_mode (vi ip) = mode" "i_height (vi ip) = 0"
    "b_blocknr (vbh ip) = in_addr inum" "length (b_data (vbh ip)) = unat (sd_bsize sdp)"
    "i_nlink (vi ip) = (if S_ISDIR mode then 2 else 1)" "\<not> S_ISDIR mode \<Longrightarrow> i_size (vi ip) = 0"
    using d b by (simp_all add: vi lgfs2_dinode_in_def size_simps set_i_atime_nsec_def set_i_mtime_nsec_def set_i_ctime_nsec_def)
qed

lemma createi_steps:
  assumes "fs_ok fs" "linear_ok fs dip" "f \<noteq> []" "f \<noteq> dot" "may_add fs dip f \<lparr>in_formal_ino = ni, in_addr = 0\<rparr>"
    "find (\<lambda>rg. 1 \<le> (ucast (rt_free rg) :: u64)) (fs_rgs fs) = Some rg"
  obtains bn fs' dip' where
    "createi now fs ni dip f mode flags = Some (Some ((lgfs2_inode_get (init_dinode_at False now (fs_sdp fs') None \<lparr>in_formal_ino = ni, in_addr = bn\<rparr> mode flags (i_num (vi dip))))
       \<lparr>vbh := bmodified (vbh (lgfs2_inode_get (init_dinode_at False now (fs_sdp fs') None \<lparr>in_formal_ino = ni, in_addr = bn\<rparr> mode flags (i_num (vi dip))))), vown := True\<rparr>), fs', ni + 1, dip')"
    "block_state fs bn = Some GFS2_BLKST_FREE" "block_state fs' = (block_state fs)(bn \<mapsto> GFS2_BLKST_DINODE)" "fs_ok fs'"
    "fs_disk fs' = fs_disk fs" "sdp_counts (fs_sdp fs) (fs_sdp fs')" "blks_alloced (fs_sdp fs') = blks_alloced (fs_sdp fs) + 1"
    "dinodes_alloced (fs_sdp fs') = dinodes_alloced (fs_sdp fs) + 1" "linear_ok fs' dip'"
    "dir_names fs' dip' = (dir_names fs dip)(f \<mapsto> (\<lparr>in_formal_ino = ni, in_addr = bn\<rparr>, ucast (IF2DT mode)))"
    "map index_entry (fs_rgs fs') = map index_entry (fs_rgs fs)"
proof -
  have len: "length f \<le> 255" and nn: "dir_names fs dip f = None" using assms(5) by (simp_all add: may_add_def)
  have "gfs2_lookupi fs dip f = Some (- ENOENT, Nothing, fs, dip)"
    using assms(3,4) len linear_ok_search [OF assms(2), of f] nn by (auto simp: gfs2_lookupi_def gfs2_filecmp_def)
  moreover obtain bn fs' where a: "lgfs2_dinode_alloc fs 1 0 = Some (0, bn, fs')" "block_state fs bn = Some GFS2_BLKST_FREE"
    "block_state fs' = (block_state fs)(bn \<mapsto> GFS2_BLKST_DINODE)" "fs_ok fs'" "fs_disk fs' = fs_disk fs" "sdp_counts (fs_sdp fs) (fs_sdp fs')"
    "blks_alloced (fs_sdp fs') = blks_alloced (fs_sdp fs) + 1" "dinodes_alloced (fs_sdp fs') = dinodes_alloced (fs_sdp fs) + 1" "map index_entry (fs_rgs fs') = map index_entry (fs_rgs fs)"
    using dinode_alloc_exact [OF assms(1,6), of 0] by blast
  have l: "linear_ok fs' dip" "may_add fs' dip f \<lparr>in_formal_ino = ni, in_addr = bn\<rparr>"
    using linear_counts [OF a(6)] assms(2,5) may_add_addr [of fs dip f ni bn] by simp_all
  obtain v' where v: "dir_add now fs' dip f \<lparr>in_formal_ino = ni, in_addr = bn\<rparr> (ucast (IF2DT mode)) = Some (0, fs', v')"
    "linear_ok fs' v'" "dir_names fs' v' = (dir_names fs dip)(f \<mapsto> (\<lparr>in_formal_ino = ni, in_addr = bn\<rparr>, ucast (IF2DT mode)))"
    using linear_ok_add [OF l, of now "ucast (IF2DT mode)"] linear_counts(2) [OF a(6)] by auto
  define dip' where "dip' = (if S_ISDIR mode then dirty (set_vi (i_nlink_update (\<lambda>n. n + 1)) v') else v')"
  show ?thesis
  proof (rule that)
    show "createi now fs ni dip f mode flags = Some (Some ((lgfs2_inode_get (init_dinode_at False now (fs_sdp fs') None \<lparr>in_formal_ino = ni, in_addr = bn\<rparr> mode flags (i_num (vi dip))))
       \<lparr>vbh := bmodified (vbh (lgfs2_inode_get (init_dinode_at False now (fs_sdp fs') None \<lparr>in_formal_ino = ni, in_addr = bn\<rparr> mode flags (i_num (vi dip))))), vown := True\<rparr>), fs', ni + 1, dip')"
      using calculation a(1) v(1) by (simp add: createi_def createi_at_def Let_def dip'_def)
    show "linear_ok fs' dip'" using v(2) linear_dirty(1) by (simp add: dip'_def)
    show "dir_names fs' dip' = (dir_names fs dip)(f \<mapsto> (\<lparr>in_formal_ino = ni, in_addr = bn\<rparr>, ucast (IF2DT mode)))"
      using v(3) linear_dirty(2) by (simp add: dip'_def)
  qed (fact a)+
qed

text \<open>
  C25. Creating a file whose name is new to a directory in one block takes exactly one block that was free
  and makes it a dinode, counts it, and adds exactly that name: a search then finds the new inode with its
  type, and every other search has the result it had. The inode is in that block, with its number, its mode
  and the links of a file or of a directory; nothing is on the device before it is put.
\<close>

theorem createi_new:
  assumes "fs_ok fs" "linear_ok fs dip" "f \<noteq> []" "f \<noteq> dot" "may_add fs dip f \<lparr>in_formal_ino = ni, in_addr = 0\<rparr>"
    "find (\<lambda>rg. 1 \<le> (ucast (rt_free rg) :: u64)) (fs_rgs fs) = Some rg" "512 \<le> unat (sd_bsize (fs_sdp fs))"
  shows "\<exists>bn fs' dip' ip. createi now fs ni dip f mode flags = Some (Some ip, fs', ni + 1, dip')
    \<and> block_state fs bn = Some GFS2_BLKST_FREE \<and> block_state fs' = (block_state fs)(bn \<mapsto> GFS2_BLKST_DINODE) \<and> fs_ok fs'
    \<and> blks_alloced (fs_sdp fs') = blks_alloced (fs_sdp fs) + 1 \<and> dinodes_alloced (fs_sdp fs') = dinodes_alloced (fs_sdp fs) + 1
    \<and> fs_disk fs' = fs_disk fs \<and> linear_ok fs' dip'
    \<and> dir_search fs' dip' f = Some (Inr (\<lparr>in_formal_ino = ni, in_addr = bn\<rparr>, ucast (IF2DT mode)), fs', dip')
    \<and> (\<forall>g. g \<noteq> f \<longrightarrow> map_option fst (dir_search fs' dip' g) = map_option fst (dir_search fs dip g))
    \<and> i_num (vi ip) = \<lparr>in_formal_ino = ni, in_addr = bn\<rparr> \<and> i_mode (vi ip) = mode \<and> i_nlink (vi ip) = (if S_ISDIR mode then 2 else 1)
    \<and> b_blocknr (vbh ip) = bn \<and> b_modified (vbh ip)"
proof -
  obtain bn fs' dip' where c: "createi now fs ni dip f mode flags = Some (Some ((lgfs2_inode_get (init_dinode_at False now (fs_sdp fs') None \<lparr>in_formal_ino = ni, in_addr = bn\<rparr> mode flags (i_num (vi dip))))
       \<lparr>vbh := bmodified (vbh (lgfs2_inode_get (init_dinode_at False now (fs_sdp fs') None \<lparr>in_formal_ino = ni, in_addr = bn\<rparr> mode flags (i_num (vi dip))))), vown := True\<rparr>), fs', ni + 1, dip')"
    "block_state fs bn = Some GFS2_BLKST_FREE" "block_state fs' = (block_state fs)(bn \<mapsto> GFS2_BLKST_DINODE)" "fs_ok fs'"
    "fs_disk fs' = fs_disk fs" "sdp_counts (fs_sdp fs) (fs_sdp fs')" "blks_alloced (fs_sdp fs') = blks_alloced (fs_sdp fs) + 1"
    "dinodes_alloced (fs_sdp fs') = dinodes_alloced (fs_sdp fs) + 1" "linear_ok fs' dip'"
    "dir_names fs' dip' = (dir_names fs dip)(f \<mapsto> (\<lparr>in_formal_ino = ni, in_addr = bn\<rparr>, ucast (IF2DT mode)))"
    "map index_entry (fs_rgs fs') = map index_entry (fs_rgs fs)"
    by (rule createi_steps [OF assms(1-6), of now mode flags]) (rule that, assumption+)
  have "512 \<le> unat (sd_bsize (fs_sdp fs'))" using sdp_counts_bsize(1) [OF c(6)] assms(7) by simp
  note i = init_fields [OF this, where now = now and inum = "\<lparr>in_formal_ino = ni, in_addr = bn\<rparr>" and mode = mode and flags = flags and parent = "i_num (vi dip)"]
  show ?thesis
    by (rule exI [of _ bn], rule exI [of _ fs'], rule exI [of _ dip'], rule exI, intro conjI, rule c(1))
      (simp_all add: c(2-5,7-9) i linear_ok_search [OF c(9)] linear_ok_search [OF assms(2)] c(10))
qed

theorem createi_new_witness:
  "\<exists>bn fs' dip' ip. createi 7 fs_example 6 new_dir_example [97] 0x81A4 0 = Some (Some ip, fs', 7, dip')
    \<and> block_state fs_example bn = Some GFS2_BLKST_FREE \<and> block_state fs' bn = Some GFS2_BLKST_DINODE
    \<and> dir_search fs' dip' [97] = Some (Inr (\<lparr>in_formal_ino = 6, in_addr = bn\<rparr>, 8), fs', dip')"
proof -
  have "find (\<lambda>rg. 1 \<le> (ucast (rt_free rg) :: u64)) (fs_rgs fs_example) = Some rgrp_example"
    using fs_example_ok by simp
  moreover have "may_add fs_example new_dir_example [97] \<lparr>in_formal_ino = 6, in_addr = 0\<rparr>"
    using new_dir_example_ok(2) may_add_addr by metis
  moreover have "512 \<le> unat (sd_bsize (fs_sdp fs_example))" by (simp add: fs_example_def sbd_example_def)
  ultimately obtain bn fs' dip' ip where
    "createi 7 fs_example 6 new_dir_example [97] 0x81A4 0 = Some (Some ip, fs', 6 + 1, dip')"
    "block_state fs_example bn = Some GFS2_BLKST_FREE" "block_state fs' = (block_state fs_example)(bn \<mapsto> GFS2_BLKST_DINODE)"
    "dir_search fs' dip' [97] = Some (Inr (\<lparr>in_formal_ino = 6, in_addr = bn\<rparr>, ucast (IF2DT 0x81A4)), fs', dip')"
    using createi_new [OF fs_example_ok(1) new_dir_example_ok(1), of "[97]" 6 rgrp_example 7 "0x81A4" 0] by auto
  then show ?thesis by (auto simp: IF2DT_def intro!: exI [of _ bn])
qed

section \<open>The index of a new file system\<close>

text \<open>What the index depends on of the groups.\<close>

lemma index_entry_idem [simp]: "index_entry (index_entry rg) = index_entry rg"
  by (simp add: index_entry_def)

lemma index_sane_map: "index_sane fs (map index_entry rgs) = index_sane fs rgs"
proof -
  have "map index_entry rgs ! i = index_entry (rgs ! i)" if "i < length rgs" for i using that by simp
  then have
    "(\<forall>i < length rgs. gfs2_check_range (fs_sdp fs) (rt_addr (map index_entry rgs ! i)) = 0 \<and> rgd_seems_ok (fs_sdp fs) (map index_entry rgs ! i) \<and>
        fst (gfs2_compute_bitstructs (sd_bsize (fs_sdp fs)) (index_entry (map index_entry rgs ! i))) = 0) \<longleftrightarrow>
     (\<forall>i < length rgs. gfs2_check_range (fs_sdp fs) (rt_addr (rgs ! i)) = 0 \<and> rgd_seems_ok (fs_sdp fs) (rgs ! i) \<and>
        fst (gfs2_compute_bitstructs (sd_bsize (fs_sdp fs)) (index_entry (rgs ! i))) = 0)"
    by simp
  moreover have "(\<forall>i j. i < j \<and> j < length rgs \<longrightarrow> rt_addr (map index_entry rgs ! i) < rt_addr (map index_entry rgs ! j)) \<longleftrightarrow>
     (\<forall>i j. i < j \<and> j < length rgs \<longrightarrow> rt_addr (rgs ! i) < rt_addr (rgs ! j))" by auto
  moreover have "(\<forall>i. 3 \<le> i \<and> i < length rgs \<longrightarrow>
        rt_addr (map index_entry rgs ! i) - rt_addr (map index_entry rgs ! (i - 1)) = rt_addr (map index_entry rgs ! (i - 1)) - rt_addr (map index_entry rgs ! (i - 2)) \<or>
        good_on_disk (fs_disk fs) (map index_entry rgs ! i) = Some True) \<longleftrightarrow>
     (\<forall>i. 3 \<le> i \<and> i < length rgs \<longrightarrow>
        rt_addr (rgs ! i) - rt_addr (rgs ! (i - 1)) = rt_addr (rgs ! (i - 1)) - rt_addr (rgs ! (i - 2)) \<or>
        good_on_disk (fs_disk fs) (rgs ! i) = Some True)" by auto
  ultimately show ?thesis unfolding index_sane_def length_map by simp
qed

lemma index_sane_entries: "map index_entry rgs' = map index_entry rgs \<Longrightarrow> index_sane fs rgs' = index_sane fs rgs"
  by (metis index_sane_map)

lemma indexed_entries: "map index_entry rgs' = map index_entry rgs \<Longrightarrow> map (indexed b) rgs' = map (indexed b) rgs"
proof -
  have "map (indexed b) rgs = map (\<lambda>e. snd (gfs2_compute_bitstructs b e)) (map index_entry rgs)" for rgs
    by (simp add: indexed_def)
  then show "map index_entry rgs' = map index_entry rgs \<Longrightarrow> ?thesis" by metis
qed

lemma index_sane_frame:
  assumes "index_sane fs rgs" "sdp_counts (fs_sdp fs) (fs_sdp fs')" "\<And>rg. rg \<in> set rgs \<Longrightarrow> fs_disk fs' (rt_addr rg) = fs_disk fs (rt_addr rg)"
  shows "index_sane fs' rgs"
proof -
  have "gfs2_check_range (fs_sdp fs') a = gfs2_check_range (fs_sdp fs) a" "rgd_seems_ok (fs_sdp fs') rg = rgd_seems_ok (fs_sdp fs) rg" for a rg
    using assms(2) by (auto simp: sdp_counts_def gfs2_check_range_def LGFS2_SB_ADDR_def rgd_seems_ok_def)
  moreover have "good_on_disk (fs_disk fs') rg = good_on_disk (fs_disk fs) rg" if "rg \<in> set rgs" for rg
    using assms(3) [OF that] by (simp add: good_on_disk_def bread_def)
  ultimately show ?thesis using assms(1) sdp_counts_bsize(1) [OF assms(2)] by (auto simp: index_sane_def)
qed

text \<open>A data block is not the first block of a group.\<close>

lemma data_block:
  assumes ok: "fs_ok fs" and b: "block_state fs bn = Some s"
  shows "bn \<noteq> 0" "\<And>rg. rg \<in> set (fs_rgs fs) \<Longrightarrow> rt_addr rg \<noteq> bn"
proof -
  obtain g where g: "gfs2_blk2rgrpd (fs_rgtree fs) bn = Some g" "rt_data0 g \<le> bn"
    using b by (auto simp: block_state_def split: option.splits if_splits)
  have g': "g \<in> set (fs_rgs fs)" using g(1) ok by (simp add: blk2rgrpd_Some_iff fs_ok_def fs_rgs_def)
  then have lt: "rt_addr g < bn" using ok g(2) by (auto simp: fs_ok_def rg_ok_def)
  then show "bn \<noteq> 0" by auto
  show "rt_addr rg \<noteq> bn" if "rg \<in> set (fs_rgs fs)" for rg
  proof
    assume a: "rt_addr rg = bn"
    have "rg_ok (fs_bsize fs) rg" using that ok by (simp add: fs_ok_def)
    then have "unat (rt_addr rg) < unat (rt_data0 rg + ucast (rt_data rg))"
      by (auto simp: rg_ok_def data_end word_less_nat_alt)
    then have "rg_owns rg (rt_addr rg)" by (simp add: rg_owns_def word_less_nat_alt)
    then have "rg = g" using g(1) that a ok blk2rgrpd_Some_iff [of "fs_rgtree fs" bn rg] by (simp add: fs_ok_def fs_rgs_def)
    then show False using lt a by simp
  qed
qed

text \<open>
  C26. The index that \<open>build_rindex\<close> makes for a new file system is the one \<open>rindex_read\<close> wants: one free
  block becomes the inode, the master directory has exactly the name for it, and the inode read again from the
  device and scanned into an empty tree gives every group of the tree it was written from, in order, found
  consistent. The file is one that fits beside its inode, with the empty entry that is written after
  the last one; what the buffer on the stack held before does not matter.
\<close>

theorem build_rindex_read:
  fixes fs :: fs and ni :: u64
  assumes ok: "fs_ok fs" "linear_ok fs master" "may_add fs master (str ''rindex'') \<lparr>in_formal_ino = ni, in_addr = 0\<rparr>"
    and free: "find (\<lambda>rg. 1 \<le> (ucast (rt_free rg) :: u64)) (fs_rgs fs) = Some rg"
    and sb: "\<not> sd_gfs1 (fs_sdp fs)" "unat (sd_bsize_shift (fs_sdp fs)) < 32" "sd_bsize (fs_sdp fs) = push_bit (unat (sd_bsize_shift (fs_sdp fs))) 1"
    and big: "512 \<le> unat (sd_bsize (fs_sdp fs))"
    and fit: "96 * length (fs_rgs fs) + 328 \<le> unat (sd_bsize (fs_sdp fs))" "length junk = 96"
    and dev: "\<And>bn. block_state fs bn \<noteq> None \<Longrightarrow> fs_disk fs bn \<noteq> None" and sane: "index_sane fs (fs_rgs fs)"
  shows "\<exists>bn fs2 ip2 t master'. build_rindex now en junk fs ni master = Some (0, fs2, ni + 1, master')
    \<and> block_state fs bn = Some GFS2_BLKST_FREE \<and> block_state fs2 = (block_state fs)(bn \<mapsto> GFS2_BLKST_DINODE)
    \<and> dir_names fs2 master' = (dir_names fs master)(str ''rindex'' \<mapsto> (\<lparr>in_formal_ino = ni, in_addr = bn\<rparr>, 8))
    \<and> lgfs2_inode_read fs2 bn = Some ip2
    \<and> rindex_read (fs2\<lparr>fs_rgtree := Leaf\<rparr>) ip2 = Some (0, of_nat (length (fs_rgs fs)), True, fs2\<lparr>fs_rgtree := t\<rparr>, ip2)
    \<and> inorder t = map (indexed (sd_bsize (fs_sdp fs))) (fs_rgs fs)"
proof -
  let ?m = "S_IFREG OR 0x180" and ?f = "DIF_SYSTEM OR GFS2_DIF_JDATA" and ?n = "str ''rindex''"
  have n: "?n \<noteq> []" "?n \<noteq> dot" "ucast (IF2DT ?m) = (8 :: u16)" "\<not> S_ISDIR ?m"
    by (simp_all add: str_def IF2DT_def S_ISDIR_def)
  let ?ip = "\<lambda>fs1 bn. lgfs2_inode_get (init_dinode_at False now (fs_sdp fs1) None \<lparr>in_formal_ino = ni, in_addr = bn\<rparr> ?m ?f (i_num (vi master)))"
  obtain bn fs1 master' where c:
    "createi now fs ni master ?n ?m ?f = Some (Some ((?ip fs1 bn)\<lparr>vbh := bmodified (vbh (?ip fs1 bn)), vown := True\<rparr>), fs1, ni + 1, master')"
    "block_state fs bn = Some GFS2_BLKST_FREE" "block_state fs1 = (block_state fs)(bn \<mapsto> GFS2_BLKST_DINODE)"
    "fs_disk fs1 = fs_disk fs" "sdp_counts (fs_sdp fs) (fs_sdp fs1)"
    "dir_names fs1 master' = (dir_names fs master)(?n \<mapsto> (\<lparr>in_formal_ino = ni, in_addr = bn\<rparr>, 8))"
    "map index_entry (fs_rgs fs1) = map index_entry (fs_rgs fs)" "fs_ok fs1"
    by (rule createi_steps [OF ok(1,2) n(1,2) ok(3) free, of now ?m ?f]) (rule that, simp_all only: n(3))
  define ip where "ip = (?ip fs1 bn)\<lparr>vbh := bmodified (vbh (?ip fs1 bn)), vown := True\<rparr>"
  note sd = sdp_counts_bsize [OF c(5)]
  have shift: "sd_bsize_shift (fs_sdp fs1) = sd_bsize_shift (fs_sdp fs)" using c(5) by (auto simp: sdp_counts_def)
  note len = map_eq_imp_length_eq [OF c(7)]
  note nz = data_block [OF ok(1) c(2)]
  have "512 \<le> unat (sd_bsize (fs_sdp fs1))" using sd(1) big by simp
  note i = init_fields [OF this, where now = now and inum = "\<lparr>in_formal_ino = ni, in_addr = bn\<rparr>" and mode = ?m and flags = ?f and parent = "i_num (vi master)"]
  have ip: "i_num (vi ip) = \<lparr>in_formal_ino = ni, in_addr = bn\<rparr>" "i_mode (vi ip) = ?m" "i_height (vi ip) = 0" "i_size (vi ip) = 0"
    "vown ip" "b_blocknr (vbh ip) = bn" "length (b_data (vbh ip)) = unat (sd_bsize (fs_sdp fs1))"
    using i n(4) by (simp_all add: ip_def)
  have st: "stuffed fs1 ip"
    unfolding stuffed_def using ip(1-4,7) n(4) nz(1) sd sb shift big by (intro conjI) simp_all
  have ne: "fs_rgs fs1 \<noteq> []" using free len by auto
  have sane1: "index_sane (fs1\<lparr>fs_disk := (fs_disk fs)(bn \<mapsto> x)\<rparr>) (fs_rgs fs1)" for x
    unfolding index_sane_entries [OF c(7)]
    by (rule index_sane_frame [OF sane]) (use c(5) nz(2) in simp_all)
  obtain ip' js where f: "rindex_fill junk fs1 ip = Some (0, fs1, ip')" "stuffed fs1 ip'" "stuffed_data ip' = index_bytes js (fs_rgs fs1)"
    "\<forall>i. length (js i) = 96" "i_num (vi ip') = i_num (vi ip)" "vown ip' = vown ip" "b_blocknr (vbh ip') = b_blocknr (vbh ip)" "b_modified (vbh ip')"
    using rindex_fill_stuffed [OF st ip(4), where junk = junk] fit sd(1) len by (auto simp: fs_rgs_def)
  define fs2 where "fs2 = inode_put fs1 ip'"
  have b: "build_rindex now en junk fs ni master = Some (0, fs2, ni + 1, master')"
    using c(1) f(1) by (simp add: build_rindex_def build_file_def fs2_def ip_def)
  obtain ip2 where r: "lgfs2_inode_read fs2 bn = Some ip2" "stuffed fs2 ip2" "stuffed_data ip2 = index_bytes js (fs_rgs fs1)"
    "fs_sdp fs2 = fs_sdp fs1" "fs_rgtree fs2 = fs_rgtree fs1"
    using stuffed_reread [OF f(2)] f(3-8) ip(1,5,6) dev [of bn] c(2,4) unfolding fs2_def by auto
  obtain x where d: "fs_disk fs2 = (fs_disk fs)(bn \<mapsto> x)"
    using f(5-8) ip(1,5,6) dev [of bn] c(2,4) by (auto simp: fs2_def inode_put_def fs_brelse_def snd_brelse)
  let ?fs = "fs2\<lparr>fs_rgtree := Leaf\<rparr>"
  have "stuffed ?fs ip2" using r(2) stuffed_cong [of ?fs fs2 ip2 ip2] by simp
  then have i: "index_file ?fs ip2 (fs_rgs fs1)" by (rule stuffed_index_file [OF _ r(3) f(4)])
  have "index_sane ?fs (fs_rgs fs1)" using sane1 [of x] by (simp add: index_sane_def r(4) d)
  from rindex_read_spec [OF i this ne] obtain t where
    "rindex_read ?fs ip2 = Some (0, of_nat (length (fs_rgs fs)), True, fs2\<lparr>fs_rgtree := t\<rparr>, ip2)"
    "inorder t = map (indexed (sd_bsize (fs_sdp fs))) (fs_rgs fs)"
    using len r(4) sd(1) indexed_entries [OF c(7)] by auto
  moreover have "fs_bsize fs2 = fs_bsize fs1" by (simp only: fs_bsize_def r(4))
  then have "block_state fs2 = block_state fs1" by (simp add: fun_eq_iff block_state_def r(5) split: option.split)
  moreover have "dir_names fs2 master' = dir_names fs1 master'"
    by (rule linear_counts(2)) (simp add: r(4) sdp_counts_refl)
  ultimately show ?thesis using b c(2,3,6) r(1) by (metis (no_types, lifting))
qed

text \<open>A file system of one group on a device of empty blocks.\<close>

definition fs_one :: fs where
  "fs_one = \<lparr>fs_sdp = sbd_example, fs_rgtree = Node Leaf rgrp_example Leaf, fs_disk = \<lambda>_. Some (replicate 512 0)\<rparr>"

lemma fs_one_ok: "fs_ok fs_one" "fs_rgs fs_one = [rgrp_example]"
  using rgrp_example_ok by (simp_all add: fs_ok_def fs_one_def fs_rgs_def fs_bsize_def rgs_ordered_def sbd_example_def)

lemma fs_one_dir:
  "linear_ok fs_one new_dir_example"
  "\<lbrakk>length f \<le> 100; f \<noteq> dot; f \<noteq> dotdot\<rbrakk> \<Longrightarrow> may_add fs_one new_dir_example f \<lparr>in_formal_ino = 6, in_addr = 0\<rparr>"
  "dir_names fs_one new_dir_example = [dot \<mapsto> (\<lparr>in_formal_ino = 5, in_addr = 1000\<rparr>, 4), dotdot \<mapsto> (\<lparr>in_formal_ino = 1, in_addr = 22\<rparr>, 4)]"
proof -
  have e: "fs_sdp fs_one = fs_sdp fs_example" by (simp add: fs_one_def fs_example_def)
  note c = linear_counts [of fs_example fs_one, unfolded e, OF sdp_counts_refl]
  show ok: "linear_ok fs_one new_dir_example"
    and nm: "dir_names fs_one new_dir_example = [dot \<mapsto> (\<lparr>in_formal_ino = 5, in_addr = 1000\<rparr>, 4), dotdot \<mapsto> (\<lparr>in_formal_ino = 1, in_addr = 22\<rparr>, 4)]"
    using c(1,2) new_dir_example_ok(1,3) by simp_all
  have n: "unat (sd_bsize (fs_sdp fs_one)) = 512" by (simp add: fs_one_def sbd_example_def)
  show "may_add fs_one new_dir_example f \<lparr>in_formal_ino = 6, in_addr = 0\<rparr>"
    if f: "length f \<le> 100" "f \<noteq> dot" "f \<noteq> dotdot"
  proof -
    have "GFS2_DIRENT_SIZE (length f) \<le> 152" using f(1) by (simp add: GFS2_DIRENT_SIZE_def size_simps; presburger)
    then have N: "linear_dir (fs_sdp fs_one) new_dir_example [232, 280]" "fits (b_data (vbh new_dir_example)) (length f) 280"
      using new_linear_dir [of "fs_sdp fs_one" "\<lparr>in_formal_ino = 5, in_addr = 1000\<rparr>" "\<lparr>in_formal_ino = 1, in_addr = 22\<rparr>" "0x41ED" 0 7 "length f"] n
      by (simp_all add: e new_dir_example_def S_ISDIR_def)
    have L: "dir_block (unat (sd_bsize (fs_sdp fs_one))) (b_data (vbh new_dir_example)) [232, 280]"
      using N(1) by (simp_all only: linear_dir_def)
    have "unat (i_entries (vi new_dir_example)) < 2 ^ 32 - 1" using new_dir_example_ok(2) by (simp add: may_add_def)
    moreover have "dirent_alloc (fs_sdp fs_one) new_dir_example (vbh new_dir_example) (length f) \<noteq> None"
      using dirent_alloc_none [OF L] N(2) by fastforce
    ultimately show ?thesis unfolding may_add_def using nm f by simp
  qed
qed

theorem build_rindex_read_witness:
  "\<exists>bn fs2 ip2 t master'. build_rindex 7 5 (replicate 96 0) fs_one 6 new_dir_example = Some (0, fs2, 7, master')
    \<and> lgfs2_inode_read fs2 bn = Some ip2
    \<and> rindex_read (fs2\<lparr>fs_rgtree := Leaf\<rparr>) ip2 = Some (0, 1, True, fs2\<lparr>fs_rgtree := t\<rparr>, ip2) \<and> map rt_addr (inorder t) = [200]"
proof -
  have s: "sd_bsize (fs_sdp fs_one) = 512" "sd_bsize_shift (fs_sdp fs_one) = 9" "\<not> sd_gfs1 (fs_sdp fs_one)"
    by (simp_all add: fs_one_def sbd_example_def)
  have f: "find (\<lambda>rg. 1 \<le> (ucast (rt_free rg) :: u64)) (fs_rgs fs_one) = Some rgrp_example" by (simp add: fs_one_ok)
  have i: "index_sane fs_one (fs_rgs fs_one)"
    unfolding index_sane_def fs_one_ok(2)
    by (intro conjI allI impI)
      (simp_all add: rgrp_example_def rgrp_zero_def fs_one_def sbd_example_def
        gfs2_check_range_def LGFS2_SB_ADDR_def rgd_seems_ok_def index_entry_def gfs2_compute_bitstructs_def
        compute_bitmaps_def gfs2_bitmap_zero_def size_simps Let_def)
  have m: "may_add fs_one new_dir_example (str ''rindex'') \<lparr>in_formal_ino = 6, in_addr = 0\<rparr>"
    by (rule fs_one_dir(2)) (simp_all add: str_def)
  have d: "fs_disk fs_one bn \<noteq> None" for bn by (simp add: fs_one_def)
  from build_rindex_read [OF fs_one_ok(1) fs_one_dir(1) m f, of "replicate 96 0" 7 5] s i d
  obtain bn fs2 ip2 t master' where
    "build_rindex 7 5 (replicate 96 0) fs_one 6 new_dir_example = Some (0, fs2, 7, master')" "lgfs2_inode_read fs2 bn = Some ip2"
    "rindex_read (fs2\<lparr>fs_rgtree := Leaf\<rparr>) ip2 = Some (0, 1, True, fs2\<lparr>fs_rgtree := t\<rparr>, ip2)"
    "inorder t = map (indexed 512) [rgrp_example]"
    by (auto simp: fs_one_ok(2))
  then show ?thesis
    by (intro exI [of _ bn] exI [of _ fs2] exI [of _ ip2] exI [of _ t] exI [of _ master']) (simp add: indexed_def compute_bitstructs_addr)
qed

end
