(* ===== verification/Fsck.thy ===== *)
theory Fsck
  imports FsDir
begin

text \<open>
  What the passes of fsck.gfs2 share (fsck.h, util.c, util.h, inode_hash.c, link.c, block_list.c and the start of
  metawalk.c): the questions to the user, the packed maps of block types and of single links, the trees of
  inodes, directories and duplicate blocks, the counting of links and the repair of a block's bits.

  The state is a record of the file system and of the program's global variables. The messages are output only;
  the keys the user types are a list in the state, and None is the result where the program waits for a key
  that never comes, ends, or uses memory that is not there. Allocation succeeds.
\<close>

section \<open>The trees\<close>

text \<open>
  Trees ordered by a block number, as the code searches and links them. Their rebalancing (osi_tree.h) keeps
  the order of the nodes, which is all that the searches and the walks from the first node to the last depend
  on. A node is changed in place.
\<close>

fun tree_find :: "('a \<Rightarrow> u64) \<Rightarrow> 'a tree \<Rightarrow> u64 \<Rightarrow> 'a option" where
  "tree_find key Leaf block = None"
| "tree_find key (Node l cur r) block =
     (if block < key cur then tree_find key l block
      else if key cur < block then tree_find key r block
      else Some cur)"

fun tree_insert :: "('a \<Rightarrow> u64) \<Rightarrow> 'a \<Rightarrow> 'a tree \<Rightarrow> 'a \<times> 'a tree" where
  "tree_insert key x Leaf = (x, Node Leaf x Leaf)"
| "tree_insert key x (Node l cur r) =
     (if key x < key cur then let (y, l) = tree_insert key x l in (y, Node l cur r)
      else if key cur < key x then let (y, r) = tree_insert key x r in (y, Node l cur r)
      else (cur, Node l cur r))"

definition tree_put :: "('a \<Rightarrow> u64) \<Rightarrow> 'a \<Rightarrow> 'a tree \<Rightarrow> 'a tree" where
  "tree_put key x t = map_tree (\<lambda>y. if key y = key x then x else y) t"

fun tree_join :: "'a tree \<Rightarrow> 'a tree \<Rightarrow> 'a tree" where
  "tree_join Leaf r = r"
| "tree_join (Node ll a lr) r = Node ll a (tree_join lr r)"

fun tree_erase :: "('a \<Rightarrow> u64) \<Rightarrow> u64 \<Rightarrow> 'a tree \<Rightarrow> 'a tree" where
  "tree_erase key block Leaf = Leaf"
| "tree_erase key block (Node l cur r) =
     (if block < key cur then Node (tree_erase key block l) cur r
      else if key cur < block then Node l cur (tree_erase key block r)
      else tree_join l r)"

definition tree_ok :: "('a \<Rightarrow> u64) \<Rightarrow> 'a tree \<Rightarrow> bool" where
  "tree_ok key t \<longleftrightarrow> sorted_wrt (\<lambda>x y. key x < key y) (inorder t)"

section \<open>The laws of the trees\<close>

locale block_tree =
  fixes find :: "'t \<Rightarrow> u64 \<Rightarrow> 'a option" and insert :: "'a \<Rightarrow> 't \<Rightarrow> 'a \<times> 't" and put :: "'a \<Rightarrow> 't \<Rightarrow> 't"
    and erase :: "u64 \<Rightarrow> 't \<Rightarrow> 't" and key :: "'a \<Rightarrow> u64" and ok :: "'t \<Rightarrow> bool"
  assumes ok_insert: "ok t \<Longrightarrow> ok (snd (insert x t))"
    and ok_put: "ok t \<Longrightarrow> ok (put x t)"
    and ok_erase: "ok t \<Longrightarrow> ok (erase b t)"
    and find_key: "ok t \<Longrightarrow> find t b = Some x \<Longrightarrow> key x = b"
    and insert_found: "ok t \<Longrightarrow> fst (insert x t) = (case find t (key x) of Some y \<Rightarrow> y | None \<Rightarrow> x)"
    and find_insert: "ok t \<Longrightarrow> find (snd (insert x t)) b = (if b = key x then Some (fst (insert x t)) else find t b)"
    and find_put: "ok t \<Longrightarrow> find (put x t) b = (if b = key x then map_option (\<lambda>_. x) (find t b) else find t b)"
    and find_erase: "ok t \<Longrightarrow> find (erase c t) b = (if b = c then None else find t b)"
begin

text \<open>What the code does to a node it has just looked up or made.\<close>

lemma find_put_found: "ok t \<Longrightarrow> find t (key x) = Some y \<Longrightarrow> find (put x t) = (find t)(key x \<mapsto> x)"
  by (auto simp: find_put fun_eq_iff)

lemma find_insert_new: "ok t \<Longrightarrow> find t (key x) = None \<Longrightarrow> find (snd (insert x t)) = (find t)(key x \<mapsto> x)"
  by (auto simp: find_insert insert_found fun_eq_iff)

lemma find_insert_old: "ok t \<Longrightarrow> find t (key x) = Some y \<Longrightarrow> find (snd (insert x t)) = find t"
  by (auto simp: find_insert insert_found fun_eq_iff)

lemma find_insert_put:
  "ok t \<Longrightarrow> find t (key x) = None \<Longrightarrow> key y = key x \<Longrightarrow> find (put y (snd (insert x t))) = (find t)(key x \<mapsto> y)"
  using ok_insert find_put_found [of "snd (insert x t)" y x] by (simp add: find_insert_new)

end

lemma tree_find_iff:
  "tree_ok key t \<Longrightarrow> tree_find key t b = Some x \<longleftrightarrow> x \<in> set (inorder t) \<and> key x = b"
proof (induction t)
  case (Node l a r)
  then have "tree_ok key l" "tree_ok key r" "\<forall>y \<in> set (inorder l). key y < key a" "\<forall>y \<in> set (inorder r). key a < key y"
    by (auto simp: tree_ok_def sorted_wrt_append)
  with Node.IH show ?case by (auto simp: not_less)
qed simp

lemma tree_find_None: "tree_ok key t \<Longrightarrow> tree_find key t b = None \<longleftrightarrow> (\<forall>x \<in> set (inorder t). key x \<noteq> b)"
  using tree_find_iff [of key t b] by (cases "tree_find key t b") auto

lemma inorder_tree_put: "inorder (tree_put key x t) = map (\<lambda>y. if key y = key x then x else y) (inorder t)"
  by (induction t) (auto simp: tree_put_def)

lemma inorder_tree_join: "inorder (tree_join l r) = inorder l @ inorder r"
  by (induction l) auto

lemma inorder_tree_erase:
  "tree_ok key t \<Longrightarrow> inorder (tree_erase key b t) = filter (\<lambda>x. key x \<noteq> b) (inorder t)"
proof (induction t)
  case (Node l a r)
  then have o: "tree_ok key l" "tree_ok key r" "\<forall>y \<in> set (inorder l). key y < key a" "\<forall>y \<in> set (inorder r). key a < key y"
    by (auto simp: tree_ok_def sorted_wrt_append)
  have "filter (\<lambda>x. key x \<noteq> b) (inorder r) = inorder r" if "b \<le> key a"
    using o(4) that by (intro filter_True) auto
  moreover have "filter (\<lambda>x. key x \<noteq> b) (inorder l) = inorder l" if "key a \<le> b"
    using o(3) that by (intro filter_True) auto
  ultimately show ?case using Node.IH o by (auto simp: inorder_tree_join not_less)
qed simp

lemma tree_insert_spec:
  "tree_ok key t \<Longrightarrow> tree_ok key (snd (tree_insert key x t)) \<and>
     fst (tree_insert key x t) = (case tree_find key t (key x) of Some y \<Rightarrow> y | None \<Rightarrow> x) \<and>
     set (inorder (snd (tree_insert key x t))) = set (inorder t) \<union> {fst (tree_insert key x t)}"
proof (induction t)
  case (Node l a r)
  then have o: "tree_ok key l" "tree_ok key r" "\<forall>y \<in> set (inorder l). key y < key a" "\<forall>y \<in> set (inorder r). key a < key y"
    by (auto simp: tree_ok_def sorted_wrt_append)
  have k: "key (fst (tree_insert key x l)) = key x" "key (fst (tree_insert key x r)) = key x"
    using Node.IH o(1,2) tree_find_iff by (fastforce split: option.splits)+
  have t: "key a < key x \<Longrightarrow> \<forall>y \<in> set (inorder l). key y < key x" "key x < key a \<Longrightarrow> \<forall>y \<in> set (inorder r). key x < key y"
    using o(3,4) by (auto intro: less_trans)
  show ?case
    using Node.IH o k t Node.prems by (auto simp: tree_ok_def sorted_wrt_append Let_def split: prod.splits)
qed (simp add: tree_ok_def)

lemma find_by_set:
  assumes "tree_ok key t" "tree_ok key t'" "\<And>x. key x = b \<Longrightarrow> x \<in> set (inorder t') \<longleftrightarrow> x \<in> set (inorder t)"
  shows "tree_find key t' b = tree_find key t b"
proof (cases "tree_find key t' b")
  case None
  then show ?thesis using assms tree_find_None by metis
next
  case (Some x)
  then show ?thesis using assms tree_find_iff by metis
qed

interpretation kt: block_tree "tree_find key" "tree_insert key" "tree_put key" "tree_erase key" key "tree_ok key"
proof
  fix t :: "'a tree" and x b c
  assume ok: "tree_ok key t"
  note ins = tree_insert_spec [OF ok, of x]
  show "tree_ok key (snd (tree_insert key x t))"
    "fst (tree_insert key x t) = (case tree_find key t (key x) of Some y \<Rightarrow> y | None \<Rightarrow> x)" using ins by auto
  show put: "tree_ok key (tree_put key x t)"
  proof -
    have "key (if key y = key x then x else y) = key y" for y by simp
    then show ?thesis using ok unfolding tree_ok_def inorder_tree_put sorted_wrt_map by presburger
  qed
  show er: "tree_ok key (tree_erase key b t)"
    using ok by (simp add: tree_ok_def inorder_tree_erase [OF ok] sorted_wrt_filter)
  show "tree_find key t b = Some x \<Longrightarrow> key x = b" using tree_find_iff [OF ok] by metis
  show "tree_find key (snd (tree_insert key x t)) b =
      (if b = key x then Some (fst (tree_insert key x t)) else tree_find key t b)"
  proof -
    have k: "key (fst (tree_insert key x t)) = key x"
      using ins tree_find_iff [OF ok] by (auto split: option.splits)
    show ?thesis
    proof (cases "b = key x")
      case True
      then show ?thesis using ins k by (simp add: tree_find_iff)
    next
      case False
      then have "tree_find key (snd (tree_insert key x t)) b = tree_find key t b"
        using ins k by (intro find_by_set ok) auto
      then show ?thesis using False by simp
    qed
  qed
  show "tree_find key (tree_put key x t) b =
      (if b = key x then map_option (\<lambda>_. x) (tree_find key t b) else tree_find key t b)"
  proof (cases "b = key x")
    case True
    then show ?thesis
      using tree_find_iff [OF ok, of b] tree_find_None [OF ok, of b] tree_find_iff [OF put, of b x] tree_find_None [OF put, of b]
      by (cases "tree_find key t b") (auto simp: inorder_tree_put)
  next
    case False
    have "y \<in> set (inorder (tree_put key x t)) \<longleftrightarrow> y \<in> set (inorder t)" if "key y = b" for y
      using False that by (auto simp: inorder_tree_put image_iff)
    then show ?thesis using False find_by_set [OF ok put] by simp
  qed
  show "tree_find key (tree_erase key c t) b = (if b = c then None else tree_find key t b)"
  proof -
    have er: "tree_ok key (tree_erase key c t)"
      using ok by (simp add: tree_ok_def inorder_tree_erase [OF ok] sorted_wrt_filter)
    show ?thesis
    proof (cases "b = c")
      case True
      then show ?thesis using er by (simp add: tree_find_None inorder_tree_erase [OF ok])
    next
      case False
      then show ?thesis using find_by_set [OF ok er, of b] by (simp add: inorder_tree_erase [OF ok])
    qed
  qed
qed

section \<open>Packed maps\<close>

text \<open>\<open>struct gfs2_bmap\<close>: a map with two bits for each block (the types of blocks), or one.\<close>

record gfs2_bmap =
  bm_size :: u64
  bm_mapsize :: u64
  bm_map :: bytes

definition BLOCKMAP_SIZE2 :: "u64 \<Rightarrow> u64" where "BLOCKMAP_SIZE2 sz = drop_bit 2 sz"
definition BLOCKMAP_SIZE1 :: "u64 \<Rightarrow> u64" where "BLOCKMAP_SIZE1 sz = drop_bit 3 sz"
definition BLOCKMAP_BYTE_OFFSET2 :: "u64 \<Rightarrow> nat" where "BLOCKMAP_BYTE_OFFSET2 x = unat (push_bit 1 (x AND 3))"
definition BLOCKMAP_BYTE_OFFSET1 :: "u64 \<Rightarrow> nat" where "BLOCKMAP_BYTE_OFFSET1 x = unat (x AND 7)"

definition gfs2_blockmap_create :: "u64 \<Rightarrow> gfs2_bmap" where
  "gfs2_blockmap_create sz =
     \<lparr>bm_size = sz, bm_mapsize = BLOCKMAP_SIZE2 sz + 1, bm_map = replicate (unat (BLOCKMAP_SIZE2 sz + 1)) 0\<rparr>"

definition link1_create :: "u64 \<Rightarrow> gfs2_bmap" where
  "link1_create sz =
     \<lparr>bm_size = sz, bm_mapsize = BLOCKMAP_SIZE1 sz + 1, bm_map = replicate (unat (BLOCKMAP_SIZE1 sz + 1)) 0\<rparr>"

text \<open>
  The look-ups do not compare the block with the sz of the map (None past its bytes); the updates do.
\<close>

definition block_type :: "gfs2_bmap \<Rightarrow> u64 \<Rightarrow> nat option" where
  "block_type bl bblock =
     (let k = unat (BLOCKMAP_SIZE2 bblock); b = BLOCKMAP_BYTE_OFFSET2 bblock in
      if k < length (bm_map bl) then Some (unat (drop_bit b (bm_map bl ! k AND push_bit b 3))) else None)"

definition link1_type :: "gfs2_bmap \<Rightarrow> u64 \<Rightarrow> nat option" where
  "link1_type bl bblock =
     (let k = unat (BLOCKMAP_SIZE1 bblock); b = BLOCKMAP_BYTE_OFFSET1 bblock in
      if k < length (bm_map bl) then Some (unat (drop_bit b (bm_map bl ! k AND push_bit b 1))) else None)"

definition gfs2_blockmap_set :: "gfs2_bmap \<Rightarrow> u64 \<Rightarrow> nat \<Rightarrow> int \<times> gfs2_bmap" where
  "gfs2_blockmap_set bmap bblock mark =
     (if bm_size bmap < bblock then (-1, bmap)
      else
        let k = unat (BLOCKMAP_SIZE2 bblock); b = BLOCKMAP_BYTE_OFFSET2 bblock;
            byte = bm_map bmap ! k;
            byte = byte AND NOT (push_bit b 3);
            byte = byte OR push_bit b (of_nat mark AND 3)
        in (0, bmap\<lparr>bm_map := (bm_map bmap)[k := byte]\<rparr>))"

definition link1_set :: "gfs2_bmap \<Rightarrow> u64 \<Rightarrow> nat \<Rightarrow> int \<times> gfs2_bmap" where
  "link1_set bmap bblock mark =
     (if bm_size bmap < bblock then (-1, bmap)
      else
        let k = unat (BLOCKMAP_SIZE1 bblock); b = BLOCKMAP_BYTE_OFFSET1 bblock;
            byte = bm_map bmap ! k;
            byte = byte AND NOT (push_bit b 1);
            byte = byte OR push_bit b (of_nat mark AND 1)
        in (0, bmap\<lparr>bm_map := (bm_map bmap)[k := byte]\<rparr>))"

text \<open>The interface of both: a map from the blocks up to its sz to small numbers.\<close>

locale packed_map =
  fixes get :: "gfs2_bmap \<Rightarrow> u64 \<Rightarrow> nat option" and set :: "gfs2_bmap \<Rightarrow> u64 \<Rightarrow> nat \<Rightarrow> int \<times> gfs2_bmap"
    and create :: "u64 \<Rightarrow> gfs2_bmap" and ok :: "gfs2_bmap \<Rightarrow> bool" and lim :: nat
  assumes ok_create: "ok (create sz) \<and> bm_size (create sz) = sz"
    and get_create: "b \<le> sz \<Longrightarrow> get (create sz) b = Some 0"
    and get_range: "ok m \<Longrightarrow> b \<le> bm_size m \<Longrightarrow> \<exists>v < lim. get m b = Some v"
    and set_small: "bm_size m < b \<Longrightarrow> set m b v = (-1, m)"
    and set_ok: "ok m \<Longrightarrow> b \<le> bm_size m \<Longrightarrow> fst (set m b v) = 0 \<and> ok (snd (set m b v)) \<and> bm_size (snd (set m b v)) = bm_size m"
    and get_set: "ok m \<Longrightarrow> b \<le> bm_size m \<Longrightarrow> c \<le> bm_size m \<Longrightarrow>
      get (snd (set m b v)) c = (if c = b then Some (v mod lim) else get m c)"
begin

text \<open>Many marks: the last one of a block counts.\<close>

lemma get_fold:
  "ok m \<Longrightarrow> \<forall>(b, v) \<in> List.set bvs. b \<le> bm_size m \<Longrightarrow> c \<le> bm_size m \<Longrightarrow>
     get (fold (\<lambda>(b, v) m. snd (set m b v)) bvs m) c =
       (case map_of (rev bvs) c of Some v \<Rightarrow> Some (v mod lim) | None \<Rightarrow> get m c)"
proof (induction bvs arbitrary: m)
  case (Cons bv bvs)
  obtain b v where bv: "bv = (b, v)" by (cases bv)
  have b: "b \<le> bm_size m" using Cons.prems(2) bv by auto
  note o = set_ok [OF Cons.prems(1) b, of v]
  have "get (fold (\<lambda>(b, v) m. snd (set m b v)) bvs (snd (set m b v))) c =
      (case map_of (rev bvs) c of Some v \<Rightarrow> Some (v mod lim) | None \<Rightarrow> get (snd (set m b v)) c)"
    using Cons.IH [of "snd (set m b v)"] Cons.prems o by auto
  then show ?case
    using get_set [OF Cons.prems(1) b Cons.prems(3), of v] bv by (auto simp: map_add_def split: option.splits)
qed simp

end

lemma field_same:
  fixes byte v :: u8
  assumes "b + w \<le> 8"
  shows "drop_bit b ((byte AND NOT (push_bit b (mask w)) OR push_bit b (v AND mask w)) AND push_bit b (mask w)) = v AND mask w"
  using assms by (intro bit_word_eqI) (auto simp: bit_simps)

lemma field_other:
  fixes byte v :: u8
  assumes "b + w \<le> c \<or> c + w \<le> b"
  shows "drop_bit c ((byte AND NOT (push_bit b (mask w)) OR push_bit b (v AND mask w)) AND push_bit c (mask w)) =
    drop_bit c (byte AND push_bit c (mask w))"
  using assms by (intro bit_word_eqI) (auto simp: bit_simps)

lemma offset2: "BLOCKMAP_BYTE_OFFSET2 x = 2 * (unat x mod 4)"
proof -
  have "unat (x AND 3) = unat x mod 4" using unat_and_mask [of x 2] by (simp add: mask_eq_exp_minus_1)
  then show ?thesis unfolding BLOCKMAP_BYTE_OFFSET2_def unat_push_bit by simp
qed

lemma offset1: "BLOCKMAP_BYTE_OFFSET1 x = unat x mod 8"
  using unat_and_mask [of x 3] by (simp add: BLOCKMAP_BYTE_OFFSET1_def mask_eq_exp_minus_1)

lemma map_sizes: "unat (BLOCKMAP_SIZE2 x) = unat x div 4" "unat (BLOCKMAP_SIZE1 x) = unat x div 8"
  by (simp_all add: BLOCKMAP_SIZE2_def BLOCKMAP_SIZE1_def unat_drop_bit)

lemma map_alloc: "unat (BLOCKMAP_SIZE2 x + 1) = unat x div 4 + 1" "unat (BLOCKMAP_SIZE1 x + 1) = unat x div 8 + 1"
  using u64_lt [of x] by (simp_all add: unat_add_no_wrap map_sizes)

lemmas map_simps = offset2 offset1 map_sizes map_alloc

text \<open>Both maps are one with \<open>w\<close> bits for each block, \<open>n\<close> blocks in a byte.\<close>

definition field_get :: "nat \<Rightarrow> nat \<Rightarrow> gfs2_bmap \<Rightarrow> u64 \<Rightarrow> nat option" where
  "field_get w n m b = (if unat b div n < length (bm_map m)
     then Some (unat (drop_bit (w * (unat b mod n)) (bm_map m ! (unat b div n) AND push_bit (w * (unat b mod n)) (mask w)))) else None)"

definition field_byte :: "nat \<Rightarrow> nat \<Rightarrow> gfs2_bmap \<Rightarrow> u64 \<Rightarrow> nat \<Rightarrow> u8" where
  "field_byte w n m b v = bm_map m ! (unat b div n) AND NOT (push_bit (w * (unat b mod n)) (mask w))
     OR push_bit (w * (unat b mod n)) (of_nat v AND mask w)"

definition field_set :: "nat \<Rightarrow> nat \<Rightarrow> gfs2_bmap \<Rightarrow> u64 \<Rightarrow> nat \<Rightarrow> int \<times> gfs2_bmap" where
  "field_set w n m b v = (if bm_size m < b then (-1, m) else (0, m\<lparr>bm_map := (bm_map m)[unat b div n := field_byte w n m b v]\<rparr>))"

lemma map_fields:
  "block_type = field_get 2 4" "gfs2_blockmap_set = field_set 2 4" "link1_type = field_get 1 8" "link1_set = field_set 1 8"
  by (simp_all add: fun_eq_iff block_type_def gfs2_blockmap_set_def link1_type_def link1_set_def field_get_def field_set_def
      field_byte_def map_simps Let_def mask_eq_exp_minus_1)

lemma field_slot:
  assumes "w * n = 8"
  shows "w * (unat (b :: u64) mod n) + w \<le> 8"
proof -
  have "unat b mod n < n" using assms by (cases n) simp_all
  then have "w * Suc (unat b mod n) \<le> w * n" by (intro mult_le_mono2) simp
  then show ?thesis using assms by simp
qed

lemma field_byte_same:
  assumes "w * n = 8"
  shows "drop_bit (w * (unat b mod n)) (field_byte w n m b v AND push_bit (w * (unat b mod n)) (mask w)) = of_nat v AND mask w"
  unfolding field_byte_def by (rule field_same [OF field_slot [OF assms]])

lemma field_byte_other:
  assumes "unat c div n = unat b div n" "c \<noteq> b"
  shows "drop_bit (w * (unat c mod n)) (field_byte w n m b v AND push_bit (w * (unat c mod n)) (mask w)) =
    drop_bit (w * (unat c mod n)) (bm_map m ! (unat b div n) AND push_bit (w * (unat c mod n)) (mask w))"
proof -
  have "unat b mod n \<noteq> unat c mod n" using assms by (metis mult_div_mod_eq word_unat_eq_iff)
  then have "Suc (unat b mod n) \<le> unat c mod n \<or> Suc (unat c mod n) \<le> unat b mod n" by auto
  then have "w * Suc (unat b mod n) \<le> w * (unat c mod n) \<or> w * Suc (unat c mod n) \<le> w * (unat b mod n)"
    using mult_le_mono2 by blast
  then show ?thesis unfolding field_byte_def by (intro field_other) (simp add: add.commute)
qed

definition bmap_ok :: "nat \<Rightarrow> gfs2_bmap \<Rightarrow> bool" where
  "bmap_ok n m \<longleftrightarrow> unat (bm_size m) div n < length (bm_map m)"

lemma bmap_ok_index: "bmap_ok n m \<Longrightarrow> b \<le> bm_size m \<Longrightarrow> unat b div n < length (bm_map m)"
  using div_le_mono [of "unat b" "unat (bm_size m)" n] by (simp add: bmap_ok_def word_le_nat_alt)

lemma field_laws:
  assumes w: "w * n = 8" and ok: "bmap_ok n m" and b: "b \<le> bm_size m" and c: "c \<le> bm_size m"
  shows "\<exists>v < 2 ^ w. field_get w n m b = Some v"
    "fst (field_set w n m b v) = 0 \<and> bmap_ok n (snd (field_set w n m b v)) \<and> bm_size (snd (field_set w n m b v)) = bm_size m"
    "field_get w n (snd (field_set w n m b v)) c = (if c = b then Some (v mod 2 ^ w) else field_get w n m c)"
proof -
  note k = bmap_ok_index [OF ok b] and l = bmap_ok_index [OF ok c]
  have w8: "w \<le> 8" using w by (cases n) auto
  have lt: "unat (drop_bit j (x AND push_bit j (mask w))) < 2 ^ w" if "j + w \<le> 8" for x :: u8 and j
  proof -
    have "drop_bit j (x AND push_bit j (mask w)) = drop_bit j x AND mask w"
      using that by (intro bit_word_eqI) (auto simp: bit_simps)
    then show ?thesis by (simp only: unat_and_mask) simp
  qed
  show "\<exists>v < 2 ^ w. field_get w n m b = Some v" using k lt [OF field_slot [OF w]] by (simp add: field_get_def)
  show "fst (field_set w n m b v) = 0 \<and> bmap_ok n (snd (field_set w n m b v)) \<and> bm_size (snd (field_set w n m b v)) = bm_size m"
    using ok leD [OF b] by (simp add: field_set_def bmap_ok_def)
  have v: "unat (of_nat v AND (mask w :: u8)) = v mod 2 ^ w"
    using w8 mod_mod_cancel [OF le_imp_power_dvd [OF w8, of 2], of v] by (simp only: unat_and_mask unat_of_nat len_num1 len_bit0 mult_1_right) simp
  have upd: "bm_map (m\<lparr>bm_map := y\<rparr>) = y" for y by simp
  show "field_get w n (snd (field_set w n m b v)) c = (if c = b then Some (v mod 2 ^ w) else field_get w n m c)"
  proof (cases "c = b")
    case True
    then show ?thesis
      using k leD [OF b] by (simp only: field_set_def field_get_def if_False snd_conv upd length_list_update
          nth_list_update_eq if_True field_byte_same [OF w] v refl simp_thms)
  next
    case False
    then show ?thesis
      using l leD [OF b] field_byte_other [of c n b w m v]
      by (cases "unat c div n = unat b div n") (auto simp: field_set_def field_get_def)
  qed
qed

lemma create_laws:
  "bmap_ok 4 (gfs2_blockmap_create sz)" "bmap_ok 8 (link1_create sz)"
  "bm_size (gfs2_blockmap_create sz) = sz" "bm_size (link1_create sz) = sz"
  "b \<le> sz \<Longrightarrow> block_type (gfs2_blockmap_create sz) b = Some 0" "b \<le> sz \<Longrightarrow> link1_type (link1_create sz) b = Some 0"
  using div_le_mono [of "unat b" "unat sz" 4] div_le_mono [of "unat b" "unat sz" 8]
  by (simp_all add: bmap_ok_def gfs2_blockmap_create_def link1_create_def block_type_def link1_type_def map_simps Let_def
      word_le_nat_alt del: replicate_Suc)

interpretation bm2: packed_map block_type gfs2_blockmap_set gfs2_blockmap_create "bmap_ok 4" 4
proof
  fix m b c v
  assume a: "bmap_ok 4 m" "b \<le> bm_size m"
  show "\<exists>v<4. block_type m b = Some v" "fst (gfs2_blockmap_set m b v) = 0 \<and> bmap_ok 4 (snd (gfs2_blockmap_set m b v)) \<and>
      bm_size (snd (gfs2_blockmap_set m b v)) = bm_size m"
    using field_laws(1,2) [OF _ a a(2), of 2] by (simp_all add: map_fields)
  show "c \<le> bm_size m \<Longrightarrow> block_type (snd (gfs2_blockmap_set m b v)) c = (if c = b then Some (v mod 4) else block_type m c)"
    using field_laws(3) [OF _ a, of 2 c v] by (simp add: map_fields)
qed (simp_all add: create_laws gfs2_blockmap_set_def)

interpretation bm1: packed_map link1_type link1_set link1_create "bmap_ok 8" 2
proof
  fix m b c v
  assume a: "bmap_ok 8 m" "b \<le> bm_size m"
  show "\<exists>v<2. link1_type m b = Some v" "fst (link1_set m b v) = 0 \<and> bmap_ok 8 (snd (link1_set m b v)) \<and>
      bm_size (snd (link1_set m b v)) = bm_size m"
    using field_laws(1,2) [OF _ a a(2), of 1] by (simp_all add: map_fields)
  show "c \<le> bm_size m \<Longrightarrow> link1_type (snd (link1_set m b v)) c = (if c = b then Some (v mod 2) else link1_type m c)"
    using field_laws(3) [OF _ a, of 1 c v] by (simp add: map_fields)
qed (simp_all add: create_laws link1_set_def)

section \<open>The state\<close>

record inode_info =
  ii_num :: lgfs2_inum
  ii_di_nlink :: u32
  ii_counted_links :: u32

record dir_info =
  dinode :: lgfs2_inum
  treewalk_parent :: u64
  dotdot_parent :: lgfs2_inum
  di_nlink :: u32
  counted_links :: u32
  checked :: bool

text \<open>\<open>reftypecount\<close> has a place for each \<open>enum dup_ref_type\<close>.\<close>

datatype dup_ref_type = REF_AS_DATA | REF_AS_META | REF_AS_EA | REF_IS_INODE | REF_TYPES

record inode_with_dups =
  block_no :: u64
  dup_count :: int
  reftypecount :: "dup_ref_type \<Rightarrow> int"
  dup_parent :: u64
  dup_name :: "bytes option"

text \<open>The two flags of \<open>dup_flags\<close> are fields.\<close>

record duptree =
  REF1_FOUND :: bool
  REF1_IS_DUPL :: bool
  refs :: int
  dup_block :: u64
  ref_inode_list :: "inode_with_dups list"
  ref_invinode_list :: "inode_with_dups list"

record fsck =
  fk_fs :: fs
  fk_md :: system_inodes
  lf_dip :: "vinode option"
  opts_yes :: bool
  opts_no :: bool
  keys :: "u8 list"
  errors_found :: int
  errors_corrected :: int
  fsck_abort :: bool
  skip_this_pass :: bool
  last_fs_block :: u64
  dirtree :: "dir_info tree"
  inodetree :: "inode_info tree"
  dup_blocks :: "duptree tree"
  dups_found :: int
  dups_found_first :: int
  nlink1map :: gfs2_bmap
  clink1map :: gfs2_bmap
  blockmap :: gfs2_bmap
  prevrgd :: "u64 option"
  md_next_inum :: u64
  lf_was_created :: bool

definition ii_addr :: "inode_info \<Rightarrow> u64" where "ii_addr ii = in_addr (ii_num ii)"
definition di_addr :: "dir_info \<Rightarrow> u64" where "di_addr di = in_addr (dinode di)"

definition inodetree_find :: "fsck \<Rightarrow> u64 \<Rightarrow> inode_info option" where
  "inodetree_find st block = tree_find ii_addr (inodetree st) block"

definition inodetree_insert :: "lgfs2_inum \<Rightarrow> fsck \<Rightarrow> inode_info \<times> fsck" where
  "inodetree_insert no st =
     (let (ii, t) = tree_insert ii_addr \<lparr>ii_num = no, ii_di_nlink = 0, ii_counted_links = 0\<rparr> (inodetree st)
      in (ii, st\<lparr>inodetree := t\<rparr>))"

definition inodetree_delete :: "inode_info \<Rightarrow> fsck \<Rightarrow> fsck" where
  "inodetree_delete b st = st\<lparr>inodetree := tree_erase ii_addr (ii_addr b) (inodetree st)\<rparr>"

definition put_inode_info :: "inode_info \<Rightarrow> fsck \<Rightarrow> fsck" where
  "put_inode_info ii st = st\<lparr>inodetree := tree_put ii_addr ii (inodetree st)\<rparr>"

definition dirtree_find :: "fsck \<Rightarrow> u64 \<Rightarrow> dir_info option" where
  "dirtree_find st block = tree_find di_addr (dirtree st) block"

definition dirtree_insert :: "lgfs2_inum \<Rightarrow> fsck \<Rightarrow> dir_info \<times> fsck" where
  "dirtree_insert inum st =
     (let (di, t) = tree_insert di_addr \<lparr>dinode = inum, treewalk_parent = 0, dotdot_parent = \<lparr>in_formal_ino = 0, in_addr = 0\<rparr>,
                      di_nlink = 0, counted_links = 0, checked = False\<rparr> (dirtree st)
      in (di, st\<lparr>dirtree := t\<rparr>))"

definition dirtree_delete :: "dir_info \<Rightarrow> fsck \<Rightarrow> fsck" where
  "dirtree_delete b st = st\<lparr>dirtree := tree_erase di_addr (di_addr b) (dirtree st)\<rparr>"

definition put_dir_info :: "dir_info \<Rightarrow> fsck \<Rightarrow> fsck" where
  "put_dir_info di st = st\<lparr>dirtree := tree_put di_addr di (dirtree st)\<rparr>"

section \<open>Questions\<close>

text \<open>
  \<open>generic_interrupt\<close> reads keys until one is among the answers, or is the zero byte, which \<open>strchr\<close>
  finds at the end of the string. What is typed before the question is thrown away and is not in the list.
\<close>

fun generic_interrupt :: "u8 list \<Rightarrow> u8 list \<Rightarrow> (u8 \<times> u8 list) option" where
  "generic_interrupt answers [] = None"
| "generic_interrupt answers (k # ks) =
     (if k = 0 \<or> k \<in> set answers then Some (k, ks) else generic_interrupt answers ks)"

lemma generic_interrupt_shorter: "generic_interrupt a ks = Some (k, ks') \<Longrightarrow> length ks' < length ks"
  by (induction a ks rule: generic_interrupt.induct) (auto split: if_splits)

text \<open>
  The keys of \<open>fsck_query\<close>: 3 is ctrl-c, then \<open>a\<close> (97) aborts and every other answer goes on; \<open>y\<close> and \<open>n\<close> in
  either case (121, 89, 110, 78) end it. The result is the answer, whether to abort and the keys that are left.
\<close>

function query_loop :: "u8 list \<Rightarrow> (bool \<times> bool \<times> u8 list) option" where
  "query_loop [] = None"
| "query_loop (k # ks) =
     (if k = 3 then
        (case generic_interrupt [97, 99] ks of None \<Rightarrow> None
         | Some (r, ks) \<Rightarrow> if r = 97 then Some (False, True, ks) else query_loop ks)
      else if k = 121 \<or> k = 89 then Some (True, False, ks)
      else if k = 110 \<or> k = 78 then Some (False, False, ks)
      else query_loop ks)"
  by pat_completeness auto
termination by (relation "measure length") (auto dest: generic_interrupt_shorter)

definition fsck_query :: "fsck \<Rightarrow> (bool \<times> fsck) option" where
  "fsck_query st =
     (let st = st\<lparr>errors_found := errors_found st + 1, fsck_abort := False\<rparr> in
      if opts_yes st then Some (True, st\<lparr>errors_corrected := errors_corrected st + 1\<rparr>)
      else if opts_no st then Some (False, st)
      else
        (case query_loop (keys st) of None \<Rightarrow> None
         | Some (ret, abort, ks) \<Rightarrow>
             Some (ret, st\<lparr>keys := ks, fsck_abort := abort,
                           errors_corrected := errors_corrected st + (if ret then 1 else 0)\<rparr>)))"

section \<open>Blocks and inodes\<close>

text \<open>\<open>lgfs2_get_bitmap\<close> looks the group up when it is given none.\<close>

definition lgfs2_get_bitmap :: "fs \<Rightarrow> u64 \<Rightarrow> rgrp_tree option \<Rightarrow> int" where
  "lgfs2_get_bitmap fs blkno rgd =
     (case (if rgd = None then gfs2_blk2rgrpd (fs_rgtree fs) blkno else rgd) of None \<Rightarrow> -1
      | Some rgd \<Rightarrow> get_bitmap (fs_sdp fs) blkno rgd)"

definition bitmap_type :: "fs \<Rightarrow> u64 \<Rightarrow> int" where
  "bitmap_type fs bblock = lgfs2_get_bitmap fs bblock (gfs2_blk2rgrpd (fs_rgtree fs) bblock)"

definition valid_block :: "fs \<Rightarrow> u64 \<Rightarrow> bool" where
  "valid_block fs blkno \<longleftrightarrow>
     \<not> (fssize (fs_sdp fs) < blkno \<or> blkno \<le> LGFS2_SB_ADDR (fs_sdp fs) \<or> lgfs2_get_bitmap fs blkno None < 0)"

definition rgrp_contains_block :: "rgrp_tree \<Rightarrow> u64 \<Rightarrow> bool" where
  "rgrp_contains_block rgd blk \<longleftrightarrow> \<not> blk < rt_addr rgd \<and> \<not> rt_data0 rgd + ucast (rt_data rgd) \<le> blk"

text \<open>The group that an inode remembers is a hint; it is NULL in an inode that was loaded by its block.\<close>

definition valid_block_ip :: "fs \<Rightarrow> u64 \<Rightarrow> bool" where
  "valid_block_ip fs blk \<longleftrightarrow>
     \<not> fssize (fs_sdp fs) < blk \<and> \<not> blk \<le> LGFS2_SB_ADDR (fs_sdp fs) \<and>
     (case gfs2_blk2rgrpd (fs_rgtree fs) blk of None \<Rightarrow> False | Some rgd \<Rightarrow> rgrp_contains_block rgd blk)"

definition is_dir :: "vinode \<Rightarrow> bool \<Rightarrow> bool" where
  "is_dir ip gfs1 \<longleftrightarrow> (gfs1 \<and> is_gfs_dir (vi ip)) \<or> S_ISDIR (i_mode (vi ip))"

text \<open>
  A system inode is shared: changes to it stay in memory, in the first of the pointers that the look-up
  compares.
\<close>

definition inode_at :: "u64 \<Rightarrow> vinode option \<Rightarrow> bool" where
  "inode_at block p = (case p of None \<Rightarrow> False | Some ip \<Rightarrow> in_addr (i_num (vi ip)) = block)"

fun put_first :: "vinode \<Rightarrow> vinode option list \<Rightarrow> vinode option list" where
  "put_first ip [] = []"
| "put_first ip (p # ps) = (if inode_at (in_addr (i_num (vi ip))) p then Some ip # ps else p # put_first ip ps)"

definition put_system_inode :: "vinode \<Rightarrow> fsck \<Rightarrow> fsck" where
  "put_system_inode ip st =
     (let md = fk_md st in
      if inode_at (in_addr (i_num (vi ip))) (lf_dip st) then st\<lparr>lf_dip := Some ip\<rparr>
      else if \<not> sd_gfs1 (fs_sdp (fk_fs st)) then
        (case put_first ip ([md_inum md, md_statfs md, md_jiinode md, md_riinode md, md_qinode md, md_pinode md, md_rooti md, master_dir md] @ md_journal md) of
           i # s # ji # ri # q # p # r # m # js \<Rightarrow>
             st\<lparr>fk_md := \<lparr>md_inum = i, md_statfs = s, md_jiinode = ji, md_riinode = ri, md_qinode = q, md_pinode = p, md_rooti = r,
                          master_dir = m, md_journal = js\<rparr>\<rparr>
         | _ \<Rightarrow> st)
      else
        (case put_first ip ([md_statfs md, md_jiinode md, md_riinode md, md_qinode md, md_rooti md] @ md_journal md) of
           s # ji # ri # q # r # js \<Rightarrow>
             st\<lparr>fk_md := md\<lparr>md_statfs := s, md_jiinode := ji, md_riinode := ri, md_qinode := q, md_rooti := r, md_journal := js\<rparr>\<rparr>
         | _ \<Rightarrow> st))"

definition fsck_system_inode :: "fsck \<Rightarrow> u64 \<Rightarrow> vinode option" where
  "fsck_system_inode st block =
     (let md = fk_md st in
      if inode_at block (lf_dip st) then lf_dip st
      else if \<not> sd_gfs1 (fs_sdp (fk_fs st)) then is_system_inode md block
      else (case find (inode_at block) ([md_statfs md, md_jiinode md, md_riinode md, md_qinode md, md_rooti md] @ md_journal md) of
              None \<Rightarrow> None | Some ip \<Rightarrow> ip))"

definition fsck_load_inode :: "fsck \<Rightarrow> u64 \<Rightarrow> vinode option" where
  "fsck_load_inode st block =
     (case fsck_system_inode st block of Some ip \<Rightarrow> Some ip
      | None \<Rightarrow> if sd_gfs1 (fs_sdp (fk_fs st)) then lgfs2_gfs_inode_read (fk_fs st) block else lgfs2_inode_read (fk_fs st) block)"

definition fsck_inode_put :: "vinode \<Rightarrow> fsck \<Rightarrow> fsck" where
  "fsck_inode_put ip st =
     (if fsck_system_inode st (in_addr (i_num (vi ip))) = None then st\<lparr>fk_fs := inode_put (fk_fs st) ip\<rparr>
      else put_system_inode ip st)"

section \<open>Links\<close>

text \<open>\<open>set_di_nlink\<close> records the links that an inode says it has.\<close>

definition set_di_nlink :: "vinode \<Rightarrow> fsck \<Rightarrow> int \<times> fsck" where
  "set_di_nlink ip st =
     (let a = in_addr (i_num (vi ip)) in
      if is_dir ip (sd_gfs1 (fs_sdp (fk_fs st))) then
        (case dirtree_find st a of None \<Rightarrow> (-1, st)
         | Some di \<Rightarrow> (0, put_dir_info (di\<lparr>di_nlink := i_nlink (vi ip)\<rparr>) st))
      else if i_nlink (vi ip) = 1 then (0, st\<lparr>nlink1map := snd (link1_set (nlink1map st) a 1)\<rparr>)
      else
        (case inodetree_find st a of Some ii \<Rightarrow> (0, put_inode_info (ii\<lparr>ii_di_nlink := i_nlink (vi ip)\<rparr>) st)
         | None \<Rightarrow> let (ii, st) = inodetree_insert (i_num (vi ip)) st
                   in (0, put_inode_info (ii\<lparr>ii_di_nlink := i_nlink (vi ip)\<rparr>) st)))"

abbreviation (input) INCR_LINK_GOOD :: int where "INCR_LINK_GOOD \<equiv> 0"
abbreviation (input) INCR_LINK_INO_MISMATCH :: int where "INCR_LINK_INO_MISMATCH \<equiv> 1"
abbreviation (input) INCR_LINK_CHECK_ORIG :: int where "INCR_LINK_CHECK_ORIG \<equiv> 2"

text \<open>
  \<open>incr_link_count\<close>: a first reference is a bit; the second makes a node, if the inode there has the number
  that the reference gives.
\<close>

definition incr_link_count :: "lgfs2_inum \<Rightarrow> fsck \<Rightarrow> (int \<times> fsck) option" where
  "incr_link_count no st =
     (case dirtree_find st (in_addr no) of Some di \<Rightarrow>
        Some (if in_formal_ino (dinode di) \<noteq> in_formal_ino no then (INCR_LINK_INO_MISMATCH, st)
              else (INCR_LINK_GOOD, put_dir_info (di\<lparr>counted_links := counted_links di + 1\<rparr>) st))
      | None \<Rightarrow>
     (case inodetree_find st (in_addr no) of Some ii \<Rightarrow>
        Some (if in_formal_ino (ii_num ii) \<noteq> in_formal_ino no then (INCR_LINK_INO_MISMATCH, st)
              else (INCR_LINK_GOOD, put_inode_info (ii\<lparr>ii_counted_links := ii_counted_links ii + 1\<rparr>) st))
      | None \<Rightarrow> do {
          t \<leftarrow> link1_type (clink1map st) (in_addr no);
          if t \<noteq> 1 then Some (INCR_LINK_GOOD, st\<lparr>clink1map := snd (link1_set (clink1map st) (in_addr no) 1)\<rparr>)
          else do {
            link_ip \<leftarrow> fsck_load_inode st (in_addr no);
            if in_formal_ino no \<noteq> in_formal_ino (i_num (vi link_ip)) then Some (INCR_LINK_INO_MISMATCH, fsck_inode_put link_ip st)
            else
              let st = st\<lparr>nlink1map := snd (link1_set (nlink1map st) (in_addr no) 0),
                          clink1map := snd (link1_set (clink1map st) (in_addr no) 0)\<rparr>;
                  (ii, st) = inodetree_insert no st;
                  old = ii_addr ii;
                  ii = \<lparr>ii_num = \<lparr>in_formal_ino = in_formal_ino (i_num (vi link_ip)), in_addr = in_addr (i_num (vi link_ip))\<rparr>,
                        ii_di_nlink = 1, ii_counted_links = 2\<rparr>;
                  st = st\<lparr>inodetree := map_tree (\<lambda>y. if ii_addr y = old then ii else y) (inodetree st)\<rparr>
              in Some (INCR_LINK_CHECK_ORIG, fsck_inode_put link_ip st)
          }
        }))"

definition decr_link_count :: "u64 \<Rightarrow> fsck \<Rightarrow> (int \<times> fsck) option" where
  "decr_link_count inode_no st =
     (case dirtree_find st inode_no of Some di \<Rightarrow>
        Some (0, if counted_links di = 0 then st else put_dir_info (di\<lparr>counted_links := counted_links di - 1\<rparr>) st)
      | None \<Rightarrow>
     (case inodetree_find st inode_no of Some ii \<Rightarrow>
        Some (0, if ii_counted_links ii = 0 then st else put_inode_info (ii\<lparr>ii_counted_links := ii_counted_links ii - 1\<rparr>) st)
      | None \<Rightarrow>
          map_option (\<lambda>t. if t = 1 then (0, st\<lparr>clink1map := snd (link1_set (clink1map st) inode_no 0)\<rparr>) else (-1, st))
            (link1_type (clink1map st) inode_no)))"

section \<open>The repair of a block's bits\<close>

text \<open>The group with an address; \<open>with_rg\<close> changes it.\<close>

definition rg_at :: "fs \<Rightarrow> u64 \<Rightarrow> rgrp_tree option" where
  "rg_at fs a = find (\<lambda>rg. rt_addr rg = a) (inorder (fs_rgtree fs))"

text \<open>
  The group that the check works on: the one remembered from the call before, else the one given, else the one
  that is found, which is remembered, though it may be none.
\<close>

definition bitmap_group :: "u64 option \<Rightarrow> u64 \<Rightarrow> fsck \<Rightarrow> rgrp_tree option \<times> fsck" where
  "bitmap_group rgd blk st =
     (let at = (\<lambda>a. case a of None \<Rightarrow> None | Some a \<Rightarrow> rg_at (fk_fs st) a);
          has = (\<lambda>p. case p of None \<Rightarrow> False | Some rg \<Rightarrow> rgrp_contains_block rg blk)
      in if has (at (prevrgd st)) then (at (prevrgd st), st)
         else if has (at rgd) then (at rgd, st)
         else let rg = gfs2_blk2rgrpd (fs_rgtree (fk_fs st)) blk in (rg, st\<lparr>prevrgd := map_option rt_addr rg\<rparr>))"

text \<open>What is known of a dinode that goes, and whether the block counts as an inode.\<close>

definition forget_inode :: "u64 \<Rightarrow> fsck \<Rightarrow> (bool \<times> fsck) option" where
  "forget_inode blk st = do {
     let dt = dirtree_find st blk;
     let st = (case dt of Some dt \<Rightarrow> dirtree_delete dt st | None \<Rightarrow> st);
     case inodetree_find st blk of Some ii \<Rightarrow> Some (True, inodetree_delete ii st)
     | None \<Rightarrow>
         if \<not> sd_gfs1 (fs_sdp (fk_fs st)) then Some (True, st)
         else map_option (\<lambda>t. (dt \<noteq> None \<or> t = 1, st)) (link1_type (nlink1map st) blk)
   }"

definition known_inode :: "u64 \<Rightarrow> fsck \<Rightarrow> bool option" where
  "known_inode blk st =
     (if \<not> sd_gfs1 (fs_sdp (fk_fs st)) then Some True
      else map_option (\<lambda>t. t = 1 \<or> dirtree_find st blk \<noteq> None \<or> inodetree_find st blk \<noteq> None) (link1_type (nlink1map st) blk))"

definition check_n_fix_bitmap :: "u64 option \<Rightarrow> u64 \<Rightarrow> bool \<Rightarrow> nat \<Rightarrow> fsck \<Rightarrow> (int \<times> fsck) option" where
  "check_n_fix_bitmap hint blk error_on_dinode new_state st =
     (let (rgd, st) = bitmap_group hint blk st;
          old_state = lgfs2_get_bitmap (fk_fs st) blk rgd
      in if old_state < 0 then Some (-1, st)
         else if old_state = int new_state then Some (0, st)
         else if error_on_dinode \<and> old_state = int GFS2_BLKST_DINODE \<and> new_state \<noteq> GFS2_BLKST_FREE then Some (1, st)
         else do {
           (ok, st) \<leftarrow> fsck_query st;
           if \<not> ok then Some (0, st)
           else do {
             rgd \<leftarrow> rgd;
             let gfs1 = sd_gfs1 (fs_sdp (fk_fs st));
             let rgd = the (snd (gfs2_set_bitmap (Some rgd) blk (int new_state)));
             let (rgd, rewrite) =
               (if new_state = GFS2_BLKST_FREE then (rgd\<lparr>rt_free := rt_free rgd + 1\<rparr>, True)
                else if old_state = int GFS2_BLKST_FREE then (rgd\<lparr>rt_free := rt_free rgd - 1\<rparr>, True)
                else (rgd, False));
             (rgd, rewrite, st) \<leftarrow>
               (if old_state = int GFS2_BLKST_DINODE \<or> old_state = int GFS2_BLKST_UNLINKED then do {
                  (inode, st) \<leftarrow> forget_inode blk st;
                  let (rgd, rewrite) =
                    (if old_state = int GFS2_BLKST_DINODE
                     then (if inode \<and> 0 < rt_dinodes rgd then set_rt_dinodes (rt_dinodes rgd - 1) rgd
                           else if gfs1 \<and> 0 < rt_usedmeta rgd then set_rt_usedmeta (rt_usedmeta rgd - 1) rgd
                           else rgd, True)
                     else (rgd, rewrite));
                  Some (rgd, rewrite, st\<lparr>nlink1map := snd (link1_set (nlink1map st) blk 0)\<rparr>)
                }
                else if new_state = GFS2_BLKST_DINODE then do {
                  inode \<leftarrow> known_inode blk st;
                  Some (if inode then set_rt_dinodes (rt_dinodes rgd + 1) rgd
                        else if gfs1 then set_rt_usedmeta (rt_usedmeta rgd + 1) rgd else rgd, True, st)
                }
                else Some (rgd, rewrite, st));
             let rgd = (if rewrite then rgrp_header_out (fs_sdp (fk_fs st)) rgd else rgd);
             Some (0, st\<lparr>fk_fs := put_rg rgd (fk_fs st)\<rparr>)
           }
         })"

text \<open>\<open>_fsck_bitmap_set\<close> is the check, with messages; \<open>_fsck_blockmap_set\<close> of pass1.c marks the map of types too.\<close>

definition fsck_blockmap_set :: "u64 option \<Rightarrow> u64 \<Rightarrow> nat \<Rightarrow> bool \<Rightarrow> fsck \<Rightarrow> (int \<times> fsck) option" where
  "fsck_blockmap_set hint bblock mark error_on_dinode st = do {
     (error, st) \<leftarrow> check_n_fix_bitmap hint bblock error_on_dinode mark st;
     if error \<noteq> 0 then Some (error, st)
     else let (error, bl) = gfs2_blockmap_set (blockmap st) bblock mark in Some (error, st\<lparr>blockmap := bl\<rparr>)
   }"

section \<open>Special blocks\<close>

text \<open>block_list.c: a list of block numbers without repetition.\<close>

definition blockfind :: "u64 list \<Rightarrow> u64 \<Rightarrow> u64 option" where
  "blockfind blist num = find (\<lambda>b. b = num) blist"

definition gfs2_special_add :: "u64 list \<Rightarrow> u64 \<Rightarrow> u64 list" where
  "gfs2_special_add blocklist block = blocklist @ [block]"

definition gfs2_special_set :: "u64 list \<Rightarrow> u64 \<Rightarrow> u64 list" where
  "gfs2_special_set blocklist block =
     (if blockfind blocklist block \<noteq> None then blocklist else gfs2_special_add blocklist block)"

end
