(* ===== verification/FsckLink.thy ===== *)
theory FsckLink
  imports Fsck
begin

text \<open>
  The counting of links (link.c): however a count is kept, as a bit, in a node of the tree of inodes or in one of
  the tree of directories, it is the number of references seen.
\<close>

section \<open>Inodes loaded and put back\<close>

lemma inode_put_clean:
  "\<not> b_modified (vbh ip) \<Longrightarrow> inode_put fs ip = fs"
  by (simp add: inode_put_def fs_brelse_def brelse_def Let_def)

lemma find_at_addr: "find (inode_at a) ps = Some p \<Longrightarrow> \<exists>ip. p = Some ip \<and> in_addr (i_num (vi ip)) = a"
  by (auto simp: find_Some_iff inode_at_def split: option.splits)

lemma put_first_found:
  "find (inode_at (in_addr (i_num (vi ip)))) ps = Some (Some ip) \<Longrightarrow> put_first ip ps = ps"
  by (induction ps) (auto split: if_splits)

lemma is_system_inode_find: "is_system_inode md a = (case find (inode_at a) ([md_inum md, md_statfs md, md_jiinode md, md_riinode md, md_qinode md, md_pinode md, md_rooti md, master_dir md]
         @ md_journal md) of None \<Rightarrow> None | Some ip \<Rightarrow> ip)"
proof -
  have "(\<lambda>ip. case ip of None \<Rightarrow> False | Some ip \<Rightarrow> a = in_addr (i_num (vi ip))) = inode_at a"
    by (auto simp: fun_eq_iff inode_at_def split: option.split)
  then show ?thesis by (simp only: is_system_inode_def)
qed

definition system_ptrs :: "fsck \<Rightarrow> vinode option list" where
  "system_ptrs st = (let md = fk_md st in
     (if sd_gfs1 (fs_sdp (fk_fs st)) then [md_statfs md, md_jiinode md, md_riinode md, md_qinode md, md_rooti md]
      else [md_inum md, md_statfs md, md_jiinode md, md_riinode md, md_qinode md, md_pinode md, md_rooti md, master_dir md])
     @ md_journal md)"

lemma system_inode_ptrs:
  "fsck_system_inode st a = (if inode_at a (lf_dip st) then lf_dip st
     else case find (inode_at a) (system_ptrs st) of None \<Rightarrow> None | Some ip \<Rightarrow> ip)"
  unfolding fsck_system_inode_def is_system_inode_find system_ptrs_def Let_def by simp

lemma system_inode_addr: "fsck_system_inode st a = Some ip \<Longrightarrow> in_addr (i_num (vi ip)) = a"
  unfolding system_inode_ptrs by (auto simp: inode_at_def dest!: find_at_addr split: if_splits option.splits)

lemma system_inode_put:
  assumes "fsck_system_inode st a = Some ip"
  shows "put_system_inode ip st = st"
proof (cases "inode_at a (lf_dip st)")
  case True
  then show ?thesis using assms system_inode_addr [OF assms] by (simp add: put_system_inode_def system_inode_ptrs)
next
  case False
  then have "find (inode_at a) (system_ptrs st) = Some (Some ip)"
    using assms by (auto simp: system_inode_ptrs split: option.splits)
  then have "put_first ip (system_ptrs st) = system_ptrs st" using put_first_found system_inode_addr [OF assms] by blast
  then show ?thesis
    using False system_inode_addr [OF assms] unfolding put_system_inode_def system_ptrs_def Let_def
    by (cases "sd_gfs1 (fs_sdp (fk_fs st))") simp_all
qed

lemma load_put:
  assumes "fsck_load_inode st a = Some ip" "in_addr (i_num (vi ip)) = a"
  shows "fsck_inode_put ip st = st"
proof (cases "fsck_system_inode st a")
  case None
  then have "\<not> b_modified (vbh ip)"
    using assms(1) by (auto simp: fsck_load_inode_def lgfs2_gfs_inode_read_def lgfs2_inode_read_def lgfs2_inode_get_def
        bread_def bget_def split: if_splits option.splits)
  then show ?thesis using None assms(2) by (simp add: fsck_inode_put_def inode_put_clean)
next
  case (Some sys)
  then have "sys = ip" using assms(1) by (simp add: fsck_load_inode_def)
  then show ?thesis using Some assms(2) system_inode_put by (auto simp: fsck_inode_put_def)
qed

section \<open>The count of a block\<close>

definition counted :: "fsck \<Rightarrow> u64 \<Rightarrow> nat" where
  "counted st a = (case dirtree_find st a of Some di \<Rightarrow> unat (counted_links di)
     | None \<Rightarrow> (case inodetree_find st a of Some ii \<Rightarrow> unat (ii_counted_links ii)
     | None \<Rightarrow> (case link1_type (clink1map st) a of Some t \<Rightarrow> t | None \<Rightarrow> 0)))"

text \<open>
  The trees are in order, the maps reach the block numbers up to \<open>n\<close>, every node has the number \<open>F\<close> gives its
  block, and the inodes on the device have these numbers and their own addresses.
\<close>

definition links_ok :: "(u64 \<Rightarrow> u64) \<Rightarrow> u64 \<Rightarrow> fsck \<Rightarrow> bool" where
  "links_ok F n st \<longleftrightarrow> tree_ok di_addr (dirtree st) \<and> tree_ok ii_addr (inodetree st) \<and>
     bmap_ok 8 (clink1map st) \<and> bmap_ok 8 (nlink1map st) \<and> n \<le> bm_size (clink1map st) \<and> n \<le> bm_size (nlink1map st) \<and>
     (\<forall>a di. dirtree_find st a = Some di \<longrightarrow> in_formal_ino (dinode di) = F a) \<and>
     (\<forall>a ii. inodetree_find st a = Some ii \<longrightarrow> in_formal_ino (ii_num ii) = F a)"

definition inodes_at :: "(u64 \<Rightarrow> u64) \<Rightarrow> u64 set \<Rightarrow> fsck \<Rightarrow> bool" where
  "inodes_at F A st \<longleftrightarrow> (\<forall>a \<in> A. \<exists>ip. fsck_load_inode st a = Some ip \<and> i_num (vi ip) = \<lparr>in_formal_ino = F a, in_addr = a\<rparr>)"

definition same_inodes :: "fsck \<Rightarrow> fsck \<Rightarrow> bool" where
  "same_inodes st st' \<longleftrightarrow> fk_fs st' = fk_fs st \<and> fk_md st' = fk_md st \<and> lf_dip st' = lf_dip st"

lemma same_inodes_load: "same_inodes st st' \<Longrightarrow> fsck_load_inode st' a = fsck_load_inode st a"
proof -
  assume "same_inodes st st'"
  then have e: "fk_fs st' = fk_fs st" "fk_md st' = fk_md st" "lf_dip st' = lf_dip st" by (simp_all add: same_inodes_def)
  show ?thesis unfolding fsck_load_inode_def system_inode_ptrs system_ptrs_def e ..
qed

lemma same_inodes_at: "same_inodes st st' \<Longrightarrow> inodes_at F A st' = inodes_at F A st"
  by (simp add: inodes_at_def same_inodes_load)

lemma nlink_plus_one: "unat (k :: u32) < 2 ^ 32 - 1 \<Longrightarrow> unat (k + 1) = unat k + 1"
  by (subst unat_add_no_wrap) simp_all

lemma counted_put_dir:
  assumes "links_ok F n st" "dirtree_find st a = Some di" "di' = di\<lparr>counted_links := k\<rparr>"
  shows "links_ok F n (put_dir_info di' st)" "counted (put_dir_info di' st) = (counted st)(a := unat k)"
proof -
  have t: "tree_ok di_addr (dirtree st)" using assms(1) by (simp add: links_ok_def)
  have a: "di_addr di = a" using kt.find_key [OF t] assms(2) by (simp add: dirtree_find_def)
  then have a': "di_addr di' = a" by (simp add: assms(3) di_addr_def)
  have k: "counted_links di' = k" "dinode di' = dinode di" by (simp_all add: assms(3))
  have f: "dirtree_find (put_dir_info di' st) = (dirtree_find st)(a \<mapsto> di')"
    using kt.find_put_found [OF t, of di'] assms(2) a' by (simp add: dirtree_find_def put_dir_info_def fun_eq_iff)
  have i: "inodetree_find (put_dir_info di' st) = inodetree_find st" "clink1map (put_dir_info di' st) = clink1map st"
    "nlink1map (put_dir_info di' st) = nlink1map st" "inodetree (put_dir_info di' st) = inodetree st"
    by (simp_all add: put_dir_info_def inodetree_find_def fun_eq_iff)
  show "counted (put_dir_info di' st) = (counted st)(a := unat k)"
    unfolding fun_eq_iff counted_def f i using k by (auto split: option.split)
  have "tree_ok di_addr (dirtree (put_dir_info di' st))" using kt.ok_put [OF t] by (simp add: put_dir_info_def)
  then show "links_ok F n (put_dir_info di' st)" using assms(1,2) k by (auto simp: links_ok_def f i)
qed

lemma counted_put_inode:
  assumes "links_ok F n st" "dirtree_find st a = None" "inodetree_find st a = Some ii" "ii' = ii\<lparr>ii_counted_links := k\<rparr>"
  shows "links_ok F n (put_inode_info ii' st)" "counted (put_inode_info ii' st) = (counted st)(a := unat k)"
proof -
  have t: "tree_ok ii_addr (inodetree st)" using assms(1) by (simp add: links_ok_def)
  have a: "ii_addr ii = a" using kt.find_key [OF t] assms(3) by (simp add: inodetree_find_def)
  then have a': "ii_addr ii' = a" by (simp add: assms(4) ii_addr_def)
  have k: "ii_counted_links ii' = k" "ii_num ii' = ii_num ii" by (simp_all add: assms(4))
  have f: "inodetree_find (put_inode_info ii' st) = (inodetree_find st)(a \<mapsto> ii')"
    using kt.find_put_found [OF t, of ii'] assms(3) a' by (simp add: inodetree_find_def put_inode_info_def fun_eq_iff)
  have i: "dirtree_find (put_inode_info ii' st) = dirtree_find st" "clink1map (put_inode_info ii' st) = clink1map st"
    "nlink1map (put_inode_info ii' st) = nlink1map st" "dirtree (put_inode_info ii' st) = dirtree st"
    by (simp_all add: put_inode_info_def dirtree_find_def fun_eq_iff)
  show "counted (put_inode_info ii' st) = (counted st)(a := unat k)"
    unfolding fun_eq_iff counted_def f i using assms(2) k by (auto split: option.split)
  have "tree_ok ii_addr (inodetree (put_inode_info ii' st))" using kt.ok_put [OF t] by (simp add: put_inode_info_def)
  then show "links_ok F n (put_inode_info ii' st)" using assms(1,3) k by (auto simp: links_ok_def f i)
qed

lemma counted_set_bit:
  assumes "links_ok F n st" "dirtree_find st a = None" "inodetree_find st a = None" "a \<le> n" "v < 2"
  shows "links_ok F n (st\<lparr>clink1map := snd (link1_set (clink1map st) a v)\<rparr>)"
    "\<forall>b \<le> n. counted (st\<lparr>clink1map := snd (link1_set (clink1map st) a v)\<rparr>) b = ((counted st)(a := v)) b"
proof -
  have m: "bmap_ok 8 (clink1map st)" "a \<le> bm_size (clink1map st)" using assms by (auto simp: links_ok_def)
  note s = bm1.set_ok [OF m, of v]
  show "links_ok F n (st\<lparr>clink1map := snd (link1_set (clink1map st) a v)\<rparr>)"
    using assms(1) s by (auto simp: links_ok_def dirtree_find_def inodetree_find_def)
  show "\<forall>b \<le> n. counted (st\<lparr>clink1map := snd (link1_set (clink1map st) a v)\<rparr>) b = ((counted st)(a := v)) b"
  proof (intro allI impI)
    fix b assume "b \<le> n"
    then have "b \<le> bm_size (clink1map st)" using assms(1) by (auto simp: links_ok_def)
    then show "counted (st\<lparr>clink1map := snd (link1_set (clink1map st) a v)\<rparr>) b = ((counted st)(a := v)) b"
      using bm1.get_set [OF m, of b v] assms(2,3,5)
      by (auto simp: counted_def dirtree_find_def inodetree_find_def split: option.split)
  qed
qed

text \<open>The second reference to a block moves its count from the bit to a node.\<close>

lemma counted_new_node:
  assumes ok: "links_ok F n st" and none: "dirtree_find st a = None" "inodetree_find st a = None" and a: "a \<le> n"
    and no: "in_addr no = a" and ii': "in_addr (ii_num ii') = a" "in_formal_ino (ii_num ii') = F a"
    and st1: "st1 = st\<lparr>nlink1map := snd (link1_set (nlink1map st) a 0), clink1map := snd (link1_set (clink1map st) a 0)\<rparr>"
    and ins: "inodetree_insert no st1 = (ii, st2)"
    and st3: "st3 = st2\<lparr>inodetree := map_tree (\<lambda>y. if ii_addr y = ii_addr ii then ii' else y) (inodetree st2)\<rparr>"
  shows "links_ok F n st3 \<and> same_inodes st st3 \<and> (\<forall>b \<le> n. counted st3 b = ((counted st)(a := unat (ii_counted_links ii'))) b)"
proof -
  let ?new = "\<lparr>ii_num = no, ii_di_nlink = 0, ii_counted_links = 0\<rparr>"
  have t: "tree_ok ii_addr (inodetree st)" using ok by (simp add: links_ok_def)
  have m: "bmap_ok 8 (clink1map st)" "a \<le> bm_size (clink1map st)" "bmap_ok 8 (nlink1map st)" "a \<le> bm_size (nlink1map st)"
    using ok a by (auto simp: links_ok_def)
  note s = bm1.set_ok [OF m(1,2), of 0] bm1.set_ok [OF m(3,4), of 0]
  have k: "ii_addr ?new = a" "ii_addr ii' = a" using no ii' by (simp_all add: ii_addr_def)
  have nf: "tree_find ii_addr (inodetree st) (ii_addr ?new) = None" using none k by (simp add: inodetree_find_def)
  have i: "ii = ?new" "st2 = st1\<lparr>inodetree := snd (tree_insert ii_addr ?new (inodetree st))\<rparr>"
    using ins kt.insert_found [OF t, of ?new] nf by (auto simp: inodetree_insert_def st1 split: prod.splits)
  have tree3: "inodetree st3 = tree_put ii_addr ii' (snd (tree_insert ii_addr ?new (inodetree st)))"
    using k by (simp add: st3 i tree_put_def)
  have f: "inodetree_find st3 = (inodetree_find st)(a \<mapsto> ii')"
    using kt.find_insert_put [OF t nf, of ii'] k by (simp add: inodetree_find_def tree3 fun_eq_iff)
  have e: "dirtree_find st3 = dirtree_find st" "clink1map st3 = snd (link1_set (clink1map st) a 0)"
    "nlink1map st3 = snd (link1_set (nlink1map st) a 0)" "dirtree st3 = dirtree st"
    by (simp_all add: st3 i st1 dirtree_find_def fun_eq_iff)
  have "tree_ok ii_addr (inodetree st3)" using kt.ok_put [OF kt.ok_insert [OF t]] by (simp add: tree3)
  then have "links_ok F n st3" using ok s ii' by (auto simp: links_ok_def e f)
  moreover have "same_inodes st st3" by (simp add: same_inodes_def st3 i st1)
  moreover have "counted st3 b = ((counted st)(a := unat (ii_counted_links ii'))) b" if "b \<le> n" for b
  proof -
    have "b \<le> bm_size (clink1map st)" using ok that by (auto simp: links_ok_def)
    then show ?thesis
      unfolding counted_def f e using bm1.get_set [OF m(1,2), of b 0] none(1) by (auto split: option.split)
  qed
  ultimately show ?thesis by blast
qed

lemma counted_bit: "dirtree_find st a = None \<Longrightarrow> inodetree_find st a = None \<Longrightarrow> link1_type (clink1map st) a = Some t \<Longrightarrow> counted st a = t"
  by (simp add: counted_def)

lemma incr_valid:
  assumes ok: "links_ok F n st" and at: "inodes_at F A st" and no: "in_addr no \<le> n" "in_addr no \<in> A" "in_formal_ino no = F (in_addr no)"
    and small: "counted st (in_addr no) < 2 ^ 32 - 1"
  shows "\<exists>r st'. incr_link_count no st = Some (r, st') \<and> r \<in> {INCR_LINK_GOOD, INCR_LINK_CHECK_ORIG} \<and> links_ok F n st' \<and>
    same_inodes st st' \<and> (\<forall>b \<le> n. counted st' b = ((counted st)(in_addr no := counted st (in_addr no) + 1)) b)"
proof (cases "dirtree_find st (in_addr no)")
  case (Some di)
  let ?di = "di\<lparr>counted_links := counted_links di + 1\<rparr>"
  have c: "counted st (in_addr no) = unat (counted_links di)" using Some by (simp add: counted_def)
  have "in_formal_ino (dinode di) = in_formal_ino no" using ok Some no(3) by (auto simp: links_ok_def)
  then have "incr_link_count no st = Some (0, put_dir_info ?di st)" using Some by (simp add: incr_link_count_def)
  then show ?thesis
    using counted_put_dir [OF ok Some, of ?di "counted_links di + 1"] small c
    by (auto simp: same_inodes_def put_dir_info_def nlink_plus_one)
next
  case None
  note d = None
  show ?thesis
  proof (cases "inodetree_find st (in_addr no)")
    case (Some ii)
    let ?ii = "ii\<lparr>ii_counted_links := ii_counted_links ii + 1\<rparr>"
    have c: "counted st (in_addr no) = unat (ii_counted_links ii)" using Some d by (simp add: counted_def)
    have "in_formal_ino (ii_num ii) = in_formal_ino no" using ok Some no(3) by (auto simp: links_ok_def)
    then have "incr_link_count no st = Some (0, put_inode_info ?ii st)" using Some d by (simp add: incr_link_count_def)
    then show ?thesis
      using counted_put_inode [OF ok d Some, of ?ii "ii_counted_links ii + 1"] small c
      by (auto simp: same_inodes_def put_inode_info_def nlink_plus_one)
  next
    case None
    have m: "bmap_ok 8 (clink1map st)" "in_addr no \<le> bm_size (clink1map st)" using ok no(1) by (auto simp: links_ok_def)
    obtain t where t: "t < 2" "link1_type (clink1map st) (in_addr no) = Some t" using bm1.get_range [OF m] by blast
    note c = counted_bit [OF d None t(2)]
    show ?thesis
    proof (cases "t = 1")
      case False
      let ?st = "st\<lparr>clink1map := snd (link1_set (clink1map st) (in_addr no) 1)\<rparr>"
      have "incr_link_count no st = Some (0, ?st)" using d None t False by (simp add: incr_link_count_def)
      moreover have "counted st (in_addr no) + 1 = 1" using c t False by simp
      ultimately show ?thesis
        using counted_set_bit [OF ok d None no(1), of 1] by (auto simp: same_inodes_def)
    next
      case True
      obtain ip where ip: "fsck_load_inode st (in_addr no) = Some ip" "i_num (vi ip) = \<lparr>in_formal_ino = F (in_addr no), in_addr = in_addr no\<rparr>"
        using at no(2) by (auto simp: inodes_at_def)
      define st1 where "st1 = st\<lparr>nlink1map := snd (link1_set (nlink1map st) (in_addr no) 0), clink1map := snd (link1_set (clink1map st) (in_addr no) 0)\<rparr>"
      obtain ii st2 where ins: "inodetree_insert no st1 = (ii, st2)" by fastforce
      define ii' where "ii' = \<lparr>ii_num = \<lparr>in_formal_ino = F (in_addr no), in_addr = in_addr no\<rparr>, ii_di_nlink = 1, ii_counted_links = 2\<rparr>"
      define st3 where "st3 = st2\<lparr>inodetree := map_tree (\<lambda>y. if ii_addr y = ii_addr ii then ii' else y) (inodetree st2)\<rparr>"
      have n: "links_ok F n st3 \<and> same_inodes st st3 \<and> (\<forall>b \<le> n. counted st3 b = ((counted st)(in_addr no := unat (ii_counted_links ii'))) b)"
        by (rule counted_new_node [OF ok d None no(1) refl _ _ st1_def ins st3_def]) (simp_all add: ii'_def)
      then have "fsck_inode_put ip st3 = st3"
        using ip same_inodes_load [of st st3] by (intro load_put [where a = "in_addr no"]) simp_all
      then have "incr_link_count no st = Some (2, st3)"
        using d None t True ip no(3) ins by (simp add: incr_link_count_def st1_def [symmetric] ii'_def [symmetric] st3_def [symmetric] Let_def)
      then show ?thesis using n c True by (auto simp: ii'_def)
    qed
  qed
qed

lemma decr_counted:
  assumes ok: "links_ok F n st" and a: "a \<le> n" and pos: "0 < counted st a"
  shows "\<exists>st'. decr_link_count a st = Some (0, st') \<and> links_ok F n st' \<and> (\<forall>b \<le> n. counted st' b = ((counted st)(a := counted st a - 1)) b)"
proof -
  have minus: "unat (k - 1) = unat k - 1" if "0 < unat k" for k :: u32 using that by (subst unat_sub) (simp_all add: word_le_nat_alt)
  show ?thesis
  proof (cases "dirtree_find st a")
    case (Some di)
    then have c: "counted st a = unat (counted_links di)" by (simp add: counted_def)
    then show ?thesis
      using Some pos minus counted_put_dir [OF ok Some, of "di\<lparr>counted_links := counted_links di - 1\<rparr>" "counted_links di - 1"]
      by (auto simp: decr_link_count_def)
  next
    case None
    note d = None
    show ?thesis
    proof (cases "inodetree_find st a")
      case (Some ii)
      then have c: "counted st a = unat (ii_counted_links ii)" using d by (simp add: counted_def)
      then show ?thesis
        using d Some pos minus counted_put_inode [OF ok d Some, of "ii\<lparr>ii_counted_links := ii_counted_links ii - 1\<rparr>" "ii_counted_links ii - 1"]
        by (auto simp: decr_link_count_def)
    next
      case None
      have m: "bmap_ok 8 (clink1map st)" "a \<le> bm_size (clink1map st)" using ok a by (auto simp: links_ok_def)
      obtain t where t: "t < 2" "link1_type (clink1map st) a = Some t" using bm1.get_range [OF m] by blast
      then have "t = 1" using pos counted_bit [OF d None t(2)] by simp
      then show ?thesis
        using counted_set_bit [OF ok d None a, of 0] counted_bit [OF d None t(2)] d None t by (auto simp: decr_link_count_def)
    qed
  qed
qed

section \<open>Properties\<close>

text \<open>The references found in the directories, one after the other.\<close>

fun incr_all :: "lgfs2_inum list \<Rightarrow> fsck \<Rightarrow> fsck option" where
  "incr_all [] st = Some st"
| "incr_all (no # nos) st = (case incr_link_count no st of None \<Rightarrow> None | Some (r, st) \<Rightarrow> incr_all nos st)"

text \<open>
  C11. After any sequence of references whose numbers agree with the inodes they name, the links counted for
  every block have grown by exactly the number of references to it, whether the count moved from the map of
  single links to the tree of inodes on the way, was in that tree, or is that of a directory.
\<close>

theorem links_counted:
  assumes "links_ok F n st" "inodes_at F A st" "\<forall>no \<in> set nos. in_addr no \<le> n \<and> in_addr no \<in> A \<and> in_formal_ino no = F (in_addr no)"
    "\<forall>b \<le> n. counted st b + length nos < 2 ^ 32" "b \<le> n"
  shows "\<exists>st'. incr_all nos st = Some st' \<and> links_ok F n st' \<and> counted st' b = counted st b + count_list (map in_addr nos) b"
  using assms
proof (induction nos arbitrary: st)
  case (Cons no nos)
  have no: "in_addr no \<le> n" "in_addr no \<in> A" "in_formal_ino no = F (in_addr no)" "counted st (in_addr no) < 2 ^ 32 - 1"
    using Cons.prems(3,4) by auto
  obtain r st1 where s: "incr_link_count no st = Some (r, st1)" "links_ok F n st1" "same_inodes st st1"
    "\<forall>b \<le> n. counted st1 b = ((counted st)(in_addr no := counted st (in_addr no) + 1)) b"
    using incr_valid [OF Cons.prems(1,2) no] by blast
  have "inodes_at F A st1" using same_inodes_at [OF s(3)] Cons.prems(2) by blast
  moreover have "\<forall>b \<le> n. counted st1 b + length nos < 2 ^ 32" using s(4) Cons.prems(4) by auto
  ultimately obtain st' where "incr_all nos st1 = Some st'" "links_ok F n st'" "counted st' b = counted st1 b + count_list (map in_addr nos) b"
    using Cons.IH [OF s(2)] Cons.prems(3,5) by auto
  then show ?case using s(1,4) Cons.prems(5) by auto
qed simp

text \<open>A run of fsck before its first pass, on a device with one inode.\<close>

definition no_inodes :: system_inodes where
  "no_inodes = \<lparr>md_inum = None, md_statfs = None, md_jiinode = None, md_riinode = None, md_qinode = None, md_pinode = None,
     md_rooti = None, master_dir = None, md_journal = []\<rparr>"

definition fsck_start :: "fs \<Rightarrow> u64 \<Rightarrow> fsck" where
  "fsck_start fs n = \<lparr>fk_fs = fs, fk_md = no_inodes, lf_dip = None, opts_yes = True, opts_no = False, keys = [],
     errors_found = 0, errors_corrected = 0, fsck_abort = False, skip_this_pass = False, last_fs_block = n,
     dirtree = Leaf, inodetree = Leaf, dup_blocks = Leaf, dups_found = 0, dups_found_first = 0,
     nlink1map = link1_create n, clink1map = link1_create n, blockmap = gfs2_blockmap_create n, prevrgd = None,
     md_next_inum = 0, lf_was_created = False\<rparr>"

lemma fsck_start_links: "links_ok F n (fsck_start fs n)" "b \<le> n \<Longrightarrow> counted (fsck_start fs n) b = 0"
  by (simp_all add: links_ok_def fsck_start_def dirtree_find_def inodetree_find_def tree_ok_def create_laws counted_def)

definition inode_example :: bytes where
  "inode_example = lgfs2_dinode_out (inode_zero\<lparr>i_num := \<lparr>in_formal_ino = 9, in_addr = 205\<rparr>\<rparr>) (replicate 512 0)"

lemma inode_example_num: "i_num (lgfs2_dinode_in inode_zero inode_example) = \<lparr>in_formal_ino = 9, in_addr = 205\<rparr>"
  using dinode_in_out [of "replicate 512 0" inode_zero "inode_zero\<lparr>i_num := \<lparr>in_formal_ino = 9, in_addr = 205\<rparr>\<rparr>"]
  by (simp add: inode_example_def size_simps)

theorem links_counted_witness:
  "\<exists>st'. incr_all (replicate 3 \<lparr>in_formal_ino = 9, in_addr = 205\<rparr>) (fsck_start (fs_example\<lparr>fs_disk := [205 \<mapsto> inode_example]\<rparr>) 400) = Some st' \<and>
     counted st' 205 = 3"
proof -
  let ?st = "fsck_start (fs_example\<lparr>fs_disk := [205 \<mapsto> inode_example]\<rparr>) 400"
  have "fsck_load_inode ?st 205 = lgfs2_inode_read (fk_fs ?st) 205"
    by (simp add: fsck_load_inode_def fsck_start_def no_inodes_def system_inode_ptrs system_ptrs_def inode_at_def fs_example_def sbd_example_def)
  then have "inodes_at (\<lambda>_. 9) {205} ?st"
    using inode_example_num by (auto simp: inodes_at_def fsck_start_def lgfs2_inode_read_def bread_def lgfs2_inode_get_def)
  moreover have "count_list (map in_addr (replicate 3 \<lparr>in_formal_ino = 9, in_addr = 205 :: u64\<rparr>)) 205 = 3"
    by (simp add: eval_nat_numeral)
  ultimately show ?thesis
    using links_counted [OF fsck_start_links(1), where n = 400 and b = 205 and nos = "replicate 3 \<lparr>in_formal_ino = 9, in_addr = 205\<rparr>"]
    by (fastforce simp: fsck_start_links(2))
qed

end
