(* ===== verification/FsckPass5.thy ===== *)
theory FsckPass5
  imports FsckLink
begin

text \<open>
  Pass 5 of fsck.gfs2 (pass5.c): the bitmaps and the counts of every resource group are compared with the map of
  block types that the passes before have made, and put right where the user agrees.

  \<open>count\<close> is the list of five counts; the fifth is for the metadata of gfs1. The group is named by its address
  and looked up when its bitmap is read, since the repairs change the tree of groups. None is the result where
  the code ends the program with its internal error, or reads past a bitmap's buffer.
\<close>

section \<open>The pass\<close>

abbreviation (input) GFS1_BLKST_USEDMETA :: nat where "GFS1_BLKST_USEDMETA \<equiv> 4"

definition count_incr :: "nat \<Rightarrow> u32 list \<Rightarrow> u32 list" where
  "count_incr i count = count[i := count ! i + 1]"

definition count_decr :: "nat \<Rightarrow> u32 list \<Rightarrow> u32 list" where
  "count_decr i count = count[i := count ! i - 1]"

text \<open>\<open>gfs2_set_bitmap(gfs2_blk2rgrpd(sdp, block), block, state)\<close>.\<close>

definition set_block :: "fs \<Rightarrow> u64 \<Rightarrow> nat \<Rightarrow> int \<times> fs" where
  "set_block fs block state =
     (let (e, rg) = gfs2_set_bitmap (gfs2_blk2rgrpd (fs_rgtree fs) block) block (int state)
      in (e, case rg of None \<Rightarrow> fs | Some rg \<Rightarrow> put_rg rg fs))"

text \<open>One block: what the bitmap says and what the map says of it.\<close>

definition check_block :: "nat \<Rightarrow> nat \<Rightarrow> u64 \<Rightarrow> u32 list \<Rightarrow> fsck \<Rightarrow> (u32 list \<times> fsck) option" where
  "check_block rg_status q block count st = do {
     let sdp = fs_sdp (fk_fs st);
     count \<leftarrow>
       (if sd_gfs1 sdp \<and> q = GFS2_BLKST_DINODE then
          map_option (\<lambda>bh. if gfs2_check_meta (b_data bh) GFS2_METATYPE_DI = 0 then count_incr GFS2_BLKST_DINODE count
                           else count_incr GFS1_BLKST_USEDMETA count) (bread (fs_disk (fk_fs st)) block)
        else Some (count_incr q count));
     if q = GFS2_BLKST_UNLINKED then do {
       (ok, st) \<leftarrow> fsck_query st;
       if ok then
         let (e, fs) = set_block (fk_fs st) block GFS2_BLKST_FREE;
             st = st\<lparr>fk_fs := fs\<rparr>
         in Some (if e \<noteq> 0 then (count, st)
                  else (count_incr GFS2_BLKST_FREE (count_decr GFS2_BLKST_UNLINKED count), st))
       else Some (count, st)
     }
     else if rg_status \<noteq> q then do {
       (ok, st) \<leftarrow> fsck_query st;
       Some (count, if ok then st\<lparr>fk_fs := snd (set_block (fk_fs st) block q)\<rparr> else st)
     }
     else Some (count, st)
   }"

text \<open>
  \<open>check_block_status\<close> over the last \<open>n\<close> entries of bitmap \<open>i\<close> of the group at \<open>a\<close>, from entry \<open>k\<close>; four entries
  are in a byte.
\<close>

fun check_block_status ::
  "gfs2_bmap \<Rightarrow> u64 \<Rightarrow> nat \<Rightarrow> u64 \<Rightarrow> nat \<Rightarrow> nat \<Rightarrow> u64 \<Rightarrow> u32 list \<Rightarrow> fsck \<Rightarrow> (u64 \<times> u32 list \<times> fsck) option" where
  "check_block_status bl a i rg_data k 0 rg_block count st = Some (rg_block, count, st)"
| "check_block_status bl a i rg_data k (Suc n) rg_block count st = do {
     rgp \<leftarrow> rg_at (fk_fs st) a;
     let bi = bits rgp ! i;
     let d = buf_of (bi_data bi);
     let byte = unat (bi_offset bi) + k div 4;
     if length d \<le> byte then None
     else if skip_this_pass st \<or> fsck_abort st then Some (rg_block, count, st)
     else do {
       let rg_status = unat (drop_bit (2 * (k mod 4)) (d ! byte) AND 3);
       let block = rg_data + rg_block;
       q \<leftarrow> block_type bl block;
       (count, st) \<leftarrow> check_block rg_status q block count st;
       check_block_status bl a i rg_data (Suc k) n (rg_block + 1) count st
     }
   }"

text \<open>The bitmaps of a group; the flag says that the rest is skipped.\<close>

fun check_bitmaps ::
  "gfs2_bmap \<Rightarrow> rgrp_tree \<Rightarrow> nat list \<Rightarrow> u64 \<Rightarrow> u32 list \<Rightarrow> fsck \<Rightarrow> (bool \<times> u32 list \<times> fsck) option" where
  "check_bitmaps bl rgp [] rg_block count st = Some (False, count, st)"
| "check_bitmaps bl rgp (i # is) rg_block count st =
     (if length (bits rgp) \<le> i then None
      else do {
        (rg_block, count, st) \<leftarrow>
          check_block_status bl (rt_addr rgp) i (rt_data0 rgp) 0 (4 * unat (bi_len (bits rgp ! i))) rg_block count st;
        if skip_this_pass st \<or> fsck_abort st then Some (True, count, st)
        else check_bitmaps bl rgp is rg_block count st
      })"

text \<open>The counts are put right in memory whether or not the user wants them written.\<close>

definition update_counts :: "u32 list \<Rightarrow> bool \<Rightarrow> rgrp_tree \<Rightarrow> rgrp_tree \<times> bool" where
  "update_counts count gfs1 rgp =
     (let upd1 = rt_free rgp \<noteq> count ! GFS2_BLKST_FREE;
          rgp = (if upd1 then rgp\<lparr>rt_free := count ! GFS2_BLKST_FREE\<rparr> else rgp);
          upd2 = rt_dinodes rgp \<noteq> count ! GFS2_BLKST_DINODE;
          rgp = (if upd2 then set_rt_dinodes (count ! GFS2_BLKST_DINODE) rgp else rgp);
          upd3 = (gfs1 \<and> rt_usedmeta rgp \<noteq> count ! GFS1_BLKST_USEDMETA);
          rgp = (if upd3 then set_rt_usedmeta (count ! GFS1_BLKST_USEDMETA) rgp else rgp);
          upd4 = (gfs1 \<and> rt_freemeta rgp \<noteq> count ! GFS2_BLKST_UNLINKED);
          rgp = (if upd4 then set_rt_freemeta (count ! GFS2_BLKST_UNLINKED) rgp else rgp)
      in (rgp, upd1 \<or> upd2 \<or> upd3 \<or> upd4))"

definition update_rgrp :: "gfs2_bmap \<Rightarrow> u64 \<Rightarrow> u32 list \<Rightarrow> fsck \<Rightarrow> fsck option" where
  "update_rgrp bl a count st = do {
     rgp \<leftarrow> rg_at (fk_fs st) a;
     (stop, count, st) \<leftarrow> check_bitmaps bl rgp [0..<unat (rt_length rgp)] 0 count st;
     if stop then Some st
     else do {
       rgp \<leftarrow> rg_at (fk_fs st) a;
       let gfs1 = sd_gfs1 (fs_sdp (fk_fs st));
       let (rgp, update) = update_counts count gfs1 rgp;
       let st = st\<lparr>fk_fs := put_rg rgp (fk_fs st)\<rparr>;
       if \<not> gfs1 \<and> rt_data rgp \<noteq> count ! GFS2_BLKST_FREE + count ! GFS2_BLKST_USED + count ! GFS2_BLKST_UNLINKED + count ! GFS2_BLKST_DINODE
       then None
       else if update then do {
         (ok, st) \<leftarrow> fsck_query st;
         Some (if ok then st\<lparr>fk_fs := put_rg (rgrp_header_out (fs_sdp (fk_fs st)) rgp) (fk_fs st)\<rparr> else st)
       }
       else Some st
     }
   }"

fun pass5_groups :: "gfs2_bmap \<Rightarrow> u64 list \<Rightarrow> fsck \<Rightarrow> fsck option" where
  "pass5_groups bl [] st = Some st"
| "pass5_groups bl (a # as) st =
     (if skip_this_pass st \<or> fsck_abort st then Some st
      else do {
        st \<leftarrow> update_rgrp bl a (replicate 5 0) st;
        pass5_groups bl as st
      })"

definition pass5 :: "gfs2_bmap \<Rightarrow> fsck \<Rightarrow> (int \<times> fsck) option" where
  "pass5 bl st = map_option (\<lambda>st. (0, st)) (pass5_groups bl (map rt_addr (inorder (fs_rgtree (fk_fs st)))) st)"

section \<open>One group\<close>

text \<open>What the pass makes of a block of which the map says \<open>q\<close>: blocks that nothing links to are reclaimed.\<close>

definition settled :: "nat \<Rightarrow> nat" where
  "settled q = (if q = GFS2_BLKST_UNLINKED then GFS2_BLKST_FREE else q)"

definition answering_yes :: "fsck \<Rightarrow> bool" where
  "answering_yes st \<longleftrightarrow> opts_yes st \<and> \<not> fsck_abort st \<and> \<not> skip_this_pass st \<and> \<not> sd_gfs1 (fs_sdp (fk_fs st))"

text \<open>The file system of a run with \<open>n\<close> more errors, found and corrected.\<close>

definition repaired :: "fs \<Rightarrow> nat \<Rightarrow> fsck \<Rightarrow> fsck" where
  "repaired fs n st = st\<lparr>fk_fs := fs, errors_found := errors_found st + int n, errors_corrected := errors_corrected st + int n\<rparr>"

lemma repaired_simps [simp]:
  "fk_fs (repaired fs n st) = fs" "opts_yes (repaired fs n st) = opts_yes st" "fsck_abort (repaired fs n st) = fsck_abort st"
  "skip_this_pass (repaired fs n st) = skip_this_pass st" "repaired (fk_fs st) 0 st = st"
  "repaired fs n (repaired fs' m st) = repaired fs (m + n) st"
  by (simp_all add: repaired_def)

lemma query_yes: "answering_yes st \<Longrightarrow> fsck_query st = Some (True, repaired (fk_fs st) 1 st)"
  by (simp add: fsck_query_def answering_yes_def repaired_def)

lemma repaired_yes:
  "answering_yes st \<Longrightarrow> sd_gfs1 (fs_sdp fs) = sd_gfs1 (fs_sdp (fk_fs st)) \<Longrightarrow> answering_yes (repaired fs n st)"
  by (simp add: answering_yes_def)

text \<open>The group at an address of a tree in which it has been put.\<close>

lemma find_addr_put:
  "rg \<in> set rgs \<Longrightarrow> rt_addr g = rt_addr rg \<Longrightarrow>
     find (\<lambda>r. rt_addr r = rt_addr rg) (map (\<lambda>r. if rt_addr r = rt_addr g then g else r) rgs) = Some g"
  by (induction rgs) auto

lemma rg_at_put: "rg \<in> set (fs_rgs fs) \<Longrightarrow> rt_addr g = rt_addr rg \<Longrightarrow> rg_at (put_rg g fs) (rt_addr rg) = Some g"
  using find_addr_put [of rg "fs_rgs fs" g] put_rg_frame(4) [of g fs] by (simp add: rg_at_def fs_rgs_def)

lemma put_rg_again: "rt_addr g' = rt_addr g \<Longrightarrow> put_rg g' (put_rg g fs) = put_rg g' fs"
  by (simp add: put_rg_def tree.map_comp comp_def) (rule arg_cong [of _ _ "\<lambda>f. fs\<lparr>fs_rgtree := map_tree f (fs_rgtree fs)\<rparr>"], auto)

lemma put_rg_id: "fs_geo fs \<Longrightarrow> rg \<in> set (fs_rgs fs) \<Longrightarrow> put_rg rg fs = fs"
proof -
  assume ok: "fs_geo fs" "rg \<in> set (fs_rgs fs)"
  have "map_tree (\<lambda>r. if rt_addr r = rt_addr rg then rg else r) (fs_rgtree fs) = map_tree id (fs_rgtree fs)"
    using geo_addr_inj [OF ok] by (intro tree.map_cong) (auto simp: fs_rgs_def)
  then show ?thesis by (simp add: put_rg_def tree.map_id)
qed

text \<open>A group whose bitmaps may have changed.\<close>

definition same_group :: "u32 \<Rightarrow> rgrp_tree \<Rightarrow> rgrp_tree \<Rightarrow> bool" where
  "same_group b rg g \<longleftrightarrow> rg_geo b g \<and> rt_addr g = rt_addr rg \<and> rt_data0 g = rt_data0 rg \<and> rt_data g = rt_data rg \<and>
     rt_length g = rt_length rg \<and> rt_bitbytes g = rt_bitbytes rg \<and> rt_free g = rt_free rg \<and> rt_dinodes g = rt_dinodes rg \<and>
     map bi_len (bits g) = map bi_len (bits rg)"

lemma rg_set_same:
  assumes "same_group b rg g" "i < unat (rt_data rg)"
  shows "same_group b rg (rg_set b g i v)"
proof -
  have "rt_dinodes (rg_set b g i v) = rt_dinodes g" "rt_bitbytes (rg_set b g i v) = rt_bitbytes g"
    "map bi_len (bits (rg_set b g i v)) = map bi_len (bits g)"
    by (simp_all add: rg_set_def Let_def rt_dinodes_def map_update) (metis list_update_id map_update)
  then show ?thesis
    using assms rg_set_geom [of b g i v] rg_set_loaded [of b g i v] by (auto simp: same_group_def rg_geo_def)
qed

lemma set_block_group:
  assumes ok: "fs_geo fs" "rg \<in> set (fs_rgs fs)" and g: "same_group (fs_bsize fs) rg g" and i: "i < unat (rt_data rg)" and v: "v < 4"
  shows "set_block (put_rg g fs) (rt_data0 rg + of_nat i) v = (0, put_rg (rg_set (fs_bsize fs) g i (int v)) fs)"
proof -
  have G: "rg_geo (fs_bsize fs) g" "rt_addr g = rt_addr rg" "rt_data0 g = rt_data0 rg" "rt_data g = rt_data rg"
    using g by (auto simp: same_group_def)
  note p = put_group(1) [OF ok G]
  then have ord: "rgs_ordered (inorder (fs_rgtree (put_rg g fs)))" by (simp add: fs_geo_def fs_rgs_def)
  have "g \<in> set (fs_rgs (put_rg g fs))" using ok(2) G(2) by force
  then have "gfs2_blk2rgrpd (fs_rgtree (put_rg g fs)) (rt_data0 rg + of_nat i) = Some g"
    using blk2rgrpd_Some_iff [OF ord] geo_owns_data(1) [OF G(1), of i] G i by (simp add: fs_rgs_def)
  moreover have "gfs2_set_bitmap (Some g) (rt_data0 rg + of_nat i) (int v) = (0, Some (rg_set (fs_bsize fs) g i (int v)))"
    using set_bitmap_eq [of "fs_bsize fs" g i "int v"] G i v by (simp add: rg_geo_def)
  ultimately show ?thesis by (simp add: set_block_def put_rg_again)
qed

text \<open>The type that the map gives a block of the group.\<close>

definition seen :: "gfs2_bmap \<Rightarrow> rgrp_tree \<Rightarrow> nat \<Rightarrow> nat" where
  "seen bl rg j = the (block_type bl (rt_data0 rg + of_nat j))"

definition mapped :: "gfs2_bmap \<Rightarrow> rgrp_tree \<Rightarrow> bool" where
  "mapped bl rg \<longleftrightarrow> (\<forall>j < unat (rt_data rg). \<exists>q < 4. block_type bl (rt_data0 rg + of_nat j) = Some q)"

lemma mapped_seen: "mapped bl rg \<Longrightarrow> j < unat (rt_data rg) \<Longrightarrow> block_type bl (rt_data0 rg + of_nat j) = Some (seen bl rg j) \<and> seen bl rg j < 4"
  by (fastforce simp: mapped_def seen_def)

text \<open>The first \<open>j\<close> blocks of a group are done, with \<open>n\<close> repairs; where nothing was wrong nothing has changed.\<close>

definition done_to :: "gfs2_bmap \<Rightarrow> u32 \<Rightarrow> rgrp_tree \<Rightarrow> nat \<Rightarrow> rgrp_tree \<Rightarrow> nat \<Rightarrow> bool" where
  "done_to bl b rg j g n \<longleftrightarrow> same_group b rg g \<and>
     (\<forall>k < unat (rt_data rg). rg_state b g k = (if k < j then settled (seen bl rg k) else rg_state b rg k)) \<and>
     ((\<forall>k < j. seen bl rg k \<noteq> GFS2_BLKST_UNLINKED \<and> rg_state b rg k = seen bl rg k) \<longrightarrow> g = rg \<and> n = 0)"

definition counts_to :: "gfs2_bmap \<Rightarrow> rgrp_tree \<Rightarrow> nat \<Rightarrow> u32 list \<Rightarrow> bool" where
  "counts_to bl rg j count \<longleftrightarrow> length count = 5 \<and> (\<forall>s < 5. unat (count ! s) = card {k. k < j \<and> settled (seen bl rg k) = s})"

lemma card_settled_Suc:
  "card {k. k < Suc j \<and> f k = s} = card {k. k < j \<and> f k = s} + (if f j = s then 1 else 0)" for f :: "nat \<Rightarrow> nat"
proof -
  have "{k. k < Suc j \<and> f k = s} = {k. k < j \<and> f k = s} \<union> (if f j = s then {j} else {})" by (auto simp: less_Suc_eq)
  then show ?thesis by auto
qed

lemma counts_incr:
  assumes "counts_to bl rg j count" "j < unat (rt_data rg)" "settled (seen bl rg j) = s" "s < 5"
  shows "counts_to bl rg (Suc j) (count_incr s count)"
proof -
  have "card {k. k < j \<and> settled (seen bl rg k) = s} \<le> card {..<j}" by (intro card_mono) auto
  then have "unat (count ! s) + 1 < 2 ^ 32" using assms u32_lt [of "rt_data rg"] by (auto simp: counts_to_def)
  then have "unat (count ! s + 1) = unat (count ! s) + 1" by (subst unat_add_no_wrap) simp_all
  then show ?thesis using assms by (auto simp: counts_to_def count_incr_def card_settled_Suc nth_list_update)
qed

lemma count_reclaim:
  "length count = 5 \<Longrightarrow> count_incr GFS2_BLKST_FREE (count_decr GFS2_BLKST_UNLINKED (count_incr GFS2_BLKST_UNLINKED count))
     = count_incr GFS2_BLKST_FREE count"
  by (simp add: count_incr_def count_decr_def)

lemma done_set:
  assumes d: "done_to bl b rg j g n" and j: "j < unat (rt_data rg)" and v: "settled (seen bl rg j) = v" "v < 4"
    and bad: "seen bl rg j = GFS2_BLKST_UNLINKED \<or> rg_state b rg j \<noteq> seen bl rg j"
  shows "done_to bl b rg (Suc j) (rg_set b g j (int v)) (Suc n)"
proof -
  have g: "same_group b rg g" using d by (simp add: done_to_def)
  then have G: "geom b g" "loaded b g" "rt_data g = rt_data rg" by (auto simp: same_group_def rg_geo_def)
  have "rg_state b (rg_set b g j (int v)) k = (if k = j then v else rg_state b g k)" if "k < unat (rt_data rg)" for k
    using rg_set_state [OF G(1,2), of j k "int v"] G(3) j that v(2) by simp
  then show ?thesis
    using d j v bad rg_set_same [OF g j] by (auto simp: done_to_def less_Suc_eq)
qed

lemma done_keep:
  assumes "done_to bl b rg j g n" "seen bl rg j \<noteq> GFS2_BLKST_UNLINKED" "rg_state b rg j = seen bl rg j"
  shows "done_to bl b rg (Suc j) g n"
  using assms by (auto simp: done_to_def less_Suc_eq settled_def)

lemma check_block_step:
  assumes fs: "fs_geo fs" "rg \<in> set (fs_rgs fs)" and st: "answering_yes st" "fs_sdp fs = fs_sdp (fk_fs st)"
    and m: "mapped bl rg" and j: "j < unat (rt_data rg)"
    and d: "done_to bl (fs_bsize fs) rg j g n" and c: "counts_to bl rg j count"
  obtains g' n' count' where
    "check_block (rg_state (fs_bsize fs) rg j) (seen bl rg j) (rt_data0 rg + of_nat j) count (repaired (put_rg g fs) n st)
       = Some (count', repaired (put_rg g' fs) n' st)"
    "done_to bl (fs_bsize fs) rg (Suc j) g' n'" "counts_to bl rg (Suc j) count'"
proof -
  let ?q = "seen bl rg j" and ?st = "repaired (put_rg g fs) n st"
  have q: "?q < 4" using mapped_seen [OF m j] by simp
  have g: "same_group (fs_bsize fs) rg g" using d by (simp add: done_to_def)
  have y: "answering_yes ?st" "\<not> sd_gfs1 (fs_sdp fs)" using st by (auto simp: answering_yes_def)
  note set = set_block_group [OF fs g j]
  have len: "length count = 5" using c by (simp add: counts_to_def)
  consider (unlinked) "?q = 2" | (wrong) "?q \<noteq> 2" "rg_state (fs_bsize fs) rg j \<noteq> ?q" | (right) "?q \<noteq> 2" "rg_state (fs_bsize fs) rg j = ?q"
    by blast
  then show thesis
  proof cases
    case unlinked
    have "check_block (rg_state (fs_bsize fs) rg j) ?q (rt_data0 rg + of_nat j) count ?st
        = Some (count_incr 0 count, repaired (put_rg (rg_set (fs_bsize fs) g j 0) fs) (Suc n) st)"
      using unlinked y set [of 0] count_reclaim [OF len] query_yes [OF y(1)] by (simp add: check_block_def repaired_def)
    moreover have "done_to bl (fs_bsize fs) rg (Suc j) (rg_set (fs_bsize fs) g j 0) (Suc n)"
      using done_set [OF d j, of 0] unlinked by (simp add: settled_def)
    moreover have "counts_to bl rg (Suc j) (count_incr 0 count)" using counts_incr [OF c j, of 0] unlinked by (simp add: settled_def)
    ultimately show thesis using that by blast
  next
    case wrong
    have "check_block (rg_state (fs_bsize fs) rg j) ?q (rt_data0 rg + of_nat j) count ?st
        = Some (count_incr ?q count, repaired (put_rg (rg_set (fs_bsize fs) g j (int ?q)) fs) (Suc n) st)"
      using wrong y set [OF q] query_yes [OF y(1)] by (simp add: check_block_def repaired_def)
    moreover have "done_to bl (fs_bsize fs) rg (Suc j) (rg_set (fs_bsize fs) g j (int ?q)) (Suc n)"
      using done_set [OF d j, of ?q] wrong q by (simp add: settled_def)
    moreover have "counts_to bl rg (Suc j) (count_incr ?q count)" using counts_incr [OF c j, of ?q] wrong q by (simp add: settled_def)
    ultimately show thesis using that by blast
  next
    case right
    have "check_block (rg_state (fs_bsize fs) rg j) ?q (rt_data0 rg + of_nat j) count ?st = Some (count_incr ?q count, ?st)"
      using right y by (simp add: check_block_def)
    moreover have "counts_to bl rg (Suc j) (count_incr ?q count)" using counts_incr [OF c j, of ?q] right q by (simp add: settled_def)
    ultimately show thesis using that done_keep [OF d right] by blast
  qed
qed

text \<open>Where the entry for a block is read.\<close>

lemma entry_state:
  assumes g: "geom b g" "loaded b g" and x: "x < unat (rt_length g)" and k: "k < 4 * (bm_end (unat b) g x - bm_start (unat b) x)"
  shows "unat (bi_offset (bits g ! x)) + k div 4 < length (buf_of (bi_data (bits g ! x)))"
    "unat (drop_bit (2 * (k mod 4)) (buf_of (bi_data (bits g ! x)) ! (unat (bi_offset (bits g ! x)) + k div 4)) AND 3)
       = rg_state b g (4 * bm_start (unat b) x + k)"
proof -
  let ?s = "bm_start (unat b) x"
  note G = geomD [OF g(1)]
  obtain d where d: "bi_data (bits g ! x) = Live d" "unat b \<le> length d" using g(2) x by (auto simp: loaded_def)
  have e: "bm_end (unat b) g x \<le> ?s + (unat b - bm_hdr x)" using bm_end_bounds(3) [OF g(1) x] bm_start_Suc [OF G(1)] by simp
  have hdr: "bm_hdr x < unat b" using G(1) by (simp add: bm_hdr_def)
  have kd: "k div 4 < unat b - bm_hdr x" using k e by (simp add: less_mult_imp_div_less)
  then show "unat (bi_offset (bits g ! x)) + k div 4 < length (buf_of (bi_data (bits g ! x)))"
    using d G(9) [OF x] hdr by (simp add: buf_of_def)
  have "4 * ?s + k < 4 * bm_start (unat b) (Suc x)" using k bm_end_bounds(3) [OF g(1) x] by linarith
  then have x': "bm_index (unat b) (4 * ?s + k) = x" by (intro bm_index_unique [OF G(1)]) simp_all
  have "(4 * ?s + k) mod 4 = k mod 4" "(4 * ?s + k) div 4 = ?s + k div 4" by simp_all
  then show "unat (drop_bit (2 * (k mod 4)) (buf_of (bi_data (bits g ! x)) ! (unat (bi_offset (bits g ! x)) + k div 4)) AND 3)
       = rg_state b g (4 * ?s + k)"
    using rg_state_byte [OF G(1), of g "4 * ?s + k" d] d x' G(9) [OF x] by (simp add: buf_of_def bm_byte_def)
qed

lemma same_group_bitmap:
  assumes "same_group b rg g" "geom b rg"
  shows "bm_end (unat b) g x = bm_end (unat b) rg x"
  using assms by (simp add: bm_end_def same_group_def)

lemma check_status_loop:
  assumes fs: "fs_geo fs" "rg \<in> set (fs_rgs fs)" and st: "answering_yes st" "fs_sdp fs = fs_sdp (fk_fs st)"
    and m: "mapped bl rg" and x: "x < unat (rt_length rg)"
  shows "k + n = 4 * (bm_end (unat (fs_bsize fs)) rg x - bm_start (unat (fs_bsize fs)) x) \<Longrightarrow>
    done_to bl (fs_bsize fs) rg (4 * bm_start (unat (fs_bsize fs)) x + k) g e \<Longrightarrow>
    counts_to bl rg (4 * bm_start (unat (fs_bsize fs)) x + k) count \<Longrightarrow>
    \<exists>g' e' count'. check_block_status bl (rt_addr rg) x (rt_data0 rg) k n (of_nat (4 * bm_start (unat (fs_bsize fs)) x + k)) count
        (repaired (put_rg g fs) e st)
      = Some (of_nat (4 * bm_end (unat (fs_bsize fs)) rg x), count', repaired (put_rg g' fs) e' st) \<and>
      done_to bl (fs_bsize fs) rg (4 * bm_end (unat (fs_bsize fs)) rg x) g' e' \<and>
      counts_to bl rg (4 * bm_end (unat (fs_bsize fs)) rg x) count'"
proof (induction n arbitrary: k g e count)
  let ?b = "fs_bsize fs" and ?s = "bm_start (unat (fs_bsize fs)) x"
  have rg: "rg_geo ?b rg" using fs by (simp add: fs_geo_def)
  then have geo: "geom ?b rg" by (simp add: rg_geo_def)
  note se = bm_end_bounds [OF geo x]
  {
    case 0
    then have "4 * ?s + k = 4 * bm_end (unat ?b) rg x" using se(1) by simp
    then show ?case using 0 by auto
  next
    case (Suc n)
    let ?j = "4 * ?s + k"
    have g: "same_group ?b rg g" using Suc.prems(2) by (simp add: done_to_def)
    then have G: "geom ?b g" "loaded ?b g" "rt_addr g = rt_addr rg" "rt_length g = rt_length rg" by (auto simp: same_group_def rg_geo_def)
    have j: "?j < unat (rt_data rg)" using Suc.prems(1) se geomD(6) [OF geo] by linarith
    have at: "rg_at (put_rg g fs) (rt_addr rg) = Some g" by (rule rg_at_put [OF fs(2) G(3)])
    have k: "k < 4 * (bm_end (unat ?b) g x - bm_start (unat ?b) x)" using Suc.prems(1) same_group_bitmap [OF g geo] by simp
    have "x < unat (rt_length g)" using x G(4) by simp
    note es = entry_state [OF G(1,2) this k]
    have state: "rg_state ?b g ?j = rg_state ?b rg ?j" using Suc.prems(2) j by (simp add: done_to_def)
    obtain g' e' count' where step:
      "check_block (rg_state ?b rg ?j) (seen bl rg ?j) (rt_data0 rg + of_nat ?j) count (repaired (put_rg g fs) e st)
         = Some (count', repaired (put_rg g' fs) e' st)"
      "done_to bl ?b rg (Suc ?j) g' e'" "counts_to bl rg (Suc ?j) count'"
      by (rule check_block_step [OF fs st m j Suc.prems(2,3)]) (rule that, assumption+)
    have go: "check_block_status bl (rt_addr rg) x (rt_data0 rg) k (Suc n) (of_nat ?j) count (repaired (put_rg g fs) e st)
        = check_block_status bl (rt_addr rg) x (rt_data0 rg) (Suc k) n (of_nat ?j + 1) count' (repaired (put_rg g' fs) e' st)"
      using at es state step(1) mapped_seen [OF m j] st(1) by (simp add: answering_yes_def Let_def del: of_nat_add of_nat_mult)
    have "of_nat ?j + 1 = (of_nat (4 * ?s + Suc k) :: u64)" by simp
    then show ?case unfolding go using Suc.IH [of "Suc k" g' e' count'] Suc.prems(1) step(2,3) by (simp add: ac_simps)
  }
qed

lemma bitmap_entries: "geom b rg \<Longrightarrow> x < unat (rt_length rg) \<Longrightarrow> 4 * unat (bi_len (bits rg ! x)) = 4 * (bm_end (unat b) rg x - bm_start (unat b) x)"
  using geomD(11) [of b rg x] by (simp add: bm_end_def)

lemma check_bitmaps_loop:
  assumes fs: "fs_geo fs" "rg \<in> set (fs_rgs fs)" and st: "answering_yes st" "fs_sdp fs = fs_sdp (fk_fs st)"
    and m: "mapped bl rg"
  shows "x < unat (rt_length rg) \<Longrightarrow>
    done_to bl (fs_bsize fs) rg (4 * bm_start (unat (fs_bsize fs)) x) g e \<Longrightarrow>
    counts_to bl rg (4 * bm_start (unat (fs_bsize fs)) x) count \<Longrightarrow>
    \<exists>g' e' count'. check_bitmaps bl rg [x..<unat (rt_length rg)] (of_nat (4 * bm_start (unat (fs_bsize fs)) x)) count
        (repaired (put_rg g fs) e st) = Some (False, count', repaired (put_rg g' fs) e' st) \<and>
      done_to bl (fs_bsize fs) rg (unat (rt_data rg)) g' e' \<and> counts_to bl rg (unat (rt_data rg)) count'"
proof (induction "unat (rt_length rg) - x" arbitrary: x g e count)
  case (Suc d)
  let ?b = "fs_bsize fs"
  have geo: "geom ?b rg" using fs by (simp add: fs_geo_def rg_geo_def)
  have l: "x < length (bits rg)" using Suc.prems(1) geomD(3) [OF geo] by simp
  note se = bm_end_bounds [OF geo Suc.prems(1)]
  have k: "0 + 4 * unat (bi_len (bits rg ! x)) = 4 * (bm_end (unat ?b) rg x - bm_start (unat ?b) x)"
    using bitmap_entries [OF geo Suc.prems(1)] by simp
  obtain g1 e1 count1 where one:
    "check_block_status bl (rt_addr rg) x (rt_data0 rg) 0 (4 * unat (bi_len (bits rg ! x))) (of_nat (4 * bm_start (unat ?b) x)) count
        (repaired (put_rg g fs) e st) = Some (of_nat (4 * bm_end (unat ?b) rg x), count1, repaired (put_rg g1 fs) e1 st)"
    "done_to bl ?b rg (4 * bm_end (unat ?b) rg x) g1 e1" "counts_to bl rg (4 * bm_end (unat ?b) rg x) count1"
    using check_status_loop [OF fs st m Suc.prems(1) k, of g e count] Suc.prems(2,3) by (simp del: of_nat_add of_nat_mult) blast
  have step: "check_bitmaps bl rg [x..<unat (rt_length rg)] (of_nat (4 * bm_start (unat ?b) x)) count (repaired (put_rg g fs) e st)
      = check_bitmaps bl rg [Suc x..<unat (rt_length rg)] (of_nat (4 * bm_end (unat ?b) rg x)) count1 (repaired (put_rg g1 fs) e1 st)"
    using Suc.prems(1) l one(1) st(1) by (simp add: upt_conv_Cons answering_yes_def del: of_nat_add of_nat_mult)
  show ?case
  proof (cases "Suc x < unat (rt_length rg)")
    case True
    then have "bm_end (unat ?b) rg x = bm_start (unat ?b) (Suc x)" using bm_end_next(1) [OF geo] by simp
    then show ?thesis unfolding step using Suc.hyps(1) [of "Suc x" g1 e1 count1] Suc.hyps(2) True one(2,3) by (simp del: of_nat_add of_nat_mult)
  next
    case False
    then have "4 * bm_end (unat ?b) rg x = unat (rt_data rg)" using bm_end_next(2) [OF geo] Suc.prems(1) by simp
    then show ?thesis unfolding step using False one(2,3) by auto
  qed
qed simp

lemma counts_total:
  assumes c: "counts_to bl rg (unat (rt_data rg)) count" and m: "mapped bl rg"
  shows "rt_data rg = count ! 0 + count ! 1 + count ! 2 + count ! 3"
proof -
  let ?A = "\<lambda>s. {k. k < unat (rt_data rg) \<and> settled (seen bl rg k) = s}"
  have u: "unat (count ! s) = card (?A s)" if "s < 5" for s using c that by (simp add: counts_to_def)
  have "seen bl rg k < 4" if "k < unat (rt_data rg)" for k using mapped_seen [OF m that] by simp
  then have "settled (seen bl rg k) < 4" if "k < unat (rt_data rg)" for k using that by (auto simp: settled_def)
  then have "{..<unat (rt_data rg)} = ?A 0 \<union> ?A 1 \<union> ?A 2 \<union> ?A 3" by fastforce
  then have "unat (rt_data rg) = card (?A 0 \<union> ?A 1 \<union> ?A 2 \<union> ?A 3)" by (metis card_lessThan)
  also have "\<dots> = card (?A 0) + card (?A 1) + card (?A 2) + card (?A 3)" by (subst card_Un_disjoint; auto)+
  finally have eq: "unat (rt_data rg) = unat (count ! 0) + unat (count ! 1) + unat (count ! 2) + unat (count ! 3)" by (simp add: u)
  have "of_nat (unat (count ! 0) + unat (count ! 1) + unat (count ! 2) + unat (count ! 3)) = rt_data rg"
    unfolding eq [symmetric] by simp
  then show ?thesis by simp
qed

text \<open>A group put right, counts included.\<close>

definition state_count :: "u32 \<Rightarrow> rgrp_tree \<Rightarrow> nat \<Rightarrow> nat" where
  "state_count b rg s = card {i. i < unat (rt_data rg) \<and> rg_state b rg i = s}"

definition group_settled :: "gfs2_bmap \<Rightarrow> u32 \<Rightarrow> rgrp_tree \<Rightarrow> rgrp_tree \<Rightarrow> bool" where
  "group_settled bl b rg h \<longleftrightarrow> rg_ok b h \<and> unat (rt_dinodes h) = state_count b h GFS2_BLKST_DINODE \<and>
     rt_addr h = rt_addr rg \<and> rt_data0 h = rt_data0 rg \<and> rt_data h = rt_data rg \<and>
     (\<forall>k < unat (rt_data rg). rg_state b h k = settled (seen bl rg k))"

definition group_agrees :: "gfs2_bmap \<Rightarrow> u32 \<Rightarrow> rgrp_tree \<Rightarrow> bool" where
  "group_agrees bl b rg \<longleftrightarrow> rg_ok b rg \<and> unat (rt_dinodes rg) = state_count b rg GFS2_BLKST_DINODE \<and>
     (\<forall>k < unat (rt_data rg). seen bl rg k \<noteq> GFS2_BLKST_UNLINKED \<and> rg_state b rg k = seen bl rg k)"

lemma update_counts_gfs2:
  "update_counts count False g = (set_rt_dinodes (count ! 3) (g\<lparr>rt_free := count ! 0\<rparr>), rt_free g \<noteq> count ! 0 \<or> rt_dinodes g \<noteq> count ! 3)"
proof -
  have d: "set_rt_dinodes (rt_dinodes k) k = k" for k by (simp add: set_rt_dinodes_def rt_dinodes_def)
  have i: "rt_dinodes (g\<lparr>rt_free := v\<rparr>) = rt_dinodes g" for v by (simp add: rt_dinodes_def)
  show ?thesis
  proof (cases "count ! 0 = rt_free g")
    case True
    have "g\<lparr>rt_free := rt_free g\<rparr> = g" by simp
    then show ?thesis using d [of g] by (cases "count ! 3 = rt_dinodes g") (simp_all add: update_counts_def Let_def True)
  next
    case False
    then show ?thesis
      using i d [of "g\<lparr>rt_free := count ! 0\<rparr>"] by (cases "count ! 3 = rt_dinodes g") (auto simp: update_counts_def Let_def)
  qed
qed

lemma dinodes_frame [simp]:
  "rt_dinodes (rgrp_header_out sdp rg) = rt_dinodes rg" "rt_dinodes (set_rt_dinodes v rg) = v" "rt_dinodes (rg\<lparr>rt_free := n\<rparr>) = rt_dinodes rg"
  by (simp_all add: rt_dinodes_def set_rt_dinodes_def rgrp_header_out_def set_bi_def)

lemma counts_settle:
  assumes d: "done_to bl b rg (unat (rt_data rg)) g e" and c: "counts_to bl rg (unat (rt_data rg)) count"
    and h: "h = set_rt_dinodes (count ! 3) (g\<lparr>rt_free := count ! 0\<rparr>)"
  shows "group_settled bl b rg h" "group_settled bl b rg (rgrp_header_out sdp h)" "group_agrees bl b rg \<Longrightarrow> h = rg \<and> e = 0 \<and> rt_free g = count ! 0 \<and> rt_dinodes g = count ! 3"
proof -
  have g: "same_group b rg g" and s: "\<forall>k < unat (rt_data rg). rg_state b g k = settled (seen bl rg k)" using d by (auto simp: done_to_def)
  then have G: "geom b g" "loaded b g" "rt_addr g < rt_data0 g" "rt_addr g = rt_addr rg" "rt_data0 g = rt_data0 rg" "rt_data g = rt_data rg"
    by (auto simp: same_group_def rg_geo_def)
  have n: "state_count b h v = unat (count ! v)" if "v < 5" for v
  proof -
    have "{i. i < unat (rt_data rg) \<and> rg_state b g i = v} = {k. k < unat (rt_data rg) \<and> settled (seen bl rg k) = v}" using s by auto
    then show ?thesis using c that by (simp add: state_count_def h G counts_to_def)
  qed
  have free: "free_blocks b h = state_count b h 0" by (simp add: free_blocks_def state_count_def)
  show ok: "group_settled bl b rg h"
    using n [of 0] n [of 3] free G s by (simp add: group_settled_def rg_ok_def) (simp add: h G)
  show "group_settled bl b rg (rgrp_header_out sdp h)"
  proof -
    have H: "geom b h" "loaded b h" using ok by (auto simp: group_settled_def rg_ok_def)
    have "state_count b (rgrp_header_out sdp h) v = state_count b h v" for v by (simp add: state_count_def header_out_state [OF H(1)])
    moreover have "free_blocks b (rgrp_header_out sdp h) = free_blocks b h" by (simp add: free_blocks_def header_out_state [OF H(1)])
    ultimately show ?thesis
      using ok H G(3-5) by (simp add: group_settled_def rg_ok_def header_out_geom header_out_loaded header_out_state)
  qed
  assume a: "group_agrees bl b rg"
  then have same: "g = rg" "e = 0" using d by (auto simp: done_to_def group_agrees_def)
  have "state_count b rg v = unat (count ! v)" if "v < 5" for v using n [OF that] by (simp add: state_count_def h same)
  then have "unat (count ! 0) = unat (rt_free rg)" "unat (count ! 3) = unat (rt_dinodes rg)"
    using a by (simp_all add: group_agrees_def rg_ok_def free_blocks_def state_count_def)
  then have eq: "rt_free rg = count ! 0" "rt_dinodes rg = count ! 3" by (simp_all add: word_unat_eq_iff)
  have "h = set_rt_dinodes (rt_dinodes rg) (rg\<lparr>rt_free := rt_free rg\<rparr>)" by (simp only: h same eq)
  also have "\<dots> = rg" by (simp add: set_rt_dinodes_def rt_dinodes_def)
  finally have "h = rg" .
  then show "h = rg \<and> e = 0 \<and> rt_free g = count ! 0 \<and> rt_dinodes g = count ! 3" using same eq by simp
qed

lemma update_rgrp_settles:
  assumes fs: "fs_geo (fk_fs st)" "rg \<in> set (fs_rgs (fk_fs st))" and st: "answering_yes st" and m: "mapped bl rg"
  shows "\<exists>h e. update_rgrp bl (rt_addr rg) (replicate 5 0) st = Some (repaired (put_rg h (fk_fs st)) e st) \<and>
    group_settled bl (fs_bsize (fk_fs st)) rg h \<and> (group_agrees bl (fs_bsize (fk_fs st)) rg \<longrightarrow> h = rg \<and> e = 0)"
proof -
  let ?fs = "fk_fs st"
  have geo: "rg_geo (fs_bsize ?fs) rg" using fs by (simp add: fs_geo_def)
  then have len: "0 < unat (rt_length rg)" by (auto simp: rg_geo_def dest: geomD(2))
  have at: "rg_at ?fs (rt_addr rg) = Some rg" using rg_at_put [OF fs(2) refl] put_rg_id [OF fs] by simp
  have "same_group (fs_bsize ?fs) rg rg" using geo by (simp add: same_group_def)
  then have d: "done_to bl (fs_bsize ?fs) rg (4 * bm_start (unat (fs_bsize ?fs)) 0) rg 0"
    and c: "counts_to bl rg (4 * bm_start (unat (fs_bsize ?fs)) 0) (replicate 5 0)"
    by (simp_all add: done_to_def counts_to_def)
  obtain g e count where loop:
    "check_bitmaps bl rg [0..<unat (rt_length rg)] 0 (replicate 5 0) st = Some (False, count, repaired (put_rg g ?fs) e st)"
    "done_to bl (fs_bsize ?fs) rg (unat (rt_data rg)) g e" "counts_to bl rg (unat (rt_data rg)) count"
    using check_bitmaps_loop [OF fs st refl m len d c] put_rg_id [OF fs] by auto
  define h where "h = set_rt_dinodes (count ! 3) (g\<lparr>rt_free := count ! 0\<rparr>)"
  note s = counts_settle [OF loop(2,3) h_def]
  have ga: "rt_addr g = rt_addr rg" "rt_data g = rt_data rg" using loop(2) by (auto simp: done_to_def same_group_def)
  have ha: "rt_addr h = rt_addr g" "rt_data h = rt_data rg" using ga by (simp_all add: h_def)
  have gfs2: "\<not> sd_gfs1 (fs_sdp ?fs)" using st by (simp add: answering_yes_def)
  have at': "rg_at (put_rg g ?fs) (rt_addr rg) = Some g" by (rule rg_at_put [OF fs(2) ga(1)])
  let ?up = "rt_free g \<noteq> count ! 0 \<or> rt_dinodes g \<noteq> count ! 3"
  have y: "answering_yes (repaired (put_rg h ?fs) e st)" using st by (simp add: answering_yes_def)
  have r: "(repaired fs1 e st)\<lparr>fk_fs := fs2\<rparr> = repaired fs2 e st" for fs1 fs2 e by (simp add: repaired_def)
  have total: "rt_data h = count ! 0 + count ! 1 + count ! 2 + count ! 3" using counts_total [OF loop(3) m] ha by simp
  have "update_rgrp bl (rt_addr rg) (replicate 5 0) st
      = Some (if ?up then repaired (put_rg (rgrp_header_out (fs_sdp ?fs) h) ?fs) (Suc e) st else repaired (put_rg h ?fs) e st)"
  proof (cases ?up)
    case True
    have "update_counts count False g = (h, True)" using True by (simp add: update_counts_gfs2 h_def)
    then show ?thesis
      using at loop(1) at' gfs2 total ha(1) True query_yes [OF y] by (simp add: update_rgrp_def r put_rg_again Let_def)
  next
    case False
    then have "update_counts count False g = (h, False)" by (simp add: update_counts_gfs2 h_def)
    then show ?thesis using at loop(1) at' gfs2 total ha(1) False by (simp add: update_rgrp_def r put_rg_again Let_def)
  qed
  then show ?thesis using s by (cases ?up) (auto intro!: exI)
qed

section \<open>All groups\<close>

lemma put_rg_middle:
  assumes fs: "fs_geo fs" "fs_rgs fs = ds @ rg # rs" and h: "rt_addr h = rt_addr rg"
  shows "fs_rgs (put_rg h fs) = ds @ h # rs"
proof -
  have ord: "rgs_ordered (ds @ rg # rs)" using fs by (simp add: fs_geo_def)
  have lt: "rt_addr r < rt_data0 r + ucast (rt_data r)" if "r \<in> set (ds @ rg # rs)" for r
  proof -
    have "geom (fs_bsize fs) r" "rt_addr r < rt_data0 r" using fs that by (auto simp: fs_geo_def rg_geo_def)
    then show ?thesis by (simp add: data_end word_less_nat_alt)
  qed
  have "rt_addr r \<noteq> rt_addr rg" if "r \<in> set ds" for r
    using ord lt [of r] that by (auto simp: rgs_ordered_def sorted_wrt_append)
  moreover have "rt_addr r \<noteq> rt_addr rg" if "r \<in> set rs" for r
    using ord lt [of rg] that by (auto simp: rgs_ordered_def sorted_wrt_append)
  ultimately show ?thesis using fs(2) h by (auto simp: map_idI)
qed

lemma settled_geo: "group_settled bl b rg h \<Longrightarrow> rg_geo b h"
  by (simp add: group_settled_def rg_ok_geo)

lemma pass5_loop:
  "fs_geo (fk_fs st) \<Longrightarrow> answering_yes st \<Longrightarrow> fs_rgs (fk_fs st) = ds @ rs \<Longrightarrow> \<forall>rg \<in> set rs. mapped bl rg \<Longrightarrow>
    \<exists>fs' e hs. pass5_groups bl (map rt_addr rs) st = Some (repaired fs' e st) \<and> fs_geo fs' \<and> fs_sdp fs' = fs_sdp (fk_fs st) \<and>
      fs_rgs fs' = ds @ hs \<and> list_all2 (group_settled bl (fs_bsize (fk_fs st))) rs hs \<and>
      ((\<forall>rg \<in> set rs. group_agrees bl (fs_bsize (fk_fs st)) rg) \<longrightarrow> fs' = fk_fs st \<and> e = 0)"
proof (induction rs arbitrary: ds st)
  case Nil
  then show ?case by (intro exI [of _ "fk_fs st"] exI [of _ 0] exI [of _ "[]"]) simp
next
  case (Cons rg rs)
  let ?fs = "fk_fs st"
  have rg: "rg \<in> set (fs_rgs ?fs)" using Cons.prems(3) by simp
  have "mapped bl rg" using Cons.prems(4) by simp
  from update_rgrp_settles [OF Cons.prems(1) rg Cons.prems(2) this]
  obtain h e where u: "update_rgrp bl (rt_addr rg) (replicate 5 0) st = Some (repaired (put_rg h ?fs) e st)"
    "group_settled bl (fs_bsize ?fs) rg h" "group_agrees bl (fs_bsize ?fs) rg \<Longrightarrow> h = rg \<and> e = 0" by blast
  have h: "rt_addr h = rt_addr rg" "rt_data0 h = rt_data0 rg" "rt_data h = rt_data rg" using u(2) by (auto simp: group_settled_def)
  let ?st = "repaired (put_rg h ?fs) e st"
  have geo: "fs_geo (put_rg h ?fs)" by (rule put_group(1) [OF Cons.prems(1) rg settled_geo [OF u(2)] h])
  have rgs: "fs_rgs (put_rg h ?fs) = (ds @ [h]) @ rs" using put_rg_middle [OF Cons.prems(1,3) h(1)] by simp
  have y: "answering_yes ?st" using Cons.prems(2) by (simp add: answering_yes_def)
  have "fs_geo (fk_fs ?st)" "fs_rgs (fk_fs ?st) = (ds @ [h]) @ rs" using geo rgs by simp_all
  from Cons.IH [OF this(1) y this(2)] Cons.prems(4)
  obtain fs' e' hs where i: "pass5_groups bl (map rt_addr rs) ?st = Some (repaired fs' e' ?st)" "fs_geo fs'" "fs_sdp fs' = fs_sdp ?fs"
    "fs_rgs fs' = ds @ h # hs" "list_all2 (group_settled bl (fs_bsize ?fs)) rs hs"
    "(\<forall>rg \<in> set rs. group_agrees bl (fs_bsize ?fs) rg) \<longrightarrow> fs' = put_rg h ?fs \<and> e' = 0" by auto
  have "pass5_groups bl (map rt_addr (rg # rs)) st = Some (repaired fs' (e + e') st)"
    using u(1) i(1) Cons.prems(2) by (simp add: answering_yes_def)
  moreover have "fs' = ?fs \<and> e + e' = 0" if "\<forall>rg \<in> set (rg # rs). group_agrees bl (fs_bsize ?fs) rg"
    using that i(6) u(3) put_rg_id [OF Cons.prems(1) rg] by auto
  ultimately show ?case using i(2-5) u(2) by (intro exI [of _ fs'] exI [of _ "e + e'"] exI [of _ "h # hs"]) auto
qed

lemma find_all2:
  "list_all2 R rs hs \<Longrightarrow> (\<And>r h. R r h \<Longrightarrow> P h = P r) \<Longrightarrow> rel_option R (find P rs) (find P hs)"
  by (induction rule: list_all2_induct) auto

lemma settled_states:
  assumes fs: "fs_geo fs" "fs_geo fs'" "fs_sdp fs' = fs_sdp fs" and s: "list_all2 (group_settled bl (fs_bsize fs)) (fs_rgs fs) (fs_rgs fs')"
  shows "block_state fs' blk = map_option (\<lambda>_. settled (the (block_type bl blk))) (block_state fs blk)"
proof -
  have o: "rgs_ordered (inorder (fs_rgtree fs))" "rgs_ordered (inorder (fs_rgtree fs'))" using fs by (simp_all add: fs_geo_def fs_rgs_def)
  have b: "fs_bsize fs' = fs_bsize fs" using fs(3) by (simp only: fs_bsize_def)
  have rel: "rel_option (group_settled bl (fs_bsize fs)) (gfs2_blk2rgrpd (fs_rgtree fs) blk) (gfs2_blk2rgrpd (fs_rgtree fs') blk)"
    unfolding blk2rgrpd_find [OF o(1)] blk2rgrpd_find [OF o(2)]
    using find_all2 [OF s, of "\<lambda>rg. rg_owns rg blk"] by (auto simp: fs_rgs_def group_settled_def rg_owns_def)
  show ?thesis
  proof (cases "gfs2_blk2rgrpd (fs_rgtree fs) blk")
    case None
    then show ?thesis using rel by (simp add: block_state_def)
  next
    case (Some r)
    then obtain h where h: "gfs2_blk2rgrpd (fs_rgtree fs') blk = Some h" "group_settled bl (fs_bsize fs) r h"
      using rel by (auto simp: option_rel_Some1)
    have r: "r \<in> set (fs_rgs fs)" "rg_owns r blk" using Some blk2rgrpd_Some_iff [OF o(1)] by (auto simp: fs_rgs_def)
    then have geo: "rg_geo (fs_bsize fs) r" using fs(1) by (simp add: fs_geo_def)
    show ?thesis
    proof (cases "rt_data0 r \<le> blk")
      case True
      note i = geo_owns_index [OF geo r(2) True]
      have "seen bl r (unat (blk - rt_data0 r)) = the (block_type bl blk)" unfolding seen_def using i(2) by simp
      then show ?thesis using Some h True i(1) b by (simp add: block_state_def group_settled_def)
    next
      case False
      then show ?thesis using Some h by (simp add: block_state_def group_settled_def)
    qed
  qed
qed

section \<open>Properties\<close>

text \<open>
  C10. Pass 5 with every repair agreed to leaves bitmaps that say of each block exactly what the map of block types says,
  except that blocks the map has as unlinked are free; and counts of free blocks and of dinodes in every group
  that are those of its bitmap. It always comes to its end: the internal error of a sum that does not match
  the size of the group cannot occur.
\<close>

theorem pass5_settles:
  assumes "fs_geo (fk_fs st)" "answering_yes st" "\<forall>rg \<in> set (fs_rgs (fk_fs st)). mapped bl rg"
  shows "\<exists>st'. pass5 bl st = Some (0, st') \<and> fs_ok (fk_fs st') \<and>
    (\<forall>blk. block_state (fk_fs st') blk = map_option (\<lambda>_. settled (the (block_type bl blk))) (block_state (fk_fs st) blk)) \<and>
    (\<forall>rg \<in> set (fs_rgs (fk_fs st')). unat (rt_dinodes rg) = state_count (fs_bsize (fk_fs st')) rg GFS2_BLKST_DINODE) \<and>
    errors_found st' - errors_corrected st' = errors_found st - errors_corrected st"
proof -
  obtain fs' e hs where p: "pass5_groups bl (map rt_addr (fs_rgs (fk_fs st))) st = Some (repaired fs' e st)" "fs_geo fs'"
    "fs_sdp fs' = fs_sdp (fk_fs st)" "fs_rgs fs' = hs" "list_all2 (group_settled bl (fs_bsize (fk_fs st))) (fs_rgs (fk_fs st)) hs"
    using pass5_loop [OF assms(1,2), of "[]" "fs_rgs (fk_fs st)" bl] assms(3) by auto
  have b: "fs_bsize fs' = fs_bsize (fk_fs st)" using p(3) by (simp only: fs_bsize_def)
  have "\<forall>h \<in> set hs. \<exists>rg. group_settled bl (fs_bsize fs') rg h" using p(5) unfolding b by (induction rule: list_all2_induct) auto
  then have all: "\<forall>rg \<in> set (fs_rgs fs'). rg_ok (fs_bsize fs') rg \<and> unat (rt_dinodes rg) = state_count (fs_bsize fs') rg 3"
    using p(4) by (auto simp: group_settled_def)
  then have "fs_ok fs'" using p(2) by (simp add: fs_ok_def fs_geo_def)
  moreover have "pass5 bl st = Some (0, repaired fs' e st)" using p(1) by (simp add: pass5_def fs_rgs_def)
  ultimately show ?thesis using settled_states [OF assms(1) p(2,3)] p(4,5) all by (auto simp: repaired_def)
qed

text \<open>The file system of two empty groups, with block 205 found to be an inode.\<close>

definition bl_example :: gfs2_bmap where
  "bl_example = snd (gfs2_blockmap_set (gfs2_blockmap_create 400) 205 3)"

lemma bl_example_type: "b \<le> 400 \<Longrightarrow> block_type bl_example b = Some (if b = 205 then 3 else 0)"
  using bm2.get_set [of "gfs2_blockmap_create 400" 205 b 3] bm2.get_create [of b 400] by (simp add: bl_example_def create_laws)

lemma bl_example_block:
  assumes "rg \<in> set (fs_rgs fs_example)" "j < unat (rt_data rg)"
  shows "block_type bl_example (rt_data0 rg + of_nat j) = Some (if rt_data0 rg + of_nat j = 205 then 3 else 0)"
proof (rule bl_example_type)
  have rg: "j < 16" "unat (rt_data0 rg) < 385" using assms by (auto simp: fs_example_ok)
  then have "unat (rt_data0 rg + of_nat j) = unat (rt_data0 rg) + j" by (subst unat_add_no_wrap) (simp_all add: unat_of_nat)
  then show "rt_data0 rg + of_nat j \<le> 400" using rg by (simp add: word_le_nat_alt)
qed

lemma bl_example_ok:
  "fs_geo (fk_fs (fsck_start fs_example 400))" "answering_yes (fsck_start fs_example 400)"
  "\<forall>rg \<in> set (fs_rgs (fk_fs (fsck_start fs_example 400))). mapped bl_example rg"
  using bl_example_block
  by (simp_all add: fsck_start_def fs_ok_geo fs_example_ok(1) mapped_def answering_yes_def) (simp add: fs_example_def sbd_example_def)

theorem pass5_settles_witness:
  "\<exists>st'. pass5 bl_example (fsck_start fs_example 400) = Some (0, st') \<and> block_state (fk_fs st') 205 = Some 3 \<and> fs_ok (fk_fs st')"
proof -
  have "gfs2_blk2rgrpd (fs_rgtree fs_example) 205 = Some rgrp_example"
    using blk2rgrpd_Some_iff [of "fs_rgtree fs_example" 205 rgrp_example] fs_example_ok
    by (simp add: fs_ok_def fs_rgs_def rg_owns_def flip: set_inorder)
  then have "\<exists>s. block_state fs_example 205 = Some s" by (simp add: block_state_def)
  then show ?thesis using pass5_settles [OF bl_example_ok] by (fastforce simp: bl_example_type settled_def fsck_start_def)
qed

text \<open>
  C29. A second run of pass 5 finds nothing: when the map has no block as unlinked, the run after a run with every
  repair agreed to changes nothing at all, neither the groups nor the count of errors.
\<close>

theorem pass5_idempotent:
  assumes "fs_geo (fk_fs st)" "answering_yes st" "\<forall>rg \<in> set (fs_rgs (fk_fs st)). mapped bl rg"
    "\<forall>rg \<in> set (fs_rgs (fk_fs st)). \<forall>j < unat (rt_data rg). block_type bl (rt_data0 rg + of_nat j) \<noteq> Some GFS2_BLKST_UNLINKED"
  shows "\<exists>st'. pass5 bl st = Some (0, st') \<and> pass5 bl st' = Some (0, st')"
proof -
  let ?b = "fs_bsize (fk_fs st)"
  obtain fs' e hs where p: "pass5_groups bl (map rt_addr (fs_rgs (fk_fs st))) st = Some (repaired fs' e st)" "fs_geo fs'"
    "fs_sdp fs' = fs_sdp (fk_fs st)" "fs_rgs fs' = hs" "list_all2 (group_settled bl ?b) (fs_rgs (fk_fs st)) hs"
    using pass5_loop [OF assms(1,2), of "[]" "fs_rgs (fk_fs st)" bl] assms(3) by auto
  let ?st = "repaired fs' e st"
  have b: "fs_bsize fs' = ?b" using p(3) by (simp only: fs_bsize_def)
  have agree: "group_agrees bl ?b h \<and> mapped bl h" if "group_settled bl ?b rg h" "rg \<in> set (fs_rgs (fk_fs st))" for rg h
  proof -
    have m: "mapped bl rg" and u: "\<forall>j < unat (rt_data rg). block_type bl (rt_data0 rg + of_nat j) \<noteq> Some GFS2_BLKST_UNLINKED"
      using assms(3,4) that(2) by blast+
    have "seen bl rg k \<noteq> 2" if "k < unat (rt_data rg)" for k
      using u mapped_seen [OF m that] that by auto
    then show ?thesis using that(1) m by (auto simp: group_agrees_def group_settled_def settled_def mapped_def seen_def)
  qed
  have all: "\<forall>h \<in> set hs. group_agrees bl ?b h \<and> mapped bl h"
    using p(5) agree by (fastforce simp: list_all2_conv_all_nth in_set_conv_nth)
  have y: "answering_yes ?st" using assms(2) p(3) by (simp add: answering_yes_def)
  have "pass5_groups bl (map rt_addr (fs_rgs fs')) ?st = Some ?st"
    using pass5_loop [of ?st "[]" "fs_rgs fs'" bl] p(2,4) y all b by auto
  then have "pass5 bl ?st = Some (0, ?st)" by (simp add: pass5_def fs_rgs_def)
  moreover have "pass5 bl st = Some (0, ?st)" using p(1) by (simp add: pass5_def fs_rgs_def)
  ultimately show ?thesis by blast
qed

theorem pass5_idempotent_witness:
  "\<exists>st'. pass5 bl_example (fsck_start fs_example 400) = Some (0, st') \<and> pass5 bl_example st' = Some (0, st')"
  by (rule pass5_idempotent [OF bl_example_ok]) (simp add: fsck_start_def bl_example_block)

end
