(* ===== verification/FsckReplay.thy ===== *)
theory FsckReplay
  imports FsckLink FsLog Build
begin

text \<open>
  The recovery of journals by fsck.gfs2 (fs_recovery.c): revoke tags, the replay of the blocks in a log, the
  order of the sequence numbers of its headers, and the decisions taken on a journal that is clean, dirty or corrupt.

  The counters that are static in the file are the record \<open>replay\<close>. None is the result where the code ends the
  program, reads outside a buffer or does not come to an end. Allocation succeeds. A buffer that was
  marked modified without a change is written back as it was read.
\<close>

section \<open>Revokes\<close>

abbreviation (input) GFS2_LOG_DESC_METADATA :: u32 where "GFS2_LOG_DESC_METADATA \<equiv> 300"
abbreviation (input) GFS2_LOG_DESC_REVOKE :: u32 where "GFS2_LOG_DESC_REVOKE \<equiv> 301"
abbreviation (input) GFS2_LOG_DESC_JDATA :: u32 where "GFS2_LOG_DESC_JDATA \<equiv> 302"
abbreviation (input) JOURNAL_SEQ_TOLERANCE :: nat where "JOURNAL_SEQ_TOLERANCE \<equiv> 10"
abbreviation (input) FSCK_ERROR :: int where "FSCK_ERROR \<equiv> 8"

record gfs2_revoke_replay =
  rr_blkno :: u64
  rr_where :: u32

record replay =
  sd_found_jblocks :: u32
  sd_replayed_jblocks :: u32
  sd_found_metablocks :: u32
  sd_replayed_metablocks :: u32
  sd_found_revokes :: u32
  sd_revoke_list :: "gfs2_revoke_replay list"
  sd_replay_tail :: u32

fun put_revoke :: "u64 \<Rightarrow> u32 \<Rightarrow> gfs2_revoke_replay list \<Rightarrow> gfs2_revoke_replay list" where
  "put_revoke blkno where [] = []"
| "put_revoke blkno where (rr # rrs) =
     (if rr_blkno rr = blkno then rr\<lparr>rr_where := where\<rparr> # rrs else rr # put_revoke blkno where rrs)"

definition gfs2_revoke_add :: "u64 \<Rightarrow> u32 \<Rightarrow> replay \<Rightarrow> int \<times> replay" where
  "gfs2_revoke_add blkno where rp =
     (case find (\<lambda>rr. rr_blkno rr = blkno) (sd_revoke_list rp) of
        Some _ \<Rightarrow> (0, rp\<lparr>sd_revoke_list := put_revoke blkno where (sd_revoke_list rp)\<rparr>)
      | None \<Rightarrow> (1, rp\<lparr>sd_revoke_list := \<lparr>rr_blkno = blkno, rr_where = where\<rparr> # sd_revoke_list rp\<rparr>))"

definition gfs2_revoke_check :: "u64 \<Rightarrow> u32 \<Rightarrow> replay \<Rightarrow> bool" where
  "gfs2_revoke_check blkno where rp =
     (case find (\<lambda>rr. rr_blkno rr = blkno) (sd_revoke_list rp) of
        None \<Rightarrow> False
      | Some rr \<Rightarrow>
          let wrap = rr_where rr < sd_replay_tail rp;
              a = sd_replay_tail rp < where;
              b = where < rr_where rr
          in if wrap then a \<or> b else a \<and> b)"

definition gfs2_revoke_clean :: "replay \<Rightarrow> replay" where
  "gfs2_revoke_clean rp = rp\<lparr>sd_revoke_list := []\<rparr>"

section \<open>The blocks of a log\<close>

text \<open>The group in memory of a header or bitmap block that was replayed.\<close>

definition refresh_rgrp :: "gfs2_sbd \<Rightarrow> rgrp_tree \<Rightarrow> bytes \<Rightarrow> u64 \<Rightarrow> rgrp_tree option" where
  "refresh_rgrp sdp rgd buf blkno =
     (case find (\<lambda>i. rt_addr rgd + of_nat i = blkno) [0..<unat (rt_length rgd)] of None \<Rightarrow> Some rgd
      | Some i \<Rightarrow>
          if length (bits rgd) \<le> i then None
          else case bi_data (bits rgd ! i) of
            Live d \<Rightarrow>
              let d = memcpy_at 0 (take (unat (sd_bsize sdp)) buf) d;
                  rgd = rgd\<lparr>bits := (bits rgd)[i := (bits rgd ! i)\<lparr>bi_data := Live d, bi_modified := True\<rparr>]\<rparr>
              in Some (if i = 0 then (if sd_gfs1 sdp then lgfs2_gfs_rgrp_in rgd d else lgfs2_rgrp_in rgd d) else rgd)
          | _ \<Rightarrow> None)"

definition refresh_group :: "fs \<Rightarrow> u64 \<Rightarrow> bytes \<Rightarrow> fs option" where
  "refresh_group fs blkno buf =
     (case gfs2_blk2rgrpd (fs_rgtree fs) blkno of
        None \<Rightarrow> Some fs
      | Some rgd \<Rightarrow>
          if blkno < rt_data0 rgd then map_option (\<lambda>rgd. put_rg rgd fs) (refresh_rgrp (fs_sdp fs) rgd buf blkno)
          else Some fs)"

definition replayed_block :: "fs \<Rightarrow> u64 \<Rightarrow> bytes \<Rightarrow> gfs2_buffer_head" where
  "replayed_block fs blkno log =
     (let bh = bget (fs_sdp fs) blkno in bh\<lparr>b_data := memcpy_at 0 (take (unat (sd_bsize (fs_sdp fs))) log) (b_data bh)\<rparr>)"

text \<open>
  The loop of \<open>buf_lo_scan_elements\<close> over \<open>blks\<close> blocks; \<open>d\<close> is the block of the descriptor and \<open>off\<close> the place of the
  pointer in it.
\<close>

primrec buf_lo_loop :: "nat \<Rightarrow> vinode \<Rightarrow> bytes \<Rightarrow> nat \<Rightarrow> u32 \<Rightarrow> fs \<Rightarrow> replay \<Rightarrow> (int \<times> fs \<times> replay) option" where
  "buf_lo_loop 0 ip d off start fs rp = Some (0, fs, rp)"
| "buf_lo_loop (Suc blks) ip d off start fs rp =
     (let rp = rp\<lparr>sd_found_metablocks := sd_found_metablocks rp + 1\<rparr> in
      if length d < off + 8 then None
      else
        let blkno = get_be64 d off in
        if gfs2_revoke_check blkno start rp then buf_lo_loop blks ip d (off + 8) (gfs2_replay_incr_blk fs ip start) fs rp
        else case gfs2_replay_read_block fs ip start of None \<Rightarrow> None
        | Some (Inl e) \<Rightarrow> Some (e, fs, rp)
        | Some (Inr bh_log) \<Rightarrow>
            let bh_ip = replayed_block fs blkno (b_data bh_log) in
            if get_be32 (b_data bh_ip) (offsetof struct_gfs2_meta_header ''mh_magic'') \<noteq> GFS2_MAGIC
            then Some (- EIO, fs_brelse bh_ip (fs_brelse bh_log fs), rp)
            else
              let bh_ip = bmodified bh_ip in
              case refresh_group fs blkno (b_data bh_ip) of
                None \<Rightarrow> None
              | Some fs \<Rightarrow>
                  let fs = fs_brelse bh_ip (fs_brelse bh_log fs);
                      rp = rp\<lparr>sd_replayed_metablocks := sd_replayed_metablocks rp + 1\<rparr>
                  in buf_lo_loop blks ip d (off + 8) (gfs2_replay_incr_blk fs ip start) fs rp)"

definition buf_lo_scan_elements ::
  "vinode \<Rightarrow> u32 \<Rightarrow> bytes \<Rightarrow> nat \<Rightarrow> nat \<Rightarrow> fs \<Rightarrow> replay \<Rightarrow> (int \<times> fs \<times> replay) option" where
  "buf_lo_scan_elements ip start ld off pass fs rp =
     (if pass \<noteq> 1 \<or> get_be32 ld (offsetof struct_gfs2_log_descriptor ''ld_type'') \<noteq> GFS2_LOG_DESC_METADATA
      then Some (0, fs, rp)
      else buf_lo_loop (unat (get_be32 ld (offsetof struct_gfs2_log_descriptor ''ld_data1''))) ip ld off
             (gfs2_replay_incr_blk fs ip start) fs rp)"

text \<open>
  The revoke tags of one block from \<open>offset\<close>; a count of none left to read runs on, as the unsigned count does.
\<close>

function revoke_words :: "nat \<Rightarrow> bytes \<Rightarrow> u32 \<Rightarrow> nat \<Rightarrow> u32 \<Rightarrow> replay \<Rightarrow> u32 \<times> replay" where
  "revoke_words bsize buf start offset revokes rp =
     (if offset + 8 \<le> bsize then
        let (new, rp) = gfs2_revoke_add (get_be64 buf offset) start rp;
            rp = (if new \<noteq> 0 then rp\<lparr>sd_found_revokes := sd_found_revokes rp + 1\<rparr> else rp);
            revokes = revokes - 1
        in if revokes = 0 then (revokes, rp) else revoke_words bsize buf start (offset + 8) revokes rp
      else (revokes, rp))"
  by pat_completeness auto
termination by (relation "measure (\<lambda>(n, _, _, off, _, _). n - off)") auto

primrec revoke_lo_loop :: "nat \<Rightarrow> vinode \<Rightarrow> u32 \<Rightarrow> nat \<Rightarrow> bool \<Rightarrow> u32 \<Rightarrow> fs \<Rightarrow> replay \<Rightarrow> (int \<times> fs \<times> replay) option" where
  "revoke_lo_loop 0 ip start offset first revokes fs rp = Some (0, fs, rp)"
| "revoke_lo_loop (Suc blks) ip start offset first revokes fs rp =
     (case gfs2_replay_read_block fs ip start of None \<Rightarrow> None
      | Some (Inl e) \<Rightarrow> Some (e, fs, rp)
      | Some (Inr bh) \<Rightarrow>
          if \<not> first \<and> gfs2_check_meta (b_data bh) GFS2_METATYPE_LB \<noteq> 0
          then revoke_lo_loop blks ip (gfs2_replay_incr_blk fs ip start) offset first revokes fs rp
          else
            let (revokes, rp) = revoke_words (unat (sd_bsize (fs_sdp fs))) (b_data bh) start offset revokes rp;
                fs = fs_brelse (bmodified bh) fs
            in revoke_lo_loop blks ip (gfs2_replay_incr_blk fs ip start) (sizeof struct_gfs2_meta_header) False revokes fs rp)"

definition revoke_lo_scan_elements :: "vinode \<Rightarrow> u32 \<Rightarrow> bytes \<Rightarrow> nat \<Rightarrow> fs \<Rightarrow> replay \<Rightarrow> (int \<times> fs \<times> replay) option" where
  "revoke_lo_scan_elements ip start ld pass fs rp =
     (if pass \<noteq> 0 \<or> get_be32 ld (offsetof struct_gfs2_log_descriptor ''ld_type'') \<noteq> GFS2_LOG_DESC_REVOKE
      then Some (0, fs, rp)
      else revoke_lo_loop (unat (get_be32 ld (offsetof struct_gfs2_log_descriptor ''ld_length''))) ip start
             (sizeof struct_gfs2_log_descriptor) True (get_be32 ld (offsetof struct_gfs2_log_descriptor ''ld_data1'')) fs rp)"

primrec databuf_lo_loop :: "nat \<Rightarrow> vinode \<Rightarrow> bytes \<Rightarrow> nat \<Rightarrow> u32 \<Rightarrow> fs \<Rightarrow> replay \<Rightarrow> (int \<times> fs \<times> replay) option" where
  "databuf_lo_loop 0 ip d off start fs rp = Some (0, fs, rp)"
| "databuf_lo_loop (Suc blks) ip d off start fs rp =
     (if length d < off + 16 then None
      else
        let blkno = get_be64 d off;
            esc = get_be64 d (off + 8);
            rp = rp\<lparr>sd_found_jblocks := sd_found_jblocks rp + 1\<rparr>
        in if gfs2_revoke_check blkno start rp then databuf_lo_loop blks ip d (off + 16) (gfs2_replay_incr_blk fs ip start) fs rp
        else case gfs2_replay_read_block fs ip start of None \<Rightarrow> None
        | Some (Inl e) \<Rightarrow> Some (e, fs, rp)
        | Some (Inr bh_log) \<Rightarrow>
            let bh_ip = replayed_block fs blkno (b_data bh_log);
                bh_ip = (if esc \<noteq> 0 then bh_ip\<lparr>b_data := put_be32 0 GFS2_MAGIC (b_data bh_ip)\<rparr> else bh_ip);
                fs = fs_brelse (bmodified bh_ip) (fs_brelse bh_log fs);
                rp = rp\<lparr>sd_replayed_jblocks := sd_replayed_jblocks rp + 1\<rparr>
            in databuf_lo_loop blks ip d (off + 16) (gfs2_replay_incr_blk fs ip start) fs rp)"

definition databuf_lo_scan_elements ::
  "vinode \<Rightarrow> u32 \<Rightarrow> bytes \<Rightarrow> nat \<Rightarrow> nat \<Rightarrow> fs \<Rightarrow> replay \<Rightarrow> (int \<times> fs \<times> replay) option" where
  "databuf_lo_scan_elements ip start ld off pass fs rp =
     (if pass \<noteq> 1 \<or> get_be32 ld (offsetof struct_gfs2_log_descriptor ''ld_type'') \<noteq> GFS2_LOG_DESC_JDATA
      then Some (0, fs, rp)
      else databuf_lo_loop (unat (get_be32 ld (offsetof struct_gfs2_log_descriptor ''ld_data1''))) ip ld off
             (gfs2_replay_incr_blk fs ip start) fs rp)"

text \<open>The three of them, up to the first error.\<close>

definition scan_elements :: "vinode \<Rightarrow> u32 \<Rightarrow> bytes \<Rightarrow> nat \<Rightarrow> fs \<Rightarrow> replay \<Rightarrow> (int \<times> fs \<times> replay) option" where
  "scan_elements ip start ld pass fs rp = do {
     let off = unat ((of_nat (sizeof struct_gfs2_log_descriptor) + 8 - 1 :: u32) AND NOT (8 - 1));
     (error, fs, rp) \<leftarrow> databuf_lo_scan_elements ip start ld off pass fs rp;
     if error \<noteq> 0 then Some (error, fs, rp)
     else do {
       (error, fs, rp) \<leftarrow> buf_lo_scan_elements ip start ld off pass fs rp;
       if error \<noteq> 0 then Some (error, fs, rp) else revoke_lo_scan_elements ip start ld pass fs rp
     }
   }"

partial_function (option) foreach_descriptor ::
  "vinode \<Rightarrow> nat \<Rightarrow> u32 \<Rightarrow> u32 \<Rightarrow> fs \<Rightarrow> replay \<Rightarrow> (int \<times> fs \<times> replay) option" where
  "foreach_descriptor ip pass end start fs rp =
     (if start = end then Some (0, fs, rp)
      else case gfs2_replay_read_block fs ip start of None \<Rightarrow> None
      | Some (Inl e) \<Rightarrow> Some (e, fs, rp)
      | Some (Inr bh) \<Rightarrow>
          let ld = b_data bh;
              len = get_be32 ld (offsetof struct_gfs2_log_descriptor ''ld_length'')
          in if get_be32 ld (offsetof struct_gfs2_meta_header ''mh_magic'') \<noteq> GFS2_MAGIC
             then Some (- EIO, fs_brelse (bmodified bh) fs, rp)
             else if get_be32 ld (offsetof struct_gfs2_meta_header ''mh_type'') = GFS2_METATYPE_LH then
               (case lgfs2_get_log_header fs ip start of None \<Rightarrow> None
                | Some (Inr lh) \<Rightarrow>
                    foreach_descriptor ip pass end (gfs2_replay_incr_blk fs ip start) (fs_brelse (bmodified bh) fs) rp
                | Some (Inl error) \<Rightarrow> Some (if error = 1 then - EIO else error, fs_brelse (bmodified bh) fs, rp))
             else if gfs2_check_meta ld GFS2_METATYPE_LD \<noteq> 0 then Some (- EIO, fs_brelse (bmodified bh) fs, rp)
             else
               (case scan_elements ip start ld pass fs rp of None \<Rightarrow> None
                | Some (error, fs, rp) \<Rightarrow>
                    if error \<noteq> 0 then Some (error, fs_brelse (bmodified bh) fs, rp)
                    else foreach_descriptor ip pass end ((gfs2_replay_incr_blk fs ip ^^ unat len) start)
                           (fs_brelse (bmodified bh) fs) rp))"

declare foreach_descriptor.simps [code]

section \<open>Sequence numbers\<close>

record seq_scan =
  sq_lh :: lgfs2_log_header
  highest_seq :: u64
  lowest_seq :: u64
  prev_seq :: u64
  wrapped :: bool
  seq_errors :: nat

text \<open>A header whose number is not higher than the one before it; when it is renumbered its checksums stay as they were.\<close>

definition renumber :: "vinode \<Rightarrow> u32 \<Rightarrow> u64 \<Rightarrow> fs \<Rightarrow> fs option" where
  "renumber ip blk seq fs = do {
     (fs, ip, _, dblock, _) \<leftarrow> block_map fs ip (ucast blk) False False False;
     bh \<leftarrow> bread (fs_disk fs) dblock;
     let buf = put_be64 (offsetof struct_gfs2_log_header ''lh_sequence'') seq (b_data bh);
     Some (fs_brelse (bmodified (bh\<lparr>b_data := buf\<rparr>)) fs)
   }"

text \<open>One block. A block that cannot be read counts with the header that was read last.\<close>

definition seq_no_step :: "vinode \<Rightarrow> bool \<Rightarrow> nat \<Rightarrow> seq_scan \<Rightarrow> fs \<Rightarrow> (seq_scan \<times> fs) option" where
  "seq_no_step ip fix_it b q fs =
     (case lgfs2_get_log_header fs ip (of_nat b) of None \<Rightarrow> None
      | Some r \<Rightarrow>
          if r = Inl 1 then Some (q, fs)
          else
            let lh = (case r of Inl _ \<Rightarrow> sq_lh q | Inr lh \<Rightarrow> lh);
                s = lh_sequence lh;
                q = q\<lparr>sq_lh := lh, lowest_seq := (if lowest_seq q = 0 \<or> s < lowest_seq q then s else lowest_seq q),
                      highest_seq := (if highest_seq q = 0 \<or> highest_seq q < s then s else highest_seq q)\<rparr>
            in if prev_seq q < s then Some (q\<lparr>prev_seq := s\<rparr>, fs)
               else if \<not> wrapped q \<and> s = lowest_seq q then Some (q\<lparr>wrapped := True, prev_seq := s\<rparr>, fs)
               else
                 let q = q\<lparr>seq_errors := seq_errors q + 1\<rparr> in
                 if \<not> fix_it then Some (q, fs)
                 else
                   let h = highest_seq q + 1 in
                   map_option (Pair (q\<lparr>highest_seq := h, prev_seq := h\<rparr>)) (renumber ip (of_nat b) h fs))"

primrec seq_no_loop :: "nat list \<Rightarrow> vinode \<Rightarrow> bool \<Rightarrow> seq_scan \<Rightarrow> fs \<Rightarrow> (seq_scan \<times> fs) option" where
  "seq_no_loop [] ip fix_it q fs = Some (q, fs)"
| "seq_no_loop (b # bs) ip fix_it q fs =
     (case seq_no_step ip fix_it b q fs of None \<Rightarrow> None | Some (q, fs) \<Rightarrow> seq_no_loop bs ip fix_it q fs)"

definition check_journal_seq_no :: "vinode \<Rightarrow> bool \<Rightarrow> fs \<Rightarrow> (nat \<times> fs) option" where
  "check_journal_seq_no ip fix_it fs =
     map_option (\<lambda>(q, fs). (if seq_errors q \<noteq> 0 \<and> fix_it then 0 else seq_errors q, fs))
       (seq_no_loop [0..<unat (jd_blocks fs ip)] ip fix_it
          \<lparr>sq_lh = log_header_in (replicate (sizeof struct_gfs2_log_header) 0), highest_seq = 0, lowest_seq = 0, prev_seq = 0,
           wrapped = False, seq_errors = 0\<rparr> fs)"

section \<open>The recovery of a journal\<close>

definition preen_is_safe :: "gfs2_sbd \<Rightarrow> bool \<Rightarrow> bool \<Rightarrow> bool" where
  "preen_is_safe sdp preen force_check \<longleftrightarrow> \<not> preen \<or> force_check \<or> slice 5 6 (sd_lockproto sdp) = str ''nolock''"

text \<open>What is left when the journal was not replayed: the offer to write a new one in its place.\<close>

definition recover_reinit :: "u64 \<Rightarrow> nat \<Rightarrow> int \<Rightarrow> fsck \<Rightarrow> (int \<times> bool \<times> fsck) option" where
  "recover_reinit seq0 j error st = do {
     (ok, st) \<leftarrow> fsck_query st;
     if ok then do {
       ip \<leftarrow> md_journal (fk_md st) ! j;
       let bsize = sd_bsize (fs_sdp (fk_fs st));
       (error, fs, ip) \<leftarrow> write_journal seq0 (fk_fs st) ip bsize (ucast (i_size (vi ip) div ucast bsize));
       Some (error, False, st\<lparr>fk_fs := fs, fk_md := (fk_md st)\<lparr>md_journal := (md_journal (fk_md st))[j := Some ip]\<rparr>\<rparr>)
     }
     else Some (error, False, st)
   }"

definition recover_out :: "u64 \<Rightarrow> nat \<Rightarrow> int \<Rightarrow> fsck \<Rightarrow> (int \<times> bool \<times> fsck) option" where
  "recover_out seq0 j error st = (if error = 0 then Some (0, False, st) else recover_reinit seq0 j error st)"

definition replay_start :: "u32 \<Rightarrow> replay" where
  "replay_start tail = \<lparr>sd_found_jblocks = 0, sd_replayed_jblocks = 0, sd_found_metablocks = 0, sd_replayed_metablocks = 0,
     sd_found_revokes = 0, sd_revoke_list = [], sd_replay_tail = tail\<rparr>"

text \<open>The two passes over the log from its tail to its head.\<close>

definition replay_log :: "vinode \<Rightarrow> lgfs2_log_header \<Rightarrow> fs \<Rightarrow> (int \<times> fs \<times> replay) option" where
  "replay_log ip head fs = do {
     (error, fs, rp) \<leftarrow> foreach_descriptor ip 0 (lh_blkno head) (lh_tail head) fs (replay_start (lh_tail head));
     if error \<noteq> 0 then Some (error, fs, rp)
     else foreach_descriptor ip 1 (lh_blkno head) (lh_tail head) fs rp
   }"

definition recover_dirty ::
  "u64 \<Rightarrow> nat \<Rightarrow> bool \<Rightarrow> bool \<Rightarrow> vinode \<Rightarrow> lgfs2_log_header \<Rightarrow> fsck \<Rightarrow> (int \<times> bool \<times> fsck) option" where
  "recover_dirty seq0 j preen force_check ip head st =
     (if lh_flags head AND GFS2_LOG_HEAD_UNMOUNT \<noteq> 0 then Some (0, True, st)
      else if opts_no st then recover_out seq0 j 0 st
      else if \<not> preen_is_safe (fs_sdp (fk_fs st)) preen force_check then recover_out seq0 j FSCK_ERROR st
      else do {
        (ok, st) \<leftarrow> fsck_query st;
        if \<not> ok then recover_reinit seq0 j 0 st
        else do {
          (error, fs, rp) \<leftarrow> replay_log ip head (fk_fs st);
          let st = st\<lparr>fk_fs := fs\<rparr>;
          if error \<noteq> 0 then recover_out seq0 j error st
          else do {
            (error, fs) \<leftarrow> lgfs2_clean_journal (fk_fs st) ip head;
            recover_out seq0 j error (st\<lparr>fk_fs := fs\<rparr>)
          }
        }
      })"

text \<open>A journal whose head is not found, or whose sequence numbers are out of order.\<close>

definition recover_corrupt :: "u64 \<Rightarrow> nat \<Rightarrow> bool \<Rightarrow> bool \<Rightarrow> vinode \<Rightarrow> int \<Rightarrow> fsck \<Rightarrow> (int \<times> bool \<times> fsck) option" where
  "recover_corrupt seq0 j preen force_check ip error st =
     (if opts_no st then recover_out seq0 j error st
      else if \<not> preen_is_safe (fs_sdp (fk_fs st)) preen force_check then recover_out seq0 j error st
      else do {
        (ok, st) \<leftarrow> fsck_query st;
        if \<not> ok then recover_out seq0 j error st
        else do {
          (errors, fs) \<leftarrow> check_journal_seq_no ip True (fk_fs st);
          let st = st\<lparr>fk_fs := fs\<rparr>;
          if errors \<noteq> 0 then recover_out seq0 j (int errors) st
          else do {
            r \<leftarrow> lgfs2_find_jhead (fk_fs st) ip;
            case r of Inl error \<Rightarrow> recover_out seq0 j error st
            | Inr head \<Rightarrow> recover_dirty seq0 j preen force_check ip head st
          }
        }
      })"

text \<open>The result has \<open>*was_clean\<close>. \<open>seq0\<close> is where \<open>random()\<close> lets the numbers of a new journal begin.\<close>

definition gfs2_recover_journal :: "u64 \<Rightarrow> vinode \<Rightarrow> nat \<Rightarrow> bool \<Rightarrow> bool \<Rightarrow> fsck \<Rightarrow> (int \<times> bool \<times> fsck) option" where
  "gfs2_recover_journal seq0 ip j preen force_check st = do {
     r \<leftarrow> lgfs2_find_jhead (fk_fs st) ip;
     case r of Inl error \<Rightarrow> recover_corrupt seq0 j preen force_check ip error st
     | Inr head \<Rightarrow> do {
         (errors, fs) \<leftarrow> check_journal_seq_no ip False (fk_fs st);
         let st = st\<lparr>fk_fs := fs\<rparr>;
         if JOURNAL_SEQ_TOLERANCE < errors then recover_out seq0 j (int errors) st
         else if errors \<noteq> 0 then recover_corrupt seq0 j preen force_check ip (int errors) st
         else recover_dirty seq0 j preen force_check ip head st
       }
   }"

section \<open>The journals of a file system\<close>

definition rangecheck_jblock :: "gfs2_sbd \<Rightarrow> u64 \<Rightarrow> int" where
  "rangecheck_jblock sdp block = (if fssize sdp < block \<or> block \<le> LGFS2_SB_ADDR sdp then -1 else 0)"

text \<open>Names of the journal index; the caller's count of entries becomes that of the leaf.\<close>

definition check_jindex_name :: "bytes \<Rightarrow> int" where
  "check_jindex_name filename =
     (if filename = str ''.'' \<or> filename = str ''..'' then 0
      else if 11 \<le> length filename \<or> length filename \<le> 7 \<or> take 7 filename \<noteq> str ''journal'' then -1
      else if \<exists>c \<in> set (drop 7 filename). c < 48 \<or> 57 < c then -2
      else 0)"

text \<open>
  \<open>ji_update\<close> reads the inodes of the journals that the index names. The count comes from the
  entries of per_node where that is there: each node has three. A look-up that ends the program is None.
\<close>

fun ji_gfs1_loop :: "nat list \<Rightarrow> fs \<Rightarrow> vinode \<Rightarrow> vinode option list \<Rightarrow> (int \<times> vinode option list) option" where
  "ji_gfs1_loop [] fs ip js = Some (0, js)"
| "ji_gfs1_loop (i # is) fs ip js = do {
     (buf, fs, ip) \<leftarrow> gfs2_readi fs ip (of_nat i * of_nat (sizeof struct_gfs_jindex)) (of_nat (sizeof struct_gfs_jindex));
     if buf = [] then Some (0, js)
     else if length buf \<noteq> sizeof struct_gfs_jindex then Some (-1, js)
     else case lgfs2_inode_read fs (get_be64 buf (offsetof struct_gfs_jindex ''ji_addr'')) of
       None \<Rightarrow> Some (-1, js)
     | Some jip \<Rightarrow> ji_gfs1_loop is fs ip (js[i := Some jip])
   }"

fun ji_lookup_loop :: "nat list \<Rightarrow> fs \<Rightarrow> vinode \<Rightarrow> vinode option list \<Rightarrow> (fs \<times> vinode \<times> vinode option list) option" where
  "ji_lookup_loop [] fs dip js = Some (fs, dip, js)"
| "ji_lookup_loop (i # is) fs dip js = do {
     (_, r, fs, dip) \<leftarrow> gfs2_lookupi fs dip (numbered ''journal'' (of_nat i));
     ji_lookup_loop is fs dip (js[i := (case r of Found jip \<Rightarrow> Some jip | _ \<Rightarrow> None)])
   }"

definition ji_update :: "fsck \<Rightarrow> (int \<times> fsck) option" where
  "ji_update st =
     (case md_jiinode (fk_md st) of None \<Rightarrow> Some (-1, st)
      | Some ip \<Rightarrow>
          let fs = fk_fs st; md = fk_md st;
              journals :: u32 =
                (if sd_gfs1 (fs_sdp fs) then ucast (i_size (vi ip) div of_nat (sizeof struct_gfs_jindex))
                 else case md_pinode md of
                   Some p \<Rightarrow> (i_entries (vi p) - 2) div 3
                 | None \<Rightarrow> i_entries (vi ip) - 2);
              js = replicate (unat journals) None
          in if sd_gfs1 (fs_sdp fs)
             then map_option (\<lambda>(r, js). (r, st\<lparr>fk_md := md\<lparr>md_journal := js\<rparr>\<rparr>)) (ji_gfs1_loop [0..<unat journals] fs ip js)
             else map_option (\<lambda>(fs, ip, js). (0, st\<lparr>fk_fs := fs, fk_md := md\<lparr>md_jiinode := Some ip, md_journal := js\<rparr>\<rparr>))
                    (ji_lookup_loop [0..<unat journals] fs ip js))"

section \<open>The table of revokes\<close>

definition revoke_at :: "replay \<Rightarrow> u64 \<Rightarrow> u32 option" where
  "revoke_at rp a = map_option rr_where (find (\<lambda>rr. rr_blkno rr = a) (sd_revoke_list rp))"

lemma find_put_revoke:
  "find (\<lambda>rr. rr_blkno rr = a) (put_revoke b w rrs) =
     (if a = b then map_option (\<lambda>rr. rr\<lparr>rr_where := w\<rparr>) (find (\<lambda>rr. rr_blkno rr = b) rrs) else find (\<lambda>rr. rr_blkno rr = a) rrs)"
  by (induction rrs) auto

lemma revoke_add_at:
  "revoke_at (snd (gfs2_revoke_add b w rp)) = (revoke_at rp)(b \<mapsto> w)"
  "sd_replay_tail (snd (gfs2_revoke_add b w rp)) = sd_replay_tail rp"
  by (auto simp: fun_eq_iff revoke_at_def gfs2_revoke_add_def find_put_revoke option.map_comp split: option.split)

lemma revoke_at_counts [simp]:
  "revoke_at (rp\<lparr>sd_found_jblocks := x\<rparr>) = revoke_at rp" "revoke_at (rp\<lparr>sd_replayed_jblocks := x\<rparr>) = revoke_at rp"
  "revoke_at (rp\<lparr>sd_found_metablocks := x\<rparr>) = revoke_at rp" "revoke_at (rp\<lparr>sd_replayed_metablocks := x\<rparr>) = revoke_at rp"
  "revoke_at (rp\<lparr>sd_found_revokes := x\<rparr>) = revoke_at rp"
  by (simp_all add: revoke_at_def fun_eq_iff)

text \<open>
  Positions are counted on from the tail \<open>t\<close> of the log without going round: \<open>revs\<close> gives the position of the
  last revoke of a block.
\<close>

definition revokes_rel :: "nat \<Rightarrow> nat \<Rightarrow> replay \<Rightarrow> (u64 \<rightharpoonup> nat) \<Rightarrow> bool" where
  "revokes_rel n t rp revs \<longleftrightarrow> sd_replay_tail rp = of_nat t \<and> t < n \<and> n \<le> 2 ^ 31 \<and>
     (\<forall>a. revoke_at rp a = map_option (\<lambda>r. of_nat (r mod n)) (revs a)) \<and> (\<forall>r \<in> ran revs. t \<le> r \<and> r < t + n)"

lemma ring_small: "0 < n \<Longrightarrow> n \<le> 2 ^ 31 \<Longrightarrow> p mod n < 2 ^ 32" for n p :: nat
  by (rule less_le_trans [OF mod_less_divisor]) simp_all

lemma ring_less:
  assumes "t < n" "n \<le> 2 ^ 31" "t < p" "p < t + n" "t \<le> r" "r < t + n"
  shows "(if (of_nat (r mod n) :: u32) < of_nat t then (of_nat t :: u32) < of_nat (p mod n) \<or> (of_nat (p mod n) :: u32) < of_nat (r mod n)
          else (of_nat t :: u32) < of_nat (p mod n) \<and> (of_nat (p mod n) :: u32) < of_nat (r mod n)) \<longleftrightarrow> p < r"
proof -
  have small: "(of_nat (x mod n) :: u32) < of_nat (y mod n) \<longleftrightarrow> x mod n < y mod n" for x y
  proof -
    have "x mod n < 2 ^ 32" "y mod n < 2 ^ 32" using assms(1,2) by (simp_all only: ring_small)
    then show ?thesis by (simp add: word_less_nat_alt unat_of_nat_small)
  qed
  have m: "x mod n = (if x < n then x else x - n)" if "x < t + n" for x
    using that assms(1) by (auto simp: le_mod_geq)
  have "t mod n = t" using assms(1) by simp
  then show ?thesis using small [of r t] small [of t p] small [of p r] m [OF assms(4)] m [OF assms(6)] assms by (auto split: if_splits)
qed

text \<open>A block is left out when a revoke of it comes later in the log.\<close>

lemma revoke_check_later:
  assumes "revokes_rel n t rp revs" "t < p" "p < t + n"
  shows "gfs2_revoke_check a (of_nat (p mod n)) rp \<longleftrightarrow> (case revs a of None \<Rightarrow> False | Some r \<Rightarrow> p < r)"
proof (cases "revs a")
  case None
  then have "revoke_at rp a = None" using assms(1) by (simp add: revokes_rel_def)
  then show ?thesis using None by (simp add: gfs2_revoke_check_def revoke_at_def)
next
  case (Some r)
  then have r: "t \<le> r" "r < t + n" "revoke_at rp a = Some (of_nat (r mod n))" "t < n" "n \<le> 2 ^ 31" "sd_replay_tail rp = of_nat t"
    using assms(1) by (auto simp: revokes_rel_def ran_def)
  then obtain rr where "find (\<lambda>rr. rr_blkno rr = a) (sd_revoke_list rp) = Some rr" "rr_where rr = of_nat (r mod n)"
    by (auto simp: revoke_at_def)
  then show ?thesis using ring_less [OF r(4,5) assms(2,3) r(1,2)] Some r(6) by (simp add: gfs2_revoke_check_def Let_def)
qed

lemma revokes_rel_add:
  assumes "revokes_rel n t rp revs" "t \<le> p" "p < t + n"
  shows "revokes_rel n t (snd (gfs2_revoke_add a (of_nat (p mod n)) rp)) (revs(a \<mapsto> p))"
  using assms ran_map_upd_Some [of revs a] by (auto simp: revokes_rel_def revoke_add_at ran_def split: if_splits)

lemma revokes_rel_counts [simp]:
  "revokes_rel n t (rp\<lparr>sd_found_jblocks := x\<rparr>) = revokes_rel n t rp" "revokes_rel n t (rp\<lparr>sd_replayed_jblocks := x\<rparr>) = revokes_rel n t rp"
  "revokes_rel n t (rp\<lparr>sd_found_metablocks := x\<rparr>) = revokes_rel n t rp" "revokes_rel n t (rp\<lparr>sd_replayed_metablocks := x\<rparr>) = revokes_rel n t rp"
  "revokes_rel n t (rp\<lparr>sd_found_revokes := x\<rparr>) = revokes_rel n t rp"
  by (simp_all add: revokes_rel_def fun_eq_iff)

section \<open>What a log says\<close>

text \<open>
  The active part of a log is a sequence of headers and descriptors: one of metadata blocks with the blocks it has copies of, one of
  data blocks, each with whether its first word was escaped, and one of revokes with the tags of each of its blocks.
\<close>

datatype log_item = Header | Blocks "u64 list" | Data "(u64 \<times> u64) list" | Revokes "u64 list list"

fun item_len :: "log_item \<Rightarrow> nat" where
  "item_len Header = 1"
| "item_len (Blocks bs) = Suc (length bs)"
| "item_len (Data bs) = Suc (length bs)"
| "item_len (Revokes wss) = length wss"

definition log_len :: "log_item list \<Rightarrow> nat" where
  "log_len its = sum_list (map item_len its)"

text \<open>Position, block and new content of what a log has to write, and position and block of its revokes; \<open>J\<close> has the log's blocks.\<close>

fun block_writes :: "nat \<Rightarrow> (nat \<Rightarrow> bytes) \<Rightarrow> nat \<Rightarrow> u64 list \<Rightarrow> (nat \<times> u64 \<times> bytes) list" where
  "block_writes n J p [] = []"
| "block_writes n J p (b # bs) = (p, b, J (p mod n)) # block_writes n J (Suc p) bs"

fun data_writes :: "nat \<Rightarrow> (nat \<Rightarrow> bytes) \<Rightarrow> nat \<Rightarrow> (u64 \<times> u64) list \<Rightarrow> (nat \<times> u64 \<times> bytes) list" where
  "data_writes n J p [] = []"
| "data_writes n J p ((b, esc) # bs) =
     (p, b, if esc \<noteq> 0 then put_be32 0 GFS2_MAGIC (J (p mod n)) else J (p mod n)) # data_writes n J (Suc p) bs"

fun log_writes :: "nat \<Rightarrow> (nat \<Rightarrow> bytes) \<Rightarrow> nat \<Rightarrow> log_item list \<Rightarrow> (nat \<times> u64 \<times> bytes) list" where
  "log_writes n J p [] = []"
| "log_writes n J p (it # its) =
     (case it of Blocks bs \<Rightarrow> block_writes n J (Suc p) bs | Data bs \<Rightarrow> data_writes n J (Suc p) bs | _ \<Rightarrow> [])
     @ log_writes n J (p + item_len it) its"

fun revoke_tags :: "nat \<Rightarrow> u64 list list \<Rightarrow> (nat \<times> u64) list" where
  "revoke_tags p [] = []"
| "revoke_tags p (ws # wss) = map (Pair p) ws @ revoke_tags (Suc p) wss"

fun log_revokes :: "nat \<Rightarrow> log_item list \<Rightarrow> (nat \<times> u64) list" where
  "log_revokes p [] = []"
| "log_revokes p (it # its) = (case it of Revokes wss \<Rightarrow> revoke_tags p wss | _ \<Rightarrow> []) @ log_revokes (p + item_len it) its"

definition add_revokes :: "(nat \<times> u64) list \<Rightarrow> (u64 \<rightharpoonup> nat) \<Rightarrow> (u64 \<rightharpoonup> nat)" where
  "add_revokes tags revs = fold (\<lambda>(r, a) m. m(a \<mapsto> r)) tags revs"

lemma add_revokes_simps [simp]:
  "add_revokes [] revs = revs" "add_revokes ((r, a) # tags) revs = add_revokes tags (revs(a \<mapsto> r))"
  "add_revokes (t1 @ t2) revs = add_revokes t2 (add_revokes t1 revs)"
  by (simp_all add: add_revokes_def)

text \<open>The last revoke of each block, and the writes that no later revoke takes back.\<close>

definition last_revokes :: "nat \<Rightarrow> log_item list \<Rightarrow> (u64 \<rightharpoonup> nat)" where
  "last_revokes p its = add_revokes (log_revokes p its) Map.empty"

definition kept :: "(u64 \<rightharpoonup> nat) \<Rightarrow> nat \<times> u64 \<times> bytes \<Rightarrow> bool" where
  "kept revs = (\<lambda>(p, a, c). case revs a of None \<Rightarrow> True | Some r \<Rightarrow> \<not> p < r)"

definition write_block :: "nat \<times> u64 \<times> bytes \<Rightarrow> device \<Rightarrow> device" where
  "write_block = (\<lambda>(p, a, c) d. if d a = None then d else d(a \<mapsto> c))"

text \<open>The device after the replay of a log.\<close>

definition replayed :: "(u64 \<rightharpoonup> nat) \<Rightarrow> (nat \<times> u64 \<times> bytes) list \<Rightarrow> device \<Rightarrow> device" where
  "replayed revs ws d = fold write_block (filter (kept revs) ws) d"

lemma replayed_simps [simp]:
  "replayed revs [] d = d" "replayed revs (ws @ ws') d = replayed revs ws' (replayed revs ws d)"
  "replayed revs (w # ws) d = replayed revs ws (if kept revs w then write_block w d else d)"
  by (simp_all add: replayed_def)

text \<open>The descriptors as they are in the log.\<close>

fun words_at :: "bytes \<Rightarrow> nat \<Rightarrow> u64 list \<Rightarrow> bool" where
  "words_at c off [] = True"
| "words_at c off (w # ws) = (off + 8 \<le> length c \<and> get_be64 c off = w \<and> words_at c (off + 8) ws)"

definition descriptor_at :: "bytes \<Rightarrow> u32 \<Rightarrow> nat \<Rightarrow> nat \<Rightarrow> bool" where
  "descriptor_at c type len data1 \<longleftrightarrow> get_be32 c 0 = GFS2_MAGIC \<and> get_be32 c 4 = GFS2_METATYPE_LD \<and> get_be32 c 24 = type \<and>
     unat (get_be32 c 28) = len \<and> unat (get_be32 c 32) = data1"

fun revokes_at :: "nat \<Rightarrow> nat \<Rightarrow> (nat \<Rightarrow> bytes) \<Rightarrow> nat \<Rightarrow> bool \<Rightarrow> nat \<Rightarrow> u64 list list \<Rightarrow> bool" where
  "revokes_at bsize n J off first p [] = True"
| "revokes_at bsize n J off first p (ws # wss) =
     (ws \<noteq> [] \<and> words_at (J (p mod n)) off ws \<and> off + 8 * length ws \<le> bsize \<and> (wss \<noteq> [] \<longrightarrow> bsize < off + 8 * length ws + 8) \<and>
      (first \<or> gfs2_check_meta (J (p mod n)) GFS2_METATYPE_LB = 0) \<and> revokes_at bsize n J 24 False (Suc p) wss)"

fun item_at :: "nat \<Rightarrow> nat \<Rightarrow> (nat \<Rightarrow> bytes) \<Rightarrow> nat \<Rightarrow> log_item \<Rightarrow> bool" where
  "item_at bsize n J p Header \<longleftrightarrow> get_be32 (J (p mod n)) 0 = GFS2_MAGIC \<and> get_be32 (J (p mod n)) 4 = GFS2_METATYPE_LH \<and>
     good_header bsize (of_nat (p mod n)) (J (p mod n)) \<noteq> None"
| "item_at bsize n J p (Blocks bs) \<longleftrightarrow> descriptor_at (J (p mod n)) GFS2_LOG_DESC_METADATA (Suc (length bs)) (length bs) \<and>
     words_at (J (p mod n)) 72 bs \<and> (\<forall>i < length bs. get_be32 (J ((Suc p + i) mod n)) 0 = GFS2_MAGIC)"
| "item_at bsize n J p (Data bs) \<longleftrightarrow> descriptor_at (J (p mod n)) GFS2_LOG_DESC_JDATA (Suc (length bs)) (length bs) \<and>
     words_at (J (p mod n)) 72 (concat (map (\<lambda>(b, esc). [b, esc]) bs))"
| "item_at bsize n J p (Revokes wss) \<longleftrightarrow> wss \<noteq> [] \<and>
     descriptor_at (J (p mod n)) GFS2_LOG_DESC_REVOKE (length wss) (length (concat wss)) \<and> revokes_at bsize n J 72 True p wss"

fun log_at :: "nat \<Rightarrow> nat \<Rightarrow> (nat \<Rightarrow> bytes) \<Rightarrow> nat \<Rightarrow> log_item list \<Rightarrow> bool" where
  "log_at bsize n J p [] = True"
| "log_at bsize n J p (it # its) = (item_at bsize n J p it \<and> log_at bsize n J (p + item_len it) its)"

section \<open>The groups in memory\<close>

definition groups_read :: "fs \<Rightarrow> bool" where
  "groups_read fs \<longleftrightarrow> (\<forall>rg \<in> set_tree (fs_rgtree fs). \<forall>i < unat (rt_length rg). i < length (bits rg) \<and> (\<exists>d. bi_data (bits rg ! i) = Live d))"

lemma blk2rgrpd_in: "gfs2_blk2rgrpd t blk = Some rg \<Longrightarrow> rg \<in> set_tree t"
  by (induction t) (auto split: if_splits simp: Let_def)

lemma rgrp_in_bits [simp]:
  "bits (lgfs2_rgrp_in rg d) = bits rg" "rt_length (lgfs2_rgrp_in rg d) = rt_length rg" "rt_addr (lgfs2_rgrp_in rg d) = rt_addr rg"
  "bits (lgfs2_gfs_rgrp_in rg d) = bits rg" "rt_length (lgfs2_gfs_rgrp_in rg d) = rt_length rg" "rt_addr (lgfs2_gfs_rgrp_in rg d) = rt_addr rg"
  by (simp_all add: lgfs2_rgrp_in_def lgfs2_gfs_rgrp_in_def set_rt_freemeta_def set_rt_usedmeta_def set_rt_freedi_def set_rt_useddi_def set_rt_dinodes_def set_rt_skip_def)

lemma refresh_groups:
  assumes "groups_read fs" "gfs2_blk2rgrpd (fs_rgtree fs) blk = Some rg"
  shows "\<exists>rg'. refresh_rgrp sdp rg buf blkno = Some rg' \<and> groups_read (put_rg rg' fs)"
proof -
  have rg: "\<forall>i < unat (rt_length rg). i < length (bits rg) \<and> (\<exists>d. bi_data (bits rg ! i) = Live d)"
    using assms blk2rgrpd_in [OF assms(2)] by (auto simp: groups_read_def)
  have "\<exists>rg'. refresh_rgrp sdp rg buf blkno = Some rg' \<and>
      (\<forall>i < unat (rt_length rg'). i < length (bits rg') \<and> (\<exists>d. bi_data (bits rg' ! i) = Live d))"
  proof (cases "find (\<lambda>i. rt_addr rg + of_nat i = blkno) [0..<unat (rt_length rg)]")
    case None
    then show ?thesis using rg by (simp add: refresh_rgrp_def)
  next
    case (Some i)
    then have i: "i < unat (rt_length rg)" by (auto simp: find_Some_iff)
    then obtain d where "i < length (bits rg)" "bi_data (bits rg ! i) = Live d" using rg by blast
    then show ?thesis using Some rg by (auto simp: refresh_rgrp_def Let_def nth_list_update)
  qed
  then show ?thesis using assms(1) by (auto simp: groups_read_def put_rg_def tree.set_map)
qed

lemma refresh_group_ok:
  assumes "groups_read fs"
  shows "\<exists>fs'. refresh_group fs b c = Some fs' \<and> fs_sdp fs' = fs_sdp fs \<and> groups_read fs' \<and> fs_disk fs' = fs_disk fs"
proof (cases "gfs2_blk2rgrpd (fs_rgtree fs) b")
  case None
  then show ?thesis using assms by (simp add: refresh_group_def)
next
  case (Some rg)
  obtain rg' where "refresh_rgrp (fs_sdp fs) rg c b = Some rg'" "groups_read (put_rg rg' fs)"
    using refresh_groups [OF assms Some] by blast
  then show ?thesis using Some assms by (simp add: refresh_group_def)
qed

section \<open>The replay of a log\<close>

lemma words_at_nth: "words_at c off ws \<Longrightarrow> i < length ws \<Longrightarrow> get_be64 c (off + 8 * i) = ws ! i"
proof (induction ws arbitrary: off i)
  case (Cons w ws)
  then show ?case by (cases i) (auto simp: add.assoc [symmetric] add.commute)
qed simp

declare revoke_words.simps [simp del]

lemma revoke_words_add:
  assumes "revokes_rel n t rp revs" "t \<le> p" "p < t + n" "words_at c off ws" "ws \<noteq> []" "off + 8 * length ws \<le> bsize"
    "length ws \<le> unat k" "unat k \<noteq> length ws \<Longrightarrow> bsize < off + 8 * length ws + 8"
  shows "\<exists>rp'. revoke_words bsize c (of_nat (p mod n)) off k rp = (k - of_nat (length ws), rp')
    \<and> revokes_rel n t rp' (add_revokes (map (Pair p) ws) revs)"
  using assms(1,4-)
proof (induction ws arbitrary: off k rp revs)
  case (Cons w ws)
  obtain new rp1 where add: "gfs2_revoke_add w (of_nat (p mod n)) rp = (new, rp1)" by fastforce
  define rp2 where "rp2 = (if new \<noteq> 0 then rp1\<lparr>sd_found_revokes := sd_found_revokes rp1 + 1\<rparr> else rp1)"
  have rel: "revokes_rel n t rp2 (revs(w \<mapsto> p))"
    using revokes_rel_add [OF Cons.prems(1) assms(2,3), of w] add by (auto simp: rp2_def)
  have k: "0 < unat k" using Cons.prems(5) by simp
  then have k1: "unat (k - 1) = unat k - 1" by (subst unat_sub) (simp_all add: word_le_nat_alt)
  have step: "revoke_words bsize c (of_nat (p mod n)) off k rp =
      (if k - 1 = 0 then (k - 1, rp2) else revoke_words bsize c (of_nat (p mod n)) (off + 8) (k - 1) rp2)"
    using Cons.prems(2,4) add by (subst revoke_words.simps) (simp add: rp2_def Let_def)
  show ?case
  proof (cases "k - 1 = 0")
    case True
    then have "unat k = 1" using k k1 by (metis One_nat_def Suc_pred unat_0)
    then have "ws = []" using Cons.prems(5) by simp
    then show ?thesis using step True rel by (simp add: fun_upd_def)
  next
    case False
    then have k2: "0 < unat (k - 1)" by (simp add: unat_gt_0)
    show ?thesis
    proof (cases "ws = []")
      case True
      then have "bsize < off + 16" using Cons.prems(6) k1 k2 by fastforce
      then have "revoke_words bsize c (of_nat (p mod n)) (off + 8) (k - 1) rp2 = (k - 1, rp2)"
        by (subst revoke_words.simps) simp
      then show ?thesis using step False rel True by (simp add: fun_upd_def)
    next
      case ws: False
      have "\<exists>rp'. revoke_words bsize c (of_nat (p mod n)) (off + 8) (k - 1) rp2 = (k - 1 - of_nat (length ws), rp')
          \<and> revokes_rel n t rp' (add_revokes (map (Pair p) ws) (revs(w \<mapsto> p)))"
        by (rule Cons.IH [OF rel _ ws]) (use Cons.prems k1 k in auto)
      then show ?thesis using step False by (simp add: algebra_simps)
    qed
  qed
qed simp

text \<open>
  What the replay relies on of a journal file: its blocks form a ring, each is at an address of its own, and
  writes to other blocks leave the file as it is.
\<close>

locale log_file =
  fixes ok :: "fs \<Rightarrow> gfs2_inode \<Rightarrow> nat \<Rightarrow> vinode \<Rightarrow> bool"
    and addr :: "gfs2_sbd \<Rightarrow> gfs2_inode \<Rightarrow> nat \<Rightarrow> nat \<Rightarrow> u64"
    and own :: "gfs2_sbd \<Rightarrow> gfs2_inode \<Rightarrow> nat \<Rightarrow> u64 set"
  assumes size: "ok fs ip n v \<Longrightarrow> 0 < n \<and> n \<le> 2 ^ 31 \<and> jd_blocks fs v = of_nat n"
    and read: "ok fs ip n v \<Longrightarrow> b < n \<Longrightarrow>
      \<exists>c. fs_disk fs (addr (fs_sdp fs) ip n b) = Some c \<and>
          gfs2_replay_read_block fs v (of_nat b) = Some (Inr \<lparr>b_blocknr = addr (fs_sdp fs) ip n b, b_data = c, b_modified = False\<rparr>)"
    and addr_own: "ok fs ip n v \<Longrightarrow> b < n \<Longrightarrow> addr (fs_sdp fs) ip n b \<in> own (fs_sdp fs) ip n"
    and frame: "ok fs ip n v \<Longrightarrow> fs_sdp fs' = fs_sdp fs \<Longrightarrow> (\<And>a. a \<in> own (fs_sdp fs) ip n \<Longrightarrow> fs_disk fs' a = fs_disk fs a) \<Longrightarrow> ok fs' ip n v"
begin

text \<open>The blocks \<open>J\<close> of a journal.\<close>

definition holds :: "fs \<Rightarrow> gfs2_inode \<Rightarrow> nat \<Rightarrow> vinode \<Rightarrow> (nat \<Rightarrow> bytes) \<Rightarrow> bool" where
  "holds fs ip n v J \<longleftrightarrow> ok fs ip n v \<and>
     (\<forall>b < n. fs_disk fs (addr (fs_sdp fs) ip n b) = Some (J b) \<and> length (J b) = unat (sd_bsize (fs_sdp fs)))"

abbreviation buffer :: "fs \<Rightarrow> gfs2_inode \<Rightarrow> nat \<Rightarrow> (nat \<Rightarrow> bytes) \<Rightarrow> nat \<Rightarrow> gfs2_buffer_head" where
  "buffer fs ip n J p \<equiv> \<lparr>b_blocknr = addr (fs_sdp fs) ip n (p mod n), b_data = J (p mod n), b_modified = False\<rparr>"

lemma holds_ring:
  assumes "holds fs ip n v J"
  shows "0 < n" "n \<le> 2 ^ 31" "p mod n < n" "length (J (p mod n)) = unat (sd_bsize (fs_sdp fs))"
    "fs_disk fs (addr (fs_sdp fs) ip n (p mod n)) = Some (J (p mod n))"
proof -
  show n: "0 < n" "n \<le> 2 ^ 31" using assms size by (auto simp: holds_def)
  then show m: "p mod n < n" by simp
  show "length (J (p mod n)) = unat (sd_bsize (fs_sdp fs))" "fs_disk fs (addr (fs_sdp fs) ip n (p mod n)) = Some (J (p mod n))"
    using assms m by (auto simp: holds_def)
qed

lemma read_at:
  assumes "holds fs ip n v J"
  shows "gfs2_replay_read_block fs v (of_nat (p mod n)) = Some (Inr (buffer fs ip n J p))"
  using read [of fs ip n v "p mod n"] holds_ring(3) [OF assms, of p] assms by (auto simp: holds_def)

lemma write_back:
  assumes "holds fs ip n v J"
  shows "fs_brelse (bmodified (buffer fs ip n J p)) fs = fs"
  using holds_ring(5) [OF assms, of p] by (auto simp: fs_brelse_def snd_brelse map_upd_triv)

lemma incr_at:
  assumes "holds fs ip n v J"
  shows "gfs2_replay_incr_blk fs v (of_nat (p mod n)) = of_nat (Suc p mod n)"
proof -
  have N: "0 < n" "n \<le> 2 ^ 31" "jd_blocks fs v = of_nat n" using assms size by (auto simp: holds_def)
  then have "p mod n < n" by simp
  moreover have "of_nat (p mod n) + 1 = (of_nat (Suc (p mod n)) :: u32)" by simp
  ultimately have "(of_nat (p mod n) :: u32) + 1 = of_nat n \<longleftrightarrow> Suc (p mod n) = n"
    using of_nat_u32_inj [of "Suc (p mod n)" n] N(2) by (simp only:) simp
  then show ?thesis by (simp add: gfs2_replay_incr_blk_def N(3) mod_Suc)
qed

lemma incr_many: "holds fs ip n v J \<Longrightarrow> (gfs2_replay_incr_blk fs v ^^ k) (of_nat (p mod n)) = of_nat ((p + k) mod n)"
  by (induction k) (simp_all add: incr_at)

lemma ring_apart:
  assumes "holds fs ip n v J" "0 < k" "k < n"
  shows "(of_nat (p mod n) :: u32) \<noteq> of_nat ((p + k) mod n)"
proof -
  have "p mod n \<noteq> (p + k) mod n"
  proof
    assume "p mod n = (p + k) mod n"
    then have "n dvd p + k - p" using mod_eq_dvd_iff_nat [of p "p + k" n] by auto
    then show False using assms(2,3) nat_dvd_not_less by auto
  qed
  moreover have "p mod n < 2 ^ 32" "(p + k) mod n < 2 ^ 32"
    by (rule ring_small [OF holds_ring(1,2) [OF assms(1)]])+
  ultimately show ?thesis using of_nat_u32_inj by blast
qed

lemma header_at:
  assumes "holds fs ip n v J"
  shows "lgfs2_get_log_header fs v (of_nat (p mod n)) =
    Some (case good_header (unat (sd_bsize (fs_sdp fs))) (of_nat (p mod n)) (J (p mod n)) of None \<Rightarrow> Inl 1 | Some lh \<Rightarrow> Inr lh)"
  using read_at [OF assms, of p] by (simp add: lgfs2_get_log_header_def good_header_def size_simps Let_def)

text \<open>The first pass.\<close>

lemma revoke_loop:
  assumes h: "holds fs ip n v J" and "revokes_rel n t rp revs" "t \<le> p" "p + length wss \<le> t + n"
    "revokes_at (unat (sd_bsize (fs_sdp fs))) n J off first p wss" "unat k = length (concat wss)"
  shows "\<exists>rp'. revoke_lo_loop (length wss) v (of_nat (p mod n)) off first k fs rp = Some (0, fs, rp')
    \<and> revokes_rel n t rp' (add_revokes (revoke_tags p wss) revs)"
  using assms(2-)
proof (induction wss arbitrary: p off first k rp revs)
  case (Cons ws wss)
  let ?b = "unat (sd_bsize (fs_sdp fs))"
  have "\<exists>rp'. revoke_words ?b (J (p mod n)) (of_nat (p mod n)) off k rp = (k - of_nat (length ws), rp')
    \<and> revokes_rel n t rp' (add_revokes (map (Pair p) ws) revs)"
    by (rule revoke_words_add [OF Cons.prems(1,2)]) (use Cons.prems in auto)
  then obtain rp1 where w: "revoke_words ?b (J (p mod n)) (of_nat (p mod n)) off k rp = (k - of_nat (length ws), rp1)"
    "revokes_rel n t rp1 (add_revokes (map (Pair p) ws) revs)" by blast
  have "unat (k - of_nat (length ws)) = length (concat wss)"
  proof -
    have "unat (of_nat (length ws) :: u32) = length ws"
      using Cons.prems(5) u32_lt [of k] by (intro unat_of_nat_small) simp
    then show ?thesis using Cons.prems(5) by (subst unat_sub) (simp_all add: word_le_nat_alt)
  qed
  then have "\<exists>rp'. revoke_lo_loop (length wss) v (of_nat (Suc p mod n)) 24 False (k - of_nat (length ws)) fs rp1 = Some (0, fs, rp')
    \<and> revokes_rel n t rp' (add_revokes (revoke_tags (Suc p) wss) (add_revokes (map (Pair p) ws) revs))"
    using Cons.prems by (intro Cons.IH [OF w(2)]) auto
  then show ?case
    using w(1) Cons.prems(4) by (auto simp: read_at [OF h] write_back [OF h] incr_at [OF h] size_simps)
qed simp

end

context log_file begin

lemma foreach_item:
  assumes h: "holds fs ip n v J" and k: "0 < k" "k < n" and d: "descriptor_at (J (p mod n)) type len data1"
    and scan: "scan_elements v (of_nat (p mod n)) (J (p mod n)) pass fs rp = Some (0, fs', rp')"
    and h': "holds fs' ip n v J" "fs_sdp fs' = fs_sdp fs"
  shows "foreach_descriptor v pass (of_nat ((p + k) mod n)) (of_nat (p mod n)) fs rp
    = foreach_descriptor v pass (of_nat ((p + k) mod n)) (of_nat ((p + len) mod n)) fs' rp'"
proof -
  have "buffer fs ip n J p = buffer fs' ip n J p" using h'(2) by simp
  then have "fs_brelse (bmodified (buffer fs ip n J p)) fs' = fs'" using write_back [OF h'(1), of p] by simp
  then show ?thesis
    using ring_apart [OF h k, of p] d scan
    by (subst foreach_descriptor.simps)
      (simp add: read_at [OF h] incr_many [OF h'(1)] descriptor_at_def gfs2_check_meta_def size_simps Let_def)
qed

lemma foreach_header:
  assumes h: "holds fs ip n v J" and k: "0 < k" "k < n" and it: "item_at (unat (sd_bsize (fs_sdp fs))) n J p Header"
  shows "foreach_descriptor v pass (of_nat ((p + k) mod n)) (of_nat (p mod n)) fs rp
    = foreach_descriptor v pass (of_nat ((p + k) mod n)) (of_nat (Suc p mod n)) fs rp"
  using ring_apart [OF h k, of p] it
  by (subst foreach_descriptor.simps) (auto simp: read_at [OF h] header_at [OF h] incr_at [OF h] write_back [OF h] size_simps Let_def)

lemma pass0:
  assumes h: "holds fs ip n v J"
  shows "revokes_rel n t rp revs \<Longrightarrow> t \<le> p \<Longrightarrow> p + log_len its < t + n \<Longrightarrow> log_at (unat (sd_bsize (fs_sdp fs))) n J p its \<Longrightarrow>
    \<exists>rp'. foreach_descriptor v 0 (of_nat ((p + log_len its) mod n)) (of_nat (p mod n)) fs rp = Some (0, fs, rp')
      \<and> revokes_rel n t rp' (add_revokes (log_revokes p its) revs)"
proof (induction its arbitrary: p rp revs)
  case Nil
  then show ?case by (subst foreach_descriptor.simps) (auto simp: log_len_def)
next
  case (Cons it its)
  let ?e = "of_nat ((p + log_len (it # its)) mod n) :: u32"
  have it: "item_at (unat (sd_bsize (fs_sdp fs))) n J p it" "log_at (unat (sd_bsize (fs_sdp fs))) n J (p + item_len it) its"
    using Cons.prems(4) by auto
  have l: "log_len (it # its) = item_len it + log_len its" by (simp add: log_len_def)
  have pos: "0 < item_len it" using it(1) by (cases it) auto
  have k: "0 < log_len (it # its)" "log_len (it # its) < n" using pos l Cons.prems(2,3) by auto
  have "\<exists>rp1. foreach_descriptor v 0 ?e (of_nat (p mod n)) fs rp = foreach_descriptor v 0 ?e (of_nat ((p + item_len it) mod n)) fs rp1
    \<and> revokes_rel n t rp1 (add_revokes (case it of Revokes wss \<Rightarrow> revoke_tags p wss | _ \<Rightarrow> []) revs)"
  proof (cases it)
    case Header
    then show ?thesis using foreach_header [OF h k] it(1) Cons.prems(1) by auto
  next
    case (Blocks bs)
    then have d: "descriptor_at (J (p mod n)) GFS2_LOG_DESC_METADATA (Suc (length bs)) (length bs)" using it(1) by simp
    then have "scan_elements v (of_nat (p mod n)) (J (p mod n)) 0 fs rp = Some (0, fs, rp)"
      by (simp add: scan_elements_def databuf_lo_scan_elements_def buf_lo_scan_elements_def revoke_lo_scan_elements_def
          descriptor_at_def size_simps)
    from foreach_item [OF h k d this h refl] Blocks Cons.prems(1) show ?thesis by auto
  next
    case (Data bs)
    then have d: "descriptor_at (J (p mod n)) GFS2_LOG_DESC_JDATA (Suc (length bs)) (length bs)" using it(1) by simp
    then have "scan_elements v (of_nat (p mod n)) (J (p mod n)) 0 fs rp = Some (0, fs, rp)"
      by (simp add: scan_elements_def databuf_lo_scan_elements_def buf_lo_scan_elements_def revoke_lo_scan_elements_def
          descriptor_at_def size_simps)
    from foreach_item [OF h k d this h refl] Data Cons.prems(1) show ?thesis by auto
  next
    case (Revokes wss)
    then have d: "descriptor_at (J (p mod n)) GFS2_LOG_DESC_REVOKE (length wss) (length (concat wss))"
      and r: "revokes_at (unat (sd_bsize (fs_sdp fs))) n J 72 True p wss" using it(1) by auto
    have "unat (get_be32 (J (p mod n)) 32) = length (concat wss)" using d by (simp add: descriptor_at_def)
    moreover have "p + length wss \<le> t + n" using Cons.prems(3) Revokes by (simp add: log_len_def)
    ultimately obtain rp1 where
      "revoke_lo_loop (length wss) v (of_nat (p mod n)) 72 True (get_be32 (J (p mod n)) 32) fs rp = Some (0, fs, rp1)"
      "revokes_rel n t rp1 (add_revokes (revoke_tags p wss) revs)"
      using revoke_loop [OF h Cons.prems(1,2) _ r] by blast
    moreover from this have "scan_elements v (of_nat (p mod n)) (J (p mod n)) 0 fs rp = Some (0, fs, rp1)"
      using d by (simp add: scan_elements_def databuf_lo_scan_elements_def buf_lo_scan_elements_def revoke_lo_scan_elements_def
          descriptor_at_def size_simps)
    ultimately show ?thesis using foreach_item [OF h k d _ h refl] Revokes by auto
  qed
  then obtain rp1 where rp1: "foreach_descriptor v 0 ?e (of_nat (p mod n)) fs rp = foreach_descriptor v 0 ?e (of_nat ((p + item_len it) mod n)) fs rp1"
    "revokes_rel n t rp1 (add_revokes (case it of Revokes wss \<Rightarrow> revoke_tags p wss | _ \<Rightarrow> []) revs)" by blast
  have "\<exists>rp'. foreach_descriptor v 0 (of_nat ((p + item_len it + log_len its) mod n)) (of_nat ((p + item_len it) mod n)) fs rp1 = Some (0, fs, rp')
      \<and> revokes_rel n t rp' (add_revokes (log_revokes (p + item_len it) its)
          (add_revokes (case it of Revokes wss \<Rightarrow> revoke_tags p wss | _ \<Rightarrow> []) revs))"
    by (rule Cons.IH [OF rp1(2)]) (use Cons.prems(2,3) l it(2) in auto)
  then show ?case using rp1(1) l by (simp add: add.assoc)
qed

end

text \<open>The second pass.\<close>

lemma replayed_block_eq:
  "length c = unat (sd_bsize (fs_sdp fs)) \<Longrightarrow> replayed_block fs a c = \<lparr>b_blocknr = a, b_data = c, b_modified = False\<rparr>"
  by (simp add: replayed_block_def bget_def memcpy_at_def)

lemma disk_write: "fs_disk (fs_brelse (bmodified bh) fs) = write_block (p, b_blocknr bh, b_data bh) (fs_disk fs)"
  by (simp add: fs_brelse_def snd_brelse write_block_def)

lemma fs_brelse_parts [simp]:
  "fs_sdp (fs_brelse bh fs) = fs_sdp fs" "fs_rgtree (fs_brelse bh fs) = fs_rgtree fs" "groups_read (fs_brelse bh fs) = groups_read fs"
  "b_modified bh = False \<Longrightarrow> fs_brelse bh fs = fs"
  by (simp_all add: fs_brelse_def snd_brelse groups_read_def)

context log_file begin

definition outside :: "gfs2_sbd \<Rightarrow> gfs2_inode \<Rightarrow> nat \<Rightarrow> (u64 \<rightharpoonup> nat) \<Rightarrow> (nat \<times> u64 \<times> bytes) list \<Rightarrow> bool" where
  "outside sdp ip n revs ws \<longleftrightarrow> (\<forall>(p, a, c) \<in> set ws. kept revs (p, a, c) \<longrightarrow> a \<notin> own sdp ip n)"

lemma outside_simps [simp]:
  "outside sdp ip n revs []" "outside sdp ip n revs ((p, a, c) # ws) \<longleftrightarrow> (kept revs (p, a, c) \<longrightarrow> a \<notin> own sdp ip n) \<and> outside sdp ip n revs ws"
  "outside sdp ip n revs (ws @ ws') \<longleftrightarrow> outside sdp ip n revs ws \<and> outside sdp ip n revs ws'"
  by (simp_all add: outside_def ball_Un)

lemma holds_write:
  assumes h: "holds fs ip n v J" and a: "a \<notin> own (fs_sdp fs) ip n" and fs': "fs_sdp fs' = fs_sdp fs" "fs_disk fs' = write_block (p, a, c) (fs_disk fs)"
  shows "holds fs' ip n v J"
proof -
  have same: "fs_disk fs' x = fs_disk fs x" if "x \<in> own (fs_sdp fs) ip n" for x
    using that a fs'(2) by (auto simp: write_block_def)
  moreover have "ok fs ip n v" using h by (simp add: holds_def)
  ultimately show ?thesis using frame [OF _ fs'(1) same] addr_own h fs'(1) by (auto simp: holds_def)
qed

text \<open>The state of the second pass after writes.\<close>

definition went :: "fs \<Rightarrow> gfs2_inode \<Rightarrow> nat \<Rightarrow> vinode \<Rightarrow> (nat \<Rightarrow> bytes) \<Rightarrow> device \<Rightarrow> fs \<Rightarrow> bool" where
  "went fs ip n v J d fs' \<longleftrightarrow> fs_sdp fs' = fs_sdp fs \<and> groups_read fs' \<and> holds fs' ip n v J \<and> fs_disk fs' = d"

lemma revoked_at:
  "revokes_rel n t rp revs \<Longrightarrow> t < p \<Longrightarrow> p < t + n \<Longrightarrow> gfs2_revoke_check a (of_nat (p mod n)) rp \<longleftrightarrow> \<not> kept revs (p, a, c)"
  by (simp add: revoke_check_later kept_def split: option.split)

lemma buf_loop:
  assumes "holds fs ip n v J" "groups_read fs" "revokes_rel n t rp revs" "t < p" "p + length bs \<le> t + n" "words_at d off bs"
    "\<forall>i < length bs. get_be32 (J ((p + i) mod n)) 0 = GFS2_MAGIC" "outside (fs_sdp fs) ip n revs (block_writes n J p bs)"
  shows "\<exists>fs' rp'. buf_lo_loop (length bs) v d off (of_nat (p mod n)) fs rp = Some (0, fs', rp') \<and> revokes_rel n t rp' revs
    \<and> went fs ip n v J (replayed revs (block_writes n J p bs) (fs_disk fs)) fs'"
  using assms
proof (induction bs arbitrary: p off fs rp)
  case Nil
  then show ?case by (simp add: went_def)
next
  case (Cons b bs)
  let ?rp = "rp\<lparr>sd_found_metablocks := sd_found_metablocks rp + 1\<rparr>" and ?c = "J (p mod n)"
  note h = Cons.prems(1)
  have rp: "revokes_rel n t ?rp revs" using Cons.prems(3) by simp
  have p: "p < t + n" using Cons.prems(5) by simp
  note inc = incr_at [OF h, of p] and rev = revoked_at [OF rp Cons.prems(4) p, of b ?c]
  have rest: "t < Suc p" "Suc p + length bs \<le> t + n" "words_at d (off + 8) bs"
    "\<forall>i < length bs. get_be32 (J ((Suc p + i) mod n)) 0 = GFS2_MAGIC" "outside (fs_sdp fs) ip n revs (block_writes n J (Suc p) bs)"
    using Cons.prems(4-6,8) Cons.prems(7) [rule_format, of "Suc i" for i] by auto
  have w: "off + 8 \<le> length d" "get_be64 d off = b" using Cons.prems(6) by auto
  show ?case
  proof (cases "kept revs (p, b, ?c)")
    case False
    then show ?thesis
      using Cons.IH [OF h Cons.prems(2) rp rest] w inc rev by (simp add: Let_def)
  next
    case True
    let ?bh = "\<lparr>b_blocknr = b, b_data = ?c, b_modified = True\<rparr>"
    have len: "length ?c = unat (sd_bsize (fs_sdp fs))" using holds_ring(4) [OF h] .
    obtain fs1 where fs1: "refresh_group fs b ?c = Some fs1" "fs_sdp fs1 = fs_sdp fs" "groups_read fs1" "fs_disk fs1 = fs_disk fs"
      using refresh_group_ok [OF Cons.prems(2)] by blast
    define fs2 where "fs2 = fs_brelse ?bh fs1"
    have fs2: "fs_sdp fs2 = fs_sdp fs" "groups_read fs2" "fs_disk fs2 = write_block (p, b, ?c) (fs_disk fs)"
      using fs1 disk_write [of "?bh\<lparr>b_modified := False\<rparr>" fs1 p] by (simp_all add: fs2_def bmodified_def)
    have h2: "holds fs2 ip n v J" using holds_write [OF h _ fs2(1,3)] Cons.prems(8) True by simp
    have magic: "get_be32 ?c 0 = GFS2_MAGIC" using Cons.prems(7) by force
    define rp2 where "rp2 = ?rp\<lparr>sd_replayed_metablocks := sd_replayed_metablocks ?rp + 1\<rparr>"
    have rp2: "revokes_rel n t rp2 revs" using rp by (simp add: rp2_def)
    have "buf_lo_loop (length (b # bs)) v d off (of_nat (p mod n)) fs rp = buf_lo_loop (length bs) v d (off + 8) (of_nat (Suc p mod n)) fs2 rp2"
      using w rev True read_at [OF h, of p] replayed_block_eq [OF len] magic fs1(1) incr_at [OF h2, of p] incr_at [OF h, of p]
      by (simp add: Let_def size_simps bmodified_def fs2_def rp2_def)
    then show ?thesis
      using Cons.IH [OF h2 fs2(2) rp2 rest(1-4)] rest(5) fs2(1,3) True by (simp add: went_def)
  qed
qed

end

context log_file begin

lemma data_loop:
  assumes "holds fs ip n v J" "groups_read fs" "revokes_rel n t rp revs" "t < p" "p + length bs \<le> t + n"
    "words_at d off (concat (map (\<lambda>(b, esc). [b, esc]) bs))" "outside (fs_sdp fs) ip n revs (data_writes n J p bs)"
  shows "\<exists>fs' rp'. databuf_lo_loop (length bs) v d off (of_nat (p mod n)) fs rp = Some (0, fs', rp') \<and> revokes_rel n t rp' revs
    \<and> went fs ip n v J (replayed revs (data_writes n J p bs) (fs_disk fs)) fs'"
  using assms
proof (induction bs arbitrary: p off fs rp)
  case Nil
  then show ?case by (simp add: went_def)
next
  case (Cons be bs)
  obtain b esc where be: "be = (b, esc)" by fastforce
  let ?rp = "rp\<lparr>sd_found_jblocks := sd_found_jblocks rp + 1\<rparr>" and ?c = "J (p mod n)"
  define c where "c = (if esc \<noteq> 0 then put_be32 0 GFS2_MAGIC ?c else ?c)"
  note h = Cons.prems(1)
  have rp: "revokes_rel n t ?rp revs" using Cons.prems(3) by simp
  have p: "p < t + n" using Cons.prems(5) by simp
  note inc = incr_at [OF h, of p] and rev = revoked_at [OF rp Cons.prems(4) p, of b c]
  have rest: "t < Suc p" "Suc p + length bs \<le> t + n" "words_at d (off + 16) (concat (map (\<lambda>(b, esc). [b, esc]) bs))"
    "outside (fs_sdp fs) ip n revs (data_writes n J (Suc p) bs)"
    using Cons.prems(4-7) be by (auto simp: add.commute)
  have w: "off + 16 \<le> length d" "get_be64 d off = b" "get_be64 d (off + 8) = esc" using Cons.prems(6) be by auto
  show ?case
  proof (cases "kept revs (p, b, c)")
    case False
    then show ?thesis
      using Cons.IH [OF h Cons.prems(2) rp rest] w inc rev be by (simp add: Let_def c_def)
  next
    case True
    let ?bh = "\<lparr>b_blocknr = b, b_data = c, b_modified = True\<rparr>"
    have len: "length ?c = unat (sd_bsize (fs_sdp fs))" using holds_ring(4) [OF h] .
    define fs2 where "fs2 = fs_brelse ?bh fs"
    have fs2: "fs_sdp fs2 = fs_sdp fs" "groups_read fs2" "fs_disk fs2 = write_block (p, b, c) (fs_disk fs)"
      using Cons.prems(2) disk_write [of "?bh\<lparr>b_modified := False\<rparr>" fs p] by (simp_all add: fs2_def bmodified_def)
    have h2: "holds fs2 ip n v J" using holds_write [OF h _ fs2(1,3)] Cons.prems(7) True be by (simp add: c_def)
    define rp2 where "rp2 = ?rp\<lparr>sd_replayed_jblocks := sd_replayed_jblocks ?rp + 1\<rparr>"
    have rp2: "revokes_rel n t rp2 revs" using rp by (simp add: rp2_def)
    have "databuf_lo_loop (length (be # bs)) v d off (of_nat (p mod n)) fs rp = databuf_lo_loop (length bs) v d (off + 16) (of_nat (Suc p mod n)) fs2 rp2"
      using w rev True read_at [OF h, of p] replayed_block_eq [OF len] incr_at [OF h2, of p] incr_at [OF h, of p]
      by (cases "esc = 0") (simp_all add: Let_def size_simps bmodified_def fs2_def rp2_def c_def)
    then show ?thesis
      using Cons.IH [OF h2 fs2(2) rp2 rest(1-3)] rest(4) fs2(1,3) True be by (simp add: went_def c_def)
  qed
qed

lemma went_trans:
  "went fs ip n v J d fs1 \<Longrightarrow> went fs1 ip n v J d' fs2 \<Longrightarrow> went fs ip n v J d' fs2"
  by (simp add: went_def)

lemma pass1:
  assumes t: "t < n"
  shows "holds fs ip n v J \<Longrightarrow> groups_read fs \<Longrightarrow> revokes_rel n t rp revs \<Longrightarrow> t \<le> p \<Longrightarrow> p + log_len its < t + n \<Longrightarrow>
    log_at (unat (sd_bsize (fs_sdp fs))) n J p its \<Longrightarrow> outside (fs_sdp fs) ip n revs (log_writes n J p its) \<Longrightarrow>
    \<exists>fs' rp'. foreach_descriptor v 1 (of_nat ((p + log_len its) mod n)) (of_nat (p mod n)) fs rp = Some (0, fs', rp')
      \<and> went fs ip n v J (replayed revs (log_writes n J p its) (fs_disk fs)) fs'"
proof (induction its arbitrary: p fs rp)
  case Nil
  then show ?case by (subst foreach_descriptor.simps) (auto simp: log_len_def went_def)
next
  case (Cons it its)
  let ?e = "of_nat ((p + log_len (it # its)) mod n) :: u32"
  let ?ws = "case it of Blocks bs \<Rightarrow> block_writes n J (Suc p) bs | Data bs \<Rightarrow> data_writes n J (Suc p) bs | _ \<Rightarrow> []"
  note h = Cons.prems(1)
  have it: "item_at (unat (sd_bsize (fs_sdp fs))) n J p it" "log_at (unat (sd_bsize (fs_sdp fs))) n J (p + item_len it) its"
    using Cons.prems(6) by auto
  have out: "outside (fs_sdp fs) ip n revs ?ws" "outside (fs_sdp fs) ip n revs (log_writes n J (p + item_len it) its)"
    using Cons.prems(7) by simp_all
  have l: "log_len (it # its) = item_len it + log_len its" by (simp add: log_len_def)
  have pos: "0 < item_len it" using it(1) by (cases it) auto
  have k: "0 < log_len (it # its)" "log_len (it # its) < n" using pos l Cons.prems(4,5) by auto
  have "\<exists>fs1 rp1. foreach_descriptor v 1 ?e (of_nat (p mod n)) fs rp = foreach_descriptor v 1 ?e (of_nat ((p + item_len it) mod n)) fs1 rp1
    \<and> revokes_rel n t rp1 revs \<and> went fs ip n v J (replayed revs ?ws (fs_disk fs)) fs1"
  proof (cases it)
    case Header
    then show ?thesis using foreach_header [OF h k] it(1) Cons.prems(2,3) h by (auto simp: went_def)
  next
    case (Blocks bs)
    then have d: "descriptor_at (J (p mod n)) GFS2_LOG_DESC_METADATA (Suc (length bs)) (length bs)"
      and w: "words_at (J (p mod n)) 72 bs" "\<forall>i < length bs. get_be32 (J ((Suc p + i) mod n)) 0 = GFS2_MAGIC" using it(1) by simp_all
    have "t < Suc p" "Suc p + length bs \<le> t + n" using Cons.prems(4,5) Blocks by (simp_all add: log_len_def)
    from buf_loop [OF h Cons.prems(2,3) this w] out(1) Blocks
    obtain fs1 rp1 where b: "buf_lo_loop (length bs) v (J (p mod n)) 72 (of_nat (Suc p mod n)) fs rp = Some (0, fs1, rp1)"
      "revokes_rel n t rp1 revs" "went fs ip n v J (replayed revs (block_writes n J (Suc p) bs) (fs_disk fs)) fs1"
      by auto
    have "scan_elements v (of_nat (p mod n)) (J (p mod n)) 1 fs rp = Some (0, fs1, rp1)"
      using d b(1) incr_at [OF h, of p]
      by (simp add: scan_elements_def databuf_lo_scan_elements_def buf_lo_scan_elements_def revoke_lo_scan_elements_def
          descriptor_at_def size_simps)
    from foreach_item [OF h k d this] b(2,3) Blocks show ?thesis by (auto simp: went_def)
  next
    case (Data bs)
    then have d: "descriptor_at (J (p mod n)) GFS2_LOG_DESC_JDATA (Suc (length bs)) (length bs)"
      and w: "words_at (J (p mod n)) 72 (concat (map (\<lambda>(b, esc). [b, esc]) bs))" using it(1) by simp_all
    have "t < Suc p" "Suc p + length bs \<le> t + n" using Cons.prems(4,5) Data by (simp_all add: log_len_def)
    from data_loop [OF h Cons.prems(2,3) this w] out(1) Data
    obtain fs1 rp1 where b: "databuf_lo_loop (length bs) v (J (p mod n)) 72 (of_nat (Suc p mod n)) fs rp = Some (0, fs1, rp1)"
      "revokes_rel n t rp1 revs" "went fs ip n v J (replayed revs (data_writes n J (Suc p) bs) (fs_disk fs)) fs1"
      by auto
    have "scan_elements v (of_nat (p mod n)) (J (p mod n)) 1 fs rp = Some (0, fs1, rp1)"
      using d b(1) incr_at [OF h, of p]
      by (simp add: scan_elements_def databuf_lo_scan_elements_def buf_lo_scan_elements_def revoke_lo_scan_elements_def
          descriptor_at_def size_simps)
    from foreach_item [OF h k d this] b(2,3) Data show ?thesis by (auto simp: went_def)
  next
    case (Revokes wss)
    then have d: "descriptor_at (J (p mod n)) GFS2_LOG_DESC_REVOKE (length wss) (length (concat wss))" using it(1) by auto
    then have "scan_elements v (of_nat (p mod n)) (J (p mod n)) 1 fs rp = Some (0, fs, rp)"
      by (simp add: scan_elements_def databuf_lo_scan_elements_def buf_lo_scan_elements_def revoke_lo_scan_elements_def
          descriptor_at_def size_simps)
    from foreach_item [OF h k d this h refl] Revokes Cons.prems(2,3) h show ?thesis by (auto simp: went_def)
  qed
  then obtain fs1 rp1 where f: "foreach_descriptor v 1 ?e (of_nat (p mod n)) fs rp = foreach_descriptor v 1 ?e (of_nat ((p + item_len it) mod n)) fs1 rp1"
    "revokes_rel n t rp1 revs" "went fs ip n v J (replayed revs ?ws (fs_disk fs)) fs1" by blast
  have w1: "holds fs1 ip n v J" "groups_read fs1" "fs_sdp fs1 = fs_sdp fs" "fs_disk fs1 = replayed revs ?ws (fs_disk fs)"
    using f(3) by (auto simp: went_def)
  have "\<exists>fs' rp'. foreach_descriptor v 1 (of_nat ((p + item_len it + log_len its) mod n)) (of_nat ((p + item_len it) mod n)) fs1 rp1 = Some (0, fs', rp')
      \<and> went fs1 ip n v J (replayed revs (log_writes n J (p + item_len it) its) (fs_disk fs1)) fs'"
    by (rule Cons.IH [OF w1(1,2) f(2)]) (use Cons.prems(4,5) l it(2) out(2) w1(3) in auto)
  then show ?case using f(1) l went_trans [OF f(3)] w1(4) by (auto simp: add.assoc)
qed

text \<open>Both passes.\<close>

lemma replay_run:
  assumes h: "holds fs ip n v J" and g: "groups_read fs" and t: "t < n" "log_len its < n"
    and head: "lh_tail head = of_nat t" "lh_blkno head = of_nat ((t + log_len its) mod n)"
    and log: "log_at (unat (sd_bsize (fs_sdp fs))) n J t its" "outside (fs_sdp fs) ip n (last_revokes t its) (log_writes n J t its)"
  shows "\<exists>fs' rp. replay_log v head fs = Some (0, fs', rp)
    \<and> went fs ip n v J (replayed (last_revokes t its) (log_writes n J t its) (fs_disk fs)) fs'"
proof -
  have tm: "t mod n = t" using t(1) by simp
  have "n \<le> 2 ^ 31" using holds_ring(2) [OF h] .
  then have r0: "revokes_rel n t (replay_start (of_nat t)) Map.empty"
    using t(1) by (simp add: revokes_rel_def replay_start_def revoke_at_def)
  obtain rp where p0: "foreach_descriptor v 0 (of_nat ((t + log_len its) mod n)) (of_nat t) fs (replay_start (of_nat t)) = Some (0, fs, rp)"
    "revokes_rel n t rp (last_revokes t its)"
    using pass0 [OF h r0 order_refl _ log(1)] t(2) tm by (auto simp: last_revokes_def)
  obtain fs' rp' where "foreach_descriptor v 1 (of_nat ((t + log_len its) mod n)) (of_nat t) fs rp = Some (0, fs', rp')"
    "went fs ip n v J (replayed (last_revokes t its) (log_writes n J t its) (fs_disk fs)) fs'"
    using pass1 [OF t(1) h g p0(2) order_refl _ log] t(2) tm by auto
  then show ?thesis using p0(1) head by (simp add: replay_log_def)
qed

end

section \<open>Journals of one extent\<close>

definition log_addr :: "gfs2_sbd \<Rightarrow> gfs2_inode \<Rightarrow> nat \<Rightarrow> nat \<Rightarrow> u64" where
  "log_addr sdp ip n b = in_addr (i_num ip) + of_nat (jdata sdp ip n + b)"

definition log_own :: "gfs2_sbd \<Rightarrow> gfs2_inode \<Rightarrow> nat \<Rightarrow> u64 set" where
  "log_own sdp ip n = (\<lambda>i. in_addr (i_num ip) + of_nat i) ` {..<jdata sdp ip n + n}"

definition log_blocks :: "fs \<Rightarrow> gfs2_inode \<Rightarrow> nat \<Rightarrow> nat \<Rightarrow> bytes" where
  "log_blocks fs ip n b = the (fs_disk fs (log_addr (fs_sdp fs) ip n b))"

interpretation jf: log_file journal_on log_addr log_own
proof
  fix fs fs' :: fs and ip n v b
  assume j: "journal_on fs ip n v"
  have J: "extent_geom (fs_sdp fs) ip n" "extent_on (fs_sdp fs) ip n (fs_disk fs)" "height_fits (fs_sdp fs) ip n" "vi v = stored ip"
    "fs_disk fs (in_addr (i_num ip)) = Some (b_data (vbh v))" "unat (i_size ip) = n * unat (sd_bsize (fs_sdp fs))" "n \<le> 2 ^ 31"
    "\<And>b. b < n \<Longrightarrow> fs_disk fs (in_addr (i_num ip) + of_nat (jdata (fs_sdp fs) ip n + b)) \<noteq> None"
    using j by (auto simp: journal_on_def)
  note A = extent_addrs [OF J(1)]
  show "0 < n \<and> n \<le> 2 ^ 31 \<and> jd_blocks fs v = of_nat n" using journal_on_reads [OF j] by (simp add: journal_reads_def)
  show "log_addr (fs_sdp fs) ip n b \<in> log_own (fs_sdp fs) ip n" if "b < n"
    unfolding log_addr_def log_own_def by (rule imageI) (simp add: that)
  show "\<exists>c. fs_disk fs (log_addr (fs_sdp fs) ip n b) = Some c \<and> gfs2_replay_read_block fs v (of_nat b) =
      Some (Inr \<lparr>b_blocknr = log_addr (fs_sdp fs) ip n b, b_data = c, b_modified = False\<rparr>)" if "b < n"
    using J(8) [OF that] journal_block_map [OF j that] by (auto simp: gfs2_replay_read_block_def bread_def log_addr_def)
  assume s: "fs_sdp fs' = fs_sdp fs" and d: "\<And>a. a \<in> log_own (fs_sdp fs) ip n \<Longrightarrow> fs_disk fs' a = fs_disk fs a"
  have same: "fs_disk fs' (in_addr (i_num ip) + of_nat i) = fs_disk fs (in_addr (i_num ip) + of_nat i)" if "i < jdata (fs_sdp fs) ip n + n" for i
    using that d by (auto simp: log_own_def)
  have "extent_on (fs_sdp fs) ip n (fs_disk fs')" by (rule extent_on_cong [OF J(2,1)]) (simp add: same)
  moreover have "fs_disk fs' (in_addr (i_num ip)) = fs_disk fs (in_addr (i_num ip))" using same [of 0] A(2) by simp
  ultimately show "journal_on fs' ip n v" using J same s by (simp add: journal_on_def del: of_nat_add)
qed

text \<open>The content a block has in the end: that of the last write of it that is not revoked.\<close>

definition final_content :: "(u64 \<rightharpoonup> nat) \<Rightarrow> (nat \<times> u64 \<times> bytes) list \<Rightarrow> u64 \<Rightarrow> bytes \<Rightarrow> bytes" where
  "final_content revs ws a old =
     (case find (\<lambda>(p, b, c). b = a \<and> kept revs (p, b, c)) (rev ws) of None \<Rightarrow> old | Some (p, b, c) \<Rightarrow> c)"

lemma replayed_final: "replayed revs ws d a = map_option (final_content revs ws a) (d a)"
proof (induction ws rule: rev_induct)
  case Nil
  then show ?case by (simp add: final_content_def option.map_ident)
next
  case (snoc w ws)
  obtain p b c where w: "w = (p, b, c)" by (cases w)
  show ?case
  proof (cases "kept revs w \<and> b = a")
    case True
    then show ?thesis using snoc.IH w by (cases "d a") (auto simp: write_block_def final_content_def)
  next
    case False
    then have "final_content revs (ws @ [w]) a = final_content revs ws a" using w by (auto simp: final_content_def fun_eq_iff)
    moreover have "replayed revs (ws @ [w]) d a = replayed revs ws d a" using False w by (auto simp: write_block_def)
    ultimately show ?thesis using snoc.IH by simp
  qed
qed

text \<open>A device on which any part of the replay has been done before.\<close>

definition half_replayed :: "(u64 \<rightharpoonup> nat) \<Rightarrow> (nat \<times> u64 \<times> bytes) list \<Rightarrow> device \<Rightarrow> device \<Rightarrow> bool" where
  "half_replayed revs ws d d' \<longleftrightarrow> (\<forall>a. (d' a = None) = (d a = None)) \<and>
     (\<forall>a. d' a \<noteq> d a \<longrightarrow> (\<exists>(p, b, c) \<in> set ws. b = a \<and> kept revs (p, b, c)))"

lemma replayed_again: "half_replayed revs ws d d' \<Longrightarrow> replayed revs ws d' = replayed revs ws d"
proof (rule ext)
  fix a
  assume h: "half_replayed revs ws d d'"
  show "replayed revs ws d' a = replayed revs ws d a"
  proof (cases "d' a = d a")
    case False
    then obtain p c where w: "(p, a, c) \<in> set ws" "kept revs (p, a, c)" using h by (fastforce simp: half_replayed_def)
    then have "find (\<lambda>(p, b, c). b = a \<and> kept revs (p, b, c)) (rev ws) \<noteq> None" by (auto simp: find_None_iff)
    then have "final_content revs ws a x = final_content revs ws a y" for x y by (auto simp: final_content_def)
    moreover have "(d' a = None) = (d a = None)" using h by (simp add: half_replayed_def)
    ultimately show ?thesis unfolding replayed_final by (cases "d a"; cases "d' a") auto
  qed (simp add: replayed_final)
qed

text \<open>A journal that is to be replayed, from its tail \<open>t\<close>.\<close>

definition log_ready :: "fs \<Rightarrow> gfs2_inode \<Rightarrow> nat \<Rightarrow> vinode \<Rightarrow> nat \<Rightarrow> log_item list \<Rightarrow> lgfs2_log_header \<Rightarrow> bool" where
  "log_ready fs ip n v t its head \<longleftrightarrow> journal_on fs ip n v \<and>
     (\<forall>b < n. length (log_blocks fs ip n b) = unat (sd_bsize (fs_sdp fs))) \<and> groups_read fs \<and> t < n \<and> log_len its < n \<and>
     lh_tail head = of_nat t \<and> lh_blkno head = of_nat ((t + log_len its) mod n) \<and>
     log_at (unat (sd_bsize (fs_sdp fs))) n (log_blocks fs ip n) t its \<and>
     (\<forall>(p, a, c) \<in> set (log_writes n (log_blocks fs ip n) t its). kept (last_revokes t its) (p, a, c) \<longrightarrow> a \<notin> log_own (fs_sdp fs) ip n)"

lemma log_ready_holds: "log_ready fs ip n v t its head \<Longrightarrow> jf.holds fs ip n v (log_blocks fs ip n)"
  using jf.read [of fs ip n v] by (fastforce simp: log_ready_def jf.holds_def log_blocks_def)

lemma log_ready_run:
  assumes "log_ready fs ip n v t its head"
  shows "\<exists>fs' rp. replay_log v head fs = Some (0, fs', rp) \<and>
    jf.went fs ip n v (log_blocks fs ip n) (replayed (last_revokes t its) (log_writes n (log_blocks fs ip n) t its) (fs_disk fs)) fs'"
  by (rule jf.replay_run [OF log_ready_holds [OF assms]]) (use assms in \<open>simp_all add: log_ready_def jf.outside_def\<close>)

section \<open>The order of the sequence numbers\<close>

fun seqs :: "(nat \<Rightarrow> lgfs2_log_header option) \<Rightarrow> nat list \<Rightarrow> u64 list" where
  "seqs g [] = []"
| "seqs g (b # bs) = (case g b of None \<Rightarrow> seqs g bs | Some lh \<Rightarrow> lh_sequence lh # seqs g bs)"

lemma set_seqs: "set (seqs g bs) = {lh_sequence lh | lh b. b \<in> set bs \<and> g b = Some lh}"
  by (induction bs) (auto split: option.split)

lemma seqs_append: "seqs g (bs @ cs) = seqs g bs @ seqs g cs"
  by (induction bs) (auto split: option.split)

lemma seqs_sorted:
  "(\<And>c d x y. a \<le> c \<Longrightarrow> c < d \<Longrightarrow> d < b \<Longrightarrow> g c = Some x \<Longrightarrow> g d = Some y \<Longrightarrow> lh_sequence x < lh_sequence y)
    \<Longrightarrow> sorted_wrt (<) (seqs g [a..<b])"
proof (induction b)
  case (Suc b)
  have "sorted_wrt (<) (seqs g [a..<b])" by (rule Suc.IH, rule Suc.prems) auto
  then show ?case using Suc.prems [of _ b] by (auto simp: seqs_append sorted_wrt_append set_seqs split: option.split)
qed simp

definition header_reads :: "fs \<Rightarrow> vinode \<Rightarrow> (nat \<Rightarrow> lgfs2_log_header option) \<Rightarrow> nat list \<Rightarrow> bool" where
  "header_reads fs ip g bs \<longleftrightarrow>
     (\<forall>b \<in> set bs. lgfs2_get_log_header fs ip (of_nat b) = Some (case g b of None \<Rightarrow> Inl 1 | Some lh \<Rightarrow> Inr lh))"

text \<open>Numbers that grow from the one before them are in order.\<close>

lemma seq_run_up:
  assumes "header_reads fs ip g bs" "sorted_wrt (<) (seqs g bs)" "\<forall>s \<in> set (seqs g bs). prev_seq q < s"
  shows "\<exists>q'. seq_no_loop bs ip False q fs = Some (q', fs) \<and> seq_errors q' = seq_errors q \<and> wrapped q' = wrapped q
    \<and> prev_seq q' = last (prev_seq q # seqs g bs) \<and> lowest_seq q' \<in> insert (lowest_seq q) (set (seqs g bs))"
  using assms
proof (induction bs arbitrary: q)
  case (Cons b bs)
  have r: "lgfs2_get_log_header fs ip (of_nat b) = Some (case g b of None \<Rightarrow> Inl 1 | Some lh \<Rightarrow> Inr lh)" "header_reads fs ip g bs"
    using Cons.prems(1) by (auto simp: header_reads_def)
  show ?case
  proof (cases "g b")
    case None
    then show ?thesis using Cons.IH [OF r(2), of q] Cons.prems r(1) by (simp add: seq_no_step_def)
  next
    case (Some lh)
    define q1 where "q1 = q\<lparr>sq_lh := lh, lowest_seq := (if lowest_seq q = 0 \<or> lh_sequence lh < lowest_seq q then lh_sequence lh else lowest_seq q),
      highest_seq := (if highest_seq q = 0 \<or> highest_seq q < lh_sequence lh then lh_sequence lh else highest_seq q), prev_seq := lh_sequence lh\<rparr>"
    have "seq_no_step ip False b q fs = Some (q1, fs)"
      using Some r(1) Cons.prems(3) by (simp add: seq_no_step_def Let_def q1_def)
    moreover have "lowest_seq q1 \<in> {lowest_seq q, lh_sequence lh}" "seq_errors q1 = seq_errors q" "wrapped q1 = wrapped q" "prev_seq q1 = lh_sequence lh"
      by (simp_all add: q1_def)
    ultimately show ?thesis using Cons.IH [OF r(2), of q1] Cons.prems Some by (fastforce simp: fun_eq_iff)
  qed
qed simp

text \<open>So are numbers that start again from a lower one, the first time.\<close>

lemma seq_wrap_run:
  assumes "header_reads fs ip g bs" "seqs g bs = s # ss" "sorted_wrt (<) (s # ss)" "s \<le> prev_seq q" "\<not> wrapped q"
    "lowest_seq q = 0 \<or> s < lowest_seq q"
  shows "\<exists>q'. seq_no_loop bs ip False q fs = Some (q', fs) \<and> seq_errors q' = seq_errors q"
  using assms
proof (induction bs)
  case (Cons b bs)
  have r: "lgfs2_get_log_header fs ip (of_nat b) = Some (case g b of None \<Rightarrow> Inl 1 | Some lh \<Rightarrow> Inr lh)" "header_reads fs ip g bs"
    using Cons.prems(1) by (auto simp: header_reads_def)
  show ?case
  proof (cases "g b")
    case None
    then show ?thesis using Cons.IH [OF r(2)] Cons.prems r(1) by (simp add: seq_no_step_def)
  next
    case (Some lh)
    define q1 where "q1 = q\<lparr>sq_lh := lh, lowest_seq := lh_sequence lh,
      highest_seq := (if highest_seq q = 0 \<or> highest_seq q < lh_sequence lh then lh_sequence lh else highest_seq q), wrapped := True, prev_seq := lh_sequence lh\<rparr>"
    have s: "lh_sequence lh = s" "seqs g bs = ss" using Cons.prems(2) Some by auto
    then have "seq_no_step ip False b q fs = Some (q1, fs)"
      using Some r(1) Cons.prems(4-6) by (auto simp: seq_no_step_def Let_def q1_def not_less)
    then show ?thesis using seq_run_up [OF r(2), of q1] Cons.prems(3) s by (auto simp: q1_def)
  qed
qed simp

text \<open>The numbers of a journal with a head are in order, wherever in the ring its head is.\<close>

lemma head_order:
  assumes h: "log_head_at N g h" and c: "g c = Some x" "c < N" and d: "g d = Some y" "d < N"
    and o: "c < d \<and> (d \<le> h \<or> h < c) \<or> d \<le> h \<and> h < c"
  shows "lh_sequence x < lh_sequence y"
proof -
  have hN: "h < N" using h by (simp add: log_head_at_def)
  define pos where "pos z = (if z \<le> h then N - h - 1 + z else z - h - 1)" for z
  have "(h + 1 + pos z) mod N = z" "pos z < N" if "z < N" for z
    using that hN by (auto simp: pos_def)
  moreover have "pos c < pos d" using o c(2) d(2) hN by (auto simp: pos_def)
  ultimately show ?thesis using h c d unfolding log_head_at_def by metis
qed

lemma log_head_cong: "(\<And>b. b < N \<Longrightarrow> g' b = g b) \<Longrightarrow> log_head_at N g' h = log_head_at N g h"
proof -
  assume c: "\<And>b. b < N \<Longrightarrow> g' b = g b"
  have "g' (k mod N) = g (k mod N)" if "0 < N" for k using c that by simp
  then show ?thesis unfolding log_head_at_def using c by (cases "N = 0") auto
qed

lemma seq_no_append:
  "seq_no_loop (bs @ cs) ip f q fs = (case seq_no_loop bs ip f q fs of None \<Rightarrow> None | Some (q, fs) \<Rightarrow> seq_no_loop cs ip f q fs)"
  by (induction bs arbitrary: q fs) (auto split: option.split)

lemma seq_no_in_order:
  assumes r: "journal_reads fs ip N g" and h: "log_head_at N g h"
  shows "check_journal_seq_no ip False fs = Some (0, fs)"
proof -
  let ?q = "\<lparr>sq_lh = log_header_in (replicate (sizeof struct_gfs2_log_header) 0), highest_seq = 0, lowest_seq = 0, prev_seq = 0,
           wrapped = False, seq_errors = 0\<rparr>"
  have N: "unat (jd_blocks fs ip) = N" "N \<le> 2 ^ 31" using r by (simp_all add: journal_reads_def unat_of_nat_small)
  have H: "h < N" "g h \<noteq> None" using h by (auto simp: log_head_at_def)
  have reads: "header_reads fs ip g [0..<N]" using r by (simp add: header_reads_def journal_reads_def)
  have split: "[0..<N] = [0..<Suc h] @ [Suc h..<N]" using H(1) upt_add_eq_append [of 0 "Suc h" "N - Suc h"] by simp
  have r12: "header_reads fs ip g [0..<Suc h]" "header_reads fs ip g [Suc h..<N]"
    using reads H(1) by (auto simp: header_reads_def)
  have s1: "sorted_wrt (<) (seqs g [0..<Suc h])" "sorted_wrt (<) (seqs g [Suc h..<N])"
  proof (rule_tac [!] seqs_sorted)
    fix c d x y
    assume g: "g c = Some x" "g d = Some y" "c < d"
    show "lh_sequence x < lh_sequence y" if "d < Suc h" using head_order [OF h g(1) _ g(2)] g(3) that H(1) by simp
    show "lh_sequence x < lh_sequence y" if "Suc h \<le> c" "d < N" using head_order [OF h g(1) _ g(2)] g(3) that by simp
  qed
  have s2: "s < s'" if "s \<in> set (seqs g [Suc h..<N])" "s' \<in> set (seqs g [0..<Suc h])" for s s'
    using that H(1) head_order [OF h] by (fastforce simp: set_seqs)
  have run: "\<exists>q'. seq_no_loop [0..<N] ip False ?q fs = Some (q', fs) \<and> seq_errors q' = 0"
  proof (cases "0 \<in> set (seqs g [0..<Suc h])")
    case True
    then have none: "seqs g [Suc h..<N] = []" using s2 by (cases "seqs g [Suc h..<N]") fastforce+
    obtain s ss where ss: "seqs g [0..<N] = s # ss" "0 \<in> set (s # ss)" "sorted_wrt (<) (s # ss)"
      using True s1(1) none unfolding split seqs_append by (cases "seqs g [0..<Suc h]") (auto simp del: upt_Suc)
    then have "s = 0" by force
    then show ?thesis using seq_wrap_run [OF reads ss(1,3), of ?q] by auto
  next
    case False
    then have "\<forall>s \<in> set (seqs g [0..<Suc h]). prev_seq ?q < s" by (auto simp: word_gt_0 simp del: upt_Suc)
    from seq_run_up [OF r12(1) s1(1) this]
    obtain q1 where q1: "seq_no_loop [0..<Suc h] ip False ?q fs = Some (q1, fs)" "seq_errors q1 = 0" "\<not> wrapped q1"
      "prev_seq q1 = last (0 # seqs g [0..<Suc h])" "lowest_seq q1 \<in> insert 0 (set (seqs g [0..<Suc h]))" by auto
    have ne: "seqs g [0..<Suc h] \<noteq> []" using H(2) by (auto simp: seqs_append)
    then have p: "prev_seq q1 \<in> set (seqs g [0..<Suc h])" using q1(4) by (simp del: upt_Suc)
    have "\<exists>q'. seq_no_loop [Suc h..<N] ip False q1 fs = Some (q', fs) \<and> seq_errors q' = 0"
    proof (cases "seqs g [Suc h..<N]")
      case Nil
      then show ?thesis using seq_run_up [OF r12(2) s1(2), of q1] q1(2) by auto
    next
      case (Cons s ss)
      have "s \<le> prev_seq q1" using s2 [OF _ p, of s] Cons by simp
      moreover have "lowest_seq q1 = 0 \<or> s < lowest_seq q1" using q1(5) s2 [of s] Cons by auto
      ultimately show ?thesis using seq_wrap_run [OF r12(2) Cons, of q1] s1(2) Cons q1(2,3) by auto
    qed
    then show ?thesis unfolding split seq_no_append using q1(1) by simp
  qed
  then show ?thesis unfolding check_journal_seq_no_def N(1) by (force simp del: upt_Suc)
qed

abbreviation log_headers :: "fs \<Rightarrow> gfs2_inode \<Rightarrow> nat \<Rightarrow> nat \<Rightarrow> lgfs2_log_header option" where
  "log_headers fs ip n b \<equiv> good_header (unat (sd_bsize (fs_sdp fs))) (of_nat b) (log_blocks fs ip n b)"

lemma log_reads: "journal_on fs ip n v \<Longrightarrow> journal_reads fs v n (log_headers fs ip n)"
  using journal_on_reads [of fs ip n v] by (simp add: log_blocks_def log_addr_def)

lemma clean_log:
  assumes "journal_on fs ip n v" "\<forall>b < n. length (log_blocks fs ip n b) = unat (sd_bsize (fs_sdp fs))"
    "log_head_at n (log_headers fs ip n) h" "lgfs2_find_jhead fs v = Some (Inr head)" "lh_sequence head \<noteq> -1"
  shows "\<exists>d lh. lgfs2_clean_journal fs v head = Some (0, fs\<lparr>fs_disk := d\<rparr>) \<and> journal_on (fs\<lparr>fs_disk := d\<rparr>) ip n v
    \<and> log_head_at n (log_headers (fs\<lparr>fs_disk := d\<rparr>) ip n) (Suc h mod n) \<and> lgfs2_find_jhead (fs\<lparr>fs_disk := d\<rparr>) v = Some (Inr lh)
    \<and> lh_flags lh = GFS2_LOG_HEAD_UNMOUNT \<and> (\<forall>a. a \<noteq> log_addr (fs_sdp fs) ip n (Suc h mod n) \<longrightarrow> d a = fs_disk fs a)"
proof -
  have d: "log_blocks (fs\<lparr>fs_disk := d\<rparr>) ip n b = the (d (log_addr (fs_sdp fs) ip n b))" "fs_sdp (fs\<lparr>fs_disk := d\<rparr>) = fs_sdp fs" for d b
    by (simp_all add: log_blocks_def)
  show ?thesis
    using clean_journal_step [OF assms(1) _ _ assms(4,5), of h] assms(2,3)
    unfolding d log_blocks_def [of fs] log_addr_def by blast
qed

section \<open>A dirty journal\<close>

lemma journal_on_data:
  assumes j: "journal_on fs ip n v" and s: "fs_sdp fs' = fs_sdp fs"
    and meta: "\<And>i. i < jdata (fs_sdp fs) ip n \<Longrightarrow> fs_disk fs' (in_addr (i_num ip) + of_nat i) = fs_disk fs (in_addr (i_num ip) + of_nat i)"
    and data: "\<And>b. b < n \<Longrightarrow> fs_disk fs' (log_addr (fs_sdp fs) ip n b) \<noteq> None"
  shows "journal_on fs' ip n v"
proof -
  have g: "extent_geom (fs_sdp fs) ip n" "extent_on (fs_sdp fs) ip n (fs_disk fs)" using j by (auto simp: journal_on_def)
  have "extent_on (fs_sdp fs) ip n (fs_disk fs')" by (rule extent_on_cong [OF g(2,1) meta])
  moreover have "fs_disk fs' (in_addr (i_num ip)) = fs_disk fs (in_addr (i_num ip))" using meta [of 0] extent_addrs(2) [OF g(1)] by simp
  ultimately show ?thesis using j data unfolding journal_on_def s log_addr_def by simp
qed

definition header_block :: "u32 \<Rightarrow> u64 \<Rightarrow> u32 \<Rightarrow> bytes" where
  "header_block blk seq tail =
     (let x = put_be32 40 blk (put_be32 36 tail (put_be64 24 seq (set_meta_header GFS2_METATYPE_LH GFS2_FORMAT_LH (replicate 512 0))))
      in put_be32 44 (lgfs2_log_header_hash x) x)"

lemma header_block:
  "length (header_block blk seq tail) = 512" "get_be32 (header_block blk seq tail) 0 = GFS2_MAGIC" "get_be32 (header_block blk seq tail) 4 = GFS2_METATYPE_LH"
  "\<exists>lh. good_header 512 blk (header_block blk seq tail) = Some lh \<and> lh_sequence lh = seq \<and> lh_tail lh = tail \<and> lh_flags lh = 0 \<and> lh_blkno lh = blk"
proof -
  define x where "x = put_be32 40 blk (put_be32 36 tail (put_be64 24 seq (set_meta_header GFS2_METATYPE_LH GFS2_FORMAT_LH (replicate 512 0))))"
  have b: "header_block blk seq tail = put_be32 44 (lgfs2_log_header_hash x) x" by (simp only: header_block_def x_def Let_def)
  have x: "length x = 512" "get_be32 x 44 = 0" "get_be32 x 48 = 0" "get_be32 x 40 = blk" "get_be32 x 36 = tail" "get_be64 x 24 = seq" "get_be32 x 32 = 0"
    "get_be32 x 0 = GFS2_MAGIC" "get_be32 x 4 = GFS2_METATYPE_LH"
    unfolding x_def by (simp_all add: set_meta_header_def size_simps field_simps get_be_zero)
  show "length (header_block blk seq tail) = 512" "get_be32 (header_block blk seq tail) 0 = GFS2_MAGIC" "get_be32 (header_block blk seq tail) 4 = GFS2_METATYPE_LH"
    using x unfolding b by (simp_all add: field_simps)
  show "\<exists>lh. good_header 512 blk (header_block blk seq tail) = Some lh \<and> lh_sequence lh = seq \<and> lh_tail lh = tail \<and> lh_flags lh = 0 \<and> lh_blkno lh = blk"
    using x unfolding b by (simp add: good_header_def log_header_in_def size_simps field_simps hash_ignores_hash)
qed

text \<open>A descriptor of one metadata block, which is block 50, and the copy of that block.\<close>

definition descriptor_block :: "u32 \<Rightarrow> bytes" where
  "descriptor_block len = put_be64 72 50 (put_be32 32 1 (put_be32 28 len (put_be32 24 GFS2_LOG_DESC_METADATA
     (set_meta_header GFS2_METATYPE_LD 1200 (replicate 512 0)))))"

definition copy_block :: bytes where
  "copy_block = set_meta_header GFS2_METATYPE_IN 400 (replicate 512 0)"

lemma descriptor_block:
  "length (descriptor_block len) = 512" "descriptor_at (descriptor_block len) GFS2_LOG_DESC_METADATA (unat len) 1" "get_be64 (descriptor_block len) 72 = 50"
  "good_header 512 1 (descriptor_block len) = None"
  "length copy_block = 512" "get_be32 copy_block 0 = GFS2_MAGIC" "good_header 512 2 copy_block = None"
  by (simp_all add: descriptor_block_def copy_block_def descriptor_at_def set_meta_header_def good_header_def log_header_in_def size_simps
      field_simps get_be_zero)

definition dirty_block :: "nat \<Rightarrow> bytes" where
  "dirty_block b = [header_block 0 100 0, descriptor_block 2, copy_block, header_block 3 101 0] ! b"

definition dirty_disk :: "device \<Rightarrow> device" where
  "dirty_disk d = (\<lambda>a. if 1003 \<le> a \<and> a < 1007 then Some (dirty_block (unat (a - 1003))) else if a = 50 then Some (replicate 512 0) else d a)"

lemma small_u64: "a + b < 2 ^ 64 \<Longrightarrow> unat (of_nat a + of_nat b :: u64) = a + b"
  by (simp only: of_nat_add [symmetric]) (rule unat_of_nat_small, simp)

lemma dirty_disk_at:
  "i < 103 \<Longrightarrow> dirty_disk d (1000 + of_nat i) = (if 3 \<le> i \<and> i < 7 then Some (dirty_block (i - 3)) else d (1000 + of_nat i))"
proof -
  assume i: "i < 103"
  then have "unat (1000 + of_nat i :: u64) = 1000 + i" using small_u64 [of 1000 i] by simp
  then have "1003 \<le> (1000 + of_nat i :: u64) \<longleftrightarrow> 3 \<le> i" "(1000 + of_nat i :: u64) < 1007 \<longleftrightarrow> i < 7"
    by (auto simp: word_le_nat_alt word_less_nat_alt)
  moreover have "(1000 + of_nat i :: u64) \<noteq> 50"
  proof
    assume e: "(1000 + of_nat i :: u64) = 50"
    have "unat (1000 + of_nat i :: u64) = unat (50 :: u64)" by (simp only: e)
    with \<open>unat (1000 + of_nat i) = 1000 + i\<close> show False by simp
  qed
  moreover have "unat ((1000 + of_nat i :: u64) - 1003) = i - 3" if "3 \<le> i"
  proof -
    have "(1000 + of_nat i :: u64) - 1003 = of_nat (i - 3)" using that by (simp add: of_nat_diff)
    then show ?thesis using i by (simp add: unat_of_nat_small)
  qed
  ultimately show ?thesis by (auto simp: dirty_disk_def)
qed

lemma relogged_head:
  assumes h0: "log_head_at 100 g0 99" and l0: "g0 99 = Some lh" "unat (lh_sequence lh) = 99"
    and old: "\<And>b. 4 \<le> b \<Longrightarrow> b < 100 \<Longrightarrow> g b = g0 b"
    and new: "g 0 = Some l1" "g 1 = None" "g 2 = None" "g 3 = Some l3" "lh_sequence l1 = 100" "lh_sequence l3 = 101"
  shows "log_head_at 100 g 3"
proof -
  have low: "lh_sequence x < 100" if "g0 b = Some x" "b < 100" for b x
  proof -
    have "lh_sequence x \<le> lh_sequence lh"
      using head_order [OF h0 that l0(1)] that l0(1) by (cases "b = 99") (auto simp: less_imp_le)
    then show ?thesis using l0(2) by (simp add: word_le_nat_alt word_less_nat_alt)
  qed
  have c4: "b = 0 \<or> b = 1 \<or> b = 2 \<or> b = 3" if "b < 4" for b :: nat using that by linarith
  show ?thesis
    unfolding log_head_at_def
  proof (intro conjI allI impI)
    show "\<exists>b < 100. b \<noteq> 3 \<and> g b \<noteq> None" using new(1) by (intro exI [of _ 0]) simp
    fix i j x y
    assume ij: "i < j \<and> j < (100 :: nat)" and xy: "g ((3 + 1 + i) mod 100) = Some x \<and> g ((3 + 1 + j) mod 100) = Some y"
    have m: "(3 + 1 + k) mod 100 = (if k < 96 then 4 + k else k - 96)" if "k < 100" for k :: nat using that by (auto simp: le_mod_geq)
    note mi = m [of i] and mj = m [of j]
    consider "j < 96" | "i < 96" "96 \<le> j" | "96 \<le> i" by linarith
    then show "lh_sequence x < lh_sequence y"
    proof cases
      case 1
      then show ?thesis using xy ij mi mj old head_order [OF h0, of "4 + i" x "4 + j" y] by simp
    next
      case 2
      then have "lh_sequence x < 100" using xy ij mi old low [of "4 + i" x] by simp
      moreover have "j - 96 < 4" using ij by linarith
      then have "y = l1 \<or> y = l3" using 2 xy ij mj new c4 [of "j - 96"] by auto
      ultimately show ?thesis using new(5,6) by (auto simp: word_less_nat_alt)
    next
      case 3
      then have "i - 96 < 4" "j - 96 < 4" "i - 96 < j - 96" using ij by linarith+
      then have "x = l1" "y = l3" using 3 xy ij mi mj new c4 [of "i - 96"] c4 [of "j - 96"] by auto
      then show ?thesis using new(5,6) by simp
    qed
  qed (use new(4) in simp_all)
qed

lemma dirty_example:
  "\<exists>fs v head. log_ready fs jnl_example 100 v 0 [Header, Blocks [50]] head \<and> fs_sdp fs = sbd_heights \<and>
    log_head_at 100 (log_headers fs jnl_example 100) 3 \<and> lgfs2_find_jhead fs v = Some (Inr head) \<and> lh_flags head = 0 \<and> lh_sequence head = 101 \<and>
    fs_disk fs 50 = Some (replicate 512 0) \<and> log_blocks fs jnl_example 100 2 = copy_block \<and> fs_rgtree fs = Leaf"
proof -
  obtain fs0 v where s: "fs_sdp fs0 = sbd_heights" and j0: "journal_on fs0 jnl_example 100 v"
    and len0: "\<forall>b < 100. length (the (fs_disk fs0 (in_addr (i_num jnl_example) + of_nat (jdata sbd_heights jnl_example 100 + b)))) = unat (sd_bsize sbd_heights)"
    and h0: "log_head_at 100 (jnl_header fs0) 99" and l0: "\<exists>lh. jnl_header fs0 99 = Some lh \<and> unat (lh_sequence lh) = 99"
    using jnl_example_made by blast
  define fs where "fs = fs0\<lparr>fs_disk := dirty_disk (fs_disk fs0), fs_rgtree := Leaf\<rparr>"
  have fs: "fs_sdp fs = sbd_heights" "fs_rgtree fs = Leaf" "fs_disk fs = dirty_disk (fs_disk fs0)" using s by (simp_all add: fs_def)
  have addr: "log_addr sbd_heights jnl_example 100 b = 1000 + of_nat (3 + b)" for b
    using jnl_example_geom(3,5) by (simp only: log_addr_def)
  have blk: "log_blocks fs jnl_example 100 b = (if b < 4 then dirty_block b else log_blocks fs0 jnl_example 100 b)" if "b < 100" for b
    using dirty_disk_at [of "3 + b" "fs_disk fs0"] that unfolding log_blocks_def fs addr s by (simp del: of_nat_add of_nat_Suc)
  have d4: "dirty_block 0 = header_block 0 100 0" "dirty_block 1 = descriptor_block 2" "dirty_block 2 = copy_block" "dirty_block 3 = header_block 3 101 0"
    by (simp_all add: dirty_block_def)
  have c4: "b = 0 \<or> b = 1 \<or> b = 2 \<or> b = 3" if "b < 4" for b :: nat using that by linarith
  have j: "journal_on fs jnl_example 100 v"
  proof (rule journal_on_data [OF j0])
    show "fs_sdp fs = fs_sdp fs0" using fs s by simp
    fix i :: nat
    show "fs_disk fs (in_addr (i_num jnl_example) + of_nat i) = fs_disk fs0 (in_addr (i_num jnl_example) + of_nat i)"
      if "i < jdata (fs_sdp fs0) jnl_example 100"
      using that dirty_disk_at [of i "fs_disk fs0"] unfolding s fs jnl_example_geom(3,5) by simp
    show "fs_disk fs (log_addr (fs_sdp fs0) jnl_example 100 i) \<noteq> None" if "i < 100"
      using that dirty_disk_at [of "3 + i" "fs_disk fs0"] jf.read [OF j0 that] unfolding s fs addr
      by (auto simp del: of_nat_add of_nat_Suc)
  qed
  have bs: "unat (sd_bsize sbd_heights) = 512" by simp
  have len: "length (log_blocks fs jnl_example 100 b) = 512" if "b < 100" for b
  proof (cases "b < 4")
    case True
    then show ?thesis using blk [OF that] c4 [OF True] d4 header_block(1) descriptor_block(1,5) by auto
  next
    case False
    then show ?thesis using blk [OF that] len0 that bs unfolding log_blocks_def log_addr_def s by simp
  qed
  have old: "log_headers fs jnl_example 100 b = jnl_header fs0 b" if "4 \<le> b" "b < 100" for b
    using blk [OF that(2)] that(1) unfolding log_blocks_def log_addr_def s fs by simp
  obtain l3 where l3: "good_header 512 3 (header_block 3 101 0) = Some l3" "lh_sequence l3 = 101" "lh_tail l3 = 0" "lh_flags l3 = 0" "lh_blkno l3 = 3"
    using header_block(4) [of 3 101 0] by blast
  obtain l1 where l1: "good_header 512 0 (header_block 0 100 0) = Some l1" "lh_sequence l1 = 100" using header_block(4) [of 0 100 0] by blast
  have new: "log_headers fs jnl_example 100 0 = Some l1" "log_headers fs jnl_example 100 1 = None" "log_headers fs jnl_example 100 2 = None"
    "log_headers fs jnl_example 100 3 = Some l3"
    using blk [of 0] blk [of 1] blk [of 2] blk [of 3] d4 l1(1) l3(1) descriptor_block(4,7) fs(1) bs by simp_all
  have h: "log_head_at 100 (log_headers fs jnl_example 100) 3"
    using l0 by (elim exE conjE) (rule relogged_head [OF h0 _ _ old new l1(2) l3(2)])
  have "log_at 512 100 (log_blocks fs jnl_example 100) 0 [Header, Blocks [50]]"
    using blk [of 0] blk [of 1] blk [of 2] d4 header_block [of 0 100 0] descriptor_block(2,3) [of 2] descriptor_block(1,6)
    by (auto simp: numeral_2_eq_2 [symmetric])
  moreover have "50 \<notin> log_own sbd_heights jnl_example 100"
  proof
    assume "50 \<in> log_own sbd_heights jnl_example 100"
    then obtain i where i: "i < jdata sbd_heights jnl_example 100 + 100" "(50 :: u64) = 1000 + of_nat i"
      unfolding log_own_def jnl_example_geom(3) by blast
    then have "unat (50 :: u64) = unat (1000 + of_nat i :: u64)" by (simp only:)
    then show False using small_u64 [of 1000 i] i(1) unfolding jnl_example_geom(5) by simp
  qed
  ultimately have "log_ready fs jnl_example 100 v 0 [Header, Blocks [50]] l3"
    using j len fs l3(3,5) bs by (simp add: log_ready_def log_len_def groups_read_def)
  moreover have "lgfs2_find_jhead fs v = Some (Inr l3)" using find_jhead_head [OF log_reads [OF j] h] new(4) by simp
  moreover have "fs_disk fs 50 = Some (replicate 512 0)" by (simp add: fs dirty_disk_def)
  ultimately show ?thesis using fs h l3 blk [of 2] d4 by (intro exI [of _ fs] exI [of _ v] exI [of _ l3]) simp
qed

lemma be_bytes_last: "be_bytes (Suc n) v = be_bytes n (v div 256) @ [of_nat (v mod 256)]"
  by (simp add: be_bytes_def)

lemma header_prefix:
  assumes "52 \<le> length b" "length B = 7"
  shows "slice 0 48 (put_be32 44 0 (memcpy_at 24 (B @ [x]) b)) = (take 24 b @ B) @ x # (take 12 (drop 32 b) @ be_bytes 4 0)"
  by (rule nth_equalityI)
    (use assms in \<open>auto simp: nth_slice put_be32_def nth_memcpy_at nth_append nth_Cons' min_def\<close>)

section \<open>Properties\<close>

text \<open>
  C8. Replay is exact: after both passes over a log, every block of the device has the content of the last copy of it in
  the log that no later revoke takes back, its escaped first word restored; every other block is as it was.
\<close>

theorem replay_exact:
  assumes "log_ready fs ip n v t its head"
  shows "\<exists>fs' rp. replay_log v head fs = Some (0, fs', rp) \<and> fs_sdp fs' = fs_sdp fs \<and>
    (\<forall>a. fs_disk fs' a = map_option (final_content (last_revokes t its) (log_writes n (log_blocks fs ip n) t its) a) (fs_disk fs a))"
  using log_ready_run [OF assms] by (auto simp: jf.went_def replayed_final)

lemma dirty_writes:
  "log_writes 100 J 0 [Header, Blocks [50]] = [(2, 50, J 2)]" "last_revokes 0 [Header, Blocks [50]] = Map.empty"
  by (simp_all add: last_revokes_def numeral_2_eq_2)

theorem replay_exact_witness:
  "\<exists>fs v head fs' rp. replay_log v head fs = Some (0, fs', rp) \<and> fs_disk fs 50 = Some (replicate 512 0) \<and> fs_disk fs' 50 = Some copy_block"
proof -
  obtain fs v head where e: "log_ready fs jnl_example 100 v 0 [Header, Blocks [50]] head" "fs_disk fs 50 = Some (replicate 512 0)"
    "log_blocks fs jnl_example 100 2 = copy_block" using dirty_example by blast
  from replay_exact [OF e(1)] show ?thesis using e(2,3) unfolding dirty_writes by (fastforce simp: final_content_def kept_def)
qed

text \<open>
  C30. Replay can be repeated: if fsck is stopped when only some of the log's blocks have been written, a new run on the device
  it left writes the same device as a run that was never stopped.
\<close>

theorem replay_after_crash:
  assumes "log_ready fs ip n v t its head" "half_replayed (last_revokes t its) (log_writes n (log_blocks fs ip n) t its) (fs_disk fs) d"
  shows "\<exists>fs1 rp1 fs2 rp2. replay_log v head fs = Some (0, fs1, rp1) \<and> replay_log v head (fs\<lparr>fs_disk := d\<rparr>) = Some (0, fs2, rp2)
    \<and> fs_disk fs2 = fs_disk fs1"
proof -
  let ?J = "log_blocks fs ip n" and ?fs = "fs\<lparr>fs_disk := d\<rparr>"
  have own: "d a = fs_disk fs a" if "a \<in> log_own (fs_sdp fs) ip n" for a
    using assms that by (fastforce simp: half_replayed_def log_ready_def)
  have L: "journal_on fs ip n v" using assms(1) by (simp add: log_ready_def)
  then have j: "journal_on ?fs ip n v" by (rule jf.frame) (simp_all add: own)
  have J: "log_blocks ?fs ip n b = ?J b" if "b < n" for b
    using own jf.addr_own [OF L that] by (simp add: log_blocks_def)
  have "jf.holds ?fs ip n v ?J"
    using log_ready_holds [OF assms(1)] j own jf.addr_own [OF L] by (simp add: jf.holds_def)
  from jf.replay_run [OF this, of t its head]
  have "\<exists>fs2 rp2. replay_log v head ?fs = Some (0, fs2, rp2) \<and>
      fs_disk fs2 = replayed (last_revokes t its) (log_writes n ?J t its) d"
    using assms(1) by (auto simp: log_ready_def jf.outside_def jf.went_def groups_read_def)
  then show ?thesis using log_ready_run [OF assms(1)] replayed_again [OF assms(2)] by (auto simp: jf.went_def)
qed

theorem replay_after_crash_witness:
  "\<exists>fs v head fs1 rp1 fs2 rp2. replay_log v head fs = Some (0, fs1, rp1) \<and>
     replay_log v head (fs\<lparr>fs_disk := (fs_disk fs)(50 \<mapsto> copy_block)\<rparr>) = Some (0, fs2, rp2) \<and> fs_disk fs2 = fs_disk fs1"
proof -
  obtain fs v head where e: "log_ready fs jnl_example 100 v 0 [Header, Blocks [50]] head" "fs_disk fs 50 = Some (replicate 512 0)"
    "log_blocks fs jnl_example 100 2 = copy_block" using dirty_example by blast
  have "half_replayed (last_revokes 0 [Header, Blocks [50]]) (log_writes 100 (log_blocks fs jnl_example 100) 0 [Header, Blocks [50]])
      (fs_disk fs) ((fs_disk fs)(50 \<mapsto> copy_block))"
    unfolding dirty_writes using e(2) by (auto simp: half_replayed_def kept_def)
  from replay_after_crash [OF e(1) this] show ?thesis by blast
qed

text \<open>
  C9. A dirty journal is recovered and is clean from then on: when the user agrees, the log is replayed and a clean header is written
  behind its head; a second run finds the journal clean and changes nothing.
\<close>

theorem recover_dirty_journal:
  assumes "log_ready (fk_fs st) ip n v t its head"
    "log_head_at n (log_headers (fk_fs st) ip n) ((t + log_len its) mod n)"
    "lgfs2_find_jhead (fk_fs st) v = Some (Inr head)" "lh_flags head AND GFS2_LOG_HEAD_UNMOUNT = 0" "lh_sequence head \<noteq> -1"
    "opts_yes st" "\<not> opts_no st" "preen_is_safe (fs_sdp (fk_fs st)) preen force_check"
  shows "\<exists>st'. gfs2_recover_journal seq0 v j preen force_check st = Some (0, False, st') \<and>
    gfs2_recover_journal seq0 v j preen force_check st' = Some (0, True, st') \<and>
    (\<forall>a. a \<notin> log_own (fs_sdp (fk_fs st)) ip n \<longrightarrow> fs_disk (fk_fs st') a =
       map_option (final_content (last_revokes t its) (log_writes n (log_blocks (fk_fs st) ip n) t its) a) (fs_disk (fk_fs st) a))"
proof -
  let ?fs = "fk_fs st" and ?J = "log_blocks (fk_fs st) ip n" and ?sdp = "fs_sdp (fk_fs st)" and ?h = "(t + log_len its) mod n"
  have j: "journal_on ?fs ip n v" using assms(1) by (simp add: log_ready_def)
  have n: "0 < n" using jf.size [OF j] by simp
  obtain fs1 rp where r: "replay_log v head ?fs = Some (0, fs1, rp)"
    and w: "jf.went ?fs ip n v ?J (replayed (last_revokes t its) (log_writes n ?J t its) (fs_disk ?fs)) fs1"
    using log_ready_run [OF assms(1)] by blast
  have w1: "fs_sdp fs1 = ?sdp" "jf.holds fs1 ip n v ?J" using w by (auto simp: jf.went_def)
  then have j1: "journal_on fs1 ip n v" and J1: "log_blocks fs1 ip n b = ?J b" "length (?J b) = unat (sd_bsize ?sdp)" if "b < n" for b
    using that by (auto simp: jf.holds_def log_blocks_def)
  have j1: "journal_on fs1 ip n v" using w1 by (simp add: jf.holds_def)
  have g1: "log_head_at n (log_headers fs1 ip n) ?h"
    using assms(2) log_head_cong [of n "log_headers fs1 ip n" "log_headers ?fs ip n"] J1(1) w1(1) by simp
  have find1: "lgfs2_find_jhead fs1 v = Some (Inr head)"
    using find_jhead_head [OF log_reads [OF j1] g1] find_jhead_head [OF log_reads [OF j] assms(2)] assms(3) J1(1) [of ?h] n w1(1) by simp
  obtain d lh where c: "lgfs2_clean_journal fs1 v head = Some (0, fs1\<lparr>fs_disk := d\<rparr>)" "journal_on (fs1\<lparr>fs_disk := d\<rparr>) ip n v"
    "log_head_at n (log_headers (fs1\<lparr>fs_disk := d\<rparr>) ip n) (Suc ?h mod n)" "lgfs2_find_jhead (fs1\<lparr>fs_disk := d\<rparr>) v = Some (Inr lh)"
    "lh_flags lh = GFS2_LOG_HEAD_UNMOUNT" "\<forall>a. a \<noteq> log_addr ?sdp ip n (Suc ?h mod n) \<longrightarrow> d a = fs_disk fs1 a"
    using clean_log [OF j1 _ g1 find1 assms(5)] J1 w1(1) by auto
  let ?st = "st\<lparr>errors_found := errors_found st + 1, fsck_abort := False, errors_corrected := errors_corrected st + 1, fk_fs := fs1\<lparr>fs_disk := d\<rparr>\<rparr>"
  have "gfs2_recover_journal seq0 v j preen force_check st = Some (0, False, ?st)"
    using assms(3,4,6-8) seq_no_in_order [OF log_reads [OF j] assms(2)] r c(1)
    by (simp add: gfs2_recover_journal_def recover_dirty_def fsck_query_def recover_out_def)
  moreover have "gfs2_recover_journal seq0 v j preen force_check ?st = Some (0, True, ?st)"
    using c(4,5) seq_no_in_order [OF log_reads [OF c(2)] c(3)] by (simp add: gfs2_recover_journal_def recover_dirty_def)
  moreover have "d a = map_option (final_content (last_revokes t its) (log_writes n ?J t its) a) (fs_disk ?fs a)"
    if "a \<notin> log_own ?sdp ip n" for a
  proof -
    have "a \<noteq> log_addr ?sdp ip n (Suc ?h mod n)" using that jf.addr_own [OF j, of "Suc ?h mod n"] n by auto
    then show ?thesis using c(6) w by (simp add: jf.went_def replayed_final)
  qed
  ultimately show ?thesis by fastforce
qed

theorem recover_dirty_journal_witness:
  "\<exists>st v st'. gfs2_recover_journal 0 v 0 False False st = Some (0, False, st') \<and>
     gfs2_recover_journal 0 v 0 False False st' = Some (0, True, st') \<and> fs_disk (fk_fs st') 50 = Some copy_block"
proof -
  obtain fs v head where e: "log_ready fs jnl_example 100 v 0 [Header, Blocks [50]] head" "fs_disk fs 50 = Some (replicate 512 0)"
    "log_blocks fs jnl_example 100 2 = copy_block" "log_head_at 100 (log_headers fs jnl_example 100) 3"
    "lgfs2_find_jhead fs v = Some (Inr head)" "lh_flags head = 0" "lh_sequence head = 101" "fs_sdp fs = sbd_heights"
    using dirty_example by blast
  let ?st = "fsck_start fs 400"
  have st: "fk_fs ?st = fs" "opts_yes ?st" "\<not> opts_no ?st" by (simp_all add: fsck_start_def)
  have h: "(0 + log_len [Header, Blocks [50]]) mod 100 = 3" by (simp add: log_len_def)
  have "50 \<notin> log_own sbd_heights jnl_example 100"
    using e(1) unfolding log_ready_def dirty_writes e(8) by (simp add: kept_def)
  moreover have "lh_sequence head \<noteq> -1" using e(7) by simp
  ultimately show ?thesis
    using recover_dirty_journal [of ?st jnl_example 100 v 0 "[Header, Blocks [50]]" head False False 0 0] e(1-6) st(2,3)
    unfolding st(1) h e(8) dirty_writes by (fastforce simp: preen_is_safe_def final_content_def kept_def)
qed

text \<open>
  C31. A log descriptor that says it is zero blocks long stops fsck for good: the replay never gets past it.
\<close>

theorem empty_descriptor_hangs:
  assumes "journal_on fs ip n v" "p < n" "(of_nat p :: u32) \<noteq> stop" "descriptor_at (log_blocks fs ip n p) type 0 data1"
    "fs_disk fs (log_addr (fs_sdp fs) ip n p) = Some (log_blocks fs ip n p)"
  shows "foreach_descriptor v 0 stop (of_nat p) fs rp = None"
proof -
  have read: "gfs2_replay_read_block fs v (of_nat p)
      = Some (Inr \<lparr>b_blocknr = log_addr (fs_sdp fs) ip n p, b_data = log_blocks fs ip n p, b_modified = False\<rparr>)"
    using jf.read [OF assms(1,2)] assms(5) by auto
  have same: "fs_brelse (bmodified \<lparr>b_blocknr = log_addr (fs_sdp fs) ip n p, b_data = log_blocks fs ip n p, b_modified = False\<rparr>) fs = fs"
    using assms(5) by (auto simp: fs_brelse_def snd_brelse map_upd_triv)
  have scan: "scan_elements v (of_nat p) (log_blocks fs ip n p) 0 fs rp = Some (0, fs, rp)"
    using assms(4)
    by (simp add: scan_elements_def databuf_lo_scan_elements_def buf_lo_scan_elements_def revoke_lo_scan_elements_def
        descriptor_at_def size_simps)
  have never: "\<not> (v' = v \<and> pass = 0 \<and> stop' = stop \<and> start = of_nat p \<and> fs' = fs \<and> rp' = rp)"
    if "foreach_descriptor v' pass stop' start fs' rp' = Some r" for v' pass stop' start fs' rp' r
  proof (rule foreach_descriptor.raw_induct [OF _ that])
    fix f v' pass stop' start fs' rp' r
    assume IH: "\<And>v' pass stop' start fs' rp' r. f v' pass stop' start fs' rp' = Some r \<Longrightarrow>
        \<not> (v' = v \<and> pass = 0 \<and> stop' = stop \<and> start = of_nat p \<and> fs' = fs \<and> rp' = rp)"
      and body: "(if start = stop' then Some (0, fs', rp')
        else case gfs2_replay_read_block fs' v' start of None \<Rightarrow> None
        | Some (Inl e) \<Rightarrow> Some (e, fs', rp')
        | Some (Inr bh) \<Rightarrow>
          let ld = b_data bh;
              len = get_be32 ld (offsetof struct_gfs2_log_descriptor ''ld_length'')
          in if get_be32 ld (offsetof struct_gfs2_meta_header ''mh_magic'') \<noteq> GFS2_MAGIC
             then Some (- EIO, fs_brelse (bmodified bh) fs', rp')
             else if get_be32 ld (offsetof struct_gfs2_meta_header ''mh_type'') = GFS2_METATYPE_LH then
               (case lgfs2_get_log_header fs' v' start of None \<Rightarrow> None
                | Some (Inl error) \<Rightarrow> Some (if error = 1 then - EIO else error, fs_brelse (bmodified bh) fs', rp')
                | Some (Inr lh) \<Rightarrow>
                    f v' pass stop' (gfs2_replay_incr_blk fs' v' start) (fs_brelse (bmodified bh) fs') rp')
             else if gfs2_check_meta ld GFS2_METATYPE_LD \<noteq> 0 then Some (- EIO, fs_brelse (bmodified bh) fs', rp')
             else
               (case scan_elements v' start ld pass fs' rp' of None \<Rightarrow> None
                | Some (error, fs, rp) \<Rightarrow>
                    if error \<noteq> 0 then Some (error, fs_brelse (bmodified bh) fs, rp)
                    else f v' pass stop' ((gfs2_replay_incr_blk fs v' ^^ unat len) start) (fs_brelse (bmodified bh) fs) rp)) = Some r"
    show "\<not> (v' = v \<and> pass = 0 \<and> stop' = stop \<and> start = of_nat p \<and> fs' = fs \<and> rp' = rp)"
    proof
      assume "v' = v \<and> pass = 0 \<and> stop' = stop \<and> start = of_nat p \<and> fs' = fs \<and> rp' = rp"
      then have "f v 0 stop (of_nat p) fs rp = Some r"
        using body assms(3,4) read same scan by (simp add: descriptor_at_def gfs2_check_meta_def size_simps Let_def)
      then show False using IH by blast
    qed
  qed
  show ?thesis
  proof (rule ccontr)
    assume "foreach_descriptor v 0 stop (of_nat p) fs rp \<noteq> None"
    then obtain r where "foreach_descriptor v 0 stop (of_nat p) fs rp = Some r" by blast
    from never [OF this] show False by simp
  qed
qed

theorem empty_descriptor_hangs_witness:
  "\<exists>fs v rp. journal_on fs jnl_example 100 v \<and> foreach_descriptor v 0 5 1 fs rp = None"
proof -
  obtain fs v head where e: "log_ready fs jnl_example 100 v 0 [Header, Blocks [50]] head" "fs_sdp fs = sbd_heights"
    using dirty_example by blast
  let ?a = "log_addr sbd_heights jnl_example 100 1"
  define fs' where "fs' = fs\<lparr>fs_disk := (fs_disk fs)(?a \<mapsto> descriptor_block 0)\<rparr>"
  have j: "journal_on fs jnl_example 100 v" using e(1) by (simp add: log_ready_def)
  have b: "log_blocks fs' jnl_example 100 1 = descriptor_block 0" "fs_sdp fs' = sbd_heights" using e(2) by (simp_all add: fs'_def log_blocks_def)
  have "journal_on fs' jnl_example 100 v"
  proof (rule journal_on_data [OF j])
    fix i
    assume i: "i < jdata (fs_sdp fs) jnl_example 100"
    then have "1000 + of_nat i \<noteq> ?a"
      using of_nat_u64_inj [of i 4] unfolding log_addr_def e(2) jnl_example_geom(3,5) by simp
    then show "fs_disk fs' (in_addr (i_num jnl_example) + of_nat i) = fs_disk fs (in_addr (i_num jnl_example) + of_nat i)"
      unfolding jnl_example_geom(3) by (simp add: fs'_def)
  qed (use jf.read [OF j] e(2) in \<open>auto simp: fs'_def\<close>)
  moreover have "descriptor_at (descriptor_block 0) GFS2_LOG_DESC_METADATA 0 1" using descriptor_block(2) [of 0] by simp
  ultimately show ?thesis
    using empty_descriptor_hangs [of fs' jnl_example 100 v 1 5 GFS2_LOG_DESC_METADATA 1] b
    by (intro exI [of _ fs'] exI [of _ v]) (auto simp: fs'_def)
qed

text \<open>
  A log header that fsck renumbers is no log header any more: its checksum stays that of the old number, so
  the block is taken for journal data when the journal is read again.
\<close>

theorem renumber_unreadable:
  assumes "journal_on fs ip n v" "p < n" "52 \<le> length (log_blocks fs ip n p)" "log_headers fs ip n p = Some lh"
    "seq \<noteq> lh_sequence lh" "unat seq div 256 = unat (lh_sequence lh) div 256"
  shows "\<exists>fs'. renumber v (of_nat p) seq fs = Some fs' \<and> lgfs2_get_log_header fs' v (of_nat p) = Some (Inl 1)"
proof -
  let ?c = "log_blocks fs ip n p" and ?a = "log_addr (fs_sdp fs) ip n p" and ?b = "unat (sd_bsize (fs_sdp fs))"
  define fs' where "fs' = fs\<lparr>fs_disk := (fs_disk fs)(?a \<mapsto> put_be64 24 seq ?c)\<rparr>"
  have d: "fs_disk fs ?a = Some ?c" using jf.read [OF assms(1,2)] by (auto simp: log_blocks_def)
  have run: "renumber v (of_nat p) seq fs = Some fs'"
    using journal_block_map [OF assms(1,2)] d
    by (simp add: renumber_def bread_def fs_brelse_def snd_brelse fs'_def size_simps log_addr_def del: of_nat_add)
  have j: "journal_on fs' ip n v"
  proof (rule journal_on_data [OF assms(1)])
    note A = extent_addrs(2,3) [of "fs_sdp fs" ip n]
    have g: "extent_geom (fs_sdp fs) ip n" using assms(1) by (simp add: journal_on_def)
    fix i
    assume "i < jdata (fs_sdp fs) ip n"
    then have "in_addr (i_num ip) + of_nat i \<noteq> ?a"
      using A [OF g] assms(2) of_nat_u64_inj [of i "jdata (fs_sdp fs) ip n + p"] by (simp add: log_addr_def del: of_nat_add)
    then show "fs_disk fs' (in_addr (i_num ip) + of_nat i) = fs_disk fs (in_addr (i_num ip) + of_nat i)" by (simp add: fs'_def)
  qed (use jf.read [OF assms(1)] in \<open>auto simp: fs'_def\<close>)
  let ?s = "unat (lh_sequence lh)"
  have lh: "lh_sequence lh = get_be64 ?c 24" "get_be32 ?c 44 = lgfs2_log_header_hash (put_be32 44 0 ?c)"
    using assms(4) by (auto simp: good_header_def log_header_in_def size_simps Let_def split: if_splits)
  have old: "?c = memcpy_at 24 (be_bytes 7 (?s div 256) @ [of_nat (?s mod 256)]) ?c"
    using be64.put_get [of 24 ?c] assms(3) be_bytes_last [of 7 ?s] lh(1) by (simp add: put_be64_def)
  have new: "put_be64 24 seq ?c = memcpy_at 24 (be_bytes 7 (?s div 256) @ [of_nat (unat seq mod 256)]) ?c"
    using be_bytes_last [of 7 "unat seq"] assms(6) by (simp add: put_be64_def)
  have "(of_nat (?s mod 256) :: u8) \<noteq> of_nat (unat seq mod 256)"
  proof
    assume "(of_nat (?s mod 256) :: u8) = of_nat (unat seq mod 256)"
    moreover have "unat (of_nat (k mod 256) :: u8) = k mod 256" for k by (rule unat_of_nat_small) simp
    ultimately have "?s mod 256 = unat seq mod 256" by metis
    then have "unat seq = ?s" using assms(6) by (metis div_mult_mod_eq)
    then show False using assms(5) by (simp add: word_unat_eq_iff)
  qed
  note differ = gfs2_disk_hash_detects [OF this, of "take 24 ?c @ be_bytes 7 (?s div 256)" "take 12 (drop 32 ?c) @ be_bytes 4 0"]
  have "lgfs2_log_header_hash (put_be32 44 0 (put_be64 24 seq ?c)) \<noteq> lgfs2_log_header_hash (put_be32 44 0 ?c)"
    unfolding lgfs2_log_header_hash_def v1_end_eq
    by (subst (2) old, subst new) (use assms(3) differ in \<open>auto simp: header_prefix\<close>)
  then have "log_headers fs' ip n p = None"
    using lh(2) by (simp add: good_header_def log_header_in_def log_blocks_def fs'_def size_simps field_simps Let_def)
  then have "lgfs2_get_log_header fs' v (of_nat p) = Some (Inl 1)"
    using log_reads [OF j] assms(2) by (simp add: journal_reads_def)
  then show ?thesis using run by blast
qed

theorem renumber_unreadable_witness:
  "\<exists>fs v lh fs'. lgfs2_get_log_header fs v 3 = Some (Inr lh) \<and> lh_sequence lh = 101 \<and>
     renumber v 3 102 fs = Some fs' \<and> lgfs2_get_log_header fs' v 3 = Some (Inl 1)"
proof -
  obtain fs v lh where e: "log_ready fs jnl_example 100 v 0 [Header, Blocks [50]] lh" "fs_sdp fs = sbd_heights"
    "log_head_at 100 (log_headers fs jnl_example 100) 3" "lgfs2_find_jhead fs v = Some (Inr lh)" "lh_sequence lh = 101"
    using dirty_example by blast
  have j: "journal_on fs jnl_example 100 v" "length (log_blocks fs jnl_example 100 3) = 512"
    using e(1,2) by (simp_all add: log_ready_def)
  have h: "log_headers fs jnl_example 100 3 = Some lh"
    using find_jhead_head [OF log_reads [OF j(1)] e(3)] e(3,4) by (auto simp: log_head_at_def)
  then have "lgfs2_get_log_header fs v (of_nat 3) = Some (Inr lh)"
    using log_reads [OF j(1)] unfolding journal_reads_def by (auto simp del: of_nat_numeral)
  moreover have "unat (102 :: u64) div 256 = unat (lh_sequence lh) div 256" "102 \<noteq> lh_sequence lh" using e(5) by simp_all
  ultimately show ?thesis using renumber_unreadable [OF j(1) _ _ h, of 102] j(2) e(5) by auto
qed

text \<open>
  With -p on a shared file system a dirty journal is not replayed because that may be unsafe, but it is cleared all
  the same: the question whether to clear it answers itself.
\<close>

lemma unsafe_preen_clears:
  assumes "lgfs2_find_jhead (fk_fs st) v = Some (Inr head)" "check_journal_seq_no v False (fk_fs st) = Some (0, fk_fs st)"
    "lh_flags head AND GFS2_LOG_HEAD_UNMOUNT = 0" "\<not> preen_is_safe (fs_sdp (fk_fs st)) preen force_check"
    "opts_yes st" "\<not> opts_no st" "md_journal (fk_md st) ! j = Some v"
    "write_journal seq0 (fk_fs st) v (sd_bsize (fs_sdp (fk_fs st))) (ucast (i_size (vi v) div ucast (sd_bsize (fs_sdp (fk_fs st))))) = Some (e, fs, v')"
  shows "\<exists>st'. gfs2_recover_journal seq0 v j preen force_check st = Some (e, False, st') \<and> fk_fs st' = fs"
  using assms by (simp add: gfs2_recover_journal_def recover_dirty_def recover_out_def recover_reinit_def fsck_query_def Let_def)

end
