(* ===== verification/FsckDups.thy ===== *)
theory FsckDups
  imports FsckPass5
begin

text \<open>
  Blocks with more than one reference (the duplicate tree of util.c and metawalk.c), and the deletion of an inode's blocks that
  respects them (the first part of afterpass1_common.c).

  A node of the tree has two lists of the inodes that refer to its block, the invalid ones and the others. An entry is
  named by the list it is on and its value, as \<open>invalid\<close> and \<open>rid\<close>; an inode has one entry at most. \<open>hint\<close> is the group that
  an inode remembers.
\<close>

section \<open>The tree of duplicates\<close>

definition dupfind :: "fsck \<Rightarrow> u64 \<Rightarrow> duptree option" where
  "dupfind st block = tree_find dup_block (dup_blocks st) block"

definition put_dup :: "duptree \<Rightarrow> fsck \<Rightarrow> fsck" where
  "put_dup dt st = st\<lparr>dup_blocks := tree_put dup_block dt (dup_blocks st)\<rparr>"

definition gfs2_dup_set :: "u64 \<Rightarrow> bool \<Rightarrow> fsck \<Rightarrow> duptree option \<times> fsck" where
  "gfs2_dup_set dblock create st =
     (case dupfind st dblock of Some cur \<Rightarrow> (Some cur, st)
      | None \<Rightarrow>
          if \<not> create then (None, st)
          else
            let dt = \<lparr>REF1_FOUND = False, REF1_IS_DUPL = False, refs = 1, dup_block = dblock, ref_inode_list = [], ref_invinode_list = []\<rparr>
            in (Some dt, st\<lparr>dups_found := dups_found st + 1, dup_blocks := snd (tree_insert dup_block dt (dup_blocks st))\<rparr>))"

definition find_dup_ref_inode :: "duptree \<Rightarrow> u64 \<Rightarrow> (bool \<times> inode_with_dups) option" where
  "find_dup_ref_inode dt addr =
     (case find (\<lambda>rid. block_no rid = addr) (ref_invinode_list dt) of Some rid \<Rightarrow> Some (True, rid)
      | None \<Rightarrow> map_option (Pair False) (find (\<lambda>rid. block_no rid = addr) (ref_inode_list dt)))"

definition count_dup_meta_refs :: "duptree \<Rightarrow> nat" where
  "count_dup_meta_refs dt = length (filter (\<lambda>rid. reftypecount rid REF_AS_META \<noteq> 0) (ref_invinode_list dt @ ref_inode_list dt))"

fun put_dup_id :: "u64 \<Rightarrow> inode_with_dups \<Rightarrow> inode_with_dups list \<Rightarrow> inode_with_dups list" where
  "put_dup_id addr rid [] = []"
| "put_dup_id addr rid (x # xs) = (if block_no x = addr then rid # xs else x # put_dup_id addr rid xs)"

text \<open>A change of the entry itself.\<close>

definition put_ref :: "bool \<Rightarrow> inode_with_dups \<Rightarrow> duptree \<Rightarrow> duptree" where
  "put_ref invalid rid dt =
     (if invalid then dt\<lparr>ref_invinode_list := put_dup_id (block_no rid) rid (ref_invinode_list dt)\<rparr>
      else dt\<lparr>ref_inode_list := put_dup_id (block_no rid) rid (ref_inode_list dt)\<rparr>)"

text \<open>The list on which the entry of an inode begins; system inodes come first among the valid ones.\<close>

definition new_dup_ref :: "fsck \<Rightarrow> u64 \<Rightarrow> bool \<Rightarrow> duptree \<Rightarrow> bool \<times> inode_with_dups \<times> duptree" where
  "new_dup_ref st addr inode_valid dt =
     (let rid = \<lparr>block_no = addr, dup_count = 0, reftypecount = (\<lambda>_. 0), dup_parent = 0, dup_name = None\<rparr>;
          q = bitmap_type (fk_fs st) addr
      in if \<not> inode_valid \<or> q = int GFS2_BLKST_UNLINKED then (True, rid, dt\<lparr>ref_invinode_list := ref_invinode_list dt @ [rid]\<rparr>)
         else if fsck_system_inode st addr \<noteq> None then (False, rid, dt\<lparr>ref_inode_list := rid # ref_inode_list dt\<rparr>)
         else (False, rid, dt\<lparr>ref_inode_list := ref_inode_list dt @ [rid]\<rparr>))"

definition add_duplicate_ref :: "u64 \<Rightarrow> u64 \<Rightarrow> dup_ref_type \<Rightarrow> bool \<Rightarrow> bool \<Rightarrow> fsck \<Rightarrow> int \<times> fsck" where
  "add_duplicate_ref addr block reftype first inode_valid st =
     (if \<not> valid_block_ip (fk_fs st) block then (0, st)
      else
        let (dt, st) = gfs2_dup_set block (\<not> first) st in
        case dt of None \<Rightarrow> (0, st)
        | Some dt \<Rightarrow>
            if REF1_FOUND dt then (0, st)
            else
              let found = find_dup_ref_inode dt addr;
                  dt = (if found \<noteq> None \<and> first then dt\<lparr>REF1_IS_DUPL := True, refs := refs dt + 1\<rparr> else dt);
                  (dt, st) = (if first then (dt\<lparr>REF1_FOUND := True\<rparr>, st\<lparr>dups_found_first := dups_found_first st + 1\<rparr>)
                              else (dt\<lparr>refs := refs dt + 1\<rparr>, st));
                  (invalid, rid, dt) = (case found of Some (invalid, rid) \<Rightarrow> (invalid, rid, dt) | None \<Rightarrow> new_dup_ref st addr inode_valid dt);
                  rid = rid\<lparr>reftypecount := (reftypecount rid)(reftype := reftypecount rid reftype + 1), dup_count := dup_count rid + 1\<rparr>;
                  dt = put_ref invalid rid dt;
                  dt = (if \<not> first \<and> 1 < dup_count rid then dt\<lparr>REF1_FOUND := True\<rparr> else dt)
              in (0, put_dup dt st))"

definition ref_types :: "dup_ref_type list" where
  "ref_types = [REF_AS_DATA, REF_AS_META, REF_AS_EA, REF_IS_INODE]"

text \<open>The one type that an inode uses a block as; \<open>REF_TYPES\<close> stands for none or several.\<close>

fun ref_type_loop :: "inode_with_dups \<Rightarrow> dup_ref_type list \<Rightarrow> dup_ref_type" where
  "ref_type_loop rid [] = REF_TYPES"
| "ref_type_loop rid (t # ts) =
     (if reftypecount rid t \<noteq> 0
      then (if \<exists>i \<in> set ref_types. i \<noteq> t \<and> reftypecount rid i \<noteq> 0 then REF_TYPES else t)
      else ref_type_loop rid ts)"

definition get_ref_type :: "inode_with_dups \<Rightarrow> dup_ref_type" where
  "get_ref_type rid = ref_type_loop rid ref_types"

fun del_dup_id :: "u64 \<Rightarrow> inode_with_dups list \<Rightarrow> inode_with_dups list" where
  "del_dup_id addr [] = []"
| "del_dup_id addr (x # xs) = (if block_no x = addr then xs else x # del_dup_id addr xs)"

definition dup_listent_delete :: "bool \<Rightarrow> inode_with_dups \<Rightarrow> duptree \<Rightarrow> duptree" where
  "dup_listent_delete invalid rid dt =
     (let dt = dt\<lparr>refs := refs dt - 1\<rparr> in
      if invalid then dt\<lparr>ref_invinode_list := del_dup_id (block_no rid) (ref_invinode_list dt)\<rparr>
      else dt\<lparr>ref_inode_list := del_dup_id (block_no rid) (ref_inode_list dt)\<rparr>)"

text \<open>\<open>dup_delete\<close> frees what is on the node's lists and takes the node out of the tree.\<close>

definition dup_delete :: "duptree \<Rightarrow> fsck \<Rightarrow> fsck" where
  "dup_delete dt st = st\<lparr>dup_blocks := tree_erase dup_block (dup_block dt) (dup_blocks st)\<rparr>"

text \<open>The entries of an inode on one of the lists.\<close>

fun drop_refs :: "bool \<Rightarrow> u64 \<Rightarrow> inode_with_dups list \<Rightarrow> bool \<times> duptree \<Rightarrow> bool \<times> duptree" where
  "drop_refs invalid addr [] (found, dt) = (found, dt)"
| "drop_refs invalid addr (rid # ids) (found, dt) =
     (if block_no rid = addr then drop_refs invalid addr ids (True, dup_listent_delete invalid rid dt)
      else drop_refs invalid addr ids (found, dt))"

fun delete_dups_loop :: "u64 \<Rightarrow> duptree list \<Rightarrow> fsck \<Rightarrow> fsck" where
  "delete_dups_loop addr [] st = st"
| "delete_dups_loop addr (dt # dts) st =
     (let (found, dt) = drop_refs True addr (ref_invinode_list dt) (False, dt);
          (found, dt) = drop_refs False addr (ref_inode_list dt) (found, dt)
      in delete_dups_loop addr dts
           (if \<not> found then st else if refs dt = 0 then dup_delete dt st else put_dup dt st))"

definition delete_all_dups :: "u64 \<Rightarrow> fsck \<Rightarrow> fsck" where
  "delete_all_dups addr st = delete_dups_loop addr (inorder (dup_blocks st)) st"

section \<open>The deletion of blocks\<close>

text \<open>Whether references remain, and whether the last one as metadata was removed.\<close>

definition find_remove_dup :: "u64 \<Rightarrow> u64 \<Rightarrow> fsck \<Rightarrow> bool \<times> bool \<times> fsck" where
  "find_remove_dup addr block st =
     (case dupfind st block of None \<Rightarrow> (False, False, st)
      | Some dt \<Rightarrow>
     (case find_dup_ref_inode dt addr of None \<Rightarrow> (True, False, st)
      | Some (invalid, rid) \<Rightarrow>
          let deleted_a_meta_ref = (reftypecount rid REF_AS_META \<noteq> 0);
              dt = dup_listent_delete invalid rid dt
          in if refs dt = 0 then (False, deleted_a_meta_ref, dup_delete dt (put_dup dt st))
             else (True, deleted_a_meta_ref \<and> count_dup_meta_refs dt = 0, put_dup dt st)))"

abbreviation (input) META_ERROR :: int where "META_ERROR \<equiv> -1"
abbreviation (input) META_IS_GOOD :: int where "META_IS_GOOD \<equiv> 0"
abbreviation (input) META_SKIP_FURTHER :: int where "META_SKIP_FURTHER \<equiv> 1"
abbreviation (input) META_SKIP_ONE :: int where "META_SKIP_ONE \<equiv> 2"

text \<open>The result has whether \<open>*was_duplicate\<close> is set.\<close>

definition delete_block_if_notdup :: "u64 option \<Rightarrow> u64 \<Rightarrow> u64 \<Rightarrow> fsck \<Rightarrow> (int \<times> bool \<times> fsck) option" where
  "delete_block_if_notdup hint addr block st =
     (if \<not> valid_block_ip (fk_fs st) block then Some (META_ERROR, False, st)
      else if bitmap_type (fk_fs st) block = int GFS2_BLKST_FREE then Some (META_IS_GOOD, False, st)
      else
        let (more, removed_lastmeta, st) = find_remove_dup addr block st in
        if more then Some (META_IS_GOOD, \<not> removed_lastmeta, st)
        else map_option (\<lambda>(_, st). (META_IS_GOOD, False, st)) (check_n_fix_bitmap hint block False GFS2_BLKST_FREE st))"

text \<open>The first free block of the first group that says it has one; the bitmaps are read to the ends of their blocks.\<close>

fun free_bits_loop :: "bytes \<Rightarrow> (nat \<times> nat) list \<Rightarrow> nat \<Rightarrow> nat + nat" where
  "free_bits_loop buf [] bn = Inr bn"
| "free_bits_loop buf ((x, y) # xys) bn =
     (if unat (drop_bit (2 * y) (buf ! x)) mod 4 = GFS2_BLKST_FREE then Inl bn else free_bits_loop buf xys (Suc bn))"

fun free_blk_loop :: "nat \<Rightarrow> rgrp_tree \<Rightarrow> nat list \<Rightarrow> nat \<Rightarrow> u64 option" where
  "free_blk_loop bsize rl [] bn = Some 0"
| "free_blk_loop bsize rl (block # blocks) bn =
     (if length (bits rl) \<le> block \<or> length (buf_of (bi_data (bits rl ! block))) < bsize then None
      else
        let x0 = (if block \<noteq> 0 then sizeof struct_gfs2_meta_header else sizeof struct_gfs2_rgrp) in
        case free_bits_loop (buf_of (bi_data (bits rl ! block))) (List.product [x0..<bsize] [0..<4]) bn of
          Inl bn \<Rightarrow> Some (rt_data0 rl + of_nat bn)
        | Inr bn \<Rightarrow> free_blk_loop bsize rl blocks bn)"

definition find_free_blk :: "fs \<Rightarrow> u64 option" where
  "find_free_blk fs =
     (case find (\<lambda>rl. rt_free rl \<noteq> 0) (fs_rgs fs) of None \<Rightarrow> Some 0
      | Some rl \<Rightarrow> free_blk_loop (unat (sd_bsize (fs_sdp fs))) rl [0..<unat (rt_length rl)] 0)"

section \<open>What is left of the references\<close>

definition refs_of :: "u64 \<Rightarrow> duptree \<Rightarrow> nat" where
  "refs_of addr dt = length (filter (\<lambda>rid. block_no rid = addr) (ref_invinode_list dt @ ref_inode_list dt))"

text \<open>A node without the entries of an inode.\<close>

definition without_refs :: "u64 \<Rightarrow> duptree \<Rightarrow> duptree" where
  "without_refs addr dt = dt\<lparr>refs := refs dt - int (refs_of addr dt),
     ref_invinode_list := filter (\<lambda>rid. block_no rid \<noteq> addr) (ref_invinode_list dt),
     ref_inode_list := filter (\<lambda>rid. block_no rid \<noteq> addr) (ref_inode_list dt)\<rparr>"

lemma del_dup_ids:
  "(del_dup_id a ^^ length (filter (\<lambda>rid. block_no rid = a) xs)) xs = filter (\<lambda>rid. block_no rid \<noteq> a) xs"
proof (induction xs)
  case (Cons x xs)
  have "(del_dup_id a ^^ k) (x # xs) = x # (del_dup_id a ^^ k) xs" if "block_no x \<noteq> a" for k
    using that by (induction k) simp_all
  then show ?case using Cons.IH by (simp add: funpow_Suc_right del: funpow.simps)
qed simp

lemma drop_refs_spec:
  "drop_refs invalid a ids (f, dt) =
     (let k = length (filter (\<lambda>rid. block_no rid = a) ids) in
      (f \<or> 0 < k,
       if invalid then dt\<lparr>refs := refs dt - int k, ref_invinode_list := (del_dup_id a ^^ k) (ref_invinode_list dt)\<rparr>
       else dt\<lparr>refs := refs dt - int k, ref_inode_list := (del_dup_id a ^^ k) (ref_inode_list dt)\<rparr>))"
proof (induction ids arbitrary: f dt)
  case (Cons x xs)
  then show ?case
    by (cases "block_no x = a"; cases invalid) (simp_all add: dup_listent_delete_def Let_def funpow_Suc_right del: funpow.simps)
qed simp

lemma drop_all:
  "drop_refs False a (ref_inode_list dt) (drop_refs True a (ref_invinode_list dt) (False, dt)) = (0 < refs_of a dt, without_refs a dt)"
proof -
  obtain f1 dt1 where d: "drop_refs True a (ref_invinode_list dt) (False, dt) = (f1, dt1)" by fastforce
  then have "f1 = (filter (\<lambda>rid. block_no rid = a) (ref_invinode_list dt) \<noteq> [])" "ref_inode_list dt1 = ref_inode_list dt"
    "dt1 = dt\<lparr>refs := refs dt - int (length (filter (\<lambda>rid. block_no rid = a) (ref_invinode_list dt))),
        ref_invinode_list := filter (\<lambda>rid. block_no rid \<noteq> a) (ref_invinode_list dt)\<rparr>"
    by (auto simp: drop_refs_spec Let_def del_dup_ids)
  then show ?thesis by (simp add: d drop_refs_spec Let_def del_dup_ids refs_of_def without_refs_def)
qed

lemma drop_refs_inode_list:
  "drop_refs True a ids (f, dt) = (f1, dt1) \<Longrightarrow> ref_inode_list dt1 = ref_inode_list dt"
  by (auto simp: drop_refs_spec Let_def)

lemma dup_ops:
  assumes "tree_ok dup_block (dup_blocks st)"
  shows "tree_ok dup_block (dup_blocks (put_dup dt st))" "tree_ok dup_block (dup_blocks (dup_delete dt st))"
    "dupfind (put_dup dt st) b = (if b = dup_block dt then map_option (\<lambda>_. dt) (dupfind st b) else dupfind st b)"
    "dupfind (dup_delete dt st) b = (if b = dup_block dt then None else dupfind st b)"
  using kt.ok_put [OF assms] kt.ok_erase [OF assms] kt.find_put [OF assms] kt.find_erase [OF assms]
  by (simp_all add: put_dup_def dup_delete_def dupfind_def)

definition dup_left :: "u64 \<Rightarrow> duptree \<Rightarrow> duptree option" where
  "dup_left a dt = (if refs_of a dt = 0 then Some dt else if refs dt = int (refs_of a dt) then None else Some (without_refs a dt))"

lemma delete_dups_loop_spec:
  assumes "tree_ok dup_block (dup_blocks st)" "distinct (map dup_block dts)" "\<forall>dt \<in> set dts. dupfind st (dup_block dt) = Some dt"
  shows "tree_ok dup_block (dup_blocks (delete_dups_loop a dts st)) \<and>
    (\<exists>t. delete_dups_loop a dts st = st\<lparr>dup_blocks := t\<rparr>) \<and>
    dupfind (delete_dups_loop a dts st) b =
      (if b \<in> dup_block ` set dts then Option.bind (dupfind st b) (dup_left a) else dupfind st b)"
  using assms
proof (induction dts arbitrary: st)
  case Nil
  have "\<exists>t. st = st\<lparr>dup_blocks := t\<rparr>" by (rule exI [of _ "dup_blocks st"]) simp
  then show ?case using Nil.prems(1) by simp
next
  case (Cons dt dts)
  let ?st = "if refs_of a dt = 0 then st else if refs (without_refs a dt) = 0 then dup_delete (without_refs a dt) st else put_dup (without_refs a dt) st"
  have w: "dup_block (without_refs a dt) = dup_block dt" "refs (without_refs a dt) = refs dt - int (refs_of a dt)"
    by (simp_all add: without_refs_def)
  have step: "delete_dups_loop a (dt # dts) st = delete_dups_loop a dts ?st"
    using drop_all [of a dt]
    by (cases "drop_refs True a (ref_invinode_list dt) (False, dt)") (simp add: drop_refs_inode_list)
  have ok: "tree_ok dup_block (dup_blocks ?st)" using dup_ops(1,2) [OF Cons.prems(1)] Cons.prems(1) by simp
  have find: "dupfind ?st x = (if x = dup_block dt then dup_left a dt else dupfind st x)" for x
    using dup_ops(3,4) [OF Cons.prems(1)] Cons.prems(3) w by (auto simp: dup_left_def)
  have st: "?st = st\<lparr>dup_blocks := dup_blocks ?st\<rparr>" by (simp add: dup_delete_def put_dup_def)
  have "\<forall>x \<in> set dts. dupfind ?st (dup_block x) = Some x"
  proof
    fix x
    assume x: "x \<in> set dts"
    then have "dup_block x \<noteq> dup_block dt" using Cons.prems(2) by (metis distinct.simps(2) image_eqI list.set_map list.simps(9))
    with x show "dupfind ?st (dup_block x) = Some x" unfolding find using Cons.prems(3) by simp
  qed
  moreover have "distinct (map dup_block dts)" using Cons.prems(2) by simp
  ultimately have IH: "tree_ok dup_block (dup_blocks (delete_dups_loop a dts ?st))"
    "\<exists>t. delete_dups_loop a dts ?st = ?st\<lparr>dup_blocks := t\<rparr>"
    "dupfind (delete_dups_loop a dts ?st) b =
      (if b \<in> dup_block ` set dts then Option.bind (dupfind ?st b) (dup_left a) else dupfind ?st b)"
    using Cons.IH [OF ok] by blast+
  have "dupfind st (dup_block dt) = Some dt" using Cons.prems(3) by simp
  moreover have "\<exists>t. delete_dups_loop a dts ?st = st\<lparr>dup_blocks := t\<rparr>"
  proof -
    obtain t where t: "delete_dups_loop a dts ?st = ?st\<lparr>dup_blocks := t\<rparr>" using IH by blast
    have "?st\<lparr>dup_blocks := t\<rparr> = st\<lparr>dup_blocks := t\<rparr>" by (subst st) simp
    then show ?thesis unfolding t by (rule exI)
  qed
  moreover have "dup_block dt \<notin> dup_block ` set dts" using Cons.prems(2) by simp
  ultimately show ?case using IH(1,3) unfolding step find by auto
qed

section \<open>Properties\<close>

text \<open>
  C32. After \<open>delete_all_dups\<close> no node of the tree of duplicate blocks has a reference from the inode: each node has lost
  exactly that inode's entries and as many references, the nodes that are left with none are gone, and all other nodes
  and the rest of the state are as they were.
\<close>

theorem delete_all_dups_exact:
  assumes "tree_ok dup_block (dup_blocks st)"
  shows "tree_ok dup_block (dup_blocks (delete_all_dups a st)) \<and> (\<exists>t. delete_all_dups a st = st\<lparr>dup_blocks := t\<rparr>) \<and>
    dupfind (delete_all_dups a st) b = Option.bind (dupfind st b) (dup_left a) \<and>
    (\<forall>dt. dupfind (delete_all_dups a st) b = Some dt \<longrightarrow> refs_of a dt = 0)"
proof -
  let ?dts = "inorder (dup_blocks st)"
  have d: "distinct (map dup_block ?dts)"
    using assms strict_sorted_iff [of "map dup_block ?dts"] by (simp add: tree_ok_def sorted_wrt_map)
  have all: "\<forall>dt \<in> set ?dts. dupfind st (dup_block dt) = Some dt" using assms by (auto simp: dupfind_def tree_find_iff)
  have none: "dupfind st b = None" if "b \<notin> dup_block ` set ?dts"
    using that tree_find_None [OF assms, of b] by (auto simp: dupfind_def)
  have "refs_of a dt' = 0" if "dup_left a dt = Some dt'" for dt dt'
    using that by (auto simp: dup_left_def refs_of_def without_refs_def filter_empty_conv split: if_splits)
  then show ?thesis using delete_dups_loop_spec [OF assms d all, of a b] none unfolding delete_all_dups_def by (auto split: if_splits bind_splits)
qed

text \<open>Block 210 is claimed by the inodes 205 and 206, block 220 by inode 205 alone.\<close>

definition dups_example :: fsck where
  "dups_example =
     (fsck_start fs_example 400)\<lparr>dup_blocks :=
       Node Leaf \<lparr>REF1_FOUND = False, REF1_IS_DUPL = False, refs = 2, dup_block = 210, ref_inode_list =
           [\<lparr>block_no = 206, dup_count = 1, reftypecount = (\<lambda>_. 0), dup_parent = 0, dup_name = None\<rparr>], ref_invinode_list =
           [\<lparr>block_no = 205, dup_count = 1, reftypecount = (\<lambda>_. 0), dup_parent = 0, dup_name = None\<rparr>]\<rparr>
         (Node Leaf \<lparr>REF1_FOUND = False, REF1_IS_DUPL = False, refs = 1, dup_block = 220, ref_inode_list =
           [\<lparr>block_no = 205, dup_count = 1, reftypecount = (\<lambda>_. 0), dup_parent = 0, dup_name = None\<rparr>], ref_invinode_list = []\<rparr> Leaf)\<rparr>"

theorem delete_all_dups_exact_witness:
  "map_option refs (dupfind (delete_all_dups 205 dups_example) 210) = Some 1 \<and> dupfind (delete_all_dups 205 dups_example) 220 = None"
proof -
  have t: "tree_ok dup_block (dup_blocks dups_example)" by (simp add: dups_example_def tree_ok_def)
  show ?thesis
    using delete_all_dups_exact [OF t, of 205 210] delete_all_dups_exact [OF t, of 205 220]
    by (simp add: dups_example_def dupfind_def dup_left_def refs_of_def without_refs_def)
qed

end
