(* ===== verification/FsckWalk.thy ===== *)
theory FsckWalk
  imports FsckDups Meta
begin

text \<open>
  The walk over the metadata of an inode (metawalk.c): its indirect blocks, its data pointers, the leaves and entries
  of a directory, its extended attributes. What is done on the way is given by a record of functions, \<open>metawalk_fxns\<close>, which
  each pass of fsck fills in.

  A walk goes on in a record \<open>walk\<close>: the state of fsck, the inode with its buffer, what the functions
  use as their \<open>private\<close> data, and the group that the inode remembers. The functions get the buffer they look
  into and give it back. The inode's own buffer is \<open>Own\<close>. None is the result where a buffer is read past its end or
  a null pointer is followed, where the program waits for a key that never comes, and where a loop does not end. Advice on
  reading ahead and the progress of large files are output only.
\<close>

section \<open>Loops\<close>

text \<open>A loop over a list whose body may leave it with a result.\<close>

primrec for_each :: "('x \<Rightarrow> 's \<Rightarrow> ('r option \<times> 's) option) \<Rightarrow> 'x list \<Rightarrow> 's \<Rightarrow> ('r option \<times> 's) option" where
  "for_each f [] s = Some (None, s)"
| "for_each f (x # xs) s =
     (case f x s of None \<Rightarrow> None
      | Some (r, s) \<Rightarrow> if r = None then for_each f xs s else Some (r, s))"

text \<open>A loop that goes on until its body leaves it. When it goes on for ever its value is None.\<close>

partial_function (option) iterate :: "('s \<Rightarrow> ('r + 's) option) \<Rightarrow> 's \<Rightarrow> 'r option" where
  "iterate f s = (case f s of None \<Rightarrow> None | Some (Inl r) \<Rightarrow> Some r | Some (Inr s) \<Rightarrow> iterate f s)"

declare iterate.simps [code, simp del]

lemma for_each_append:
  "for_each f (xs @ ys) s =
     (case for_each f xs s of None \<Rightarrow> None | Some (r, s) \<Rightarrow> if r = None then for_each f ys s else Some (r, s))"
  by (induction xs arbitrary: s) (auto split: option.split)

lemma for_each_inv:
  assumes "for_each f xs s = Some (r, s')" "I s"
    and "\<And>x s r s'. x \<in> set xs \<Longrightarrow> I s \<Longrightarrow> f x s = Some (r, s') \<Longrightarrow> I s'"
  shows "I s'"
  using assms
proof (induction xs arbitrary: s)
  case (Cons x xs)
  obtain r1 s1 where f: "f x s = Some (r1, s1)" using Cons.prems(1) by (auto split: option.splits)
  have s1: "I s1" using Cons.prems(3) [OF _ Cons.prems(2) f] by simp
  show ?case
  proof (cases r1)
    case None
    then show ?thesis using Cons.IH [of s1] Cons.prems(1,3) f s1 by auto
  next
    case (Some y)
    then show ?thesis using Cons.prems(1) f s1 by auto
  qed
qed simp

lemma iterate_inv:
  assumes "iterate f s = Some r" "I s"
    and step: "\<And>s s'. I s \<Longrightarrow> f s = Some (Inr s') \<Longrightarrow> I s'" and stop: "\<And>s r. I s \<Longrightarrow> f s = Some (Inl r) \<Longrightarrow> P r"
  shows "P r"
proof -
  have "(f = g \<longrightarrow> I s \<longrightarrow> P r)" if "iterate g s = Some r" for g
    by (rule iterate.raw_induct [OF _ that]) (auto split: option.splits sum.splits dest: step stop)
  then show ?thesis using assms(1,2) by blast
qed

lemma iterate_ends:
  assumes "I s" and "\<And>s. I s \<Longrightarrow> \<exists>r. f s = Some r \<and> (\<forall>s'. r = Inr s' \<longrightarrow> I s' \<and> m s' < (m s :: nat))"
  shows "\<exists>r. iterate f s = Some r"
  using assms(1)
proof (induction "m s" arbitrary: s rule: less_induct)
  case less
  then obtain r where r: "f s = Some r" "\<forall>s'. r = Inr s' \<longrightarrow> I s' \<and> m s' < m s" using assms(2) by blast
  then show ?case using less.hyps by (cases r) (auto simp: iterate.simps [of f s])
qed

lemma iterate_loops:
  assumes "I s" and "\<And>s. I s \<Longrightarrow> \<exists>s'. f s = Some (Inr s') \<and> I s'"
  shows "iterate f s = None"
proof (rule ccontr)
  assume "iterate f s \<noteq> None"
  then obtain r where "iterate f s = Some r" by auto
  then have "False" using assms(1)
    by (rule iterate_inv [where P = "\<lambda>_. False"]) (use assms(2) in \<open>fastforce+\<close>)
  then show False .
qed

section \<open>The functions of a pass\<close>

record 'p walk =
  wst :: fsck
  wip :: vinode
  wpriv :: 'p
  wrgd :: "u64 option"

text \<open>What \<open>check_metalist\<close> gives back besides its result: \<open>*bh\<close>, \<open>*is_valid\<close> and \<open>*was_duplicate\<close>.\<close>

record checked_meta =
  cm_bh :: "gfs2_buffer_head option"
  cm_valid :: bool
  cm_dup :: bool

text \<open>
  A pointer is given by the buffer it is in and its offset. A directory entry or the header of an attribute is given by
  its offset in the buffer. \<open>check_hash_tbl\<close> gets and gives back the copy of the hash table.
\<close>

record 'p metawalk_fxns =
  invalid_meta_is_fatal :: bool
  check_leaf_depth_fn :: "(u64 \<Rightarrow> int \<Rightarrow> gfs2_buffer_head \<Rightarrow> 'p walk \<Rightarrow> (int \<times> gfs2_buffer_head \<times> 'p walk) option) option"
  check_leaf_fn :: "(u64 \<Rightarrow> 'p walk \<Rightarrow> (int \<times> 'p walk) option) option"
  check_metalist_fn :: "(holder \<Rightarrow> nat \<Rightarrow> nat \<Rightarrow> 'p walk \<Rightarrow> (int \<times> checked_meta \<times> holder \<times> 'p walk) option) option"
  check_data_fn :: "(u64 \<Rightarrow> u64 \<Rightarrow> holder \<Rightarrow> nat \<Rightarrow> 'p walk \<Rightarrow> (int \<times> holder \<times> 'p walk) option) option"
  check_eattr_indir_fn :: "(u64 \<Rightarrow> u64 \<Rightarrow> 'p walk \<Rightarrow> (int \<times> gfs2_buffer_head option \<times> 'p walk) option) option"
  check_eattr_leaf_fn :: "(u64 \<Rightarrow> u64 \<Rightarrow> 'p walk \<Rightarrow> (int \<times> gfs2_buffer_head option \<times> 'p walk) option) option"
  check_dentry_fn ::
    "(nat \<Rightarrow> nat option \<Rightarrow> holder \<Rightarrow> u32 \<Rightarrow> int \<Rightarrow> 'p walk \<Rightarrow> (int \<times> holder \<times> u32 \<times> int \<times> 'p walk) option) option"
  check_eattr_entry_fn :: "(gfs2_buffer_head \<Rightarrow> nat \<Rightarrow> nat option \<Rightarrow> 'p walk \<Rightarrow> (int \<times> gfs2_buffer_head \<times> 'p walk) option) option"
  check_eattr_extentry_fn ::
    "(nat \<Rightarrow> nat \<Rightarrow> gfs2_buffer_head \<Rightarrow> u32 \<Rightarrow> nat \<Rightarrow> nat option \<Rightarrow> 'p walk \<Rightarrow> (int \<times> gfs2_buffer_head \<times> 'p walk) option) option"
  finish_eattr_indir_fn :: "(nat \<Rightarrow> nat \<Rightarrow> 'p walk \<Rightarrow> (int \<times> 'p walk) option) option"
  check_hash_tbl_fn :: "(u64 list \<Rightarrow> 'p walk \<Rightarrow> (int \<times> u64 list \<times> 'p walk) option) option"
  repair_leaf_fn :: "(u64 \<Rightarrow> nat \<Rightarrow> int \<Rightarrow> 'p walk \<Rightarrow> (int \<times> u64 \<times> 'p walk) option) option"
  undo_check_meta_fn :: "(u64 \<Rightarrow> nat \<Rightarrow> 'p walk \<Rightarrow> (int \<times> 'p walk) option) option"
  undo_check_data_fn :: "(u64 \<Rightarrow> 'p walk \<Rightarrow> (int \<times> 'p walk) option) option"
  delete_block_fn :: "(u64 \<Rightarrow> 'p walk \<Rightarrow> (int \<times> 'p walk) option) option"

text \<open>A record in which every function is null.\<close>

definition no_fxns :: "'p metawalk_fxns" where
  "no_fxns = \<lparr>invalid_meta_is_fatal = False, check_leaf_depth_fn = None, check_leaf_fn = None, check_metalist_fn = None,
     check_data_fn = None, check_eattr_indir_fn = None, check_eattr_leaf_fn = None, check_dentry_fn = None,
     check_eattr_entry_fn = None, check_eattr_extentry_fn = None, finish_eattr_indir_fn = None, check_hash_tbl_fn = None,
     repair_leaf_fn = None, undo_check_meta_fn = None, undo_check_data_fn = None, delete_block_fn = None\<rparr>"

abbreviation wfs :: "'p walk \<Rightarrow> fs" where "wfs w \<equiv> fk_fs (wst w)"
abbreviation wsdp :: "'p walk \<Rightarrow> gfs2_sbd" where "wsdp w \<equiv> fs_sdp (fk_fs (wst w))"
abbreviation wbsize :: "'p walk \<Rightarrow> nat" where "wbsize w \<equiv> unat (sd_bsize (fs_sdp (fk_fs (wst w))))"
abbreviation waddr :: "'p walk \<Rightarrow> u64" where "waddr w \<equiv> in_addr (i_num (vi (wip w)))"

definition on_state :: "(fsck \<Rightarrow> ('a \<times> fsck) option) \<Rightarrow> 'p walk \<Rightarrow> ('a \<times> 'p walk) option" where
  "on_state f w = map_option (\<lambda>(x, st). (x, w\<lparr>wst := st\<rparr>)) (f (wst w))"

abbreviation wquery :: "'p walk \<Rightarrow> (bool \<times> 'p walk) option" where "wquery \<equiv> on_state fsck_query"

definition wdata :: "holder \<Rightarrow> 'p walk \<Rightarrow> bytes" where
  "wdata h w = b_data (held (wip w) h)"

text \<open>Bytes of a buffer are changed and the buffer is marked as modified.\<close>

definition wput :: "(bytes \<Rightarrow> bytes) \<Rightarrow> holder \<Rightarrow> 'p walk \<Rightarrow> holder \<times> 'p walk" where
  "wput f h w = (let (ip, h) = on_held (\<lambda>bh. bmodified (bh\<lparr>b_data := f (b_data bh)\<rparr>)) (wip w) h in (h, w\<lparr>wip := ip\<rparr>))"

definition wrelse :: "gfs2_buffer_head \<Rightarrow> 'p walk \<Rightarrow> 'p walk" where
  "wrelse bh w = w\<lparr>wst := (wst w)\<lparr>fk_fs := fs_brelse bh (fk_fs (wst w))\<rparr>\<rparr>"

definition wbread :: "'p walk \<Rightarrow> u64 \<Rightarrow> gfs2_buffer_head option" where
  "wbread w block = bread (fs_disk (wfs w)) block"

text \<open>The program was asked to leave the pass, or to stop.\<close>

definition leaving :: "'p walk \<Rightarrow> bool" where
  "leaving w \<longleftrightarrow> skip_this_pass (wst w) \<or> fsck_abort (wst w)"

section \<open>Directory entries\<close>

abbreviation (input) DIR_LINEAR :: nat where "DIR_LINEAR \<equiv> 1"
abbreviation (input) DIR_EXHASH :: nat where "DIR_EXHASH \<equiv> 2"
abbreviation (input) NAME_MAX :: nat where "NAME_MAX \<equiv> 255"

definition dirent_zero :: lgfs2_dirent where
  "dirent_zero = \<lparr>dr_inum = \<lparr>in_formal_ino = 0, in_addr = 0\<rparr>, dr_hash = 0, dr_rec_len = 0, dr_name_len = 0, dr_type = 0, dr_rahead = 0\<rparr>"

definition isprint :: "u8 \<Rightarrow> bool" where
  "isprint c \<longleftrightarrow> 32 \<le> c \<and> c \<le> 126"

text \<open>A new length for an entry whose length is wrong; None where no name can be made out.\<close>

definition dirent_repair :: "nat \<Rightarrow> lgfs2_dirent \<Rightarrow> nat \<Rightarrow> nat \<Rightarrow> bool \<Rightarrow> bytes \<Rightarrow> (lgfs2_dirent \<times> bytes) option" where
  "dirent_repair bsize d dent type first data =
     (if first \<and> in_formal_ino (dr_inum d) = 0 then
        let d = d\<lparr>dr_rec_len := of_nat (bsize - (if type = DIR_LINEAR then sizeof struct_gfs2_dinode else sizeof struct_gfs2_leaf))\<rparr>
        in Some (d, lgfs2_dirent_out d data dent)
      else
        let p = dent + sizeof struct_gfs2_dirent;
            calc_de_name_len = length (takeWhile isprint (slice p (bsize - p) data))
        in if calc_de_name_len = 0 then None
           else
             let d = (if dr_name_len d = 0 \<or> NAME_MAX < unat (dr_name_len d) \<or> calc_de_name_len < unat (dr_name_len d)
                      then d\<lparr>dr_name_len := of_nat calc_de_name_len\<rparr> else d);
                 d = d\<lparr>dr_rec_len := of_nat (GFS2_DIRENT_SIZE (unat (dr_name_len d)))\<rparr>
             in Some (d, lgfs2_dirent_out d data dent))"

text \<open>The entry takes the rest of the block.\<close>

definition dirblk_truncate :: "nat \<Rightarrow> nat \<Rightarrow> bytes \<Rightarrow> bytes" where
  "dirblk_truncate bsize fixb data =
     (let d = (lgfs2_dirent_in dirent_zero data fixb)\<lparr>dr_rec_len := of_nat (bsize - fixb)\<rparr> in lgfs2_dirent_out d data fixb)"

definition truncate_at :: "nat option \<Rightarrow> holder \<Rightarrow> 'p walk \<Rightarrow> (holder \<times> 'p walk) option" where
  "truncate_at fixb bh w = map_option (\<lambda>fixb. wput (dirblk_truncate (wbsize w) fixb) bh w) fixb"

text \<open>Where the walk over a block's entries is: \<open>dent\<close>, \<open>prev\<close>, \<open>first\<close>, \<open>*count\<close>, \<open>lindex\<close>, the buffer.\<close>

record 'p entry_walk =
  ew_dent :: nat
  ew_prev :: "nat option"
  ew_first :: bool
  ew_count :: u32
  ew_lindex :: int
  ew_bh :: holder
  ew_walk :: "'p walk"

text \<open>The length of the entry is checked first. The result is the entry as it is in memory, or None where the walk ends.\<close>

definition check_rec_len :: "nat \<Rightarrow> 'p entry_walk \<Rightarrow> (lgfs2_dirent option \<times> 'p entry_walk) option" where
  "check_rec_len type e =
     (let w = ew_walk e; data = wdata (ew_bh e) w; d = lgfs2_dirent_in dirent_zero data (ew_dent e) in
      if unat (dr_rec_len d) < sizeof struct_gfs2_dirent + unat (dr_name_len d) \<or>
         in_formal_ino (dr_inum d) \<noteq> 0 \<and> dr_name_len d = 0 \<and> \<not> ew_first e
      then do {
        (ok, w) \<leftarrow> wquery w;
        if \<not> ok then Some (None, e\<lparr>ew_walk := w\<rparr>)
        else (case dirent_repair (wbsize w) d (ew_dent e) type (ew_first e) data of
          None \<Rightarrow> do {
            (bh, w) \<leftarrow> truncate_at (if ew_first e then Some (ew_dent e) else ew_prev e) (ew_bh e) w;
            Some (None, e\<lparr>ew_bh := bh, ew_walk := w\<rparr>)
          }
        | Some (d, data) \<Rightarrow>
            let (bh, w) = wput (\<lambda>_. data) (ew_bh e) w in Some (Some d, e\<lparr>ew_bh := bh, ew_walk := w\<rparr>))
      }
      else Some (Some d, e))"

text \<open>The entry is a place holder, is removed, or is given to the pass. The result has \<open>error\<close>, or None where the walk ends.\<close>

definition check_inum :: "'p metawalk_fxns \<Rightarrow> lgfs2_dirent \<Rightarrow> 'p entry_walk \<Rightarrow> (int option \<times> 'p entry_walk) option" where
  "check_inum pass d e =
     (if in_formal_ino (dr_inum d) = 0 then
        if ew_first e then Some (Some 0, e\<lparr>ew_first := False\<rparr>)
        else do {
          (ok, w) \<leftarrow> wquery (ew_walk e);
          (bh, w) \<leftarrow> (if ok then truncate_at (ew_prev e) (ew_bh e) w else Some (ew_bh e, w));
          Some (None, e\<lparr>ew_bh := bh, ew_walk := w\<rparr>)
        }
      else if in_addr (dr_inum d) = 0 \<and> ew_first e then
        let d = d\<lparr>dr_inum := \<lparr>in_formal_ino = 0, in_addr = in_formal_ino (dr_inum d)\<rparr>\<rparr>;
            (bh, w) = wput (\<lambda>data. lgfs2_dirent_out d data (ew_dent e)) (ew_bh e) (ew_walk e)
        in Some (Some 0, e\<lparr>ew_first := False, ew_bh := bh, ew_walk := w\<rparr>)
      else do {
        check_dentry \<leftarrow> check_dentry_fn pass;
        (error, bh, count, lindex, w) \<leftarrow> check_dentry (ew_dent e) (ew_prev e) (ew_bh e) (ew_count e) (ew_lindex e) (ew_walk e);
        Some (Some error, e\<lparr>ew_bh := bh, ew_count := count, ew_lindex := lindex, ew_walk := w\<rparr>)
      })"

definition check_entry :: "'p metawalk_fxns \<Rightarrow> nat \<Rightarrow> 'p entry_walk \<Rightarrow> ((int \<times> 'p entry_walk) + 'p entry_walk) option" where
  "check_entry pass type e =
     (let bsize = wbsize (ew_walk e) in
      if leaving (ew_walk e) then Some (Inl (0, e))
      else if bsize < ew_dent e + sizeof struct_gfs2_dirent then None
      else do {
        (d, e) \<leftarrow> check_rec_len type e;
        case d of None \<Rightarrow> Some (Inl (0, e))
        | Some d \<Rightarrow> do {
            (error, e) \<leftarrow> check_inum pass d e;
            case error of None \<Rightarrow> Some (Inl (0, e))
            | Some error \<Rightarrow>
                if error < 0 then Some (Inl (error, e))
                else if bsize \<le> ew_dent e + unat (dr_rec_len d) then Some (Inl (0, e))
                else Some (Inr (e\<lparr>ew_prev := (if error = 0 \<or> ew_first e then Some (ew_dent e) else ew_prev e),
                       ew_first := False, ew_dent := ew_dent e + unat (dr_rec_len d)\<rparr>))
          }
      })"

definition check_entries ::
  "'p metawalk_fxns \<Rightarrow> holder \<Rightarrow> nat \<Rightarrow> u32 \<Rightarrow> int \<Rightarrow> 'p walk \<Rightarrow> (int \<times> holder \<times> u32 \<times> 'p walk) option" where
  "check_entries pass bh type count lindex w =
     (if check_dentry_fn pass = None then Some (0, bh, count, w)
      else do {
        (error, e) \<leftarrow> iterate (check_entry pass type)
          \<lparr>ew_dent = (if type = DIR_LINEAR then sizeof struct_gfs2_dinode else sizeof struct_gfs2_leaf), ew_prev = None, ew_first = True,
           ew_count = count, ew_lindex = lindex, ew_bh = bh, ew_walk = w\<rparr>;
        Some (error, ew_bh e, ew_count e, ew_walk e)
      })"

definition check_linear_dir :: "'p metawalk_fxns \<Rightarrow> holder \<Rightarrow> 'p walk \<Rightarrow> (int \<times> holder \<times> 'p walk) option" where
  "check_linear_dir pass bh w = do {
     (error, bh, _, w) \<leftarrow> check_entries pass bh DIR_LINEAR 0 0 w;
     Some (if error < 0 then -1 else error, bh, w)
   }"

section \<open>Leaves\<close>

abbreviation (input) E_EXIST :: int where "E_EXIST \<equiv> 17"
abbreviation (input) GFS2_FORMAT_DE :: u32 where "GFS2_FORMAT_DE \<equiv> 1200"

definition leaf_zero :: lgfs2_leaf where
  "leaf_zero = \<lparr>lf_depth = 0, lf_entries = 0, lf_dirent_format = 0, lf_next = 0, lf_inode = 0, lf_dist = 0, lf_nsec = 0, lf_sec = 0\<rparr>"

text \<open>\<open>_fsck_bitmap_set\<close>.\<close>

definition fsck_bitmap_set :: "u64 \<Rightarrow> nat \<Rightarrow> bool \<Rightarrow> 'p walk \<Rightarrow> (int \<times> 'p walk) option" where
  "fsck_bitmap_set bblock mark error_on_dinode w = on_state (check_n_fix_bitmap (wrgd w) bblock error_on_dinode mark) w"

text \<open>When the depth of the directory has grown, a leaf has more pointers.\<close>

definition more_refs :: "nat \<Rightarrow> int \<Rightarrow> 'p walk \<Rightarrow> int" where
  "more_refs di_depth ref_count w =
     (let depth = unat (i_depth (vi (wip w))) in if di_depth < depth then push_bit (depth - di_depth) ref_count else ref_count)"

definition bad_leaf :: "'p metawalk_fxns \<Rightarrow> nat \<Rightarrow> nat \<Rightarrow> u64 \<Rightarrow> int \<Rightarrow> 'p walk \<Rightarrow> (int \<times> u64 \<times> int \<times> 'p walk) option" where
  "bad_leaf pass di_depth lindex leaf_no ref_count w = do {
     (fix_it, leaf_no, w) \<leftarrow> (case repair_leaf_fn pass of None \<Rightarrow> Some (0, leaf_no, w) | Some f \<Rightarrow> f leaf_no lindex ref_count w);
     Some (if fix_it < 0 then (fix_it, leaf_no, ref_count, w) else (1, leaf_no, more_refs di_depth ref_count w, w))
   }"

definition leaf_out :: "nat \<Rightarrow> int \<Rightarrow> int \<Rightarrow> gfs2_buffer_head \<Rightarrow> 'p walk \<Rightarrow> int \<times> int \<times> 'p walk" where
  "leaf_out di_depth error ref_count lbh w = (if error < 0 then error else 0, more_refs di_depth ref_count w, wrelse lbh w)"

text \<open>The pass looks at the entries of a leaf, and the number of entries that it found is compared with the one in the header.\<close>

definition check_leaf_entries ::
  "'p metawalk_fxns \<Rightarrow> nat \<Rightarrow> u64 \<Rightarrow> lgfs2_leaf \<Rightarrow> gfs2_buffer_head \<Rightarrow> 'p walk \<Rightarrow> (int \<times> lgfs2_leaf \<times> gfs2_buffer_head \<times> 'p walk) option" where
  "check_leaf_entries pass lindex leaf_no leaf lbh w = do {
     (error, h, count, w) \<leftarrow> check_entries pass (Other lbh) DIR_EXHASH 0 (int lindex) w;
     let lbh = held (wip w) h;
     if leaving w \<or> error < 0 \<or> count = ucast (lf_entries leaf) then Some (error, leaf, lbh, w)
     else do {
       let w = wrelse lbh w;
       lbh \<leftarrow> wbread w leaf_no;
       let leaf = lgfs2_leaf_in leaf (b_data lbh);
       if count = ucast (lf_entries leaf) then Some (error, leaf, lbh, w)
       else do {
         (ok, w) \<leftarrow> wquery w;
         if ok then let leaf = leaf\<lparr>lf_entries := ucast count\<rparr>
                    in Some (error, leaf, bmodified (lbh\<lparr>b_data := lgfs2_leaf_out leaf (b_data lbh)\<rparr>), w)
         else Some (error, leaf, lbh, w)
       }
     }
   }"

text \<open>The results are those of the call, \<open>*leaf_no\<close>, \<open>*leaf\<close> and \<open>*ref_count\<close>.\<close>

definition check_leaf ::
  "'p metawalk_fxns \<Rightarrow> nat \<Rightarrow> u64 \<Rightarrow> int \<Rightarrow> 'p walk \<Rightarrow> (int \<times> u64 \<times> lgfs2_leaf \<times> int \<times> 'p walk) option" where
  "check_leaf pass lindex leaf_no ref_count w =
     (let di_depth = unat (i_depth (vi (wip w)));
          bad = (\<lambda>w. map_option (\<lambda>(r, leaf_no, ref_count, w). (r, leaf_no, leaf_zero, ref_count, w))
                       (bad_leaf pass di_depth lindex leaf_no ref_count w))
      in if \<not> valid_block_ip (wfs w) leaf_no then bad w
         else do {
           lbh \<leftarrow> wbread w leaf_no;
           if gfs2_check_meta (b_data lbh) GFS2_METATYPE_LF \<noteq> 0 then bad (wrelse lbh w)
           else do {
             (error, lbh, w) \<leftarrow> (case check_leaf_depth_fn pass of None \<Rightarrow> Some (0, lbh, w) | Some f \<Rightarrow> f leaf_no ref_count lbh w);
             (error, w) \<leftarrow> (case check_leaf_fn pass of None \<Rightarrow> Some (error, w)
                            | Some f \<Rightarrow> if 0 \<le> error then f leaf_no w else Some (error, w));
             if check_leaf_fn pass \<noteq> None \<and> error = - E_EXIST then Some (error, leaf_no, leaf_zero, ref_count, wrelse lbh w)
             else do {
               let leaf = lgfs2_leaf_in leaf_zero (b_data lbh);
               let (leaf, lbh) =
                 (if lf_dirent_format leaf = push_bit 16 GFS2_FORMAT_DE
                  then let leaf = leaf\<lparr>lf_dirent_format := GFS2_FORMAT_DE\<rparr>
                       in (leaf, bmodified (lbh\<lparr>b_data := lgfs2_leaf_out leaf (b_data lbh)\<rparr>))
                  else (leaf, lbh));
               if get_be32 (b_data lbh) (offsetof struct_gfs2_meta_header ''mh_type'') \<noteq> GFS2_METATYPE_LF
               then bad (wrelse lbh w)
               else do {
                 (error, leaf, lbh, w) \<leftarrow>
                   (if check_dentry_fn pass \<noteq> None \<and> is_dir (wip w) (sd_gfs1 (wsdp w)) then check_leaf_entries pass lindex leaf_no leaf lbh w
                    else Some (error, leaf, lbh, w));
                 let (r, ref_count, w) = leaf_out di_depth error ref_count lbh w;
                 Some (r, leaf_no, leaf, ref_count, w)
               }
             }
           }
         })"

section \<open>The hash table of a directory\<close>

definition be64_list :: "bytes \<Rightarrow> u64 list" where
  "be64_list b = map (\<lambda>i. get_be64 b (8 * i)) [0..<length b div 8]"

text \<open>\<open>get_dir_hash\<close> of util.c: the first result is None for its NULL.\<close>

definition get_dir_hash :: "'p walk \<Rightarrow> (u64 list option \<times> 'p walk) option" where
  "get_dir_hash w = do {
     let hsize = 2 ^ unat (i_depth (vi (wip w))) * 8;
     (tbl, fs, ip) \<leftarrow> gfs2_readi (wfs w) (wip w) 0 (of_nat hsize);
     Some (if length tbl = hsize then Some (be64_list tbl) else None, w\<lparr>wst := (wst w)\<lparr>fk_fs := fs\<rparr>, wip := ip\<rparr>)
   }"

definition tbl_at :: "u64 list \<Rightarrow> nat \<Rightarrow> u64 option" where
  "tbl_at tbl i = (if i < length tbl then Some (tbl ! i) else None)"

text \<open>Whether a pointer is to a leaf that can be read.\<close>

definition ok_leaf_step :: "u64 list \<Rightarrow> nat \<Rightarrow> 'p walk \<Rightarrow> (u64 option \<times> 'p walk) option" where
  "ok_leaf_step tbl lindex w = do {
     leaf_no \<leftarrow> tbl_at tbl lindex;
     if valid_block_ip (wfs w) leaf_no then do {
       lbh \<leftarrow> wbread w leaf_no;
       Some (if gfs2_check_meta (b_data lbh) GFS2_METATYPE_LF = 0 then Some leaf_no else None, wrelse lbh w)
     }
     else Some (None, w)
   }"

text \<open>The pointers after \<open>lindex\<close> that are to the same leaf.\<close>

fun count_refs :: "u64 list \<Rightarrow> u64 \<Rightarrow> nat list \<Rightarrow> nat option" where
  "count_refs tbl leaf_no [] = Some 0"
| "count_refs tbl leaf_no (l # ls) =
     (case tbl_at tbl l of None \<Rightarrow> None
      | Some next_no \<Rightarrow> if next_no \<noteq> leaf_no then Some 0 else map_option Suc (count_refs tbl leaf_no ls))"

text \<open>
  The leaves of a chain, from the first. The loop is left with None where the user stops the program, with \<open>Inl\<close> the error, or
  with \<open>Inr\<close> at the end of the chain.
\<close>

definition check_chain_leaf ::
  "'p metawalk_fxns \<Rightarrow> nat \<Rightarrow> u64 \<times> int \<times> 'p walk \<Rightarrow> (((int + unit) option \<times> int \<times> 'p walk) + (u64 \<times> int \<times> 'p walk)) option" where
  "check_chain_leaf pass lindex = (\<lambda>(leaf_no, ref_count, w).
     if fsck_abort (wst w) then Some (Inl (None, ref_count, w))
     else do {
       (error, leaf_no, leaf, ref_count, w) \<leftarrow> check_leaf pass lindex leaf_no ref_count w;
       Some (if error < 0 then Inl (Some (Inl error), ref_count, w)
             else if lf_next leaf = 0 \<or> error \<noteq> 0 then Inl (Some (Inr ()), ref_count, w)
             else Inr (lf_next leaf, ref_count, w))
     })"

record 'p leaf_walk =
  lw_lindex :: nat
  lw_hsize :: nat
  lw_tbl :: "u64 list"
  lw_valid :: bool
  lw_depth :: u16
  lw_height :: u16
  lw_blocks :: u64
  lw_walk :: "'p walk"

text \<open>When the table in memory is no longer valid it is read again; \<open>Inl\<close> where that fails.\<close>

definition reread_tbl :: "'p leaf_walk \<Rightarrow> (int + 'p leaf_walk) option" where
  "reread_tbl e =
     (if lw_valid e then Some (Inr e)
      else do {
        (tbl, w) \<leftarrow> get_dir_hash (lw_walk e);
        Some (case tbl of None \<Rightarrow> Inl (-1)
              | Some tbl \<Rightarrow> Inr (e\<lparr>lw_tbl := tbl, lw_valid := True, lw_depth := i_depth (vi (wip w)),
                  lw_height := i_height (vi (wip w)), lw_blocks := i_blocks (vi (wip w)), lw_walk := w\<rparr>))
      })"

text \<open>After a chain: the table is not valid when the inode was changed, and the index moves on to the next leaf.\<close>

definition next_leaf :: "int \<Rightarrow> bool \<Rightarrow> 'p walk \<Rightarrow> 'p leaf_walk \<Rightarrow> 'p leaf_walk" where
  "next_leaf ref_count tbl_valid w e =
     (let ip = vi (wip w); grown = (lw_depth e \<noteq> i_depth ip) in
      e\<lparr>lw_valid := tbl_valid \<and> \<not> grown \<and> lw_height e = i_height ip \<and> lw_blocks e = i_blocks ip,
        lw_lindex := (if grown then push_bit (unat (i_depth ip) - unat (lw_depth e)) (lw_lindex e) else lw_lindex e) + nat ref_count,
        lw_hsize := (if grown then 2 ^ unat (i_depth ip) else lw_hsize e), lw_walk := w\<rparr>)"

definition check_one_leaf :: "'p metawalk_fxns \<Rightarrow> 'p leaf_walk \<Rightarrow> ((int \<times> 'p walk) + 'p leaf_walk) option" where
  "check_one_leaf pass e =
     (if \<not> lw_lindex e < lw_hsize e \<or> fsck_abort (wst (lw_walk e)) then Some (Inl (0, lw_walk e))
      else do {
        r \<leftarrow> reread_tbl e;
        case r of Inl error \<Rightarrow> Some (Inl (error, lw_walk e))
        | Inr e \<Rightarrow> do {
            leaf_no \<leftarrow> tbl_at (lw_tbl e) (lw_lindex e);
            more \<leftarrow> count_refs (lw_tbl e) leaf_no [lw_lindex e + 1..<lw_hsize e];
            (r, ref_count, w) \<leftarrow> iterate (check_chain_leaf pass (lw_lindex e)) (leaf_no, 1 + int more, lw_walk e);
            case r of None \<Rightarrow> Some (Inl (0, w))
            | Some (Inl error) \<Rightarrow> Some (Inl (error, w))
            | Some (Inr _) \<Rightarrow>
                if i_depth (vi (wip w)) < lw_depth e then None
                else Some (Inr (next_leaf ref_count (lw_valid e \<and> ref_count = 1 + int more) w e))
          }
      })"

definition check_leaf_blks :: "'p metawalk_fxns \<Rightarrow> 'p walk \<Rightarrow> (int \<times> 'p walk) option" where
  "check_leaf_blks pass w = do {
     let hsize = 2 ^ unat (i_depth (vi (wip w)));
     (tbl, w) \<leftarrow> get_dir_hash w;
     let (depth, hgt, blocks) = (i_depth (vi (wip w)), i_height (vi (wip w)), i_blocks (vi (wip w)));
     case tbl of None \<Rightarrow> Some (-1, w)
     | Some tbl \<Rightarrow> do {
         (error, tbl, w) \<leftarrow> (case check_hash_tbl_fn pass of None \<Rightarrow> Some (0, tbl, w) | Some f \<Rightarrow> f tbl w);
         if error < 0 then Some (error, w)
         else do {
           (tbl, w) \<leftarrow> (if error \<noteq> 0 then get_dir_hash w else Some (Some tbl, w));
           case tbl of None \<Rightarrow> Some (-1, w)
           | Some tbl \<Rightarrow> do {
               (first_ok_leaf, w) \<leftarrow> for_each (ok_leaf_step tbl) [0..<hsize] w;
               if first_ok_leaf = None \<or> first_ok_leaf = Some (-1) then Some (1, w)
               else iterate (check_one_leaf pass) \<lparr>lw_lindex = 0, lw_hsize = hsize, lw_tbl = tbl, lw_valid = True,
                      lw_depth = depth, lw_height = hgt, lw_blocks = blocks, lw_walk = w\<rparr>
             }
         }
       }
   }"

definition check_dir :: "'p metawalk_fxns \<Rightarrow> 'p walk \<Rightarrow> (int \<times> 'p walk) option" where
  "check_dir pass w =
     (if i_flags (vi (wip w)) AND GFS2_DIF_EXHASH \<noteq> 0 then check_leaf_blks pass w
      else map_option (\<lambda>(error, _, w). (error, w)) (check_linear_dir pass Own w))"

section \<open>Extended attributes\<close>

abbreviation (input) GFS2_EATYPE_UNUSED :: u8 where "GFS2_EATYPE_UNUSED \<equiv> 0"
abbreviation (input) GFS2_EAFLAG_LAST :: u8 where "GFS2_EAFLAG_LAST \<equiv> 1"

definition ea_rec_len :: "bytes \<Rightarrow> nat \<Rightarrow> u32" where
  "ea_rec_len b hdr = get_be32 b (hdr + offsetof struct_gfs2_ea_header ''ea_rec_len'')"
definition ea_data_len :: "bytes \<Rightarrow> nat \<Rightarrow> u32" where
  "ea_data_len b hdr = get_be32 b (hdr + offsetof struct_gfs2_ea_header ''ea_data_len'')"
definition ea_name_len :: "bytes \<Rightarrow> nat \<Rightarrow> u8" where
  "ea_name_len b hdr = b ! (hdr + offsetof struct_gfs2_ea_header ''ea_name_len'')"
definition ea_type :: "bytes \<Rightarrow> nat \<Rightarrow> u8" where
  "ea_type b hdr = b ! (hdr + offsetof struct_gfs2_ea_header ''ea_type'')"
definition ea_flags :: "bytes \<Rightarrow> nat \<Rightarrow> u8" where
  "ea_flags b hdr = b ! (hdr + offsetof struct_gfs2_ea_header ''ea_flags'')"
definition ea_num_ptrs :: "bytes \<Rightarrow> nat \<Rightarrow> u8" where
  "ea_num_ptrs b hdr = b ! (hdr + offsetof struct_gfs2_ea_header ''ea_num_ptrs'')"

text \<open>Where the pointers of an attribute begin: after its name.\<close>

definition ea_ptrs :: "bytes \<Rightarrow> nat \<Rightarrow> nat" where
  "ea_ptrs b hdr = hdr + sizeof struct_gfs2_ea_header + (unat (ea_name_len b hdr) + 7) div 8 * 8"

text \<open>
  The blocks that one attribute points to. The number of pointers is read again each time, since the pass may change it; it is a
  byte.
\<close>

definition extentry_step ::
  "(nat \<Rightarrow> nat \<Rightarrow> gfs2_buffer_head \<Rightarrow> u32 \<Rightarrow> nat \<Rightarrow> nat option \<Rightarrow> 'p walk \<Rightarrow> (int \<times> gfs2_buffer_head \<times> 'p walk) option) \<Rightarrow>
     nat \<Rightarrow> nat option \<Rightarrow> nat \<Rightarrow> nat \<Rightarrow> int \<times> u32 \<times> gfs2_buffer_head \<times> 'p walk \<Rightarrow>
     (unit option \<times> int \<times> u32 \<times> gfs2_buffer_head \<times> 'p walk) option" where
  "extentry_step f hdr prev ptrs i = (\<lambda>(error, tot_ealen, bh, w).
     if \<not> i < unat (ea_num_ptrs (b_data bh) hdr) then Some (Some (), error, tot_ealen, bh, w)
     else if length (b_data bh) < ptrs + 8 * i + 8 then None
     else do {
       (err, bh, w) \<leftarrow> f i (ptrs + 8 * i) bh tot_ealen hdr prev w;
       Some (None, if err \<noteq> 0 then err else error,
         tot_ealen + (sd_bsize (wsdp w) - of_nat (sizeof struct_gfs2_meta_header)), bh, w)
     })"

text \<open>One header; \<open>offset\<close> is counted in 32 bits.\<close>

definition check_one_eattr ::
  "'p metawalk_fxns \<Rightarrow> nat \<times> nat option \<times> u32 \<times> gfs2_buffer_head \<times> 'p walk \<Rightarrow>
     ((int \<times> gfs2_buffer_head \<times> 'p walk) + (nat \<times> nat option \<times> u32 \<times> gfs2_buffer_head \<times> 'p walk)) option" where
  "check_one_eattr pass = (\<lambda>(hdr, prev, offset, bh, w).
     if length (b_data bh) < hdr + sizeof struct_gfs2_ea_header then None
     else do {
       (error, bh, w) \<leftarrow>
         (if ea_type (b_data bh) hdr = GFS2_EATYPE_UNUSED then Some (0, bh, w)
          else do { f \<leftarrow> check_eattr_entry_fn pass; f bh hdr prev w });
       if error < 0 then Some (Inl (-1, bh, w))
       else do {
         (error, bh, w) \<leftarrow>
           (case check_eattr_extentry_fn pass of None \<Rightarrow> Some (error, bh, w)
            | Some f \<Rightarrow>
                if error = 0 \<and> ea_num_ptrs (b_data bh) hdr \<noteq> 0
                then map_option (\<lambda>(_, error, _, bh, w). (error, bh, w))
                       (for_each (extentry_step f hdr prev (ea_ptrs (b_data bh) hdr)) [0..<256] (error, 0, bh, w))
                else Some (error, bh, w));
         let rec_len = ea_rec_len (b_data bh) hdr;
         let offset = offset + rec_len;
         Some (if ea_flags (b_data bh) hdr AND GFS2_EAFLAG_LAST \<noteq> 0 \<or> sd_bsize (wsdp w) \<le> offset \<or> rec_len = 0
               then Inl (error, bh, w)
               else Inr (hdr + unat rec_len, Some hdr, offset, bh, w))
       }
     })"

definition check_eattr_entries :: "'p metawalk_fxns \<Rightarrow> gfs2_buffer_head \<Rightarrow> 'p walk \<Rightarrow> (int \<times> gfs2_buffer_head \<times> 'p walk) option" where
  "check_eattr_entries pass bh w =
     (if check_eattr_entry_fn pass = None then Some (0, bh, w)
      else iterate (check_one_eattr pass)
             (sizeof struct_gfs2_meta_header, None, of_nat (sizeof struct_gfs2_meta_header), bh, w))"

definition check_leaf_eattr :: "'p metawalk_fxns \<Rightarrow> u64 \<Rightarrow> u64 \<Rightarrow> 'p walk \<Rightarrow> (int \<times> 'p walk) option" where
  "check_leaf_eattr pass block parent w =
     (case check_eattr_leaf_fn pass of None \<Rightarrow> Some (0, w)
      | Some f \<Rightarrow> do {
          (error, bh, w) \<leftarrow> f block parent w;
          if error < 0 then Some (-1, w)
          else if 0 < error then Some (1, case bh of None \<Rightarrow> w | Some bh \<Rightarrow> wrelse bh w)
          else (case bh of None \<Rightarrow> Some (error, w)
                | Some bh \<Rightarrow> map_option (\<lambda>(error, bh, w). (error, wrelse bh w)) (check_eattr_entries pass bh w))
        })"

definition set_eattr :: "u64 \<Rightarrow> 'p walk \<Rightarrow> 'p walk" where
  "set_eattr v w = w\<lparr>wip := (wip w)\<lparr>vi := (vi (wip w))\<lparr>i_eattr := v\<rparr>\<rparr>\<rparr>"

definition wdirty :: "'p walk \<Rightarrow> 'p walk" where
  "wdirty w = w\<lparr>wip := (wip w)\<lparr>vbh := bmodified (vbh (wip w))\<rparr>\<rparr>"

record 'p ea_walk =
  aw_error :: int
  aw_first_bad :: bool
  aw_ptrs :: nat
  aw_errors :: nat
  aw_walk :: "'p walk"

text \<open>
  A pointer of the indirect block. After the last pointer of a block that is full the code reads the word behind it.
\<close>

definition check_ea_ptr :: "'p metawalk_fxns \<Rightarrow> u64 \<Rightarrow> bytes \<Rightarrow> nat \<Rightarrow> 'p ea_walk \<Rightarrow> (unit option \<times> 'p ea_walk) option" where
  "check_ea_ptr pass indirect data ptr e =
     (if length data < ptr + 8 then None
      else if get_be64 data ptr = 0 then Some (Some (), e)
      else do {
        (err, w) \<leftarrow> check_leaf_eattr pass (get_be64 data ptr) indirect (aw_walk e);
        let e = e\<lparr>aw_ptrs := aw_ptrs e + 1, aw_error := (if err \<noteq> 0 then err else aw_error e), aw_walk := w\<rparr>;
        let e = (if aw_error e \<noteq> 0 then e\<lparr>aw_errors := aw_errors e + 1\<rparr> else e);
        if aw_ptrs e = 1 \<and> aw_errors e = 1 then do {
          (_, w) \<leftarrow> (case finish_eattr_indir_fn pass of None \<Rightarrow> Some (0, w) | Some f \<Rightarrow> f (aw_ptrs e) (aw_errors e) w);
          Some (None, e\<lparr>aw_first_bad := True, aw_walk := w\<rparr>)
        }
        else Some (None, if aw_errors e \<noteq> 0 then e\<lparr>aw_walk := wdirty (set_eattr 0 w)\<rparr> else e)
      })"

definition check_indirect_eattr :: "'p metawalk_fxns \<Rightarrow> u64 \<Rightarrow> gfs2_buffer_head \<Rightarrow> 'p walk \<Rightarrow> (int \<times> 'p walk) option" where
  "check_indirect_eattr pass indirect indirect_buf w = do {
     let save = i_eattr (vi (wip w));
     let offset = (if sd_gfs1 (wsdp w) then sizeof struct_gfs_indirect else sizeof struct_gfs2_meta_header);
     (_, e) \<leftarrow> for_each (check_ea_ptr pass indirect (b_data indirect_buf))
       (map (\<lambda>i. offset + 8 * i) [0..<Suc ((wbsize w - offset) div 8)])
       \<lparr>aw_error = 0, aw_first_bad = False, aw_ptrs = 0, aw_errors = 0, aw_walk = w\<rparr>;
     let w = (if save \<noteq> 0 then set_eattr save (aw_walk e) else aw_walk e);
     case finish_eattr_indir_fn pass of None \<Rightarrow> Some (aw_error e, w)
     | Some f \<Rightarrow> do {
         (_, w) \<leftarrow> (if aw_first_bad e then Some (0, w) else f (aw_ptrs e) (aw_errors e) w);
         (case delete_block_fn pass of None \<Rightarrow> Some (aw_error e, w)
          | Some g \<Rightarrow> if aw_errors e \<noteq> 0 \<and> aw_errors e = aw_ptrs e then map_option (\<lambda>(_, w). (1, w)) (g indirect w)
                    else Some (aw_error e, w))
       }
   }"

definition check_inode_eattr :: "'p metawalk_fxns \<Rightarrow> 'p walk \<Rightarrow> (int \<times> 'p walk) option" where
  "check_inode_eattr pass w =
     (let eattr = i_eattr (vi (wip w)) in
      if eattr = 0 then Some (0, w)
      else if i_flags (vi (wip w)) AND GFS2_DIF_EA_INDIRECT \<noteq> 0 then
        (case check_eattr_indir_fn pass of None \<Rightarrow> Some (0, w)
         | Some f \<Rightarrow> do {
             (error, bh, w) \<leftarrow> f eattr (waddr w) w;
             (error, w) \<leftarrow> (if error = 0 then do { bh \<leftarrow> bh; check_indirect_eattr pass (i_eattr (vi (wip w))) bh w } else Some (error, w));
             Some (error, case bh of None \<Rightarrow> w | Some bh \<Rightarrow> wrelse bh w)
           })
      else check_leaf_eattr pass eattr (waddr w) w)"

section \<open>Indirect blocks\<close>

definition ptr_offs :: "nat \<Rightarrow> nat \<Rightarrow> nat list" where
  "ptr_offs start stop = map (\<lambda>i. start + 8 * i) [0..<(stop - start + 7) div 8]"

text \<open>The block that a pointer of the buffer holds.\<close>

definition ptr_at :: "holder \<Rightarrow> nat \<Rightarrow> 'p walk \<Rightarrow> u64" where
  "ptr_at h off w = get_be64 (wdata h w) off"

definition do_check_metalist ::
  "'p metawalk_fxns \<Rightarrow> holder \<Rightarrow> nat \<Rightarrow> nat \<Rightarrow> 'p walk \<Rightarrow> (int \<times> gfs2_buffer_head option \<times> holder \<times> 'p walk) option" where
  "do_check_metalist pass bh off hgt w =
     (case check_metalist_fn pass of None \<Rightarrow> Some (0, None, bh, w)
      | Some f \<Rightarrow> do {
          let block = ptr_at bh off w;
          (error, cm, bh, w) \<leftarrow> f bh off hgt w;
          let bad = (if invalid_meta_is_fatal pass then META_ERROR else META_SKIP_ONE);
          Some (if error = META_ERROR \<or> error = META_SKIP_FURTHER then error
                else if \<not> cm_valid cm then bad
                else if cm_dup cm then META_SKIP_ONE
                else if \<not> valid_block_ip (wfs w) block then bad
                else error, cm_bh cm, bh, w)
        })"

text \<open>The header of the blocks at a height: its type and its size.\<close>

definition iblk_type :: "nat \<Rightarrow> 'p walk \<Rightarrow> u32" where
  "iblk_type h w =
     (if 1 < h then if is_dir (wip w) (sd_gfs1 (wsdp w)) \<and> h = unat (i_height (vi (wip w))) + 1 then GFS2_METATYPE_JD else GFS2_METATYPE_IN
      else GFS2_METATYPE_DI)"

definition hdr_size :: "gfs2_sbd \<Rightarrow> nat \<Rightarrow> nat" where
  "hdr_size sdp hgt =
     (if 1 < hgt then if sd_gfs1 sdp then sizeof struct_gfs_indirect else sizeof struct_gfs2_meta_header
      else sizeof struct_gfs2_dinode)"

text \<open>What was done for the pointers of a block before the one with the error is undone.\<close>

definition undo_meta_step ::
  "(u64 \<Rightarrow> nat \<Rightarrow> 'p walk \<Rightarrow> (int \<times> 'p walk) option) \<Rightarrow> nat \<Rightarrow> holder \<Rightarrow> nat \<Rightarrow> 'p walk \<Rightarrow> (unit option \<times> 'p walk) option" where
  "undo_meta_step f h bh off w =
     (if ptr_at bh off w = 0 then Some (None, w) else map_option (\<lambda>(_, w). (None, w)) (f (ptr_at bh off w) h w))"

definition undo_metas :: "'p metawalk_fxns \<Rightarrow> nat \<Rightarrow> holder \<Rightarrow> nat \<Rightarrow> nat \<Rightarrow> 'p walk \<Rightarrow> 'p walk option" where
  "undo_metas pass h bh start off w =
     (case undo_check_meta_fn pass of None \<Rightarrow> Some w
      | Some f \<Rightarrow> map_option snd (for_each (undo_meta_step f h bh) (ptr_offs start off) w))"

text \<open>A pointer: the block behind it is checked and joins the list of its height.\<close>

definition meta_ptr_step ::
  "'p metawalk_fxns \<Rightarrow> nat \<Rightarrow> nat \<Rightarrow> nat \<Rightarrow> holder \<times> holder list \<times> 'p walk \<Rightarrow> (int option \<times> holder \<times> holder list \<times> 'p walk) option" where
  "meta_ptr_step pass h start off = (\<lambda>(bh, cur, w).
     if leaving w then Some (Some META_IS_GOOD, bh, cur, w)
     else if ptr_at bh off w = 0 then Some (None, bh, cur, w)
     else do {
       (error, nbh, bh, w) \<leftarrow> do_check_metalist pass bh off h w;
       if error = META_ERROR \<or> error = META_SKIP_FURTHER
       then map_option (\<lambda>w. (Some error, bh, cur, w)) (undo_metas pass h bh start off w)
       else if error = META_SKIP_ONE then Some (None, bh, cur, w)
       else do {
         nbh \<leftarrow> (case nbh of None \<Rightarrow> wbread w (ptr_at bh off w) | Some nbh \<Rightarrow> Some nbh);
         Some (None, bh, cur @ [Other nbh], w)
       }
     })"

definition meta_block_step ::
  "'p metawalk_fxns \<Rightarrow> nat \<Rightarrow> holder \<Rightarrow> holder list \<times> holder list \<times> 'p walk \<Rightarrow> (int option \<times> holder list \<times> holder list \<times> 'p walk) option" where
  "meta_block_step pass h bh = (\<lambda>(ready, cur, w).
     if gfs2_check_meta (wdata bh w) (iblk_type h w) \<noteq> 0
     then Some (if invalid_meta_is_fatal pass then Some META_ERROR else None, ready @ [bh], cur, w)
     else do {
       let start = hdr_size (wsdp w) h;
       (r, bh, cur, w) \<leftarrow> for_each (meta_ptr_step pass h start) (ptr_offs start (wbsize w)) (bh, cur, w);
       Some (r, ready @ [bh], cur, w)
     })"

text \<open>A height: the blocks of the one above it, in the order in which they were found.\<close>

definition meta_level_step ::
  "'p metawalk_fxns \<Rightarrow> nat \<Rightarrow> holder list list \<times> 'p walk \<Rightarrow> (int option \<times> holder list list \<times> 'p walk) option" where
  "meta_level_step pass h = (\<lambda>(mlp, w). do {
     let prev = last mlp;
     (r, ready, cur, w) \<leftarrow> for_each (meta_block_step pass h) prev ([], [], w);
     Some (r, butlast mlp @ [ready @ drop (length ready) prev, cur], w)
   })"

definition build_and_check_metalist :: "'p metawalk_fxns \<Rightarrow> 'p walk \<Rightarrow> (int \<times> holder list list \<times> 'p walk) option" where
  "build_and_check_metalist pass w =
     (let hgt = unat (i_height (vi (wip w))) + (if is_dir (wip w) (sd_gfs1 (wsdp w)) then 1 else 0) in
      if hgt < 2 then Some (META_IS_GOOD, [[Own]], w)
      else do {
        (r, mlp, w) \<leftarrow> for_each (meta_level_step pass) [1..<hgt] ([[Own]], w);
        Some (case r of None \<Rightarrow> 0 | Some error \<Rightarrow> error, mlp, w)
      })"

definition metalist_at :: "holder list list \<Rightarrow> nat \<Rightarrow> holder list" where
  "metalist_at mlp i = (if i < length mlp then mlp ! i else [])"

definition wrelease :: "holder \<Rightarrow> 'p walk \<Rightarrow> 'p walk" where
  "wrelease h w = (case h of Own \<Rightarrow> w | Other bh \<Rightarrow> wrelse bh w)"

definition free_metalist :: "nat list \<Rightarrow> holder list list \<Rightarrow> 'p walk \<Rightarrow> 'p walk" where
  "free_metalist levels mlp w =
     fold wrelease (concat (map (metalist_at mlp) (filter (\<lambda>i. i \<le> unat (i_height (vi (wip w)))) levels))) w"

section \<open>Data pointers\<close>

record error_block =
  eb_metablk :: u64
  eb_metaoff :: nat
  eb_errblk :: u64

definition report_data_error :: "u64 \<Rightarrow> nat \<Rightarrow> u64 \<Rightarrow> int \<Rightarrow> int \<Rightarrow> error_block \<Rightarrow> error_block" where
  "report_data_error metablock off block rc error eb =
     (if eb_errblk eb = 0 \<or> rc < 0 \<and> rc < error then \<lparr>eb_metablk = metablock, eb_metaoff = off, eb_errblk = block\<rparr> else eb)"

definition check_data_step ::
  "(u64 \<Rightarrow> u64 \<Rightarrow> holder \<Rightarrow> nat \<Rightarrow> 'p walk \<Rightarrow> (int \<times> holder \<times> 'p walk) option) \<Rightarrow> nat \<Rightarrow>
     int \<times> error_block \<times> holder \<times> 'p walk \<Rightarrow> (unit option \<times> int \<times> error_block \<times> holder \<times> 'p walk) option" where
  "check_data_step f off = (\<lambda>(error, eb, bh, w).
     if fsck_abort (wst w) then Some (Some (), error, eb, bh, w)
     else if ptr_at bh off w = 0 then Some (None, error, eb, bh, w)
     else if leaving w then Some (Some (), error, eb, bh, w)
     else do {
       let block = ptr_at bh off w;
       let metablock = b_blocknr (held (wip w) bh);
       (rc, bh, w) \<leftarrow> f metablock block bh off w;
       let (error, eb) = (if rc \<noteq> 0 \<and> (error = 0 \<or> rc < error) then (rc, report_data_error metablock off block rc error eb) else (error, eb));
       Some (if rc < 0 then (Some (), rc, eb, bh, w) else (None, error, eb, bh, w))
     })"

definition metawalk_check_data ::
  "(u64 \<Rightarrow> u64 \<Rightarrow> holder \<Rightarrow> nat \<Rightarrow> 'p walk \<Rightarrow> (int \<times> holder \<times> 'p walk) option) \<Rightarrow> nat \<Rightarrow> error_block \<Rightarrow> holder \<Rightarrow> 'p walk \<Rightarrow>
     (int \<times> error_block \<times> holder \<times> 'p walk) option" where
  "metawalk_check_data f hgt eb bh w =
     map_option snd (for_each (check_data_step f) (ptr_offs (hdr_size (wsdp w) hgt) (wbsize w)) (0, eb, bh, w))"

text \<open>The result is that of the call where it leaves the loop; the state has \<open>found_error_blk\<close>.\<close>

definition undo_data_step ::
  "'p metawalk_fxns \<Rightarrow> error_block \<Rightarrow> int \<Rightarrow> holder \<Rightarrow> nat \<Rightarrow> int \<times> 'p walk \<Rightarrow> (int option \<times> int \<times> 'p walk) option" where
  "undo_data_step pass eb error bh off = (\<lambda>(found, w).
     if fsck_abort (wst w) then Some (Some found, found, w)
     else if ptr_at bh off w = 0 then Some (None, found, w)
     else if leaving w then Some (Some 1, found, w)
     else
       let block = ptr_at bh off w;
           here = (b_blocknr (held (wip w) bh) = eb_metablk eb \<and> off = eb_metaoff eb \<and> block = eb_errblk eb)
       in if here \<and> error < 0 then Some (Some 1, found, w)
          else do {
            f \<leftarrow> undo_check_data_fn pass;
            (rc, w) \<leftarrow> f block w;
            let found = (if here then 1 else found);
            Some (if rc < 0 then Some rc else None, found, w)
          })"

definition undo_check_data ::
  "'p metawalk_fxns \<Rightarrow> nat \<Rightarrow> error_block \<Rightarrow> int \<Rightarrow> holder \<Rightarrow> 'p walk \<Rightarrow> (int \<times> 'p walk) option" where
  "undo_check_data pass hgt eb error bh w =
     map_option (\<lambda>(r, found, w). (case r of None \<Rightarrow> found | Some r \<Rightarrow> r, w))
       (for_each (undo_data_step pass eb error bh) (ptr_offs (hdr_size (wsdp w) hgt) (wbsize w)) (0, w))"

definition should_check :: "holder \<Rightarrow> nat \<Rightarrow> 'p walk \<Rightarrow> bool" where
  "should_check bh hgt w \<longleftrightarrow> gfs2_check_meta (wdata bh w) (if 1 < hgt then GFS2_METATYPE_IN else GFS2_METATYPE_DI) = 0"

section \<open>The tree of an inode\<close>

text \<open>A block of the last height; the loop is left with \<open>Inl\<close> where the program is to stop, with \<open>Inr\<close> at an error.\<close>

definition data_block_step ::
  "'p metawalk_fxns \<Rightarrow> nat \<Rightarrow> holder \<Rightarrow> holder list \<times> error_block \<times> 'p walk \<Rightarrow>
     ((unit + int) option \<times> holder list \<times> error_block \<times> 'p walk) option" where
  "data_block_step pass hgt bh = (\<lambda>(ready, eb, w).
     if fsck_abort (wst w) then Some (Some (Inl ()), ready, eb, w)
     else (case check_data_fn pass of None \<Rightarrow> Some (None, ready @ [bh], eb, w)
       | Some f \<Rightarrow>
           if \<not> should_check bh hgt w then Some (None, ready @ [bh], eb, w)
           else do {
             (error, eb, bh, w) \<leftarrow> metawalk_check_data f hgt eb bh w;
             Some (if error \<noteq> 0 then Some (Inr error) else None, ready @ [bh], eb, w)
           }))"

text \<open>A block whose processing is undone; the state has \<open>hit_error_blk\<close>.\<close>

definition undo_block_step ::
  "'p metawalk_fxns \<Rightarrow> bool \<Rightarrow> error_block \<Rightarrow> int \<Rightarrow> nat \<Rightarrow> nat \<times> holder \<Rightarrow> bool \<times> 'p walk \<Rightarrow> (unit option \<times> bool \<times> 'p walk) option" where
  "undo_block_step pass metadata_clean eb error hgt = (\<lambda>(i, bh) (hit, w). do {
     (rc, w) \<leftarrow> (if i \<noteq> 0 then do { f \<leftarrow> undo_check_meta_fn pass; f (b_blocknr (held (wip w) bh)) i w } else Some (0, w));
     (hit, w) \<leftarrow>
       (if metadata_clean \<and> rc = 0 \<and> i = hgt - 1 \<and> \<not> hit \<and> should_check bh hgt w
        then map_option (\<lambda>(rc, w). (0 < rc, w)) (undo_check_data pass hgt eb error bh w)
        else Some (hit, w));
     Some (None, hit, wrelease bh w)
   })"

definition undo_metalist ::
  "'p metawalk_fxns \<Rightarrow> bool \<Rightarrow> nat \<Rightarrow> error_block \<Rightarrow> int \<Rightarrow> holder list list \<Rightarrow> 'p walk \<Rightarrow> (int \<times> 'p walk) option" where
  "undo_metalist pass metadata_clean hgt eb error mlp w = do {
     (ok, w) \<leftarrow> wquery w;
     if \<not> ok then Some (error, free_metalist [0..<length mlp] mlp w)
     else do {
       let undone = (if undo_check_meta_fn pass = None then 0 else hgt);
       (_, _, w) \<leftarrow> for_each (undo_block_step pass metadata_clean eb error hgt)
         (concat (map (\<lambda>i. map (Pair i) (metalist_at mlp i)) [0..<undone])) (False, w);
       let w = w\<lparr>wst := delete_all_dups (waddr w) (wst w)\<rparr>;
       (_, w) \<leftarrow> fsck_bitmap_set (waddr w) GFS2_BLKST_FREE False w;
       Some (error, free_metalist [undone..<length mlp] mlp w)
     }
   }"

definition check_metatree :: "'p metawalk_fxns \<Rightarrow> 'p walk \<Rightarrow> (int \<times> 'p walk) option" where
  "check_metatree pass w =
     (let hgt = unat (i_height (vi (wip w))); dir = is_dir (wip w) (sd_gfs1 (wsdp w));
          eb = \<lparr>eb_metablk = 0, eb_metaoff = 0, eb_errblk = 0\<rparr> in
      if hgt = 0 \<and> \<not> dir then Some (0, w)
      else do {
        (error, mlp, w) \<leftarrow> build_and_check_metalist pass w;
        if error \<noteq> 0 then undo_metalist pass False hgt eb error mlp w
        else if dir then
          if i_flags (vi (wip w)) AND GFS2_DIF_EXHASH = 0 then Some (0, free_metalist [0..<length mlp] mlp w)
          else do {
            (error, w) \<leftarrow> check_leaf_blks pass w;
            if error \<noteq> 0 then undo_metalist pass True hgt eb error mlp w
            else Some (0, free_metalist [0..<length mlp] mlp w)
          }
        else do {
          let lst = metalist_at mlp (hgt - 1);
          (r, ready, eb, w) \<leftarrow> for_each (data_block_step pass hgt) lst ([], eb, w);
          let mlp = mlp[hgt - 1 := ready @ drop (length ready) lst];
          (case r of Some (Inr error) \<Rightarrow> undo_metalist pass True hgt eb error mlp w
           | _ \<Rightarrow> Some (0, free_metalist [0..<length mlp] mlp w))
        }
      })"

section \<open>Inodes of a buffer\<close>

definition fsck_inode_get :: "fsck \<Rightarrow> gfs2_buffer_head \<Rightarrow> vinode" where
  "fsck_inode_get st bh =
     (case fsck_system_inode st (b_blocknr bh) of Some sysip \<Rightarrow> sysip
      | None \<Rightarrow> if sd_gfs1 (fs_sdp (fk_fs st)) then (lgfs2_inode_get bh)\<lparr>vi := gfs_inode_get (b_data bh)\<rparr> else lgfs2_inode_get bh)"

end
