(* ===== verification/FsckKeep.thy ===== *)
theory FsckKeep
  imports FsckWalk
begin

text \<open>
  What a walk over an inode keeps (metawalk.c). A condition on the state of fsck that the functions of a pass keep is kept by
  the whole walk: by the tree of indirect blocks and its undoing, the chains of leaves and their entries, the hash table, and the
  extended attributes. The conditions are the laws of two locales; the passes of pass1.c are their instances.
\<close>

text \<open>A condition on the result of a computation, if it comes to one.\<close>

definition returns :: "('a \<Rightarrow> bool) \<Rightarrow> 'a option \<Rightarrow> bool" where
  "returns Q r \<longleftrightarrow> (\<forall>x. r = Some x \<longrightarrow> Q x)"

lemma returns_simps [simp]:
  "returns Q None" "returns Q (Some x) = Q x" "returns Q (Option.bind r f) = returns (\<lambda>x. returns Q (f x)) r"
  "returns Q (map_option g r) = returns (\<lambda>x. Q (g x)) r" "returns (\<lambda>_. True) r"
  by (auto simp: returns_def split: bind_splits)

lemma returns_mono: "returns P r \<Longrightarrow> (\<And>x. P x \<Longrightarrow> Q x) \<Longrightarrow> returns Q r"
  by (auto simp: returns_def)

lemma returns_if: "(b \<Longrightarrow> returns Q r) \<Longrightarrow> (\<not> b \<Longrightarrow> returns Q s) \<Longrightarrow> returns Q (if b then r else s)"
  by simp

text \<open>The rules that take a computation apart, with the last for one of which nothing is known.\<close>

lemma returns_rules:
  "returns Q None" "Q x \<Longrightarrow> returns Q (Some x)" "returns (\<lambda>x. returns Q (f x)) r \<Longrightarrow> returns Q (Option.bind r f)"
  "returns (\<lambda>x. Q (g x)) r \<Longrightarrow> returns Q (map_option g r)"
  "returns Q (f2 a b) \<Longrightarrow> returns Q (case (a, b) of (x, y) \<Rightarrow> f2 x y)"
  "(p = None \<Longrightarrow> returns Q r1) \<Longrightarrow> (\<And>y. p = Some y \<Longrightarrow> returns Q (r2 y)) \<Longrightarrow> returns Q (case p of None \<Rightarrow> r1 | Some y \<Rightarrow> r2 y)"
  "(\<And>y. q = Inl y \<Longrightarrow> returns Q (r3 y)) \<Longrightarrow> (\<And>y. q = Inr y \<Longrightarrow> returns Q (r4 y)) \<Longrightarrow> returns Q (case q of Inl y \<Rightarrow> r3 y | Inr y \<Rightarrow> r4 y)"
  "(\<And>x y. z = (x, y) \<Longrightarrow> returns Q (f2 x y)) \<Longrightarrow> returns Q (case z of (x, y) \<Rightarrow> f2 x y)"
  by (auto split: option.split sum.split prod.split)

lemma returns_any: "(\<And>x. r = Some x \<Longrightarrow> Q x) \<Longrightarrow> returns Q r"
  by (simp add: returns_def)

lemma returns_for_each:
  assumes "I s" "\<And>x s. x \<in> set xs \<Longrightarrow> I s \<Longrightarrow> returns (\<lambda>(_, s). I s) (f x s)" "\<And>r s. I s \<Longrightarrow> Q (r, s)"
  shows "returns Q (for_each f xs s)"
  unfolding returns_def
proof (intro allI impI)
  fix x
  assume x: "for_each f xs s = Some x"
  obtain r s' where x': "x = (r, s')" by fastforce
  have "I s'" using x assms(1) unfolding x'
    by (rule for_each_inv) (use assms(2) in \<open>fastforce simp: returns_def\<close>)
  then show "Q x" unfolding x' by (rule assms(3))
qed

lemma returns_iterate:
  assumes "I s" "\<And>s. I s \<Longrightarrow> returns (\<lambda>r. case r of Inl x \<Rightarrow> Q x | Inr s \<Rightarrow> I s) (f s)"
  shows "returns Q (iterate f s)"
  unfolding returns_def
proof (intro allI impI)
  fix x
  assume "iterate f s = Some x"
  then show "Q x" using assms(1)
    by (rule iterate_inv) (use assms(2) in \<open>force simp: returns_def\<close>)+
qed

text \<open>A condition on the state of fsck that the library of the walk keeps.\<close>

locale fsck_kept =
  fixes J :: "fsck \<Rightarrow> bool"
  assumes kept_fs: "J st \<Longrightarrow> J (st\<lparr>fk_fs := fs\<rparr>)"
    and kept_query: "J st \<Longrightarrow> returns (\<lambda>(_, st). J st) (fsck_query st)"
    and kept_bitmap: "J st \<Longrightarrow> returns (\<lambda>(_, st). J st) (check_n_fix_bitmap hint b e m st)"
    and kept_dups: "J st \<Longrightarrow> J (delete_all_dups a st)"
begin

declare kept_fs [simp]

lemma kept_wbread: "(\<And>bh. Q bh) \<Longrightarrow> returns Q (wbread w b)"
  by (simp add: returns_def)

lemma kept_on_state:
  assumes "J (wst w)" "\<And>st. J st \<Longrightarrow> returns (\<lambda>(_, st). J st) (f st)" "\<And>x w'. J (wst w') \<Longrightarrow> Q (x, w')"
  shows "returns Q (on_state f w)"
  using returns_mono [OF assms(2) [OF assms(1)], of "\<lambda>(x, st). Q (x, w\<lparr>wst := st\<rparr>)"] assms(3)
  by (auto simp: on_state_def split_def)

lemma kept_wquery: "J (wst w) \<Longrightarrow> (\<And>x w'. J (wst w') \<Longrightarrow> Q (x, w')) \<Longrightarrow> returns Q (wquery w)"
  by (rule kept_on_state) (auto intro: kept_query)

lemma kept_bitmap_set: "J (wst w) \<Longrightarrow> (\<And>x w'. J (wst w') \<Longrightarrow> Q (x, w')) \<Longrightarrow> returns Q (fsck_bitmap_set b m e w)"
  unfolding fsck_bitmap_set_def by (rule kept_on_state) (auto intro: kept_bitmap)

lemma kept_simple [simp]:
  "J (wst w) \<Longrightarrow> J (wst (wrelse bh w))" "wst (snd (wput f h w)) = wst w" "J (wst w) \<Longrightarrow> J (wst (wrelease h w))"
  "wst (wdirty w) = wst w" "wst (set_eattr v w) = wst w"
  by (auto simp: wrelse_def wput_def wdirty_def set_eattr_def wrelease_def kept_fs split: prod.splits holder.splits)

lemmas walk_rules = returns_if kept_wbread returns_rules kept_simple(1,3) kept_wquery kept_bitmap_set

lemma kept_wput: "wput f h w = (h', w') \<Longrightarrow> J (wst w) \<Longrightarrow> J (wst w')"
  using kept_simple(2) [of f h w] by simp

end

text \<open>A pass whose functions keep the condition.\<close>

locale walk_pass = fsck_kept J for J :: "fsck \<Rightarrow> bool" +
  fixes pass :: "'p metawalk_fxns"
  assumes leaf_depth: "\<And>f b n bh w. check_leaf_depth_fn pass = Some f \<Longrightarrow> J (wst w) \<Longrightarrow> returns (\<lambda>(_, _, w). J (wst w)) (f b n bh w)"
    and leaf: "\<And>f b w. check_leaf_fn pass = Some f \<Longrightarrow> J (wst w) \<Longrightarrow> returns (\<lambda>(_, w). J (wst w)) (f b w)"
    and metalist: "\<And>f h off k w. check_metalist_fn pass = Some f \<Longrightarrow> J (wst w) \<Longrightarrow> returns (\<lambda>(_, _, _, w). J (wst w)) (f h off k w)"
    and data: "\<And>f b c h off w. check_data_fn pass = Some f \<Longrightarrow> J (wst w) \<Longrightarrow> returns (\<lambda>(_, _, w). J (wst w)) (f b c h off w)"
    and eattr_indir: "\<And>f b c w. check_eattr_indir_fn pass = Some f \<Longrightarrow> J (wst w) \<Longrightarrow> returns (\<lambda>(_, _, w). J (wst w)) (f b c w)"
    and eattr_leaf: "\<And>f b c w. check_eattr_leaf_fn pass = Some f \<Longrightarrow> J (wst w) \<Longrightarrow> returns (\<lambda>(_, _, w). J (wst w)) (f b c w)"
    and dentry: "\<And>f d p h c i w. check_dentry_fn pass = Some f \<Longrightarrow> J (wst w) \<Longrightarrow> returns (\<lambda>(_, _, _, _, w). J (wst w)) (f d p h c i w)"
    and eattr_entry: "\<And>f bh d p w. check_eattr_entry_fn pass = Some f \<Longrightarrow> J (wst w) \<Longrightarrow> returns (\<lambda>(_, _, w). J (wst w)) (f bh d p w)"
    and eattr_extentry:
      "\<And>f k off bh t d p w. check_eattr_extentry_fn pass = Some f \<Longrightarrow> J (wst w) \<Longrightarrow> returns (\<lambda>(_, _, w). J (wst w)) (f k off bh t d p w)"
    and finish: "\<And>f k d w. finish_eattr_indir_fn pass = Some f \<Longrightarrow> J (wst w) \<Longrightarrow> returns (\<lambda>(_, w). J (wst w)) (f k d w)"
    and hash_tbl: "\<And>f tbl w. check_hash_tbl_fn pass = Some f \<Longrightarrow> J (wst w) \<Longrightarrow> returns (\<lambda>(_, _, w). J (wst w)) (f tbl w)"
    and repair: "\<And>f b k i w. repair_leaf_fn pass = Some f \<Longrightarrow> J (wst w) \<Longrightarrow> returns (\<lambda>(_, _, w). J (wst w)) (f b k i w)"
    and undo_meta: "\<And>f b k w. undo_check_meta_fn pass = Some f \<Longrightarrow> J (wst w) \<Longrightarrow> returns (\<lambda>(_, w). J (wst w)) (f b k w)"
    and undo_data: "\<And>f b w. undo_check_data_fn pass = Some f \<Longrightarrow> J (wst w) \<Longrightarrow> returns (\<lambda>(_, w). J (wst w)) (f b w)"
    and delete: "\<And>f b w. delete_block_fn pass = Some f \<Longrightarrow> J (wst w) \<Longrightarrow> returns (\<lambda>(_, w). J (wst w)) (f b w)"
begin

lemma called_leaf_depth: "check_leaf_depth_fn pass = Some f \<Longrightarrow> J (wst w) \<Longrightarrow> (\<And>r x w. J (wst w) \<Longrightarrow> Q (r, x, w)) \<Longrightarrow> returns Q (f b n bh w)"
  by (auto intro: returns_mono [OF leaf_depth])
lemma called_leaf: "check_leaf_fn pass = Some f \<Longrightarrow> J (wst w) \<Longrightarrow> (\<And>r w. J (wst w) \<Longrightarrow> Q (r, w)) \<Longrightarrow> returns Q (f b w)"
  by (auto intro: returns_mono [OF leaf])
lemma called_metalist: "check_metalist_fn pass = Some f \<Longrightarrow> J (wst w) \<Longrightarrow> (\<And>r x y w. J (wst w) \<Longrightarrow> Q (r, x, y, w)) \<Longrightarrow> returns Q (f h off k w)"
  by (auto intro: returns_mono [OF metalist])
lemma called_data: "check_data_fn pass = Some f \<Longrightarrow> J (wst w) \<Longrightarrow> (\<And>r x w. J (wst w) \<Longrightarrow> Q (r, x, w)) \<Longrightarrow> returns Q (f b c h off w)"
  by (auto intro: returns_mono [OF data])
lemma called_eattr_indir: "check_eattr_indir_fn pass = Some f \<Longrightarrow> J (wst w) \<Longrightarrow> (\<And>r x w. J (wst w) \<Longrightarrow> Q (r, x, w)) \<Longrightarrow> returns Q (f b c w)"
  by (auto intro: returns_mono [OF eattr_indir])
lemma called_eattr_leaf: "check_eattr_leaf_fn pass = Some f \<Longrightarrow> J (wst w) \<Longrightarrow> (\<And>r x w. J (wst w) \<Longrightarrow> Q (r, x, w)) \<Longrightarrow> returns Q (f b c w)"
  by (auto intro: returns_mono [OF eattr_leaf])
lemma called_dentry: "check_dentry_fn pass = Some f \<Longrightarrow> J (wst w) \<Longrightarrow> (\<And>r x y z w. J (wst w) \<Longrightarrow> Q (r, x, y, z, w)) \<Longrightarrow> returns Q (f d p h c i w)"
  by (auto intro: returns_mono [OF dentry])
lemma called_eattr_entry: "check_eattr_entry_fn pass = Some f \<Longrightarrow> J (wst w) \<Longrightarrow> (\<And>r x w. J (wst w) \<Longrightarrow> Q (r, x, w)) \<Longrightarrow> returns Q (f bh d p w)"
  by (auto intro: returns_mono [OF eattr_entry])
lemma called_eattr_extentry: "check_eattr_extentry_fn pass = Some f \<Longrightarrow> J (wst w) \<Longrightarrow> (\<And>r x w. J (wst w) \<Longrightarrow> Q (r, x, w)) \<Longrightarrow> returns Q (f k off bh t d p w)"
  by (auto intro: returns_mono [OF eattr_extentry])
lemma called_finish: "finish_eattr_indir_fn pass = Some f \<Longrightarrow> J (wst w) \<Longrightarrow> (\<And>r w. J (wst w) \<Longrightarrow> Q (r, w)) \<Longrightarrow> returns Q (f k d w)"
  by (auto intro: returns_mono [OF finish])
lemma called_hash_tbl: "check_hash_tbl_fn pass = Some f \<Longrightarrow> J (wst w) \<Longrightarrow> (\<And>r x w. J (wst w) \<Longrightarrow> Q (r, x, w)) \<Longrightarrow> returns Q (f tbl w)"
  by (auto intro: returns_mono [OF hash_tbl])
lemma called_repair: "repair_leaf_fn pass = Some f \<Longrightarrow> J (wst w) \<Longrightarrow> (\<And>r x w. J (wst w) \<Longrightarrow> Q (r, x, w)) \<Longrightarrow> returns Q (f b k i w)"
  by (auto intro: returns_mono [OF repair])
lemma called_undo_meta: "undo_check_meta_fn pass = Some f \<Longrightarrow> J (wst w) \<Longrightarrow> (\<And>r w. J (wst w) \<Longrightarrow> Q (r, w)) \<Longrightarrow> returns Q (f b k w)"
  by (auto intro: returns_mono [OF undo_meta])
lemma called_undo_data: "undo_check_data_fn pass = Some f \<Longrightarrow> J (wst w) \<Longrightarrow> (\<And>r w. J (wst w) \<Longrightarrow> Q (r, w)) \<Longrightarrow> returns Q (f b w)"
  by (auto intro: returns_mono [OF undo_data])
lemma called_delete: "delete_block_fn pass = Some f \<Longrightarrow> J (wst w) \<Longrightarrow> (\<And>r w. J (wst w) \<Longrightarrow> Q (r, w)) \<Longrightarrow> returns Q (f b w)"
  by (auto intro: returns_mono [OF delete])

lemmas called = called_leaf_depth called_leaf called_metalist called_data called_eattr_indir called_eattr_leaf called_dentry called_eattr_entry called_eattr_extentry called_finish called_hash_tbl called_repair called_undo_meta called_undo_data called_delete

lemma kept_truncate: "J (wst w) \<Longrightarrow> (\<And>h w. J (wst w) \<Longrightarrow> Q (h, w)) \<Longrightarrow> returns Q (truncate_at p h w)"
  by (cases p; cases "wput (dirblk_truncate (wbsize w) (the p)) h w") (auto simp: truncate_at_def dest: kept_wput)

lemma kept_rec_len: "J (wst (ew_walk e)) \<Longrightarrow> (\<And>d e. J (wst (ew_walk e)) \<Longrightarrow> Q (d, e)) \<Longrightarrow> returns Q (check_rec_len type e)"
  unfolding check_rec_len_def Let_def
  by (auto intro!: kept_wquery kept_truncate split: option.split prod.split dest: kept_wput)

lemma kept_inum: "J (wst (ew_walk e)) \<Longrightarrow> (\<And>d e. J (wst (ew_walk e)) \<Longrightarrow> Q (d, e)) \<Longrightarrow> returns Q (check_inum pass d e)"
  unfolding check_inum_def Let_def
  by (cases "check_dentry_fn pass") (auto intro!: kept_wquery kept_truncate called split: prod.split dest: kept_wput)

lemma kept_check_entry:
  assumes "J (wst (ew_walk e))"
  shows "returns (\<lambda>r. case r of Inl (_, e) \<Rightarrow> J (wst (ew_walk e)) | Inr e \<Rightarrow> J (wst (ew_walk e))) (check_entry pass type e)"
  using assms unfolding check_entry_def Let_def
  by (auto intro!: kept_rec_len [where e = e] kept_inum split: option.split)

lemma kept_entries:
  assumes "J (wst w)" "\<And>r h c w. J (wst w) \<Longrightarrow> Q (r, h, c, w)"
  shows "returns Q (check_entries pass h type c i w)"
proof -
  have "returns (\<lambda>(r, e). Q (r, ew_bh e, ew_count e, ew_walk e)) (iterate (check_entry pass type) e)"
    if "J (wst (ew_walk e))" for e
    using that by (rule returns_iterate) (auto intro!: returns_mono [OF kept_check_entry] assms(2) split: sum.splits)
  then show ?thesis unfolding check_entries_def using assms by (simp add: split_def)
qed

lemma kept_linear:
  assumes "J (wst w)" "\<And>r h w. J (wst w) \<Longrightarrow> Q (r, h, w)"
  shows "returns Q (check_linear_dir pass h w)"
  unfolding check_linear_dir_def using assms by (auto intro!: kept_entries)

lemma kept_bad_leaf:
  assumes "J (wst w)" "\<And>r l c w. J (wst w) \<Longrightarrow> Q (r, l, c, w)"
  shows "returns Q (bad_leaf pass d l n c w)"
  unfolding bad_leaf_def using assms by (auto intro!: called split: option.split)

lemma kept_leaf_entries:
  assumes "J (wst w)" "\<And>r l bh w. J (wst w) \<Longrightarrow> Q (r, l, bh, w)"
  shows "returns Q (check_leaf_entries pass l n leaf bh w)"
  unfolding check_leaf_entries_def Let_def using assms by (auto intro!: kept_entries kept_wquery simp: returns_def [of _ "wbread _ _"])

lemma kept_leaf:
  assumes "J (wst w)" "\<And>r l lf c w. J (wst w) \<Longrightarrow> Q (r, l, lf, c, w)"
  shows "returns Q (check_leaf pass l n c w)"
  unfolding check_leaf_def Let_def leaf_out_def
  by (insert assms, (rule kept_bad_leaf kept_leaf_entries walk_rules assms(2) | assumption | simp only: prod.case | erule called | (simp; fail) | rule returns_any)+)

lemma kept_get_hash:
  assumes "J (wst w)" "\<And>t w. J (wst w) \<Longrightarrow> Q (t, w)"
  shows "returns Q (get_dir_hash w)"
  unfolding get_dir_hash_def Let_def using assms by (auto simp: returns_def [of _ "gfs2_readi _ _ _ _"] intro: kept_fs)

lemma kept_ok_leaf: "J (wst w) \<Longrightarrow> (\<And>r w. J (wst w) \<Longrightarrow> Q (r, w)) \<Longrightarrow> returns Q (ok_leaf_step tbl i w)"
  unfolding ok_leaf_step_def by (auto simp: returns_def [of _ "wbread _ _"] returns_def [of _ "tbl_at _ _"])

lemma kept_chain:
  assumes "J (wst w)" "\<And>x. (case x of Inl (_, _, w) \<Rightarrow> J (wst w) | Inr (_, _, w) \<Rightarrow> J (wst w)) \<Longrightarrow> Q x"
  shows "returns Q (check_chain_leaf pass i (l, c, w))"
  unfolding check_chain_leaf_def using assms by (auto intro!: kept_leaf)

lemma kept_reread:
  assumes "J (wst (lw_walk e))" "\<And>x. (case x of Inl _ \<Rightarrow> True | Inr e \<Rightarrow> J (wst (lw_walk e))) \<Longrightarrow> Q x"
  shows "returns Q (reread_tbl e)"
  unfolding reread_tbl_def using assms by (auto intro!: kept_get_hash split: option.split)

lemma kept_one_leaf:
  assumes "J (wst (lw_walk e))" "\<And>x. (case x of Inl (_, w) \<Rightarrow> J (wst w) | Inr e \<Rightarrow> J (wst (lw_walk e))) \<Longrightarrow> Q x"
  shows "returns Q (check_one_leaf pass e)"
proof -
  have chain: "returns Q (iterate (check_chain_leaf pass i) (l, c, w))"
    if "J (wst w)" "\<And>r c w. J (wst w) \<Longrightarrow> Q (r, c, w)" for Q :: "_ \<Rightarrow> bool" and i l c w
    by (rule returns_iterate [where I = "\<lambda>(_, _, w). J (wst w)"]) (use that in \<open>auto intro!: kept_chain split: sum.splits\<close>)
  show ?thesis
    unfolding check_one_leaf_def using assms
    by (auto intro!: kept_reread chain simp: returns_def [of _ "tbl_at _ _"] returns_def [of _ "count_refs _ _ _"] next_leaf_def Let_def
          split: sum.splits option.split)
qed

lemma kept_leaf_blks:
  assumes "J (wst w)" "\<And>r w. J (wst w) \<Longrightarrow> Q (r, w)"
  shows "returns Q (check_leaf_blks pass w)"
proof -
  have ok: "returns Q (for_each (ok_leaf_step tbl) xs w)" if "J (wst w)" "\<And>r w. J (wst w) \<Longrightarrow> Q (r, w)" for Q :: "_ \<Rightarrow> bool" and tbl xs w
    by (rule returns_for_each [where I = "\<lambda>w. J (wst w)"]) (use that in \<open>auto intro!: kept_ok_leaf\<close>)
  have all: "returns Q (iterate (check_one_leaf pass) e)" if "J (wst (lw_walk e))" for e
    by (rule returns_iterate [where I = "\<lambda>e. J (wst (lw_walk e))"]) (use that assms(2) in \<open>auto intro!: kept_one_leaf split: sum.splits\<close>)
  show ?thesis
    unfolding check_leaf_blks_def Let_def
    by (insert assms, (rule kept_get_hash ok all walk_rules assms(2) | assumption | simp only: prod.case | erule called | (simp; fail) | rule returns_any)+)
qed

text \<open>Extended attributes.\<close>

lemma kept_ext_step:
  assumes "J (wst w)" "check_eattr_extentry_fn pass = Some f" "\<And>r a b c w. J (wst w) \<Longrightarrow> Q (r, a, b, c, w)"
  shows "returns Q (extentry_step f hdr prev ptrs i (er, tot, bh, w))"
  unfolding extentry_step_def prod.case
  by (insert assms, (rule walk_rules assms(3) | assumption | simp only: prod.case | erule called | (simp; fail) | rule returns_any)+)

lemma kept_ext:
  assumes "J (wst w)" "check_eattr_extentry_fn pass = Some f" "\<And>r a b c w. J (wst w) \<Longrightarrow> Q (r, a, b, c, w)"
  shows "returns Q (for_each (extentry_step f hdr prev ptrs) xs (er, tot, bh, w))"
  by (rule returns_for_each [where I = "\<lambda>(_, _, _, w). J (wst w)"]) (use assms in \<open>auto intro!: kept_ext_step\<close>)

lemma kept_one_eattr:
  assumes "J (wst w)" "\<And>x. (case x of Inl (_, _, w) \<Rightarrow> J (wst w) | Inr (_, _, _, _, w) \<Rightarrow> J (wst w)) \<Longrightarrow> Q x"
  shows "returns Q (check_one_eattr pass (hdr, prev, off, bh, w))"
  unfolding check_one_eattr_def Let_def prod.case
  by (insert assms(1), (rule kept_ext walk_rules assms(2) | assumption | simp only: prod.case | erule called | (simp; fail) | rule returns_any)+)

lemma kept_eattr_entries:
  assumes "J (wst w)" "\<And>r bh w. J (wst w) \<Longrightarrow> Q (r, bh, w)"
  shows "returns Q (check_eattr_entries pass bh w)"
proof -
  have "returns Q (iterate (check_one_eattr pass) (hdr, prev, off, bh, w))" for hdr prev off
    by (rule returns_iterate [where I = "\<lambda>(_, _, _, _, w). J (wst w)"]) (use assms in \<open>auto intro!: kept_one_eattr split: sum.splits\<close>)
  then show ?thesis unfolding check_eattr_entries_def using assms by auto
qed

lemma kept_leaf_eattr:
  assumes "J (wst w)" "\<And>r w. J (wst w) \<Longrightarrow> Q (r, w)"
  shows "returns Q (check_leaf_eattr pass b p w)"
  unfolding check_leaf_eattr_def
  by (insert assms, (rule kept_eattr_entries walk_rules assms(2) | assumption | simp only: prod.case | erule called | (simp split: option.split; fail) | rule returns_any)+)

lemma kept_ea_ptr:
  assumes "J (wst (aw_walk e))" "\<And>r e. J (wst (aw_walk e)) \<Longrightarrow> Q (r, e)"
  shows "returns Q (check_ea_ptr pass ind data p e)"
  unfolding check_ea_ptr_def Let_def
  by (insert assms, (rule kept_leaf_eattr walk_rules assms(2) | assumption | simp only: prod.case | erule called | (simp; fail) | rule returns_any)+)

lemma kept_indirect_eattr:
  assumes "J (wst w)" "\<And>r w. J (wst w) \<Longrightarrow> Q (r, w)"
  shows "returns Q (check_indirect_eattr pass ind bh w)"
proof -
  have loop: "returns Q (for_each (check_ea_ptr pass ind data) xs e)"
    if "J (wst (aw_walk e))" "\<And>r e. J (wst (aw_walk e)) \<Longrightarrow> Q (r, e)" for Q :: "_ \<Rightarrow> bool" and data xs e
    by (rule returns_for_each [where I = "\<lambda>e. J (wst (aw_walk e))"]) (use that in \<open>auto intro!: kept_ea_ptr\<close>)
  show ?thesis
    unfolding check_indirect_eattr_def Let_def
    by (insert assms, (rule loop walk_rules assms(2) | assumption | simp only: prod.case | erule called | (simp; fail) | rule returns_any)+)
qed

lemma kept_inode_eattr:
  assumes "J (wst w)" "\<And>r w. J (wst w) \<Longrightarrow> Q (r, w)"
  shows "returns Q (check_inode_eattr pass w)"
  unfolding check_inode_eattr_def Let_def
  by (insert assms, (rule kept_leaf_eattr kept_indirect_eattr walk_rules assms(2) | assumption | simp only: prod.case | erule called
      | (simp split: option.split; fail) | rule returns_any)+)

text \<open>The tree of indirect blocks.\<close>

lemma kept_do_metalist:
  assumes "J (wst w)" "\<And>r nbh h w. J (wst w) \<Longrightarrow> Q (r, nbh, h, w)"
  shows "returns Q (do_check_metalist pass h off k w)"
  unfolding do_check_metalist_def Let_def
  by (insert assms, (rule assms(2) walk_rules assms(2) | assumption | simp only: prod.case | erule called | (simp; fail) | rule returns_any)+)

lemma kept_undo_metas:
  assumes "J (wst w)" "\<And>w. J (wst w) \<Longrightarrow> Q w"
  shows "returns Q (undo_metas pass k h start off w)"
proof -
  have step: "returns (\<lambda>(_, w). J (wst w)) (undo_meta_step f k h off w)" if "undo_check_meta_fn pass = Some f" "J (wst w)" for f off w
    using that by (auto simp: undo_meta_step_def intro!: called_undo_meta)
  have "returns (\<lambda>x. Q (snd x)) (for_each (undo_meta_step f k h) xs w)" if "undo_check_meta_fn pass = Some f" for f xs
    by (rule returns_for_each [where I = "\<lambda>w. J (wst w)"]) (use assms step [OF that] in auto)
  then show ?thesis unfolding undo_metas_def using assms by (auto split: option.split)
qed

lemma kept_meta_ptr:
  assumes "J (wst w)" "\<And>r h cur w. J (wst w) \<Longrightarrow> Q (r, h, cur, w)"
  shows "returns Q (meta_ptr_step pass k start off (h, cur, w))"
  unfolding meta_ptr_step_def Let_def prod.case
  by (insert assms, (rule kept_do_metalist kept_undo_metas walk_rules assms(2) | assumption | simp only: prod.case | erule called | (simp; fail) | rule returns_any)+)

lemma kept_meta_block:
  assumes "J (wst w)" "\<And>r a b w. J (wst w) \<Longrightarrow> Q (r, a, b, w)"
  shows "returns Q (meta_block_step pass k h (ready, cur, w))"
proof -
  have "returns Q (for_each (meta_ptr_step pass k start) xs (h, cur, w))"
    if "J (wst w)" "\<And>r h cur w. J (wst w) \<Longrightarrow> Q (r, h, cur, w)" for Q :: "_ \<Rightarrow> bool" and start xs h cur w
    by (rule returns_for_each [where I = "\<lambda>(_, _, w). J (wst w)"]) (use that in \<open>auto intro!: kept_meta_ptr\<close>)
  note loop = this
  show ?thesis
    unfolding meta_block_step_def Let_def prod.case
    by (insert assms, (rule loop walk_rules assms(2) | assumption | simp only: prod.case | erule called | (simp; fail) | rule returns_any)+)
qed

lemma kept_meta_level:
  assumes "J (wst w)" "\<And>r mlp w. J (wst w) \<Longrightarrow> Q (r, mlp, w)"
  shows "returns Q (meta_level_step pass k (mlp, w))"
proof -
  have "returns Q (for_each (meta_block_step pass k) xs (a, b, w))"
    if "J (wst w)" "\<And>r a b w. J (wst w) \<Longrightarrow> Q (r, a, b, w)" for Q :: "_ \<Rightarrow> bool" and xs a b w
    by (rule returns_for_each [where I = "\<lambda>(_, _, w). J (wst w)"]) (use that in \<open>auto intro!: kept_meta_block\<close>)
  note loop = this
  show ?thesis
    unfolding meta_level_step_def Let_def prod.case
    by (insert assms, (rule loop walk_rules assms(2) | assumption | simp only: prod.case | erule called | (simp; fail) | rule returns_any)+)
qed

lemma kept_metalist:
  assumes "J (wst w)" "\<And>r mlp w. J (wst w) \<Longrightarrow> Q (r, mlp, w)"
  shows "returns Q (build_and_check_metalist pass w)"
proof -
  have "returns Q (for_each (meta_level_step pass) xs (mlp, w))"
    if "J (wst w)" "\<And>r mlp w. J (wst w) \<Longrightarrow> Q (r, mlp, w)" for Q :: "_ \<Rightarrow> bool" and xs mlp w
    by (rule returns_for_each [where I = "\<lambda>(_, w). J (wst w)"]) (use that in \<open>auto intro!: kept_meta_level\<close>)
  note loop = this
  show ?thesis
    unfolding build_and_check_metalist_def Let_def
    by (insert assms, (rule loop walk_rules assms(2) | assumption | simp only: prod.case | erule called | (simp; fail) | rule returns_any)+)
qed

lemma kept_free_metalist [simp]: "J (wst w) \<Longrightarrow> J (wst (free_metalist ls mlp w))"
proof -
  have "J (wst w) \<Longrightarrow> J (wst (fold wrelease xs w))" for xs
    by (induction xs arbitrary: w) auto
  then show "J (wst w) \<Longrightarrow> J (wst (free_metalist ls mlp w))" unfolding free_metalist_def by blast
qed

text \<open>The data blocks, and the tree as a whole.\<close>

lemma kept_data_step:
  assumes "J (wst w)" "\<And>r a b c w. J (wst w) \<Longrightarrow> Q (r, a, b, c, w)" "check_data_fn pass = Some f"
  shows "returns Q (check_data_step f off (er, eb, h, w))"
  unfolding check_data_step_def Let_def prod.case
  by (insert assms, (rule assms(2) walk_rules assms(2) | assumption | simp only: prod.case | erule called | (simp; fail) | rule returns_any)+)

lemma kept_check_data:
  assumes "J (wst w)" "\<And>r eb h w. J (wst w) \<Longrightarrow> Q (r, eb, h, w)" "check_data_fn pass = Some f"
  shows "returns Q (metawalk_check_data f k eb h w)"
proof -
  have "returns (\<lambda>x. Q (snd x)) (for_each (check_data_step f) xs (0, eb, h, w))" for xs
    by (rule returns_for_each [where I = "\<lambda>(_, _, _, w). J (wst w)"]) (use assms in \<open>auto intro!: kept_data_step\<close>)
  then show ?thesis unfolding metawalk_check_data_def by simp
qed

lemma kept_undo_data_step:
  assumes "J (wst w)" "\<And>r a w. J (wst w) \<Longrightarrow> Q (r, a, w)"
  shows "returns Q (undo_data_step pass eb er h off (found, w))"
  unfolding undo_data_step_def Let_def prod.case
  by (insert assms, (rule assms(2) walk_rules assms(2) | assumption | simp only: prod.case | erule called | (simp; fail) | rule returns_any)+)

lemma kept_undo_data:
  assumes "J (wst w)" "\<And>r w. J (wst w) \<Longrightarrow> Q (r, w)"
  shows "returns Q (undo_check_data pass k eb er h w)"
proof -
  have "returns (\<lambda>x. Q ((\<lambda>(r, found, w). (case r of None \<Rightarrow> found | Some r \<Rightarrow> r, w)) x)) (for_each (undo_data_step pass eb er h) xs (0, w))" for xs
    by (rule returns_for_each [where I = "\<lambda>(_, w). J (wst w)"]) (use assms in \<open>auto intro!: kept_undo_data_step\<close>)
  then show ?thesis unfolding undo_check_data_def by simp
qed

lemma kept_data_block:
  assumes "J (wst w)" "\<And>r a eb w. J (wst w) \<Longrightarrow> Q (r, a, eb, w)"
  shows "returns Q (data_block_step pass k h (ready, eb, w))"
  unfolding data_block_step_def Let_def prod.case
  by (insert assms, (rule kept_check_data walk_rules assms(2) | assumption | simp only: prod.case | erule called | (simp; fail) | rule returns_any)+)

lemma kept_undo_block:
  assumes "J (wst w)" "\<And>r hit w. J (wst w) \<Longrightarrow> Q (r, hit, w)"
  shows "returns Q (undo_block_step pass mc eb er k (i, h) (hit, w))"
  unfolding undo_block_step_def Let_def prod.case
  by (insert assms, (rule kept_undo_data walk_rules assms(2) | assumption | simp only: prod.case | erule called | (simp; fail) | rule returns_any)+)

lemma kept_undo_metalist:
  assumes "J (wst w)" "\<And>r w. J (wst w) \<Longrightarrow> Q (r, w)"
  shows "returns Q (undo_metalist pass mc k eb er mlp w)"
proof -
  have loop: "returns Q (for_each (undo_block_step pass mc eb er k) xs (hit, w))"
    if "J (wst w)" "\<And>r hit w. J (wst w) \<Longrightarrow> Q (r, hit, w)" for Q :: "_ \<Rightarrow> bool" and xs hit w
    by (rule returns_for_each [where I = "\<lambda>(_, w). J (wst w)"]) (use that in \<open>auto intro!: kept_undo_block\<close>)
  show ?thesis
    unfolding undo_metalist_def Let_def
    by (insert assms, (rule loop walk_rules assms(2) | assumption | simp only: prod.case | erule called | (simp add: kept_dups; fail)
          | rule returns_any)+)
qed

lemma kept_metatree:
  assumes "J (wst w)" "\<And>r w. J (wst w) \<Longrightarrow> Q (r, w)"
  shows "returns Q (check_metatree pass w)"
proof -
  have loop: "returns Q (for_each (data_block_step pass k) xs (a, eb, w))"
    if "J (wst w)" "\<And>r a eb w. J (wst w) \<Longrightarrow> Q (r, a, eb, w)" for Q :: "_ \<Rightarrow> bool" and k xs a eb w
    by (rule returns_for_each [where I = "\<lambda>(_, _, w). J (wst w)"]) (use that in \<open>auto intro!: kept_data_block\<close>)
  show ?thesis
    unfolding check_metatree_def Let_def
    by (insert assms, (rule loop kept_metalist kept_undo_metalist kept_leaf_blks walk_rules assms(2) | assumption | simp only: prod.case | erule called | (simp; fail) | rule returns_any)+)
qed

end

end
