(* ===== verification/FsckPass1.thy ===== *)
theory FsckPass1
  imports FsckWalk FsckReplay
begin

text \<open>
  Pass 1 of fsck.gfs2 (pass1.c): every inode is walked over, and every block that it refers to is marked in the map of
  blocks. A block that is marked already is a duplicate reference. Inodes with too many bad pointers are removed.

  The \<open>private\<close> data of the pass's functions are one record: the counts of an inode's blocks, the count of bad pointers of
  the range check, and the list of rindex blocks of gfs1 that is static in the file. \<open>now\<close> is the time that \<open>gfs1_writei\<close> sets.
  None is the result where the code uses a null pointer or reads past a buffer.
\<close>

section \<open>The map of blocks\<close>

record pass1_private =
  indir_count :: u64
  data_count :: u64
  ea_count :: u64
  bad_pointers :: int
  gfs1_rindex_blks :: "u64 list"

type_synonym p1_walk = "pass1_private walk"

definition on_priv :: "('p \<Rightarrow> 'p) \<Rightarrow> 'p walk \<Rightarrow> 'p walk" where
  "on_priv f w = w\<lparr>wpriv := f (wpriv w)\<rparr>"

text \<open>The mark of a block, in the map and in the bitmap; \<open>fsck_blkmap_set_noino\<close> is for a block that must not be an inode.\<close>

definition p1_mark :: "u64 \<Rightarrow> nat \<Rightarrow> 'p walk \<Rightarrow> (int \<times> 'p walk) option" where
  "p1_mark bblock mark w = on_state (fsck_blockmap_set (wrgd w) bblock mark False) w"

definition p1_mark_noino :: "u64 \<Rightarrow> nat \<Rightarrow> 'p walk \<Rightarrow> (int \<times> 'p walk) option" where
  "p1_mark_noino bblock mark w = on_state (fsck_blockmap_set (wrgd w) bblock mark True) w"

definition bl_type :: "u64 \<Rightarrow> 'p walk \<Rightarrow> nat option" where
  "bl_type block w = block_type (blockmap (wst w)) block"

definition bl_set :: "u64 \<Rightarrow> nat \<Rightarrow> 'p walk \<Rightarrow> 'p walk" where
  "bl_set block mark w = w\<lparr>wst := (wst w)\<lparr>blockmap := snd (gfs2_blockmap_set (blockmap (wst w)) block mark)\<rparr>\<rparr>"

text \<open>The state of a metadata block that is not an inode.\<close>

definition meta_state :: "'p walk \<Rightarrow> nat" where
  "meta_state w = (if sd_gfs1 (wsdp w) then GFS2_BLKST_DINODE else GFS2_BLKST_USED)"

definition add_dup :: "u64 \<Rightarrow> dup_ref_type \<Rightarrow> 'p walk \<Rightarrow> 'p walk" where
  "add_dup block reftype w = w\<lparr>wst := snd (add_duplicate_ref (waddr w) block reftype False True (wst w))\<rparr>"

definition delete_block :: "u64 \<Rightarrow> 'p walk \<Rightarrow> (int \<times> 'p walk) option" where
  "delete_block block w =
     (if valid_block_ip (wfs w) block then map_option (\<lambda>(_, w). (0, w)) (p1_mark block GFS2_BLKST_FREE w) else Some (-1, w))"

section \<open>Leaves and system directories\<close>

text \<open>\<open>gfs2_writei\<close> and \<open>gfs1_writei\<close> of the inode of the walk.\<close>

definition walk_writei :: "u64 \<Rightarrow> bytes \<Rightarrow> u64 \<Rightarrow> 'p walk \<Rightarrow> 'p walk option" where
  "walk_writei now buf offset w =
     (if sd_gfs1 (wsdp w)
      then map_option (\<lambda>(_, fs, ip). w\<lparr>wst := (wst w)\<lparr>fk_fs := fs\<rparr>, wip := ip\<rparr>) (gfs1_writei now (wfs w) (wip w) buf offset)
      else map_option (\<lambda>(_, fs, ip). w\<lparr>wst := (wst w)\<lparr>fk_fs := fs\<rparr>, wip := ip\<rparr>) (gfs2_writei_resize (wfs w) (wip w) buf offset True))"

definition pass1_repair_leaf :: "u64 \<Rightarrow> u64 \<Rightarrow> nat \<Rightarrow> int \<Rightarrow> 'p walk \<Rightarrow> (int \<times> u64 \<times> 'p walk) option" where
  "pass1_repair_leaf now leaf_no lindex ref_count w = do {
     (ok, w) \<leftarrow> wquery w;
     if \<not> ok then Some (0, 0, w)
     else map_option (\<lambda>w. (0, 0, w)) (walk_writei now (replicate (8 * nat ref_count) 0) (8 * of_nat lindex) w)
   }"

definition resuscitate_metalist :: "holder \<Rightarrow> nat \<Rightarrow> nat \<Rightarrow> p1_walk \<Rightarrow> (int \<times> checked_meta \<times> holder \<times> p1_walk) option" where
  "resuscitate_metalist bh off h w =
     (let block = ptr_at bh off w; cm = \<lparr>cm_bh = None, cm_valid = True, cm_dup = False\<rparr> in
      if \<not> valid_block_ip (wfs w) block then do {
        (_, w) \<leftarrow> p1_mark (waddr w) GFS2_BLKST_UNLINKED w;
        Some (META_IS_GOOD, cm\<lparr>cm_valid := False\<rparr>, bh, w)
      }
      else do {
        (_, w) \<leftarrow> (if fsck_system_inode (wst w) block \<noteq> None then p1_mark block (meta_state w) w
                   else on_state (check_n_fix_bitmap (wrgd w) block False (meta_state w)) w);
        Some (META_IS_GOOD, cm, bh, on_priv (indir_count_update (\<lambda>n. n + 1)) w)
      })"

definition resuscitate_dentry ::
  "nat \<Rightarrow> nat option \<Rightarrow> holder \<Rightarrow> u32 \<Rightarrow> int \<Rightarrow> 'p walk \<Rightarrow> (int \<times> holder \<times> u32 \<times> int \<times> 'p walk) option" where
  "resuscitate_dentry dent prev_de bh count lindex w =
     (let block = in_addr (dr_inum (lgfs2_dirent_in dirent_zero (wdata bh w) dent)) in
      if \<not> valid_block_ip (wfs w) block then Some (0, bh, count, lindex, w)
      else do {
        (_, w) \<leftarrow> (if fsck_system_inode (wst w) block \<noteq> None then p1_mark block GFS2_BLKST_DINODE w
                   else on_state (check_n_fix_bitmap (wrgd w) block False GFS2_BLKST_DINODE) w);
        Some (0, bh, ucast (leaf_entries (wdata bh w)), lindex, w)
      })"

text \<open>
  A leaf that was seen as a leaf before is not marked again. The result is then EEXIST, where \<open>check_leaf\<close> compares with
  its negative.
\<close>

definition p1check_leaf :: "u64 \<Rightarrow> p1_walk \<Rightarrow> (int \<times> p1_walk) option" where
  "p1check_leaf block w = do {
     let w = on_priv (indir_count_update (\<lambda>n. n + 1)) w;
     q \<leftarrow> bl_type block w;
     let w = (if q \<noteq> GFS2_BLKST_FREE then add_dup block REF_AS_META w else w);
     if q \<noteq> GFS2_BLKST_FREE \<and> q = meta_state w then Some (E_EXIST, w)
     else map_option (\<lambda>(_, w). (0, w)) (p1_mark block (meta_state w) w)
   }"

section \<open>Indirect blocks and data\<close>

definition pass1_check_metalist :: "holder \<Rightarrow> nat \<Rightarrow> nat \<Rightarrow> p1_walk \<Rightarrow> (int \<times> checked_meta \<times> holder \<times> p1_walk) option" where
  "pass1_check_metalist bh off h w =
     (let block = ptr_at bh off w in
      if \<not> valid_block_ip (wfs w) block then do {
        (_, w) \<leftarrow> p1_mark (waddr w) GFS2_BLKST_UNLINKED w;
        Some (META_SKIP_FURTHER, \<lparr>cm_bh = None, cm_valid = False, cm_dup = False\<rparr>, bh, w)
      }
      else do {
        let iblk = (if is_dir (wip w) (sd_gfs1 (wsdp w)) \<and> h = unat (i_height (vi (wip w))) then GFS2_METATYPE_JD else GFS2_METATYPE_IN);
        q \<leftarrow> bl_type block w;
        let dup = (q \<noteq> GFS2_BLKST_FREE);
        nbh \<leftarrow> wbread w block;
        if gfs2_check_meta (b_data nbh) iblk \<noteq> 0 then do {
          (ok, w) \<leftarrow> wquery w;
          if ok then let (bh, w) = wput (put_be64 off 0) bh w
                     in Some (META_SKIP_ONE, \<lparr>cm_bh = None, cm_valid = True, cm_dup = dup\<rparr>, bh, w)
          else Some (META_SKIP_FURTHER, \<lparr>cm_bh = None, cm_valid = False, cm_dup = dup\<rparr>, bh, wrelse nbh w)
        }
        else
          let w = on_priv (indir_count_update (\<lambda>n. n + 1)) w in
          if dup then Some (META_IS_GOOD, \<lparr>cm_bh = None, cm_valid = True, cm_dup = True\<rparr>, bh, wrelse nbh (add_dup block REF_AS_META w))
          else map_option (\<lambda>(_, w). (META_IS_GOOD, \<lparr>cm_bh = Some nbh, cm_valid = True, cm_dup = False\<rparr>, bh, w))
                 (p1_mark block (meta_state w) w)
      })"

text \<open>All entries of an inode in a node of the tree of duplicates are removed, one after the other.\<close>

definition drop_dup_refs :: "u64 \<Rightarrow> duptree \<Rightarrow> duptree option" where
  "drop_dup_refs addr = iterate (\<lambda>dt. Some (case find_dup_ref_inode dt addr of None \<Rightarrow> Inl dt
     | Some (invalid, rid) \<Rightarrow> Inr (dup_listent_delete invalid rid dt)))"

definition undo_reference :: "u64 \<Rightarrow> bool \<Rightarrow> p1_walk \<Rightarrow> (int \<times> p1_walk) option" where
  "undo_reference block meta w =
     (if \<not> valid_block_ip (wfs w) block then map_option (\<lambda>(_, w). (1, w)) (p1_mark (waddr w) GFS2_BLKST_FREE w)
      else do {
        let w = (if meta then on_priv (indir_count_update (\<lambda>n. n - 1)) w else w);
        (still, w) \<leftarrow>
          (case dupfind (wst w) block of None \<Rightarrow> Some (False, w)
           | Some dt \<Rightarrow> do {
               dt \<leftarrow> drop_dup_refs (waddr w) dt;
               let st = put_dup dt (wst w);
               Some (refs dt \<noteq> 0, w\<lparr>wst := (if refs dt = 1 then dup_delete dt st else st)\<rparr>)
             });
        if still then Some (1, w)
        else if \<not> meta \<and> bitmap_type (wfs w) block = int GFS2_BLKST_DINODE then Some (-1, w)
        else map_option (\<lambda>(_, w). (0, w)) (p1_mark block GFS2_BLKST_FREE w)
      })"

definition undo_check_metalist :: "u64 \<Rightarrow> nat \<Rightarrow> p1_walk \<Rightarrow> (int \<times> p1_walk) option" where
  "undo_check_metalist block h w = undo_reference block True w"

definition pass1_undo_check_data :: "u64 \<Rightarrow> p1_walk \<Rightarrow> (int \<times> p1_walk) option" where
  "pass1_undo_check_data block w = undo_reference block False w"

text \<open>A block that is an inode in the bitmap and looks like one is not taken as data.\<close>

definition blockmap_set_as_data :: "u64 \<Rightarrow> 'p walk \<Rightarrow> (int \<times> 'p walk) option" where
  "blockmap_set_as_data block w = do {
     (error, w) \<leftarrow> p1_mark_noino block GFS2_BLKST_USED w;
     if error = 0 then Some (0, w)
     else do {
       bh \<leftarrow> wbread w block;
       if gfs2_check_meta (b_data bh) GFS2_METATYPE_DI = 0 \<and>
          get_be64 (b_data bh) (offsetof struct_gfs2_dinode ''di_num'' + offsetof struct_gfs2_inum ''no_addr'') = block
       then Some (-1, wrelse bh w)
       else map_option (\<lambda>(_, w). (0, wrelse bh w)) (p1_mark block GFS2_BLKST_USED w)
     }
   }"

text \<open>Whether a block looks like metadata that is not an inode.\<close>

definition looks_like_meta :: "bytes \<Rightarrow> bool" where
  "looks_like_meta b =
     (let mh_type = get_be32 b (offsetof struct_gfs2_meta_header ''mh_type'') in
      get_be32 b (offsetof struct_gfs2_meta_header ''mh_magic'') = GFS2_MAGIC \<and> GFS2_METATYPE_RG \<le> mh_type \<and> mh_type \<le> GFS2_METATYPE_QC \<and>
      mh_type \<noteq> GFS2_METATYPE_DI \<and> get_be32 b (offsetof struct_gfs2_meta_header ''mh_format'') mod 100 = 0)"

definition pass1_check_data :: "u64 \<Rightarrow> u64 \<Rightarrow> holder \<Rightarrow> nat \<Rightarrow> p1_walk \<Rightarrow> (int \<times> holder \<times> p1_walk) option" where
  "pass1_check_data metablock block bbh ptr w =
     (if \<not> valid_block_ip (wfs w) block then map_option (\<lambda>(_, w). (-1, bbh, w)) (p1_mark (waddr w) GFS2_BLKST_UNLINKED w)
      else do {
        let w = on_priv (data_count_update (\<lambda>n. n + 1)) w;
        q \<leftarrow> bl_type block w;
        if q = GFS2_BLKST_DINODE then Some (1, bbh, add_dup block REF_AS_DATA w)
        else if q = GFS2_BLKST_USED then do {
          bh \<leftarrow> wbread w block;
          Some (if looks_like_meta (b_data bh) then 1 else 0, bbh, add_dup block REF_AS_DATA (wrelse bh w))
        }
        else if q = GFS2_BLKST_UNLINKED then Some (0, bbh, add_dup block REF_AS_DATA w)
        else if sd_gfs1 (wsdp w) \<and> inode_at (waddr w) (md_riinode (fk_md (wst w))) then
          map_option (\<lambda>(_, w). (0, bbh, w))
            (p1_mark block GFS2_BLKST_DINODE (on_priv (gfs1_rindex_blks_update (\<lambda>l. gfs2_special_set l block)) w))
        else if sd_gfs1 (wsdp w) \<and> i_flags (vi (wip w)) AND GFS2_DIF_JDATA \<noteq> 0 then
          map_option (\<lambda>(_, w). (0, bbh, w)) (p1_mark block GFS2_BLKST_DINODE w)
        else map_option (\<lambda>(r, w). (r, bbh, w)) (blockmap_set_as_data block w)
      })"

section \<open>Extended attributes\<close>

definition ask_remove_inode_eattr :: "p1_walk \<Rightarrow> (int \<times> p1_walk) option" where
  "ask_remove_inode_eattr w =
     (if i_eattr (vi (wip w)) = 0 then Some (0, w)
      else do {
        (ok, w) \<leftarrow> wquery w;
        if \<not> ok then Some (0, w)
        else do {
          (_, w) \<leftarrow> undo_reference (i_eattr (vi (wip w))) False w;
          let w = on_priv (ea_count_update (\<lambda>_. 0)) w;
          let ip = (vi (wip w))\<lparr>i_eattr := 0, i_blocks := 1 + indir_count (wpriv w) + data_count (wpriv w),
                     i_flags := i_flags (vi (wip w)) AND NOT GFS2_DIF_EA_INDIRECT\<rparr>;
          Some (0, wdirty (w\<lparr>wip := (wip w)\<lparr>vi := ip\<rparr>\<rparr>))
        }
      })"

definition undo_eattr_indir_or_leaf :: "u64 \<Rightarrow> u64 \<Rightarrow> p1_walk \<Rightarrow> (int \<times> gfs2_buffer_head option \<times> p1_walk) option" where
  "undo_eattr_indir_or_leaf block parent w =
     (if \<not> valid_block_ip (wfs w) block then Some (META_ERROR, None, w)
      else do {
        q \<leftarrow> bl_type block w;
        (error, w) \<leftarrow> undo_reference block False w;
        if error \<noteq> 0 then Some (error, None, w)
        else
          let w = on_priv (ea_count_update (\<lambda>n. n - 1)) w in
          if q \<noteq> meta_state w then Some (1, None, w)
          else map_option (\<lambda>bh. (0, Some bh, w)) (wbread w block)
      })"

definition count_ea :: "p1_walk \<Rightarrow> p1_walk" where
  "count_ea = on_priv (ea_count_update (\<lambda>n. n + 1))"

definition pass1_check_eattr_indir :: "u64 \<Rightarrow> u64 \<Rightarrow> p1_walk \<Rightarrow> (int \<times> gfs2_buffer_head option \<times> p1_walk) option" where
  "pass1_check_eattr_indir indirect parent w =
     (if \<not> valid_block_ip (wfs w) indirect then Some (1, None, w)
      else do {
        q \<leftarrow> bl_type indirect w;
        bh \<leftarrow> wbread w indirect;
        if gfs2_check_meta (b_data bh) GFS2_METATYPE_IN \<noteq> 0 then
          let w = count_ea w in
          Some (if q \<noteq> GFS2_BLKST_FREE then (0, Some bh, add_dup indirect REF_AS_EA w) else (1, Some bh, w))
        else if q \<noteq> GFS2_BLKST_FREE then Some (0, Some bh, count_ea (add_dup indirect REF_AS_EA w))
        else map_option (\<lambda>(_, w). (0, Some bh, count_ea w)) (p1_mark indirect (meta_state w) w)
      })"

definition finish_eattr_indir :: "nat \<Rightarrow> nat \<Rightarrow> p1_walk \<Rightarrow> (int \<times> p1_walk) option" where
  "finish_eattr_indir leaf_pointers leaf_pointer_errors w =
     (if leaf_pointer_errors = leaf_pointers then ask_remove_inode_eattr w
      else if leaf_pointer_errors = 0 then Some (0, w)
      else do {
        (ok, w) \<leftarrow> wquery w;
        let blocks = 1 + indir_count (wpriv w) + data_count (wpriv w) + ea_count (wpriv w);
        Some (1, if ok then wdirty (w\<lparr>wip := (wip w)\<lparr>vi := (vi (wip w))\<lparr>i_blocks := blocks\<rparr>\<rparr>\<rparr>) else w)
      })"

text \<open>A block of the wrong type that is no duplicate is not marked, and its buffer is given back only when all is well.\<close>

definition check_ealeaf_block :: "u64 \<Rightarrow> u32 \<Rightarrow> p1_walk \<Rightarrow> (int \<times> gfs2_buffer_head option \<times> p1_walk) option" where
  "check_ealeaf_block block btype w = do {
     q \<leftarrow> bl_type block w;
     leaf_bh \<leftarrow> wbread w block;
     if gfs2_check_meta (b_data leaf_bh) btype \<noteq> 0 then
       let w = count_ea w in
       Some (if q \<noteq> GFS2_BLKST_FREE then (0, None, add_dup block REF_AS_EA w) else (1, None, wrelse leaf_bh w))
     else if q \<noteq> GFS2_BLKST_FREE then Some (0, None, wrelse leaf_bh (count_ea (add_dup block REF_AS_DATA w)))
     else map_option (\<lambda>(_, w). (0, Some leaf_bh, count_ea w)) (p1_mark block (meta_state w) w)
   }"

definition check_extended_leaf_eattr ::
  "nat \<Rightarrow> nat \<Rightarrow> gfs2_buffer_head \<Rightarrow> u32 \<Rightarrow> nat \<Rightarrow> nat option \<Rightarrow> p1_walk \<Rightarrow> (int \<times> gfs2_buffer_head \<times> p1_walk) option" where
  "check_extended_leaf_eattr i data_ptr leaf_bh tot_ealen hdr prev w = do {
     let el_blk = get_be64 (b_data leaf_bh) data_ptr;
     (error, bh, w) \<leftarrow>
       (if \<not> valid_block_ip (wfs w) el_blk
        then map_option (\<lambda>(_, w). (1, None, w)) (p1_mark (i_eattr (vi (wip w))) GFS2_BLKST_UNLINKED w)
        else check_ealeaf_block el_blk GFS2_METATYPE_ED w);
     let w = (case bh of None \<Rightarrow> w | Some bh \<Rightarrow> wrelse bh w);
     if error = 0 then Some (0, leaf_bh, w)
     else do {
       (ok, w) \<leftarrow> wquery w;
       if \<not> ok then Some (1, leaf_bh, w)
       else do {
         let b = (b_data leaf_bh)[hdr + offsetof struct_gfs2_ea_header ''ea_num_ptrs'' := of_nat i];
         let b = put_be32 (hdr + offsetof struct_gfs2_ea_header ''ea_data_len'') tot_ealen b;
         let leaf_bh = bmodified (leaf_bh\<lparr>b_data := put_be64 data_ptr 0 b\<rparr>);
         (_, w) \<leftarrow> p1_mark (i_eattr (vi (wip w))) (meta_state w) w;
         Some (0, leaf_bh, w)
       }
     }
   }"

definition pass1_check_eattr_leaf :: "u64 \<Rightarrow> u64 \<Rightarrow> p1_walk \<Rightarrow> (int \<times> gfs2_buffer_head option \<times> p1_walk) option" where
  "pass1_check_eattr_leaf block parent w =
     (if \<not> valid_block_ip (wfs w) block
      then map_option (\<lambda>(_, w). (1, None, w)) (p1_mark (i_eattr (vi (wip w))) GFS2_BLKST_UNLINKED w)
      else check_ealeaf_block block GFS2_METATYPE_EA w)"

text \<open>The entry is marked as unused or joined to the one before it.\<close>

definition ask_remove_eattr_entry ::
  "gfs2_buffer_head \<Rightarrow> nat \<Rightarrow> nat option \<Rightarrow> bool \<Rightarrow> bool \<Rightarrow> 'p walk \<Rightarrow> (int \<times> gfs2_buffer_head \<times> 'p walk) option" where
  "ask_remove_eattr_entry leaf_bh cur prev fix_curr fix_curr_len w = do {
     (ok, w) \<leftarrow> wquery w;
     if \<not> ok then Some (0, leaf_bh, w)
     else
       let fl = offsetof struct_gfs2_ea_header ''ea_flags''; rl = offsetof struct_gfs2_ea_header ''ea_rec_len'';
           b = b_data leaf_bh;
           b = (if fix_curr then b[cur + fl := ea_flags b cur OR GFS2_EAFLAG_LAST] else b);
           b = (if fix_curr_len then put_be32 (cur + rl) (sd_bsize (wsdp w) - of_nat cur) b else b);
           b = (case prev of None \<Rightarrow> b[cur + offsetof struct_gfs2_ea_header ''ea_type'' := GFS2_EATYPE_UNUSED]
                | Some prev \<Rightarrow>
                    let b = put_be32 (prev + rl) (ea_rec_len b cur + ea_rec_len b prev) b
                    in if ea_flags b cur AND GFS2_EAFLAG_LAST \<noteq> 0 then b[prev + fl := ea_flags b prev OR GFS2_EAFLAG_LAST] else b)
       in Some (1, bmodified (leaf_bh\<lparr>b_data := b\<rparr>), w)
   }"

definition eatype_max :: "u32 \<Rightarrow> u8" where
  "eatype_max fs_format = (if fs_format < 1802 then 3 else 4)"

text \<open>\<open>check_eattr_entries\<close> of pass1.c: one entry.\<close>

definition pass1_check_eattr_entry ::
  "gfs2_buffer_head \<Rightarrow> nat \<Rightarrow> nat option \<Rightarrow> 'p walk \<Rightarrow> (int \<times> gfs2_buffer_head \<times> 'p walk) option" where
  "pass1_check_eattr_entry leaf_bh hdr prev w =
     (let b = b_data leaf_bh; max_size = sd_bsize (wsdp w); end_at = of_nat hdr + ea_rec_len b hdr;
          avail_size = max_size - of_nat (sizeof struct_gfs2_meta_header);
          max_ptrs = (ea_data_len b hdr + avail_size - 1) div avail_size in
      if ea_name_len b hdr = 0 \<or> max_size < end_at then ask_remove_eattr_entry leaf_bh hdr prev True True w
      else if end_at = max_size \<and> ea_flags b hdr AND GFS2_EAFLAG_LAST = 0 then ask_remove_eattr_entry leaf_bh hdr prev False False w
      else if eatype_max (sd_fs_format (wsdp w)) < ea_type b hdr \<and> (prev \<noteq> None \<or> ea_type b hdr \<noteq> 0)
      then ask_remove_eattr_entry leaf_bh hdr prev False False w
      else if ea_num_ptrs b hdr = 0 then Some (0, leaf_bh, w)
      else if ucast (ea_num_ptrs b hdr) < max_ptrs then ask_remove_eattr_entry leaf_bh hdr prev False False w
      else Some (0, leaf_bh, w))"

definition pass1_fxns :: "u64 \<Rightarrow> pass1_private metawalk_fxns" where
  "pass1_fxns now = no_fxns\<lparr>check_leaf_fn := Some p1check_leaf, check_metalist_fn := Some pass1_check_metalist,
     check_data_fn := Some pass1_check_data, check_eattr_indir_fn := Some pass1_check_eattr_indir,
     check_eattr_leaf_fn := Some pass1_check_eattr_leaf, check_eattr_entry_fn := Some pass1_check_eattr_entry,
     check_eattr_extentry_fn := Some check_extended_leaf_eattr, repair_leaf_fn := Some (pass1_repair_leaf now),
     undo_check_meta_fn := Some undo_check_metalist, undo_check_data_fn := Some pass1_undo_check_data,
     delete_block_fn := Some delete_block\<rparr>"

definition sysdir_fxns :: "pass1_private metawalk_fxns" where
  "sysdir_fxns = no_fxns\<lparr>check_metalist_fn := Some resuscitate_metalist, check_dentry_fn := Some resuscitate_dentry,
     delete_block_fn := Some delete_block\<rparr>"

section \<open>The range check\<close>

abbreviation (input) BAD_POINTER_TOLERANCE :: int where "BAD_POINTER_TOLERANCE \<equiv> 10"

definition rangecheck_block :: "u64 \<Rightarrow> p1_walk \<Rightarrow> (int \<times> p1_walk) option" where
  "rangecheck_block block w = do {
     bad \<leftarrow> (if \<not> valid_block_ip (wfs w) block then Some True else map_option (\<lambda>q. q \<noteq> GFS2_BLKST_FREE) (bl_type block w));
     let w = (if bad then on_priv (bad_pointers_update (\<lambda>n. n + 1)) w else w);
     Some (if \<not> bad \<or> bad_pointers (wpriv w) \<le> BAD_POINTER_TOLERANCE then META_IS_GOOD else META_ERROR, w)
   }"

definition rangecheck_metadata :: "holder \<Rightarrow> nat \<Rightarrow> nat \<Rightarrow> p1_walk \<Rightarrow> (int \<times> checked_meta \<times> holder \<times> p1_walk) option" where
  "rangecheck_metadata bh off h w =
     map_option (\<lambda>(r, w). (r, \<lparr>cm_bh = None, cm_valid = True, cm_dup = False\<rparr>, bh, w)) (rangecheck_block (ptr_at bh off w) w)"

definition rangecheck_leaf :: "u64 \<Rightarrow> p1_walk \<Rightarrow> (int \<times> p1_walk) option" where
  "rangecheck_leaf = rangecheck_block"

definition rangecheck_data :: "u64 \<Rightarrow> u64 \<Rightarrow> holder \<Rightarrow> nat \<Rightarrow> p1_walk \<Rightarrow> (int \<times> holder \<times> p1_walk) option" where
  "rangecheck_data metablock block bh ptr w = map_option (\<lambda>(r, w). (r, bh, w)) (rangecheck_block block w)"

definition rangecheck_eattr_indir :: "u64 \<Rightarrow> u64 \<Rightarrow> p1_walk \<Rightarrow> (int \<times> gfs2_buffer_head option \<times> p1_walk) option" where
  "rangecheck_eattr_indir block parent w = map_option (\<lambda>(r, w). (r, None, w)) (rangecheck_block block w)"

definition rangecheck_eattr_leaf :: "u64 \<Rightarrow> u64 \<Rightarrow> p1_walk \<Rightarrow> (int \<times> gfs2_buffer_head option \<times> p1_walk) option" where
  "rangecheck_eattr_leaf block parent w = map_option (\<lambda>(r, w). (r, None, w)) (rangecheck_block block w)"

definition rangecheck_fxns :: "pass1_private metawalk_fxns" where
  "rangecheck_fxns = no_fxns\<lparr>check_metalist_fn := Some rangecheck_metadata, check_data_fn := Some rangecheck_data,
     check_leaf_fn := Some rangecheck_leaf, check_eattr_indir_fn := Some rangecheck_eattr_indir,
     check_eattr_leaf_fn := Some rangecheck_eattr_leaf, delete_block_fn := Some delete_block\<rparr>"

definition eattr_undo_fxns :: "pass1_private metawalk_fxns" where
  "eattr_undo_fxns = no_fxns\<lparr>check_eattr_indir_fn := Some undo_eattr_indir_or_leaf, check_eattr_leaf_fn := Some undo_eattr_indir_or_leaf,
     finish_eattr_indir_fn := Some finish_eattr_indir, delete_block_fn := Some delete_block\<rparr>"

section \<open>One inode\<close>

abbreviation (input) E_PERM :: int where "E_PERM \<equiv> 1"
abbreviation (input) S_IFMT :: u32 where "S_IFMT \<equiv> 0xF000"

text \<open>The modes of regular files, links, block and character devices, pipes and sockets.\<close>

definition mode_known :: "u32 \<Rightarrow> bool" where
  "mode_known mode \<longleftrightarrow> mode \<in> {0x4000, 0x8000, 0xA000, 0x6000, 0x2000, 0x1000, 0xC000}"

definition gfs_to_gfs2_mode :: "gfs2_inode \<Rightarrow> u32" where
  "gfs_to_gfs2_mode ip =
     (case map_of [(2, 0x4000), (1, 0x8000), (5, 0xA000), (7, 0x6000), (8, 0x2000), (101, 0x1000), (102, 0xC000)] (i_di_type ip) of
        Some mode \<Rightarrow> mode
      | None \<Rightarrow> if i_entries ip \<noteq> 0 \<or> i_mode ip AND S_IFMT = 0x4000 then 0x4000 else 0x8000)"

definition set_ip_blockmap :: "'p walk \<Rightarrow> (int \<times> 'p walk) option" where
  "set_ip_blockmap w =
     (let ip = vi (wip w); mode = (if sd_gfs1 (wsdp w) then gfs_to_gfs2_mode ip else i_mode ip AND S_IFMT) in
      if \<not> mode_known mode then Some (- E_INVAL, w)
      else do {
        (error, w) \<leftarrow> p1_mark (b_blocknr (vbh (wip w))) GFS2_BLKST_DINODE w;
        Some (if error \<noteq> 0 then (- E_PERM, w)
              else (0, if mode = 0x4000 then w\<lparr>wst := snd (dirtree_insert (i_num ip) (wst w))\<rparr> else w))
      })"

text \<open>Blocks that the library allocated for an inode are marked in the map of blocks alone.\<close>

definition alloc_metalist :: "holder \<Rightarrow> nat \<Rightarrow> nat \<Rightarrow> p1_walk \<Rightarrow> (int \<times> checked_meta \<times> holder \<times> p1_walk) option" where
  "alloc_metalist bh off h w = do {
     let block = ptr_at bh off w;
     nbh \<leftarrow> wbread w block;
     Some (META_IS_GOOD, \<lparr>cm_bh = Some nbh, cm_valid = True, cm_dup = False\<rparr>, bh,
       if bitmap_type (wfs w) block = int GFS2_BLKST_FREE then bl_set block (meta_state w) w else w)
   }"

definition alloc_data :: "u64 \<Rightarrow> u64 \<Rightarrow> holder \<Rightarrow> nat \<Rightarrow> p1_walk \<Rightarrow> (int \<times> holder \<times> p1_walk) option" where
  "alloc_data metablock block bh ptr w =
     Some (0, bh, if bitmap_type (wfs w) block = int GFS2_BLKST_FREE then bl_set block GFS2_BLKST_USED w else w)"

definition alloc_leaf :: "u64 \<Rightarrow> p1_walk \<Rightarrow> (int \<times> p1_walk) option" where
  "alloc_leaf block w =
     (if bitmap_type (wfs w) block = int GFS2_BLKST_FREE then map_option (\<lambda>(_, w). (0, w)) (p1_mark block (meta_state w) w)
      else Some (0, w))"

definition alloc_fxns :: "pass1_private metawalk_fxns" where
  "alloc_fxns = no_fxns\<lparr>check_leaf_fn := Some alloc_leaf, check_metalist_fn := Some alloc_metalist, check_data_fn := Some alloc_data,
     delete_block_fn := Some delete_block\<rparr>"

definition pass1_check_metatree :: "pass1_private metawalk_fxns \<Rightarrow> p1_walk \<Rightarrow> (int \<times> p1_walk) option" where
  "pass1_check_metatree pass w = do {
     (error, w) \<leftarrow> check_metatree pass w;
     Some (error, if error \<noteq> 0 then bl_set (waddr w) GFS2_BLKST_FREE w else w)
   }"

text \<open>\<open>reprocess_inode\<close> of lost+found, which is not the inode of the walk.\<close>

definition reprocess_inode :: "vinode \<Rightarrow> p1_walk \<Rightarrow> p1_walk option" where
  "reprocess_inode ip w = do {
     (_, w') \<leftarrow> pass1_check_metatree alloc_fxns (w\<lparr>wip := ip, wrgd := None\<rparr>);
     Some (w'\<lparr>wip := wip w, wrgd := wrgd w, wst := (wst w')\<lparr>lf_dip := Some (wip w')\<rparr>\<rparr>)
   }"

text \<open>The extended attributes, and the count of blocks.\<close>

definition handle_blocks :: "p1_walk \<Rightarrow> (int \<times> p1_walk) option" where
  "handle_blocks w =
     (let blocks = 1 + indir_count (wpriv w) + data_count (wpriv w) + ea_count (wpriv w) in
      if i_blocks (vi (wip w)) = blocks then Some (0, w)
      else do {
        (ok, w) \<leftarrow> wquery w;
        Some (0, if ok then wdirty (w\<lparr>wip := (wip w)\<lparr>vi := (vi (wip w))\<lparr>i_blocks := blocks\<rparr>\<rparr>\<rparr>) else w)
      })"

definition handle_eattr :: "u64 \<Rightarrow> p1_walk \<Rightarrow> (int \<times> p1_walk) option" where
  "handle_eattr now w = do {
     (error, w) \<leftarrow> check_inode_eattr (pass1_fxns now) w;
     if error = 0 then handle_blocks w
     else do {
       (ok, w) \<leftarrow> wquery w;
       if \<not> ok then Some (0, w)
       else do {
         (_, w) \<leftarrow> check_inode_eattr eattr_undo_fxns w;
         (_, w) \<leftarrow> ask_remove_inode_eattr w;
         Some (1, w)
       }
     }
   }"

definition lf_blocks :: "fsck \<Rightarrow> u64" where
  "lf_blocks st = (case lf_dip st of None \<Rightarrow> 0 | Some ip \<Rightarrow> i_blocks (vi ip))"

definition handle_tree :: "u64 \<Rightarrow> p1_walk \<Rightarrow> (int \<times> p1_walk) option" where
  "handle_tree now w = do {
     let lf_blks = lf_blocks (wst w);
     (error, w) \<leftarrow> pass1_check_metatree (pass1_fxns now) w;
     w \<leftarrow> (case lf_dip (wst w) of None \<Rightarrow> Some w | Some ip \<Rightarrow> if i_blocks (vi ip) \<noteq> lf_blks then reprocess_inode ip w else Some w);
     if fsck_abort (wst w) then Some (0, w)
     else if error = 0 then handle_eattr now w
     else handle_blocks w
   }"

definition handle_ip :: "u64 \<Rightarrow> p1_walk \<Rightarrow> (int \<times> p1_walk) option" where
  "handle_ip now w = do {
     let w = on_priv (\<lambda>p. p\<lparr>indir_count := 0, data_count := 0, ea_count := 0, bad_pointers := 0\<rparr>) w;
     (_, w) \<leftarrow> pass1_check_metatree rangecheck_fxns w;
     if BAD_POINTER_TOLERANCE < bad_pointers (wpriv w) then map_option (\<lambda>(_, w). (0, w)) (p1_mark (waddr w) GFS2_BLKST_FREE w)
     else do {
       (error, w) \<leftarrow> set_ip_blockmap w;
       if error = - E_INVAL then map_option (\<lambda>(_, w). (0, w)) (p1_mark (waddr w) GFS2_BLKST_FREE w)
       else if error \<noteq> 0 then Some (-1, w)
       else
         let (r, st) = set_di_nlink (wip w) (wst w); w = w\<lparr>wst := st\<rparr>
         in if r \<noteq> 0 then Some (-1, w) else handle_tree now w
     }
   }"

definition check_i_goal :: "'p walk \<Rightarrow> 'p walk option" where
  "check_i_goal w =
     (let ip = vi (wip w) in
      if sd_gfs1 (wsdp w) \<or> i_flags ip AND GFS2_DIF_SYSTEM \<noteq> 0 \<or>
         \<not> (i_goal_meta ip \<le> LGFS2_SB_ADDR (wsdp w) \<or> fssize (wsdp w) < i_goal_meta ip) then Some w
      else do {
        (ok, w) \<leftarrow> wquery w;
        Some (if ok then wdirty (w\<lparr>wip := (wip w)\<lparr>vi := (vi (wip w))\<lparr>i_u0 := in_addr (i_num (vi (wip w)))\<rparr>\<rparr>\<rparr>) else w)
      })"

text \<open>A question whether to put the number of an inode right.\<close>

definition fix_number :: "lgfs2_inum \<Rightarrow> 'p walk \<Rightarrow> 'p walk option" where
  "fix_number no w = do {
     (ok, w) \<leftarrow> wquery w;
     Some (if ok then wdirty (w\<lparr>wip := (wip w)\<lparr>vi := (vi (wip w))\<lparr>i_num := no\<rparr>\<rparr>\<rparr>) else w)
   }"

text \<open>
  The inode of a block; the result has its buffer, into which \<open>fsck_inode_put\<close> writes the inode unless its address is that of a
  system inode.
\<close>

definition handle_di :: "u64 \<Rightarrow> u64 \<Rightarrow> gfs2_buffer_head \<Rightarrow> u64 list \<Rightarrow> fsck \<Rightarrow> (int \<times> gfs2_buffer_head \<times> u64 list \<times> fsck) option" where
  "handle_di now rgd bh rindex_blks st = do {
     let block = b_blocknr bh;
     let w = \<lparr>wst = st, wip = fsck_inode_get st bh,
              wpriv = \<lparr>indir_count = 0, data_count = 0, ea_count = 0, bad_pointers = 0, gfs1_rindex_blks = rindex_blks\<rparr>, wrgd = Some rgd\<rparr>;
     w \<leftarrow> (if waddr w \<noteq> block then fix_number \<lparr>in_formal_ino = block, in_addr = block\<rparr> w else Some w);
     w \<leftarrow> (if sd_gfs1 (wsdp w) \<and> in_formal_ino (i_num (vi (wip w))) \<noteq> block
          then fix_number ((i_num (vi (wip w)))\<lparr>in_formal_ino := block\<rparr>) w else Some w);
     w \<leftarrow> check_i_goal w;
     (error, w) \<leftarrow> handle_ip now w;
     let bh = vbh (wip w);
     let bh = (if b_modified bh \<and> fsck_system_inode (wst w) (waddr w) = None
               then bh\<lparr>b_data := lgfs2_dinode_out (vi (wip w)) (b_data bh)\<rparr> else bh);
     Some (error, bh, gfs1_rindex_blks (wpriv w), wst w)
   }"

section \<open>System inodes\<close>

text \<open>
  The system files that the pass looks after. The pointer to one (\<open>*sysinode\<close>) is passed on as a value: None is NULL. A
  builder of libgfs2 works on the state with \<open>next_inum\<close>; its second result is the inode that it leaves in
  the pointer, None where it leaves the pointer alone.
\<close>

datatype sysfile = SysMaster | SysRoot | SysInum | SysStatfs | SysJindex | SysRindex | SysQuota | SysPer_node

fun sys_ptr :: "sysfile \<Rightarrow> system_inodes \<Rightarrow> vinode option" where
  "sys_ptr SysMaster = master_dir" | "sys_ptr SysRoot = md_rooti" | "sys_ptr SysInum = md_inum" | "sys_ptr SysStatfs = md_statfs"
| "sys_ptr SysJindex = md_jiinode" | "sys_ptr SysRindex = md_riinode" | "sys_ptr SysQuota = md_qinode" | "sys_ptr SysPer_node = md_pinode"

fun sys_put :: "sysfile \<Rightarrow> vinode option \<Rightarrow> system_inodes \<Rightarrow> system_inodes" where
  "sys_put SysMaster p = master_dir_update (\<lambda>_. p)" | "sys_put SysRoot p = md_rooti_update (\<lambda>_. p)"
| "sys_put SysInum p = md_inum_update (\<lambda>_. p)" | "sys_put SysStatfs p = md_statfs_update (\<lambda>_. p)"
| "sys_put SysJindex p = md_jiinode_update (\<lambda>_. p)" | "sys_put SysRindex p = md_riinode_update (\<lambda>_. p)"
| "sys_put SysQuota p = md_qinode_update (\<lambda>_. p)" | "sys_put SysPer_node p = md_pinode_update (\<lambda>_. p)"

definition set_fs :: "fs \<Rightarrow> fsck \<Rightarrow> fsck" where "set_fs fs st = st\<lparr>fk_fs := fs\<rparr>"
definition set_sys :: "sysfile \<Rightarrow> vinode option \<Rightarrow> fsck \<Rightarrow> fsck" where "set_sys file p st = st\<lparr>fk_md := sys_put file p (fk_md st)\<rparr>"

type_synonym builder = "fsck \<Rightarrow> u64 \<Rightarrow> (int \<times> vinode option \<times> fsck \<times> u64) option"

text \<open>A builder that adds its file to a system directory.\<close>

definition build_in :: "sysfile \<Rightarrow> (fs \<Rightarrow> u64 \<Rightarrow> vinode \<Rightarrow> (int \<times> vinode option \<times> fs \<times> u64 \<times> vinode) option) \<Rightarrow> builder" where
  "build_in dir f st next_inum = do {
     dip \<leftarrow> sys_ptr dir (fk_md st);
     (error, ip, fs, next_inum, dip) \<leftarrow> f (fk_fs st) next_inum dip;
     Some (error, ip, set_sys dir (Some dip) (set_fs fs st), next_inum)
   }"

definition no_ptr :: "(fs \<Rightarrow> u64 \<Rightarrow> vinode \<Rightarrow> (int \<times> fs \<times> u64 \<times> vinode) option) \<Rightarrow> fs \<Rightarrow> u64 \<Rightarrow> vinode \<Rightarrow>
    (int \<times> vinode option \<times> fs \<times> u64 \<times> vinode) option" where
  "no_ptr f fs next_inum dip = map_option (\<lambda>(error, fs, next_inum, dip). (error, None, fs, next_inum, dip)) (f fs next_inum dip)"

definition build_top :: "(fs \<Rightarrow> u64 \<Rightarrow> (int \<times> vinode option \<times> fs \<times> u64) option) \<Rightarrow> builder" where
  "build_top f st next_inum = map_option (\<lambda>(error, ip, fs, next_inum). (error, ip, set_fs fs st, next_inum)) (f (fk_fs st) next_inum)"

text \<open>What the builders take from outside: the time, \<open>errno\<close>, the first numbers of journals, memory on the stack, two sizes.\<close>

record build_env =
  be_now :: u64
  be_errno :: int
  be_seqs :: "u32 \<Rightarrow> u64"
  be_junk :: bytes
  be_jsize :: u32
  be_qcsize :: u32

definition sys_builder :: "build_env \<Rightarrow> sysfile \<Rightarrow> builder" where
  "sys_builder env file st =
     (let now = be_now env; en = be_errno env; journals = of_nat (length (md_journal (fk_md st))) in
      case file of
        SysMaster \<Rightarrow> build_top (build_master now) st
      | SysRoot \<Rightarrow> build_top (build_root now) st
      | SysInum \<Rightarrow> build_in SysMaster (no_ptr (build_inum now en)) st
      | SysStatfs \<Rightarrow> build_in SysMaster (no_ptr (build_statfs now en)) st
      | SysJindex \<Rightarrow> build_in SysMaster (no_ptr (build_jindex now en (be_seqs env) (be_jsize env) journals)) st
      | SysRindex \<Rightarrow> build_in SysMaster (no_ptr (build_rindex now en (be_junk env))) st
      | SysQuota \<Rightarrow> build_in SysMaster (no_ptr (build_quota now en)) st
      | SysPer_node \<Rightarrow> build_in SysMaster (no_ptr (build_per_node now en (be_qcsize env) journals)) st)"

text \<open>\<open>gfs2_dirent_del\<close> of a name in a system directory.\<close>

definition sys_dirent_del :: "sysfile \<Rightarrow> bytes \<Rightarrow> fsck \<Rightarrow> fsck option" where
  "sys_dirent_del dir filename st = do {
     dip \<leftarrow> sys_ptr dir (fk_md st);
     (_, fs, dip) \<leftarrow> gfs2_dirent_del (fk_fs st) dip filename;
     Some (set_sys dir (Some dip) (set_fs fs st))
   }"

definition build_a_journal :: "build_env \<Rightarrow> u32 \<Rightarrow> builder" where
  "build_a_journal env j st next_inum = do {
     st \<leftarrow> sys_dirent_del SysJindex (numbered ''journal'' j) st;
     (error, ip, st, next_inum) \<leftarrow> build_in SysJindex (build_journal (be_now env) (be_errno env) (be_seqs env) (be_jsize env) j) st next_inum;
     if error \<noteq> 0 then None else Some (0, ip, st, next_inum)
   }"

definition mark_sys :: "vinode \<Rightarrow> bool \<Rightarrow> fsck \<Rightarrow> fsck option" where
  "mark_sys ip isdir st = do {
     (_, st) \<leftarrow> fsck_blockmap_set None (in_addr (i_num (vi ip))) GFS2_BLKST_DINODE False st;
     Some (if isdir then snd (dirtree_insert (i_num (vi ip)) st) else st)
   }"

text \<open>A block that is no inode any more is given up.\<close>

definition drop_bad_sys :: "vinode option \<Rightarrow> fsck \<Rightarrow> (vinode option \<times> fsck) option" where
  "drop_bad_sys ptr st =
     (case ptr of None \<Rightarrow> Some (None, st)
      | Some ip \<Rightarrow>
          if gfs2_check_meta (b_data (vbh ip)) GFS2_METATYPE_DI = 0 then Some (Some ip, st)
          else do {
            let iblock = in_addr (i_num (vi ip));
            let st = st\<lparr>blockmap := snd (gfs2_blockmap_set (blockmap st) iblock GFS2_BLKST_FREE)\<rparr>;
            (_, st) \<leftarrow> check_n_fix_bitmap None iblock False GFS2_BLKST_FREE st;
            Some (None, set_fs (inode_put (fk_fs st) ip) st)
          })"

text \<open>The inode's state in the map of blocks (0 when there is none), and its system flag.\<close>

definition check_sys_state ::
  "bool \<Rightarrow> bool \<Rightarrow> sysfile option \<Rightarrow> bytes \<Rightarrow> vinode option \<Rightarrow> fsck \<Rightarrow> (nat \<times> vinode option \<times> fsck) option" where
  "check_sys_state isdir needs_sysbit sysdir filename ptr st =
     (case ptr of None \<Rightarrow> Some (0, None, st)
      | Some ip \<Rightarrow> do {
          let iblock = in_addr (i_num (vi ip));
          q \<leftarrow> block_type (blockmap st) iblock;
          st \<leftarrow> (if q = GFS2_BLKST_FREE then mark_sys ip isdir st else Some st);
          let q = (if q = GFS2_BLKST_FREE then GFS2_BLKST_DINODE else q);
          let has_dir = (case sysdir of None \<Rightarrow> False | Some dir \<Rightarrow> sys_ptr dir (fk_md st) \<noteq> None);
          if needs_sysbit \<and> i_flags (vi ip) AND GFS2_DIF_SYSTEM = 0 \<and> has_dir then do {
            (ok, st) \<leftarrow> fsck_query st;
            if ok then do {
              st \<leftarrow> sys_dirent_del (the sysdir) filename (set_fs (inode_put (fk_fs st) ip) st);
              Some (q, None, st\<lparr>blockmap := snd (gfs2_blockmap_set (blockmap st) iblock GFS2_BLKST_FREE)\<rparr>)
            }
            else Some (q, Some ip, st)
          }
          else Some (q, Some ip, st)
        })"

text \<open>
  The rest of \<open>check_system_inode\<close>. A builder that does not set the pointer leaves NULL in it, and the use of the pointer
  behind it ends the program.
\<close>

definition rebuild_sys ::
  "bool \<Rightarrow> bool \<Rightarrow> builder \<Rightarrow> nat \<Rightarrow> vinode option \<Rightarrow> fsck \<Rightarrow> u64 \<Rightarrow> ((int + vinode) \<times> fsck \<times> u64) option" where
  "rebuild_sys isdir is_ji builder q ptr st next_inum =
     (if ptr \<noteq> None \<and> q = GFS2_BLKST_DINODE then Some (Inr (the ptr), st, next_inum)
      else do {
        (ok, st) \<leftarrow> fsck_query st;
        if \<not> ok then Some (Inl (-1), st, next_inum)
        else do {
          (error, new, st, next_inum) \<leftarrow> builder st next_inum;
          if error \<noteq> 0 then Some (Inl error, st, next_inum)
          else do {
            let ptr = (if new = None then ptr else new);
            st \<leftarrow> (if is_ji \<or> ptr = None \<and> md_jiinode (fk_md st) = None then map_option snd (ji_update st) else Some st);
            ip \<leftarrow> ptr;
            st \<leftarrow> mark_sys ip isdir st;
            Some (Inr ip, st, next_inum)
          }
        }
      })"

text \<open>The entries of a system directory, then the inode like any other.\<close>

definition check_sys_tree :: "u64 \<Rightarrow> u64 list \<Rightarrow> vinode \<Rightarrow> fsck \<Rightarrow> (int \<times> vinode \<times> u64 list \<times> fsck) option" where
  "check_sys_tree now rindex_blks ip st = do {
     let w = \<lparr>wst = st, wip = ip,
              wpriv = \<lparr>indir_count = 0, data_count = 0, ea_count = 0, bad_pointers = 0, gfs1_rindex_blks = rindex_blks\<rparr>, wrgd = None\<rparr>;
     (err, w) \<leftarrow>
       (if \<not> is_dir ip (sd_gfs1 (fs_sdp (fk_fs st))) then Some (0, w)
        else if i_flags (vi ip) AND GFS2_DIF_EXHASH \<noteq> 0 then map_option (\<lambda>(_, w). (0, w)) (pass1_check_metatree sysdir_fxns w)
        else map_option (\<lambda>(err, _, w). (err, w)) (check_linear_dir sysdir_fxns Own w));
     w \<leftarrow> check_i_goal w;
     (error, w) \<leftarrow> handle_ip now w;
     Some (if error \<noteq> 0 then error else err, wip w, gfs1_rindex_blks (wpriv w), wst w)
   }"

text \<open>
  \<open>next_inum\<close> and the rindex blocks go through the calls; the result has the pointer. \<open>file\<close> is the member of \<open>md\<close> that the
  pointer is, if it is one.
\<close>

definition sync_ptr :: "sysfile option \<Rightarrow> vinode option \<Rightarrow> fsck \<Rightarrow> fsck" where
  "sync_ptr file ptr st = (case file of None \<Rightarrow> st | Some file \<Rightarrow> set_sys file ptr st)"

definition check_system_inode ::
  "u64 \<Rightarrow> bool \<Rightarrow> bool \<Rightarrow> sysfile option \<Rightarrow> sysfile option \<Rightarrow> bytes \<Rightarrow> builder \<Rightarrow> vinode option \<Rightarrow> u64 list \<Rightarrow> fsck \<Rightarrow> u64 \<Rightarrow>
     (int \<times> vinode option \<times> u64 list \<times> fsck \<times> u64) option" where
  "check_system_inode now isdir needs_sysbit file sysdir filename builder ptr rindex_blks st next_inum = do {
     (ptr, st) \<leftarrow> drop_bad_sys ptr st;
     (q, ptr, st) \<leftarrow> check_sys_state isdir needs_sysbit sysdir filename ptr (sync_ptr file ptr st);
     (r, st, next_inum) \<leftarrow> rebuild_sys isdir (file = Some SysJindex) builder q ptr (sync_ptr file ptr st) next_inum;
     case r of Inl error \<Rightarrow> Some (error, ptr, rindex_blks, st, next_inum)
     | Inr ip \<Rightarrow> do {
         (error, ip, rindex_blks, st) \<leftarrow> check_sys_tree now rindex_blks ip st;
         Some (error, Some ip, rindex_blks, st, next_inum)
       }
   }"

record sys_check =
  sc_file :: sysfile
  sc_name :: string
  sc_isdir :: bool
  sc_dir :: "sysfile option"
  sc_sysbit :: bool

text \<open>The system files in their order, with the arguments of the calls.\<close>

definition sys_checks :: "bool \<Rightarrow> sys_check list" where
  "sys_checks gfs1 =
     (if gfs1 then [] else [\<lparr>sc_file = SysMaster, sc_name = ''master'', sc_isdir = True, sc_dir = None, sc_sysbit = True\<rparr>]) @
     [\<lparr>sc_file = SysRoot, sc_name = ''root'', sc_isdir = True, sc_dir = None, sc_sysbit = False\<rparr>] @
     (if gfs1 then [] else [\<lparr>sc_file = SysInum, sc_name = ''inum'', sc_isdir = False, sc_dir = Some SysMaster, sc_sysbit = True\<rparr>]) @
     [\<lparr>sc_file = SysStatfs, sc_name = ''statfs'', sc_isdir = False, sc_dir = Some SysMaster, sc_sysbit = \<not> gfs1\<rparr>,
      \<lparr>sc_file = SysJindex, sc_name = ''jindex'', sc_isdir = \<not> gfs1, sc_dir = Some SysMaster, sc_sysbit = \<not> gfs1\<rparr>,
      \<lparr>sc_file = SysRindex, sc_name = ''rindex'', sc_isdir = False, sc_dir = Some SysMaster, sc_sysbit = \<not> gfs1\<rparr>,
      \<lparr>sc_file = SysQuota, sc_name = ''quota'', sc_isdir = False, sc_dir = Some SysMaster, sc_sysbit = \<not> gfs1\<rparr>] @
     (if gfs1 then [] else [\<lparr>sc_file = SysPer_node, sc_name = ''per_node'', sc_isdir = True, sc_dir = Some SysMaster, sc_sysbit = True\<rparr>])"

text \<open>The inodes of the master directory and of the root have no parent and are marked before they are checked.\<close>

definition mark_first :: "sysfile \<Rightarrow> fsck \<Rightarrow> fsck option" where
  "mark_first file st =
     (if file = SysMaster \<or> file = SysRoot then do { ip \<leftarrow> sys_ptr file (fk_md st); mark_sys ip False st } else Some st)"

definition check_sys_step ::
  "build_env \<Rightarrow> sys_check \<Rightarrow> u64 list \<times> fsck \<times> u64 \<Rightarrow> (int option \<times> u64 list \<times> fsck \<times> u64) option" where
  "check_sys_step env c = (\<lambda>(rindex_blks, st, next_inum). do {
     st \<leftarrow> mark_first (sc_file c) st;
     (error, ptr, rindex_blks, st, next_inum) \<leftarrow>
       check_system_inode (be_now env) (sc_isdir c) (sc_sysbit c) (Some (sc_file c)) (sc_dir c) (str (sc_name c))
         (sys_builder env (sc_file c)) (sys_ptr (sc_file c) (fk_md st)) rindex_blks st next_inum;
     Some (if error \<noteq> 0 then Some (-1) else None, rindex_blks, set_sys (sc_file c) ptr st, next_inum)
   })"

text \<open>
  A journal. While it is checked \<open>md.journals\<close> is its number, so the journals behind it are not seen as system
  inodes; after an error that number stays.
\<close>

definition check_journal_step ::
  "build_env \<Rightarrow> nat \<Rightarrow> vinode option list \<times> u64 list \<times> fsck \<times> u64 \<Rightarrow> (int option \<times> vinode option list \<times> u64 list \<times> fsck \<times> u64) option" where
  "check_journal_step env j = (\<lambda>(journals, rindex_blks, st, next_inum). do {
     let st = st\<lparr>fk_md := (fk_md st)\<lparr>md_journal := take j journals\<rparr>\<rparr>;
     (error, ptr, rindex_blks, st, next_inum) \<leftarrow>
       check_system_inode (be_now env) False True None (Some SysJindex) (numbered ''journal'' (of_nat j))
         (build_a_journal env (of_nat j)) (journals ! j) rindex_blks st next_inum;
     Some (if error \<noteq> 0 then Some (-1) else None, journals[j := ptr], rindex_blks, st, next_inum)
   })"

definition check_journals ::
  "build_env \<Rightarrow> u64 list \<Rightarrow> fsck \<Rightarrow> u64 \<Rightarrow> (int \<times> u64 list \<times> fsck \<times> u64) option" where
  "check_journals env rindex_blks st next_inum = do {
     let journals = md_journal (fk_md st);
     (r, journals, rindex_blks, st, next_inum) \<leftarrow>
       for_each (check_journal_step env) [0..<length journals] (journals, rindex_blks, st, next_inum);
     Some (case r of None \<Rightarrow> (0, rindex_blks, st\<lparr>fk_md := (fk_md st)\<lparr>md_journal := journals\<rparr>\<rparr>, next_inum)
           | Some error \<Rightarrow> (error, rindex_blks, st, next_inum))
   }"

definition gfs1_links :: "fsck \<Rightarrow> fsck option" where
  "gfs1_links st = map_option snd (for_each (\<lambda>file st. do {
       ip \<leftarrow> sys_ptr file (fk_md st);
       (_, st) \<leftarrow> incr_link_count (i_num (vi ip)) st;
       Some (None :: unit option, st)
     }) [SysStatfs, SysJindex, SysRindex, SysQuota] st)"

definition check_system_inodes :: "build_env \<Rightarrow> fsck \<Rightarrow> u64 \<Rightarrow> (int \<times> u64 list \<times> fsck \<times> u64) option" where
  "check_system_inodes env st next_inum = do {
     let gfs1 = sd_gfs1 (fs_sdp (fk_fs st));
     (r, rindex_blks, st, next_inum) \<leftarrow> for_each (check_sys_step env) (sys_checks gfs1) ([], st, next_inum);
     case r of Some error \<Rightarrow> Some (error, rindex_blks, st, next_inum)
     | None \<Rightarrow> if gfs1 then map_option (\<lambda>st. (0, rindex_blks, st, next_inum)) (gfs1_links st)
               else check_journals env rindex_blks st next_inum
   }"

section \<open>The groups\<close>

abbreviation (input) FSCK_OK :: int where "FSCK_OK \<equiv> 0"
abbreviation (input) FSCK_CANCELED :: int where "FSCK_CANCELED \<equiv> 32"

text \<open>A block that is an inode in the bitmap and marked already.\<close>

definition duplicate_inode :: "u64 \<Rightarrow> bool \<Rightarrow> gfs2_buffer_head \<Rightarrow> fsck \<Rightarrow> fsck" where
  "duplicate_inode block is_inode bh st =
     (let ip = fsck_inode_get st bh;
          st = (if is_inode \<and> in_addr (i_num (vi ip)) = block
                then snd (add_duplicate_ref (in_addr (i_num (vi ip))) block REF_IS_INODE False True st) else st)
      in set_fs (fs_brelse bh (fk_fs st)) st)"

definition process_inode_step :: "u64 \<Rightarrow> u64 \<Rightarrow> u64 \<Rightarrow> u64 list \<times> fsck \<Rightarrow> (int option \<times> u64 list \<times> fsck) option" where
  "process_inode_step now rgd block = (\<lambda>(rindex_blks, st).
     let gfs1 = sd_gfs1 (fs_sdp (fk_fs st)) in
     if gfs1 \<and> blockfind rindex_blks block \<noteq> None then Some (None, rindex_blks, st)
     else if fsck_abort st then Some (Some FSCK_OK, [], st)
     else
       let st = st\<lparr>skip_this_pass := False\<rparr> in
       if fsck_system_inode st block \<noteq> None then Some (None, rindex_blks, st)
       else do {
         bh \<leftarrow> bread (fs_disk (fk_fs st)) block;
         let is_inode = (gfs2_check_meta (b_data bh) GFS2_METATYPE_DI = 0);
         let magic = (get_be32 (b_data bh) (offsetof struct_gfs2_meta_header ''mh_magic'') = GFS2_MAGIC);
         q \<leftarrow> block_type (blockmap st) block;
         if magic \<and> gfs1 \<and> \<not> is_inode then Some (None, rindex_blks, st)
         else if q \<noteq> GFS2_BLKST_FREE then Some (None, rindex_blks, duplicate_inode block is_inode bh st)
         else if \<not> is_inode then do {
           (_, st) \<leftarrow> check_n_fix_bitmap (Some rgd) block False GFS2_BLKST_FREE st;
           Some (None, rindex_blks, set_fs (fs_brelse bh (fk_fs st)) st)
         }
         else do {
           (error, bh, rindex_blks, st) \<leftarrow> handle_di now rgd bh rindex_blks st;
           let st = set_fs (fs_brelse bh (fk_fs st)) st;
           Some (if error < 0 then (Some FSCK_ERROR, [], st) else (None, rindex_blks, st))
         }
       })"

definition pass1_process_bitmap :: "u64 \<Rightarrow> u64 \<Rightarrow> u64 list \<Rightarrow> u64 list \<Rightarrow> fsck \<Rightarrow> (int \<times> u64 list \<times> fsck) option" where
  "pass1_process_bitmap now rgd ibuf rindex_blks st =
     map_option (\<lambda>(r, rindex_blks, st). (case r of None \<Rightarrow> 0 | Some r \<Rightarrow> r, rindex_blks, st))
       (for_each (process_inode_step now rgd) ibuf (rindex_blks, st))"

text \<open>The blocks of gfs1 that are free metadata.\<close>

definition mark_free_meta :: "u64 list \<Rightarrow> fsck \<Rightarrow> fsck" where
  "mark_free_meta ibuf st =
     (if fsck_abort st then (case ibuf of [] \<Rightarrow> st | b # _ \<Rightarrow> st\<lparr>blockmap := snd (gfs2_blockmap_set (blockmap st) b GFS2_BLKST_UNLINKED)\<rparr>)
      else st\<lparr>blockmap := fold (\<lambda>b m. snd (gfs2_blockmap_set m b GFS2_BLKST_UNLINKED)) ibuf (blockmap st)\<rparr>)"

definition process_bitmap_step :: "u64 \<Rightarrow> u64 \<Rightarrow> nat \<Rightarrow> u64 list \<times> fsck \<Rightarrow> (int option \<times> u64 list \<times> fsck) option" where
  "process_bitmap_step now rgd k = (\<lambda>(rindex_blks, st). do {
     rg \<leftarrow> rg_at (fk_fs st) rgd;
     let ibuf = lgfs2_bm_scan rg k GFS2_BLKST_DINODE;
     (ret, rindex_blks, st) \<leftarrow> (if ibuf = [] then Some (0, rindex_blks, st) else pass1_process_bitmap now rgd ibuf rindex_blks st);
     if ret \<noteq> 0 then Some (Some ret, rindex_blks, st)
     else if fsck_abort st then Some (Some 0, rindex_blks, st)
     else if \<not> sd_gfs1 (fs_sdp (fk_fs st)) then Some (None, rindex_blks, st)
     else do {
       rg \<leftarrow> rg_at (fk_fs st) rgd;
       Some (None, rindex_blks, mark_free_meta (lgfs2_bm_scan rg k GFS2_BLKST_UNLINKED) st)
     }
   })"

definition pass1_process_rgrp :: "u64 \<Rightarrow> rgrp_tree \<Rightarrow> u64 list \<Rightarrow> fsck \<Rightarrow> (int \<times> u64 list \<times> fsck) option" where
  "pass1_process_rgrp now rg rindex_blks st =
     map_option (\<lambda>(r, rindex_blks, st). (case r of None \<Rightarrow> 0 | Some r \<Rightarrow> r, rindex_blks, st))
       (for_each (process_bitmap_step now (rt_addr rg)) [0..<unat (rt_length rg)] (rindex_blks, st))"

definition mark_rgrp_step :: "u64 \<Rightarrow> fsck \<Rightarrow> (int option \<times> fsck) option" where
  "mark_rgrp_step b st =
     (let (error, bl) = gfs2_blockmap_set (blockmap st) b GFS2_BLKST_USED
      in Some (if error \<noteq> 0 then Some FSCK_ERROR else None, st\<lparr>blockmap := bl\<rparr>))"

definition pass1_rgrp_step :: "u64 \<Rightarrow> u64 \<Rightarrow> u64 list \<times> fsck \<Rightarrow> (int option \<times> u64 list \<times> fsck) option" where
  "pass1_rgrp_step now a = (\<lambda>(rindex_blks, st).
     if fsck_abort st then Some (Some FSCK_CANCELED, rindex_blks, st)
     else do {
       rg \<leftarrow> rg_at (fk_fs st) a;
       (r, st) \<leftarrow> for_each mark_rgrp_step (map (\<lambda>i. a + of_nat i) [0..<unat (rt_length rg)]) st;
       if r \<noteq> None then Some (r, [], st)
       else do {
         (ret, rindex_blks, st) \<leftarrow> pass1_process_rgrp now rg rindex_blks st;
         Some (if ret \<noteq> 0 then Some ret else None, rindex_blks, st)
       }
     })"

text \<open>The result of \<open>check_system_inodes\<close> is not looked at. The bitmaps are reconciled only when the pass came to its end.\<close>

definition pass1 :: "build_env \<Rightarrow> fsck \<Rightarrow> u64 \<Rightarrow> (int \<times> fsck \<times> u64) option" where
  "pass1 env st next_inum = do {
     let n = last_fs_block st + 1;
     let st = st\<lparr>blockmap := gfs2_blockmap_create n, nlink1map := link1_create n, clink1map := link1_create n\<rparr>;
     (_, rindex_blks, st, next_inum) \<leftarrow> check_system_inodes env st next_inum;
     (r, _, st) \<leftarrow> for_each (pass1_rgrp_step (be_now env)) (map rt_addr (inorder (fs_rgtree (fk_fs st)))) (rindex_blks, st);
     case r of Some ret \<Rightarrow> Some (ret, st, next_inum)
     | None \<Rightarrow> do { (_, st) \<leftarrow> pass5 (blockmap st) st; Some (FSCK_OK, st, next_inum) }
   }"

end
