(* ===== verification/FsckMarks.thy ===== *)
theory FsckMarks
  imports FsckKeep FsckPass1 Create
begin

text \<open>
  What pass 1 keeps of the state (pass1.c): the map of blocks and the two maps of links stay well-formed and reach every block of the
  file system, and the trees of directories and of duplicate blocks stay in order, whatever is on the device and whatever the user
  answers.
\<close>

section \<open>The condition\<close>

definition maps_ok :: "u64 \<Rightarrow> fsck \<Rightarrow> bool" where
  "maps_ok n st \<longleftrightarrow> bmap_ok 4 (blockmap st) \<and> bmap_ok 8 (nlink1map st) \<and> bmap_ok 8 (clink1map st) \<and>
     bm_size (blockmap st) = n \<and> bm_size (nlink1map st) = n \<and> bm_size (clink1map st) = n \<and>
     tree_ok di_addr (dirtree st) \<and> tree_ok dup_block (dup_blocks st)"

lemma bmap_set_ok:
  "bmap_ok 4 m \<Longrightarrow> bmap_ok 4 (snd (gfs2_blockmap_set m b v))" "bm_size (snd (gfs2_blockmap_set m b v)) = bm_size m"
  "bmap_ok 8 m \<Longrightarrow> bmap_ok 8 (snd (link1_set m b v))" "bm_size (snd (link1_set m b v)) = bm_size m"
  by (auto simp: gfs2_blockmap_set_def link1_set_def bmap_ok_def Let_def)

lemma maps_ok_update [simp]:
  "maps_ok n (st\<lparr>fk_fs := fs\<rparr>) = maps_ok n st" "maps_ok n (st\<lparr>fk_md := md\<rparr>) = maps_ok n st" "maps_ok n (st\<lparr>lf_dip := lf\<rparr>) = maps_ok n st"
  "maps_ok n (st\<lparr>keys := ks\<rparr>) = maps_ok n st" "maps_ok n (st\<lparr>errors_found := e\<rparr>) = maps_ok n st"
  "maps_ok n (st\<lparr>errors_corrected := e\<rparr>) = maps_ok n st" "maps_ok n (st\<lparr>fsck_abort := b\<rparr>) = maps_ok n st"
  "maps_ok n (st\<lparr>skip_this_pass := b\<rparr>) = maps_ok n st" "maps_ok n (st\<lparr>inodetree := it\<rparr>) = maps_ok n st"
  "maps_ok n (st\<lparr>dups_found := e\<rparr>) = maps_ok n st" "maps_ok n (st\<lparr>dups_found_first := e\<rparr>) = maps_ok n st"
  "maps_ok n (st\<lparr>prevrgd := a\<rparr>) = maps_ok n st" "maps_ok n (st\<lparr>md_next_inum := a'\<rparr>) = maps_ok n st"
  "maps_ok n (st\<lparr>lf_was_created := c\<rparr>) = maps_ok n st"
  by (simp_all add: maps_ok_def)

lemma maps_ok_intro:
  "maps_ok n st \<Longrightarrow> maps_ok n (st\<lparr>blockmap := snd (gfs2_blockmap_set (blockmap st) b v)\<rparr>)"
  "maps_ok n st \<Longrightarrow> maps_ok n (st\<lparr>nlink1map := snd (link1_set (nlink1map st) b v)\<rparr>)"
  "maps_ok n st \<Longrightarrow> maps_ok n (st\<lparr>clink1map := snd (link1_set (clink1map st) b v)\<rparr>)"
  "maps_ok n st \<Longrightarrow> tree_ok di_addr dirs \<Longrightarrow> maps_ok n (st\<lparr>dirtree := dirs\<rparr>)"
  "maps_ok n st \<Longrightarrow> tree_ok dup_block dups \<Longrightarrow> maps_ok n (st\<lparr>dup_blocks := dups\<rparr>)"
  by (auto simp: maps_ok_def bmap_set_ok)

lemma maps_ok_trees: "maps_ok n st \<Longrightarrow> tree_ok di_addr (dirtree st)" "maps_ok n st \<Longrightarrow> tree_ok dup_block (dup_blocks st)"
  by (simp_all add: maps_ok_def)

lemma maps_ok_nodes:
  "maps_ok n st \<Longrightarrow> maps_ok n (put_dir_info di st)" "maps_ok n st \<Longrightarrow> maps_ok n (dirtree_delete di st)"
  "maps_ok n st \<Longrightarrow> maps_ok n (put_dup dt st)" "maps_ok n st \<Longrightarrow> maps_ok n (dup_delete dt st)"
  by (auto simp: put_dir_info_def dirtree_delete_def put_dup_def dup_delete_def
      intro!: maps_ok_intro kt.ok_put kt.ok_erase dest: maps_ok_trees)

lemma delete_all_dups_ok:
  assumes "tree_ok dup_block (dup_blocks st)"
  shows "tree_ok dup_block (dup_blocks (delete_all_dups a st)) \<and> (\<exists>t. delete_all_dups a st = st\<lparr>dup_blocks := t\<rparr>)"
proof -
  let ?dts = "inorder (dup_blocks st)"
  have d: "distinct (map dup_block ?dts)"
    using assms strict_sorted_iff [of "map dup_block ?dts"] by (simp add: tree_ok_def sorted_wrt_map)
  have all: "\<forall>dt \<in> set ?dts. dupfind st (dup_block dt) = Some dt" using assms by (auto simp: dupfind_def tree_find_iff)
  show ?thesis using delete_dups_loop_spec [OF assms d all, of a] unfolding delete_all_dups_def by blast
qed

lemma maps_ok_calls [simp]:
  "maps_ok n st \<Longrightarrow> maps_ok n (snd (dirtree_insert no st))" "maps_ok n st \<Longrightarrow> maps_ok n (snd (set_di_nlink ip st))"
  "maps_ok n st \<Longrightarrow> maps_ok n (snd (add_duplicate_ref a b t f v st))" "maps_ok n (set_fs fs st) = maps_ok n st"
  "maps_ok n (set_sys file p st) = maps_ok n st" "maps_ok n st \<Longrightarrow> maps_ok n (delete_all_dups a st)"
  "maps_ok n (snd (bitmap_group h b st)) = maps_ok n st"
proof -
  assume ok: "maps_ok n st"
  show "maps_ok n (snd (dirtree_insert no st))" using ok by (auto simp: dirtree_insert_def Let_def split_def intro!: maps_ok_intro kt.ok_insert maps_ok_trees)
  show "maps_ok n (snd (set_di_nlink ip st))"
    using ok by (auto simp: set_di_nlink_def Let_def inodetree_insert_def put_inode_info_def split_def intro!: maps_ok_intro maps_ok_nodes split: option.split)
  show "maps_ok n (snd (add_duplicate_ref a b t f v st))"
    using ok by (auto simp: add_duplicate_ref_def gfs2_dup_set_def Let_def split_def
        intro!: maps_ok_intro maps_ok_nodes kt.ok_insert dest: maps_ok_trees split: option.split)
  obtain t where "delete_all_dups a st = st\<lparr>dup_blocks := t\<rparr>" "tree_ok dup_block t"
    using delete_all_dups_ok [OF maps_ok_trees(2) [OF ok], of a] by auto
  then show "maps_ok n (delete_all_dups a st)" using ok by (auto intro: maps_ok_intro)
qed (simp_all add: set_fs_def set_sys_def bitmap_group_def Let_def split: option.split)

lemma kept_by_query: "maps_ok n st \<Longrightarrow> returns (\<lambda>(_, st). maps_ok n st) (fsck_query st)"
  by (auto simp: fsck_query_def Let_def split: option.split)

lemma kept_by_forget: "maps_ok n st \<Longrightarrow> returns (\<lambda>(_, st). maps_ok n st) (forget_inode b st)"
  by (auto simp: forget_inode_def Let_def inodetree_delete_def returns_def [of _ "link1_type _ _"] intro: maps_ok_nodes split: option.split)

lemma kept_by_bitmap:
  assumes "maps_ok n st"
  shows "returns (\<lambda>(_, st). maps_ok n st) (check_n_fix_bitmap h b e m st)"
proof -
  have q: "returns Q (fsck_query st)" if "maps_ok n st" "\<And>r st. maps_ok n st \<Longrightarrow> Q (r, st)" for st and Q :: "_ \<Rightarrow> bool"
    by (rule returns_mono [OF kept_by_query]) (use that in auto)
  have g: "returns Q (forget_inode b st)" if "maps_ok n st" "\<And>r st. maps_ok n st \<Longrightarrow> Q (r, st)" for st and Q :: "_ \<Rightarrow> bool"
    by (rule returns_mono [OF kept_by_forget]) (use that in auto)
  obtain rgd st' where st': "bitmap_group h b st = (rgd, st')" by fastforce
  then have "maps_ok n st'" using assms maps_ok_calls(7) [of n h b st] by simp
  then show ?thesis
    unfolding check_n_fix_bitmap_def Let_def st' prod.case
    by - ((rule q g returns_if returns_rules maps_ok_intro | assumption | (simp add: maps_ok_intro; fail) | rule returns_any)+)
qed

lemma kept_by_blockmap: "maps_ok n st \<Longrightarrow> returns (\<lambda>(_, st). maps_ok n st) (fsck_blockmap_set h b m e st)"
  unfolding fsck_blockmap_set_def
  by (auto intro!: returns_mono [OF kept_by_bitmap] maps_ok_intro simp: split_def Let_def)

interpretation km: fsck_kept "maps_ok n" for n
  by unfold_locales (simp_all add: kept_by_query kept_by_bitmap)

section \<open>The functions of the passes\<close>

lemma maps_ok_walk [simp]:
  "maps_ok n (wst (on_priv g w)) = maps_ok n (wst w)" "maps_ok n (wst w) \<Longrightarrow> maps_ok n (wst (bl_set b m w))"
  "maps_ok n (wst w) \<Longrightarrow> maps_ok n (wst (add_dup b t w))" "maps_ok n (wst w) \<Longrightarrow> maps_ok n (wst (wrelse bh w))"
  by (simp_all add: on_priv_def bl_set_def add_dup_def wrelse_def maps_ok_intro)

lemma mark_calls:
  "maps_ok n (wst w) \<Longrightarrow> (\<And>r w. maps_ok n (wst w) \<Longrightarrow> Q (r, w)) \<Longrightarrow> returns Q (p1_mark b m w)"
  "maps_ok n (wst w) \<Longrightarrow> (\<And>r w. maps_ok n (wst w) \<Longrightarrow> Q (r, w)) \<Longrightarrow> returns Q (p1_mark_noino b m w)"
  "maps_ok n (wst w) \<Longrightarrow> (\<And>r w. maps_ok n (wst w) \<Longrightarrow> Q' (r, w)) \<Longrightarrow> returns Q' (wquery w)"
  "maps_ok n (wst w) \<Longrightarrow> (\<And>r w. maps_ok n (wst w) \<Longrightarrow> Q (r, w)) \<Longrightarrow> returns Q (on_state (check_n_fix_bitmap h b e m) w)"
  unfolding p1_mark_def p1_mark_noino_def
  by (auto intro!: km.kept_on_state intro: kept_by_blockmap kept_by_query kept_by_bitmap)

lemma mark_writei:
  "maps_ok n (wst w) \<Longrightarrow> (\<And>w. maps_ok n (wst w) \<Longrightarrow> Q w) \<Longrightarrow> returns Q (walk_writei now b off w)"
  by (auto simp: walk_writei_def returns_def)

lemmas mark_rules = mark_calls mark_writei

lemma keeps_delete_block: "maps_ok n (wst w) \<Longrightarrow> returns (\<lambda>(_, w). maps_ok n (wst w)) (delete_block b w)"
  unfolding delete_block_def Let_def
  by ((rule mark_rules [where n = n] returns_if returns_rules | assumption | simp only: prod.case | (simp; fail) | rule returns_any)+)

lemma keeps_repair_leaf: "maps_ok n (wst w) \<Longrightarrow> returns (\<lambda>(_, _, w). maps_ok n (wst w)) (pass1_repair_leaf now l i c w)"
  unfolding pass1_repair_leaf_def Let_def
  by ((rule mark_rules [where n = n] returns_if returns_rules | assumption | simp only: prod.case | (simp; fail) | rule returns_any)+)

lemma keeps_resuscitate_metalist: "maps_ok n (wst w) \<Longrightarrow> returns (\<lambda>(_, _, _, w). maps_ok n (wst w)) (resuscitate_metalist h off k w)"
  unfolding resuscitate_metalist_def Let_def
  by ((rule mark_rules [where n = n] returns_if returns_rules | assumption | simp only: prod.case | (simp; fail) | rule returns_any)+)

lemma keeps_resuscitate_dentry: "maps_ok n (wst w) \<Longrightarrow> returns (\<lambda>(_, _, _, _, w). maps_ok n (wst w)) (resuscitate_dentry d p h c i w)"
  unfolding resuscitate_dentry_def Let_def
  by ((rule mark_rules [where n = n] returns_if returns_rules | assumption | simp only: prod.case | (simp; fail) | rule returns_any)+)

lemma keeps_leaf: "maps_ok n (wst w) \<Longrightarrow> returns (\<lambda>(_, w). maps_ok n (wst w)) (p1check_leaf b w)"
  unfolding p1check_leaf_def Let_def
  by ((rule mark_rules [where n = n] returns_if returns_rules | assumption | simp only: prod.case | (simp; fail) | rule returns_any)+)

lemma wput_case: "maps_ok n (wst w) \<Longrightarrow> (\<And>h w. maps_ok n (wst w) \<Longrightarrow> returns Q (k h w)) \<Longrightarrow> returns Q (case wput f h w of (h, w) \<Rightarrow> k h w)"
  by (cases "wput f h w") (auto dest: km.kept_wput)

lemma keeps_metalist: "maps_ok n (wst w) \<Longrightarrow> returns (\<lambda>(_, _, _, w). maps_ok n (wst w)) (pass1_check_metalist h off k w)"
  unfolding pass1_check_metalist_def Let_def
  by ((rule wput_case [where n = n] mark_rules [where n = n] returns_if returns_rules | assumption | simp only: prod.case | (simp; fail) | rule returns_any)+)

lemma maps_ok_put_dup: "maps_ok n st \<Longrightarrow> maps_ok n (if b then dup_delete dt (put_dup dt st) else put_dup dt st)"
  by (simp add: maps_ok_nodes)

lemma keeps_undo: "maps_ok n (wst w) \<Longrightarrow> returns (\<lambda>(_, w). maps_ok n (wst w)) (undo_reference b m w)"
  unfolding undo_reference_def Let_def
  by ((rule mark_rules [where n = n] returns_if returns_rules | assumption | simp only: prod.case | (simp add: maps_ok_put_dup maps_ok_nodes; fail) | rule returns_any)+)

lemma call_undo: "maps_ok n (wst w) \<Longrightarrow> (\<And>r w. maps_ok n (wst w) \<Longrightarrow> Q (r, w)) \<Longrightarrow> returns Q (undo_reference b m w)"
  by (rule returns_mono [OF keeps_undo]) auto

lemma keeps_set_as_data: "maps_ok n (wst w) \<Longrightarrow> returns (\<lambda>(_, w). maps_ok n (wst w)) (blockmap_set_as_data b w)"
  unfolding blockmap_set_as_data_def Let_def
  by ((rule mark_rules [where n = n] returns_if returns_rules | assumption | simp only: prod.case | (simp; fail) | rule returns_any)+)

lemma call_set_as_data: "maps_ok n (wst w) \<Longrightarrow> (\<And>r w. maps_ok n (wst w) \<Longrightarrow> Q (r, w)) \<Longrightarrow> returns Q (blockmap_set_as_data b w)"
  by (rule returns_mono [OF keeps_set_as_data]) auto

lemma keeps_data: "maps_ok n (wst w) \<Longrightarrow> returns (\<lambda>(_, _, w). maps_ok n (wst w)) (pass1_check_data m b h off w)"
  unfolding pass1_check_data_def Let_def
  by ((rule call_set_as_data mark_rules [where n = n] returns_if returns_rules | assumption | simp only: prod.case | (simp; fail) | rule returns_any)+)

lemma maps_ok_ip [simp]: "wst (wdirty w) = wst w" "wst (w\<lparr>wip := ip\<rparr>) = wst w" "wst (count_ea w) = wst w" "wst (on_priv g w) = wst w"
  by (simp_all add: wdirty_def count_ea_def on_priv_def)

lemma keeps_remove_eattr: "maps_ok n (wst w) \<Longrightarrow> returns (\<lambda>(_, w). maps_ok n (wst w)) (ask_remove_inode_eattr w)"
  unfolding ask_remove_inode_eattr_def Let_def
  by ((rule call_undo [where n = n] mark_rules [where n = n] returns_if returns_rules | assumption | simp only: prod.case | (simp; fail) | rule returns_any)+)

lemma call_remove_eattr: "maps_ok n (wst w) \<Longrightarrow> (\<And>r w. maps_ok n (wst w) \<Longrightarrow> Q (r, w)) \<Longrightarrow> returns Q (ask_remove_inode_eattr w)"
  by (rule returns_mono [OF keeps_remove_eattr]) auto

lemma keeps_undo_eattr: "maps_ok n (wst w) \<Longrightarrow> returns (\<lambda>(_, _, w). maps_ok n (wst w)) (undo_eattr_indir_or_leaf b p w)"
  unfolding undo_eattr_indir_or_leaf_def Let_def
  by ((rule call_undo [where n = n] mark_rules [where n = n] returns_if returns_rules | assumption | simp only: prod.case | (simp; fail) | rule returns_any)+)

lemma keeps_eattr_indir: "maps_ok n (wst w) \<Longrightarrow> returns (\<lambda>(_, _, w). maps_ok n (wst w)) (pass1_check_eattr_indir b p w)"
  unfolding pass1_check_eattr_indir_def Let_def
  by ((rule mark_rules [where n = n] returns_if returns_rules | assumption | simp only: prod.case | (simp; fail) | rule returns_any)+)

lemma keeps_finish: "maps_ok n (wst w) \<Longrightarrow> returns (\<lambda>(_, w). maps_ok n (wst w)) (finish_eattr_indir k d w)"
  unfolding finish_eattr_indir_def Let_def
  by ((rule call_remove_eattr [where n = n] mark_rules [where n = n] returns_if returns_rules | assumption | simp only: prod.case | (simp; fail) | rule returns_any)+)

lemma keeps_ealeaf: "maps_ok n (wst w) \<Longrightarrow> returns (\<lambda>(_, _, w). maps_ok n (wst w)) (check_ealeaf_block b t w)"
  unfolding check_ealeaf_block_def Let_def
  by ((rule mark_rules [where n = n] returns_if returns_rules | assumption | simp only: prod.case | (simp; fail) | rule returns_any)+)

lemma call_ealeaf: "maps_ok n (wst w) \<Longrightarrow> (\<And>r bh w. maps_ok n (wst w) \<Longrightarrow> Q (r, bh, w)) \<Longrightarrow> returns Q (check_ealeaf_block b t w)"
  by (rule returns_mono [OF keeps_ealeaf]) auto

lemma keeps_ext_leaf: "maps_ok n (wst w) \<Longrightarrow> returns (\<lambda>(_, _, w). maps_ok n (wst w)) (check_extended_leaf_eattr i p bh t hdr prev w)"
  unfolding check_extended_leaf_eattr_def Let_def
  by ((rule call_ealeaf [where n = n] mark_rules [where n = n] returns_if returns_rules | assumption | simp only: prod.case | (simp split: option.split; fail) | rule returns_any)+)

lemma keeps_eattr_leaf: "maps_ok n (wst w) \<Longrightarrow> returns (\<lambda>(_, _, w). maps_ok n (wst w)) (pass1_check_eattr_leaf b p w)"
  unfolding pass1_check_eattr_leaf_def Let_def
  by ((rule call_ealeaf [where n = n] mark_rules [where n = n] returns_if returns_rules | assumption | simp only: prod.case | (simp; fail) | rule returns_any)+)

lemma keeps_remove_entry: "maps_ok n (wst w) \<Longrightarrow> returns (\<lambda>(_, _, w). maps_ok n (wst w)) (ask_remove_eattr_entry bh cur prev a b w)"
  unfolding ask_remove_eattr_entry_def Let_def
  by ((rule mark_rules [where n = n] returns_if returns_rules | assumption | simp only: prod.case | (simp; fail) | rule returns_any)+)

lemma keeps_eattr_entry: "maps_ok n (wst w) \<Longrightarrow> returns (\<lambda>(_, _, w). maps_ok n (wst w)) (pass1_check_eattr_entry bh hdr prev w)"
  unfolding pass1_check_eattr_entry_def Let_def
  by (auto intro: keeps_remove_entry)

lemma keeps_range: "maps_ok n (wst w) \<Longrightarrow> returns (\<lambda>(_, w). maps_ok n (wst w)) (rangecheck_block b w)"
  unfolding rangecheck_block_def Let_def
  by ((rule mark_rules [where n = n] returns_if returns_rules | assumption | simp only: prod.case | (simp; fail) | rule returns_any)+)

lemma keeps_ranges:
  "maps_ok n (wst w) \<Longrightarrow> returns (\<lambda>(_, _, _, w). maps_ok n (wst w)) (rangecheck_metadata h off k w)"
  "maps_ok n (wst w) \<Longrightarrow> returns (\<lambda>(_, w). maps_ok n (wst w)) (rangecheck_leaf b w)"
  "maps_ok n (wst w) \<Longrightarrow> returns (\<lambda>(_, _, w). maps_ok n (wst w)) (rangecheck_data m b h off w)"
  "maps_ok n (wst w) \<Longrightarrow> returns (\<lambda>(_, _, w). maps_ok n (wst w)) (rangecheck_eattr_indir b p w)"
  "maps_ok n (wst w) \<Longrightarrow> returns (\<lambda>(_, _, w). maps_ok n (wst w)) (rangecheck_eattr_leaf b p w)"
  unfolding rangecheck_metadata_def rangecheck_leaf_def rangecheck_data_def rangecheck_eattr_indir_def rangecheck_eattr_leaf_def
  by (auto intro: returns_mono [OF keeps_range])

lemma keeps_alloc:
  "maps_ok n (wst w) \<Longrightarrow> returns (\<lambda>(_, _, _, w). maps_ok n (wst w)) (alloc_metalist h off k w)"
  "maps_ok n (wst w) \<Longrightarrow> returns (\<lambda>(_, _, w). maps_ok n (wst w)) (alloc_data m b h off w)"
  "maps_ok n (wst w) \<Longrightarrow> returns (\<lambda>(_, w). maps_ok n (wst w)) (alloc_leaf b w)"
  unfolding alloc_metalist_def alloc_data_def alloc_leaf_def Let_def
  by ((rule mark_rules [where n = n] returns_if returns_rules | assumption | simp only: prod.case | (simp; fail) | rule returns_any)+)

section \<open>The passes\<close>

interpretation p1: walk_pass "maps_ok n" "pass1_fxns now" for n now
  by unfold_locales
    (auto simp: pass1_fxns_def no_fxns_def undo_check_metalist_def pass1_undo_check_data_def
      intro: keeps_leaf keeps_metalist keeps_data keeps_eattr_indir keeps_eattr_leaf keeps_eattr_entry keeps_ext_leaf keeps_repair_leaf
        keeps_undo keeps_delete_block)

interpretation range: walk_pass "maps_ok n" rangecheck_fxns for n
  by unfold_locales (auto simp: rangecheck_fxns_def no_fxns_def intro: keeps_ranges keeps_delete_block)

interpretation alloc: walk_pass "maps_ok n" alloc_fxns for n
  by unfold_locales (auto simp: alloc_fxns_def no_fxns_def intro: keeps_alloc keeps_delete_block)

interpretation sysdir: walk_pass "maps_ok n" sysdir_fxns for n
  by unfold_locales (auto simp: sysdir_fxns_def no_fxns_def intro: keeps_resuscitate_metalist keeps_resuscitate_dentry keeps_delete_block)

interpretation undo: walk_pass "maps_ok n" eattr_undo_fxns for n
  by unfold_locales (auto simp: eattr_undo_fxns_def no_fxns_def intro: keeps_undo_eattr keeps_finish keeps_delete_block)

section \<open>One inode\<close>

lemma keeps_set_ip: "maps_ok n (wst w) \<Longrightarrow> returns (\<lambda>(_, w). maps_ok n (wst w)) (set_ip_blockmap w)"
  unfolding set_ip_blockmap_def Let_def
  by ((rule mark_rules [where n = n] returns_if returns_rules | assumption | simp only: prod.case | (simp; fail) | rule returns_any)+)

lemma call_set_ip: "maps_ok n (wst w) \<Longrightarrow> (\<And>r w. maps_ok n (wst w) \<Longrightarrow> Q (r, w)) \<Longrightarrow> returns Q (set_ip_blockmap w)"
  by (rule returns_mono [OF keeps_set_ip]) auto

lemma call_tree1: "maps_ok n (wst w) \<Longrightarrow> (\<And>r w. maps_ok n (wst w) \<Longrightarrow> Q (r, w)) \<Longrightarrow> returns Q (pass1_check_metatree (pass1_fxns now) w)"
  unfolding pass1_check_metatree_def by (auto intro!: p1.kept_metatree)

lemma call_tree_range: "maps_ok n (wst w) \<Longrightarrow> (\<And>r w. maps_ok n (wst w) \<Longrightarrow> Q (r, w)) \<Longrightarrow> returns Q (pass1_check_metatree (rangecheck_fxns) w)"
  unfolding pass1_check_metatree_def by (auto intro!: range.kept_metatree)

lemma call_tree_alloc: "maps_ok n (wst w) \<Longrightarrow> (\<And>r w. maps_ok n (wst w) \<Longrightarrow> Q (r, w)) \<Longrightarrow> returns Q (pass1_check_metatree (alloc_fxns) w)"
  unfolding pass1_check_metatree_def by (auto intro!: alloc.kept_metatree)

lemma call_tree_sys: "maps_ok n (wst w) \<Longrightarrow> (\<And>r w. maps_ok n (wst w) \<Longrightarrow> Q (r, w)) \<Longrightarrow> returns Q (pass1_check_metatree (sysdir_fxns) w)"
  unfolding pass1_check_metatree_def by (auto intro!: sysdir.kept_metatree)

lemma call_reprocess:
  "maps_ok n (wst w) \<Longrightarrow> (\<And>w. maps_ok n (wst w) \<Longrightarrow> Q w) \<Longrightarrow> returns Q (reprocess_inode ip w)"
  unfolding reprocess_inode_def by (auto intro!: call_tree_alloc)

lemma keeps_blocks: "maps_ok n (wst w) \<Longrightarrow> returns (\<lambda>(_, w). maps_ok n (wst w)) (handle_blocks w)"
  unfolding handle_blocks_def Let_def
  by ((rule mark_rules [where n = n] returns_if returns_rules | assumption | simp only: prod.case | (simp; fail) | rule returns_any)+)

lemma call_blocks: "maps_ok n (wst w) \<Longrightarrow> (\<And>r w. maps_ok n (wst w) \<Longrightarrow> Q (r, w)) \<Longrightarrow> returns Q (handle_blocks w)"
  by (rule returns_mono [OF keeps_blocks]) auto

lemma keeps_eattr: "maps_ok n (wst w) \<Longrightarrow> returns (\<lambda>(_, w). maps_ok n (wst w)) (handle_eattr now w)"
  unfolding handle_eattr_def Let_def
  by ((rule call_blocks [where n = n] call_remove_eattr [where n = n] p1.kept_inode_eattr [where n = n] undo.kept_inode_eattr [where n = n] mark_rules [where n = n] returns_if returns_rules | assumption | simp only: prod.case | (simp; fail) | rule returns_any)+)

lemma call_eattr: "maps_ok n (wst w) \<Longrightarrow> (\<And>r w. maps_ok n (wst w) \<Longrightarrow> Q (r, w)) \<Longrightarrow> returns Q (handle_eattr now w)"
  by (rule returns_mono [OF keeps_eattr]) auto

lemma keeps_tree: "maps_ok n (wst w) \<Longrightarrow> returns (\<lambda>(_, w). maps_ok n (wst w)) (handle_tree now w)"
  unfolding handle_tree_def Let_def
  by ((rule call_blocks [where n = n] call_eattr [where n = n] call_tree1 [where n = n] call_reprocess [where n = n] mark_rules [where n = n] returns_if returns_rules | assumption | simp only: prod.case | (simp; fail) | rule returns_any)+)

lemma call_tree: "maps_ok n (wst w) \<Longrightarrow> (\<And>r w. maps_ok n (wst w) \<Longrightarrow> Q (r, w)) \<Longrightarrow> returns Q (handle_tree now w)"
  by (rule returns_mono [OF keeps_tree]) auto

lemma case_di_nlink: "maps_ok n st \<Longrightarrow> (\<And>r st. maps_ok n st \<Longrightarrow> returns Q (k r st)) \<Longrightarrow> returns Q (case set_di_nlink ip st of (r, st) \<Rightarrow> k r st)"
  using maps_ok_calls(2) [of n st ip] by (cases "set_di_nlink ip st") auto

lemma keeps_ip: "maps_ok n (wst w) \<Longrightarrow> returns (\<lambda>(_, w). maps_ok n (wst w)) (handle_ip now w)"
  unfolding handle_ip_def Let_def
  by ((rule call_tree [where n = n] call_tree_range [where n = n] call_set_ip [where n = n] case_di_nlink [where n = n] mark_rules [where n = n] returns_if returns_rules | assumption | simp only: prod.case | (simp; fail) | rule returns_any)+)

lemma call_ip: "maps_ok n (wst w) \<Longrightarrow> (\<And>r w. maps_ok n (wst w) \<Longrightarrow> Q (r, w)) \<Longrightarrow> returns Q (handle_ip now w)"
  by (rule returns_mono [OF keeps_ip]) auto

lemma call_goal: "maps_ok n (wst w) \<Longrightarrow> (\<And>w. maps_ok n (wst w) \<Longrightarrow> Q w) \<Longrightarrow> returns Q (check_i_goal w)"
  unfolding check_i_goal_def Let_def by (auto intro!: mark_rules)

lemma call_number: "maps_ok n (wst w) \<Longrightarrow> (\<And>w. maps_ok n (wst w) \<Longrightarrow> Q w) \<Longrightarrow> returns Q (fix_number no w)"
  unfolding fix_number_def by (auto intro!: mark_rules)

lemma keeps_di: "maps_ok n st \<Longrightarrow> returns (\<lambda>(_, _, _, st). maps_ok n st) (handle_di now rgd bh rindex st)"
  unfolding handle_di_def Let_def
  by ((rule call_ip [where n = n] call_goal [where n = n] call_number [where n = n] returns_if returns_rules | assumption | simp only: prod.case
      | (simp; fail) | rule returns_any)+)

lemma call_di: "maps_ok n (st) \<Longrightarrow> (\<And>r bh2 x st. maps_ok n (st) \<Longrightarrow> Q (r, bh2, x, st)) \<Longrightarrow> returns Q (handle_di now rgd bh rindex st)"
  by (rule returns_mono [OF keeps_di]) auto

section \<open>System inodes\<close>

lemma state_calls:
  "maps_ok n st \<Longrightarrow> (\<And>r st. maps_ok n st \<Longrightarrow> Q (r, st)) \<Longrightarrow> returns Q (fsck_query st)"
  "maps_ok n st \<Longrightarrow> (\<And>r st. maps_ok n st \<Longrightarrow> Q' (r, st)) \<Longrightarrow> returns Q' (check_n_fix_bitmap h b e m st)"
  "maps_ok n st \<Longrightarrow> (\<And>r st. maps_ok n st \<Longrightarrow> Q' (r, st)) \<Longrightarrow> returns Q' (fsck_blockmap_set h b m e st)"
  by (auto intro: returns_mono [OF kept_by_query] returns_mono [OF kept_by_bitmap] returns_mono [OF kept_by_blockmap])

lemma state_more:
  "maps_ok n st \<Longrightarrow> (\<And>st. maps_ok n st \<Longrightarrow> Q st) \<Longrightarrow> returns Q (mark_sys ip d st)"
  "maps_ok n st \<Longrightarrow> (\<And>st. maps_ok n st \<Longrightarrow> Q st) \<Longrightarrow> returns Q (sys_dirent_del dir name st)"
  "maps_ok n st \<Longrightarrow> (\<And>r st. maps_ok n st \<Longrightarrow> Q' (r, st)) \<Longrightarrow> returns Q' (ji_update st)"
  unfolding mark_sys_def sys_dirent_del_def ji_update_def
  by (auto intro!: state_calls simp: Let_def returns_def [of _ "gfs2_dirent_del _ _ _"] returns_def [of _ "sys_ptr _ _"]
      returns_def [of _ "ji_gfs1_loop _ _ _ _"] returns_def [of _ "ji_lookup_loop _ _ _ _"] split: option.split)

lemmas state_rules = state_calls state_more

lemma keeps_drop_bad: "maps_ok n st \<Longrightarrow> returns (\<lambda>(_, st). maps_ok n st) (drop_bad_sys ptr st)"
  unfolding drop_bad_sys_def Let_def
  by ((rule state_rules [where n = n] returns_if returns_rules maps_ok_intro(1) | assumption | simp only: prod.case
      | (simp add: maps_ok_intro; fail) | rule returns_any)+)

lemma call_drop_bad: "maps_ok n (st) \<Longrightarrow> (\<And>p st. maps_ok n (st) \<Longrightarrow> Q (p, st)) \<Longrightarrow> returns Q (drop_bad_sys ptr st)"
  by (rule returns_mono [OF keeps_drop_bad]) auto

lemma keeps_sys_state: "maps_ok n st \<Longrightarrow> returns (\<lambda>(_, _, st). maps_ok n st) (check_sys_state d b dir name ptr st)"
  unfolding check_sys_state_def Let_def
  by ((rule state_rules [where n = n] returns_if returns_rules maps_ok_intro(1) | assumption | simp only: prod.case
      | (simp add: maps_ok_intro; fail) | rule returns_any)+)

lemma call_sys_state: "maps_ok n (st) \<Longrightarrow> (\<And>q p st. maps_ok n (st) \<Longrightarrow> Q (q, p, st)) \<Longrightarrow> returns Q (check_sys_state d b dir name ptr st)"
  by (rule returns_mono [OF keeps_sys_state]) auto

lemma maps_ok_sync [simp]: "maps_ok n (sync_ptr file p st) = maps_ok n st"
  by (simp add: sync_ptr_def split: option.split)

definition keeps_builder :: "builder \<Rightarrow> bool" where
  "keeps_builder b \<longleftrightarrow> (\<forall>n st no. maps_ok n st \<longrightarrow> returns (\<lambda>(_, _, st, _). maps_ok n st) (b st no))"

lemma call_builder:
  "keeps_builder b \<Longrightarrow> maps_ok n st \<Longrightarrow> (\<And>e p st no. maps_ok n st \<Longrightarrow> Q (e, p, st, no)) \<Longrightarrow> returns Q (b st no)"
  unfolding keeps_builder_def by (rule returns_mono [where P = "\<lambda>(_, _, st, _). maps_ok n st"]) auto

lemma keeps_build: "keeps_builder (build_in dir g)" "keeps_builder (build_top g')" "keeps_builder (sys_builder env file)"
  "keeps_builder (build_a_journal env j)"
proof -
  show b: "keeps_builder (build_in dir g)" for dir g
    unfolding keeps_builder_def build_in_def by (auto simp: returns_def split: option.splits bind_splits)
  show t: "keeps_builder (build_top g')" for g'
    unfolding keeps_builder_def build_top_def by (auto simp: returns_def)
  show "keeps_builder (sys_builder env file)"
    using b t unfolding keeps_builder_def sys_builder_def Let_def by (simp split: sysfile.split)
  show "keeps_builder (build_a_journal env j)"
    unfolding keeps_builder_def build_a_journal_def
    by (intro allI impI)
      ((rule call_builder [OF b] state_rules returns_if returns_rules | assumption | simp only: prod.case | (simp; fail))+)
qed

lemma keeps_rebuild:
  assumes "keeps_builder b" "maps_ok n st"
  shows "returns (\<lambda>(_, st, _). maps_ok n st) (rebuild_sys d ji b q ptr st no)"
  using assms(2) unfolding rebuild_sys_def Let_def
  by - ((rule call_builder [OF assms(1)] state_rules [where n = n] returns_if returns_rules | assumption | simp only: prod.case
      | (simp; fail) | rule returns_any)+)

lemma call_rebuild:
  "keeps_builder b \<Longrightarrow> maps_ok n st \<Longrightarrow> (\<And>r st no. maps_ok n st \<Longrightarrow> Q (r, st, no)) \<Longrightarrow> returns Q (rebuild_sys d ji b q ptr st no)"
  by (rule returns_mono [OF keeps_rebuild]) auto

lemma keeps_sys_tree: "maps_ok n st \<Longrightarrow> returns (\<lambda>(_, _, _, st). maps_ok n st) (check_sys_tree now blks ip st)"
  unfolding check_sys_tree_def Let_def
  by ((rule call_ip [where n = n] call_goal [where n = n] call_tree_sys [where n = n] sysdir.kept_linear [where n = n] returns_if returns_rules
      | assumption | simp only: prod.case | (simp; fail) | rule returns_any)+)

lemma call_sys_tree: "maps_ok n (st) \<Longrightarrow> (\<And>r p l st. maps_ok n (st) \<Longrightarrow> Q (r, p, l, st)) \<Longrightarrow> returns Q (check_sys_tree now blks ip st)"
  by (rule returns_mono [OF keeps_sys_tree]) auto

lemma call_system_inode:
  assumes "keeps_builder b" "maps_ok n st" "\<And>r p l st no. maps_ok n st \<Longrightarrow> Q (r, p, l, st, no)"
  shows "returns Q (check_system_inode now d sb file dir name b ptr blks st no)"
  unfolding check_system_inode_def
  by (insert assms(2), (rule call_drop_bad [where n = n] call_sys_state [where n = n] call_rebuild [OF assms(1), where n = n]
      call_sys_tree [where n = n] returns_if returns_rules assms(3) | assumption | simp only: prod.case | (simp; fail) | rule returns_any)+)

lemma call_mark_first: "maps_ok n st \<Longrightarrow> (\<And>st. maps_ok n st \<Longrightarrow> Q st) \<Longrightarrow> returns Q (mark_first file st)"
  unfolding mark_first_def by (auto intro!: state_rules simp: returns_def [of _ "sys_ptr _ _"])

lemma call_sys_step: "maps_ok n st \<Longrightarrow> (\<And>r l st no. maps_ok n st \<Longrightarrow> Q (r, l, st, no)) \<Longrightarrow> returns Q (check_sys_step env c (blks, st, no))"
  unfolding check_sys_step_def prod.case
  by (auto intro!: call_mark_first call_system_inode keeps_build)

lemma call_journal_step:
  "maps_ok n st \<Longrightarrow> (\<And>r js l st no. maps_ok n st \<Longrightarrow> Q (r, js, l, st, no)) \<Longrightarrow>
     returns Q (check_journal_step env j (js, blks, st, no))"
  unfolding check_journal_step_def prod.case Let_def
  by (auto intro!: call_system_inode keeps_build)

lemma call_journals:
  assumes "maps_ok n st" "\<And>r l st no. maps_ok n st \<Longrightarrow> Q (r, l, st, no)"
  shows "returns Q (check_journals env blks st no)"
proof -
  have "returns Q (for_each (check_journal_step env) js (jl, blks, st, no))"
    if "\<And>r js l st no. maps_ok n st \<Longrightarrow> Q (r, js, l, st, no)" for js jl and Q :: "_ \<Rightarrow> bool"
    by (rule returns_for_each [where I = "\<lambda>(_, _, st, _). maps_ok n st"]) (use assms(1) that in \<open>auto intro!: call_journal_step\<close>)
  then show ?thesis unfolding check_journals_def Let_def using assms(2) by (auto split: option.split)
qed

lemma maps_ok_links:
  "maps_ok n st \<Longrightarrow> maps_ok n (st\<lparr>nlink1map := snd (link1_set (nlink1map st) b v), clink1map := snd (link1_set (clink1map st) c w)\<rparr>)"
  by (simp add: maps_ok_def bmap_set_ok)

lemma call_gfs1_links:
  assumes "maps_ok n st" "\<And>st. maps_ok n st \<Longrightarrow> Q st"
  shows "returns Q (gfs1_links st)"
proof -
  have put: "maps_ok n (fsck_inode_put ip st) = maps_ok n st" for ip st
    by (auto simp: fsck_inode_put_def put_system_inode_def Let_def split: list.split)
  have "returns (\<lambda>(_, st). maps_ok n st) (incr_link_count no st)" if "maps_ok n st" for no st
    using that unfolding incr_link_count_def
    by (auto simp: put inodetree_insert_def put_inode_info_def Let_def split_def returns_def [of _ "link1_type _ _"]
        returns_def [of _ "fsck_load_inode _ _"] intro!: maps_ok_nodes maps_ok_intro maps_ok_links split: option.split)
  note count = this
  have step: "returns (\<lambda>(_, st). maps_ok n st)
      (sys_ptr x (fk_md st) \<bind> (\<lambda>ip. incr_link_count (i_num (vi ip)) st \<bind> (\<lambda>(_, st). Some (None :: unit option, st))))"
    if "maps_ok n st" for x st
    by (simp add: returns_def [of _ "sys_ptr _ _"]) (auto intro!: returns_mono [OF count] that)
  have "returns (\<lambda>x. Q (snd x)) (for_each (\<lambda>x st. sys_ptr x (fk_md st) \<bind>
      (\<lambda>ip. incr_link_count (i_num (vi ip)) st \<bind> (\<lambda>(_, st). Some (None :: unit option, st)))) xs st)" for xs
    by (rule returns_for_each [where I = "maps_ok n", OF assms(1)]) (use step assms(2) in auto)
  then show ?thesis unfolding gfs1_links_def by (simp del: for_each.simps)
qed

lemma call_system_inodes:
  assumes "maps_ok n st" "\<And>r l st no. maps_ok n st \<Longrightarrow> Q (r, l, st, no)"
  shows "returns Q (check_system_inodes env st no)"
proof -
  have loop: "returns Q (for_each (check_sys_step env) cs (blks, st, no))"
    if "\<And>r l st no. maps_ok n st \<Longrightarrow> Q (r, l, st, no)" for cs blks and Q :: "_ \<Rightarrow> bool"
    by (rule returns_for_each [where I = "\<lambda>(_, st, _). maps_ok n st"]) (use assms(1) that in \<open>auto intro!: call_sys_step\<close>)
  show ?thesis unfolding check_system_inodes_def Let_def
    by (insert assms, (rule loop call_gfs1_links [where n = n] call_journals [where n = n] returns_if returns_rules assms(2) | assumption
        | simp only: prod.case)+)
qed

section \<open>The groups\<close>

lemma call_inode_step:
  assumes "maps_ok n st" "\<And>r l st. maps_ok n st \<Longrightarrow> Q (r, l, st)"
  shows "returns Q (process_inode_step now rgd b (blks, st))"
proof -
  have dup: "maps_ok n (duplicate_inode b i bh st)" if "maps_ok n st" for i bh st
    using that by (simp add: duplicate_inode_def Let_def)
  show ?thesis
    unfolding process_inode_step_def Let_def prod.case
    by (insert assms, (rule call_di [where n = n] state_rules [where n = n] returns_if returns_rules assms(2) | assumption | simp only: prod.case
        | (simp add: dup; fail) | rule returns_any)+)
qed

lemma call_bitmap:
  assumes "maps_ok n st" "\<And>r l st. maps_ok n st \<Longrightarrow> Q (r, l, st)"
  shows "returns Q (pass1_process_bitmap now rgd ibuf blks st)"
proof -
  have "returns (\<lambda>x. Q ((\<lambda>(r, rindex_blks, st). (case r of None \<Rightarrow> 0 | Some r \<Rightarrow> r, rindex_blks, st)) x))
      (for_each (process_inode_step now rgd) ibuf (blks, st))"
    by (rule returns_for_each [where I = "\<lambda>(_, st). maps_ok n st"]) (use assms in \<open>auto intro!: call_inode_step\<close>)
  then show ?thesis unfolding pass1_process_bitmap_def by simp
qed

lemma maps_ok_free_meta: "maps_ok n st \<Longrightarrow> maps_ok n (mark_free_meta ibuf st)"
proof -
  have fold: "maps_ok n (st\<lparr>blockmap := fold (\<lambda>b m. snd (gfs2_blockmap_set m b GFS2_BLKST_UNLINKED)) bs (blockmap st)\<rparr>)"
    if "maps_ok n st" for st and bs
    using that
  proof (induction bs arbitrary: st)
    case (Cons b bs)
    then show ?case using Cons.IH [OF maps_ok_intro(1) [OF Cons.prems, of b GFS2_BLKST_UNLINKED]] by simp
  qed simp
  show "maps_ok n st \<Longrightarrow> maps_ok n (mark_free_meta ibuf st)"
    unfolding mark_free_meta_def by (cases "fsck_abort st"; cases ibuf) (simp_all add: fold maps_ok_intro del: fold.simps)
qed

lemma call_bitmap_step:
  assumes "maps_ok n st" "\<And>r l st. maps_ok n st \<Longrightarrow> Q (r, l, st)"
  shows "returns Q (process_bitmap_step now rgd k (blks, st))"
  unfolding process_bitmap_step_def Let_def prod.case
  by (insert assms, (rule call_bitmap [where n = n] maps_ok_free_meta returns_if returns_rules assms(2) | assumption | simp only: prod.case
      | (simp; fail) | rule returns_any)+)

lemma call_rgrp:
  assumes "maps_ok n st" "\<And>r l st. maps_ok n st \<Longrightarrow> Q (r, l, st)"
  shows "returns Q (pass1_process_rgrp now rg blks st)"
proof -
  have "returns (\<lambda>x. Q ((\<lambda>(r, rindex_blks, st). (case r of None \<Rightarrow> 0 | Some r \<Rightarrow> r, rindex_blks, st)) x))
      (for_each (process_bitmap_step now a) ks (blks, st))" for a ks
    by (rule returns_for_each [where I = "\<lambda>(_, st). maps_ok n st"]) (use assms in \<open>auto intro!: call_bitmap_step\<close>)
  then show ?thesis unfolding pass1_process_rgrp_def by simp
qed

lemma call_rgrp_step:
  assumes "maps_ok n st" "\<And>r l st. maps_ok n st \<Longrightarrow> Q (r, l, st)"
  shows "returns Q (pass1_rgrp_step now a (blks, st))"
proof -
  have mark: "returns Q (for_each mark_rgrp_step bs st)" if "maps_ok n st" "\<And>r st. maps_ok n st \<Longrightarrow> Q (r, st)" for Q :: "_ \<Rightarrow> bool" and bs st
    by (rule returns_for_each [where I = "maps_ok n"])
      (use that in \<open>auto simp: mark_rgrp_step_def split_def Let_def intro: maps_ok_intro\<close>)
  show ?thesis
    unfolding pass1_rgrp_step_def Let_def prod.case
    by (insert assms, (rule mark call_rgrp [where n = n] returns_if returns_rules assms(2) | assumption | simp only: prod.case
        | (simp; fail) | rule returns_any)+)
qed

lemma call_pass5:
  assumes "maps_ok n st" "\<And>r st. maps_ok n st \<Longrightarrow> Q (r, st)"
  shows "returns Q (pass5 bl st)"
proof -
  have block: "returns Q (check_block a q b c st)" if "maps_ok n st" "\<And>c st. maps_ok n st \<Longrightarrow> Q (c, st)" for Q :: "_ \<Rightarrow> bool" and a q b c st
    unfolding check_block_def Let_def
    by (insert that, (rule state_rules [where n = n] returns_if returns_rules that(2) | assumption | simp only: prod.case
        | (simp; fail) | rule returns_any)+)
  have status: "returns Q (check_block_status bl a i d k m b c st)"
    if "maps_ok n st" "\<And>b c st. maps_ok n st \<Longrightarrow> Q (b, c, st)" for Q :: "_ \<Rightarrow> bool" and a i d k m b c st
    using that
  proof (induction m arbitrary: k b c st)
    case (Suc m)
    show ?case unfolding check_block_status.simps Let_def
      by (insert Suc.prems, (rule block Suc.IH returns_if returns_rules Suc.prems(2) | assumption | simp only: prod.case | rule returns_any)+)
  qed simp
  have bitmaps: "returns Q (check_bitmaps bl rg is b c st)"
    if "maps_ok n st" "\<And>r c st. maps_ok n st \<Longrightarrow> Q (r, c, st)" for Q :: "_ \<Rightarrow> bool" and rg "is" b c st
    using that
  proof (induction "is" arbitrary: b c st)
    case (Cons i ks)
    show ?case unfolding check_bitmaps.simps
      by (insert Cons.prems, (rule status Cons.IH returns_if returns_rules Cons.prems(2) | assumption | simp only: prod.case)+)
  qed simp
  have group: "returns Q (update_rgrp bl a c st)" if "maps_ok n st" "\<And>st. maps_ok n st \<Longrightarrow> Q st" for Q :: "_ \<Rightarrow> bool" and a c st
    unfolding update_rgrp_def Let_def
    by (insert that, (rule bitmaps state_rules [where n = n] returns_if returns_rules that(2) | assumption | simp only: prod.case
        | (simp; fail) | rule returns_any)+)
  have "returns (maps_ok n) (pass5_groups bl gs st)" if "maps_ok n st" for gs st
    using that by (induction gs arbitrary: st) (auto intro!: group)
  then show ?thesis unfolding pass5_def using assms by (auto intro: returns_mono [where P = "maps_ok n"])
qed

lemma pass1_keeps:
  assumes "tree_ok di_addr (dirtree st)" "tree_ok dup_block (dup_blocks st)"
  shows "returns (\<lambda>(_, st', _). maps_ok (last_fs_block st + 1) st') (pass1 env st no)"
proof -
  let ?n = "last_fs_block st + 1"
  have start: "maps_ok ?n (st\<lparr>blockmap := gfs2_blockmap_create ?n, nlink1map := link1_create ?n, clink1map := link1_create ?n\<rparr>)"
    using assms by (simp add: maps_ok_def create_laws)
  have loop: "returns Q (for_each (pass1_rgrp_step now) xs (blks, st))"
    if "maps_ok n st" "\<And>r l st. maps_ok n st \<Longrightarrow> Q (r, l, st)" for n now xs blks st and Q :: "_ \<Rightarrow> bool"
    by (rule returns_for_each [where I = "\<lambda>(_, st). maps_ok n st"]) (use that in \<open>auto intro!: call_rgrp_step\<close>)
  show ?thesis
    unfolding pass1_def Let_def
    by (insert start, (rule call_system_inodes [where n = ?n] loop [where n = ?n] call_pass5 [where n = ?n] returns_if returns_rules | assumption
        | simp only: prod.case | (simp; fail))+)
qed

section \<open>Chains that come back\<close>

text \<open>A leaf on the device that pass 1 has seen, with the next one of its chain.\<close>

definition seen_leaf :: "'p walk \<Rightarrow> u64 \<Rightarrow> u64 \<Rightarrow> bool" where
  "seen_leaf w b next_no \<longleftrightarrow> valid_block_ip (wfs w) b \<and> bl_type b w = Some (meta_state w) \<and>
     (case wbread w b of None \<Rightarrow> False
      | Some lbh \<Rightarrow> gfs2_check_meta (b_data lbh) GFS2_METATYPE_LF = 0 \<and>
          lf_dirent_format (lgfs2_leaf_in leaf_zero (b_data lbh)) = GFS2_FORMAT_DE \<and> lf_next (lgfs2_leaf_in leaf_zero (b_data lbh)) = next_no)"

lemma add_dup_frame:
  "wfs (add_dup b t w) = wfs w" "blockmap (wst (add_dup b t w)) = blockmap (wst w)" "fsck_abort (wst (add_dup b t w)) = fsck_abort (wst w)"
  by (auto simp: add_dup_def add_duplicate_ref_def gfs2_dup_set_def put_dup_def Let_def split_def split: option.split)

lemma seen_leaf_frame:
  "wfs w' = wfs w \<Longrightarrow> blockmap (wst w') = blockmap (wst w) \<Longrightarrow> seen_leaf w' b n = seen_leaf w b n"
  by (simp add: seen_leaf_def bl_type_def meta_state_def wbread_def)

lemma wrelse_clean: "\<not> b_modified bh \<Longrightarrow> wrelse bh w = w"
  by (simp add: wrelse_def fs_brelse_def brelse_def)

lemma seen_leaf_step:
  assumes "seen_leaf w b next_no" "\<not> fsck_abort (wst w)" "next_no \<noteq> 0"
  shows "\<exists>rc' w'. check_chain_leaf (pass1_fxns now) i (b, rc, w) = Some (Inr (next_no, rc', w')) \<and> wfs w' = wfs w \<and>
    blockmap (wst w') = blockmap (wst w) \<and> \<not> fsck_abort (wst w')"
proof -
  obtain lbh where lbh: "wbread w b = Some lbh" "gfs2_check_meta (b_data lbh) GFS2_METATYPE_LF = 0"
    "lf_dirent_format (lgfs2_leaf_in leaf_zero (b_data lbh)) = GFS2_FORMAT_DE" "lf_next (lgfs2_leaf_in leaf_zero (b_data lbh)) = next_no"
    and v: "valid_block_ip (wfs w) b" and q: "bl_type b w = Some (meta_state w)"
    using assms(1) by (auto simp: seen_leaf_def split: option.splits)
  have clean: "\<not> b_modified lbh" using lbh(1) by (auto simp: wbread_def bread_def bget_def split: option.splits)
  let ?w = "add_dup b REF_AS_META (on_priv (indir_count_update (\<lambda>n. n + 1)) w)"
  have f: "wfs ?w = wfs w" "blockmap (wst ?w) = blockmap (wst w)" "fsck_abort (wst ?w) = fsck_abort (wst w)"
    by (simp_all add: add_dup_frame)
  have m: "meta_state w \<noteq> GFS2_BLKST_FREE" by (simp add: meta_state_def)
  have "p1check_leaf b w = Some (E_EXIST, ?w)"
    using q m by (simp add: p1check_leaf_def Let_def bl_type_def meta_state_def add_dup_frame)
  moreover have "get_be32 (b_data lbh) (offsetof struct_gfs2_meta_header ''mh_type'') = GFS2_METATYPE_LF"
    using lbh(2) by (simp add: gfs2_check_meta_def Let_def split: if_splits)
  ultimately have "check_leaf (pass1_fxns now) i b rc w =
      Some (0, b, lgfs2_leaf_in leaf_zero (b_data lbh), more_refs (unat (i_depth (vi (wip w)))) rc ?w, ?w)"
    using lbh v clean by (simp add: check_leaf_def pass1_fxns_def no_fxns_def leaf_out_def wrelse_clean Let_def)
  then show ?thesis using assms(2,3) lbh(4) f by (simp add: check_chain_leaf_def)
qed

section \<open>Properties\<close>

text \<open>
  Pass 1 keeps the types of what it works on: on any device, with any answers, whenever it comes to an end every block of the
  file system has one of the four types in the map of blocks and a link count in both maps of links, and the trees of
  directories and of duplicate blocks are still in order, so that the look-ups of the passes behind it find what was put in.
\<close>

theorem pass1_keeps_maps:
  assumes "pass1 env st next_inum = Some (r, st', next_inum')" "tree_ok di_addr (dirtree st)" "tree_ok dup_block (dup_blocks st)"
    "b \<le> last_fs_block st + 1"
  shows "(\<exists>q < 4. block_type (blockmap st') b = Some q) \<and> (\<exists>c < 2. link1_type (nlink1map st') b = Some c) \<and>
    (\<exists>c < 2. link1_type (clink1map st') b = Some c) \<and> tree_ok di_addr (dirtree st') \<and> tree_ok dup_block (dup_blocks st')"
proof -
  have ok: "maps_ok (last_fs_block st + 1) st'" using pass1_keeps [OF assms(2,3), of env next_inum] assms(1) by simp
  then show ?thesis using assms(4) unfolding maps_ok_def by (auto intro: bm2.get_range bm1.get_range)
qed

text \<open>A master directory without its inode's header: the user is asked whether to make a new one, and stops the program.\<close>

definition marks_example :: fsck where
  "marks_example = (fsck_start fs_example 400)\<lparr>opts_yes := False, keys := [3, 97], fk_md := no_inodes\<lparr>master_dir :=
     Some \<lparr>vi = inode_zero, vbh = \<lparr>b_blocknr = 205, b_data = replicate 512 0, b_modified = False\<rparr>, vown = False\<rparr>\<rparr>\<rparr>"

definition env_example :: build_env where
  "env_example = \<lparr>be_now = 0, be_errno = 0, be_seqs = (\<lambda>_. 0), be_junk = [], be_jsize = 32, be_qcsize = 1\<rparr>"

lemma marks_example_stops: "\<exists>st. pass1 env_example marks_example no = Some (FSCK_CANCELED, st, no)"
proof -
  have none: "gfs2_blk2rgrpd (fs_rgtree fs_example) 0 = None" by (simp add: fs_example_def rgrp_example_def rgrp_example2_def)
  have q: "query_loop [3, 97] = Some (False, True, [])" by simp
  have m: "gfs2_check_meta (replicate 512 0) GFS2_METATYPE_DI \<noteq> 0" by code_simp
  have gfs1: "sd_gfs1 (fs_sdp fs_example) = False" "fs_rgtree fs_example = Node Leaf rgrp_example (Node Leaf rgrp_example2 Leaf)"
    by (simp_all add: fs_example_def sbd_example_def)
  have z: "in_addr (i_num inode_zero) = 0" by (simp add: inode_zero_def)
  let ?c = "\<lparr>sc_file = SysMaster, sc_name = ''master'', sc_isdir = True, sc_dir = None, sc_sysbit = True\<rparr>"
  let ?st = "marks_example\<lparr>blockmap := gfs2_blockmap_create 401, nlink1map := link1_create 401, clink1map := link1_create 401\<rparr>"
  have "\<exists>st. check_sys_step env_example ?c ([], ?st, no) = Some (Some (-1), [], st, no) \<and> fk_fs st = fs_example \<and> fsck_abort st"
    by (simp add: check_sys_step_def mark_first_def mark_sys_def fsck_blockmap_set_def none
      check_n_fix_bitmap_def bitmap_group_def lgfs2_get_bitmap_def marks_example_def fsck_start_def no_inodes_def Let_def
      check_system_inode_def drop_bad_sys_def m q fsck_query_def check_sys_state_def rebuild_sys_def sync_ptr_def set_sys_def set_fs_def
      inode_put_def fs_brelse_def brelse_def z)
  then obtain st where st: "check_sys_step env_example ?c ([], ?st, no) = Some (Some (-1), [], st, no)" "fk_fs st = fs_example" "fsck_abort st"
    by blast
  have "last_fs_block marks_example = 400" "fk_fs marks_example = fs_example" by (simp_all add: marks_example_def fsck_start_def)
  then show ?thesis using st by (simp add: pass1_def check_system_inodes_def sys_checks_def gfs1 pass1_rgrp_step_def Let_def)
qed

theorem pass1_keeps_maps_witness:
  "\<exists>r st' i'. pass1 env_example marks_example 5 = Some (r, st', i') \<and> (\<exists>q < 4. block_type (blockmap st') 205 = Some q)"
proof -
  obtain st where st: "pass1 env_example marks_example 5 = Some (FSCK_CANCELED, st, 5)" using marks_example_stops by blast
  have "dirtree marks_example = Leaf" "dup_blocks marks_example = Leaf" "last_fs_block marks_example = 400"
    by (simp_all add: marks_example_def fsck_start_def)
  then show ?thesis using pass1_keeps_maps [OF st, of 205] st by (simp add: tree_ok_def)
qed

text \<open>
  C33. A chain of leaves that comes back to itself is followed for ever: when every leaf of a set has its next one in the set, all are
  valid leaves that the pass has marked already, and the program is not interrupted, the loop over the chain does not end. The
  pass's function says with EEXIST that it has seen the leaf, and the walk waits for the negative of it.
\<close>

theorem cyclic_leaf_chain_hangs:
  assumes "leaf_no \<in> S" "\<not> fsck_abort (wst w)" "\<And>b. b \<in> S \<Longrightarrow> \<exists>next_no \<in> S. next_no \<noteq> 0 \<and> seen_leaf w b next_no"
  shows "iterate (check_chain_leaf (pass1_fxns now) lindex) (leaf_no, ref_count, w) = None"
proof -
  let ?I = "\<lambda>(b, _ :: int, w' :: p1_walk). b \<in> S \<and> \<not> fsck_abort (wst w') \<and> wfs w' = wfs w \<and> blockmap (wst w') = blockmap (wst w)"
  show ?thesis
  proof (rule iterate_loops [where I = ?I])
    show "?I (leaf_no, ref_count, w)" using assms by simp
    fix s
    assume s: "?I s"
    obtain b rc w' where s': "s = (b, rc, w')" by (cases s)
    obtain n where n: "n \<in> S" "n \<noteq> 0" "seen_leaf w b n" using assms(3) s s' by auto
    then have "seen_leaf w' b n" using s s' seen_leaf_frame [of w' w b n] by simp
    from seen_leaf_step [OF this, of now lindex rc] obtain rc' w'' where
      "check_chain_leaf (pass1_fxns now) lindex (b, rc, w') = Some (Inr (n, rc', w''))" "wfs w'' = wfs w'"
      "blockmap (wst w'') = blockmap (wst w')" "\<not> fsck_abort (wst w'')"
      using s s' n(2) by auto
    then show "\<exists>s'. check_chain_leaf (pass1_fxns now) lindex s = Some (Inr s') \<and> ?I s'" using s s' n(1) by auto
  qed
qed


text \<open>Block 205 is a leaf that is the next one of itself.\<close>

definition leaf_example :: bytes where
  "leaf_example = lgfs2_leaf_out (leaf_zero\<lparr>lf_dirent_format := GFS2_FORMAT_DE, lf_next := 205\<rparr>)
     (set_meta_header GFS2_METATYPE_LF 0 (replicate 512 0))"

definition cycle_example :: p1_walk where
  "cycle_example = \<lparr>wst = (fsck_start (fs_example\<lparr>fs_disk := [205 \<mapsto> leaf_example]\<rparr>) 400)\<lparr>blockmap :=
       snd (gfs2_blockmap_set (gfs2_blockmap_create 400) 205 GFS2_BLKST_USED)\<rparr>, 
     wip = \<lparr>vi = inode_zero, vbh = \<lparr>b_blocknr = 210, b_data = replicate 512 0, b_modified = False\<rparr>, vown = False\<rparr>,
     wpriv = \<lparr>indir_count = 0, data_count = 0, ea_count = 0, bad_pointers = 0, gfs1_rindex_blks = []\<rparr>, wrgd = None\<rparr>"

lemma leaf_example_is:
  "gfs2_check_meta leaf_example GFS2_METATYPE_LF = 0" "lgfs2_leaf_in leaf_zero leaf_example = leaf_zero\<lparr>lf_dirent_format := GFS2_FORMAT_DE, lf_next := 205\<rparr>"
proof -
  show "lgfs2_leaf_in leaf_zero leaf_example = leaf_zero\<lparr>lf_dirent_format := GFS2_FORMAT_DE, lf_next := 205\<rparr>"
    unfolding leaf_example_def by (rule leaf_in_out) (simp add: size_simps)
  show "gfs2_check_meta leaf_example GFS2_METATYPE_LF = 0"
    by (simp add: leaf_example_def lgfs2_leaf_out_def gfs2_check_meta_def set_meta_header_def size_simps field_simps)
qed

theorem cyclic_leaf_chain_hangs_witness:
  "iterate (check_chain_leaf (pass1_fxns 7) 0) (205, 1, cycle_example) = None"
proof -
  have sdp: "fs_sdp fs_example = sbd_example" "sd_gfs1 sbd_example = False" by (simp_all add: fs_example_def sbd_example_def)
  have "valid_block_ip (wfs cycle_example) 205"
    by (simp add: valid_block_ip_def cycle_example_def fsck_start_def fs_example_def sbd_example_def rgrp_contains_block_def LGFS2_SB_ADDR_def)
  moreover have "bl_type 205 cycle_example = Some (meta_state cycle_example)"
    using bm2.get_set [of "gfs2_blockmap_create 400" 205 205 GFS2_BLKST_USED]
    by (simp add: bl_type_def cycle_example_def meta_state_def fsck_start_def sdp create_laws)
  moreover have "wbread cycle_example 205 = Some \<lparr>b_blocknr = 205, b_data = leaf_example, b_modified = False\<rparr>"
    by (simp add: wbread_def cycle_example_def fsck_start_def bread_def bget_def)
  ultimately have "seen_leaf cycle_example 205 205" using leaf_example_is by (simp add: seen_leaf_def)
  then show ?thesis
    using cyclic_leaf_chain_hangs [of 205 "{205}" cycle_example 7 0 1] by (simp add: cycle_example_def fsck_start_def)
qed


text \<open>
  C34. A system inode that is missing stays missing: for each of the six that are neither the master directory nor the root, the
  check of one whose pointer is NULL never comes back with the pointer set. It asks the user once; a refusal is the result -1
  with the pointer still NULL; an error of the builder of libgfs2 is the result, with the pointer still NULL; and when the
  builder succeeds, and so has made the file, the program ends in the use of the pointer, which the builder does not set: there
  is no result (None). These are all cases.
\<close>

theorem missing_system_inode_stays_missing:
  assumes "what \<noteq> SysMaster" "what \<noteq> SysRoot" "sys_ptr what (fk_md st) = None"
  shows "check_system_inode now isdir sysbit (Some what) dir name (sys_builder env what) None blks st no =
    (case fsck_query st of None \<Rightarrow> None
     | Some (ok, st1) \<Rightarrow>
         if \<not> ok then Some (-1, None, blks, st1, no)
         else (case sys_builder env what st1 no of None \<Rightarrow> None
               | Some (error, new, st2, no2) \<Rightarrow> if error \<noteq> 0 then Some (error, None, blks, st2, no2) else None))"
proof -
  have none: "new = None" if "sys_builder env what st1 no = Some (error, new, st2, no2)" for st1 error new st2 no2
    using that assms(1,2) by (cases what) (auto simp: sys_builder_def build_in_def no_ptr_def Let_def split: bind_splits)
  have same: "sync_ptr (Some what) None st = st"
    using assms(3) by (cases what) (simp_all add: sync_ptr_def set_sys_def)
  have run: "check_system_inode now isdir sysbit (Some what) dir name (sys_builder env what) None blks st no =
      (case rebuild_sys isdir (what = SysJindex) (sys_builder env what) 0 None st no of None \<Rightarrow> None
       | Some (Inl error, st, no) \<Rightarrow> Some (error, None, blks, st, no)
       | Some (Inr ip, st, no) \<Rightarrow> map_option (\<lambda>(error, ip, blks, st). (error, Some ip, blks, st, no)) (check_sys_tree now blks ip st))"
    by (auto simp: check_system_inode_def drop_bad_sys_def check_sys_state_def same split: option.splits bind_splits sum.splits)
  show ?thesis
  proof (cases "fsck_query st")
    case (Some q)
    obtain ok st1 where q: "q = (ok, st1)" by fastforce
    show ?thesis
    proof (cases "sys_builder env what st1 no")
      case None
      with Some q show ?thesis by (simp add: run rebuild_sys_def)
    next
      case (Some r)
      obtain error new st2 no2 where r: "r = (error, new, st2, no2)" by (cases r)
      then have "new = None" using none Some by simp
      with \<open>fsck_query st = Some q\<close> Some q r show ?thesis by (simp add: run rebuild_sys_def Let_def)
    qed
  qed (simp add: run rebuild_sys_def)
qed

text \<open>The file is made, and the program ends; or the user refuses.\<close>

theorem missing_system_inode_stays_missing_witness:
  "\<exists>st st1 st2 st3. fsck_query st = Some (True, st1) \<and> sys_builder env_example SysInum st1 6 = Some (0, None, st2, 7)
    \<and> check_system_inode 7 False True (Some SysInum) (Some SysMaster) (str ''inum'') (sys_builder env_example SysInum) None [] st 6 = None
    \<and> check_system_inode 7 False True (Some SysInum) (Some SysMaster) (str ''inum'') (sys_builder env_example SysInum) None []
        (st\<lparr>opts_yes := False, opts_no := True\<rparr>) 6 = Some (-1, None, [], st3, 6)"
proof -
  define st where "st = (fsck_start fs_one 400)\<lparr>fk_md := no_inodes\<lparr>master_dir := Some new_dir_example\<rparr>\<rparr>"
  define st1 where "st1 = st\<lparr>errors_found := 1, fsck_abort := False, errors_corrected := 1\<rparr>"
  define st3 where "st3 = st\<lparr>opts_yes := False, opts_no := True, errors_found := 1, fsck_abort := False\<rparr>"
  have q: "fsck_query st = Some (True, st1)" "sys_ptr SysInum (fk_md st) = None"
    "fsck_query (st\<lparr>opts_yes := False, opts_no := True\<rparr>) = Some (False, st3)"
    "fk_fs st1 = fs_one" "sys_ptr SysMaster (fk_md st1) = Some new_dir_example"
    by (simp_all add: fsck_query_def st1_def st3_def st_def fsck_start_def no_inodes_def)
  have name: "str ''inum'' \<noteq> []" "str ''inum'' \<noteq> dot" "str ''inum'' \<noteq> dotdot" "length (str ''inum'') \<le> 100"
    by (simp_all add: str_def)
  have free: "find (\<lambda>rg. 1 \<le> (ucast (rt_free rg) :: u64)) (fs_rgs fs_one) = Some rgrp_example" by (simp add: fs_one_ok)
  obtain ip fs2 master where "createi 0 fs_one 6 new_dir_example (str ''inum'') (S_IFREG OR 0x180) (DIF_SYSTEM OR GFS2_DIF_JDATA)
      = Some (Some ip, fs2, 6 + 1, master)"
    by (rule createi_steps [OF fs_one_ok(1) fs_one_dir(1) name(1,2) fs_one_dir(2) [OF name(4,2,3)] free,
          of 0 "S_IFREG OR 0x180" "DIF_SYSTEM OR GFS2_DIF_JDATA"]) (rule that)
  then have b: "sys_builder env_example SysInum st1 6 = Some (0, None, set_sys SysMaster (Some master) (set_fs (inode_put fs2 ip) st1), 7)"
    by (simp add: sys_builder_def build_in_def no_ptr_def build_inum_def build_file_def env_example_def q(4,5) del: sys_ptr.simps)
  have "check_system_inode 7 False True (Some SysInum) (Some SysMaster) (str ''inum'') (sys_builder env_example SysInum) None [] st 6 = None"
    using missing_system_inode_stays_missing [of SysInum st] q(1,2) b by simp
  moreover have "check_system_inode 7 False True (Some SysInum) (Some SysMaster) (str ''inum'') (sys_builder env_example SysInum) None []
        (st\<lparr>opts_yes := False, opts_no := True\<rparr>) 6 = Some (-1, None, [], st3, 6)"
    using missing_system_inode_stays_missing [of SysInum "st\<lparr>opts_yes := False, opts_no := True\<rparr>"] q(2,3) by simp
  ultimately show ?thesis using q(1) b by blast
qed

end
