(* ===== verification/FsckDelete.thy ===== *)
theory FsckDelete
  imports FsckWalk
begin

text \<open>
  The deletion of what an inode owns, which passes after the first do by walking over it with these functions, and the removal of the
  entries of a directory that are for one block (the rest of afterpass1_common.c).

  A walk over an inode that was loaded by its block starts without a remembered group.
\<close>

section \<open>Blocks\<close>

definition new_walk :: "fsck \<Rightarrow> vinode \<Rightarrow> 'p \<Rightarrow> 'p walk" where
  "new_walk st ip priv = \<lparr>wst = st, wip = ip, wpriv = priv, wrgd = None\<rparr>"

definition walk_delete :: "u64 \<Rightarrow> 'p walk \<Rightarrow> (int \<times> bool \<times> 'p walk) option" where
  "walk_delete block w = map_option (\<lambda>(r, dup, st). (r, dup, w\<lparr>wst := st\<rparr>)) (delete_block_if_notdup (wrgd w) (waddr w) block (wst w))"

definition delete_metadata :: "holder \<Rightarrow> nat \<Rightarrow> nat \<Rightarrow> 'p walk \<Rightarrow> (int \<times> checked_meta \<times> holder \<times> 'p walk) option" where
  "delete_metadata bh off h w =
     map_option (\<lambda>(r, dup, w). (r, \<lparr>cm_bh = None, cm_valid = True, cm_dup = dup\<rparr>, bh, w)) (walk_delete (ptr_at bh off w) w)"

definition delete_leaf :: "u64 \<Rightarrow> 'p walk \<Rightarrow> (int \<times> 'p walk) option" where
  "delete_leaf block w = map_option (\<lambda>(r, _, w). (r, w)) (walk_delete block w)"

definition delete_data :: "u64 \<Rightarrow> u64 \<Rightarrow> holder \<Rightarrow> nat \<Rightarrow> 'p walk \<Rightarrow> (int \<times> holder \<times> 'p walk) option" where
  "delete_data metablock block bh ptr w = map_option (\<lambda>(r, _, w). (r, bh, w)) (walk_delete block w)"

section \<open>Extended attributes\<close>

definition del_eattr_generic :: "u64 \<Rightarrow> u64 \<Rightarrow> 'p walk \<Rightarrow> (int \<times> gfs2_buffer_head option \<times> 'p walk) option" where
  "del_eattr_generic block parent w = do {
     (ret, bh, w) \<leftarrow>
       (if \<not> valid_block_ip (wfs w) block then Some (0, None, w)
        else do {
          let was_free = (bitmap_type (wfs w) block = int GFS2_BLKST_FREE);
          (ret, _, w) \<leftarrow> walk_delete block w;
          if ret \<noteq> 0 then Some (ret, None, w)
          else
            let blocks = i_blocks (vi (wip w)); blocks = (if was_free then blocks else blocks - 1)
            in Some (ret, wbread w block, wdirty (w\<lparr>wip := (wip w)\<lparr>vi := (vi (wip w))\<lparr>i_blocks := blocks\<rparr>\<rparr>\<rparr>))
        });
     let eattr = i_eattr (vi (wip w));
     Some (ret, bh, if eattr = 0 then w else wdirty (if block = eattr then set_eattr 0 w else w))
   }"

definition delete_eattr_indir :: "u64 \<Rightarrow> u64 \<Rightarrow> 'p walk \<Rightarrow> (int \<times> gfs2_buffer_head option \<times> 'p walk) option" where
  "delete_eattr_indir = del_eattr_generic"

definition delete_eattr_leaf :: "u64 \<Rightarrow> u64 \<Rightarrow> 'p walk \<Rightarrow> (int \<times> gfs2_buffer_head option \<times> 'p walk) option" where
  "delete_eattr_leaf = del_eattr_generic"

abbreviation (input) GFS2_EATYPE_LAST :: u8 where "GFS2_EATYPE_LAST \<equiv> 4"

text \<open>The copy of the name stops at a zero byte and otherwise reads as many bytes as the name has.\<close>

definition delete_eattr_entry ::
  "gfs2_buffer_head \<Rightarrow> nat \<Rightarrow> nat option \<Rightarrow> 'p walk \<Rightarrow> (int \<times> gfs2_buffer_head \<times> 'p walk) option" where
  "delete_eattr_entry leaf_bh hdr prev w =
     (let b = b_data leaf_bh; p = hdr + sizeof struct_gfs2_ea_header; name_len = unat (ea_name_len b hdr);
          avail_size = sd_bsize (wsdp w) - of_nat (sizeof struct_gfs2_meta_header);
          max_ptrs = (ea_data_len b hdr + avail_size - 1) div avail_size in
      if name_len = 0 then Some (1, leaf_bh, w)
      else if length b < p + name_len \<and> 0 \<notin> set (drop p b) then None
      else if GFS2_EATYPE_LAST < ea_type b hdr \<and> (prev \<noteq> None \<or> ea_type b hdr \<noteq> 0) then Some (1, leaf_bh, w)
      else if ea_num_ptrs b hdr = 0 then Some (0, leaf_bh, w)
      else Some (if ucast (ea_num_ptrs b hdr) < max_ptrs then 1 else 0, leaf_bh, w))"

definition delete_eattr_extentry ::
  "nat \<Rightarrow> nat \<Rightarrow> gfs2_buffer_head \<Rightarrow> u32 \<Rightarrow> nat \<Rightarrow> nat option \<Rightarrow> 'p walk \<Rightarrow> (int \<times> gfs2_buffer_head \<times> 'p walk) option" where
  "delete_eattr_extentry i data_ptr leaf_bh tot_ealen hdr prev w = do {
     (error, _, w) \<leftarrow> walk_delete (get_be64 (b_data leaf_bh) data_ptr) w;
     if error = 0 then Some (0, leaf_bh, w)
     else do {
       (ok, w) \<leftarrow> wquery w;
       if \<not> ok then Some (1, leaf_bh, w)
       else do {
         let b = (b_data leaf_bh)[hdr + offsetof struct_gfs2_ea_header ''ea_num_ptrs'' := of_nat i];
         let b = put_be32 (hdr + offsetof struct_gfs2_ea_header ''ea_data_len'') tot_ealen b;
         let leaf_bh = bmodified (leaf_bh\<lparr>b_data := put_be64 data_ptr 0 b\<rparr>);
         (_, w) \<leftarrow> fsck_bitmap_set (i_eattr (vi (wip w))) (if sd_gfs1 (wsdp w) then GFS2_BLKST_DINODE else GFS2_BLKST_USED) False w;
         Some (error, leaf_bh, w)
       }
     }
   }"

section \<open>Entries of a directory\<close>

text \<open>\<open>dirent2_del\<close> of an entry in a buffer, which may be the inode's own.\<close>

definition walk_dirent_del :: "holder \<Rightarrow> nat option \<Rightarrow> nat \<Rightarrow> 'p walk \<Rightarrow> holder \<times> 'p walk" where
  "walk_dirent_del h prev dent w =
     (let (bh, dip) = dirent2_del (wip w) (held (wip w) h) prev dent;
          (dip, h) = on_held (\<lambda>_. bh) dip h
      in (h, w\<lparr>wip := dip\<rparr>))"

definition remove_dentry ::
  "nat \<Rightarrow> nat option \<Rightarrow> holder \<Rightarrow> u32 \<Rightarrow> int \<Rightarrow> u64 walk \<Rightarrow> (int \<times> holder \<times> u32 \<times> int \<times> u64 walk) option" where
  "remove_dentry dent prev_de bh count lindex w =
     (if in_addr (dr_inum (lgfs2_dirent_in dirent_zero (wdata bh w) dent)) = wpriv w
      then let (bh, w) = walk_dirent_del bh prev_de dent w in Some (0, bh, count, lindex, w)
      else Some (0, bh, count + 1, lindex, w))"

definition remove_dentry_fxns :: "u64 metawalk_fxns" where
  "remove_dentry_fxns = no_fxns\<lparr>check_dentry_fn := Some remove_dentry\<rparr>"

definition remove_dentry_from_dir :: "u64 \<Rightarrow> u64 \<Rightarrow> fsck \<Rightarrow> (int \<times> fsck) option" where
  "remove_dentry_from_dir dir dentryblock st =
     (if \<not> valid_block (fk_fs st) dir then Some (1, st)
      else if bitmap_type (fk_fs st) dir \<noteq> int GFS2_BLKST_DINODE then Some (1, st)
      else (case fsck_load_inode st dir of None \<Rightarrow> Some (-1, st)
        | Some ip \<Rightarrow> do {
            (error, w) \<leftarrow> check_dir remove_dentry_fxns (new_walk st ip dentryblock);
            Some (error, fsck_inode_put (wip w) (wst w))
          }))"

end
