(* ===== verification/FsckLost.thy ===== *)
theory FsckLost
  imports FsckDelete FsckPass1
begin

text \<open>
  The lost+found directory (lost_n_found.c), and the walks over the trees of inodes and directories that the passes 3 and 4 make.

  A system inode is one object, which the state has: \<open>sys\<close> says that the inode of a call is that object, so what is
  done to it by way of the state is seen in it. Another inode is a copy in memory. \<open>now\<close> is the time that a change of a
  directory sets. None is the result where the code ends the program or uses a null pointer or a node of a tree that was
  freed.
\<close>

section \<open>The order of the trees\<close>

text \<open>The first node of a tree and the one after a node (osi_tree.h).\<close>

fun osi_first :: "'a tree \<Rightarrow> 'a option" where
  "osi_first Leaf = None"
| "osi_first (Node l a r) = (if l = Leaf then Some a else osi_first l)"

fun osi_next :: "('a \<Rightarrow> u64) \<Rightarrow> u64 \<Rightarrow> 'a tree \<Rightarrow> 'a option" where
  "osi_next key k Leaf = None"
| "osi_next key k (Node l a r) =
     (if k < key a then (case osi_next key k l of None \<Rightarrow> Some a | Some b \<Rightarrow> Some b)
      else if key a < k then osi_next key k r
      else osi_first r)"

lemma osi_first_inorder: "osi_first t = (if t = Leaf then None else Some (hd (inorder t)))"
proof (induction t)
  case (Node l a r)
  then show ?case by (cases l) (auto simp: hd_append)
qed simp

lemma osi_next_inorder: "tree_ok key t \<Longrightarrow> osi_next key k t = find (\<lambda>a. k < key a) (inorder t)"
proof (induction t)
  case (Node l a r)
  then have o: "tree_ok key l" "tree_ok key r" "\<forall>x \<in> set (inorder l). key x < key a" "\<forall>x \<in> set (inorder r). key a < key x"
    by (auto simp: tree_ok_def sorted_wrt_append)
  have app: "find P (xs @ ys) = (case find P xs of None \<Rightarrow> find P ys | Some x \<Rightarrow> Some x)" for P and xs ys :: "'a list"
    by (induction xs) auto
  have none: "find (\<lambda>x. k < key x) (inorder l) = None" if "key a \<le> k"
    using o(3) that by (auto simp: find_None_iff)
  have first: "osi_first r = find (\<lambda>x. k < key x) (inorder r)" if "k = key a"

  proof (cases "inorder r")
    case Nil
    then show ?thesis by (cases r) auto
  next
    case (Cons x xs)
    then have "key a < key x" using o(4) by (metis list.set_intros(1))
    then show ?thesis using Cons that by (cases r) (auto simp: osi_first_inorder)
  qed
  show ?case
    using Node.IH(1) [OF o(1)] Node.IH(2) [OF o(2)] none first by (auto simp: app not_less split: option.split)
qed simp

section \<open>System inodes\<close>

definition share :: "bool \<Rightarrow> vinode \<Rightarrow> fsck \<Rightarrow> fsck" where
  "share sys ip st = (if sys then put_system_inode ip st else st)"

definition shared :: "bool \<Rightarrow> vinode \<Rightarrow> fsck \<Rightarrow> vinode" where
  "shared sys ip st =
     (if sys then case fsck_system_inode st (in_addr (i_num (vi ip))) of None \<Rightarrow> ip | Some ip \<Rightarrow> ip else ip)"

text \<open>
  \<open>fsck_inode_put\<close> of an inode that was loaded before. A copy of an inode that has become a system inode since then is not written.
\<close>

definition put_loaded :: "bool \<Rightarrow> vinode \<Rightarrow> fsck \<Rightarrow> fsck" where
  "put_loaded sys ip st =
     (if sys then put_system_inode ip st
      else if fsck_system_inode st (in_addr (i_num (vi ip))) = None then set_fs (inode_put (fk_fs st) ip) st
      else st)"

definition is_sys :: "fsck \<Rightarrow> vinode \<Rightarrow> bool" where
  "is_sys st ip \<longleftrightarrow> fsck_system_inode st (in_addr (i_num (vi ip))) \<noteq> None"

section \<open>The directory\<close>

definition DT2IF :: "u32 \<Rightarrow> u32" where
  "DT2IF dt = push_bit 12 dt AND S_IFMT"

text \<open>The type of a directory in an entry.\<close>

definition dir_type :: "fs \<Rightarrow> u16" where
  "dir_type fs = (if sd_gfs1 (fs_sdp fs) then GFS_FILE_DIR else 4)"

text \<open>The links of the directory that \<open>..\<close> names are backed out.\<close>

definition back_out_dotdot :: "u64 \<Rightarrow> fsck \<Rightarrow> fsck option" where
  "back_out_dotdot addr st =
     (case dirtree_find st addr of None \<Rightarrow> Some st
      | Some di \<Rightarrow>
          let parent = dotdot_parent di in
          if \<not> valid_block (fk_fs st) (in_addr parent) then Some st
          else do {
            dip \<leftarrow> fsck_load_inode st (in_addr parent);
            if in_formal_ino (i_num (vi dip)) \<noteq> in_formal_ino parent then Some (fsck_inode_put dip st)
            else do {
              (_, st) \<leftarrow> decr_link_count (in_addr parent) st;
              if i_nlink (vi dip) = 0 then Some (fsck_inode_put dip st)
              else
                let dip = set_vi (i_nlink_update (\<lambda>n. n - 1)) dip
                in Some (fsck_inode_put (dirty dip) (snd (set_di_nlink dip st)))
            }
          })"

definition add_dotdot :: "u64 \<Rightarrow> bool \<Rightarrow> vinode \<Rightarrow> fsck \<Rightarrow> (vinode \<times> fsck) option" where
  "add_dotdot now sys ip st = do {
     st \<leftarrow> back_out_dotdot (in_addr (i_num (vi ip))) (share sys ip st);
     (_, fs, ip) \<leftarrow> gfs2_dirent_del (fk_fs st) (shared sys ip st) dotdot;
     lf \<leftarrow> lf_dip st;
     (err, fs, ip) \<leftarrow> dir_add now fs ip dotdot (i_num (vi lf)) (dir_type fs);
     if err \<noteq> 0 then None else Some (ip, set_fs fs st)
   }"

text \<open>
  The links of a new lost+found. The second and the third count are both for its own number, which the entry \<open>..\<close> of the
  root does not have.
\<close>

definition count_new_lf :: "vinode \<Rightarrow> vinode \<Rightarrow> fsck \<Rightarrow> fsck option" where
  "count_new_lf rooti lf st = do {
     let no = i_num (vi lf);
     let st = snd (dirtree_insert no (st\<lparr>lf_was_created := True\<rparr>));
     (_, st) \<leftarrow> check_n_fix_bitmap None (in_addr no) False GFS2_BLKST_DINODE st;
     (_, st) \<leftarrow> incr_link_count (i_num (vi rooti)) st;
     (_, st) \<leftarrow> incr_link_count no st;
     (_, st) \<leftarrow> incr_link_count no st;
     lf \<leftarrow> lf_dip st;
     Some (if sd_gfs1 (fs_sdp (fk_fs st)) then st\<lparr>lf_dip := Some (set_vi (set_i_di_type GFS_FILE_DIR) lf)\<rparr> else st)
   }"

definition make_sure_lf_exists :: "u64 \<Rightarrow> fsck \<Rightarrow> fsck option" where
  "make_sure_lf_exists now st =
     (if lf_dip st \<noteq> None then Some st
      else do {
        rooti \<leftarrow> md_rooti (fk_md st);
        let gfs1 = sd_gfs1 (fs_sdp (fk_fs st));
        let root_entries = i_entries (vi rooti);
        next_inum \<leftarrow> (if gfs1 then find_free_blk (fk_fs st) else Some (md_next_inum st));
        (lf, fs, next_inum, rooti) \<leftarrow>
          (if gfs1 then gfs_createi now (fk_fs st) next_inum rooti (str ''lost+found'') (DT2IF (ucast GFS_FILE_DIR) OR 0x1C0) 0
           else createi now (fk_fs st) next_inum rooti (str ''lost+found'') (S_IFDIR OR 0x1C0) 0);
        lf \<leftarrow> lf;
        let st = (set_sys SysRoot (Some rooti) (set_fs fs st))\<lparr>md_next_inum := next_inum, lf_dip := Some lf\<rparr>;
        let st = snd (set_di_nlink rooti st);
        st \<leftarrow> (if root_entries < i_entries (vi rooti) then count_new_lf rooti lf st else Some st);
        Some (case dirtree_find st (in_addr (i_num (vi lf))) of None \<Rightarrow> st | Some di \<Rightarrow> put_dir_info (di\<lparr>checked := True\<rparr>) st)
      })"

section \<open>Entries\<close>

text \<open>The name that an inode gets and the type of its entry, of gfs1 and of gfs2.\<close>

definition lost_kind :: "u32 \<Rightarrow> string \<times> u16 \<times> u16" where
  "lost_kind mode =
     (case map_of [(0x4000, (''lost_dir_'', 2, 4)), (0x8000, (''lost_file_'', 1, 8)), (0xA000, (''lost_link_'', 5, 10)),
                   (0x6000, (''lost_blkdev_'', 7, 6)), (0x2000, (''lost_chrdev_'', 8, 2)), (0x1000, (''lost_fifo_'', 101, 1)),
                   (0xC000, (''lost_socket_'', 102, 12))] mode of
        None \<Rightarrow> (''lost_'', 1, 8) | Some k \<Rightarrow> k)"

definition lost_name :: "u32 \<Rightarrow> u64 \<Rightarrow> bytes" where
  "lost_name mode addr = str (fst (lost_kind mode)) @ decimal (unat addr)"

text \<open>The inode of lost+found itself is not added; every other result than 0 ends the program.\<close>

definition add_inode_to_lf :: "u64 \<Rightarrow> bool \<Rightarrow> vinode \<Rightarrow> fsck \<Rightarrow> (vinode \<times> fsck) option" where
  "add_inode_to_lf now sys ip st = do {
     st \<leftarrow> make_sure_lf_exists now (share sys ip st);
     let ip = shared sys ip st;
     lf \<leftarrow> lf_dip st;
     if in_addr (i_num (vi ip)) = in_addr (i_num (vi lf)) then Some (ip, st)
     else do {
       let gfs1 = sd_gfs1 (fs_sdp (fk_fs st));
       let mode = (if gfs1 then gfs_to_gfs2_mode (vi ip) else i_mode (vi ip) AND S_IFMT);
       (ip, st) \<leftarrow> (if mode = S_IFDIR then add_dotdot now sys ip st else Some (ip, st));
       let no = i_num (vi ip);
       let (_, type1, type2) = lost_kind mode;
       let st = share sys ip st;
       lf \<leftarrow> lf_dip st;
       (err, fs, lf) \<leftarrow> dir_add now (fk_fs st) lf (lost_name mode (in_addr no)) no (if gfs1 then type1 else type2);
       if err \<noteq> 0 then None
       else do {
         (_, st) \<leftarrow> incr_link_count no (set_fs fs (st\<lparr>lf_dip := Some lf\<rparr>));
         (_, st) \<leftarrow> (if mode = S_IFDIR then incr_link_count (i_num (vi lf)) st else Some (0, st));
         lf \<leftarrow> lf_dip st;
         let bh = (vbh lf)\<lparr>b_data := lgfs2_dinode_out (vi lf) (b_data (vbh lf))\<rparr>;
         let (_, d, bh) = bwrite (fs_disk (fk_fs st)) bh;
         let st = set_fs ((fk_fs st)\<lparr>fs_disk := d\<rparr>) (st\<lparr>lf_dip := Some (lf\<lparr>vbh := bh\<rparr>)\<rparr>);
         Some (shared sys ip st, st)
       }
     }
   }"

end
