(* ===== verification/FsckPass1b.thy ===== *)
theory FsckPass1b
  imports FsckLost
begin

text \<open>
  Pass 1b of fsck.gfs2 (pass1b.c): the first references to the blocks that pass 1 found to have several are searched for, then each
  such block is left to one inode at most.

  A node of the tree of duplicates is named by its block and an entry of one of its lists by the inode. The code keeps
  pointers to both while it deletes: the value is None where it uses one that was freed, where a null pointer is
  followed, and where the pass does not end.
\<close>

section \<open>The search for a reference\<close>

record meta_blk_ref =
  mbr_block :: u64
  mbr_metablock :: u64
  mbr_off :: nat

text \<open>\<open>mbr_off\<close> is counted in bytes.\<close>

definition findref_meta :: "holder \<Rightarrow> nat \<Rightarrow> nat \<Rightarrow> 'p walk \<Rightarrow> (int \<times> checked_meta \<times> holder \<times> 'p walk) option" where
  "findref_meta bh off h w = Some (META_IS_GOOD, \<lparr>cm_bh = None, cm_valid = True, cm_dup = False\<rparr>, bh, w)"

definition findref_data ::
  "u64 \<Rightarrow> u64 \<Rightarrow> holder \<Rightarrow> nat \<Rightarrow> meta_blk_ref walk \<Rightarrow> (int \<times> holder \<times> meta_blk_ref walk) option" where
  "findref_data metablock block bh ptr w =
     Some (META_IS_GOOD, bh,
       if block = mbr_block (wpriv w)
       then w\<lparr>wpriv := (wpriv w)\<lparr>mbr_metablock := b_blocknr (held (wip w) bh), mbr_off := ptr\<rparr>\<rparr> else w)"

definition find1ref_fxns :: "meta_blk_ref metawalk_fxns" where
  "find1ref_fxns = no_fxns\<lparr>check_metalist_fn := Some findref_meta, check_data_fn := Some findref_data\<rparr>"

section \<open>Clones\<close>

record clone_target =
  ct_dup_block :: u64
  ct_first :: bool

definition clone_check_meta :: "holder \<Rightarrow> nat \<Rightarrow> nat \<Rightarrow> 'p walk \<Rightarrow> (int \<times> checked_meta \<times> holder \<times> 'p walk) option" where
  "clone_check_meta bh off h w = Some (0, \<lparr>cm_bh = wbread w (ptr_at bh off w), cm_valid = True, cm_dup = False\<rparr>, bh, w)"

text \<open>A copy of the block in a new place; the result is its address, None where there is no space or no block.\<close>

definition clone_block :: "u64 \<Rightarrow> 'p walk \<Rightarrow> (u64 option \<times> 'p walk) option" where
  "clone_block dup w = do {
     (error, cloneblock, fs, ip) \<leftarrow> lgfs2_meta_alloc (wfs w) (wip w) 0;
     let w = w\<lparr>wst := set_fs fs (wst w), wip := ip\<rparr>;
     if error \<noteq> 0 then Some (None, w)
     else (case wbread w dup of None \<Rightarrow> Some (None, w)
       | Some clone_bh \<Rightarrow> do {
           (_, w) \<leftarrow> fsck_bitmap_set cloneblock GFS2_BLKST_USED False w;
           Some (Some cloneblock, wrelse (bmodified (clone_bh\<lparr>b_blocknr := cloneblock\<rparr>)) w)
         })
   }"

definition clone_data ::
  "u64 \<Rightarrow> u64 \<Rightarrow> holder \<Rightarrow> nat \<Rightarrow> clone_target walk \<Rightarrow> (int \<times> holder \<times> clone_target walk) option" where
  "clone_data metablock block bh ptr w =
     (let clonet = wpriv w in
      if block \<noteq> ct_dup_block clonet then Some (0, bh, w)
      else if ct_first clonet then Some (0, bh, w\<lparr>wpriv := clonet\<lparr>ct_first := False\<rparr>\<rparr>)
      else do {
        (ok, w) \<leftarrow> wquery w;
        if \<not> ok then Some (0, bh, w)
        else do {
          (cloneblock, w) \<leftarrow> clone_block (ct_dup_block clonet) w;
          case cloneblock of Some new \<Rightarrow> let (bh, w) = wput (put_be64 ptr new) bh w in Some (0, bh, w)
          | None \<Rightarrow> do {
              (ok, w) \<leftarrow> wquery w;
              if ok then let (bh, w) = wput (put_be64 ptr 0) bh w in Some (0, bh, w)
              else Some (0, bh, w)
            }
        }
      })"

definition pass1b_fxns_clone :: "clone_target metawalk_fxns" where
  "pass1b_fxns_clone = no_fxns\<lparr>check_metalist_fn := Some clone_check_meta, check_data_fn := Some clone_data\<rparr>"

text \<open>The last reference of an inode to a data block gets a copy.\<close>

definition clone_data_block :: "u64 \<Rightarrow> u64 \<Rightarrow> fsck \<Rightarrow> fsck option" where
  "clone_data_block block addr st = do {
     (ok, st) \<leftarrow> fsck_query st;
     if \<not> ok then Some st
     else do {
       ip \<leftarrow> fsck_load_inode st addr;
       (_, w) \<leftarrow> check_metatree find1ref_fxns (new_walk st ip \<lparr>mbr_block = block, mbr_metablock = 0, mbr_off = 0\<rparr>);
       let metaref = wpriv w;
       let w = new_walk (wst w) (wip w) \<lparr>ct_dup_block = block, ct_first = False\<rparr>;
       w \<leftarrow>
         (if mbr_metablock metaref = 0 then Some w
          else if mbr_metablock metaref = addr
          then map_option (\<lambda>(_, _, w). wdirty w) (clone_data 0 block Own (mbr_off metaref) w)
          else do {
            bh \<leftarrow> wbread w (mbr_metablock metaref);
            (_, bh, w) \<leftarrow> clone_data 0 block (Other bh) (mbr_off metaref) w;
            Some (wrelease bh w)
          });
       Some (fsck_inode_put (wip w) (wst w))
     }
   }"

definition clone_dup_ref_in_inode :: "vinode \<Rightarrow> u64 \<Rightarrow> fsck \<Rightarrow> (vinode \<times> fsck) option" where
  "clone_dup_ref_in_inode ip block st =
     map_option (\<lambda>(_, w). (wip w, wst w)) (check_metatree pass1b_fxns_clone (new_walk st ip \<lparr>ct_dup_block = block, ct_first = True\<rparr>))"

section \<open>References resolved\<close>

record dup_handler =
  ref_inode_count :: int
  ref_count :: int

definition revise_dup_handler :: "u64 \<Rightarrow> fsck \<Rightarrow> dup_handler" where
  "revise_dup_handler dup_blk st =
     (case dupfind st dup_blk of None \<Rightarrow> \<lparr>ref_inode_count = 0, ref_count = 0\<rparr>
      | Some dt \<Rightarrow>
          let ids = ref_invinode_list dt @ ref_inode_list dt
          in \<lparr>ref_inode_count = int (length ids), ref_count = sum_list (map dup_count ids)\<rparr>)"

definition dup_list :: "bool \<Rightarrow> duptree \<Rightarrow> inode_with_dups list" where
  "dup_list inval dt = (if inval then ref_invinode_list dt else ref_inode_list dt)"

text \<open>The entry of an inode on a list and the inode of the one after it.\<close>

fun entry_at :: "u64 \<Rightarrow> inode_with_dups list \<Rightarrow> (inode_with_dups \<times> u64 option) option" where
  "entry_at addr [] = None"
| "entry_at addr (x # xs) =
     (if block_no x = addr then Some (x, case xs of [] \<Rightarrow> None | y # _ \<Rightarrow> Some (block_no y)) else entry_at addr xs)"

definition first_id :: "inode_with_dups list \<Rightarrow> u64 option" where
  "first_id ids = (case ids of [] \<Rightarrow> None | x # _ \<Rightarrow> Some (block_no x))"

text \<open>The entry as it is now; None where its memory was freed.\<close>

definition cur_entry :: "bool \<Rightarrow> u64 \<Rightarrow> u64 \<Rightarrow> fsck \<Rightarrow> (duptree \<times> inode_with_dups) option" where
  "cur_entry inval block addr st = do {
     dt \<leftarrow> dupfind st block;
     (id, _) \<leftarrow> entry_at addr (dup_list inval dt);
     Some (dt, id)
   }"

definition drop_entry :: "bool \<Rightarrow> u64 \<Rightarrow> u64 \<Rightarrow> fsck \<Rightarrow> fsck option" where
  "drop_entry inval block addr st = do {
     (dt, id) \<leftarrow> cur_entry inval block addr st;
     Some (put_dup (dup_listent_delete inval id dt) st)
   }"

definition pass1b_fxns_delete :: "unit metawalk_fxns" where
  "pass1b_fxns_delete = no_fxns\<lparr>check_metalist_fn := Some delete_metadata, check_data_fn := Some delete_data,
     check_leaf_fn := Some delete_leaf, check_eattr_indir_fn := Some delete_eattr_indir, check_eattr_leaf_fn := Some delete_eattr_leaf,
     check_eattr_entry_fn := Some delete_eattr_entry, check_eattr_extentry_fn := Some delete_eattr_extentry\<rparr>"

text \<open>The nodes for an inode and its bit are removed.\<close>

definition forget_links :: "u64 \<Rightarrow> fsck \<Rightarrow> fsck" where
  "forget_links addr st =
     (let st = (case inodetree_find st addr of None \<Rightarrow> st | Some ii \<Rightarrow> inodetree_delete ii st);
          st = (case dirtree_find st addr of None \<Rightarrow> st | Some di \<Rightarrow> dirtree_delete di st)
      in st\<lparr>nlink1map := snd (link1_set (nlink1map st) addr 0)\<rparr>)"

text \<open>
  The extended attributes of an inode go, and the inode itself when it refers to the block as data or metadata. The count of
  inodes goes down for both.
\<close>

definition clear_eattrs :: "bool \<Rightarrow> u64 \<Rightarrow> u64 \<Rightarrow> unit walk \<Rightarrow> unit walk option" where
  "clear_eattrs inval block addr w =
     (if i_eattr (vi (wip w)) = block then
        let ip = vi (wip w);
            ip = ip\<lparr>i_eattr := 0, i_blocks := (if 0 < i_blocks ip then i_blocks ip - 1 else i_blocks ip),
                    i_flags := i_flags ip AND NOT GFS2_DIF_EA_INDIRECT\<rparr>
        in map_option (\<lambda>st. wdirty (w\<lparr>wst := st, wip := (wip w)\<lparr>vi := ip\<rparr>\<rparr>)) (drop_entry inval block addr (wst w))
      else map_option snd (check_inode_eattr pass1b_fxns_delete w))"

definition delete_bad_inode :: "bool \<Rightarrow> dup_ref_type \<Rightarrow> u64 \<Rightarrow> u64 \<Rightarrow> dup_handler \<Rightarrow> unit walk \<Rightarrow> (dup_handler \<times> unit walk) option" where
  "delete_bad_inode inval this_ref block addr dh w = do {
     w \<leftarrow> clear_eattrs inval block addr w;
     let dh = dh\<lparr>ref_inode_count := ref_inode_count dh - 1\<rparr>;
     bad \<leftarrow>
       (if this_ref = REF_AS_EA then Some False
        else if inval then Some True
        else do {
          (_, id) \<leftarrow> cur_entry inval block addr (wst w);
          Some (reftypecount id REF_AS_DATA \<noteq> 0 \<or> reftypecount id REF_AS_META \<noteq> 0)
        });
     if \<not> bad then Some (dh, w)
     else do {
       (_, w) \<leftarrow> fsck_bitmap_set (waddr w) GFS2_BLKST_FREE False w;
       let w = w\<lparr>wst := forget_links (waddr w) (wst w)\<rparr>;
       (_, w) \<leftarrow> check_metatree pass1b_fxns_delete w;
       Some (dh\<lparr>ref_inode_count := ref_inode_count dh - 1\<rparr>, w)
     }
   }"

definition delete_reference ::
  "bool \<Rightarrow> dup_ref_type \<Rightarrow> int \<Rightarrow> u64 \<Rightarrow> u64 \<Rightarrow> dup_handler \<Rightarrow> fsck \<Rightarrow> (dup_handler \<times> fsck) option" where
  "delete_reference inval this_ref q block addr dh st = do {
     ip \<leftarrow> fsck_load_inode st addr;
     (dh, w) \<leftarrow>
       (if q = int GFS2_BLKST_FREE then Some (dh, new_walk st ip ())
        else delete_bad_inode inval this_ref block addr dh (new_walk st ip ()));
     let st = (if this_ref = REF_AS_EA then wst w else delete_all_dups (waddr w) (wst w));
     Some (dh, fsck_inode_put (wip w) st)
   }"

text \<open>What is done with the reference of an inode: the result has whether a reference was found that is good.\<close>

definition resolve_entry ::
  "bool \<Rightarrow> dup_ref_type \<Rightarrow> u64 \<Rightarrow> inode_with_dups \<Rightarrow> bool \<Rightarrow> dup_handler \<Rightarrow> fsck \<Rightarrow> (bool \<times> dup_handler \<times> fsck) option" where
  "resolve_entry inval acceptable_ref block rid found dh st =
     (let addr = block_no rid; this_ref = get_ref_type rid; q = bitmap_type (fk_fs st) addr in
      if acceptable_ref \<noteq> REF_TYPES \<and> this_ref = acceptable_ref \<and> q = int GFS2_BLKST_DINODE then Some (True, dh, st)
      else if \<not> found \<and> fsck_system_inode st addr \<noteq> None then Some (True, dh, st)
      else if acceptable_ref = REF_TYPES \<and> this_ref = REF_AS_DATA then do {
        st \<leftarrow> clone_data_block block addr st;
        st \<leftarrow> drop_entry inval block addr st;
        Some (found, revise_dup_handler block st, st)
      }
      else do {
        (ok, st) \<leftarrow> fsck_query st;
        if ok then map_option (Pair found) (delete_reference inval this_ref q block addr dh st)
        else map_option (\<lambda>st. (found, dh, st)) (drop_entry inval block addr st)
      })"

text \<open>
  The walk over a list, whose next entry is read before the one at hand is resolved. At the end of the list only its head is read,
  and not used.
\<close>

definition resolve_step ::
  "bool \<Rightarrow> dup_ref_type \<Rightarrow> u64 \<Rightarrow> u64 option \<times> bool \<times> dup_handler \<times> fsck \<Rightarrow>
     ((dup_handler \<times> fsck) + (u64 option \<times> bool \<times> dup_handler \<times> fsck)) option" where
  "resolve_step inval acceptable_ref block = (\<lambda>(pos, found, dh, st).
     (case pos of None \<Rightarrow> Some (Inl (dh, st))
      | Some addr \<Rightarrow> do {
          dt \<leftarrow> dupfind st block;
          (rid, next) \<leftarrow> entry_at addr (dup_list inval dt);
          if skip_this_pass st \<or> fsck_abort st \<or> ref_inode_count dh = 1 then Some (Inl (dh, st))
          else do {
            (found, dh, st) \<leftarrow> resolve_entry inval acceptable_ref block rid found dh st;
            Some (Inr (next, found, dh, st))
          }
        }))"

definition resolve_dup_references ::
  "bool \<Rightarrow> dup_ref_type \<Rightarrow> u64 \<Rightarrow> dup_handler \<Rightarrow> fsck \<Rightarrow> (dup_handler \<times> fsck) option" where
  "resolve_dup_references inval acceptable_ref block dh st = do {
     dt \<leftarrow> dupfind st block;
     iterate (resolve_step inval acceptable_ref block) (first_id (dup_list inval dt), False, dh, st)
   }"

section \<open>The last reference\<close>

definition set_ip_bitmap :: "vinode \<Rightarrow> fsck \<Rightarrow> (int \<times> fsck) option" where
  "set_ip_bitmap ip st =
     (let mode = (if sd_gfs1 (fs_sdp (fk_fs st)) then gfs_to_gfs2_mode (vi ip) else i_mode (vi ip) AND S_IFMT) in
      if \<not> mode_known mode then Some (- E_INVAL, st)
      else map_option (\<lambda>(_, st). (0, st)) (check_n_fix_bitmap None (b_blocknr (vbh ip)) False GFS2_BLKST_DINODE st))"

text \<open>The type that a block gets from the reference that remains.\<close>

definition repair_type :: "dup_ref_type \<Rightarrow> u64 \<Rightarrow> inode_with_dups \<Rightarrow> vinode \<Rightarrow> fsck \<Rightarrow> (vinode \<times> fsck) option" where
  "repair_type acceptable_ref block rid ip st =
     (let set = (\<lambda>ip state st. map_option (\<lambda>(_, st). (ip, st)) (check_n_fix_bitmap None block False state st));
          meta = (if sd_gfs1 (fs_sdp (fk_fs st)) then GFS2_BLKST_DINODE else GFS2_BLKST_USED) in
      if reftypecount rid REF_IS_INODE \<noteq> 0 then map_option (\<lambda>(_, st). (ip, st)) (set_ip_bitmap ip st)
      else if reftypecount rid REF_AS_DATA \<noteq> 0 then set ip GFS2_BLKST_USED st
      else if reftypecount rid REF_AS_META \<noteq> 0 \<or> acceptable_ref = REF_AS_EA then set ip meta st
      else do {
        (ok, st) \<leftarrow> fsck_query st;
        if ok then
          let v = vi ip
          in set (dirty (ip\<lparr>vi := v\<lparr>i_eattr := 0, i_flags := i_flags v AND NOT GFS2_DIF_EA_INDIRECT, i_blocks := i_blocks v - 1\<rparr>\<rparr>))
               GFS2_BLKST_FREE st
        else Some (ip, st)
      })"

definition resolve_last_reference :: "dup_ref_type \<Rightarrow> u64 \<Rightarrow> fsck \<Rightarrow> fsck option" where
  "resolve_last_reference acceptable_ref block st = do {
     dt \<leftarrow> dupfind st block;
     addr \<leftarrow> first_id (ref_inode_list dt);
     ip \<leftarrow> fsck_load_inode st addr;
     (ip, st) \<leftarrow> (if REF1_IS_DUPL dt then clone_dup_ref_in_inode ip block st else Some (ip, st));
     (ip, st) \<leftarrow>
       (if bitmap_type (fk_fs st) addr = int GFS2_BLKST_FREE then Some (ip, st)
        else do {
          (_, rid) \<leftarrow> cur_entry False block addr st;
          repair_type acceptable_ref block rid ip st
        });
     dt \<leftarrow> dupfind st block;
     Some (dup_delete dt (fsck_inode_put ip st))
   }"

section \<open>One block\<close>

abbreviation (input) GFS2_METATYPE_EA :: u32 where "GFS2_METATYPE_EA \<equiv> 10"

text \<open>The type of reference that goes with what the block looks like.\<close>

definition acceptable_type :: "bytes \<Rightarrow> dup_ref_type" where
  "acceptable_type b =
     (let cmagic = get_be32 b (offsetof struct_gfs2_meta_header ''mh_magic'');
          ctype = get_be32 b (offsetof struct_gfs2_meta_header ''mh_type'') in
      if cmagic \<noteq> GFS2_MAGIC then REF_AS_DATA
      else if ctype = GFS2_METATYPE_DI then REF_IS_INODE
      else if ctype = GFS2_METATYPE_EA \<or> ctype = GFS2_METATYPE_ED then REF_AS_EA
      else if ctype \<le> GFS2_METATYPE_QC then REF_AS_META
      else REF_AS_DATA)"

text \<open>A step is made when more than one reference is left.\<close>

definition resolve_if_many ::
  "bool \<Rightarrow> dup_ref_type \<Rightarrow> u64 \<Rightarrow> dup_handler \<times> fsck \<Rightarrow> (dup_handler \<times> fsck) option" where
  "resolve_if_many inval acceptable_ref block = (\<lambda>(dh, st).
     if 1 < ref_count dh
     then map_option (\<lambda>(_, st). (revise_dup_handler block st, st)) (resolve_dup_references inval acceptable_ref block dh st)
     else Some (dh, st))"

definition handle_dup_blk :: "u64 \<Rightarrow> fsck \<Rightarrow> fsck option" where
  "handle_dup_blk block st = do {
     bh \<leftarrow> bread (fs_disk (fk_fs st)) block;
     let acceptable_ref = acceptable_type (b_data bh);
     s \<leftarrow> resolve_if_many True REF_TYPES block (revise_dup_handler block st, st);
     s \<leftarrow> resolve_if_many False acceptable_ref block s;
     (dh, st) \<leftarrow> resolve_if_many False REF_TYPES block s;
     let dt = dupfind st block;
     if ref_inode_count dh = 1 \<and> (case dt of None \<Rightarrow> False | Some dt \<Rightarrow> ref_inode_list dt \<noteq> [])
     then resolve_last_reference acceptable_ref block st
     else if ref_count dh \<noteq> 0 then Some st
     else map_option snd
       (check_n_fix_bitmap None block False GFS2_BLKST_FREE (case dt of None \<Rightarrow> st | Some dt \<Rightarrow> dup_delete dt st))
   }"

section \<open>First references\<close>

definition add_ref :: "u64 \<Rightarrow> dup_ref_type \<Rightarrow> 'p walk \<Rightarrow> int \<times> 'p walk" where
  "add_ref block reftype w =
     (let (r, st) = add_duplicate_ref (waddr w) block reftype True True (wst w) in (r, w\<lparr>wst := st\<rparr>))"

definition check_leaf_refs :: "u64 \<Rightarrow> 'p walk \<Rightarrow> (int \<times> 'p walk) option" where
  "check_leaf_refs block w = Some (add_ref block REF_AS_META w)"

definition check_metalist_refs :: "holder \<Rightarrow> nat \<Rightarrow> nat \<Rightarrow> 'p walk \<Rightarrow> (int \<times> checked_meta \<times> holder \<times> 'p walk) option" where
  "check_metalist_refs bh off h w =
     (let (r, w) = add_ref (ptr_at bh off w) REF_AS_META w in Some (r, \<lparr>cm_bh = None, cm_valid = True, cm_dup = False\<rparr>, bh, w))"

definition check_data_refs :: "u64 \<Rightarrow> u64 \<Rightarrow> holder \<Rightarrow> nat \<Rightarrow> 'p walk \<Rightarrow> (int \<times> holder \<times> 'p walk) option" where
  "check_data_refs metablock block bh ptr w = (let (r, w) = add_ref block REF_AS_DATA w in Some (r, bh, w))"

definition check_eattr_indir_refs :: "u64 \<Rightarrow> u64 \<Rightarrow> 'p walk \<Rightarrow> (int \<times> gfs2_buffer_head option \<times> 'p walk) option" where
  "check_eattr_indir_refs block parent w =
     (let (error, w) = add_ref block REF_AS_EA w in Some (error, if error = 0 then wbread w block else None, w))"

definition check_eattr_leaf_refs :: "u64 \<Rightarrow> u64 \<Rightarrow> 'p walk \<Rightarrow> (int \<times> gfs2_buffer_head option \<times> 'p walk) option" where
  "check_eattr_leaf_refs block parent w =
     (let (error, w) = add_ref block REF_AS_EA w in Some (error, if error = 0 then wbread w block else None, w))"

definition check_eattr_entry_refs ::
  "gfs2_buffer_head \<Rightarrow> nat \<Rightarrow> nat option \<Rightarrow> 'p walk \<Rightarrow> (int \<times> gfs2_buffer_head \<times> 'p walk) option" where
  "check_eattr_entry_refs leaf_bh hdr prev w = Some (0, leaf_bh, w)"

definition check_eattr_extentry_refs ::
  "nat \<Rightarrow> nat \<Rightarrow> gfs2_buffer_head \<Rightarrow> u32 \<Rightarrow> nat \<Rightarrow> nat option \<Rightarrow> 'p walk \<Rightarrow> (int \<times> gfs2_buffer_head \<times> 'p walk) option" where
  "check_eattr_extentry_refs i data_ptr leaf_bh tot_ealen hdr prev w =
     (let (r, w) = add_ref (get_be64 (b_data leaf_bh) data_ptr) REF_AS_EA w in Some (r, leaf_bh, w))"

definition find_refs :: "unit metawalk_fxns" where
  "find_refs = no_fxns\<lparr>check_leaf_fn := Some check_leaf_refs, check_metalist_fn := Some check_metalist_refs,
     check_data_fn := Some check_data_refs, check_eattr_indir_fn := Some check_eattr_indir_refs,
     check_eattr_leaf_fn := Some check_eattr_leaf_refs, check_eattr_entry_fn := Some check_eattr_entry_refs,
     check_eattr_extentry_fn := Some check_eattr_extentry_refs\<rparr>"

definition find_block_ref :: "u64 \<Rightarrow> fsck \<Rightarrow> (int \<times> fsck) option" where
  "find_block_ref inode st = do {
     ip \<leftarrow> fsck_load_inode st inode;
     if i_magic (vi ip) \<noteq> GFS2_MAGIC \<or> i_mh_type (vi ip) \<noteq> GFS2_METATYPE_DI then Some (1, fsck_inode_put ip st)
     else do {
       let (_, w) = add_ref inode REF_IS_INODE (new_walk st ip ());
       (error, w) \<leftarrow> check_metatree find_refs w;
       (error, w) \<leftarrow> (if error = 0 then check_inode_eattr find_refs w else Some (error, w));
       Some (error, fsck_inode_put (wip w) (wst w))
     }
   }"

section \<open>The pass\<close>

text \<open>The search ends with \<open>Inl rc\<close> where the code goes to its end, with \<open>Inr ()\<close> where it returns an error.\<close>

definition scan_step :: "u64 \<Rightarrow> fsck \<Rightarrow> ((int + unit) option \<times> fsck) option" where
  "scan_step i st =
     (if skip_this_pass st \<or> fsck_abort st \<or> dups_found_first st = dups_found st then Some (Some (Inl 0), st)
      else
        let q = bitmap_type (fk_fs st) i in
        if q = int GFS2_BLKST_FREE \<or> q = int GFS2_BLKST_USED \<or> q < 0 then Some (None, st)
        else if q = int GFS2_BLKST_UNLINKED then Some (Some (Inr ()), st)
        else map_option (\<lambda>(error, st). (if error < 0 then Some (Inl FSCK_ERROR) else None, st)) (find_block_ref i st))"

text \<open>The blocks are handled, from the first, until the tree is empty.\<close>

definition resolve_all_step :: "int \<Rightarrow> fsck \<Rightarrow> (fsck + fsck) option" where
  "resolve_all_step rc st =
     (case osi_first (dup_blocks st) of None \<Rightarrow> Some (Inl st)
      | Some dt \<Rightarrow> map_option Inr (if \<not> skip_this_pass st \<and> rc = 0 then handle_dup_blk (dup_block dt) st else Some st))"

definition pass1b :: "fsck \<Rightarrow> (int \<times> fsck) option" where
  "pass1b st =
     (if dup_blocks st = Leaf then Some (FSCK_OK, st)
      else do {
        (r, st) \<leftarrow> for_each scan_step (map of_nat [0..<unat (last_fs_block st)]) st;
        case r of Some (Inr _) \<Rightarrow> Some (FSCK_ERROR, st)
        | _ \<Rightarrow> do {
            let rc = (case r of Some (Inl rc) \<Rightarrow> rc | _ \<Rightarrow> 0);
            st \<leftarrow> iterate (resolve_all_step rc) st;
            Some (rc, st)
          }
      })"

end
