(* ===== verification/FsckPass4.thy ===== *)
theory FsckPass4
  imports FsckLost
begin

text \<open>
  Pass 4 of fsck.gfs2 (pass4.c): the links that an inode says it has are compared with those that were counted. An inode without any
  is deleted or put into lost+found.

  The inodes of the trees are named by their addresses; \<open>links\<close> gives \<open>*counted_links\<close>, which is in a node that a call may
  change. None is also the result where the code uses a node that was freed.
\<close>

section \<open>One inode\<close>

definition pass4_fxns_delete :: "unit metawalk_fxns" where
  "pass4_fxns_delete = no_fxns\<lparr>check_metalist_fn := Some delete_metadata, check_data_fn := Some delete_data,
     check_eattr_indir_fn := Some delete_eattr_indir, check_eattr_leaf_fn := Some delete_eattr_leaf\<rparr>"

definition fix_link_count :: "u32 \<Rightarrow> vinode \<Rightarrow> vinode" where
  "fix_link_count links ip = (if i_nlink (vi ip) = links then ip else dirty (set_vi (i_nlink_update (\<lambda>_. links)) ip))"

text \<open>The blocks of an inode, then the inode.\<close>

definition delete_inode :: "u64 \<Rightarrow> vinode \<Rightarrow> fsck \<Rightarrow> fsck option" where
  "delete_inode no_addr ip st = do {
     (_, w) \<leftarrow> check_inode_eattr pass4_fxns_delete (new_walk st ip ());
     (_, w) \<leftarrow> check_metatree pass4_fxns_delete w;
     (_, w) \<leftarrow> fsck_bitmap_set no_addr GFS2_BLKST_FREE False w;
     Some (fsck_inode_put (wip w) (wst w))
   }"

text \<open>The result has whether the caller goes on with the next inode, and whether lost+found got an entry.\<close>

definition handle_unlinked :: "u64 \<Rightarrow> u64 \<Rightarrow> (fsck \<Rightarrow> u32 option) \<Rightarrow> fsck \<Rightarrow> (bool \<times> bool \<times> fsck) option" where
  "handle_unlinked now no_addr links st = do {
     let q = bitmap_type (fk_fs st) no_addr;
     (bad, st) \<leftarrow> (if q = int GFS2_BLKST_FREE then fsck_query st else Some (False, st));
     ip \<leftarrow> fsck_load_inode st no_addr;
     let sys = is_sys st ip;
     if bad then map_option (\<lambda>st. (True, False, st)) (delete_inode no_addr ip st)
     else if q \<noteq> int GFS2_BLKST_DINODE then do {
       (ok, st) \<leftarrow> fsck_query st;
       if ok then map_option (\<lambda>st. (True, False, st)) (delete_inode no_addr ip st)
       else Some (True, False, put_loaded sys ip st)
     }
     else do {
       (clear, st) \<leftarrow> (if i_size (vi ip) = 0 \<and> i_eattr (vi ip) = 0 then fsck_query st else Some (False, st));
       if clear then do {
         (_, st) \<leftarrow> check_n_fix_bitmap None no_addr False GFS2_BLKST_FREE st;
         Some (True, False, put_loaded sys (shared sys ip st) st)
       }
       else do {
         (ok, st) \<leftarrow> fsck_query st;
         if \<not> ok then Some (False, False, put_loaded sys ip st)
         else do {
           (ip, st) \<leftarrow> add_inode_to_lf now sys ip st;
           c \<leftarrow> links st;
           Some (False, True, put_loaded sys (fix_link_count c ip) st)
         }
       }
     }
   }"

text \<open>The result has whether the inode was put right, and \<open>*di_nlink\<close> with it.\<close>

definition handle_inconsist :: "u64 \<Rightarrow> u32 \<Rightarrow> fsck \<Rightarrow> (bool \<times> fsck) option" where
  "handle_inconsist no_addr links st = do {
     (ok, st) \<leftarrow> fsck_query st;
     if ok then do {
       ip \<leftarrow> fsck_load_inode st no_addr;
       Some (True, fsck_inode_put (fix_link_count links ip) st)
     }
     else Some (False, st)
   }"

definition adjust_lf_links :: "bool \<Rightarrow> fsck \<Rightarrow> int \<times> fsck" where
  "adjust_lf_links lf_addition st =
     (case lf_dip st of None \<Rightarrow> (0, st)
      | Some lf \<Rightarrow>
          if \<not> lf_addition then (0, st)
          else (case dirtree_find st (in_addr (i_num (vi lf))) of None \<Rightarrow> (-1, st)
            | Some di \<Rightarrow> (0, st\<lparr>lf_dip := Some (fix_link_count (counted_links di) lf)\<rparr>)))"

section \<open>The lists\<close>

text \<open>Whether one of the files of \<open>md\<close> is at an address; a null pointer ends the program.\<close>

fun any_sys_at :: "u64 \<Rightarrow> sysfile list \<Rightarrow> fsck \<Rightarrow> bool option" where
  "any_sys_at addr [] st = Some False"
| "any_sys_at addr (file # files) st =
     (case sys_ptr file (fk_md st) of None \<Rightarrow> None
      | Some ip \<Rightarrow> if addr = in_addr (i_num (vi ip)) then Some True else any_sys_at addr files st)"

text \<open>A walk over a tree: where it is, \<open>lf_addition\<close> and the state. It is left with \<open>Inl\<close>.\<close>

type_synonym list_step = "u64 option \<times> bool \<times> fsck \<Rightarrow> ((int \<times> fsck) + (u64 option \<times> bool \<times> fsck)) option"

definition scan_inode_step :: "u64 \<Rightarrow> list_step" where
  "scan_inode_step now = (\<lambda>(tmp, lf, st).
     (case tmp of None \<Rightarrow> Some (Inl (adjust_lf_links lf st))
      | Some addr \<Rightarrow>
          if skip_this_pass st \<or> fsck_abort st then Some (Inl (0, st))
          else do {
            ii \<leftarrow> inodetree_find st addr;
            let next = map_option ii_addr (osi_next ii_addr addr (inodetree st));
            special \<leftarrow> (if sd_gfs1 (fs_sdp (fk_fs st)) then any_sys_at addr [SysRindex, SysQuota, SysStatfs] st else Some False);
            if special then Some (Inr (next, lf, st))
            else if ii_counted_links ii = 0 then do {
              (_, added, st) \<leftarrow> handle_unlinked now addr (\<lambda>st. map_option ii_counted_links (inodetree_find st addr)) st;
              Some (Inr (next, lf \<or> added, st))
            }
            else if ii_di_nlink ii \<noteq> ii_counted_links ii then do {
              (fixed, st) \<leftarrow> handle_inconsist addr (ii_counted_links ii) st;
              Some (Inr (next, lf, if fixed then put_inode_info (ii\<lparr>ii_di_nlink := ii_counted_links ii\<rparr>) st else st))
            }
            else Some (Inr (next, lf, st))
          }))"

definition scan_inode_list :: "u64 \<Rightarrow> fsck \<Rightarrow> (int \<times> fsck) option" where
  "scan_inode_list now st = iterate (scan_inode_step now) (map_option ii_addr (osi_first (inodetree st)), False, st)"

definition scan_dir_step :: "u64 \<Rightarrow> list_step" where
  "scan_dir_step now = (\<lambda>(tmp, lf, st).
     (case tmp of None \<Rightarrow> Some (Inl (adjust_lf_links lf st))
      | Some addr \<Rightarrow>
          if skip_this_pass st \<or> fsck_abort st then Some (Inl (0, st))
          else do {
            di \<leftarrow> dirtree_find st addr;
            let next = map_option di_addr (osi_next di_addr addr (dirtree st));
            special \<leftarrow> (if sd_gfs1 (fs_sdp (fk_fs st)) then any_sys_at addr [SysJindex] st else Some False);
            if special then Some (Inr (next, lf, st))
            else if counted_links di = 0 then do {
              (_, added, st) \<leftarrow> handle_unlinked now addr (\<lambda>st. map_option counted_links (dirtree_find st addr)) st;
              Some (Inr (next, lf \<or> added, st))
            }
            else if di_nlink di \<noteq> counted_links di then do {
              (fixed, st) \<leftarrow> handle_inconsist addr (counted_links di) st;
              Some (Inr (next, lf, if fixed then put_dir_info (di\<lparr>di_nlink := counted_links di\<rparr>) st else st))
            }
            else Some (Inr (next, lf, st))
          }))"

definition scan_dir_list :: "u64 \<Rightarrow> fsck \<Rightarrow> (int \<times> fsck) option" where
  "scan_dir_list now st = iterate (scan_dir_step now) (map_option di_addr (osi_first (dirtree st)), False, st)"

text \<open>A block with one link in its inode and none counted. The count that \<open>handle_unlinked\<close> gets is 1.\<close>

definition scan_nlink1_step :: "u64 \<Rightarrow> u64 \<Rightarrow> bool \<times> fsck \<Rightarrow> (unit option \<times> bool \<times> fsck) option" where
  "scan_nlink1_step now blk = (\<lambda>(lf, st).
     if skip_this_pass st \<or> fsck_abort st then Some (Some (), lf, st)
     else do {
       n \<leftarrow> link1_type (nlink1map st) blk;
       if n = 0 then Some (None, lf, st)
       else do {
         c \<leftarrow> link1_type (clink1map st) blk;
         if c = 0 then map_option (\<lambda>(_, added, st). (None, lf \<or> added, st)) (handle_unlinked now blk (\<lambda>_. Some 1) st)
         else Some (None, lf, st)
       }
     })"

definition scan_nlink1_list :: "u64 \<Rightarrow> fsck \<Rightarrow> (int \<times> fsck) option" where
  "scan_nlink1_list now st = do {
     (left, lf, st) \<leftarrow> for_each (scan_nlink1_step now) (map of_nat [0..<unat (last_fs_block st)]) (False, st);
     Some (if left = None then adjust_lf_links lf st else (0, st))
   }"

definition pass4 :: "u64 \<Rightarrow> fsck \<Rightarrow> (int \<times> fsck) option" where
  "pass4 now st = do {
     (r, st) \<leftarrow> scan_inode_list now st;
     if r \<noteq> 0 then Some (FSCK_ERROR, st)
     else do {
       (r, st) \<leftarrow> scan_dir_list now st;
       if r \<noteq> 0 then Some (FSCK_ERROR, st)
       else do {
         (r, st) \<leftarrow> scan_nlink1_list now st;
         Some (if r \<noteq> 0 then FSCK_ERROR else FSCK_OK, st)
       }
     }
   }"

end
