(* ===== verification/FsckPass2.thy ===== *)
theory FsckPass2
  imports FsckPass4
begin

text \<open>
  Pass 2 of fsck.gfs2 (pass2.c): the entries of every directory are checked, the links that they make are counted, and the hash
  tables are put right.

  The directory is the inode of the walk. Where a call may work on that same inode by way of the superblock or of
  lost+found, it is put into the state before the call and taken from it behind. None is the result where the code shifts by more
  than a word has or by less than nothing, uses what it did not set or a null pointer, reads past a buffer, or does not end, and
  where it searches for a name with a zero byte in it.
\<close>

section \<open>Directories and their parents\<close>

record dir_status =
  dotdir :: bool
  dotdotdir :: bool
  ds_q :: int
  entry_count :: u32

type_synonym p2_walk = "dir_status walk"

definition set_parent_dir :: "lgfs2_inum \<Rightarrow> lgfs2_inum \<Rightarrow> fsck \<Rightarrow> int \<times> fsck" where
  "set_parent_dir child parent st =
     (case dirtree_find st (in_addr child) of None \<Rightarrow> (-1, st)
      | Some di \<Rightarrow>
          if dinode di \<noteq> child then (0, st)
          else if treewalk_parent di \<noteq> 0 then (1, st)
          else (0, put_dir_info (di\<lparr>treewalk_parent := in_addr parent\<rparr>) st))"

definition set_dotdot_dir :: "u64 \<Rightarrow> lgfs2_inum \<Rightarrow> fsck \<Rightarrow> (int \<times> fsck) option" where
  "set_dotdot_dir childblock parent st =
     (case dirtree_find st childblock of None \<Rightarrow> Some (-1, st)
      | Some di \<Rightarrow>
          if in_addr (dinode di) \<noteq> childblock then Some (-1, st)
          else do {
            again \<leftarrow> (if in_addr (dotdot_parent di) = 0 then Some False
                      else map_option (\<lambda>rooti. in_addr (i_num (vi rooti)) \<noteq> in_addr (dinode di)) (md_rooti (fk_md st)));
            Some (if again then (-1, st) else (0, put_dir_info (di\<lparr>dotdot_parent := parent\<rparr>) st))
          })"

text \<open>A call that may see the walk's inode as a system inode or as lost+found.\<close>

definition on_shared :: "(fsck \<Rightarrow> ('a \<times> fsck) option) \<Rightarrow> 'p walk \<Rightarrow> ('a \<times> 'p walk) option" where
  "on_shared f w =
     (let sys = is_sys (wst w) (wip w)
      in map_option (\<lambda>(x, st). (x, w\<lparr>wst := st, wip := shared sys (wip w) st\<rparr>)) (f (share sys (wip w) (wst w))))"

definition on_fs :: "(fs \<Rightarrow> vinode \<Rightarrow> ('a \<times> fs \<times> vinode) option) \<Rightarrow> 'p walk \<Rightarrow> ('a \<times> 'p walk) option" where
  "on_fs f w = map_option (\<lambda>(x, fs, ip). (x, w\<lparr>wst := set_fs fs (wst w), wip := ip\<rparr>)) (f (wfs w) (wip w))"

definition count_entry :: "p2_walk \<Rightarrow> p2_walk" where
  "count_entry = on_priv (entry_count_update (\<lambda>n. n + 1))"

section \<open>Entries on their own\<close>

definition p2_check_eattr_indir :: "u64 \<Rightarrow> u64 \<Rightarrow> 'p walk \<Rightarrow> (int \<times> gfs2_buffer_head option \<times> 'p walk) option" where
  "p2_check_eattr_indir block parent w = Some (0, wbread w block, w)"

definition p2_check_eattr_leaf :: "u64 \<Rightarrow> u64 \<Rightarrow> 'p walk \<Rightarrow> (int \<times> gfs2_buffer_head option \<times> 'p walk) option" where
  "p2_check_eattr_leaf block parent w = Some (0, wbread w block, w)"

definition delete_eattrs :: "'p metawalk_fxns" where
  "delete_eattrs = no_fxns\<lparr>check_eattr_indir_fn := Some delete_eattr_indir, check_eattr_leaf_fn := Some delete_eattr_leaf,
     check_eattr_entry_fn := Some delete_eattr_entry, check_eattr_extentry_fn := Some delete_eattr_extentry\<rparr>"

definition pass2_fxns_delete :: "unit metawalk_fxns" where
  "pass2_fxns_delete = no_fxns\<lparr>check_metalist_fn := Some delete_metadata, check_data_fn := Some delete_data,
     check_leaf_fn := Some delete_leaf, check_eattr_indir_fn := Some delete_eattr_indir, check_eattr_leaf_fn := Some delete_eattr_leaf,
     check_eattr_entry_fn := Some delete_eattr_entry, check_eattr_extentry_fn := Some delete_eattr_extentry\<rparr>"

text \<open>The type in an entry is cut to a byte. The result has \<open>*isdir\<close>.\<close>

definition check_file_type :: "u64 \<Rightarrow> u8 \<Rightarrow> int \<Rightarrow> fsck \<Rightarrow> int \<times> bool" where
  "check_file_type block type q st =
     (if q \<noteq> int GFS2_BLKST_DINODE then (-1, False)
      else
        let isdir = (type = ucast (dir_type (fk_fs st)))
        in (if (dirtree_find st block \<noteq> None) = isdir then 0 else 1, isdir))"

abbreviation (input) MAX_FILENAME :: nat where "MAX_FILENAME \<equiv> 256"

text \<open>\<open>tmp_name\<close>, up to its NUL, and so many bytes of it.\<close>

definition tmp_name :: "nat \<Rightarrow> lgfs2_dirent \<Rightarrow> bytes \<Rightarrow> bytes" where
  "tmp_name dent d data =
     (let n = unat (dr_name_len d)
      in takeWhile (\<lambda>c. c \<noteq> 0) (slice (dent + sizeof struct_gfs2_dirent) (if n < MAX_FILENAME then n else MAX_FILENAME - 1) data))"

definition name_bytes :: "lgfs2_dirent \<Rightarrow> bytes \<Rightarrow> bytes" where
  "name_bytes d name = take (unat (dr_name_len d)) (name @ replicate (unat (dr_name_len d)) 0)"

text \<open>The number of an inode, from the nodes for it.\<close>

definition known_inum :: "u64 \<Rightarrow> fsck \<Rightarrow> lgfs2_inum option" where
  "known_inum addr st =
     (case inodetree_find st addr of Some ii \<Rightarrow> Some (ii_num ii) | None \<Rightarrow> map_option dinode (dirtree_find st addr))"

definition bad_formal_ino ::
  "nat \<Rightarrow> lgfs2_inum \<Rightarrow> bytes \<Rightarrow> int \<Rightarrow> lgfs2_dirent \<Rightarrow> holder \<Rightarrow> 'p walk \<Rightarrow> (int \<times> holder \<times> 'p walk) option" where
  "bad_formal_ino dent entry name q d bh w = do {
     let addr = in_addr entry;
     (inum, w) \<leftarrow>
       (case known_inum addr (wst w) of Some inum \<Rightarrow> Some (inum, w)
        | None \<Rightarrow> do {
            t \<leftarrow> link1_type (clink1map (wst w)) addr;
            if t = 1 then do {
              dent_ip \<leftarrow> fsck_load_inode (wst w) addr;
              Some (i_num (vi dent_ip), w\<lparr>wst := fsck_inode_put dent_ip (wst w)\<rparr>)
            }
            else Some (\<lparr>in_formal_ino = 0, in_addr = 0\<rparr>, w)
          });
     if q \<noteq> int GFS2_BLKST_DINODE \<or> name = dotdot then do {
       (ok, w) \<leftarrow> wquery w;
       Some (if ok then 1 else 0, bh, w)
     }
     else do {
       child_ip \<leftarrow> lgfs2_inode_read (wfs w) addr;
       (found, fs, child_ip) \<leftarrow> dir_search (wfs w) child_ip dotdot;
       let w = w\<lparr>wst := set_fs fs (wst w)\<rparr>;
       let put = (\<lambda>w. w\<lparr>wst := set_fs (inode_put (wfs w) child_ip) (wst w)\<rparr>);
       (ok, w) \<leftarrow> wquery w;
       if case found of Inl _ \<Rightarrow> False | Inr (childs_dotdot, _) \<Rightarrow> in_addr childs_dotdot = waddr w then
         if \<not> ok then Some (0, bh, put w)
         else do {
           let entry = entry\<lparr>in_formal_ino := in_formal_ino inum\<rparr>;
           let d = d\<lparr>dr_inum := (dr_inum d)\<lparr>in_formal_ino := in_formal_ino inum\<rparr>\<rparr>;
           let (bh, w) = wput (\<lambda>b. lgfs2_dirent_out d b dent) bh w;
           (_, w) \<leftarrow> on_state (incr_link_count entry) w;
           Some (0, bh, put (w\<lparr>wst := snd (set_parent_dir entry (i_num (vi (wip w))) (wst w))\<rparr>))
         }
       else Some (if ok then 1 else 0, bh, put w)
     }
   }"

section \<open>Leaves and their depth\<close>

text \<open>\<open>1 << n\<close> and \<open>hash >> (32 - i_depth)\<close> as \<open>int\<close>.\<close>

definition shl1 :: "int \<Rightarrow> nat option" where
  "shl1 n = (if 0 \<le> n \<and> n < 31 then Some (2 ^ nat n) else None)"

definition dir_depth :: "'p walk \<Rightarrow> nat" where
  "dir_depth w = unat (i_depth (vi (wip w)))"

definition hash_table_index :: "u32 \<Rightarrow> 'p walk \<Rightarrow> nat option" where
  "hash_table_index hash w =
     (let depth = dir_depth w in if depth = 0 \<or> 31 < depth then None else Some (unat (drop_bit (32 - depth) hash)))"

definition hash_table_max :: "int \<Rightarrow> bytes \<Rightarrow> 'p walk \<Rightarrow> int option" where
  "hash_table_max lindex leaf w =
     map_option (\<lambda>n. int n + lindex - 1) (shl1 (int (dir_depth w) - int (unat (leaf_depth leaf))))"

text \<open>How often a number can be halved until it is 1.\<close>

fun halvings :: "nat \<Rightarrow> nat" where
  "halvings n = (if n \<le> 1 then 0 else Suc (halvings (n div 2)))"

declare halvings.simps [simp del]

definition check_leaf_depth :: "u64 \<Rightarrow> int \<Rightarrow> gfs2_buffer_head \<Rightarrow> 'p walk \<Rightarrow> (int \<times> gfs2_buffer_head \<times> 'p walk) option" where
  "check_leaf_depth leaf_no ref_count lbh w = do {
     let depth = dir_depth w;
     let cur_depth = unat (leaf_depth (b_data lbh));
     exp_count \<leftarrow> shl1 (int depth - int cur_depth);
     let factor = halvings (nat ref_count);
     if int exp_count = ref_count then Some (0, lbh, w)
     else if depth < factor then Some (-1, lbh, w)
     else if cur_depth = depth - factor then Some (0, lbh, w)
     else do {
       (ok, w) \<leftarrow> wquery w;
       if ok then
         Some (1, bmodified (lbh\<lparr>b_data := put_be16 (offsetof struct_gfs2_leaf ''lf_depth'') (of_nat (depth - factor)) (b_data lbh)\<rparr>), w)
       else Some (0, lbh, w)
     }
   }"

section \<open>Entries on the wrong leaf\<close>

text \<open>The first run of pointers to a leaf is counted.\<close>

definition dest_refs :: "u64 \<Rightarrow> u64 list \<Rightarrow> nat" where
  "dest_refs leaf tbl = length (takeWhile (\<lambda>p. p = leaf) (dropWhile (\<lambda>p. p \<noteq> leaf) tbl))"

text \<open>The entry is added to the directory again; \<open>*lindex\<close> is with the result.\<close>

definition move_entry ::
  "u64 \<Rightarrow> nat \<Rightarrow> lgfs2_inum \<Rightarrow> bytes \<Rightarrow> u64 \<Rightarrow> int \<Rightarrow> nat \<Rightarrow> holder \<Rightarrow> lgfs2_dirent \<Rightarrow> int \<Rightarrow> p2_walk \<Rightarrow>
     (int \<times> int \<times> holder \<times> p2_walk) option" where
  "move_entry now dent entry name planned_leaf lindex hash_index bh d q w = do {
     let di_depth = dir_depth w;
     (err, w) \<leftarrow> on_fs (\<lambda>fs ip. dir_add now fs ip (name_bytes d name) (dr_inum d) (dr_type d)) w;
     if err \<noteq> 0 then Some (1, lindex, bh, w)
     else do {
       let grown = dir_depth w - di_depth;
       let (hash_index, lindex) = (push_bit grown hash_index, push_bit grown lindex);
       (real_leaf, w) \<leftarrow> on_fs (\<lambda>fs ip. lgfs2_get_leaf_ptr fs ip (of_nat hash_index)) w;
       real_leaf \<leftarrow> real_leaf;
       (_, w) \<leftarrow> (if real_leaf \<noteq> planned_leaf then fsck_bitmap_set real_leaf (meta_state w) False w else Some (0, w));
       if lindex < int hash_index then Some (1, lindex, bh, w)
       else do {
         let (error, st) = (if dr_type d = dir_type (wfs w) then set_parent_dir (dr_inum d) (i_num (vi (wip w))) (wst w) else (0, wst w));
         let w = w\<lparr>wst := st\<rparr>;
         if 0 < error then Some (0, lindex, bh, w)
         else do {
           (error, w) \<leftarrow> on_state (incr_link_count entry) w;
           (nuke, bh, w) \<leftarrow> (if 0 < error then bad_formal_ino dent entry name q d bh w else Some (0, bh, w));
           Some (1, lindex, bh, if nuke = 1 then w else count_entry w)
         }
       }
     }
   }"

definition wrong_leaf ::
  "u64 \<Rightarrow> nat \<Rightarrow> lgfs2_inum \<Rightarrow> bytes \<Rightarrow> int \<Rightarrow> nat \<Rightarrow> holder \<Rightarrow> lgfs2_dirent \<Rightarrow> int \<Rightarrow> p2_walk \<Rightarrow>
     (int \<times> int \<times> holder \<times> p2_walk) option" where
  "wrong_leaf now dent entry name lindex hash_index bh d q w = do {
     (ok, w) \<leftarrow> wquery w;
     if \<not> ok then Some (0, lindex, bh, w)
     else do {
       (tbl, w) \<leftarrow> get_dir_hash w;
       case tbl of None \<Rightarrow> Some (-1, lindex, bh, w)
       | Some tbl \<Rightarrow> do {
           planned_leaf \<leftarrow> tbl_at tbl hash_index;
           _ \<leftarrow> (if lindex < 0 then None else tbl_at tbl (nat lindex));
           dest_lbh \<leftarrow> wbread w planned_leaf;
           (_, dest_lbh, w) \<leftarrow> check_leaf_depth planned_leaf (int (dest_refs planned_leaf tbl)) dest_lbh w;
           let w = wrelse dest_lbh w;
           if length name \<noteq> unat (dr_name_len d) then None
           else do {
             (found, w) \<leftarrow> on_fs (\<lambda>fs ip. dir_search fs ip name) w;
             case found of Inr _ \<Rightarrow> Some (1, lindex, bh, w)
             | Inl _ \<Rightarrow> move_entry now dent entry name planned_leaf lindex hash_index bh d q w
           }
         }
     }
   }"


section \<open>The checks of an entry\<close>

text \<open>What is done to the attributes of the inode that an entry is for, which may be the directory itself.\<close>

definition drop_eattrs :: "u64 \<Rightarrow> 'p walk \<Rightarrow> 'p walk option" where
  "drop_eattrs addr w =
     (if waddr w = addr then map_option snd (check_inode_eattr delete_eattrs w)
      else do {
        ip \<leftarrow> fsck_load_inode (wst w) addr;
        (_, e) \<leftarrow> check_inode_eattr delete_eattrs (new_walk (wst w) ip ());
        Some (w\<lparr>wst := fsck_inode_put (wip e) (wst e)\<rparr>)
      })"

text \<open>The result of \<open>basic_dentry_checks\<close>, \<open>*q\<close>, \<open>*isdir\<close>, \<open>*d\<close>, and whether \<open>*count\<close> and the count of \<open>ds\<close> go up.\<close>

record basic_checks =
  bc_error :: int
  bc_q :: int
  bc_isdir :: bool
  bc_d :: lgfs2_dirent
  bc_counted :: bool

definition check_number :: "lgfs2_inum \<Rightarrow> 'p walk \<Rightarrow> int option" where
  "check_number entry w = do {
     let known = known_inum (in_addr entry) (wst w);
     one_link \<leftarrow> (if known = None then map_option (\<lambda>t. t = 1) (link1_type (nlink1map (wst w)) (in_addr entry)) else Some False);
     if one_link then Some 0
     else if (case known of None \<Rightarrow> 0 | Some inum \<Rightarrow> in_formal_ino inum) \<noteq> in_formal_ino entry then Some 1
     else if known = None \<and> sd_gfs1 (wsdp w)
     then map_option (\<lambda>tbh. if gfs2_check_meta (b_data tbh) GFS2_METATYPE_DI \<noteq> 0 then 1 else 0) (wbread w (in_addr entry))
     else Some 0
   }"

definition check_entry_inode :: "lgfs2_inum \<Rightarrow> lgfs2_dirent \<Rightarrow> 'p walk \<Rightarrow> (basic_checks \<times> 'p walk) option" where
  "check_entry_inode entry d w =
     (let q = bitmap_type (wfs w) (in_addr entry);
          (error, isdir) = check_file_type (in_addr entry) (ucast (dr_type d)) q (wst w);
          r = \<lparr>bc_error = 0, bc_q = q, bc_isdir = isdir, bc_d = d, bc_counted = False\<rparr> in
      if q \<noteq> int GFS2_BLKST_DINODE then map_option (\<lambda>(ok, w). (r\<lparr>bc_error := if ok then 1 else 0\<rparr>, w)) (wquery w)
      else if error < 0 then Some (r\<lparr>bc_error := -1\<rparr>, w)
      else if 0 < error then do {
        (ok, w) \<leftarrow> wquery w;
        if ok then map_option (Pair (r\<lparr>bc_error := 1\<rparr>)) (drop_eattrs (in_addr entry) w)
        else Some (r, w)
      }
      else map_option (\<lambda>error. (r\<lparr>bc_error := error\<rparr>, w)) (check_number entry w))"

definition basic_dentry_checks ::
  "nat \<Rightarrow> lgfs2_inum \<Rightarrow> bytes \<Rightarrow> lgfs2_dirent \<Rightarrow> holder \<Rightarrow> 'p walk \<Rightarrow> (basic_checks \<times> holder \<times> 'p walk) option" where
  "basic_dentry_checks dent entry name d bh w =
     (let r = \<lparr>bc_error = 0, bc_q = 0, bc_isdir = False, bc_d = d, bc_counted = False\<rparr>;
          hash = gfs2_disk_hash (name_bytes d name) in
      if \<not> valid_block_ip (wfs w) (in_addr entry)
      then map_option (\<lambda>(ok, w). (if ok then r\<lparr>bc_error := 1\<rparr> else r\<lparr>bc_counted := True\<rparr>, bh, w)) (wquery w)
      else if unat (dr_rec_len d) < GFS2_DIRENT_SIZE (unat (dr_name_len d)) \<or> GFS2_FNAMESIZE < unat (dr_name_len d)
      then map_option (\<lambda>(ok, w). (r\<lparr>bc_error := if ok then 1 else 0\<rparr>, bh, w)) (wquery w)
      else if dr_hash d = hash then map_option (\<lambda>(r, w). (r, bh, w)) (check_entry_inode entry d w)
      else do {
        (ok, w) \<leftarrow> wquery w;
        if \<not> ok then Some (r, bh, w)
        else
          let d = d\<lparr>dr_hash := hash\<rparr>; (bh, w) = wput (\<lambda>b. lgfs2_dirent_out d b dent) bh w
          in map_option (\<lambda>(r, w). (r, bh, w)) (check_entry_inode entry d w)
      })"

section \<open>The first reference to an inode\<close>

definition dirref_find ::
  "nat \<Rightarrow> nat option \<Rightarrow> holder \<Rightarrow> u32 \<Rightarrow> int \<Rightarrow> lgfs2_inum walk \<Rightarrow> (int \<times> holder \<times> u32 \<times> int \<times> lgfs2_inum walk) option" where
  "dirref_find dent prev bh count lindex w =
     (let de = lgfs2_dirent_in dirent_zero (wdata bh w) dent in
      if in_addr (dr_inum de) \<noteq> in_addr (wpriv w) then Some (0, bh, count + 1, lindex, w)
      else if in_formal_ino (dr_inum de) = de_ino (wdata bh w) dent then Some (-1, bh, count, lindex, w)
      else do {
        (ok, w) \<leftarrow> wquery w;
        if \<not> ok then Some (-1, bh, count, lindex, w)
        else do {
          (_, w) \<leftarrow> on_state (decr_link_count (in_addr (wpriv w))) w;
          let (bh, w) = walk_dirent_del bh prev dent w;
          Some (-1, bh, count, lindex, w)
        }
      })"

definition dirref_hunt :: "lgfs2_inum metawalk_fxns" where
  "dirref_hunt = no_fxns\<lparr>check_dentry_fn := Some dirref_find\<rparr>"

definition suspicious_step :: "lgfs2_inum \<Rightarrow> u64 option \<times> fsck \<Rightarrow> (fsck + (u64 option \<times> fsck)) option" where
  "suspicious_step entry = (\<lambda>(tmp, st).
     (case tmp of None \<Rightarrow> Some (Inl st)
      | Some addr \<Rightarrow>
          let next = map_option di_addr (osi_next di_addr addr (dirtree st)) in
          if skip_this_pass st \<or> fsck_abort st then Some (Inl st)
          else (case fsck_load_inode st addr of None \<Rightarrow> Some (Inl st)
            | Some ip \<Rightarrow> do {
                (error, w) \<leftarrow> check_dir dirref_hunt (new_walk st ip entry);
                let st = fsck_inode_put (wip w) (wst w);
                Some (if error \<noteq> 0 then Inl st else Inr (next, st))
              })))"

definition check_suspicious_dirref :: "lgfs2_inum \<Rightarrow> fsck \<Rightarrow> (unit \<times> fsck) option" where
  "check_suspicious_dirref entry st =
     map_option (Pair ()) (iterate (suspicious_step entry) (map_option di_addr (osi_first (dirtree st)), st))"

section \<open>An entry\<close>

text \<open>What becomes of it, or the walk stops with an error.\<close>

datatype verdict = Nuke | Valid | Stop

definition ask_clear :: "lgfs2_inum \<Rightarrow> 'p walk \<Rightarrow> (verdict \<times> 'p walk) option" where
  "ask_clear entry w = do {
     (ok, w) \<leftarrow> wquery w;
     if ok then map_option (Pair Nuke) (drop_eattrs (in_addr entry) w) else Some (Valid, w)
   }"

definition check_dot :: "lgfs2_inum \<Rightarrow> p2_walk \<Rightarrow> (verdict \<times> p2_walk) option" where
  "check_dot entry w =
     (if dotdir (wpriv w) \<or> in_addr entry \<noteq> waddr w then ask_clear entry w
      else Some (Valid, on_priv (dotdir_update (\<lambda>_. True)) w))"

definition check_dotdot :: "bool \<Rightarrow> lgfs2_inum \<Rightarrow> p2_walk \<Rightarrow> (verdict \<times> p2_walk) option" where
  "check_dotdot isdir entry w =
     (if dotdotdir (wpriv w) \<or> \<not> isdir then ask_clear entry w
      else do {
        (r, w) \<leftarrow> on_state (set_dotdot_dir (waddr w) entry) w;
        Some (if r \<noteq> 0 then (Stop, w) else (Valid, on_priv (dotdotdir_update (\<lambda>_. True)) w))
      })"

definition check_place ::
  "u64 \<Rightarrow> nat \<Rightarrow> lgfs2_inum \<Rightarrow> bytes \<Rightarrow> int \<Rightarrow> holder \<Rightarrow> lgfs2_dirent \<Rightarrow> int \<Rightarrow> p2_walk \<Rightarrow> (int \<times> int \<times> holder \<times> p2_walk) option" where
  "check_place now dent entry name lindex bh d q w =
     (if i_flags (vi (wip w)) AND GFS2_DIF_EXHASH = 0 then Some (0, lindex, bh, w)
      else do {
        hash_index \<leftarrow> hash_table_index (dr_hash d) w;
        lindex_max \<leftarrow> hash_table_max lindex (wdata bh w) w;
        if int hash_index < lindex \<or> lindex_max < int hash_index then wrong_leaf now dent entry name lindex hash_index bh d q w
        else Some (0, lindex, bh, w)
      })"

definition check_parent :: "lgfs2_inum \<Rightarrow> 'p walk \<Rightarrow> (verdict \<times> 'p walk) option" where
  "check_parent entry w =
     (let (error, st) = set_parent_dir entry (i_num (vi (wip w))) (wst w); w = w\<lparr>wst := st\<rparr> in
      if 0 < error then map_option (\<lambda>(ok, w). (if ok then Nuke else Valid, w)) (wquery w)
      else Some (if error < 0 then Stop else Valid, w))"

text \<open>An entry that is good makes a link.\<close>

definition valid_entry :: "nat \<Rightarrow> lgfs2_inum \<Rightarrow> bytes \<Rightarrow> int \<Rightarrow> lgfs2_dirent \<Rightarrow> holder \<Rightarrow> 'p walk \<Rightarrow> (verdict \<times> holder \<times> 'p walk) option" where
  "valid_entry dent entry name q d bh w = do {
     (error, w) \<leftarrow> on_state (incr_link_count entry) w;
     if error = INCR_LINK_CHECK_ORIG then map_option (\<lambda>(_, w). (Valid, bh, w)) (on_shared (check_suspicious_dirref entry) w)
     else if error = INCR_LINK_INO_MISMATCH
     then map_option (\<lambda>(nuke, bh, w). (if nuke = 1 then Nuke else Valid, bh, w)) (bad_formal_ino dent entry name q d bh w)
     else Some (Valid, bh, w)
   }"

definition check_named ::
  "u64 \<Rightarrow> nat \<Rightarrow> lgfs2_inum \<Rightarrow> bytes \<Rightarrow> int \<Rightarrow> holder \<Rightarrow> basic_checks \<Rightarrow> p2_walk \<Rightarrow> (verdict \<times> int \<times> holder \<times> p2_walk) option" where
  "check_named now dent entry name lindex bh r w =
     (if name = dot then map_option (\<lambda>(v, w). (v, lindex, bh, w)) (check_dot entry w)
      else if name = dotdot then map_option (\<lambda>(v, w). (v, lindex, bh, w)) (check_dotdot (bc_isdir r) entry w)
      else do {
        (nuke, lindex, bh, w) \<leftarrow> check_place now dent entry name lindex bh (bc_d r) (bc_q r) w;
        if nuke \<noteq> 0 then Some (Nuke, lindex, bh, w)
        else if \<not> bc_isdir r then Some (Valid, lindex, bh, w)
        else map_option (\<lambda>(v, w). (v, lindex, bh, w)) (check_parent entry w)
      })"

definition p2_check_dentry ::
  "u64 \<Rightarrow> nat \<Rightarrow> nat option \<Rightarrow> holder \<Rightarrow> u32 \<Rightarrow> int \<Rightarrow> p2_walk \<Rightarrow> (int \<times> holder \<times> u32 \<times> int \<times> p2_walk) option" where
  "p2_check_dentry now dent prev_de bh count lindex w = do {
     let d = lgfs2_dirent_in dirent_zero (wdata bh w) dent;
     let entry = dr_inum d;
     let name = tmp_name dent d (wdata bh w);
     (r, bh, w) \<leftarrow> basic_dentry_checks dent entry name d bh w;
     let (count, w) = (if bc_counted r then (count + 1, count_entry w) else (count, w));
     (v, lindex, bh, w) \<leftarrow> (if bc_error r \<noteq> 0 then Some (Nuke, lindex, bh, w) else check_named now dent entry name lindex bh r w);
     (v, bh, w) \<leftarrow> (if v = Valid then valid_entry dent entry name (bc_q r) (bc_d r) bh w else Some (v, bh, w));
     Some (case v of Stop \<Rightarrow> (-1, bh, count, lindex, w)
           | Nuke \<Rightarrow> let (bh, w) = walk_dirent_del bh prev_de dent w in (1, bh, count, lindex, w)
           | Valid \<Rightarrow> (0, bh, count + 1, lindex, count_entry w))
   }"

text \<open>The check without the rest; its \<open>ds\<close> is a null pointer.\<close>

definition basic_check_dentry ::
  "nat \<Rightarrow> nat option \<Rightarrow> holder \<Rightarrow> u32 \<Rightarrow> int \<Rightarrow> 'p walk \<Rightarrow> (int \<times> holder \<times> u32 \<times> int \<times> 'p walk) option" where
  "basic_check_dentry dent prev_de bh count lindex w = do {
     let d = lgfs2_dirent_in dirent_zero (wdata bh w) dent;
     (r, bh, w) \<leftarrow> basic_dentry_checks dent (dr_inum d) (tmp_name dent d (wdata bh w)) d bh w;
     if bc_counted r then None
     else if bc_error r \<noteq> 0 then let (bh, w) = walk_dirent_del bh prev_de dent w in Some (1, bh, count, lindex, w)
     else Some (0, bh, count + 1, lindex, w)
   }"


section \<open>New leaves\<close>

definition on_blocks :: "(u64 \<Rightarrow> u64) \<Rightarrow> 'p walk \<Rightarrow> 'p walk" where
  "on_blocks f w = wdirty (w\<lparr>wip := set_vi (i_blocks_update f) (wip w)\<rparr>)"

definition empty_leaf :: "gfs2_sbd \<Rightarrow> u64 \<Rightarrow> u16 \<Rightarrow> gfs2_buffer_head" where
  "empty_leaf sdp bn depth = bmodified (set_buf (\<lambda>_.
     put_de_rec_len (sizeof struct_gfs2_leaf) (of_nat (unat (sd_bsize sdp) - sizeof struct_gfs2_leaf))
       (put_be16 (offsetof struct_gfs2_leaf ''lf_depth'') depth
         (set_meta_header GFS2_METATYPE_LF GFS2_FORMAT_LF (replicate (unat (sd_bsize sdp)) 0)))) (bget sdp bn))"

text \<open>\<open>gfs2_writei\<close> or \<open>gfs1_writei\<close>, with how much was written.\<close>

definition walk_write :: "u64 \<Rightarrow> bytes \<Rightarrow> u64 \<Rightarrow> 'p walk \<Rightarrow> (int \<times> 'p walk) option" where
  "walk_write now buf offset =
     on_fs (\<lambda>fs ip. if sd_gfs1 (fs_sdp fs) then gfs1_writei now fs ip buf offset
                     else map_option (\<lambda>(n, fs, ip). (int n, fs, ip)) (gfs2_writei_resize fs ip buf offset True))"

text \<open>\<open>*bn\<close> is None where the call does not set it.\<close>

definition write_new_leaf :: "u64 \<Rightarrow> nat \<Rightarrow> nat \<Rightarrow> 'p walk \<Rightarrow> (int \<times> u64 option \<times> 'p walk) option" where
  "write_new_leaf now start_lindex num_copies w =
     (if 2 ^ halvings num_copies \<noteq> num_copies then Some (-1, None, w)
      else do {
        ((ret, bn), w) \<leftarrow> on_fs (\<lambda>fs ip. map_option (\<lambda>(ret, bn, fs, ip). ((ret, bn), fs, ip)) (lgfs2_meta_alloc fs ip 0)) w;
        if ret \<noteq> 0 then Some (-1, None, w)
        else do {
          (_, w) \<leftarrow> fsck_bitmap_set bn (meta_state w) False w;
          let w = on_blocks (\<lambda>b. b + 1) w;
          let w = wrelse (empty_leaf (wsdp w) bn (i_depth (vi (wip w)) - of_nat (halvings num_copies))) w;
          (count, w) \<leftarrow> walk_write now (concat (replicate num_copies (be_bytes 8 (unat bn)))) (of_nat start_lindex * 8) w;
          Some (if count \<noteq> 8 * int num_copies then -1 else 0, Some bn, w)
        }
      })"

text \<open>The longest run that starts well and is not too long.\<close>

function pad_len :: "nat \<Rightarrow> nat \<Rightarrow> nat \<Rightarrow> nat" where
  "pad_len lindex len n = (if n = 0 \<or> len < 2 * n \<or> lindex mod (2 * n) \<noteq> 0 then n else pad_len lindex len (2 * n))"
  by pat_completeness auto
termination by (relation "measure (\<lambda>(_, len, n). len - n)") auto

declare pad_len.simps [simp del]

definition set_ptrs :: "nat \<Rightarrow> nat \<Rightarrow> u64 \<Rightarrow> u64 list \<Rightarrow> u64 list option" where
  "set_ptrs lindex n p tbl =
     (if length tbl < lindex + n then None else Some (take lindex tbl @ replicate n p @ drop (lindex + n) tbl))"

text \<open>The block's number is kept from the turn before where no leaf could be written.\<close>

definition pad_step ::
  "u64 \<Rightarrow> nat \<times> nat \<times> u64 option \<times> u64 list \<times> 'p walk \<Rightarrow> ((u64 list \<times> 'p walk) + (nat \<times> nat \<times> u64 option \<times> u64 list \<times> 'p walk)) option" where
  "pad_step now = (\<lambda>(lindex, len, blk, tbl, w).
     if len = 0 then Some (Inl (tbl, w))
     else do {
       let new_len = pad_len lindex len 1;
       (_, bn, w) \<leftarrow> write_new_leaf now lindex new_len w;
       blk \<leftarrow> (case bn of None \<Rightarrow> blk | Some b \<Rightarrow> Some b);
       (_, w) \<leftarrow> fsck_bitmap_set blk (meta_state w) False w;
       tbl \<leftarrow> set_ptrs lindex new_len blk tbl;
       Some (Inr (lindex + new_len, len - new_len, Some blk, tbl, w))
     })"

definition pad_with_leafblks :: "u64 \<Rightarrow> u64 list \<Rightarrow> nat \<Rightarrow> nat \<Rightarrow> 'p walk \<Rightarrow> (u64 list \<times> 'p walk) option" where
  "pad_with_leafblks now tbl lindex len w = iterate (pad_step now) (lindex, len, None, tbl, w)"

text \<open>A bad leaf is replaced by runs of new leaves. \<open>*leaf_no\<close> is the last of them, or 0; it stays when there was an error.\<close>

definition patch_step ::
  "u64 \<Rightarrow> nat \<times> nat \<times> int \<times> u64 \<times> 'p walk \<Rightarrow> ((int \<times> u64 option \<times> 'p walk) + (nat \<times> nat \<times> int \<times> u64 \<times> 'p walk)) option" where
  "patch_step now = (\<lambda>(lindex, left, blks, bn, w).
     if left = 0 then Some (Inl (blks, Some bn, w))
     else do {
       let run = 2 ^ halvings left;
       (error, b, w) \<leftarrow> write_new_leaf now lindex run w;
       if error \<noteq> 0 then Some (Inl (error, None, w))
       else Some (Inr (lindex + run, left - run, blks + 1, (case b of None \<Rightarrow> bn | Some b \<Rightarrow> b), w))
     })"

definition pass2_repair_leaf :: "u64 \<Rightarrow> u64 \<Rightarrow> nat \<Rightarrow> int \<Rightarrow> 'p walk \<Rightarrow> (int \<times> u64 \<times> 'p walk) option" where
  "pass2_repair_leaf now leaf_no lindex ref_count w = do {
     (ok, w) \<leftarrow> wquery w;
     if \<not> ok then Some (0, 0, w)
     else do {
       (r, bn, w) \<leftarrow> iterate (patch_step now) (lindex, nat ref_count, 0, 0, w);
       Some (r, case bn of None \<Rightarrow> leaf_no | Some bn \<Rightarrow> bn, w)
     }
   }"

section \<open>Leaves that are out of place\<close>

definition add_to_lf :: "u64 \<Rightarrow> bytes \<Rightarrow> lgfs2_inum \<Rightarrow> u16 \<Rightarrow> fsck \<Rightarrow> (int \<times> fsck) option" where
  "add_to_lf now filename inum type st = do {
     lf \<leftarrow> lf_dip st;
     (err, fs, lf) \<leftarrow> dir_add now (fk_fs st) lf filename inum type;
     Some (err, set_fs fs (st\<lparr>lf_dip := Some lf\<rparr>))
   }"

text \<open>The link of lost+found itself is counted with a null pointer for the inode that refers to it.\<close>

definition link_lf :: "fsck \<Rightarrow> (int \<times> fsck) option" where
  "link_lf st = do {
     lf \<leftarrow> lf_dip st;
     let no = i_num (vi lf);
     if known_inum (in_addr no) st = None \<and> link1_type (clink1map st) (in_addr no) = Some 1 then None
     else incr_link_count no st
   }"

definition relocate_entry ::
  "u64 \<Rightarrow> nat \<Rightarrow> lgfs2_dirent \<Rightarrow> bytes \<Rightarrow> holder \<Rightarrow> 'p walk \<Rightarrow> (int \<times> holder \<times> 'p walk) option" where
  "relocate_entry now dent de filename h w = do {
     (r, h, w) \<leftarrow> basic_dentry_checks dent (dr_inum de) (takeWhile (\<lambda>c. c \<noteq> 0) filename) de h w;
     if bc_error r \<noteq> 0 then Some (0, h, w)
     else do {
       (error, w) \<leftarrow> on_shared (add_to_lf now filename (dr_inum de) (dr_type de)) w;
       if error \<noteq> 0 \<and> error \<noteq> - E_EXIST then Some (error, h, w)
       else do {
         (_, w) \<leftarrow> on_state (incr_link_count (dr_inum de)) w;
         (_, w) \<leftarrow> (if bc_isdir r then on_shared link_lf w else Some (0, w));
         Some (0, h, w)
       }
     }
   }"

text \<open>A name that is longer than a pointer ends the loop.\<close>

definition lost_leaf_step ::
  "u64 \<Rightarrow> nat \<times> holder \<times> 'p walk \<Rightarrow> ((int \<times> holder \<times> 'p walk) + (nat \<times> holder \<times> 'p walk)) option" where
  "lost_leaf_step now = (\<lambda>(dent, h, w).
     (let data = wdata h w; de = lgfs2_dirent_in dirent_zero data dent; len = unat (dr_name_len de);
          p = dent + sizeof struct_gfs2_dirent; filename = slice p len data in
      if wbsize w < p then None
      else if 8 < len then Some (Inl (0, h, w))
      else if wbsize w < p + len then None
      else do {
        (error, h, w) \<leftarrow>
          (if filename = dot \<or> filename = dotdot \<or> in_formal_ino (dr_inum de) = 0 then Some (0, h, w)
           else relocate_entry now dent de filename h w);
        if error \<noteq> 0 then Some (Inl (error, h, w))
        else if wbsize w \<le> dent + unat (dr_rec_len de) then Some (Inl (0, h, w))
        else Some (Inr (dent + unat (dr_rec_len de), h, w))
      }))"

text \<open>The entries of a leaf are moved to lost+found and the leaf goes. The leaf is released behind.\<close>

definition lost_leaf :: "u64 \<Rightarrow> u64 list \<Rightarrow> u64 \<Rightarrow> nat \<Rightarrow> nat \<Rightarrow> gfs2_buffer_head \<Rightarrow> 'p walk \<Rightarrow> (int \<times> u64 list \<times> 'p walk) option" where
  "lost_leaf now tbl leafno ref_count lindex lbh w = do {
     (ok, w) \<leftarrow> wquery w;
     if \<not> ok then Some (0, tbl, wrelse lbh w)
     else do {
       (_, w) \<leftarrow> on_shared (\<lambda>st. map_option (Pair ()) (make_sure_lf_exists now st)) w;
       (error, h, w) \<leftarrow> iterate (lost_leaf_step now) (sizeof struct_gfs2_leaf, Other lbh, w);
       if error \<noteq> 0 then Some (error, tbl, wrelease h w)
       else do {
         (_, w) \<leftarrow> fsck_bitmap_set leafno GFS2_BLKST_FREE False w;
         (tbl, w) \<leftarrow> pad_with_leafblks now tbl lindex ref_count (on_blocks (\<lambda>b. b - 1) w);
         Some (1, tbl, wrelease h w)
       }
     }
   }"

section \<open>The hash table\<close>

definition leafck_fxns :: "u64 \<Rightarrow> 'p metawalk_fxns" where
  "leafck_fxns now = no_fxns\<lparr>check_leaf_depth_fn := Some check_leaf_depth, check_dentry_fn := Some basic_check_dentry,
     repair_leaf_fn := Some (pass2_repair_leaf now)\<rparr>"

text \<open>The pointers behind the good ones that are to the same leaf get new leaves.\<close>

definition fix_extras ::
  "u64 \<Rightarrow> u64 \<Rightarrow> int \<Rightarrow> nat \<Rightarrow> int \<Rightarrow> nat \<Rightarrow> u64 list \<Rightarrow> 'p walk \<Rightarrow> (int \<times> nat \<times> u64 list \<times> 'p walk) option" where
  "fix_extras now leafblk changes lindex len proper_len tbl w =
     (let lindex = lindex + proper_len; len = nat (len - int proper_len);
          extras = length (takeWhile (\<lambda>p. p = leafblk) (take len (drop lindex tbl))) in
      if extras < len \<and> length tbl \<le> lindex + extras then None
      else if extras = 0 then Some (changes, proper_len, tbl, w)
      else map_option (\<lambda>(tbl, w). (1, proper_len, tbl, w)) (pad_with_leafblks now tbl lindex extras w))"

text \<open>A leaf that has too few pointers or starts too late is split.\<close>

definition fix_split ::
  "u64 \<Rightarrow> u64 \<Rightarrow> nat \<Rightarrow> nat \<Rightarrow> nat \<Rightarrow> gfs2_buffer_head \<Rightarrow> u64 list \<Rightarrow> 'p walk \<Rightarrow> (int \<times> nat \<times> u64 list \<times> 'p walk) option" where
  "fix_split now leafblk lindex len proper_len lbh tbl w = do {
     new_leaf_blk \<leftarrow> find_free_blk (wfs w);
     (lbh, w) \<leftarrow> on_fs (\<lambda>fs ip. map_option (\<lambda>(fs, ip, lbh). (lbh, fs, ip)) (dir_split_leaf now fs ip (of_nat lindex) lbh)) w;
     proper_len \<leftarrow> shl1 (int (dir_depth w) - int (unat (leaf_depth (b_data lbh))));
     (_, w) \<leftarrow> fsck_bitmap_set new_leaf_blk (meta_state w) False w;
     tbl \<leftarrow> set_ptrs lindex proper_len new_leaf_blk tbl;
     if proper_len < len div 2 then Some (1, proper_len, tbl, wrelse lbh w)
     else fix_extras now leafblk 1 (lindex + proper_len) (int len - int proper_len) proper_len tbl (wrelse lbh w)
   }"

text \<open>The results are what was changed, \<open>*proper_len\<close> and the table.\<close>

definition fix_hashtable ::
  "u64 \<Rightarrow> u64 list \<Rightarrow> u64 \<Rightarrow> nat \<Rightarrow> nat \<Rightarrow> nat \<Rightarrow> 'p walk \<Rightarrow> (int \<times> nat \<times> u64 list \<times> 'p walk) option" where
  "fix_hashtable now tbl leafblk lindex proper_start len w = do {
     (ok, w) \<leftarrow> wquery w;
     if \<not> ok then Some (0, len, tbl, w)
     else do {
       (_, _, leaf, refs, w) \<leftarrow> check_leaf (leafck_fxns now) lindex leafblk (int len) w;
       let proper_len = len;
       let len = nat refs;
       lbh \<leftarrow> wbread w leafblk;
       let depth = dir_depth w;
       let lf_depth = unat (lf_depth leaf);
       let lost = (\<lambda>proper_len. map_option (\<lambda>(error, tbl, w). (error, proper_len, tbl, w)) (lost_leaf now tbl leafblk len lindex lbh w));
       if depth < lf_depth then lost proper_len
       else do {
         let dentry = lgfs2_dirent_in dirent_zero (b_data lbh) (sizeof struct_gfs2_leaf);
         if unat (dr_rec_len dentry) = wbsize w - sizeof struct_gfs2_leaf \<and> in_formal_ino (dr_inum dentry) = 0 then do {
           let w = wrelse lbh w;
           (tbl, w) \<leftarrow> pad_with_leafblks now tbl lindex len (w\<lparr>wst := set_fs (gfs2_free_block (wfs w) leafblk) (wst w)\<rparr>);
           Some (1, proper_len, tbl, w)
         }
         else do {
           proper_len \<leftarrow> shl1 (int depth - int lf_depth);
           hash_index \<leftarrow> hash_table_index (dr_hash dentry) w;
           let leaf_proper_start = hash_index - hash_index mod proper_len;
           if hash_index < lindex \<or> lindex + len < hash_index then lost proper_len
           else if lindex < leaf_proper_start then do {
             (tbl, w) \<leftarrow> pad_with_leafblks now tbl lindex (leaf_proper_start - lindex) w;
             Some (1, proper_len, tbl, wrelse lbh w)
           }
           else if leaf_proper_start < proper_start \<or> (len < proper_len \<or> leaf_proper_start < lindex) \<and> lf_depth = depth then lost proper_len
           else if (len < proper_len \<or> leaf_proper_start < lindex) \<and> lf_depth < depth
           then fix_split now leafblk lindex len proper_len lbh tbl w
           else fix_extras now leafblk 0 lindex (int len) proper_len tbl (wrelse lbh w)
         }
       }
     }
   }"


abbreviation (input) E_FAULT :: int where "E_FAULT \<equiv> 14"

text \<open>
  A run of pointers is compared with the hash of the leaf's first entry, and padded if the hash is not in it: the first result
  is None where it is, and whether it was put right otherwise.
\<close>

definition fix_bad_run ::
  "u64 \<Rightarrow> nat \<Rightarrow> nat \<Rightarrow> nat \<Rightarrow> u64 list \<Rightarrow> 'p walk \<Rightarrow> (bool option \<times> u64 list \<times> 'p walk) option" where
  "fix_bad_run now hash_index lindex len tbl w =
     (if lindex \<le> hash_index \<and> hash_index \<le> lindex + len then Some (None, tbl, w)
      else do {
        (ok, w) \<leftarrow> wquery w;
        if \<not> ok then Some (Some False, tbl, w)
        else map_option (Pair (Some True)) (pad_with_leafblks now tbl lindex len (on_blocks (\<lambda>b. b - 1) w))
      })"

definition dup_step ::
  "u64 \<Rightarrow> u64 \<Rightarrow> nat \<Rightarrow> nat \<Rightarrow> nat \<times> u64 list \<times> 'p walk \<Rightarrow> ((int \<times> u64 list \<times> 'p walk) + (nat \<times> u64 list \<times> 'p walk)) option" where
  "dup_step now leafblk lindex len = (\<lambda>(l, tbl, w).
     let next = Some (Inr (l + 1, tbl, w)); len2 = length (takeWhile (\<lambda>i. i \<noteq> lindex \<and> tbl ! i = leafblk) [l..<length tbl]) in
     if length tbl \<le> l then Some (Inl (0, tbl, w))
     else if l = lindex then Some (Inr (l + len, tbl, w))
     else if tbl ! l \<noteq> leafblk then next
     else if \<not> valid_block_ip (wfs w) leafblk then next
     else do {
       lbh \<leftarrow> wbread w leafblk;
       if gfs2_check_meta (b_data lbh) GFS2_METATYPE_LF \<noteq> 0 then next
       else do {
         hash_index \<leftarrow> hash_table_index (dr_hash (lgfs2_dirent_in dirent_zero (b_data lbh) (sizeof struct_gfs2_leaf))) w;
         (r, tbl, w) \<leftarrow> fix_bad_run now hash_index l len2 tbl w;
         if r = Some False then Some (Inl (0, tbl, w))
         else do {
           (r, tbl, w) \<leftarrow> fix_bad_run now hash_index lindex len tbl w;
           Some (case r of None \<Rightarrow> Inr (l + 1, tbl, w)
                 | Some False \<Rightarrow> Inl (0, tbl, w)
                 | Some True \<Rightarrow> Inl (- E_FAULT, tbl, w))
         }
       }
     })"

definition check_hash_tbl_dups :: "u64 \<Rightarrow> u64 list \<Rightarrow> nat \<Rightarrow> nat \<Rightarrow> 'p walk \<Rightarrow> (int \<times> u64 list \<times> 'p walk) option" where
  "check_hash_tbl_dups now tbl lindex len w = iterate (dup_step now (tbl ! lindex) lindex len) (0, tbl, w)"

text \<open>The longest run of pointers to a leaf whose length is a power of two and that starts well, from \<open>len\<close> on.\<close>

function run_len :: "u64 list \<Rightarrow> u64 \<Rightarrow> nat \<Rightarrow> nat \<Rightarrow> nat" where
  "run_len tbl leafblk lindex len =
     (if len = 0 \<or> length tbl \<le> lindex + 2 * len - 1 \<or> tbl ! (lindex + 2 * len - 1) \<noteq> leafblk \<or> lindex mod (2 * len) \<noteq> 0 \<or>
         list_ex (\<lambda>i. lindex + i < length tbl \<and> tbl ! (lindex + i) \<noteq> leafblk) [len..<2 * len]
      then len else run_len tbl leafblk lindex (2 * len))"
  by pat_completeness auto
termination by (relation "measure (\<lambda>(tbl, _, _, len). length tbl - len)") auto

declare run_len.simps [simp del]

text \<open>The pointers of a run are compared with its leaf. The result has whether the program is to stop, \<open>proper_len\<close> and \<open>changes\<close>.\<close>

definition same_step ::
  "u64 \<Rightarrow> u64 \<Rightarrow> nat \<Rightarrow> nat \<Rightarrow> nat \<times> nat \<times> int \<times> u64 list \<times> 'p walk \<Rightarrow>
     ((bool \<times> nat \<times> int \<times> u64 list \<times> 'p walk) + (nat \<times> nat \<times> int \<times> u64 list \<times> 'p walk)) option" where
  "same_step now leafblk lindex len = (\<lambda>(i, proper_len, changes, tbl, w).
     if lindex + proper_len \<le> i then Some (Inl (False, proper_len, changes, tbl, w))
     else if fsck_abort (wst w) then Some (Inl (True, proper_len, changes, tbl, w))
     else do {
       p \<leftarrow> tbl_at tbl i;
       if p = leafblk then Some (Inr (i + 1, proper_len, changes, tbl, w))
       else do {
         (ok, w) \<leftarrow> wquery w;
         if \<not> ok then Some (Inr (i + 1, proper_len, changes, tbl, w))
         else do {
           lbh \<leftarrow> wbread w leafblk;
           proper_len \<leftarrow> shl1 (int (dir_depth w) - int (unat (leaf_depth (b_data lbh))));
           if proper_len = len then Some (Inr (i + 1, proper_len, changes + 1, tbl, w))
           else do {
             (changes, proper_len, tbl, w) \<leftarrow> fix_hashtable now tbl leafblk lindex lindex len w;
             Some (Inl (False, proper_len, changes, tbl, w))
           }
         }
       }
     })"

text \<open>Pointers to what cannot be a leaf.\<close>

definition replace_run ::
  "u64 \<Rightarrow> nat \<Rightarrow> nat \<Rightarrow> nat \<Rightarrow> int \<Rightarrow> u64 list \<Rightarrow> 'p walk \<Rightarrow> ((int \<times> u64 list \<times> 'p walk) + (nat \<times> int \<times> u64 list \<times> 'p walk)) option" where
  "replace_run now lindex len proper_len changes tbl w = do {
     (ok, w) \<leftarrow> wquery w;
     if \<not> ok then Some (Inr (lindex + len, changes, tbl, w))
     else do {
       (error, bn, w) \<leftarrow> write_new_leaf now lindex proper_len w;
       if error \<noteq> 0 then Some (Inl (error, tbl, w))
       else do {
         bn \<leftarrow> bn;
         tbl \<leftarrow> set_ptrs lindex proper_len bn tbl;
         Some (Inr (lindex + proper_len, changes, tbl, w))
       }
     }
   }"

text \<open>A run that does not start or end well; the first result is whether the index is to be looked at again.\<close>

definition fix_run ::
  "u64 \<Rightarrow> u64 \<Rightarrow> nat \<Rightarrow> nat \<Rightarrow> nat \<Rightarrow> int \<Rightarrow> u64 list \<Rightarrow> 'p walk \<Rightarrow> (bool \<times> int \<times> nat \<times> u64 list \<times> 'p walk) option" where
  "fix_run now leafblk lindex len proper_len changes tbl w = do {
     let proper_start = lindex - lindex mod proper_len;
     (again, changes, proper_len, tbl, w) \<leftarrow>
       (if lindex = proper_start then Some (False, changes, proper_len, tbl, w)
        else map_option (\<lambda>(changes, r). (changes \<noteq> 0, changes, r)) (fix_hashtable now tbl leafblk lindex proper_start len w));
     if again \<or> len = proper_len then Some (again, changes, proper_len, tbl, w)
     else do {
       _ \<leftarrow> wbread w leafblk;
       map_option (\<lambda>(changes, r). (changes \<noteq> 0, changes, r)) (fix_hashtable now tbl leafblk lindex lindex len w)
     }
   }"

definition hash_tbl_step ::
  "u64 \<Rightarrow> nat \<times> int \<times> u64 list \<times> 'p walk \<Rightarrow> ((int \<times> u64 list \<times> 'p walk) + (nat \<times> int \<times> u64 list \<times> 'p walk)) option" where
  "hash_tbl_step now = (\<lambda>(lindex, changes, tbl, w).
     if length tbl \<le> lindex then Some (Inl (if changes \<noteq> 0 then 1 else 0, tbl, w))
     else if fsck_abort (wst w) then Some (Inl (changes, tbl, w))
     else do {
       let leafblk = tbl ! lindex;
       let proper_len = run_len tbl leafblk lindex 1;
       let len = proper_len + length (takeWhile (\<lambda>p. p = leafblk) (drop (lindex + proper_len) tbl));
       if \<not> valid_block_ip (wfs w) leafblk then replace_run now lindex len proper_len changes tbl w
       else do {
         (r, tbl, w) \<leftarrow> check_hash_tbl_dups now tbl lindex len w;
         if r \<noteq> 0 then Some (Inr (lindex, changes, tbl, w))
         else do {
           (again, changes, proper_len, tbl, w) \<leftarrow> fix_run now leafblk lindex len proper_len changes tbl w;
           if again then Some (Inr (lindex, changes, tbl, w))
           else do {
             (stop, proper_len, changes, tbl, w) \<leftarrow> iterate (same_step now leafblk lindex len) (lindex, proper_len, changes, tbl, w);
             Some (if stop then Inl (changes, tbl, w) else Inr (lindex + proper_len, changes, tbl, w))
           }
         }
       }
     })"

definition check_hash_tbl :: "u64 \<Rightarrow> u64 list \<Rightarrow> 'p walk \<Rightarrow> (int \<times> u64 list \<times> 'p walk) option" where
  "check_hash_tbl now tbl w = iterate (hash_tbl_step now) (0, 0, tbl, w)"

definition pass2_fxns :: "u64 \<Rightarrow> dir_status metawalk_fxns" where
  "pass2_fxns now = no_fxns\<lparr>check_leaf_depth_fn := Some check_leaf_depth, check_eattr_indir_fn := Some p2_check_eattr_indir,
     check_eattr_leaf_fn := Some p2_check_eattr_leaf, check_dentry_fn := Some (p2_check_dentry now),
     check_hash_tbl_fn := Some (check_hash_tbl now), repair_leaf_fn := Some (pass2_repair_leaf now)\<rparr>"

section \<open>The files of the directory per_node\<close>

definition check_metalist_qc :: "holder \<Rightarrow> nat \<Rightarrow> nat \<Rightarrow> 'p walk \<Rightarrow> (int \<times> checked_meta \<times> holder \<times> 'p walk) option" where
  "check_metalist_qc bh off h w =
     Some (META_IS_GOOD, \<lparr>cm_bh = wbread w (ptr_at bh off w), cm_valid = True, cm_dup = False\<rparr>, bh, w)"

definition check_data_qc :: "u64 \<Rightarrow> u64 \<Rightarrow> holder \<Rightarrow> nat \<Rightarrow> 'p walk \<Rightarrow> (int \<times> holder \<times> 'p walk) option" where
  "check_data_qc metablock block bbh ptr w =
     (if \<not> valid_block_ip (wfs w) block then Some (-1, bbh, w)
      else map_option (\<lambda>bh. (if gfs2_check_meta (b_data bh) GFS2_METATYPE_QC \<noteq> 0 then -1 else 0, bbh, w)) (wbread w block))"

definition quota_change_fxns :: "unit metawalk_fxns" where
  "quota_change_fxns = no_fxns\<lparr>check_metalist_fn := Some check_metalist_qc, check_data_fn := Some check_data_qc\<rparr>"

definition on_pernode :: "(fs \<Rightarrow> vinode \<Rightarrow> ('a \<times> fs \<times> vinode) option) \<Rightarrow> fsck \<Rightarrow> ('a \<times> fsck) option" where
  "on_pernode f st = do {
     pernode \<leftarrow> md_pinode (fk_md st);
     (x, fs, pernode) \<leftarrow> f (fk_fs st) pernode;
     Some (x, set_sys SysPer_node (Some pernode) (set_fs fs st))
   }"

text \<open>A file of the directory; a name that is there with an inode that cannot be read gives a null pointer.\<close>

definition lookup_pernode :: "bytes \<Rightarrow> fsck \<Rightarrow> ((int + vinode) \<times> fsck) option" where
  "lookup_pernode fn st = do {
     ((error, found), st) \<leftarrow> on_pernode (\<lambda>fs ip. map_option (\<lambda>(e, found, fs, ip). ((e, found), fs, ip)) (gfs2_lookupi fs ip fn)) st;
     if error \<noteq> 0 then Some (Inl error, st)
     else (case found of Found ip \<Rightarrow> Some (Inr ip, st) | _ \<Rightarrow> None)
   }"

type_synonym pernode_builder = "fs \<Rightarrow> u64 \<Rightarrow> vinode \<Rightarrow> (int \<times> fs \<times> u64 \<times> vinode) option"

definition build_pernode :: "bytes \<Rightarrow> pernode_builder \<Rightarrow> fsck \<Rightarrow> (int \<times> fsck) option" where
  "build_pernode fn builder st = do {
     ((err, next_inum), st) \<leftarrow>
       on_pernode (\<lambda>fs ip. map_option (\<lambda>(e, fs, next_inum, ip). ((e, next_inum), fs, ip)) (builder fs (md_next_inum st) ip)) st;
     let st = st\<lparr>md_next_inum := next_inum\<rparr>;
     if err \<noteq> 0 then Some (-1, st)
     else do {
       (found, st) \<leftarrow> lookup_pernode fn st;
       case found of Inl _ \<Rightarrow> Some (-1, st)
       | Inr ip \<Rightarrow> do {
           (_, st) \<leftarrow> check_n_fix_bitmap None (in_addr (i_num (vi ip))) False GFS2_BLKST_DINODE st;
           Some (0, fsck_inode_put ip st)
         }
     }
   }"

definition size_ok :: "u64 \<Rightarrow> bool \<Rightarrow> u64 \<Rightarrow> bool" where
  "size_ok filelen multiple sz \<longleftrightarrow> sz \<noteq> 0 \<and> (if multiple then sz mod filelen = 0 else sz = filelen)"

definition check_pernode_for ::
  "bytes \<Rightarrow> u64 \<Rightarrow> bool \<Rightarrow> unit metawalk_fxns option \<Rightarrow> pernode_builder \<Rightarrow> fsck \<Rightarrow> (int \<times> fsck) option" where
  "check_pernode_for fn filelen multiple pass builder st = do {
     (found, st) \<leftarrow> lookup_pernode fn st;
     case found of
       Inl _ \<Rightarrow> do {
         (ok, st) \<leftarrow> fsck_query st;
         if ok then build_pernode fn builder st else Some (0, st)
       }
     | Inr ip \<Rightarrow>
         if \<not> size_ok filelen multiple (i_size (vi ip)) then do {
           (ok, st) \<leftarrow> fsck_query st;
           let st = fsck_inode_put ip st;
           if ok then build_pernode fn builder st else Some (0, st)
         }
         else (case pass of None \<Rightarrow> Some (0, fsck_inode_put ip st)
           | Some pass \<Rightarrow> do {
               (error, w) \<leftarrow> check_metatree pass (new_walk st ip ());
               (ok, w) \<leftarrow> (if error = 0 then Some (False, w) else wquery w);
               if \<not> ok then Some (0, fsck_inode_put (wip w) (wst w))
               else do {
                 (_, w) \<leftarrow> check_metatree pass2_fxns_delete w;
                 (_, st) \<leftarrow> on_pernode (\<lambda>fs ip. gfs2_dirent_del fs ip fn) (fsck_inode_put (wip w) (wst w));
                 build_pernode fn builder st
               }
             })
   }"

definition check_pernode_files :: "build_env \<Rightarrow> u32 \<Rightarrow> fsck \<Rightarrow> (int \<times> fsck) option" where
  "check_pernode_files env j st = do {
     let (now, en) = (be_now env, be_errno env);
     (e1, st) \<leftarrow> check_pernode_for (numbered ''inum_range'' j) 16 False None (build_inum_range now en j) st;
     (e2, st) \<leftarrow> check_pernode_for (numbered ''statfs_change'' j) 24 False None (build_statfs_change now en j) st;
     (e3, st) \<leftarrow> check_pernode_for (numbered ''quota_change'' j) 1048576 True (Some quota_change_fxns)
                   (build_quota_change now en (be_qcsize env) j) st;
     Some (e1 + e2 + e3, st)
   }"

primrec check_pernodes :: "build_env \<Rightarrow> u32 list \<Rightarrow> fsck \<Rightarrow> (int \<times> fsck) option" where
  "check_pernodes env [] st = Some (0, st)"
| "check_pernodes env (j # js) st = do {
     (e, st) \<leftarrow> check_pernode_files env j st;
     (es, st) \<leftarrow> check_pernodes env js st;
     Some (e + es, st)
   }"

section \<open>Directories\<close>

text \<open>A missing \<open>.\<close> is added; the first result is what the caller returns if that fails.\<close>

definition add_missing_dot :: "build_env \<Rightarrow> p2_walk \<Rightarrow> (int option \<times> p2_walk) option" where
  "add_missing_dot env w =
     (if dotdir (wpriv w) then Some (None, w)
      else do {
        (ok, w) \<leftarrow> wquery w;
        if \<not> ok then Some (None, w)
        else do {
          let no = i_num (vi (wip w));
          (error, w) \<leftarrow> on_fs (\<lambda>fs ip. dir_add (be_now env) fs ip dot no (dir_type fs)) w;
          if error \<noteq> 0 then Some (Some (- be_errno env), w)
          else map_option (\<lambda>(_, w). (None, count_entry w)) (on_state (incr_link_count no) w)
        }
      })"

definition fix_entry_count :: "p2_walk \<Rightarrow> p2_walk option" where
  "fix_entry_count w =
     (if i_entries (vi (wip w)) = entry_count (wpriv w) then Some w
      else map_option (\<lambda>(ok, w). if ok then wdirty (w\<lparr>wip := set_vi (i_entries_update (\<lambda>_. entry_count (wpriv w))) (wip w)\<rparr>) else w)
             (wquery w))"

definition dir_status_start :: dir_status where
  "dir_status_start = \<lparr>dotdir = False, dotdotdir = False, ds_q = 0, entry_count = 0\<rparr>"

definition check_system_dir :: "build_env \<Rightarrow> sysfile \<Rightarrow> fsck \<Rightarrow> (int \<times> fsck) option" where
  "check_system_dir env file st =
     (case sys_ptr file (fk_md st) of None \<Rightarrow> Some (-1, st)
      | Some ip \<Rightarrow> do {
          let iblock = in_addr (i_num (vi ip));
          let q = bitmap_type (fk_fs st) iblock;
          let fxns = pass2_fxns (be_now env);
          let out = (\<lambda>w. set_sys file (Some (wip w)) (wst w));
          (error, w) \<leftarrow> (let w = new_walk st ip (dir_status_start\<lparr>ds_q := q\<rparr>)
                          in if q = int GFS2_BLKST_FREE then check_metatree fxns w else Some (0, w));
          if error < 0 then Some (error, out w)
          else do {
            (error, w) \<leftarrow> check_dir fxns w;
            if leaving w then Some (FSCK_OK, out w)
            else if error < 0 then Some (-1, out w)
            else do {
              (_, w) \<leftarrow> (if 0 < error then fsck_bitmap_set iblock GFS2_BLKST_FREE False w else Some (0, w));
              (error, w) \<leftarrow> check_inode_eattr fxns w;
              if error \<noteq> 0 then Some (-1, out w)
              else do {
                (failed, w) \<leftarrow> add_missing_dot env w;
                case failed of Some error \<Rightarrow> Some (error, out w)
                | None \<Rightarrow> do {
                    w \<leftarrow> fix_entry_count w;
                    if file = SysPer_node then check_pernodes env (upto_u32 (of_nat (length (md_journal (fk_md st))))) (out w)
                    else Some (0, out w)
                  }
              }
            }
          }
        })"

definition is_system_dir :: "u64 \<Rightarrow> fsck \<Rightarrow> bool option" where
  "is_system_dir block st =
     any_sys_at block (if sd_gfs1 (fs_sdp (fk_fs st)) then [SysRoot] else [SysRoot, SysJindex, SysPer_node, SysMaster]) st"

text \<open>The entry of a directory that is not good is removed from its parent. The result is None where the check fails.\<close>

definition drop_bad_dir :: "u64 \<Rightarrow> p2_walk \<Rightarrow> (bool \<times> p2_walk) option" where
  "drop_bad_dir dirblk w =
     (case dirtree_find (wst w) dirblk of None \<Rightarrow> Some (False, w)
      | Some di \<Rightarrow> do {
          (ok, w) \<leftarrow> wquery w;
          (error, w) \<leftarrow> (if ok then on_shared (remove_dentry_from_dir (treewalk_parent di) dirblk) w else Some (0, w));
          if error < 0 then Some (False, w)
          else map_option (\<lambda>(_, w). (True, w)) (fsck_bitmap_set dirblk GFS2_BLKST_FREE False w)
        })"

definition pass2_check_dir :: "build_env \<Rightarrow> p2_walk \<Rightarrow> (int \<times> p2_walk) option" where
  "pass2_check_dir env w = do {
     let dirblk = waddr w;
     (error, w) \<leftarrow> check_dir (pass2_fxns (be_now env)) w;
     if leaving w then Some (FSCK_OK, w)
     else if error < 0 then Some (FSCK_ERROR, w)
     else do {
       (good, w) \<leftarrow> (if 0 < error then drop_bad_dir dirblk w else Some (True, w));
       if \<not> good then Some (FSCK_ERROR, w)
       else do {
         (failed, w) \<leftarrow> add_missing_dot env w;
         case failed of Some error \<Rightarrow> Some (error, w)
         | None \<Rightarrow> map_option (Pair FSCK_OK) (if fsck_abort (wst w) then Some w else fix_entry_count w)
       }
     }
   }"

section \<open>The pass\<close>

definition system_dir_step :: "build_env \<Rightarrow> sysfile \<Rightarrow> fsck \<Rightarrow> (int option \<times> fsck) option" where
  "system_dir_step env file st = do {
     (error, st) \<leftarrow> check_system_dir env file st;
     Some (if error \<noteq> 0 then Some FSCK_ERROR else if skip_this_pass st \<or> fsck_abort st then Some FSCK_OK else None, st)
   }"

definition is_new_lf :: "u64 \<Rightarrow> fsck \<Rightarrow> bool option" where
  "is_new_lf dirblk st =
     (if lf_was_created st then map_option (\<lambda>lf. dirblk = in_addr (i_num (vi lf))) (lf_dip st) else Some False)"

definition pass2_step :: "build_env \<Rightarrow> u64 option \<times> fsck \<Rightarrow> ((int \<times> fsck) + (u64 option \<times> fsck)) option" where
  "pass2_step env = (\<lambda>(tmp, st).
     (case tmp of None \<Rightarrow> Some (Inl (FSCK_OK, st))
      | Some dirblk \<Rightarrow> do {
          _ \<leftarrow> dirtree_find st dirblk;
          let next = map_option di_addr (osi_next di_addr dirblk (dirtree st));
          if skip_this_pass st \<or> fsck_abort st then Some (Inl (FSCK_OK, st))
          else do {
            system \<leftarrow> is_system_dir dirblk st;
            passed_over \<leftarrow> (if system then Some True else is_new_lf dirblk st);
            if passed_over then Some (Inr (next, st))
            else (case fsck_load_inode st dirblk of None \<Rightarrow> Some (Inl (FSCK_ERROR, st))
              | Some ip \<Rightarrow> do {
                  let sys = is_sys st ip;
                  (error, w) \<leftarrow> pass2_check_dir env (new_walk st ip dir_status_start);
                  let st = put_loaded sys (wip w) (wst w);
                  Some (if skip_this_pass st \<or> fsck_abort st then Inl (FSCK_OK, st)
                        else if error \<noteq> FSCK_OK then Inl (error, st)
                        else Inr (next, st))
                })
          }
        }))"

definition pass2 :: "build_env \<Rightarrow> fsck \<Rightarrow> (int \<times> fsck) option" where
  "pass2 env st = do {
     (r, st) \<leftarrow> for_each (system_dir_step env)
       ((if sd_gfs1 (fs_sdp (fk_fs st)) then [] else [SysJindex, SysPer_node, SysMaster]) @ [SysRoot]) st;
     case r of Some r \<Rightarrow> Some (r, st)
     | None \<Rightarrow> iterate (pass2_step env) (map_option di_addr (osi_first (dirtree st)), st)
   }"

end
