(* ===== verification/FsckPass3.thy ===== *)
theory FsckPass3
  imports FsckLost
begin

text \<open>
  Pass 3 of fsck.gfs2 (pass3.c): every directory has to be connected with the root. From each the pass goes up by the parents until
  it comes to one that was seen before; where a parent is missing the directory is put into lost+found.

  A directory is named by its address in the tree of directories. The code keeps pointers to nodes: the value is None where
  it uses one whose node was freed.
\<close>

section \<open>Parents\<close>

text \<open>The entry \<open>..\<close> of a directory is replaced.\<close>

definition attach_dotdot_to :: "u64 \<Rightarrow> u64 \<Rightarrow> u64 \<Rightarrow> u64 \<Rightarrow> fsck \<Rightarrow> fsck option" where
  "attach_dotdot_to now newdotdot olddotdot block st = do {
     ip \<leftarrow> fsck_load_inode st block;
     pip \<leftarrow> fsck_load_inode st newdotdot;
     let sys = is_sys st ip;
     (err, fs, ip) \<leftarrow> gfs2_dirent_del (fk_fs st) ip dotdot;
     let st = set_fs fs st;
     (_, st) \<leftarrow> (if err \<noteq> 0 then Some (0, st) else decr_link_count olddotdot st);
     let no = i_num (vi pip);
     (err, fs, ip) \<leftarrow> dir_add now (fk_fs st) ip dotdot no (dir_type (fk_fs st));
     if err \<noteq> 0 then None
     else do {
       (_, st) \<leftarrow> incr_link_count no (share sys ip (set_fs fs st));
       let st = put_loaded sys (shared sys ip st) st;
       Some (fsck_inode_put (shared (is_sys st pip) pip st) st)
     }
   }"

text \<open>Only the address of the parent is changed in the node.\<close>

definition reattach :: "u64 \<Rightarrow> dir_info \<Rightarrow> fsck \<Rightarrow> fsck option" where
  "reattach now di st = do {
     st \<leftarrow> attach_dotdot_to now (treewalk_parent di) (in_addr (dotdot_parent di)) (di_addr di) st;
     di \<leftarrow> dirtree_find st (di_addr di);
     Some (put_dir_info (di\<lparr>dotdot_parent := (dotdot_parent di)\<lparr>in_addr := treewalk_parent di\<rparr>\<rparr>) st)
   }"

text \<open>The address of the directory that \<open>..\<close> names, if it is in the tree.\<close>

definition dotdot_node :: "u64 \<Rightarrow> fsck \<Rightarrow> (u64 option \<times> fsck) option" where
  "dotdot_node addr st = do {
     di \<leftarrow> dirtree_find st addr;
     Some (map_option di_addr (dirtree_find st (in_addr (dotdot_parent di))), st)
   }"

definition mark_and_return_parent :: "u64 \<Rightarrow> u64 \<Rightarrow> fsck \<Rightarrow> (u64 option \<times> fsck) option" where
  "mark_and_return_parent now addr st = do {
     di \<leftarrow> dirtree_find st addr;
     let di = di\<lparr>checked := True\<rparr>;
     let st = put_dir_info di st;
     let inode = (\<lambda>block. bitmap_type (fk_fs st) block = int GFS2_BLKST_DINODE);
     let dotdot_addr = in_addr (dotdot_parent di);
     let treewalk = treewalk_parent di;
     if treewalk = 0 then Some (None, st)
     else if dotdot_addr = treewalk then (if inode dotdot_addr then dotdot_node addr st else Some (None, st))
     else if \<not> inode dotdot_addr \<or> dirtree_find st dotdot_addr = None then
       if inode treewalk then do { st \<leftarrow> reattach now di st; dotdot_node addr st } else Some (None, st)
     else if dirtree_find st treewalk \<noteq> None then do { st \<leftarrow> reattach now di st; dotdot_node addr st }
     else do {
       (ok, st) \<leftarrow> fsck_query st;
       if ok then map_option (\<lambda>(_, st). (None, st)) (remove_dentry_from_dir treewalk addr st) else Some (None, st)
     }
   }"

section \<open>Directories without a parent\<close>

definition mark_free :: "u64 \<Rightarrow> bool \<Rightarrow> vinode \<Rightarrow> fsck \<Rightarrow> fsck option" where
  "mark_free addr sys ip st = map_option (\<lambda>(_, st). put_loaded sys (shared sys ip st) st) (check_n_fix_bitmap None addr False GFS2_BLKST_FREE st)"

definition handle_orphan :: "u64 \<Rightarrow> u64 \<Rightarrow> fsck \<Rightarrow> fsck option" where
  "handle_orphan now addr st = do {
     let q = bitmap_type (fk_fs st) addr;
     ip \<leftarrow> fsck_load_inode st addr;
     let sys = is_sys st ip;
     (clear, st) \<leftarrow> (if q = int GFS2_BLKST_FREE then fsck_query st else Some (False, st));
     if clear then mark_free addr sys ip st
     else if q \<noteq> int GFS2_BLKST_DINODE then do {
       (ok, st) \<leftarrow> fsck_query st;
       if ok then mark_free addr sys ip st else Some (put_loaded sys ip st)
     }
     else do {
       (clear, st) \<leftarrow> (if i_size (vi ip) = 0 \<and> i_eattr (vi ip) = 0 then fsck_query st else Some (False, st));
       if clear then mark_free addr sys ip st
       else do {
         (ok, st) \<leftarrow> fsck_query st;
         (ip, st) \<leftarrow> (if ok then add_inode_to_lf now sys ip st else Some (ip, st));
         Some (put_loaded sys ip st)
       }
     }
   }"

section \<open>The pass\<close>

text \<open>One step up; \<open>Inl\<close> where the way up ends, with whether the pass is to be left.\<close>

definition climb_step :: "u64 \<Rightarrow> u64 \<times> fsck \<Rightarrow> ((bool \<times> fsck) + (u64 \<times> fsck)) option" where
  "climb_step now = (\<lambda>(addr, st). do {
     di \<leftarrow> dirtree_find st addr;
     if checked di then Some (Inl (False, st))
     else if skip_this_pass st \<or> fsck_abort st then Some (Inl (True, st))
     else do {
       (tdi, st) \<leftarrow> mark_and_return_parent now addr st;
       case tdi of Some parent \<Rightarrow> Some (Inr (parent, st))
       | None \<Rightarrow> map_option (\<lambda>st. Inl (False, st)) (handle_orphan now addr st)
     }
   })"

definition pass3_step :: "u64 \<Rightarrow> u64 option \<times> fsck \<Rightarrow> (fsck + (u64 option \<times> fsck)) option" where
  "pass3_step now = (\<lambda>(tmp, st).
     (case tmp of None \<Rightarrow> Some (Inl st)
      | Some addr \<Rightarrow> do {
          _ \<leftarrow> dirtree_find st addr;
          let next = map_option di_addr (osi_next di_addr addr (dirtree st));
          (leave, st) \<leftarrow> iterate (climb_step now) (addr, st);
          Some (if leave then Inl st else Inr (next, st))
        }))"

text \<open>The directories that are connected to begin with.\<close>

definition top_dirs :: "bool \<Rightarrow> sysfile list" where
  "top_dirs gfs1 = SysRoot # (if gfs1 then [SysStatfs, SysJindex, SysRindex, SysQuota] else [SysMaster])"

fun mark_connected :: "sysfile list \<Rightarrow> fsck \<Rightarrow> fsck option" where
  "mark_connected [] st = Some st"
| "mark_connected (file # files) st =
     (case sys_ptr file (fk_md st) of None \<Rightarrow> None
      | Some ip \<Rightarrow> mark_connected files
          (case dirtree_find st (in_addr (i_num (vi ip))) of None \<Rightarrow> st | Some di \<Rightarrow> put_dir_info (di\<lparr>checked := True\<rparr>) st))"

definition pass3 :: "u64 \<Rightarrow> fsck \<Rightarrow> (int \<times> fsck) option" where
  "pass3 now st = do {
     st \<leftarrow> mark_connected (top_dirs (sd_gfs1 (fs_sdp (fk_fs st)))) st;
     st \<leftarrow> iterate (pass3_step now) (map_option di_addr (osi_first (dirtree st)), st);
     Some (FSCK_OK, st)
   }"

end
