(* ===== verification/FsckConnect.thy ===== *)
theory FsckConnect
  imports FsckMarks FsckPass3 FsckPass4 FsckPass1b
begin

text \<open>
  What the passes after the first keep of the state (pass1b.c, pass3.c, pass4.c, lost_n_found.c), and that pass 3 leaves no directory
  unchecked. The laws of a condition on the state are those of a locale; one instance is that the maps are well-formed, the other that the
  directories of a set are checked.
\<close>

section \<open>Conditions on the state\<close>

lemma dirtree_find_addr: "dirtree_find st a = Some di \<Longrightarrow> di_addr di = a"
proof -
  have "tree_find key t a = Some x \<Longrightarrow> key x = a" for key :: "'a \<Rightarrow> u64" and t x
    by (induction t) (auto split: if_splits)
  then show "dirtree_find st a = Some di \<Longrightarrow> di_addr di = a" by (simp add: dirtree_find_def)
qed

lemma dirtree_put [simp]: "dirtree (fsck_inode_put ip st) = dirtree st"
  by (simp add: fsck_inode_put_def put_system_inode_def set_fs_def Let_def split: list.split)

lemma dirtree_query: "fsck_query st = Some (r, st') \<Longrightarrow> dirtree st' = dirtree st"
  by (auto simp: fsck_query_def Let_def split: if_splits option.splits)

lemma dirtree_inconsist: "handle_inconsist no links st = Some (r, st') \<Longrightarrow> dirtree st' = dirtree st"
  by (auto simp: handle_inconsist_def dest!: dirtree_query split: bind_splits if_splits)

context walk_pass begin

lemma kept_dir: "J (wst w) \<Longrightarrow> (\<And>r w. J (wst w) \<Longrightarrow> Q (r, w)) \<Longrightarrow> returns Q (check_dir pass w)"
  unfolding check_dir_def by (auto intro!: kept_leaf_blks kept_linear)

end

locale state_kept = fsck_kept J for J :: "fsck \<Rightarrow> bool" +
  assumes kept_fields: "J st \<Longrightarrow> J (st\<lparr>fk_md := md\<rparr>)" "J st \<Longrightarrow> J (st\<lparr>lf_dip := lf\<rparr>)" "J st \<Longrightarrow> J (st\<lparr>inodetree := it\<rparr>)"
      "J st \<Longrightarrow> J (st\<lparr>md_next_inum := i\<rparr>)" "J st \<Longrightarrow> J (st\<lparr>lf_was_created := c\<rparr>)"
      "J st \<Longrightarrow> J (st\<lparr>nlink1map := snd (link1_set (nlink1map st) b v)\<rparr>)" "J st \<Longrightarrow> J (st\<lparr>clink1map := snd (link1_set (clink1map st) b v)\<rparr>)"
    and kept_dup_nodes: "J st \<Longrightarrow> J (put_dup dt st)" "J st \<Longrightarrow> J (dup_delete dt st)"
    and kept_add_ref: "J st \<Longrightarrow> J (snd (add_duplicate_ref a b' t f v' st))"
    and kept_put_dir: "J st \<Longrightarrow> dirtree_find st (di_addr di) = Some di' \<Longrightarrow> (checked di' \<Longrightarrow> checked di) \<Longrightarrow> J (put_dir_info di st)"
    and kept_delete_dir: "J st \<Longrightarrow> J (dirtree_delete di st)"
begin

declare kept_fields [simp]

lemma kept_put_system [simp]: "J st \<Longrightarrow> J (put_system_inode ip st)"
  by (simp add: put_system_inode_def Let_def split: list.split)

lemma kept_puts [simp]:
  "J st \<Longrightarrow> J (fsck_inode_put ip st)" "J st \<Longrightarrow> J (set_fs fs st)" "J st \<Longrightarrow> J (share sys ip st)" "J st \<Longrightarrow> J (put_loaded sys ip st)"
  "J st \<Longrightarrow> J (put_inode_info ii st)"
  by (simp_all add: fsck_inode_put_def set_fs_def share_def put_loaded_def put_inode_info_def)

lemma kept_put_found: "J st \<Longrightarrow> dirtree_find st a = Some di \<Longrightarrow> di_addr di2 = di_addr di \<Longrightarrow> (checked di \<Longrightarrow> checked di2) \<Longrightarrow> J (put_dir_info di2 st)"
  using dirtree_find_addr [of st a di] by (auto intro: kept_put_dir)

lemma kept_put_counts:
  "J st \<Longrightarrow> dirtree_find st a = Some di \<Longrightarrow> J (put_dir_info (di\<lparr>counted_links := k\<rparr>) st)"
  "J st \<Longrightarrow> dirtree_find st a = Some di \<Longrightarrow> J (put_dir_info (di\<lparr>di_nlink := k\<rparr>) st)"
  "J st \<Longrightarrow> dirtree_find st a = Some di \<Longrightarrow> J (put_dir_info (di\<lparr>dotdot_parent := no\<rparr>) st)"
  "J st \<Longrightarrow> dirtree_find st a = Some di \<Longrightarrow> J (put_dir_info (di\<lparr>checked := True\<rparr>) st)"
  by (rule kept_put_found, assumption, assumption, simp_all add: di_addr_def)+

lemma kept_insert: "J st \<Longrightarrow> J (snd (inodetree_insert no st))"
  by (simp add: inodetree_insert_def split_def Let_def)

lemma case_insert: "J st \<Longrightarrow> (\<And>ii st. J st \<Longrightarrow> returns Q (k ii st)) \<Longrightarrow> returns Q (case inodetree_insert no st of (ii, st) \<Rightarrow> k ii st)"
  using kept_insert [of st no] by (cases "inodetree_insert no st") auto

lemma kept_nlink [simp]: "J st \<Longrightarrow> J (snd (set_di_nlink ip st))"
  using kept_insert [of st "i_num (vi ip)"]
  by (auto simp: set_di_nlink_def Let_def split_def intro: kept_put_counts split: option.split)

lemma call_query: "J st \<Longrightarrow> (\<And>r st. J st \<Longrightarrow> Q (r, st)) \<Longrightarrow> returns Q (fsck_query st)"
  by (rule returns_mono [OF kept_query]) auto

lemma call_n_fix: "J st \<Longrightarrow> (\<And>r st. J st \<Longrightarrow> Q (r, st)) \<Longrightarrow> returns Q (check_n_fix_bitmap h b e m st)"
  by (rule returns_mono [OF kept_bitmap]) auto

lemma kept_bits [simp]:
  "J st \<Longrightarrow> J (st\<lparr>nlink1map := snd (link1_set (nlink1map st) b v), clink1map := snd (link1_set (clink1map st) c u)\<rparr>)"
  using kept_fields(7) [of "st\<lparr>nlink1map := snd (link1_set (nlink1map st) b v)\<rparr>" c u] by simp

lemma keeps_incr: "J st \<Longrightarrow> returns (\<lambda>(_, st). J st) (incr_link_count no st)"
  unfolding incr_link_count_def Let_def
  by ((rule case_insert returns_if returns_rules | assumption | simp only: prod.case | (simp add: kept_put_counts; fail) | rule returns_any)+)

lemma keeps_decr: "J st \<Longrightarrow> returns (\<lambda>(_, st). J st) (decr_link_count a st)"
  unfolding decr_link_count_def
  by ((rule returns_if returns_rules | assumption | simp only: prod.case | (simp add: kept_put_counts; fail) | rule returns_any)+)

lemma call_links:
  "J st \<Longrightarrow> (\<And>r st. J st \<Longrightarrow> Q (r, st)) \<Longrightarrow> returns Q (incr_link_count no st)"
  "J st \<Longrightarrow> (\<And>r st. J st \<Longrightarrow> Q (r, st)) \<Longrightarrow> returns Q (decr_link_count a st)"
  by (auto intro: returns_mono [OF keeps_incr] returns_mono [OF keeps_decr])

lemma kept_mark_dir [simp]: "J st \<Longrightarrow> J (case dirtree_find st a of None \<Rightarrow> st | Some di \<Rightarrow> put_dir_info (di\<lparr>checked := True\<rparr>) st)"
  by (cases "dirtree_find st a") (simp_all add: kept_put_counts(4))

lemma call_count_lf:
  assumes "J (snd (dirtree_insert (i_num (vi lf)) (st\<lparr>lf_was_created := True\<rparr>)))" "\<And>st. J st \<Longrightarrow> Q st"
  shows "returns Q (count_new_lf rooti lf st)"
  unfolding count_new_lf_def Let_def
  by (insert assms(1), (rule call_n_fix call_links returns_if returns_rules assms(2) | assumption | simp only: prod.case | (simp; fail) | rule returns_any)+)

end

locale lf_kept = state_kept J for J :: "fsck \<Rightarrow> bool" +
  assumes kept_make_lf: "J st \<Longrightarrow> returns J (make_sure_lf_exists now st)"
begin

lemma call_make_lf: "J st \<Longrightarrow> (\<And>st. J st \<Longrightarrow> Q st) \<Longrightarrow> returns Q (make_sure_lf_exists now st)"
  by (rule returns_mono [OF kept_make_lf]) auto

lemmas pass_calls = call_query call_n_fix call_links call_make_lf

lemma keeps_back_out: "J st \<Longrightarrow> returns J (back_out_dotdot a st)"
  unfolding back_out_dotdot_def Let_def
  by ((rule pass_calls returns_if returns_rules | assumption | simp only: prod.case | (simp; fail) | rule returns_any)+)

lemma call_back_out: "J st \<Longrightarrow> (\<And>st. J st \<Longrightarrow> Q st) \<Longrightarrow> returns Q (back_out_dotdot a st)"
  by (rule returns_mono [OF keeps_back_out]) auto

lemma keeps_add_dotdot: "J st \<Longrightarrow> returns (\<lambda>(_, st). J st) (add_dotdot now sys ip st)"
  unfolding add_dotdot_def Let_def
  by ((rule call_back_out returns_if returns_rules | assumption | simp only: prod.case | (simp; fail) | rule returns_any)+)

lemma call_add_dotdot: "J st \<Longrightarrow> (\<And>r st. J st \<Longrightarrow> Q (r, st)) \<Longrightarrow> returns Q (add_dotdot now sys ip st)"
  by (rule returns_mono [OF keeps_add_dotdot]) auto

lemma keeps_add_to_lf: "J st \<Longrightarrow> returns (\<lambda>(_, st). J st) (add_inode_to_lf now sys ip st)"
  unfolding add_inode_to_lf_def Let_def split_def
  by ((rule pass_calls call_add_dotdot returns_if returns_rules | assumption | simp only: prod.case | (simp; fail) | rule returns_any)+)

lemma call_add_to_lf: "J st \<Longrightarrow> (\<And>r st. J st \<Longrightarrow> Q (r, st)) \<Longrightarrow> returns Q (add_inode_to_lf now sys ip st)"
  by (rule returns_mono [OF keeps_add_to_lf]) auto

lemma kept_remove_dup [simp]: "J st \<Longrightarrow> J (snd (snd (find_remove_dup a b st)))"
  by (auto simp: find_remove_dup_def Let_def kept_dup_nodes split: option.split)

lemma keeps_delete: "J (wst w) \<Longrightarrow> returns (\<lambda>(_, _, w). J (wst w)) (walk_delete b w)"
  unfolding walk_delete_def delete_block_if_notdup_def Let_def
  by (auto simp: split_def intro!: call_n_fix)

lemma call_delete: "J (wst w) \<Longrightarrow> (\<And>r d w. J (wst w) \<Longrightarrow> Q (r, d, w)) \<Longrightarrow> returns Q (walk_delete b w)"
  by (rule returns_mono [OF keeps_delete]) auto

lemma keeps_deletes:
  "J (wst w) \<Longrightarrow> returns (\<lambda>(_, _, _, w). J (wst w)) (delete_metadata h off k w)"
  "J (wst w) \<Longrightarrow> returns (\<lambda>(_, w). J (wst w)) (delete_leaf b w)"
  "J (wst w) \<Longrightarrow> returns (\<lambda>(_, _, w). J (wst w)) (delete_data m b h off w)"
  "J (wst w) \<Longrightarrow> returns (\<lambda>(_, _, w). J (wst w)) (del_eattr_generic b p w)"
  "J (wst w) \<Longrightarrow> returns (\<lambda>(_, _, w). J (wst w)) (delete_eattr_entry bh hdr prev w)"
  "J (wst w) \<Longrightarrow> returns (\<lambda>(_, _, w). J (wst w)) (delete_eattr_extentry i off bh t hdr prev w)"
  unfolding delete_metadata_def delete_leaf_def delete_data_def del_eattr_generic_def delete_eattr_entry_def delete_eattr_extentry_def Let_def
  by ((rule call_delete walk_rules | assumption | simp only: prod.case | (simp; fail) | rule returns_any)+)

lemma wst_dirent_del: "walk_dirent_del h prev dent w = (h', w') \<Longrightarrow> wst w' = wst w"
  by (auto simp: walk_dirent_del_def split: prod.splits)

lemma keeps_dentry: "J (wst w) \<Longrightarrow> returns (\<lambda>(_, _, _, _, w). J (wst w)) (remove_dentry d p h c i w)"
  by (auto simp: remove_dentry_def dest: wst_dirent_del split: prod.split)

lemma wst_add_ref: "J (wst w) \<Longrightarrow> add_ref b t w = (r, w') \<Longrightarrow> J (wst w')"
  using kept_add_ref [of "wst w" "waddr w" b t True True] by (auto simp: add_ref_def split: prod.splits)

lemma keeps_refs:
  "J (wst w) \<Longrightarrow> returns (\<lambda>(_, w). J (wst w)) (check_leaf_refs b w)"
  "J (wst w) \<Longrightarrow> returns (\<lambda>(_, _, _, w). J (wst w)) (check_metalist_refs h off k w)"
  "J (wst w) \<Longrightarrow> returns (\<lambda>(_, _, w). J (wst w)) (check_data_refs m b h off w)"
  "J (wst w) \<Longrightarrow> returns (\<lambda>(_, _, w). J (wst w)) (check_eattr_indir_refs b p w)"
  "J (wst w) \<Longrightarrow> returns (\<lambda>(_, _, w). J (wst w)) (check_eattr_leaf_refs b p w)"
  "J (wst w) \<Longrightarrow> returns (\<lambda>(_, _, w). J (wst w)) (check_eattr_extentry_refs i off2 bh t hdr prev w)"
  unfolding check_leaf_refs_def check_metalist_refs_def check_data_refs_def check_eattr_indir_refs_def check_eattr_leaf_refs_def
    check_eattr_extentry_refs_def Let_def
  by (auto dest: wst_add_ref split: prod.split)

lemma keeps_clone: "J (wst w) \<Longrightarrow> returns (\<lambda>(_, w). J (wst w)) (clone_block b w)"
  unfolding clone_block_def Let_def set_fs_def
  by ((rule walk_rules | assumption | simp only: prod.case | (simp add: kept_fs; fail) | rule returns_any)+)

lemma call_clone: "J (wst w) \<Longrightarrow> (\<And>r w. J (wst w) \<Longrightarrow> Q (r, w)) \<Longrightarrow> returns Q (clone_block b w)"
  by (rule returns_mono [OF keeps_clone]) auto

lemma case_wput: "J (wst w) \<Longrightarrow> (\<And>h w. J (wst w) \<Longrightarrow> returns Q (k h w)) \<Longrightarrow> returns Q (case wput f h w of (h, w) \<Rightarrow> k h w)"
  by (cases "wput f h w") (auto dest: kept_wput)

lemma keeps_clone_data: "J (wst w) \<Longrightarrow> returns (\<lambda>(_, _, w). J (wst w)) (clone_data m b h off w)"
  unfolding clone_data_def Let_def
  by ((rule call_clone case_wput walk_rules | assumption | simp only: prod.case | (simp; fail) | rule returns_any)+)

lemma call_clone_data: "J (wst w) \<Longrightarrow> (\<And>r h w. J (wst w) \<Longrightarrow> Q (r, h, w)) \<Longrightarrow> returns Q (clone_data m b h off w)"
  by (rule returns_mono [OF keeps_clone_data]) auto

end

text \<open>The walks of the passes are instances of the laws of a walk.\<close>

sublocale lf_kept \<subseteq> rd: walk_pass J remove_dentry_fxns
  by unfold_locales (auto simp: remove_dentry_fxns_def no_fxns_def intro: keeps_dentry)

sublocale lf_kept \<subseteq> d4: walk_pass J pass4_fxns_delete
  by unfold_locales (auto simp: pass4_fxns_delete_def no_fxns_def delete_eattr_indir_def delete_eattr_leaf_def intro: keeps_deletes)

sublocale lf_kept \<subseteq> d1b: walk_pass J pass1b_fxns_delete
  by unfold_locales (auto simp: pass1b_fxns_delete_def no_fxns_def delete_eattr_indir_def delete_eattr_leaf_def intro: keeps_deletes)

sublocale lf_kept \<subseteq> f1: walk_pass J find1ref_fxns
  by unfold_locales (auto simp: find1ref_fxns_def no_fxns_def findref_meta_def findref_data_def)

sublocale lf_kept \<subseteq> cl: walk_pass J pass1b_fxns_clone
  by unfold_locales (auto simp: pass1b_fxns_clone_def no_fxns_def clone_check_meta_def intro: keeps_clone_data)

sublocale lf_kept \<subseteq> fr: walk_pass J find_refs
  by unfold_locales (auto simp: find_refs_def no_fxns_def check_eattr_entry_refs_def intro: keeps_refs)


section \<open>Pass 3\<close>

context lf_kept begin

lemma kept_put_walk [simp]: "J (wst w) \<Longrightarrow> J (fsck_inode_put ip (wst w))"
  by simp

lemma call_remove_from_dir: "J st \<Longrightarrow> (\<And>r st. J st \<Longrightarrow> Q (r, st)) \<Longrightarrow> returns Q (remove_dentry_from_dir d b st)"
  unfolding remove_dentry_from_dir_def
  by (auto intro!: rd.kept_dir simp: new_walk_def split: option.split)

lemma keeps_attach: "J st \<Longrightarrow> returns J (attach_dotdot_to now a b c st)"
  unfolding attach_dotdot_to_def Let_def
  by ((rule call_links returns_if returns_rules | assumption | simp only: prod.case | (simp; fail) | rule returns_any)+)

lemma call_attach: "J st \<Longrightarrow> (\<And>st. J st \<Longrightarrow> Q st) \<Longrightarrow> returns Q (attach_dotdot_to now a b c st)"
  by (rule returns_mono [OF keeps_attach]) auto

lemma keeps_reattach: "J st \<Longrightarrow> returns J (reattach now di st)"
  unfolding reattach_def Let_def
  by ((rule call_attach returns_if returns_rules | assumption | simp only: prod.case | (simp add: kept_put_counts; fail) | rule returns_any)+)

lemma call_reattach: "J st \<Longrightarrow> (\<And>st. J st \<Longrightarrow> Q st) \<Longrightarrow> returns Q (reattach now di st)"
  by (rule returns_mono [OF keeps_reattach]) auto

lemma call_dotdot_node: "J st \<Longrightarrow> (\<And>r. Q (r, st)) \<Longrightarrow> returns Q (dotdot_node a st)"
  by (auto simp: dotdot_node_def intro!: returns_rules(3) returns_any)

lemma keeps_mark: "J st \<Longrightarrow> returns (\<lambda>(_, st). J st) (mark_and_return_parent now a st)"
  unfolding mark_and_return_parent_def Let_def
  by ((rule call_reattach call_dotdot_node call_query call_remove_from_dir returns_if returns_rules | assumption | simp only: prod.case
      | (simp add: kept_put_counts; fail) | rule returns_any)+)

lemma call_mark: "J st \<Longrightarrow> (\<And>r st. J st \<Longrightarrow> Q (r, st)) \<Longrightarrow> returns Q (mark_and_return_parent now a st)"
  by (rule returns_mono [OF keeps_mark]) auto

lemma call_mark_free: "J st \<Longrightarrow> (\<And>st. J st \<Longrightarrow> Q st) \<Longrightarrow> returns Q (mark_free a sys ip st)"
  unfolding mark_free_def by (auto intro!: call_n_fix)

lemma keeps_orphan: "J st \<Longrightarrow> returns J (handle_orphan now a st)"
  unfolding handle_orphan_def Let_def
  by ((rule call_mark_free call_query call_add_to_lf returns_if returns_rules | assumption | simp only: prod.case | (simp; fail) | rule returns_any)+)

lemma call_orphan: "J st \<Longrightarrow> (\<And>st. J st \<Longrightarrow> Q st) \<Longrightarrow> returns Q (handle_orphan now a st)"
  by (rule returns_mono [OF keeps_orphan]) auto

lemma kept_climb: "J st \<Longrightarrow> (\<And>r. (case r of Inl (_, st) \<Rightarrow> J st | Inr (_, st) \<Rightarrow> J st) \<Longrightarrow> Q r) \<Longrightarrow> returns Q (climb_step now (a, st))"
  unfolding climb_step_def prod.case
  by ((rule call_mark call_orphan returns_if returns_rules | assumption | simp only: prod.case | (simp; fail) | rule returns_any)+)

lemma kept_climbs: "J st \<Longrightarrow> (\<And>r st. J st \<Longrightarrow> Q (r, st)) \<Longrightarrow> returns Q (iterate (climb_step now) (a, st))"
  by (rule returns_iterate [where I = "\<lambda>(_, st). J st"]) (auto intro!: kept_climb split: sum.splits)

lemma kept_pass3_step: "J st \<Longrightarrow> (\<And>r. (case r of Inl st \<Rightarrow> J st | Inr (_, st) \<Rightarrow> J st) \<Longrightarrow> Q r) \<Longrightarrow> returns Q (pass3_step now (tmp, st))"
  unfolding pass3_step_def prod.case Let_def
  by ((rule kept_climbs returns_if returns_rules | assumption | simp only: prod.case | (simp; fail) | rule returns_any)+)

lemma kept_mark_connected: "J st \<Longrightarrow> returns J (mark_connected files st)"
proof (induction files st rule: mark_connected.induct)
  case (2 f fs st)
  show ?case
  proof (cases "sys_ptr f (fk_md st)")
    case (Some ip)
    show ?thesis using 2 Some kept_put_counts(4) [OF 2(2)] by (auto split: option.split)
  qed simp
qed simp

lemma kept_pass3: "J st \<Longrightarrow> returns (\<lambda>(_, st). J st) (pass3 now st)"
proof -
  have "J st \<Longrightarrow> returns J (iterate (pass3_step now) (tmp, st))" for tmp st
    by (rule returns_iterate [where I = "\<lambda>(_, st). J st"]) (auto intro!: kept_pass3_step split: sum.splits)
  then show "J st \<Longrightarrow> returns (\<lambda>(_, st). J st) (pass3 now st)"
    by (auto simp: pass3_def intro: returns_mono [OF kept_mark_connected])
qed

end

section \<open>Pass 4\<close>

context lf_kept begin

lemma wst_new_walk [simp]: "wst (new_walk st ip p) = st"
  by (simp add: new_walk_def)

lemma call_delete_inode: "J st \<Longrightarrow> (\<And>st. J st \<Longrightarrow> Q st) \<Longrightarrow> returns Q (delete_inode no ip st)"
  unfolding delete_inode_def
  by ((rule d4.kept_inode_eattr d4.kept_metatree walk_rules | assumption | simp only: prod.case | (simp; fail) | rule returns_any)+)

lemma keeps_unlinked: "J st \<Longrightarrow> returns (\<lambda>(_, _, st). J st) (handle_unlinked now no links st)"
  unfolding handle_unlinked_def Let_def
  by ((rule call_delete_inode call_query call_n_fix call_add_to_lf returns_if returns_rules | assumption | simp only: prod.case | (simp; fail) | rule returns_any)+)

lemma call_unlinked: "J st \<Longrightarrow> (\<And>g a st. J st \<Longrightarrow> Q (g, a, st)) \<Longrightarrow> returns Q (handle_unlinked now no links st)"
  by (rule returns_mono [OF keeps_unlinked]) auto

lemma call_inconsist: "J st \<Longrightarrow> (\<And>r st. J st \<Longrightarrow> Q (r, st)) \<Longrightarrow> returns Q (handle_inconsist no links st)"
  unfolding handle_inconsist_def
  by ((rule call_query returns_if returns_rules | assumption | simp only: prod.case | (simp; fail) | rule returns_any)+)

lemma kept_adjust [simp]: "J st \<Longrightarrow> J (snd (adjust_lf_links b st))"
  by (auto simp: adjust_lf_links_def split: option.split)

lemma kept_inode_step:
  "J st \<Longrightarrow> (\<And>r. (case r of Inl (_, st) \<Rightarrow> J st | Inr (_, _, st) \<Rightarrow> J st) \<Longrightarrow> Q r) \<Longrightarrow> returns Q (scan_inode_step now (tmp, lf, st))"
  unfolding scan_inode_step_def prod.case Let_def
  by ((rule call_unlinked call_inconsist returns_if returns_rules | assumption | simp only: prod.case | (simp add: split_def; fail) | rule returns_any)+)

lemma call_inconsist_dir:
  assumes "J st" "\<And>r st'. J st' \<Longrightarrow> dirtree st' = dirtree st \<Longrightarrow> Q (r, st')"
  shows "returns Q (handle_inconsist no links st)"
  using call_inconsist [OF assms(1), of "\<lambda>(_, st). J st" no links] assms(2) dirtree_inconsist [of no links st]
  by (fastforce simp: returns_def)

lemma kept_dir_step:
  "J st \<Longrightarrow> (\<And>r. (case r of Inl (_, st) \<Rightarrow> J st | Inr (_, _, st) \<Rightarrow> J st) \<Longrightarrow> Q r) \<Longrightarrow> returns Q (scan_dir_step now (tmp, lf, st))"
  unfolding scan_dir_step_def prod.case Let_def
  by ((rule call_unlinked call_inconsist_dir returns_if returns_rules | assumption | simp only: prod.case
      | (simp add: split_def kept_put_counts dirtree_find_def; fail) | rule returns_any)+)

lemma kept_nlink1_step: "J st \<Longrightarrow> (\<And>r lf st. J st \<Longrightarrow> Q (r, lf, st)) \<Longrightarrow> returns Q (scan_nlink1_step now b (lf, st))"
  unfolding scan_nlink1_step_def prod.case
  by ((rule call_unlinked returns_if returns_rules | assumption | simp only: prod.case | (simp; fail) | rule returns_any)+)

lemma kept_scans:
  "J st \<Longrightarrow> returns (\<lambda>(_, st). J st) (scan_inode_list now st)"
  "J st \<Longrightarrow> returns (\<lambda>(_, st). J st) (scan_dir_list now st)"
  unfolding scan_inode_list_def scan_dir_list_def
  by (rule returns_iterate [where I = "\<lambda>(_, _, st). J st"];
      auto intro!: kept_inode_step kept_dir_step simp: split_def split: sum.splits)+

lemma kept_scan_nlink1: "J st \<Longrightarrow> returns (\<lambda>(_, st). J st) (scan_nlink1_list now st)"
  unfolding scan_nlink1_list_def
  by (auto intro!: returns_rules(3) returns_for_each [where I = "\<lambda>(_, st). J st"] kept_nlink1_step simp: split_def dest: kept_adjust)

lemma kept_pass4: "J st \<Longrightarrow> returns (\<lambda>(_, st). J st) (pass4 now st)"
  unfolding pass4_def
  by (auto intro!: returns_rules(3) returns_mono [OF kept_scans(1)] returns_mono [OF kept_scans(2)] returns_mono [OF kept_scan_nlink1])

end

section \<open>Pass 1b\<close>

context lf_kept begin

lemma keeps_clone_data_block: "J st \<Longrightarrow> returns J (clone_data_block b a st)"
  unfolding clone_data_block_def Let_def
  by ((rule call_query f1.kept_metatree call_clone_data walk_rules | assumption | simp only: prod.case | (simp; fail) | rule returns_any)+)

lemma keeps_clone_dup_ref: "J st \<Longrightarrow> returns (\<lambda>(_, st). J st) (clone_dup_ref_in_inode ip b st)"
  unfolding clone_dup_ref_in_inode_def
  by (auto intro!: cl.kept_metatree)

lemma call_clone_data_block: "J st \<Longrightarrow> (\<And>st. J st \<Longrightarrow> Q st) \<Longrightarrow> returns Q (clone_data_block b a st)"
  by (rule returns_mono [OF keeps_clone_data_block]) auto

lemma call_clone_dup_ref: "J st \<Longrightarrow> (\<And>r st. J st \<Longrightarrow> Q (r, st)) \<Longrightarrow> returns Q (clone_dup_ref_in_inode ip b st)"
  by (rule returns_mono [OF keeps_clone_dup_ref]) auto

lemma call_drop_entry: "J st \<Longrightarrow> (\<And>st. J st \<Longrightarrow> Q st) \<Longrightarrow> returns Q (drop_entry inval b a st)"
  unfolding drop_entry_def by (auto intro!: returns_any kept_dup_nodes)

lemma kept_delete_links: "J st \<Longrightarrow> J (inodetree_delete ii st)"
  by (simp add: inodetree_delete_def)

lemma kept_forget [simp]: "J st \<Longrightarrow> J (forget_links a st)"
  by (auto simp: forget_links_def Let_def kept_delete_links kept_delete_dir split: option.split)

lemma kept_at_walk [simp]: "wst (w\<lparr>wst := st, wip := ip\<rparr>) = st" "wst (w\<lparr>wst := st\<rparr>) = st"
  by simp_all

lemma call_clear_eattrs: "J (wst w) \<Longrightarrow> (\<And>w. J (wst w) \<Longrightarrow> Q w) \<Longrightarrow> returns Q (clear_eattrs inval b a w)"
  unfolding clear_eattrs_def Let_def
  by ((rule call_drop_entry d1b.kept_inode_eattr walk_rules | assumption | simp only: prod.case | (simp; fail) | rule returns_any)+)

lemma call_bad_inode: "J (wst w) \<Longrightarrow> (\<And>r w. J (wst w) \<Longrightarrow> Q (r, w)) \<Longrightarrow> returns Q (delete_bad_inode inval r b a dh w)"
  unfolding delete_bad_inode_def Let_def
  by ((rule call_clear_eattrs d1b.kept_metatree walk_rules | assumption | simp only: prod.case | (simp; fail) | rule returns_any)+)

lemma call_delete_reference: "J st \<Longrightarrow> (\<And>r st. J st \<Longrightarrow> Q (r, st)) \<Longrightarrow> returns Q (delete_reference inval r q b a dh st)"
  unfolding delete_reference_def Let_def
  by ((rule call_bad_inode returns_if returns_rules | assumption | simp only: prod.case | (simp add: kept_dups; fail) | rule returns_any)+)

lemma call_resolve_entry: "J st \<Longrightarrow> (\<And>r dh st. J st \<Longrightarrow> Q (r, dh, st)) \<Longrightarrow> returns Q (resolve_entry inval ref b rid found dh st)"
  unfolding resolve_entry_def Let_def
  by ((rule call_clone_data_block call_drop_entry call_query call_delete_reference returns_if returns_rules | assumption
      | simp only: prod.case | (simp add: split_def; fail) | rule returns_any)+)

lemma call_resolve_step:
  "J st \<Longrightarrow> (\<And>r. (case r of Inl (_, st) \<Rightarrow> J st | Inr (_, _, _, st) \<Rightarrow> J st) \<Longrightarrow> Q r) \<Longrightarrow>
     returns Q (resolve_step inval ref b (pos, found, dh, st))"
  unfolding resolve_step_def prod.case
  by ((rule call_resolve_entry returns_if returns_rules | assumption | simp only: prod.case | (simp; fail) | rule returns_any)+)

lemma call_resolve: "J st \<Longrightarrow> (\<And>r st. J st \<Longrightarrow> Q (r, st)) \<Longrightarrow> returns Q (resolve_dup_references inval ref b dh st)"
  unfolding resolve_dup_references_def
  by (auto intro!: returns_rules(3) returns_any [of "dupfind st b"] returns_iterate [where I = "\<lambda>(_, _, _, st). J st"] call_resolve_step
      split: sum.splits)

lemma call_if_many: "J st \<Longrightarrow> (\<And>r st. J st \<Longrightarrow> Q (r, st)) \<Longrightarrow> returns Q (resolve_if_many inval ref b (dh, st))"
  unfolding resolve_if_many_def by (auto intro!: call_resolve)

lemma call_ip_bitmap: "J st \<Longrightarrow> (\<And>r st. J st \<Longrightarrow> Q (r, st)) \<Longrightarrow> returns Q (set_ip_bitmap ip st)"
  unfolding set_ip_bitmap_def Let_def by (auto intro!: call_n_fix)

lemma call_repair_type: "J st \<Longrightarrow> (\<And>r st. J st \<Longrightarrow> Q (r, st)) \<Longrightarrow> returns Q (repair_type ref b rid ip st)"
  unfolding repair_type_def Let_def
  by ((rule call_ip_bitmap call_n_fix call_query returns_if returns_rules | assumption | simp only: prod.case | (simp; fail) | rule returns_any)+)

lemma call_last_reference: "J st \<Longrightarrow> (\<And>st. J st \<Longrightarrow> Q st) \<Longrightarrow> returns Q (resolve_last_reference ref b st)"
  unfolding resolve_last_reference_def
  by ((rule call_clone_dup_ref call_repair_type returns_if returns_rules | assumption | simp only: prod.case
      | (simp add: kept_dup_nodes; fail) | rule returns_any)+)

lemma kept_drop_node [simp]: "J st \<Longrightarrow> J (case dt of None \<Rightarrow> st | Some n \<Rightarrow> dup_delete n st)"
  by (simp add: kept_dup_nodes split: option.split)

lemma call_handle_dup: "J st \<Longrightarrow> (\<And>st. J st \<Longrightarrow> Q st) \<Longrightarrow> returns Q (handle_dup_blk b st)"
  unfolding handle_dup_blk_def Let_def
  by ((rule call_if_many call_last_reference call_n_fix returns_if returns_rules(1-4,8) | assumption | simp only: prod.case
      | (simp; fail) | rule returns_any)+)

lemma call_find_ref: "J st \<Longrightarrow> (\<And>r st. J st \<Longrightarrow> Q (r, st)) \<Longrightarrow> returns Q (find_block_ref a st)"
  unfolding find_block_ref_def Let_def
  by ((rule fr.kept_metatree fr.kept_inode_eattr returns_if returns_rules | assumption | simp only: prod.case
      | (erule wst_add_ref [rotated]; simp; fail) | (simp; fail) | rule returns_any)+)

lemma kept_scan_step: "J st \<Longrightarrow> (\<And>r st. J st \<Longrightarrow> Q (r, st)) \<Longrightarrow> returns Q (scan_step i st)"
  unfolding scan_step_def Let_def by (auto intro!: call_find_ref)

lemma kept_resolve_all: "J st \<Longrightarrow> (\<And>r. (case r of Inl st \<Rightarrow> J st | Inr st \<Rightarrow> J st) \<Longrightarrow> Q r) \<Longrightarrow> returns Q (resolve_all_step rc st)"
  unfolding resolve_all_step_def by (auto intro!: call_handle_dup split: option.split)

lemma kept_pass1b: "J st \<Longrightarrow> returns (\<lambda>(_, st). J st) (pass1b st)"
proof -
  have scan: "returns Q (for_each scan_step xs st)" if "J st" "\<And>r st. J st \<Longrightarrow> Q (r, st)" for Q xs st
    by (rule returns_for_each [where I = J]) (use that in \<open>auto intro!: kept_scan_step\<close>)
  have all: "returns Q (iterate (resolve_all_step rc) st)" if "J st" "\<And>st. J st \<Longrightarrow> Q st" for Q rc st
    by (rule returns_iterate [where I = J]) (use that in \<open>auto intro!: kept_resolve_all split: sum.splits\<close>)
  show "J st \<Longrightarrow> returns (\<lambda>(_, st). J st) (pass1b st)"
    unfolding pass1b_def Let_def by (auto intro!: returns_rules(3) scan all split: option.split sum.split)
qed

end

section \<open>The maps\<close>

lemma maps_dup_nodes: "maps_ok n st \<Longrightarrow> maps_ok n (put_dup dt st)" "maps_ok n st \<Longrightarrow> maps_ok n (dup_delete dt st)"
  by (rule maps_ok_nodes; assumption)+

interpretation ms: state_kept "maps_ok n" for n
  by unfold_locales (simp_all add: maps_ok_intro maps_ok_nodes)

text \<open>What is done when there is no lost+found yet, from where its inode was made.\<close>

lemma make_lf_from:
  assumes "lf_dip st \<noteq> None \<Longrightarrow> Q st"
    and "\<And>fs rooti lf i c. returns (\<lambda>st. Q (case dirtree_find st (in_addr (i_num (vi lf))) of None \<Rightarrow> st | Some di \<Rightarrow> put_dir_info (di\<lparr>checked := True\<rparr>) st))
      (let st = snd (set_di_nlink rooti ((set_sys SysRoot (Some rooti) (set_fs fs st))\<lparr>md_next_inum := i, lf_dip := Some lf\<rparr>))
       in if c then count_new_lf rooti lf st else Some st)"
  shows "returns Q (make_sure_lf_exists now st)"
  unfolding make_sure_lf_exists_def Let_def
  by (rule returns_if, simp add: assms(1), ((simp only: returns_simps(2), rule assms(2) [unfolded Let_def]) | rule returns_rules(1,3-5,7-) | simp only: prod.case | rule returns_any)+)

lemma maps_make_lf: "maps_ok n st \<Longrightarrow> returns (maps_ok n) (make_sure_lf_exists now st)"
  by (rule make_lf_from) (auto simp: Let_def intro!: ms.call_count_lf ms.kept_mark_dir)

interpretation ml: lf_kept "maps_ok n" for n
  by unfold_locales (simp add: maps_make_lf)

section \<open>The directories that are checked\<close>

definition checked_in :: "u64 set \<Rightarrow> fsck \<Rightarrow> bool" where
  "checked_in A st \<longleftrightarrow> (\<forall>a \<in> A. \<forall>di. dirtree_find st a = Some di \<longrightarrow> checked di)"

text \<open>Both conditions.\<close>

definition conn :: "u64 \<Rightarrow> u64 set \<Rightarrow> fsck \<Rightarrow> bool" where
  "conn n A st \<longleftrightarrow> maps_ok n st \<and> checked_in A st"

lemma checked_in_frame: "dirtree st' = dirtree st \<Longrightarrow> checked_in A st' = checked_in A st"
  by (simp add: checked_in_def dirtree_find_def)

lemma checked_in_put:
  assumes "tree_ok di_addr (dirtree st)"
  shows "checked_in A (put_dir_info di st) \<longleftrightarrow>
    checked_in (A - {di_addr di}) st \<and> (di_addr di \<in> A \<longrightarrow> dirtree_find st (di_addr di) \<noteq> None \<longrightarrow> checked di)"
  using assms by (auto simp: checked_in_def dirtree_find_def put_dir_info_def kt.find_put)

lemma checked_in_delete: "tree_ok di_addr (dirtree st) \<Longrightarrow> checked_in A st \<Longrightarrow> checked_in A (dirtree_delete di st)"
  by (auto simp: checked_in_def dirtree_find_def dirtree_delete_def kt.find_erase split: if_splits)

lemma conn_frame: "dirtree st' = dirtree st \<Longrightarrow> conn n A st \<Longrightarrow> maps_ok n st' \<Longrightarrow> conn n A st'"
  using checked_in_frame [of st' st A] by (simp add: conn_def)

lemma conn_delete: "conn n A st \<Longrightarrow> conn n A (dirtree_delete di st)"
  by (auto simp: conn_def maps_ok_nodes intro: checked_in_delete maps_ok_trees)

lemma conn_put:
  "conn n A st \<Longrightarrow> dirtree_find st (di_addr di) = Some di' \<Longrightarrow> (checked di' \<Longrightarrow> checked di) \<Longrightarrow> conn n A (put_dir_info di st)"
  by (auto simp: conn_def maps_ok_nodes checked_in_put maps_ok_trees) (auto simp: checked_in_def)

lemma conn_put_checked: "conn n (A - {di_addr di}) st \<Longrightarrow> checked di \<Longrightarrow> conn n A (put_dir_info di st)"
  by (auto simp: conn_def maps_ok_nodes checked_in_put maps_ok_trees)

lemma conn_insert: "conn n A st \<Longrightarrow> in_addr no \<notin> A \<Longrightarrow> conn n A (snd (dirtree_insert no st))"
  using kt.find_insert [of di_addr "dirtree st"] maps_ok_calls(1) [of n st no]
  by (auto simp: conn_def checked_in_def dirtree_find_def dirtree_insert_def Let_def split_def di_addr_def maps_ok_trees split: if_splits)

lemma conn_simps:
  "conn n A st \<Longrightarrow> conn n A (st\<lparr>nlink1map := snd (link1_set (nlink1map st) b v)\<rparr>)"
  "conn n A st \<Longrightarrow> conn n A (st\<lparr>clink1map := snd (link1_set (clink1map st) b v)\<rparr>)"
  "conn n A st \<Longrightarrow> conn n A (put_dup dt st)" "conn n A st \<Longrightarrow> conn n A (dup_delete dt st)"
  "conn n A (st\<lparr>fk_fs := fs\<rparr>) = conn n A st" "conn n A (st\<lparr>inodetree := it\<rparr>) = conn n A st"
  "conn n A (st\<lparr>fk_md := md\<rparr>) = conn n A st" "conn n A (st\<lparr>lf_dip := lf\<rparr>) = conn n A st"
  "conn n A (st\<lparr>md_next_inum := i\<rparr>) = conn n A st" "conn n A (st\<lparr>lf_was_created := c\<rparr>) = conn n A st"
  "conn n A st \<Longrightarrow> conn n A (inodetree_delete ii st)"
  by (auto simp: put_dup_def dup_delete_def inodetree_delete_def conn_def checked_in_def dirtree_find_def
      intro!: maps_ok_intro kt.ok_put kt.ok_erase maps_ok_trees)

lemma conn_dups: "conn n A st \<Longrightarrow> conn n A (delete_all_dups a st)"
  using delete_all_dups_ok [of st a] maps_ok_calls(6) [of n st a] maps_ok_trees(2) [of n st] conn_frame [of "delete_all_dups a st" st n A]
  by (auto simp: conn_def)

lemma conn_add_ref: "conn n A st \<Longrightarrow> conn n A (snd (add_duplicate_ref a b t f v st))"
proof -
  have "dirtree (snd (add_duplicate_ref a b t f v st)) = dirtree st"
    by (auto simp: add_duplicate_ref_def gfs2_dup_set_def put_dup_def dup_delete_def Let_def split_def split: option.split)
  then show "conn n A st \<Longrightarrow> conn n A (snd (add_duplicate_ref a b t f v st))" by (rule conn_frame) (auto simp: conn_def)
qed

lemma conn_query:
  assumes "conn n A st"
  shows "returns (\<lambda>(_, st). conn n A st) (fsck_query st)"
  unfolding returns_def
proof (intro allI impI, clarify)
  fix r st'
  assume r: "fsck_query st = Some (r, st')"
  have "maps_ok n st'" using kept_by_query [of n st] assms r by (simp add: returns_def conn_def)
  then show "conn n A st'" by (rule conn_frame [OF dirtree_query [OF r] assms])
qed

lemma conn_forget: "conn n A st \<Longrightarrow> returns (\<lambda>(_, st). conn n A st) (forget_inode b st)"
  by (auto simp: forget_inode_def Let_def returns_def [of _ "link1_type _ _"] conn_simps conn_delete split: option.split)

lemma conn_bitmap:
  assumes "conn n A st"
  shows "returns (\<lambda>(_, st). conn n A st) (check_n_fix_bitmap h b e m st)"
proof -
  have q: "returns Q (fsck_query st)" if "conn n A st" "\<And>r st. conn n A st \<Longrightarrow> Q (r, st)" for st and Q :: "_ \<Rightarrow> bool"
    by (rule returns_mono [OF conn_query]) (use that in auto)
  have g: "returns Q (forget_inode b st)" if "conn n A st" "\<And>r st. conn n A st \<Longrightarrow> Q (r, st)" for st and Q :: "_ \<Rightarrow> bool"
    by (rule returns_mono [OF conn_forget]) (use that in auto)
  obtain rgd st' where st': "bitmap_group h b st = (rgd, st')" by fastforce
  have "dirtree st' = dirtree st" using st' by (auto simp: bitmap_group_def Let_def split: if_splits)
  then have "conn n A st'" by (rule conn_frame [OF _ assms]) (use maps_ok_calls(7) [of n h b st] st' assms in \<open>simp add: conn_def\<close>)
  then show ?thesis
    unfolding check_n_fix_bitmap_def Let_def st' prod.case
    by - ((rule q g returns_if returns_rules conn_simps(1) | assumption | (simp add: conn_simps; fail) | rule returns_any)+)
qed

interpretation cs: state_kept "conn n A" for n A
  by unfold_locales (simp_all add: conn_simps conn_query conn_bitmap conn_dups conn_add_ref conn_delete conn_put)


lemma conn_mono: "conn n A st \<Longrightarrow> B \<subseteq> A \<Longrightarrow> conn n B st"
  by (auto simp: conn_def checked_in_def)

lemma conn_make_lf:
  assumes "conn n A st"
  shows "returns (conn n A) (make_sure_lf_exists now st)"
proof (rule make_lf_from)
  fix fs rooti i c and lf :: vinode
  let ?a = "in_addr (i_num (vi lf))"
  have mark: "conn n A (case dirtree_find st ?a of None \<Rightarrow> st | Some di \<Rightarrow> put_dir_info (di\<lparr>checked := True\<rparr>) st)"
    if "conn n (A - {?a}) st" for st
  proof (cases "dirtree_find st ?a")
    case None
    then show ?thesis using that by (auto simp: conn_def checked_in_def)
  next
    case (Some di)
    then have "di_addr (di\<lparr>checked := True\<rparr>) = ?a" using dirtree_find_addr [of st ?a di] by (simp add: di_addr_def)
    then show ?thesis using Some that by (auto intro!: conn_put_checked)
  qed
  have less: "conn n (A - {?a}) st" using assms by (rule conn_mono) auto
  define st' where "st' = snd (set_di_nlink rooti ((set_sys SysRoot (Some rooti) (set_fs fs st))\<lparr>md_next_inum := i, lf_dip := Some lf\<rparr>))"
  have less': "conn n (A - {?a}) st'"
    unfolding st'_def using less by (simp add: set_sys_def set_fs_def conn_simps)
  then show "returns (\<lambda>st. conn n A (case dirtree_find st ?a of None \<Rightarrow> st | Some di \<Rightarrow> put_dir_info (di\<lparr>checked := True\<rparr>) st))
      (let st = snd (set_di_nlink rooti ((set_sys SysRoot (Some rooti) (set_fs fs st))\<lparr>md_next_inum := i, lf_dip := Some lf\<rparr>))
       in if c then count_new_lf rooti lf st else Some st)"
    unfolding st'_def [symmetric] Let_def
    by (auto intro!: cs.call_count_lf [where n = n and A = "A - {?a}"] mark conn_insert simp: conn_simps)
qed (use assms in simp)

interpretation cl: lf_kept "conn n A" for n A
  by unfold_locales (rule conn_make_lf)

section \<open>Pass 3 leaves no directory out\<close>

lemma tree_put_twice: "tree_put key x (tree_put key x t) = tree_put key x t"
  by (induction t) (auto simp: tree_put_def)

lemma mark_again:
  assumes "tree_ok di_addr (dirtree st)" "dirtree_find st a = Some di"
  shows "mark_and_return_parent now a (put_dir_info (di\<lparr>checked := True\<rparr>) st) = mark_and_return_parent now a st"
proof -
  let ?d = "di\<lparr>checked := True\<rparr>"
  have a: "di_addr ?d = a" using dirtree_find_addr [OF assms(2)] by (simp add: di_addr_def)
  have "dirtree_find (put_dir_info ?d st) a = Some ?d"
    using assms a by (simp add: dirtree_find_def put_dir_info_def kt.find_put)
  moreover have "put_dir_info ?d (put_dir_info ?d st) = put_dir_info ?d st"
    by (simp add: put_dir_info_def tree_put_twice)
  ultimately show ?thesis using assms(2) by (simp add: mark_and_return_parent_def)
qed

lemma climb_first:
  assumes "conn n (A - {a}) st"
  shows "returns (\<lambda>r. case r of Inl (leave, st) \<Rightarrow> leave \<or> conn n A st | Inr (_, st) \<Rightarrow> conn n A st) (climb_step now (a, st))"
proof (cases "dirtree_find st a")
  case None
  then show ?thesis by (simp add: climb_step_def)
next
  case (Some di)
  have ok: "tree_ok di_addr (dirtree st)" using assms by (auto simp: conn_def intro: maps_ok_trees)
  have a: "di_addr di = a" using dirtree_find_addr [OF Some] .
  show ?thesis
  proof (cases "checked di")
    case True
    then have "conn n A st" using assms Some by (auto simp: conn_def checked_in_def)
    then show ?thesis using Some True by (simp add: climb_step_def)
  next
    case False
    have put: "conn n A (put_dir_info (di\<lparr>checked := True\<rparr>) st)"
      by (rule conn_put_checked) (use assms a in \<open>simp_all add: di_addr_def\<close>)
    have m: "returns Q (mark_and_return_parent now a st)" if "\<And>r st. conn n A st \<Longrightarrow> Q (r, st)" for Q
      using cl.call_mark [OF put, of Q now a] that mark_again [OF ok Some, of now] by simp
    show ?thesis
      unfolding climb_step_def prod.case Some bind.bind_lunit if_not_P [OF False]
      by ((rule m cl.call_orphan [where n = n and A = A] returns_if returns_rules | assumption | simp only: prod.case | (simp; fail))+)
  qed
qed

lemma climbs:
  assumes "conn n (A - {a}) st"
  shows "returns (\<lambda>(leave, st). leave \<or> conn n A st) (iterate (climb_step now) (a, st))"
proof -
  have rest: "returns (\<lambda>(leave, st). leave \<or> conn n A st) (iterate (climb_step now) (b, st))" if "conn n A st" for b st
    by (rule cl.kept_climbs [where n = n and A = A]) (use that in auto)
  show ?thesis
    unfolding iterate.simps [of _ "(a, st)"]
    using climb_first [OF assms, of now] rest by (auto simp: returns_def split: option.split sum.split) blast+
qed

lemma climbs_left: "returns (\<lambda>(leave, st). leave \<longrightarrow> skip_this_pass st \<or> fsck_abort st) (iterate (climb_step now) s)"
proof (rule returns_iterate [where I = "\<lambda>_. True"])
  fix s
  show "returns (\<lambda>r. case r of Inl (leave, st) \<Rightarrow> leave \<longrightarrow> skip_this_pass st \<or> fsck_abort st | Inr s \<Rightarrow> True) (climb_step now s)"
    by (cases s, simp only: climb_step_def prod.case)
      (rule returns_if returns_rules | simp only: prod.case | (simp; fail) | rule returns_any)+
qed simp

definition below :: "u64 option \<Rightarrow> u64 set" where
  "below pos = (case pos of None \<Rightarrow> UNIV | Some k \<Rightarrow> {a. a < k})"

lemma find_next_node:
  fixes f :: "'a \<Rightarrow> u64"
  assumes "sorted_wrt (\<lambda>x y. f x < f y) xs" "x \<in> set xs" "P x"
  shows "\<exists>y. find P xs = Some y \<and> f y \<le> f x"
  using assms by (induction xs) (auto intro: less_imp_le)

lemma no_node_between:
  assumes "tree_ok di_addr t" "b < a" "case osi_next di_addr b t of None \<Rightarrow> True | Some x \<Rightarrow> a < di_addr x"
  shows "tree_find di_addr t a = None"
proof (rule ccontr)
  assume "tree_find di_addr t a \<noteq> None"
  then obtain x where x: "x \<in> set (inorder t)" "di_addr x = a" using tree_find_None [OF assms(1), of a] by auto
  have s: "sorted_wrt (\<lambda>x y. di_addr x < di_addr y) (inorder t)" using assms(1) by (simp add: tree_ok_def)
  have "\<exists>y. find (\<lambda>y. b < di_addr y) (inorder t) = Some y \<and> di_addr y \<le> di_addr x"
    by (rule find_next_node [OF s x(1)]) (use x assms(2) in simp)
  then show False using assms(3) x by (auto simp: osi_next_inorder [OF assms(1)])
qed

lemma pass3_goes_on:
  assumes "conn n (below tmp) st"
  shows "returns (\<lambda>r. case r of Inl st \<Rightarrow> skip_this_pass st \<or> fsck_abort st \<or> conn n UNIV st | Inr (tmp, st) \<Rightarrow> conn n (below tmp) st)
    (pass3_step now (tmp, st))"
proof (cases tmp)
  case None
  then show ?thesis using assms by (simp add: pass3_step_def below_def)
next
  case (Some a)
  let ?next = "map_option di_addr (osi_next di_addr a (dirtree st))"
  have ok: "tree_ok di_addr (dirtree st)" using assms by (auto simp: conn_def intro: maps_ok_trees)
  have "dirtree_find st b = None" if "b \<in> below ?next" "a < b" for b
    unfolding dirtree_find_def
    by (rule no_node_between [OF ok that(2)]) (use that(1) in \<open>auto simp: below_def split: option.splits\<close>)
  moreover have "b < a \<or> a < b" if "b \<in> below ?next - {a}" for b using that by auto
  ultimately have "conn n (below ?next - {a}) st"
    using assms unfolding Some conn_def checked_in_def below_def option.case by fastforce
  from climbs [OF this, of now] climbs_left [of now "(a, st)"] show ?thesis
    unfolding Some pass3_step_def by (auto simp: returns_def Let_def split: bind_splits if_splits)
qed

lemma pass3_reaches:
  assumes "maps_ok n st"
  shows "returns (\<lambda>(_, st). skip_this_pass st \<or> fsck_abort st \<or> conn n UNIV st) (pass3 now st)"
proof -
  have start: "conn n (below (map_option di_addr (osi_first (dirtree st)))) st" if "maps_ok n st" for st
  proof -
    have s: "tree_ok di_addr (dirtree st)" using that by (rule maps_ok_trees)
    have "dirtree_find st b = None" if "b \<in> below (map_option di_addr (osi_first (dirtree st)))" for b
    proof (rule ccontr)
      assume "dirtree_find st b \<noteq> None"
      then obtain x where x: "x \<in> set (inorder (dirtree st))" "di_addr x = b"
        using tree_find_None [OF s, of b] by (auto simp: dirtree_find_def)
      then show False
        using s that by (cases "inorder (dirtree st)") (auto simp: osi_first_inorder below_def tree_ok_def split: if_splits)
    qed
    then show ?thesis using that by (auto simp: conn_def checked_in_def)
  qed
  have loop: "returns (\<lambda>st. skip_this_pass st \<or> fsck_abort st \<or> conn n UNIV st) (iterate (pass3_step now) (tmp, st))"
    if "conn n (below tmp) st" for tmp st
  proof (rule returns_iterate [where I = "\<lambda>(tmp, st). conn n (below tmp) st"])
    show "returns (\<lambda>r. case r of Inl st \<Rightarrow> skip_this_pass st \<or> fsck_abort st \<or> conn n UNIV st | Inr s \<Rightarrow> case s of (tmp, st) \<Rightarrow> conn n (below tmp) st)
        (pass3_step now s)" if "case s of (tmp, st) \<Rightarrow> conn n (below tmp) st" for s
      using that pass3_goes_on [of n _ _ now] by (cases s) simp
  qed (use that in simp)
  show ?thesis
    unfolding pass3_def using loop [OF start] by (auto intro!: returns_mono [OF ml.kept_mark_connected [OF assms]])
qed

text \<open>
  C35. Pass 3 leaves no directory out: whenever it comes to its end without being skipped or interrupted, every directory that is
  then in the tree was visited, so it was found connected or was dealt with. It is so though the pass deletes
  directories, makes lost+found and puts it into the tree that it walks over, and asks for the next directory before it goes up
  from the one at hand.
\<close>

theorem pass3_reaches_all:
  assumes "maps_ok n st" "pass3 now st = Some (r, st')" "\<not> skip_this_pass st'" "\<not> fsck_abort st'"
  shows "\<forall>di \<in> set (inorder (dirtree st')). checked di"
proof -
  have c: "conn n UNIV st'" using pass3_reaches [OF assms(1), of now] assms(2-4) by (simp add: returns_def)
  then have "tree_ok di_addr (dirtree st')" by (auto simp: conn_def intro: maps_ok_trees)
  then show ?thesis using c by (auto simp: conn_def checked_in_def dirtree_find_def tree_find_iff)
qed


section \<open>Directories that refer to each other\<close>

definition check_dirs :: "u64 set \<Rightarrow> fsck \<Rightarrow> fsck" where
  "check_dirs S st = st\<lparr>dirtree := map_tree (\<lambda>di. if di_addr di \<in> S then di\<lparr>checked := True\<rparr> else di) (dirtree st)\<rparr>"

text \<open>The entry that the pass of the entries found and the one named \<open>..\<close> agree, and the parent is a directory.\<close>

definition linked :: "fsck \<Rightarrow> dir_info \<Rightarrow> bool" where
  "linked st di \<longleftrightarrow> treewalk_parent di \<noteq> 0 \<and> in_addr (dotdot_parent di) = treewalk_parent di \<and>
     bitmap_type (fk_fs st) (treewalk_parent di) = int GFS2_BLKST_DINODE \<and> dirtree_find st (treewalk_parent di) \<noteq> None"

definition to_check :: "fsck \<Rightarrow> nat" where
  "to_check st = length (filter (\<lambda>di. \<not> checked di) (inorder (dirtree st)))"

lemma tree_find_map: "(\<And>x. key (f x) = key x) \<Longrightarrow> tree_find key (map_tree f t) a = map_option f (tree_find key t a)"
  by (induction t) auto

lemma tree_find_set: "tree_find key t a = Some x \<Longrightarrow> x \<in> set (inorder t)"
  by (induction t) (auto split: if_splits)

lemma inorder_map: "inorder (map_tree f t) = map f (inorder t)"
  by (induction t) auto

lemma addr_checked [simp]: "di_addr (di\<lparr>checked := b\<rparr>) = di_addr di"
  by (simp add: di_addr_def)

lemma find_check_dirs:
  "dirtree_find (check_dirs S st) a = map_option (\<lambda>di. if di_addr di \<in> S then di\<lparr>checked := True\<rparr> else di) (dirtree_find st a)"
  unfolding dirtree_find_def check_dirs_def by (simp add: tree_find_map)

lemma check_dirs_fields [simp]:
  "fk_fs (check_dirs S st) = fk_fs st" "skip_this_pass (check_dirs S st) = skip_this_pass st" "fsck_abort (check_dirs S st) = fsck_abort st"
  by (simp_all add: check_dirs_def)

lemma check_dirs_ok: "tree_ok di_addr (dirtree st) \<Longrightarrow> tree_ok di_addr (dirtree (check_dirs S st))"
  by (simp add: check_dirs_def tree_ok_def inorder_map sorted_wrt_map if_distrib cong: if_cong)

lemma check_dirs_empty [simp]: "check_dirs {} st = st"
  by (simp add: check_dirs_def tree.map_ident)

lemma put_checked:
  assumes "tree_ok di_addr (dirtree st)" "dirtree_find (check_dirs S st) a = Some di"
  shows "put_dir_info (di\<lparr>checked := True\<rparr>) (check_dirs S st) = check_dirs (insert a S) st"
proof -
  obtain d where d: "dirtree_find st a = Some d" "di = (if a \<in> S then d\<lparr>checked := True\<rparr> else d)" "di_addr d = a"
    using assms(2) dirtree_find_addr [of st a] by (auto simp: find_check_dirs)
  have "x = d" if "x \<in> set (inorder (dirtree st))" "di_addr x = a" for x
    using that d(1) tree_find_iff [OF assms(1), of a x] by (simp add: dirtree_find_def)
  then have "map_tree ((\<lambda>y. if di_addr y = di_addr (di\<lparr>checked := True\<rparr>) then di\<lparr>checked := True\<rparr> else y) \<circ>
      (\<lambda>di. if di_addr di \<in> S then di\<lparr>checked := True\<rparr> else di)) (dirtree st) =
    map_tree (\<lambda>di. if di_addr di \<in> insert a S then di\<lparr>checked := True\<rparr> else di) (dirtree st)"
    using d by (intro tree.map_cong) (auto split: if_splits)
  then show ?thesis by (simp add: put_dir_info_def check_dirs_def tree_put_def tree.map_comp)
qed

lemma fewer_to_check:
  assumes "dirtree_find (check_dirs S st) a = Some di" "\<not> checked di"
  shows "to_check (check_dirs (insert a S) st) < to_check (check_dirs S st)"
proof -
  let ?P = "\<lambda>S di. \<not> checked di \<and> di_addr di \<notin> S"
  have n: "to_check (check_dirs S st) = length (filter (?P S) (inorder (dirtree st)))" for S
    by (auto simp: to_check_def check_dirs_def inorder_map filter_map comp_def intro!: arg_cong [where f = length] filter_cong)
  obtain d where f: "dirtree_find st a = Some d" "di = (if di_addr d \<in> S then d\<lparr>checked := True\<rparr> else d)"
    using assms(1) by (auto simp: find_check_dirs)
  have in_tree: "d \<in> set (inorder (dirtree st))" "di_addr d = a"
    using f(1) tree_find_set [of di_addr "dirtree st" a d] dirtree_find_addr [of st a d] by (simp_all add: dirtree_find_def)
  moreover have "?P S d" using f(2) assms(2) by (cases "di_addr d \<in> S") auto
  ultimately have d: "d \<in> set (inorder (dirtree st))" "di_addr d = a" "?P S d" by auto
  have e: "filter (?P (insert a S)) (filter (?P S) xs) = filter (?P (insert a S)) xs" for xs by (auto intro: filter_cong)
  have "length (filter (?P (insert a S)) (filter (?P S) (inorder (dirtree st)))) < length (filter (?P S) (inorder (dirtree st)))"
    by (rule length_filter_less [of d]) (use d in auto)
  then show ?thesis unfolding n e .
qed

lemma climb_linked:
  assumes "tree_ok di_addr (dirtree st)" "\<forall>di \<in> set (inorder (dirtree st)). \<not> checked di \<longrightarrow> linked st di"
    "\<not> skip_this_pass st" "\<not> fsck_abort st" "dirtree_find st a \<noteq> None"
  shows "\<exists>r. climb_step now (a, check_dirs S st) = Some r \<and>
    (case r of Inl (leave, s) \<Rightarrow> \<not> leave \<and> s = check_dirs S st
     | Inr (b, s) \<Rightarrow> dirtree_find st b \<noteq> None \<and> s = check_dirs (insert a S) st \<and> to_check s < to_check (check_dirs S st))"
proof -
  obtain d where d: "dirtree_find st a = Some d" "di_addr d = a" using assms(5) dirtree_find_addr [of st a] by auto
  let ?di = "if a \<in> S then d\<lparr>checked := True\<rparr> else d"
  have di: "dirtree_find (check_dirs S st) a = Some ?di" using d by (simp add: find_check_dirs)
  show ?thesis
  proof (cases "checked ?di")
    case True
    then show ?thesis using di by (simp add: climb_step_def)
  next
    case False
    have "d \<in> set (inorder (dirtree st))" using d(1) assms(1) by (simp add: dirtree_find_def tree_find_iff)
    then have l: "linked st d" "a \<notin> S" using assms(2) False by (auto split: if_splits)
    have put: "put_dir_info (d\<lparr>checked := True\<rparr>) (check_dirs S st) = check_dirs (insert a S) st"
      using put_checked [OF assms(1) di] l(2) by simp
    obtain e where e: "dirtree_find st (treewalk_parent d) = Some e" "di_addr e = treewalk_parent d"
      using l(1) dirtree_find_addr [of st] by (auto simp: linked_def)
    have "mark_and_return_parent now a (check_dirs S st) = Some (Some (treewalk_parent d), check_dirs (insert a S) st)"
      using l di put e d by (simp add: mark_and_return_parent_def linked_def dotdot_node_def find_check_dirs)
    then show ?thesis
      using di False l(2) e assms(3,4) fewer_to_check [OF di False] by (simp add: climb_step_def)
  qed
qed


text \<open>The way up from a directory ends, and so does the walk over the directories.\<close>

lemma climbs_linked:
  assumes "tree_ok di_addr (dirtree st)" "\<forall>di \<in> set (inorder (dirtree st)). \<not> checked di \<longrightarrow> linked st di"
    "\<not> skip_this_pass st" "\<not> fsck_abort st" "dirtree_find st a \<noteq> None"
  shows "\<exists>S'. iterate (climb_step now) (a, check_dirs S st) = Some (False, check_dirs S' st)"
proof -
  let ?I = "\<lambda>(b, s). dirtree_find st b \<noteq> None \<and> s \<in> range (\<lambda>S. check_dirs S st)"
  note step = climb_linked [OF assms(1-4), of _ now]
  have start: "?I (a, check_dirs S st)" using assms(5) by auto
  have "\<exists>r. iterate (climb_step now) (a, check_dirs S st) = Some r"
  proof (rule iterate_ends [where I = ?I and m = "\<lambda>(_, s). to_check s", OF start])
    fix s
    assume "?I s"
    then obtain b T where s: "s = (b, check_dirs T st)" "dirtree_find st b \<noteq> None" by (cases s) auto
    show "\<exists>r. climb_step now s = Some r \<and> (\<forall>s'. r = Inr s' \<longrightarrow> ?I s' \<and> (case s' of (_, s) \<Rightarrow> to_check s) < (case s of (_, s) \<Rightarrow> to_check s))"
    proof -
      obtain r where r: "climb_step now s = Some r"
        "case r of Inl (leave, s) \<Rightarrow> \<not> leave \<and> s = check_dirs T st
         | Inr (c, s) \<Rightarrow> dirtree_find st c \<noteq> None \<and> s = check_dirs (insert b T) st \<and> to_check s < to_check (check_dirs T st)"
        using step [OF s(2), of T] s(1) by auto
      then show ?thesis unfolding s by (cases r) auto
    qed
  qed
  then obtain r where r: "iterate (climb_step now) (a, check_dirs S st) = Some r" by auto
  then have "\<exists>S'. r = (False, check_dirs S' st)"
  proof (rule iterate_inv [where I = ?I, OF _ start])
    fix s r
    assume "?I s" and e: "climb_step now s = Some (Inl r)"
    then obtain b T where s: "s = (b, check_dirs T st)" "dirtree_find st b \<noteq> None" by (cases s) auto
    show "\<exists>S'. r = (False, check_dirs S' st)" using step [OF s(2), of T] e unfolding s by (cases r) auto
  next
    fix s s'
    assume "?I s" and e: "climb_step now s = Some (Inr s')"
    then obtain b T where s: "s = (b, check_dirs T st)" "dirtree_find st b \<noteq> None" by (cases s) auto
    show "?I s'" using step [OF s(2), of T] e unfolding s by (cases s') auto
  qed
  then show ?thesis using r by auto
qed

lemma osi_next_later: "tree_ok key t \<Longrightarrow> osi_next key k t = Some x \<Longrightarrow> x \<in> set (inorder t) \<and> k < key x"
  using osi_next_inorder [of key t k] by (auto simp: find_Some_iff simp del: set_inorder)

lemma pass3_loop_linked:
  assumes "tree_ok di_addr (dirtree st)" "\<forall>di \<in> set (inorder (dirtree st)). \<not> checked di \<longrightarrow> linked st di"
    "\<not> skip_this_pass st" "\<not> fsck_abort st"
  shows "\<exists>S. iterate (pass3_step now) (map_option di_addr (osi_first (dirtree st)), st) = Some (check_dirs S st)"
proof -
  let ?I = "\<lambda>(pos, s). (\<forall>a. pos = Some a \<longrightarrow> dirtree_find st a \<noteq> None) \<and> s \<in> range (\<lambda>S. check_dirs S st)"
  let ?m = "\<lambda>(pos, s). case pos of None \<Rightarrow> 0 | Some k \<Rightarrow> length (filter (\<lambda>di. k \<le> di_addr di) (inorder (dirtree st)))"
  let ?addrs = "di_addr ` set (inorder (dirtree st))"
  have known: "dirtree_find st a \<noteq> None \<longleftrightarrow> a \<in> ?addrs" for a
    using tree_find_None [OF assms(1), of a] by (auto simp: dirtree_find_def)
  have step: "\<exists>r. pass3_step now s = Some r \<and> (case r of Inl s \<Rightarrow> s \<in> range (\<lambda>S. check_dirs S st) | Inr s' \<Rightarrow> ?I s' \<and> ?m s' < ?m s)" if "?I s" for s
  proof -
    obtain pos S where s: "s = (pos, check_dirs S st)" "\<forall>a. pos = Some a \<longrightarrow> dirtree_find st a \<noteq> None"
    proof -
      obtain pos t where "s = (pos, t)" by fastforce
      then show ?thesis using that [of pos] \<open>?I s\<close> by auto
    qed
    show ?thesis
    proof (cases pos)
      case None
      then show ?thesis unfolding s by (auto simp: pass3_step_def)
    next
      case (Some a)
      then obtain S' where c: "iterate (climb_step now) (a, check_dirs S st) = Some (False, check_dirs S' st)"
        using climbs_linked [OF assms, where a = a and S = S and now = now] s(2) by auto
      let ?t = "dirtree (check_dirs S st)"
      let ?next = "map_option di_addr (osi_next di_addr a ?t)"
      have addrs: "di_addr x \<in> ?addrs" if "x \<in> set (inorder ?t)" for x
        using that by (auto simp: check_dirs_def inorder_map)
      have next_ok: "b \<in> ?addrs \<and> a < b" if "?next = Some b" for b
        using that osi_next_later [OF check_dirs_ok [OF assms(1)], where k = a] addrs by (auto simp del: set_inorder)
      have less: "?m (?next, s2) < ?m (Some a, s2)" for s2
      proof -
        obtain d where d: "d \<in> set (inorder (dirtree st))" "di_addr d = a" using known [of a] s(2) Some by auto
        have e: "filter (\<lambda>di. b \<le> di_addr di) (filter (\<lambda>di. a \<le> di_addr di) xs) = filter (\<lambda>di. b \<le> di_addr di) xs"
          if "a < b" for b and xs :: "dir_info list" using that by (auto intro: filter_cong)
        have "length (filter (\<lambda>di. b \<le> di_addr di) (inorder (dirtree st))) < length (filter (\<lambda>di. a \<le> di_addr di) (inorder (dirtree st)))"
          if "a < b" for b
          using length_filter_less [of d "filter (\<lambda>di. a \<le> di_addr di) (inorder (dirtree st))" "\<lambda>di. b \<le> di_addr di"] d that
          unfolding e [OF that] by auto
        moreover have "filter (\<lambda>di. a \<le> di_addr di) (inorder (dirtree st)) \<noteq> []" using d by (auto simp: filter_empty_conv)
        ultimately show ?thesis using next_ok by (cases ?next) auto
      qed
      obtain y where y: "dirtree_find st a = Some y" using s(2) Some by auto
      have "pass3_step now s = Some (Inr (?next, check_dirs S' st))"
        unfolding s Some pass3_step_def using c y by (simp add: find_check_dirs Let_def)
      moreover have "?I (?next, check_dirs S' st)" using next_ok known by (auto simp del: set_inorder)
      ultimately show ?thesis using less [of "check_dirs S st"] unfolding s Some by simp
    qed
  qed
  have start: "?I (map_option di_addr (osi_first (dirtree st)), st)"
  proof -
    have "x \<in> set (inorder (dirtree st))" if "osi_first (dirtree st) = Some x" for x
      using that by (cases "inorder (dirtree st)") (auto simp: osi_first_inorder simp del: set_inorder split: if_splits)
    moreover have "st \<in> range (\<lambda>S. check_dirs S st)" using check_dirs_empty [of st] by (metis rangeI)
    ultimately show ?thesis using known by auto
  qed
  have "\<exists>r. iterate (pass3_step now) (map_option di_addr (osi_first (dirtree st)), st) = Some r"
  proof (rule iterate_ends [where I = ?I and m = ?m, OF start])
    fix s
    assume "?I s"
    then obtain r where r: "pass3_step now s = Some r" "case r of Inl s \<Rightarrow> s \<in> range (\<lambda>S. check_dirs S st) | Inr s' \<Rightarrow> ?I s' \<and> ?m s' < ?m s"
      using step by blast
    show "\<exists>r. pass3_step now s = Some r \<and> (\<forall>s'. r = Inr s' \<longrightarrow> ?I s' \<and> ?m s' < ?m s)"
      by (rule exI [of _ r]) (use r in \<open>auto simp del: split_paired_All\<close>)
  qed
  then obtain r where r: "iterate (pass3_step now) (map_option di_addr (osi_first (dirtree st)), st) = Some r" by auto
  then have "r \<in> range (\<lambda>S. check_dirs S st)"
  proof (rule iterate_inv [where I = ?I, OF _ start])
    fix s r
    assume "?I s" and e: "pass3_step now s = Some (Inl r)"
    show "r \<in> range (\<lambda>S. check_dirs S st)" using step [OF \<open>?I s\<close>] unfolding e by auto
  next
    fix s s'
    assume "?I s" and e: "pass3_step now s = Some (Inr s')"
    show "?I s'" using step [OF \<open>?I s\<close>] unfolding e by simp
  qed
  then show ?thesis using r by auto
qed

lemma check_dirs_twice: "check_dirs S (check_dirs T st) = check_dirs (S \<union> T) st"
proof -
  have "(\<lambda>di. if di_addr di \<in> S then di\<lparr>checked := True\<rparr> else di) \<circ> (\<lambda>di. if di_addr di \<in> T then di\<lparr>checked := True\<rparr> else di) =
      (\<lambda>di. if di_addr di \<in> S \<union> T then di\<lparr>checked := True\<rparr> else di)" by (rule ext) simp
  then show ?thesis by (simp add: check_dirs_def tree.map_comp)
qed

lemma mark_connected_checks:
  assumes "tree_ok di_addr (dirtree st)" "mark_connected files (check_dirs S st) = Some st1"
  shows "\<exists>T. st1 = check_dirs T st"
  using assms(2)
proof (induction files arbitrary: S)
  case (Cons f fs)
  then obtain ip where ip: "sys_ptr f (fk_md (check_dirs S st)) = Some ip" by (auto split: option.splits)
  show ?case
  proof (cases "dirtree_find (check_dirs S st) (in_addr (i_num (vi ip)))")
    case None
    then show ?thesis using Cons ip by auto
  next
    case (Some di)
    then show ?thesis using Cons ip put_checked [OF assms(1) Some] by auto
  qed
qed auto

text \<open>
  C36. Directories whose entries agree are accepted: when the pass of the entries found each directory in the parent that its
  entry .. names, and every parent is in the tree and a dinode in the bitmaps, pass 3 always ends, asks nothing and changes nothing
  but the marks. It is enough that each agrees with its parent. Directories that are each other's parents pass as well, though
  no way leads from them to the root, as the example shows.
\<close>

theorem pass3_accepts_linked:
  assumes "maps_ok n st" "mark_connected (top_dirs (sd_gfs1 (fs_sdp (fk_fs st)))) st = Some st1" "\<not> skip_this_pass st" "\<not> fsck_abort st"
    "\<forall>di \<in> set (inorder (dirtree st1)). \<not> checked di \<longrightarrow> linked st1 di"
  shows "pass3 now st = Some (FSCK_OK, check_dirs UNIV st)"
proof -
  have ok: "tree_ok di_addr (dirtree st)" using assms(1) by (rule maps_ok_trees)
  obtain T where T: "st1 = check_dirs T st"
    using mark_connected_checks [OF ok, of _ "{}" st1] assms(2) by auto
  obtain S where S: "iterate (pass3_step now) (map_option di_addr (osi_first (dirtree st1)), st1) = Some (check_dirs S st1)"
    using pass3_loop_linked [OF _ assms(5)] check_dirs_ok [OF ok, of T] assms(3,4) T by auto
  then have r: "pass3 now st = Some (FSCK_OK, check_dirs (S \<union> T) st)"
    using assms(2) T by (simp add: pass3_def check_dirs_twice)
  have c: "conn n UNIV (check_dirs (S \<union> T) st)" using pass3_reaches [OF assms(1), of now] r assms(3,4) by (simp add: returns_def)
  have same: "di\<lparr>checked := True\<rparr> = di" if "di \<in> set (inorder (dirtree st))" "di_addr di \<notin> S \<union> T" for di
  proof -
    have "dirtree_find st (di_addr di) = Some di" using that(1) tree_find_iff [OF ok, of "di_addr di" di] by (simp add: dirtree_find_def)
    then have "dirtree_find (check_dirs (S \<union> T) st) (di_addr di) = Some di" using that(2) by (simp add: find_check_dirs)
    then have "checked di" using c unfolding conn_def checked_in_def by blast
    then show ?thesis by simp
  qed
  have "map_tree (\<lambda>di. if di_addr di \<in> S \<union> T then di\<lparr>checked := True\<rparr> else di) (dirtree st) =
      map_tree (\<lambda>di. if di_addr di \<in> UNIV then di\<lparr>checked := True\<rparr> else di) (dirtree st)"
    by (rule tree.map_cong) (use same in auto)
  then have "check_dirs (S \<union> T) st = check_dirs UNIV st"
    by (simp add: check_dirs_def)
  then show ?thesis using r by simp
qed


text \<open>Two directories of which each is in the other one, beside a root.\<close>

definition dinodes_example :: rgrp_tree where
  "dinodes_example = rgrp_example\<lparr>bits := [\<lparr>bi_data = Live (replicate 512 255), bi_offset = 128, bi_start = 0, bi_len = 4, bi_modified = False\<rparr>]\<rparr>"

definition dir_example :: "u64 \<Rightarrow> u64 \<Rightarrow> dir_info" where
  "dir_example a parent = \<lparr>dinode = \<lparr>in_formal_ino = a, in_addr = a\<rparr>, treewalk_parent = parent,
     dotdot_parent = \<lparr>in_formal_ino = parent, in_addr = parent\<rparr>, di_nlink = 2, counted_links = 2, checked = False\<rparr>"

definition inode_at_example :: "u64 \<Rightarrow> vinode" where
  "inode_at_example a = \<lparr>vi = inode_zero\<lparr>i_num := \<lparr>in_formal_ino = a, in_addr = a\<rparr>\<rparr>,
     vbh = \<lparr>b_blocknr = a, b_data = replicate 512 0, b_modified = False\<rparr>, vown = False\<rparr>"

definition loop_example :: fsck where
  "loop_example = (fsck_start (fs_example\<lparr>fs_rgtree := Node Leaf dinodes_example Leaf\<rparr>) 400)\<lparr>
     fk_md := no_inodes\<lparr>master_dir := Some (inode_at_example 204), md_rooti := Some (inode_at_example 207)\<rparr>,
     dirtree := Node (Node Leaf (dir_example 205 206) Leaf) (dir_example 206 205) (Node Leaf (dir_example 207 0) Leaf)\<rparr>"

text \<open>Pass 3 with a root only.\<close>

definition root_example :: fsck where
  "root_example = loop_example\<lparr>dirtree := Node Leaf (dir_example 207 0) Leaf\<rparr>"

theorem pass3_reaches_all_witness:
  "\<exists>r st'. pass3 7 root_example = Some (r, st') \<and> (\<forall>di \<in> set (inorder (dirtree st')). checked di)"
proof -
  let ?st = "put_dir_info ((dir_example 207 0)\<lparr>checked := True\<rparr>) root_example"
  have ok: "maps_ok 400 root_example"
    by (simp add: maps_ok_def root_example_def loop_example_def fsck_start_def create_laws tree_ok_def)
  have m: "mark_connected (top_dirs (sd_gfs1 (fs_sdp (fk_fs root_example)))) root_example = Some ?st"
    by (simp add: top_dirs_def root_example_def loop_example_def fsck_start_def fs_example_def sbd_example_def no_inodes_def inode_at_example_def
      put_dir_info_def tree_put_def dir_example_def di_addr_def dirtree_find_def)
  have d: "dirtree ?st = Node Leaf ((dir_example 207 0)\<lparr>checked := True\<rparr>) Leaf" "\<not> skip_this_pass ?st" "\<not> fsck_abort ?st"
    by (simp_all add: put_dir_info_def tree_put_def root_example_def loop_example_def fsck_start_def)
  have "iterate (climb_step 7) (207, ?st) = Some (False, ?st)"
    by (subst iterate.simps) (simp add: climb_step_def dirtree_find_def d, simp add: dir_example_def di_addr_def)
  moreover have "dirtree_find ?st 207 = Some ((dir_example 207 0)\<lparr>checked := True\<rparr>)" "osi_next di_addr 207 (dirtree ?st) = None"
    by (simp_all add: dirtree_find_def d) (simp_all add: dir_example_def di_addr_def)
  ultimately have "pass3_step 7 (Some 207, ?st) = Some (Inr (None, ?st))" "pass3_step 7 (None, ?st) = Some (Inl ?st)"
    by (simp_all add: pass3_step_def)
  then have "iterate (pass3_step 7) (Some 207, ?st) = Some ?st"
    by (simp add: iterate.simps [of "pass3_step 7"])
  then have p: "pass3 7 root_example = Some (FSCK_OK, ?st)"
    unfolding pass3_def m bind.bind_lunit d by (simp add: dir_example_def di_addr_def)
  then show ?thesis using pass3_reaches_all [OF ok p d(2,3)] by blast
qed

theorem pass3_accepts_linked_witness:
  "pass3 7 loop_example = Some (FSCK_OK, check_dirs UNIV loop_example)"
proof -
  have b: "bitmap_type (fk_fs loop_example) a = int GFS2_BLKST_DINODE" if "a \<in> {205, 206}" for a
  proof -
    have "get_bitmap sbd_example 205 dinodes_example = 3" "get_bitmap sbd_example 206 dinodes_example = 3"
      by code_simp+
    moreover have "rt_addr dinodes_example = 200" "rt_data0 dinodes_example = 201" "rt_data dinodes_example = 16"
      by (simp_all add: dinodes_example_def)
    ultimately show ?thesis
      using that by (auto simp: bitmap_type_def lgfs2_get_bitmap_def loop_example_def fsck_start_def fs_example_def rgrp_contains_block_def)
  qed
  have ok: "maps_ok 400 loop_example"
    by (simp add: maps_ok_def loop_example_def fsck_start_def create_laws tree_ok_def dir_example_def di_addr_def)
  have m: "mark_connected (top_dirs (sd_gfs1 (fs_sdp (fk_fs loop_example)))) loop_example = Some (check_dirs {207} loop_example)"
    by (simp add: top_dirs_def loop_example_def fsck_start_def fs_example_def sbd_example_def no_inodes_def inode_at_example_def
      check_dirs_def put_dir_info_def tree_put_def dir_example_def di_addr_def dirtree_find_def)
  show ?thesis
    by (rule pass3_accepts_linked [OF ok m])
      (use b [of 205] b [of 206] in \<open>simp_all add: linked_def find_check_dirs loop_example_def fsck_start_def check_dirs_def dir_example_def di_addr_def dirtree_find_def\<close>)
qed

section \<open>Pass 1b that does not end\<close>

text \<open>
  C37. Pass 1b does not end when it is left before it has dealt with every duplicate: while the pass is to be skipped, or an error
  was found, a block is still first in the tree of duplicates and nothing takes it out, so the loop over the tree goes round on the same
  state for ever. It is so when the user skips the pass.
\<close>

theorem pass1b_skipped_hangs:
  assumes "dup_blocks st \<noteq> Leaf" "skip_this_pass st \<or> rc \<noteq> 0"
  shows "resolve_all_step rc st = Some (Inr st) \<and> iterate (resolve_all_step rc) st = None \<and> (skip_this_pass st \<longrightarrow> pass1b st = None)"
proof -
  obtain dt where dt: "osi_first (dup_blocks st) = Some dt" using assms(1) by (auto simp: osi_first_inorder)
  have loop: "iterate (resolve_all_step rc) st = None" if "skip_this_pass st \<or> rc \<noteq> 0" for rc
    by (rule iterate_loops [where I = "\<lambda>s. s = st"]) (use that dt in \<open>auto simp: resolve_all_step_def\<close>)
  have "\<exists>r. for_each scan_step xs st = Some (r, st) \<and> (r = None \<or> r = Some (Inl 0))" if "skip_this_pass st" for xs
    using that by (cases xs) (auto simp: scan_step_def)
  moreover have "pass1b st = None" if "for_each scan_step (map of_nat [0..<unat (last_fs_block st)]) st = Some (r, st)"
      "r = None \<or> r = Some (Inl 0)" "skip_this_pass st" for r
    using that loop [of 0] assms(1) by (auto simp: pass1b_def)
  ultimately have "pass1b st = None" if "skip_this_pass st" using that by blast
  then show ?thesis using loop assms(2) dt by (auto simp: resolve_all_step_def)
qed

text \<open>One block with two references.\<close>

definition dup_example :: fsck where
  "dup_example = (fsck_start fs_example 400)\<lparr>skip_this_pass := True, dup_blocks := Node Leaf \<lparr>REF1_FOUND = True, REF1_IS_DUPL = False, refs = 2, dup_block = 205,
     ref_inode_list = [], ref_invinode_list = []\<rparr> Leaf\<rparr>"

theorem pass1b_skipped_hangs_witness: "pass1b dup_example = None"
  using pass1b_skipped_hangs [of dup_example 0] by (simp add: dup_example_def fsck_start_def)

end
