(* ===== verification/FsckKeep2.thy ===== *)
theory FsckKeep2
  imports FsckConnect FsckPass2
begin

text \<open>
  What the second pass keeps of the state (pass2.c): the conditions of the locale \<open>lf_kept\<close>, for the checks of the entries, the
  repair of leaves and hash tables, the per-node files and the walk over the directories.
\<close>

lemma returns_applied: "(\<And>a b. p = (a, b) \<Longrightarrow> returns Q (f a b w)) \<Longrightarrow> returns Q ((case p of (a, b) \<Rightarrow> f a b) w)"
  by (cases p) simp

section \<open>Entries\<close>

context lf_kept begin

lemma call_on_shared:
  assumes "J (wst w)" "\<And>st. J st \<Longrightarrow> returns (\<lambda>(_, st). J st) (f st)" "\<And>x w'. J (wst w') \<Longrightarrow> Q (x, w')"
  shows "returns Q (on_shared f w)"
  using returns_mono [OF assms(2), of "share (is_sys (wst w) (wip w)) (wip w) (wst w)"] assms(1,3)
  by (auto simp: on_shared_def Let_def split_def)

lemma call_on_fs: "J (wst w) \<Longrightarrow> (\<And>x w'. J (wst w') \<Longrightarrow> Q (x, w')) \<Longrightarrow> returns Q (on_fs f w)"
  unfolding on_fs_def by (auto simp: split_def intro!: returns_any)

lemma wst_on_blocks [simp]: "wst (on_blocks g w) = wst w"
  by (simp add: on_blocks_def)

lemma wst_count [simp]: "wst (on_priv f w) = wst w" "wst (count_entry w) = wst w"
  by (simp_all add: on_priv_def count_entry_def)

lemma kept_set_parent [simp]: "J st \<Longrightarrow> J (snd (set_parent_dir c p st))"
  by (auto simp: set_parent_dir_def di_addr_def intro: kept_put_found split: option.split)

lemma call_dotdot: "J st \<Longrightarrow> (\<And>r st. J st \<Longrightarrow> Q (r, st)) \<Longrightarrow> returns Q (set_dotdot_dir c p st)"
  unfolding set_dotdot_dir_def
  by (auto simp: kept_put_counts intro!: returns_any split: option.split)

lemma call_on_links: "J (wst w) \<Longrightarrow> (\<And>x w'. J (wst w') \<Longrightarrow> Q (x, w')) \<Longrightarrow> returns Q (on_state (incr_link_count no) w)"
  "J (wst w) \<Longrightarrow> (\<And>x w'. J (wst w') \<Longrightarrow> Q (x, w')) \<Longrightarrow> returns Q (on_state (decr_link_count a) w)"
  by (rule kept_on_state; auto intro!: call_links)+

lemmas entry_rules = call_on_links call_on_fs walk_rules

lemma call_bad_formal: "J (wst w) \<Longrightarrow> (\<And>r h w. J (wst w) \<Longrightarrow> Q (r, h, w)) \<Longrightarrow> returns Q (bad_formal_ino d e n q de bh w)"
  unfolding bad_formal_ino_def Let_def
  by ((rule case_wput entry_rules | assumption | simp only: prod.case | (simp; fail) | rule returns_any)+)

lemma call_leaf_depth: "J (wst w) \<Longrightarrow> (\<And>r h w. J (wst w) \<Longrightarrow> Q (r, h, w)) \<Longrightarrow> returns Q (check_leaf_depth b n bh w)"
  unfolding check_leaf_depth_def Let_def
  by ((rule walk_rules | assumption | simp only: prod.case | (simp; fail) | rule returns_any)+)

end

sublocale lf_kept \<subseteq> ea: walk_pass J delete_eattrs
  by unfold_locales (auto simp: delete_eattrs_def no_fxns_def delete_eattr_indir_def delete_eattr_leaf_def intro: keeps_deletes)

sublocale lf_kept \<subseteq> d2: walk_pass J pass2_fxns_delete
  by unfold_locales (auto simp: pass2_fxns_delete_def no_fxns_def delete_eattr_indir_def delete_eattr_leaf_def intro: keeps_deletes)

context lf_kept begin

lemma call_drop_eattrs: "J (wst w) \<Longrightarrow> (\<And>w. J (wst w) \<Longrightarrow> Q w) \<Longrightarrow> returns Q (drop_eattrs a w)"
  unfolding drop_eattrs_def
  by ((rule ea.kept_inode_eattr walk_rules | assumption | simp only: prod.case | (simp; fail) | rule returns_any)+)

lemma call_entry_inode: "J (wst w) \<Longrightarrow> (\<And>r w. J (wst w) \<Longrightarrow> Q (r, w)) \<Longrightarrow> returns Q (check_entry_inode e d w)"
  unfolding check_entry_inode_def Let_def
  by ((rule call_drop_eattrs walk_rules | assumption | simp only: prod.case | (simp; fail) | rule returns_any)+)

lemma call_basic: "J (wst w) \<Longrightarrow> (\<And>r h w. J (wst w) \<Longrightarrow> Q (r, h, w)) \<Longrightarrow> returns Q (basic_dentry_checks d e n de bh w)"
  unfolding basic_dentry_checks_def Let_def
  by ((rule call_entry_inode case_wput walk_rules | assumption | simp only: prod.case | (simp; fail) | rule returns_any)+)

lemma keeps_dirref: "J (wst w) \<Longrightarrow> returns (\<lambda>(_, _, _, _, w). J (wst w)) (dirref_find d p h c i w)"
  unfolding dirref_find_def Let_def
  by ((rule entry_rules | assumption | simp only: prod.case | (simp add: wst_dirent_del; fail) | rule returns_any)+)

end

sublocale lf_kept \<subseteq> dr: walk_pass J dirref_hunt
  by unfold_locales (auto simp: dirref_hunt_def no_fxns_def intro: keeps_dirref)

context lf_kept begin

lemma keeps_suspicious: "J st \<Longrightarrow> returns (\<lambda>(_, st). J st) (check_suspicious_dirref e st)"
proof -
  have "returns (\<lambda>r. case r of Inl st \<Rightarrow> J st | Inr (_, st) \<Rightarrow> J st) (suspicious_step e (tmp, st))" if "J st" for tmp st
    using that unfolding suspicious_step_def Let_def prod.case
    by (auto intro!: dr.kept_dir split: option.split)
  then show "J st \<Longrightarrow> returns (\<lambda>(_, st). J st) (check_suspicious_dirref e st)"
    unfolding check_suspicious_dirref_def
    by (auto intro!: returns_rules(4) returns_iterate [where I = "\<lambda>(_, st). J st"] simp: split_def)
qed

lemma call_suspicious: "J (wst w) \<Longrightarrow> (\<And>x w. J (wst w) \<Longrightarrow> Q (x, w)) \<Longrightarrow> returns Q (on_shared (check_suspicious_dirref e) w)"
  by (rule call_on_shared) (auto intro: keeps_suspicious)

lemma call_clear: "J (wst w) \<Longrightarrow> (\<And>v w. J (wst w) \<Longrightarrow> Q (v, w)) \<Longrightarrow> returns Q (ask_clear e w)"
  unfolding ask_clear_def
  by ((rule call_drop_eattrs walk_rules | assumption | simp only: prod.case | (simp; fail) | rule returns_any)+)

lemma call_dots:
  "J (wst w) \<Longrightarrow> (\<And>v w. J (wst w) \<Longrightarrow> Q (v, w)) \<Longrightarrow> returns Q (check_dot e w)"
  "J (wst w) \<Longrightarrow> (\<And>v w. J (wst w) \<Longrightarrow> Q (v, w)) \<Longrightarrow> returns Q (check_dotdot isdir e w)"
  unfolding check_dot_def check_dotdot_def
  by (auto intro!: call_clear kept_on_state call_dotdot)

lemma call_move: "J (wst w) \<Longrightarrow> (\<And>r l h w. J (wst w) \<Longrightarrow> Q (r, l, h, w)) \<Longrightarrow> returns Q (move_entry now d e n p l i bh de q w)"
  unfolding move_entry_def Let_def
  by ((rule call_bad_formal entry_rules | assumption | simp only: prod.case | (simp add: prod_eq_iff; fail)
      | (auto dest: kept_set_parent split: if_splits; fail) | rule returns_any)+)

lemma call_wrong_leaf: "J (wst w) \<Longrightarrow> (\<And>r l h w. J (wst w) \<Longrightarrow> Q (r, l, h, w)) \<Longrightarrow> returns Q (wrong_leaf now d e n l i bh de q w)"
  unfolding wrong_leaf_def Let_def
  by ((rule call_move call_leaf_depth ea.kept_get_hash entry_rules | assumption | simp only: prod.case | (simp; fail) | rule returns_any)+)

lemma call_place: "J (wst w) \<Longrightarrow> (\<And>r l h w. J (wst w) \<Longrightarrow> Q (r, l, h, w)) \<Longrightarrow> returns Q (check_place now d e n l bh de q w)"
  unfolding check_place_def Let_def
  by ((rule call_wrong_leaf entry_rules | assumption | simp only: prod.case | (simp; fail) | rule returns_any)+)

lemma call_parent: "J (wst w) \<Longrightarrow> (\<And>v w. J (wst w) \<Longrightarrow> Q (v, w)) \<Longrightarrow> returns Q (check_parent e w)"
  using kept_set_parent [of "wst w" e "i_num (vi (wip w))"]
  by (auto simp: check_parent_def Let_def split_def intro!: kept_wquery)

lemma call_valid: "J (wst w) \<Longrightarrow> (\<And>v h w. J (wst w) \<Longrightarrow> Q (v, h, w)) \<Longrightarrow> returns Q (valid_entry d e n q de bh w)"
  unfolding valid_entry_def
  by ((rule call_bad_formal call_suspicious entry_rules | assumption | simp only: prod.case | (simp; fail) | rule returns_any)+)

lemma call_named: "J (wst w) \<Longrightarrow> (\<And>v l h w. J (wst w) \<Longrightarrow> Q (v, l, h, w)) \<Longrightarrow> returns Q (check_named now d e n l bh r w)"
  unfolding check_named_def
  by ((rule call_dots call_place call_parent entry_rules | assumption | simp only: prod.case | (simp; fail) | rule returns_any)+)

lemma call_p2_dentry: "J (wst w) \<Longrightarrow> returns (\<lambda>(_, _, _, _, w). J (wst w)) (p2_check_dentry now d p bh c l w)"
  unfolding p2_check_dentry_def Let_def
  by ((rule call_basic call_named call_valid entry_rules | assumption | simp only: prod.case
      | (auto simp: wst_dirent_del split: if_splits verdict.split prod.split; fail) | rule returns_any)+)

lemma call_basic_dentry: "J (wst w) \<Longrightarrow> returns (\<lambda>(_, _, _, _, w). J (wst w)) (basic_check_dentry d p bh c l w)"
  unfolding basic_check_dentry_def Let_def
  by ((rule call_basic entry_rules | assumption | simp only: prod.case | (auto simp: wst_dirent_del split: prod.split; fail) | rule returns_any)+)

section \<open>Leaves\<close>

lemma call_write_walk: "J (wst w) \<Longrightarrow> (\<And>r w. J (wst w) \<Longrightarrow> Q (r, w)) \<Longrightarrow> returns Q (walk_write now b off w)"
  unfolding walk_write_def by (rule call_on_fs)

lemma call_new_leaf: "J (wst w) \<Longrightarrow> (\<And>r b w. J (wst w) \<Longrightarrow> Q (r, b, w)) \<Longrightarrow> returns Q (write_new_leaf now l n w)"
  unfolding write_new_leaf_def Let_def
  by ((rule call_write_walk returns_applied entry_rules | assumption | simp only: prod.case | (simp; fail) | rule returns_any)+)

lemma call_pad: "J (wst w) \<Longrightarrow> (\<And>tbl w. J (wst w) \<Longrightarrow> Q (tbl, w)) \<Longrightarrow> returns Q (pad_with_leafblks now tbl l n w)"
  unfolding pad_with_leafblks_def
  by (rule returns_iterate [where I = "\<lambda>(_, _, _, _, w). J (wst w)"], simp, clarify, unfold pad_step_def Let_def prod.case)
    ((rule call_new_leaf entry_rules | assumption | simp only: prod.case sum.case | (simp; fail) | rule returns_any)+)

lemma call_patch: "J (wst w) \<Longrightarrow> (\<And>r bn w. J (wst w) \<Longrightarrow> Q (r, bn, w)) \<Longrightarrow> returns Q (iterate (patch_step now) (l, n, b, bn, w))"
  by (rule returns_iterate [where I = "\<lambda>(_, _, _, _, w). J (wst w)"], simp, clarify, unfold patch_step_def Let_def prod.case)
    ((rule call_new_leaf entry_rules | assumption | simp only: prod.case sum.case | (simp; fail) | rule returns_any)+)

lemma keeps_repair2: "J (wst w) \<Longrightarrow> returns (\<lambda>(_, _, w). J (wst w)) (pass2_repair_leaf now b l n w)"
  unfolding pass2_repair_leaf_def
  by ((rule call_patch entry_rules | assumption | simp only: prod.case | (simp; fail) | rule returns_any)+)

lemma call_to_lf: "J st \<Longrightarrow> returns (\<lambda>(_, st). J st) (add_to_lf now f no t st)" "J st \<Longrightarrow> returns (\<lambda>(_, st). J st) (link_lf st)"
  unfolding add_to_lf_def link_lf_def Let_def
  by ((rule call_links returns_if returns_rules | assumption | simp only: prod.case | (simp; fail) | rule returns_any)+)

lemma call_lf:
  "J (wst w) \<Longrightarrow> (\<And>x w. J (wst w) \<Longrightarrow> Q (x, w)) \<Longrightarrow> returns Q (on_shared (add_to_lf now f no t) w)"
  "J (wst w) \<Longrightarrow> (\<And>x w. J (wst w) \<Longrightarrow> Q (x, w)) \<Longrightarrow> returns Q (on_shared link_lf w)"
  "J (wst w) \<Longrightarrow> (\<And>x w. J (wst w) \<Longrightarrow> Q (x, w)) \<Longrightarrow> returns Q (on_shared (remove_dentry_from_dir d b) w)"
  by (rule call_on_shared; auto intro!: call_to_lf call_remove_from_dir)+

lemma call_lf_made:
  "J (wst w) \<Longrightarrow> (\<And>x w. J (wst w) \<Longrightarrow> Q (x, w)) \<Longrightarrow> returns Q (on_shared (\<lambda>st. map_option (Pair ()) (make_sure_lf_exists now st)) w)"
  by (rule call_on_shared) (auto intro!: call_make_lf)

lemma call_relocate: "J (wst w) \<Longrightarrow> (\<And>r h w. J (wst w) \<Longrightarrow> Q (r, h, w)) \<Longrightarrow> returns Q (relocate_entry now d de f h w)"
  unfolding relocate_entry_def
  by ((rule call_basic call_lf entry_rules | assumption | simp only: prod.case | (simp; fail) | rule returns_any)+)

lemma call_lost_entries: "J (wst w) \<Longrightarrow> (\<And>r h w. J (wst w) \<Longrightarrow> Q (r, h, w)) \<Longrightarrow> returns Q (iterate (lost_leaf_step now) (d, h, w))"
  by (rule returns_iterate [where I = "\<lambda>(_, _, w). J (wst w)"], simp, clarify, unfold lost_leaf_step_def Let_def prod.case)
    ((rule call_relocate entry_rules | assumption | simp only: prod.case sum.case | (simp; fail) | rule returns_any)+)

lemma call_lost_leaf: "J (wst w) \<Longrightarrow> (\<And>r tbl w. J (wst w) \<Longrightarrow> Q (r, tbl, w)) \<Longrightarrow> returns Q (lost_leaf now tbl b n l bh w)"
  unfolding lost_leaf_def
  by ((rule call_lf_made call_pad call_lost_entries entry_rules | assumption | simp only: prod.case | (simp; fail) | rule returns_any)+)

end

section \<open>The hash table\<close>

sublocale lf_kept \<subseteq> lc: walk_pass J "leafck_fxns now" for now
  by unfold_locales (auto simp: leafck_fxns_def no_fxns_def intro: call_basic_dentry keeps_repair2 call_leaf_depth)

context lf_kept begin

lemma call_extras:
  "J (wst w) \<Longrightarrow> (\<And>r n tbl w. J (wst w) \<Longrightarrow> Q (r, n, tbl, w)) \<Longrightarrow> returns Q (fix_extras now b ch l n pl tbl w)"
  unfolding fix_extras_def Let_def
  by ((rule call_pad entry_rules | assumption | simp only: prod.case | (simp; fail) | rule returns_any)+)

lemma call_split:
  "J (wst w) \<Longrightarrow> (\<And>r n tbl w. J (wst w) \<Longrightarrow> Q (r, n, tbl, w)) \<Longrightarrow> returns Q (fix_split now b l n pl bh tbl w)"
  unfolding fix_split_def Let_def
  by ((rule call_extras entry_rules | assumption | simp only: prod.case | (simp; fail) | rule returns_any)+)

lemma call_lost:
  "J (wst w) \<Longrightarrow> (\<And>r n tbl w. J (wst w) \<Longrightarrow> Q (r, n, tbl, w)) \<Longrightarrow>
     returns Q (map_option (\<lambda>(error, tbl, w). (error, pl, tbl, w)) (lost_leaf now tbl b n l bh w))"
  by (auto intro!: returns_rules(4) call_lost_leaf)

lemma call_fix_hashtable:
  "J (wst w) \<Longrightarrow> (\<And>r n tbl w. J (wst w) \<Longrightarrow> Q (r, n, tbl, w)) \<Longrightarrow> returns Q (fix_hashtable now tbl b l ps n w)"
  unfolding fix_hashtable_def Let_def
  by ((rule call_lost call_split call_extras call_pad lc.kept_leaf entry_rules | assumption | simp only: prod.case
      | (simp; fail) | rule returns_any)+)

lemma call_bad_run:
  "J (wst w) \<Longrightarrow> (\<And>r tbl w. J (wst w) \<Longrightarrow> Q (r, tbl, w)) \<Longrightarrow> returns Q (fix_bad_run now i l n tbl w)"
  unfolding fix_bad_run_def
  by ((rule call_pad entry_rules | assumption | simp only: prod.case | (simp; fail) | rule returns_any)+)

lemma call_dups:
  "J (wst w) \<Longrightarrow> (\<And>r tbl w. J (wst w) \<Longrightarrow> Q (r, tbl, w)) \<Longrightarrow> returns Q (check_hash_tbl_dups now tbl l n w)"
  unfolding check_hash_tbl_dups_def
  by (rule returns_iterate [where I = "\<lambda>(_, _, w). J (wst w)"], simp, clarify, unfold dup_step_def Let_def prod.case)
    ((rule call_bad_run entry_rules | assumption | simp only: prod.case sum.case | (simp split: option.split bool.split; fail) | rule returns_any)+)

lemma call_same:
  "J (wst w) \<Longrightarrow> (\<And>s n r tbl w. J (wst w) \<Longrightarrow> Q (s, n, r, tbl, w)) \<Longrightarrow> returns Q (iterate (same_step now b l n) (i, pl, ch, tbl, w))"
  by (rule returns_iterate [where I = "\<lambda>(_, _, _, _, w). J (wst w)"], simp, clarify, unfold same_step_def Let_def prod.case)
    ((rule call_fix_hashtable entry_rules | assumption | simp only: prod.case sum.case | (simp; fail) | rule returns_any)+)

lemma call_replace:
  "J (wst w) \<Longrightarrow> (\<And>r. (case r of Inl (_, _, w) \<Rightarrow> J (wst w) | Inr (_, _, _, w) \<Rightarrow> J (wst w)) \<Longrightarrow> Q r) \<Longrightarrow>
     returns Q (replace_run now l n pl ch tbl w)"
  unfolding replace_run_def
  by ((rule call_new_leaf entry_rules | assumption | simp only: prod.case | (simp; fail) | rule returns_any)+)

lemma call_fix_run:
  "J (wst w) \<Longrightarrow> (\<And>a r n tbl w. J (wst w) \<Longrightarrow> Q (a, r, n, tbl, w)) \<Longrightarrow> returns Q (fix_run now b l n pl ch tbl w)"
  unfolding fix_run_def Let_def
  by ((rule call_fix_hashtable entry_rules | assumption | simp only: prod.case | (simp; fail) | rule returns_any)+)

lemma keeps_hash_tbl: "J (wst w) \<Longrightarrow> returns (\<lambda>(_, _, w). J (wst w)) (check_hash_tbl now tbl w)"
  unfolding check_hash_tbl_def
  by (rule returns_iterate [where I = "\<lambda>(_, _, _, w). J (wst w)"], simp, clarify, unfold hash_tbl_step_def Let_def prod.case)
    ((rule call_replace call_dups call_fix_run call_same entry_rules | assumption | simp only: prod.case sum.case
      | (simp split: sum.splits; fail) | (auto split: sum.splits; fail) | rule returns_any)+)

end

section \<open>The pass\<close>

sublocale lf_kept \<subseteq> p2: walk_pass J "pass2_fxns now" for now
  by unfold_locales (auto simp: pass2_fxns_def no_fxns_def p2_check_eattr_indir_def p2_check_eattr_leaf_def
    intro: call_p2_dentry keeps_repair2 call_leaf_depth keeps_hash_tbl)

sublocale lf_kept \<subseteq> qc: walk_pass J quota_change_fxns
  by unfold_locales (auto simp: quota_change_fxns_def no_fxns_def check_metalist_qc_def check_data_qc_def intro!: returns_rules(4) returns_any)

context lf_kept begin

lemma kept_sys [simp]: "J st \<Longrightarrow> J (set_sys f ip st)"
  by (cases f) (simp_all add: set_sys_def)

lemma call_on_pernode: "J st \<Longrightarrow> (\<And>x st. J st \<Longrightarrow> Q (x, st)) \<Longrightarrow> returns Q (on_pernode f st)"
  unfolding on_pernode_def by (auto intro!: returns_any)

lemma call_lookup: "J st \<Longrightarrow> (\<And>x st. J st \<Longrightarrow> Q (x, st)) \<Longrightarrow> returns Q (lookup_pernode fn st)"
  unfolding lookup_pernode_def
  by ((rule call_on_pernode returns_applied returns_if returns_rules | assumption | simp only: prod.case | (auto split: looked_up.splits; fail) | rule returns_any)+)

lemma call_build: "J st \<Longrightarrow> (\<And>x st. J st \<Longrightarrow> Q (x, st)) \<Longrightarrow> returns Q (build_pernode fn f st)"
  unfolding build_pernode_def Let_def
  by ((rule call_on_pernode call_lookup call_n_fix returns_applied returns_if returns_rules | assumption | simp only: prod.case | (simp; fail) | rule returns_any)+)

lemma call_pernode:
  assumes "J st" "\<And>x st. J st \<Longrightarrow> Q (x, st)" "pass = None \<or> pass = Some quota_change_fxns"
  shows "returns Q (check_pernode_for fn n m pass f st)"
  using assms(3) unfolding check_pernode_for_def Let_def
  by (elim disjE; simp only: option.case)
    ((rule call_on_pernode call_lookup call_build call_query qc.kept_metatree d2.kept_metatree walk_rules assms(1,2) | assumption
      | simp only: prod.case | (simp; fail) | rule returns_any)+)

lemma call_pernode_files: "J st \<Longrightarrow> (\<And>x st. J st \<Longrightarrow> Q (x, st)) \<Longrightarrow> returns Q (check_pernode_files env j st)"
  unfolding check_pernode_files_def Let_def prod.case
  by ((rule call_pernode returns_rules | assumption | simp only: prod.case | (simp; fail))+)

lemma call_pernodes: "J st \<Longrightarrow> (\<And>x st. J st \<Longrightarrow> Q (x, st)) \<Longrightarrow> returns Q (check_pernodes env js st)"
proof (induction js arbitrary: st Q)
  case (Cons j js)
  show ?case unfolding check_pernodes.simps
    by ((rule call_pernode_files [OF Cons.prems(1)] Cons.IH Cons.prems(2) returns_rules | assumption | simp only: prod.case)+)
qed simp

lemma call_missing_dot: "J (wst w) \<Longrightarrow> (\<And>x w. J (wst w) \<Longrightarrow> Q (x, w)) \<Longrightarrow> returns Q (add_missing_dot env w)"
  unfolding add_missing_dot_def Let_def
  by ((rule entry_rules | assumption | simp only: prod.case | (simp; fail) | rule returns_any)+)

lemma call_entry_count: "J (wst w) \<Longrightarrow> (\<And>w. J (wst w) \<Longrightarrow> Q w) \<Longrightarrow> returns Q (fix_entry_count w)"
  unfolding fix_entry_count_def
  by ((rule entry_rules | assumption | simp only: prod.case | (simp; fail) | rule returns_any)+)

lemma call_system_dir: "J st \<Longrightarrow> (\<And>x st. J st \<Longrightarrow> Q (x, st)) \<Longrightarrow> returns Q (check_system_dir env f st)"
  unfolding check_system_dir_def Let_def
  by ((rule call_missing_dot call_entry_count call_pernodes p2.kept_metatree p2.kept_dir p2.kept_inode_eattr walk_rules | assumption
      | simp only: prod.case | (simp; fail) | rule returns_any)+)

lemma call_bad_dir: "J (wst w) \<Longrightarrow> (\<And>x w. J (wst w) \<Longrightarrow> Q (x, w)) \<Longrightarrow> returns Q (drop_bad_dir b w)"
  unfolding drop_bad_dir_def
  by ((rule call_lf(3) entry_rules | assumption | simp only: prod.case | (simp; fail) | rule returns_any)+)

lemma call_check_dir: "J (wst w) \<Longrightarrow> (\<And>x w. J (wst w) \<Longrightarrow> Q (x, w)) \<Longrightarrow> returns Q (pass2_check_dir env w)"
  unfolding pass2_check_dir_def Let_def
  by ((rule call_bad_dir call_missing_dot call_entry_count p2.kept_dir entry_rules | assumption | simp only: prod.case
      | (simp; fail) | rule returns_any)+)

lemma kept_pass2: "J st \<Longrightarrow> returns (\<lambda>(_, st). J st) (pass2 env st)"
proof -
  have sys: "returns Q (for_each (system_dir_step env) fs st)" if "J st" "\<And>r st. J st \<Longrightarrow> Q (r, st)" for Q fs st
    by (rule returns_for_each [where I = J]) (use that in \<open>auto simp: system_dir_step_def intro!: call_system_dir\<close>)
  have "returns (\<lambda>r. case r of Inl (_, st) \<Rightarrow> J st | Inr (_, st) \<Rightarrow> J st) (pass2_step env (tmp, st))" if "J st" for tmp st
    unfolding pass2_step_def Let_def prod.case using that
    by - ((rule call_check_dir returns_if returns_rules | assumption | simp only: prod.case | (simp; fail) | rule returns_any)+)
  then have all: "returns (\<lambda>(_, st). J st) (iterate (pass2_step env) (tmp, st))" if "J st" for tmp st
    using that by (intro returns_iterate [where I = "\<lambda>(_, st). J st"]) (auto simp: split_def)
  show "J st \<Longrightarrow> returns (\<lambda>(_, st). J st) (pass2 env st)"
    unfolding pass2_def by ((rule sys all returns_rules(2-) | assumption | simp only: prod.case)+)
qed

end

end
