(* ===== verification/FsckDriver.thy ===== *)
theory FsckDriver
  imports FsckKeep2 FsStuffed
begin

text \<open>
  The passes of fsck.gfs2 in their order, the check of the statfs file and the exit status (main.c). A pass gives its result and the
  state; a result that is not zero ends the program. The user's ctrl-c calls a handler that may set one of two flags; a list says for
  every pass whether it comes at its start, and whether it comes while the pass runs, behind the place where the pass has looked at the
  flags for the last time. A pass that looks at them after the signal came is not modelled for that signal. The time that is measured
  and the messages are left out.
\<close>

section \<open>The command line\<close>

abbreviation (input) FSCK_NONDESTRUCT :: int where "FSCK_NONDESTRUCT \<equiv> 1"
abbreviation (input) FSCK_UNCORRECTED :: int where "FSCK_UNCORRECTED \<equiv> 4"
abbreviation (input) FSCK_USAGE :: int where "FSCK_USAGE \<equiv> 16"

record gfs2_options =
  opt_yes :: bool
  opt_no :: bool
  opt_preen :: bool
  opt_force :: bool

text \<open>The options as \<open>getopt\<close> gives them; the result is the status with which the program ends, or what was chosen.\<close>

primrec read_options :: "string \<Rightarrow> gfs2_options \<Rightarrow> int + gfs2_options" where
  "read_options [] opts = Inr opts"
| "read_options (c # cs) opts =
     (if c = CHR ''a'' \<or> c = CHR ''p'' then
        if opt_yes opts \<or> opt_no opts then Inl FSCK_USAGE else read_options cs (opts\<lparr>opt_preen := True, opt_yes := True\<rparr>)
      else if c = CHR ''f'' then read_options cs (opts\<lparr>opt_force := True\<rparr>)
      else if c = CHR ''h'' \<or> c = CHR ''V'' then Inl FSCK_OK
      else if c = CHR ''n'' then
        if opt_yes opts \<or> opt_preen opts then Inl FSCK_USAGE else read_options cs (opts\<lparr>opt_no := True\<rparr>)
      else if c = CHR ''q'' \<or> c = CHR ''v'' then read_options cs opts
      else if c = CHR ''y'' then
        if opt_no opts \<or> opt_preen opts then Inl FSCK_USAGE else read_options cs (opts\<lparr>opt_yes := True\<rparr>)
      else Inl FSCK_USAGE)"

definition read_cmdline :: "string \<Rightarrow> bool \<Rightarrow> int + gfs2_options" where
  "read_cmdline cs device =
     (case read_options cs \<lparr>opt_yes = False, opt_no = False, opt_preen = False, opt_force = False\<rparr> of Inl r \<Rightarrow> Inl r
      | Inr opts \<Rightarrow> if device then Inr opts else Inl FSCK_USAGE)"

section \<open>The statfs file\<close>

text \<open>The sums over the groups: all blocks, those in use, and dinodes. The difference is one of 32 bits.\<close>

definition group_totals :: "fs \<Rightarrow> u64 \<times> u64 \<times> u64" where
  "group_totals fs =
     foldl (\<lambda>(blks, alloced, dinodes) rgd. (blks + ucast (rt_data rgd), alloced + ucast (rt_data rgd - rt_free rgd), dinodes + ucast (rt_dinodes rgd)))
       (0, 0, 0) (inorder (fs_rgtree fs))"

definition statfs_numbers :: "bytes \<Rightarrow> u64 \<times> u64 \<times> u64" where
  "statfs_numbers sc =
     (get_be64 sc (offsetof struct_gfs2_statfs_change ''sc_total''), get_be64 sc (offsetof struct_gfs2_statfs_change ''sc_free''),
      get_be64 sc (offsetof struct_gfs2_statfs_change ''sc_dinodes''))"

text \<open>The file is read into a structure of 24 bytes, however long it is.\<close>

definition check_statfs :: "fsck \<Rightarrow> (int \<times> fsck) option" where
  "check_statfs st = do {
     statfs \<leftarrow> md_statfs (fk_md st);
     if sd_gfs1 (fs_sdp (fk_fs st)) \<and> i_size (vi statfs) = 0 then Some (0, st)
     else do {
       (sc, fs, statfs) \<leftarrow> gfs2_readi (fk_fs st) statfs 0 (ucast (i_size (vi statfs)));
       let st = set_sys SysStatfs (Some statfs) (set_fs fs st);
       if sizeof struct_gfs2_statfs_change < length sc then None
       else if length sc \<noteq> sizeof struct_gfs2_statfs_change then Some (FSCK_ERROR, st)
       else do {
         let (blks, alloced, dinodes) = group_totals fs;
         let fs = fs\<lparr>fs_sdp := (fs_sdp fs)\<lparr>blks_alloced := alloced, dinodes_alloced := dinodes\<rparr>\<rparr>;
         let st = set_fs fs st;
         if statfs_numbers sc = (blks, blks - alloced, dinodes) then Some (0, st)
         else do {
           (ok, st) \<leftarrow> fsck_query (st\<lparr>errors_found := errors_found st + 1\<rparr>);
           if \<not> ok then Some (0, st)
           else do {
             (_, fs, statfs) \<leftarrow> do_init_statfs (fk_fs st) blks statfs;
             let st = set_sys SysStatfs (Some statfs) (set_fs fs st);
             Some (0, st\<lparr>errors_corrected := errors_corrected st + 1\<rparr>)
           }
         }
       }
     }
   }"

section \<open>The passes\<close>

definition to_lower :: "u8 \<Rightarrow> u8" where
  "to_lower c = (if 65 \<le> c \<and> c \<le> 90 then c + 32 else c)"

text \<open>Ctrl-c: \<open>a\<close>, \<open>s\<close> or \<open>c\<close> (97, 115, 99).\<close>

definition interrupt :: "fsck \<Rightarrow> fsck option" where
  "interrupt st = do {
     (response, ks) \<leftarrow> generic_interrupt [97, 115, 99] (keys st);
     let st = st\<lparr>keys := ks\<rparr>;
     Some (if to_lower response = 115 then st\<lparr>skip_this_pass := True\<rparr>
           else if to_lower response = 97 then st\<lparr>fsck_abort := True\<rparr> else st)
   }"

type_synonym fsck_pass = "fsck \<Rightarrow> (int \<times> fsck) option"

definition main_pass1 :: "build_env \<Rightarrow> fsck_pass" where
  "main_pass1 env st = map_option (\<lambda>(r, st, next_inum). (r, st\<lparr>md_next_inum := next_inum\<rparr>)) (pass1 env st (md_next_inum st))"

definition main_passes :: "build_env \<Rightarrow> fsck_pass list" where
  "main_passes env = [main_pass1 env, pass1b, pass2 env, pass3 (be_now env), pass4 (be_now env), check_statfs]"

definition signalled :: "bool \<Rightarrow> fsck \<Rightarrow> fsck option" where
  "signalled sig st = (if sig then interrupt st else Some st)"

text \<open>The result is the status with which the program ends there, or what the pass's \<open>error\<close> is.\<close>

definition run_pass :: "bool \<times> bool \<Rightarrow> fsck_pass \<Rightarrow> fsck \<Rightarrow> ((int \<times> fsck) + (int \<times> fsck)) option" where
  "run_pass sigs f st =
     (if fsck_abort st then Some (Inr (FSCK_CANCELED, st))
      else do {
        st \<leftarrow> signalled (fst sigs) st;
        (ret, st) \<leftarrow> f st;
        st \<leftarrow> signalled (snd sigs) st;
        Some (if ret \<noteq> 0 then Inl (ret, st)
              else if skip_this_pass st \<or> fsck_abort st then Inr (FSCK_CANCELED, st\<lparr>skip_this_pass := False\<rparr>)
              else Inr (0, st))
      })"

primrec run_passes :: "((bool \<times> bool) \<times> fsck_pass) list \<Rightarrow> int \<Rightarrow> fsck \<Rightarrow> ((int \<times> fsck) + (int \<times> fsck)) option" where
  "run_passes [] error st = Some (Inr (error, st))"
| "run_passes (p # ps) error st = do {
     r \<leftarrow> run_pass (fst p) (snd p) st;
     case r of Inl e \<Rightarrow> Some (Inl e) | Inr (error, st) \<Rightarrow> run_passes ps error st
   }"

definition fsck_passes :: "build_env \<Rightarrow> (bool \<times> bool) list \<Rightarrow> fsck \<Rightarrow> ((int \<times> fsck) + (int \<times> fsck)) option" where
  "fsck_passes env sigs = run_passes (zip sigs (main_passes env)) 0"

definition exit_status :: "int \<Rightarrow> fsck \<Rightarrow> int" where
  "exit_status error st =
     (if error \<noteq> 0 then error
      else if errors_found st = 0 then FSCK_OK
      else if errors_found st = errors_corrected st then FSCK_NONDESTRUCT
      else FSCK_UNCORRECTED)"

section \<open>The statfs file is put right\<close>

lemma statfs_numbers_written:
  "statfs_numbers (be_bytes 8 (unat a) @ be_bytes 8 (unat b) @ be_bytes 8 (unat c)) = (a, b, c)"
proof -
  let ?s = "be_bytes 8 (unat a) @ be_bytes 8 (unat b) @ be_bytes 8 (unat c)"
  have "slice 0 8 ?s = be_bytes 8 (unat a)" "slice 8 8 ?s = be_bytes 8 (unat b)" "slice 16 8 ?s = be_bytes 8 (unat c)"
    by (simp_all add: slice_def)
  then show ?thesis by (simp add: statfs_numbers_def size_simps get_be64_def of_nat_be_val_be_bytes)
qed

lemma group_totals_frame: "fs_rgtree fs' = fs_rgtree fs \<Longrightarrow> group_totals fs' = group_totals fs"
  by (simp add: group_totals_def)

lemma check_statfs_stuffed:
  assumes "md_statfs (fk_md st) = Some ip" "stuffed (fk_fs st) ip" "i_size (vi ip) = 24" "opts_yes st"
    "group_totals (fk_fs st) = (blks, alloced, dinodes)"
    "fs = (fk_fs st)\<lparr>fs_sdp := (fs_sdp (fk_fs st))\<lparr>blks_alloced := alloced, dinodes_alloced := dinodes\<rparr>\<rparr>"
    "sc = be_bytes 8 (unat blks) @ be_bytes 8 (unat (blks - alloced)) @ be_bytes 8 (unat dinodes)"
  shows "check_statfs st = Some (0,
    if statfs_numbers (stuffed_data ip) = (blks, blks - alloced, dinodes) then set_fs fs st
    else (set_sys SysStatfs (Some (stuffed_put True sc 0 ip)) (set_fs fs st))\<lparr>errors_found := errors_found st + 2,
           errors_corrected := errors_corrected st + 2, fsck_abort := False\<rparr>)"
proof -
  have r: "gfs2_readi (fk_fs st) ip 0 (ucast (i_size (vi ip))) = Some (stuffed_data ip, fk_fs st, ip)"
    using readi_stuffed [OF assms(2), of 24 0] assms(3) by (simp add: stuffed_data_def slice_def)
  have "length (b_data (vbh ip)) = unat (sd_bsize (fs_sdp (fk_fs st)))" "512 \<le> unat (sd_bsize (fs_sdp (fk_fs st)))"
    using assms(2) unfolding stuffed_def by blast+
  then have l: "length (stuffed_data ip) = 24" using assms(3) by (simp add: stuffed_data_def slice_def)
  have "sd_bsize (fs_sdp fs) = sd_bsize (fs_sdp (fk_fs st))" "sd_bsize_shift (fs_sdp fs) = sd_bsize_shift (fs_sdp (fk_fs st))"
    "sd_gfs1 (fs_sdp fs) = sd_gfs1 (fs_sdp (fk_fs st))" by (simp_all add: assms(6))
  then have "stuffed fs ip = stuffed (fk_fs st) ip" by (simp only: stuffed_def)
  then have s: "stuffed fs ip" using assms(2) by simp
  have w: "do_init_statfs fs blks ip = Some (0, fs, stuffed_put True sc 0 ip)"
  proof -
    have l: "length sc = 24" by (simp add: assms(7))
    then have "sc \<noteq> []" by auto
    have "512 \<le> unat (sd_bsize (fs_sdp fs))" using s unfolding stuffed_def by blast
    then have "gfs2_writei_resize fs ip sc 0 True = Some (24, fs, stuffed_put True sc 0 ip)"
      using writei_stuffed [OF s, of sc 0 True] l \<open>sc \<noteq> []\<close> by simp
    moreover have "be_bytes 8 (unat blks) @ be_bytes 8 (unat (blks - blks_alloced (fs_sdp fs))) @ be_bytes 8 (unat (dinodes_alloced (fs_sdp fs))) = sc"
      by (simp add: assms(6,7))
    ultimately show ?thesis by (simp add: do_init_statfs_def size_simps Let_def)
  qed
  have q: "fsck_query st2 = Some (True, st2\<lparr>errors_found := errors_found st2 + 1, fsck_abort := False, errors_corrected := errors_corrected st2 + 1\<rparr>)"
    if "opts_yes st2" for st2 using that by (simp add: fsck_query_def)
  show ?thesis
    using assms(1,3-5) r l w
    by (simp add: check_statfs_def size_simps Let_def set_fs_def set_sys_def q assms(6) [symmetric])
qed

section \<open>What the passes keep together\<close>

definition result_state :: "(int \<times> fsck) + (int \<times> fsck) \<Rightarrow> fsck" where
  "result_state r = (case r of Inl (_, st) \<Rightarrow> st | Inr (_, st) \<Rightarrow> st)"

lemma result_state_simps [simp]: "result_state (Inl (e, st)) = st" "result_state (Inr (e, st)) = st"
  by (simp_all add: result_state_def)

lemma maps_interrupt: "maps_ok n st \<Longrightarrow> returns (maps_ok n) (interrupt st)"
  by (auto simp: interrupt_def Let_def returns_def split: bind_splits if_splits)

lemma maps_check_statfs: "maps_ok n st \<Longrightarrow> returns (\<lambda>(_, st). maps_ok n st) (check_statfs st)"
  unfolding check_statfs_def Let_def set_fs_def
  by ((rule ms.call_query returns_if returns_rules | assumption | simp only: prod.case | (simp; fail) | rule returns_any)+)

lemma maps_signalled: "maps_ok n st \<Longrightarrow> returns (maps_ok n) (signalled sig st)"
  using maps_interrupt [of n st] by (simp add: signalled_def returns_def)

lemma maps_first:
  assumes "\<not> fsck_abort st" "\<And>st1. signalled (fst sigs) st = Some st1 \<Longrightarrow> returns (\<lambda>(_, st). maps_ok n st) (f st1)"
  shows "returns (\<lambda>r. maps_ok n (result_state r)) (run_pass sigs f st)"
  using assms maps_signalled [of n _ "snd sigs"] unfolding run_pass_def returns_def
  by (auto split: bind_splits if_splits option.splits)

lemma maps_run_pass:
  assumes "maps_ok n st" "\<And>st. maps_ok n st \<Longrightarrow> returns (\<lambda>(_, st). maps_ok n st) (f st)"
  shows "returns (\<lambda>r. maps_ok n (result_state r)) (run_pass sigs f st)"
proof (cases "fsck_abort st")
  case False
  then show ?thesis
    by (rule maps_first) (use assms maps_signalled [of n st "fst sigs"] in \<open>auto simp: returns_def\<close>)
qed (use assms(1) in \<open>simp add: run_pass_def\<close>)

lemma maps_run_passes:
  "maps_ok n st \<Longrightarrow> (\<And>p st. p \<in> set ps \<Longrightarrow> maps_ok n st \<Longrightarrow> returns (\<lambda>(_, st). maps_ok n st) (snd p st)) \<Longrightarrow>
     returns (\<lambda>r. maps_ok n (result_state r)) (run_passes ps error st)"
proof (induction ps arbitrary: st error)
  case (Cons p ps)
  have "returns (\<lambda>r. maps_ok n (result_state r)) (run_pass (fst p) (snd p) st)"
    using Cons.prems by (intro maps_run_pass) auto
  then have "returns (\<lambda>r. returns (\<lambda>r. maps_ok n (result_state r))
      (case r of Inl e \<Rightarrow> Some (Inl e) | Inr (error, st) \<Rightarrow> run_passes ps error st)) (run_pass (fst p) (snd p) st)"
    by (rule returns_mono) (use Cons.IH Cons.prems(2) in \<open>auto split: sum.splits\<close>)
  then show ?case by simp
qed simp

lemma passes_keep:
  assumes "p \<in> {pass1b, pass2 env, pass3 now, pass4 now, check_statfs}" "maps_ok n st"
  shows "returns (\<lambda>(_, st). maps_ok n st) (p st)"
  using assms ml.kept_pass1b ml.kept_pass2 ml.kept_pass3 ml.kept_pass4 maps_check_statfs by auto

text \<open>The first pass is not left out, and makes the maps.\<close>

lemma fsck_passes_keep:
  assumes "tree_ok di_addr (dirtree st)" "tree_ok dup_block (dup_blocks st)" "\<not> fsck_abort st"
  shows "returns (\<lambda>r. maps_ok (last_fs_block st + 1) (result_state r)) (fsck_passes env (sig # sigs) st)"
proof -
  let ?n = "last_fs_block st + 1"
  let ?rest = "zip sigs [pass1b, pass2 env, pass3 (be_now env), pass4 (be_now env), check_statfs]"
  have i: "tree_ok di_addr (dirtree st1) \<and> tree_ok dup_block (dup_blocks st1) \<and> last_fs_block st1 = last_fs_block st"
    if "signalled (fst sig) st = Some st1" for st1
    using that assms(1,2) by (auto simp: signalled_def interrupt_def Let_def split: if_splits bind_splits)
  have p: "returns (\<lambda>(_, st). maps_ok ?n st) (main_pass1 env st1)"
    if "signalled (fst sig) st = Some st1" for st1
    using pass1_keeps [of st1 env "md_next_inum st1"] i [OF that] unfolding main_pass1_def
    by (auto simp: split_def elim!: returns_mono)
  have first: "returns (\<lambda>r. maps_ok ?n (result_state r)) (run_pass sig (main_pass1 env) st)"
    by (rule maps_first [OF assms(3) p])
  have rest: "returns (\<lambda>r. maps_ok ?n (result_state r)) (run_passes ?rest e st1)" if "maps_ok ?n st1" for e st1
    by (rule maps_run_passes [OF that]) (auto dest!: set_zip_rightD intro: passes_keep)
  have "returns (\<lambda>r. returns (\<lambda>r. maps_ok ?n (result_state r))
      (case r of Inl e \<Rightarrow> Some (Inl e) | Inr (error, st) \<Rightarrow> run_passes ?rest error st)) (run_pass sig (main_pass1 env) st)"
    using first by (rule returns_mono) (use rest in \<open>auto split: sum.splits\<close>)
  then show ?thesis by (simp add: fsck_passes_def main_passes_def)
qed

section \<open>A pass that is left out\<close>

lemma skip_query: "fsck_query st = Some (r, st') \<Longrightarrow> skip_this_pass st' = skip_this_pass st"
  by (auto simp: fsck_query_def Let_def split: if_splits option.splits)

lemma check_statfs_skip: "returns (\<lambda>(_, st'). skip_this_pass st' = skip_this_pass st) (check_statfs st)"
  unfolding check_statfs_def Let_def set_fs_def set_sys_def
  by ((rule returns_if returns_rules | assumption | simp only: prod.case | (simp; fail) | (auto dest: skip_query; fail) | rule returns_any)+)

lemma run_pass_not_skipped: "run_pass sig f st = Some (Inr (e, st')) \<Longrightarrow> \<not> fsck_abort st' \<Longrightarrow> \<not> skip_this_pass st'"
  by (auto simp: run_pass_def split: if_splits bind_splits)

lemma run_passes_last:
  assumes "run_passes (ps @ [p]) e0 st = Some (Inr (e, st'))" "ps \<noteq> []" "\<not> fsck_abort st'"
    "\<And>st1. run_pass (fst p) (snd p) st1 = Some (Inr (e, st')) \<Longrightarrow> \<not> fsck_abort st1"
  shows "\<exists>st1. \<not> skip_this_pass st1 \<and> run_pass (fst p) (snd p) st1 = Some (Inr (e, st'))"
  using assms
proof (induction ps arbitrary: e0 st)
  case (Cons q qs)
  then obtain e1 st1 where q: "run_pass (fst q) (snd q) st = Some (Inr (e1, st1))" "run_passes (qs @ [p]) e1 st1 = Some (Inr (e, st'))"
    by (auto split: bind_splits sum.splits)
  show ?case
  proof (cases "qs = []")
    case True
    then have "run_pass (fst p) (snd p) st1 = Some (Inr (e, st'))" using q(2) by (auto split: bind_splits sum.splits)
    then show ?thesis using Cons.prems(4) run_pass_not_skipped [OF q(1)] by blast
  qed (use Cons.IH [OF q(2)] Cons.prems(3,4) in blast)
qed simp

section \<open>Properties\<close>


text \<open>
  C39. A pass that the user skips leaves no trace: after any passes, skipped or not, when the last one, which is the check of the
  statfs file, is not interrupted and the program is not aborted, the exit status never says that the check was cancelled. It is
  0 when no errors were found, even if every pass before was skipped.
\<close>

theorem skipped_pass_forgotten:
  assumes "run_passes (ps @ [((False, False), check_statfs)]) e0 st = Some (Inr (error, st'))" "ps \<noteq> []" "\<not> fsck_abort st'"
  shows "error = 0 \<and> exit_status error st' \<in> {FSCK_OK, FSCK_NONDESTRUCT, FSCK_UNCORRECTED} \<and>
    (errors_found st' = 0 \<longrightarrow> exit_status error st' = FSCK_OK)"
proof -
  have "\<not> fsck_abort st1" if "run_pass (fst ((False, False), check_statfs)) (snd ((False, False), check_statfs)) st1 = Some (Inr (error, st'))" for st1
    using that assms(3) by (auto simp: run_pass_def)
  then obtain st1 where st1: "\<not> skip_this_pass st1" "run_pass (False, False) check_statfs st1 = Some (Inr (error, st'))"
    using run_passes_last [OF assms] by fastforce
  then have "error = 0"
    using check_statfs_skip [of st1] assms(3) by (auto simp: run_pass_def signalled_def returns_def split: bind_splits if_splits)
  then show ?thesis by (auto simp: exit_status_def)
qed

section \<open>Examples\<close>



text \<open>The file is accurate; the key \<open>s\<close> skips pass 4.\<close>

definition skip_example :: fsck where
  "skip_example = (fsck_start fs_stuffed 1)\<lparr>keys := [115], fk_md := no_inodes\<lparr>md_statfs := Some (file_of
     (case group_totals fs_stuffed of (blks, alloced, dinodes) \<Rightarrow>
       be_bytes 8 (unat blks) @ be_bytes 8 (unat (blks - alloced)) @ be_bytes 8 (unat dinodes)))\<rparr>\<rparr>"

theorem skipped_pass_forgotten_witness:
  "\<exists>st'. run_passes [((True, False), pass4 7), ((False, False), check_statfs)] 0 skip_example = Some (Inr (0, st')) \<and> exit_status 0 st' = FSCK_OK"
proof -
  obtain blks alloced dinodes where t: "group_totals fs_stuffed = (blks, alloced, dinodes)" by (metis prod_cases3)
  let ?d = "be_bytes 8 (unat blks) @ be_bytes 8 (unat (blks - alloced)) @ be_bytes 8 (unat dinodes)"
  let ?st = "skip_example\<lparr>keys := [], skip_this_pass := True\<rparr>"
  have ip: "stuffed fs_stuffed (file_of ?d)" "stuffed_data (file_of ?d) = ?d" "i_size (vi (file_of ?d)) = 24"
    using file_of_stuffed [of ?d] by (simp_all add: file_of_def)
  have "interrupt skip_example = Some ?st"
    by (simp add: interrupt_def skip_example_def fsck_start_def to_lower_def)
  moreover have "pass4 7 ?st = Some (0, ?st)"
  proof -
    have l: "osi_first Leaf = (None :: 'a option)" by (simp add: osi_first_inorder)
    have e: "inodetree ?st = Leaf" "dirtree ?st = Leaf" "adjust_lf_links False ?st = (0, ?st)" "skip_this_pass ?st"
      by (simp_all add: skip_example_def fsck_start_def adjust_lf_links_def)
    have "scan_inode_list 7 ?st = Some (0, ?st)"
      unfolding scan_inode_list_def e(1) l option.map by (subst iterate.simps) (simp add: scan_inode_step_def e(3))
    moreover have "scan_dir_list 7 ?st = Some (0, ?st)"
      unfolding scan_dir_list_def e(2) l option.map by (subst iterate.simps) (simp add: scan_dir_step_def e(3))
    moreover have "scan_nlink1_list 7 ?st = Some (0, ?st)"
      by (simp add: scan_nlink1_list_def scan_nlink1_step_def skip_example_def fsck_start_def)
    ultimately show ?thesis by (simp add: pass4_def)
  qed
  ultimately have p: "run_pass (True, False) (pass4 7) skip_example = Some (Inr (FSCK_CANCELED, skip_example\<lparr>keys := []\<rparr>))"
    by (simp add: run_pass_def signalled_def skip_example_def fsck_start_def)
  have "\<exists>st'. check_statfs (skip_example\<lparr>keys := []\<rparr>) = Some (0, st') \<and> errors_found st' = 0 \<and> \<not> fsck_abort st' \<and> \<not> skip_this_pass st'"
    using check_statfs_stuffed [of "skip_example\<lparr>keys := []\<rparr>" "file_of ?d" blks alloced dinodes] t ip statfs_numbers_written
    by (simp add: skip_example_def fsck_start_def set_fs_def)
  then obtain st' where "check_statfs (skip_example\<lparr>keys := []\<rparr>) = Some (0, st')" "errors_found st' = 0" "\<not> fsck_abort st'" "\<not> skip_this_pass st'"
    by blast
  moreover from this have r: "run_passes ([((True, False), pass4 7)] @ [((False, False), check_statfs)]) 0 skip_example = Some (Inr (0, st'))"
    using p by (simp add: run_pass_def signalled_def skip_example_def fsck_start_def)
  ultimately show ?thesis using skipped_pass_forgotten [OF r] by simp
qed

end
