(* ===== verification/FsckGroups.thy ===== *)
theory FsckGroups
  imports FsckReplay FsckPass5 FsckKeep Super
begin

text \<open>
  The check of the resource groups before the passes (initialize.c): the groups are read, the unlinked blocks of each are
  reclaimed where the user agrees, and its counts are compared with its bitmaps. The bounds of the file system are taken from the
  groups, and the lock protocol in the superblock is changed so that nobody mounts it.

  A group is worked on as a value and put back in the tree at the end; nothing that happens in between looks at it there. What only
  a message tells is left out: how many groups were good or bad, and how many blocks an unlinked inode may still have. The size of
  a block is at least 512, so the number of bytes in a bitmap is never negative.
\<close>

section \<open>One group\<close>

record rg_check =
  rc_rgd :: rgrp_tree
  rc_free :: u32
  rc_reclaimed :: u32
  rc_unlinked :: u32
  rc_usedmeta :: u32
  rc_useddi :: u32
  rc_diblock :: u64
  rc_asked :: bool
  rc_fixit :: bool
  rc_st :: fsck

definition check_start :: "rgrp_tree \<Rightarrow> bool \<Rightarrow> fsck \<Rightarrow> rg_check" where
  "check_start rgd fixit st = \<lparr>rc_rgd = rgd, rc_free = 0, rc_reclaimed = 0, rc_unlinked = 0, rc_usedmeta = 0, rc_useddi = 0,
     rc_diblock = rt_data0 rgd, rc_asked = False, rc_fixit = fixit, rc_st = st\<rparr>"

text \<open>The question is asked once for a group; a yes for a group before is not taken back.\<close>

definition ask_reclaim :: "rg_check \<Rightarrow> rg_check option" where
  "ask_reclaim c =
     (if rc_asked c then Some c
      else map_option (\<lambda>(ok, st). c\<lparr>rc_asked := True, rc_fixit := rc_fixit c \<or> ok, rc_st := st\<rparr>) (fsck_query (rc_st c)))"

definition rg_byte :: "rgrp_tree \<Rightarrow> nat \<Rightarrow> nat \<Rightarrow> u8" where
  "rg_byte rgd rgb pos = buf_of (bi_data (bits rgd ! rgb)) ! pos"

text \<open>\<open>*byte &= ~(GFS2_BIT_MASK << (GFS2_BIT_SIZE * y))\<close>, and the counts in memory.\<close>

definition clear_entry :: "nat \<Rightarrow> nat \<Rightarrow> nat \<Rightarrow> rgrp_tree \<Rightarrow> rgrp_tree" where
  "clear_entry rgb pos y rgd = set_bi rgb
     (\<lambda>bi. bi\<lparr>bi_data := Live ((buf_of (bi_data bi))[pos := rg_byte rgd rgb pos AND NOT (push_bit (2 * y) 3)]), bi_modified := True\<rparr>) rgd"

definition count_reclaimed :: "bool \<Rightarrow> rgrp_tree \<Rightarrow> rgrp_tree" where
  "count_reclaimed gfs1 rgd =
     (let rgd = rgd\<lparr>rt_free := rt_free rgd + 1\<rparr>
      in if gfs1 \<and> rt_freemeta rgd \<noteq> 0 then set_rt_freemeta (rt_freemeta rgd - 1) rgd else rgd)"

definition check_rg_entry :: "nat \<Rightarrow> nat \<Rightarrow> nat \<Rightarrow> rg_check \<Rightarrow> rg_check option" where
  "check_rg_entry rgb pos y c =
     (let fs = fk_fs (rc_st c); gfs1 = sd_gfs1 (fs_sdp fs);
          state = unat (drop_bit (2 * y) (rg_byte (rc_rgd c) rgb pos) AND 3);
          next = c\<lparr>rc_diblock := rc_diblock c + 1\<rparr>
      in if state = GFS2_BLKST_USED then Some next
         else if state = GFS2_BLKST_DINODE then
           if gfs1 then
             map_option (\<lambda>bh. if gfs2_check_meta (b_data bh) GFS2_METATYPE_DI = 0 then next\<lparr>rc_useddi := rc_useddi c + 1\<rparr>
                              else next\<lparr>rc_usedmeta := rc_usedmeta c + 1\<rparr>) (bread (fs_disk fs) (rc_diblock c))
           else Some next
         else if state = GFS2_BLKST_FREE then Some (next\<lparr>rc_free := rc_free c + 1\<rparr>)
         else do {
           c \<leftarrow> ask_reclaim c;
           if \<not> rc_fixit c then Some (c\<lparr>rc_unlinked := rc_unlinked c + 1, rc_diblock := rc_diblock c + 1\<rparr>)
           else do {
             let rgd = count_reclaimed gfs1 (clear_entry rgb pos y (rc_rgd c));
             bh \<leftarrow> bread (fs_disk fs) (rc_diblock c);
             Some (c\<lparr>rc_rgd := rgd, rc_reclaimed := rc_reclaimed c + 1, rc_free := rc_free c + 1, rc_diblock := rc_diblock c + 1\<rparr>)
           }
         })"

primrec check_rg_entries :: "nat \<Rightarrow> nat \<Rightarrow> nat list \<Rightarrow> rg_check \<Rightarrow> rg_check option" where
  "check_rg_entries rgb pos [] c = Some c"
| "check_rg_entries rgb pos (y # ys) c = Option.bind (check_rg_entry rgb pos y c) (check_rg_entries rgb pos ys)"

text \<open>A byte with four blocks in use, or four free ones, is not looked at further.\<close>

definition check_rg_byte :: "nat \<Rightarrow> nat \<Rightarrow> rg_check \<Rightarrow> rg_check option" where
  "check_rg_byte rgb pos c =
     (if length (bits (rc_rgd c)) \<le> rgb \<or> length (buf_of (bi_data (bits (rc_rgd c) ! rgb))) \<le> pos then None
      else if rg_byte (rc_rgd c) rgb pos = 0x55 then Some (c\<lparr>rc_diblock := rc_diblock c + 4\<rparr>)
      else if rg_byte (rc_rgd c) rgb pos = 0 then Some (c\<lparr>rc_diblock := rc_diblock c + 4, rc_free := rc_free c + 4\<rparr>)
      else check_rg_entries rgb pos [0..<4] c)"

primrec check_rg_bytes :: "nat \<Rightarrow> nat list \<Rightarrow> rg_check \<Rightarrow> rg_check option" where
  "check_rg_bytes rgb [] c = Some c"
| "check_rg_bytes rgb (pos # ps) c = Option.bind (check_rg_byte rgb pos c) (check_rg_bytes rgb ps)"

primrec check_rg_blocks :: "u32 \<Rightarrow> nat list \<Rightarrow> u32 \<Rightarrow> rg_check \<Rightarrow> rg_check option" where
  "check_rg_blocks bsize [] total_bytes c = Some c"
| "check_rg_blocks bsize (rgb # rgbs) total_bytes c =
     (let off = (if rgb \<noteq> 0 then 24 else 128);
          bytes_to_check = (if total_bytes \<le> bsize - of_nat off then total_bytes else bsize - of_nat off)
      in do {
        c \<leftarrow> check_rg_bytes rgb [off..<off + unat bytes_to_check] c;
        check_rg_blocks bsize rgbs (total_bytes - bytes_to_check) c
      })"

text \<open>A count that is wrong is put right, and the header written, where the user agrees.\<close>

definition fix_count :: "bool \<Rightarrow> (rgrp_tree \<Rightarrow> rgrp_tree) \<Rightarrow> rgrp_tree \<Rightarrow> fsck \<Rightarrow> (rgrp_tree \<times> fsck) option" where
  "fix_count wrong upd rgd st =
     (if wrong then
        map_option (\<lambda>(ok, st). (if ok then rgrp_header_out (fs_sdp (fk_fs st)) (upd rgd) else rgd, st)) (fsck_query st)
      else Some (rgd, st))"

definition fix_counts :: "rg_check \<Rightarrow> rgrp_tree \<Rightarrow> fsck \<Rightarrow> (rgrp_tree \<times> fsck) option" where
  "fix_counts c rgd st = do {
     (rgd, st) \<leftarrow> fix_count (rt_free rgd \<noteq> rc_free c) (\<lambda>rgd. rgd\<lparr>rt_free := rc_free c\<rparr>) rgd st;
     if \<not> sd_gfs1 (fs_sdp (fk_fs st)) then Some (rgd, st)
     else do {
       (rgd, st) \<leftarrow> fix_count (rt_freemeta rgd \<noteq> rc_unlinked c) (set_rt_freemeta (rc_unlinked c)) rgd st;
       (rgd, st) \<leftarrow> fix_count (rt_useddi rgd \<noteq> rc_useddi c) (set_rt_useddi (rc_useddi c)) rgd st;
       fix_count (rt_usedmeta rgd \<noteq> rc_usedmeta c) (set_rt_usedmeta (rc_usedmeta c)) rgd st
     }
   }"

text \<open>The result is \<open>fixit\<close>, which the caller keeps for the next group.\<close>

definition check_rgrp_integrity :: "rgrp_tree \<Rightarrow> bool \<Rightarrow> fsck \<Rightarrow> (bool \<times> fsck) option" where
  "check_rgrp_integrity rgd fixit st = do {
     c \<leftarrow> check_rg_blocks (sd_bsize (fs_sdp (fk_fs st))) [0..<unat (rt_length rgd)] (rt_bitbytes rgd) (check_start rgd fixit st);
     let rgd = (if rc_reclaimed c \<noteq> 0 \<and> rc_fixit c then rgrp_header_out (fs_sdp (fk_fs st)) (rc_rgd c) else rc_rgd c);
     (rgd, st) \<leftarrow> fix_counts c rgd (rc_st c);
     Some (rc_fixit c, st\<lparr>fk_fs := put_rg rgd (fk_fs st)\<rparr>)
   }"

primrec check_groups :: "rgrp_tree list \<Rightarrow> bool \<Rightarrow> fsck \<Rightarrow> fsck option" where
  "check_groups [] reclaim_unlinked st = Some st"
| "check_groups (rgd # rgs) reclaim_unlinked st =
     (if fsck_abort st then Some st
      else do {
        (reclaim_unlinked, st) \<leftarrow> check_rgrp_integrity rgd reclaim_unlinked st;
        check_groups rgs reclaim_unlinked st
      })"

definition check_rgrps_integrity :: "fsck \<Rightarrow> fsck option" where
  "check_rgrps_integrity st = check_groups (inorder (fs_rgtree (fk_fs st))) False st"

section \<open>All groups\<close>

text \<open>The largest block of a group, as far as it does not wrap to nothing, and the smallest.\<close>

definition block_range :: "rgrp_tree list \<Rightarrow> u64 \<times> u64" where
  "block_range rgs =
     foldl (\<lambda>(rmin, rmax) rgd.
       let last = rt_data0 rgd + ucast (rt_data rgd)
       in (if rmin = 0 \<or> rt_data0 rgd < rmin then rt_data0 rgd else rmin,
           if last \<noteq> 0 \<and> rmax < last - 1 then last - 1 else rmax)) (0, 0) rgs"

text \<open>Also the bounds of the data. The last block is read to see that the device has it; a \<open>long\<close> has 64 bits.\<close>

definition set_block_ranges :: "fsck \<Rightarrow> (int \<times> u64 \<times> u64 \<times> fsck)" where
  "set_block_ranges st =
     (let (rmin, rmax) = block_range (inorder (fs_rgtree (fk_fs st)));
          st = st\<lparr>last_fs_block := rmax\<rparr>
      in (if fs_disk (fk_fs st) rmax = None then -1 else 0, rmin, rmax, st))"

text \<open>Of the groups that are read, the result is the block at which that failed, cut to 32 bits.\<close>

primrec free_groups :: "rgrp_tree list \<Rightarrow> device \<Rightarrow> device option" where
  "free_groups [] d = Some d"
| "free_groups (rgd # rgs) d = do { (d, _) \<leftarrow> gfs2_rgrp_relse d rgd; free_groups rgs d }"

definition gfs2_rgrp_free :: "fs \<Rightarrow> fs option" where
  "gfs2_rgrp_free fs = map_option (\<lambda>d. fs\<lparr>fs_disk := d, fs_rgtree := Leaf\<rparr>) (free_groups (inorder (fs_rgtree fs)) (fs_disk fs))"

definition to_int32 :: "u64 \<Rightarrow> int" where
  "to_int32 e = sint (ucast e :: u32)"

primrec read_groups :: "rgrp_tree list \<Rightarrow> u64 \<Rightarrow> u64 \<Rightarrow> fs \<Rightarrow> (int + (u64 \<times> u64)) \<times> fs" where
  "read_groups [] count rmax fs = (Inr (count, rmax), fs)"
| "read_groups (rgd # rgs) count rmax fs =
     (let (errblock, rgd) = gfs2_rgrp_read (fs_sdp fs) (fs_disk fs) rgd;
          fs = put_rg rgd fs;
          last = rt_data0 rgd + ucast (rt_data rgd) - 1
      in if errblock \<noteq> 0 then (Inl (to_int32 errblock), fs)
         else read_groups rgs (count + 1) (if rmax < last then last else rmax) fs)"

definition read_rgrps :: "u64 \<Rightarrow> fs \<Rightarrow> (int \<times> fs) option" where
  "read_rgrps expected fs =
     (case read_groups (inorder (fs_rgtree fs)) 0 0 fs of
        (Inl e, fs) \<Rightarrow> Some (e, fs)
      | (Inr (count, rmax), fs) \<Rightarrow>
          let fs = fs\<lparr>fs_sdp := (fs_sdp fs)\<lparr>fssize := rmax\<rparr>\<rparr>
          in if count \<noteq> expected then map_option (\<lambda>fs. (-1, fs)) (gfs2_rgrp_free fs) else Some (0, fs))"

section \<open>Mounters\<close>

text \<open>After a write that fails the device is in no known state (None).\<close>

definition block_mounters :: "bool \<Rightarrow> fs \<Rightarrow> (int \<times> gfs2_sbd \<times> device option) option" where
  "block_mounters block_em fs =
     (let swap = (\<lambda>old new p. if slice 0 5 p = str old then str new @ drop 5 p else p);
          proto = sd_lockproto (fs_sdp fs);
          proto = (if block_em then swap ''lock_'' ''fsck_'' proto else swap ''fsck_'' ''lock_'' proto);
          sdp = (fs_sdp fs)\<lparr>sd_lockproto := proto\<rparr>
      in map_option (\<lambda>(e, d). (if e \<noteq> 0 then -1 else 0, sdp, d)) (lgfs2_sb_write sdp (fs_disk fs)))"

section \<open>What a step does\<close>

text \<open>A computation that comes to a result under a condition, and whose result has a property.\<close>

definition achieves :: "bool \<Rightarrow> ('a \<Rightarrow> bool) \<Rightarrow> 'a option \<Rightarrow> bool" where
  "achieves C P r \<longleftrightarrow> (C \<longrightarrow> r \<noteq> None) \<and> returns P r"

lemma achieves_simps [simp]:
  "achieves C P (Some x) = P x" "achieves C P None = (\<not> C)" "achieves C P (map_option f r) = achieves C (\<lambda>x. P (f x)) r"
  by (auto simp: achieves_def)

lemma achieves_bind: "achieves C P r \<Longrightarrow> (\<And>x. P x \<Longrightarrow> achieves C Q (f x)) \<Longrightarrow> achieves C Q (Option.bind r f)"
  by (cases r) (auto simp: achieves_def)

lemma achieves_mono: "achieves C P r \<Longrightarrow> (\<And>x. P x \<Longrightarrow> Q x) \<Longrightarrow> achieves C Q r"
  by (auto simp: achieves_def elim: returns_mono)

lemma achieves_weaken: "achieves C P r \<Longrightarrow> (D \<Longrightarrow> C) \<Longrightarrow> achieves D P r"
  by (auto simp: achieves_def)

text \<open>What questions leave of the state.\<close>

definition asked_on :: "fsck \<Rightarrow> fsck \<Rightarrow> bool" where
  "asked_on st0 st \<longleftrightarrow> fk_fs st = fk_fs st0 \<and> opts_yes st = opts_yes st0 \<and> opts_no st = opts_no st0 \<and> skip_this_pass st = skip_this_pass st0 \<and>
     (opts_yes st0 \<longrightarrow> (\<not> fsck_abort st0 \<longrightarrow> \<not> fsck_abort st) \<and> errors_found st - errors_corrected st = errors_found st0 - errors_corrected st0)"

lemma asked_on_refl [simp]: "asked_on st st"
  by (simp add: asked_on_def)

lemma asked_on_trans: "asked_on st0 st1 \<Longrightarrow> asked_on st1 st2 \<Longrightarrow> asked_on st0 st2"
  by (simp add: asked_on_def)

lemma achieves_query:
  "achieves (opts_yes st \<or> opts_no st) (\<lambda>(ok, st'). asked_on st st' \<and> (opts_yes st \<longrightarrow> ok) \<and> (opts_no st \<and> \<not> opts_yes st \<longrightarrow> \<not> ok) \<and>
    errors_found st' = errors_found st + 1) (fsck_query st)"
  by (auto simp: fsck_query_def Let_def asked_on_def achieves_def returns_def split: option.splits)

text \<open>A group of the same shape.\<close>

definition same_shape :: "u32 \<Rightarrow> rgrp_tree \<Rightarrow> rgrp_tree \<Rightarrow> bool" where
  "same_shape b rg g \<longleftrightarrow> rg_geo b g \<and> rt_addr g = rt_addr rg \<and> rt_data0 g = rt_data0 rg \<and> rt_data g = rt_data rg \<and>
     rt_length g = rt_length rg \<and> rt_bitbytes g = rt_bitbytes rg"

lemma same_shape_refl: "rg_geo b rg \<Longrightarrow> same_shape b rg rg"
  by (simp add: same_shape_def)

lemma clear_byte_set: "y < 4 \<Longrightarrow> byte AND NOT (push_bit (2 * y) 3) = byte_set (2 * y) byte 0"
  for byte :: u8
proof -
  assume y: "y < 4"
  have three: "bit (3 :: int) n \<longleftrightarrow> n < 2" for n
  proof -
    have "(3 :: int) = mask 2" by (simp add: mask_eq_exp_minus_1)
    then show ?thesis by (simp only: bit_mask_iff possible_bit_int simp_thms)
  qed
  show ?thesis
    by (rule bit_word_eqI) (use y in \<open>auto simp: bit_byte_set bit_simps three\<close>)
qed

text \<open>Where the code finds the entry of a block.\<close>

lemma entry_at:
  assumes g: "geom b g" and x: "x < unat (rt_length g)" and p: "p < bm_end (unat b) g x - bm_start (unat b) x" and y: "y < 4"
  defines "j \<equiv> 4 * (bm_start (unat b) x + p) + y"
  shows "j < unat (rt_data g)" "bm_index (unat b) j = x" "bm_byte (unat b) j = bm_hdr x + p" "j mod 4 = y"
proof -
  note e = bm_end_bounds [OF g x] and G = geomD [OF g]
  have "j < 4 * bm_end (unat b) g x" using p y by (simp add: j_def)
  then show "j < unat (rt_data g)" using e(2) G(6) by simp
  have "4 * bm_start (unat b) x \<le> j" "j < 4 * bm_start (unat b) (Suc x)" using p y e(3) by (simp_all add: j_def)
  then show i: "bm_index (unat b) j = x" by (rule bm_index_unique [OF G(1)])
  show "j mod 4 = y" unfolding j_def using y by presburger
  have "j div 4 = bm_start (unat b) x + p" unfolding j_def using y by presburger
  then show "bm_byte (unat b) j = bm_hdr x + p" by (simp add: bm_byte_def i)
qed

lemma entry_byte:
  assumes g: "geom b g" "loaded b g" and x: "x < unat (rt_length g)" and p: "p < bm_end (unat b) g x - bm_start (unat b) x" and y: "y < 4"
  defines "j \<equiv> 4 * (bm_start (unat b) x + p) + y"
  shows "bm_hdr x + p < length (buf_of (bi_data (bits g ! x)))" "x < length (bits g)"
    "unat (drop_bit (2 * y) (rg_byte g x (bm_hdr x + p)) AND 3) = rg_state b g j"
    "clear_entry x (bm_hdr x + p) y g = rg_set b g j 0"
proof -
  note at = entry_at [OF g(1) x p y, folded j_def] and G = geomD [OF g(1)]
  obtain d where d: "bi_data (bits g ! x) = Live d" "unat b \<le> length d" using g(2) x by (auto simp: loaded_def)
  show "bm_hdr x + p < length (buf_of (bi_data (bits g ! x)))"
    using bm_byte_less [OF g(1) at(1)] at(3) d by (simp add: buf_of_def)
  show "x < length (bits g)" using x G(3) by simp
  show "unat (drop_bit (2 * y) (rg_byte g x (bm_hdr x + p)) AND 3) = rg_state b g j"
    using rg_state_byte [OF G(1), of g j d] at d by (simp add: rg_byte_def buf_of_def)
  show "clear_entry x (bm_hdr x + p) y g = rg_set b g j 0"
    using at y by (simp add: clear_entry_def rg_set_def set_bi_def rg_byte_def clear_byte_set Let_def)
qed

section \<open>A group is checked\<close>

text \<open>The count of the group against the blocks seen, and the question that was asked when a block was unlinked.\<close>

definition tallied :: "u32 \<Rightarrow> fsck \<Rightarrow> rgrp_tree \<Rightarrow> nat \<Rightarrow> rg_check \<Rightarrow> bool" where
  "tallied b st rg j c \<longleftrightarrow>
     rt_free (rc_rgd c) - rc_free c = rt_free rg - of_nat (card {k. k < j \<and> rg_state b rg k = GFS2_BLKST_FREE}) \<and>
     errors_found (rc_st c) = errors_found st + (if rc_asked c then 1 else 0) \<and>
     (rc_asked c \<longleftrightarrow> (\<exists>k < j. rg_state b rg k = GFS2_BLKST_UNLINKED))"

text \<open>What is true of the check of the first \<open>j\<close> blocks of a group.\<close>

definition checked_to :: "u32 \<Rightarrow> fsck \<Rightarrow> bool \<Rightarrow> rgrp_tree \<Rightarrow> nat \<Rightarrow> rg_check \<Rightarrow> bool" where
  "checked_to b st fixit rg j c \<longleftrightarrow> same_shape b rg (rc_rgd c) \<and> asked_on st (rc_st c) \<and> rc_diblock c = rt_data0 rg + of_nat j \<and>
     (\<forall>k < unat (rt_data rg). rg_state b (rc_rgd c) k = rg_state b rg k \<or>
        k < j \<and> rg_state b rg k = GFS2_BLKST_UNLINKED \<and> rg_state b (rc_rgd c) k = GFS2_BLKST_FREE) \<and>
     unat (rc_free c) = card {k. k < j \<and> rg_state b (rc_rgd c) k = GFS2_BLKST_FREE} \<and>
     (fixit \<longrightarrow> rc_fixit c) \<and> (rc_asked c \<and> opts_yes st \<longrightarrow> rc_fixit c) \<and>
     (fixit \<or> opts_yes st \<longrightarrow> (\<forall>k < j. rg_state b (rc_rgd c) k \<noteq> GFS2_BLKST_UNLINKED)) \<and>
     (opts_no st \<and> \<not> opts_yes st \<and> \<not> fixit \<longrightarrow> \<not> rc_fixit c) \<and> (\<not> rc_fixit c \<longrightarrow> rc_rgd c = rg) \<and>
     ((\<forall>k < j. rg_state b rg k \<noteq> GFS2_BLKST_UNLINKED) \<longrightarrow> rc_rgd c = rg \<and> rc_reclaimed c = 0 \<and> rc_st c = st \<and> rc_fixit c = fixit) \<and>
     tallied b st rg j c"

lemma checked_start: "rg_geo b rg \<Longrightarrow> checked_to b st fixit rg 0 (check_start rg fixit st)"
  by (simp add: checked_to_def check_start_def same_shape_refl tallied_def)

text \<open>The blocks can be read, and every question is answered by an option: then no check ends the program.\<close>

definition no_failure :: "fsck \<Rightarrow> rgrp_tree \<Rightarrow> bool" where
  "no_failure st rg \<longleftrightarrow> (opts_yes st \<or> opts_no st) \<and> (\<forall>j < unat (rt_data rg). fs_disk (fk_fs st) (rt_data0 rg + of_nat j) \<noteq> None)"

lemma card_lt_Suc: "card {k. k < Suc j \<and> P k} = card {k. k < j \<and> P k} + (if P j then 1 else 0)"
proof -
  have "{k. k < Suc j \<and> P k} = {k. k < j \<and> P k} \<union> (if P j then {j} else {})" by (auto simp: less_Suc_eq)
  then show ?thesis by auto
qed

lemma ex_lt_Suc: "(\<exists>k < Suc j. P k) \<longleftrightarrow> (\<exists>k < j. P k) \<or> P j"
  by (auto simp: less_Suc_eq)

lemma count_next:
  assumes "unat (n :: u32) = card {k. k < j \<and> P k}" "j < unat (rt_data rg)" "P j"
  shows "unat (n + 1) = card {k. k < Suc j \<and> P k}"
proof -
  have "card {k. k < j \<and> P k} \<le> card {..<j}" by (intro card_mono) auto
  then have "unat n + 1 < 2 ^ 32" using assms u32_lt [of "rt_data rg"] by simp
  then have "unat (n + 1) = unat n + 1" by (subst unat_add_no_wrap) simp_all
  then show ?thesis using assms by (simp add: card_lt_Suc)
qed

lemma count_reclaimed_frame [simp]:
  "bits (count_reclaimed g rg) = bits rg" "rt_data (count_reclaimed g rg) = rt_data rg" "rt_data0 (count_reclaimed g rg) = rt_data0 rg"
  "rt_length (count_reclaimed g rg) = rt_length rg" "rt_addr (count_reclaimed g rg) = rt_addr rg"
  "rt_bitbytes (count_reclaimed g rg) = rt_bitbytes rg"
  by (simp_all add: count_reclaimed_def set_rt_freemeta_def Let_def)

lemma count_reclaimed_free: "rt_free (count_reclaimed g rg) = rt_free rg + 1"
  by (simp add: count_reclaimed_def set_rt_freemeta_def Let_def)

lemma state_bits_frame: "bits g' = bits g \<Longrightarrow> rg_state b g' k = rg_state b g k"
  by (simp add: rg_state_def)

lemma shape_bits_frame:
  assumes "same_shape b rg g" "bits g' = bits g" "rt_addr g' = rt_addr g" "rt_data0 g' = rt_data0 g" "rt_data g' = rt_data g"
    "rt_length g' = rt_length g" "rt_bitbytes g' = rt_bitbytes g"
  shows "same_shape b rg g'"
proof -
  have "geom b g' = geom b g" "loaded b g' = loaded b g" using assms(2-) by (simp_all add: geom_def loaded_def)
  then show ?thesis using assms by (auto simp: same_shape_def rg_geo_def)
qed

lemma reclaim_entry:
  assumes s: "same_shape b rg g" and j: "j < unat (rt_data rg)"
  shows "same_shape b rg (count_reclaimed v (rg_set b g j 0))"
    "k < unat (rt_data rg) \<Longrightarrow> rg_state b (count_reclaimed v (rg_set b g j 0)) k = (if k = j then 0 else rg_state b g k)"
proof -
  have G: "geom b g" "loaded b g" "rt_data g = rt_data rg" using s by (auto simp: same_shape_def rg_geo_def)
  have "rt_bitbytes (rg_set b g j 0) = rt_bitbytes g" by (simp add: rg_set_def Let_def)
  then have "same_shape b rg (rg_set b g j 0)"
    using s j G rg_set_geom [OF G(1), of j 0] rg_set_loaded [OF G(1,2), of j 0] by (auto simp: same_shape_def rg_geo_def)
  then show "same_shape b rg (count_reclaimed v (rg_set b g j 0))" by (rule shape_bits_frame) simp_all
  show "rg_state b (count_reclaimed v (rg_set b g j 0)) k = (if k = j then 0 else rg_state b g k)" if "k < unat (rt_data rg)"
    using rg_set_state [OF G(1,2), of j k 0] j that G(3) by (simp add: state_bits_frame [of "count_reclaimed v (rg_set b g j 0)" "rg_set b g j 0"])
qed

lemma shape_end: "same_shape b rg g \<Longrightarrow> bm_end n g x = bm_end n rg x"
  by (simp add: same_shape_def bm_end_def)

text \<open>An entry that is counted or passed over.\<close>

lemma checked_next:
  assumes c: "checked_to b st fixit rg j c" and j: "j < unat (rt_data rg)" and
    s: "rg_state b (rc_rgd c) j \<noteq> GFS2_BLKST_UNLINKED" and
    c': "rc_rgd c' = rc_rgd c" "rc_st c' = rc_st c" "rc_asked c' = rc_asked c" "rc_fixit c' = rc_fixit c" "rc_reclaimed c' = rc_reclaimed c"
      "rc_diblock c' = rc_diblock c + 1" "rc_free c' = rc_free c + (if rg_state b (rc_rgd c) j = GFS2_BLKST_FREE then 1 else 0)"
  shows "checked_to b st fixit rg (Suc j) c'"
proof -
  have n: "unat (rc_free c') = card {k. k < Suc j \<and> rg_state b (rc_rgd c) k = GFS2_BLKST_FREE}"
  proof (cases "rg_state b (rc_rgd c) j = GFS2_BLKST_FREE")
    case True
    then show ?thesis using count_next [of "rc_free c" j "\<lambda>k. rg_state b (rc_rgd c) k = GFS2_BLKST_FREE" rg] c j c' by (simp add: checked_to_def)
  qed (use c c' in \<open>simp add: checked_to_def card_lt_Suc\<close>)
  have same: "rg_state b (rc_rgd c) j = rg_state b rg j" using c j s by (auto simp: checked_to_def)
  have "tallied b st rg j c" using c by (simp add: checked_to_def)
  then have "tallied b st rg (Suc j) c'"
    using s same by (auto simp: tallied_def c' card_lt_Suc ex_lt_Suc algebra_simps)
  then show ?thesis using c s n same unfolding checked_to_def c' by (auto simp: less_Suc_eq)
qed

lemma achieves_ask:
  assumes "checked_to b st fixit rg j c"
  shows "achieves (opts_yes st \<or> opts_no st) (\<lambda>c'. rc_asked c' \<and> (rc_fixit c \<longrightarrow> rc_fixit c') \<and> (opts_yes st \<longrightarrow> rc_fixit c') \<and>
    (opts_no st \<and> \<not> opts_yes st \<and> \<not> rc_fixit c \<longrightarrow> \<not> rc_fixit c') \<and> asked_on st (rc_st c') \<and>
    errors_found (rc_st c') = errors_found (rc_st c) + (if rc_asked c then 0 else 1) \<and>
    c' = c\<lparr>rc_asked := rc_asked c', rc_fixit := rc_fixit c', rc_st := rc_st c'\<rparr>) (ask_reclaim c)"
proof (cases "rc_asked c")
  case True
  then show ?thesis using assms by (auto simp: ask_reclaim_def checked_to_def)
next
  case False
  have o: "asked_on st (rc_st c)" using assms by (simp add: checked_to_def)
  then have y: "opts_yes (rc_st c) = opts_yes st" "opts_no (rc_st c) = opts_no st" by (simp_all add: asked_on_def)
  have "achieves (opts_yes st \<or> opts_no st) (\<lambda>(ok, st'). asked_on st st' \<and> (opts_yes st \<longrightarrow> ok) \<and> (opts_no st \<and> \<not> opts_yes st \<longrightarrow> \<not> ok) \<and>
      errors_found st' = errors_found (rc_st c) + 1) (fsck_query (rc_st c))"
    by (rule achieves_mono [OF achieves_query [of "rc_st c", unfolded y]]) (use asked_on_trans [OF o] in auto)
  then show ?thesis using False by (auto simp: ask_reclaim_def split_def elim!: achieves_mono)
qed

lemma rg_state_less: "rg_state b g j < 4"
proof -
  have "unat (w AND 3) < 4" for w :: u8
    using word_and_le1 [of w 3] by (simp add: word_le_nat_alt)
  then show ?thesis by (simp add: rg_state_def blk_state_def Let_def)
qed

lemma entry_step:
  assumes c: "checked_to b st fixit rg j c" and b: "b = fs_bsize (fk_fs st)" and x: "x < unat (rt_length rg)"
    and p: "p < bm_end (unat b) rg x - bm_start (unat b) x" and y: "y < 4" and j: "j = 4 * (bm_start (unat b) x + p) + y"
  shows "achieves (no_failure st rg) (checked_to b st fixit rg (Suc j)) (check_rg_entry x (bm_hdr x + p) y c)"
proof -
  let ?g = "rc_rgd c"
  have s: "same_shape b rg ?g" and o: "asked_on st (rc_st c)" using c by (auto simp: checked_to_def)
  then have G: "geom b ?g" "loaded b ?g" "rt_length ?g = rt_length rg" "rt_data ?g = rt_data rg" by (auto simp: same_shape_def rg_geo_def)
  have x': "x < unat (rt_length ?g)" and p': "p < bm_end (unat b) ?g x - bm_start (unat b) x"
    using x p G(3) shape_end [OF s] by simp_all
  note at = entry_at [OF G(1) x' p' y, folded j] and eb = entry_byte [OF G(1,2) x' p' y, folded j]
  have jd: "j < unat (rt_data rg)" using at(1) G(4) by simp
  have d: "rc_diblock c = rt_data0 rg + of_nat j" using c by (simp add: checked_to_def)
  have fs: "fk_fs (rc_st c) = fk_fs st" using o by (simp add: asked_on_def)
  note nx = checked_next [OF c jd]
  consider (unlinked) "rg_state b ?g j = 2" | (other) "rg_state b ?g j \<noteq> 2" by blast
  then show ?thesis
  proof cases
    case other
    have "rg_state b ?g j < 4" using rg_state_less [of b ?g j] by simp
    then consider "rg_state b ?g j = 0" | "rg_state b ?g j = 1" | "rg_state b ?g j = 3" using other by linarith
    then show ?thesis
    proof cases
      case 3
      then show ?thesis
        using eb(3) other fs d jd by (auto simp: check_rg_entry_def Let_def bread_def no_failure_def split: option.splits intro!: nx)
    qed (use eb(3) other in \<open>auto simp: check_rg_entry_def Let_def intro!: nx\<close>)
  next
    case unlinked
    have old: "rg_state b rg j = 2" using c jd unlinked by (auto simp: checked_to_def)
    have "check_rg_entry x (bm_hdr x + p) y c = Option.bind (ask_reclaim c) (\<lambda>c.
        if \<not> rc_fixit c then Some (c\<lparr>rc_unlinked := rc_unlinked c + 1, rc_diblock := rc_diblock c + 1\<rparr>)
        else Option.bind (bread (fs_disk (fk_fs st)) (rc_diblock c)) (\<lambda>bh. Some (c\<lparr>rc_rgd := count_reclaimed (sd_gfs1 (fs_sdp (fk_fs st)))
            (clear_entry x (bm_hdr x + p) y (rc_rgd c)), rc_reclaimed := rc_reclaimed c + 1, rc_free := rc_free c + 1, rc_diblock := rc_diblock c + 1\<rparr>)))"
      unfolding check_rg_entry_def Let_def eb(3) unlinked fs by simp
    moreover have "achieves (no_failure st rg) (checked_to b st fixit rg (Suc j)) \<dots>"
    proof (rule achieves_bind [OF achieves_ask [OF c, THEN achieves_weaken]])
      show "no_failure st rg \<Longrightarrow> opts_yes st \<or> opts_no st" by (simp add: no_failure_def)
    next
      fix c1
      assume "rc_asked c1 \<and> (rc_fixit c \<longrightarrow> rc_fixit c1) \<and> (opts_yes st \<longrightarrow> rc_fixit c1) \<and>
        (opts_no st \<and> \<not> opts_yes st \<and> \<not> rc_fixit c \<longrightarrow> \<not> rc_fixit c1) \<and> asked_on st (rc_st c1) \<and>
        errors_found (rc_st c1) = errors_found (rc_st c) + (if rc_asked c then 0 else 1) \<and>
        c1 = c\<lparr>rc_asked := rc_asked c1, rc_fixit := rc_fixit c1, rc_st := rc_st c1\<rparr>"
      then obtain f st1 where c1: "c1 = c\<lparr>rc_asked := True, rc_fixit := f, rc_st := st1\<rparr>" and f: "rc_fixit c \<Longrightarrow> f" "opts_yes st \<Longrightarrow> f"
        "opts_no st \<Longrightarrow> \<not> opts_yes st \<Longrightarrow> \<not> rc_fixit c \<Longrightarrow> \<not> f" and o1: "asked_on st st1"
        and er: "errors_found st1 = errors_found (rc_st c) + (if rc_asked c then 0 else 1)" by metis
      have tl: "tallied b st rg (Suc j) c2"
        if "rc_asked c2" "rc_st c2 = st1" "rt_free (rc_rgd c2) - rc_free c2 = rt_free ?g - rc_free c" for c2
      proof -
        have "tallied b st rg j c" using c by (simp add: checked_to_def)
        then show ?thesis using that er old by (auto simp: tallied_def card_lt_Suc ex_lt_Suc split: if_splits)
      qed
      show "achieves (no_failure st rg) (checked_to b st fixit rg (Suc j)) (if \<not> rc_fixit c1 then Some (c1\<lparr>rc_unlinked := rc_unlinked c1 + 1, rc_diblock := rc_diblock c1 + 1\<rparr>)
        else Option.bind (bread (fs_disk (fk_fs st)) (rc_diblock c1)) (\<lambda>bh. Some (c1\<lparr>rc_rgd := count_reclaimed (sd_gfs1 (fs_sdp (fk_fs st)))
            (clear_entry x (bm_hdr x + p) y (rc_rgd c1)), rc_reclaimed := rc_reclaimed c1 + 1, rc_free := rc_free c1 + 1, rc_diblock := rc_diblock c1 + 1\<rparr>)))"
      proof (cases f)
        case False
        have "checked_to b st fixit rg (Suc j) (c1\<lparr>rc_unlinked := rc_unlinked c1 + 1, rc_diblock := rc_diblock c1 + 1\<rparr>)"
        proof -
          have n: "\<not> fixit" "\<not> opts_yes st" "\<not> rc_fixit c" using c f False by (auto simp: checked_to_def)
          have states: "\<forall>k < unat (rt_data rg). rg_state b ?g k = rg_state b rg k \<or> k < Suc j \<and> rg_state b rg k = 2 \<and> rg_state b ?g k = 0"
            using c by (auto simp: checked_to_def)
          have "rc_rgd c = rg" using c n by (simp add: checked_to_def)
          moreover have "(\<forall>k < Suc j. rg_state b rg k \<noteq> 2) = False" using old by blast
          moreover have "tallied b st rg (Suc j) (c1\<lparr>rc_unlinked := rc_unlinked c1 + 1, rc_diblock := rc_diblock c1 + 1\<rparr>)"
            by (rule tl) (simp_all add: c1)
          ultimately show ?thesis
            using s states n False o1 c unlinked by (simp add: checked_to_def c1 card_lt_Suc) blast
        qed
        then show ?thesis using False by (simp add: c1)
      next
        case True
        let ?h = "count_reclaimed (sd_gfs1 (fs_sdp (fk_fs st))) (rg_set b ?g j 0)"
        note re = reclaim_entry [OF s jd, where v = "sd_gfs1 (fs_sdp (fk_fs st))"]
        have free: "unat (rc_free c + 1) = card {k. k < Suc j \<and> rg_state b ?h k = GFS2_BLKST_FREE}"
        proof -
          have "{k. k < j \<and> rg_state b ?h k = GFS2_BLKST_FREE} = {k. k < j \<and> rg_state b ?g k = GFS2_BLKST_FREE}" using re(2) jd by auto
          then show ?thesis using count_next [of "rc_free c" j "\<lambda>k. rg_state b ?h k = GFS2_BLKST_FREE" rg] c jd re(2) [OF jd]
            by (simp add: checked_to_def)
        qed
        have "checked_to b st fixit rg (Suc j) (c1\<lparr>rc_rgd := ?h, rc_reclaimed := rc_reclaimed c + 1, rc_free := rc_free c + 1, rc_diblock := rc_diblock c + 1\<rparr>)"
        proof -
          have states: "\<forall>k < unat (rt_data rg). rg_state b ?h k = rg_state b rg k \<or> k < Suc j \<and> rg_state b rg k = 2 \<and> rg_state b ?h k = 0"
            using c re(2) old by (auto simp: checked_to_def)
          have none: "fixit \<or> opts_yes st \<longrightarrow> (\<forall>k < Suc j. rg_state b ?h k \<noteq> 2)"
            using c re(2) jd by (auto simp: checked_to_def less_Suc_eq)
          have "tallied b st rg (Suc j) (c1\<lparr>rc_rgd := ?h, rc_reclaimed := rc_reclaimed c + 1, rc_free := rc_free c + 1, rc_diblock := rc_diblock c + 1\<rparr>)"
            by (rule tl) (simp_all add: c1 count_reclaimed_free rg_set_def Let_def)
          moreover have "(\<forall>k < Suc j. rg_state b rg k \<noteq> 2) = False" using old by blast
          ultimately show ?thesis
            using states none free re(1) True f o1 c by (simp add: checked_to_def c1) blast
        qed
        then show ?thesis using True d jd eb(4) by (auto simp: c1 bread_def no_failure_def split: option.splits)
      qed
    qed
    ultimately show ?thesis by simp
  qed
qed

text \<open>The bytes that are passed over are treated as their entries would be.\<close>

lemma check_rg_byte_entries:
  "check_rg_byte rgb pos c =
     (if length (bits (rc_rgd c)) \<le> rgb \<or> length (buf_of (bi_data (bits (rc_rgd c) ! rgb))) \<le> pos then None
      else check_rg_entries rgb pos [0..<4] c)"
proof -
  have four: "[0..<4] = [0, 1, 2, 3 :: nat]" by (simp add: upt_rec)
  have r: "(c\<lparr>rc_diblock := d, rc_free := n\<rparr>)\<lparr>rc_diblock := e\<rparr> = c\<lparr>rc_diblock := e, rc_free := n\<rparr>" for c :: rg_check and d e n by simp
  have a: "(n + 1 + 1 + 1 + 1 :: 'a :: len word) = n + 4" for n by simp
  have "check_rg_entries rgb pos [0..<4] c = Some (c\<lparr>rc_diblock := rc_diblock c + 4\<rparr>)" if "rg_byte (rc_rgd c) rgb pos = 0x55"
    using that by (simp add: four check_rg_entry_def Let_def)
  moreover have "check_rg_entries rgb pos [0..<4] c = Some (c\<lparr>rc_diblock := rc_diblock c + 4, rc_free := rc_free c + 4\<rparr>)"
    if "rg_byte (rc_rgd c) rgb pos = 0"
    using that by (simp add: four check_rg_entry_def Let_def)
  ultimately show ?thesis by (simp add: check_rg_byte_def)
qed

lemma byte_step:
  assumes c: "checked_to b st fixit rg (4 * (bm_start (unat b) x + p)) c" and b: "b = fs_bsize (fk_fs st)" and x: "x < unat (rt_length rg)"
    and p: "p < bm_end (unat b) rg x - bm_start (unat b) x"
  shows "achieves (no_failure st rg) (checked_to b st fixit rg (4 * (bm_start (unat b) x + Suc p))) (check_rg_byte x (bm_hdr x + p) c)"
proof -
  have step: "achieves (no_failure st rg) (checked_to b st fixit rg (4 * (bm_start (unat b) x + p) + 4))
      (check_rg_entries x (bm_hdr x + p) [y..<4] c')"
    if "y \<le> 4" "checked_to b st fixit rg (4 * (bm_start (unat b) x + p) + y) c'" for y c' using that
  proof (induction "4 - y" arbitrary: y c')
    case (Suc n)
    have "y < 4" using Suc.hyps(2) by simp
    from entry_step [OF Suc.prems(2) b x p this refl] Suc.hyps(1) [of "Suc y"] Suc.hyps(2) Suc.prems \<open>y < 4\<close>
    show ?case by (auto simp: upt_conv_Cons intro!: achieves_bind)
  qed simp
  have s: "same_shape b rg (rc_rgd c)" using c by (simp add: checked_to_def)
  then have G: "geom b (rc_rgd c)" "loaded b (rc_rgd c)" "rt_length (rc_rgd c) = rt_length rg" by (auto simp: same_shape_def rg_geo_def)
  then have "x < length (bits (rc_rgd c))" "bm_hdr x + p < length (buf_of (bi_data (bits (rc_rgd c) ! x)))"
    using entry_byte(1,2) [OF G(1,2), of x p 0] x p shape_end [OF s] by simp_all
  then show ?thesis using step [of 0 c] c by (simp add: check_rg_byte_entries algebra_simps)
qed

lemma bytes_step:
  assumes b: "b = fs_bsize (fk_fs st)" and x: "x < unat (rt_length rg)"
  shows "p + n = bm_end (unat b) rg x - bm_start (unat b) x \<Longrightarrow> checked_to b st fixit rg (4 * (bm_start (unat b) x + p)) c \<Longrightarrow>
    achieves (no_failure st rg) (checked_to b st fixit rg (4 * (bm_start (unat b) x + (p + n))))
      (check_rg_bytes x [bm_hdr x + p..<bm_hdr x + p + n] c)"
proof (induction n arbitrary: p c)
  case (Suc n)
  have p: "p < bm_end (unat b) rg x - bm_start (unat b) x" using Suc.prems(1) by simp
  have "Suc p + n = bm_end (unat b) rg x - bm_start (unat b) x" using Suc.prems(1) by simp
  from achieves_bind [OF byte_step [OF Suc.prems(2) b x p] Suc.IH [OF this]]
  have "achieves (no_failure st rg) (checked_to b st fixit rg (4 * (bm_start (unat b) x + (Suc p + n))))
      (check_rg_bytes x ((bm_hdr x + p) # [bm_hdr x + Suc p..<bm_hdr x + Suc p + n]) c)" by simp
  moreover have "[bm_hdr x + p..<bm_hdr x + p + Suc n] = (bm_hdr x + p) # [bm_hdr x + Suc p..<bm_hdr x + Suc p + n]"
    by (simp add: upt_conv_Cons del: upt_Suc)
  moreover have "Suc p + n = p + Suc n" by simp
  ultimately show ?case by (simp only:)
qed simp

lemma blocks_step:
  assumes b: "b = fs_bsize (fk_fs st)" and g: "geom b rg"
  shows "x \<le> unat (rt_length rg) \<Longrightarrow> x < unat (rt_length rg) \<or> tot = 0 \<Longrightarrow> unat tot = unat (rt_bitbytes rg) - bm_start (unat b) x \<Longrightarrow>
    checked_to b st fixit rg (if x < unat (rt_length rg) then 4 * bm_start (unat b) x else unat (rt_data rg)) c \<Longrightarrow>
    achieves (no_failure st rg) (checked_to b st fixit rg (unat (rt_data rg)))
      (check_rg_blocks b [x..<unat (rt_length rg)] tot c)"
proof (induction "unat (rt_length rg) - x" arbitrary: x tot c)
  case (Suc n)
  note G = geomD [OF g]
  have x: "x < unat (rt_length rg)" using Suc.hyps(2) by simp
  let ?off = "(if x \<noteq> 0 then 24 else 128) :: nat" and ?n = "bm_end (unat b) rg x - bm_start (unat b) x"
  have off: "?off = bm_hdr x" by (simp add: bm_hdr_def)
  have hdr: "bm_hdr x < unat b" using G(1) by (simp add: bm_hdr_def)
  have o32: "unat (of_nat (bm_hdr x) :: u32) = bm_hdr x" by (simp add: bm_hdr_def)
  have space: "unat (b - of_nat (bm_hdr x)) = unat b - bm_hdr x"
    using hdr o32 by (subst unat_sub) (simp_all add: word_le_nat_alt)
  note e = bm_end_bounds [OF g x] and S = bm_start_Suc [OF G(1), of x]
  let ?bytes = "if tot \<le> b - of_nat ?off then tot else b - of_nat ?off"
  have bytes: "unat ?bytes = ?n"
  proof (cases "Suc x = unat (rt_length rg)")
    case True
    then have "bm_end (unat b) rg x = unat (rt_bitbytes rg)" by (simp add: bm_end_def)
    then show ?thesis using Suc.prems(3) e(3) S space unfolding off by (auto simp: word_le_nat_alt)
  next
    case False
    then have "bm_end (unat b) rg x = bm_start (unat b) (Suc x)" by (simp add: bm_end_def)
    moreover have "bm_start (unat b) (Suc x) \<le> bm_start (unat b) (unat (rt_length rg) - 1)"
      using bm_start_mono [OF G(1)] x False by simp
    ultimately show ?thesis using Suc.prems(3) S space G(4) unfolding off by (auto simp: word_le_nat_alt)
  qed
  have rest: "unat (tot - ?bytes) = unat (rt_bitbytes rg) - bm_end (unat b) rg x"
    using bytes e Suc.prems(3) by (subst unat_sub) (auto simp: word_le_nat_alt)
  have one: "achieves (no_failure st rg) (checked_to b st fixit rg (4 * (bm_start (unat b) x + (0 + ?n))))
      (check_rg_bytes x [bm_hdr x + 0..<bm_hdr x + 0 + ?n] c)"
    by (rule bytes_step [OF b x]) (use Suc.prems(4) x in simp_all)
  have two: "achieves (no_failure st rg) (checked_to b st fixit rg (unat (rt_data rg)))
      (check_rg_blocks b [Suc x..<unat (rt_length rg)] (tot - ?bytes) c')"
    if "checked_to b st fixit rg (4 * (bm_start (unat b) x + (0 + ?n))) c'" for c'
  proof (rule Suc.hyps(1))
    show "n = unat (rt_length rg) - Suc x" "Suc x \<le> unat (rt_length rg)" using Suc.hyps(2) x by simp_all
    show "Suc x < unat (rt_length rg) \<or> tot - ?bytes = 0"
    proof (cases "Suc x = unat (rt_length rg)")
      case True
      then have "unat (tot - ?bytes) = 0" using rest by (simp add: bm_end_def)
      then show ?thesis by (simp only: unat_eq_0 simp_thms)
    qed (use x in simp)
    show "unat (tot - ?bytes) = unat (rt_bitbytes rg) - bm_start (unat b) (Suc x)"
      using rest e(3) G(5) bm_start_mono [OF G(1), of "unat (rt_length rg)" "Suc x"] x by (auto simp: bm_end_def)
    show "checked_to b st fixit rg (if Suc x < unat (rt_length rg) then 4 * bm_start (unat b) (Suc x) else unat (rt_data rg)) c'"
    proof -
      have "4 * (bm_start (unat b) x + (0 + ?n)) = 4 * bm_end (unat b) rg x" using e(1) by simp
      then show ?thesis using that x G(6) by (auto simp: bm_end_def)
    qed
  qed
  have "check_rg_blocks b [x..<unat (rt_length rg)] tot c =
      Option.bind (check_rg_bytes x [bm_hdr x + 0..<bm_hdr x + 0 + ?n] c) (check_rg_blocks b [Suc x..<unat (rt_length rg)] (tot - ?bytes))"
    by (simp only: upt_conv_Cons [OF x] check_rg_blocks.simps Let_def bytes) (simp only: off add_0_right)
  then show ?case using achieves_bind [OF one two] by simp
qed simp

text \<open>The counts and the header change no state of a block.\<close>

definition touched :: "u32 \<Rightarrow> rgrp_tree \<Rightarrow> rgrp_tree \<Rightarrow> bool" where
  "touched b g h \<longleftrightarrow> same_shape b g h \<and> (\<forall>k. rg_state b h k = rg_state b g k)"

lemma touched_refl: "rg_geo b g \<Longrightarrow> touched b g g"
  by (simp add: touched_def same_shape_refl)

lemma touched_trans: "touched b g h \<Longrightarrow> touched b h i \<Longrightarrow> touched b g i"
  by (auto simp: touched_def same_shape_def)

lemma touched_geo: "touched b g h \<Longrightarrow> rg_geo b h"
  by (simp add: touched_def same_shape_def)

lemma touched_header: "rg_geo b g \<Longrightarrow> touched b g (rgrp_header_out sdp g)"
  by (auto simp: touched_def same_shape_def rg_geo_def header_out_geom header_out_loaded header_out_state)

lemma touched_fields:
  assumes "rg_geo b g" "bits h = bits g" "rt_addr h = rt_addr g" "rt_data0 h = rt_data0 g" "rt_data h = rt_data g"
    "rt_length h = rt_length g" "rt_bitbytes h = rt_bitbytes g"
  shows "touched b g h"
  using shape_bits_frame [OF same_shape_refl [OF assms(1)] assms(2-)] state_bits_frame [OF assms(2)] by (simp add: touched_def)

lemma set_counts_touch:
  "rg_geo b g \<Longrightarrow> touched b g (g\<lparr>rt_free := v\<rparr>)" "rg_geo b g \<Longrightarrow> touched b g (set_rt_freemeta v g)"
  "rg_geo b g \<Longrightarrow> touched b g (set_rt_useddi v g)" "rg_geo b g \<Longrightarrow> touched b g (set_rt_usedmeta v g)"
  by (rule touched_fields; simp add: set_rt_freemeta_def set_rt_useddi_def set_rt_usedmeta_def)+

lemma fix_count_achieves:
  assumes g: "rg_geo b g" and u: "touched b g (upd g)"
  shows "achieves (opts_yes st \<or> opts_no st) (\<lambda>(h, st'). asked_on st st' \<and> touched b g h \<and> (h = g \<or> rt_free h = rt_free (upd g)) \<and>
    (opts_yes st \<and> wrong \<longrightarrow> rt_free h = rt_free (upd g)) \<and> (opts_no st \<and> \<not> opts_yes st \<longrightarrow> h = g) \<and> (\<not> wrong \<longrightarrow> h = g \<and> st' = st) \<and>
    errors_found st' = errors_found st + (if wrong then 1 else 0))
    (fix_count wrong upd g st)"
proof (cases wrong)
  case True
  have t: "touched b g (rgrp_header_out sdp (upd g))" for sdp
    by (rule touched_trans [OF u touched_header [OF touched_geo [OF u]]])
  show ?thesis
    using True by (auto simp: fix_count_def split_def t touched_refl [OF g] intro!: achieves_mono [OF achieves_query])
qed (use g in \<open>simp add: fix_count_def touched_refl\<close>)

lemma free_frame [simp]:
  "rt_free (set_rt_freemeta v g) = rt_free g" "rt_free (set_rt_useddi v g) = rt_free g" "rt_free (set_rt_usedmeta v g) = rt_free g"
  by (simp_all add: set_rt_freemeta_def set_rt_useddi_def set_rt_usedmeta_def)

lemma fix_counts_achieves:
  assumes g: "rg_geo b g"
  shows "achieves (opts_yes st \<or> opts_no st) (\<lambda>(h, st'). asked_on st st' \<and> touched b g h \<and> (opts_yes st \<longrightarrow> rt_free h = rc_free c) \<and>
    (opts_no st \<and> \<not> opts_yes st \<longrightarrow> h = g) \<and> (\<not> sd_gfs1 (fs_sdp (fk_fs st)) \<and> rt_free g = rc_free c \<longrightarrow> h = g \<and> st' = st) \<and>
    (\<not> sd_gfs1 (fs_sdp (fk_fs st)) \<longrightarrow> errors_found st' = errors_found st + (if rt_free g = rc_free c then 0 else 1)))
    (fix_counts c g st)"
proof -
  let ?I = "\<lambda>(h, st'). asked_on st st' \<and> touched b g h \<and> (opts_yes st \<longrightarrow> rt_free h = rc_free c) \<and> (opts_no st \<and> \<not> opts_yes st \<longrightarrow> h = g)"
  have more: "achieves (opts_yes st \<or> opts_no st) ?I (fix_count wrong upd h st')"
    if "?I (h, st')" and u: "rg_geo b h \<Longrightarrow> touched b h (upd h)" "rt_free (upd h) = rt_free h" for wrong upd h st'
  proof -
    have h: "rg_geo b h" and o: "asked_on st st'" using that(1) by (auto intro: touched_geo)
    then have y: "opts_yes st' = opts_yes st" "opts_no st' = opts_no st" by (simp_all add: asked_on_def)
    show ?thesis
      by (rule achieves_mono [OF fix_count_achieves [where g = h and upd = upd and wrong = wrong and st = st', OF h u(1) [OF h], unfolded y]])
        (use that(1) u(2) in \<open>auto intro: asked_on_trans touched_trans\<close>)
  qed
  have first: "achieves (opts_yes st \<or> opts_no st) (\<lambda>(h, st'). ?I (h, st') \<and> (rt_free g = rc_free c \<longrightarrow> h = g \<and> st' = st) \<and>
      errors_found st' = errors_found st + (if rt_free g = rc_free c then 0 else 1))
      (fix_count (rt_free g \<noteq> rc_free c) (\<lambda>g. g\<lparr>rt_free := rc_free c\<rparr>) g st)"
    by (rule achieves_mono [OF fix_count_achieves [where upd = "\<lambda>g. g\<lparr>rt_free := rc_free c\<rparr>", OF g set_counts_touch(1) [OF g]]]) auto
  have m2: "achieves (opts_yes st \<or> opts_no st) ?I (fix_count wrong (set_rt_freemeta v) h st')" if "?I (h, st')" for wrong v h st'
    by (rule more [where upd = "set_rt_freemeta v", OF that set_counts_touch(2) free_frame(1)])
  have m3: "achieves (opts_yes st \<or> opts_no st) ?I (fix_count wrong (set_rt_useddi v) h st')" if "?I (h, st')" for wrong v h st'
    by (rule more [where upd = "set_rt_useddi v", OF that set_counts_touch(3) free_frame(2)])
  have m4: "achieves (opts_yes st \<or> opts_no st) ?I (fix_count wrong (set_rt_usedmeta v) h st')" if "?I (h, st')" for wrong v h st'
    by (rule more [where upd = "set_rt_usedmeta v", OF that set_counts_touch(4) free_frame(3)])
  have last: "achieves (opts_yes st \<or> opts_no st) ?I (case x of (rgd, st) \<Rightarrow> fix_count (rt_usedmeta rgd \<noteq> rc_usedmeta c) (set_rt_usedmeta (rc_usedmeta c)) rgd st)"
    if "?I x" for x
  proof -
    obtain h st' where x: "x = (h, st')" by fastforce
    have "?I (h, st')" using that unfolding x .
    then show ?thesis unfolding x prod.case by (rule m4 [unfolded prod.case])
  qed
  have rest: "achieves (opts_yes st \<or> opts_no st) ?I (do {
       (rgd, st) \<leftarrow> fix_count (rt_freemeta h \<noteq> rc_unlinked c) (set_rt_freemeta (rc_unlinked c)) h st';
       (rgd, st) \<leftarrow> fix_count (rt_useddi rgd \<noteq> rc_useddi c) (set_rt_useddi (rc_useddi c)) rgd st;
       fix_count (rt_usedmeta rgd \<noteq> rc_usedmeta c) (set_rt_usedmeta (rc_usedmeta c)) rgd st })" if "?I (h, st')" for h st'
  proof (rule achieves_bind [OF m2 [OF that]])
    fix x
    assume "?I x"
    then have "?I (fst x, snd x)" by simp
    then show "achieves (opts_yes st \<or> opts_no st) ?I (case x of (rgd, st) \<Rightarrow> do {
       (rgd, st) \<leftarrow> fix_count (rt_useddi rgd \<noteq> rc_useddi c) (set_rt_useddi (rc_useddi c)) rgd st;
       fix_count (rt_usedmeta rgd \<noteq> rc_usedmeta c) (set_rt_usedmeta (rc_usedmeta c)) rgd st })"
      unfolding case_prod_beta [of _ x] by (intro achieves_bind [OF m3] last)
  qed
  show ?thesis unfolding fix_counts_def
  proof (rule achieves_bind [OF first])
    fix x
    assume x: "case x of (h, st') \<Rightarrow> ?I (h, st') \<and> (rt_free g = rc_free c \<longrightarrow> h = g \<and> st' = st) \<and>
      errors_found st' = errors_found st + (if rt_free g = rc_free c then 0 else 1)"
    obtain h st' where h: "x = (h, st')" by fastforce
    have I: "?I (h, st')" using x h by simp
    then have f: "fk_fs st' = fk_fs st" by (simp add: asked_on_def)
    show "achieves (opts_yes st \<or> opts_no st) (\<lambda>(h, st'). asked_on st st' \<and> touched b g h \<and> (opts_yes st \<longrightarrow> rt_free h = rc_free c) \<and>
        (opts_no st \<and> \<not> opts_yes st \<longrightarrow> h = g) \<and> (\<not> sd_gfs1 (fs_sdp (fk_fs st)) \<and> rt_free g = rc_free c \<longrightarrow> h = g \<and> st' = st) \<and>
        (\<not> sd_gfs1 (fs_sdp (fk_fs st)) \<longrightarrow> errors_found st' = errors_found st + (if rt_free g = rc_free c then 0 else 1)))
      (case x of (rgd, st) \<Rightarrow> if \<not> sd_gfs1 (fs_sdp (fk_fs st)) then Some (rgd, st) else do {
         (rgd, st) \<leftarrow> fix_count (rt_freemeta rgd \<noteq> rc_unlinked c) (set_rt_freemeta (rc_unlinked c)) rgd st;
         (rgd, st) \<leftarrow> fix_count (rt_useddi rgd \<noteq> rc_useddi c) (set_rt_useddi (rc_useddi c)) rgd st;
         fix_count (rt_usedmeta rgd \<noteq> rc_usedmeta c) (set_rt_usedmeta (rc_usedmeta c)) rgd st })"
    proof (cases "sd_gfs1 (fs_sdp (fk_fs st))")
      case False
      then show ?thesis using x h f by simp
    next
      case True
      then have "sd_gfs1 (fs_sdp (fk_fs st'))" using f by simp
      then have run: "(if \<not> sd_gfs1 (fs_sdp (fk_fs st')) then Some (h, st') else r) = r" for r by simp
      show ?thesis unfolding h prod.case run by (rule achieves_mono [OF rest [OF I]]) (use True in auto)
    qed
  qed
qed

lemma group_checked:
  assumes fs: "fs_geo (fk_fs st)" "rg \<in> set (fs_rgs (fk_fs st))" and b: "b = fs_bsize (fk_fs st)"
  shows "achieves (no_failure st rg) (\<lambda>(r, st'). \<exists>h st1. st' = st1\<lparr>fk_fs := put_rg h (fk_fs st)\<rparr> \<and> asked_on st st1 \<and> same_shape b rg h \<and>
    (\<forall>k < unat (rt_data rg). rg_state b h k = rg_state b rg k \<or> rg_state b rg k = GFS2_BLKST_UNLINKED \<and> rg_state b h k = GFS2_BLKST_FREE) \<and>
    (fixit \<longrightarrow> r) \<and> (fixit \<or> opts_yes st \<longrightarrow> (\<forall>k < unat (rt_data rg). rg_state b h k \<noteq> GFS2_BLKST_UNLINKED)) \<and>
    (opts_yes st \<longrightarrow> unat (rt_free h) = free_blocks b h) \<and> (opts_no st \<and> \<not> opts_yes st \<and> \<not> fixit \<longrightarrow> \<not> r \<and> h = rg) \<and>
    (\<not> sd_gfs1 (fs_sdp (fk_fs st)) \<and> (\<forall>k < unat (rt_data rg). rg_state b rg k \<noteq> GFS2_BLKST_UNLINKED) \<and> unat (rt_free rg) = free_blocks b rg \<longrightarrow>
       h = rg \<and> st1 = st \<and> r = fixit) \<and>
    (\<not> sd_gfs1 (fs_sdp (fk_fs st)) \<longrightarrow> errors_found st1 = errors_found st +
       (if \<exists>k < unat (rt_data rg). rg_state b rg k = GFS2_BLKST_UNLINKED then 1 else 0) + (if unat (rt_free rg) = free_blocks b rg then 0 else 1)))
    (check_rgrp_integrity rg fixit st)"
proof -
  let ?n = "unat (rt_data rg)"
  have geo: "rg_geo b rg" "geom b rg" using fs by (auto simp: fs_geo_def b rg_geo_def)
  have len: "0 < unat (rt_length rg)" using geomD(2) [OF geo(2)] .
  have loop: "achieves (no_failure st rg) (checked_to b st fixit rg ?n)
      (check_rg_blocks b [0..<unat (rt_length rg)] (rt_bitbytes rg) (check_start rg fixit st))"
    by (rule blocks_step [OF b geo(2)]) (use len checked_start [OF geo(1), of st fixit] in simp_all)
  show ?thesis
    unfolding check_rgrp_integrity_def Let_def fs_bsize_def [symmetric] b [symmetric]
  proof (rule achieves_bind [OF loop])
    fix c
    assume c: "checked_to b st fixit rg ?n c"
    let ?g = "if rc_reclaimed c \<noteq> 0 \<and> rc_fixit c then rgrp_header_out (fs_sdp (fk_fs st)) (rc_rgd c) else rc_rgd c"
    have s: "same_shape b rg (rc_rgd c)" and o: "asked_on st (rc_st c)" using c by (auto simp: checked_to_def)
    then have "rg_geo b (rc_rgd c)" by (simp add: same_shape_def)
    then have t: "touched b (rc_rgd c) ?g" using touched_refl touched_header by simp
    have y: "opts_yes (rc_st c) = opts_yes st" "opts_no (rc_st c) = opts_no st" "fk_fs (rc_st c) = fk_fs st" using o by (simp_all add: asked_on_def)
    show "achieves (no_failure st rg) (\<lambda>(r, st'). \<exists>h st1. st' = st1\<lparr>fk_fs := put_rg h (fk_fs st)\<rparr> \<and> asked_on st st1 \<and> same_shape b rg h \<and>
      (\<forall>k < ?n. rg_state b h k = rg_state b rg k \<or> rg_state b rg k = GFS2_BLKST_UNLINKED \<and> rg_state b h k = GFS2_BLKST_FREE) \<and>
      (fixit \<longrightarrow> r) \<and> (fixit \<or> opts_yes st \<longrightarrow> (\<forall>k < ?n. rg_state b h k \<noteq> GFS2_BLKST_UNLINKED)) \<and>
      (opts_yes st \<longrightarrow> unat (rt_free h) = free_blocks b h) \<and> (opts_no st \<and> \<not> opts_yes st \<and> \<not> fixit \<longrightarrow> \<not> r \<and> h = rg) \<and>
      (\<not> sd_gfs1 (fs_sdp (fk_fs st)) \<and> (\<forall>k < ?n. rg_state b rg k \<noteq> GFS2_BLKST_UNLINKED) \<and> unat (rt_free rg) = free_blocks b rg \<longrightarrow>
         h = rg \<and> st1 = st \<and> r = fixit) \<and>
      (\<not> sd_gfs1 (fs_sdp (fk_fs st)) \<longrightarrow> errors_found st1 = errors_found st +
       (if \<exists>k < ?n. rg_state b rg k = GFS2_BLKST_UNLINKED then 1 else 0) + (if unat (rt_free rg) = free_blocks b rg then 0 else 1)))
      (do { (rgd, st) \<leftarrow> fix_counts c ?g (rc_st c); Some (rc_fixit c, st\<lparr>fk_fs := put_rg rgd (fk_fs st)\<rparr>) })"
    proof (rule achieves_bind [OF fix_counts_achieves [where st = "rc_st c" and c = c, OF touched_geo [OF t], unfolded y, THEN achieves_weaken]])
      show "no_failure st rg \<Longrightarrow> opts_yes st \<or> opts_no st" by (simp add: no_failure_def)
    next
      fix x
      assume x: "case x of (h, st') \<Rightarrow> asked_on (rc_st c) st' \<and> touched b ?g h \<and> (opts_yes st \<longrightarrow> rt_free h = rc_free c) \<and>
        (opts_no st \<and> \<not> opts_yes st \<longrightarrow> h = ?g) \<and> (\<not> sd_gfs1 (fs_sdp (fk_fs st)) \<and> rt_free ?g = rc_free c \<longrightarrow> h = ?g \<and> st' = rc_st c) \<and>
        (\<not> sd_gfs1 (fs_sdp (fk_fs st)) \<longrightarrow> errors_found st' = errors_found (rc_st c) + (if rt_free ?g = rc_free c then 0 else 1))"
      obtain h st1 where h: "x = (h, st1)" by fastforce
      have th: "touched b (rc_rgd c) h" using touched_trans [OF t] x h by simp
      have o1: "asked_on st st1" using asked_on_trans [OF o] x h by simp
      have shape: "same_shape b rg h" using th s by (auto simp: touched_def same_shape_def)
      have state: "rg_state b h k = rg_state b (rc_rgd c) k" for k using th by (simp add: touched_def)
      have free: "unat (rt_free h) = free_blocks b h" if "opts_yes st"
      proof -
        have "rt_data h = rt_data rg" using shape by (simp add: same_shape_def)
        then show ?thesis using x h c that by (simp add: checked_to_def free_blocks_def state)
      qed
      have clean: "h = rg \<and> st1 = st \<and> rc_fixit c = fixit"
        if "\<not> sd_gfs1 (fs_sdp (fk_fs st))" "\<forall>k < ?n. rg_state b rg k \<noteq> 2" "unat (rt_free rg) = free_blocks b rg"
      proof -
        have e: "rc_rgd c = rg" "rc_reclaimed c = 0" "rc_st c = st" "rc_fixit c = fixit" using c that(2) by (auto simp: checked_to_def)
        then have "unat (rc_free c) = unat (rt_free rg)" using c that(3) by (simp add: checked_to_def free_blocks_def)
        then have "rt_free rg = rc_free c" by (simp add: word_unat_eq_iff)
        then show ?thesis using x h e that(1) by simp
      qed
      have no: "\<not> rc_fixit c \<and> h = rg" if "opts_no st" "\<not> opts_yes st" "\<not> fixit" using c x h that by (simp add: checked_to_def)
      have errors: "errors_found st1 = errors_found st + (if \<exists>k < ?n. rg_state b rg k = 2 then 1 else 0)
          + (if unat (rt_free rg) = free_blocks b rg then 0 else 1)" if "\<not> sd_gfs1 (fs_sdp (fk_fs st))"
      proof -
        have t: "tallied b st rg ?n c" using c by (simp add: checked_to_def)
        have small: "free_blocks b rg < 2 ^ 32"
        proof -
          have "free_blocks b rg \<le> card {..<?n}" unfolding free_blocks_def by (rule card_mono) auto
          then show ?thesis using u32_lt [of "rt_data rg"] by simp
        qed
        have "rt_free (rc_rgd c) - rc_free c = rt_free rg - of_nat (free_blocks b rg)"
          using t by (simp add: tallied_def free_blocks_def)
        then have "rt_free (rc_rgd c) = rc_free c \<longleftrightarrow> rt_free rg = of_nat (free_blocks b rg)"
          by (metis eq_iff_diff_eq_0)
        also have "\<dots> \<longleftrightarrow> unat (rt_free rg) = free_blocks b rg"
          using small by (simp add: word_unat_eq_iff unat_of_nat_small)
        finally show ?thesis using x h t that by (simp add: tallied_def)
      qed
      have f: "fk_fs st1 = fk_fs st" using o1 by (simp add: asked_on_def)
      show "achieves (no_failure st rg) (\<lambda>(r, st'). \<exists>h st1. st' = st1\<lparr>fk_fs := put_rg h (fk_fs st)\<rparr> \<and> asked_on st st1 \<and> same_shape b rg h \<and>
        (\<forall>k < ?n. rg_state b h k = rg_state b rg k \<or> rg_state b rg k = GFS2_BLKST_UNLINKED \<and> rg_state b h k = GFS2_BLKST_FREE) \<and>
        (fixit \<longrightarrow> r) \<and> (fixit \<or> opts_yes st \<longrightarrow> (\<forall>k < ?n. rg_state b h k \<noteq> GFS2_BLKST_UNLINKED)) \<and>
        (opts_yes st \<longrightarrow> unat (rt_free h) = free_blocks b h) \<and> (opts_no st \<and> \<not> opts_yes st \<and> \<not> fixit \<longrightarrow> \<not> r \<and> h = rg) \<and>
        (\<not> sd_gfs1 (fs_sdp (fk_fs st)) \<and> (\<forall>k < ?n. rg_state b rg k \<noteq> GFS2_BLKST_UNLINKED) \<and> unat (rt_free rg) = free_blocks b rg \<longrightarrow>
           h = rg \<and> st1 = st \<and> r = fixit) \<and>
        (\<not> sd_gfs1 (fs_sdp (fk_fs st)) \<longrightarrow> errors_found st1 = errors_found st +
       (if \<exists>k < ?n. rg_state b rg k = GFS2_BLKST_UNLINKED then 1 else 0) + (if unat (rt_free rg) = free_blocks b rg then 0 else 1)))
        (case x of (rgd, st) \<Rightarrow> Some (rc_fixit c, st\<lparr>fk_fs := put_rg rgd (fk_fs st)\<rparr>))"
        unfolding h prod.case achieves_simps f
        by (intro exI [of _ h] exI [of _ st1]) (use o1 shape state free clean no errors c in \<open>simp add: checked_to_def\<close>)
    qed
  qed
qed

section \<open>All groups are checked\<close>

text \<open>What the check leaves of a group: blocks keep their state but for unlinked ones that are freed; with \<open>settle\<close> no block is
  unlinked and the count of free blocks is that of the bitmaps.\<close>

definition reclaimed :: "u32 \<Rightarrow> bool \<Rightarrow> rgrp_tree \<Rightarrow> rgrp_tree \<Rightarrow> bool" where
  "reclaimed b settle rg h \<longleftrightarrow> same_shape b rg h \<and>
     (\<forall>k < unat (rt_data rg). rg_state b h k = rg_state b rg k \<or> rg_state b rg k = GFS2_BLKST_UNLINKED \<and> rg_state b h k = GFS2_BLKST_FREE) \<and>
     (settle \<longrightarrow> (\<forall>k < unat (rt_data rg). rg_state b h k \<noteq> GFS2_BLKST_UNLINKED) \<and> unat (rt_free h) = free_blocks b h)"

definition clean_group :: "u32 \<Rightarrow> rgrp_tree \<Rightarrow> bool" where
  "clean_group b rg \<longleftrightarrow> (\<forall>k < unat (rt_data rg). rg_state b rg k \<noteq> GFS2_BLKST_UNLINKED) \<and> unat (rt_free rg) = free_blocks b rg"

text \<open>The errors of a group: one when it has unlinked blocks, one when its free count is wrong.\<close>

definition group_errors :: "u32 \<Rightarrow> rgrp_tree \<Rightarrow> nat" where
  "group_errors b rg = (if \<exists>k < unat (rt_data rg). rg_state b rg k = GFS2_BLKST_UNLINKED then 1 else 0) +
     (if unat (rt_free rg) = free_blocks b rg then 0 else 1)"

text \<open>What is true after the groups \<open>rs\<close> behind \<open>ds\<close>.\<close>

definition groups_done :: "fsck \<Rightarrow> rgrp_tree list \<Rightarrow> rgrp_tree list \<Rightarrow> fsck \<Rightarrow> bool" where
  "groups_done st ds rs st' \<longleftrightarrow> fs_geo (fk_fs st') \<and> fs_sdp (fk_fs st') = fs_sdp (fk_fs st) \<and> fs_disk (fk_fs st') = fs_disk (fk_fs st) \<and>
     opts_yes st' = opts_yes st \<and> opts_no st' = opts_no st \<and> (opts_yes st \<longrightarrow> (\<not> fsck_abort st \<longrightarrow> \<not> fsck_abort st') \<and>
       errors_found st' - errors_corrected st' = errors_found st - errors_corrected st) \<and>
     (\<exists>hs. fs_rgs (fk_fs st') = ds @ hs \<and> list_all2 (reclaimed (fs_bsize (fk_fs st)) (opts_yes st \<and> \<not> fsck_abort st)) rs hs) \<and>
     (\<not> sd_gfs1 (fs_sdp (fk_fs st)) \<and> (\<forall>rg \<in> set rs. clean_group (fs_bsize (fk_fs st)) rg) \<longrightarrow> st' = st) \<and>
     (\<not> sd_gfs1 (fs_sdp (fk_fs st)) \<and> opts_yes st \<and> \<not> fsck_abort st \<longrightarrow>
       errors_found st' = errors_found st + int (\<Sum>rg\<leftarrow>rs. group_errors (fs_bsize (fk_fs st)) rg))"

lemma groups_loop:
  "fs_geo (fk_fs st) \<Longrightarrow> fs_rgs (fk_fs st) = ds @ rs \<Longrightarrow>
    achieves (\<forall>rg \<in> set rs. no_failure st rg) (groups_done st ds rs) (check_groups rs fixit st)"
proof (induction rs arbitrary: ds st fixit)
  case Nil
  then show ?case by (simp add: groups_done_def)
next
  case (Cons rg rs)
  let ?fs = "fk_fs st" and ?b = "fs_bsize (fk_fs st)"
  have rg: "rg \<in> set (fs_rgs ?fs)" using Cons.prems(2) by simp
  show ?case
  proof (cases "fsck_abort st")
    case True
    have "list_all2 (reclaimed ?b False) (rg # rs) (rg # rs)"
      using Cons.prems by (auto simp: list_all2_same reclaimed_def same_shape_refl fs_geo_def)
    then show ?thesis using True Cons.prems by (auto simp: groups_done_def)
  next
    case False
    have "achieves (\<forall>rg \<in> set (rg # rs). no_failure st rg) (groups_done st ds (rg # rs))
      (do { (r, st) \<leftarrow> check_rgrp_integrity rg fixit st; check_groups rs r st })"
    proof (rule achieves_bind [OF group_checked [OF Cons.prems(1) rg refl, where fixit = fixit, THEN achieves_weaken]])
      show "\<forall>rg \<in> set (rg # rs). no_failure st rg \<Longrightarrow> no_failure st rg" by simp
    next
      fix x
      assume x: "case x of (r, st') \<Rightarrow> \<exists>h st1. st' = st1\<lparr>fk_fs := put_rg h ?fs\<rparr> \<and> asked_on st st1 \<and> same_shape ?b rg h \<and>
        (\<forall>k < unat (rt_data rg). rg_state ?b h k = rg_state ?b rg k \<or> rg_state ?b rg k = 2 \<and> rg_state ?b h k = 0) \<and>
        (fixit \<longrightarrow> r) \<and> (fixit \<or> opts_yes st \<longrightarrow> (\<forall>k < unat (rt_data rg). rg_state ?b h k \<noteq> 2)) \<and>
        (opts_yes st \<longrightarrow> unat (rt_free h) = free_blocks ?b h) \<and> (opts_no st \<and> \<not> opts_yes st \<and> \<not> fixit \<longrightarrow> \<not> r \<and> h = rg) \<and>
        (\<not> sd_gfs1 (fs_sdp ?fs) \<and> (\<forall>k < unat (rt_data rg). rg_state ?b rg k \<noteq> 2) \<and> unat (rt_free rg) = free_blocks ?b rg \<longrightarrow>
           h = rg \<and> st1 = st \<and> r = fixit) \<and>
        (\<not> sd_gfs1 (fs_sdp ?fs) \<longrightarrow> errors_found st1 = errors_found st +
           (if \<exists>k < unat (rt_data rg). rg_state ?b rg k = 2 then 1 else 0) + (if unat (rt_free rg) = free_blocks ?b rg then 0 else 1))"
      obtain r st' where r: "x = (r, st')" by fastforce
      obtain h st1 where h: "st' = st1\<lparr>fk_fs := put_rg h ?fs\<rparr>" "asked_on st st1" "same_shape ?b rg h"
        and kept: "\<forall>k < unat (rt_data rg). rg_state ?b h k = rg_state ?b rg k \<or> rg_state ?b rg k = 2 \<and> rg_state ?b h k = 0"
        and yes: "opts_yes st \<Longrightarrow> \<forall>k < unat (rt_data rg). rg_state ?b h k \<noteq> 2" "opts_yes st \<Longrightarrow> unat (rt_free h) = free_blocks ?b h"
        and clean: "\<not> sd_gfs1 (fs_sdp ?fs) \<Longrightarrow> clean_group ?b rg \<Longrightarrow> h = rg \<and> st1 = st"
        and er: "\<not> sd_gfs1 (fs_sdp ?fs) \<Longrightarrow> errors_found st1 = errors_found st +
           (if \<exists>k < unat (rt_data rg). rg_state ?b rg k = 2 then 1 else 0) + (if unat (rt_free rg) = free_blocks ?b rg then 0 else 1)"
        using x unfolding r clean_group_def by blast
      have H: "rg_geo ?b h" "rt_addr h = rt_addr rg" "rt_data0 h = rt_data0 rg" "rt_data h = rt_data rg"
        using h(3) by (simp_all add: same_shape_def)
      have geo: "fs_geo (fk_fs st')" using put_group(1) [OF Cons.prems(1) rg H] h(1) by simp
      have rgs: "fs_rgs (fk_fs st') = (ds @ [h]) @ rs" using put_rg_middle [OF Cons.prems(1,2) H(2)] h(1) by simp
      have st': "opts_yes st' = opts_yes st" "opts_no st' = opts_no st" "fs_sdp (fk_fs st') = fs_sdp ?fs" "fs_disk (fk_fs st') = fs_disk ?fs" "fs_bsize (fk_fs st') = ?b"
        "opts_yes st \<longrightarrow> \<not> fsck_abort st' \<and> errors_found st' - errors_corrected st' = errors_found st - errors_corrected st"
        using h(1,2) False by (auto simp: asked_on_def)
      have one: "reclaimed ?b s rg h" if "s \<longrightarrow> opts_yes st" for s
        using h(3) kept yes that by (auto simp: reclaimed_def)
      show "achieves (\<forall>rg \<in> set (rg # rs). no_failure st rg) (groups_done st ds (rg # rs)) (case x of (r, st) \<Rightarrow> check_groups rs r st)"
        unfolding r prod.case
      proof (rule achieves_mono [OF achieves_weaken [OF Cons.IH [OF geo rgs, where fixit = r]]])
        show "\<forall>rg \<in> set rs. no_failure st' rg" if "\<forall>rg \<in> set (rg # rs). no_failure st rg"
          using that st'(1,2,4) by (simp add: no_failure_def)
      next
        fix st2
        assume d: "groups_done st' (ds @ [h]) rs st2"
        then obtain hs where hs: "fs_rgs (fk_fs st2) = (ds @ [h]) @ hs" "list_all2 (reclaimed ?b (opts_yes st' \<and> \<not> fsck_abort st')) rs hs"
          using st'(5) by (auto simp: groups_done_def)
        have "list_all2 (reclaimed ?b (opts_yes st \<and> \<not> fsck_abort st)) (rg # rs) (h # hs)"
        proof (rule list_all2_Cons [THEN iffD2], intro conjI)
          show "list_all2 (reclaimed ?b (opts_yes st \<and> \<not> fsck_abort st)) rs hs"
            by (rule list_all2_mono [OF hs(2)]) (use st'(1,6) in \<open>auto simp: reclaimed_def\<close>)
        qed (rule one, simp)
        moreover have "st2 = st" if "\<not> sd_gfs1 (fs_sdp ?fs)" "\<forall>rg \<in> set (rg # rs). clean_group ?b rg"
        proof -
          have "h = rg" "st1 = st" using clean that by auto
          then have "st' = st" using h(1) put_rg_id [OF Cons.prems(1) rg] by simp
          then show ?thesis using d that by (simp add: groups_done_def)
        qed
        moreover have "errors_found st2 = errors_found st + int (\<Sum>rg\<leftarrow>rg # rs. group_errors ?b rg)"
          if "\<not> sd_gfs1 (fs_sdp ?fs)" "opts_yes st"
        proof -
          have "errors_found st' = errors_found st + int (group_errors ?b rg)" using er [OF that(1)] h(1) by (simp add: group_errors_def)
          moreover have "errors_found st2 = errors_found st' + int (\<Sum>rg\<leftarrow>rs. group_errors ?b rg)"
            using d that st' by (simp add: groups_done_def)
          ultimately show ?thesis by simp
        qed
        ultimately show "groups_done st ds (rg # rs) st2"
          using d hs(1) st' by (auto simp: groups_done_def)
      qed
    qed
    then show ?thesis using False by simp
  qed
qed

text \<open>The state of a block comes from its group.\<close>

lemma reclaimed_states:
  assumes fs: "fs_geo fs" "fs_geo fs'" "fs_sdp fs' = fs_sdp fs" and s: "list_all2 (reclaimed (fs_bsize fs) settle) (fs_rgs fs) (fs_rgs fs')"
  shows "block_state fs' blk = block_state fs blk \<or> block_state fs blk = Some GFS2_BLKST_UNLINKED \<and> block_state fs' blk = Some GFS2_BLKST_FREE"
    "settle \<Longrightarrow> block_state fs' blk \<noteq> Some GFS2_BLKST_UNLINKED"
proof -
  have o: "rgs_ordered (inorder (fs_rgtree fs))" "rgs_ordered (inorder (fs_rgtree fs'))" using fs by (simp_all add: fs_geo_def fs_rgs_def)
  have b: "fs_bsize fs' = fs_bsize fs" using fs(3) by (simp only: fs_bsize_def)
  have rel: "rel_option (reclaimed (fs_bsize fs) settle) (gfs2_blk2rgrpd (fs_rgtree fs) blk) (gfs2_blk2rgrpd (fs_rgtree fs') blk)"
    unfolding blk2rgrpd_find [OF o(1)] blk2rgrpd_find [OF o(2)]
    using find_all2 [OF s, of "\<lambda>rg. rg_owns rg blk"] by (auto simp: fs_rgs_def reclaimed_def same_shape_def rg_owns_def)
  have "(block_state fs' blk = block_state fs blk \<or> block_state fs blk = Some GFS2_BLKST_UNLINKED \<and> block_state fs' blk = Some GFS2_BLKST_FREE)
      \<and> (settle \<longrightarrow> block_state fs' blk \<noteq> Some GFS2_BLKST_UNLINKED)"
  proof (cases "gfs2_blk2rgrpd (fs_rgtree fs) blk")
    case None
    then show ?thesis using rel by (simp add: block_state_def)
  next
    case (Some r)
    then obtain h where h: "gfs2_blk2rgrpd (fs_rgtree fs') blk = Some h" "reclaimed (fs_bsize fs) settle r h"
      using rel by (auto simp: option_rel_Some1)
    have r: "r \<in> set (fs_rgs fs)" "rg_owns r blk" using Some blk2rgrpd_Some_iff [OF o(1)] by (auto simp: fs_rgs_def)
    then have geo: "rg_geo (fs_bsize fs) r" using fs(1) by (simp add: fs_geo_def)
    show ?thesis
    proof (cases "rt_data0 r \<le> blk")
      case True
      note i = geo_owns_index(1) [OF geo r(2) True]
      then show ?thesis using Some h True b by (auto simp: block_state_def reclaimed_def same_shape_def)
    next
      case False
      then show ?thesis using Some h by (simp add: block_state_def reclaimed_def same_shape_def)
    qed
  qed
  then show "block_state fs' blk = block_state fs blk \<or> block_state fs blk = Some GFS2_BLKST_UNLINKED \<and> block_state fs' blk = Some GFS2_BLKST_FREE"
    "settle \<Longrightarrow> block_state fs' blk \<noteq> Some GFS2_BLKST_UNLINKED" by blast+
qed


section \<open>Properties\<close>


text \<open>
  Whatever the answers are, the check changes only unlinked blocks, to free ones, and nothing on the device.
\<close>

theorem group_check_keeps_blocks:
  assumes "fs_geo (fk_fs st)" "check_rgrps_integrity st = Some st'"
  shows "fs_geo (fk_fs st') \<and> fs_disk (fk_fs st') = fs_disk (fk_fs st) \<and>
    (\<forall>blk. block_state (fk_fs st') blk = block_state (fk_fs st) blk \<or>
       block_state (fk_fs st) blk = Some GFS2_BLKST_UNLINKED \<and> block_state (fk_fs st') blk = Some GFS2_BLKST_FREE)"
proof -
  have "groups_done st [] (fs_rgs (fk_fs st)) st'"
    using groups_loop [OF assms(1), of "[]" "fs_rgs (fk_fs st)" False] assms(2)
    by (auto simp: achieves_def check_rgrps_integrity_def fs_rgs_def returns_def)
  then have d: "fs_geo (fk_fs st')" "fs_sdp (fk_fs st') = fs_sdp (fk_fs st)" "fs_disk (fk_fs st') = fs_disk (fk_fs st)"
    "list_all2 (reclaimed (fs_bsize (fk_fs st)) (opts_yes st \<and> \<not> fsck_abort st)) (fs_rgs (fk_fs st)) (fs_rgs (fk_fs st'))"
    by (auto simp: groups_done_def)
  then show ?thesis using reclaimed_states(1) [OF assms(1) d(1,2,4)] by blast
qed

text \<open>
  A yes is not taken back: once the user has agreed for one group, unlinked blocks of every later one are freed, even if the
  answer there is no.
\<close>

theorem reclaim_answer_sticks:
  assumes "fs_geo (fk_fs st)" "rg \<in> set (fs_rgs (fk_fs st))" "check_rgrp_integrity rg True st = Some (r, st')" "i < unat (rt_data rg)"
  shows "r \<and> block_state (fk_fs st') (rt_data0 rg + of_nat i) \<noteq> Some GFS2_BLKST_UNLINKED"
proof -
  let ?b = "fs_bsize (fk_fs st)"
  obtain h st1 where h: "st' = st1\<lparr>fk_fs := put_rg h (fk_fs st)\<rparr>" "same_shape ?b rg h" r "\<forall>k < unat (rt_data rg). rg_state ?b h k \<noteq> 2"
    using group_checked [OF assms(1,2) refl, where fixit = True] assms(3) by (auto simp: achieves_def returns_def)
  have H: "rg_geo ?b h" "rt_addr h = rt_addr rg" "rt_data0 h = rt_data0 rg" "rt_data h = rt_data rg"
    using h(2) by (simp_all add: same_shape_def)
  have geo: "rg_geo ?b rg" using assms(1,2) by (simp add: fs_geo_def)
  show ?thesis
    using h put_group(2) [OF assms(1,2) H] geo_owns_data [OF geo assms(4)] assms(4) by simp
qed

text \<open>Both groups of the example, and an unlinked block in the first.\<close>

definition groups_example :: fsck where
  "groups_example = fsck_start (put_rg (rg_set 512 rgrp_example 5 2) (fs_example\<lparr>fs_disk := \<lambda>_. Some (replicate 512 0)\<rparr>)) 400"

lemma groups_example_facts:
  "fs_geo (fk_fs groups_example)" "rg_set 512 rgrp_example 5 2 \<in> set (fs_rgs (fk_fs groups_example))"
  "block_state (fk_fs groups_example) 206 = Some GFS2_BLKST_UNLINKED" "\<not> sd_gfs1 (fs_sdp (fk_fs groups_example))"
  "fs_bsize (fk_fs groups_example) = 512"
proof -
  let ?fs = "fs_example\<lparr>fs_disk := \<lambda>_. Some (replicate 512 0)\<rparr>" and ?h = "rg_set 512 rgrp_example 5 2"
  have fs: "fs_geo ?fs" "rgrp_example \<in> set (fs_rgs ?fs)" "fs_bsize ?fs = 512"
    using fs_example_ok fs_ok_geo [OF fs_example_ok(1)] by (simp_all add: fs_geo_def fs_rgs_def fs_bsize_def)
  have g: "rg_geo 512 rgrp_example" using rgrp_example_ok(1) by (simp add: rg_ok_geo)
  then have G: "geom 512 rgrp_example" "loaded 512 rgrp_example" by (simp_all add: rg_geo_def)
  have five: "5 < unat (rt_data rgrp_example)" by simp
  have H: "rg_geo (fs_bsize ?fs) ?h" "rt_addr ?h = rt_addr rgrp_example" "rt_data0 ?h = rt_data0 rgrp_example" "rt_data ?h = rt_data rgrp_example"
    using g rg_set_geom [OF G(1), of 5 2] rg_set_loaded [OF G five, of 2] by (simp_all add: rg_geo_def fs(3))
  have e: "fk_fs groups_example = put_rg ?h ?fs" by (simp add: groups_example_def fsck_start_def)
  note p = put_group [OF fs(1,2) H]
  show "fs_geo (fk_fs groups_example)" using p(1) e by simp
  show "?h \<in> set (fs_rgs (fk_fs groups_example))" using fs(2) H(2) unfolding e by force
  have "rg_state 512 ?h 5 = 2" using rg_set_state [OF G five five, of 2] by simp
  then show "block_state (fk_fs groups_example) 206 = Some GFS2_BLKST_UNLINKED"
    using p(2) geo_owns_data [OF g five] fs(3) unfolding e by simp
  show "\<not> sd_gfs1 (fs_sdp (fk_fs groups_example))" "fs_bsize (fk_fs groups_example) = 512"
    using fs(3) by (simp_all add: e) (simp add: fs_example_def sbd_example_def)
qed


theorem group_check_keeps_blocks_witness:
  "\<exists>st'. check_rgrps_integrity (groups_example\<lparr>opts_yes := False, opts_no := True\<rparr>) = Some st' \<and>
    block_state (fk_fs st') 206 \<in> {Some GFS2_BLKST_FREE, Some GFS2_BLKST_UNLINKED}"
proof -
  let ?st = "groups_example\<lparr>opts_yes := False, opts_no := True\<rparr>"
  have g: "fs_geo (fk_fs ?st)" using groups_example_facts(1) by simp
  have "fs_disk (fk_fs ?st) blk \<noteq> None" for blk by (simp add: groups_example_def fsck_start_def)
  then have "\<forall>rg \<in> set (fs_rgs (fk_fs ?st)). no_failure ?st rg" by (simp add: no_failure_def)
  then obtain st' where s: "check_rgrps_integrity ?st = Some st'"
    using groups_loop [OF g, of "[]" "fs_rgs (fk_fs ?st)" False] by (auto simp: achieves_def check_rgrps_integrity_def fs_rgs_def)
  have "block_state (fk_fs st') 206 = block_state (fk_fs ?st) 206 \<or>
      block_state (fk_fs ?st) 206 = Some GFS2_BLKST_UNLINKED \<and> block_state (fk_fs st') 206 = Some GFS2_BLKST_FREE"
    using group_check_keeps_blocks [OF g s] by blast
  moreover have "block_state (fk_fs ?st) 206 = Some GFS2_BLKST_UNLINKED" using groups_example_facts(3) by simp
  ultimately show ?thesis using s by auto
qed

theorem reclaim_answer_sticks_witness:
  "\<exists>st'. check_rgrp_integrity (rg_set 512 rgrp_example 5 2) True (groups_example\<lparr>opts_yes := False, opts_no := True\<rparr>) = Some (True, st') \<and>
     block_state (fk_fs st') 206 \<noteq> Some GFS2_BLKST_UNLINKED"
proof -
  let ?st = "groups_example\<lparr>opts_yes := False, opts_no := True\<rparr>" and ?rg = "rg_set 512 rgrp_example 5 2"
  have f: "fs_geo (fk_fs ?st)" "?rg \<in> set (fs_rgs (fk_fs ?st))" using groups_example_facts by simp_all
  have "fs_disk (fk_fs ?st) blk \<noteq> None" for blk by (simp add: groups_example_def fsck_start_def)
  then have "no_failure ?st ?rg" by (simp add: no_failure_def)
  then obtain r st' where "check_rgrp_integrity ?rg True ?st = Some (r, st')"
    using group_checked [OF f refl, where fixit = True] by (auto simp: achieves_def)
  moreover have "rt_data0 ?rg = 201" "rt_data ?rg = 16" by (simp_all add: rg_set_def Let_def)
  ultimately show ?thesis using reclaim_answer_sticks [OF f, of r st' 5] by auto
qed

end
