(* ===== verification/Spec2Isabelle.thy ===== *)
theory Spec2Isabelle
  imports Hash Ondisk Bits Rgrp RgPlan Rbm Meta Buf RgIO FsAlloc FsMap FsFile FsStuffed FsLog FsDir DirLinear DirSplit
    Super Build Create Fsck FsckLink FsckPass5 FsckReplay FsckDups
    FsckWalk FsckKeep FsckPass1 FsckMarks FsckDelete FsckLost FsckPass1b FsckPass2 FsckPass3 FsckPass4 FsckConnect
    FsckKeep2 FsckDriver FsckGroups
begin

text \<open>
  A verification development of gfs2-utils, the user space tools of the gfs2 file system. It models the library
  libgfs2, on which every tool rests, and the parts of fsck.gfs2 listed below. All paths are under src/gfs2/.

  1. The program and its parts

  A file system is a device of blocks. The superblock says how large the blocks are and where the system files are;
  an index file lists the resource groups, and each group keeps two bits for each of its blocks and a count of the
  free ones; inodes map the blocks of files and directories; each node of a cluster has a journal. mkfs writes such a
  file system, fsck replays the journals and then compares all of this with itself, in passes.

  Theory by theory, in the order of the imports:

  \<^item> Prelude: bytes and big-endian words in buffers, offsets, lists, and the locales \<open>codec\<close> and others that the theories
    below interpret. Layout and Types (include/linux/gfs2_ondisk.h, libgfs2/libgfs2.h, libgfs2/rgrp.h): the structures on disk
    as tables of fields with offsets and sizes, those in memory as records; a union is one field that its names share.
  \<^item> Hash (gfs2_disk_hash.c, crc32c.c): both checksums, by table and by instruction, against polynomial division.
  \<^item> Ondisk (ondisk.c, gfs1.c): the translation of every structure, round trips and the checksums of groups.
  \<^item> Bits (fs_bits.c): the search for a block of a state, word by word, against the plain search; setting and reading.
  \<^item> Rgrp, RgPlan, Rbm, RgIO (rgrp.c): the geometry of a group, the planning of groups on a device, positions and extents
    in the bitmaps, reading and writing groups.
  \<^item> Buf (buf.c): buffer heads over the device, \<open>bread\<close>, \<open>bget\<close>, \<open>brelse\<close>, \<open>bwrite\<close>.
  \<^item> Meta (meta.c): the descriptions of metadata as tables and the look-ups and conversions over them.
  \<^item> FsAlloc, FsMap, FsFile, FsStuffed (fs_ops.c, gfs1.c): allocation, inodes, heights, the map of blocks, reading and
    writing; files in one extent and stuffed files.
  \<^item> DirBlk, FsDir, DirLinear, DirSplit (fs_ops.c): the entries of a directory block, hashed directories, the splitting of
    leaves, look-up, addition and removal of names, new inodes.
  \<^item> FsLog (recovery.c, structures.c): log headers, new journals, the search for the head.
  \<^item> Super (super.c, misc.c, structures.c): the superblock and the index of groups. Build (structures.c): the system files.
    Create: both together.
  \<^item> Fsck (fsck/fsck.h, util.c, util.h, inode_hash.c, link.c, block_list.c and the start of metawalk.c and pass1.c): the state
    that the passes share as one record, \<open>fsck\<close>. FsckLink: the counting of links. FsckPass5 (pass5.c): the last pass.
    FsckReplay (fs_recovery.c): the recovery of journals. FsckDups (util.c, metawalk.c, afterpass1_common.c): blocks with
    more than one reference. FsckWalk (metawalk.c): the walk over an inode's metadata, with the functions of a pass as a record;
    FsckKeep: a condition that the functions of a pass keep is kept by the walk. FsckPass1 (pass1.c): the first pass;
    FsckMarks: what it keeps, and where it does not end. FsckDelete (afterpass1_common.c): the functions of a walk that deletes what
    an inode owns, and the removal of an entry. FsckLost (lost_n_found.c, osi_tree.h): lost+found and the order of the trees.
    FsckPass1b (pass1b.c): the resolution of blocks with more than one reference. FsckPass2 (pass2.c): entries, links and hash
    tables. FsckPass3 (pass3.c): the way from each directory to the root. FsckPass4 (pass4.c): the link counts.
    FsckConnect: conditions on the state that these passes keep, as two locales with two instances each, and what pass 3 reaches.
    FsckKeep2: the same conditions for pass 2. FsckDriver (main.c): the passes in their order, the check of the statfs file and the
    exit status; ctrl-c is taken at the start of a pass, or while it runs but behind its last look at the flags. FsckGroups
    (initialize.c): the reading of the groups before the passes, the check of each group, the bounds of the file system and the
    change of the lock protocol.

  2. How the model corresponds to the code

  Each C function is a definition of its name, with the guards and early returns in the order of the code; a loop is a
  recursive definition named after it, and a part of a long function that is used on its own has a name of its own.
  Integers have their width (\<open>u8\<close> to \<open>u64\<close>) wherever they can wrap. The file system in use is the record \<open>fs\<close>: the
  superblock, the groups and the device; it is passed through and returned. An inode in memory with its buffer is a
  \<open>vinode\<close>. The value None stands for what C leaves undefined or where the program ends: a read outside a buffer, a
  pointer that was freed, \<open>exit\<close>; where the code may loop for ever it is also the value of a loop that does
  (\<open>partial_function\<close>). Messages are left out. Memory never runs out.

  Parameters stand for what is not in the source: \<open>random()\<close>, the clock, \<open>errno\<close>, the CPU's crc32 instructions, the
  length of the device, \<open>uuid_unparse\<close>, the bytes of memory that was not initialised (\<open>junk\<close>) and the keys that the user types.

  Loops with fuel: \<open>gfs2_readi\<close> and \<open>gfs2_writei\<close> run at most once for each byte, so their fuel is the number of bytes
  and two; the blocks of \<open>lgfs2_write_filemeta\<close> are at most its pointers. Lemmas show that this is enough where a property
  rests on it.

  3. What the properties show

  Bitmaps and allocation: the fast search equals the plain one; a block set is the block read; an allocation takes
  exactly one free block and keeps the counts; an extent is exactly the blocks asked for. Planning: the groups fill the
  device and are well formed. Translation: what is written is read again, and checksums are what the kernel computes.
  Files: a file written in one extent has every block mapped where it says. Directories: a name that was added is
  found, one that was removed is not, no other name is touched, and a split loses no entry. Journals: the head found
  is the highest header; replay writes exactly the blocks whose last copy in the log is not revoked, and replay after
  a crash in the middle of a replay gives the same device; a dirty journal ends clean. fsck: the links counted are the
  references seen; pass 5 makes bitmaps and counts agree with the map of blocks, and a second run changes nothing;
  the deletion of an inode's references leaves exactly the others; a missing system inode is never there again after its check;
  pass 3 leaves no directory unchecked, though directories in a cycle count as connected;
  the statfs file is put right and stays so; the check of the groups before the passes frees exactly the unlinked blocks and settles the counts; a pass that the user skips is forgotten in the exit status. Several properties state what the code
  does where it is wrong, as found while modelling.

  4. Not modelled

  The rest of initialize.c and rgrepair.c of fsck, which find the system inodes and repair the index of groups, and the logging in main.c;
  in pass 1 the block that is read after its buffer was freed
  is taken to have its content still; the tools mkfs, grow, jadd, convert, edit, tune and glocktop beyond the library they call; the language gfs2l;
  device geometry; the rebalancing of trees (osi_tree.h), which changes no order; printing.
\<close>

end
